(* ===== verification/Yatl_Prelude.thy ===== *)
theory Yatl_Prelude
  imports Complex_Main
begin

text \<open>
  Shared vocabulary of the development: the exception classes of the modelled
  packages as one datatype of error values, the result type of fallible code,
  the combinators that compose it, and the lemmas every component uses to take a
  successful run apart. A Python \<^verbatim>\<open>raise\<close> is a value \<open>Inl e\<close>; a normal
  return is \<open>Inr x\<close>.
\<close>

section \<open>Exceptions as values\<close>

text \<open>
  One constructor per exception class that the modelled code raises or catches,
  carrying the message of the \<^verbatim>\<open>raise\<close>. The class hierarchy matters only
  where a handler names a base class: \<open>is_value_error\<close> lists the classes declared
  as subclasses of \<^verbatim>\<open>ValueError\<close>.
\<close>

datatype py_error =
    is_CandleValidationError: CandleValidationError string
  | is_QualityError: QualityError string
  | is_BacktestContractError: BacktestContractError string
  | is_BacktestConfigError: BacktestConfigError string
  | is_BacktestLoadError: BacktestLoadError string
  | is_BacktestClockError: BacktestClockError string
  | is_FillModelError: FillModelError string
  | is_CostModelError: CostModelError string
  | is_PortfolioError: PortfolioError string
  | is_MetricsError: MetricsError string
  | is_StrategyContractError: StrategyContractError string
  | is_FeatureError: FeatureError string
  | is_RegimeError: RegimeError string
  | is_StrategyRunError: StrategyRunError string
  | is_RiskContractError: RiskContractError string
  | is_RiskSizingError: RiskSizingError string
  | is_RiskLimitError: RiskLimitError string
  | is_RiskStateError: RiskStateError string
  | is_CircuitBreakerError: CircuitBreakerError string
  | is_KillSwitchError: KillSwitchError string
  | is_ProtectiveGateError: ProtectiveGateError string
  | is_RiskAdapterError: RiskAdapterError string
  | is_ExecutionContractError: ExecutionContractError string
  | is_ExecutionJournalError: ExecutionJournalError string
  | is_IntentConflict: IntentConflict string
  | is_LocalOrderError: LocalOrderError string
  | is_LocalOrderTransitionError: LocalOrderTransitionError string
  | is_LocalPaperFillError: LocalPaperFillError string
  | is_LocalPaperPortfolioError: LocalPaperPortfolioError string
  | is_DuplicateLocalPaperFill: DuplicateLocalPaperFill string
  | is_StartupReconciliationError: StartupReconciliationError string
  | is_RecoverySnapshotError: RecoverySnapshotError string
  | is_BreakoutStrategyError: BreakoutStrategyError string
  | is_TrendStrategyError: TrendStrategyError string
  | is_SignalAdapterError: SignalAdapterError string
  | is_RegistryError: RegistryError string
  | is_EvaluationError: EvaluationError string
  | is_CandidateRunError: CandidateRunError string
  | is_NormalizationError: NormalizationError string
  | is_HealthError: HealthError string
  | is_DivisionByZero: DivisionByZero
  | is_InvalidOperation: InvalidOperation
  | is_ValueError: ValueError string
  | is_TypeError: TypeError string
  | is_KeyError: KeyError string
  | is_OverflowError: OverflowError string
  | is_AttributeError: AttributeError string
  | is_ArtifactError: ArtifactError string
  | is_OperatorError: OperatorError string
  | is_AuditError: AuditError string

fun is_value_error :: "py_error \<Rightarrow> bool" where
  "is_value_error (CandleValidationError _) = True"
| "is_value_error (QualityError _) = True"
| "is_value_error (BacktestContractError _) = True"
| "is_value_error (BacktestConfigError _) = True"
| "is_value_error (RiskContractError _) = True"
| "is_value_error (RiskSizingError _) = True"
| "is_value_error (RiskLimitError _) = True"
| "is_value_error (RiskStateError _) = True"
| "is_value_error (CircuitBreakerError _) = True"
| "is_value_error (KillSwitchError _) = True"
| "is_value_error (ProtectiveGateError _) = True"
| "is_value_error (RiskAdapterError _) = True"
| "is_value_error (ExecutionContractError _) = True"
| "is_value_error (HealthError _) = True"
| "is_value_error (ValueError _) = True"
| "is_value_error _ = False"

type_synonym 'a result = "py_error + 'a"

section \<open>Composition of fallible steps\<close>

definition bind_r :: "'a result \<Rightarrow> ('a \<Rightarrow> 'b result) \<Rightarrow> 'b result" where
  "bind_r m f = (case m of Inl e \<Rightarrow> Inl e | Inr x \<Rightarrow> f x)"

text \<open>\<^verbatim>\<open>if not ok: raise e\<close> as a step that returns nothing.\<close>

definition require :: "bool \<Rightarrow> py_error \<Rightarrow> unit result" where
  "require ok e = (if ok then Inr () else Inl e)"

text \<open>
  \<^verbatim>\<open>try: m except <classes>: raise e\<close>: errors in the handler's classes are
  replaced, all others propagate.
\<close>

definition catch_r :: "'a result \<Rightarrow> (py_error \<Rightarrow> bool) \<Rightarrow> py_error \<Rightarrow> 'a result" where
  "catch_r m handled e = (case m of Inl e' \<Rightarrow> (if handled e' then Inl e else Inl e') | Inr x \<Rightarrow> Inr x)"

text \<open>
  A frozen dataclass runs \<^verbatim>\<open>__post_init__\<close> on the record of its fields: the
  constructor returns the record when the check passes.
\<close>

definition construct :: "('a \<Rightarrow> unit result) \<Rightarrow> 'a \<Rightarrow> 'a result" where
  "construct post_init x = bind_r (post_init x) (\<lambda>_. Inr x)"

text \<open>A comprehension whose element expression may raise.\<close>

fun map_r :: "('a \<Rightarrow> 'b result) \<Rightarrow> 'a list \<Rightarrow> 'b list result" where
  "map_r f [] = Inr []"
| "map_r f (x # xs) = bind_r (f x) (\<lambda>y. bind_r (map_r f xs) (\<lambda>ys. Inr (y # ys)))"

text \<open>Whether a result is a normal return.\<close>

definition returns :: "'a result \<Rightarrow> bool" where
  "returns m \<longleftrightarrow> (case m of Inl _ \<Rightarrow> False | Inr _ \<Rightarrow> True)"

named_theorems result_simps \<open>inversion of successful fallible steps\<close>

lemma bind_r_simps [simp]:
  "bind_r (Inr x) f = f x"
  "bind_r (Inl e) f = Inl e"
  by (simp_all add: bind_r_def)

lemma require_simps [simp]:
  "require True e = Inr ()"
  "require False e = Inl e"
  by (simp_all add: require_def)

lemma bind_r_eq_Inr [result_simps]:
  "bind_r m f = Inr y \<longleftrightarrow> (\<exists>x. m = Inr x \<and> f x = Inr y)"
  by (cases m) simp_all

lemma bind_r_eq_Inl [result_simps]:
  "bind_r m f = Inl e \<longleftrightarrow> m = Inl e \<or> (\<exists>x. m = Inr x \<and> f x = Inl e)"
  by (cases m) simp_all

lemma require_eq_Inr [result_simps, simp]:
  "require ok e = Inr u \<longleftrightarrow> ok"
  by (cases ok) simp_all

lemma require_eq_Inl [result_simps]:
  "require ok e = Inl e' \<longleftrightarrow> \<not> ok \<and> e' = e"
  by (cases ok) auto

lemma catch_r_eq_Inr [result_simps, simp]:
  "catch_r m h e = Inr x \<longleftrightarrow> m = Inr x"
  by (cases m) (simp_all add: catch_r_def)

lemma catch_r_simps [simp]:
  "catch_r (Inr x) h e = Inr x"
  "catch_r (Inl e') h e = (if h e' then Inl e else Inl e')"
  by (simp_all add: catch_r_def)

lemma construct_eq_Inr [result_simps]:
  "construct p x = Inr y \<longleftrightarrow> p x = Inr () \<and> y = x"
  by (cases "p x") (auto simp: construct_def)

lemma construct_ok: "p x = Inr () \<Longrightarrow> construct p x = Inr x"
  by (simp add: construct_def)

lemma returns_iff [result_simps]: "returns m \<longleftrightarrow> (\<exists>x. m = Inr x)"
  by (cases m) (simp_all add: returns_def)

lemma returns_simps [simp]: "returns (Inr x)" "\<not> returns (Inl e)"
  by (simp_all add: returns_def)

lemma map_r_eq_Inr:
  "map_r f xs = Inr ys \<longleftrightarrow> list_all2 (\<lambda>x y. f x = Inr y) xs ys"
proof (induction xs arbitrary: ys)
  case Nil
  then show ?case by auto
next
  case (Cons x xs)
  then show ?case by (auto simp: bind_r_eq_Inr list_all2_Cons1)
qed

lemma map_r_length: "map_r f xs = Inr ys \<Longrightarrow> length ys = length xs"
  by (auto simp: map_r_eq_Inr dest: list_all2_lengthD)

lemma map_r_source: "map_r f xs = Inr ys \<Longrightarrow> y \<in> set ys \<Longrightarrow> \<exists>x\<in>set xs. f x = Inr y"
  by (induction xs arbitrary: ys) (auto simp: bind_r_eq_Inr)

lemma map_r_exists:
  assumes "\<And>x. x \<in> set xs \<Longrightarrow> \<exists>y. f x = Inr y \<and> P x y"
  shows "\<exists>ys. map_r f xs = Inr ys \<and> list_all2 P xs ys"
  using assms
proof (induction xs)
  case (Cons x xs)
  then obtain y ys where "f x = Inr y" "P x y" "map_r f xs = Inr ys" "list_all2 P xs ys"
    by (meson list.set_intros)
  then show ?case by auto
qed simp

lemma map_r_eq: "(\<And>x. x \<in> set xs \<Longrightarrow> f x = Inr (h x)) \<Longrightarrow> map_r f xs = Inr (map h xs)"
  by (induction xs) simp_all

lemma map_r_pointwise: "(\<And>x. x \<in> set xs \<Longrightarrow> f (g x) = Inr (h x)) \<Longrightarrow> map_r f (map g xs) = Inr (map h xs)"
  by (induction xs) simp_all

lemma if_Inl_eq_Inr [result_simps]:
  "(if b then Inl e else m) = Inr x \<longleftrightarrow> \<not> b \<and> m = Inr x"
  by simp

section \<open>Stateful steps that can raise\<close>

text \<open>
  A method that mutates its object and may raise halfway: the object at the moment
  of the return or of the raise, and the result. \<open>with_rollback\<close> is the pattern
  \<^verbatim>\<open>state = save(); try: m except <classes>: restore(state); raise\<close>.
\<close>

type_synonym ('s, 'a) action = "'s \<Rightarrow> 's \<times> 'a result"

definition act_return :: "'a \<Rightarrow> ('s, 'a) action" where
  "act_return x s = (s, Inr x)"

definition act_raise :: "py_error \<Rightarrow> ('s, 'a) action" where
  "act_raise e s = (s, Inl e)"

definition act_lift :: "'a result \<Rightarrow> ('s, 'a) action" where
  "act_lift r s = (s, r)"

definition act_bind :: "('s, 'a) action \<Rightarrow> ('a \<Rightarrow> ('s, 'b) action) \<Rightarrow> ('s, 'b) action" where
  "act_bind m f s = (case m s of (s', Inl e) \<Rightarrow> (s', Inl e) | (s', Inr x) \<Rightarrow> f x s')"

definition act_update :: "('s \<Rightarrow> 's) \<Rightarrow> ('s, unit) action" where
  "act_update u s = (u s, Inr ())"

fun act_for :: "'a list \<Rightarrow> ('a \<Rightarrow> ('s, unit) action) \<Rightarrow> ('s, unit) action" where
  "act_for [] f s = (s, Inr ())"
| "act_for (x # xs) f s = act_bind (f x) (\<lambda>_. act_for xs f) s"

definition with_rollback :: "(py_error \<Rightarrow> bool) \<Rightarrow> ('s, 'a) action \<Rightarrow> ('s, 'a) action" where
  "with_rollback handled m s =
     (case m s of (s', Inl e) \<Rightarrow> (if handled e then s else s', Inl e) | (s', Inr x) \<Rightarrow> (s', Inr x))"

lemma act_simps [simp]:
  "act_return x s = (s, Inr x)"
  "act_raise e s = (s, Inl e)"
  "act_lift r s = (s, r)"
  "act_update u s = (u s, Inr ())"
  by (simp_all add: act_return_def act_raise_def act_lift_def act_update_def)

lemma act_bind_eq_Inr [result_simps]:
  "act_bind m f s = (t, Inr y) \<longleftrightarrow> (\<exists>s' x. m s = (s', Inr x) \<and> f x s' = (t, Inr y))"
  by (auto simp: act_bind_def split: prod.splits sum.splits)

lemma act_bind_eq_Inl [result_simps]:
  "act_bind m f s = (t, Inl e) \<longleftrightarrow>
     m s = (t, Inl e) \<or> (\<exists>s' x. m s = (s', Inr x) \<and> f x s' = (t, Inl e))"
  by (auto simp: act_bind_def split: prod.splits sum.splits)

lemma act_bind_step [simp]:
  "m s = (s', Inr x) \<Longrightarrow> act_bind m f s = f x s'"
  "m s = (s', Inl e) \<Longrightarrow> act_bind m f s = (s', Inl e)"
  by (simp_all add: act_bind_def)

lemma with_rollback_Inr [result_simps]:
  "with_rollback h m s = (t, Inr x) \<longleftrightarrow> m s = (t, Inr x)"
  by (auto simp: with_rollback_def split: prod.splits sum.splits)

lemma with_rollback_Inl:
  "with_rollback h m s = (t, Inl e) \<Longrightarrow> h e \<Longrightarrow> t = s"
  by (auto simp: with_rollback_def split: prod.splits sum.splits)

text \<open>
  The contract of a mutating operation that restores its object when it raises:
  a failed call changes nothing, and a successful call keeps the invariant; so a
  caller that ignores failures always holds a consistent object.
\<close>

locale atomic_object =
  fixes step :: "'i \<Rightarrow> ('s, 'a) action"
    and admissible :: "'i \<Rightarrow> bool"
    and inv :: "'s \<Rightarrow> bool"
  assumes failed_step: "inv s \<Longrightarrow> admissible i \<Longrightarrow> step i s = (t, Inl e) \<Longrightarrow> t = s"
    and ok_step: "inv s \<Longrightarrow> admissible i \<Longrightarrow> step i s = (t, Inr x) \<Longrightarrow> inv t"
begin

definition drive :: "'i list \<Rightarrow> 's \<Rightarrow> 's" where
  "drive is s = foldl (\<lambda>s i. fst (step i s)) s is"

lemma step_inv: "inv s \<Longrightarrow> admissible i \<Longrightarrow> inv (fst (step i s))"
  by (cases "step i s", cases "snd (step i s)") (auto dest: failed_step ok_step)

lemma drive_inv: "inv s \<Longrightarrow> list_all admissible is \<Longrightarrow> inv (drive is s)"
  unfolding drive_def by (induction "is" arbitrary: s) (simp_all add: step_inv)

text \<open>Failed calls can be erased from a history without changing the object.\<close>

lemma drive_skip_failed:
  assumes "inv s" "list_all admissible is" "admissible i"
  shows "returns (snd (step i (drive is s))) \<or> drive (is @ [i] @ js) s = drive (is @ js) s"
proof (cases "step i (drive is s)")
  case (Pair t r)
  then show ?thesis
    using failed_step [OF drive_inv [OF assms(1,2)] assms(3)] by (cases r) (auto simp: drive_def)
qed

end

section \<open>Hash-chained state sequences\<close>

text \<open>A run of a transition function from no state at all; it stops at the first error.\<close>

fun chain_run :: "('s option \<Rightarrow> 'o \<Rightarrow> 's result) \<Rightarrow> 's option \<Rightarrow> 'o list \<Rightarrow> 's list result" where
  "chain_run step previous [] = Inr []"
| "chain_run step previous (x # xs) =
     bind_r (step previous x) (\<lambda>s. bind_r (chain_run step (Some s) xs) (\<lambda>ss. Inr (s # ss)))"

lemma chain_run_snoc:
  "chain_run step p (xs @ [x]) =
     bind_r (chain_run step p xs) (\<lambda>ss.
     bind_r (step (if ss = [] then p else Some (last ss)) x) (\<lambda>s. Inr (ss @ [s])))"
proof (induction xs arbitrary: p)
  case (Cons y ys)
  show ?case
  proof (cases "step p y")
    case (Inr t)
    show ?thesis
    proof (cases "chain_run step (Some t) ys")
      case (Inr ts)
      then show ?thesis using \<open>step p y = Inr t\<close> Cons.IH [of "Some t"]
        by (cases "step (if ts = [] then Some t else Some (last ts)) x") auto
    qed (use Inr Cons.IH [of "Some t"] in simp)
  qed simp
qed (simp add: bind_r_def split: sum.splits)

text \<open>
  The contract of a hash-chained state: the first state has sequence zero and no
  predecessor; every later one has the next sequence number, a later time and the
  digest of its predecessor.
\<close>

locale hash_chain =
  fixes step :: "'s option \<Rightarrow> 'o \<Rightarrow> 's result"
    and seq_of :: "'s \<Rightarrow> int" and time_of :: "'s \<Rightarrow> int"
    and prev_of :: "'s \<Rightarrow> string option" and digest_of :: "'s \<Rightarrow> string"
  assumes first_step: "step None x = Inr s \<Longrightarrow> seq_of s = 0 \<and> prev_of s = None"
    and next_step: "step (Some s) x = Inr t \<Longrightarrow>
      seq_of t = seq_of s + 1 \<and> time_of s < time_of t \<and> prev_of t = Some (digest_of s)"
begin

text \<open>Each state of a run with its predecessor.\<close>

fun linked :: "'s option \<Rightarrow> 's list \<Rightarrow> bool" where
  "linked p [] \<longleftrightarrow> True"
| "linked p (s # ss) \<longleftrightarrow>
     (case p of None \<Rightarrow> seq_of s = 0 \<and> prev_of s = None
      | Some q \<Rightarrow> seq_of s = seq_of q + 1 \<and> time_of q < time_of s \<and> prev_of s = Some (digest_of q))
     \<and> linked (Some s) ss"

lemma chain_run_linked:
  "chain_run step p xs = Inr ss \<Longrightarrow> linked p ss \<and> length ss = length xs"
proof (induction xs arbitrary: p ss)
  case (Cons x xs)
  then obtain s ts where s: "step p x = Inr s" and t: "chain_run step (Some s) xs = Inr ts"
    and ss: "ss = s # ts"
    by (auto simp: bind_r_eq_Inr)
  from Cons.IH [OF t] s show ?case
    by (cases p) (auto simp: ss dest: first_step next_step)
qed simp

lemma linked_times:
  "linked p ss \<Longrightarrow> sorted_wrt (<) (map time_of ss) \<and> (\<forall>q. p = Some q \<longrightarrow> (\<forall>s\<in>set ss. time_of q < time_of s))"
proof (induction ss arbitrary: p)
  case (Cons s ss)
  have l: "linked (Some s) ss" using Cons.prems by simp
  show ?case using Cons.IH [OF l] Cons.prems by (force split: option.splits)
qed simp

lemma linked_nth:
  "linked p ss \<Longrightarrow> i < length ss \<Longrightarrow>
     seq_of (ss ! i) = (case p of None \<Rightarrow> int i | Some q \<Rightarrow> seq_of q + 1 + int i)
     \<and> prev_of (ss ! i) = (case i of 0 \<Rightarrow> map_option digest_of p | Suc j \<Rightarrow> Some (digest_of (ss ! j)))"
proof (induction ss arbitrary: p i)
  case (Cons s ss)
  then show ?case
    using Cons.IH [of "Some s" "i - 1"]
    by (cases i) (auto split: option.splits nat.splits simp: nth_Cons')
qed simp

text \<open>
  Tamper evidence: when two chained sequences of the same length end in the same state,
  the last position where they differ is a collision of the digest.
\<close>

lemma linked_snoc: "linked p (ss @ [s]) \<Longrightarrow> linked p ss"
  by (induction ss arbitrary: p) auto

lemma linked_last_digest:
  assumes "linked None (ss @ [s])" "ss \<noteq> []"
  shows "prev_of s = Some (digest_of (last ss))"
proof -
  obtain k where k: "length ss = Suc k" using assms(2) by (cases "length ss") auto
  then have "last ss = ss ! k" using assms(2) by (simp add: last_conv_nth)
  then show ?thesis using linked_nth [OF assms(1), of "length ss"] k by (simp add: nth_append)
qed

lemma tamper_evident:
  assumes "linked None ss" "linked None ts" "length ss = length ts" "last ss = last ts" "ss \<noteq> ts"
  shows "\<exists>i < length ss. ss ! i \<noteq> ts ! i \<and> digest_of (ss ! i) = digest_of (ts ! i)"
  using assms
proof (induction ss arbitrary: ts rule: rev_induct)
  case (snoc s ss)
  obtain ts' t where ts: "ts = ts' @ [t]" using snoc.prems(3) by (cases ts rule: rev_cases) auto
  have e: "s = t" and n: "length ss = length ts'" and d: "ss \<noteq> ts'" using snoc.prems ts by simp_all
  then have ne: "ss \<noteq> []" "ts' \<noteq> []" by auto
  have l: "linked None ss" "linked None ts'" using snoc.prems(1,2) ts by (auto intro: linked_snoc)
  have "digest_of (last ss) = digest_of (last ts')"
    using linked_last_digest [OF snoc.prems(1) ne(1)] linked_last_digest [OF snoc.prems(2) [unfolded ts] ne(2)] e
    by simp
  then have "\<exists>i < length ss. ss ! i \<noteq> ts' ! i \<and> digest_of (ss ! i) = digest_of (ts' ! i)"
  proof (cases "last ss = last ts'")
    case False
    then show ?thesis
      using \<open>digest_of (last ss) = digest_of (last ts')\<close> ne n
      by (intro exI [of _ "length ss - 1"]) (simp add: last_conv_nth)
  qed (rule snoc.IH [OF l n _ d])
  then show ?case using n by (auto simp: ts nth_append intro: less_SucI)
qed simp

end

section \<open>Text\<close>

text \<open>\<^verbatim>\<open>str.lower\<close> on an ASCII character.\<close>

definition lower_char :: "char \<Rightarrow> char" where
  "lower_char c = (let n = of_char c :: nat in if 65 \<le> n \<and> n \<le> 90 then char_of (n + 32) else c)"

fun join_lines :: "string list \<Rightarrow> string" where
  "join_lines [] = []"
| "join_lines [l] = l"
| "join_lines (l # m # ls) = l @ CHR 0x0A # join_lines (m # ls)"

section \<open>Sets given by lists\<close>

text \<open>
  A loop with a \<^verbatim>\<open>seen\<close> set, a \<^verbatim>\<open>repeated\<close> set and an output list, as the
  quality checks have it: each value that occurs again is reported once, at its
  second occurrence.
\<close>

fun repeated_once :: "'a list \<Rightarrow> 'a list \<Rightarrow> 'a list \<Rightarrow> 'a list" where
  "repeated_once seen rep [] = []"
| "repeated_once seen rep (x # xs) =
     (if x \<in> set seen \<and> x \<notin> set rep then x # repeated_once (x # seen) (x # rep) xs
      else repeated_once (x # seen) rep xs)"

lemma set_repeated_once:
  "set (repeated_once seen rep xs) =
     {x \<in> set xs. x \<notin> set rep \<and> (x \<in> set seen \<or> 2 \<le> count_list xs x)}"
proof (induction seen rep xs rule: repeated_once.induct)
  case (1 seen rep)
  then show ?case by simp
next
  case (2 seen rep x xs)
  have cl: "x \<in> set xs \<longleftrightarrow> 1 \<le> count_list xs x"
    by (metis count_list_0_iff less_one linorder_not_less)
  show ?case
  proof (cases "x \<in> set seen \<and> x \<notin> set rep")
    case True
    with 2(1) show ?thesis by auto
  next
    case False
    with 2(2) cl show ?thesis by auto
  qed
qed

lemma distinct_repeated_once: "distinct (repeated_once seen rep xs)"
proof (induction seen rep xs rule: repeated_once.induct)
  case (2 seen rep x xs)
  then show ?case by (auto simp: set_repeated_once)
qed simp

lemma repeated_once_Nil_iff: "repeated_once [] [] xs = [] \<longleftrightarrow> distinct xs"
proof -
  have "repeated_once [] [] xs = [] \<longleftrightarrow> (\<forall>x \<in> set xs. count_list xs x < 2)"
    by (auto simp: set_repeated_once set_empty [symmetric] simp del: set_empty)
  also have "\<dots> \<longleftrightarrow> distinct xs"
  proof (induction xs)
    case (Cons x xs)
    have "count_list xs x < 1 \<longleftrightarrow> x \<notin> set xs"
      by (metis count_list_0_iff less_one)
    with Cons show ?case by (auto simp: numeral_2_eq_2)
  qed simp
  finally show ?thesis .
qed

end
