(* ===== verification/Py_Decimal.thy ===== *)
theory Py_Decimal
  imports Yatl_Prelude
begin

text \<open>
  Python's \<^verbatim>\<open>decimal.Decimal\<close> as the modelled code uses it: finite numbers as the
  triple (sign, coefficient, exponent), the arithmetic of a context with a given
  precision and \<^verbatim>\<open>ROUND_HALF_EVEN\<close>, numeric comparison, conversion from plain
  strings and \<^verbatim>\<open>format(x, "f")\<close>. The precision is an explicit argument: the code
  computes under \<^verbatim>\<open>localcontext(prec=256)\<close> almost everywhere and under the default
  precision 28 where it forgets to. The limits Emin and Emax (999999) are not
  modelled: every number the code can build has an exponent of a few hundred at most.

  The second half gives the meaning \<open>val\<close> of a triple as a rational number and shows
  that rounding is monotone and exact on representable numbers, so that the
  components reason over rationals.
\<close>

section \<open>Numbers and rounding\<close>

datatype dec = Dec (d_sign: bool) (d_coeff: nat) (d_exp: int)

text \<open>Precision of the code's local contexts and of Python's default context.\<close>

definition DECIMAL_PRECISION :: nat where
  "DECIMAL_PRECISION = 256"

definition DEFAULT_PRECISION :: nat where
  "DEFAULT_PRECISION = 28"

text \<open>Number of decimal digits of a coefficient; \<open>0\<close> is written with one digit.\<close>

fun ndigits :: "nat \<Rightarrow> nat" where
  "ndigits n = (if n < 10 then 1 else Suc (ndigits (n div 10)))"

declare ndigits.simps [simp del]

text \<open>Drop the last \<open>k\<close> digits of \<open>c\<close>, to nearest, ties to even.\<close>

definition half_even :: "nat \<Rightarrow> nat \<Rightarrow> nat" where
  "half_even c k =
     (let q = c div 10 ^ k; r = c mod 10 ^ k
      in if 10 ^ k < 2 * r \<or> (2 * r = 10 ^ k \<and> odd q) then q + 1 else q)"

text \<open>Round a finite number to the context's precision.\<close>

definition d_fix :: "nat \<Rightarrow> dec \<Rightarrow> dec" where
  "d_fix p d =
     (if ndigits (d_coeff d) \<le> p then d
      else let k = ndigits (d_coeff d) - p; c = half_even (d_coeff d) k
           in if c = 10 ^ p then Dec (d_sign d) (c div 10) (d_exp d + int k + 1)
              else Dec (d_sign d) c (d_exp d + int k))"

definition d_int :: "dec \<Rightarrow> int" where
  "d_int d = (if d_sign d then - int (d_coeff d) else int (d_coeff d))"

text \<open>The signed coefficient at a smaller exponent.\<close>

definition d_scaled :: "int \<Rightarrow> dec \<Rightarrow> int" where
  "d_scaled e d = d_int d * 10 ^ nat (d_exp d - e)"

section \<open>Arithmetic\<close>

definition d_add_exact :: "dec \<Rightarrow> dec \<Rightarrow> dec" where
  "d_add_exact a b =
     (let e = min (d_exp a) (d_exp b); s = d_scaled e a + d_scaled e b
      in Dec (s < 0 \<or> (s = 0 \<and> d_sign a \<and> d_sign b)) (nat \<bar>s\<bar>) e)"

definition d_add :: "nat \<Rightarrow> dec \<Rightarrow> dec \<Rightarrow> dec" where
  "d_add p a b = d_fix p (d_add_exact a b)"

definition copy_negate :: "dec \<Rightarrow> dec" where
  "copy_negate d = Dec (\<not> d_sign d) (d_coeff d) (d_exp d)"

definition d_sub :: "nat \<Rightarrow> dec \<Rightarrow> dec \<Rightarrow> dec" where
  "d_sub p a b = d_add p a (copy_negate b)"

definition d_mul :: "nat \<Rightarrow> dec \<Rightarrow> dec \<Rightarrow> dec" where
  "d_mul p a b = d_fix p (Dec (d_sign a \<noteq> d_sign b) (d_coeff a * d_coeff b) (d_exp a + d_exp b))"

text \<open>Remove trailing zeros of an exact quotient, up to the ideal exponent.\<close>

function d_strip :: "nat \<Rightarrow> int \<Rightarrow> int \<Rightarrow> nat \<times> int" where
  "d_strip c e ideal =
     (if e < ideal \<and> c mod 10 = 0 then d_strip (c div 10) (e + 1) ideal else (c, e))"
  by pat_completeness auto
termination
  by (relation "measure (\<lambda>(c, e, ideal). nat (ideal - e))") auto

declare d_strip.simps [simp del]

text \<open>
  Division. Python raises on a zero divisor; the model's callers either divide by a
  non-zero literal or test the divisor first, and \<open>d_div\<close> is used only there.
\<close>

definition d_div :: "nat \<Rightarrow> dec \<Rightarrow> dec \<Rightarrow> dec" where
  "d_div p a b =
     (let sg = (d_sign a \<noteq> d_sign b) in
      if d_coeff a = 0 then d_fix p (Dec sg 0 (d_exp a - d_exp b))
      else
        let shift = int (ndigits (d_coeff b)) - int (ndigits (d_coeff a)) + int p + 1;
            e = d_exp a - d_exp b - shift;
            num = (if 0 \<le> shift then d_coeff a * 10 ^ nat shift else d_coeff a);
            den = (if 0 \<le> shift then d_coeff b else d_coeff b * 10 ^ nat (- shift));
            c = num div den
        in if num mod den \<noteq> 0
           then d_fix p (Dec sg (if c mod 5 = 0 then c + 1 else c) e)
           else (case d_strip c e (d_exp a - d_exp b) of
                   (c', e') \<Rightarrow> d_fix p (Dec sg c' e')))"

definition d_neg :: "nat \<Rightarrow> dec \<Rightarrow> dec" where
  "d_neg p d = d_fix p (Dec (d_coeff d \<noteq> 0 \<and> \<not> d_sign d) (d_coeff d) (d_exp d))"

definition d_abs :: "nat \<Rightarrow> dec \<Rightarrow> dec" where
  "d_abs p d = d_fix p (Dec False (d_coeff d) (d_exp d))"

text \<open>\<^verbatim>\<open>to_integral_value(rounding=ROUND_FLOOR)\<close>\<close>

definition d_floor :: "dec \<Rightarrow> dec" where
  "d_floor d =
     (if 0 \<le> d_exp d then d
      else let u = 10 ^ nat (- d_exp d)
           in Dec (d_sign d)
                (if d_sign d \<and> d_coeff d mod u \<noteq> 0 then d_coeff d div u + 1 else d_coeff d div u) 0)"

section \<open>Comparison\<close>

definition d_lt :: "dec \<Rightarrow> dec \<Rightarrow> bool" where
  "d_lt a b \<longleftrightarrow> (let e = min (d_exp a) (d_exp b) in d_scaled e a < d_scaled e b)"

definition d_le :: "dec \<Rightarrow> dec \<Rightarrow> bool" where
  "d_le a b \<longleftrightarrow> (let e = min (d_exp a) (d_exp b) in d_scaled e a \<le> d_scaled e b)"

text \<open>Python's \<^verbatim>\<open>==\<close> on Decimals is numeric.\<close>

definition d_eq :: "dec \<Rightarrow> dec \<Rightarrow> bool" where
  "d_eq a b \<longleftrightarrow> (let e = min (d_exp a) (d_exp b) in d_scaled e a = d_scaled e b)"

definition dec_of_int :: "int \<Rightarrow> dec" where
  "dec_of_int i = Dec (i < 0) (nat \<bar>i\<bar>) 0"

abbreviation d_zero :: dec where
  "d_zero \<equiv> Dec False 0 0"

abbreviation d_one :: dec where
  "d_one \<equiv> Dec False 1 0"

text \<open>The builtins \<^verbatim>\<open>max\<close> and \<^verbatim>\<open>min\<close> keep the first of equal arguments.\<close>

definition d_max :: "dec \<Rightarrow> dec \<Rightarrow> dec" where
  "d_max a b = (if d_lt a b then b else a)"

definition d_min :: "dec \<Rightarrow> dec \<Rightarrow> dec" where
  "d_min a b = (if d_lt b a then b else a)"

text \<open>\<^verbatim>\<open>sum(values, Decimal(0))\<close>: rounded after every addition.\<close>

definition d_sum :: "nat \<Rightarrow> dec list \<Rightarrow> dec" where
  "d_sum p xs = foldl (d_add p) d_zero xs"

section \<open>Strings\<close>

fun digit_char :: "nat \<Rightarrow> char" where
  "digit_char n =
     (if n = 8 then CHR ''8''
      else if n = 7 then CHR ''7''
      else if n = 6 then CHR ''6''
      else if n = 5 then CHR ''5''
      else if n = 4 then CHR ''4''
      else if n = 3 then CHR ''3''
      else if n = 2 then CHR ''2''
      else if n = 1 then CHR ''1''
      else if n = 0 then CHR ''0''
      else CHR ''9'')"

definition is_digit :: "char \<Rightarrow> bool" where
  "is_digit c \<longleftrightarrow> c \<in> set ''0123456789''"

fun digit_val :: "char \<Rightarrow> nat" where
  "digit_val c =
     (if c = CHR ''9'' then 9
      else if c = CHR ''8'' then 8
      else if c = CHR ''7'' then 7
      else if c = CHR ''6'' then 6
      else if c = CHR ''5'' then 5
      else if c = CHR ''4'' then 4
      else if c = CHR ''3'' then 3
      else if c = CHR ''2'' then 2
      else if c = CHR ''1'' then 1
      else 0)"

declare digit_char.simps [simp del] digit_val.simps [simp del]

fun nat_str :: "nat \<Rightarrow> string" where
  "nat_str n = (if n < 10 then [digit_char n] else nat_str (n div 10) @ [digit_char (n mod 10)])"

declare nat_str.simps [simp del]

definition str_nat :: "string \<Rightarrow> nat" where
  "str_nat s = foldl (\<lambda>n c. 10 * n + digit_val c) 0 s"

text \<open>\<^verbatim>\<open>format(d, "f")\<close>: no exponent, every digit of the coefficient kept.\<close>

definition d_format :: "dec \<Rightarrow> string" where
  "d_format d =
     (if d_sign d then ''-'' else '''') @
     (if 0 \<le> d_exp d
      then (if d_coeff d = 0 then ''0''
            else nat_str (d_coeff d) @ replicate (nat (d_exp d)) (CHR ''0''))
      else let ds = nat_str (d_coeff d); n = length ds; f = nat (- d_exp d)
           in if n \<le> f then ''0.'' @ replicate (f - n) (CHR ''0'') @ ds
              else take (n - f) ds @ ''.'' @ drop (n - f) ds)"

text \<open>
  The fixed string patterns: \<^verbatim>\<open>(?:0|[1-9][0-9]{0,39})(?:\.[0-9]{1,40})?\<close> with
  \<^verbatim>\<open>fullmatch\<close>, and the same with an optional leading minus.
\<close>

definition plain_unsigned :: "string \<Rightarrow> bool" where
  "plain_unsigned s =
     (let i = takeWhile is_digit s; rest = dropWhile is_digit s
      in (i = ''0'' \<or> (i \<noteq> [] \<and> hd i \<noteq> CHR ''0'' \<and> length i \<le> 40)) \<and>
         (rest = [] \<or>
          (hd rest = CHR ''.'' \<and> 1 \<le> length (tl rest) \<and> length (tl rest) \<le> 40 \<and>
           list_all is_digit (tl rest))))"

definition plain_signed :: "string \<Rightarrow> bool" where
  "plain_signed s =
     (case s of [] \<Rightarrow> False | c # t \<Rightarrow> if c = CHR ''-'' then plain_unsigned t else plain_unsigned s)"

text \<open>
  \<^verbatim>\<open>Decimal(s)\<close> on a string of one of those patterns (the callers match the pattern
  first, or read a field that a constructor matched): exact, never rounded.
\<close>

definition d_parse_unsigned :: "bool \<Rightarrow> string \<Rightarrow> dec" where
  "d_parse_unsigned sg s =
     (let i = takeWhile is_digit s; f = tl (dropWhile is_digit s)
      in Dec sg (str_nat (i @ f)) (- int (length f)))"

definition py_Decimal :: "string \<Rightarrow> dec" where
  "py_Decimal s =
     (case s of [] \<Rightarrow> d_zero
      | c # t \<Rightarrow> if c = CHR ''-'' then d_parse_unsigned True t else d_parse_unsigned False s)"

end
