(* ===== verification/Decimal_Value.thy ===== *)
theory Decimal_Value
  imports Py_Decimal
begin

text \<open>
  The rational number a Decimal denotes, and what the context's rounding does to it:
  comparison is comparison of values, rounding never crosses a representable number,
  and an operation whose exact result is representable is exact.
\<close>

section \<open>Values\<close>

named_theorems dec_val \<open>comparison and unrounded operations as operations on rationals\<close>

definition val :: "dec \<Rightarrow> rat" where
  "val d = of_int (d_int d) * 10 powi d_exp d"

definition mag :: "dec \<Rightarrow> rat" where
  "mag d = of_nat (d_coeff d) * 10 powi d_exp d"

lemma val_mag: "val d = (if d_sign d then - mag d else mag d)"
  by (simp add: val_def mag_def d_int_def)

lemma mag_nonneg [simp]: "0 \<le> mag d"
  by (simp add: mag_def)

lemma mag_abs_val: "mag d = \<bar>val d\<bar>"
  by (simp add: val_mag)

lemma val_d_zero [simp]: "val (Dec s 0 e) = 0"
  by (simp add: val_def d_int_def)

lemma val_d_one [simp]: "val (Dec False (Suc 0) 0) = 1"
  by (simp add: val_def d_int_def)

lemma val_dec_of_int [dec_val]: "val (dec_of_int i) = of_int i"
  by (simp add: val_def d_int_def dec_of_int_def)

lemma ten_powi_pos [simp]: "0 < (10::rat) powi z"
  by simp

lemma ten_powi_add: "(10::rat) powi (a + b) = 10 powi a * 10 powi b"
  by (simp add: power_int_add)

lemma ten_powi_nat: "0 \<le> z \<Longrightarrow> (10::rat) powi z = 10 ^ nat z"
  by (simp add: power_int_def)

lemma ten_powi_split:
  assumes "e \<le> z"
  shows "(10::rat) powi z = 10 ^ nat (z - e) * 10 powi e"
proof -
  have "(10::rat) powi z = 10 powi ((z - e) + e)" by simp
  also have "\<dots> = 10 powi (z - e) * 10 powi e" by (rule ten_powi_add)
  also have "(10::rat) powi (z - e) = 10 ^ nat (z - e)" using assms by (simp add: ten_powi_nat)
  finally show ?thesis .
qed

lemma ten_powi_mono: "a \<le> b \<Longrightarrow> (10::rat) powi a \<le> 10 powi b"
  by (simp add: power_int_increasing)

lemma d_scaled_val:
  assumes "e \<le> d_exp d"
  shows "val d = of_int (d_scaled e d) * 10 powi e"
  using ten_powi_split [OF assms] by (simp add: val_def d_scaled_def)

lemma d_lt_val [dec_val]: "d_lt a b \<longleftrightarrow> val a < val b"
proof -
  let ?e = "min (d_exp a) (d_exp b)"
  have "val a < val b \<longleftrightarrow>
      (of_int (d_scaled ?e a) :: rat) * 10 powi ?e < of_int (d_scaled ?e b) * 10 powi ?e"
    using d_scaled_val [of ?e a] d_scaled_val [of ?e b] by simp
  also have "\<dots> \<longleftrightarrow> d_scaled ?e a < d_scaled ?e b" by simp
  finally show ?thesis by (simp add: d_lt_def Let_def)
qed

lemma d_le_val [dec_val]: "d_le a b \<longleftrightarrow> val a \<le> val b"
proof -
  have "d_le a b \<longleftrightarrow> \<not> d_lt b a"
    by (simp add: d_le_def d_lt_def Let_def min.commute not_less)
  then show ?thesis by (simp add: d_lt_val not_less)
qed

lemma d_eq_val [dec_val]: "d_eq a b \<longleftrightarrow> val a = val b"
proof -
  have "d_eq a b \<longleftrightarrow> d_le a b \<and> d_le b a"
    by (auto simp: d_eq_def d_le_def Let_def min.commute)
  then show ?thesis by (auto simp: d_le_val)
qed

lemma d_max_val [dec_val]: "val (d_max a b) = max (val a) (val b)"
  by (simp add: d_max_def d_lt_val max_def)

lemma d_min_val [dec_val]: "val (d_min a b) = min (val a) (val b)"
  by (simp add: d_min_def d_lt_val min_def)

lemma val_copy_negate [simp]: "val (copy_negate d) = - val d"
  by (simp add: val_mag copy_negate_def mag_def)

lemma val_add_exact: "val (d_add_exact a b) = val a + val b"
proof -
  let ?e = "min (d_exp a) (d_exp b)"
  let ?s = "d_scaled ?e a + d_scaled ?e b"
  have s: "d_int (d_add_exact a b) = ?s"
    by (simp add: d_add_exact_def d_int_def Let_def)
  have "val (d_add_exact a b) = of_int ?s * 10 powi ?e"
    unfolding val_def s by (simp add: d_add_exact_def Let_def)
  then show ?thesis
    using d_scaled_val [of ?e a] d_scaled_val [of ?e b] by (simp add: algebra_simps)
qed

lemma val_mul_exact:
  "val (Dec (d_sign a \<noteq> d_sign b) (d_coeff a * d_coeff b) (d_exp a + d_exp b)) = val a * val b"
  by (auto simp: val_mag mag_def ten_powi_add)

section \<open>Digits\<close>

lemma ndigits_pos [simp]: "0 < ndigits n"
  by (subst ndigits.simps) simp

lemma ndigits_le_iff: "0 < p \<Longrightarrow> ndigits n \<le> p \<longleftrightarrow> n < 10 ^ p"
proof (induction n arbitrary: p rule: ndigits.induct)
  case (1 n)
  show ?case
  proof (cases "n < 10")
    case True
    have "(10::nat) ^ 1 \<le> 10 ^ p" using "1.prems" by (intro power_increasing) auto
    with True "1.prems" show ?thesis by (subst ndigits.simps) simp
  next
    case False
    obtain p' where p: "p = Suc p'" using "1.prems" by (cases p) auto
    show ?thesis
    proof (cases p')
      case 0
      have "Suc (ndigits (n div 10)) \<le> 1 \<longleftrightarrow> False" by (simp add: not_le)
      with False p 0 show ?thesis by (simp add: ndigits.simps [of n])
    next
      case (Suc p'')
      then have "ndigits (n div 10) \<le> p' \<longleftrightarrow> n div 10 < 10 ^ p'" using "1.IH" False by simp
      also have "\<dots> \<longleftrightarrow> n < 10 ^ p" unfolding p by (simp add: div_less_iff_less_mult mult.commute)
      finally show ?thesis using False p by (simp add: ndigits.simps [of n])
    qed
  qed
qed

lemma ndigits_upper: "n < 10 ^ ndigits n"
  using ndigits_le_iff [of "ndigits n" n] by simp

lemma ndigits_lower: "0 < n \<Longrightarrow> 10 ^ (ndigits n - 1) \<le> n"
proof (cases "ndigits n = 1")
  case False
  then have "0 < ndigits n - 1" using ndigits_pos [of n] by linarith
  then show ?thesis using ndigits_le_iff [of "ndigits n - 1" n] by linarith
qed simp

section \<open>Representable numbers and rounding\<close>

definition representable :: "nat \<Rightarrow> rat \<Rightarrow> bool" where
  "representable p x \<longleftrightarrow> (\<exists>m e. \<bar>m\<bar> < 10 ^ p \<and> x = of_int m * 10 powi e)"

lemma representable_neg: "representable p x \<Longrightarrow> representable p (- x)"
  unfolding representable_def by (metis abs_minus_cancel mult_minus_left of_int_minus)

lemma representable_neg_iff [simp]: "representable p (- x) \<longleftrightarrow> representable p x"
  using representable_neg [of p x] representable_neg [of p "- x"] by auto

lemma representable_0 [simp]: "representable p 0"
  unfolding representable_def by (rule exI [of _ 0]) simp

text \<open>
  No representable number lies strictly between two neighbours \<open>q * 10\<^sup>z\<close> and
  \<open>(q + 1) * 10\<^sup>z\<close> whose coefficient already uses the whole precision.
\<close>

lemma representable_gap:
  assumes x: "representable p x" and p: "0 < p" and q: "10 ^ (p - 1) \<le> q"
  shows "x \<le> of_nat q * 10 powi z \<or> of_nat (q + 1) * 10 powi z \<le> x"
proof (rule ccontr)
  assume "\<not> ?thesis"
  then have lo: "of_nat q * 10 powi z < x" and hi: "x < of_nat (q + 1) * 10 powi z"
    by (auto simp: not_le)
  obtain m f where m: "\<bar>m\<bar> < 10 ^ p" and xe: "x = of_int m * 10 powi f"
    using x by (auto simp: representable_def)
  show False
  proof (cases "z \<le> f")
    case True
    let ?k = "m * 10 ^ nat (f - z)"
    have "x = of_int ?k * 10 powi z"
      using ten_powi_split [OF True] xe by simp
    with lo hi have "of_nat q < (of_int ?k :: rat)" and "of_int ?k < (of_nat (q + 1) :: rat)"
      by auto
    then have "(of_int (int q) :: rat) < of_int ?k" and "(of_int ?k :: rat) < of_int (int q + 1)"
      by simp_all
    then have "int q < ?k" and "?k < int q + 1"
      unfolding of_int_less_iff by auto
    then show False by linarith
  next
    case False
    have "(of_int m :: rat) < 10 ^ p"
      using m by (metis abs_less_iff of_int_less_iff of_int_numeral of_int_power)
    then have "x < 10 ^ p * 10 powi f" unfolding xe by simp
    also have "(10::rat) ^ p * 10 powi f = 10 ^ (p - 1) * 10 powi (f + 1)"
      using p by (cases p) (simp_all add: ten_powi_add)
    also have "\<dots> \<le> 10 ^ (p - 1) * 10 powi z"
      using False by (intro mult_left_mono ten_powi_mono) auto
    also have "\<dots> \<le> of_nat q * 10 powi z"
      using q by (metis mult_right_mono of_nat_le_iff of_nat_numeral of_nat_power less_imp_le ten_powi_pos)
    finally show False using lo by simp
  qed
qed

lemma half_even_cases:
  obtains "half_even c k = c div 10 ^ k"
  | "half_even c k = c div 10 ^ k + 1" "c mod 10 ^ k \<noteq> 0"
proof (cases "10 ^ k < 2 * (c mod 10 ^ k) \<or> (2 * (c mod 10 ^ k) = 10 ^ k \<and> odd (c div 10 ^ k))")
  case True
  then have "10 ^ k \<le> 2 * (c mod 10 ^ k)" by linarith
  moreover have "(0::nat) < 10 ^ k" by simp
  ultimately have "c mod 10 ^ k \<noteq> 0" by linarith
  moreover have "half_even c k = c div 10 ^ k + 1" using True by (simp add: half_even_def Let_def)
  ultimately show thesis using that(2) by blast
next
  case False
  then have "half_even c k = c div 10 ^ k" by (simp add: half_even_def Let_def)
  then show thesis by (rule that(1))
qed

lemma d_sign_fix [simp]: "d_sign (d_fix p d) = d_sign d"
  by (simp add: d_fix_def Let_def)

lemma d_fix_exact: "0 < p \<Longrightarrow> d_coeff d < 10 ^ p \<Longrightarrow> d_fix p d = d"
  by (simp add: d_fix_def ndigits_le_iff)

text \<open>The magnitude after rounding, when the coefficient is too long.\<close>

lemma mag_fix_long:
  assumes p: "0 < p" and n: "p < ndigits (d_coeff d)"
  shows "mag (d_fix p d) =
    of_nat (half_even (d_coeff d) (ndigits (d_coeff d) - p)) *
      10 powi (d_exp d + int (ndigits (d_coeff d) - p))"
proof -
  let ?k = "ndigits (d_coeff d) - p" and ?c = "half_even (d_coeff d) (ndigits (d_coeff d) - p)"
  show ?thesis
  proof (cases "?c = 10 ^ p")
    case True
    have "(10::nat) ^ p div 10 * 10 = 10 ^ p" using p by (cases p) auto
    then have "(of_nat (10 ^ p div 10) :: rat) * 10 = of_nat (10 ^ p)"
      by (metis of_nat_mult of_nat_numeral)
    with True n show ?thesis
      by (simp add: d_fix_def mag_def Let_def ten_powi_add)
  next
    case False
    with n show ?thesis by (simp add: d_fix_def mag_def Let_def)
  qed
qed

lemma mag_cell:
  fixes c k :: nat and e :: int
  defines "q \<equiv> c div 10 ^ k" and "Q \<equiv> (10::rat) powi (e + int k)"
  shows "of_nat c * 10 powi e = of_nat q * Q + of_nat (c mod 10 ^ k) * 10 powi e"
    and "of_nat c * 10 powi e < of_nat (q + 1) * Q"
proof -
  have Q: "Q = 10 ^ k * 10 powi e"
    unfolding Q_def using ten_powi_split [of e "e + int k"] by simp
  have c: "c = q * 10 ^ k + c mod 10 ^ k" unfolding q_def by (simp add: mult.commute)
  have "(of_nat c :: rat) = of_nat q * 10 ^ k + of_nat (c mod 10 ^ k)"
    by (subst c) (simp del: mod_mult_self1 mod_mult_self2)
  then show "of_nat c * 10 powi e = of_nat q * Q + of_nat (c mod 10 ^ k) * 10 powi e"
    by (simp add: Q algebra_simps)
  have "c mod 10 ^ k < 10 ^ k" by simp
  then have "c < q * 10 ^ k + 10 ^ k" using c by linarith
  then have "c < (q + 1) * 10 ^ k" by (simp add: algebra_simps)
  then have "(of_nat c :: rat) < of_nat ((q + 1) * 10 ^ k)" by (rule of_nat_less_iff [THEN iffD2])
  then have "(of_nat c :: rat) * 10 powi e < of_nat ((q + 1) * 10 ^ k) * 10 powi e" by simp
  also have "(of_nat ((q + 1) * 10 ^ k) :: rat) * 10 powi e = of_nat (q + 1) * Q"
    by (simp add: Q algebra_simps)
  finally show "of_nat c * 10 powi e < of_nat (q + 1) * Q" .
qed

lemma long_coeff_quotient:
  assumes p: "0 < p" and n: "p < ndigits c"
  shows "10 ^ (p - 1) \<le> c div 10 ^ (ndigits c - p)"
proof -
  have "c \<noteq> 0"
  proof
    assume "c = 0"
    then have "ndigits c = 1" by (simp add: ndigits.simps)
    with n p show False by simp
  qed
  then have "10 ^ (ndigits c - 1) \<le> c" by (intro ndigits_lower) simp
  moreover have "ndigits c - 1 = (p - 1) + (ndigits c - p)" using p n by simp
  ultimately have "10 ^ (p - 1) * 10 ^ (ndigits c - p) \<le> c" by (metis power_add)
  then show ?thesis by (simp add: less_eq_div_iff_mult_less_eq)
qed

lemma mag_fix_le:
  assumes "0 < p" "representable p x" "mag d \<le> x"
  shows "mag (d_fix p d) \<le> x"
proof (cases "ndigits (d_coeff d) \<le> p")
  case True
  then show ?thesis using assms by (simp add: d_fix_def)
next
  case False
  let ?c = "d_coeff d" and ?k = "ndigits (d_coeff d) - p"
  let ?q = "?c div 10 ^ ?k" and ?z = "d_exp d + int ?k"
  have q: "10 ^ (p - 1) \<le> ?q" using False assms(1) by (intro long_coeff_quotient) auto
  have eq: "mag d = of_nat ?q * 10 powi ?z + of_nat (?c mod 10 ^ ?k) * 10 powi d_exp d"
    unfolding mag_def by (rule mag_cell(1))
  have m: "mag (d_fix p d) = of_nat (half_even ?c ?k) * 10 powi ?z"
    using False assms(1) by (intro mag_fix_long) auto
  show ?thesis
  proof (cases rule: half_even_cases [of ?c ?k])
    case 1
    have "0 \<le> (of_nat (?c mod 10 ^ ?k) :: rat) * 10 powi d_exp d" by simp
    then show ?thesis using m eq assms(3) unfolding 1 by linarith
  next
    case 2
    then have "of_nat ?q * 10 powi ?z < mag d" using eq by simp
    then have "of_nat (?q + 1) * 10 powi ?z \<le> x"
      using representable_gap [OF assms(2,1) q, of ?z] assms(3) by linarith
    then show ?thesis using m 2 by simp
  qed
qed

lemma mag_fix_ge:
  assumes "0 < p" "representable p x" "x \<le> mag d"
  shows "x \<le> mag (d_fix p d)"
proof (cases "ndigits (d_coeff d) \<le> p")
  case True
  then show ?thesis using assms by (simp add: d_fix_def)
next
  case False
  let ?c = "d_coeff d" and ?k = "ndigits (d_coeff d) - p"
  let ?q = "?c div 10 ^ ?k" and ?z = "d_exp d + int ?k"
  have q: "10 ^ (p - 1) \<le> ?q" using False assms(1) by (intro long_coeff_quotient) auto
  have lt: "mag d < of_nat (?q + 1) * 10 powi ?z"
    unfolding mag_def by (rule mag_cell(2))
  have m: "mag (d_fix p d) = of_nat (half_even ?c ?k) * 10 powi ?z"
    using False assms(1) by (intro mag_fix_long) auto
  have "x \<le> of_nat ?q * 10 powi ?z"
    using representable_gap [OF assms(2,1) q, of ?z] assms(3) lt by linarith
  also have "\<dots> \<le> of_nat (half_even ?c ?k) * 10 powi ?z"
    by (cases rule: half_even_cases [of ?c ?k]) auto
  finally show ?thesis using m by simp
qed

text \<open>Rounding never crosses a representable number.\<close>

lemma val_fix_le:
  assumes "0 < p" "representable p x" "val d \<le> x"
  shows "val (d_fix p d) \<le> x"
proof (cases "d_sign d")
  case True
  then have "- x \<le> mag d" using assms(3) by (simp add: val_mag)
  then have "- x \<le> mag (d_fix p d)" using assms(1,2) by (intro mag_fix_ge) auto
  then show ?thesis using True by (simp add: val_mag)
next
  case False
  then show ?thesis using assms mag_fix_le [of p x d] by (simp add: val_mag)
qed

lemma val_fix_ge:
  assumes "0 < p" "representable p x" "x \<le> val d"
  shows "x \<le> val (d_fix p d)"
proof (cases "d_sign d")
  case True
  then have "mag d \<le> - x" using assms(3) by (simp add: val_mag)
  then have "mag (d_fix p d) \<le> - x" using assms(1,2) by (intro mag_fix_le) auto
  then show ?thesis using True by (simp add: val_mag)
next
  case False
  then show ?thesis using assms mag_fix_ge [of p x d] by (simp add: val_mag)
qed

lemma val_fix_exact: "0 < p \<Longrightarrow> representable p (val d) \<Longrightarrow> val (d_fix p d) = val d"
  using val_fix_le [of p "val d" d] val_fix_ge [of p "val d" d] by simp

lemma val_fix_nonneg: "0 < p \<Longrightarrow> 0 \<le> val d \<Longrightarrow> 0 \<le> val (d_fix p d)"
  by (rule val_fix_ge) auto

lemma val_fix_pos:
  assumes "0 < p" "0 < val d"
  shows "0 < val (d_fix p d)"
proof -
  have s: "\<not> d_sign d"
    using assms(2) mag_nonneg [of d] by (auto simp: val_mag simp del: mag_nonneg)
  have c: "0 < d_coeff d"
    using assms(2) s by (cases "d_coeff d = 0") (auto simp: val_mag mag_def)
  let ?x = "(10::rat) powi d_exp d"
  have "\<bar>1 :: int\<bar> < 10 ^ p" using assms(1) by simp
  then have "representable p ?x"
    unfolding representable_def by (intro exI [of _ 1] exI [of _ "d_exp d"]) simp
  moreover have "?x \<le> val d" using c s by (simp add: val_mag mag_def)
  ultimately have "?x \<le> val (d_fix p d)" using assms(1) by (intro val_fix_ge)
  then show ?thesis using ten_powi_pos [of "d_exp d"] by linarith
qed

section \<open>Rounded operations\<close>

named_theorems dec_exact \<open>operations whose exact result is representable\<close>

lemma val_add_le:
  "0 < p \<Longrightarrow> representable p x \<Longrightarrow> val a + val b \<le> x \<Longrightarrow> val (d_add p a b) \<le> x"
  by (simp add: d_add_def val_add_exact val_fix_le)

lemma val_add_ge:
  "0 < p \<Longrightarrow> representable p x \<Longrightarrow> x \<le> val a + val b \<Longrightarrow> x \<le> val (d_add p a b)"
  by (simp add: d_add_def val_add_exact val_fix_ge)

lemma val_d_add [dec_exact]:
  "0 < p \<Longrightarrow> representable p (val a + val b) \<Longrightarrow> val (d_add p a b) = val a + val b"
  by (simp add: d_add_def val_add_exact val_fix_exact)

lemma val_d_sub [dec_exact]:
  "0 < p \<Longrightarrow> representable p (val a - val b) \<Longrightarrow> val (d_sub p a b) = val a - val b"
  by (simp add: d_sub_def val_d_add)

lemma val_mul_le:
  "0 < p \<Longrightarrow> representable p x \<Longrightarrow> val a * val b \<le> x \<Longrightarrow> val (d_mul p a b) \<le> x"
  unfolding d_mul_def by (rule val_fix_le) (simp_all only: val_mul_exact)

lemma val_mul_ge:
  "0 < p \<Longrightarrow> representable p x \<Longrightarrow> x \<le> val a * val b \<Longrightarrow> x \<le> val (d_mul p a b)"
  unfolding d_mul_def by (rule val_fix_ge) (simp_all only: val_mul_exact)

lemma val_d_mul [dec_exact]:
  "0 < p \<Longrightarrow> representable p (val a * val b) \<Longrightarrow> val (d_mul p a b) = val a * val b"
  using val_mul_le [of p "val a * val b" a b] val_mul_ge [of p "val a * val b" a b] by simp

lemma val_mul_nonneg: "0 < p \<Longrightarrow> 0 \<le> val a \<Longrightarrow> 0 \<le> val b \<Longrightarrow> 0 \<le> val (d_mul p a b)"
  by (rule val_mul_ge) simp_all

lemma val_mul_pos: "0 < p \<Longrightarrow> 0 < val a \<Longrightarrow> 0 < val b \<Longrightarrow> 0 < val (d_mul p a b)"
  unfolding d_mul_def by (rule val_fix_pos) (simp_all only: val_mul_exact mult_pos_pos)

lemma val_d_abs [dec_exact]:
  "0 < p \<Longrightarrow> representable p (val d) \<Longrightarrow> val (d_abs p d) = \<bar>val d\<bar>"
proof -
  assume p: "0 < p" and r: "representable p (val d)"
  have v: "val (Dec False (d_coeff d) (d_exp d)) = \<bar>val d\<bar>"
    by (simp add: val_mag mag_def)
  have "representable p \<bar>val d\<bar>" using r by (simp add: abs_if)
  with p v show ?thesis by (simp add: d_abs_def val_fix_exact)
qed

lemma val_d_neg [dec_exact]:
  "0 < p \<Longrightarrow> representable p (val d) \<Longrightarrow> val (d_neg p d) = - val d"
proof -
  assume p: "0 < p" and r: "representable p (val d)"
  have v: "val (Dec (d_coeff d \<noteq> 0 \<and> \<not> d_sign d) (d_coeff d) (d_exp d)) = - val d"
    by (auto simp: val_mag mag_def)
  with p r show ?thesis by (simp add: d_neg_def val_fix_exact)
qed

text \<open>The quotient before rounding brackets the exact one.\<close>

lemma val_d_strip:
  "d_strip c e t = (c', e') \<Longrightarrow> of_nat c' * (10::rat) powi e' = of_nat c * 10 powi e"
proof (induction c e t arbitrary: c' e' rule: d_strip.induct)
  case (1 c e t)
  show ?case
  proof (cases "e < t \<and> c mod 10 = 0")
    case True
    then have "d_strip (c div 10) (e + 1) t = (c', e')"
      using "1.prems" by (simp add: d_strip.simps [of c e t])
    then have "of_nat c' * (10::rat) powi e' = of_nat (c div 10) * 10 powi (e + 1)"
      by (rule "1.IH" [OF True])
    moreover have "(of_nat (c div 10) :: rat) * 10 = of_nat c"
      using True by (metis div_mult_mod_eq add.right_neutral of_nat_mult of_nat_numeral)
    ultimately show ?thesis by (simp add: ten_powi_add)
  next
    case False
    then show ?thesis using "1.prems" by (auto simp: d_strip.simps [of c e t])
  qed
qed

definition div_shift :: "nat \<Rightarrow> dec \<Rightarrow> dec \<Rightarrow> int" where
  "div_shift p a b = int (ndigits (d_coeff b)) - int (ndigits (d_coeff a)) + int p + 1"

definition div_num :: "nat \<Rightarrow> dec \<Rightarrow> dec \<Rightarrow> nat" where
  "div_num p a b = (if 0 \<le> div_shift p a b then d_coeff a * 10 ^ nat (div_shift p a b) else d_coeff a)"

definition div_den :: "nat \<Rightarrow> dec \<Rightarrow> dec \<Rightarrow> nat" where
  "div_den p a b = (if 0 \<le> div_shift p a b then d_coeff b else d_coeff b * 10 ^ nat (- div_shift p a b))"

lemma div_num_den_value:
  assumes "d_coeff b \<noteq> 0"
  shows "of_nat (div_num p a b) / of_nat (div_den p a b) * 10 powi (d_exp a - d_exp b - div_shift p a b)
    = mag a / mag b"
proof (cases "0 \<le> div_shift p a b")
  case True
  let ?s = "div_shift p a b"
  have "(10::rat) powi (d_exp a - d_exp b) = 10 ^ nat ?s * 10 powi (d_exp a - d_exp b - ?s)"
    using ten_powi_split [of "d_exp a - d_exp b - ?s" "d_exp a - d_exp b"] True by simp
  then show ?thesis
    using True by (simp add: div_num_def div_den_def mag_def power_int_diff field_simps)
next
  case False
  let ?s = "div_shift p a b"
  have "(10::rat) powi (d_exp a - d_exp b - ?s) = 10 ^ nat (- ?s) * 10 powi (d_exp a - d_exp b)"
    using ten_powi_split [of "d_exp a - d_exp b" "d_exp a - d_exp b - ?s"] False by simp
  then show ?thesis
    using False assms by (simp add: div_num_def div_den_def mag_def power_int_diff field_simps)
qed

lemma div_quotient_long:
  assumes "d_coeff a \<noteq> 0" "d_coeff b \<noteq> 0"
  shows "10 ^ p \<le> div_num p a b div div_den p a b"
proof -
  let ?s = "div_shift p a b" and ?na = "ndigits (d_coeff a)" and ?nb = "ndigits (d_coeff b)"
  have la: "10 ^ (?na - 1) \<le> d_coeff a" using assms(1) by (intro ndigits_lower) simp
  have ub: "d_coeff b < 10 ^ ?nb" by (rule ndigits_upper)
  have na: "0 < ?na" by simp
  have "div_den p a b * 10 ^ p \<le> div_num p a b"
  proof (cases "0 \<le> ?s")
    case True
    then have e: "?nb + p = (?na - 1) + nat ?s" using na unfolding div_shift_def by arith
    have "d_coeff b * 10 ^ p \<le> 10 ^ (?nb + p)" using ub by (simp add: power_add)
    also have "\<dots> = 10 ^ (?na - 1) * 10 ^ nat ?s" unfolding e by (simp add: power_add)
    also have "\<dots> \<le> d_coeff a * 10 ^ nat ?s" using la by simp
    finally show ?thesis using True by (simp add: div_num_def div_den_def)
  next
    case False
    then have e: "?nb + nat (- ?s) + p = ?na - 1" using na unfolding div_shift_def by arith
    have "d_coeff b * (10 ^ nat (- ?s) * 10 ^ p) \<le> 10 ^ ?nb * (10 ^ nat (- ?s) * 10 ^ p)"
      using ub by (intro mult_right_mono) auto
    also have "\<dots> = 10 ^ (?na - 1)" unfolding e [symmetric] by (simp add: power_add)
    also have "\<dots> \<le> d_coeff a" by (rule la)
    finally show ?thesis using False by (simp add: div_num_def div_den_def mult.assoc)
  qed
  moreover have "0 < div_den p a b" using assms(2) by (simp add: div_den_def)
  ultimately show ?thesis by (simp add: less_eq_div_iff_mult_less_eq mult.commute)
qed

lemma div_quotient_cell:
  assumes "0 < den"
  shows "of_nat (num div den) \<le> (of_nat num / of_nat den :: rat)"
    and "(of_nat num / of_nat den :: rat) < of_nat (num div den + 1)"
    and "num mod den = 0 \<Longrightarrow> (of_nat num / of_nat den :: rat) = of_nat (num div den)"
    and "num mod den \<noteq> 0 \<Longrightarrow> of_nat (num div den) < (of_nat num / of_nat den :: rat)"
proof -
  have e: "(of_nat num :: rat) = of_nat (num div den) * of_nat den + of_nat (num mod den)"
    by (metis div_mult_mod_eq of_nat_add of_nat_mult)
  have d: "(0::rat) < of_nat den" using assms by simp
  have m: "(of_nat (num mod den) :: rat) < of_nat den" using assms by simp
  show "of_nat (num div den) \<le> (of_nat num / of_nat den :: rat)"
    using d e by (simp add: pos_le_divide_eq)
  show "(of_nat num / of_nat den :: rat) < of_nat (num div den + 1)"
    using d e m by (simp add: pos_divide_less_eq algebra_simps)
  show "num mod den = 0 \<Longrightarrow> (of_nat num / of_nat den :: rat) = of_nat (num div den)"
    using d e by (simp add: divide_eq_eq)
  show "num mod den \<noteq> 0 \<Longrightarrow> of_nat (num div den) < (of_nat num / of_nat den :: rat)"
    using d e by (simp add: pos_less_divide_eq)
qed

lemma d_div_unrounded:
  assumes p: "0 < p" and a: "d_coeff a \<noteq> 0" and b: "d_coeff b \<noteq> 0"
  obtains y where "d_div p a b = d_fix p y" "d_sign y = (d_sign a \<noteq> d_sign b)"
    "\<And>x. representable p x \<Longrightarrow> mag a / mag b \<le> x \<Longrightarrow> mag y \<le> x"
    "\<And>x. representable p x \<Longrightarrow> x \<le> mag a / mag b \<Longrightarrow> x \<le> mag y"
proof -
  let ?e = "d_exp a - d_exp b - div_shift p a b"
  let ?num = "div_num p a b" and ?den = "div_den p a b"
  let ?c = "?num div ?den" and ?sg = "d_sign a \<noteq> d_sign b"
  let ?c1 = "if ?c mod 5 = 0 then ?c + 1 else ?c"
  have den: "0 < ?den" using b by (simp add: div_den_def)
  have val: "mag a / mag b = of_nat ?num / of_nat ?den * 10 powi ?e"
    using div_num_den_value [OF b, of p a] by simp
  have long: "10 ^ (p - 1) \<le> ?c"
    by (rule order_trans [OF power_increasing div_quotient_long [OF a b]]) auto
  have lo: "of_nat ?c * 10 powi ?e \<le> mag a / mag b"
    unfolding val by (rule mult_right_mono [OF div_quotient_cell(1) [OF den]]) simp
  have hi: "mag a / mag b < of_nat (?c + 1) * 10 powi ?e"
    unfolding val by (rule mult_strict_right_mono [OF div_quotient_cell(2) [OF den]]) simp
  have d: "d_div p a b =
      (if ?num mod ?den \<noteq> 0 then d_fix p (Dec ?sg ?c1 ?e)
       else (case d_strip ?c ?e (d_exp a - d_exp b) of (c', e') \<Rightarrow> d_fix p (Dec ?sg c' e')))"
    using a by (simp add: d_div_def Let_def div_shift_def [symmetric] div_num_def [symmetric]
        div_den_def [symmetric])
  show thesis
  proof (cases "?num mod ?den = 0")
    case True
    obtain c' e' where st: "d_strip ?c ?e (d_exp a - d_exp b) = (c', e')" by fastforce
    have "mag (Dec ?sg c' e') = mag a / mag b"
      using val_d_strip [OF st] val div_quotient_cell(3) [OF den True] by (simp add: mag_def)
    then show thesis using that [of "Dec ?sg c' e'"] d st True by simp
  next
    case False
    have lt: "of_nat ?c * 10 powi ?e < mag a / mag b"
      unfolding val by (rule mult_strict_right_mono [OF div_quotient_cell(4) [OF den False]]) simp
    have m: "of_nat ?c * 10 powi ?e \<le> mag (Dec ?sg ?c1 ?e)"
        "mag (Dec ?sg ?c1 ?e) \<le> of_nat (?c + 1) * 10 powi ?e"
      by (auto simp: mag_def)
    show thesis
    proof (rule that [of "Dec ?sg ?c1 ?e"])
      show "d_div p a b = d_fix p (Dec ?sg ?c1 ?e)" using d False by simp
      show "mag (Dec ?sg ?c1 ?e) \<le> x" if "representable p x" "mag a / mag b \<le> x" for x
        using representable_gap [OF that(1) p long, of ?e] lt m that(2) by linarith
      show "x \<le> mag (Dec ?sg ?c1 ?e)" if "representable p x" "x \<le> mag a / mag b" for x
        using representable_gap [OF that(1) p long, of ?e] hi m that(2) by linarith
    qed simp
  qed
qed

lemma val_zero_iff: "val d = 0 \<longleftrightarrow> d_coeff d = 0"
  by (simp add: val_mag mag_def)

lemma val_div_le:
  assumes "0 < p" "val b \<noteq> 0" "representable p x" "val a / val b \<le> x"
  shows "val (d_div p a b) \<le> x"
proof (cases "d_coeff a = 0")
  case True
  then have "val a = 0" by (simp add: val_zero_iff)
  then show ?thesis using assms True by (simp add: d_div_def val_fix_le)
next
  case False
  from assms(2) have b: "d_coeff b \<noteq> 0" by (simp add: val_zero_iff)
  obtain y where y: "d_div p a b = d_fix p y" "d_sign y = (d_sign a \<noteq> d_sign b)"
    "\<And>x. representable p x \<Longrightarrow> mag a / mag b \<le> x \<Longrightarrow> mag y \<le> x"
    "\<And>x. representable p x \<Longrightarrow> x \<le> mag a / mag b \<Longrightarrow> x \<le> mag y"
    by (rule d_div_unrounded [OF assms(1) False b]) blast
  have q: "val a / val b = (if d_sign y then - (mag a / mag b) else mag a / mag b)"
    using y(2) by (simp add: val_mag)
  have "val y \<le> x"
  proof (cases "d_sign y")
    case True
    with q assms(3,4) have "- x \<le> mag y" by (intro y(4)) auto
    with True show ?thesis by (simp add: val_mag)
  next
    case False
    with q assms(3,4) have "mag y \<le> x" by (intro y(3)) auto
    with False show ?thesis by (simp add: val_mag)
  qed
  then show ?thesis unfolding y(1) by (rule val_fix_le [OF assms(1,3)])
qed

lemma val_div_ge:
  assumes "0 < p" "val b \<noteq> 0" "representable p x" "x \<le> val a / val b"
  shows "x \<le> val (d_div p a b)"
proof (cases "d_coeff a = 0")
  case True
  then have "val a = 0" by (simp add: val_zero_iff)
  then show ?thesis using assms True by (simp add: d_div_def val_fix_ge)
next
  case False
  from assms(2) have b: "d_coeff b \<noteq> 0" by (simp add: val_zero_iff)
  obtain y where y: "d_div p a b = d_fix p y" "d_sign y = (d_sign a \<noteq> d_sign b)"
    "\<And>x. representable p x \<Longrightarrow> mag a / mag b \<le> x \<Longrightarrow> mag y \<le> x"
    "\<And>x. representable p x \<Longrightarrow> x \<le> mag a / mag b \<Longrightarrow> x \<le> mag y"
    by (rule d_div_unrounded [OF assms(1) False b]) blast
  have q: "val a / val b = (if d_sign y then - (mag a / mag b) else mag a / mag b)"
    using y(2) by (simp add: val_mag)
  have "x \<le> val y"
  proof (cases "d_sign y")
    case True
    with q assms(3,4) have "mag y \<le> - x" by (intro y(3)) auto
    with True show ?thesis by (simp add: val_mag)
  next
    case False
    with q assms(3,4) have "x \<le> mag y" by (intro y(4)) auto
    with False show ?thesis by (simp add: val_mag)
  qed
  then show ?thesis unfolding y(1) by (rule val_fix_ge [OF assms(1,3)])
qed

lemma val_d_div [dec_exact]:
  "0 < p \<Longrightarrow> val b \<noteq> 0 \<Longrightarrow> representable p (val a / val b) \<Longrightarrow> val (d_div p a b) = val a / val b"
  using val_div_le [of p b "val a / val b" a] val_div_ge [of p b "val a / val b" a] by simp

section \<open>Grids\<close>

text \<open>
  A number on the grid \<open>10\<^sup>z\<close> that is small enough is representable: the way the
  components show that the precision of 256 digits loses nothing.
\<close>

definition on_grid :: "int \<Rightarrow> rat \<Rightarrow> bool" where
  "on_grid z x \<longleftrightarrow> (\<exists>k. x = of_int k * 10 powi z)"

lemma on_grid_0 [simp]: "on_grid z 0"
  unfolding on_grid_def by (rule exI [of _ 0]) simp

lemma on_grid_coarser: "on_grid z x \<Longrightarrow> y \<le> z \<Longrightarrow> on_grid y x"
proof -
  assume "on_grid z x" "y \<le> z"
  then obtain k where "x = of_int k * 10 powi z" by (auto simp: on_grid_def)
  with ten_powi_split [OF \<open>y \<le> z\<close>] have "x = of_int (k * 10 ^ nat (z - y)) * 10 powi y" by simp
  then show ?thesis unfolding on_grid_def by blast
qed

lemma on_grid_add: "on_grid z x \<Longrightarrow> on_grid z y \<Longrightarrow> on_grid z (x + y)"
  unfolding on_grid_def by (metis distrib_right of_int_add)

lemma on_grid_neg: "on_grid z x \<Longrightarrow> on_grid z (- x)"
  unfolding on_grid_def by (metis mult_minus_left of_int_minus)

lemma on_grid_diff: "on_grid z x \<Longrightarrow> on_grid z y \<Longrightarrow> on_grid z (x - y)"
  using on_grid_add [of z x "- y"] on_grid_neg [of z y] by simp

lemma on_grid_mult: "on_grid y a \<Longrightarrow> on_grid z b \<Longrightarrow> on_grid (y + z) (a * b)"
proof -
  assume "on_grid y a" "on_grid z b"
  then obtain k l where "a = of_int k * 10 powi y" "b = of_int l * 10 powi z"
    by (auto simp: on_grid_def)
  then have "a * b = of_int (k * l) * 10 powi (y + z)" by (simp add: ten_powi_add)
  then show ?thesis unfolding on_grid_def by blast
qed

lemma on_grid_val: "z \<le> d_exp d \<Longrightarrow> on_grid z (val d)"
  using on_grid_coarser [of "d_exp d" "val d" z] unfolding on_grid_def val_def by blast

lemma on_grid_int: "on_grid 0 (of_int k)"
  unfolding on_grid_def by (rule exI [of _ k]) simp

lemma on_grid_shift: "on_grid (z + w) (x * 10 powi w) \<longleftrightarrow> on_grid z x"
  unfolding on_grid_def by (simp add: ten_powi_add mult.assoc [symmetric])

lemma representable_grid:
  assumes "on_grid z x" "\<bar>x\<bar> < 10 powi (int p + z)"
  shows "representable p x"
proof -
  obtain k where k: "x = of_int k * 10 powi z" using assms(1) by (auto simp: on_grid_def)
  have "\<bar>of_int k :: rat\<bar> * 10 powi z < 10 ^ p * 10 powi z"
    using assms(2) by (simp add: k abs_mult ten_powi_add)
  then have "\<bar>of_int k :: rat\<bar> < 10 ^ p" by simp
  then have "\<bar>k\<bar> < 10 ^ p" by (metis of_int_abs of_int_less_iff of_int_numeral of_int_power)
  with k show ?thesis unfolding representable_def by blast
qed

lemma representable_val: "d_coeff d < 10 ^ p \<Longrightarrow> representable p (val d)"
proof -
  assume "d_coeff d < 10 ^ p"
  then have "\<bar>d_int d\<bar> < 10 ^ p"
    by (simp add: d_int_def)
  then show ?thesis unfolding representable_def val_def by blast
qed

lemma d_coeff_fix: "0 < p \<Longrightarrow> d_coeff (d_fix p d) < 10 ^ p"
proof (cases "ndigits (d_coeff d) \<le> p")
  case True
  then show "0 < p \<Longrightarrow> ?thesis" by (simp add: d_fix_def ndigits_le_iff)
next
  case False
  assume p: "0 < p"
  let ?k = "ndigits (d_coeff d) - p"
  have "d_coeff d div 10 ^ ?k < 10 ^ p"
    using ndigits_upper [of "d_coeff d"] False by (simp add: div_less_iff_less_mult power_add [symmetric])
  then have "half_even (d_coeff d) ?k \<le> 10 ^ p" by (cases rule: half_even_cases [of "d_coeff d" ?k]) auto
  moreover have "(10::nat) ^ p div 10 < 10 ^ p" using p by simp
  ultimately show ?thesis using False by (auto simp: d_fix_def Let_def)
qed

lemma representable_fix: "0 < p \<Longrightarrow> representable p (val (d_fix p d))"
  by (intro representable_val d_coeff_fix)

text \<open>The floor of a quotient is an integer, and it is representable because the quotient is.\<close>

lemma val_d_floor:
  assumes "\<not> d_sign d"
  shows "\<exists>n::nat. val (d_floor d) = of_nat n"
proof (cases "0 \<le> d_exp d")
  case True
  then have "(10::rat) powi d_exp d = of_nat (10 ^ nat (d_exp d))" by (simp add: power_int_def)
  then have "val (d_floor d) = of_nat (d_coeff d * 10 ^ nat (d_exp d))"
    using True assms by (simp add: d_floor_def val_def d_int_def)
  then show ?thesis by blast
next
  case False
  then show ?thesis using assms by (auto simp: d_floor_def Let_def val_def d_int_def)
qed

lemma representable_d_floor:
  assumes "0 < p" "\<not> d_sign (d_fix p d)"
  shows "representable p (val (d_floor (d_fix p d)))"
proof -
  have "d_coeff (d_floor (d_fix p d)) \<le> d_coeff (d_fix p d)"
    using assms(2) by (simp add: d_floor_def Let_def)
  with d_coeff_fix [OF assms(1), of d] show ?thesis by (intro representable_val) simp
qed

text \<open>A power of ten only moves the exponent.\<close>

lemma representable_shift: "representable p x \<Longrightarrow> representable p (x * 10 powi k)"
  unfolding representable_def by (metis mult.assoc ten_powi_add)

text \<open>Rounding keeps the sign of a difference.\<close>

lemma val_fix_neg:
  assumes "0 < p" "val d < 0"
  shows "val (d_fix p d) < 0"
proof -
  have s: "d_sign d"
    using assms(2) mag_nonneg [of d] by (auto simp: val_mag simp del: mag_nonneg split: if_splits)
  have c: "0 < d_coeff d"
    using assms(2) s by (cases "d_coeff d = 0") (auto simp: val_mag mag_def)
  let ?x = "- ((10::rat) powi d_exp d)"
  have "representable p ((10::rat) powi d_exp d)"
    using assms(1) unfolding representable_def by (intro exI [of _ 1] exI [of _ "d_exp d"]) simp
  moreover have "val d \<le> ?x" using c s by (simp add: val_mag mag_def)
  ultimately have "val (d_fix p d) \<le> ?x" using assms(1) by (intro val_fix_le) simp_all
  then show ?thesis using ten_powi_pos [of "d_exp d"] by linarith
qed

lemma sub_sign:
  assumes "0 < p"
  shows "0 < val (d_sub p a b) \<longleftrightarrow> val b < val a" "val (d_sub p a b) < 0 \<longleftrightarrow> val a < val b"
    "val (d_sub p a b) = 0 \<longleftrightarrow> val a = val b"
proof -
  obtain e where e: "d_sub p a b = d_fix p e" "val e = val a - val b"
    by (simp add: d_sub_def d_add_def val_add_exact)
  consider "val b < val a" | "val a < val b" | "val a = val b" by linarith
  then have "sgn (val (d_sub p a b)) = sgn (val a - val b)"
    using val_fix_pos [OF assms, of e] val_fix_neg [OF assms, of e] val_fix_exact [OF assms, of e] e
    by cases (auto simp: sgn_if)
  then show "0 < val (d_sub p a b) \<longleftrightarrow> val b < val a" "val (d_sub p a b) < 0 \<longleftrightarrow> val a < val b"
    "val (d_sub p a b) = 0 \<longleftrightarrow> val a = val b"
    by (auto simp: sgn_if split: if_splits)
qed

section \<open>Exact quotients\<close>

lemma d_strip_step: "e < ideal \<Longrightarrow> d_strip (q * 10 ^ Suc n) e ideal = d_strip (q * 10 ^ n) (e + 1) ideal"
proof -
  have "q * 10 ^ Suc n mod 10 = 0" "q * 10 ^ Suc n div 10 = q * 10 ^ n" by simp_all
  then show "e < ideal \<Longrightarrow> ?thesis" by (subst d_strip.simps) (simp only: if_True simp_thms)
qed

lemma d_strip_to_ideal: "d_strip (q * 10 ^ n) e (e + int n) = (q, e + int n)"
proof (induction n arbitrary: e)
  case (Suc n)
  have "d_strip (q * 10 ^ Suc n) e (e + int (Suc n)) = d_strip (q * 10 ^ n) (e + 1) (e + int (Suc n))"
    by (rule d_strip_step) simp
  then show ?case using Suc.IH [of "e + 1"] by (simp add: add.assoc)
qed (simp add: d_strip.simps)

lemma d_strip_zeros:
  assumes "q mod 10 \<noteq> 0"
  shows "e + int n \<le> ideal \<Longrightarrow> d_strip (q * 10 ^ n) e ideal = (q, e + int n)"
proof (induction n arbitrary: e)
  case 0
  show ?case using assms by (simp add: d_strip.simps)
next
  case (Suc n)
  have "d_strip (q * 10 ^ Suc n) e ideal = d_strip (q * 10 ^ n) (e + 1) ideal"
    using Suc.prems by (intro d_strip_step) simp
  then show ?case using Suc.IH [of "e + 1"] Suc.prems by (simp add: add.assoc)
qed

text \<open>A quotient with finitely many digits is computed with its shortest coefficient.\<close>

lemma d_div_literal:
  assumes eq: "ca * 10 ^ k = q * cb" and q: "q \<noteq> 0" "q < 10 ^ p" and cb: "cb \<noteq> 0" and p: "0 < p"
    and k: "k = 0 \<or> q mod 10 \<noteq> 0"
  shows "d_div p (Dec sa ca ea) (Dec sb cb eb) = Dec (sa \<noteq> sb) q (ea - eb - int k)"
proof -
  have ca: "ca \<noteq> 0" using eq q cb by (metis mult_eq_0_iff mult_zero_left)
  define m where "m = ndigits cb + p + 1 - ndigits ca"
  have "10 ^ (ndigits ca - 1 + k) \<le> ca * 10 ^ k" using ndigits_lower [of ca] ca by (simp add: power_add)
  also have "\<dots> = q * cb" by (rule eq)
  also have "\<dots> < 10 ^ p * 10 ^ ndigits cb"
    using q cb ndigits_upper [of cb] by (intro mult_strict_mono) auto
  finally have "10 ^ (ndigits ca - 1 + k) < (10::nat) ^ (p + ndigits cb)" by (simp add: power_add)
  then have "ndigits ca - 1 + k < p + ndigits cb" using power_less_imp_less_exp by force
  then have km: "k < m" and sh: "int (ndigits cb) - int (ndigits ca) + int p + 1 = int m"
    unfolding m_def using ndigits_pos [of ca] by linarith+
  have "ca * 10 ^ m = ca * 10 ^ k * 10 ^ (m - k)" using km by (simp add: power_add [symmetric] mult.assoc)
  then have num: "ca * 10 ^ m = (q * 10 ^ (m - k)) * cb" by (simp add: eq algebra_simps)
  have "d_strip (q * 10 ^ (m - k)) (ea - eb - int m) (ea - eb) = (q, ea - eb - int k)"
  proof (cases "k = 0")
    case True
    then show ?thesis using d_strip_to_ideal [of q m "ea - eb - int m"] by simp
  next
    case False
    then show ?thesis using k km d_strip_zeros [of q "ea - eb - int m" "m - k" "ea - eb"] by (simp add: of_nat_diff)
  qed
  then show ?thesis
    using ca cb q p by (simp add: d_div_def Let_def sh num d_fix_exact)
qed

end
