(* ===== verification/Decimal_Text.thy ===== *)
theory Decimal_Text
  imports Decimal_Value
begin

text \<open>
  Decimals and their strings: \<^verbatim>\<open>Decimal(format(d, "f"))\<close> gives the number back, and
  the fixed string patterns bound what a parsed number can be.
\<close>

section \<open>Digits\<close>

lemma digit_val_char [simp]: "n < 10 \<Longrightarrow> digit_val (digit_char n) = n"
proof -
  assume "n < 10"
  then have "n = 0 \<or> n = 1 \<or> n = 2 \<or> n = 3 \<or> n = 4 \<or> n = 5 \<or> n = 6 \<or> n = 7 \<or> n = 8 \<or> n = 9"
    by presburger
  then show ?thesis by (elim disjE) (simp_all add: digit_val.simps digit_char.simps)
qed

lemma is_digit_char [simp]: "is_digit (digit_char n)"
  by (simp add: is_digit_def digit_char.simps)

lemma digit_val_less: "digit_val c < 10"
  by (simp add: digit_val.simps)

lemma digit_char_zero_iff: "n < 10 \<Longrightarrow> digit_char n = CHR ''0'' \<longleftrightarrow> n = 0"
proof -
  have "digit_char 0 = CHR ''0''" by (simp add: digit_char.simps)
  moreover assume "n < 10"
  ultimately show ?thesis by (metis digit_val_char zero_less_numeral)
qed

lemma not_digit_dot [simp]: "\<not> is_digit (CHR ''.'')"
  by (simp add: is_digit_def)

lemma not_digit_minus [simp]: "\<not> is_digit (CHR ''-'')"
  by (simp add: is_digit_def)

lemma is_digit_zero [simp]: "is_digit (CHR ''0'')"
  by (simp add: is_digit_def)

lemma length_nat_str [simp]: "length (nat_str n) = ndigits n"
  by (induction n rule: nat_str.induct) (simp add: nat_str.simps ndigits.simps)

lemma nat_str_digits: "c \<in> set (nat_str n) \<Longrightarrow> is_digit c"
proof (induction n rule: nat_str.induct)
  case (1 n)
  then show ?case by (cases "n < 10") (auto simp: nat_str.simps [of n])
qed

lemma str_nat_snoc [simp]: "str_nat (s @ [c]) = 10 * str_nat s + digit_val c"
  by (simp add: str_nat_def)

lemma str_nat_Nil [simp]: "str_nat [] = 0"
  by (simp add: str_nat_def)

lemma str_nat_one_zero [simp]: "str_nat ''0'' = 0"
  by (simp add: str_nat_def digit_val.simps)

lemma str_nat_append: "str_nat (s @ t) = str_nat s * 10 ^ length t + str_nat t"
proof (induction t rule: rev_induct)
  case (snoc c t)
  have "str_nat (s @ t @ [c]) = 10 * str_nat (s @ t) + digit_val c"
    using str_nat_snoc [of "s @ t" c] by simp
  with snoc show ?case by (simp add: algebra_simps)
qed simp

lemma str_nat_zeros [simp]: "str_nat (replicate k (CHR ''0'')) = 0"
proof (induction k)
  case (Suc k)
  have "replicate (Suc k) (CHR ''0'') = replicate k (CHR ''0'') @ ''0''"
    by (simp add: replicate_append_same)
  with Suc show ?case by (simp add: digit_val.simps)
qed simp

lemma str_nat_nat_str [simp]: "str_nat (nat_str n) = n"
proof (induction n rule: nat_str.induct)
  case (1 n)
  show ?case
  proof (cases "n < 10")
    case True
    then show ?thesis using str_nat_snoc [of "[]"] by (simp add: nat_str.simps)
  next
    case False
    then show ?thesis using 1 by (simp add: nat_str.simps [of n])
  qed
qed

lemma str_nat_less: "str_nat s < 10 ^ length s"
proof (induction s rule: rev_induct)
  case (snoc c s)
  then have "10 * str_nat s + 10 \<le> 10 * 10 ^ length s" by linarith
  then show ?case using digit_val_less [of c] by simp
qed simp

lemma nat_str_nonempty [simp]: "nat_str n \<noteq> []"
  using length_nat_str [of n] ndigits_pos [of n] by (metis length_0_conv less_irrefl)

lemma nat_str_hd: "hd (nat_str n) = CHR ''0'' \<longleftrightarrow> n = 0"
proof (induction n rule: nat_str.induct)
  case (1 n)
  show ?case
  proof (cases "n < 10")
    case True
    then show ?thesis by (simp add: nat_str.simps digit_char_zero_iff)
  next
    case False
    then show ?thesis using 1 by (simp add: nat_str.simps [of n] hd_append)
  qed
qed

section \<open>Round trips\<close>

lemma takeWhile_digits_dot:
  "(\<forall>c\<in>set s. is_digit c) \<Longrightarrow> takeWhile is_digit (s @ CHR ''.'' # t) = s"
  "(\<forall>c\<in>set s. is_digit c) \<Longrightarrow> dropWhile is_digit (s @ CHR ''.'' # t) = CHR ''.'' # t"
  by (auto simp: takeWhile_append2 dropWhile_append2)

lemma takeWhile_digits_all:
  "(\<forall>c\<in>set s. is_digit c) \<Longrightarrow> takeWhile is_digit s = s"
  "(\<forall>c\<in>set s. is_digit c) \<Longrightarrow> dropWhile is_digit s = []"
  by auto

lemma parse_unsigned_dot:
  assumes "\<forall>c\<in>set i. is_digit c"
  shows "d_parse_unsigned sg (i @ CHR ''.'' # f) = Dec sg (str_nat (i @ f)) (- int (length f))"
  by (simp add: d_parse_unsigned_def takeWhile_digits_dot [OF assms])

lemma parse_unsigned_nodot:
  assumes "\<forall>c\<in>set i. is_digit c"
  shows "d_parse_unsigned sg i = Dec sg (str_nat i) 0"
  by (simp add: d_parse_unsigned_def takeWhile_digits_all [OF assms])

text \<open>The part of \<open>d_format\<close> after the sign.\<close>

definition d_body :: "dec \<Rightarrow> string" where
  "d_body d =
     (if 0 \<le> d_exp d
      then (if d_coeff d = 0 then ''0''
            else nat_str (d_coeff d) @ replicate (nat (d_exp d)) (CHR ''0''))
      else let ds = nat_str (d_coeff d); n = length ds; f = nat (- d_exp d)
           in if n \<le> f then ''0.'' @ replicate (f - n) (CHR ''0'') @ ds
              else take (n - f) ds @ ''.'' @ drop (n - f) ds)"

lemma d_format_body: "d_format d = (if d_sign d then ''-'' else '''') @ d_body d"
  by (simp add: d_format_def d_body_def)

lemma digits_take_drop:
  "c \<in> set (take k (nat_str n)) \<Longrightarrow> is_digit c" "c \<in> set (drop k (nat_str n)) \<Longrightarrow> is_digit c"
  by (auto intro: nat_str_digits dest: in_set_takeD in_set_dropD)

lemma parse_body_nonpos:
  assumes "d_exp d \<le> 0"
  shows "d_parse_unsigned sg (d_body d) = Dec sg (d_coeff d) (d_exp d)"
proof (cases "d_exp d = 0")
  case True
  then show ?thesis
    by (auto simp: d_body_def parse_unsigned_nodot nat_str_digits)
next
  case False
  let ?ds = "nat_str (d_coeff d)" and ?f = "nat (- d_exp d)"
  have neg: "d_exp d < 0" using assms False by simp
  show ?thesis
  proof (cases "length ?ds \<le> ?f")
    case True
    have b: "d_body d = ''0'' @ CHR ''.'' # (replicate (?f - length ?ds) (CHR ''0'') @ ?ds)"
      using neg True by (simp add: d_body_def Let_def)
    have "d_parse_unsigned sg (d_body d) =
        Dec sg (str_nat (''0'' @ replicate (?f - length ?ds) (CHR ''0'') @ ?ds)) (- int ?f)"
      unfolding b by (subst parse_unsigned_dot) (use True in auto)
    moreover have "str_nat (''0'' @ replicate (?f - length ?ds) (CHR ''0'') @ ?ds) = d_coeff d"
      using str_nat_append [of "''0''" "replicate (?f - length ?ds) (CHR ''0'') @ ?ds"]
        str_nat_append [of "replicate (?f - length ?ds) (CHR ''0'')" ?ds]
      by simp
    ultimately show ?thesis using neg by simp
  next
    case False
    let ?k = "length ?ds - ?f"
    have b: "d_body d = take ?k ?ds @ CHR ''.'' # drop ?k ?ds"
      using neg False by (simp add: d_body_def Let_def)
    have "d_parse_unsigned sg (d_body d) = Dec sg (str_nat ?ds) (- int ?f)"
      unfolding b using False by (subst parse_unsigned_dot) (auto dest: digits_take_drop(1))
    then show ?thesis using neg by simp
  qed
qed

lemma parse_body_pos:
  assumes "0 < d_exp d"
  shows "d_parse_unsigned sg (d_body d) = Dec sg (d_coeff d * 10 ^ nat (d_exp d)) 0"
proof (cases "d_coeff d = 0")
  case True
  then show ?thesis using assms
    by (simp add: d_body_def parse_unsigned_nodot)
next
  case False
  then have "d_body d = nat_str (d_coeff d) @ replicate (nat (d_exp d)) (CHR ''0'')"
    using assms by (simp add: d_body_def)
  then show ?thesis
    by (subst parse_unsigned_nodot) (auto simp: str_nat_append dest: nat_str_digits)
qed

lemma d_body_starts: "d_body d \<noteq> [] \<and> hd (d_body d) \<noteq> CHR ''-''"
proof -
  have n: "hd (nat_str n) \<noteq> CHR ''-''" for n
    using nat_str_digits [OF hd_in_set [OF nat_str_nonempty], of n] by auto
  have t: "hd (take k (nat_str n)) \<noteq> CHR ''-''" if "0 < k" for k n
    using that n [of n] by simp
  show ?thesis
  proof (cases "0 \<le> d_exp d")
    case True
    then show ?thesis using n by (simp add: d_body_def hd_append)
  next
    case False
    then show ?thesis using t by (auto simp: d_body_def Let_def hd_append)
  qed
qed

lemma py_Decimal_format_parse: "py_Decimal (d_format d) = d_parse_unsigned (d_sign d) (d_body d)"
  using d_body_starts [of d] by (cases "d_body d") (auto simp: d_format_body py_Decimal_def)

lemma decimal_format_roundtrip: "d_exp d \<le> 0 \<Longrightarrow> py_Decimal (d_format d) = d"
  by (simp add: py_Decimal_format_parse parse_body_nonpos)

lemma val_format [simp]: "val (py_Decimal (d_format d)) = val d"
proof (cases "d_exp d \<le> 0")
  case True
  then show ?thesis by (simp add: decimal_format_roundtrip)
next
  case False
  then show ?thesis
    using ten_powi_nat [of "d_exp d"]
    by (simp add: py_Decimal_format_parse parse_body_pos val_def d_int_def)
qed

section \<open>What a matched string can denote\<close>

lemma plain_unsigned_cases:
  assumes "plain_unsigned s"
  obtains i where "s = i" "\<forall>c\<in>set i. is_digit c" "i \<noteq> []" "length i \<le> 40"
  | i f where "s = i @ CHR ''.'' # f" "\<forall>c\<in>set i. is_digit c" "i \<noteq> []" "length i \<le> 40"
      "\<forall>c\<in>set f. is_digit c" "f \<noteq> []" "length f \<le> 40"
proof -
  let ?i = "takeWhile is_digit s" and ?r = "dropWhile is_digit s"
  have s: "s = ?i @ ?r" by simp
  have i: "\<forall>c\<in>set ?i. is_digit c" by (auto dest: set_takeWhileD)
  have l: "?i \<noteq> []" "length ?i \<le> 40"
    using assms by (auto simp: plain_unsigned_def Let_def)
  show thesis
  proof (cases ?r)
    case Nil
    then have e: "?i = s" using s by (metis append_Nil2)
    show thesis using i l unfolding e by (intro that(1) [of s]) auto
  next
    case (Cons c f)
    with assms have "c = CHR ''.''" "f \<noteq> []" "length f \<le> 40" "\<forall>c\<in>set f. is_digit c"
      by (auto simp: plain_unsigned_def Let_def list_all_iff)
    with Cons s i l show thesis by (intro that(2) [of ?i f]) auto
  qed
qed

lemma parse_unsigned_bounds:
  assumes "plain_unsigned s"
  shows "d_exp (d_parse_unsigned sg s) \<in> {-40..0}"
    and "mag (d_parse_unsigned sg s) < 10 ^ 40"
    and "d_sign (d_parse_unsigned sg s) = sg"
proof -
  show "d_sign (d_parse_unsigned sg s) = sg" by (simp add: d_parse_unsigned_def Let_def)
  show "d_exp (d_parse_unsigned sg s) \<in> {-40..0}"
    using assms by (cases rule: plain_unsigned_cases)
      (auto simp: parse_unsigned_dot parse_unsigned_nodot)
  have pow: "(10::rat) ^ length i \<le> 10 ^ 40" if "length i \<le> 40" for i :: string
    using that by (intro power_increasing) auto
  show "mag (d_parse_unsigned sg s) < 10 ^ 40"
    using assms
  proof (cases rule: plain_unsigned_cases)
    case (1 i)
    have "(of_nat (str_nat i) :: rat) < 10 ^ length i"
      using str_nat_less [of i] by (metis of_nat_less_iff of_nat_numeral of_nat_power)
    also have "\<dots> \<le> 10 ^ 40" using 1 by (intro pow)
    finally show ?thesis using 1 by (simp add: parse_unsigned_nodot mag_def)
  next
    case (2 i f)
    have "(of_nat (str_nat (i @ f)) :: rat) < 10 ^ length (i @ f)"
      using str_nat_less [of "i @ f"] by (metis of_nat_less_iff of_nat_numeral of_nat_power)
    then have "(of_nat (str_nat (i @ f)) :: rat) * 10 powi (- int (length f)) <
        10 ^ length (i @ f) * 10 powi (- int (length f))" by simp
    also have "\<dots> = 10 ^ length i"
      by (simp add: power_add power_int_minus)
    finally show ?thesis using 2 pow [of i] by (simp add: parse_unsigned_dot mag_def)
  qed
qed

lemma plain_unsigned_hd: "plain_unsigned s \<Longrightarrow> \<exists>c t. s = c # t \<and> c \<noteq> CHR ''-''"
  by (erule plain_unsigned_cases; case_tac i; auto)

lemma plain_unsigned_parse: "plain_unsigned s \<Longrightarrow> py_Decimal s = d_parse_unsigned False s"
  by (drule plain_unsigned_hd) (auto simp: py_Decimal_def)

lemma plain_unsigned_bounds:
  assumes "plain_unsigned s"
  shows "d_exp (py_Decimal s) \<in> {-40..0}" "0 \<le> val (py_Decimal s)" "val (py_Decimal s) < 10 ^ 40"
    "\<not> d_sign (py_Decimal s)"
  using parse_unsigned_bounds [OF assms, of False]
  by (simp_all add: plain_unsigned_parse [OF assms] val_mag)

lemma plain_unsigned_grid: "plain_unsigned s \<Longrightarrow> on_grid (-40) (val (py_Decimal s))"
  using plain_unsigned_bounds(1) [of s] by (intro on_grid_val) auto

lemma grid_plain: "plain_unsigned s \<Longrightarrow> on_grid (-40) (val (py_Decimal s)) \<and> 0 \<le> val (py_Decimal s) \<and> val (py_Decimal s) < 10 ^ 40"
  using plain_unsigned_grid plain_unsigned_bounds by blast

lemma plain_signed_bounds:
  assumes "plain_signed s"
  shows "d_exp (py_Decimal s) \<in> {-40..0}" "\<bar>val (py_Decimal s)\<bar> < 10 ^ 40"
proof -
  consider "plain_unsigned s" | t where "s = CHR ''-'' # t" "plain_unsigned t"
    using assms by (auto simp: plain_signed_def split: list.splits if_splits)
  then show "d_exp (py_Decimal s) \<in> {-40..0}" "\<bar>val (py_Decimal s)\<bar> < 10 ^ 40"
    by (cases; use plain_unsigned_bounds [of s] parse_unsigned_bounds [of _ True] in
        \<open>force simp: py_Decimal_def mag_abs_val\<close>)+
qed

lemma plain_unsigned_imp_signed: "plain_unsigned s \<Longrightarrow> plain_signed s"
  by (frule plain_unsigned_hd) (auto simp: plain_signed_def)

section \<open>Evaluation of literals\<close>

text \<open>Rewrite rules that compute with literal strings and small Decimals in the simplifier.\<close>

named_theorems py_eval \<open>evaluation of literal inputs\<close>

lemma Dec_eval [py_eval]:
  "d_int (Dec False c e) = int c" "d_int (Dec True c e) = - int c"
  "d_scaled z (Dec False c e) = int c * 10 ^ nat (e - z)"
  "d_scaled z (Dec True c e) = - int c * 10 ^ nat (e - z)"
  "d_lt (Dec s c e) (Dec s' c' e') \<longleftrightarrow>
     d_scaled (min e e') (Dec s c e) < d_scaled (min e e') (Dec s' c' e')"
  "d_le (Dec s c e) (Dec s' c' e') \<longleftrightarrow>
     d_scaled (min e e') (Dec s c e) \<le> d_scaled (min e e') (Dec s' c' e')"
  "d_eq (Dec s c e) (Dec s' c' e') \<longleftrightarrow>
     d_scaled (min e e') (Dec s c e) = d_scaled (min e e') (Dec s' c' e')"
  "d_max (Dec s c e) (Dec s' c' e') =
     (if d_lt (Dec s c e) (Dec s' c' e') then Dec s' c' e' else Dec s c e)"
  "d_min (Dec s c e) (Dec s' c' e') =
     (if d_lt (Dec s' c' e') (Dec s c e) then Dec s' c' e' else Dec s c e)"
  by (simp_all add: d_int_def d_scaled_def d_lt_def d_le_def d_eq_def d_max_def d_min_def Let_def)

lemma arith_eval [py_eval]:
  "ndigits c \<le> p \<Longrightarrow> d_fix p (Dec s c e) = Dec s c e"
  "d_add_exact (Dec s c e) (Dec s' c' e') =
     (let m = min e e'; t = d_scaled m (Dec s c e) + d_scaled m (Dec s' c' e')
      in Dec (t < 0 \<or> t = 0 \<and> s \<and> s') (nat \<bar>t\<bar>) m)"
  "d_mul p (Dec s c e) (Dec s' c' e') = d_fix p (Dec (s \<noteq> s') (c * c') (e + e'))"
  "copy_negate (Dec s c e) = Dec (\<not> s) c e"
  "d_neg p (Dec s c e) = d_fix p (Dec (c \<noteq> 0 \<and> \<not> s) c e)"
  "d_abs p (Dec s c e) = d_fix p (Dec False c e)"
  by (simp_all add: d_fix_def d_add_exact_def d_mul_def copy_negate_def d_neg_def d_abs_def Let_def)

lemma precision_eval [py_eval]: "n \<le> DECIMAL_PRECISION \<longleftrightarrow> n \<le> 256"
  by (simp add: DECIMAL_PRECISION_def)

lemmas literal_eval [py_eval] = d_add_def d_sub_def ndigits.simps d_format_def nat_str.simps digit_char.simps
  plain_unsigned_def plain_signed_def is_digit_def py_Decimal_def d_parse_unsigned_def str_nat_def
  digit_val.simps dec_of_int_def Let_def

end
