(* ===== verification/Market_Data.thy ===== *)
theory Market_Data
  imports Decimal_Text
begin

text \<open>
  The canonical candle of \<^verbatim>\<open>yatl/data\<close>: fixed market policy
  (\<^verbatim>\<open>config.py\<close>), the candle contract (\<^verbatim>\<open>models.py\<close>) and the duplicate and gap
  checks over a bounded range (\<^verbatim>\<open>quality.py\<close>).
\<close>

section \<open>Fixed policy\<close>

definition DATA_SOURCE :: string where
  "DATA_SOURCE = ''BINANCE_SPOT_PUBLIC''"

definition SYMBOLS :: "string list" where
  "SYMBOLS = [''BTCUSDT'', ''ETHUSDT'']"

text \<open>\<^verbatim>\<open>INTERVAL_MILLISECONDS\<close>, a read-only mapping.\<close>

definition INTERVAL_MILLISECONDS :: "string \<rightharpoonup> int" where
  "INTERVAL_MILLISECONDS = [''15m'' \<mapsto> 15 * 60 * 1000, ''1h'' \<mapsto> 60 * 60 * 1000, ''4h'' \<mapsto> 4 * 60 * 60 * 1000]"

abbreviation hour_ms :: int where
  "hour_ms \<equiv> 3600000"

lemma interval_15m [simp]: "INTERVAL_MILLISECONDS ''15m'' = Some 900000"
  by (simp add: INTERVAL_MILLISECONDS_def)

lemma interval_1h [simp]: "INTERVAL_MILLISECONDS ''1h'' = Some 3600000"
  by (simp add: INTERVAL_MILLISECONDS_def)

lemma interval_4h [simp]: "INTERVAL_MILLISECONDS ''4h'' = Some 14400000"
  by (simp add: INTERVAL_MILLISECONDS_def)

lemma interval_positive: "INTERVAL_MILLISECONDS i = Some d \<Longrightarrow> 0 < d"
  by (auto simp: INTERVAL_MILLISECONDS_def split: if_splits)

text \<open>Python's \<^verbatim>\<open>range(start, stop, step)\<close> for a positive step.\<close>

definition py_range :: "int \<Rightarrow> int \<Rightarrow> int \<Rightarrow> int list" where
  "py_range start stop step =
     map (\<lambda>i. start + int i * step) [0..<nat ((stop - start + step - 1) div step)]"

section \<open>Candles\<close>

record Candle =
  cd_source :: string
  cd_symbol :: string
  cd_interval :: string
  cd_open_time_ms :: int
  cd_close_time_ms :: int
  cd_open :: string
  cd_high :: string
  cd_low :: string
  cd_close :: string
  cd_base_volume :: string
  cd_quote_volume :: string
  cd_trade_count :: int
  cd_is_closed :: bool

definition candle_decimal :: "string \<Rightarrow> string \<Rightarrow> bool \<Rightarrow> dec result" where
  "candle_decimal v field allow_zero =
     (if \<not> plain_unsigned v
      then Inl (CandleValidationError (field @ '' must be a plain non-negative decimal string''))
      else let number = py_Decimal v
           in if d_lt number d_zero \<or> (\<not> allow_zero \<and> d_eq number d_zero)
              then Inl (CandleValidationError (field @ '' is outside the allowed range''))
              else Inr number)"

definition Candle_post_init :: "Candle \<Rightarrow> unit result" where
  "Candle_post_init c =
     (if cd_source c \<noteq> DATA_SOURCE then Inl (CandleValidationError ''Unsupported candle source'')
      else if cd_symbol c \<notin> set SYMBOLS then Inl (CandleValidationError ''Unsupported candle symbol'')
      else case INTERVAL_MILLISECONDS (cd_interval c) of
        None \<Rightarrow> Inl (CandleValidationError ''Unsupported candle interval'')
      | Some duration \<Rightarrow>
        if cd_open_time_ms c < 0
        then Inl (CandleValidationError ''Candle timestamps must be non-negative integers'')
        else if cd_open_time_ms c mod duration \<noteq> 0
        then Inl (CandleValidationError ''Candle open timestamp is not interval-aligned UTC'')
        else if cd_close_time_ms c \<noteq> cd_open_time_ms c + duration - 1
        then Inl (CandleValidationError ''Candle close timestamp does not match its interval'')
        else if cd_trade_count c < 0
        then Inl (CandleValidationError ''Trade count must be a non-negative integer'')
        else
          bind_r (candle_decimal (cd_open c) ''open'' False) (\<lambda>opened.
          bind_r (candle_decimal (cd_high c) ''high'' False) (\<lambda>high.
          bind_r (candle_decimal (cd_low c) ''low'' False) (\<lambda>low.
          bind_r (candle_decimal (cd_close c) ''close'' False) (\<lambda>closed.
          bind_r (candle_decimal (cd_base_volume c) ''base_volume'' True) (\<lambda>_.
          bind_r (candle_decimal (cd_quote_volume c) ''quote_volume'' True) (\<lambda>_.
            if \<not> (d_le low (d_min opened closed) \<and> d_le (d_min opened closed) (d_max opened closed)
                  \<and> d_le (d_max opened closed) high)
            then Inl (CandleValidationError ''Candle OHLC values are inconsistent'')
            else Inr ())))))))"

definition valid_Candle :: "Candle \<Rightarrow> bool" where
  "valid_Candle c \<longleftrightarrow> Candle_post_init c = Inr ()"

definition Candle_key :: "Candle \<Rightarrow> string \<times> string \<times> string \<times> int" where
  "Candle_key c = (cd_source c, cd_symbol c, cd_interval c, cd_open_time_ms c)"

section \<open>Range quality\<close>

definition MAX_RANGE_CANDLES :: nat where
  "MAX_RANGE_CANDLES = 100000"

definition MAX_REPAIR_RANGES :: nat where
  "MAX_REPAIR_RANGES = 1000"

definition duplicate_candle_keys ::
    "Candle list \<Rightarrow> (string \<times> string \<times> string \<times> int) list result" where
  "duplicate_candle_keys candles =
     (if MAX_RANGE_CANDLES < length candles
      then Inl (QualityError ''Candle collection is invalid or too large'')
      else Inr (repeated_once [] [] (map Candle_key candles)))"

fun repair_loop :: "int \<Rightarrow> int \<Rightarrow> int \<Rightarrow> int list \<Rightarrow> (int \<times> int) list" where
  "repair_loop duration start previous [] = [(start, previous + duration)]"
| "repair_loop duration start previous (open_time # rest) =
     (if open_time \<noteq> previous + duration
      then (start, previous + duration) # repair_loop duration open_time open_time rest
      else repair_loop duration start open_time rest)"

definition repair_ranges :: "int list \<Rightarrow> int \<Rightarrow> (int \<times> int) list result" where
  "repair_ranges missing_open_times duration =
     (case missing_open_times of
        [] \<Rightarrow> Inr []
      | first # rest \<Rightarrow>
          let ranges = repair_loop duration first first rest
          in if MAX_REPAIR_RANGES < length ranges
             then Inl (QualityError ''Missing candles require too many repair ranges'')
             else Inr ranges)"

record RangeQualityReport =
  rq_source :: string
  rq_symbol :: string
  rq_interval :: string
  rq_start_time_ms :: int
  rq_end_time_ms :: int
  rq_expected_rows :: int
  rq_observed_rows :: nat
  rq_observed_unique_rows :: nat
  rq_duplicate_open_times :: "int list"
  rq_historical_gap_open_times :: "int list"
  rq_expected_current_open_time_ms :: "int option"
  rq_expected_current_open_missing :: bool
  rq_repair_ranges :: "(int \<times> int) list"

definition rq_healthy :: "RangeQualityReport \<Rightarrow> bool" where
  "rq_healthy r \<longleftrightarrow> rq_duplicate_open_times r = [] \<and> rq_historical_gap_open_times r = []"

definition analyze_open_times ::
    "string \<Rightarrow> string \<Rightarrow> string \<Rightarrow> int \<Rightarrow> int \<Rightarrow> int list \<Rightarrow> int \<Rightarrow> RangeQualityReport result" where
  "analyze_open_times source symbol interval start_time_ms end_time_ms open_times server_time_ms =
     (if source \<noteq> DATA_SOURCE \<or> symbol \<notin> set SYMBOLS \<or> INTERVAL_MILLISECONDS interval = None
      then Inl (QualityError ''Unsupported source, symbol or interval'')
      else let duration = the (INTERVAL_MILLISECONDS interval) in
      if start_time_ms < 0 \<or> server_time_ms < 0 \<or> start_time_ms \<ge> end_time_ms
         \<or> start_time_ms mod duration \<noteq> 0 \<or> end_time_ms mod duration \<noteq> 0
      then Inl (QualityError ''Quality range or server time is invalid'')
      else let expected_rows = (end_time_ms - start_time_ms) div duration in
      if expected_rows > int MAX_RANGE_CANDLES
      then Inl (QualityError ''Quality range exceeds the candle limit'')
      else let current_open = (server_time_ms div duration) * duration in
      if end_time_ms > current_open + duration
      then Inl (QualityError ''Quality range extends beyond the current interval'')
      else if MAX_RANGE_CANDLES < length open_times
      then Inl (QualityError ''Open-time collection is invalid or too large'')
      else if list_ex (\<lambda>t. t < start_time_ms \<or> t \<ge> end_time_ms \<or> t mod duration \<noteq> 0) open_times
      then Inl (QualityError ''Observed candle timestamp is outside the exact UTC grid'')
      else
        let duplicates = repeated_once [] [] open_times;
            missing = filter (\<lambda>t. t \<notin> set open_times) (py_range start_time_ms end_time_ms duration);
            expected_current = (if start_time_ms \<le> current_open \<and> current_open < end_time_ms
                                then Some current_open else None);
            current_missing = (case expected_current of None \<Rightarrow> False | Some t \<Rightarrow> t \<in> set missing);
            historical_gaps = filter (\<lambda>t. Some t \<noteq> expected_current) missing
        in bind_r (repair_ranges historical_gaps duration) (\<lambda>ranges.
             Inr \<lparr> rq_source = source, rq_symbol = symbol, rq_interval = interval,
               rq_start_time_ms = start_time_ms, rq_end_time_ms = end_time_ms,
               rq_expected_rows = expected_rows, rq_observed_rows = length open_times,
               rq_observed_unique_rows = card (set open_times),
               rq_duplicate_open_times = duplicates,
               rq_historical_gap_open_times = historical_gaps,
               rq_expected_current_open_time_ms = expected_current,
               rq_expected_current_open_missing = current_missing,
               rq_repair_ranges = ranges \<rparr>))"

section \<open>Consequences of a valid candle\<close>

lemma candle_decimal_Inr:
  "candle_decimal v f z = Inr n \<longleftrightarrow>
     plain_unsigned v \<and> n = py_Decimal v \<and> (z \<or> 0 < val (py_Decimal v))"
proof (cases "plain_unsigned v")
  case True
  then show ?thesis
    using plain_unsigned_bounds(2) [OF True]
    by (auto simp: candle_decimal_def dec_val Let_def)
qed (simp add: candle_decimal_def)

lemma valid_Candle_times:
  assumes "valid_Candle c" "INTERVAL_MILLISECONDS (cd_interval c) = Some d"
  shows "0 \<le> cd_open_time_ms c" "cd_open_time_ms c mod d = 0"
    "cd_close_time_ms c = cd_open_time_ms c + d - 1"
  using assms by (auto simp: valid_Candle_def Candle_post_init_def split: if_splits)

lemma valid_Candle_prices:
  assumes "valid_Candle c"
  shows "plain_unsigned (cd_open c)" "plain_unsigned (cd_high c)" "plain_unsigned (cd_low c)"
    "plain_unsigned (cd_close c)" "plain_unsigned (cd_base_volume c)"
    "0 < val (py_Decimal (cd_low c))"
    "val (py_Decimal (cd_low c)) \<le> val (py_Decimal (cd_open c))"
    "val (py_Decimal (cd_low c)) \<le> val (py_Decimal (cd_close c))"
    "val (py_Decimal (cd_open c)) \<le> val (py_Decimal (cd_high c))"
    "val (py_Decimal (cd_close c)) \<le> val (py_Decimal (cd_high c))"
  using assms
  by (auto simp: valid_Candle_def Candle_post_init_def bind_r_eq_Inr candle_decimal_Inr dec_val
      split: if_splits option.splits)

lemma valid_Candle_interval:
  "valid_Candle c \<Longrightarrow> \<exists>d. INTERVAL_MILLISECONDS (cd_interval c) = Some d"
  by (auto simp: valid_Candle_def Candle_post_init_def split: if_splits option.splits)

section \<open>Ranges and gaps\<close>

lemma length_py_range:
  "length (py_range a b s) = nat ((b - a + s - 1) div s)"
  by (simp add: py_range_def)

lemma py_range_aligned_length:
  fixes a b s :: int
  assumes "0 < s" "a mod s = 0" "b mod s = 0"
  shows "(b - a + s - 1) div s = (b - a) div s"
proof -
  from assms(2) have "s dvd a" by (simp only: dvd_eq_mod_eq_0)
  moreover from assms(3) have "s dvd b" by (simp only: dvd_eq_mod_eq_0)
  ultimately obtain i j where ij: "a = s * i" "b = s * j" by (auto elim!: dvdE)
  have "(b - a + s - 1) div s = (s * (j - i) + (s - 1)) div s"
    by (simp add: ij algebra_simps)
  also have "\<dots> = (j - i) + (s - 1) div s" using assms(1) by simp
  also have "(s - 1) div s = 0" using assms(1) by (simp add: div_pos_pos_trivial)
  finally show ?thesis using assms(1) by (simp add: ij right_diff_distrib [symmetric])
qed

lemma le_zdiv_iff:
  fixes x y s :: int
  assumes "0 < s"
  shows "x \<le> y div s \<longleftrightarrow> x * s \<le> y"
proof
  assume "x \<le> y div s"
  then have "x * s \<le> y div s * s" using assms by (intro mult_right_mono) auto
  also have "\<dots> \<le> y" using assms div_mult_mod_eq [of y s] pos_mod_sign [of s y] by linarith
  finally show "x * s \<le> y" .
next
  assume "x * s \<le> y"
  then have "x * s div s \<le> y div s" using assms by (rule zdiv_mono1)
  then show "x \<le> y div s" using assms by simp
qed

lemma set_py_range:
  assumes "0 < s"
  shows "set (py_range a b s) = {t. a \<le> t \<and> t < b \<and> (t - a) mod s = 0}"
proof (intro set_eqI iffI)
  fix t
  assume "t \<in> set (py_range a b s)"
  then obtain i where i: "t = a + int i * s" "i < nat ((b - a + s - 1) div s)"
    unfolding py_range_def set_map set_upt by fastforce
  then have "int i + 1 \<le> (b - a + s - 1) div s" by linarith
  then have "(int i + 1) * s \<le> b - a + s - 1"
    by (simp only: le_zdiv_iff [OF assms])
  then have "int i * s < b - a" by (simp add: algebra_simps)
  then show "t \<in> {t. a \<le> t \<and> t < b \<and> (t - a) mod s = 0}"
    using i(1) assms by simp
next
  fix t
  assume "t \<in> {t. a \<le> t \<and> t < b \<and> (t - a) mod s = 0}"
  then have t: "a \<le> t" "t < b" "(t - a) mod s = 0" by auto
  let ?i = "(t - a) div s"
  have e: "t = a + ?i * s" using t(3) div_mult_mod_eq [of "t - a" s] by linarith
  have i0: "0 \<le> ?i" using t(1) assms by (simp add: pos_imp_zdiv_nonneg_iff)
  have "?i * s + s \<le> b - a + s - 1" using e t(2) by linarith
  then have "(?i + 1) * s \<le> b - a + s - 1" by (simp add: algebra_simps)
  then have "?i + 1 \<le> (b - a + s - 1) div s" by (simp only: le_zdiv_iff [OF assms])
  then have "nat ?i < nat ((b - a + s - 1) div s)" using i0 by linarith
  moreover have "t = a + int (nat ?i) * s" using e i0 by simp
  ultimately show "t \<in> set (py_range a b s)"
    unfolding py_range_def set_map set_upt by (intro image_eqI [of _ _ "nat ?i"]) auto
qed

lemma py_range_run:
  assumes "0 < s"
  shows "py_range a (a + int n * s) s = map (\<lambda>i. a + int i * s) [0..<n]"
proof -
  have "(int n * s + s - 1) div s = int n"
    using assms by (intro int_div_pos_eq [of _ _ _ "s - 1"]) (auto simp: algebra_simps)
  then show ?thesis by (simp add: py_range_def)
qed

lemma repair_loop_expand:
  assumes "0 < d"
  shows "concat (map (\<lambda>(a, b). py_range a b d) (repair_loop d start (start + int n * d) ts))
    = py_range start (start + int (Suc n) * d) d @ ts"
proof (induction ts arbitrary: start n)
  case Nil
  then show ?case by (simp add: algebra_simps)
next
  case (Cons t ts)
  show ?case
  proof (cases "t = start + int n * d + d")
    case True
    then have t: "t = start + int (Suc n) * d" by (simp add: algebra_simps)
    have "py_range start (start + int (Suc (Suc n)) * d) d = py_range start (start + int (Suc n) * d) d @ [t]"
      unfolding py_range_run [OF assms] t by simp
    with Cons.IH [of start "Suc n"] True t show ?thesis by (simp add: algebra_simps)
  next
    case False
    have "py_range t (t + d) d = [t]"
      using py_range_run [OF assms, of t 1] by simp
    with Cons.IH [of t 0] False show ?thesis by (simp add: algebra_simps)
  qed
qed

lemma repair_ranges_expand:
  assumes "0 < d" "repair_ranges missing d = Inr ranges"
  shows "concat (map (\<lambda>(a, b). py_range a b d) ranges) = missing"
proof (cases missing)
  case Nil
  then show ?thesis using assms(2) by (simp add: repair_ranges_def)
next
  case (Cons t ts)
  have "py_range t (t + d) d = [t]"
    using py_range_run [OF assms(1), of t 1] by simp
  with repair_loop_expand [OF assms(1), of t 0 ts] Cons assms(2) show ?thesis
    by (simp add: repair_ranges_def Let_def split: if_splits)
qed

end
