(* ===== verification/Backtest_Market.thy ===== *)
theory Backtest_Market
  imports Market_Data
begin

text \<open>
  The point-in-time side of \<^verbatim>\<open>yatl/backtest\<close>: the simulation specification
  (\<^verbatim>\<open>config.py\<close>), the market snapshot a decision may see (\<^verbatim>\<open>models.py\<close>), the
  snapshot taken from an accepted dataset (\<^verbatim>\<open>loader.py\<close>) and the event clock
  (\<^verbatim>\<open>clock.py\<close>). The locale \<open>point_in_time\<close> is the contract of a view that
  depends on no later data.
\<close>

section \<open>Specification\<close>

definition PRIMARY_INTERVAL :: string where "PRIMARY_INTERVAL = ''1h''"
definition REGIME_INTERVAL :: string where "REGIME_INTERVAL = ''4h''"
definition CONTEXT_INTERVAL :: string where "CONTEXT_INTERVAL = ''15m''"
definition EXECUTION_PRICE_POLICY :: string where "EXECUTION_PRICE_POLICY = ''NEXT_PRIMARY_OPEN''"
definition MAX_COST_BPS :: dec where "MAX_COST_BPS = dec_of_int 1000"
definition MAX_INITIAL_CASH :: dec where "MAX_INITIAL_CASH = dec_of_int 1000000000000000"
definition MAX_PRIMARY_CANDLES :: int where "MAX_PRIMARY_CANDLES = 100000"

text \<open>\<^verbatim>\<open>INTERVAL_MILLISECONDS[interval]\<close> for one of the three fixed intervals.\<close>

definition interval_ms :: "string \<Rightarrow> int" where
  "interval_ms i = the (INTERVAL_MILLISECONDS i)"

lemma interval_ms_simps [simp]:
  "interval_ms PRIMARY_INTERVAL = 3600000"
  "interval_ms CONTEXT_INTERVAL = 900000"
  "interval_ms REGIME_INTERVAL = 14400000"
  by (simp_all add: interval_ms_def PRIMARY_INTERVAL_def CONTEXT_INTERVAL_def REGIME_INTERVAL_def)

definition bounded_decimal :: "string \<Rightarrow> string \<Rightarrow> bool \<Rightarrow> dec option \<Rightarrow> dec result" where
  "bounded_decimal v field positive maximum =
     (if \<not> plain_unsigned v
      then Inl (BacktestConfigError (field @ '' must be a plain decimal string''))
      else let number = py_Decimal v
           in if d_lt number d_zero \<or> (positive \<and> d_eq number d_zero)
                 \<or> (case maximum of None \<Rightarrow> False | Some m \<Rightarrow> d_lt m number)
              then Inl (BacktestConfigError (field @ '' is outside the allowed range''))
              else Inr number)"

record BacktestSpec =
  sp_symbol :: string
  sp_start_time_ms :: int
  sp_end_time_ms :: int
  sp_initial_cash :: string
  sp_fee_bps :: string
  sp_slippage_bps :: string
  sp_seed :: int
  sp_paper_only :: bool
  sp_live_master_lock :: string
  sp_spot_only :: bool
  sp_allow_short :: bool
  sp_allow_leverage :: bool
  sp_execution_price_policy :: string

text \<open>The dataclass with its default arguments.\<close>

definition default_spec :: "string \<Rightarrow> int \<Rightarrow> int \<Rightarrow> BacktestSpec" where
  "default_spec symbol start_ms end_ms =
     \<lparr> sp_symbol = symbol, sp_start_time_ms = start_ms, sp_end_time_ms = end_ms,
       sp_initial_cash = ''10000'', sp_fee_bps = ''10'', sp_slippage_bps = ''5'', sp_seed = 0,
       sp_paper_only = True, sp_live_master_lock = ''OFF'', sp_spot_only = True,
       sp_allow_short = False, sp_allow_leverage = False,
       sp_execution_price_policy = EXECUTION_PRICE_POLICY \<rparr>"

definition BacktestSpec_post_init :: "BacktestSpec \<Rightarrow> unit result" where
  "BacktestSpec_post_init s =
     (if sp_symbol s \<notin> set SYMBOLS
      then Inl (BacktestConfigError ''Backtest symbol is not approved'')
      else if sp_start_time_ms s < 0 \<or> sp_end_time_ms s \<le> sp_start_time_ms s
              \<or> sp_start_time_ms s mod interval_ms PRIMARY_INTERVAL \<noteq> 0
              \<or> sp_end_time_ms s mod interval_ms PRIMARY_INTERVAL \<noteq> 0
              \<or> (sp_end_time_ms s - sp_start_time_ms s) div interval_ms PRIMARY_INTERVAL
                  > MAX_PRIMARY_CANDLES
      then Inl (BacktestConfigError ''Backtest range must be a non-empty aligned 1h range'')
      else
        bind_r (bounded_decimal (sp_initial_cash s) ''initial_cash'' True (Some MAX_INITIAL_CASH)) (\<lambda>_.
        bind_r (bounded_decimal (sp_fee_bps s) ''fee_bps'' False (Some MAX_COST_BPS)) (\<lambda>_.
        bind_r (bounded_decimal (sp_slippage_bps s) ''slippage_bps'' False (Some MAX_COST_BPS)) (\<lambda>_.
          if sp_seed s < 0 \<or> sp_seed s > 2 ^ 32 - 1
          then Inl (BacktestConfigError ''Backtest seed is invalid'')
          else if \<not> sp_paper_only s \<or> sp_live_master_lock s \<noteq> ''OFF'' \<or> \<not> sp_spot_only s
                  \<or> sp_allow_short s \<or> sp_allow_leverage s
                  \<or> sp_execution_price_policy s \<noteq> EXECUTION_PRICE_POLICY
          then Inl (BacktestConfigError ''Backtest safety policy is invalid'')
          else Inr ()))))"

definition valid_BacktestSpec :: "BacktestSpec \<Rightarrow> bool" where
  "valid_BacktestSpec s \<longleftrightarrow> BacktestSpec_post_init s = Inr ()"

definition cash_decimal :: "BacktestSpec \<Rightarrow> dec" where
  "cash_decimal s = py_Decimal (sp_initial_cash s)"

definition fee_bps_decimal :: "BacktestSpec \<Rightarrow> dec" where
  "fee_bps_decimal s = py_Decimal (sp_fee_bps s)"

definition slippage_bps_decimal :: "BacktestSpec \<Rightarrow> dec" where
  "slippage_bps_decimal s = py_Decimal (sp_slippage_bps s)"

lemma bounded_decimal_Inr [result_simps]:
  "bounded_decimal v f pos mx = Inr n \<longleftrightarrow>
     plain_unsigned v \<and> n = py_Decimal v \<and> (pos \<longrightarrow> 0 < val (py_Decimal v))
     \<and> (\<forall>m. mx = Some m \<longrightarrow> val (py_Decimal v) \<le> val m)"
  using plain_unsigned_bounds(2) [of v]
  by (cases mx) (auto simp: bounded_decimal_def dec_val Let_def not_less)

lemma valid_BacktestSpecD:
  assumes "valid_BacktestSpec s"
  shows "sp_symbol s \<in> set SYMBOLS" "0 \<le> sp_start_time_ms s" "sp_start_time_ms s < sp_end_time_ms s"
    "sp_start_time_ms s mod hour_ms = 0" "sp_end_time_ms s mod hour_ms = 0"
    "(sp_end_time_ms s - sp_start_time_ms s) div hour_ms \<le> MAX_PRIMARY_CANDLES"
    "plain_unsigned (sp_initial_cash s)" "0 < val (cash_decimal s)" "val (cash_decimal s) \<le> 10 ^ 15"
    "plain_unsigned (sp_fee_bps s)" "val (fee_bps_decimal s) \<le> 1000"
    "plain_unsigned (sp_slippage_bps s)" "val (slippage_bps_decimal s) \<le> 1000"
    "sp_paper_only s" "sp_live_master_lock s = ''OFF''"
  using assms
  by (auto simp: valid_BacktestSpec_def BacktestSpec_post_init_def bind_r_eq_Inr bounded_decimal_Inr
      cash_decimal_def fee_bps_decimal_def slippage_bps_decimal_def MAX_COST_BPS_def
      MAX_INITIAL_CASH_def val_dec_of_int split: if_splits)

section \<open>Snapshots\<close>

fun history_loop :: "int \<Rightarrow> string \<Rightarrow> string \<Rightarrow> int \<Rightarrow> int option \<Rightarrow> Candle list \<Rightarrow> unit result" where
  "history_loop duration symbol interval decision_time_ms previous [] = Inr ()"
| "history_loop duration symbol interval decision_time_ms previous (candle # rest) =
     (if cd_source candle \<noteq> DATA_SOURCE \<or> cd_symbol candle \<noteq> symbol
         \<or> cd_interval candle \<noteq> interval \<or> \<not> cd_is_closed candle
      then Inl (BacktestContractError (interval @ '' history identity or state is invalid''))
      else if cd_close_time_ms candle \<ge> decision_time_ms
      then Inl (BacktestContractError ''Future or still-open candle reached the decision'')
      else if (case previous of None \<Rightarrow> False | Some t \<Rightarrow> cd_open_time_ms candle \<noteq> t + duration)
      then Inl (BacktestContractError (interval @ '' history is not contiguous and ordered''))
      else history_loop duration symbol interval decision_time_ms (Some (cd_open_time_ms candle)) rest)"

definition validate_history :: "Candle list \<Rightarrow> string \<Rightarrow> string \<Rightarrow> int \<Rightarrow> unit result" where
  "validate_history candles symbol interval decision_time_ms =
     (if candles = []
      then Inl (BacktestContractError (interval @ '' history must be a non-empty tuple''))
      else let duration = interval_ms interval;
               expected_last_open = (decision_time_ms div duration) * duration - duration
           in bind_r (history_loop duration symbol interval decision_time_ms None candles) (\<lambda>_.
                if cd_open_time_ms (last candles) \<noteq> expected_last_open
                then Inl (BacktestContractError (interval @ '' history is stale at the decision time''))
                else Inr ()))"

record MarketSnapshot =
  ms_symbol :: string
  ms_decision_time_ms :: int
  ms_primary :: "Candle list"
  ms_context :: "Candle list"
  ms_regime :: "Candle list"

definition MarketSnapshot_post_init :: "MarketSnapshot \<Rightarrow> unit result" where
  "MarketSnapshot_post_init s =
     (if ms_decision_time_ms s \<le> 0 \<or> ms_decision_time_ms s mod interval_ms PRIMARY_INTERVAL \<noteq> 0
      then Inl (BacktestContractError ''Decision time must be an aligned 1h boundary'')
      else
        bind_r (validate_history (ms_primary s) (ms_symbol s) PRIMARY_INTERVAL (ms_decision_time_ms s)) (\<lambda>_.
        bind_r (validate_history (ms_context s) (ms_symbol s) CONTEXT_INTERVAL (ms_decision_time_ms s)) (\<lambda>_.
        validate_history (ms_regime s) (ms_symbol s) REGIME_INTERVAL (ms_decision_time_ms s))))"

definition valid_MarketSnapshot :: "MarketSnapshot \<Rightarrow> bool" where
  "valid_MarketSnapshot s \<longleftrightarrow> MarketSnapshot_post_init s = Inr ()"

definition latest_primary :: "MarketSnapshot \<Rightarrow> Candle" where
  "latest_primary s = last (ms_primary s)"

definition latest_context :: "MarketSnapshot \<Rightarrow> Candle" where
  "latest_context s = last (ms_context s)"

definition latest_regime :: "MarketSnapshot \<Rightarrow> Candle" where
  "latest_regime s = last (ms_regime s)"

section \<open>Accepted datasets and the clock\<close>

record AcceptedBacktestDataset =
  ds_spec :: BacktestSpec
  ds_manifest_generated_at_ms :: int
  ds_primary :: "Candle list"
  ds_context :: "Candle list"
  ds_regime :: "Candle list"

definition visible_before :: "int \<Rightarrow> Candle list \<Rightarrow> Candle list" where
  "visible_before decision_time_ms values = filter (\<lambda>c. cd_close_time_ms c < decision_time_ms) values"

definition snapshot_at :: "AcceptedBacktestDataset \<Rightarrow> int \<Rightarrow> MarketSnapshot result" where
  "snapshot_at d decision_time_ms =
     (if \<not> (sp_start_time_ms (ds_spec d) \<le> decision_time_ms
            \<and> decision_time_ms < sp_end_time_ms (ds_spec d))
      then Inl (BacktestLoadError ''Decision time is outside the backtest range'')
      else catch_r
        (construct MarketSnapshot_post_init
          \<lparr> ms_symbol = sp_symbol (ds_spec d), ms_decision_time_ms = decision_time_ms,
            ms_primary = visible_before decision_time_ms (ds_primary d),
            ms_context = visible_before decision_time_ms (ds_context d),
            ms_regime = visible_before decision_time_ms (ds_regime d) \<rparr>)
        is_BacktestContractError
        (BacktestLoadError ''Point-in-time snapshot cannot be built safely''))"

record DecisionEvent =
  de_sequence :: int
  de_decision_time_ms :: int
  de_eligible_fill_open_time_ms :: int
  de_snapshot :: MarketSnapshot

definition DecisionEvent_post_init :: "DecisionEvent \<Rightarrow> unit result" where
  "DecisionEvent_post_init e =
     (if de_sequence e < 0 \<or> de_decision_time_ms e \<le> 0
         \<or> de_decision_time_ms e mod interval_ms PRIMARY_INTERVAL \<noteq> 0
         \<or> de_eligible_fill_open_time_ms e \<noteq> de_decision_time_ms e
         \<or> ms_decision_time_ms (de_snapshot e) \<noteq> de_decision_time_ms e
      then Inl (BacktestClockError ''Decision event violates the P2 clock contract'')
      else Inr ())"

definition valid_DecisionEvent :: "DecisionEvent \<Rightarrow> bool" where
  "valid_DecisionEvent e \<longleftrightarrow>
     DecisionEvent_post_init e = Inr () \<and> valid_MarketSnapshot (de_snapshot e)"

definition event_count :: "AcceptedBacktestDataset \<Rightarrow> int" where
  "event_count d =
     (sp_end_time_ms (ds_spec d) - sp_start_time_ms (ds_spec d)) div interval_ms PRIMARY_INTERVAL"

definition clock_event :: "AcceptedBacktestDataset \<Rightarrow> nat \<times> int \<Rightarrow> DecisionEvent result" where
  "clock_event d st =
     bind_r (catch_r (snapshot_at d (snd st)) is_BacktestLoadError
       (BacktestClockError ''Clock could not build a legal point-in-time event'')) (\<lambda>snapshot.
     construct DecisionEvent_post_init
       \<lparr> de_sequence = int (fst st), de_decision_time_ms = snd st,
         de_eligible_fill_open_time_ms = snd st, de_snapshot = snapshot \<rparr>)"

text \<open>All events of the generator, as its callers collect them with \<^verbatim>\<open>tuple(...)\<close>.\<close>

definition clock_events :: "AcceptedBacktestDataset \<Rightarrow> DecisionEvent list result" where
  "clock_events d =
     map_r (clock_event d)
       (List.enumerate 0 (py_range (sp_start_time_ms (ds_spec d)) (sp_end_time_ms (ds_spec d))
          (interval_ms PRIMARY_INTERVAL)))"

section \<open>A legal history is the exact closed grid before the decision\<close>

lemma history_loop_ok:
  "history_loop d smb i t prev cs = Inr () \<Longrightarrow> c \<in> set cs \<Longrightarrow>
     cd_symbol c = smb \<and> cd_interval c = i \<and> cd_is_closed c \<and> cd_close_time_ms c < t"
proof (induction cs arbitrary: prev)
  case (Cons x cs)
  then have "cd_symbol x = smb \<and> cd_interval x = i \<and> cd_is_closed x \<and> cd_close_time_ms x < t"
    and r: "history_loop d smb i t (Some (cd_open_time_ms x)) cs = Inr ()"
    by (simp_all split: if_splits)
  with Cons.IH [OF r] Cons.prems(2) show ?case by auto
qed simp

lemma history_loop_from:
  "history_loop d smb i t (Some p) cs = Inr () \<Longrightarrow> j < length cs \<Longrightarrow>
     cd_open_time_ms (cs ! j) = p + int (Suc j) * d"
proof (induction cs arbitrary: p j)
  case (Cons c cs)
  then have c: "cd_open_time_ms c = p + d"
    and r: "history_loop d smb i t (Some (cd_open_time_ms c)) cs = Inr ()"
    by (auto split: if_splits)
  show ?case
    using Cons.IH [OF r] Cons.prems(2) c by (cases j) (auto simp: algebra_simps)
qed simp

lemma history_loop_contiguous:
  assumes "history_loop d smb i t None cs = Inr ()" "j < length cs"
  shows "cd_open_time_ms (cs ! j) = cd_open_time_ms (hd cs) + int j * d"
proof (cases cs)
  case (Cons c rest)
  then have "history_loop d smb i t (Some (cd_open_time_ms c)) rest = Inr ()"
    using assms(1) by (auto split: if_splits)
  then show ?thesis
    using history_loop_from [of d smb i t "cd_open_time_ms c" rest "j - 1"] assms(2) Cons
    by (cases j) auto
qed (use assms in simp)

text \<open>The open times that a history ending just before \<open>t\<close> must have.\<close>

definition grid_before :: "int \<Rightarrow> nat \<Rightarrow> int \<Rightarrow> int list" where
  "grid_before d n t = map (\<lambda>j. (t div d) * d - int (n - j) * d) [0..<n]"

lemma validate_history_grid:
  assumes "validate_history cs smb i t = Inr ()"
  shows "cs \<noteq> []" "map cd_open_time_ms cs = grid_before (interval_ms i) (length cs) t"
    "\<forall>c\<in>set cs. cd_symbol c = smb \<and> cd_interval c = i \<and> cd_is_closed c \<and> cd_close_time_ms c < t"
proof -
  let ?d = "interval_ms i"
  have r: "history_loop ?d smb i t None cs = Inr ()"
    and l: "cd_open_time_ms (last cs) = (t div ?d) * ?d - ?d"
    using assms by (auto simp: validate_history_def bind_r_eq_Inr Let_def split: if_splits)
  show ne: "cs \<noteq> []" using assms by (auto simp: validate_history_def)
  show "\<forall>c\<in>set cs. cd_symbol c = smb \<and> cd_interval c = i \<and> cd_is_closed c \<and> cd_close_time_ms c < t"
    using history_loop_ok [OF r] by blast
  let ?h = "cd_open_time_ms (hd cs)"
  have o: "cd_open_time_ms (cs ! j) = ?h + int j * ?d" if "j < length cs" for j
    using history_loop_contiguous [OF r that] .
  have "cd_open_time_ms (last cs) = ?h + int (length cs - 1) * ?d"
    using o [of "length cs - 1"] ne by (simp add: last_conv_nth)
  then have h: "?h = (t div ?d) * ?d - int (length cs) * ?d"
    using l ne by (cases cs) (auto simp: algebra_simps)
  show "map cd_open_time_ms cs = grid_before ?d (length cs) t"
  proof (rule nth_equalityI)
    fix j assume "j < length (map cd_open_time_ms cs)"
    then have j: "j < length cs" by simp
    then have "int (length cs - j) = int (length cs) - int j" by simp
    then show "map cd_open_time_ms cs ! j = grid_before ?d (length cs) t ! j"
      using o [OF j] h j by (simp add: grid_before_def algebra_simps)
  qed (simp add: grid_before_def)
qed

lemma snapshot_histories:
  assumes "valid_MarketSnapshot s"
  shows "validate_history (ms_primary s) (ms_symbol s) PRIMARY_INTERVAL (ms_decision_time_ms s) = Inr ()"
    "validate_history (ms_context s) (ms_symbol s) CONTEXT_INTERVAL (ms_decision_time_ms s) = Inr ()"
    "validate_history (ms_regime s) (ms_symbol s) REGIME_INTERVAL (ms_decision_time_ms s) = Inr ()"
    "0 < ms_decision_time_ms s" "ms_decision_time_ms s mod hour_ms = 0"
  using assms
  by (auto simp: valid_MarketSnapshot_def MarketSnapshot_post_init_def bind_r_eq_Inr split: if_splits)

section \<open>The contract of a point-in-time view\<close>

locale point_in_time =
  fixes view :: "'d \<Rightarrow> int \<Rightarrow> 'v"
    and cut :: "int \<Rightarrow> 'd \<Rightarrow> 'd"
  assumes view_cut: "view (cut t d) t = view d t"
    and cut_cut: "s \<le> t \<Longrightarrow> cut s (cut t d) = cut s d"
begin

lemma no_lookahead: "cut t d = cut t d' \<Longrightarrow> view d t = view d' t"
  by (metis view_cut)

lemma earlier_view_of_cut: "s \<le> t \<Longrightarrow> view (cut t d) s = view d s"
  by (metis view_cut cut_cut)

lemma replay_of_prefix:
  "\<forall>s\<in>set ts. s \<le> t \<Longrightarrow> cut t d = cut t d' \<Longrightarrow> map (view d) ts = map (view d') ts"
  by (auto intro: no_lookahead) (metis cut_cut no_lookahead)

end

definition cut_dataset :: "int \<Rightarrow> AcceptedBacktestDataset \<Rightarrow> AcceptedBacktestDataset" where
  "cut_dataset t d = d\<lparr> ds_primary := visible_before t (ds_primary d),
     ds_context := visible_before t (ds_context d), ds_regime := visible_before t (ds_regime d) \<rparr>"

lemma visible_before_idem: "s \<le> t \<Longrightarrow> visible_before s (visible_before t cs) = visible_before s cs"
  unfolding visible_before_def filter_filter by (rule filter_cong) auto

interpretation snapshot_view: point_in_time snapshot_at cut_dataset
  by unfold_locales
    (simp_all add: snapshot_at_def cut_dataset_def visible_before_idem)

section \<open>The clock\<close>

lemma clock_event_Inr:
  assumes "clock_event d (i, t) = Inr e"
  shows "snapshot_at d t = Inr (de_snapshot e)" "de_sequence e = int i" "de_decision_time_ms e = t"
    "de_eligible_fill_open_time_ms e = t" "DecisionEvent_post_init e = Inr ()"
  using assms by (auto simp: clock_event_def bind_r_eq_Inr construct_eq_Inr)

lemma snapshot_at_Inr:
  assumes "snapshot_at d t = Inr s"
  shows "valid_MarketSnapshot s" "ms_decision_time_ms s = t" "ms_symbol s = sp_symbol (ds_spec d)"
    "ms_primary s = visible_before t (ds_primary d)" "ms_context s = visible_before t (ds_context d)"
    "ms_regime s = visible_before t (ds_regime d)"
  using assms by (auto simp: snapshot_at_def construct_eq_Inr valid_MarketSnapshot_def split: if_splits)

section \<open>Properties\<close>

definition example_spec :: BacktestSpec where
  "example_spec = default_spec ''BTCUSDT'' 1704067200000 1704153600000"

lemma example_spec_valid: "valid_BacktestSpec example_spec"
  by (simp add: valid_BacktestSpec_def BacktestSpec_post_init_def example_spec_def default_spec_def
      bounded_decimal_def SYMBOLS_def MAX_PRIMARY_CANDLES_def MAX_INITIAL_CASH_def MAX_COST_BPS_def py_eval)

definition example_candle :: Candle where
  "example_candle = \<lparr> cd_source = ''BINANCE_SPOT_PUBLIC'', cd_symbol = ''BTCUSDT'', cd_interval = ''1h'',
     cd_open_time_ms = 1704070800000, cd_close_time_ms = 1704074399999, cd_open = ''100'', cd_high = ''120'',
     cd_low = ''90'', cd_close = ''110'', cd_base_volume = ''1'', cd_quote_volume = ''100'',
     cd_trade_count = 5, cd_is_closed = True \<rparr>"

lemma example_candle_valid: "valid_Candle example_candle"
  by (simp add: valid_Candle_def Candle_post_init_def example_candle_def candle_decimal_def
      DATA_SOURCE_def SYMBOLS_def py_eval)

definition example_bar :: "string \<Rightarrow> int \<Rightarrow> Candle" where
  "example_bar i t = example_candle\<lparr> cd_interval := i, cd_open_time_ms := t - interval_ms i,
     cd_close_time_ms := t - 1 \<rparr>"

text \<open>One decision at midnight, with one completed bar of every interval and one later bar.\<close>

definition example_dataset :: AcceptedBacktestDataset where
  "example_dataset = \<lparr> ds_spec = default_spec ''BTCUSDT'' 1704067200000 1704070800000,
     ds_manifest_generated_at_ms = 0,
     ds_primary = [example_bar ''1h'' 1704067200000, example_candle],
     ds_context = [example_bar ''15m'' 1704067200000], ds_regime = [example_bar ''4h'' 1704067200000] \<rparr>"

definition example_snapshot :: MarketSnapshot where
  "example_snapshot = \<lparr> ms_symbol = ''BTCUSDT'', ms_decision_time_ms = 1704067200000,
     ms_primary = [example_bar ''1h'' 1704067200000], ms_context = [example_bar ''15m'' 1704067200000],
     ms_regime = [example_bar ''4h'' 1704067200000] \<rparr>"

lemma example_snapshot_at: "snapshot_at example_dataset 1704067200000 = Inr example_snapshot"
  by (simp add: snapshot_at_def example_dataset_def example_snapshot_def default_spec_def
      visible_before_def example_bar_def example_candle_def construct_def MarketSnapshot_post_init_def
      validate_history_def interval_ms_def PRIMARY_INTERVAL_def CONTEXT_INTERVAL_def REGIME_INTERVAL_def
      DATA_SOURCE_def Let_def)

text \<open>C38. No look-ahead: two datasets whose candles with a close time strictly before a given time are the
same give the same snapshot at that time and at every earlier decision time, whatever either holds
afterwards, a bar that closes at the decision time itself included, and errors included.\<close>

theorem snapshot_no_lookahead:
  assumes "ds_spec d = ds_spec d'"
    and "filter (\<lambda>c. cd_close_time_ms c < t) (ds_primary d) = filter (\<lambda>c. cd_close_time_ms c < t) (ds_primary d')"
    and "filter (\<lambda>c. cd_close_time_ms c < t) (ds_context d) = filter (\<lambda>c. cd_close_time_ms c < t) (ds_context d')"
    and "filter (\<lambda>c. cd_close_time_ms c < t) (ds_regime d) = filter (\<lambda>c. cd_close_time_ms c < t) (ds_regime d')"
  shows "\<forall>s\<le>t. snapshot_at d s = snapshot_at d' s"
proof (intro allI impI)
  fix s assume s: "s \<le> t"
  have "cut_dataset t d = cut_dataset t (d'\<lparr> ds_manifest_generated_at_ms := ds_manifest_generated_at_ms d \<rparr>)"
    using assms by (cases d; cases d') (simp add: cut_dataset_def visible_before_def)
  moreover have "snapshot_at (d'\<lparr> ds_manifest_generated_at_ms := x \<rparr>) s = snapshot_at d' s" for x
    by (simp add: snapshot_at_def)
  ultimately show "snapshot_at d s = snapshot_at d' s"
    using snapshot_view.earlier_view_of_cut [OF s] by metis
qed

theorem snapshot_no_lookahead_witness:
  "snapshot_at (example_dataset\<lparr> ds_primary := [example_bar ''1h'' 1704067200000,
       example_candle\<lparr> cd_close_time_ms := 1704067200000 \<rparr>] \<rparr>) 1704067200000 = Inr example_snapshot"
proof -
  let ?d = "example_dataset\<lparr> ds_primary := [example_bar ''1h'' 1704067200000,
       example_candle\<lparr> cd_close_time_ms := 1704067200000 \<rparr>] \<rparr>"
  have "\<forall>s\<le>1704067200000. snapshot_at example_dataset s = snapshot_at ?d s"
    by (rule snapshot_no_lookahead)
      (simp_all add: example_dataset_def example_bar_def example_candle_def)
  then show ?thesis using example_snapshot_at by force
qed

text \<open>C39. A snapshot is the exact grid of closed bars: whenever \<^verbatim>\<open>snapshot_at\<close> returns, each of
its three histories is non-empty, belongs to the symbol and interval, is closed before the decision,
and its open times are the consecutive grid points that end at the last bar completed at the
decision time.\<close>

theorem snapshot_is_closed_grid:
  assumes "snapshot_at d t = Inr s"
  shows "list_all (\<lambda>(i, cs). cs \<noteq> []
      \<and> map cd_open_time_ms cs = grid_before (interval_ms i) (length cs) t
      \<and> list_all (\<lambda>c. cd_symbol c = sp_symbol (ds_spec d) \<and> cd_interval c = i \<and> cd_is_closed c
           \<and> cd_close_time_ms c < t) cs)
    [(''1h'', ms_primary s), (''15m'', ms_context s), (''4h'', ms_regime s)]"
proof -
  note S = snapshot_at_Inr [OF assms]
  note H = snapshot_histories(1-3) [OF S(1), unfolded S(2,3)]
  show ?thesis
    using validate_history_grid [OF H(1)] validate_history_grid [OF H(2)] validate_history_grid [OF H(3)]
    by (simp add: list_all_iff PRIMARY_INTERVAL_def CONTEXT_INTERVAL_def REGIME_INTERVAL_def)
qed

theorem snapshot_is_closed_grid_witness:
  "map cd_open_time_ms (ms_primary example_snapshot) = grid_before 3600000 1 1704067200000
   \<and> snapshot_at example_dataset 1704067200000 = Inr example_snapshot"
  using snapshot_is_closed_grid [OF example_snapshot_at] example_snapshot_at
  by (simp add: example_snapshot_def interval_ms_def)

text \<open>The clock is complete and ordered: when \<^verbatim>\<open>events()\<close> runs to its end over a legal
specification it yields exactly \<^verbatim>\<open>event_count\<close> events, numbered from zero, one per hour of
the range, each carrying the point-in-time snapshot of its own decision time and eligible for a fill
at that hour's open only.\<close>

theorem clock_complete_and_ordered:
  assumes "valid_BacktestSpec (ds_spec d)" "clock_events d = Inr evs"
  shows "int (length evs) = event_count d \<and>
    (\<forall>i < length evs. de_sequence (evs ! i) = int i
      \<and> de_decision_time_ms (evs ! i) = sp_start_time_ms (ds_spec d) + int i * 3600000
      \<and> de_eligible_fill_open_time_ms (evs ! i) = de_decision_time_ms (evs ! i)
      \<and> snapshot_at d (de_decision_time_ms (evs ! i)) = Inr (de_snapshot (evs ! i)))"
proof -
  let ?a = "sp_start_time_ms (ds_spec d)" and ?b = "sp_end_time_ms (ds_spec d)"
  let ?ts = "py_range ?a ?b 3600000"
  note S = valid_BacktestSpecD(2-5) [OF assms(1)]
  have l: "list_all2 (\<lambda>x e. clock_event d x = Inr e) (List.enumerate 0 ?ts) evs"
    using assms(2) by (simp add: clock_events_def map_r_eq_Inr)
  then have n: "length evs = length ?ts" by (simp add: list_all2_lengthD [symmetric])
  have "int (length ?ts) = (?b - ?a) div 3600000"
    using S py_range_aligned_length [of 3600000 ?a ?b] by (simp add: length_py_range)
  then have "int (length evs) = event_count d" using n by (simp add: event_count_def)
  moreover have ev: "clock_event d (i, ?a + int i * 3600000) = Inr (evs ! i)" if i: "i < length evs" for i
  proof -
    have "clock_event d (List.enumerate 0 ?ts ! i) = Inr (evs ! i)"
      using list_all2_nthD2 [OF l i] .
    then show ?thesis using i n by (simp add: nth_enumerate_eq py_range_def)
  qed
  ultimately show ?thesis
    using clock_event_Inr(1-4) [OF ev] by simp
qed

lemma example_clock:
  "clock_events example_dataset = Inr
     [\<lparr> de_sequence = 0, de_decision_time_ms = 1704067200000,
        de_eligible_fill_open_time_ms = 1704067200000, de_snapshot = example_snapshot \<rparr>]"
proof -
  have "py_range 1704067200000 1704070800000 3600000 = [1704067200000]" by (simp add: py_range_def)
  moreover have "ds_spec example_dataset = default_spec ''BTCUSDT'' 1704067200000 1704070800000"
    by (simp add: example_dataset_def)
  ultimately show ?thesis
    using example_snapshot_at
    by (simp add: clock_events_def default_spec_def clock_event_def construct_def
        DecisionEvent_post_init_def example_snapshot_def)
qed

lemma example_dataset_spec: "valid_BacktestSpec (ds_spec example_dataset)"
  by (simp add: valid_BacktestSpec_def BacktestSpec_post_init_def example_dataset_def default_spec_def
      bounded_decimal_def SYMBOLS_def MAX_PRIMARY_CANDLES_def MAX_INITIAL_CASH_def MAX_COST_BPS_def py_eval)

theorem clock_complete_and_ordered_witness: "event_count example_dataset = 1"
  using clock_complete_and_ordered [OF example_dataset_spec example_clock] by simp

end
