(* ===== verification/Py_Json.thy ===== *)
theory Py_Json
  imports Decimal_Text "HOL-Library.Word" "HOL-Library.Char_ord" "HOL-Library.List_Lexorder"
begin

unbundle bit_operations_syntax

text \<open>
  The evidence digests of the code: \<^verbatim>\<open>json.dumps(payload, sort_keys=True,
  separators=(",", ":"))\<close> followed by \<^verbatim>\<open>hashlib.sha256(...).hexdigest()\<close>. Both are
  modelled as executable functions; the only fact the components need about the hash is
  the shape of its result.
\<close>

section \<open>JSON values and their canonical text\<close>

datatype json =
    JNull
  | JBool bool
  | JInt int
  | JStr string
  | JList "json list"
  | JObj "(string \<times> json) list"

definition hex_char :: "nat \<Rightarrow> char" where
  "hex_char n = (''0123456789abcdef'' ! (n mod 16))"

text \<open>One character of a string literal under \<^verbatim>\<open>ensure_ascii=True\<close>.\<close>

definition json_char :: "char \<Rightarrow> string" where
  "json_char c =
     (if c = CHR 0x22 then [CHR 0x5C, CHR 0x22]
      else if c = CHR 0x5C then [CHR 0x5C, CHR 0x5C]
      else if (32::nat) \<le> of_char c \<and> of_char c \<le> (126::nat) then [c]
      else if c = CHR 0x0A then [CHR 0x5C, CHR ''n'']
      else if c = CHR 0x0D then [CHR 0x5C, CHR ''r'']
      else if c = CHR 0x09 then [CHR 0x5C, CHR ''t'']
      else if c = CHR 0x0C then [CHR 0x5C, CHR ''f'']
      else if c = CHR 0x08 then [CHR 0x5C, CHR ''b'']
      else [CHR 0x5C, CHR ''u'', CHR ''0'', CHR ''0'',
            hex_char (of_char c div 16), hex_char (of_char c)])"

definition json_string :: "string \<Rightarrow> string" where
  "json_string s = [CHR 0x22] @ concat (map json_char s) @ [CHR 0x22]"

definition int_str :: "int \<Rightarrow> string" where
  "int_str i = (if i < 0 then ''-'' @ nat_str (nat (- i)) else nat_str (nat i))"

fun join_comma :: "string list \<Rightarrow> string" where
  "join_comma [] = []"
| "join_comma [x] = x"
| "join_comma (x # y # ys) = x @ '','' @ join_comma (y # ys)"

fun json_dumps :: "json \<Rightarrow> string" where
  "json_dumps JNull = ''null''"
| "json_dumps (JBool b) = (if b then ''true'' else ''false'')"
| "json_dumps (JInt i) = int_str i"
| "json_dumps (JStr s) = json_string s"
| "json_dumps (JList xs) = ''['' @ join_comma (map json_dumps xs) @ '']''"
| "json_dumps (JObj kvs) =
     ''{'' @ join_comma (map snd (sort_key fst
       (map (\<lambda>(k, v). (k, json_string k @ '':'' @ json_dumps v)) kvs))) @ ''}''"

definition j_opt :: "('a \<Rightarrow> json) \<Rightarrow> 'a option \<Rightarrow> json" where
  "j_opt f x = (case x of None \<Rightarrow> JNull | Some y \<Rightarrow> f y)"

section \<open>SHA-256\<close>

text \<open>
  The constants of the standard: the first 32 bits of the fractional parts of the cube roots
  of the first 64 primes and of the square roots of the first eight. Multiplying by
  \<open>2 ^ (32 * k)\<close> before taking the integer \<open>k\<close>-th root keeps those bits, and the word drops
  the integral part.
\<close>

fun root_bits :: "nat \<Rightarrow> nat \<Rightarrow> nat \<Rightarrow> nat \<Rightarrow> nat" where
  "root_bits k n 0 r = r"
| "root_bits k n (Suc i) r = root_bits k n i (if (r + 2 ^ i) ^ k \<le> n then r + 2 ^ i else r)"

definition root_fraction :: "nat \<Rightarrow> nat \<Rightarrow> 32 word" where
  "root_fraction k p = of_nat (root_bits k (p * 2 ^ (32 * k)) 40 0)"

definition sha_primes :: "nat list" where
  "sha_primes = filter (\<lambda>p. list_all (\<lambda>d. p mod d \<noteq> 0) [2..<p]) [2..<312]"

definition sha_k :: "32 word list" where
  "sha_k = map (root_fraction 3) sha_primes"

type_synonym sha_state =
  "32 word \<times> 32 word \<times> 32 word \<times> 32 word \<times> 32 word \<times> 32 word \<times> 32 word \<times> 32 word"

definition sha_init :: sha_state where
  "sha_init = (root_fraction 2 2, root_fraction 2 3, root_fraction 2 5, root_fraction 2 7,
               root_fraction 2 11, root_fraction 2 13, root_fraction 2 17, root_fraction 2 19)"

definition rotr :: "nat \<Rightarrow> 32 word \<Rightarrow> 32 word" where
  "rotr n w = drop_bit n w OR push_bit (32 - n) w"

fun sha_extend :: "nat \<Rightarrow> 32 word list \<Rightarrow> 32 word list" where
  "sha_extend 0 ws = ws"
| "sha_extend (Suc n) ws =
     (let l = length ws; a = ws ! (l - 15); b = ws ! (l - 2);
          s0 = rotr 7 a XOR rotr 18 a XOR drop_bit 3 a;
          s1 = rotr 17 b XOR rotr 19 b XOR drop_bit 10 b
      in sha_extend n (ws @ [ws ! (l - 16) + s0 + ws ! (l - 7) + s1]))"

definition sha_round :: "sha_state \<Rightarrow> 32 word \<times> 32 word \<Rightarrow> sha_state" where
  "sha_round st kw = (case st of (a, b, c, d, e, f, g, h) \<Rightarrow>
     let t1 = h + (rotr 6 e XOR rotr 11 e XOR rotr 25 e) + ((e AND f) XOR (NOT e AND g))
              + fst kw + snd kw;
         t2 = (rotr 2 a XOR rotr 13 a XOR rotr 22 a) + ((a AND b) XOR (a AND c) XOR (b AND c))
     in (t1 + t2, a, b, c, d + t1, e, f, g))"

definition sha_add :: "sha_state \<Rightarrow> sha_state \<Rightarrow> sha_state" where
  "sha_add x y = (case (x, y) of ((a, b, c, d, e, f, g, h), (a', b', c', d', e', f', g', h')) \<Rightarrow>
     (a + a', b + b', c + c', d + d', e + e', f + f', g + g', h + h'))"

definition sha_block :: "sha_state \<Rightarrow> 32 word list \<Rightarrow> sha_state" where
  "sha_block st ws = sha_add st (foldl sha_round st (zip sha_k (sha_extend 48 ws)))"

fun be_word :: "nat list \<Rightarrow> 32 word" where
  "be_word bs = foldl (\<lambda>w b. push_bit 8 w OR of_nat b) 0 bs"

definition be64 :: "nat \<Rightarrow> nat list" where
  "be64 n = map (\<lambda>i. n div 256 ^ i mod 256) [7, 6, 5, 4, 3, 2, 1, 0]"

definition sha_pad :: "nat list \<Rightarrow> nat list" where
  "sha_pad bs = bs @ [128] @ replicate ((119 - length bs mod 64) mod 64) 0 @ be64 (8 * length bs)"

function chunks :: "nat \<Rightarrow> 'a list \<Rightarrow> 'a list list" where
  "chunks n xs = (if n = 0 \<or> xs = [] then [] else take n xs # chunks n (drop n xs))"
  by pat_completeness auto
termination
  by (relation "measure (\<lambda>(n, xs). length xs)") auto

declare chunks.simps [simp del]

definition word_hex :: "32 word \<Rightarrow> string" where
  "word_hex w = map (\<lambda>i. hex_char (unat (drop_bit (4 * i) w))) [7, 6, 5, 4, 3, 2, 1, 0]"

definition state_hex :: "sha_state \<Rightarrow> string" where
  "state_hex st = (case st of (a, b, c, d, e, f, g, h) \<Rightarrow>
     word_hex a @ word_hex b @ word_hex c @ word_hex d @
     word_hex e @ word_hex f @ word_hex g @ word_hex h)"

text \<open>\<^verbatim>\<open>hashlib.sha256(text.encode("utf-8")).hexdigest()\<close> of an ASCII text.\<close>

definition sha256_hexdigest :: "string \<Rightarrow> string" where
  "sha256_hexdigest s =
     state_hex (foldl sha_block sha_init
       (map (\<lambda>b. map be_word (chunks 4 b)) (chunks 64 (sha_pad (map of_char s)))))"

definition py_digest :: "json \<Rightarrow> string" where
  "py_digest payload = sha256_hexdigest (json_dumps payload)"

text \<open>\<^verbatim>\<open>SHA256_PATTERN.fullmatch\<close>: 64 lower-case hexadecimal characters.\<close>

definition is_hex :: "char \<Rightarrow> bool" where
  "is_hex c \<longleftrightarrow> c \<in> set ''0123456789abcdef''"

definition valid_digest :: "string \<Rightarrow> bool" where
  "valid_digest s \<longleftrightarrow> length s = 64 \<and> list_all is_hex s"

lemma is_hex_char: "is_hex (hex_char n)"
  unfolding hex_char_def is_hex_def by (rule nth_mem) simp

lemma valid_digest_sha256 [simp]: "valid_digest (sha256_hexdigest s)"
proof -
  have h: "length (word_hex w) = 8 \<and> list_all is_hex (word_hex w)" for w
    using is_hex_char by (simp add: word_hex_def)
  have "valid_digest (state_hex st)" for st
    using h by (simp add: valid_digest_def state_hex_def split: prod.split)
  then show ?thesis by (simp add: sha256_hexdigest_def)
qed

lemma valid_digest_py_digest [simp]: "valid_digest (py_digest j)"
  by (simp add: py_digest_def)

end
