(* ===== verification/Strategy_Contracts.thy ===== *)
theory Strategy_Contracts
  imports Backtest_Market Py_Json
begin

text \<open>
  \<^verbatim>\<open>yatl/strategy/contracts.py\<close>: strategy identity, point-in-time context, long setup
  and decision, with the context digest; and the evidence labels of
  \<^verbatim>\<open>yatl/strategy/evaluate.py\<close> that the risk manager reads.
\<close>

section \<open>Enumerations\<close>

datatype StrategyAction = SA_NO_TRADE | SA_ENTER_LONG | SA_EXIT_LONG

fun StrategyAction_value :: "StrategyAction \<Rightarrow> string" where
  "StrategyAction_value SA_NO_TRADE = ''NO_TRADE''"
| "StrategyAction_value SA_ENTER_LONG = ''ENTER_LONG''"
| "StrategyAction_value SA_EXIT_LONG = ''EXIT_LONG''"

datatype DecisionReason =
    DR_INSUFFICIENT_HISTORY | DR_REGIME_UNKNOWN | DR_REGIME_BLOCKED | DR_SETUP_ABSENT
  | DR_CONFIRMATION_FAILED | DR_HOLD_POSITION | DR_TREND_PULLBACK_ENTRY | DR_BREAKOUT_ENTRY
  | DR_STRATEGY_EXIT

fun DecisionReason_value :: "DecisionReason \<Rightarrow> string" where
  "DecisionReason_value DR_INSUFFICIENT_HISTORY = ''INSUFFICIENT_HISTORY''"
| "DecisionReason_value DR_REGIME_UNKNOWN = ''REGIME_UNKNOWN''"
| "DecisionReason_value DR_REGIME_BLOCKED = ''REGIME_BLOCKED''"
| "DecisionReason_value DR_SETUP_ABSENT = ''SETUP_ABSENT''"
| "DecisionReason_value DR_CONFIRMATION_FAILED = ''CONFIRMATION_FAILED''"
| "DecisionReason_value DR_HOLD_POSITION = ''HOLD_POSITION''"
| "DecisionReason_value DR_TREND_PULLBACK_ENTRY = ''TREND_PULLBACK_ENTRY''"
| "DecisionReason_value DR_BREAKOUT_ENTRY = ''BREAKOUT_ENTRY''"
| "DecisionReason_value DR_STRATEGY_EXIT = ''STRATEGY_EXIT''"

definition ENTRY_REASONS :: "DecisionReason list" where
  "ENTRY_REASONS = [DR_TREND_PULLBACK_ENTRY, DR_BREAKOUT_ENTRY]"

definition NO_TRADE_REASONS :: "DecisionReason list" where
  "NO_TRADE_REASONS = [DR_INSUFFICIENT_HISTORY, DR_REGIME_UNKNOWN, DR_REGIME_BLOCKED,
     DR_SETUP_ABSENT, DR_CONFIRMATION_FAILED, DR_HOLD_POSITION]"

datatype EvidenceLabel = INSUFFICIENT_EVIDENCE | REJECTED | QUALIFIED_FOR_P4_RESEARCH

fun EvidenceLabel_value :: "EvidenceLabel \<Rightarrow> string" where
  "EvidenceLabel_value INSUFFICIENT_EVIDENCE = ''INSUFFICIENT_EVIDENCE''"
| "EvidenceLabel_value REJECTED = ''REJECTED''"
| "EvidenceLabel_value QUALIFIED_FOR_P4_RESEARCH = ''QUALIFIED_FOR_P4_RESEARCH''"

section \<open>Identity and context\<close>

text \<open>\<^verbatim>\<open>[A-Z][A-Z0-9_]{2,31}\<close> and \<^verbatim>\<open>[1-9][0-9]*\.[0-9]+\.[0-9]+\<close>.\<close>

definition is_upper :: "char \<Rightarrow> bool" where
  "is_upper c \<longleftrightarrow> c \<in> set ''ABCDEFGHIJKLMNOPQRSTUVWXYZ''"

definition STRATEGY_ID_PATTERN :: "string \<Rightarrow> bool" where
  "STRATEGY_ID_PATTERN s \<longleftrightarrow>
     (case s of [] \<Rightarrow> False
      | c # t \<Rightarrow> is_upper c \<and> 2 \<le> length t \<and> length t \<le> 31
          \<and> list_all (\<lambda>x. is_upper x \<or> is_digit x \<or> x = CHR ''_'') t)"

definition VERSION_PATTERN :: "string \<Rightarrow> bool" where
  "VERSION_PATTERN s \<longleftrightarrow>
     (let major = takeWhile is_digit s; rest = dropWhile is_digit s;
          minor = takeWhile is_digit (tl rest); rest2 = dropWhile is_digit (tl rest)
      in major \<noteq> [] \<and> hd major \<noteq> CHR ''0'' \<and> rest \<noteq> [] \<and> hd rest = CHR ''.''
         \<and> minor \<noteq> [] \<and> rest2 \<noteq> [] \<and> hd rest2 = CHR ''.''
         \<and> tl rest2 \<noteq> [] \<and> list_all is_digit (tl rest2))"

definition strategy_positive :: "string \<Rightarrow> string \<Rightarrow> dec result" where
  "strategy_positive v field =
     (if \<not> plain_unsigned v
      then Inl (StrategyContractError (field @ '' must be a plain positive decimal string''))
      else if d_le (py_Decimal v) d_zero
      then Inl (StrategyContractError (field @ '' must be positive''))
      else Inr (py_Decimal v))"

record StrategyIdentity =
  si_strategy_id :: string
  si_version :: string

definition StrategyIdentity_post_init :: "StrategyIdentity \<Rightarrow> unit result" where
  "StrategyIdentity_post_init i =
     require (STRATEGY_ID_PATTERN (si_strategy_id i) \<and> VERSION_PATTERN (si_version i))
       (StrategyContractError ''Strategy identity is invalid'')"

record StrategyContext =
  sc_identity :: StrategyIdentity
  sc_snapshot :: MarketSnapshot
  sc_paper_only :: bool
  sc_live_master_lock :: string
  sc_spot_only :: bool
  sc_allow_short :: bool
  sc_allow_leverage :: bool

definition default_context :: "StrategyIdentity \<Rightarrow> MarketSnapshot \<Rightarrow> StrategyContext" where
  "default_context identity snapshot =
     \<lparr> sc_identity = identity, sc_snapshot = snapshot, sc_paper_only = True,
       sc_live_master_lock = ''OFF'', sc_spot_only = True, sc_allow_short = False,
       sc_allow_leverage = False \<rparr>"

definition StrategyContext_post_init :: "StrategyContext \<Rightarrow> unit result" where
  "StrategyContext_post_init c =
     require (sc_paper_only c \<and> sc_live_master_lock c = ''OFF'' \<and> sc_spot_only c
              \<and> \<not> sc_allow_short c \<and> \<not> sc_allow_leverage c)
       (StrategyContractError ''Strategy context or safety policy is invalid'')"

definition sc_symbol :: "StrategyContext \<Rightarrow> string" where
  "sc_symbol c = ms_symbol (sc_snapshot c)"

definition sc_decision_time_ms :: "StrategyContext \<Rightarrow> int" where
  "sc_decision_time_ms c = ms_decision_time_ms (sc_snapshot c)"

definition as_record :: "Candle \<Rightarrow> json" where
  "as_record c = JObj
     [(''source'', JStr (cd_source c)), (''symbol'', JStr (cd_symbol c)),
      (''interval'', JStr (cd_interval c)), (''open_time_ms'', JInt (cd_open_time_ms c)),
      (''close_time_ms'', JInt (cd_close_time_ms c)), (''open'', JStr (cd_open c)),
      (''high'', JStr (cd_high c)), (''low'', JStr (cd_low c)), (''close'', JStr (cd_close c)),
      (''base_volume'', JStr (cd_base_volume c)), (''quote_volume'', JStr (cd_quote_volume c)),
      (''trade_count'', JInt (cd_trade_count c)), (''is_closed'', JBool (cd_is_closed c))]"

definition context_sha256 :: "StrategyContext \<Rightarrow> string" where
  "context_sha256 c = py_digest (JObj
     [(''strategy_id'', JStr (si_strategy_id (sc_identity c))),
      (''strategy_version'', JStr (si_version (sc_identity c))),
      (''symbol'', JStr (sc_symbol c)),
      (''decision_time_ms'', JInt (sc_decision_time_ms c)),
      (''primary'', JList (map as_record (ms_primary (sc_snapshot c)))),
      (''context'', JList (map as_record (ms_context (sc_snapshot c)))),
      (''regime'', JList (map as_record (ms_regime (sc_snapshot c)))),
      (''safety'', JObj
        [(''paper_only'', JBool (sc_paper_only c)),
         (''live_master_lock'', JStr (sc_live_master_lock c)),
         (''spot_only'', JBool (sc_spot_only c)),
         (''allow_short'', JBool (sc_allow_short c)),
         (''allow_leverage'', JBool (sc_allow_leverage c))])])"

section \<open>Setups and decisions\<close>

record LongSetup =
  ls_reference_price :: string
  ls_invalidation_price :: string
  ls_target_price :: string

definition LongSetup_post_init :: "LongSetup \<Rightarrow> unit result" where
  "LongSetup_post_init s =
     bind_r (strategy_positive (ls_reference_price s) ''reference_price'') (\<lambda>reference.
     bind_r (strategy_positive (ls_invalidation_price s) ''invalidation_price'') (\<lambda>invalidation.
     bind_r (strategy_positive (ls_target_price s) ''target_price'') (\<lambda>target.
     if \<not> (d_lt invalidation reference \<and> d_lt reference target)
     then Inl (StrategyContractError ''Long setup levels are invalid'')
     else Inr ())))"

record StrategyDecision =
  sd_context :: StrategyContext
  sd_action :: StrategyAction
  sd_reason :: DecisionReason
  sd_setup :: "LongSetup option"

definition StrategyDecision_post_init :: "StrategyDecision \<Rightarrow> unit result" where
  "StrategyDecision_post_init d =
     (let valid =
        (case sd_action d of
           SA_ENTER_LONG \<Rightarrow> sd_setup d \<noteq> None \<and> sd_reason d \<in> set ENTRY_REASONS
         | SA_EXIT_LONG \<Rightarrow> sd_setup d = None \<and> sd_reason d = DR_STRATEGY_EXIT
         | SA_NO_TRADE \<Rightarrow> sd_setup d = None \<and> sd_reason d \<in> set NO_TRADE_REASONS)
      in if \<not> valid
         then Inl (StrategyContractError ''Strategy action, reason and setup are inconsistent'')
         else Inr ())"

definition sd_symbol :: "StrategyDecision \<Rightarrow> string" where
  "sd_symbol d = sc_symbol (sd_context d)"

definition sd_decision_time_ms :: "StrategyDecision \<Rightarrow> int" where
  "sd_decision_time_ms d = sc_decision_time_ms (sd_context d)"

definition sd_strategy_id :: "StrategyDecision \<Rightarrow> string" where
  "sd_strategy_id d = si_strategy_id (sc_identity (sd_context d))"

definition sd_strategy_version :: "StrategyDecision \<Rightarrow> string" where
  "sd_strategy_version d = si_version (sc_identity (sd_context d))"

definition sd_context_sha256 :: "StrategyDecision \<Rightarrow> string" where
  "sd_context_sha256 d = context_sha256 (sd_context d)"

text \<open>
  A frozen object holds constructed parts: what \<^verbatim>\<open>isinstance\<close> accepts was built by
  the constructors.
\<close>

definition valid_StrategyContext :: "StrategyContext \<Rightarrow> bool" where
  "valid_StrategyContext c \<longleftrightarrow> StrategyContext_post_init c = Inr ()
     \<and> StrategyIdentity_post_init (sc_identity c) = Inr () \<and> valid_MarketSnapshot (sc_snapshot c)"

definition valid_LongSetup :: "LongSetup \<Rightarrow> bool" where
  "valid_LongSetup s \<longleftrightarrow> LongSetup_post_init s = Inr ()"

definition valid_StrategyDecision :: "StrategyDecision \<Rightarrow> bool" where
  "valid_StrategyDecision d \<longleftrightarrow> StrategyDecision_post_init d = Inr () \<and> valid_StrategyContext (sd_context d)
     \<and> (case sd_setup d of None \<Rightarrow> True | Some s \<Rightarrow> valid_LongSetup s)"

section \<open>Consequences\<close>

lemma strategy_positive_Inr [result_simps]:
  "strategy_positive v f = Inr n \<longleftrightarrow>
     plain_unsigned v \<and> n = py_Decimal v \<and> 0 < val (py_Decimal v)"
  by (auto simp: strategy_positive_def dec_val)

lemma valid_LongSetup_iff:
  "valid_LongSetup s \<longleftrightarrow>
     plain_unsigned (ls_reference_price s) \<and> plain_unsigned (ls_invalidation_price s)
     \<and> plain_unsigned (ls_target_price s) \<and> 0 < val (py_Decimal (ls_invalidation_price s))
     \<and> val (py_Decimal (ls_invalidation_price s)) < val (py_Decimal (ls_reference_price s))
     \<and> val (py_Decimal (ls_reference_price s)) < val (py_Decimal (ls_target_price s))"
  by (auto simp: valid_LongSetup_def LongSetup_post_init_def bind_r_eq_Inr strategy_positive_Inr dec_val)

lemma valid_decision_setup:
  assumes "valid_StrategyDecision d" "sd_action d = SA_ENTER_LONG"
  obtains s where "sd_setup d = Some s" "valid_LongSetup s"
  using assms by (auto simp: valid_StrategyDecision_def StrategyDecision_post_init_def Let_def split: if_splits)

lemma valid_decision_time:
  assumes "valid_StrategyDecision d"
  shows "0 < sd_decision_time_ms d" "sd_decision_time_ms d mod hour_ms = 0"
  using assms snapshot_histories(4,5) [of "sc_snapshot (sd_context d)"]
  by (simp_all add: valid_StrategyDecision_def valid_StrategyContext_def sd_decision_time_ms_def
      sc_decision_time_ms_def)

lemma context_sha256_valid [simp]: "valid_digest (context_sha256 c)" "valid_digest (sd_context_sha256 d)"
  by (simp_all add: context_sha256_def sd_context_sha256_def)

end
