(* ===== verification/Risk_Contracts.thy ===== *)
theory Risk_Contracts
  imports Strategy_Contracts
begin

text \<open>
  \<^verbatim>\<open>yatl/risk/contracts.py\<close>: the frozen risk policy, the point-in-time portfolio
  facts, the request that binds a strategy decision to both, and the fail-closed decision.
\<close>

section \<open>Policy and portfolio state\<close>

definition POLICY_ID :: string where "POLICY_ID = ''P4_RISK_V1''"

definition risk_decimal :: "string \<Rightarrow> string \<Rightarrow> bool \<Rightarrow> bool \<Rightarrow> dec result" where
  "risk_decimal v field_name positive is_signed =
     (if \<not> (if is_signed then plain_signed v else plain_unsigned v)
      then Inl (RiskContractError (field_name @ '' must be a plain decimal string''))
      else if positive \<and> d_le (py_Decimal v) d_zero
      then Inl (RiskContractError (field_name @ '' is outside the allowed range''))
      else Inr (py_Decimal v))"

record RiskPolicy =
  rp_policy_id :: string
  rp_risk_per_trade_fraction :: string
  rp_max_position_fraction :: string
  rp_max_gross_exposure_fraction :: string
  rp_max_session_loss_fraction :: string
  rp_max_drawdown_fraction :: string
  rp_max_consecutive_losses :: int
  rp_max_open_positions :: int
  rp_paper_only :: bool
  rp_live_master_lock :: string
  rp_spot_only :: bool
  rp_long_only :: bool
  rp_allow_leverage :: bool
  rp_allow_withdrawal :: bool
  rp_allow_order_endpoint :: bool
  rp_allow_ai_direct_execution :: bool

definition default_policy :: RiskPolicy where
  "default_policy =
     \<lparr> rp_policy_id = POLICY_ID, rp_risk_per_trade_fraction = ''0.01'',
       rp_max_position_fraction = ''0.25'', rp_max_gross_exposure_fraction = ''0.25'',
       rp_max_session_loss_fraction = ''0.02'', rp_max_drawdown_fraction = ''0.10'',
       rp_max_consecutive_losses = 3, rp_max_open_positions = 1, rp_paper_only = True,
       rp_live_master_lock = ''OFF'', rp_spot_only = True, rp_long_only = True,
       rp_allow_leverage = False, rp_allow_withdrawal = False, rp_allow_order_endpoint = False,
       rp_allow_ai_direct_execution = False \<rparr>"

definition RiskPolicy_post_init :: "RiskPolicy \<Rightarrow> unit result" where
  "RiskPolicy_post_init p =
     (let fixed =
        (rp_policy_id p = POLICY_ID \<and> rp_risk_per_trade_fraction p = ''0.01''
         \<and> rp_max_position_fraction p = ''0.25'' \<and> rp_max_gross_exposure_fraction p = ''0.25''
         \<and> rp_max_session_loss_fraction p = ''0.02'' \<and> rp_max_drawdown_fraction p = ''0.10''
         \<and> rp_max_consecutive_losses p = 3 \<and> rp_max_open_positions p = 1
         \<and> rp_paper_only p \<and> rp_live_master_lock p = ''OFF'' \<and> rp_spot_only p \<and> rp_long_only p
         \<and> \<not> rp_allow_leverage p \<and> \<not> rp_allow_withdrawal p \<and> \<not> rp_allow_order_endpoint p
         \<and> \<not> rp_allow_ai_direct_execution p)
      in require fixed (RiskContractError ''Risk policy differs from the frozen P4 policy''))"

record PortfolioRiskState =
  pr_symbol :: string
  pr_decision_time_ms :: int
  pr_equity_quote :: string
  pr_cash_quote :: string
  pr_position_quantity :: string
  pr_mark_price :: string
  pr_peak_equity_quote :: string
  pr_session_realized_pnl_quote :: string
  pr_consecutive_losses :: int
  pr_open_positions :: int
  pr_kill_switch_active :: bool

definition PortfolioRiskState_post_init :: "PortfolioRiskState \<Rightarrow> unit result" where
  "PortfolioRiskState_post_init s =
     (if pr_symbol s \<notin> set SYMBOLS
      then Inl (RiskContractError ''Risk state symbol is not approved'')
      else if pr_decision_time_ms s < 0 \<or> pr_decision_time_ms s mod interval_ms ''1h'' \<noteq> 0
      then Inl (RiskContractError ''Risk state time must be an aligned 1h boundary'')
      else
        bind_r (risk_decimal (pr_equity_quote s) ''equity_quote'' True False) (\<lambda>equity.
        bind_r (risk_decimal (pr_cash_quote s) ''cash_quote'' False False) (\<lambda>_.
        bind_r (risk_decimal (pr_position_quantity s) ''position_quantity'' False False) (\<lambda>quantity.
        bind_r (risk_decimal (pr_mark_price s) ''mark_price'' True False) (\<lambda>_.
        bind_r (risk_decimal (pr_peak_equity_quote s) ''peak_equity_quote'' True False) (\<lambda>peak.
        bind_r (risk_decimal (pr_session_realized_pnl_quote s) ''session_realized_pnl_quote'' False True) (\<lambda>_.
        if d_lt peak equity
        then Inl (RiskContractError ''peak_equity_quote cannot be below current equity'')
        else if \<not> (0 \<le> pr_consecutive_losses s \<and> pr_consecutive_losses s \<le> 1000000)
                \<or> \<not> (0 \<le> pr_open_positions s \<and> pr_open_positions s \<le> 1000000)
        then Inl (RiskContractError ''Risk state counters are invalid'')
        else if (d_eq quantity d_zero) \<noteq> (pr_open_positions s = 0)
        then Inl (RiskContractError ''Position quantity and open-position count disagree'')
        else Inr ())))))))"

section \<open>Requests\<close>

record RiskRequest =
  rr_strategy_decision :: StrategyDecision
  rr_evidence_label :: EvidenceLabel
  rr_portfolio :: PortfolioRiskState
  rr_policy :: RiskPolicy

definition RiskRequest_post_init :: "RiskRequest \<Rightarrow> unit result" where
  "RiskRequest_post_init r =
     (if sd_symbol (rr_strategy_decision r) \<noteq> pr_symbol (rr_portfolio r)
         \<or> sd_decision_time_ms (rr_strategy_decision r) \<noteq> pr_decision_time_ms (rr_portfolio r)
      then Inl (RiskContractError ''Strategy decision and portfolio state do not match'')
      else if sd_action (rr_strategy_decision r) = SA_ENTER_LONG \<and> pr_open_positions (rr_portfolio r) \<noteq> 0
      then Inl (RiskContractError ''Entry request cannot overlap an open position'')
      else if sd_action (rr_strategy_decision r) = SA_EXIT_LONG \<and> pr_open_positions (rr_portfolio r) = 0
      then Inl (RiskContractError ''Exit request requires an open position'')
      else Inr ())"

definition portfolio_payload :: "PortfolioRiskState \<Rightarrow> json" where
  "portfolio_payload s = JObj
     [(''symbol'', JStr (pr_symbol s)), (''decision_time_ms'', JInt (pr_decision_time_ms s)),
      (''equity_quote'', JStr (pr_equity_quote s)), (''cash_quote'', JStr (pr_cash_quote s)),
      (''position_quantity'', JStr (pr_position_quantity s)), (''mark_price'', JStr (pr_mark_price s)),
      (''peak_equity_quote'', JStr (pr_peak_equity_quote s)),
      (''session_realized_pnl_quote'', JStr (pr_session_realized_pnl_quote s)),
      (''consecutive_losses'', JInt (pr_consecutive_losses s)),
      (''open_positions'', JInt (pr_open_positions s)),
      (''kill_switch_active'', JBool (pr_kill_switch_active s))]"

definition policy_payload :: "RiskPolicy \<Rightarrow> json" where
  "policy_payload p = JObj
     [(''policy_id'', JStr (rp_policy_id p)),
      (''risk_per_trade_fraction'', JStr (rp_risk_per_trade_fraction p)),
      (''max_position_fraction'', JStr (rp_max_position_fraction p)),
      (''max_gross_exposure_fraction'', JStr (rp_max_gross_exposure_fraction p)),
      (''max_session_loss_fraction'', JStr (rp_max_session_loss_fraction p)),
      (''max_drawdown_fraction'', JStr (rp_max_drawdown_fraction p)),
      (''max_consecutive_losses'', JInt (rp_max_consecutive_losses p)),
      (''max_open_positions'', JInt (rp_max_open_positions p)),
      (''paper_only'', JBool (rp_paper_only p)),
      (''live_master_lock'', JStr (rp_live_master_lock p)),
      (''spot_only'', JBool (rp_spot_only p)), (''long_only'', JBool (rp_long_only p)),
      (''allow_leverage'', JBool (rp_allow_leverage p)),
      (''allow_withdrawal'', JBool (rp_allow_withdrawal p)),
      (''allow_order_endpoint'', JBool (rp_allow_order_endpoint p)),
      (''allow_ai_direct_execution'', JBool (rp_allow_ai_direct_execution p))]"

definition setup_payload :: "LongSetup \<Rightarrow> json" where
  "setup_payload s = JObj
     [(''reference_price'', JStr (ls_reference_price s)),
      (''invalidation_price'', JStr (ls_invalidation_price s)),
      (''target_price'', JStr (ls_target_price s))]"

definition request_sha256 :: "RiskRequest \<Rightarrow> string" where
  "request_sha256 r =
     (let d = rr_strategy_decision r in py_digest (JObj
       [(''schema_version'', JInt 1),
        (''strategy'', JObj
          [(''id'', JStr (sd_strategy_id d)), (''version'', JStr (sd_strategy_version d)),
           (''action'', JStr (StrategyAction_value (sd_action d))),
           (''reason'', JStr (DecisionReason_value (sd_reason d))),
           (''context_sha256'', JStr (sd_context_sha256 d)),
           (''setup'', j_opt setup_payload (sd_setup d))]),
        (''evidence_label'', JStr (EvidenceLabel_value (rr_evidence_label r))),
        (''portfolio'', portfolio_payload (rr_portfolio r)),
        (''policy'', policy_payload (rr_policy r))]))"

section \<open>Decisions\<close>

datatype RiskDisposition = NO_ACTION | REJECT | APPROVE_PAPER

datatype RiskReason =
    NO_STRATEGY_ACTION | PENDING_RISK_EVALUATION | EVIDENCE_NOT_QUALIFIED | RISK_CHECKS_PASSED
  | EXIT_REDUCES_RISK | KILL_SWITCH_ACTIVE

record RiskDecision =
  rd_request :: RiskRequest
  rd_disposition :: RiskDisposition
  rd_reason :: RiskReason
  rd_approved_quantity :: "string option"

definition RiskDecision_post_init :: "RiskDecision \<Rightarrow> unit result" where
  "RiskDecision_post_init d =
     (let action = sd_action (rr_strategy_decision (rd_request d)) in
      bind_r (case rd_approved_quantity d of None \<Rightarrow> Inr None
              | Some q \<Rightarrow> bind_r (risk_decimal q ''approved_quantity'' True False) (\<lambda>n. Inr (Some n)))
      (\<lambda>quantity.
        let valid =
          (case rd_disposition d of
             NO_ACTION \<Rightarrow> action = SA_NO_TRADE \<and> rd_reason d = NO_STRATEGY_ACTION \<and> quantity = None
           | REJECT \<Rightarrow> action = SA_ENTER_LONG
               \<and> rd_reason d \<in> {PENDING_RISK_EVALUATION, EVIDENCE_NOT_QUALIFIED, KILL_SWITCH_ACTIVE}
               \<and> quantity = None
           | APPROVE_PAPER \<Rightarrow>
               if action = SA_ENTER_LONG
               then rd_reason d = RISK_CHECKS_PASSED \<and> quantity \<noteq> None
                    \<and> rr_evidence_label (rd_request d) = QUALIFIED_FOR_P4_RESEARCH
                    \<and> \<not> pr_kill_switch_active (rr_portfolio (rd_request d))
               else action = SA_EXIT_LONG \<and> rd_reason d = EXIT_REDUCES_RISK
                    \<and> (case quantity of None \<Rightarrow> False
                       | Some n \<Rightarrow> d_eq n (py_Decimal (pr_position_quantity (rr_portfolio (rd_request d))))))
        in if \<not> valid
           then Inl (RiskContractError ''Risk disposition, reason and quantity are inconsistent'')
           else Inr ()))"

definition rd_request_sha256 :: "RiskDecision \<Rightarrow> string" where
  "rd_request_sha256 d = request_sha256 (rd_request d)"

section \<open>Consequences\<close>

definition valid_PortfolioRiskState :: "PortfolioRiskState \<Rightarrow> bool" where
  "valid_PortfolioRiskState s \<longleftrightarrow> PortfolioRiskState_post_init s = Inr ()"

definition valid_RiskRequest :: "RiskRequest \<Rightarrow> bool" where
  "valid_RiskRequest r \<longleftrightarrow> RiskRequest_post_init r = Inr () \<and> valid_PortfolioRiskState (rr_portfolio r)
     \<and> RiskPolicy_post_init (rr_policy r) = Inr () \<and> valid_StrategyDecision (rr_strategy_decision r)"

definition valid_RiskDecision :: "RiskDecision \<Rightarrow> bool" where
  "valid_RiskDecision d \<longleftrightarrow> RiskDecision_post_init d = Inr () \<and> valid_RiskRequest (rd_request d)"

lemma policy_is_frozen: "RiskPolicy_post_init p = Inr () \<longleftrightarrow> p = default_policy"
  by (cases p) (auto simp: RiskPolicy_post_init_def default_policy_def Let_def)

lemma risk_decimal_Inr [result_simps]:
  "risk_decimal v f pos sg = Inr n \<longleftrightarrow>
     (if sg then plain_signed v else plain_unsigned v) \<and> n = py_Decimal v
     \<and> (pos \<longrightarrow> 0 < val (py_Decimal v))"
  by (auto simp: risk_decimal_def dec_val split: if_splits)

lemma valid_PortfolioRiskStateD:
  assumes "valid_PortfolioRiskState s"
  shows "pr_symbol s \<in> set SYMBOLS" "0 \<le> pr_decision_time_ms s"
    "plain_unsigned (pr_equity_quote s)" "0 < val (py_Decimal (pr_equity_quote s))"
    "plain_unsigned (pr_cash_quote s)" "plain_unsigned (pr_position_quantity s)"
    "plain_unsigned (pr_mark_price s)" "0 < val (py_Decimal (pr_mark_price s))"
    "plain_unsigned (pr_peak_equity_quote s)"
    "val (py_Decimal (pr_equity_quote s)) \<le> val (py_Decimal (pr_peak_equity_quote s))"
    "plain_signed (pr_session_realized_pnl_quote s)"
    "0 \<le> pr_consecutive_losses s" "pr_consecutive_losses s \<le> 1000000"
    "0 \<le> pr_open_positions s"
    "val (py_Decimal (pr_position_quantity s)) = 0 \<longleftrightarrow> pr_open_positions s = 0"
  using assms
  by (auto simp: valid_PortfolioRiskState_def PortfolioRiskState_post_init_def bind_r_eq_Inr
      risk_decimal_Inr dec_val split: if_splits)

lemma valid_RiskRequestD:
  assumes "valid_RiskRequest r"
  shows "sd_symbol (rr_strategy_decision r) = pr_symbol (rr_portfolio r)"
    "sd_decision_time_ms (rr_strategy_decision r) = pr_decision_time_ms (rr_portfolio r)"
    "sd_action (rr_strategy_decision r) = SA_ENTER_LONG \<Longrightarrow> pr_open_positions (rr_portfolio r) = 0"
    "sd_action (rr_strategy_decision r) = SA_EXIT_LONG \<Longrightarrow> pr_open_positions (rr_portfolio r) \<noteq> 0"
    "valid_PortfolioRiskState (rr_portfolio r)" "rr_policy r = default_policy"
    "valid_StrategyDecision (rr_strategy_decision r)"
  using assms
  by (auto simp: valid_RiskRequest_def RiskRequest_post_init_def policy_is_frozen split: if_splits)

end
