(* ===== verification/Backtest_Fills.thy ===== *)
theory Backtest_Fills
  imports Backtest_Market
begin

text \<open>
  \<^verbatim>\<open>yatl/backtest/fills.py\<close>: paper intents, fill references and the stateful
  \<^verbatim>\<open>PaperFillEngine\<close>, whose only mutable field is the open position. The engine's
  \<^verbatim>\<open>process\<close> is an action on that object; the \<^verbatim>\<open>try ... except FillModelError\<close>
  around its body is \<open>with_rollback\<close>.
\<close>

section \<open>Intents and references\<close>

datatype IntentAction = HOLD | ENTER_LONG | EXIT_LONG

datatype FillReason = NEXT_PRIMARY_OPEN | SCRIPTED_EXIT | STOP | TARGET | AMBIGUOUS_STOP_PRIORITY

fun IntentAction_value :: "IntentAction \<Rightarrow> string" where
  "IntentAction_value HOLD = ''HOLD''"
| "IntentAction_value ENTER_LONG = ''ENTER_LONG''"
| "IntentAction_value EXIT_LONG = ''EXIT_LONG''"

fun FillReason_value :: "FillReason \<Rightarrow> string" where
  "FillReason_value NEXT_PRIMARY_OPEN = ''NEXT_PRIMARY_OPEN''"
| "FillReason_value SCRIPTED_EXIT = ''SCRIPTED_EXIT''"
| "FillReason_value STOP = ''STOP''"
| "FillReason_value TARGET = ''TARGET''"
| "FillReason_value AMBIGUOUS_STOP_PRIORITY = ''AMBIGUOUS_STOP_PRIORITY''"

definition positive_decimal :: "string option \<Rightarrow> string \<Rightarrow> dec result" where
  "positive_decimal v field =
     (case v of
        None \<Rightarrow> Inl (FillModelError (field @ '' must be a plain decimal string''))
      | Some s \<Rightarrow>
          if \<not> plain_unsigned s
          then Inl (FillModelError (field @ '' must be a plain decimal string''))
          else if d_le (py_Decimal s) d_zero
          then Inl (FillModelError (field @ '' must be positive''))
          else Inr (py_Decimal s))"

record PaperIntent =
  pi_action :: IntentAction
  pi_decision_time_ms :: int
  pi_quantity :: "string option"
  pi_stop_price :: "string option"
  pi_target_price :: "string option"

definition PaperIntent_post_init :: "PaperIntent \<Rightarrow> unit result" where
  "PaperIntent_post_init i =
     (if pi_decision_time_ms i \<le> 0 \<or> pi_decision_time_ms i mod interval_ms PRIMARY_INTERVAL \<noteq> 0
      then Inl (FillModelError ''Paper intent identity is invalid'')
      else if pi_action i = ENTER_LONG
      then bind_r (positive_decimal (pi_quantity i) ''quantity'') (\<lambda>quantity.
           bind_r (positive_decimal (pi_stop_price i) ''stop_price'') (\<lambda>stop.
           bind_r (positive_decimal (pi_target_price i) ''target_price'') (\<lambda>target.
           if d_le quantity d_zero \<or> d_le target stop
           then Inl (FillModelError ''Long entry bracket is invalid'')
           else Inr ())))
      else if pi_quantity i \<noteq> None \<or> pi_stop_price i \<noteq> None \<or> pi_target_price i \<noteq> None
      then Inl (FillModelError ''HOLD and EXIT_LONG cannot carry entry fields'')
      else Inr ())"

definition valid_PaperIntent :: "PaperIntent \<Rightarrow> bool" where
  "valid_PaperIntent i \<longleftrightarrow> PaperIntent_post_init i = Inr ()"

record FillReference =
  fr_action :: IntentAction
  fr_symbol :: string
  fr_decision_time_ms :: int
  fr_fill_time_ms :: int
  fr_quantity :: string
  fr_reference_price :: string
  fr_reason :: FillReason

definition FillReference_post_init :: "FillReference \<Rightarrow> unit result" where
  "FillReference_post_init r =
     (if fr_action r \<notin> {ENTER_LONG, EXIT_LONG}
         \<or> fr_symbol r \<notin> set SYMBOLS
         \<or> fr_fill_time_ms r \<noteq> fr_decision_time_ms r
         \<or> fr_fill_time_ms r \<le> 0
         \<or> fr_fill_time_ms r mod interval_ms PRIMARY_INTERVAL \<noteq> 0
         \<or> (fr_action r = ENTER_LONG \<and> fr_reason r \<noteq> NEXT_PRIMARY_OPEN)
         \<or> (fr_action r = EXIT_LONG \<and> fr_reason r = NEXT_PRIMARY_OPEN)
      then Inl (FillModelError ''Fill reference identity is invalid'')
      else bind_r (positive_decimal (Some (fr_quantity r)) ''quantity'') (\<lambda>_.
           bind_r (positive_decimal (Some (fr_reference_price r)) ''reference_price'') (\<lambda>_.
           Inr ())))"

definition valid_FillReference :: "FillReference \<Rightarrow> bool" where
  "valid_FillReference r \<longleftrightarrow> FillReference_post_init r = Inr ()"

section \<open>The engine\<close>

record OpenPosition =
  op_quantity :: string
  op_stop_price :: string
  op_target_price :: string

record PaperFillEngine =
  fe_symbol :: string
  fe_position :: "OpenPosition option"

definition PaperFillEngine_init :: "string \<Rightarrow> PaperFillEngine result" where
  "PaperFillEngine_init symbol =
     (if symbol \<notin> set SYMBOLS then Inl (FillModelError ''Fill engine symbol is not approved'')
      else Inr \<lparr> fe_symbol = symbol, fe_position = None \<rparr>)"

definition fe_has_position :: "PaperFillEngine \<Rightarrow> bool" where
  "fe_has_position e \<longleftrightarrow> fe_position e \<noteq> None"

definition fill_reference ::
    "PaperFillEngine \<Rightarrow> IntentAction \<Rightarrow> DecisionEvent \<Rightarrow> string \<Rightarrow> string \<Rightarrow> FillReason \<Rightarrow> FillReference result" where
  "fill_reference engine action event quantity price reason =
     construct FillReference_post_init
       \<lparr> fr_action = action, fr_symbol = fe_symbol engine,
         fr_decision_time_ms = de_decision_time_ms event,
         fr_fill_time_ms = de_eligible_fill_open_time_ms event,
         fr_quantity = quantity, fr_reference_price = price, fr_reason = reason \<rparr>"

definition protective_price :: "OpenPosition \<Rightarrow> Candle \<Rightarrow> (string \<times> FillReason) option" where
  "protective_price position bar =
     (let opened = py_Decimal (cd_open bar); low = py_Decimal (cd_low bar);
          high = py_Decimal (cd_high bar);
          stop = py_Decimal (op_stop_price position);
          target = py_Decimal (op_target_price position)
      in if d_le opened stop then Some (cd_open bar, STOP)
         else if d_le target opened then Some (op_target_price position, TARGET)
         else if d_le low stop \<and> d_le target high
         then Some (op_stop_price position, AMBIGUOUS_STOP_PRIORITY)
         else if d_le low stop then Some (op_stop_price position, STOP)
         else if d_le target high then Some (op_target_price position, TARGET)
         else None)"

definition protective_exit ::
    "DecisionEvent \<Rightarrow> Candle \<Rightarrow> (PaperFillEngine, FillReference option) action" where
  "protective_exit event bar engine =
     (case fe_position engine of
        None \<Rightarrow> (engine, Inr None)
      | Some position \<Rightarrow>
          (case protective_price position bar of
             None \<Rightarrow> (engine, Inr None)
           | Some (price, reason) \<Rightarrow>
               act_bind (act_lift (fill_reference engine EXIT_LONG event (op_quantity position) price reason))
                 (\<lambda>result. act_bind (act_update (\<lambda>e. e\<lparr> fe_position := None \<rparr>))
                 (\<lambda>_. act_return (Some result))) engine))"

text \<open>
  The three branches of the \<^verbatim>\<open>try\<close> body. \<open>the\<close> is applied only to the fields of
  an \<open>ENTER_LONG\<close> intent, which its constructor requires to be strings.
\<close>

definition process_exit ::
    "DecisionEvent \<Rightarrow> Candle \<Rightarrow> (PaperFillEngine, FillReference list) action" where
  "process_exit event fill_candle engine =
     (case fe_position engine of
        None \<Rightarrow> act_raise (FillModelError ''Cannot exit without an open long position'') engine
      | Some position \<Rightarrow>
          act_bind (act_lift (fill_reference engine EXIT_LONG event (op_quantity position)
                                (cd_open fill_candle) SCRIPTED_EXIT))
            (\<lambda>r. act_bind (act_update (\<lambda>e. e\<lparr> fe_position := None \<rparr>)) (\<lambda>_. act_return [r])) engine)"

definition process_enter ::
    "DecisionEvent \<Rightarrow> PaperIntent \<Rightarrow> Candle \<Rightarrow> (PaperFillEngine, FillReference list) action" where
  "process_enter event intent fill_candle engine =
     (if fe_position engine \<noteq> None
      then act_raise (FillModelError ''Overlapping long positions are forbidden'') engine
      else if \<not> (d_lt (py_Decimal (the (pi_stop_price intent))) (py_Decimal (cd_open fill_candle))
                \<and> d_lt (py_Decimal (cd_open fill_candle)) (py_Decimal (the (pi_target_price intent))))
      then act_raise (FillModelError ''Next-open price is outside the long bracket'') engine
      else
        act_bind (act_update (\<lambda>e. e\<lparr> fe_position := Some
            \<lparr> op_quantity = the (pi_quantity intent), op_stop_price = the (pi_stop_price intent),
              op_target_price = the (pi_target_price intent) \<rparr> \<rparr>)) (\<lambda>_.
        act_bind (act_lift (fill_reference engine ENTER_LONG event (the (pi_quantity intent))
                              (cd_open fill_candle) NEXT_PRIMARY_OPEN)) (\<lambda>r.
        act_bind (protective_exit event fill_candle) (\<lambda>protective.
        act_return (r # (case protective of None \<Rightarrow> [] | Some x \<Rightarrow> [x]))))) engine)"

definition process_hold ::
    "DecisionEvent \<Rightarrow> Candle \<Rightarrow> (PaperFillEngine, FillReference list) action" where
  "process_hold event fill_candle =
     act_bind (protective_exit event fill_candle) (\<lambda>protective.
     act_return (case protective of None \<Rightarrow> [] | Some x \<Rightarrow> [x]))"

text \<open>
  \<^verbatim>\<open>sum(Decimal(item.quantity) for item in fills)\<close> runs outside every local
  context: at the default precision.
\<close>

definition fills_exceed_volume :: "FillReference list \<Rightarrow> Candle \<Rightarrow> bool" where
  "fills_exceed_volume fills fill_candle \<longleftrightarrow>
     d_lt (py_Decimal (cd_base_volume fill_candle))
       (d_sum DEFAULT_PRECISION (map (\<lambda>f. py_Decimal (fr_quantity f)) fills))"

definition process_body ::
    "DecisionEvent \<Rightarrow> PaperIntent \<Rightarrow> Candle \<Rightarrow> (PaperFillEngine, FillReference list) action" where
  "process_body event intent fill_candle =
     act_bind
       (case pi_action intent of
          EXIT_LONG \<Rightarrow> process_exit event fill_candle
        | ENTER_LONG \<Rightarrow> process_enter event intent fill_candle
        | HOLD \<Rightarrow> process_hold event fill_candle)
       (\<lambda>fills. if fills_exceed_volume fills fill_candle
                then act_raise (FillModelError ''Paper fills exceed the candle base volume'')
                else act_return fills)"

definition process ::
    "DecisionEvent \<Rightarrow> PaperIntent \<Rightarrow> Candle \<Rightarrow> (PaperFillEngine, FillReference list) action" where
  "process event intent fill_candle engine =
     (if pi_decision_time_ms intent \<noteq> de_decision_time_ms event
         \<or> ms_symbol (de_snapshot event) \<noteq> fe_symbol engine
         \<or> cd_symbol fill_candle \<noteq> fe_symbol engine
         \<or> cd_interval fill_candle \<noteq> PRIMARY_INTERVAL
         \<or> \<not> cd_is_closed fill_candle
         \<or> cd_open_time_ms fill_candle \<noteq> de_eligible_fill_open_time_ms event
      then act_raise (FillModelError ''Intent, event or next-open candle is invalid'') engine
      else with_rollback is_FillModelError (process_body event intent fill_candle) engine)"

section \<open>Constructors\<close>

lemma positive_decimal_Inr [result_simps]:
  "positive_decimal v f = Inr n \<longleftrightarrow>
     (\<exists>s. v = Some s \<and> plain_unsigned s \<and> n = py_Decimal s \<and> 0 < val (py_Decimal s))"
  by (cases v) (auto simp: positive_decimal_def dec_val split: if_splits)

lemma positive_decimal_Inl: "positive_decimal v f = Inl e \<Longrightarrow> is_FillModelError e"
  by (cases v) (auto simp: positive_decimal_def split: if_splits)

lemma FillReference_post_init_Inl: "FillReference_post_init r = Inl e \<Longrightarrow> is_FillModelError e"
  by (auto simp: FillReference_post_init_def bind_r_eq_Inl split: if_splits dest: positive_decimal_Inl)

lemma fill_reference_Inl: "fill_reference g a ev q p y = Inl e \<Longrightarrow> is_FillModelError e"
  by (auto simp: fill_reference_def construct_def bind_r_eq_Inl dest: FillReference_post_init_Inl)

lemma valid_FillReferenceD:
  assumes "valid_FillReference r"
  shows "fr_action r = ENTER_LONG \<or> fr_action r = EXIT_LONG"
    "fr_symbol r \<in> set SYMBOLS" "fr_fill_time_ms r = fr_decision_time_ms r"
    "0 < fr_fill_time_ms r" "fr_fill_time_ms r mod hour_ms = 0"
    "fr_action r = ENTER_LONG \<longleftrightarrow> fr_reason r = NEXT_PRIMARY_OPEN"
    "plain_unsigned (fr_quantity r)" "plain_unsigned (fr_reference_price r)"
    "0 < val (py_Decimal (fr_quantity r))" "0 < val (py_Decimal (fr_reference_price r))"
  using assms
  by (auto simp: valid_FillReference_def FillReference_post_init_def bind_r_eq_Inr
        positive_decimal_Inr split: if_splits)

lemma valid_PaperIntent_enter:
  assumes "valid_PaperIntent i" "pi_action i = ENTER_LONG"
  obtains q s t where "pi_quantity i = Some q" "pi_stop_price i = Some s" "pi_target_price i = Some t"
    "plain_unsigned q" "plain_unsigned s" "plain_unsigned t"
    "0 < val (py_Decimal q)" "0 < val (py_Decimal s)" "val (py_Decimal s) < val (py_Decimal t)"
  using assms
  by (auto simp: valid_PaperIntent_def PaperIntent_post_init_def bind_r_eq_Inr
        positive_decimal_Inr dec_val split: if_splits)

section \<open>The abstract long-only holding\<close>

text \<open>
  What the fills mean: a holding is flat (\<open>None\<close>) or long by a quantity; an entry
  needs a flat holding, an exit closes exactly the quantity that is held.
\<close>

fun spot_step :: "string option \<Rightarrow> FillReference \<Rightarrow> string option option" where
  "spot_step None f = (if fr_action f = ENTER_LONG then Some (Some (fr_quantity f)) else None)"
| "spot_step (Some q) f = (if fr_action f = EXIT_LONG \<and> fr_quantity f = q then Some None else None)"

fun spot_run :: "string option \<Rightarrow> FillReference list \<Rightarrow> string option option" where
  "spot_run h [] = Some h"
| "spot_run h (f # fs) = (case spot_step h f of None \<Rightarrow> None | Some h' \<Rightarrow> spot_run h' fs)"

lemma spot_run_append:
  "spot_run h (fs @ gs) = (case spot_run h fs of None \<Rightarrow> None | Some h' \<Rightarrow> spot_run h' gs)"
  by (induction fs arbitrary: h) (auto split: option.splits)

definition engine_holding :: "PaperFillEngine \<Rightarrow> string option" where
  "engine_holding e = map_option op_quantity (fe_position e)"

definition position_ok :: "OpenPosition \<Rightarrow> bool" where
  "position_ok p \<longleftrightarrow> plain_unsigned (op_quantity p) \<and> plain_unsigned (op_stop_price p)
     \<and> plain_unsigned (op_target_price p) \<and> 0 < val (py_Decimal (op_quantity p))
     \<and> 0 < val (py_Decimal (op_stop_price p))
     \<and> val (py_Decimal (op_stop_price p)) < val (py_Decimal (op_target_price p))"

definition engine_ok :: "PaperFillEngine \<Rightarrow> bool" where
  "engine_ok e \<longleftrightarrow> fe_symbol e \<in> set SYMBOLS
     \<and> (case fe_position e of None \<Rightarrow> True | Some p \<Rightarrow> position_ok p)"

text \<open>What a batch of fills from one event must look like.\<close>

definition event_fill :: "PaperFillEngine \<Rightarrow> DecisionEvent \<Rightarrow> FillReference \<Rightarrow> bool" where
  "event_fill e ev f \<longleftrightarrow> valid_FillReference f \<and> fr_symbol f = fe_symbol e
     \<and> fr_fill_time_ms f = de_eligible_fill_open_time_ms ev"

lemma fill_reference_Inr:
  assumes "fill_reference g a ev q p y = Inr r"
  shows "event_fill g ev r" "fr_action r = a" "fr_quantity r = q" "fr_reference_price r = p"
    "fr_reason r = y"
  using assms
  by (auto simp: fill_reference_def construct_eq_Inr event_fill_def valid_FillReference_def)

lemma protective_exit_Inr:
  assumes "protective_exit ev c g = (g', Inr r)"
  shows "case r of
      None \<Rightarrow> g' = g \<and> (case fe_position g of None \<Rightarrow> True | Some p \<Rightarrow> protective_price p c = None)
    | Some f \<Rightarrow> g' = g\<lparr> fe_position := None \<rparr> \<and> event_fill g ev f \<and> fr_action f = EXIT_LONG
        \<and> (\<exists>p. fe_position g = Some p \<and> fr_quantity f = op_quantity p
            \<and> protective_price p c = Some (fr_reference_price f, fr_reason f))"
  using assms
  by (auto simp: protective_exit_def act_bind_eq_Inr split: option.splits prod.splits
      dest: fill_reference_Inr)

lemma protective_exit_Inl: "protective_exit ev c g = (g', Inl e) \<Longrightarrow> is_FillModelError e"
  by (auto simp: protective_exit_def act_bind_eq_Inl split: option.splits prod.splits
      dest: fill_reference_Inl)

lemma process_body_Inl: "process_body ev i c g = (g', Inl e) \<Longrightarrow> is_FillModelError e"
  by (auto simp: process_body_def process_exit_def process_enter_def process_hold_def
      act_bind_eq_Inl split: option.splits IntentAction.splits if_splits
      dest: fill_reference_Inl protective_exit_Inl)

lemma process_atomic:
  assumes "process ev i c g = (g', Inl e)"
  shows "g' = g \<and> is_FillModelError e"
  using assms process_body_Inl
  by (fastforce simp: process_def with_rollback_def split: if_splits prod.splits sum.splits)

lemma process_Inr_body:
  "process ev i c g = (g', Inr fs) \<Longrightarrow> process_body ev i c g = (g', Inr fs)
     \<and> de_eligible_fill_open_time_ms ev = cd_open_time_ms c"
  by (auto simp: process_def with_rollback_Inr split: if_splits)

lemma process_hold_Inr:
  assumes "process_hold ev c g = (g', Inr fs)"
  shows "spot_run (engine_holding g) fs = Some (engine_holding g')" "length fs \<le> 1"
    "\<forall>f\<in>set fs. event_fill g ev f" "g' = g \<or> g' = g\<lparr> fe_position := None \<rparr>"
proof -
  from assms obtain x where x: "protective_exit ev c g = (g', Inr x)"
    and fs: "fs = (case x of None \<Rightarrow> [] | Some f \<Rightarrow> [f])"
    by (auto simp: process_hold_def act_bind_eq_Inr)
  note xx = protective_exit_Inr [OF x]
  show "spot_run (engine_holding g) fs = Some (engine_holding g')"
    using xx by (cases x) (auto simp: fs engine_holding_def)
  show "length fs \<le> 1" by (simp add: fs split: option.splits)
  show "\<forall>f\<in>set fs. event_fill g ev f" "g' = g \<or> g' = g\<lparr> fe_position := None \<rparr>"
    using xx by (cases x; simp add: fs)+
qed

lemma process_exit_Inr:
  assumes "process_exit ev c g = (g', Inr fs)"
  shows "spot_run (engine_holding g) fs = Some (engine_holding g')" "length fs \<le> 1"
    "\<forall>f\<in>set fs. event_fill g ev f" "g' = g\<lparr> fe_position := None \<rparr>"
  using assms
  by (auto simp: process_exit_def act_bind_eq_Inr engine_holding_def split: option.splits
      dest: fill_reference_Inr)

lemma process_enter_Inr:
  assumes "process_enter ev i c g = (g', Inr fs)"
  shows "spot_run (engine_holding g) fs = Some (engine_holding g')" "length fs \<le> 2"
    "\<forall>f\<in>set fs. event_fill g ev f"
    "g' = g\<lparr> fe_position := Some \<lparr> op_quantity = the (pi_quantity i),
        op_stop_price = the (pi_stop_price i), op_target_price = the (pi_target_price i) \<rparr> \<rparr>
     \<or> g' = g\<lparr> fe_position := None \<rparr>"
proof -
  let ?p = "\<lparr> op_quantity = the (pi_quantity i), op_stop_price = the (pi_stop_price i),
    op_target_price = the (pi_target_price i) \<rparr>"
  from assms obtain r x where flat: "fe_position g = None"
    and r: "fill_reference g ENTER_LONG ev (the (pi_quantity i)) (cd_open c) NEXT_PRIMARY_OPEN = Inr r"
    and x: "protective_exit ev c (g\<lparr> fe_position := Some ?p \<rparr>) = (g', Inr x)"
    and fs: "fs = r # (case x of None \<Rightarrow> [] | Some f \<Rightarrow> [f])"
    by (auto simp: process_enter_def act_bind_eq_Inr split: if_splits)
  note rr = fill_reference_Inr [OF r] and xx = protective_exit_Inr [OF x]
  show "spot_run (engine_holding g) fs = Some (engine_holding g')"
    using flat rr xx by (cases x) (auto simp: fs engine_holding_def)
  show "length fs \<le> 2" by (simp add: fs split: option.splits)
  show "\<forall>f\<in>set fs. event_fill g ev f"
    using rr xx by (cases x) (auto simp: fs event_fill_def)
  show "g' = g\<lparr> fe_position := Some ?p \<rparr> \<or> g' = g\<lparr> fe_position := None \<rparr>"
    using xx by (cases x) auto
qed

lemma process_outcome:
  assumes "process ev i c g = (g', Inr fs)"
  shows "spot_run (engine_holding g) fs = Some (engine_holding g')" "length fs \<le> 2"
    "\<forall>f\<in>set fs. event_fill g ev f" "\<not> fills_exceed_volume fs c"
    "engine_ok g \<Longrightarrow> valid_PaperIntent i \<Longrightarrow> engine_ok g'"
proof -
  have b: "process_body ev i c g = (g', Inr fs)" using process_Inr_body [OF assms] by simp
  consider "pi_action i = HOLD" "process_hold ev c g = (g', Inr fs)"
    | "pi_action i = EXIT_LONG" "process_exit ev c g = (g', Inr fs)"
    | "pi_action i = ENTER_LONG" "process_enter ev i c g = (g', Inr fs)"
    using b by (cases "pi_action i") (auto simp: process_body_def act_bind_eq_Inr split: if_splits)
  note cs = this
  show "spot_run (engine_holding g) fs = Some (engine_holding g')"
    using cs by cases (auto dest: process_hold_Inr process_exit_Inr process_enter_Inr)
  show "length fs \<le> 2"
    using cs by cases (fastforce dest: process_hold_Inr process_exit_Inr process_enter_Inr)+
  show "\<forall>f\<in>set fs. event_fill g ev f"
    using cs by cases (auto dest: process_hold_Inr process_exit_Inr process_enter_Inr)
  show "\<not> fills_exceed_volume fs c"
    using b by (auto simp: process_body_def act_bind_eq_Inr split: if_splits)
  assume g: "engine_ok g" and i: "valid_PaperIntent i"
  show "engine_ok g'"
    using cs
  proof cases
    case 3
    obtain q s t where "pi_quantity i = Some q" "pi_stop_price i = Some s" "pi_target_price i = Some t"
      "plain_unsigned q" "plain_unsigned s" "plain_unsigned t"
      "0 < val (py_Decimal q)" "0 < val (py_Decimal s)" "val (py_Decimal s) < val (py_Decimal t)"
      using valid_PaperIntent_enter [OF i 3(1)] by blast
    with process_enter_Inr(4) [OF 3(2)] g show ?thesis
      by (elim disjE) (simp_all add: engine_ok_def position_ok_def)
  next
    case 1
    from process_hold_Inr(4) [OF 1(2)] g show ?thesis
      by (elim disjE) (simp_all add: engine_ok_def)
  next
    case 2
    from process_exit_Inr(4) [OF 2(2)] g show ?thesis by (simp add: engine_ok_def)
  qed
qed

text \<open>One call of the engine, with its three arguments as the input of a step.\<close>

definition process_input ::
    "DecisionEvent \<times> PaperIntent \<times> Candle \<Rightarrow> (PaperFillEngine, FillReference list) action" where
  "process_input x = (case x of (ev, i, c) \<Rightarrow> process ev i c)"

interpretation fill_engine: atomic_object process_input "\<lambda>(ev, i, c). valid_PaperIntent i" engine_ok
  by unfold_locales
    (auto simp: process_input_def split: prod.splits dest: process_atomic process_outcome(5))

section \<open>Protective exits\<close>

lemma protective_price_iff:
  assumes "valid_Candle c"
  shows "protective_price p c = None \<longleftrightarrow>
    val (py_Decimal (op_stop_price p)) < val (py_Decimal (cd_low c))
    \<and> val (py_Decimal (cd_high c)) < val (py_Decimal (op_target_price p))"
  using valid_Candle_prices(7,9) [OF assms]
  by (simp add: protective_price_def dec_val Let_def not_le)

text \<open>
  The exit price: an opening gap through the stop fills at the open, a bar that
  trades through the stop fills at the stop even when it also trades through the
  target, and only a bar that never touches the stop (or opens above the target)
  fills at the target.
\<close>

lemma protective_price_cases:
  fixes c :: Candle and p :: OpenPosition
  defines "opened \<equiv> val (py_Decimal (cd_open c))" and "low \<equiv> val (py_Decimal (cd_low c))"
    and "high \<equiv> val (py_Decimal (cd_high c))" and "stop \<equiv> val (py_Decimal (op_stop_price p))"
    and "target \<equiv> val (py_Decimal (op_target_price p))"
  assumes "protective_price p c = Some (price, reason)"
  obtains (gap_down) "opened \<le> stop" "price = cd_open c" "reason = STOP"
  | (gap_up) "stop < opened" "target \<le> opened" "price = op_target_price p" "reason = TARGET"
  | (touch_stop) "stop < opened" "opened < target" "low \<le> stop" "price = op_stop_price p"
      "reason \<noteq> TARGET"
  | (touch_target) "stop < low" "opened < target" "target \<le> high" "price = op_target_price p"
      "reason = TARGET"
  using assms by (simp add: protective_price_def dec_val Let_def split: if_splits)

lemma protective_price_value:
  fixes c :: Candle and p :: OpenPosition
  defines "opened \<equiv> val (py_Decimal (cd_open c))" and "low \<equiv> val (py_Decimal (cd_low c))"
    and "stop \<equiv> val (py_Decimal (op_stop_price p))" and "target \<equiv> val (py_Decimal (op_target_price p))"
  assumes c: "valid_Candle c" and p: "position_ok p"
    and e: "protective_price p c = Some (price, reason)"
  shows "val (py_Decimal price) = (if opened < target \<and> low \<le> stop then min opened stop else target)"
    and "reason = TARGET \<longleftrightarrow> \<not> (opened < target \<and> low \<le> stop)"
    and "val (py_Decimal price) \<le> val (py_Decimal (cd_high c))"
proof -
  have b: "low \<le> opened" "opened \<le> val (py_Decimal (cd_high c))" "stop < target"
    using valid_Candle_prices [OF c] p by (simp_all add: opened_def low_def position_ok_def stop_def target_def)
  note d = opened_def [symmetric] low_def [symmetric] stop_def [symmetric] target_def [symmetric]
  have "val (py_Decimal price) = (if opened < target \<and> low \<le> stop then min opened stop else target)
    \<and> (reason = TARGET \<longleftrightarrow> \<not> (opened < target \<and> low \<le> stop))
    \<and> val (py_Decimal price) \<le> val (py_Decimal (cd_high c))"
    using e
  proof (cases rule: protective_price_cases)
  qed (use b in \<open>simp_all add: d min_def\<close>)
  then show "val (py_Decimal price) = (if opened < target \<and> low \<le> stop then min opened stop else target)"
    "reason = TARGET \<longleftrightarrow> \<not> (opened < target \<and> low \<le> stop)"
    "val (py_Decimal price) \<le> val (py_Decimal (cd_high c))"
    by blast+
qed

section \<open>Properties\<close>

text \<open>C19. The fill engine implements the long-only holding, atomically: a call that raises leaves
the engine as it was and raises only \<^verbatim>\<open>FillModelError\<close>; a call that returns yields at most two
fills, all legal, of the engine's symbol and at the open of the fill candle, and replaying them on the
abstract holding (enter only when flat, exit only the held quantity) leads from the engine's old
position to its new one.\<close>

theorem engine_implements_holding:
  "case process event intent candle engine of
     (engine', Inl e) \<Rightarrow> engine' = engine \<and> is_FillModelError e
   | (engine', Inr fills) \<Rightarrow>
       spot_run (map_option op_quantity (fe_position engine)) fills
         = Some (map_option op_quantity (fe_position engine'))
       \<and> length fills \<le> 2
       \<and> list_all (\<lambda>f. valid_FillReference f \<and> fr_symbol f = fe_symbol engine
            \<and> fr_fill_time_ms f = cd_open_time_ms candle) fills"
proof (cases "process event intent candle engine")
  case (Pair g' r)
  then show ?thesis
    using process_atomic [of event intent candle engine g'] process_outcome [of event intent candle engine g']
      process_Inr_body [of event intent candle engine g']
    by (cases r) (auto simp: engine_holding_def event_fill_def list_all_iff)
qed

text \<open>C37. Protective exits are pessimistic. For a legal candle and a legal open position an exit
happens exactly when the bar reaches the stop or the target; when the bar reaches the stop without
opening at or above the target, the exit is a stop at the worse of the open and the stop price, even
when the same bar also reaches the target; otherwise it is the target, and in every case the price is
not above the bar's high.\<close>

theorem protective_exit_pessimistic:
  fixes c :: Candle and p :: OpenPosition
  assumes "valid_Candle c" "position_ok p"
  shows "let opened = val (py_Decimal (cd_open c)); low = val (py_Decimal (cd_low c));
             high = val (py_Decimal (cd_high c)); stop = val (py_Decimal (op_stop_price p));
             target = val (py_Decimal (op_target_price p))
    in case protective_price p c of
         None \<Rightarrow> stop < low \<and> high < target
       | Some (price, reason) \<Rightarrow> (low \<le> stop \<or> target \<le> high)
           \<and> val (py_Decimal price) = (if low \<le> stop \<and> opened < target then min opened stop else target)
           \<and> (reason = TARGET \<longleftrightarrow> \<not> (low \<le> stop \<and> opened < target))
           \<and> val (py_Decimal price) \<le> high"
proof (cases "protective_price p c")
  case None
  then show ?thesis using protective_price_iff [OF assms(1), of p] by (simp add: Let_def)
next
  case (Some x)
  obtain price reason where x: "x = (price, reason)" by (cases x)
  have "\<not> (val (py_Decimal (op_stop_price p)) < val (py_Decimal (cd_low c))
    \<and> val (py_Decimal (cd_high c)) < val (py_Decimal (op_target_price p)))"
    using protective_price_iff [OF assms(1), of p] Some by simp
  then show ?thesis
    using protective_price_value [OF assms, of price reason] Some x
    by (simp add: Let_def conj_commute not_less)
qed

definition example_position :: OpenPosition where
  "example_position = \<lparr> op_quantity = ''0.5'', op_stop_price = ''95'', op_target_price = ''115'' \<rparr>"

lemma example_position_ok: "position_ok example_position"
  by (simp add: position_ok_def example_position_def val_def py_eval)

theorem protective_exit_pessimistic_witness:
  "protective_price example_position example_candle = Some (''95'', AMBIGUOUS_STOP_PRIORITY)
   \<and> val (py_Decimal ''95'') \<le> val (py_Decimal (cd_high example_candle))"
proof -
  have e: "protective_price example_position example_candle = Some (''95'', AMBIGUOUS_STOP_PRIORITY)"
    by (simp add: protective_price_def example_position_def example_candle_def py_eval)
  note p = protective_exit_pessimistic [OF example_candle_valid example_position_ok,
      unfolded Let_def e option.case prod.case]
  show ?thesis using e p by blast
qed

section \<open>The volume check\<close>

text \<open>
  The quantities are added in the default context of 28 digits, so each addition may round
  down, by less than one part in 10 to the power 27.
\<close>

lemma fix_relative:
  assumes "0 < p" "0 \<le> val d"
  shows "val d \<le> val (d_fix p d) * (1 + 1 / 10 ^ (p - 1))"
proof (cases "d_sign d \<or> ndigits (d_coeff d) \<le> p")
  case True
  have "0 \<le> val (d_fix p d)" using assms by (rule val_fix_nonneg)
  moreover have "val d = 0 \<or> d_fix p d = d"
    using True assms(2) mag_nonneg [of d] by (auto simp: d_fix_def val_mag simp del: mag_nonneg)
  ultimately show ?thesis by (auto simp: distrib_left)
next
  case False
  let ?k = "ndigits (d_coeff d) - p"
  let ?q = "d_coeff d div 10 ^ ?k" and ?Q = "(10::rat) powi (d_exp d + int ?k)"
  have n: "p < ndigits (d_coeff d)" and s: "\<not> d_sign d" using False by simp_all
  have "10 ^ (p - 1) \<le> ?q" by (rule long_coeff_quotient [OF assms(1) n])
  then have "(10::rat) ^ (p - 1) \<le> of_nat ?q" by (metis of_nat_le_iff of_nat_numeral of_nat_power)
  then have "1 \<le> of_nat ?q * (1 / 10 ^ (p - 1) :: rat)" by simp
  then have "of_nat (?q + 1) \<le> of_nat ?q * (1 + 1 / 10 ^ (p - 1) :: rat)" by (simp add: distrib_left)
  then have "of_nat (?q + 1) * ?Q \<le> of_nat ?q * (1 + 1 / 10 ^ (p - 1)) * ?Q" by (rule mult_right_mono) simp
  moreover have "val d < of_nat (?q + 1) * ?Q"
    using mag_cell(2) [of "d_coeff d" "d_exp d" ?k] s by (simp add: val_mag mag_def)
  moreover have "of_nat ?q * ?Q \<le> val (d_fix p d)"
  proof -
    have "?q \<le> half_even (d_coeff d) ?k" by (cases rule: half_even_cases [of "d_coeff d" ?k]) simp_all
    then have "(of_nat ?q :: rat) \<le> of_nat (half_even (d_coeff d) ?k)" by (rule of_nat_mono)
    then show ?thesis using mag_fix_long [OF assms(1) n] s by (simp add: val_mag mult_right_mono)
  qed
  then have "of_nat ?q * ?Q * (1 + 1 / 10 ^ (p - 1)) \<le> val (d_fix p d) * (1 + 1 / 10 ^ (p - 1))"
    by (rule mult_right_mono) (simp add: add_nonneg_nonneg)
  ultimately show ?thesis by (simp only: mult_ac)
qed

lemma sum_relative:
  assumes "\<forall>x\<in>set xs. 0 \<le> val x" "0 \<le> val a" "0 < p"
  shows "val a + (\<Sum>x\<leftarrow>xs. val x) \<le> val (foldl (d_add p) a xs) * (1 + 1 / 10 ^ (p - 1)) ^ length xs"
  using assms
proof (induction xs arbitrary: a)
  case (Cons x xs)
  let ?r = "1 + 1 / 10 ^ (p - 1) :: rat"
  have r: "1 \<le> ?r" by simp
  have "val a + val x \<le> val (d_add p a x) * ?r"
    using fix_relative [of p "d_add_exact a x"] Cons.prems by (simp add: d_add_def val_add_exact)
  moreover have "(\<Sum>x\<leftarrow>xs. val x) \<le> (\<Sum>x\<leftarrow>xs. val x) * ?r"
  proof -
    have "0 \<le> (\<Sum>x\<leftarrow>xs. val x)" using Cons.prems(1) by (intro sum_list_nonneg) auto
    then have "(\<Sum>x\<leftarrow>xs. val x) * 1 \<le> (\<Sum>x\<leftarrow>xs. val x) * ?r" by (rule mult_left_mono [OF r])
    then show ?thesis by simp
  qed
  ultimately have "val a + (\<Sum>x\<leftarrow>x # xs. val x) \<le> (val (d_add p a x) + (\<Sum>x\<leftarrow>xs. val x)) * ?r"
    by (simp only: list.map sum_list.Cons distrib_right)
  also have "\<dots> \<le> val (foldl (d_add p) (d_add p a x) xs) * ?r ^ length xs * ?r"
  proof (rule mult_right_mono)
    show "val (d_add p a x) + (\<Sum>x\<leftarrow>xs. val x) \<le> val (foldl (d_add p) (d_add p a x) xs) * ?r ^ length xs"
      using Cons.prems by (intro Cons.IH) (auto intro: val_add_ge)
  qed (use r in linarith)
  finally show ?case by (simp only: foldl.simps list.size power_Suc power_Suc2 add_Suc_right add_0_right mult_ac)
qed simp

lemma volume_bounded:
  assumes "\<not> fills_exceed_volume fs c" "\<forall>f\<in>set fs. 0 \<le> val (py_Decimal (fr_quantity f))"
  shows "(\<Sum>f\<leftarrow>fs. val (py_Decimal (fr_quantity f))) \<le> val (py_Decimal (cd_base_volume c)) * (1 + 1 / 10 ^ 27) ^ length fs"
proof -
  let ?qs = "map (\<lambda>f. py_Decimal (fr_quantity f)) fs"
  have "(\<Sum>f\<leftarrow>fs. val (py_Decimal (fr_quantity f))) \<le> val (d_sum 28 ?qs) * (1 + 1 / 10 ^ 27) ^ length fs"
    using sum_relative [of ?qs d_zero 28] assms(2) by (simp add: d_sum_def comp_def)
  moreover have "val (d_sum 28 ?qs) \<le> val (py_Decimal (cd_base_volume c))"
    using assms(1) by (simp add: fills_exceed_volume_def dec_val not_less DEFAULT_PRECISION_def)
  then have "val (d_sum 28 ?qs) * (1 + 1 / 10 ^ 27) ^ length fs
      \<le> val (py_Decimal (cd_base_volume c)) * (1 + 1 / 10 ^ 27) ^ length fs"
    by (rule mult_right_mono) simp
  ultimately show ?thesis by (rule order_trans)
qed

text \<open>An event that the program can build: one hour after the example dataset's decision, one completed
bar of every interval. Its fill is one unit in the 29th digit above the base volume.\<close>

definition example_event :: DecisionEvent where
  "example_event = \<lparr> de_sequence = 0, de_decision_time_ms = 1704070800000,
     de_eligible_fill_open_time_ms = 1704070800000,
     de_snapshot = \<lparr> ms_symbol = ''BTCUSDT'', ms_decision_time_ms = 1704070800000,
       ms_primary = [example_bar ''1h'' 1704070800000], ms_context = [example_bar ''15m'' 1704070800000],
       ms_regime = [example_bar ''4h'' 1704067200000] \<rparr> \<rparr>"

lemma example_event_constructible: "valid_DecisionEvent example_event"
proof -
  have c: "valid_Candle (example_bar ''1h'' 1704070800000)" "valid_Candle (example_bar ''15m'' 1704070800000)"
    "valid_Candle (example_bar ''4h'' 1704067200000)"
    by (simp_all add: valid_Candle_def Candle_post_init_def example_bar_def example_candle_def candle_decimal_def
        DATA_SOURCE_def SYMBOLS_def interval_ms_def py_eval)
  show ?thesis
    using c
    by (simp add: valid_DecisionEvent_def DecisionEvent_post_init_def valid_MarketSnapshot_def example_event_def
        MarketSnapshot_post_init_def example_bar_def example_candle_def
        validate_history_def interval_ms_def PRIMARY_INTERVAL_def CONTEXT_INTERVAL_def REGIME_INTERVAL_def
        DATA_SOURCE_def Let_def)
qed

definition example_intent :: PaperIntent where
  "example_intent = \<lparr> pi_action = ENTER_LONG, pi_decision_time_ms = 1704070800000,
     pi_quantity = Some ''1.0000000000000000000000000001'', pi_stop_price = Some ''50'',
     pi_target_price = Some ''150'' \<rparr>"

definition flat_engine :: PaperFillEngine where
  "flat_engine = \<lparr> fe_symbol = ''BTCUSDT'', fe_position = None \<rparr>"

lemma example_sum:
  "d_sum DEFAULT_PRECISION [Dec False 10000000000000000000000000001 (-28)]
     = Dec False 1000000000000000000000000000 (-27)"
  by (simp add: d_sum_def d_add_def d_add_exact_def d_scaled_def d_int_def d_fix_def ndigits.simps
      half_even_def DEFAULT_PRECISION_def Let_def)

text \<open>The check is rounded: a fill whose quantity exceeds the candle's base volume in the 29th significant
digit is accepted by \<^verbatim>\<open>process\<close>, on values that all constructors accept.\<close>

lemma volume_check_is_rounded:
  "(\<exists>engine' fill. process example_event example_intent example_candle flat_engine = (engine', Inr [fill])
      \<and> val (py_Decimal (cd_base_volume example_candle)) < val (py_Decimal (fr_quantity fill)))
   \<and> valid_DecisionEvent example_event \<and> valid_PaperIntent example_intent \<and> valid_Candle example_candle"
proof -
  have q: "py_Decimal ''1.0000000000000000000000000001'' = Dec False 10000000000000000000000000001 (-28)"
    by (simp add: py_eval)
  have v: "\<not> fills_exceed_volume [f] example_candle" if "fr_quantity f = ''1.0000000000000000000000000001''" for f
    using that example_sum
    by (simp add: fills_exceed_volume_def q) (simp add: example_candle_def py_eval)
  let ?f = "\<lparr> fr_action = ENTER_LONG, fr_symbol = ''BTCUSDT'', fr_decision_time_ms = 1704070800000,
    fr_fill_time_ms = 1704070800000, fr_quantity = ''1.0000000000000000000000000001'',
    fr_reference_price = ''100'', fr_reason = NEXT_PRIMARY_OPEN \<rparr>"
  have r: "fill_reference flat_engine ENTER_LONG example_event ''1.0000000000000000000000000001''
      (cd_open example_candle) NEXT_PRIMARY_OPEN = Inr ?f"
    by (simp add: fill_reference_def construct_def FillReference_post_init_def flat_engine_def
        example_event_def example_candle_def SYMBOLS_def positive_decimal_def py_eval)
  have "\<exists>g. process_enter example_event example_intent example_candle flat_engine = (g, Inr [?f])"
    using r
    by (simp add: process_enter_def flat_engine_def example_intent_def protective_exit_def
        act_bind_def act_lift_def act_update_def act_return_def)
      (simp add: example_candle_def protective_price_def py_eval)
  moreover have "fr_quantity ?f = ''1.0000000000000000000000000001''" by simp
  ultimately have "\<exists>g. process example_event example_intent example_candle flat_engine = (g, Inr [?f])"
    using v [of ?f]
    by (auto simp: process_def process_body_def with_rollback_Inr act_bind_eq_Inr example_intent_def
        example_event_def example_candle_def flat_engine_def PRIMARY_INTERVAL_def)
  moreover have "val (py_Decimal (cd_base_volume example_candle)) < val (py_Decimal (fr_quantity ?f))"
    by (simp add: dec_val [symmetric]) (simp add: example_candle_def py_eval)
  moreover have "valid_PaperIntent example_intent"
    by (simp add: valid_PaperIntent_def PaperIntent_post_init_def example_intent_def
        positive_decimal_def py_eval)
  ultimately show ?thesis using example_candle_valid example_event_constructible by blast
qed

text \<open>C40. Fills stay within the candle: whenever \<^verbatim>\<open>process\<close> returns, it returns at most two fills,
every quantity is positive, and their exact sum is at most the base volume of the candle times
(1 + 10^-27)^n for n fills. The factor is the price of adding in the default context of 28 digits, and it
cannot be dropped: the witness fills more than the base volume.\<close>

theorem fill_volume_bounded:
  assumes "process ev i c g = (g', Inr fs)"
  shows "length fs \<le> 2 \<and> (\<forall>f \<in> set fs. 0 < val (py_Decimal (fr_quantity f)))
    \<and> (\<Sum>f\<leftarrow>fs. val (py_Decimal (fr_quantity f)))
        \<le> val (py_Decimal (cd_base_volume c)) * (1 + 1 / 10 ^ 27) ^ length fs"
proof -
  note P = process_outcome [OF assms]
  have q: "\<forall>f\<in>set fs. 0 < val (py_Decimal (fr_quantity f))"
    using P(3) valid_FillReferenceD(9) by (auto simp: event_fill_def)
  then have "\<forall>f\<in>set fs. 0 \<le> val (py_Decimal (fr_quantity f))" by auto
  with volume_bounded [OF P(4)] q P(2) show ?thesis by blast
qed

theorem fill_volume_bounded_witness:
  "\<exists>f::FillReference. val (py_Decimal (cd_base_volume example_candle)) < val (py_Decimal (fr_quantity f))
    \<and> val (py_Decimal (fr_quantity f)) \<le> val (py_Decimal (cd_base_volume example_candle)) * (1 + 1 / 10 ^ 27)"
proof -
  obtain g f where p: "process example_event example_intent example_candle flat_engine = (g, Inr [f])"
    and v: "val (py_Decimal (cd_base_volume example_candle)) < val (py_Decimal (fr_quantity f))"
    using volume_check_is_rounded by blast
  have "val (py_Decimal (fr_quantity f)) \<le> val (py_Decimal (cd_base_volume example_candle)) * (1 + 1 / 10 ^ 27)"
    using fill_volume_bounded [OF p] by simp
  with v show ?thesis by blast
qed

end
