(* ===== verification/Backtest_Costs.thy ===== *)
theory Backtest_Costs
  imports Backtest_Fills
begin

text \<open>
  \<^verbatim>\<open>yatl/backtest/costs.py\<close>: adverse slippage and quote fees of a fill reference.
  The code computes in a local context of 256 digits; the theory shows that with the
  admitted prices, quantities and rates no operation of it ever rounds, so every
  component is the exact rational value.
\<close>

section \<open>Definitions\<close>

definition BASIS_POINTS :: dec where "BASIS_POINTS = dec_of_int 10000"

definition cost_rate :: "dec \<Rightarrow> string \<Rightarrow> dec result" where
  "cost_rate v field =
     (if d_lt v d_zero \<or> d_lt MAX_COST_BPS v then Inl (CostModelError (field @ '' is invalid''))
      else Inr v)"

type_synonym cost_values = "dec \<times> dec \<times> dec \<times> dec \<times> dec \<times> dec"

definition components :: "FillReference \<Rightarrow> dec \<Rightarrow> dec \<Rightarrow> cost_values result" where
  "components reference fee_bps slippage_bps =
     bind_r (cost_rate fee_bps ''fee_bps'') (\<lambda>fee_bps.
     bind_r (cost_rate slippage_bps ''slippage_bps'') (\<lambda>slippage_bps.
     let p = DECIMAL_PRECISION;
         quantity = py_Decimal (fr_quantity reference);
         price = py_Decimal (fr_reference_price reference);
         slip_rate = d_div p slippage_bps BASIS_POINTS;
         fee_rate = d_div p fee_bps BASIS_POINTS;
         enter = (fr_action reference = ENTER_LONG);
         execution_price = d_mul p price
           (if enter then d_add p d_one slip_rate else d_sub p d_one slip_rate);
         asset_delta = (if enter then quantity else d_neg p quantity);
         direction = (if enter then dec_of_int (- 1) else dec_of_int 1);
         gross_quote = d_mul p quantity execution_price;
         fee_quote = d_mul p gross_quote fee_rate;
         slippage_quote = d_mul p quantity (d_abs p (d_sub p execution_price price));
         cash_delta = d_sub p (d_mul p direction gross_quote) fee_quote
     in Inr (execution_price, gross_quote, fee_quote, slippage_quote, cash_delta, asset_delta)))"

record CostedFill =
  cf_reference :: FillReference
  cf_fee_bps :: dec
  cf_slippage_bps :: dec
  cf_execution_price :: dec
  cf_gross_quote :: dec
  cf_fee_quote :: dec
  cf_slippage_quote :: dec
  cf_cash_delta :: dec
  cf_asset_delta :: dec

text \<open>Tuples of Decimals compare numerically, component by component.\<close>

fun cost_values_eq :: "cost_values \<Rightarrow> cost_values \<Rightarrow> bool" where
  "cost_values_eq (a, b, c, d, e, f) (a', b', c', d', e', f') \<longleftrightarrow>
     d_eq a a' \<and> d_eq b b' \<and> d_eq c c' \<and> d_eq d d' \<and> d_eq e e' \<and> d_eq f f'"

definition cf_values :: "CostedFill \<Rightarrow> cost_values" where
  "cf_values f = (cf_execution_price f, cf_gross_quote f, cf_fee_quote f, cf_slippage_quote f,
     cf_cash_delta f, cf_asset_delta f)"

definition CostedFill_post_init :: "CostedFill \<Rightarrow> unit result" where
  "CostedFill_post_init f =
     bind_r (components (cf_reference f) (cf_fee_bps f) (cf_slippage_bps f)) (\<lambda>expected.
     if \<not> cost_values_eq (cf_values f) expected
     then Inl (CostModelError ''Costed fill arithmetic is inconsistent'')
     else Inr ())"

definition valid_CostedFill :: "CostedFill \<Rightarrow> bool" where
  "valid_CostedFill f \<longleftrightarrow> CostedFill_post_init f = Inr () \<and> valid_FillReference (cf_reference f)"

text \<open>The generated \<^verbatim>\<open>__eq__\<close> of the frozen dataclass.\<close>

definition CostedFill_eq :: "CostedFill \<Rightarrow> CostedFill \<Rightarrow> bool" where
  "CostedFill_eq f g \<longleftrightarrow> cf_reference f = cf_reference g \<and> d_eq (cf_fee_bps f) (cf_fee_bps g)
     \<and> d_eq (cf_slippage_bps f) (cf_slippage_bps g) \<and> cost_values_eq (cf_values f) (cf_values g)"

definition total_cost_quote :: "CostedFill \<Rightarrow> dec" where
  "total_cost_quote f = d_add DECIMAL_PRECISION (cf_fee_quote f) (cf_slippage_quote f)"

definition apply_costs :: "FillReference \<Rightarrow> BacktestSpec \<Rightarrow> CostedFill result" where
  "apply_costs reference spec =
     (if fr_symbol reference \<noteq> sp_symbol spec
      then Inl (CostModelError ''Fill and backtest symbols differ'')
      else let fee_bps = fee_bps_decimal spec; slippage_bps = slippage_bps_decimal spec
           in bind_r (components reference fee_bps slippage_bps) (\<lambda>(ep, gq, fq, sq, cd, ad).
                construct CostedFill_post_init
                  \<lparr> cf_reference = reference, cf_fee_bps = fee_bps, cf_slippage_bps = slippage_bps,
                    cf_execution_price = ep, cf_gross_quote = gq, cf_fee_quote = fq,
                    cf_slippage_quote = sq, cf_cash_delta = cd, cf_asset_delta = ad \<rparr>))"

section \<open>The exact cost model\<close>

text \<open>The rates as rational numbers, and the values the code is meant to compute.\<close>

definition qty :: "FillReference \<Rightarrow> rat" where
  "qty r = val (py_Decimal (fr_quantity r))"

definition exact_price :: "FillReference \<Rightarrow> rat \<Rightarrow> rat" where
  "exact_price r slip =
     val (py_Decimal (fr_reference_price r)) *
       (if fr_action r = ENTER_LONG then 1 + slip / 10000 else 1 - slip / 10000)"

definition exact_gross :: "FillReference \<Rightarrow> rat \<Rightarrow> rat" where
  "exact_gross r slip = qty r * exact_price r slip"

definition exact_fee :: "FillReference \<Rightarrow> rat \<Rightarrow> rat \<Rightarrow> rat" where
  "exact_fee r fee slip = exact_gross r slip * (fee / 10000)"

definition exact_slippage :: "FillReference \<Rightarrow> rat \<Rightarrow> rat" where
  "exact_slippage r slip = qty r * (val (py_Decimal (fr_reference_price r)) * (slip / 10000))"

definition exact_cash :: "FillReference \<Rightarrow> rat \<Rightarrow> rat \<Rightarrow> rat" where
  "exact_cash r fee slip =
     (if fr_action r = ENTER_LONG then - exact_gross r slip else exact_gross r slip)
       - exact_fee r fee slip"

definition exact_asset :: "FillReference \<Rightarrow> rat" where
  "exact_asset r = (if fr_action r = ENTER_LONG then qty r else - qty r)"

definition rate_ok :: "dec \<Rightarrow> bool" where
  "rate_ok d \<longleftrightarrow> 0 \<le> val d \<and> val d \<le> 1000 \<and> on_grid (-40) (val d)"

text \<open>A value with finitely many decimals below a power of ten is exact at 256 digits.\<close>

lemma representable_256:
  assumes "on_grid z x" "\<bar>x\<bar> < 10 ^ n" "int n \<le> 256 + z"
  shows "representable DECIMAL_PRECISION x"
proof (rule representable_grid [OF assms(1)])
  have "(10::rat) ^ n = 10 powi int n" by simp
  also have "\<dots> \<le> 10 powi (int DECIMAL_PRECISION + z)"
    using assms(3) by (intro ten_powi_mono) (simp add: DECIMAL_PRECISION_def)
  finally show "\<bar>x\<bar> < 10 powi (int DECIMAL_PRECISION + z)" using assms(2) by simp
qed

lemma precision_pos [simp]: "0 < DECIMAL_PRECISION" "0 < DEFAULT_PRECISION"
  by (simp_all add: DECIMAL_PRECISION_def DEFAULT_PRECISION_def)

lemma val_BASIS_POINTS [simp]: "val BASIS_POINTS = 10000"
  by (simp add: BASIS_POINTS_def dec_val)

lemma on_grid_bps: "on_grid z x \<Longrightarrow> on_grid (z - 4) (x / 10000)"
proof -
  have "(10::rat) powi (-4) = 1 / 10000" by (simp add: power_int_minus)
  then have "x / 10000 = x * 10 powi (-4)" by simp
  then show "on_grid z x \<Longrightarrow> on_grid (z - 4) (x / 10000)"
    using on_grid_shift [of z "-4" x] by (metis diff_conv_add_uminus)
qed

lemma val_bps_rate:
  assumes "rate_ok d"
  shows "val (d_div DECIMAL_PRECISION d BASIS_POINTS) = val d / 10000"
    "on_grid (-44) (val d / 10000)" "0 \<le> val d / 10000" "val d / 10000 \<le> 1 / 10"
proof -
  show g: "on_grid (-44) (val d / 10000)"
    using assms on_grid_bps [of "-40"] by (simp add: rate_ok_def)
  show b: "0 \<le> val d / 10000" "val d / 10000 \<le> 1 / 10" using assms by (auto simp: rate_ok_def)
  have "representable DECIMAL_PRECISION (val d / 10000)"
    by (rule representable_256 [OF g, of 1]) (use b in auto)
  then show "val (d_div DECIMAL_PRECISION d BASIS_POINTS) = val d / 10000"
    by (subst val_d_div) simp_all
qed

section \<open>Every component is exact\<close>

text \<open>
  The magnitudes: prices and quantities have at most 40 digits on either side of the
  point, rates at most 0.1 with 44 decimals.
\<close>

lemma exact_bounds:
  assumes r: "valid_FillReference r" and fee: "rate_ok fee" and slip: "rate_ok slip"
  shows "on_grid (-40) (qty r)" "0 < qty r" "qty r < 10 ^ 40"
    "on_grid (-84) (exact_price r (val slip))" "0 < exact_price r (val slip)"
    "exact_price r (val slip) < 10 ^ 41"
    "on_grid (-124) (exact_gross r (val slip))" "0 < exact_gross r (val slip)"
    "exact_gross r (val slip) < 10 ^ 81"
    "on_grid (-168) (exact_fee r (val fee) (val slip))" "0 \<le> exact_fee r (val fee) (val slip)"
    "exact_fee r (val fee) (val slip) \<le> exact_gross r (val slip) / 10"
    "on_grid (-124) (exact_slippage r (val slip))" "0 \<le> exact_slippage r (val slip)"
    "exact_slippage r (val slip) < 10 ^ 80"
proof -
  let ?p = "val (py_Decimal (fr_reference_price r))" and ?s = "val slip / 10000" and ?f = "val fee / 10000"
  note R = valid_FillReferenceD [OF r] and S = val_bps_rate [OF slip] and F = val_bps_rate [OF fee]
  have p: "on_grid (-40) ?p" "0 < ?p" "?p < 10 ^ 40"
    using R(8,10) plain_unsigned_grid plain_unsigned_bounds(3) by blast+
  show q: "on_grid (-40) (qty r)" "0 < qty r" "qty r < 10 ^ 40"
    using R(7,9) plain_unsigned_grid plain_unsigned_bounds(3) unfolding qty_def by blast+
  let ?m = "if fr_action r = ENTER_LONG then 1 + ?s else 1 - ?s"
  have one: "on_grid (-44) 1" using on_grid_coarser [OF on_grid_int [of 1], of "-44"] by simp
  have m: "on_grid (-44) ?m" "0 < ?m" "?m \<le> 11 / 10"
    using one S by (auto intro: on_grid_add on_grid_diff)
  have e: "exact_price r (val slip) = ?p * ?m" by (simp add: exact_price_def)
  show eg: "on_grid (-84) (exact_price r (val slip))"
    unfolding e using on_grid_mult [OF p(1) m(1)] by simp
  show e0: "0 < exact_price r (val slip)" unfolding e using p(2) m(2) by (rule mult_pos_pos)
  have "?p * ?m \<le> 10 ^ 40 * (11 / 10)" using p m by (intro mult_mono) auto
  then show e1: "exact_price r (val slip) < 10 ^ 41" unfolding e by simp
  show "on_grid (-124) (exact_gross r (val slip))"
    unfolding exact_gross_def using on_grid_mult [OF q(1) eg] by simp
  then have gg: "on_grid (-124) (exact_gross r (val slip))" .
  show g0: "0 < exact_gross r (val slip)"
    unfolding exact_gross_def using q(2) e0 by (rule mult_pos_pos)
  have "qty r * exact_price r (val slip) < 10 ^ 40 * 10 ^ 41"
    using q e0 e1 by (intro mult_strict_mono) auto
  then show "exact_gross r (val slip) < 10 ^ 81" unfolding exact_gross_def by simp
  show "on_grid (-168) (exact_fee r (val fee) (val slip))"
    unfolding exact_fee_def using on_grid_mult [OF gg F(2)] by simp
  show "0 \<le> exact_fee r (val fee) (val slip)"
    unfolding exact_fee_def using g0 F(3) by simp
  have "exact_gross r (val slip) * ?f \<le> exact_gross r (val slip) * (1 / 10)"
    using g0 F(4) by (intro mult_left_mono) auto
  then show "exact_fee r (val fee) (val slip) \<le> exact_gross r (val slip) / 10"
    unfolding exact_fee_def by simp
  have t: "on_grid (-84) (?p * ?s)" "0 \<le> ?p * ?s" using on_grid_mult [OF p(1) S(2)] p(2) S(3) by auto
  have "?p * ?s \<le> 10 ^ 40 * (1 / 10)" using p S by (intro mult_mono) auto
  then have t1: "?p * ?s < 10 ^ 40" by simp
  show "on_grid (-124) (exact_slippage r (val slip))"
    unfolding exact_slippage_def using on_grid_mult [OF q(1) t(1)] by simp
  show "0 \<le> exact_slippage r (val slip)" unfolding exact_slippage_def using q(2) t(2) by simp
  have "qty r * (?p * ?s) \<le> qty r * 10 ^ 40" using q(2) t1 by (intro mult_left_mono) auto
  also have "\<dots> < 10 ^ 40 * 10 ^ 40" using q(3) by simp
  finally show "exact_slippage r (val slip) < 10 ^ 80" unfolding exact_slippage_def by simp
qed

lemma cost_rate_ok: "rate_ok d \<Longrightarrow> cost_rate d f = Inr d"
  by (auto simp: cost_rate_def rate_ok_def dec_val MAX_COST_BPS_def)

definition cost_values_exact :: "FillReference \<Rightarrow> rat \<Rightarrow> rat \<Rightarrow> cost_values \<Rightarrow> bool" where
  "cost_values_exact r fee slip v \<longleftrightarrow>
     (case v of (ep, gq, fq, sq, cd, ad) \<Rightarrow>
        val ep = exact_price r slip \<and> val gq = exact_gross r slip \<and> val fq = exact_fee r fee slip
        \<and> val sq = exact_slippage r slip \<and> val cd = exact_cash r fee slip \<and> val ad = exact_asset r)"

text \<open>The execution price and its distance from the reference price.\<close>

definition price_factor :: "bool \<Rightarrow> dec \<Rightarrow> dec" where
  "price_factor enter slip =
     (let rate = d_div DECIMAL_PRECISION slip BASIS_POINTS
      in if enter then d_add DECIMAL_PRECISION d_one rate else d_sub DECIMAL_PRECISION d_one rate)"

lemma execution_price_exact:
  fixes r :: FillReference and slip :: dec
  defines "price \<equiv> py_Decimal (fr_reference_price r)"
  defines "ep \<equiv> d_mul DECIMAL_PRECISION price (price_factor (fr_action r = ENTER_LONG) slip)"
  assumes r: "valid_FillReference r" and slip: "rate_ok slip"
  shows "val ep = exact_price r (val slip)"
    "val (d_abs DECIMAL_PRECISION (d_sub DECIMAL_PRECISION ep price)) = val price * (val slip / 10000)"
proof -
  let ?s = "val slip / 10000" and ?E = "exact_price r (val slip)" and ?enter = "fr_action r = ENTER_LONG"
  note B = exact_bounds [OF r slip slip] and S = val_bps_rate [OF slip]
  have one: "on_grid (-44) 1" using on_grid_coarser [OF on_grid_int [of 1], of "-44"] by simp
  have "representable DECIMAL_PRECISION (1 + ?s)" "representable DECIMAL_PRECISION (1 - ?s)"
    using one S by (auto intro!: representable_256 [of "-44" _ 1] on_grid_add on_grid_diff)
  then have m: "val (price_factor ?enter slip) = (if ?enter then 1 + ?s else 1 - ?s)"
    by (simp add: price_factor_def Let_def val_d_add val_d_sub S(1))
  have "representable DECIMAL_PRECISION ?E" by (rule representable_256 [OF B(4), of 41]) (use B in auto)
  then show ep: "val ep = ?E" by (simp add: ep_def val_d_mul m exact_price_def price_def)
  have pg: "on_grid (-40) (val price)" "val price < 10 ^ 40" "0 < val price"
    unfolding price_def
    using valid_FillReferenceD(8,10) [OF r] plain_unsigned_grid plain_unsigned_bounds(3) by blast+
  have "on_grid (-84) (?E - val price)"
    by (rule on_grid_diff [OF B(4) on_grid_coarser [OF pg(1)]]) simp
  moreover have "\<bar>?E - val price\<bar> < 10 ^ 42" using B(5,6) pg by (simp add: abs_less_iff)
  ultimately have dr: "representable DECIMAL_PRECISION (?E - val price)" by (rule representable_256) simp
  have "\<bar>?E - val price\<bar> = val price * ?s"
    using S(3) pg(3) by (auto simp: exact_price_def price_def algebra_simps)
  with dr show "val (d_abs DECIMAL_PRECISION (d_sub DECIMAL_PRECISION ep price)) = val price * ?s"
    by (simp add: val_d_abs val_d_sub ep)
qed

text \<open>The cash movement is exact too.\<close>

lemma exact_cash_bounds:
  assumes r: "valid_FillReference r" and fee: "rate_ok fee" and slip: "rate_ok slip"
  shows "on_grid (-168) (exact_cash r (val fee) (val slip))"
    "\<bar>exact_cash r (val fee) (val slip)\<bar> < 10 ^ 82"
    "fr_action r = ENTER_LONG \<Longrightarrow> exact_cash r (val fee) (val slip) < 0"
    "fr_action r \<noteq> ENTER_LONG \<Longrightarrow> 0 < exact_cash r (val fee) (val slip)"
proof -
  note B = exact_bounds [OF r fee slip]
  have "on_grid (-168) (exact_gross r (val slip))" using on_grid_coarser [OF B(7)] by simp
  then show "on_grid (-168) (exact_cash r (val fee) (val slip))"
    using B(10) by (auto simp: exact_cash_def intro!: on_grid_diff on_grid_neg)
  show "\<bar>exact_cash r (val fee) (val slip)\<bar> < 10 ^ 82"
    "fr_action r = ENTER_LONG \<Longrightarrow> exact_cash r (val fee) (val slip) < 0"
    "fr_action r \<noteq> ENTER_LONG \<Longrightarrow> 0 < exact_cash r (val fee) (val slip)"
    using B(8,9,11,12) by (auto simp: exact_cash_def abs_if)
qed

lemma components_exact:
  assumes r: "valid_FillReference r" and fee: "rate_ok fee" and slip: "rate_ok slip"
  obtains v where "components r fee slip = Inr v" "cost_values_exact r (val fee) (val slip) v"
proof -
  let ?P = DECIMAL_PRECISION and ?enter = "fr_action r = ENTER_LONG"
  let ?G = "exact_gross r (val slip)" and ?F = "exact_fee r (val fee) (val slip)"
  note B = exact_bounds [OF r fee slip] and F = val_bps_rate [OF fee]
    and C = exact_cash_bounds [OF r fee slip]
  define price where "price = py_Decimal (fr_reference_price r)"
  define quantity where "quantity = py_Decimal (fr_quantity r)"
  define ep where "ep = d_mul ?P price (price_factor ?enter slip)"
  define gq where "gq = d_mul ?P quantity ep"
  define fq where "fq = d_mul ?P gq (d_div ?P fee BASIS_POINTS)"
  define sq where "sq = d_mul ?P quantity (d_abs ?P (d_sub ?P ep price))"
  define dg where "dg = d_mul ?P (if ?enter then dec_of_int (- 1) else dec_of_int 1) gq"
  define cd where "cd = d_sub ?P dg fq"
  define ad where "ad = (if ?enter then quantity else d_neg ?P quantity)"
  note E = execution_price_exact [OF r slip, folded price_def, folded ep_def]
  have q: "val quantity = qty r" by (simp add: quantity_def qty_def)
  have rg: "representable ?P ?G" by (rule representable_256 [OF B(7), of 81]) (use B in auto)
  then have gq: "val gq = ?G" by (simp add: gq_def val_d_mul E q exact_gross_def)
  have fb: "?F < 10 ^ 81" using B(8,9,12) by linarith
  have "representable ?P ?F" by (rule representable_256 [OF B(10), of 81]) (use B fb in auto)
  then have fq: "val fq = ?F" by (simp add: fq_def val_d_mul gq F(1) exact_fee_def)
  have "representable ?P (exact_slippage r (val slip))"
    by (rule representable_256 [OF B(13), of 80]) (use B in auto)
  then have sq: "val sq = exact_slippage r (val slip)"
    unfolding exact_slippage_def price_def [symmetric]
    by (simp only: sq_def val_d_mul E(2) q precision_pos)
  have dg: "val dg = (if ?enter then - ?G else ?G)"
    using rg by (simp add: dg_def val_d_mul gq dec_val)
  have "representable ?P (exact_cash r (val fee) (val slip))"
    by (rule representable_256 [OF C(1,2)]) simp
  then have cd: "val cd = exact_cash r (val fee) (val slip)"
    by (simp add: cd_def val_d_sub dg fq exact_cash_def split: if_splits)
  have "representable ?P (qty r)" by (rule representable_256 [OF B(1), of 40]) (use B in auto)
  then have ad: "val ad = exact_asset r" by (simp add: ad_def val_d_neg exact_asset_def q)
  have "components r fee slip = Inr (ep, gq, fq, sq, cd, ad)"
    using cost_rate_ok [OF fee] cost_rate_ok [OF slip]
    by (simp add: components_def Let_def price_def quantity_def ep_def gq_def fq_def sq_def cd_def
        ad_def dg_def price_factor_def)
  moreover have "cost_values_exact r (val fee) (val slip) (ep, gq, fq, sq, cd, ad)"
    by (simp add: cost_values_exact_def E gq fq sq cd ad)
  ultimately show thesis by (rule that)
qed

lemma spec_rates:
  assumes "valid_BacktestSpec s"
  shows "rate_ok (fee_bps_decimal s)" "rate_ok (slippage_bps_decimal s)"
  using valid_BacktestSpecD(10-13) [OF assms]
  by (auto simp: rate_ok_def fee_bps_decimal_def slippage_bps_decimal_def
      intro: plain_unsigned_bounds plain_unsigned_grid)

lemma cost_values_eq_refl: "cost_values_eq v v"
  by (cases v) (simp add: dec_val)

lemma apply_costs_ok:
  assumes "valid_FillReference r" "valid_BacktestSpec s" "fr_symbol r = sp_symbol s"
  obtains f where "apply_costs r s = Inr f" "valid_CostedFill f" "cf_reference f = r"
    "cf_fee_bps f = fee_bps_decimal s" "cf_slippage_bps f = slippage_bps_decimal s"
    "cost_values_exact r (val (fee_bps_decimal s)) (val (slippage_bps_decimal s)) (cf_values f)"
proof -
  obtain v where v: "components r (fee_bps_decimal s) (slippage_bps_decimal s) = Inr v"
    "cost_values_exact r (val (fee_bps_decimal s)) (val (slippage_bps_decimal s)) v"
    using components_exact [OF assms(1) spec_rates [OF assms(2)]] .
  obtain ep gq fq sq cd ad where t: "v = (ep, gq, fq, sq, cd, ad)" by (cases v)
  let ?f = "\<lparr> cf_reference = r, cf_fee_bps = fee_bps_decimal s, cf_slippage_bps = slippage_bps_decimal s,
    cf_execution_price = ep, cf_gross_quote = gq, cf_fee_quote = fq, cf_slippage_quote = sq,
    cf_cash_delta = cd, cf_asset_delta = ad \<rparr>"
  have w: "cf_values ?f = v" by (simp add: t cf_values_def)
  have i: "CostedFill_post_init ?f = Inr ()"
    using v(1) cost_values_eq_refl [of v] by (simp add: CostedFill_post_init_def w)
  have "apply_costs r s = Inr ?f"
    using v(1) i assms(3) by (simp add: apply_costs_def t construct_def)
  moreover have "valid_CostedFill ?f" using i assms(1) by (simp add: valid_CostedFill_def)
  ultimately show thesis by (rule that) (use v(2) in \<open>simp_all only: w, simp_all\<close>)
qed

text \<open>
  Whoever builds it, a costed fill with admissible rates carries the exact values,
  because its constructor recomputes them.
\<close>

lemma valid_CostedFill_exact:
  assumes "valid_CostedFill f" "rate_ok (cf_fee_bps f)" "rate_ok (cf_slippage_bps f)"
  shows "cost_values_exact (cf_reference f) (val (cf_fee_bps f)) (val (cf_slippage_bps f)) (cf_values f)"
proof -
  obtain v where v: "components (cf_reference f) (cf_fee_bps f) (cf_slippage_bps f) = Inr v"
    "cost_values_exact (cf_reference f) (val (cf_fee_bps f)) (val (cf_slippage_bps f)) v"
    using components_exact [OF _ assms(2,3), of "cf_reference f"] assms(1)
    unfolding valid_CostedFill_def by blast
  have "cost_values_eq (cf_values f) v"
    using assms(1) v(1) by (auto simp: valid_CostedFill_def CostedFill_post_init_def split: if_splits)
  with v(2) show ?thesis
    by (cases v) (auto simp: cf_values_def cost_values_exact_def dec_val)
qed

end
