(* ===== verification/Py_Json_Read.thy ===== *)
theory Py_Json_Read
  imports Py_Json
begin

text \<open>
  \<^verbatim>\<open>json.loads\<close>, for the texts that the program stores: values without number
  literals that have a fraction or an exponent, and string literals of characters below 256
  (\<open>None\<close> is the \<^verbatim>\<open>JSONDecodeError\<close>, also for those). The main fact is the round trip
  with \<open>json_dumps\<close>: reading a written value gives it back with its keys sorted, so two
  values with the same canonical text are equal as Python values.
\<close>

section \<open>Lexical parts\<close>

definition is_ws :: "char \<Rightarrow> bool" where
  "is_ws c \<longleftrightarrow> c = CHR '' '' \<or> c = CHR 0x09 \<or> c = CHR 0x0A \<or> c = CHR 0x0D"

definition skip_ws :: "string \<Rightarrow> string" where
  "skip_ws s = dropWhile is_ws s"

definition hex_digit :: "char \<Rightarrow> nat option" where
  "hex_digit c =
     (let n = of_char c :: nat in
      if 48 \<le> n \<and> n \<le> 57 then Some (n - 48)
      else if 97 \<le> n \<and> n \<le> 102 then Some (n - 87)
      else if 65 \<le> n \<and> n \<le> 70 then Some (n - 55)
      else None)"

fun hex_number :: "nat \<Rightarrow> string \<Rightarrow> nat option" where
  "hex_number n [] = Some n"
| "hex_number n (c # t) = (case hex_digit c of None \<Rightarrow> None | Some d \<Rightarrow> hex_number (16 * n + d) t)"

definition escaped_char :: "char \<Rightarrow> char option" where
  "escaped_char e =
     (if e = CHR 0x22 then Some (CHR 0x22) else if e = CHR 0x5C then Some (CHR 0x5C)
      else if e = CHR ''/'' then Some (CHR ''/'') else if e = CHR ''n'' then Some (CHR 0x0A)
      else if e = CHR ''r'' then Some (CHR 0x0D) else if e = CHR ''t'' then Some (CHR 0x09)
      else if e = CHR ''f'' then Some (CHR 0x0C) else if e = CHR ''b'' then Some (CHR 0x08)
      else None)"

definition prepend :: "char \<Rightarrow> (string \<times> string) option \<Rightarrow> (string \<times> string) option" where
  "prepend c r = map_option (\<lambda>(s, t). (c # s, t)) r"

text \<open>The rest of a string literal after its opening quote.\<close>

function read_chars :: "string \<Rightarrow> (string \<times> string) option" where
  "read_chars s =
     (case s of
        [] \<Rightarrow> None
      | c # t \<Rightarrow>
          if c = CHR 0x22 then Some ([], t)
          else if c = CHR 0x5C then
            (case t of
               [] \<Rightarrow> None
             | e # u \<Rightarrow>
                 if e = CHR ''u'' then
                   (if length u < 4 then None
                    else case hex_number 0 (take 4 u) of
                      None \<Rightarrow> None
                    | Some n \<Rightarrow> if n < 256 then prepend (char_of n) (read_chars (drop 4 u)) else None)
                 else case escaped_char e of
                   None \<Rightarrow> None
                 | Some x \<Rightarrow> prepend x (read_chars u))
          else if (of_char c :: nat) < 32 then None
          else prepend c (read_chars t))"
  by pat_completeness auto
termination
  by (relation "measure length") auto

declare read_chars.simps [simp del]

text \<open>An integer literal; a following fraction or exponent makes it a float.\<close>

definition read_digits :: "string \<Rightarrow> (nat \<times> string) option" where
  "read_digits s =
     (let ds = takeWhile is_digit s; (n, rest) = (if ds \<noteq> [] \<and> hd ds = CHR ''0'' then (''0'', tl s) else (ds, dropWhile is_digit s))
      in if n = [] then None
         else if rest \<noteq> [] \<and> hd rest \<in> {CHR ''.'', CHR ''e'', CHR ''E''} then None
         else Some (str_nat n, rest))"

definition read_int :: "string \<Rightarrow> (int \<times> string) option" where
  "read_int s =
     (if s \<noteq> [] \<and> hd s = CHR ''-'' then map_option (\<lambda>(n, t). (- int n, t)) (read_digits (tl s))
      else map_option (\<lambda>(n, t). (int n, t)) (read_digits s))"

section \<open>Values\<close>

text \<open>A repeated key keeps its place and takes the later value.\<close>

fun dict_put :: "string \<Rightarrow> 'a \<Rightarrow> (string \<times> 'a) list \<Rightarrow> (string \<times> 'a) list" where
  "dict_put k v [] = [(k, v)]"
| "dict_put k v ((l, w) # d) = (if l = k then (k, v) # d else (l, w) # dict_put k v d)"

definition starts :: "string \<Rightarrow> string \<Rightarrow> bool" where
  "starts w s \<longleftrightarrow> take (length w) s = w"

fun read_value :: "nat \<Rightarrow> string \<Rightarrow> (json \<times> string) option"
  and read_elements :: "nat \<Rightarrow> json list \<Rightarrow> string \<Rightarrow> (json \<times> string) option"
  and read_members :: "nat \<Rightarrow> (string \<times> json) list \<Rightarrow> string \<Rightarrow> (json \<times> string) option" where
  "read_value 0 s = None"
| "read_value (Suc n) s =
     (let s = skip_ws s in
      if s = [] then None
      else if hd s = CHR 0x22 then map_option (\<lambda>(x, t). (JStr x, t)) (read_chars (tl s))
      else if hd s = CHR ''['' then
        (let t = skip_ws (tl s) in
         if t \<noteq> [] \<and> hd t = CHR '']'' then Some (JList [], tl t) else read_elements n [] t)
      else if hd s = CHR ''{'' then
        (let t = skip_ws (tl s) in
         if t \<noteq> [] \<and> hd t = CHR ''}'' then Some (JObj [], tl t) else read_members n [] t)
      else if starts ''null'' s then Some (JNull, drop 4 s)
      else if starts ''true'' s then Some (JBool True, drop 4 s)
      else if starts ''false'' s then Some (JBool False, drop 5 s)
      else map_option (\<lambda>(i, t). (JInt i, t)) (read_int s))"
| "read_elements 0 xs s = None"
| "read_elements (Suc n) xs s =
     (case read_value n s of
        None \<Rightarrow> None
      | Some (x, r) \<Rightarrow>
          (let t = skip_ws r in
           if t = [] then None
           else if hd t = CHR '','' then read_elements n (xs @ [x]) (tl t)
           else if hd t = CHR '']'' then Some (JList (xs @ [x]), tl t)
           else None))"
| "read_members 0 d s = None"
| "read_members (Suc n) d s =
     (let s = skip_ws s in
      if s = [] \<or> hd s \<noteq> CHR 0x22 then None
      else case read_chars (tl s) of
        None \<Rightarrow> None
      | Some (k, r) \<Rightarrow>
          (let c = skip_ws r in
           if c = [] \<or> hd c \<noteq> CHR '':'' then None
           else case read_value n (tl c) of
             None \<Rightarrow> None
           | Some (v, q) \<Rightarrow>
               (let t = skip_ws q in
                if t = [] then None
                else if hd t = CHR '','' then read_members n (dict_put k v d) (tl t)
                else if hd t = CHR ''}'' then Some (JObj (dict_put k v d), tl t)
                else None)))"

definition json_loads :: "string \<Rightarrow> json option" where
  "json_loads s =
     (case read_value (2 * length s + 1) s of
        None \<Rightarrow> None
      | Some (j, r) \<Rightarrow> if skip_ws r = [] then Some j else None)"

section \<open>Python equality\<close>

text \<open>
  Dictionaries are equal when they agree on every key; \<^verbatim>\<open>True == 1\<close>. The normal form
  sorts the keys and reads Booleans as integers.
\<close>

fun json_norm :: "json \<Rightarrow> json" where
  "json_norm (JBool b) = JInt (if b then 1 else 0)"
| "json_norm (JList xs) = JList (map json_norm xs)"
| "json_norm (JObj kvs) = JObj (sort_key fst (map (\<lambda>(k, v). (k, json_norm v)) kvs))"
| "json_norm j = j"

definition json_eq :: "json \<Rightarrow> json \<Rightarrow> bool" where
  "json_eq a b \<longleftrightarrow> json_norm a = json_norm b"

text \<open>\<^verbatim>\<open>record[key]\<close> with its \<^verbatim>\<open>KeyError\<close> and \<^verbatim>\<open>TypeError\<close> as \<open>None\<close>.\<close>

definition json_get :: "string \<Rightarrow> json \<Rightarrow> json option" where
  "json_get k j = (case j of JObj kvs \<Rightarrow> map_of kvs k | _ \<Rightarrow> None)"

definition json_get_str :: "string \<Rightarrow> json \<Rightarrow> string option" where
  "json_get_str k j = (case json_get k j of Some (JStr s) \<Rightarrow> Some s | _ \<Rightarrow> None)"

definition json_get_int :: "string \<Rightarrow> json \<Rightarrow> int option" where
  "json_get_int k j = (case json_get k j of Some (JInt i) \<Rightarrow> Some i | _ \<Rightarrow> None)"

text \<open>The items of \<^verbatim>\<open>tuple(value)\<close> and of a loop over a value: of a list, of the characters of a text, of the keys of a dictionary.\<close>

definition py_tuple :: "json \<Rightarrow> json list result" where
  "py_tuple j =
     (case j of JList xs \<Rightarrow> Inr xs | JStr s \<Rightarrow> Inr (map (\<lambda>c. JStr [c]) s) | JObj kvs \<Rightarrow> Inr (map (JStr \<circ> fst) kvs)
      | _ \<Rightarrow> Inl (TypeError ''object is not iterable''))"

section \<open>The round trip\<close>

text \<open>Values whose dictionaries have distinct keys, as every Python dictionary has.\<close>

fun json_ok :: "json \<Rightarrow> bool" where
  "json_ok (JList xs) = list_all json_ok xs"
| "json_ok (JObj kvs) = (distinct (map fst kvs) \<and> list_all (\<lambda>(k, v). json_ok v) kvs)"
| "json_ok j = True"

text \<open>What is read back: the keys are in the order of the text.\<close>

fun json_sorted :: "json \<Rightarrow> json" where
  "json_sorted (JList xs) = JList (map json_sorted xs)"
| "json_sorted (JObj kvs) = JObj (sort_key fst (map (\<lambda>(k, v). (k, json_sorted v)) kvs))"
| "json_sorted j = j"

lemma sort_key_map:
  assumes "\<And>x. x \<in> set xs \<Longrightarrow> h (g x) = k x"
  shows "sort_key h (map g xs) = map g (sort_key k xs)"
proof -
  have i: "insort_key h (g x) (map g ys) = map g (insort_key k x ys)"
    if "h (g x) = k x" "\<forall>y\<in>set ys. h (g y) = k y" for x ys
    using that by (induction ys) auto
  show ?thesis using assms by (induction xs) (auto simp: i)
qed

lemma sort_key_pairs:
  "sort_key fst (map (\<lambda>(k, v). (k, g k v)) kvs) = map (\<lambda>(k, v). (k, g k v)) (sort_key fst kvs)"
  by (rule sort_key_map) auto

lemma sort_key_fst: "sort_key fst (map (\<lambda>p. (fst p, g p)) kvs) = map (\<lambda>p. (fst p, g p)) (sort_key fst kvs)"
  by (rule sort_key_map) auto

lemma map_of_sort:
  assumes "distinct (map fst kvs)"
  shows "map_of (sort_key fst kvs) = map_of kvs"
proof
  fix k
  have d: "distinct (map fst (sort_key fst kvs))" using assms by (simp add: distinct_map)
  have "map_of (sort_key fst kvs) k = Some v \<longleftrightarrow> map_of kvs k = Some v" for v
    using map_of_eq_Some_iff [OF assms] map_of_eq_Some_iff [OF d] by simp
  then show "map_of (sort_key fst kvs) k = map_of kvs k" by (metis not_None_eq)
qed

lemma hex_digit_char: "hex_digit (hex_char n) = Some (n mod 16)"
proof -
  have "list_all (\<lambda>m. hex_digit (''0123456789abcdef'' ! m) = Some m) [0..<16]" by code_simp
  then have "hex_digit (''0123456789abcdef'' ! m) = Some m" if "m < 16" for m
    using that by (simp add: list_all_iff)
  then show ?thesis by (simp add: hex_char_def)
qed

lemma char_less_256: "(of_char c :: nat) < 256"
  by (metis of_char_mod_256 mod_less_divisor zero_less_numeral)

lemma of_char_div: "(of_char c :: nat) div 16 mod 16 = of_char c div 16"
proof -
  have "(of_char c :: nat) < 16 * 16" using char_less_256 [of c] by simp
  then have "(of_char c :: nat) div 16 < 16" by (rule less_mult_imp_div_less)
  then show ?thesis by simp
qed

lemma hex_number_char:
  "hex_number 0 [CHR ''0'', CHR ''0'', hex_char (of_char c div 16), hex_char (of_char c)] = Some (of_char c)"
proof -
  have z: "hex_digit (CHR ''0'') = Some 0" by code_simp
  show ?thesis by (simp add: z hex_digit_char of_char_div)
qed

lemma read_chars_json: "read_chars (json_char c @ s) = prepend c (read_chars s)"
proof -
  have n: "(of_char c :: nat) < 256" by (rule char_less_256)
  have esc: "escaped_char (CHR 0x22) = Some (CHR 0x22)" "escaped_char (CHR 0x5C) = Some (CHR 0x5C)"
    "escaped_char (CHR ''n'') = Some (CHR 0x0A)" "escaped_char (CHR ''r'') = Some (CHR 0x0D)"
    "escaped_char (CHR ''t'') = Some (CHR 0x09)" "escaped_char (CHR ''f'') = Some (CHR 0x0C)"
    "escaped_char (CHR ''b'') = Some (CHR 0x08)"
    by code_simp+
  have two: "read_chars (CHR 0x5C # e # s) = prepend x (read_chars s)"
    if "e \<noteq> CHR ''u''" "escaped_char e = Some x" for e x
    using that by (subst read_chars.simps) simp
  have u: "read_chars (CHR 0x5C # CHR ''u'' # CHR ''0'' # CHR ''0'' # hex_char (of_char c div 16) # hex_char (of_char c) # s)
      = prepend c (read_chars s)"
    using hex_number_char [of c] n by (subst read_chars.simps) simp
  have plain: "read_chars (c # s) = prepend c (read_chars s)"
    if "c \<noteq> CHR 0x22" "c \<noteq> CHR 0x5C" "32 \<le> (of_char c :: nat)"
    using that by (subst read_chars.simps) simp
  show ?thesis unfolding json_char_def using two esc u plain by auto
qed

lemma read_chars_string: "read_chars (concat (map json_char s) @ CHR 0x22 # t) = Some (s, t)"
proof (induction s)
  case Nil
  show ?case by (subst read_chars.simps) simp
next
  case (Cons c s)
  then show ?case by (simp add: read_chars_json prepend_def)
qed

text \<open>What may follow a value inside a text.\<close>

definition follows :: "string \<Rightarrow> bool" where
  "follows r \<longleftrightarrow> r = [] \<or> hd r \<in> set '',]}'' \<or> hd r = CHR 0x0A"

lemma digits_follow:
  assumes "follows r"
  shows "takeWhile is_digit (nat_str n @ r) = nat_str n" "dropWhile is_digit (nat_str n @ r) = r"
proof -
  have "r = [] \<or> \<not> is_digit (hd r)" using assms by (auto simp: follows_def is_digit_def)
  then have r: "takeWhile is_digit r = []" "dropWhile is_digit r = r" by (cases r; simp)+
  have d: "\<forall>c\<in>set (nat_str n). is_digit c" by (blast intro: nat_str_digits)
  show "takeWhile is_digit (nat_str n @ r) = nat_str n" using d r by (simp add: takeWhile_append)
  show "dropWhile is_digit (nat_str n @ r) = r" using d r by (simp add: dropWhile_append)
qed

lemma follows_int: "follows r \<Longrightarrow> \<not> (r \<noteq> [] \<and> hd r \<in> {CHR ''.'', CHR ''e'', CHR ''E''})"
  by (auto simp: follows_def)

lemma read_digits_nat:
  assumes "follows r"
  shows "read_digits (nat_str n @ r) = Some (n, r)"
proof (cases "n = 0")
  case True
  have "nat_str n = ''0''" using True by (simp add: nat_str.simps digit_char.simps)
  then show ?thesis using digits_follow [OF assms, of n] follows_int [OF assms] True by (auto simp: read_digits_def Let_def)
next
  case False
  then show ?thesis using digits_follow [OF assms, of n] follows_int [OF assms] nat_str_hd [of n] by (auto simp: read_digits_def Let_def)
qed

lemma read_int_str:
  assumes "follows r"
  shows "read_int (int_str i @ r) = Some (i, r)"
proof (cases "i < 0")
  case True
  then show ?thesis using read_digits_nat [OF assms, of "nat (- i)"] by (simp add: read_int_def int_str_def)
next
  case False
  have "hd (nat_str (nat i)) \<noteq> CHR ''-''" using nat_str_digits hd_in_set nat_str_nonempty by (metis not_digit_minus)
  then show ?thesis
    using False read_digits_nat [OF assms, of "nat i"] by (simp add: read_int_def int_str_def hd_append)
qed

text \<open>The first character of a written value decides the branch of the reader.\<close>

lemma int_str_starts: "\<exists>c t. int_str i = c # t \<and> (is_digit c \<or> c = CHR ''-'')"
proof (cases "i < 0")
  case False
  then show ?thesis
    by (cases "nat_str (nat i)") (auto simp: int_str_def, metis list.set_intros(1) nat_str_digits)
qed (simp add: int_str_def)

lemma dumps_starts:
  "\<exists>c t. json_dumps j = c # t \<and> \<not> is_ws c \<and> c \<notin> set '',]}:''"
proof (cases j)
  case (JInt i)
  then show ?thesis using int_str_starts [of i] by (auto simp: is_ws_def is_digit_def)
qed (auto simp: json_string_def is_ws_def)

lemma skip_dumps: "skip_ws (json_dumps j @ r) = json_dumps j @ r"
  using dumps_starts [of j] by (auto simp: skip_ws_def)

lemma read_value_int:
  assumes "follows r"
  shows "read_value (Suc n) (int_str i @ r) = Some (JInt i, r)"
proof -
  obtain c t where s: "int_str i = c # t" "is_digit c \<or> c = CHR ''-''" using int_str_starts by blast
  have k: "skip_ws (int_str i @ r) = int_str i @ r" using skip_dumps [of "JInt i"] by simp
  have "c \<noteq> CHR 0x22 \<and> c \<noteq> CHR ''['' \<and> c \<noteq> CHR ''{'' \<and> c \<noteq> CHR ''n'' \<and> c \<noteq> CHR ''t'' \<and> c \<noteq> CHR ''f''"
    using s(2) by (auto simp: is_digit_def)
  then show ?thesis using read_int_str [OF assms, of i] k by (simp add: s(1) starts_def)
qed

text \<open>
  \<open>reads j\<close>: the reader gives a written value back, in every context and with every fuel of
  at least twice the length of the text.
\<close>

definition reads :: "json \<Rightarrow> bool" where
  "reads j \<longleftrightarrow> (\<forall>n r. 2 * length (json_dumps j) \<le> n \<longrightarrow> follows r
     \<longrightarrow> read_value (Suc n) (json_dumps j @ r) = Some (json_sorted j, r))"

lemma readsD:
  "reads j \<Longrightarrow> 2 * length (json_dumps j) < n \<Longrightarrow> follows r
     \<Longrightarrow> read_value n (json_dumps j @ r) = Some (json_sorted j, r)"
  unfolding reads_def by (cases n) auto

lemma follows_comma [simp]:
  "follows (CHR '','' # r)" "follows (CHR '']'' # r)" "follows (CHR ''}'' # r)"
  by (simp_all add: follows_def)

lemma skip_ws_keep [simp]:
  "skip_ws (CHR '','' # r) = CHR '','' # r" "skip_ws (CHR '']'' # r) = CHR '']'' # r"
  "skip_ws (CHR ''}'' # r) = CHR ''}'' # r" "skip_ws (CHR '':'' # r) = CHR '':'' # r"
  "skip_ws (CHR 0x22 # r) = CHR 0x22 # r" "skip_ws (CHR ''['' # r) = CHR ''['' # r"
  "skip_ws (CHR ''{'' # r) = CHR ''{'' # r"
  by (simp_all add: skip_ws_def is_ws_def)

lemma read_elements_written:
  assumes "xs \<noteq> []" "\<forall>x\<in>set xs. reads x" "2 * length (join_comma (map json_dumps xs)) + 1 \<le> n"
  shows "read_elements (Suc n) acc (join_comma (map json_dumps xs) @ CHR '']'' # r)
    = Some (JList (acc @ map json_sorted xs), r)"
  using assms
proof (induction "map json_dumps xs" arbitrary: xs acc n rule: join_comma.induct)
  case (2 s)
  then obtain x where x: "xs = [x]" "s = json_dumps x" by (cases xs) auto
  show ?case using 2 readsD [of x n "CHR '']'' # r"] by (simp add: x)
next
  case (3 s1 s2 ss)
  then obtain x ys where x: "xs = x # ys" "s1 = json_dumps x" "s2 # ss = map json_dumps ys" by (cases xs) auto
  then have ne: "ys \<noteq> []" by auto
  then obtain y zs where y: "ys = y # zs" by (cases ys) auto
  have l: "2 * length (json_dumps x) + 2 * length (join_comma (map json_dumps ys)) + 3 \<le> n"
    using 3(5) by (simp add: x(1) y)
  then obtain m where m: "n = Suc m" "2 * length (join_comma (map json_dumps ys)) + 1 \<le> m" by (cases n) auto
  have v: "read_value n (json_dumps x @ CHR '','' # join_comma (map json_dumps ys) @ CHR '']'' # r)
      = Some (json_sorted x, CHR '','' # join_comma (map json_dumps ys) @ CHR '']'' # r)"
    using 3(4) l by (intro readsD) (auto simp: x(1))
  show ?case using 3(1) [OF x(3) ne _ m(2), of "acc @ [json_sorted x]"] 3(4) v by (simp add: x(1) y m(1))
qed simp

lemma dict_put_new: "k \<notin> set (map fst d) \<Longrightarrow> dict_put k v d = d @ [(k, v)]"
  by (induction d) auto

abbreviation member_text :: "string \<times> json \<Rightarrow> string" where
  "member_text p \<equiv> json_string (fst p) @ CHR '':'' # json_dumps (snd p)"

lemma read_members_written:
  assumes "kvs \<noteq> []" "\<forall>p\<in>set kvs. reads (snd p)" "2 * length (join_comma (map member_text kvs)) + 1 \<le> n"
    and "distinct (map fst d @ map fst kvs)"
  shows "read_members (Suc n) d (join_comma (map member_text kvs) @ CHR ''}'' # r)
    = Some (JObj (d @ map (\<lambda>(k, v). (k, json_sorted v)) kvs), r)"
  using assms
proof (induction "map member_text kvs" arbitrary: kvs d n rule: join_comma.induct)
  case (2 s)
  then obtain p where p: "kvs = [p]" by (cases kvs) auto
  have v: "read_value n (json_dumps (snd p) @ CHR ''}'' # r) = Some (json_sorted (snd p), CHR ''}'' # r)"
    using 2 by (intro readsD) (auto simp: p)
  have "fst p \<notin> set (map fst d)" using 2 by (auto simp: p)
  then show ?case using v by (simp add: p json_string_def read_chars_string dict_put_new case_prod_unfold)
next
  case (3 s1 s2 ss)
  then obtain p ps where p: "kvs = p # ps" "s2 # ss = map member_text ps" by (cases kvs) auto
  then have ne: "ps \<noteq> []" by auto
  then obtain q qs where q: "ps = q # qs" by (cases ps) auto
  have l: "2 * length (json_dumps (snd p)) + 2 * length (join_comma (map member_text ps)) + 3 \<le> n"
    using 3(5) by (simp add: p(1) q)
  then obtain m where m: "n = Suc m" "2 * length (join_comma (map member_text ps)) + 1 \<le> m" by (cases n) auto
  have v: "read_value n (json_dumps (snd p) @ CHR '','' # join_comma (map member_text ps) @ CHR ''}'' # r)
      = Some (json_sorted (snd p), CHR '','' # join_comma (map member_text ps) @ CHR ''}'' # r)"
    using 3(4) l by (intro readsD) (auto simp: p(1))
  have k: "fst p \<notin> set (map fst d)" and d: "distinct (map fst (d @ [(fst p, json_sorted (snd p))]) @ map fst ps)"
    using 3(6) by (auto simp: p(1))
  show ?case
    using 3(1) [OF p(2) ne _ m(2) d] 3(4) v k
    by (simp add: p(1) q m(1) json_string_def read_chars_string dict_put_new case_prod_unfold)
qed simp

lemma reads_all: "json_ok j \<Longrightarrow> reads j"
proof (induction j)
  case (JInt i)
  show ?case by (simp add: reads_def read_value_int del: read_value.simps)
next
  case (JStr s)
  show ?case by (simp add: reads_def json_string_def read_chars_string)
next
  case (JList xs)
  have r: "\<forall>x\<in>set xs. reads x" using JList by (auto simp: list_all_iff)
  show ?case unfolding reads_def
  proof (intro allI impI)
    fix n r assume n: "2 * length (json_dumps (JList xs)) \<le> n"
    show "read_value (Suc n) (json_dumps (JList xs) @ r) = Some (json_sorted (JList xs), r)"
    proof (cases xs)
      case (Cons y ys)
      obtain m where m: "n = Suc m" "2 * length (join_comma (map json_dumps xs)) + 1 \<le> m" using n by (cases n) auto
      have s: "\<exists>c t. join_comma (map json_dumps xs) = c # t \<and> \<not> is_ws c \<and> c \<noteq> CHR '']''"
        using dumps_starts [of y] by (cases ys) (auto simp: Cons)
      then have "skip_ws (join_comma (map json_dumps xs) @ CHR '']'' # r) = join_comma (map json_dumps xs) @ CHR '']'' # r"
        by (auto simp: skip_ws_def)
      then show ?thesis using read_elements_written [OF _ r m(2), of "[]"] s by (auto simp: Cons m(1))
    qed simp
  qed
next
  case (JObj kvs)
  let ?ps = "sort_key fst kvs"
  have r: "\<forall>p\<in>set ?ps. reads (snd p)" using JObj by (force simp: list_all_iff)
  have d: "distinct (map fst [] @ map fst ?ps)" using JObj(2) by (simp add: distinct_map)
  have w: "json_dumps (JObj kvs) = ''{'' @ join_comma (map member_text ?ps) @ ''}''"
    by (simp add: sort_key_fst case_prod_unfold comp_def)
  have e: "json_sorted (JObj kvs) = JObj (map (\<lambda>(k, v). (k, json_sorted v)) ?ps)"
    by (simp add: sort_key_pairs)
  show ?case unfolding reads_def
  proof (intro allI impI)
    fix n r assume n: "2 * length (json_dumps (JObj kvs)) \<le> n"
    show "read_value (Suc n) (json_dumps (JObj kvs) @ r) = Some (json_sorted (JObj kvs), r)"
    proof (cases ?ps)
      case Nil
      then show ?thesis unfolding w e by simp
    next
      case (Cons p ps)
      obtain m where m: "n = Suc m" "2 * length (join_comma (map member_text ?ps)) + 1 \<le> m"
        using n unfolding w by (cases n) auto
      have "\<exists>t. join_comma (map member_text ?ps) = CHR 0x22 # t"
        unfolding Cons by (cases ps) (auto simp: json_string_def)
      then show ?thesis
        unfolding w e m(1) using read_members_written [OF _ r m(2) d, of r] Cons by auto
    qed
  qed
qed (auto simp: reads_def starts_def skip_ws_def is_ws_def)

theorem json_loads_dumps: "json_ok j \<Longrightarrow> json_loads (json_dumps j) = Some (json_sorted j)"
  using readsD [OF reads_all, of j "2 * length (json_dumps j) + 1" "[]"]
  by (simp add: json_loads_def follows_def skip_ws_def)

text \<open>Also with the newline that ends a stored file.\<close>

lemma json_loads_line: "json_ok j \<Longrightarrow> json_loads (json_dumps j @ [CHR 0x0A]) = Some (json_sorted j)"
  using readsD [OF reads_all, of j "2 * length (json_dumps j @ [CHR 0x0A]) + 1" "[CHR 0x0A]"]
  by (simp add: json_loads_def follows_def skip_ws_def is_ws_def)

lemma json_dumps_sorted [simp]: "json_dumps (json_sorted j) = json_dumps j"
proof (induction j)
  case (JList xs)
  then have "map (\<lambda>x. json_dumps (json_sorted x)) xs = map json_dumps xs" by (intro map_cong) auto
  then show ?case by (simp only: json_sorted.simps json_dumps.simps map_map comp_def)
next
  case (JObj kvs)
  have "map (\<lambda>(k, v). (k, json_string k @ '':'' @ json_dumps (json_sorted v))) kvs
      = map (\<lambda>(k, v). (k, json_string k @ '':'' @ json_dumps v)) kvs"
    using JObj by force
  moreover have "sort_key fst (map (\<lambda>(k, v). (k, json_string k @ '':'' @ json_dumps v))
        (sort_key fst (map (\<lambda>(k, v). (k, json_sorted v)) kvs)))
      = sort_key fst (map (\<lambda>(k, v). (k, json_string k @ '':'' @ json_dumps (json_sorted v))) kvs)"
    by (simp add: sort_key_fst sort_key_id_if_sorted case_prod_unfold comp_def)
  ultimately show ?case by (simp only: json_sorted.simps json_dumps.simps)
qed simp_all

lemma json_norm_sorted: "json_norm (json_sorted j) = json_norm j"
proof (induction j)
  case (JList xs)
  then show ?case by (simp add: comp_def)
next
  case (JObj kvs)
  then have m: "map (\<lambda>(k, v). (k, json_norm (json_sorted v))) kvs = map (\<lambda>(k, v). (k, json_norm v)) kvs" by force
  have "json_norm (json_sorted (JObj kvs))
      = JObj (sort_key fst (sort_key fst (map (\<lambda>(k, v). (k, json_norm (json_sorted v))) kvs)))"
    by (simp add: sort_key_fst case_prod_unfold comp_def)
  also have "\<dots> = json_norm (JObj kvs)" unfolding m by (simp add: sort_key_id_if_sorted)
  finally show ?case .
qed simp_all

lemma json_eq_sorted [simp]: "json_eq a (json_sorted b) = json_eq a b" "json_eq (json_sorted a) b = json_eq a b"
  by (simp_all add: json_eq_def json_norm_sorted)

lemma json_get_sorted:
  assumes "json_ok (JObj kvs)"
  shows "json_get k (json_sorted (JObj kvs)) = map_option json_sorted (map_of kvs k)"
proof -
  have "map_of (map (\<lambda>(k, v). (k, json_sorted v)) kvs) k = map_option json_sorted (map_of kvs k)" for k
    by (induction kvs) auto
  moreover have "distinct (map fst (map (\<lambda>(k, v). (k, json_sorted v)) kvs))"
    using assms by (simp add: comp_def case_prod_unfold)
  ultimately show ?thesis by (simp add: json_get_def map_of_sort)
qed

section \<open>The length of a written value\<close>

lemma length_join_comma: "length (join_comma xs) \<le> sum_list (map length xs) + length xs"
  by (induction xs rule: join_comma.induct) simp_all

lemma sum_list_sort: "sum_list (map h (sort_key k xs)) = (sum_list (map h xs) :: nat)"
proof -
  have "sum_list (map h (insort_key k x ys)) = h x + sum_list (map h ys)" for x ys
    by (induction ys) simp_all
  then show ?thesis by (induction xs) simp_all
qed

lemma length_dumps_object:
  "length (json_dumps (JObj kvs)) \<le> 2 + (\<Sum>(k, v)\<leftarrow>kvs. length (json_string k) + 2 + length (json_dumps v))"
proof -
  let ?ps = "sort_key fst (map (\<lambda>(k, v). (k, json_string k @ '':'' @ json_dumps v)) kvs)"
  have "sum_list (map length (map snd ?ps)) = (\<Sum>(k, v)\<leftarrow>kvs. length (json_string k) + 1 + length (json_dumps v))"
    by (simp add: sum_list_sort comp_def case_prod_unfold)
  then have "length (join_comma (map snd ?ps)) \<le> (\<Sum>(k, v)\<leftarrow>kvs. length (json_string k) + 1 + length (json_dumps v)) + length kvs"
    using length_join_comma [of "map snd ?ps"] by simp
  also have "\<dots> = (\<Sum>(k, v)\<leftarrow>kvs. length (json_string k) + 2 + length (json_dumps v))"
    by (induction kvs) auto
  finally show ?thesis by simp
qed

lemma length_json_string: "length (json_string s) \<le> 6 * length s + 2"
proof -
  have "length (json_char c) \<le> 6" for c by (simp add: json_char_def)
  then have "length (concat (map json_char s)) \<le> 6 * length s" by (induction s) (auto simp: add_mono)
  then show ?thesis by (simp add: json_string_def)
qed

lemma length_object_bound:
  "length (json_dumps (JObj kvs)) \<le> 2 + (\<Sum>(k, v)\<leftarrow>kvs. 6 * length k + 4 + length (json_dumps v))"
proof -
  have "length (json_string k) + 2 + n \<le> 6 * length k + 4 + n" for k n using length_json_string [of k] by simp
  then have "(\<Sum>(k, v)\<leftarrow>kvs. length (json_string k) + 2 + length (json_dumps v))
      \<le> (\<Sum>(k, v)\<leftarrow>kvs. 6 * length k + 4 + length (json_dumps v))"
    by (intro sum_list_mono) (auto simp: case_prod_unfold)
  then show ?thesis using length_dumps_object [of kvs] by linarith
qed

lemma length_list_bound:
  "(\<And>x. x \<in> set xs \<Longrightarrow> length (json_dumps x) \<le> n) \<Longrightarrow> length (json_dumps (JList xs)) \<le> 2 + length xs * (n + 1)"
proof -
  assume b: "\<And>x. x \<in> set xs \<Longrightarrow> length (json_dumps x) \<le> n"
  then have "sum_list (map length (map json_dumps xs)) \<le> length xs * n"
    by (induction xs) (simp_all add: add_mono)
  then show ?thesis using length_join_comma [of "map json_dumps xs"] by simp
qed

end
