(* ===== verification/Risk_State.thy ===== *)
theory Risk_State
  imports Risk_Contracts Backtest_Costs Py_Json_Read
begin

text \<open>
  \<^verbatim>\<open>yatl/risk/state.py\<close>: the hash-chained portfolio and session state. One
  transition takes the previous managed state (or none) and an observation; its contract is
  the locale \<open>hash_chain\<close>.
\<close>

section \<open>Observations\<close>

definition UTC_DAY_MILLISECONDS :: int where "UTC_DAY_MILLISECONDS = 86400000"

datatype CloseOutcome = NO_CLOSE | WIN | LOSS | BREAKEVEN

fun CloseOutcome_value :: "CloseOutcome \<Rightarrow> string" where
  "CloseOutcome_value NO_CLOSE = ''NO_CLOSE''"
| "CloseOutcome_value WIN = ''WIN''"
| "CloseOutcome_value LOSS = ''LOSS''"
| "CloseOutcome_value BREAKEVEN = ''BREAKEVEN''"

definition state_number :: "string \<Rightarrow> string \<Rightarrow> bool \<Rightarrow> bool \<Rightarrow> dec result" where
  "state_number v name positive is_signed =
     (if \<not> (if is_signed then plain_signed v else plain_unsigned v)
      then Inl (RiskStateError (name @ '' must be a plain decimal string''))
      else if positive \<and> d_le (py_Decimal v) d_zero
      then Inl (RiskStateError (name @ '' is outside the allowed range''))
      else Inr (py_Decimal v))"

record PortfolioObservation =
  ob_symbol :: string
  ob_sequence :: int
  ob_decision_time_ms :: int
  ob_equity_quote :: string
  ob_cash_quote :: string
  ob_position_quantity :: string
  ob_mark_price :: string
  ob_realized_pnl_delta_quote :: string
  ob_close_outcome :: CloseOutcome
  ob_start_new_session :: bool

definition PortfolioObservation_post_init :: "PortfolioObservation \<Rightarrow> unit result" where
  "PortfolioObservation_post_init ob =
     (if ob_symbol ob \<notin> set SYMBOLS then Inl (RiskStateError ''Observation symbol is not approved'')
      else if \<not> (0 \<le> ob_sequence ob \<and> ob_sequence ob \<le> 1000000000)
      then Inl (RiskStateError ''Observation sequence is invalid'')
      else if ob_decision_time_ms ob < 0 \<or> ob_decision_time_ms ob mod interval_ms ''1h'' \<noteq> 0
      then Inl (RiskStateError ''Observation time must be an aligned 1h boundary'')
      else
        bind_r (state_number (ob_equity_quote ob) ''equity_quote'' True False) (\<lambda>_.
        bind_r (state_number (ob_cash_quote ob) ''cash_quote'' False False) (\<lambda>_.
        bind_r (state_number (ob_position_quantity ob) ''position_quantity'' False False) (\<lambda>_.
        bind_r (state_number (ob_mark_price ob) ''mark_price'' True False) (\<lambda>_.
        bind_r (state_number (ob_realized_pnl_delta_quote ob) ''realized_pnl_delta_quote'' False True) (\<lambda>pnl.
        let sign_matches =
          (case ob_close_outcome ob of
             NO_CLOSE \<Rightarrow> d_eq pnl d_zero | WIN \<Rightarrow> d_lt d_zero pnl
           | LOSS \<Rightarrow> d_lt pnl d_zero | BREAKEVEN \<Rightarrow> d_eq pnl d_zero)
        in if \<not> sign_matches then Inl (RiskStateError ''Close outcome and realized PnL disagree'')
           else Inr ()))))))"

text \<open>The text that is hashed, and its digest.\<close>

definition observation_text :: "PortfolioObservation \<Rightarrow> string" where
  "observation_text ob = json_dumps (JObj
     [(''schema_version'', JInt 1), (''symbol'', JStr (ob_symbol ob)),
      (''sequence'', JInt (ob_sequence ob)), (''decision_time_ms'', JInt (ob_decision_time_ms ob)),
      (''equity_quote'', JStr (ob_equity_quote ob)), (''cash_quote'', JStr (ob_cash_quote ob)),
      (''position_quantity'', JStr (ob_position_quantity ob)), (''mark_price'', JStr (ob_mark_price ob)),
      (''realized_pnl_delta_quote'', JStr (ob_realized_pnl_delta_quote ob)),
      (''close_outcome'', JStr (CloseOutcome_value (ob_close_outcome ob))),
      (''start_new_session'', JBool (ob_start_new_session ob))])"

definition observation_sha256 :: "PortfolioObservation \<Rightarrow> string" where
  "observation_sha256 ob = sha256_hexdigest (observation_text ob)"

section \<open>Managed states\<close>

record ManagedPortfolioState =
  mp_symbol :: string
  mp_sequence :: int
  mp_decision_time_ms :: int
  mp_session_start_time_ms :: int
  mp_session_start_equity_quote :: string
  mp_equity_quote :: string
  mp_cash_quote :: string
  mp_position_quantity :: string
  mp_mark_price :: string
  mp_peak_equity_quote :: string
  mp_session_realized_pnl_quote :: string
  mp_consecutive_losses :: int
  mp_open_positions :: int
  mp_gross_exposure_quote :: string
  mp_previous_state_sha256 :: "string option"
  mp_observation_sha256 :: string

definition aligned_time :: "int \<Rightarrow> string \<Rightarrow> unit result" where
  "aligned_time v name =
     require (0 \<le> v \<and> v mod interval_ms ''1h'' = 0)
       (RiskStateError (name @ '' must be an aligned 1h boundary''))"

definition ManagedPortfolioState_post_init :: "ManagedPortfolioState \<Rightarrow> unit result" where
  "ManagedPortfolioState_post_init s =
     (if mp_symbol s \<notin> set SYMBOLS then Inl (RiskStateError ''Managed-state symbol is not approved'')
      else if \<not> (0 \<le> mp_sequence s \<and> mp_sequence s \<le> 1000000000)
      then Inl (RiskStateError ''Managed-state sequence is invalid'')
      else
        bind_r (aligned_time (mp_decision_time_ms s) ''decision_time_ms'') (\<lambda>_.
        bind_r (aligned_time (mp_session_start_time_ms s) ''session_start_time_ms'') (\<lambda>_.
        if mp_session_start_time_ms s > mp_decision_time_ms s
        then Inl (RiskStateError ''Session cannot start after the managed state'')
        else
        bind_r (state_number (mp_session_start_equity_quote s) ''session_start_equity_quote'' True False) (\<lambda>session_start.
        bind_r (state_number (mp_equity_quote s) ''equity_quote'' True False) (\<lambda>equity.
        bind_r (state_number (mp_cash_quote s) ''cash_quote'' False False) (\<lambda>_.
        bind_r (state_number (mp_position_quantity s) ''position_quantity'' False False) (\<lambda>quantity.
        bind_r (state_number (mp_mark_price s) ''mark_price'' True False) (\<lambda>mark.
        bind_r (state_number (mp_peak_equity_quote s) ''peak_equity_quote'' True False) (\<lambda>peak.
        bind_r (state_number (mp_session_realized_pnl_quote s) ''session_realized_pnl_quote'' False True) (\<lambda>_.
        bind_r (state_number (mp_gross_exposure_quote s) ''gross_exposure_quote'' False False) (\<lambda>exposure.
        if d_le session_start d_zero \<or> d_lt peak equity
        then Inl (RiskStateError ''Managed-state equity values are inconsistent'')
        else if \<not> (0 \<le> mp_consecutive_losses s \<and> mp_consecutive_losses s \<le> 1000000)
                \<or> mp_open_positions s \<notin> {0, 1}
        then Inl (RiskStateError ''Managed-state counters are invalid'')
        else if (d_eq quantity d_zero) \<noteq> (mp_open_positions s = 0)
        then Inl (RiskStateError ''Position quantity and open-position count disagree'')
        else if mp_gross_exposure_quote s \<noteq> d_format (d_mul DECIMAL_PRECISION quantity mark)
                \<or> \<not> d_eq exposure (d_mul DECIMAL_PRECISION quantity mark)
        then Inl (RiskStateError ''Gross exposure is noncanonical or inconsistent'')
        else if mp_sequence s = 0 \<and> mp_previous_state_sha256 s \<noteq> None
        then Inl (RiskStateError ''Initial state cannot have a predecessor'')
        else if mp_sequence s \<noteq> 0
                \<and> (case mp_previous_state_sha256 s of None \<Rightarrow> True | Some h \<Rightarrow> \<not> valid_digest h)
        then Inl (RiskStateError ''Managed state is missing its predecessor digest'')
        else if \<not> valid_digest (mp_observation_sha256 s)
        then Inl (RiskStateError ''Managed state observation digest is invalid'')
        else Inr ())))))))))))"

definition state_text :: "ManagedPortfolioState \<Rightarrow> string" where
  "state_text s = json_dumps (JObj
     [(''schema_version'', JInt 1), (''symbol'', JStr (mp_symbol s)),
      (''sequence'', JInt (mp_sequence s)), (''decision_time_ms'', JInt (mp_decision_time_ms s)),
      (''session_start_time_ms'', JInt (mp_session_start_time_ms s)),
      (''session_start_equity_quote'', JStr (mp_session_start_equity_quote s)),
      (''equity_quote'', JStr (mp_equity_quote s)), (''cash_quote'', JStr (mp_cash_quote s)),
      (''position_quantity'', JStr (mp_position_quantity s)), (''mark_price'', JStr (mp_mark_price s)),
      (''peak_equity_quote'', JStr (mp_peak_equity_quote s)),
      (''session_realized_pnl_quote'', JStr (mp_session_realized_pnl_quote s)),
      (''consecutive_losses'', JInt (mp_consecutive_losses s)),
      (''open_positions'', JInt (mp_open_positions s)),
      (''gross_exposure_quote'', JStr (mp_gross_exposure_quote s)),
      (''previous_state_sha256'', j_opt JStr (mp_previous_state_sha256 s)),
      (''observation_sha256'', JStr (mp_observation_sha256 s))])"

definition state_sha256 :: "ManagedPortfolioState \<Rightarrow> string" where
  "state_sha256 s = sha256_hexdigest (state_text s)"

definition to_risk_state :: "ManagedPortfolioState \<Rightarrow> bool \<Rightarrow> PortfolioRiskState result" where
  "to_risk_state s kill_switch_active =
     construct PortfolioRiskState_post_init
       \<lparr> pr_symbol = mp_symbol s, pr_decision_time_ms = mp_decision_time_ms s,
         pr_equity_quote = mp_equity_quote s, pr_cash_quote = mp_cash_quote s,
         pr_position_quantity = mp_position_quantity s, pr_mark_price = mp_mark_price s,
         pr_peak_equity_quote = mp_peak_equity_quote s,
         pr_session_realized_pnl_quote = mp_session_realized_pnl_quote s,
         pr_consecutive_losses = mp_consecutive_losses s, pr_open_positions = mp_open_positions s,
         pr_kill_switch_active = kill_switch_active \<rparr>"

section \<open>Transitions\<close>

text \<open>
  What the two branches of \<^verbatim>\<open>_next_state\<close> compute: session start, session equity,
  session profit, peak, loss streak and predecessor digest.
\<close>

type_synonym session_facts = "int \<times> dec \<times> dec \<times> dec \<times> int \<times> string option"

definition initial_facts :: "PortfolioObservation \<Rightarrow> session_facts result" where
  "initial_facts ob =
     (if ob_sequence ob \<noteq> 0 \<or> \<not> ob_start_new_session ob
      then Inl (RiskStateError ''Initial state requires sequence zero and a session start'')
      else if ob_close_outcome ob \<noteq> NO_CLOSE \<or> \<not> d_eq (py_Decimal (ob_position_quantity ob)) d_zero
      then Inl (RiskStateError ''Initial state must be flat with no close outcome'')
      else Inr (ob_decision_time_ms ob, py_Decimal (ob_equity_quote ob), d_zero,
                py_Decimal (ob_equity_quote ob), 0, None))"

definition later_facts :: "ManagedPortfolioState \<Rightarrow> PortfolioObservation \<Rightarrow> session_facts result" where
  "later_facts previous ob =
     (let equity = py_Decimal (ob_equity_quote ob);
          quantity = py_Decimal (ob_position_quantity ob);
          prior_quantity = py_Decimal (mp_position_quantity previous) in
      if ob_symbol ob \<noteq> mp_symbol previous then Inl (RiskStateError ''State symbol cannot change'')
      else if ob_sequence ob \<noteq> mp_sequence previous + 1
      then Inl (RiskStateError ''State sequence is duplicate or missing'')
      else if ob_decision_time_ms ob \<le> mp_decision_time_ms previous
      then Inl (RiskStateError ''State observation is stale or out of order'')
      else if ob_close_outcome ob = NO_CLOSE \<and> d_lt d_zero prior_quantity \<and> \<not> d_eq quantity prior_quantity
      then Inl (RiskStateError ''An open position changed without a close outcome'')
      else if ob_close_outcome ob \<noteq> NO_CLOSE \<and> (d_le prior_quantity d_zero \<or> \<not> d_eq quantity d_zero)
      then Inl (RiskStateError ''A close outcome must close the complete open position'')
      else
        bind_r
          (if ob_start_new_session ob
           then (if ob_decision_time_ms ob mod UTC_DAY_MILLISECONDS \<noteq> 0
                 then Inl (RiskStateError ''A new session must start at 00:00 UTC'')
                 else if ob_close_outcome ob \<noteq> NO_CLOSE
                 then Inl (RiskStateError ''Session reset and close outcome require separate observations'')
                 else Inr (ob_decision_time_ms ob, equity, d_zero))
           else Inr (mp_session_start_time_ms previous,
                     py_Decimal (mp_session_start_equity_quote previous),
                     d_add DECIMAL_PRECISION (py_Decimal (mp_session_realized_pnl_quote previous))
                       (py_Decimal (ob_realized_pnl_delta_quote ob))))
          (\<lambda>(start_time, start_equity, session_pnl).
             Inr (start_time, start_equity, session_pnl,
                  d_max (py_Decimal (mp_peak_equity_quote previous)) equity,
                  (case ob_close_outcome ob of
                     LOSS \<Rightarrow> mp_consecutive_losses previous + 1
                   | WIN \<Rightarrow> 0 | BREAKEVEN \<Rightarrow> 0
                   | NO_CLOSE \<Rightarrow> mp_consecutive_losses previous),
                  Some (state_sha256 previous))))"

definition next_state ::
    "ManagedPortfolioState option \<Rightarrow> PortfolioObservation \<Rightarrow> ManagedPortfolioState result" where
  "next_state previous ob =
     bind_r (case previous of None \<Rightarrow> initial_facts ob | Some p \<Rightarrow> later_facts p ob)
     (\<lambda>(start_time, start_equity, session_pnl, peak, losses, previous_sha).
       let quantity = py_Decimal (ob_position_quantity ob); mark = py_Decimal (ob_mark_price ob)
       in construct ManagedPortfolioState_post_init
         \<lparr> mp_symbol = ob_symbol ob, mp_sequence = ob_sequence ob,
           mp_decision_time_ms = ob_decision_time_ms ob,
           mp_session_start_time_ms = start_time,
           mp_session_start_equity_quote = d_format start_equity,
           mp_equity_quote = d_format (py_Decimal (ob_equity_quote ob)),
           mp_cash_quote = d_format (py_Decimal (ob_cash_quote ob)),
           mp_position_quantity = d_format quantity, mp_mark_price = d_format mark,
           mp_peak_equity_quote = d_format peak,
           mp_session_realized_pnl_quote = d_format session_pnl,
           mp_consecutive_losses = losses,
           mp_open_positions = (if d_eq quantity d_zero then 0 else 1),
           mp_gross_exposure_quote = d_format (d_mul DECIMAL_PRECISION quantity mark),
           mp_previous_state_sha256 = previous_sha,
           mp_observation_sha256 = observation_sha256 ob \<rparr>)"

record PortfolioStateTransition =
  pt_previous :: "ManagedPortfolioState option"
  pt_observation :: PortfolioObservation
  pt_current :: ManagedPortfolioState

definition PortfolioStateTransition_post_init :: "PortfolioStateTransition \<Rightarrow> unit result" where
  "PortfolioStateTransition_post_init t =
     bind_r (next_state (pt_previous t) (pt_observation t)) (\<lambda>expected.
     if pt_current t \<noteq> expected
     then Inl (RiskStateError ''Current managed state does not match its transition'')
     else Inr ())"

definition apply_portfolio_observation ::
    "ManagedPortfolioState option \<Rightarrow> PortfolioObservation \<Rightarrow> PortfolioStateTransition result" where
  "apply_portfolio_observation previous ob =
     bind_r (next_state previous ob) (\<lambda>current.
     construct PortfolioStateTransition_post_init
       \<lparr> pt_previous = previous, pt_observation = ob, pt_current = current \<rparr>)"

definition valid_PortfolioObservation :: "PortfolioObservation \<Rightarrow> bool" where
  "valid_PortfolioObservation ob \<longleftrightarrow> PortfolioObservation_post_init ob = Inr ()"

definition valid_ManagedPortfolioState :: "ManagedPortfolioState \<Rightarrow> bool" where
  "valid_ManagedPortfolioState s \<longleftrightarrow> ManagedPortfolioState_post_init s = Inr ()"

section \<open>One transition\<close>

lemma state_number_Inr [result_simps]:
  "state_number v f pos sg = Inr n \<longleftrightarrow>
     (if sg then plain_signed v else plain_unsigned v) \<and> n = py_Decimal v \<and> (pos \<longrightarrow> 0 < val (py_Decimal v))"
  by (auto simp: state_number_def dec_val split: if_splits)

lemma valid_PortfolioObservationD:
  assumes "valid_PortfolioObservation ob"
  shows "plain_unsigned (ob_equity_quote ob)" "0 < val (py_Decimal (ob_equity_quote ob))"
    "plain_unsigned (ob_cash_quote ob)" "plain_unsigned (ob_position_quantity ob)"
    "plain_unsigned (ob_mark_price ob)" "plain_signed (ob_realized_pnl_delta_quote ob)"
    "ob_close_outcome ob = NO_CLOSE \<or> ob_close_outcome ob = BREAKEVEN \<longleftrightarrow>
       val (py_Decimal (ob_realized_pnl_delta_quote ob)) = 0"
    "ob_close_outcome ob = LOSS \<longleftrightarrow> val (py_Decimal (ob_realized_pnl_delta_quote ob)) < 0"
  using assms
  by (auto simp: valid_PortfolioObservation_def PortfolioObservation_post_init_def bind_r_eq_Inr
      state_number_Inr Let_def dec_val split: if_splits CloseOutcome.splits)

lemma next_state_valid: "next_state p ob = Inr s \<Longrightarrow> valid_ManagedPortfolioState s"
  by (auto simp: next_state_def bind_r_eq_Inr construct_eq_Inr Let_def valid_ManagedPortfolioState_def)

lemma valid_ManagedPortfolioStateD:
  assumes "valid_ManagedPortfolioState s"
  shows "mp_symbol s \<in> set SYMBOLS" "0 \<le> mp_sequence s" "0 \<le> mp_decision_time_ms s"
    "mp_decision_time_ms s mod hour_ms = 0" "mp_session_start_time_ms s \<le> mp_decision_time_ms s"
    "plain_unsigned (mp_session_start_equity_quote s)" "0 < val (py_Decimal (mp_session_start_equity_quote s))"
    "plain_unsigned (mp_equity_quote s)" "0 < val (py_Decimal (mp_equity_quote s))"
    "plain_unsigned (mp_cash_quote s)" "plain_unsigned (mp_position_quantity s)"
    "plain_unsigned (mp_mark_price s)" "0 < val (py_Decimal (mp_mark_price s))"
    "plain_unsigned (mp_peak_equity_quote s)"
    "val (py_Decimal (mp_equity_quote s)) \<le> val (py_Decimal (mp_peak_equity_quote s))"
    "plain_signed (mp_session_realized_pnl_quote s)"
    "0 \<le> mp_consecutive_losses s" "mp_consecutive_losses s \<le> 1000000" "mp_open_positions s \<in> {0, 1}"
    "val (py_Decimal (mp_position_quantity s)) = 0 \<longleftrightarrow> mp_open_positions s = 0"
  using assms
  by (auto simp: valid_ManagedPortfolioState_def ManagedPortfolioState_post_init_def bind_r_eq_Inr
      state_number_Inr aligned_time_def dec_val interval_ms_def split: if_splits)

lemma next_state_first:
  assumes "next_state None ob = Inr s"
  shows "mp_sequence s = 0" "mp_previous_state_sha256 s = None" "ob_sequence ob = 0"
    "mp_symbol s = ob_symbol ob" "mp_decision_time_ms s = ob_decision_time_ms ob"
    "val (py_Decimal (mp_equity_quote s)) = val (py_Decimal (ob_equity_quote ob))"
    "val (py_Decimal (mp_peak_equity_quote s)) = val (py_Decimal (ob_equity_quote ob))"
    "val (py_Decimal (mp_session_realized_pnl_quote s)) = 0" "mp_consecutive_losses s = 0"
    "mp_session_start_time_ms s = ob_decision_time_ms ob"
    "val (py_Decimal (mp_session_start_equity_quote s)) = val (py_Decimal (ob_equity_quote ob))"
    "ob_start_new_session ob" "ob_close_outcome ob = NO_CLOSE" "mp_open_positions s = 0"
  using assms
  by (auto simp: next_state_def initial_facts_def bind_r_eq_Inr construct_eq_Inr Let_def dec_val split: if_splits)

definition streak_step :: "int \<Rightarrow> CloseOutcome \<Rightarrow> int" where
  "streak_step n c = (case c of LOSS \<Rightarrow> n + 1 | WIN \<Rightarrow> 0 | BREAKEVEN \<Rightarrow> 0 | NO_CLOSE \<Rightarrow> n)"

lemma next_state_later:
  assumes "next_state (Some p) ob = Inr s"
  shows "mp_sequence s = mp_sequence p + 1" "mp_decision_time_ms p < mp_decision_time_ms s"
    "mp_previous_state_sha256 s = Some (state_sha256 p)" "mp_symbol s = mp_symbol p"
    "mp_decision_time_ms s = ob_decision_time_ms ob"
    "val (py_Decimal (mp_equity_quote s)) = val (py_Decimal (ob_equity_quote ob))"
    "val (py_Decimal (mp_peak_equity_quote s)) =
       max (val (py_Decimal (mp_peak_equity_quote p))) (val (py_Decimal (ob_equity_quote ob)))"
    "mp_consecutive_losses s = streak_step (mp_consecutive_losses p) (ob_close_outcome ob)"
    "ob_start_new_session ob \<Longrightarrow> val (py_Decimal (mp_session_realized_pnl_quote s)) = 0
       \<and> ob_close_outcome ob = NO_CLOSE"
    "\<not> ob_start_new_session ob \<Longrightarrow> val (py_Decimal (mp_session_realized_pnl_quote s)) =
       val (d_add DECIMAL_PRECISION (py_Decimal (mp_session_realized_pnl_quote p))
         (py_Decimal (ob_realized_pnl_delta_quote ob)))"
  using assms
  by (auto simp: next_state_def later_facts_def bind_r_eq_Inr construct_eq_Inr Let_def d_max_val
      streak_step_def split: if_splits)

interpretation managed: hash_chain next_state mp_sequence mp_decision_time_ms
  mp_previous_state_sha256 state_sha256
  by unfold_locales (auto dest: next_state_first next_state_later)

lemma apply_portfolio_observation_iff:
  "apply_portfolio_observation p ob = Inr t \<longleftrightarrow>
     next_state p ob = Inr (pt_current t) \<and> pt_previous t = p \<and> pt_observation t = ob"
  by (cases t) (auto simp: apply_portfolio_observation_def bind_r_eq_Inr construct_eq_Inr
      PortfolioStateTransition_post_init_def)

text \<open>The session profit is added without rounding.\<close>

lemma signed_sum_exact:
  assumes "plain_signed a" "plain_signed b"
  shows "val (d_add DECIMAL_PRECISION (py_Decimal a) (py_Decimal b)) = val (py_Decimal a) + val (py_Decimal b)"
proof -
  note A = plain_signed_bounds [OF assms(1)] and B = plain_signed_bounds [OF assms(2)]
  have "on_grid (-40) (val (py_Decimal a) + val (py_Decimal b))"
    using A(1) B(1) by (intro on_grid_add on_grid_val) auto
  moreover have "\<bar>val (py_Decimal a) + val (py_Decimal b)\<bar> < 10 ^ 41"
    using A(2) B(2) by (simp add: abs_less_iff)
  ultimately show ?thesis by (intro val_d_add representable_256 [of "-40" _ 41]) simp_all
qed

section \<open>Runs\<close>

text \<open>What a whole history of observations means.\<close>

definition loss_streak :: "CloseOutcome list \<Rightarrow> int" where
  "loss_streak cs = int (length (takeWhile (\<lambda>c. c = LOSS) (rev (filter (\<lambda>c. c \<noteq> NO_CLOSE) cs))))"

definition session_pnl :: "PortfolioObservation list \<Rightarrow> rat" where
  "session_pnl obs = (\<Sum>ob\<leftarrow>takeWhile (\<lambda>ob. \<not> ob_start_new_session ob) (rev obs).
     val (py_Decimal (ob_realized_pnl_delta_quote ob)))"

definition equities :: "PortfolioObservation list \<Rightarrow> rat list" where
  "equities obs = map (\<lambda>ob. val (py_Decimal (ob_equity_quote ob))) obs"

lemma loss_streak_snoc: "loss_streak (cs @ [c]) = streak_step (loss_streak cs) c"
  by (cases c) (simp_all add: loss_streak_def streak_step_def)

lemma managed_run_facts:
  "list_all valid_PortfolioObservation obs \<Longrightarrow> obs \<noteq> [] \<Longrightarrow> chain_run next_state None obs = Inr ss \<Longrightarrow>
     val (py_Decimal (mp_equity_quote (last ss))) = val (py_Decimal (ob_equity_quote (last obs)))
     \<and> val (py_Decimal (mp_peak_equity_quote (last ss))) = Max (set (equities obs))
     \<and> mp_consecutive_losses (last ss) = loss_streak (map ob_close_outcome obs)
     \<and> val (py_Decimal (mp_session_realized_pnl_quote (last ss))) = session_pnl obs"
proof (induction obs arbitrary: ss rule: rev_induct)
  case (snoc ob obs)
  then obtain ts s where ts: "chain_run next_state None obs = Inr ts" and ss: "ss = ts @ [s]"
    and s: "next_state (if ts = [] then None else Some (last ts)) ob = Inr s"
    by (auto simp: chain_run_snoc bind_r_eq_Inr)
  have n: "length ts = length obs" using managed.chain_run_linked [OF ts] by simp
  show ?case
  proof (cases "obs = []")
    case True
    then have "next_state None ob = Inr s" using s n by simp
    note F = next_state_first [OF this]
    show ?thesis
      using F by (simp add: True ss equities_def session_pnl_def loss_streak_def)
  next
    case False
    then have "ts \<noteq> []" using n by auto
    then have nx: "next_state (Some (last ts)) ob = Inr s" using s by simp
    note L = next_state_later [OF nx]
    note IH = snoc.IH [OF _ False ts]
    have v: "list_all valid_PortfolioObservation obs" "valid_PortfolioObservation ob" using snoc.prems(1) by simp_all
    have prev: "valid_ManagedPortfolioState (last ts)"
    proof -
      obtain us u where "obs = us @ [u]" using False by (cases obs rule: rev_cases) auto
      then show ?thesis using ts by (auto simp: chain_run_snoc bind_r_eq_Inr dest: next_state_valid)
    qed
    have "val (py_Decimal (mp_session_realized_pnl_quote s)) = session_pnl (obs @ [ob])"
      using L(9,10) IH v signed_sum_exact [OF valid_ManagedPortfolioStateD(16) [OF prev]
          valid_PortfolioObservationD(6) [OF v(2)]]
      by (cases "ob_start_new_session ob") (simp_all add: session_pnl_def)
    then show ?thesis
      using L IH v(1) False by (simp add: ss equities_def loss_streak_snoc max.commute)
  qed
qed simp

section \<open>Properties\<close>

definition example_observation :: "int \<Rightarrow> int \<Rightarrow> string \<Rightarrow> bool \<Rightarrow> PortfolioObservation" where
  "example_observation n time equity start =
     \<lparr> ob_symbol = ''BTCUSDT'', ob_sequence = n, ob_decision_time_ms = time, ob_equity_quote = equity,
       ob_cash_quote = equity, ob_position_quantity = ''0'', ob_mark_price = ''100'',
       ob_realized_pnl_delta_quote = ''0'', ob_close_outcome = NO_CLOSE, ob_start_new_session = start \<rparr>"

definition example_observations :: "PortfolioObservation list" where
  "example_observations = [example_observation 0 1704063600000 ''10000'' True,
     example_observation 1 1704067200000 ''10585.00500'' False]"

definition example_managed_first :: ManagedPortfolioState where
  "example_managed_first =
     \<lparr> mp_symbol = ''BTCUSDT'', mp_sequence = 0, mp_decision_time_ms = 1704063600000,
       mp_session_start_time_ms = 1704063600000, mp_session_start_equity_quote = ''10000'',
       mp_equity_quote = ''10000'', mp_cash_quote = ''10000'', mp_position_quantity = ''0'',
       mp_mark_price = ''100'', mp_peak_equity_quote = ''10000'', mp_session_realized_pnl_quote = ''0'',
       mp_consecutive_losses = 0, mp_open_positions = 0, mp_gross_exposure_quote = ''0'',
       mp_previous_state_sha256 = None,
       mp_observation_sha256 = observation_sha256 (example_observation 0 1704063600000 ''10000'' True) \<rparr>"

definition example_managed :: ManagedPortfolioState where
  "example_managed =
     \<lparr> mp_symbol = ''BTCUSDT'', mp_sequence = 1, mp_decision_time_ms = 1704067200000,
       mp_session_start_time_ms = 1704063600000, mp_session_start_equity_quote = ''10000'',
       mp_equity_quote = ''10585.00500'', mp_cash_quote = ''10585.00500'', mp_position_quantity = ''0'',
       mp_mark_price = ''100'', mp_peak_equity_quote = ''10585.00500'', mp_session_realized_pnl_quote = ''0'',
       mp_consecutive_losses = 0, mp_open_positions = 0, mp_gross_exposure_quote = ''0'',
       mp_previous_state_sha256 = Some (state_sha256 example_managed_first),
       mp_observation_sha256 = observation_sha256 (example_observation 1 1704067200000 ''10585.00500'' False) \<rparr>"

lemma state_digests_valid [simp]: "valid_digest (observation_sha256 ob)" "valid_digest (state_sha256 s)"
  by (simp_all add: observation_sha256_def state_sha256_def)

lemma example_observations_valid: "list_all valid_PortfolioObservation example_observations"
  by (simp add: example_observations_def example_observation_def valid_PortfolioObservation_def
      PortfolioObservation_post_init_def SYMBOLS_def interval_ms_def state_number_def py_eval)

lemma example_state_literals:
  "py_Decimal ''10000'' = Dec False 10000 0" "py_Decimal ''10585.00500'' = Dec False 1058500500 (-5)"
  "py_Decimal ''0'' = Dec False 0 0" "py_Decimal ''100'' = Dec False 100 0"
  "plain_unsigned ''10000''" "plain_unsigned ''10585.00500''" "plain_unsigned ''0''" "plain_unsigned ''100''"
  "plain_signed ''0''" "d_format (Dec False 10000 0) = ''10000''"
  "d_format (Dec False 1058500500 (-5)) = ''10585.00500''" "d_format (Dec False 0 0) = ''0''"
  "d_format (Dec False 100 0) = ''100''"
  by (simp_all add: py_eval)

lemma example_state_steps:
  "d_mul DECIMAL_PRECISION (Dec False 0 0) (Dec False 100 0) = Dec False 0 0"
  "d_add DECIMAL_PRECISION (Dec False 0 0) (Dec False 0 0) = Dec False 0 0"
  "d_max (Dec False 10000 0) (Dec False 1058500500 (-5)) = Dec False 1058500500 (-5)"
  "d_eq (Dec False 0 0) d_zero" "d_eq (Dec False 0 0) (Dec False 0 0)" "\<not> d_lt d_zero (Dec False 0 0)"
  "\<not> d_le (Dec False 10000 0) d_zero" "\<not> d_le (Dec False 1058500500 (-5)) d_zero"
  "\<not> d_le (Dec False 100 0) d_zero" "\<not> d_lt (Dec False 10000 0) (Dec False 10000 0)"
  "\<not> d_lt (Dec False 1058500500 (-5)) (Dec False 1058500500 (-5))" "d_zero = Dec False 0 0"
  by (simp_all add: py_eval)

lemmas example_state_eval = example_observation_def construct_eq_Inr SYMBOLS_def interval_ms_def
  state_number_def aligned_time_def Let_def example_state_literals example_state_steps(1-11)

lemma example_first_state:
  "next_state None (example_observation 0 1704063600000 ''10000'' True) = Inr example_managed_first"
proof -
  have "initial_facts (example_observation 0 1704063600000 ''10000'' True) =
      Inr (1704063600000, Dec False 10000 0, Dec False 0 0, Dec False 10000 0, 0, None)"
    by (simp add: initial_facts_def example_state_eval)
  moreover have "ManagedPortfolioState_post_init example_managed_first = Inr ()"
    by (simp add: ManagedPortfolioState_post_init_def example_managed_first_def example_state_eval)
  ultimately show ?thesis
    by (simp add: next_state_def construct_eq_Inr example_managed_first_def) (simp add: example_state_eval)
qed

lemma example_second_state:
  "next_state (Some example_managed_first) (example_observation 1 1704067200000 ''10585.00500'' False)
     = Inr example_managed"
proof -
  have "later_facts example_managed_first (example_observation 1 1704067200000 ''10585.00500'' False) =
      Inr (1704063600000, Dec False 10000 0, Dec False 0 0, Dec False 1058500500 (-5), 0,
        Some (state_sha256 example_managed_first))"
    by (simp add: later_facts_def) (simp add: example_managed_first_def example_state_eval)
  moreover have "ManagedPortfolioState_post_init example_managed = Inr ()"
    by (simp add: ManagedPortfolioState_post_init_def example_managed_def example_state_eval)
  ultimately show ?thesis
    by (simp add: next_state_def construct_eq_Inr example_managed_def) (simp add: example_state_eval)
qed

lemma example_managed_run:
  "chain_run next_state None example_observations = Inr [example_managed_first, example_managed]"
  by (simp add: example_observations_def example_first_state example_second_state)

text \<open>C26. What the managed state means: after any accepted sequence of observations the equity is the
last one observed, the peak is the greatest equity ever observed, the loss streak is the number of
losing closes since the last close that was not a loss, and the session profit is the exact sum of the
realized profits since the last session start.\<close>

theorem managed_state_summarises_history:
  assumes "list_all valid_PortfolioObservation obs" and "obs \<noteq> []"
    and "chain_run next_state None obs = Inr ss"
  shows "val (py_Decimal (mp_equity_quote (last ss))) = val (py_Decimal (ob_equity_quote (last obs)))
     \<and> val (py_Decimal (mp_peak_equity_quote (last ss)))
         = Max (set (map (\<lambda>ob. val (py_Decimal (ob_equity_quote ob))) obs))
     \<and> mp_consecutive_losses (last ss) = loss_streak (map ob_close_outcome obs)
     \<and> val (py_Decimal (mp_session_realized_pnl_quote (last ss)))
         = (\<Sum>ob\<leftarrow>takeWhile (\<lambda>ob. \<not> ob_start_new_session ob) (rev obs).
              val (py_Decimal (ob_realized_pnl_delta_quote ob)))"
  using managed_run_facts [OF assms] by (simp add: equities_def session_pnl_def)

theorem managed_state_summarises_history_witness:
  "val (py_Decimal (mp_peak_equity_quote example_managed)) = val (Dec False 1058500500 (-5))"
proof -
  have "val (py_Decimal (mp_peak_equity_quote example_managed))
      = Max (set (map (\<lambda>ob. val (py_Decimal (ob_equity_quote ob))) example_observations))"
    using managed_state_summarises_history [OF example_observations_valid _ example_managed_run]
    by (simp add: example_observations_def)
  then show ?thesis
    by (simp add: example_observations_def example_observation_def py_eval val_def d_int_def power_int_minus)
qed

section \<open>Tamper evidence\<close>

text \<open>
  The texts determine what is hashed: a written dictionary is read back with its keys
  sorted, so equal texts have equal values under every key.
\<close>

lemma json_dumps_field:
  assumes "json_dumps (JObj kvs) = json_dumps (JObj lvs)" "json_ok (JObj kvs)" "json_ok (JObj lvs)"
  shows "map_option json_sorted (map_of kvs k) = map_option json_sorted (map_of lvs k)"
proof -
  have "Some (json_sorted (JObj kvs)) = Some (json_sorted (JObj lvs))"
    unfolding json_loads_dumps [OF assms(2), symmetric] json_loads_dumps [OF assms(3), symmetric] assms(1) ..
  then have "json_get k (json_sorted (JObj kvs)) = json_get k (json_sorted (JObj lvs))" by simp
  then show ?thesis using assms(2,3) by (simp only: json_get_sorted)
qed

lemma CloseOutcome_value_inject [simp]: "CloseOutcome_value x = CloseOutcome_value y \<longleftrightarrow> x = y"
  by (cases x; cases y) simp_all

lemma observation_text_inject: "observation_text ob = observation_text ob' \<longleftrightarrow> ob = ob'"
proof
  assume e: "observation_text ob = observation_text ob'"
  note F = json_dumps_field [OF e [unfolded observation_text_def]]
  have "ob_symbol ob = ob_symbol ob'" using F [of "''symbol''"] by simp
  moreover have "ob_sequence ob = ob_sequence ob'" using F [of "''sequence''"] by simp
  moreover have "ob_decision_time_ms ob = ob_decision_time_ms ob'" using F [of "''decision_time_ms''"] by simp
  moreover have "ob_equity_quote ob = ob_equity_quote ob'" using F [of "''equity_quote''"] by simp
  moreover have "ob_cash_quote ob = ob_cash_quote ob'" using F [of "''cash_quote''"] by simp
  moreover have "ob_position_quantity ob = ob_position_quantity ob'" using F [of "''position_quantity''"] by simp
  moreover have "ob_mark_price ob = ob_mark_price ob'" using F [of "''mark_price''"] by simp
  moreover have "ob_realized_pnl_delta_quote ob = ob_realized_pnl_delta_quote ob'"
    using F [of "''realized_pnl_delta_quote''"] by simp
  moreover have "ob_close_outcome ob = ob_close_outcome ob'" using F [of "''close_outcome''"] by simp
  moreover have "ob_start_new_session ob = ob_start_new_session ob'" using F [of "''start_new_session''"] by simp
  ultimately show "ob = ob'" by (cases ob; cases ob') simp
qed simp

lemma json_ok_j_opt [simp]: "json_ok (j_opt JStr x)"
  by (simp add: j_opt_def split: option.split)

lemma state_text_inject: "state_text s = state_text t \<longleftrightarrow> s = t"
proof
  assume e: "state_text s = state_text t"
  note F = json_dumps_field [OF e [unfolded state_text_def]]
  have a: "mp_symbol s = mp_symbol t" using F [of "''symbol''"] by simp
  moreover have "mp_sequence s = mp_sequence t" using F [of "''sequence''"] by simp
  moreover have "mp_decision_time_ms s = mp_decision_time_ms t" using F [of "''decision_time_ms''"] by simp
  moreover have "mp_session_start_time_ms s = mp_session_start_time_ms t"
    using F [of "''session_start_time_ms''"] by simp
  moreover have "mp_session_start_equity_quote s = mp_session_start_equity_quote t"
    using F [of "''session_start_equity_quote''"] by simp
  moreover have "mp_equity_quote s = mp_equity_quote t" using F [of "''equity_quote''"] by simp
  moreover have "mp_cash_quote s = mp_cash_quote t" using F [of "''cash_quote''"] by simp
  moreover have "mp_position_quantity s = mp_position_quantity t" using F [of "''position_quantity''"] by simp
  moreover have "mp_mark_price s = mp_mark_price t" using F [of "''mark_price''"] by simp
  moreover have "mp_peak_equity_quote s = mp_peak_equity_quote t" using F [of "''peak_equity_quote''"] by simp
  moreover have "mp_session_realized_pnl_quote s = mp_session_realized_pnl_quote t"
    using F [of "''session_realized_pnl_quote''"] by simp
  moreover have "mp_consecutive_losses s = mp_consecutive_losses t" using F [of "''consecutive_losses''"] by simp
  moreover have "mp_open_positions s = mp_open_positions t" using F [of "''open_positions''"] by simp
  moreover have "mp_gross_exposure_quote s = mp_gross_exposure_quote t"
    using F [of "''gross_exposure_quote''"] by simp
  moreover have "mp_previous_state_sha256 s = mp_previous_state_sha256 t"
    using F [of "''previous_state_sha256''"]
    by (cases "mp_previous_state_sha256 s"; cases "mp_previous_state_sha256 t") (simp_all add: j_opt_def)
  moreover have "mp_observation_sha256 s = mp_observation_sha256 t" using F [of "''observation_sha256''"] by simp
  ultimately show "s = t" by (cases s; cases t) simp
qed simp

text \<open>Two different texts with the same SHA-256 digest.\<close>

definition sha256_collision :: "string \<Rightarrow> string \<Rightarrow> bool" where
  "sha256_collision a b \<longleftrightarrow> a \<noteq> b \<and> sha256_hexdigest a = sha256_hexdigest b"

lemma next_state_observation: "next_state p ob = Inr s \<Longrightarrow> mp_observation_sha256 s = observation_sha256 ob"
  by (auto simp: next_state_def bind_r_eq_Inr construct_eq_Inr Let_def)

lemma run_observations:
  "chain_run next_state p obs = Inr ss \<Longrightarrow> map mp_observation_sha256 ss = map observation_sha256 obs"
  by (induction obs arbitrary: p ss) (auto simp: bind_r_eq_Inr dest: next_state_observation)

lemma run_last_sequence:
  assumes "chain_run next_state None obs = Inr ss" "obs \<noteq> []"
  shows "mp_sequence (last ss) = int (length obs) - 1"
proof -
  have l: "managed.linked None ss" and n: "length ss = length obs" using managed.chain_run_linked [OF assms(1)] by auto
  then have "last ss = ss ! (length ss - 1)" using assms(2) by (metis last_conv_nth length_0_conv)
  then show ?thesis using managed.linked_nth [OF l, of "length ss - 1"] n assms(2) by (simp add: of_nat_diff Suc_le_eq)
qed

text \<open>The same history with one more unit of cash in its first observation.\<close>

definition altered_observations :: "PortfolioObservation list" where
  "altered_observations = example_observations
     [0 := example_observation 0 1704063600000 ''10000'' True \<lparr> ob_cash_quote := ''10001'' \<rparr>]"

definition altered_first :: ManagedPortfolioState where
  "altered_first = example_managed_first \<lparr> mp_cash_quote := ''10001'',
     mp_observation_sha256 := observation_sha256
       (example_observation 0 1704063600000 ''10000'' True \<lparr> ob_cash_quote := ''10001'' \<rparr>) \<rparr>"

definition altered_managed :: ManagedPortfolioState where
  "altered_managed = example_managed \<lparr> mp_previous_state_sha256 := Some (state_sha256 altered_first) \<rparr>"

lemma altered_literals:
  "py_Decimal ''10001'' = Dec False 10001 0" "plain_unsigned ''10001''" "d_format (Dec False 10001 0) = ''10001''"
  by (simp_all add: py_eval)

lemma altered_run:
  "chain_run next_state None altered_observations = Inr [altered_first, altered_managed]"
proof -
  let ?ob = "example_observation 0 1704063600000 ''10000'' True \<lparr> ob_cash_quote := ''10001'' \<rparr>"
  have "initial_facts ?ob = Inr (1704063600000, Dec False 10000 0, Dec False 0 0, Dec False 10000 0, 0, None)"
    by (simp add: initial_facts_def example_state_eval)
  moreover have "ManagedPortfolioState_post_init altered_first = Inr ()"
    by (simp add: ManagedPortfolioState_post_init_def altered_first_def example_managed_first_def
        example_state_eval altered_literals)
  ultimately have a: "next_state None ?ob = Inr altered_first"
    by (simp add: next_state_def construct_eq_Inr altered_first_def example_managed_first_def)
      (simp add: example_state_eval altered_literals)
  have "later_facts altered_first (example_observation 1 1704067200000 ''10585.00500'' False) =
      Inr (1704063600000, Dec False 10000 0, Dec False 0 0, Dec False 1058500500 (-5), 0,
        Some (state_sha256 altered_first))"
    by (simp add: later_facts_def) (simp add: altered_first_def example_managed_first_def example_state_eval)
  moreover have "ManagedPortfolioState_post_init altered_managed = Inr ()"
    by (simp add: ManagedPortfolioState_post_init_def altered_managed_def example_managed_def example_state_eval)
  ultimately have b: "next_state (Some altered_first) (example_observation 1 1704067200000 ''10585.00500'' False)
      = Inr altered_managed"
    by (simp add: next_state_def construct_eq_Inr altered_managed_def example_managed_def)
      (simp add: example_state_eval)
  show ?thesis using a b by (simp add: altered_observations_def example_observations_def)
qed

text \<open>C31. The history is tamper evident: when two accepted histories of observations, of whatever lengths,
end in the same managed state, then they are the same history, observation by observation, or the digests
of the chain exhibit a SHA-256 collision at some position: two different canonical observation texts, or
two different canonical state texts, with the same digest. An edit of any field of any earlier observation
therefore shows in the last state.\<close>

theorem managed_history_tamper_evident:
  assumes "chain_run next_state None obs = Inr ss" and "chain_run next_state None obs' = Inr ts"
    and "obs \<noteq> []" and "obs' \<noteq> []"
  shows "last ss \<noteq> last ts \<or> obs = obs' \<or>
    (\<exists>i < length obs. sha256_collision (observation_text (obs ! i)) (observation_text (obs' ! i))
       \<or> sha256_collision (state_text (ss ! i)) (state_text (ts ! i)))"
proof (cases "last ss = last ts \<and> obs \<noteq> obs'")
  case True
  have l: "managed.linked None ss" "managed.linked None ts" "length ss = length obs" "length ts = length obs'"
    using managed.chain_run_linked [OF assms(1)] managed.chain_run_linked [OF assms(2)] by simp_all
  have n: "length obs = length obs'"
    using run_last_sequence [OF assms(1,3)] run_last_sequence [OF assms(2,4)] True by simp
  show ?thesis
  proof (cases "ss = ts")
    case False
    then obtain i where "i < length ss" "ss ! i \<noteq> ts ! i" "state_sha256 (ss ! i) = state_sha256 (ts ! i)"
      using managed.tamper_evident [OF l(1,2)] l n True by auto
    then show ?thesis using l by (auto simp: sha256_collision_def state_text_inject state_sha256_def)
  next
    case same: True
    obtain i where i: "i < length obs" "obs ! i \<noteq> obs' ! i" using True n nth_equalityI by blast
    have "map observation_sha256 obs = map observation_sha256 obs'"
      using run_observations [OF assms(1)] run_observations [OF assms(2)] same by simp
    then have "observation_sha256 (obs ! i) = observation_sha256 (obs' ! i)" using i(1) n by (metis nth_map)
    then show ?thesis using i by (auto simp: sha256_collision_def observation_text_inject observation_sha256_def)
  qed
qed auto

theorem managed_history_tamper_evident_witness:
  "\<not> (example_managed = altered_managed
     \<and> \<not> (\<exists>i < 2. sha256_collision (observation_text (example_observations ! i)) (observation_text (altered_observations ! i))
        \<or> sha256_collision (state_text ([example_managed_first, example_managed] ! i))
            (state_text ([altered_first, altered_managed] ! i))))"
proof -
  have "example_observations \<noteq> []" "altered_observations \<noteq> []" "length example_observations = 2"
    "example_observations \<noteq> altered_observations"
    by (simp_all add: altered_observations_def example_observations_def example_observation_def)
  then show ?thesis
    using managed_history_tamper_evident [OF example_managed_run altered_run] by auto
qed

end
