(* ===== verification/Risk_Sizing.thy ===== *)
theory Risk_Sizing
  imports Risk_Contracts Backtest_Costs
begin

text \<open>
  \<^verbatim>\<open>yatl/risk/sizing.py\<close> and \<^verbatim>\<open>yatl/risk/limits.py\<close>: the largest stepped quantity
  whose cost-aware stop loss stays within the risk budget, and the cash and exposure limits
  of the resulting entry.
\<close>

section \<open>Sizing\<close>

definition FEE_BPS :: dec where "FEE_BPS = Dec False 10 0"
definition SLIPPAGE_BPS :: dec where "SLIPPAGE_BPS = Dec False 5 0"
definition QUANTITY_STEP :: dec where "QUANTITY_STEP = Dec False 1 (-6)"

record SizeValues =
  sv_quantity :: dec
  sv_risk_budget_quote :: dec
  sv_entry_execution_price :: dec
  sv_stop_execution_price :: dec
  sv_loss_per_unit_quote :: dec
  sv_planned_loss_quote :: dec
  sv_fee_quote :: dec
  sv_slippage_quote :: dec

definition entry_eligible :: "RiskRequest \<Rightarrow> bool" where
  "entry_eligible request \<longleftrightarrow>
     sd_action (rr_strategy_decision request) = SA_ENTER_LONG
     \<and> sd_setup (rr_strategy_decision request) \<noteq> None
     \<and> rr_evidence_label request = QUALIFIED_FOR_P4_RESEARCH
     \<and> \<not> pr_kill_switch_active (rr_portfolio request)
     \<and> pr_open_positions (rr_portfolio request) = 0"

definition entry_values :: "RiskRequest \<Rightarrow> SizeValues result" where
  "entry_values request =
     (if \<not> entry_eligible request
      then Inl (RiskSizingError ''Entry request is not eligible for sizing'')
      else
        let p = DECIMAL_PRECISION;
            setup = the (sd_setup (rr_strategy_decision request));
            equity = py_Decimal (pr_equity_quote (rr_portfolio request));
            entry = py_Decimal (ls_reference_price setup);
            stop = py_Decimal (ls_invalidation_price setup);
            risk_fraction = py_Decimal (rp_risk_per_trade_fraction (rr_policy request));
            fee_rate = d_div p FEE_BPS BASIS_POINTS;
            slippage_rate = d_div p SLIPPAGE_BPS BASIS_POINTS;
            risk_budget = d_mul p equity risk_fraction;
            entry_execution = d_mul p entry (d_add p d_one slippage_rate);
            stop_execution = d_mul p stop (d_sub p d_one slippage_rate)
        in if d_le stop_execution d_zero \<or> d_le entry_execution stop_execution
           then Inl (RiskSizingError ''Cost-adjusted entry and stop are invalid'')
           else
             let fee_per_unit = d_mul p (d_add p entry_execution stop_execution) fee_rate;
                 slippage_per_unit = d_mul p (d_add p entry stop) slippage_rate;
                 loss_per_unit = d_add p (d_sub p entry_execution stop_execution) fee_per_unit
             in if d_le risk_budget d_zero \<or> d_le loss_per_unit d_zero
                then Inl (RiskSizingError ''Risk budget or loss per unit is invalid'')
                else
                  let steps = d_floor (d_div p (d_div p risk_budget loss_per_unit) QUANTITY_STEP);
                      quantity = d_mul p steps QUANTITY_STEP
                  in if d_le quantity d_zero
                     then Inl (RiskSizingError ''Risk budget is below the minimum quantity step'')
                     else
                       let planned_loss = d_mul p quantity loss_per_unit;
                           total_fee = d_mul p quantity fee_per_unit;
                           total_slippage = d_mul p quantity slippage_per_unit
                       in if d_lt risk_budget planned_loss
                          then Inl (RiskSizingError ''Rounded quantity exceeds the loss budget'')
                          else Inr
                            \<lparr> sv_quantity = quantity, sv_risk_budget_quote = risk_budget,
                              sv_entry_execution_price = entry_execution,
                              sv_stop_execution_price = stop_execution,
                              sv_loss_per_unit_quote = loss_per_unit,
                              sv_planned_loss_quote = planned_loss, sv_fee_quote = total_fee,
                              sv_slippage_quote = total_slippage \<rparr>)"

record PositionSize =
  pz_request :: RiskRequest
  pz_quantity :: string
  pz_risk_budget_quote :: string
  pz_entry_execution_price :: string
  pz_stop_execution_price :: string
  pz_loss_per_unit_quote :: string
  pz_planned_loss_quote :: string
  pz_fee_quote :: string
  pz_slippage_quote :: string

text \<open>A field is canonical when it is a plain decimal and the text of the expected value.\<close>

definition canonical_field :: "string \<times> dec \<Rightarrow> bool" where
  "canonical_field f \<longleftrightarrow> plain_unsigned (fst f) \<and> fst f = d_format (snd f)"

definition size_fields :: "PositionSize \<Rightarrow> SizeValues \<Rightarrow> (string \<times> dec) list" where
  "size_fields z v =
     [(pz_quantity z, sv_quantity v), (pz_risk_budget_quote z, sv_risk_budget_quote v),
      (pz_entry_execution_price z, sv_entry_execution_price v),
      (pz_stop_execution_price z, sv_stop_execution_price v),
      (pz_loss_per_unit_quote z, sv_loss_per_unit_quote v),
      (pz_planned_loss_quote z, sv_planned_loss_quote v),
      (pz_fee_quote z, sv_fee_quote v), (pz_slippage_quote z, sv_slippage_quote v)]"

definition PositionSize_post_init :: "PositionSize \<Rightarrow> unit result" where
  "PositionSize_post_init z =
     bind_r (entry_values (pz_request z)) (\<lambda>expected.
     if \<not> list_all canonical_field (size_fields z expected)
     then Inl (RiskSizingError ''Position-size result is noncanonical or inconsistent'')
     else if d_lt (py_Decimal (pz_risk_budget_quote z)) (py_Decimal (pz_planned_loss_quote z))
     then Inl (RiskSizingError ''Position-size result exceeds its loss budget'')
     else
       let next_loss = d_mul DECIMAL_PRECISION
             (d_add DECIMAL_PRECISION (py_Decimal (pz_quantity z)) QUANTITY_STEP)
             (py_Decimal (pz_loss_per_unit_quote z))
       in if d_le next_loss (py_Decimal (pz_risk_budget_quote z))
          then Inl (RiskSizingError ''Position size was not rounded to the maximum safe step'')
          else Inr ())"

definition size_entry :: "RiskRequest \<Rightarrow> PositionSize result" where
  "size_entry request =
     bind_r (entry_values request) (\<lambda>v.
     construct PositionSize_post_init
       \<lparr> pz_request = request, pz_quantity = d_format (sv_quantity v),
         pz_risk_budget_quote = d_format (sv_risk_budget_quote v),
         pz_entry_execution_price = d_format (sv_entry_execution_price v),
         pz_stop_execution_price = d_format (sv_stop_execution_price v),
         pz_loss_per_unit_quote = d_format (sv_loss_per_unit_quote v),
         pz_planned_loss_quote = d_format (sv_planned_loss_quote v),
         pz_fee_quote = d_format (sv_fee_quote v),
         pz_slippage_quote = d_format (sv_slippage_quote v) \<rparr>)"

definition pz_request_sha256 :: "PositionSize \<Rightarrow> string" where
  "pz_request_sha256 z = request_sha256 (pz_request z)"

definition valid_PositionSize :: "PositionSize \<Rightarrow> bool" where
  "valid_PositionSize z \<longleftrightarrow> PositionSize_post_init z = Inr () \<and> valid_RiskRequest (pz_request z)"

section \<open>Limits\<close>

datatype LimitStatus = LIMIT_PASS | LIMIT_REJECT

datatype LimitReason = WITHIN_LIMITS | CASH_INSUFFICIENT | NOTIONAL_OR_EXPOSURE_LIMIT

record LimitValues =
  lv_status :: LimitStatus
  lv_reason :: LimitReason
  lv_entry_notional_quote :: dec
  lv_entry_fee_quote :: dec
  lv_cash_required_quote :: dec
  lv_position_limit_quote :: dec
  lv_gross_exposure_before_quote :: dec
  lv_gross_exposure_after_quote :: dec
  lv_gross_exposure_limit_quote :: dec

definition limit_values :: "PositionSize \<Rightarrow> LimitValues result" where
  "limit_values position_size =
     (let request = pz_request position_size; state = rr_portfolio request; policy = rr_policy request in
      if pr_open_positions state \<noteq> 0 \<or> \<not> d_eq (py_Decimal (pr_position_quantity state)) d_zero
      then Inl (RiskLimitError ''Entry limit assessment requires a flat portfolio'')
      else
        let p = DECIMAL_PRECISION;
            quantity = py_Decimal (pz_quantity position_size);
            entry_execution = py_Decimal (pz_entry_execution_price position_size);
            equity = py_Decimal (pr_equity_quote state);
            cash = py_Decimal (pr_cash_quote state);
            entry_notional = d_mul p quantity entry_execution;
            entry_fee = d_div p (d_mul p entry_notional FEE_BPS) BASIS_POINTS;
            cash_required = d_add p entry_notional entry_fee;
            position_limit = d_mul p equity (py_Decimal (rp_max_position_fraction policy));
            gross_before = d_mul p (py_Decimal (pr_position_quantity state)) (py_Decimal (pr_mark_price state));
            gross_after = d_add p gross_before entry_notional;
            gross_limit = d_mul p equity (py_Decimal (rp_max_gross_exposure_fraction policy));
            (status, reason) =
              (if d_lt position_limit entry_notional \<or> d_lt gross_limit gross_after
               then (LIMIT_REJECT, NOTIONAL_OR_EXPOSURE_LIMIT)
               else if d_lt cash cash_required then (LIMIT_REJECT, CASH_INSUFFICIENT)
               else (LIMIT_PASS, WITHIN_LIMITS))
        in Inr \<lparr> lv_status = status, lv_reason = reason, lv_entry_notional_quote = entry_notional,
             lv_entry_fee_quote = entry_fee, lv_cash_required_quote = cash_required,
             lv_position_limit_quote = position_limit, lv_gross_exposure_before_quote = gross_before,
             lv_gross_exposure_after_quote = gross_after, lv_gross_exposure_limit_quote = gross_limit \<rparr>)"

record EntryLimitAssessment =
  la_position_size :: PositionSize
  la_status :: LimitStatus
  la_reason :: LimitReason
  la_entry_notional_quote :: string
  la_entry_fee_quote :: string
  la_cash_required_quote :: string
  la_position_limit_quote :: string
  la_gross_exposure_before_quote :: string
  la_gross_exposure_after_quote :: string
  la_gross_exposure_limit_quote :: string

definition limit_fields :: "EntryLimitAssessment \<Rightarrow> LimitValues \<Rightarrow> (string \<times> dec) list" where
  "limit_fields a v =
     [(la_entry_notional_quote a, lv_entry_notional_quote v),
      (la_entry_fee_quote a, lv_entry_fee_quote v),
      (la_cash_required_quote a, lv_cash_required_quote v),
      (la_position_limit_quote a, lv_position_limit_quote v),
      (la_gross_exposure_before_quote a, lv_gross_exposure_before_quote v),
      (la_gross_exposure_after_quote a, lv_gross_exposure_after_quote v),
      (la_gross_exposure_limit_quote a, lv_gross_exposure_limit_quote v)]"

definition EntryLimitAssessment_post_init :: "EntryLimitAssessment \<Rightarrow> unit result" where
  "EntryLimitAssessment_post_init a =
     bind_r (limit_values (la_position_size a)) (\<lambda>expected.
     if la_status a \<noteq> lv_status expected \<or> la_reason a \<noteq> lv_reason expected
     then Inl (RiskLimitError ''Limit status or reason is inconsistent'')
     else if \<not> list_all canonical_field (limit_fields a expected)
     then Inl (RiskLimitError ''Limit assessment is noncanonical or inconsistent'')
     else Inr ())"

definition assess_entry_limits :: "PositionSize \<Rightarrow> EntryLimitAssessment result" where
  "assess_entry_limits position_size =
     bind_r (limit_values position_size) (\<lambda>v.
     construct EntryLimitAssessment_post_init
       \<lparr> la_position_size = position_size, la_status = lv_status v, la_reason = lv_reason v,
         la_entry_notional_quote = d_format (lv_entry_notional_quote v),
         la_entry_fee_quote = d_format (lv_entry_fee_quote v),
         la_cash_required_quote = d_format (lv_cash_required_quote v),
         la_position_limit_quote = d_format (lv_position_limit_quote v),
         la_gross_exposure_before_quote = d_format (lv_gross_exposure_before_quote v),
         la_gross_exposure_after_quote = d_format (lv_gross_exposure_after_quote v),
         la_gross_exposure_limit_quote = d_format (lv_gross_exposure_limit_quote v) \<rparr>)"

definition la_request_sha256 :: "EntryLimitAssessment \<Rightarrow> string" where
  "la_request_sha256 a = pz_request_sha256 (la_position_size a)"

definition valid_EntryLimitAssessment :: "EntryLimitAssessment \<Rightarrow> bool" where
  "valid_EntryLimitAssessment a \<longleftrightarrow>
     EntryLimitAssessment_post_init a = Inr () \<and> valid_PositionSize (la_position_size a)"

section \<open>Exact values\<close>

lemma canonical_val: "canonical_field (s, d) \<Longrightarrow> val (py_Decimal s) = val d"
  by (simp add: canonical_field_def)

text \<open>The product of two plain numbers is exact.\<close>

lemma plain_product_exact:
  assumes "plain_unsigned a" "plain_unsigned b"
  shows "val (d_mul DECIMAL_PRECISION (py_Decimal a) (py_Decimal b)) = val (py_Decimal a) * val (py_Decimal b)"
    "on_grid (-80) (val (py_Decimal a) * val (py_Decimal b))"
    "0 \<le> val (py_Decimal a) * val (py_Decimal b)"
    "val (py_Decimal a) * val (py_Decimal b) < 10 ^ 80"
proof -
  note A = grid_plain [OF assms(1)] and B = grid_plain [OF assms(2)]
  show g: "on_grid (-80) (val (py_Decimal a) * val (py_Decimal b))"
    using on_grid_mult [of "-40" _ "-40"] A B by simp
  show n: "0 \<le> val (py_Decimal a) * val (py_Decimal b)" using A B by simp
  have "val (py_Decimal a) * val (py_Decimal b) < 10 ^ 40 * 10 ^ 40"
    using A B by (intro mult_strict_mono') auto
  then show u: "val (py_Decimal a) * val (py_Decimal b) < 10 ^ 80" by simp
  have "representable DECIMAL_PRECISION (val (py_Decimal a) * val (py_Decimal b))"
    by (rule representable_256 [OF g, of 80]) (use n u in simp_all)
  then show "val (d_mul DECIMAL_PRECISION (py_Decimal a) (py_Decimal b)) = val (py_Decimal a) * val (py_Decimal b)"
    by (simp add: val_d_mul)
qed

lemma frozen_rates:
  "val (d_div DECIMAL_PRECISION FEE_BPS BASIS_POINTS) = 1 / 1000"
  "val (d_div DECIMAL_PRECISION SLIPPAGE_BPS BASIS_POINTS) = 1 / 2000"
  "val FEE_BPS = 10" "val QUANTITY_STEP = 1 / 1000000"
proof -
  have r: "rate_ok FEE_BPS" "rate_ok SLIPPAGE_BPS"
    using on_grid_coarser [OF on_grid_int [of 10], of "-40"] on_grid_coarser [OF on_grid_int [of 5], of "-40"]
    by (simp_all add: rate_ok_def FEE_BPS_def SLIPPAGE_BPS_def val_def d_int_def)
  show "val (d_div DECIMAL_PRECISION FEE_BPS BASIS_POINTS) = 1 / 1000"
    "val (d_div DECIMAL_PRECISION SLIPPAGE_BPS BASIS_POINTS) = 1 / 2000"
    using val_bps_rate(1) [OF r(1)] val_bps_rate(1) [OF r(2)]
    by (simp_all add: FEE_BPS_def SLIPPAGE_BPS_def val_def d_int_def)
  show "val FEE_BPS = 10" "val QUANTITY_STEP = 1 / 1000000"
    by (simp_all add: FEE_BPS_def QUANTITY_STEP_def val_def d_int_def power_int_minus)
qed

lemma frozen_fractions:
  "plain_unsigned ''0.01''" "val (py_Decimal ''0.01'') = 1 / 100"
  "plain_unsigned ''0.25''" "val (py_Decimal ''0.25'') = 1 / 4"
  by (simp_all add: py_eval val_def power_int_minus)

text \<open>Loss of one unit that is bought at the entry and sold at the stop, all costs included.\<close>

definition exact_entry :: "LongSetup \<Rightarrow> rat" where
  "exact_entry s = val (py_Decimal (ls_reference_price s)) * (1 + 1 / 2000)"

definition exact_stop :: "LongSetup \<Rightarrow> rat" where
  "exact_stop s = val (py_Decimal (ls_invalidation_price s)) * (1 - 1 / 2000)"

definition exact_unit_loss :: "LongSetup \<Rightarrow> rat" where
  "exact_unit_loss s = exact_entry s - exact_stop s + (exact_entry s + exact_stop s) / 1000"

lemma on_grid_div_int:
  "on_grid z x \<Longrightarrow> on_grid (z - 4) (x * (of_int k / 10000))"
  using on_grid_bps [of z "x * of_int k"] on_grid_mult [of z x 0 "of_int k"] on_grid_int [of k] by simp

lemma exact_setup_bounds:
  assumes "valid_LongSetup s"
  shows "on_grid (-44) (exact_entry s)" "on_grid (-44) (exact_stop s)" "on_grid (-48) (exact_unit_loss s)"
    "0 < exact_stop s" "exact_stop s < exact_entry s" "exact_entry s < 10 ^ 41" "0 < exact_unit_loss s"
    "exact_unit_loss s < 10 ^ 42"
proof -
  let ?e = "val (py_Decimal (ls_reference_price s))" and ?t = "val (py_Decimal (ls_invalidation_price s))"
  have v: "on_grid (-40) ?e" "on_grid (-40) ?t" "?e < 10 ^ 40" "0 < ?t" "?t < ?e"
    using assms grid_plain unfolding valid_LongSetup_iff by blast+
  show e: "on_grid (-44) (exact_entry s)" and t: "on_grid (-44) (exact_stop s)"
    using on_grid_div_int [OF v(1), of 10005] on_grid_div_int [OF v(2), of 9995]
    by (simp_all add: exact_entry_def exact_stop_def algebra_simps)
  have "on_grid (-48) ((exact_entry s + exact_stop s) * (of_int 10 / 10000))"
    using on_grid_div_int [OF on_grid_add [OF e t], of 10] by simp
  moreover have "on_grid (-48) (exact_entry s - exact_stop s)"
    using on_grid_coarser [OF on_grid_diff [OF e t]] by simp
  ultimately show "on_grid (-48) (exact_unit_loss s)"
    using on_grid_add by (force simp: exact_unit_loss_def)
  show a: "0 < exact_stop s" "exact_stop s < exact_entry s" "exact_entry s < 10 ^ 41"
    using v(3-5) by (simp_all add: exact_entry_def exact_stop_def)
  show "0 < exact_unit_loss s"
    unfolding exact_unit_loss_def using a(1,2) by (intro add_pos_pos divide_pos_pos) simp_all
  have "(exact_entry s + exact_stop s) / 1000 \<le> exact_entry s + exact_stop s"
    using a(1,2) by (simp add: divide_le_eq)
  then have "exact_unit_loss s \<le> exact_entry s - exact_stop s + (exact_entry s + exact_stop s)"
    unfolding exact_unit_loss_def by (rule add_left_mono)
  then show "exact_unit_loss s < 10 ^ 42" using a(3) by simp
qed

lemma setup_prices_exact:
  assumes "valid_LongSetup s"
  defines "rate \<equiv> d_div DECIMAL_PRECISION SLIPPAGE_BPS BASIS_POINTS"
  shows "val (d_mul DECIMAL_PRECISION (py_Decimal (ls_reference_price s)) (d_add DECIMAL_PRECISION d_one rate)) = exact_entry s"
    "val (d_mul DECIMAL_PRECISION (py_Decimal (ls_invalidation_price s)) (d_sub DECIMAL_PRECISION d_one rate)) = exact_stop s"
proof -
  note B = exact_setup_bounds [OF assms(1)]
  have "representable DECIMAL_PRECISION (1 + 1 / 2000)" "representable DECIMAL_PRECISION (1 - 1 / 2000)"
    using on_grid_bps [OF on_grid_int [of 10005]] on_grid_bps [OF on_grid_int [of 9995]]
    by (auto intro!: representable_256 [of "-4" _ 1])
  then have m: "val (d_add DECIMAL_PRECISION d_one rate) = 1 + 1 / 2000"
    "val (d_sub DECIMAL_PRECISION d_one rate) = 1 - 1 / 2000"
    by (simp_all add: rate_def val_d_add val_d_sub frozen_rates)
  have "representable DECIMAL_PRECISION (exact_entry s)" "representable DECIMAL_PRECISION (exact_stop s)"
    using representable_256 [OF B(1), of 41] representable_256 [OF B(2), of 41] B(4-6) by simp_all
  then show "val (d_mul DECIMAL_PRECISION (py_Decimal (ls_reference_price s)) (d_add DECIMAL_PRECISION d_one rate)) = exact_entry s"
    "val (d_mul DECIMAL_PRECISION (py_Decimal (ls_invalidation_price s)) (d_sub DECIMAL_PRECISION d_one rate)) = exact_stop s"
    unfolding exact_entry_def exact_stop_def by (simp_all only: val_d_mul m precision_pos)
qed

lemma unit_loss_exact:
  assumes "valid_LongSetup s" "val a = exact_entry s" "val b = exact_stop s"
  shows "val (d_add DECIMAL_PRECISION (d_sub DECIMAL_PRECISION a b)
      (d_mul DECIMAL_PRECISION (d_add DECIMAL_PRECISION a b) (d_div DECIMAL_PRECISION FEE_BPS BASIS_POINTS)))
    = exact_unit_loss s"
proof -
  note B = exact_setup_bounds [OF assms(1)]
  let ?E = "exact_entry s" and ?S = "exact_stop s"
  have p: "on_grid (-44) (?E + ?S)" "on_grid (-44) (?E - ?S)" using B(1,2) by (auto intro: on_grid_add on_grid_diff)
  have f: "on_grid (-48) ((?E + ?S) / 1000)" using on_grid_div_int [OF p(1), of 10] by simp
  have b: "\<bar>?E + ?S\<bar> < 10 ^ 42" "\<bar>?E - ?S\<bar> < 10 ^ 42" "\<bar>(?E + ?S) / 1000\<bar> < 10 ^ 42"
    using B(4-6) by simp_all
  have "representable DECIMAL_PRECISION (?E + ?S)" "representable DECIMAL_PRECISION (?E - ?S)"
    "representable DECIMAL_PRECISION ((?E + ?S) / 1000)" "representable DECIMAL_PRECISION (exact_unit_loss s)"
    using representable_256 [OF p(1) b(1)] representable_256 [OF p(2) b(2)] representable_256 [OF f b(3)]
      representable_256 [OF B(3), of 42] B(7,8) by simp_all
  then show ?thesis
    by (simp add: val_d_add val_d_sub val_d_mul frozen_rates assms exact_unit_loss_def)
qed

lemma entry_values_exact:
  assumes "valid_RiskRequest r" "entry_values r = Inr v"
  obtains s where "sd_setup (rr_strategy_decision r) = Some s" "valid_LongSetup s" "entry_eligible r"
    "val (sv_entry_execution_price v) = exact_entry s" "val (sv_stop_execution_price v) = exact_stop s"
    "val (sv_loss_per_unit_quote v) = exact_unit_loss s"
    "val (sv_risk_budget_quote v) = val (py_Decimal (pr_equity_quote (rr_portfolio r))) / 100"
    "0 < val (sv_quantity v)"
    "sv_planned_loss_quote v = d_mul DECIMAL_PRECISION (sv_quantity v) (sv_loss_per_unit_quote v)"
    "val (sv_planned_loss_quote v) \<le> val (sv_risk_budget_quote v)"
proof -
  have el: "entry_eligible r" using assms(2) by (auto simp: entry_values_def split: if_splits)
  then obtain s where s: "sd_setup (rr_strategy_decision r) = Some s" "valid_LongSetup s"
    using valid_decision_setup [OF valid_RiskRequestD(7) [OF assms(1)]] by (auto simp: entry_eligible_def)
  note P = setup_prices_exact [OF s(2)]
  have pol: "rp_risk_per_trade_fraction (rr_policy r) = ''0.01''"
    using valid_RiskRequestD(6) [OF assms(1)] by (simp add: default_policy_def)
  have eq: "plain_unsigned (pr_equity_quote (rr_portfolio r))"
    using valid_PortfolioRiskStateD(3) [OF valid_RiskRequestD(5) [OF assms(1)]] .
  show thesis
    using assms(2) el s P unit_loss_exact [OF s(2) P] plain_product_exact(1) [OF eq frozen_fractions(1)]
    by (intro that [OF s el])
      (clarsimp simp: entry_values_def Let_def pol frozen_fractions(2) dec_val not_le not_less split: if_splits)+
qed

section \<open>The size and the limits, exactly\<close>

lemma valid_PositionSizeD:
  assumes "valid_PositionSize z"
  obtains v where "entry_values (pz_request z) = Inr v" "valid_RiskRequest (pz_request z)"
    "list_all canonical_field (size_fields z v)"
    "val (py_Decimal (pz_planned_loss_quote z)) \<le> val (py_Decimal (pz_risk_budget_quote z))"
    "val (py_Decimal (pz_risk_budget_quote z)) <
       val (d_mul DECIMAL_PRECISION (d_add DECIMAL_PRECISION (py_Decimal (pz_quantity z)) QUANTITY_STEP)
         (py_Decimal (pz_loss_per_unit_quote z)))"
  using assms
  by (auto simp: valid_PositionSize_def PositionSize_post_init_def bind_r_eq_Inr Let_def dec_val
      not_less not_le split: if_splits)

lemma next_step_exact:
  assumes "plain_unsigned q" "plain_unsigned u"
  shows "val (d_mul DECIMAL_PRECISION (d_add DECIMAL_PRECISION (py_Decimal q) QUANTITY_STEP) (py_Decimal u))
    = (val (py_Decimal q) + 1 / 1000000) * val (py_Decimal u)"
proof -
  note Q = grid_plain [OF assms(1)] and U = grid_plain [OF assms(2)]
  have st: "on_grid (-40) (1 / 1000000 :: rat)"
    using on_grid_val [of "-40" QUANTITY_STEP] unfolding frozen_rates(4) by (simp add: QUANTITY_STEP_def)
  have g: "on_grid (-40) (val (py_Decimal q) + 1 / 1000000)" using Q st by (auto intro: on_grid_add)
  have b: "0 \<le> val (py_Decimal q) + 1 / 1000000" "val (py_Decimal q) + 1 / 1000000 < 10 ^ 41"
    using Q by simp_all
  have "representable DECIMAL_PRECISION (val (py_Decimal q) + 1 / 1000000)"
    by (rule representable_256 [OF g, of 41]) (use b in simp_all)
  then have a: "val (d_add DECIMAL_PRECISION (py_Decimal q) QUANTITY_STEP) = val (py_Decimal q) + 1 / 1000000"
    by (simp add: val_d_add frozen_rates)
  have h: "on_grid (-80) ((val (py_Decimal q) + 1 / 1000000) * val (py_Decimal u))"
    using on_grid_mult [OF g, of "-40"] U by simp
  have c: "(val (py_Decimal q) + 1 / 1000000) * val (py_Decimal u) < 10 ^ 41 * 10 ^ 40"
    using b U by (intro mult_strict_mono') auto
  have "representable DECIMAL_PRECISION ((val (py_Decimal q) + 1 / 1000000) * val (py_Decimal u))"
    by (rule representable_256 [OF h, of 81]) (use b U c in simp_all)
  then show ?thesis by (simp only: val_d_mul a precision_pos)
qed

lemma position_size_exact:
  assumes "valid_PositionSize z"
  obtains s where "sd_setup (rr_strategy_decision (pz_request z)) = Some s" "valid_LongSetup s"
    "entry_eligible (pz_request z)"
    "plain_unsigned (pz_quantity z)" "0 < val (py_Decimal (pz_quantity z))"
    "plain_unsigned (pz_entry_execution_price z)"
    "val (py_Decimal (pz_entry_execution_price z)) = exact_entry s"
    "val (py_Decimal (pz_quantity z)) * exact_unit_loss s
       \<le> val (py_Decimal (pr_equity_quote (rr_portfolio (pz_request z)))) / 100"
    "val (py_Decimal (pr_equity_quote (rr_portfolio (pz_request z)))) / 100
       < (val (py_Decimal (pz_quantity z)) + 1 / 1000000) * exact_unit_loss s"
proof -
  obtain v where v: "entry_values (pz_request z) = Inr v" "valid_RiskRequest (pz_request z)"
    "list_all canonical_field (size_fields z v)"
    and c: "val (py_Decimal (pz_planned_loss_quote z)) \<le> val (py_Decimal (pz_risk_budget_quote z))"
    "val (py_Decimal (pz_risk_budget_quote z)) <
       val (d_mul DECIMAL_PRECISION (d_add DECIMAL_PRECISION (py_Decimal (pz_quantity z)) QUANTITY_STEP)
         (py_Decimal (pz_loss_per_unit_quote z)))"
    by (rule valid_PositionSizeD [OF assms])
  obtain s where s: "sd_setup (rr_strategy_decision (pz_request z)) = Some s" "valid_LongSetup s"
    "entry_eligible (pz_request z)"
    and e: "val (sv_entry_execution_price v) = exact_entry s" "val (sv_loss_per_unit_quote v) = exact_unit_loss s"
    "val (sv_risk_budget_quote v) = val (py_Decimal (pr_equity_quote (rr_portfolio (pz_request z)))) / 100"
    "0 < val (sv_quantity v)"
    and pl: "sv_planned_loss_quote v = d_mul DECIMAL_PRECISION (sv_quantity v) (sv_loss_per_unit_quote v)"
    by (rule entry_values_exact [OF v(2,1)])
  have f: "pz_quantity z = d_format (sv_quantity v)" "pz_loss_per_unit_quote z = d_format (sv_loss_per_unit_quote v)"
    "pz_planned_loss_quote z = d_format (sv_planned_loss_quote v)"
    "pz_risk_budget_quote z = d_format (sv_risk_budget_quote v)"
    "pz_entry_execution_price z = d_format (sv_entry_execution_price v)"
    and p: "plain_unsigned (pz_quantity z)" "plain_unsigned (pz_loss_per_unit_quote z)"
    "plain_unsigned (pz_entry_execution_price z)"
    using v(3) unfolding size_fields_def list.pred_inject canonical_field_def fst_conv snd_conv by blast+
  note X = plain_product_exact [OF p(1,2)]
  have "representable DECIMAL_PRECISION (val (sv_quantity v) * exact_unit_loss s)"
    by (rule representable_256 [of "-80" _ 80]) (use X(2-4) f e in simp_all)
  then have "val (sv_planned_loss_quote v) = val (sv_quantity v) * exact_unit_loss s"
    by (simp add: pl val_d_mul e)
  then show thesis
    using c next_step_exact [OF p(1,2)] f e by (intro that [OF s p(1) _ p(3)]) simp_all
qed

lemma limits_exact:
  assumes "valid_EntryLimitAssessment a"
    "sd_setup (rr_strategy_decision (pz_request (la_position_size a))) = Some s"
  defines "state \<equiv> rr_portfolio (pz_request (la_position_size a))"
    and "q \<equiv> val (py_Decimal (pz_quantity (la_position_size a)))"
  shows "la_status a = LIMIT_PASS \<longleftrightarrow>
    q * exact_entry s \<le> val (py_Decimal (pr_equity_quote state)) / 4
    \<and> q * exact_entry s * (1 + 1 / 1000) \<le> val (py_Decimal (pr_cash_quote state))"
proof -
  let ?z = "la_position_size a" and ?P = DECIMAL_PRECISION
  have z: "valid_PositionSize ?z" using assms(1) by (simp add: valid_EntryLimitAssessment_def)
  obtain s' where s': "sd_setup (rr_strategy_decision (pz_request ?z)) = Some s'"
    "plain_unsigned (pz_quantity ?z)" "plain_unsigned (pz_entry_execution_price ?z)"
    "val (py_Decimal (pz_entry_execution_price ?z)) = exact_entry s'"
    using position_size_exact [OF z] by metis
  have ss: "s' = s" using s'(1) assms(2) by simp
  have r: "valid_RiskRequest (pz_request ?z)" using z by (simp add: valid_PositionSize_def)
  have pol: "rp_max_position_fraction (rr_policy (pz_request ?z)) = ''0.25''"
    "rp_max_gross_exposure_fraction (rr_policy (pz_request ?z)) = ''0.25''"
    using valid_RiskRequestD(6) [OF r] by (simp_all add: default_policy_def)
  have eqp: "plain_unsigned (pr_equity_quote state)"
    unfolding state_def using valid_PortfolioRiskStateD(3) [OF valid_RiskRequestD(5) [OF r]] .
  define nt where "nt = d_mul ?P (py_Decimal (pz_quantity ?z)) (py_Decimal (pz_entry_execution_price ?z))"
  define fe where "fe = d_div ?P (d_mul ?P nt FEE_BPS) BASIS_POINTS"
  note X = plain_product_exact [OF s'(2,3)]
  have nt: "val nt = q * exact_entry s" "on_grid (-80) (val nt)" "0 \<le> val nt" "val nt < 10 ^ 80"
    using X s'(4) by (simp_all add: nt_def q_def ss)
  have g10: "on_grid (-80) (val nt * 10)" using on_grid_mult [OF nt(2) on_grid_int [of 10]] by simp
  have "representable ?P (val nt * 10)" by (rule representable_256 [OF g10, of 81]) (use nt in simp_all)
  moreover have gf: "on_grid (-84) (val nt / 1000)" using on_grid_bps [OF g10] by simp
  have "representable ?P (val nt / 1000)" by (rule representable_256 [OF gf, of 80]) (use nt in simp_all)
  ultimately have fe: "val fe = val nt / 1000" by (simp add: fe_def val_d_div val_d_mul frozen_rates)
  have gs: "on_grid (-84) (val nt + val nt / 1000)" 
    by (rule on_grid_add [OF on_grid_coarser [OF nt(2)] gf]) simp
  have "representable ?P (val nt + val nt / 1000)"
    by (rule representable_256 [OF gs, of 81]) (use nt in simp_all)
  then have cr: "val (d_add ?P nt fe) = val nt + val nt / 1000" by (simp add: val_d_add fe)
  define gb where "gb = d_mul ?P (py_Decimal (pr_position_quantity state)) (py_Decimal (pr_mark_price state))"
  have fl: "val (py_Decimal (pr_position_quantity state)) = 0"
    using assms(1) by (auto simp: valid_EntryLimitAssessment_def EntryLimitAssessment_post_init_def
        bind_r_eq_Inr limit_values_def Let_def state_def dec_val split: if_splits)
  then have "val gb = 0" by (simp add: gb_def val_d_mul)
  moreover have "representable ?P (val nt)" by (rule representable_256 [OF nt(2), of 80]) (use nt in simp_all)
  ultimately have ga: "val (d_add ?P gb nt) = val nt" by (simp add: val_d_add)
  have "la_status a = LIMIT_PASS \<longleftrightarrow>
    \<not> d_lt (d_mul ?P (py_Decimal (pr_equity_quote state)) (py_Decimal ''0.25'')) nt
    \<and> \<not> d_lt (d_mul ?P (py_Decimal (pr_equity_quote state)) (py_Decimal ''0.25'')) (d_add ?P gb nt)
    \<and> \<not> d_lt (py_Decimal (pr_cash_quote state)) (d_add ?P nt fe)"
    using assms(1)
    by (auto simp: valid_EntryLimitAssessment_def EntryLimitAssessment_post_init_def bind_r_eq_Inr
        limit_values_def Let_def state_def pol nt_def fe_def gb_def split: if_splits)
  then show ?thesis
    using cr ga nt(1) plain_product_exact(1) [OF eqp frozen_fractions(3)]
    by (simp add: dec_val not_less frozen_fractions distrib_left) (simp add: mult.commute)
qed

section \<open>Properties\<close>

definition example_setup :: LongSetup where
  "example_setup = \<lparr> ls_reference_price = ''100'', ls_invalidation_price = ''95'', ls_target_price = ''115'' \<rparr>"

definition example_decision :: StrategyDecision where
  "example_decision = \<lparr> sd_context = default_context \<lparr> si_strategy_id = ''TREND_PULLBACK'', si_version = ''1.0.0'' \<rparr>
       example_snapshot, sd_action = SA_ENTER_LONG, sd_reason = DR_TREND_PULLBACK_ENTRY,
     sd_setup = Some example_setup \<rparr>"

definition example_portfolio :: PortfolioRiskState where
  "example_portfolio = \<lparr> pr_symbol = ''BTCUSDT'', pr_decision_time_ms = 1704067200000,
     pr_equity_quote = ''10585.00500'', pr_cash_quote = ''10585.00500'', pr_position_quantity = ''0'',
     pr_mark_price = ''100'', pr_peak_equity_quote = ''10585.00500'', pr_session_realized_pnl_quote = ''0'',
     pr_consecutive_losses = 0, pr_open_positions = 0, pr_kill_switch_active = False \<rparr>"

definition example_request :: RiskRequest where
  "example_request = \<lparr> rr_strategy_decision = example_decision,
     rr_evidence_label = QUALIFIED_FOR_P4_RESEARCH, rr_portfolio = example_portfolio,
     rr_policy = default_policy \<rparr>"

lemma example_request_valid: "valid_RiskRequest example_request"
proof -
  have "valid_MarketSnapshot example_snapshot" using snapshot_at_Inr(1) [OF example_snapshot_at] .
  moreover have "ms_symbol example_snapshot = ''BTCUSDT''" "ms_decision_time_ms example_snapshot = 1704067200000"
    by (simp_all add: example_snapshot_def)
  ultimately show ?thesis
    by (simp add: valid_RiskRequest_def example_request_def RiskRequest_post_init_def example_decision_def
        example_portfolio_def policy_is_frozen valid_StrategyDecision_def StrategyDecision_post_init_def
        ENTRY_REASONS_def valid_StrategyContext_def default_context_def StrategyContext_post_init_def
        StrategyIdentity_post_init_def STRATEGY_ID_PATTERN_def VERSION_PATTERN_def is_upper_def
        valid_LongSetup_def LongSetup_post_init_def strategy_positive_def example_setup_def
        valid_PortfolioRiskState_def PortfolioRiskState_post_init_def risk_decimal_def SYMBOLS_def
        sd_symbol_def sc_symbol_def sd_decision_time_ms_def sc_decision_time_ms_def interval_ms_def py_eval)
qed

lemma frozen_rate_literals:
  "d_div DECIMAL_PRECISION FEE_BPS BASIS_POINTS = Dec False 1 (-3)"
  "d_div DECIMAL_PRECISION SLIPPAGE_BPS BASIS_POINTS = Dec False 5 (-4)"
  unfolding FEE_BPS_def SLIPPAGE_BPS_def BASIS_POINTS_def dec_of_int_def
  using d_div_literal [of 10 3 1 10000 DECIMAL_PRECISION False 0 False 0]
    d_div_literal [of 5 4 5 10000 DECIMAL_PRECISION False 0 False 0]
  by (simp_all add: DECIMAL_PRECISION_def)

lemma example_quotients:
  "d_div DECIMAL_PRECISION (Dec False 1058500500 (-7)) (Dec False 52925025 (-7)) = Dec False 20 0"
  "d_div DECIMAL_PRECISION (Dec False 20 0) (Dec False 1 (-6)) = Dec False 20 6"
  using d_div_literal [of 1058500500 0 20 52925025 DECIMAL_PRECISION False "-7" False "-7"]
    d_div_literal [of 20 0 20 1 DECIMAL_PRECISION False 0 False "-6"]
  by (simp_all add: DECIMAL_PRECISION_def)

definition example_size :: PositionSize where
  "example_size = \<lparr> pz_request = example_request, pz_quantity = ''20'', pz_risk_budget_quote = ''105.8500500'',
     pz_entry_execution_price = ''100.0500'', pz_stop_execution_price = ''94.9525'',
     pz_loss_per_unit_quote = ''5.2925025'', pz_planned_loss_quote = ''105.8500500'',
     pz_fee_quote = ''3.9000500'', pz_slippage_quote = ''1.9500'' \<rparr>"

definition example_values :: SizeValues where
  "example_values = \<lparr> sv_quantity = Dec False 20 0, sv_risk_budget_quote = Dec False 1058500500 (-7),
     sv_entry_execution_price = Dec False 1000500 (-4), sv_stop_execution_price = Dec False 949525 (-4),
     sv_loss_per_unit_quote = Dec False 52925025 (-7), sv_planned_loss_quote = Dec False 1058500500 (-7),
     sv_fee_quote = Dec False 39000500 (-7), sv_slippage_quote = Dec False 19500 (-4) \<rparr>"

lemma example_literals:
  "py_Decimal ''10585.00500'' = Dec False 1058500500 (-5)" "py_Decimal ''100'' = Dec False 100 0"
  "py_Decimal ''95'' = Dec False 95 0" "py_Decimal ''0.01'' = Dec False 1 (-2)"
  by (simp_all add: py_eval)

lemma example_steps:
  "d_mul DECIMAL_PRECISION (Dec False 1058500500 (-5)) (Dec False 1 (-2)) = Dec False 1058500500 (-7)"
  "d_add DECIMAL_PRECISION d_one (Dec False 5 (-4)) = Dec False 10005 (-4)"
  "d_sub DECIMAL_PRECISION d_one (Dec False 5 (-4)) = Dec False 9995 (-4)"
  "d_mul DECIMAL_PRECISION (Dec False 100 0) (Dec False 10005 (-4)) = Dec False 1000500 (-4)"
  "d_mul DECIMAL_PRECISION (Dec False 95 0) (Dec False 9995 (-4)) = Dec False 949525 (-4)"
  "d_add DECIMAL_PRECISION (Dec False 1000500 (-4)) (Dec False 949525 (-4)) = Dec False 1950025 (-4)"
  "d_sub DECIMAL_PRECISION (Dec False 1000500 (-4)) (Dec False 949525 (-4)) = Dec False 50975 (-4)"
  "d_mul DECIMAL_PRECISION (Dec False 1950025 (-4)) (Dec False 1 (-3)) = Dec False 1950025 (-7)"
  "d_add DECIMAL_PRECISION (Dec False 50975 (-4)) (Dec False 1950025 (-7)) = Dec False 52925025 (-7)"
  "d_add DECIMAL_PRECISION (Dec False 100 0) (Dec False 95 0) = Dec False 195 0"
  "d_mul DECIMAL_PRECISION (Dec False 195 0) (Dec False 5 (-4)) = Dec False 975 (-4)"
  "d_floor (Dec False 20 6) = Dec False 20 6"
  "d_mul DECIMAL_PRECISION (Dec False 20 6) (Dec False 1 (-6)) = Dec False 20 0"
  "d_mul DECIMAL_PRECISION (Dec False 20 0) (Dec False 52925025 (-7)) = Dec False 1058500500 (-7)"
  "d_mul DECIMAL_PRECISION (Dec False 20 0) (Dec False 1950025 (-7)) = Dec False 39000500 (-7)"
  "d_mul DECIMAL_PRECISION (Dec False 20 0) (Dec False 975 (-4)) = Dec False 19500 (-4)"
  by (simp_all add: d_floor_def py_eval)

lemma example_tests:
  "d_le (Dec False 949525 (-4)) d_zero = False" "d_le (Dec False 1000500 (-4)) (Dec False 949525 (-4)) = False"
  "d_le (Dec False 1058500500 (-7)) d_zero = False" "d_le (Dec False 52925025 (-7)) d_zero = False"
  "d_le (Dec False 20 0) d_zero = False" "d_lt (Dec False 1058500500 (-7)) (Dec False 1058500500 (-7)) = False"
  by (simp_all add: py_eval)

lemma example_entry_values: "entry_values example_request = Inr example_values"
proof -
  have f: "entry_eligible example_request" "the (sd_setup (rr_strategy_decision example_request)) = example_setup"
    "pr_equity_quote (rr_portfolio example_request) = ''10585.00500''"
    "rp_risk_per_trade_fraction (rr_policy example_request) = ''0.01''"
    "ls_reference_price example_setup = ''100''" "ls_invalidation_price example_setup = ''95''"
    by (simp_all add: entry_eligible_def example_request_def example_decision_def example_portfolio_def
        example_setup_def default_policy_def)
  show ?thesis
    unfolding entry_values_def Let_def
    by (simp only: f example_literals frozen_rate_literals example_steps example_tests example_quotients
        QUANTITY_STEP_def example_values_def if_False if_True simp_thms)
qed

lemma example_size_valid: "valid_PositionSize example_size"
proof -
  have "PositionSize_post_init example_size = Inr ()"
    unfolding PositionSize_post_init_def
    by (simp add: example_size_def example_entry_values)
      (simp add: size_fields_def canonical_field_def example_values_def QUANTITY_STEP_def py_eval)
  then show ?thesis using example_request_valid by (simp add: valid_PositionSize_def example_size_def)
qed

text \<open>A sized entry is a valid position size of its request.\<close>

lemma size_entry_Inr:
  assumes "valid_RiskRequest r" "size_entry r = Inr z"
  shows "valid_PositionSize z" "pz_request z = r"
  using assms by (auto simp: size_entry_def bind_r_eq_Inr construct_eq_Inr valid_PositionSize_def)

text \<open>The quantity is a whole number of steps: the floor is an integer with no more digits than the
quotient, so the product with the step is exact.\<close>

lemma d_div_is_rounded: obtains e where "d_div p a b = d_fix p e"
proof -
  have "\<exists>e. d_div p a b = d_fix p e" by (auto simp: d_div_def Let_def split: prod.split)
  then show thesis using that by blast
qed

lemma whole_steps:
  assumes "0 < val (d_mul DECIMAL_PRECISION (d_floor (d_div DECIMAL_PRECISION a b)) QUANTITY_STEP)"
  shows "\<exists>n::nat. val (d_mul DECIMAL_PRECISION (d_floor (d_div DECIMAL_PRECISION a b)) QUANTITY_STEP) = of_nat n / 1000000"
proof -
  obtain e where e: "d_div DECIMAL_PRECISION a b = d_fix DECIMAL_PRECISION e" by (rule d_div_is_rounded)
  let ?f = "d_floor (d_fix DECIMAL_PRECISION e)"
  have s: "\<not> d_sign (d_fix DECIMAL_PRECISION e)"
  proof
    assume "d_sign (d_fix DECIMAL_PRECISION e)"
    then have "val ?f \<le> 0" by (simp add: d_floor_def Let_def val_def d_int_def)
    then have "val ?f * val QUANTITY_STEP \<le> 0" by (simp add: frozen_rates(4) divide_le_0_iff)
    then have "val (d_mul DECIMAL_PRECISION ?f QUANTITY_STEP) \<le> 0" by (intro val_mul_le) simp_all
    then show False using assms by (simp add: e)
  qed
  have p: "val QUANTITY_STEP = 10 powi (-6)" by (simp add: frozen_rates(4) power_int_minus)
  have "representable DECIMAL_PRECISION (val ?f * val QUANTITY_STEP)"
    unfolding p by (rule representable_shift [OF representable_d_floor [OF precision_pos(1) s]])
  then have v: "val (d_mul DECIMAL_PRECISION ?f QUANTITY_STEP) = val ?f * val QUANTITY_STEP"
    by (rule val_d_mul [OF precision_pos(1)])
  obtain n :: nat where "val ?f = of_nat n" using val_d_floor [OF s] by blast
  then have "val (d_mul DECIMAL_PRECISION ?f QUANTITY_STEP) = of_nat n / 1000000"
    unfolding v frozen_rates(4) by simp
  then show ?thesis unfolding e by blast
qed

lemma entry_quantity_stepped:
  assumes "entry_values r = Inr v" "0 < val (sv_quantity v)"
  shows "\<exists>n::nat. val (sv_quantity v) = of_nat n / 1000000"
proof -
  obtain a b where "sv_quantity v = d_mul DECIMAL_PRECISION (d_floor (d_div DECIMAL_PRECISION a b)) QUANTITY_STEP"
    using assms(1) by (fastforce simp: entry_values_def Let_def split: if_splits)
  then show ?thesis using assms(2) whole_steps by simp
qed

text \<open>A multiple of the step below the next one is at most the present one.\<close>

lemma step_below: "of_nat k / 1000000 < of_nat n / 1000000 + (1 / 1000000 :: rat) \<Longrightarrow> k \<le> n"
proof -
  assume "of_nat k / 1000000 < of_nat n / 1000000 + (1 / 1000000 :: rat)"
  then have "of_nat k < (of_nat (n + 1) :: rat)" by (simp add: field_simps)
  then have "k < n + 1" by (simp only: of_nat_less_iff)
  then show "k \<le> n" by simp
qed

text \<open>C17. Sizing is the largest safe step: when an entry is sized, the request is qualified, unblocked and
on a flat portfolio, and the quantity is a positive multiple of the step 0.000001 which, bought at the
reference price and sold at the invalidation price with slippage and fees on both sides, loses at most one
percent of the equity; every multiple of the step that loses no more is at most this quantity, and one more
step already loses more. All of it exactly, not up to rounding.\<close>

theorem position_size_maximal_within_budget:
  assumes "valid_RiskRequest request" and "size_entry request = Inr z"
  shows "\<exists>s. sd_setup (rr_strategy_decision request) = Some s \<and>
    (let q = val (py_Decimal (pz_quantity z));
         equity = val (py_Decimal (pr_equity_quote (rr_portfolio request)));
         bought = val (py_Decimal (ls_reference_price s)) * (1 + 1 / 2000);
         sold = val (py_Decimal (ls_invalidation_price s)) * (1 - 1 / 2000);
         loss = bought - sold + (bought + sold) / 1000
     in (\<exists>n::nat. q = of_nat n / 1000000) \<and> 0 < q \<and> q * loss \<le> equity / 100
        \<and> equity / 100 < (q + 1 / 1000000) * loss
        \<and> (\<forall>n::nat. of_nat n / 1000000 * loss \<le> equity / 100 \<longrightarrow> of_nat n / 1000000 \<le> q))
    \<and> pz_request z = request
    \<and> rr_evidence_label request = QUALIFIED_FOR_P4_RESEARCH
    \<and> \<not> pr_kill_switch_active (rr_portfolio request)
    \<and> pr_open_positions (rr_portfolio request) = 0"
proof -
  note Z = size_entry_Inr [OF assms]
  define q where "q = val (py_Decimal (pz_quantity z))"
  define budget where "budget = val (py_Decimal (pr_equity_quote (rr_portfolio request))) / 100"
  obtain s where s: "sd_setup (rr_strategy_decision request) = Some s" "entry_eligible request"
    "valid_LongSetup s" "0 < q" "q * exact_unit_loss s \<le> budget" "budget < (q + 1 / 1000000) * exact_unit_loss s"
    using position_size_exact [OF Z(1)] unfolding Z(2) q_def budget_def by metis
  obtain v where v: "entry_values request = Inr v" "list_all canonical_field (size_fields z v)"
    using valid_PositionSizeD [OF Z(1)] unfolding Z(2) by metis
  have "q = val (sv_quantity v)" using v(2) by (simp add: size_fields_def canonical_val q_def)
  then obtain n :: nat where n: "q = of_nat n / 1000000" using entry_quantity_stepped [OF v(1)] s(4) by auto
  have m: "of_nat k / 1000000 \<le> q" if k: "of_nat k / 1000000 * exact_unit_loss s \<le> budget" for k :: nat
  proof -
    have "of_nat k / 1000000 * exact_unit_loss s < (q + 1 / 1000000) * exact_unit_loss s" using k s(6) by linarith
    then have "of_nat k / 1000000 < q + 1 / 1000000"
      using exact_setup_bounds(7) [OF s(3)] by (simp only: mult_less_cancel_right_pos)
    then show ?thesis using step_below [of k n] by (simp add: n divide_right_mono)
  qed
  have L: "val (py_Decimal (ls_reference_price s)) * (1 + 1 / 2000) - val (py_Decimal (ls_invalidation_price s)) * (1 - 1 / 2000)
      + (val (py_Decimal (ls_reference_price s)) * (1 + 1 / 2000)
         + val (py_Decimal (ls_invalidation_price s)) * (1 - 1 / 2000)) / 1000 = exact_unit_loss s"
    by (simp only: exact_unit_loss_def exact_entry_def exact_stop_def)
  have "(\<exists>n::nat. q = of_nat n / 1000000) \<and> 0 < q \<and> q * exact_unit_loss s \<le> budget
      \<and> budget < (q + 1 / 1000000) * exact_unit_loss s
      \<and> (\<forall>n::nat. of_nat n / 1000000 * exact_unit_loss s \<le> budget \<longrightarrow> of_nat n / 1000000 \<le> q)"
    using s n m by blast
  then show ?thesis
    unfolding Let_def using s(1,2) Z(2) unfolding L [symmetric] q_def budget_def
    by (intro exI [of _ s]) (simp add: entry_eligible_def)
qed

lemma example_sized: "size_entry example_request = Inr example_size"
proof -
  have "PositionSize_post_init example_size = Inr ()" using example_size_valid by (simp add: valid_PositionSize_def)
  then show ?thesis
    by (simp add: size_entry_def example_entry_values construct_eq_Inr)
      (simp add: example_size_def example_values_def py_eval)
qed

theorem position_size_maximal_within_budget_witness:
  "pz_quantity example_size = ''20'' \<and> (\<exists>n::nat. val (py_Decimal (pz_quantity example_size)) = of_nat n / 1000000)
   \<and> (\<exists>s. sd_setup (rr_strategy_decision example_request) = Some s)"
  using position_size_maximal_within_budget [OF example_request_valid example_sized]
  by (auto simp: example_size_def Let_def)

text \<open>C27. The entry limits decide exactly: an assessment passes if and only if the notional at the
slipped entry price is at most a quarter of the equity and the notional plus the entry fee is covered
by the cash.\<close>

theorem entry_limits_decide:
  assumes "valid_EntryLimitAssessment a"
    and "sd_setup (rr_strategy_decision (pz_request (la_position_size a))) = Some s"
  shows "la_status a = LIMIT_PASS \<longleftrightarrow>
    (let q = val (py_Decimal (pz_quantity (la_position_size a)));
         state = rr_portfolio (pz_request (la_position_size a));
         notional = q * (val (py_Decimal (ls_reference_price s)) * (1 + 1 / 2000))
     in notional \<le> val (py_Decimal (pr_equity_quote state)) / 4
        \<and> notional * (1 + 1 / 1000) \<le> val (py_Decimal (pr_cash_quote state)))"
  using limits_exact [OF assms] by (simp only: Let_def exact_entry_def)

definition example_limits :: EntryLimitAssessment where
  "example_limits = \<lparr> la_position_size = example_size, la_status = LIMIT_PASS, la_reason = WITHIN_LIMITS,
     la_entry_notional_quote = ''2001.0000'', la_entry_fee_quote = ''2.0010'',
     la_cash_required_quote = ''2003.0010'', la_position_limit_quote = ''2646.2512500'',
     la_gross_exposure_before_quote = ''0'', la_gross_exposure_after_quote = ''2001.0000'',
     la_gross_exposure_limit_quote = ''2646.2512500'' \<rparr>"

lemma example_limit_steps:
  "d_mul DECIMAL_PRECISION (Dec False 20 0) (Dec False 1000500 (-4)) = Dec False 20010000 (-4)"
  "d_mul DECIMAL_PRECISION (Dec False 20010000 (-4)) FEE_BPS = Dec False 200100000 (-4)"
  "d_div DECIMAL_PRECISION (Dec False 200100000 (-4)) BASIS_POINTS = Dec False 20010 (-4)"
  "d_add DECIMAL_PRECISION (Dec False 20010000 (-4)) (Dec False 20010 (-4)) = Dec False 20030010 (-4)"
  "d_mul DECIMAL_PRECISION (Dec False 1058500500 (-5)) (Dec False 25 (-2)) = Dec False 26462512500 (-7)"
  "d_mul DECIMAL_PRECISION (Dec False 0 0) (Dec False 100 0) = Dec False 0 0"
  "d_add DECIMAL_PRECISION (Dec False 0 0) (Dec False 20010000 (-4)) = Dec False 20010000 (-4)"
  "py_Decimal ''20'' = Dec False 20 0" "py_Decimal ''100.0500'' = Dec False 1000500 (-4)"
  "py_Decimal ''0.25'' = Dec False 25 (-2)" "py_Decimal ''0'' = Dec False 0 0"
  "d_lt (Dec False 26462512500 (-7)) (Dec False 20010000 (-4)) = False"
  "d_lt (Dec False 1058500500 (-5)) (Dec False 20030010 (-4)) = False" "d_eq (Dec False 0 0) d_zero = True"
  using d_div_literal [of 200100000 0 20010 10000 DECIMAL_PRECISION False "-4" False 0]
  by (simp_all add: FEE_BPS_def py_eval BASIS_POINTS_def DECIMAL_PRECISION_def)

lemma example_limit_values:
  "limit_values example_size = Inr \<lparr> lv_status = LIMIT_PASS, lv_reason = WITHIN_LIMITS,
     lv_entry_notional_quote = Dec False 20010000 (-4), lv_entry_fee_quote = Dec False 20010 (-4),
     lv_cash_required_quote = Dec False 20030010 (-4), lv_position_limit_quote = Dec False 26462512500 (-7),
     lv_gross_exposure_before_quote = Dec False 0 0, lv_gross_exposure_after_quote = Dec False 20010000 (-4),
     lv_gross_exposure_limit_quote = Dec False 26462512500 (-7) \<rparr>"
proof -
  have f: "pz_quantity example_size = ''20''" "pz_entry_execution_price example_size = ''100.0500''"
    "rr_portfolio (pz_request example_size) = example_portfolio" "rr_policy (pz_request example_size) = default_policy"
    "pr_open_positions example_portfolio = 0" "pr_position_quantity example_portfolio = ''0''"
    "pr_equity_quote example_portfolio = ''10585.00500''" "pr_cash_quote example_portfolio = ''10585.00500''"
    "pr_mark_price example_portfolio = ''100''" "rp_max_position_fraction default_policy = ''0.25''"
    "rp_max_gross_exposure_fraction default_policy = ''0.25''"
    by (simp_all add: example_size_def example_request_def example_portfolio_def default_policy_def)
  show ?thesis
    unfolding limit_values_def Let_def
    by (simp only: f example_literals example_limit_steps if_False if_True simp_thms prod.case)
qed

lemma example_limits_valid: "valid_EntryLimitAssessment example_limits"
proof -
  have "EntryLimitAssessment_post_init example_limits = Inr ()"
    unfolding EntryLimitAssessment_post_init_def
    by (simp add: example_limits_def example_limit_values)
      (simp add: limit_fields_def canonical_field_def py_eval)
  then show ?thesis using example_size_valid by (simp add: valid_EntryLimitAssessment_def example_limits_def)
qed

lemma example_limits_setup:
  "sd_setup (rr_strategy_decision (pz_request (la_position_size example_limits))) = Some example_setup"
  by (simp add: example_limits_def example_size_def example_request_def example_decision_def)

theorem entry_limits_decide_witness:
  "val (py_Decimal (pz_quantity (la_position_size example_limits)))
     * (val (py_Decimal (ls_reference_price example_setup)) * (1 + 1 / 2000))
   \<le> val (py_Decimal (pr_equity_quote (rr_portfolio (pz_request (la_position_size example_limits))))) / 4"
proof -
  have "la_status example_limits = LIMIT_PASS" by (simp add: example_limits_def)
  with entry_limits_decide [OF example_limits_valid example_limits_setup] show ?thesis
    unfolding Let_def by blast
qed

end
