(* ===== verification/Risk_Circuit.thy ===== *)
theory Risk_Circuit
  imports Risk_State Risk_Sizing
begin

text \<open>
  \<^verbatim>\<open>yatl/risk/circuit.py\<close>: the three circuit breakers (session loss, drawdown, loss
  streak) as self-checking evidence about a request and the managed state.
\<close>

section \<open>Definitions\<close>

datatype CircuitBreaker = CB_SESSION_LOSS_LIMIT | CB_DRAWDOWN_LIMIT | CB_CONSECUTIVE_LOSS_LIMIT

fun CircuitBreaker_value :: "CircuitBreaker \<Rightarrow> string" where
  "CircuitBreaker_value CB_SESSION_LOSS_LIMIT = ''SESSION_LOSS_LIMIT''"
| "CircuitBreaker_value CB_DRAWDOWN_LIMIT = ''DRAWDOWN_LIMIT''"
| "CircuitBreaker_value CB_CONSECUTIVE_LOSS_LIMIT = ''CONSECUTIVE_LOSS_LIMIT''"

datatype CircuitDisposition = CD_CLEAR | CD_BLOCK_ENTRY | CD_ALLOW_RISK_REDUCING_EXIT | CD_NO_ACTION

fun CircuitDisposition_value :: "CircuitDisposition \<Rightarrow> string" where
  "CircuitDisposition_value CD_CLEAR = ''CLEAR''"
| "CircuitDisposition_value CD_BLOCK_ENTRY = ''BLOCK_ENTRY''"
| "CircuitDisposition_value CD_ALLOW_RISK_REDUCING_EXIT = ''ALLOW_RISK_REDUCING_EXIT''"
| "CircuitDisposition_value CD_NO_ACTION = ''NO_ACTION''"

datatype CircuitReason =
    CR_WITHIN_LIMITS | CR_SESSION_LOSS_LIMIT | CR_DRAWDOWN_LIMIT | CR_CONSECUTIVE_LOSS_LIMIT
  | CR_MULTIPLE_LIMITS | CR_EXIT_REDUCES_RISK | CR_NO_STRATEGY_ACTION

fun CircuitReason_value :: "CircuitReason \<Rightarrow> string" where
  "CircuitReason_value CR_WITHIN_LIMITS = ''WITHIN_LIMITS''"
| "CircuitReason_value CR_SESSION_LOSS_LIMIT = ''SESSION_LOSS_LIMIT''"
| "CircuitReason_value CR_DRAWDOWN_LIMIT = ''DRAWDOWN_LIMIT''"
| "CircuitReason_value CR_CONSECUTIVE_LOSS_LIMIT = ''CONSECUTIVE_LOSS_LIMIT''"
| "CircuitReason_value CR_MULTIPLE_LIMITS = ''MULTIPLE_LIMITS''"
| "CircuitReason_value CR_EXIT_REDUCES_RISK = ''EXIT_REDUCES_RISK''"
| "CircuitReason_value CR_NO_STRATEGY_ACTION = ''NO_STRATEGY_ACTION''"

fun SINGLE_REASON :: "CircuitBreaker \<Rightarrow> CircuitReason" where
  "SINGLE_REASON CB_SESSION_LOSS_LIMIT = CR_SESSION_LOSS_LIMIT"
| "SINGLE_REASON CB_DRAWDOWN_LIMIT = CR_DRAWDOWN_LIMIT"
| "SINGLE_REASON CB_CONSECUTIVE_LOSS_LIMIT = CR_CONSECUTIVE_LOSS_LIMIT"

record CircuitValues =
  cv_disposition :: CircuitDisposition
  cv_reason :: CircuitReason
  cv_triggered_breakers :: "CircuitBreaker list"
  cv_session_loss_quote :: dec
  cv_session_loss_limit_quote :: dec
  cv_drawdown_quote :: dec
  cv_drawdown_limit_quote :: dec
  cv_consecutive_losses :: int
  cv_consecutive_loss_limit :: int

definition circuit_disposition :: "StrategyAction \<Rightarrow> CircuitBreaker list \<Rightarrow> CircuitDisposition \<times> CircuitReason" where
  "circuit_disposition action triggered =
     (case action of
        SA_NO_TRADE \<Rightarrow> (CD_NO_ACTION, CR_NO_STRATEGY_ACTION)
      | SA_EXIT_LONG \<Rightarrow> (CD_ALLOW_RISK_REDUCING_EXIT, CR_EXIT_REDUCES_RISK)
      | SA_ENTER_LONG \<Rightarrow>
          (case triggered of
             [] \<Rightarrow> (CD_CLEAR, CR_WITHIN_LIMITS)
           | [b] \<Rightarrow> (CD_BLOCK_ENTRY, SINGLE_REASON b)
           | _ \<Rightarrow> (CD_BLOCK_ENTRY, CR_MULTIPLE_LIMITS)))"

definition circuit_values :: "RiskRequest \<Rightarrow> ManagedPortfolioState \<Rightarrow> CircuitValues result" where
  "circuit_values request managed_state =
     bind_r (to_risk_state managed_state (pr_kill_switch_active (rr_portfolio request))) (\<lambda>projected.
     if rr_portfolio request \<noteq> projected
     then Inl (CircuitBreakerError ''Risk request does not match managed portfolio state'')
     else
       let p = DECIMAL_PRECISION;
           session_pnl = py_Decimal (mp_session_realized_pnl_quote managed_state);
           session_loss = d_max (d_neg p session_pnl) d_zero;
           session_limit = d_mul p (py_Decimal (mp_session_start_equity_quote managed_state))
             (py_Decimal (rp_max_session_loss_fraction (rr_policy request)));
           drawdown = d_sub p (py_Decimal (mp_peak_equity_quote managed_state))
             (py_Decimal (mp_equity_quote managed_state));
           drawdown_limit = d_mul p (py_Decimal (mp_peak_equity_quote managed_state))
             (py_Decimal (rp_max_drawdown_fraction (rr_policy request)));
           triggered = map fst (filter snd
             [(CB_SESSION_LOSS_LIMIT, d_le session_limit session_loss),
              (CB_DRAWDOWN_LIMIT, d_le drawdown_limit drawdown),
              (CB_CONSECUTIVE_LOSS_LIMIT,
               mp_consecutive_losses managed_state \<ge> rp_max_consecutive_losses (rr_policy request))]);
           (disposition, reason) = circuit_disposition (sd_action (rr_strategy_decision request)) triggered
       in Inr \<lparr> cv_disposition = disposition, cv_reason = reason, cv_triggered_breakers = triggered,
            cv_session_loss_quote = session_loss, cv_session_loss_limit_quote = session_limit,
            cv_drawdown_quote = drawdown, cv_drawdown_limit_quote = drawdown_limit,
            cv_consecutive_losses = mp_consecutive_losses managed_state,
            cv_consecutive_loss_limit = rp_max_consecutive_losses (rr_policy request) \<rparr>)"

record CircuitAssessment =
  ca_request :: RiskRequest
  ca_managed_state :: ManagedPortfolioState
  ca_disposition :: CircuitDisposition
  ca_reason :: CircuitReason
  ca_triggered_breakers :: "CircuitBreaker list"
  ca_session_loss_quote :: string
  ca_session_loss_limit_quote :: string
  ca_drawdown_quote :: string
  ca_drawdown_limit_quote :: string
  ca_consecutive_losses :: int
  ca_consecutive_loss_limit :: int

definition circuit_fields :: "CircuitAssessment \<Rightarrow> CircuitValues \<Rightarrow> (string \<times> dec) list" where
  "circuit_fields a v =
     [(ca_session_loss_quote a, cv_session_loss_quote v),
      (ca_session_loss_limit_quote a, cv_session_loss_limit_quote v),
      (ca_drawdown_quote a, cv_drawdown_quote v),
      (ca_drawdown_limit_quote a, cv_drawdown_limit_quote v)]"

definition CircuitAssessment_post_init :: "CircuitAssessment \<Rightarrow> unit result" where
  "CircuitAssessment_post_init a =
     bind_r (circuit_values (ca_request a) (ca_managed_state a)) (\<lambda>expected.
     if ca_disposition a \<noteq> cv_disposition expected \<or> ca_reason a \<noteq> cv_reason expected
        \<or> ca_triggered_breakers a \<noteq> cv_triggered_breakers expected
     then Inl (CircuitBreakerError ''Circuit disposition or reason is inconsistent'')
     else if \<not> list_all canonical_field (circuit_fields a expected)
     then Inl (CircuitBreakerError ''Circuit assessment is noncanonical or inconsistent'')
     else if ca_consecutive_losses a \<noteq> cv_consecutive_losses expected
             \<or> ca_consecutive_loss_limit a \<noteq> cv_consecutive_loss_limit expected
     then Inl (CircuitBreakerError ''Circuit counters are inconsistent'')
     else Inr ())"

definition ca_request_sha256 :: "CircuitAssessment \<Rightarrow> string" where
  "ca_request_sha256 a = request_sha256 (ca_request a)"

definition ca_state_sha256 :: "CircuitAssessment \<Rightarrow> string" where
  "ca_state_sha256 a = state_sha256 (ca_managed_state a)"

definition circuit_sha256 :: "CircuitAssessment \<Rightarrow> string" where
  "circuit_sha256 a = py_digest (JObj
     [(''schema_version'', JInt 1), (''request_sha256'', JStr (ca_request_sha256 a)),
      (''state_sha256'', JStr (ca_state_sha256 a)),
      (''disposition'', JStr (CircuitDisposition_value (ca_disposition a))),
      (''reason'', JStr (CircuitReason_value (ca_reason a))),
      (''triggered_breakers'', JList (map (\<lambda>b. JStr (CircuitBreaker_value b)) (ca_triggered_breakers a))),
      (''session_loss_quote'', JStr (ca_session_loss_quote a)),
      (''session_loss_limit_quote'', JStr (ca_session_loss_limit_quote a)),
      (''drawdown_quote'', JStr (ca_drawdown_quote a)),
      (''drawdown_limit_quote'', JStr (ca_drawdown_limit_quote a)),
      (''consecutive_losses'', JInt (ca_consecutive_losses a)),
      (''consecutive_loss_limit'', JInt (ca_consecutive_loss_limit a))])"

definition assess_circuit_breakers :: "RiskRequest \<Rightarrow> ManagedPortfolioState \<Rightarrow> CircuitAssessment result" where
  "assess_circuit_breakers request managed_state =
     bind_r (circuit_values request managed_state) (\<lambda>v.
     construct CircuitAssessment_post_init
       \<lparr> ca_request = request, ca_managed_state = managed_state, ca_disposition = cv_disposition v,
         ca_reason = cv_reason v, ca_triggered_breakers = cv_triggered_breakers v,
         ca_session_loss_quote = d_format (cv_session_loss_quote v),
         ca_session_loss_limit_quote = d_format (cv_session_loss_limit_quote v),
         ca_drawdown_quote = d_format (cv_drawdown_quote v),
         ca_drawdown_limit_quote = d_format (cv_drawdown_limit_quote v),
         ca_consecutive_losses = cv_consecutive_losses v,
         ca_consecutive_loss_limit = cv_consecutive_loss_limit v \<rparr>)"

definition valid_CircuitAssessment :: "CircuitAssessment \<Rightarrow> bool" where
  "valid_CircuitAssessment a \<longleftrightarrow> CircuitAssessment_post_init a = Inr ()
     \<and> valid_RiskRequest (ca_request a) \<and> valid_ManagedPortfolioState (ca_managed_state a)"

section \<open>The breakers, exactly\<close>

lemma frozen_breaker_fractions:
  "plain_unsigned ''0.02''" "val (py_Decimal ''0.02'') = 1 / 50"
  "plain_unsigned ''0.10''" "val (py_Decimal ''0.10'') = 1 / 10"
  by (simp_all add: py_eval val_def power_int_minus)

lemma plain_signed_neg_exact:
  assumes "plain_signed s"
  shows "val (d_neg DECIMAL_PRECISION (py_Decimal s)) = - val (py_Decimal s)"
proof -
  note S = plain_signed_bounds [OF assms]
  have "representable DECIMAL_PRECISION (val (py_Decimal s))"
    by (rule representable_256 [of "-40" _ 40]) (use S in \<open>auto intro: on_grid_val\<close>)
  then show ?thesis by (simp add: val_d_neg)
qed

lemma plain_difference_exact:
  assumes "plain_unsigned a" "plain_unsigned b"
  shows "val (d_sub DECIMAL_PRECISION (py_Decimal a) (py_Decimal b)) = val (py_Decimal a) - val (py_Decimal b)"
proof -
  have "on_grid (-40) (val (py_Decimal a) - val (py_Decimal b))"
    "\<bar>val (py_Decimal a) - val (py_Decimal b)\<bar> < 10 ^ 41"
    using grid_plain [OF assms(1)] grid_plain [OF assms(2)]
    by (auto intro: on_grid_diff simp: abs_less_iff)
  then show ?thesis by (intro val_d_sub representable_256 [of "-40" _ 41]) simp_all
qed

text \<open>Which breakers are tripped, as conditions on exact amounts.\<close>

definition breaker_tripped :: "ManagedPortfolioState \<Rightarrow> CircuitBreaker \<Rightarrow> bool" where
  "breaker_tripped s b =
     (case b of
        CB_SESSION_LOSS_LIMIT \<Rightarrow>
          val (py_Decimal (mp_session_start_equity_quote s)) / 50
            \<le> - val (py_Decimal (mp_session_realized_pnl_quote s))
      | CB_DRAWDOWN_LIMIT \<Rightarrow>
          val (py_Decimal (mp_equity_quote s)) \<le> val (py_Decimal (mp_peak_equity_quote s)) * (9 / 10)
      | CB_CONSECUTIVE_LOSS_LIMIT \<Rightarrow> 3 \<le> mp_consecutive_losses s)"

lemma circuit_values_exact:
  assumes "valid_RiskRequest r" "valid_ManagedPortfolioState s" "circuit_values r s = Inr v"
  shows "cv_triggered_breakers v = filter (breaker_tripped s)
      [CB_SESSION_LOSS_LIMIT, CB_DRAWDOWN_LIMIT, CB_CONSECUTIVE_LOSS_LIMIT]"
    "(cv_disposition v, cv_reason v) =
      circuit_disposition (sd_action (rr_strategy_decision r)) (cv_triggered_breakers v)"
    "to_risk_state s (pr_kill_switch_active (rr_portfolio r)) = Inr (rr_portfolio r)"
proof -
  note S = valid_ManagedPortfolioStateD [OF assms(2)]
  have pol: "rp_max_session_loss_fraction (rr_policy r) = ''0.02''" "rp_max_drawdown_fraction (rr_policy r) = ''0.10''"
    "rp_max_consecutive_losses (rr_policy r) = 3"
    using valid_RiskRequestD(6) [OF assms(1)] by (simp_all add: default_policy_def)
  let ?P = DECIMAL_PRECISION
  have l1: "d_le (d_mul ?P (py_Decimal (mp_session_start_equity_quote s)) (py_Decimal ''0.02''))
      (d_max (d_neg ?P (py_Decimal (mp_session_realized_pnl_quote s))) d_zero)
    \<longleftrightarrow> breaker_tripped s CB_SESSION_LOSS_LIMIT"
    using S(7) plain_product_exact(1) [OF S(6) frozen_breaker_fractions(1)] plain_signed_neg_exact [OF S(16)]
    by (auto simp: dec_val breaker_tripped_def frozen_breaker_fractions le_max_iff_disj)
  have l2: "d_le (d_mul ?P (py_Decimal (mp_peak_equity_quote s)) (py_Decimal ''0.10''))
      (d_sub ?P (py_Decimal (mp_peak_equity_quote s)) (py_Decimal (mp_equity_quote s)))
    \<longleftrightarrow> breaker_tripped s CB_DRAWDOWN_LIMIT"
    using plain_product_exact(1) [OF S(14) frozen_breaker_fractions(3)] plain_difference_exact [OF S(14,8)]
    by (auto simp: dec_val breaker_tripped_def frozen_breaker_fractions)
  have l3: "3 \<le> mp_consecutive_losses s \<longleftrightarrow> breaker_tripped s CB_CONSECUTIVE_LOSS_LIMIT"
    by (simp add: breaker_tripped_def)
  show "cv_triggered_breakers v = filter (breaker_tripped s)
      [CB_SESSION_LOSS_LIMIT, CB_DRAWDOWN_LIMIT, CB_CONSECUTIVE_LOSS_LIMIT]"
    "(cv_disposition v, cv_reason v) =
      circuit_disposition (sd_action (rr_strategy_decision r)) (cv_triggered_breakers v)"
    "to_risk_state s (pr_kill_switch_active (rr_portfolio r)) = Inr (rr_portfolio r)"
    using assms(3)
    by (auto simp: circuit_values_def bind_r_eq_Inr Let_def pol l1 l2 l3 split: if_splits prod.splits)
qed

lemma valid_CircuitAssessmentD:
  assumes "valid_CircuitAssessment a"
  shows "ca_triggered_breakers a = filter (breaker_tripped (ca_managed_state a))
      [CB_SESSION_LOSS_LIMIT, CB_DRAWDOWN_LIMIT, CB_CONSECUTIVE_LOSS_LIMIT]"
    "(ca_disposition a, ca_reason a) =
      circuit_disposition (sd_action (rr_strategy_decision (ca_request a))) (ca_triggered_breakers a)"
    "to_risk_state (ca_managed_state a) (pr_kill_switch_active (rr_portfolio (ca_request a)))
      = Inr (rr_portfolio (ca_request a))"
    "valid_RiskRequest (ca_request a)" "valid_ManagedPortfolioState (ca_managed_state a)"
proof -
  show r: "valid_RiskRequest (ca_request a)" and s: "valid_ManagedPortfolioState (ca_managed_state a)"
    using assms by (auto simp: valid_CircuitAssessment_def)
  obtain v where v: "circuit_values (ca_request a) (ca_managed_state a) = Inr v"
    "ca_disposition a = cv_disposition v" "ca_reason a = cv_reason v"
    "ca_triggered_breakers a = cv_triggered_breakers v"
    using assms
    by (auto simp: valid_CircuitAssessment_def CircuitAssessment_post_init_def bind_r_eq_Inr split: if_splits)
  note V = circuit_values_exact [OF r s v(1)]
  show "ca_triggered_breakers a = filter (breaker_tripped (ca_managed_state a))
      [CB_SESSION_LOSS_LIMIT, CB_DRAWDOWN_LIMIT, CB_CONSECUTIVE_LOSS_LIMIT]"
    "(ca_disposition a, ca_reason a) =
      circuit_disposition (sd_action (rr_strategy_decision (ca_request a))) (ca_triggered_breakers a)"
    "to_risk_state (ca_managed_state a) (pr_kill_switch_active (rr_portfolio (ca_request a)))
      = Inr (rr_portfolio (ca_request a))"
    using V v(2-4) by simp_all
qed

lemma circuit_disposition_clear:
  "fst (circuit_disposition action t) = CD_CLEAR \<longleftrightarrow> action = SA_ENTER_LONG \<and> t = []"
  "fst (circuit_disposition action t) = CD_BLOCK_ENTRY \<longleftrightarrow> action = SA_ENTER_LONG \<and> t \<noteq> []"
  by (auto simp: circuit_disposition_def split: StrategyAction.splits list.splits)

section \<open>Properties\<close>

definition example_circuit :: CircuitAssessment where
  "example_circuit = \<lparr> ca_request = example_request, ca_managed_state = example_managed,
     ca_disposition = CD_CLEAR, ca_reason = CR_WITHIN_LIMITS, ca_triggered_breakers = [],
     ca_session_loss_quote = ''0'', ca_session_loss_limit_quote = ''200.00'', ca_drawdown_quote = ''0.00000'',
     ca_drawdown_limit_quote = ''1058.5005000'', ca_consecutive_losses = 0, ca_consecutive_loss_limit = 3 \<rparr>"

lemma example_risk_state: "to_risk_state example_managed False = Inr example_portfolio"
proof -
  have "PortfolioRiskState_post_init example_portfolio = Inr ()"
    using example_request_valid
    by (simp add: valid_RiskRequest_def valid_PortfolioRiskState_def example_request_def)
  then show ?thesis
    unfolding to_risk_state_def example_managed_def example_portfolio_def by (simp add: construct_eq_Inr)
qed

lemma example_circuit_steps:
  "py_Decimal ''0.02'' = Dec False 2 (-2)" "py_Decimal ''0.10'' = Dec False 10 (-2)"
  "d_max (d_neg DECIMAL_PRECISION (Dec False 0 0)) d_zero = Dec False 0 0"
  "d_mul DECIMAL_PRECISION (Dec False 10000 0) (Dec False 2 (-2)) = Dec False 20000 (-2)"
  "d_sub DECIMAL_PRECISION (Dec False 1058500500 (-5)) (Dec False 1058500500 (-5)) = Dec False 0 (-5)"
  "d_mul DECIMAL_PRECISION (Dec False 1058500500 (-5)) (Dec False 10 (-2)) = Dec False 10585005000 (-7)"
  "d_le (Dec False 20000 (-2)) (Dec False 0 0) = False" "d_le (Dec False 10585005000 (-7)) (Dec False 0 (-5)) = False"
  by (simp_all add: py_eval)

lemma example_circuit_values:
  "circuit_values example_request example_managed = Inr
     \<lparr> cv_disposition = CD_CLEAR, cv_reason = CR_WITHIN_LIMITS, cv_triggered_breakers = [],
       cv_session_loss_quote = Dec False 0 0, cv_session_loss_limit_quote = Dec False 20000 (-2),
       cv_drawdown_quote = Dec False 0 (-5), cv_drawdown_limit_quote = Dec False 10585005000 (-7),
       cv_consecutive_losses = 0, cv_consecutive_loss_limit = 3 \<rparr>"
proof -
  have f: "rr_portfolio example_request = example_portfolio" "pr_kill_switch_active example_portfolio = False"
    "rp_max_session_loss_fraction (rr_policy example_request) = ''0.02''"
    "rp_max_drawdown_fraction (rr_policy example_request) = ''0.10''"
    "rp_max_consecutive_losses (rr_policy example_request) = 3"
    "sd_action (rr_strategy_decision example_request) = SA_ENTER_LONG"
    "mp_session_realized_pnl_quote example_managed = ''0''" "mp_session_start_equity_quote example_managed = ''10000''"
    "mp_peak_equity_quote example_managed = ''10585.00500''" "mp_equity_quote example_managed = ''10585.00500''"
    "mp_consecutive_losses example_managed = 0"
    by (simp_all add: example_request_def example_portfolio_def default_policy_def example_decision_def
        example_managed_def)
  show ?thesis
    unfolding circuit_values_def f example_risk_state Let_def example_state_literals example_circuit_steps
    by (simp add: circuit_disposition_def)
qed

lemma example_circuit_valid: "valid_CircuitAssessment example_circuit"
proof -
  have "replicate 4 CHR ''0'' = ''0000''" "replicate 2 CHR ''0'' = ''00''" by code_simp+
  then have "CircuitAssessment_post_init example_circuit = Inr ()"
    by (simp add: CircuitAssessment_post_init_def example_circuit_def example_circuit_values)
      (simp add: circuit_fields_def canonical_field_def py_eval)
  then show ?thesis
    using example_request_valid next_state_valid [OF example_second_state]
    by (simp add: valid_CircuitAssessment_def example_circuit_def)
qed

text \<open>C18. The circuit breakers trip exactly at their limits: valid circuit evidence reports the session
breaker if and only if the realized session loss has reached two percent of the session's starting
equity, the drawdown breaker if and only if the equity is at most nine tenths of the peak, the streak
breaker if and only if three closes in a row lost, and it clears an entry only when none is reported.
The thresholds are compared without rounding.\<close>

theorem circuit_breakers_exact:
  assumes "valid_CircuitAssessment a"
  shows "(CB_SESSION_LOSS_LIMIT \<in> set (ca_triggered_breakers a) \<longleftrightarrow>
       val (py_Decimal (mp_session_start_equity_quote (ca_managed_state a))) / 50
         \<le> - val (py_Decimal (mp_session_realized_pnl_quote (ca_managed_state a))))
     \<and> (CB_DRAWDOWN_LIMIT \<in> set (ca_triggered_breakers a) \<longleftrightarrow>
       val (py_Decimal (mp_equity_quote (ca_managed_state a)))
         \<le> val (py_Decimal (mp_peak_equity_quote (ca_managed_state a))) * (9 / 10))
     \<and> (CB_CONSECUTIVE_LOSS_LIMIT \<in> set (ca_triggered_breakers a) \<longleftrightarrow>
       3 \<le> mp_consecutive_losses (ca_managed_state a))
     \<and> (ca_disposition a = CD_CLEAR \<longleftrightarrow>
       sd_action (rr_strategy_decision (ca_request a)) = SA_ENTER_LONG \<and> ca_triggered_breakers a = [])"
proof -
  note V = valid_CircuitAssessmentD [OF assms]
  have "ca_disposition a = CD_CLEAR \<longleftrightarrow>
      sd_action (rr_strategy_decision (ca_request a)) = SA_ENTER_LONG \<and> ca_triggered_breakers a = []"
    using circuit_disposition_clear(1) V(2) by (metis fst_conv)
  then show ?thesis using V(1) by (simp add: breaker_tripped_def)
qed

theorem circuit_breakers_exact_witness:
  "ca_disposition example_circuit = CD_CLEAR \<and>
   \<not> val (py_Decimal (mp_equity_quote (ca_managed_state example_circuit)))
         \<le> val (py_Decimal (mp_peak_equity_quote (ca_managed_state example_circuit))) * (9 / 10)"
proof -
  have "ca_disposition example_circuit = CD_CLEAR" "ca_triggered_breakers example_circuit = []"
    by (simp_all add: example_circuit_def)
  with circuit_breakers_exact [OF example_circuit_valid] show ?thesis by auto
qed

end
