(* ===== verification/Kill_Switch.thy ===== *)
theory Kill_Switch
  imports Risk_Circuit
begin

text \<open>
  \<^verbatim>\<open>yatl/risk/kill_switch.py\<close>: the latched Paper safety state. It starts triggered, is
  released only by a manual reset with clear circuit evidence, and every state carries the
  digest of its predecessor.
\<close>

section \<open>Events\<close>

datatype KillSwitchMode = KM_INACTIVE | KM_TRIGGERED

fun KillSwitchMode_value :: "KillSwitchMode \<Rightarrow> string" where
  "KillSwitchMode_value KM_INACTIVE = ''INACTIVE''"
| "KillSwitchMode_value KM_TRIGGERED = ''TRIGGERED''"

datatype KillSwitchReason =
    KR_FAIL_CLOSED_STARTUP | KR_CIRCUIT_BREAKER_TRIGGERED | KR_LATCHED_UNTIL_MANUAL_RESET
  | KR_CIRCUIT_CLEAR | KR_MANUAL_RESET

fun KillSwitchReason_value :: "KillSwitchReason \<Rightarrow> string" where
  "KillSwitchReason_value KR_FAIL_CLOSED_STARTUP = ''FAIL_CLOSED_STARTUP''"
| "KillSwitchReason_value KR_CIRCUIT_BREAKER_TRIGGERED = ''CIRCUIT_BREAKER_TRIGGERED''"
| "KillSwitchReason_value KR_LATCHED_UNTIL_MANUAL_RESET = ''LATCHED_UNTIL_MANUAL_RESET''"
| "KillSwitchReason_value KR_CIRCUIT_CLEAR = ''CIRCUIT_CLEAR''"
| "KillSwitchReason_value KR_MANUAL_RESET = ''MANUAL_RESET''"

datatype KillSwitchEventType = KE_STARTUP | KE_CIRCUIT_OBSERVATION | KE_MANUAL_RESET

fun KillSwitchEventType_value :: "KillSwitchEventType \<Rightarrow> string" where
  "KillSwitchEventType_value KE_STARTUP = ''STARTUP''"
| "KillSwitchEventType_value KE_CIRCUIT_OBSERVATION = ''CIRCUIT_OBSERVATION''"
| "KillSwitchEventType_value KE_MANUAL_RESET = ''MANUAL_RESET''"

definition BREAKER_ORDER :: "CircuitBreaker list" where
  "BREAKER_ORDER = [CB_SESSION_LOSS_LIMIT, CB_DRAWDOWN_LIMIT, CB_CONSECUTIVE_LOSS_LIMIT]"

record KillSwitchEvent =
  ke_sequence :: int
  ke_event_time_ms :: int
  ke_event_type :: KillSwitchEventType
  ke_circuit_assessment :: "CircuitAssessment option"
  ke_manual_confirmation :: bool

definition KillSwitchEvent_post_init :: "KillSwitchEvent \<Rightarrow> unit result" where
  "KillSwitchEvent_post_init e =
     (if \<not> (0 \<le> ke_sequence e \<and> ke_sequence e \<le> 1000000000)
      then Inl (KillSwitchError ''Kill Switch event sequence is invalid'')
      else if ke_event_time_ms e < 0 then Inl (KillSwitchError ''Kill Switch event time is invalid'')
      else
        let valid =
          (case ke_event_type e of
             KE_STARTUP \<Rightarrow> ke_sequence e = 0 \<and> ke_circuit_assessment e = None \<and> \<not> ke_manual_confirmation e
           | KE_CIRCUIT_OBSERVATION \<Rightarrow> ke_circuit_assessment e \<noteq> None \<and> \<not> ke_manual_confirmation e
           | KE_MANUAL_RESET \<Rightarrow> ke_circuit_assessment e \<noteq> None \<and> ke_manual_confirmation e)
        in if \<not> valid then Inl (KillSwitchError ''Kill Switch event fields are inconsistent'')
           else if (case ke_circuit_assessment e of None \<Rightarrow> False
                    | Some a \<Rightarrow> mp_decision_time_ms (ca_managed_state a) > ke_event_time_ms e)
           then Inl (KillSwitchError ''Kill Switch event cannot use future circuit state'')
           else Inr ())"

definition ke_event_sha256 :: "KillSwitchEvent \<Rightarrow> string" where
  "ke_event_sha256 e = py_digest (JObj
     [(''schema_version'', JInt 1), (''sequence'', JInt (ke_sequence e)),
      (''event_time_ms'', JInt (ke_event_time_ms e)),
      (''event_type'', JStr (KillSwitchEventType_value (ke_event_type e))),
      (''circuit_sha256'', j_opt (\<lambda>a. JStr (circuit_sha256 a)) (ke_circuit_assessment e)),
      (''manual_confirmation'', JBool (ke_manual_confirmation e))])"

section \<open>States\<close>

record KillSwitchState =
  ks_mode :: KillSwitchMode
  ks_reason :: KillSwitchReason
  ks_sequence :: int
  ks_event_time_ms :: int
  ks_triggered_breakers :: "CircuitBreaker list"
  ks_last_circuit_time_ms :: "int option"
  ks_last_circuit_sha256 :: "string option"
  ks_previous_state_sha256 :: "string option"
  ks_event_sha256 :: string

definition mode_reason_valid :: "KillSwitchState \<Rightarrow> bool" where
  "mode_reason_valid s =
     (if ks_mode s = KM_INACTIVE
      then ks_reason s \<in> {KR_CIRCUIT_CLEAR, KR_MANUAL_RESET} \<and> ks_triggered_breakers s = []
      else if ks_reason s = KR_FAIL_CLOSED_STARTUP
      then ks_sequence s = 0 \<and> ks_triggered_breakers s = []
      else if ks_reason s = KR_CIRCUIT_BREAKER_TRIGGERED then ks_triggered_breakers s \<noteq> []
      else ks_reason s = KR_LATCHED_UNTIL_MANUAL_RESET)"

definition KillSwitchState_post_init :: "KillSwitchState \<Rightarrow> unit result" where
  "KillSwitchState_post_init s =
     (if \<not> (0 \<le> ks_sequence s \<and> ks_sequence s \<le> 1000000000)
      then Inl (KillSwitchError ''Kill Switch state sequence is invalid'')
      else if ks_event_time_ms s < 0 then Inl (KillSwitchError ''Kill Switch state time is invalid'')
      else if ks_triggered_breakers s \<noteq> filter (\<lambda>b. b \<in> set (ks_triggered_breakers s)) BREAKER_ORDER
      then Inl (KillSwitchError ''Triggered breaker reasons are invalid or unordered'')
      else if \<not> mode_reason_valid s
      then Inl (KillSwitchError ''Kill Switch mode and reason are inconsistent'')
      else if (ks_last_circuit_time_ms s = None) \<noteq> (ks_last_circuit_sha256 s = None)
      then Inl (KillSwitchError ''Last circuit time and digest must appear together'')
      else if (case (ks_last_circuit_time_ms s, ks_last_circuit_sha256 s) of
                 (Some t, Some h) \<Rightarrow> t < 0 \<or> t > ks_event_time_ms s \<or> \<not> valid_digest h
               | _ \<Rightarrow> False)
      then Inl (KillSwitchError ''Last circuit evidence is invalid'')
      else if ks_sequence s = 0
              \<and> (ks_mode s \<noteq> KM_TRIGGERED \<or> ks_reason s \<noteq> KR_FAIL_CLOSED_STARTUP
                 \<or> ks_previous_state_sha256 s \<noteq> None \<or> ks_last_circuit_time_ms s \<noteq> None
                 \<or> ks_triggered_breakers s \<noteq> [])
      then Inl (KillSwitchError ''Initial Kill Switch state must fail closed'')
      else if ks_sequence s \<noteq> 0
              \<and> (case ks_previous_state_sha256 s of None \<Rightarrow> True | Some h \<Rightarrow> \<not> valid_digest h)
      then Inl (KillSwitchError ''Kill Switch state is missing predecessor digest'')
      else if ks_sequence s \<noteq> 0 \<and> ks_last_circuit_time_ms s = None
      then Inl (KillSwitchError ''Advanced Kill Switch state requires circuit evidence'')
      else if \<not> valid_digest (ks_event_sha256 s)
      then Inl (KillSwitchError ''Kill Switch state event digest is invalid'')
      else Inr ())"

definition ks_active :: "KillSwitchState \<Rightarrow> bool" where
  "ks_active s \<longleftrightarrow> ks_mode s = KM_TRIGGERED"

definition ks_state_sha256 :: "KillSwitchState \<Rightarrow> string" where
  "ks_state_sha256 s = py_digest (JObj
     [(''schema_version'', JInt 1), (''mode'', JStr (KillSwitchMode_value (ks_mode s))),
      (''reason'', JStr (KillSwitchReason_value (ks_reason s))),
      (''sequence'', JInt (ks_sequence s)), (''event_time_ms'', JInt (ks_event_time_ms s)),
      (''triggered_breakers'', JList (map (\<lambda>b. JStr (CircuitBreaker_value b)) (ks_triggered_breakers s))),
      (''last_circuit_time_ms'', j_opt JInt (ks_last_circuit_time_ms s)),
      (''last_circuit_sha256'', j_opt JStr (ks_last_circuit_sha256 s)),
      (''previous_state_sha256'', j_opt JStr (ks_previous_state_sha256 s)),
      (''event_sha256'', JStr (ks_event_sha256 s))])"

section \<open>Transitions\<close>

definition merge_breakers :: "CircuitBreaker list \<Rightarrow> CircuitBreaker list \<Rightarrow> CircuitBreaker list" where
  "merge_breakers existing observed =
     filter (\<lambda>b. b \<in> set existing \<or> b \<in> set observed) BREAKER_ORDER"

text \<open>
  \<open>the\<close> is applied to the assessment of an event that is not a startup, which the event's
  constructor requires to be present.
\<close>

definition kill_switch_next :: "KillSwitchState option \<Rightarrow> KillSwitchEvent \<Rightarrow> KillSwitchState result" where
  "kill_switch_next previous_opt event =
     (case previous_opt of
        None \<Rightarrow>
          if ke_event_type event \<noteq> KE_STARTUP
          then Inl (KillSwitchError ''Kill Switch must begin with fail-closed startup'')
          else construct KillSwitchState_post_init
            \<lparr> ks_mode = KM_TRIGGERED, ks_reason = KR_FAIL_CLOSED_STARTUP,
              ks_sequence = ke_sequence event, ks_event_time_ms = ke_event_time_ms event,
              ks_triggered_breakers = [], ks_last_circuit_time_ms = None,
              ks_last_circuit_sha256 = None, ks_previous_state_sha256 = None,
              ks_event_sha256 = ke_event_sha256 event \<rparr>
      | Some previous \<Rightarrow>
          if ke_event_type event = KE_STARTUP
          then Inl (KillSwitchError ''Startup event cannot be repeated'')
          else if ke_sequence event \<noteq> ks_sequence previous + 1
          then Inl (KillSwitchError ''Kill Switch event sequence is duplicate or missing'')
          else if ke_event_time_ms event \<le> ks_event_time_ms previous
          then Inl (KillSwitchError ''Kill Switch event time is stale or out of order'')
          else
            let assessment = the (ke_circuit_assessment event);
                circuit_time = mp_decision_time_ms (ca_managed_state assessment);
                circuit_sha = circuit_sha256 assessment
            in if (case ks_last_circuit_time_ms previous of None \<Rightarrow> False | Some t \<Rightarrow> circuit_time \<le> t)
               then Inl (KillSwitchError ''Circuit evidence is stale or already consumed'')
               else
                 bind_r
                   (if ke_event_type event = KE_MANUAL_RESET
                    then if ks_mode previous \<noteq> KM_TRIGGERED
                         then Inl (KillSwitchError ''Only a triggered Kill Switch can be reset'')
                         else if ca_triggered_breakers assessment \<noteq> []
                         then Inl (KillSwitchError ''Manual reset requires current clear circuit evidence'')
                         else Inr (KM_INACTIVE, KR_MANUAL_RESET, [])
                    else if ca_triggered_breakers assessment \<noteq> []
                    then Inr (KM_TRIGGERED, KR_CIRCUIT_BREAKER_TRIGGERED,
                              merge_breakers (ks_triggered_breakers previous) (ca_triggered_breakers assessment))
                    else if ks_mode previous = KM_TRIGGERED
                    then Inr (KM_TRIGGERED, KR_LATCHED_UNTIL_MANUAL_RESET, ks_triggered_breakers previous)
                    else Inr (KM_INACTIVE, KR_CIRCUIT_CLEAR, []))
                   (\<lambda>(mode, reason, breakers).
                      construct KillSwitchState_post_init
                        \<lparr> ks_mode = mode, ks_reason = reason, ks_sequence = ke_sequence event,
                          ks_event_time_ms = ke_event_time_ms event, ks_triggered_breakers = breakers,
                          ks_last_circuit_time_ms = Some circuit_time,
                          ks_last_circuit_sha256 = Some circuit_sha,
                          ks_previous_state_sha256 = Some (ks_state_sha256 previous),
                          ks_event_sha256 = ke_event_sha256 event \<rparr>))"

record KillSwitchTransition =
  kt_previous :: "KillSwitchState option"
  kt_event :: KillSwitchEvent
  kt_current :: KillSwitchState

definition KillSwitchTransition_post_init :: "KillSwitchTransition \<Rightarrow> unit result" where
  "KillSwitchTransition_post_init t =
     bind_r (kill_switch_next (kt_previous t) (kt_event t)) (\<lambda>expected.
     if kt_current t \<noteq> expected
     then Inl (KillSwitchError ''Current Kill Switch state does not match transition'')
     else Inr ())"

definition apply_kill_switch_event ::
    "KillSwitchState option \<Rightarrow> KillSwitchEvent \<Rightarrow> KillSwitchTransition result" where
  "apply_kill_switch_event previous event =
     bind_r (kill_switch_next previous event) (\<lambda>current.
     construct KillSwitchTransition_post_init
       \<lparr> kt_previous = previous, kt_event = event, kt_current = current \<rparr>)"

definition valid_KillSwitchEvent :: "KillSwitchEvent \<Rightarrow> bool" where
  "valid_KillSwitchEvent e \<longleftrightarrow> KillSwitchEvent_post_init e = Inr ()
     \<and> (case ke_circuit_assessment e of None \<Rightarrow> True | Some a \<Rightarrow> valid_CircuitAssessment a)"

definition valid_KillSwitchState :: "KillSwitchState \<Rightarrow> bool" where
  "valid_KillSwitchState s \<longleftrightarrow> KillSwitchState_post_init s = Inr ()"

section \<open>One transition\<close>

lemma kill_switch_first:
  assumes "kill_switch_next None e = Inr s"
  shows "ks_sequence s = 0" "ks_previous_state_sha256 s = None" "ks_mode s = KM_TRIGGERED"
    "ke_event_type e = KE_STARTUP" "ks_triggered_breakers s = []"
  using assms
  by (auto simp: kill_switch_next_def construct_eq_Inr KillSwitchState_post_init_def mode_reason_valid_def
      split: if_splits)

text \<open>The breakers an event reports; a startup reports none.\<close>

definition reported :: "KillSwitchEvent \<Rightarrow> CircuitBreaker list" where
  "reported e = (if ke_event_type e = KE_STARTUP then []
     else ca_triggered_breakers (the (ke_circuit_assessment e)))"

lemma kill_switch_later:
  assumes "kill_switch_next (Some p) e = Inr s"
  shows "ks_sequence s = ks_sequence p + 1" "ks_event_time_ms p < ks_event_time_ms s"
    "ks_previous_state_sha256 s = Some (ks_state_sha256 p)" "ke_event_type e \<noteq> KE_STARTUP"
    "ke_event_type e = KE_MANUAL_RESET \<Longrightarrow> ks_mode p = KM_TRIGGERED \<and> reported e = [] \<and> ks_mode s = KM_INACTIVE
       \<and> ks_triggered_breakers s = []"
    "ke_event_type e = KE_CIRCUIT_OBSERVATION \<Longrightarrow>
       ks_mode s = (if reported e \<noteq> [] \<or> ks_mode p = KM_TRIGGERED then KM_TRIGGERED else KM_INACTIVE)
       \<and> ks_triggered_breakers s = (if reported e \<noteq> [] then merge_breakers (ks_triggered_breakers p) (reported e)
            else if ks_mode p = KM_TRIGGERED then ks_triggered_breakers p else [])"
    "ks_last_circuit_time_ms p = Some t \<Longrightarrow>
       t < mp_decision_time_ms (ca_managed_state (the (ke_circuit_assessment e)))"
    "ks_last_circuit_time_ms s = Some (mp_decision_time_ms (ca_managed_state (the (ke_circuit_assessment e))))"
  using assms
  by (auto simp: kill_switch_next_def construct_eq_Inr bind_r_eq_Inr Let_def reported_def split: if_splits)

interpretation kill_switch: hash_chain kill_switch_next ks_sequence ks_event_time_ms
  ks_previous_state_sha256 ks_state_sha256
  by unfold_locales (auto dest: kill_switch_first kill_switch_later)

lemma kill_switch_next_valid: "kill_switch_next p e = Inr s \<Longrightarrow> valid_KillSwitchState s"
  by (auto simp: kill_switch_next_def construct_eq_Inr bind_r_eq_Inr Let_def valid_KillSwitchState_def
      split: option.splits if_splits)

lemma apply_kill_switch_event_iff:
  "apply_kill_switch_event p e = Inr t \<longleftrightarrow>
     kill_switch_next p e = Inr (kt_current t) \<and> kt_previous t = p \<and> kt_event t = e"
  by (cases t) (auto simp: apply_kill_switch_event_def bind_r_eq_Inr construct_eq_Inr
      KillSwitchTransition_post_init_def)

lemma set_merge_breakers: "set (merge_breakers a b) = set a \<union> set b"
proof -
  have "x \<in> set BREAKER_ORDER" for x by (cases x) (simp_all add: BREAKER_ORDER_def)
  then show ?thesis by (auto simp: merge_breakers_def)
qed

section \<open>Runs\<close>

text \<open>A reset that an operator confirmed, the events after the last of them, and the breakers they
report. The confirmation is the event's own field, not a consequence of its type: only the event's
constructor ties the two together.\<close>

definition confirmed_reset :: "KillSwitchEvent \<Rightarrow> bool" where
  "confirmed_reset e \<longleftrightarrow> ke_event_type e = KE_MANUAL_RESET \<and> ke_manual_confirmation e"

definition since_reset :: "KillSwitchEvent list \<Rightarrow> KillSwitchEvent list" where
  "since_reset es = rev (takeWhile (\<lambda>e. \<not> confirmed_reset e) (rev es))"

definition was_reset :: "KillSwitchEvent list \<Rightarrow> bool" where
  "was_reset es \<longleftrightarrow> (\<exists>e\<in>set es. confirmed_reset e)"

lemma since_reset_snoc:
  "since_reset (es @ [e]) = (if confirmed_reset e then [] else since_reset es @ [e])"
  by (simp add: since_reset_def)

lemma was_reset_snoc: "was_reset (es @ [e]) \<longleftrightarrow> was_reset es \<or> confirmed_reset e"
  by (auto simp: was_reset_def)

text \<open>A constructed reset is a confirmed one.\<close>

lemma valid_reset_confirmed:
  "valid_KillSwitchEvent e \<Longrightarrow> confirmed_reset e \<longleftrightarrow> ke_event_type e = KE_MANUAL_RESET"
  by (auto simp: valid_KillSwitchEvent_def KillSwitchEvent_post_init_def confirmed_reset_def Let_def split: if_splits)

lemma kill_switch_run:
  "es \<noteq> [] \<Longrightarrow> list_all valid_KillSwitchEvent es \<Longrightarrow> chain_run kill_switch_next None es = Inr ss \<Longrightarrow>
     (ks_mode (last ss) = KM_INACTIVE \<longleftrightarrow> was_reset es \<and> (\<forall>e\<in>set (since_reset es). reported e = []))
     \<and> set (ks_triggered_breakers (last ss)) = (\<Union>e\<in>set (since_reset es). set (reported e))"
proof (induction es arbitrary: ss rule: rev_induct)
  case (snoc e es)
  from snoc.prems(2) have ve: "valid_KillSwitchEvent e" and ves: "list_all valid_KillSwitchEvent es" by simp_all
  note CR = valid_reset_confirmed [OF ve]
  from snoc.prems obtain ts s where ts: "chain_run kill_switch_next None es = Inr ts" and ss: "ss = ts @ [s]"
    and s: "kill_switch_next (if ts = [] then None else Some (last ts)) e = Inr s"
    by (auto simp: chain_run_snoc bind_r_eq_Inr)
  have n: "length ts = length es" using kill_switch.chain_run_linked [OF ts] by simp
  show ?case
  proof (cases "es = []")
    case True
    then have "kill_switch_next None e = Inr s" using s n by simp
    note F = kill_switch_first [OF this]
    show ?thesis using F by (simp add: True ss since_reset_def was_reset_def reported_def CR)
  next
    case False
    then have "ts \<noteq> []" using n by auto
    then have "kill_switch_next (Some (last ts)) e = Inr s" using s by simp
    note L = kill_switch_later [OF this]
    note IH = snoc.IH [OF False ves ts]
    show ?thesis
    proof (cases "ke_event_type e")
      case KE_MANUAL_RESET
      then show ?thesis using L(5) by (simp add: ss since_reset_snoc was_reset_snoc CR)
    next
      case KE_CIRCUIT_OBSERVATION
      have "ks_mode (last ts) = KM_TRIGGERED \<or> ks_mode (last ts) = KM_INACTIVE" by (cases "ks_mode (last ts)") auto
      then show ?thesis
        using L(6) [OF KE_CIRCUIT_OBSERVATION] IH KE_CIRCUIT_OBSERVATION
        by (auto simp: ss since_reset_snoc was_reset_snoc set_merge_breakers CR)
    qed (use L(4) in simp)
  qed
qed simp

section \<open>Properties\<close>

definition example_startup :: KillSwitchEvent where
  "example_startup = \<lparr> ke_sequence = 0, ke_event_time_ms = 1704063600000, ke_event_type = KE_STARTUP,
     ke_circuit_assessment = None, ke_manual_confirmation = False \<rparr>"

definition example_reset :: KillSwitchEvent where
  "example_reset = \<lparr> ke_sequence = 1, ke_event_time_ms = 1704067200000, ke_event_type = KE_MANUAL_RESET,
     ke_circuit_assessment = Some example_circuit, ke_manual_confirmation = True \<rparr>"

definition example_locked :: KillSwitchState where
  "example_locked = \<lparr> ks_mode = KM_TRIGGERED, ks_reason = KR_FAIL_CLOSED_STARTUP, ks_sequence = 0,
     ks_event_time_ms = 1704063600000, ks_triggered_breakers = [], ks_last_circuit_time_ms = None,
     ks_last_circuit_sha256 = None, ks_previous_state_sha256 = None,
     ks_event_sha256 = ke_event_sha256 example_startup \<rparr>"

definition example_released :: KillSwitchState where
  "example_released = \<lparr> ks_mode = KM_INACTIVE, ks_reason = KR_MANUAL_RESET, ks_sequence = 1,
     ks_event_time_ms = 1704067200000, ks_triggered_breakers = [],
     ks_last_circuit_time_ms = Some 1704067200000, ks_last_circuit_sha256 = Some (circuit_sha256 example_circuit),
     ks_previous_state_sha256 = Some (ks_state_sha256 example_locked),
     ks_event_sha256 = ke_event_sha256 example_reset \<rparr>"

lemma kill_switch_digests_valid [simp]:
  "valid_digest (ke_event_sha256 e)" "valid_digest (ks_state_sha256 s)" "valid_digest (circuit_sha256 a)"
  by (simp_all add: ke_event_sha256_def ks_state_sha256_def circuit_sha256_def)

lemma example_circuit_time: "mp_decision_time_ms (ca_managed_state example_circuit) = 1704067200000"
  "ca_triggered_breakers example_circuit = []"
  by (simp_all add: example_circuit_def example_managed_def)

lemma example_kill_switch_steps:
  "kill_switch_next None example_startup = Inr example_locked"
  "kill_switch_next (Some example_locked) example_reset = Inr example_released"
proof -
  show "kill_switch_next None example_startup = Inr example_locked"
    by (simp add: kill_switch_next_def example_locked_def construct_eq_Inr KillSwitchState_post_init_def
        mode_reason_valid_def) (simp add: example_startup_def)
  have "KillSwitchState_post_init example_released = Inr ()"
    by (simp add: KillSwitchState_post_init_def example_released_def mode_reason_valid_def)
  then show "kill_switch_next (Some example_locked) example_reset = Inr example_released"
    by (simp add: kill_switch_next_def example_reset_def example_circuit_time construct_eq_Inr Let_def
        example_released_def) (simp add: example_locked_def example_reset_def)
qed

lemma example_kill_switch_run:
  "chain_run kill_switch_next None [example_startup, example_reset] = Inr [example_locked, example_released]"
  by (simp add: example_kill_switch_steps)

lemma example_kill_switch_events_valid: "list_all valid_KillSwitchEvent [example_startup, example_reset]"
  using example_circuit_valid
  by (simp add: valid_KillSwitchEvent_def KillSwitchEvent_post_init_def example_startup_def example_reset_def
      example_circuit_time)

text \<open>C2. The kill switch latches: after any accepted sequence of constructed events it is released if and
only if a manual reset that carries the operator's confirmation happened and no breaker has been reported
since the last such reset, and the breakers it shows are exactly those reported since then. In particular
it is active at startup, clear circuit evidence alone never releases it, and neither does a reset that
nobody confirmed.\<close>

theorem kill_switch_latches:
  assumes "es \<noteq> []" and "list_all valid_KillSwitchEvent es" and "chain_run kill_switch_next None es = Inr ss"
  shows "(\<not> ks_active (last ss) \<longleftrightarrow>
      (\<exists>e \<in> set es. ke_event_type e = KE_MANUAL_RESET \<and> ke_manual_confirmation e)
      \<and> (\<forall>e \<in> set (since_reset es). reported e = []))
    \<and> set (ks_triggered_breakers (last ss)) = (\<Union>e \<in> set (since_reset es). set (reported e))"
proof -
  have "\<not> ks_active (last ss) \<longleftrightarrow> ks_mode (last ss) = KM_INACTIVE"
    by (cases "ks_mode (last ss)") (simp_all add: ks_active_def)
  with kill_switch_run [OF assms] show ?thesis by (simp add: was_reset_def confirmed_reset_def)
qed

theorem kill_switch_latches_witness:
  "\<not> ks_active example_released \<and> confirmed_reset example_reset
    \<and> (\<exists>e \<in> set [example_startup, example_reset]. ke_manual_confirmation e)"
proof -
  have "\<not> ks_active example_released" by (simp add: ks_active_def example_released_def)
  moreover have "confirmed_reset example_reset" by (simp add: confirmed_reset_def example_reset_def)
  ultimately show ?thesis
    using kill_switch_latches [OF _ example_kill_switch_events_valid example_kill_switch_run] by auto
qed

text \<open>The kill switch history is a chain: along any accepted sequence of kill switch
events the event times increase strictly, the sequence numbers count from zero, and every state after the
first carries the digest of its predecessor.\<close>

theorem kill_switch_chain:
  assumes "chain_run kill_switch_next None es = Inr ss" and "i < length ss"
  shows "ks_sequence (ss ! i) = int i \<and> sorted_wrt (<) (map ks_event_time_ms ss)
    \<and> ks_previous_state_sha256 (ss ! i)
        = (case i of 0 \<Rightarrow> None | Suc j \<Rightarrow> Some (ks_state_sha256 (ss ! j)))"
proof -
  have l: "kill_switch.linked None ss" using kill_switch.chain_run_linked [OF assms(1)] by simp
  show ?thesis using kill_switch.linked_nth [OF l assms(2)] kill_switch.linked_times [OF l] by (auto split: nat.splits)
qed

theorem kill_switch_chain_witness:
  "ks_previous_state_sha256 ([example_locked, example_released] ! 1)
     = Some (ks_state_sha256 ([example_locked, example_released] ! 0))"
  using kill_switch_chain [OF example_kill_switch_run, of 1] by simp

end
