(* ===== verification/Risk_Protective.thy ===== *)
theory Risk_Protective
  imports Risk_Sizing
begin

text \<open>
  \<^verbatim>\<open>yatl/risk/protective.py\<close>: the last gate before an entry: the levels must be ordered
  after costs, the worst loss must fit the budget and the reward at the target must be
  positive after all costs.
\<close>

section \<open>Definitions\<close>

datatype ProtectiveStatus = GATE_PASS | GATE_REJECT

datatype ProtectiveReason =
    PROTECTIVE_GATE_PASSED | PRIOR_LIMIT_REJECTED | INVALID_PROTECTIVE_LEVELS
  | NON_POSITIVE_POST_COST_REWARD | PLANNED_LOSS_EXCEEDS_BUDGET

fun ProtectiveStatus_value :: "ProtectiveStatus \<Rightarrow> string" where
  "ProtectiveStatus_value GATE_PASS = ''PASS''"
| "ProtectiveStatus_value GATE_REJECT = ''REJECT''"

fun ProtectiveReason_value :: "ProtectiveReason \<Rightarrow> string" where
  "ProtectiveReason_value PROTECTIVE_GATE_PASSED = ''PROTECTIVE_GATE_PASSED''"
| "ProtectiveReason_value PRIOR_LIMIT_REJECTED = ''PRIOR_LIMIT_REJECTED''"
| "ProtectiveReason_value INVALID_PROTECTIVE_LEVELS = ''INVALID_PROTECTIVE_LEVELS''"
| "ProtectiveReason_value NON_POSITIVE_POST_COST_REWARD = ''NON_POSITIVE_POST_COST_REWARD''"
| "ProtectiveReason_value PLANNED_LOSS_EXCEEDS_BUDGET = ''PLANNED_LOSS_EXCEEDS_BUDGET''"

fun LimitStatus_value :: "LimitStatus \<Rightarrow> string" where
  "LimitStatus_value LIMIT_PASS = ''PASS''"
| "LimitStatus_value LIMIT_REJECT = ''REJECT''"

fun LimitReason_value :: "LimitReason \<Rightarrow> string" where
  "LimitReason_value WITHIN_LIMITS = ''WITHIN_LIMITS''"
| "LimitReason_value CASH_INSUFFICIENT = ''CASH_INSUFFICIENT''"
| "LimitReason_value NOTIONAL_OR_EXPOSURE_LIMIT = ''NOTIONAL_OR_EXPOSURE_LIMIT''"

record ProtectiveValues =
  pv_status :: ProtectiveStatus
  pv_reason :: ProtectiveReason
  pv_quantity :: dec
  pv_reference_entry_price :: dec
  pv_reference_stop_price :: dec
  pv_reference_target_price :: dec
  pv_entry_execution_price :: dec
  pv_stop_execution_price :: dec
  pv_target_execution_price :: dec
  pv_entry_fee_quote :: dec
  pv_stop_fee_quote :: dec
  pv_target_fee_quote :: dec
  pv_worst_loss_quote :: dec
  pv_risk_budget_quote :: dec
  pv_net_reward_quote :: dec

text \<open>The amounts, and then the verdict on them.\<close>

definition protective_amounts :: "PositionSize \<Rightarrow> LongSetup \<Rightarrow> ProtectiveValues" where
  "protective_amounts sz setup =
     (let p = DECIMAL_PRECISION;
          quantity = py_Decimal (pz_quantity sz);
          entry_reference = py_Decimal (ls_reference_price setup);
          stop_reference = py_Decimal (ls_invalidation_price setup);
          target_reference = py_Decimal (ls_target_price setup);
          fee_rate = d_div p FEE_BPS BASIS_POINTS;
          slippage_rate = d_div p SLIPPAGE_BPS BASIS_POINTS;
          entry_execution = d_mul p entry_reference (d_add p d_one slippage_rate);
          stop_execution = d_mul p stop_reference (d_sub p d_one slippage_rate);
          target_execution = d_mul p target_reference (d_sub p d_one slippage_rate);
          entry_fee = d_mul p (d_mul p quantity entry_execution) fee_rate;
          stop_fee = d_mul p (d_mul p quantity stop_execution) fee_rate;
          target_fee = d_mul p (d_mul p quantity target_execution) fee_rate;
          worst_loss = d_add p (d_add p (d_mul p quantity (d_sub p entry_execution stop_execution)) entry_fee) stop_fee;
          net_reward = d_sub p (d_sub p (d_mul p quantity (d_sub p target_execution entry_execution)) entry_fee) target_fee
      in \<lparr> pv_status = GATE_REJECT, pv_reason = PRIOR_LIMIT_REJECTED, pv_quantity = quantity,
           pv_reference_entry_price = entry_reference, pv_reference_stop_price = stop_reference,
           pv_reference_target_price = target_reference, pv_entry_execution_price = entry_execution,
           pv_stop_execution_price = stop_execution, pv_target_execution_price = target_execution,
           pv_entry_fee_quote = entry_fee, pv_stop_fee_quote = stop_fee,
           pv_target_fee_quote = target_fee, pv_worst_loss_quote = worst_loss,
           pv_risk_budget_quote = py_Decimal (pz_risk_budget_quote sz),
           pv_net_reward_quote = net_reward \<rparr>)"

definition protective_verdict :: "LimitStatus \<Rightarrow> ProtectiveValues \<Rightarrow> ProtectiveStatus \<times> ProtectiveReason" where
  "protective_verdict limit_status v =
     (let levels_valid =
        (d_lt (pv_reference_stop_price v) (pv_reference_entry_price v)
         \<and> d_lt (pv_reference_entry_price v) (pv_reference_target_price v)
         \<and> d_lt d_zero (pv_stop_execution_price v)
         \<and> d_lt (pv_stop_execution_price v) (pv_entry_execution_price v))
      in if limit_status \<noteq> LIMIT_PASS then (GATE_REJECT, PRIOR_LIMIT_REJECTED)
         else if \<not> levels_valid then (GATE_REJECT, INVALID_PROTECTIVE_LEVELS)
         else if d_lt (pv_risk_budget_quote v) (pv_worst_loss_quote v)
         then (GATE_REJECT, PLANNED_LOSS_EXCEEDS_BUDGET)
         else if d_le (pv_net_reward_quote v) d_zero then (GATE_REJECT, NON_POSITIVE_POST_COST_REWARD)
         else (GATE_PASS, PROTECTIVE_GATE_PASSED))"

definition protective_values :: "EntryLimitAssessment \<Rightarrow> ProtectiveValues result" where
  "protective_values limit_assessment =
     (case sd_setup (rr_strategy_decision (pz_request (la_position_size limit_assessment))) of
        None \<Rightarrow> Inl (ProtectiveGateError ''Protective gate requires an entry setup'')
      | Some setup \<Rightarrow>
          let v = protective_amounts (la_position_size limit_assessment) setup;
              (status, reason) = protective_verdict (la_status limit_assessment) v
          in Inr (v\<lparr> pv_status := status, pv_reason := reason \<rparr>))"

record ProtectiveAssessment =
  pa_limit_assessment :: EntryLimitAssessment
  pa_status :: ProtectiveStatus
  pa_reason :: ProtectiveReason
  pa_quantity :: string
  pa_reference_entry_price :: string
  pa_reference_stop_price :: string
  pa_reference_target_price :: string
  pa_entry_execution_price :: string
  pa_stop_execution_price :: string
  pa_target_execution_price :: string
  pa_entry_fee_quote :: string
  pa_stop_fee_quote :: string
  pa_target_fee_quote :: string
  pa_worst_loss_quote :: string
  pa_risk_budget_quote :: string
  pa_net_reward_quote :: string

definition gate_fields :: "ProtectiveAssessment \<Rightarrow> ProtectiveValues \<Rightarrow> (string \<times> dec) list" where
  "gate_fields a v =
     [(pa_quantity a, pv_quantity v), (pa_reference_entry_price a, pv_reference_entry_price v),
      (pa_reference_stop_price a, pv_reference_stop_price v),
      (pa_reference_target_price a, pv_reference_target_price v),
      (pa_entry_execution_price a, pv_entry_execution_price v),
      (pa_stop_execution_price a, pv_stop_execution_price v),
      (pa_target_execution_price a, pv_target_execution_price v),
      (pa_entry_fee_quote a, pv_entry_fee_quote v), (pa_stop_fee_quote a, pv_stop_fee_quote v),
      (pa_target_fee_quote a, pv_target_fee_quote v), (pa_worst_loss_quote a, pv_worst_loss_quote v),
      (pa_risk_budget_quote a, pv_risk_budget_quote v)]"

definition ProtectiveAssessment_post_init :: "ProtectiveAssessment \<Rightarrow> unit result" where
  "ProtectiveAssessment_post_init a =
     bind_r (protective_values (pa_limit_assessment a)) (\<lambda>expected.
     if pa_status a \<noteq> pv_status expected \<or> pa_reason a \<noteq> pv_reason expected
     then Inl (ProtectiveGateError ''Protective status or reason is inconsistent'')
     else if \<not> list_all canonical_field (gate_fields a expected)
             \<or> \<not> (plain_signed (pa_net_reward_quote a)
                  \<and> pa_net_reward_quote a = d_format (pv_net_reward_quote expected))
     then Inl (ProtectiveGateError ''Protective assessment is noncanonical or inconsistent'')
     else if pa_worst_loss_quote a \<noteq> pz_planned_loss_quote (la_position_size (pa_limit_assessment a))
     then Inl (ProtectiveGateError ''Worst loss does not match accepted sizing'')
     else Inr ())"

definition pa_request_sha256 :: "ProtectiveAssessment \<Rightarrow> string" where
  "pa_request_sha256 a = la_request_sha256 (pa_limit_assessment a)"

definition gate_sha256 :: "ProtectiveAssessment \<Rightarrow> string" where
  "gate_sha256 a = py_digest (JObj
     [(''schema_version'', JInt 1), (''request_sha256'', JStr (pa_request_sha256 a)),
      (''limit_status'', JStr (LimitStatus_value (la_status (pa_limit_assessment a)))),
      (''limit_reason'', JStr (LimitReason_value (la_reason (pa_limit_assessment a)))),
      (''status'', JStr (ProtectiveStatus_value (pa_status a))),
      (''reason'', JStr (ProtectiveReason_value (pa_reason a))),
      (''quantity'', JStr (pa_quantity a)),
      (''reference_entry_price'', JStr (pa_reference_entry_price a)),
      (''reference_stop_price'', JStr (pa_reference_stop_price a)),
      (''reference_target_price'', JStr (pa_reference_target_price a)),
      (''entry_execution_price'', JStr (pa_entry_execution_price a)),
      (''stop_execution_price'', JStr (pa_stop_execution_price a)),
      (''target_execution_price'', JStr (pa_target_execution_price a)),
      (''entry_fee_quote'', JStr (pa_entry_fee_quote a)),
      (''stop_fee_quote'', JStr (pa_stop_fee_quote a)),
      (''target_fee_quote'', JStr (pa_target_fee_quote a)),
      (''worst_loss_quote'', JStr (pa_worst_loss_quote a)),
      (''risk_budget_quote'', JStr (pa_risk_budget_quote a)),
      (''net_reward_quote'', JStr (pa_net_reward_quote a))])"

definition assess_protective_entry :: "EntryLimitAssessment \<Rightarrow> ProtectiveAssessment result" where
  "assess_protective_entry limit_assessment =
     bind_r (protective_values limit_assessment) (\<lambda>v.
     construct ProtectiveAssessment_post_init
       \<lparr> pa_limit_assessment = limit_assessment, pa_status = pv_status v, pa_reason = pv_reason v,
         pa_quantity = d_format (pv_quantity v),
         pa_reference_entry_price = d_format (pv_reference_entry_price v),
         pa_reference_stop_price = d_format (pv_reference_stop_price v),
         pa_reference_target_price = d_format (pv_reference_target_price v),
         pa_entry_execution_price = d_format (pv_entry_execution_price v),
         pa_stop_execution_price = d_format (pv_stop_execution_price v),
         pa_target_execution_price = d_format (pv_target_execution_price v),
         pa_entry_fee_quote = d_format (pv_entry_fee_quote v),
         pa_stop_fee_quote = d_format (pv_stop_fee_quote v),
         pa_target_fee_quote = d_format (pv_target_fee_quote v),
         pa_worst_loss_quote = d_format (pv_worst_loss_quote v),
         pa_risk_budget_quote = d_format (pv_risk_budget_quote v),
         pa_net_reward_quote = d_format (pv_net_reward_quote v) \<rparr>)"

definition valid_ProtectiveAssessment :: "ProtectiveAssessment \<Rightarrow> bool" where
  "valid_ProtectiveAssessment a \<longleftrightarrow> ProtectiveAssessment_post_init a = Inr ()
     \<and> valid_EntryLimitAssessment (pa_limit_assessment a)"

section \<open>The gate, exactly\<close>

definition exact_target :: "LongSetup \<Rightarrow> rat" where
  "exact_target s = val (py_Decimal (ls_target_price s)) * (1 - 1 / 2000)"

text \<open>A product with a bounded price, and its fee, are exact.\<close>

lemma quantity_times_price:
  assumes "plain_unsigned q" "val p = x" "on_grid (-44) x" "\<bar>x\<bar> < 10 ^ 42"
  shows "val (d_mul DECIMAL_PRECISION (py_Decimal q) p) = val (py_Decimal q) * x"
    "on_grid (-84) (val (py_Decimal q) * x)" "\<bar>val (py_Decimal q) * x\<bar> < 10 ^ 82"
    "val (d_mul DECIMAL_PRECISION (d_mul DECIMAL_PRECISION (py_Decimal q) p)
       (d_div DECIMAL_PRECISION FEE_BPS BASIS_POINTS)) = val (py_Decimal q) * x / 1000"
    "on_grid (-88) (val (py_Decimal q) * x / 1000)"
proof -
  note Q = grid_plain [OF assms(1)]
  show g: "on_grid (-84) (val (py_Decimal q) * x)" using on_grid_mult [of "-40" _ "-44"] Q assms(3) by simp
  have "\<bar>val (py_Decimal q)\<bar> * \<bar>x\<bar> < 10 ^ 40 * 10 ^ 42" using Q assms(4) by (intro mult_strict_mono') auto
  then show b: "\<bar>val (py_Decimal q) * x\<bar> < 10 ^ 82" by (simp add: abs_mult)
  have "representable DECIMAL_PRECISION (val (py_Decimal q) * x)" by (rule representable_256 [OF g b]) simp
  then show e: "val (d_mul DECIMAL_PRECISION (py_Decimal q) p) = val (py_Decimal q) * x"
    by (simp add: val_d_mul assms(2))
  show f: "on_grid (-88) (val (py_Decimal q) * x / 1000)" using on_grid_div_int [OF g, of 10] by simp
  have "representable DECIMAL_PRECISION (val (py_Decimal q) * x / 1000)"
    by (rule representable_256 [OF f, of 82]) (use b in \<open>simp_all add: abs_mult\<close>)
  then show "val (d_mul DECIMAL_PRECISION (d_mul DECIMAL_PRECISION (py_Decimal q) p)
       (d_div DECIMAL_PRECISION FEE_BPS BASIS_POINTS)) = val (py_Decimal q) * x / 1000"
    by (simp add: val_d_mul e frozen_rates)
qed

lemma val_sum3_exact:
  assumes "on_grid (-88) (val a)" "on_grid (-88) (val b)" "on_grid (-88) (val c)"
    "\<bar>val a\<bar> < 10 ^ 83" "\<bar>val b\<bar> < 10 ^ 83" "\<bar>val c\<bar> < 10 ^ 83"
  shows "val (d_add DECIMAL_PRECISION (d_add DECIMAL_PRECISION a b) c) = val a + val b + val c"
    "val (d_sub DECIMAL_PRECISION (d_sub DECIMAL_PRECISION a b) c) = val a - val b - val c"
proof -
  have "representable DECIMAL_PRECISION (val a + val b)" "representable DECIMAL_PRECISION (val a + val b + val c)"
    "representable DECIMAL_PRECISION (val a - val b)" "representable DECIMAL_PRECISION (val a - val b - val c)"
    using assms by (auto intro!: representable_256 [of "-88" _ 84] on_grid_add on_grid_diff simp: abs_less_iff)
  then show "val (d_add DECIMAL_PRECISION (d_add DECIMAL_PRECISION a b) c) = val a + val b + val c"
    "val (d_sub DECIMAL_PRECISION (d_sub DECIMAL_PRECISION a b) c) = val a - val b - val c"
    by (simp_all add: val_d_add val_d_sub)
qed

lemma target_price_exact:
  assumes "valid_LongSetup s"
  shows "val (d_mul DECIMAL_PRECISION (py_Decimal (ls_target_price s))
      (d_sub DECIMAL_PRECISION d_one (d_div DECIMAL_PRECISION SLIPPAGE_BPS BASIS_POINTS))) = exact_target s"
    "on_grid (-44) (exact_target s)" "0 < exact_target s" "exact_target s < 10 ^ 41"
proof -
  let ?t = "val (py_Decimal (ls_target_price s))"
  have v: "on_grid (-40) ?t" "0 < ?t" "?t < 10 ^ 40"
    using assms grid_plain unfolding valid_LongSetup_iff by (blast, linarith, blast)
  show g: "on_grid (-44) (exact_target s)"
    using on_grid_div_int [OF v(1), of 9995] by (simp add: exact_target_def algebra_simps)
  show b: "0 < exact_target s" "exact_target s < 10 ^ 41" using v by (simp_all add: exact_target_def)
  have "representable DECIMAL_PRECISION (1 - 1 / 2000)"
    using on_grid_bps [OF on_grid_int [of 9995]] by (auto intro!: representable_256 [of "-4" _ 1])
  then have m: "val (d_sub DECIMAL_PRECISION d_one (d_div DECIMAL_PRECISION SLIPPAGE_BPS BASIS_POINTS)) = 1 - 1 / 2000"
    by (simp add: val_d_sub frozen_rates)
  have "representable DECIMAL_PRECISION (exact_target s)"
    by (rule representable_256 [OF g, of 41]) (use b in simp_all)
  then show "val (d_mul DECIMAL_PRECISION (py_Decimal (ls_target_price s))
      (d_sub DECIMAL_PRECISION d_one (d_div DECIMAL_PRECISION SLIPPAGE_BPS BASIS_POINTS))) = exact_target s"
    unfolding exact_target_def by (simp only: val_d_mul m precision_pos)
qed

lemma protective_amounts_exact:
  assumes s: "valid_LongSetup s" and q: "plain_unsigned (pz_quantity z)"
  defines "v \<equiv> protective_amounts z s" and "n \<equiv> val (py_Decimal (pz_quantity z))"
  shows "val (pv_worst_loss_quote v) = n * exact_unit_loss s"
    "val (pv_net_reward_quote v) = n * (exact_target s - exact_entry s)
       - n * exact_entry s / 1000 - n * exact_target s / 1000"
proof -
  note P = setup_prices_exact [OF s] and T = target_price_exact [OF s] and B = exact_setup_bounds [OF s]
  define E where "E = d_mul DECIMAL_PRECISION (py_Decimal (ls_reference_price s))
    (d_add DECIMAL_PRECISION d_one (d_div DECIMAL_PRECISION SLIPPAGE_BPS BASIS_POINTS))"
  define S where "S = d_mul DECIMAL_PRECISION (py_Decimal (ls_invalidation_price s))
    (d_sub DECIMAL_PRECISION d_one (d_div DECIMAL_PRECISION SLIPPAGE_BPS BASIS_POINTS))"
  define G where "G = d_mul DECIMAL_PRECISION (py_Decimal (ls_target_price s))
    (d_sub DECIMAL_PRECISION d_one (d_div DECIMAL_PRECISION SLIPPAGE_BPS BASIS_POINTS))"
  have e: "val E = exact_entry s" "val S = exact_stop s" "val G = exact_target s"
    using P T(1) by (simp_all add: E_def S_def G_def)
  have d: "on_grid (-44) (exact_entry s - exact_stop s)" "on_grid (-44) (exact_target s - exact_entry s)"
    "\<bar>exact_entry s - exact_stop s\<bar> < 10 ^ 42" "\<bar>exact_target s - exact_entry s\<bar> < 10 ^ 42"
    "\<bar>exact_entry s\<bar> < 10 ^ 42" "\<bar>exact_stop s\<bar> < 10 ^ 42" "\<bar>exact_target s\<bar> < 10 ^ 42"
    using B(1,2,4-6) T(2-4) by (auto intro: on_grid_diff simp: abs_less_iff)
  have "representable DECIMAL_PRECISION (exact_entry s - exact_stop s)"
    "representable DECIMAL_PRECISION (exact_target s - exact_entry s)"
    using representable_256 [OF d(1,3)] representable_256 [OF d(2,4)] by simp_all
  then have df: "val (d_sub DECIMAL_PRECISION E S) = exact_entry s - exact_stop s"
    "val (d_sub DECIMAL_PRECISION G E) = exact_target s - exact_entry s"
    by (simp_all add: val_d_sub e)
  note X1 = quantity_times_price [OF q df(1) d(1,3)] and X2 = quantity_times_price [OF q df(2) d(2,4)]
    and XE = quantity_times_price [OF q e(1) B(1) d(5)] and XS = quantity_times_price [OF q e(2) B(2) d(6)]
    and XT = quantity_times_price [OF q e(3) T(2) d(7)]
  have small: "\<bar>x / 1000\<bar> < 10 ^ 83" if "\<bar>x\<bar> < 10 ^ 82" for x :: rat using that by (simp add: abs_less_iff)
  have big: "\<bar>x\<bar> < 10 ^ 83" if "\<bar>x\<bar> < 10 ^ 82" for x :: rat using that by (simp add: abs_less_iff)
  have w: "pv_worst_loss_quote v = d_add DECIMAL_PRECISION (d_add DECIMAL_PRECISION
      (d_mul DECIMAL_PRECISION (py_Decimal (pz_quantity z)) (d_sub DECIMAL_PRECISION E S))
      (d_mul DECIMAL_PRECISION (d_mul DECIMAL_PRECISION (py_Decimal (pz_quantity z)) E)
        (d_div DECIMAL_PRECISION FEE_BPS BASIS_POINTS)))
      (d_mul DECIMAL_PRECISION (d_mul DECIMAL_PRECISION (py_Decimal (pz_quantity z)) S)
        (d_div DECIMAL_PRECISION FEE_BPS BASIS_POINTS))"
    and r: "pv_net_reward_quote v = d_sub DECIMAL_PRECISION (d_sub DECIMAL_PRECISION
      (d_mul DECIMAL_PRECISION (py_Decimal (pz_quantity z)) (d_sub DECIMAL_PRECISION G E))
      (d_mul DECIMAL_PRECISION (d_mul DECIMAL_PRECISION (py_Decimal (pz_quantity z)) E)
        (d_div DECIMAL_PRECISION FEE_BPS BASIS_POINTS)))
      (d_mul DECIMAL_PRECISION (d_mul DECIMAL_PRECISION (py_Decimal (pz_quantity z)) G)
        (d_div DECIMAL_PRECISION FEE_BPS BASIS_POINTS))"
    by (simp_all add: v_def protective_amounts_def Let_def E_def S_def G_def)
  have g: "on_grid (-88) (n * (exact_entry s - exact_stop s))" "on_grid (-88) (n * (exact_target s - exact_entry s))"
    using on_grid_coarser [OF X1(2), of "-88"] on_grid_coarser [OF X2(2), of "-88"] by (simp_all add: n_def)
  have "val (pv_worst_loss_quote v) = n * (exact_entry s - exact_stop s) + n * exact_entry s / 1000 + n * exact_stop s / 1000"
    unfolding w by (subst val_sum3_exact(1))
      (use X1 XE XS g small big in \<open>simp_all only: n_def\<close>)
  then show "val (pv_worst_loss_quote v) = n * exact_unit_loss s"
    by (simp add: exact_unit_loss_def distrib_left right_diff_distrib add_divide_distrib)
  show "val (pv_net_reward_quote v) = n * (exact_target s - exact_entry s)
       - n * exact_entry s / 1000 - n * exact_target s / 1000"
    unfolding r by (subst val_sum3_exact(2))
      (use X2 XE XT g small big in \<open>simp_all only: n_def\<close>)
qed


text \<open>The reward of the position if the target is hit, after slippage and fees on both sides.\<close>

definition exact_reward :: "LongSetup \<Rightarrow> rat \<Rightarrow> rat" where
  "exact_reward s n = n * (exact_target s - exact_entry s - (exact_entry s + exact_target s) / 1000)"

lemma levels_hold:
  fixes z :: PositionSize
  assumes "valid_LongSetup s"
  defines "v \<equiv> protective_amounts z s"
  shows "d_lt (pv_reference_stop_price v) (pv_reference_entry_price v)"
    "d_lt (pv_reference_entry_price v) (pv_reference_target_price v)"
    "d_lt d_zero (pv_stop_execution_price v)" "d_lt (pv_stop_execution_price v) (pv_entry_execution_price v)"
  using assms(1) exact_setup_bounds [OF assms(1)] setup_prices_exact [OF assms(1)]
  unfolding valid_LongSetup_iff v_def protective_amounts_def Let_def
  by (simp_all add: dec_val)

text \<open>
  On valid evidence only two of the four rejections can happen: the sizing already keeps
  the loss in the budget and the setup already orders the levels.
\<close>

lemma gate_exact:
  assumes "valid_ProtectiveAssessment a"
  defines "z \<equiv> la_position_size (pa_limit_assessment a)"
  obtains s where "sd_setup (rr_strategy_decision (pz_request z)) = Some s" "valid_LongSetup s"
    "valid_EntryLimitAssessment (pa_limit_assessment a)" "valid_PositionSize z"
    "plain_unsigned (pa_quantity a)" "val (py_Decimal (pa_quantity a)) = val (py_Decimal (pz_quantity z))"
    "val (py_Decimal (pa_net_reward_quote a)) = exact_reward s (val (py_Decimal (pz_quantity z)))"
    "(pa_status a, pa_reason a) =
       (if la_status (pa_limit_assessment a) \<noteq> LIMIT_PASS then (GATE_REJECT, PRIOR_LIMIT_REJECTED)
        else if exact_reward s (val (py_Decimal (pz_quantity z))) \<le> 0
        then (GATE_REJECT, NON_POSITIVE_POST_COST_REWARD)
        else (GATE_PASS, PROTECTIVE_GATE_PASSED))"
proof -
  have l: "valid_EntryLimitAssessment (pa_limit_assessment a)" and z: "valid_PositionSize z"
    using assms(1) by (simp_all add: valid_ProtectiveAssessment_def valid_EntryLimitAssessment_def z_def)
  obtain s where s: "sd_setup (rr_strategy_decision (pz_request z)) = Some s" "valid_LongSetup s"
    "plain_unsigned (pz_quantity z)"
    "val (py_Decimal (pz_quantity z)) * exact_unit_loss s
       \<le> val (py_Decimal (pr_equity_quote (rr_portfolio (pz_request z)))) / 100"
    using position_size_exact [OF z] by metis
  obtain w where w: "entry_values (pz_request z) = Inr w" "valid_RiskRequest (pz_request z)"
    "list_all canonical_field (size_fields z w)" by (rule valid_PositionSizeD [OF z])
  have budget: "val (py_Decimal (pz_risk_budget_quote z))
      = val (py_Decimal (pr_equity_quote (rr_portfolio (pz_request z)))) / 100"
    using entry_values_exact [OF w(2,1)] w(3) unfolding size_fields_def list.pred_inject
    by (metis canonical_val)
  let ?v = "protective_amounts z s" and ?n = "val (py_Decimal (pz_quantity z))"
  note A = protective_amounts_exact [OF s(2,3)] and L = levels_hold [OF s(2), of z]
  have rw: "val (pv_net_reward_quote ?v) = exact_reward s ?n"
    unfolding A(2) exact_reward_def by (simp add: right_diff_distrib distrib_left add_divide_distrib mult.left_commute mult.commute)
  have bq: "val (pv_risk_budget_quote ?v) = val (py_Decimal (pz_risk_budget_quote z))"
    by (simp add: protective_amounts_def Let_def)
  have nb: "\<not> d_lt (pv_risk_budget_quote ?v) (pv_worst_loss_quote ?v)"
    using s(4) by (simp add: dec_val A(1) bq budget)
  have vd: "protective_verdict st ?v =
      (if st \<noteq> LIMIT_PASS then (GATE_REJECT, PRIOR_LIMIT_REJECTED)
       else if exact_reward s ?n \<le> 0 then (GATE_REJECT, NON_POSITIVE_POST_COST_REWARD)
       else (GATE_PASS, PROTECTIVE_GATE_PASSED))" for st
    using L nb rw by (simp add: protective_verdict_def dec_val)
  have e: "protective_values (pa_limit_assessment a) = Inr (?v\<lparr> pv_status := fst (protective_verdict (la_status (pa_limit_assessment a)) ?v),
      pv_reason := snd (protective_verdict (la_status (pa_limit_assessment a)) ?v) \<rparr>)"
    using s(1) by (simp add: protective_values_def z_def Let_def split: prod.splits)
  have st: "(pa_status a, pa_reason a) = protective_verdict (la_status (pa_limit_assessment a)) ?v"
    and q: "canonical_field (pa_quantity a, pv_quantity ?v)"
    and n: "pa_net_reward_quote a = d_format (pv_net_reward_quote ?v)"
    using assms(1)
    by (auto simp: valid_ProtectiveAssessment_def ProtectiveAssessment_post_init_def e gate_fields_def
        split: if_splits)
  have "pv_quantity ?v = py_Decimal (pz_quantity z)" by (simp add: protective_amounts_def Let_def)
  then show thesis
    using q n rw by (intro that [OF s(1,2) l z _ _ _ st [unfolded vd]]) (auto simp: canonical_field_def)
qed

section \<open>Properties\<close>

text \<open>The protective gate passes an entry if and only if the limits passed and the reward at the
target is positive after slippage and fees on both sides; on evidence that was built by the accepted
sizing the two other rejections never happen, and a passing entry loses at most one percent of the
equity when it is stopped.\<close>

theorem protective_gate_decides:
  assumes "valid_ProtectiveAssessment a"
    and "sd_setup (rr_strategy_decision (pz_request (la_position_size (pa_limit_assessment a)))) = Some s"
  shows "pa_reason a \<notin> {INVALID_PROTECTIVE_LEVELS, PLANNED_LOSS_EXCEEDS_BUDGET} \<and>
    (let n = val (py_Decimal (pa_quantity a));
         equity = val (py_Decimal (pr_equity_quote
           (rr_portfolio (pz_request (la_position_size (pa_limit_assessment a))))));
         bought = val (py_Decimal (ls_reference_price s)) * (1 + 1 / 2000);
         stopped = val (py_Decimal (ls_invalidation_price s)) * (1 - 1 / 2000);
         sold = val (py_Decimal (ls_target_price s)) * (1 - 1 / 2000)
     in n * (bought - stopped + (bought + stopped) / 1000) \<le> equity / 100
        \<and> (pa_status a = GATE_PASS \<longleftrightarrow> la_status (pa_limit_assessment a) = LIMIT_PASS
              \<and> 0 < n * (sold - bought - (bought + sold) / 1000)))"
proof -
  let ?z = "la_position_size (pa_limit_assessment a)"
  obtain s' where g: "sd_setup (rr_strategy_decision (pz_request ?z)) = Some s'" "valid_PositionSize ?z"
    "val (py_Decimal (pa_quantity a)) = val (py_Decimal (pz_quantity ?z))"
    "(pa_status a, pa_reason a) =
       (if la_status (pa_limit_assessment a) \<noteq> LIMIT_PASS then (GATE_REJECT, PRIOR_LIMIT_REJECTED)
        else if exact_reward s' (val (py_Decimal (pz_quantity ?z))) \<le> 0
        then (GATE_REJECT, NON_POSITIVE_POST_COST_REWARD) else (GATE_PASS, PROTECTIVE_GATE_PASSED))"
    using gate_exact [OF assms(1)] by metis
  have "s' = s" using g(1) assms(2) by simp
  note G = g(3,4) [unfolded this]
  have r: "pa_reason a \<notin> {INVALID_PROTECTIVE_LEVELS, PLANNED_LOSS_EXCEEDS_BUDGET}"
    using G(2) by (auto split: if_splits)
  have p: "pa_status a = GATE_PASS \<longleftrightarrow>
      la_status (pa_limit_assessment a) = LIMIT_PASS \<and> 0 < exact_reward s (val (py_Decimal (pa_quantity a)))"
    using G by (auto simp: not_le split: if_splits)
  obtain s'' where "sd_setup (rr_strategy_decision (pz_request ?z)) = Some s''"
    "val (py_Decimal (pz_quantity ?z)) * exact_unit_loss s''
       \<le> val (py_Decimal (pr_equity_quote (rr_portfolio (pz_request ?z)))) / 100"
    using position_size_exact [OF g(2)] by metis
  then have b: "val (py_Decimal (pa_quantity a)) * exact_unit_loss s
       \<le> val (py_Decimal (pr_equity_quote (rr_portfolio (pz_request ?z)))) / 100"
    using assms(2) G(1) by simp
  show ?thesis
    using r p b unfolding Let_def exact_unit_loss_def exact_reward_def exact_entry_def exact_stop_def exact_target_def
    by blast
qed

definition example_gate :: ProtectiveAssessment where
  "example_gate = \<lparr> pa_limit_assessment = example_limits, pa_status = GATE_PASS,
     pa_reason = PROTECTIVE_GATE_PASSED, pa_quantity = ''20'', pa_reference_entry_price = ''100'',
     pa_reference_stop_price = ''95'', pa_reference_target_price = ''115'',
     pa_entry_execution_price = ''100.0500'', pa_stop_execution_price = ''94.9525'',
     pa_target_execution_price = ''114.9425'', pa_entry_fee_quote = ''2.0010000'',
     pa_stop_fee_quote = ''1.8990500'', pa_target_fee_quote = ''2.2988500'',
     pa_worst_loss_quote = ''105.8500500'', pa_risk_budget_quote = ''105.8500500'',
     pa_net_reward_quote = ''293.5501500'' \<rparr>"

lemma example_gate_steps:
  "py_Decimal ''115'' = Dec False 115 0" "py_Decimal ''105.8500500'' = Dec False 1058500500 (-7)"
  "d_mul DECIMAL_PRECISION (Dec False 115 0) (Dec False 9995 (-4)) = Dec False 1149425 (-4)"
  "d_mul DECIMAL_PRECISION (Dec False 20010000 (-4)) (Dec False 1 (-3)) = Dec False 20010000 (-7)"
  "d_mul DECIMAL_PRECISION (Dec False 20 0) (Dec False 949525 (-4)) = Dec False 18990500 (-4)"
  "d_mul DECIMAL_PRECISION (Dec False 18990500 (-4)) (Dec False 1 (-3)) = Dec False 18990500 (-7)"
  "d_mul DECIMAL_PRECISION (Dec False 20 0) (Dec False 1149425 (-4)) = Dec False 22988500 (-4)"
  "d_mul DECIMAL_PRECISION (Dec False 22988500 (-4)) (Dec False 1 (-3)) = Dec False 22988500 (-7)"
  "d_mul DECIMAL_PRECISION (Dec False 20 0) (Dec False 50975 (-4)) = Dec False 1019500 (-4)"
  "d_add DECIMAL_PRECISION (Dec False 1019500 (-4)) (Dec False 20010000 (-7)) = Dec False 1039510000 (-7)"
  "d_add DECIMAL_PRECISION (Dec False 1039510000 (-7)) (Dec False 18990500 (-7)) = Dec False 1058500500 (-7)"
  "d_sub DECIMAL_PRECISION (Dec False 1149425 (-4)) (Dec False 1000500 (-4)) = Dec False 148925 (-4)"
  "d_mul DECIMAL_PRECISION (Dec False 20 0) (Dec False 148925 (-4)) = Dec False 2978500 (-4)"
  "d_sub DECIMAL_PRECISION (Dec False 2978500 (-4)) (Dec False 20010000 (-7)) = Dec False 2958490000 (-7)"
  "d_sub DECIMAL_PRECISION (Dec False 2958490000 (-7)) (Dec False 22988500 (-7)) = Dec False 2935501500 (-7)"
  by (simp_all add: py_eval)

definition example_amounts :: ProtectiveValues where
  "example_amounts = \<lparr> pv_status = GATE_REJECT, pv_reason = PRIOR_LIMIT_REJECTED, pv_quantity = Dec False 20 0,
     pv_reference_entry_price = Dec False 100 0, pv_reference_stop_price = Dec False 95 0,
     pv_reference_target_price = Dec False 115 0, pv_entry_execution_price = Dec False 1000500 (-4),
     pv_stop_execution_price = Dec False 949525 (-4), pv_target_execution_price = Dec False 1149425 (-4),
     pv_entry_fee_quote = Dec False 20010000 (-7), pv_stop_fee_quote = Dec False 18990500 (-7),
     pv_target_fee_quote = Dec False 22988500 (-7), pv_worst_loss_quote = Dec False 1058500500 (-7),
     pv_risk_budget_quote = Dec False 1058500500 (-7), pv_net_reward_quote = Dec False 2935501500 (-7) \<rparr>"

lemma example_protective_amounts: "protective_amounts example_size example_setup = example_amounts"
proof -
  have f: "pz_quantity example_size = ''20''" "pz_risk_budget_quote example_size = ''105.8500500''"
    "ls_reference_price example_setup = ''100''" "ls_invalidation_price example_setup = ''95''"
    "ls_target_price example_setup = ''115''"
    by (simp_all add: example_size_def example_setup_def)
  show ?thesis
    unfolding protective_amounts_def Let_def
    by (simp only: f example_literals example_limit_steps frozen_rate_literals example_steps example_gate_steps
        example_amounts_def)
qed

lemma example_protective_values:
  "protective_values example_limits = Inr (example_amounts\<lparr> pv_status := GATE_PASS, pv_reason := PROTECTIVE_GATE_PASSED \<rparr>)"
proof -
  have f: "la_position_size example_limits = example_size" "la_status example_limits = LIMIT_PASS"
    by (simp_all add: example_limits_def)
  have v: "protective_verdict LIMIT_PASS example_amounts = (GATE_PASS, PROTECTIVE_GATE_PASSED)"
    by (simp add: protective_verdict_def example_amounts_def py_eval)
  show ?thesis
    using example_limits_setup
    by (simp add: protective_values_def f example_protective_amounts v del: ProtectiveValues.update_convs)
qed

lemma example_gate_valid: "valid_ProtectiveAssessment example_gate"
proof -
  have "ProtectiveAssessment_post_init example_gate = Inr ()"
    unfolding ProtectiveAssessment_post_init_def
    by (simp add: example_gate_def example_protective_values)
      (simp add: gate_fields_def canonical_field_def example_amounts_def example_limits_def example_size_def py_eval)
  then show ?thesis using example_limits_valid by (simp add: valid_ProtectiveAssessment_def example_gate_def)
qed

lemma example_gate_limits: "pa_limit_assessment example_gate = example_limits"
  by (simp add: example_gate_def)

theorem protective_gate_decides_witness:
  "pa_status example_gate = GATE_PASS \<and> la_status (pa_limit_assessment example_gate) = LIMIT_PASS"
proof -
  have "pa_status example_gate = GATE_PASS" by (simp add: example_gate_def)
  with protective_gate_decides [OF example_gate_valid, unfolded example_gate_limits, OF example_limits_setup]
  show ?thesis unfolding Let_def example_gate_limits by blast
qed

end
