(* ===== verification/Strategy_Features.thy ===== *)
theory Strategy_Features
  imports Strategy_Contracts Backtest_Costs
begin

text \<open>
  \<^verbatim>\<open>yatl/strategy/features.py\<close> and \<^verbatim>\<open>yatl/strategy/regime.py\<close>: the
  point-in-time indicators over closed candles and the frozen 4h regime rule. All
  arithmetic runs at 256 digits; the lemmas use that rounding is monotone, so bounds that
  hold for the exact numbers hold for the rounded ones.
\<close>

section \<open>Results\<close>

definition MAX_FEATURE_CANDLES :: nat where "MAX_FEATURE_CANDLES = 100000"
definition MAX_FEATURE_PERIOD :: int where "MAX_FEATURE_PERIOD = 10000"

datatype FeatureState = FS_READY | FS_INSUFFICIENT_HISTORY

record FeatureResult =
  ft_name :: string
  ft_period :: int
  ft_decision_time_ms :: int
  ft_observed :: int
  ft_warmup_required :: int
  ft_state :: FeatureState
  ft_value :: "dec option"

definition FeatureResult_post_init :: "FeatureResult \<Rightarrow> unit result" where
  "FeatureResult_post_init r =
     (if ft_name r = [] \<or> ft_period r \<le> 0 \<or> ft_decision_time_ms r \<le> 0 \<or> ft_observed r < 0
         \<or> ft_warmup_required r \<le> 0
         \<or> (ft_state r = FS_READY \<and> (ft_value r = None \<or> ft_observed r < ft_warmup_required r))
         \<or> (ft_state r = FS_INSUFFICIENT_HISTORY
            \<and> (ft_value r \<noteq> None \<or> ft_observed r \<ge> ft_warmup_required r))
      then Inl (FeatureError ''Feature result is inconsistent'') else Inr ())"

definition ft_available :: "FeatureResult \<Rightarrow> bool" where
  "ft_available r \<longleftrightarrow> ft_state r = FS_READY"

definition feature_period :: "int \<Rightarrow> int result" where
  "feature_period v = (if \<not> (1 \<le> v \<and> v \<le> MAX_FEATURE_PERIOD)
     then Inl (FeatureError ''Feature period is invalid'') else Inr v)"

text \<open>The loop over the visible candles: one symbol, one interval, all closed, no gap.\<close>

fun series_loop :: "Candle \<Rightarrow> Candle option \<Rightarrow> Candle list \<Rightarrow> unit result" where
  "series_loop first previous [] = Inr ()"
| "series_loop first previous (c # cs) =
     (if cd_symbol c \<noteq> cd_symbol first \<or> cd_interval c \<noteq> cd_interval first \<or> \<not> cd_is_closed c
         \<or> (case previous of None \<Rightarrow> False
            | Some p \<Rightarrow> cd_open_time_ms c \<noteq> cd_open_time_ms p + interval_ms (cd_interval first))
      then Inl (FeatureError ''Feature candle series is inconsistent'')
      else series_loop first (Some c) cs)"

definition feature_visible :: "Candle list \<Rightarrow> int \<Rightarrow> Candle list result" where
  "feature_visible candles decision_time_ms =
     (if length candles > MAX_FEATURE_CANDLES \<or> decision_time_ms \<le> 0
      then Inl (FeatureError ''Feature input identity is invalid'')
      else let visible = filter (\<lambda>c. cd_close_time_ms c < decision_time_ms) candles
           in if visible = [] then Inr []
              else bind_r (series_loop (hd visible) None visible) (\<lambda>_. Inr visible))"

definition feature_result ::
    "string \<Rightarrow> int \<Rightarrow> int \<Rightarrow> Candle list \<Rightarrow> int \<Rightarrow> dec option \<Rightarrow> FeatureResult result" where
  "feature_result name period decision_time_ms visible required v =
     construct FeatureResult_post_init
       (if int (length visible) < required
        then \<lparr> ft_name = name, ft_period = period, ft_decision_time_ms = decision_time_ms,
               ft_observed = int (length visible), ft_warmup_required = required,
               ft_state = FS_INSUFFICIENT_HISTORY, ft_value = None \<rparr>
        else \<lparr> ft_name = name, ft_period = period, ft_decision_time_ms = decision_time_ms,
               ft_observed = int (length visible), ft_warmup_required = required,
               ft_state = FS_READY, ft_value = v \<rparr>)"

text \<open>
  The frame every indicator shares: check the period, filter the candles, report
  insufficient history below the warm-up, otherwise compute on the visible candles.
\<close>

definition feature ::
    "string \<Rightarrow> int \<Rightarrow> (Candle list \<Rightarrow> nat \<Rightarrow> dec) \<Rightarrow> Candle list \<Rightarrow> int \<Rightarrow> int \<Rightarrow> FeatureResult result" where
  "feature name extra compute candles period decision_time_ms =
     bind_r (feature_period period) (\<lambda>period.
     bind_r (feature_visible candles decision_time_ms) (\<lambda>visible.
     if int (length visible) < period + extra
     then feature_result name period decision_time_ms visible (period + extra) None
     else feature_result name period decision_time_ms visible (period + extra)
            (Some (compute visible (nat period)))))"

definition last_n :: "nat \<Rightarrow> 'a list \<Rightarrow> 'a list" where
  "last_n n xs = drop (length xs - n) xs"

section \<open>Indicators\<close>

definition close_of :: "Candle \<Rightarrow> dec" where "close_of c = py_Decimal (cd_close c)"
definition high_of :: "Candle \<Rightarrow> dec" where "high_of c = py_Decimal (cd_high c)"
definition low_of :: "Candle \<Rightarrow> dec" where "low_of c = py_Decimal (cd_low c)"

definition simple_return_value :: "Candle list \<Rightarrow> nat \<Rightarrow> dec" where
  "simple_return_value visible period =
     d_sub DECIMAL_PRECISION
       (d_div DECIMAL_PRECISION (close_of (last visible))
          (close_of (visible ! (length visible - (period + 1))))) d_one"

definition simple_return :: "Candle list \<Rightarrow> int \<Rightarrow> int \<Rightarrow> FeatureResult result" where
  "simple_return = feature ''SIMPLE_RETURN'' 1 simple_return_value"

text \<open>\<^verbatim>\<open>max(generator)\<close> and \<^verbatim>\<open>min(generator)\<close> over a non-empty sequence.\<close>

definition d_max_list :: "dec list \<Rightarrow> dec" where "d_max_list xs = foldl d_max (hd xs) (tl xs)"
definition d_min_list :: "dec list \<Rightarrow> dec" where "d_min_list xs = foldl d_min (hd xs) (tl xs)"

definition rolling_high :: "Candle list \<Rightarrow> int \<Rightarrow> int \<Rightarrow> FeatureResult result" where
  "rolling_high = feature ''ROLLING_HIGH'' 0 (\<lambda>visible period. d_max_list (map high_of (last_n period visible)))"

definition rolling_low :: "Candle list \<Rightarrow> int \<Rightarrow> int \<Rightarrow> FeatureResult result" where
  "rolling_low = feature ''ROLLING_LOW'' 0 (\<lambda>visible period. d_min_list (map low_of (last_n period visible)))"

definition d_mean :: "dec list \<Rightarrow> int \<Rightarrow> dec" where
  "d_mean xs n = d_div DECIMAL_PRECISION (d_sum DECIMAL_PRECISION xs) (dec_of_int n)"

definition sma :: "Candle list \<Rightarrow> int \<Rightarrow> int \<Rightarrow> FeatureResult result" where
  "sma = feature ''SMA'' 0 (\<lambda>visible period. d_mean (map close_of (last_n period visible)) (int period))"

definition ema_value :: "Candle list \<Rightarrow> nat \<Rightarrow> dec" where
  "ema_value visible period =
     (let p = DECIMAL_PRECISION; values = map close_of visible;
          start = d_mean (take period values) (int period);
          alpha = d_div p (dec_of_int 2) (dec_of_int (int period + 1))
      in foldl (\<lambda>current v. d_add p (d_mul p alpha v) (d_mul p (d_sub p d_one alpha) current))
           start (drop period values))"

definition ema :: "Candle list \<Rightarrow> int \<Rightarrow> int \<Rightarrow> FeatureResult result" where
  "ema = feature ''EMA'' 0 ema_value"

text \<open>Wilder smoothing, as \<^verbatim>\<open>atr\<close> and \<^verbatim>\<open>rsi\<close> do it.\<close>

definition wilder_step :: "nat \<Rightarrow> dec \<Rightarrow> dec \<Rightarrow> dec" where
  "wilder_step period current v =
     d_div DECIMAL_PRECISION
       (d_add DECIMAL_PRECISION (d_mul DECIMAL_PRECISION current (dec_of_int (int period - 1))) v)
       (dec_of_int (int period))"

definition wilder :: "nat \<Rightarrow> dec list \<Rightarrow> dec" where
  "wilder period xs = foldl (wilder_step period) (d_mean (take period xs) (int period)) (drop period xs)"

definition true_range :: "Candle \<times> Candle \<Rightarrow> dec" where
  "true_range pc =
     (let p = DECIMAL_PRECISION; high = high_of (snd pc); low = low_of (snd pc);
          prior_close = close_of (fst pc)
      in d_max (d_max (d_sub p high low) (d_abs p (d_sub p high prior_close)))
           (d_abs p (d_sub p low prior_close)))"

definition atr :: "Candle list \<Rightarrow> int \<Rightarrow> int \<Rightarrow> FeatureResult result" where
  "atr = feature ''ATR'' 1 (\<lambda>visible period. wilder period (map true_range (zip visible (tl visible))))"

definition rsi_value :: "Candle list \<Rightarrow> nat \<Rightarrow> dec" where
  "rsi_value visible period =
     (let p = DECIMAL_PRECISION; closes = map close_of visible;
          changes = map (\<lambda>(previous, current). d_sub p current previous) (zip closes (tl closes));
          gains = map (\<lambda>v. d_max v d_zero) changes;
          losses = map (\<lambda>v. d_max (d_neg p v) d_zero) changes;
          average_gain = wilder period gains;
          average_loss = wilder period losses
      in if d_eq average_gain d_zero \<and> d_eq average_loss d_zero then dec_of_int 50
         else if d_eq average_loss d_zero then dec_of_int 100
         else if d_eq average_gain d_zero then dec_of_int 0
         else d_sub p (dec_of_int 100)
                (d_div p (dec_of_int 100)
                   (d_add p d_one (d_div p average_gain average_loss))))"

definition rsi :: "Candle list \<Rightarrow> int \<Rightarrow> int \<Rightarrow> FeatureResult result" where
  "rsi = feature ''RSI'' 1 rsi_value"

section \<open>The frame\<close>

lemma feature_Inr:
  assumes "feature name extra f cs p t = Inr r" "0 \<le> extra"
  obtains vs where "feature_visible cs t = Inr vs" "1 \<le> p" "p \<le> MAX_FEATURE_PERIOD" "0 < t"
    "ft_available r \<longleftrightarrow> p + extra \<le> int (length vs)"
    "ft_value r = (if p + extra \<le> int (length vs) then Some (f vs (nat p)) else None)"
proof -
  obtain vs where vs: "feature_visible cs t = Inr vs" and p: "1 \<le> p" "p \<le> MAX_FEATURE_PERIOD"
    and r: "(if int (length vs) < p + extra then feature_result name p t vs (p + extra) None
             else feature_result name p t vs (p + extra) (Some (f vs (nat p)))) = Inr r"
    using assms(1) by (auto simp: feature_def bind_r_eq_Inr feature_period_def split: if_splits)
  have "0 < t" using vs by (auto simp: feature_visible_def split: if_splits)
  then show thesis
    using r by (intro that [OF vs p]) (auto simp: feature_result_def construct_eq_Inr ft_available_def split: if_splits)
qed

lemma feature_visible_Inr:
  "feature_visible cs t = Inr vs \<Longrightarrow> vs = filter (\<lambda>c. cd_close_time_ms c < t) cs \<and> length cs \<le> MAX_FEATURE_CANDLES"
  by (auto simp: feature_visible_def bind_r_eq_Inr Let_def split: if_splits)

text \<open>No indicator can see a candle that closes at or after the decision.\<close>

lemma feature_cut:
  "length cs \<le> MAX_FEATURE_CANDLES \<Longrightarrow>
     feature name extra f (visible_before t cs) p t = feature name extra f cs p t"
proof -
  assume n: "length cs \<le> MAX_FEATURE_CANDLES"
  have "length (filter (\<lambda>c. cd_close_time_ms c < t) cs) \<le> MAX_FEATURE_CANDLES"
    using n length_filter_le [of _ cs] by (rule order_trans [rotated])
  then have "feature_visible (visible_before t cs) t = feature_visible cs t"
    using n unfolding visible_before_def feature_visible_def by (auto simp: Let_def)
  then show ?thesis by (simp add: feature_def)
qed

section \<open>Bounds of the indicators\<close>

lemma val_d_max_list: "xs \<noteq> [] \<Longrightarrow> val (d_max_list xs) = Max (val ` set xs)"
proof (induction xs rule: rev_induct)
  case (snoc x xs)
  show ?case
  proof (cases "xs = []")
    case False
    then have "d_max_list (xs @ [x]) = d_max (d_max_list xs) x" by (simp add: d_max_list_def)
    then show ?thesis using snoc False by (simp add: d_max_val max.commute)
  qed (simp add: d_max_list_def)
qed simp

lemma val_d_min_list: "xs \<noteq> [] \<Longrightarrow> val (d_min_list xs) = Min (val ` set xs)"
proof (induction xs rule: rev_induct)
  case (snoc x xs)
  show ?case
  proof (cases "xs = []")
    case False
    then have "d_min_list (xs @ [x]) = d_min (d_min_list xs) x" by (simp add: d_min_list_def)
    then show ?thesis using snoc False by (simp add: d_min_val min.commute)
  qed (simp add: d_min_list_def)
qed simp

text \<open>Numbers of candle size: a multiple of \<open>10\<^sup>-\<^sup>4\<^sup>0\<close> below \<open>10\<^sup>4\<^sup>0\<close>.\<close>

definition price_like :: "rat \<Rightarrow> bool" where
  "price_like x \<longleftrightarrow> on_grid (-40) x \<and> \<bar>x\<bar> < 10 ^ 40"

lemma price_like_plain: "plain_unsigned s \<Longrightarrow> price_like (val (py_Decimal s))"
  using grid_plain [of s] by (simp add: price_like_def)

lemma price_like_scaled:
  assumes "price_like x" "\<bar>k\<bar> \<le> 100000"
  shows "representable DECIMAL_PRECISION (x * of_int k)"
proof (rule representable_256 [of "-40" _ 46])
  show "on_grid (-40) (x * of_int k)"
    using on_grid_mult [of "-40" x 0 "of_int k"] on_grid_int [of k] assms(1) by (simp add: price_like_def)
  have k: "\<bar>of_int k :: rat\<bar> \<le> 100000" using assms(2) by (metis of_int_abs of_int_le_iff of_int_numeral)
  have "\<bar>x * of_int k\<bar> \<le> 10 ^ 40 * 100000"
    unfolding abs_mult using assms(1) k by (intro mult_mono) (auto simp: price_like_def)
  then show "\<bar>x * of_int k\<bar> < 10 ^ 46" by (rule le_less_trans) simp
qed simp

lemma price_like_representable: "price_like x \<Longrightarrow> representable DECIMAL_PRECISION x"
  using price_like_scaled [of x 1] by simp

text \<open>A sum of candle-size numbers is exact.\<close>

lemma val_d_sum_exact:
  assumes "list_all (\<lambda>x. price_like (val x)) xs" "length xs \<le> 100000"
  shows "val (d_sum DECIMAL_PRECISION xs) = sum_list (map val xs)
    \<and> on_grid (-40) (sum_list (map val xs)) \<and> \<bar>sum_list (map val xs)\<bar> \<le> of_nat (length xs) * 10 ^ 40"
  using assms
proof (induction xs rule: rev_induct)
  case (snoc x xs)
  let ?s = "sum_list (map val xs)"
  have IH: "val (d_sum DECIMAL_PRECISION xs) = ?s" "on_grid (-40) ?s" "\<bar>?s\<bar> \<le> of_nat (length xs) * 10 ^ 40"
    using snoc by simp_all
  have x: "on_grid (-40) (val x)" "\<bar>val x\<bar> < 10 ^ 40" using snoc.prems(1) by (simp_all add: price_like_def)
  have g: "on_grid (-40) (?s + val x)" by (rule on_grid_add [OF IH(2) x(1)])
  have b: "\<bar>?s + val x\<bar> \<le> of_nat (length (xs @ [x])) * 10 ^ 40"
  proof -
    have "\<bar>?s + val x\<bar> \<le> \<bar>?s\<bar> + \<bar>val x\<bar>" by (rule abs_triangle_ineq)
    also have "\<dots> \<le> of_nat (length xs) * 10 ^ 40 + 10 ^ 40" using IH(3) x(2) by simp
    also have "\<dots> = of_nat (length (xs @ [x])) * 10 ^ 40" by (simp add: distrib_right)
    finally show ?thesis .
  qed
  have "(of_nat (length (xs @ [x])) :: rat) \<le> of_nat 100000" using snoc.prems(2) by (rule of_nat_mono)
  then have "of_nat (length (xs @ [x])) * 10 ^ 40 \<le> (100000 :: rat) * 10 ^ 40" by simp
  with b have "\<bar>?s + val x\<bar> \<le> 100000 * 10 ^ 40" by (rule order_trans)
  then have "\<bar>?s + val x\<bar> < 10 ^ 46" by (rule le_less_trans) simp
  then have "representable DECIMAL_PRECISION (?s + val x)" by (rule representable_256 [OF g]) simp
  then show ?case using g b IH(1) by (simp add: d_sum_def val_d_add)
qed (simp add: d_sum_def)

text \<open>A rounded mean stays between any two bounds of its terms.\<close>

lemma d_mean_between:
  assumes "list_all (\<lambda>x. price_like (val x)) xs" "length xs \<le> 100000" "xs \<noteq> []"
    and "\<And>x. x \<in> set xs \<Longrightarrow> lo \<le> val x \<and> val x \<le> hi"
    and "representable DECIMAL_PRECISION lo" "representable DECIMAL_PRECISION hi"
  shows "lo \<le> val (d_mean xs (int (length xs))) \<and> val (d_mean xs (int (length xs))) \<le> hi"
proof -
  let ?n = "of_nat (length xs) :: rat"
  have n: "0 < ?n" using assms(3) by simp
  have "?n * lo \<le> sum_list (map val xs) \<and> sum_list (map val xs) \<le> ?n * hi"
    using assms(4) by (induction xs) (auto simp: distrib_right intro!: add_mono)
  then have "lo \<le> sum_list (map val xs) / ?n \<and> sum_list (map val xs) / ?n \<le> hi"
    using n by (simp add: pos_le_divide_eq pos_divide_le_eq mult.commute)
  then show ?thesis
    unfolding d_mean_def using assms(5,6) n val_d_sum_exact [OF assms(1,2)]
    by (auto intro!: val_div_ge val_div_le simp: val_dec_of_int)
qed

lemma wilder_step_between:
  assumes "lo \<le> val a" "val a \<le> hi" "lo \<le> val v" "val v \<le> hi" "1 \<le> n" "n \<le> 10000"
    and "price_like lo" "price_like hi"
  shows "lo \<le> val (wilder_step n a v) \<and> val (wilder_step n a v) \<le> hi"
proof -
  let ?P = DECIMAL_PRECISION and ?m = "of_int (int n - 1) :: rat" and ?k = "of_int (int n) :: rat"
  have m: "0 \<le> ?m" "0 < ?k" "?k = ?m + 1" using assms(5) by simp_all
  have r: "representable ?P (lo * ?m)" "representable ?P (hi * ?m)" "representable ?P (lo * ?k)"
    "representable ?P (hi * ?k)" "representable ?P lo" "representable ?P hi"
    using price_like_scaled [OF assms(7), of "int n - 1"] price_like_scaled [OF assms(8), of "int n - 1"]
      price_like_scaled [OF assms(7), of "int n"] price_like_scaled [OF assms(8), of "int n"]
      price_like_representable assms(5-8) by auto
  let ?x = "d_mul ?P a (dec_of_int (int n - 1))"
  have x: "lo * ?m \<le> val ?x" "val ?x \<le> hi * ?m"
    using assms(1,2) m r by (auto intro!: val_mul_ge val_mul_le mult_right_mono simp: val_dec_of_int)
  let ?y = "d_add ?P ?x v"
  have y: "lo * ?k \<le> val ?y" "val ?y \<le> hi * ?k"
    using x assms(3,4) r by (auto intro!: val_add_ge val_add_le simp: algebra_simps)
  show ?thesis
    unfolding wilder_step_def using y m(2) r
    by (auto intro!: val_div_ge val_div_le simp: val_dec_of_int pos_le_divide_eq pos_divide_le_eq mult.commute)
qed

lemma wilder_between:
  assumes "list_all (\<lambda>x. price_like (val x) \<and> lo \<le> val x \<and> val x \<le> hi) xs"
    and "1 \<le> n" "n \<le> 10000" "n \<le> length xs" "price_like lo" "price_like hi"
  shows "lo \<le> val (wilder n xs) \<and> val (wilder n xs) \<le> hi"
proof -
  have s: "lo \<le> val (d_mean (take n xs) (int n)) \<and> val (d_mean (take n xs) (int n)) \<le> hi"
    using d_mean_between [of "take n xs" lo hi] assms price_like_representable
    by (fastforce simp: list_all_iff dest: in_set_takeD)
  have "lo \<le> val (foldl (wilder_step n) a ys) \<and> val (foldl (wilder_step n) a ys) \<le> hi"
    if "lo \<le> val a \<and> val a \<le> hi" "\<forall>y\<in>set ys. lo \<le> val y \<and> val y \<le> hi" for a ys
    using that
  proof (induction ys arbitrary: a)
    case (Cons y ys)
    show ?case
      using Cons.IH [of "wilder_step n a y"] Cons.prems wilder_step_between [of lo a hi y n] assms(2,3,5,6)
      by simp
  qed simp
  then show ?thesis
    unfolding wilder_def using s assms(1) by (auto simp: list_all_iff dest: in_set_dropD)
qed

lemma wilder_nonneg:
  assumes "list_all (\<lambda>x. price_like (val x) \<and> 0 \<le> val x) xs" "1 \<le> n" "n \<le> 10000" "n \<le> length xs"
  shows "0 \<le> val (wilder n xs)" "val (wilder n xs) \<le> Max (val ` set xs)"
proof -
  have ne: "val ` set xs \<noteq> {}" using assms(2,4) by auto
  have "Max (val ` set xs) \<in> val ` set xs" using ne by (intro Max_in) auto
  then have "price_like (Max (val ` set xs))" using assms(1) by (auto simp: list_all_iff)
  moreover have "list_all (\<lambda>x. price_like (val x) \<and> 0 \<le> val x \<and> val x \<le> Max (val ` set xs)) xs"
    using assms(1) by (auto simp: list_all_iff)
  ultimately show "0 \<le> val (wilder n xs)" "val (wilder n xs) \<le> Max (val ` set xs)"
    using wilder_between [of 0 "Max (val ` set xs)" xs n] assms(2-4) by (simp_all add: price_like_def)
qed

lemma price_like_diff:
  assumes "price_like (val a)" "price_like (val b)" "0 \<le> val a" "0 \<le> val b"
  shows "val (d_sub DECIMAL_PRECISION a b) = val a - val b" "price_like (val a - val b)"
    "val (d_abs DECIMAL_PRECISION (d_sub DECIMAL_PRECISION a b)) = \<bar>val a - val b\<bar>"
    "val (d_neg DECIMAL_PRECISION (d_sub DECIMAL_PRECISION a b)) = val b - val a"
proof -
  show p: "price_like (val a - val b)"
    using assms by (auto simp: price_like_def abs_less_iff intro: on_grid_diff)
  then have r: "representable DECIMAL_PRECISION (val a - val b)" by (rule price_like_representable)
  then show s: "val (d_sub DECIMAL_PRECISION a b) = val a - val b" by (simp add: val_d_sub)
  show "val (d_abs DECIMAL_PRECISION (d_sub DECIMAL_PRECISION a b)) = \<bar>val a - val b\<bar>"
    "val (d_neg DECIMAL_PRECISION (d_sub DECIMAL_PRECISION a b)) = val b - val a"
    using r by (simp_all add: val_d_abs val_d_neg s)
qed

lemma price_like_abs: "price_like x \<Longrightarrow> price_like \<bar>x\<bar>"
  using on_grid_neg [of "-40" x] by (auto simp: price_like_def abs_if)

lemma price_like_max: "price_like x \<Longrightarrow> price_like y \<Longrightarrow> price_like (max x y)"
  by (simp add: max_def)

lemma candle_numbers:
  assumes "valid_Candle c"
  shows "price_like (val (close_of c))" "price_like (val (high_of c))" "price_like (val (low_of c))"
    "0 < val (low_of c)" "val (low_of c) \<le> val (close_of c)" "val (close_of c) \<le> val (high_of c)"
    "0 < val (close_of c)" "0 < val (high_of c)"
proof -
  note P = valid_Candle_prices [OF assms]
  show "price_like (val (close_of c))" "price_like (val (high_of c))" "price_like (val (low_of c))"
    using price_like_plain P(2-4) by (simp_all add: close_of_def high_of_def low_of_def)
  show "0 < val (low_of c)" "val (low_of c) \<le> val (close_of c)" "val (close_of c) \<le> val (high_of c)"
    "0 < val (close_of c)" "0 < val (high_of c)"
    using P(6,8,10) by (simp_all add: close_of_def high_of_def low_of_def)
qed

lemma true_range_exact:
  assumes "valid_Candle a" "valid_Candle b"
  shows "val (true_range (a, b)) = max (max (val (high_of b) - val (low_of b))
      \<bar>val (high_of b) - val (close_of a)\<bar>) \<bar>val (low_of b) - val (close_of a)\<bar>"
    "price_like (val (true_range (a, b)))" "0 \<le> val (true_range (a, b))"
proof -
  note A = candle_numbers [OF assms(1)] and B = candle_numbers [OF assms(2)]
  note hl = price_like_diff [OF B(2,3) less_imp_le [OF B(8)] less_imp_le [OF B(4)]]
    and hc = price_like_diff [OF B(2) A(1) less_imp_le [OF B(8)] less_imp_le [OF A(7)]]
    and lc = price_like_diff [OF B(3) A(1) less_imp_le [OF B(4)] less_imp_le [OF A(7)]]
  show e: "val (true_range (a, b)) = max (max (val (high_of b) - val (low_of b))
      \<bar>val (high_of b) - val (close_of a)\<bar>) \<bar>val (low_of b) - val (close_of a)\<bar>"
    by (simp add: true_range_def Let_def d_max_val hl(1) hc(3) lc(3))
  show "price_like (val (true_range (a, b)))"
    unfolding e by (intro price_like_max price_like_abs hl(2) hc(2) lc(2))
  show "0 \<le> val (true_range (a, b))" unfolding e by (simp add: le_max_iff_disj)
qed

lemma true_ranges_ok:
  "list_all valid_Candle vs \<Longrightarrow>
     list_all (\<lambda>x. price_like (val x) \<and> 0 \<le> val x) (map true_range (zip vs (tl vs)))"
proof (induction vs)
  case (Cons v vs)
  then show ?case by (cases vs) (auto simp: true_range_exact(2,3))
qed simp

lemma rsi_changes_ok:
  assumes "list_all valid_Candle vs"
  defines "changes \<equiv> map (\<lambda>(previous, current). d_sub DECIMAL_PRECISION current previous)
    (zip (map close_of vs) (tl (map close_of vs)))"
  shows "list_all (\<lambda>x. price_like (val x) \<and> 0 \<le> val x) (map (\<lambda>v. d_max v d_zero) changes)"
    "list_all (\<lambda>x. price_like (val x) \<and> 0 \<le> val x)
      (map (\<lambda>v. d_max (d_neg DECIMAL_PRECISION v) d_zero) changes)"
proof -
  have z: "price_like 0" by (simp add: price_like_def)
  have c: "list_all (\<lambda>v. price_like (val v) \<and> price_like (val (d_neg DECIMAL_PRECISION v))) changes"
    using assms(1) unfolding changes_def
  proof (induction vs)
    case (Cons v vs)
    show ?case
    proof (cases vs)
      case (Cons w ws)
      have V: "valid_Candle v" "valid_Candle w" using Cons.prems Cons by simp_all
      note A = candle_numbers [OF V(1)] and B = candle_numbers [OF V(2)]
      show ?thesis
        using Cons.IH Cons.prems Cons price_like_diff [OF B(1) A(1) less_imp_le [OF B(7)] less_imp_le [OF A(7)]]
          price_like_diff(2) [OF A(1) B(1) less_imp_le [OF A(7)] less_imp_le [OF B(7)]]
        by simp
    qed simp
  qed simp
  show "list_all (\<lambda>x. price_like (val x) \<and> 0 \<le> val x) (map (\<lambda>v. d_max v d_zero) changes)"
    "list_all (\<lambda>x. price_like (val x) \<and> 0 \<le> val x)
      (map (\<lambda>v. d_max (d_neg DECIMAL_PRECISION v) d_zero) changes)"
    using c z by (auto simp: list_all_iff d_max_val price_like_max)
qed

lemma strength_bounds:
  assumes "0 \<le> val g" "0 < val l"
  defines "x \<equiv> d_sub DECIMAL_PRECISION (dec_of_int 100) (d_div DECIMAL_PRECISION (dec_of_int 100)
    (d_add DECIMAL_PRECISION d_one (d_div DECIMAL_PRECISION g l)))"
  shows "0 \<le> val x \<and> val x \<le> 100"
proof -
  let ?P = DECIMAL_PRECISION
  have r: "representable ?P 1" "representable ?P 100"
    using price_like_representable [of 1] price_like_representable [of 100]
      on_grid_coarser [OF on_grid_int [of 1], of "-40"] on_grid_coarser [OF on_grid_int [of 100], of "-40"]
    by (simp_all add: price_like_def)
  have "0 \<le> val (d_div ?P g l)" using assms(1,2) by (intro val_div_ge) auto
  then have o: "1 \<le> val (d_add ?P d_one (d_div ?P g l))" using r by (intro val_add_ge) auto
  let ?q = "d_div ?P (dec_of_int 100) (d_add ?P d_one (d_div ?P g l))"
  have q: "0 \<le> val ?q" "val ?q \<le> 100"
    using o r by (auto intro!: val_div_ge val_div_le simp: val_dec_of_int pos_divide_le_eq)
  show ?thesis
    unfolding x_def d_sub_def using q r by (auto intro!: val_add_ge val_add_le simp: val_dec_of_int)
qed

lemma rsi_value_bounds:
  assumes "list_all valid_Candle vs" "1 \<le> n" "n \<le> 10000" "n + 1 \<le> length vs"
  shows "0 \<le> val (rsi_value vs n) \<and> val (rsi_value vs n) \<le> 100"
proof -
  let ?ch = "map (\<lambda>(previous, current). d_sub DECIMAL_PRECISION current previous)
    (zip (map close_of vs) (tl (map close_of vs)))"
  let ?g = "wilder n (map (\<lambda>v. d_max v d_zero) ?ch)"
    and ?l = "wilder n (map (\<lambda>v. d_max (d_neg DECIMAL_PRECISION v) d_zero) ?ch)"
  note C = rsi_changes_ok [OF assms(1)]
  have nn: "0 \<le> val ?g" "0 \<le> val ?l"
    using wilder_nonneg(1) [OF C(1) assms(2,3)] wilder_nonneg(1) [OF C(2) assms(2,3)] assms(4) by simp_all
  have "0 \<le> val ?g \<Longrightarrow> 0 < val ?l \<Longrightarrow> 0 \<le> val (d_sub DECIMAL_PRECISION (dec_of_int 100)
      (d_div DECIMAL_PRECISION (dec_of_int 100) (d_add DECIMAL_PRECISION d_one (d_div DECIMAL_PRECISION ?g ?l))))
    \<and> val (d_sub DECIMAL_PRECISION (dec_of_int 100)
      (d_div DECIMAL_PRECISION (dec_of_int 100) (d_add DECIMAL_PRECISION d_one (d_div DECIMAL_PRECISION ?g ?l)))) \<le> 100"
    by (rule strength_bounds)
  then show ?thesis
    unfolding rsi_value_def Let_def using nn by (auto simp: d_eq_val val_dec_of_int)
qed

section \<open>Properties\<close>

definition example_series :: "Candle list" where
  "example_series = [example_bar ''1h'' 1704067200000, example_bar ''1h'' 1704070800000,
     (example_bar ''1h'' 1704074400000)\<lparr> cd_high := ''500'' \<rparr>]"

lemma example_bar_valid: "valid_Candle (example_bar ''1h'' 1704067200000)" "valid_Candle (example_bar ''1h'' 1704070800000)"
  by (simp_all add: valid_Candle_def Candle_post_init_def example_bar_def example_candle_def candle_decimal_def
      DATA_SOURCE_def SYMBOLS_def interval_ms_def py_eval)

lemma example_visible:
  "visible_before 1704070800000 example_series = take 2 example_series"
  by (simp add: visible_before_def example_series_def example_bar_def)

text \<open>C30. No indicator looks ahead: its result for a decision time is the same for any two candle
series that agree on the candles closed before that time, whatever they hold later.\<close>

theorem indicators_no_lookahead:
  assumes "visible_before t cs = visible_before t cs'"
    and "length cs \<le> MAX_FEATURE_CANDLES" and "length cs' \<le> MAX_FEATURE_CANDLES"
  shows "simple_return cs p t = simple_return cs' p t \<and> rolling_high cs p t = rolling_high cs' p t
    \<and> rolling_low cs p t = rolling_low cs' p t \<and> sma cs p t = sma cs' p t
    \<and> ema cs p t = ema cs' p t \<and> atr cs p t = atr cs' p t \<and> rsi cs p t = rsi cs' p t"
proof -
  have "feature name extra f cs p t = feature name extra f cs' p t" for name extra f
    using feature_cut [OF assms(2), of name extra f t p] feature_cut [OF assms(3), of name extra f t p] assms(1)
    by simp
  then show ?thesis
    unfolding simple_return_def rolling_high_def rolling_low_def sma_def ema_def atr_def rsi_def by blast
qed

theorem indicators_no_lookahead_witness:
  "rolling_high example_series 2 1704070800000 = rolling_high (take 2 example_series) 2 1704070800000"
proof -
  have "visible_before 1704070800000 (take 2 example_series) = take 2 example_series"
    by (simp add: visible_before_def example_series_def example_bar_def)
  then show ?thesis
    using indicators_no_lookahead [of 1704070800000 example_series "take 2 example_series" 2] example_visible
    by (simp add: MAX_FEATURE_CANDLES_def example_series_def)
qed

text \<open>The rolling extremes are exact: when enough candles are visible, the rolling high is the
greatest high and the rolling low the least low of the last \<open>p\<close> candles closed before the decision;
otherwise no value is reported.\<close>

theorem rolling_extremes_exact:
  assumes "rolling_high cs p t = Inr h" and "rolling_low cs p t = Inr l"
  shows "case (ft_value h, ft_value l) of
      (Some x, Some y) \<Rightarrow>
        p \<le> int (length (visible_before t cs))
        \<and> val x = Max ((\<lambda>c. val (py_Decimal (cd_high c))) ` set (last_n (nat p) (visible_before t cs)))
        \<and> val y = Min ((\<lambda>c. val (py_Decimal (cd_low c))) ` set (last_n (nat p) (visible_before t cs)))
    | (None, None) \<Rightarrow> int (length (visible_before t cs)) < p
    | _ \<Rightarrow> False"
proof -
  obtain vs where v: "feature_visible cs t = Inr vs" "1 \<le> p"
    and h: "ft_value h = (if p \<le> int (length vs) then Some (d_max_list (map high_of (last_n (nat p) vs))) else None)"
    by (rule feature_Inr [OF assms(1) [unfolded rolling_high_def]]) simp_all
  have l: "ft_value l = (if p \<le> int (length vs) then Some (d_min_list (map low_of (last_n (nat p) vs))) else None)"
    by (rule feature_Inr [OF assms(2) [unfolded rolling_low_def]]) (use v(1) in simp_all)
  have vs: "vs = visible_before t cs" using feature_visible_Inr [OF v(1)] by (simp add: visible_before_def)
  have ne: "p \<le> int (length vs) \<Longrightarrow> last_n (nat p) vs \<noteq> []" using v(2) by (auto simp: last_n_def)
  show ?thesis
    using ne unfolding h l vs [symmetric]
    by (auto simp: val_d_max_list val_d_min_list image_image high_of_def low_of_def)
qed

lemma example_rolling:
  "rolling_high example_series 2 1704070800000 = Inr \<lparr> ft_name = ''ROLLING_HIGH'', ft_period = 2,
     ft_decision_time_ms = 1704070800000, ft_observed = 2, ft_warmup_required = 2, ft_state = FS_READY,
     ft_value = Some (Dec False 120 0) \<rparr>"
  "rolling_low example_series 2 1704070800000 = Inr \<lparr> ft_name = ''ROLLING_LOW'', ft_period = 2,
     ft_decision_time_ms = 1704070800000, ft_observed = 2, ft_warmup_required = 2, ft_state = FS_READY,
     ft_value = Some (Dec False 90 0) \<rparr>"
  by (simp_all add: rolling_high_def rolling_low_def feature_def feature_period_def MAX_FEATURE_PERIOD_def
      feature_visible_def MAX_FEATURE_CANDLES_def example_series_def example_bar_def example_candle_def
      interval_ms_def feature_result_def construct_eq_Inr FeatureResult_post_init_def last_n_def
      d_max_list_def d_min_list_def high_of_def low_of_def py_eval)

theorem rolling_extremes_exact_witness:
  "Max ((\<lambda>c. val (py_Decimal (cd_high c))) ` set (last_n 2 (visible_before 1704070800000 example_series)))
     = val (Dec False 120 0)"
  using rolling_extremes_exact [OF example_rolling] by simp

text \<open>Indicators stay in their range in spite of rounding: on valid candles the simple average lies
between the least and the greatest close it averages, the average true range is not
negative, and the relative strength index is between 0 and 100.\<close>

theorem indicators_in_range:
  assumes "list_all valid_Candle cs"
    and "sma cs p t = Inr s" and "atr cs p t = Inr a" and "rsi cs p t = Inr r"
  shows "(case ft_value s of None \<Rightarrow> True | Some x \<Rightarrow>
      Min ((\<lambda>c. val (py_Decimal (cd_close c))) ` set (last_n (nat p) (visible_before t cs))) \<le> val x
      \<and> val x \<le> Max ((\<lambda>c. val (py_Decimal (cd_close c))) ` set (last_n (nat p) (visible_before t cs))))
    \<and> (case ft_value a of None \<Rightarrow> True | Some x \<Rightarrow> 0 \<le> val x)
    \<and> (case ft_value r of None \<Rightarrow> True | Some x \<Rightarrow> 0 \<le> val x \<and> val x \<le> 100)"
proof -
  obtain vs where v: "feature_visible cs t = Inr vs" "1 \<le> p" "p \<le> MAX_FEATURE_PERIOD"
    and s: "ft_value s = (if p \<le> int (length vs)
      then Some (d_mean (map close_of (last_n (nat p) vs)) (int (nat p))) else None)"
    by (rule feature_Inr [OF assms(2) [unfolded sma_def]]) simp_all
  have a: "ft_value a = (if p + 1 \<le> int (length vs)
      then Some (wilder (nat p) (map true_range (zip vs (tl vs)))) else None)"
    by (rule feature_Inr [OF assms(3) [unfolded atr_def]]) (use v(1) in simp_all)
  have r: "ft_value r = (if p + 1 \<le> int (length vs) then Some (rsi_value vs (nat p)) else None)"
    by (rule feature_Inr [OF assms(4) [unfolded rsi_def]]) (use v(1) in simp_all)
  have vs: "vs = visible_before t cs" using feature_visible_Inr [OF v(1)] by (simp add: visible_before_def)
  have ok: "list_all valid_Candle vs" using assms(1) by (auto simp: vs visible_before_def list_all_iff)
  have p: "1 \<le> nat p" "nat p \<le> 10000" using v(2,3) by (simp_all add: MAX_FEATURE_PERIOD_def)
  have "Min (val ` set xs) \<le> val (d_mean xs (int (nat p))) \<and> val (d_mean xs (int (nat p))) \<le> Max (val ` set xs)"
    if n: "p \<le> int (length vs)" and xs: "xs = map close_of (last_n (nat p) vs)" for xs
  proof -
    have len: "length xs = nat p" using n v(2) by (simp add: xs last_n_def)
    have pl: "list_all (\<lambda>x. price_like (val x)) xs"
      using ok by (auto simp: xs list_all_iff last_n_def candle_numbers dest: in_set_dropD)
    have ne: "xs \<noteq> []" using len p by auto
    have "Min (val ` set xs) \<in> val ` set xs" "Max (val ` set xs) \<in> val ` set xs"
      using ne by (auto intro: Min_in Max_in)
    then have "price_like (Min (val ` set xs))" "price_like (Max (val ` set xs))"
      using pl by (auto simp: list_all_iff)
    then show ?thesis
      using d_mean_between [OF pl _ ne, of "Min (val ` set xs)" "Max (val ` set xs)"] len p(2)
      by (simp add: price_like_representable)
  qed
  moreover have "0 \<le> val (wilder (nat p) (map true_range (zip vs (tl vs))))" if "p + 1 \<le> int (length vs)"
    using wilder_nonneg(1) [OF true_ranges_ok [OF ok] p] that v(2) by simp
  moreover have "0 \<le> val (rsi_value vs (nat p)) \<and> val (rsi_value vs (nat p)) \<le> 100" if "p + 1 \<le> int (length vs)"
    using rsi_value_bounds [OF ok p] that v(2) by simp
  ultimately show ?thesis
    unfolding s a r vs [symmetric] by (simp add: image_image close_of_def split: option.splits)
qed

theorem indicators_in_range_witness:
  "case (sma (take 2 example_series) 1 1704070800000, atr (take 2 example_series) 1 1704070800000,
      rsi (take 2 example_series) 1 1704070800000) of
     (Inr s, Inr a, Inr r) \<Rightarrow> (case ft_value r of None \<Rightarrow> False | Some x \<Rightarrow> 0 \<le> val x \<and> val x \<le> 100)
   | _ \<Rightarrow> False"
proof -
  have v: "list_all valid_Candle (take 2 example_series)" by (simp add: example_series_def example_bar_valid)
  have ready: "feature name e f (take 2 example_series) 1 1704070800000 = Inr \<lparr> ft_name = name, ft_period = 1,
      ft_decision_time_ms = 1704070800000, ft_observed = 2, ft_warmup_required = 1 + e,
      ft_state = FS_READY, ft_value = Some (f (take 2 example_series) 1) \<rparr>" if "name \<noteq> []" "e = 0 \<or> e = 1" for name e f
    using that by (auto simp: feature_def feature_period_def MAX_FEATURE_PERIOD_def feature_visible_def
      MAX_FEATURE_CANDLES_def example_series_def example_bar_def example_candle_def interval_ms_def
      feature_result_def construct_eq_Inr FeatureResult_post_init_def)
  then obtain s a r where f: "sma (take 2 example_series) 1 1704070800000 = Inr s"
    "atr (take 2 example_series) 1 1704070800000 = Inr a" "rsi (take 2 example_series) 1 1704070800000 = Inr r"
    unfolding sma_def atr_def rsi_def by simp
  then have "ft_value r = Some (rsi_value (take 2 example_series) 1)" 
    using ready [of "''RSI''" 1 rsi_value] unfolding rsi_def by auto
  with indicators_in_range [OF v f] f show ?thesis by simp
qed

end
