(* ===== verification/Strategy_Candidates.thy ===== *)
theory Strategy_Candidates
  imports Strategy_Features
begin

text \<open>
  \<^verbatim>\<open>yatl/strategy/regime.py\<close>, \<^verbatim>\<open>yatl/strategy/trend.py\<close> and
  \<^verbatim>\<open>yatl/strategy/breakout.py\<close>: the 4h regime rule and the two frozen long-only
  candidates, with the plain decimal text they write their levels in.
\<close>

section \<open>Plain text of a level\<close>

text \<open>
  \<^verbatim>\<open>quantize(Decimal("1e-40"), ROUND_HALF_EVEN)\<close> in a context of precision
  \<open>p\<close>: the operation is invalid when the result needs more than \<open>p\<close> digits.
\<close>

definition d_rescale :: "int \<Rightarrow> dec \<Rightarrow> dec" where
  "d_rescale z d =
     Dec (d_sign d)
       (if z \<le> d_exp d then d_coeff d * 10 ^ nat (d_exp d - z) else half_even (d_coeff d) (nat (z - d_exp d))) z"

definition d_quantize :: "nat \<Rightarrow> int \<Rightarrow> dec \<Rightarrow> dec result" where
  "d_quantize p z d =
     (if p < ndigits (d_coeff (d_rescale z d)) then Inl InvalidOperation else Inr (d_rescale z d))"

definition rstrip :: "char \<Rightarrow> string \<Rightarrow> string" where
  "rstrip c s = rev (dropWhile (\<lambda>x. x = c) (rev s))"

definition strip_zeros :: "string \<Rightarrow> string" where
  "strip_zeros text = (if CHR ''.'' \<in> set text then rstrip (CHR ''.'') (rstrip (CHR ''0'') text) else text)"

definition plain_level :: "nat \<Rightarrow> dec \<Rightarrow> string result" where
  "plain_level p v =
     bind_r (if d_exp v < -40 then d_quantize p (-40) v else Inr v) (\<lambda>v.
     Inr (strip_zeros (d_format v)))"

section \<open>The regime\<close>

definition REGIME_VERSION :: string where "REGIME_VERSION = ''SMA_4H_V1''"
definition FAST_PERIOD :: nat where "FAST_PERIOD = 20"
definition SLOW_PERIOD :: nat where "SLOW_PERIOD = 50"
definition WARMUP :: nat where "WARMUP = 51"
definition SPREAD_BOUNDARY :: dec where "SPREAD_BOUNDARY = Dec False 2 (-3)"
definition RANGE_SLOPE_BOUNDARY :: dec where "RANGE_SLOPE_BOUNDARY = Dec False 5 (-4)"

datatype MarketRegime = TREND_UP | TREND_DOWN | RANGE | UNKNOWN

datatype RegimeReason =
    RG_INSUFFICIENT_HISTORY | RG_UP_ALIGNED | RG_DOWN_ALIGNED | RG_AVERAGES_CONVERGED
  | RG_CONFLICTING_EVIDENCE

definition classify :: "dec \<Rightarrow> dec \<Rightarrow> dec \<Rightarrow> dec \<Rightarrow> dec \<Rightarrow> MarketRegime \<times> RegimeReason" where
  "classify price fast slow spread slope =
     (if d_lt SPREAD_BOUNDARY spread \<and> d_lt d_zero slope \<and> d_lt fast price
      then (TREND_UP, RG_UP_ALIGNED)
      else if d_lt spread (d_neg DECIMAL_PRECISION SPREAD_BOUNDARY) \<and> d_lt slope d_zero \<and> d_lt price fast
      then (TREND_DOWN, RG_DOWN_ALIGNED)
      else if d_le (d_abs DECIMAL_PRECISION spread) SPREAD_BOUNDARY
              \<and> d_le (d_abs DECIMAL_PRECISION slope) RANGE_SLOPE_BOUNDARY
      then (RANGE, RG_AVERAGES_CONVERGED)
      else (UNKNOWN, RG_CONFLICTING_EVIDENCE))"

record RegimeMeasure =
  rm_regime :: MarketRegime
  rm_reason :: RegimeReason
  rm_fast_sma :: "dec option"
  rm_slow_sma :: "dec option"
  rm_relative_spread :: "dec option"
  rm_relative_slope :: "dec option"

text \<open>
  \<^verbatim>\<open>replace(x)\<close> runs the constructor's checks on \<open>x\<close> again; the handler turns
  every error of those checks into the caller's own.
\<close>

definition is_contract_error :: "py_error \<Rightarrow> bool" where
  "is_contract_error e \<longleftrightarrow> is_value_error e \<or> is_StrategyContractError e \<or> is_BacktestContractError e"

definition replace_context :: "StrategyContext \<Rightarrow> unit result" where
  "replace_context c =
     bind_r (StrategyIdentity_post_init (sc_identity c)) (\<lambda>_.
     bind_r (MarketSnapshot_post_init (sc_snapshot c)) (\<lambda>_.
     StrategyContext_post_init c))"

text \<open>The averages of the last 51 closes; the closes are positive, so no divisor is zero.\<close>

definition measure_candles :: "Candle list \<Rightarrow> RegimeMeasure" where
  "measure_candles candles =
     (if length candles < WARMUP
      then \<lparr> rm_regime = UNKNOWN, rm_reason = RG_INSUFFICIENT_HISTORY, rm_fast_sma = None,
             rm_slow_sma = None, rm_relative_spread = None, rm_relative_slope = None \<rparr>
      else
        let p = DECIMAL_PRECISION;
            closes = map close_of (last_n WARMUP candles);
            fast = d_mean (last_n FAST_PERIOD closes) (int FAST_PERIOD);
            slow = d_mean (last_n SLOW_PERIOD closes) (int SLOW_PERIOD);
            previous_slow = d_mean (butlast closes) (int SLOW_PERIOD);
            spread = d_div p (d_sub p fast slow) slow;
            slope = d_div p (d_sub p slow previous_slow) previous_slow;
            (regime, reason) = classify (last closes) fast slow spread slope
        in \<lparr> rm_regime = regime, rm_reason = reason, rm_fast_sma = Some fast, rm_slow_sma = Some slow,
             rm_relative_spread = Some spread, rm_relative_slope = Some slope \<rparr>)"

definition regime_measure :: "StrategyContext \<Rightarrow> RegimeMeasure result" where
  "regime_measure c =
     bind_r (catch_r (replace_context c) is_contract_error
       (RegimeError ''Regime context failed point-in-time validation'')) (\<lambda>_.
     Inr (measure_candles (ms_regime (sc_snapshot c))))"

record RegimeResult =
  rg_context :: StrategyContext
  rg_measure :: RegimeMeasure
  rg_version :: string

text \<open>Two optional Decimals compare numerically.\<close>

fun opt_eq :: "dec option \<Rightarrow> dec option \<Rightarrow> bool" where
  "opt_eq None None = True"
| "opt_eq (Some a) (Some b) = d_eq a b"
| "opt_eq _ _ = False"

definition RegimeResult_post_init :: "RegimeResult \<Rightarrow> unit result" where
  "RegimeResult_post_init r =
     (if rg_version r \<noteq> REGIME_VERSION then Inl (RegimeError ''Regime result is inconsistent'')
      else bind_r (regime_measure (rg_context r)) (\<lambda>m.
        let v = rg_measure r in
        require (rm_regime v = rm_regime m \<and> rm_reason v = rm_reason m
                 \<and> opt_eq (rm_fast_sma v) (rm_fast_sma m) \<and> opt_eq (rm_slow_sma v) (rm_slow_sma m)
                 \<and> opt_eq (rm_relative_spread v) (rm_relative_spread m)
                 \<and> opt_eq (rm_relative_slope v) (rm_relative_slope m))
          (RegimeError ''Regime result is inconsistent'')))"

definition classify_regime :: "StrategyContext \<Rightarrow> RegimeResult result" where
  "classify_regime c =
     bind_r (regime_measure c) (\<lambda>m.
     construct RegimeResult_post_init \<lparr> rg_context = c, rg_measure = m, rg_version = REGIME_VERSION \<rparr>)"

section \<open>What both candidates share\<close>

definition TREND_PULLBACK_IDENTITY :: StrategyIdentity where
  "TREND_PULLBACK_IDENTITY = \<lparr> si_strategy_id = ''TREND_PULLBACK'', si_version = ''1.0.0'' \<rparr>"

definition BREAKOUT_IDENTITY :: StrategyIdentity where
  "BREAKOUT_IDENTITY = \<lparr> si_strategy_id = ''RANGE_BREAKOUT'', si_version = ''1.0.0'' \<rparr>"

text \<open>
  \<^verbatim>\<open>_validated\<close>: the position flag and the active setup must agree, and the context
  and the setup must pass their constructors again. The error is the candidate's own.
\<close>

definition candidate_validated ::
    "(string \<Rightarrow> py_error) \<Rightarrow> string \<Rightarrow> StrategyIdentity \<Rightarrow> StrategyContext \<Rightarrow> bool \<Rightarrow> LongSetup option \<Rightarrow> unit result" where
  "candidate_validated err name identity context in_position active_setup =
     (if sc_identity context \<noteq> identity \<or> (in_position \<and> active_setup = None)
         \<or> (\<not> in_position \<and> active_setup \<noteq> None)
      then Inl (err (name @ '' state or identity is invalid''))
      else catch_r
        (bind_r (replace_context context) (\<lambda>_.
         case active_setup of None \<Rightarrow> Inr () | Some s \<Rightarrow> LongSetup_post_init s))
        is_contract_error (err (name @ '' context failed validation'')))"

definition no_trade :: "StrategyContext \<Rightarrow> DecisionReason \<Rightarrow> StrategyDecision result" where
  "no_trade context reason =
     construct StrategyDecision_post_init
       \<lparr> sd_context = context, sd_action = SA_NO_TRADE, sd_reason = reason, sd_setup = None \<rparr>"

definition exit_long :: "StrategyContext \<Rightarrow> StrategyDecision result" where
  "exit_long context =
     construct StrategyDecision_post_init
       \<lparr> sd_context = context, sd_action = SA_EXIT_LONG, sd_reason = DR_STRATEGY_EXIT, sd_setup = None \<rparr>"

text \<open>The last two 15m candles: the later one closes up and above the earlier one.\<close>

definition confirmed :: "Candle list \<Rightarrow> bool" where
  "confirmed context =
     (let previous_15m = context ! (length context - 2); latest_15m = last context
      in d_lt (py_Decimal (cd_open latest_15m)) (close_of latest_15m)
         \<and> d_lt (close_of previous_15m) (close_of latest_15m))"

definition STOP_ATR_FRACTION :: dec where "STOP_ATR_FRACTION = Dec False 25 (-2)"
definition REWARD_RISK :: dec where "REWARD_RISK = Dec False 2 0"
definition ATR_PERIOD :: int where "ATR_PERIOD = 14"

text \<open>
  The levels of an entry: the stop is \<open>support\<close> minus a quarter of the average true
  range, written as plain text and read back; the target is twice the risk away.
  \<^verbatim>\<open>_plain\<close> is called inside the local context for the stop and outside of it, at
  the default precision, for the three texts of the setup.
\<close>

definition entry_from_levels ::
    "StrategyContext \<Rightarrow> DecisionReason \<Rightarrow> dec \<Rightarrow> dec \<Rightarrow> dec \<Rightarrow> StrategyDecision result" where
  "entry_from_levels context reason close support volatility =
     (let p = DECIMAL_PRECISION;
          raw_invalidation = d_sub p support (d_mul p volatility STOP_ATR_FRACTION) in
      bind_r (plain_level p raw_invalidation) (\<lambda>text.
      let invalidation = py_Decimal text;
          risk = d_sub p close invalidation;
          target = d_add p close (d_mul p risk REWARD_RISK)
      in if d_le invalidation d_zero \<or> d_le risk d_zero then no_trade context DR_SETUP_ABSENT
         else
           bind_r (plain_level DEFAULT_PRECISION close) (\<lambda>reference_price.
           bind_r (plain_level DEFAULT_PRECISION invalidation) (\<lambda>invalidation_price.
           bind_r (plain_level DEFAULT_PRECISION target) (\<lambda>target_price.
           bind_r (construct LongSetup_post_init
             \<lparr> ls_reference_price = reference_price, ls_invalidation_price = invalidation_price,
               ls_target_price = target_price \<rparr>) (\<lambda>setup.
           construct StrategyDecision_post_init
             \<lparr> sd_context = context, sd_action = SA_ENTER_LONG, sd_reason = reason,
               sd_setup = Some setup \<rparr>))))))"

definition is_feature_or_regime_error :: "py_error \<Rightarrow> bool" where
  "is_feature_or_regime_error e \<longleftrightarrow> is_RegimeError e \<or> is_FeatureError e"

section \<open>Trend pullback\<close>

definition PRIMARY_SMA_PERIOD :: int where "PRIMARY_SMA_PERIOD = 20"
definition PULLBACK_LOOKBACK :: int where "PULLBACK_LOOKBACK = 3"

definition evaluate_trend_pullback ::
    "StrategyContext \<Rightarrow> bool \<Rightarrow> LongSetup option \<Rightarrow> StrategyDecision result" where
  "evaluate_trend_pullback context in_position active_setup =
     (let snapshot = sc_snapshot context; t = sc_decision_time_ms context in
      bind_r (candidate_validated TrendStrategyError ''Trend-pullback'' TREND_PULLBACK_IDENTITY
                context in_position active_setup) (\<lambda>_.
      bind_r (catch_r
        (bind_r (classify_regime context) (\<lambda>regime.
         bind_r (sma (ms_primary snapshot) PRIMARY_SMA_PERIOD t) (\<lambda>average. Inr (regime, average))))
        is_feature_or_regime_error
        (TrendStrategyError ''Trend-pullback feature evaluation failed'')) (\<lambda>(regime, average).
      if rm_reason (rg_measure regime) = RG_INSUFFICIENT_HISTORY \<or> \<not> ft_available average
         \<or> length (ms_context snapshot) < 2
      then no_trade context DR_INSUFFICIENT_HISTORY
      else
        let close = close_of (latest_primary snapshot);
            average_value = the (ft_value average);
            up = (rm_regime (rg_measure regime) = TREND_UP)
        in if in_position
           then (if d_le close (py_Decimal (ls_invalidation_price (the active_setup))) \<or> \<not> up
                    \<or> d_lt close average_value
                 then exit_long context else no_trade context DR_HOLD_POSITION)
           else if rm_regime (rg_measure regime) = UNKNOWN then no_trade context DR_REGIME_UNKNOWN
           else if \<not> up then no_trade context DR_REGIME_BLOCKED
           else if d_lt average_value (low_of (latest_primary snapshot)) \<or> d_le close average_value
           then no_trade context DR_SETUP_ABSENT
           else if \<not> confirmed (ms_context snapshot) then no_trade context DR_CONFIRMATION_FAILED
           else
             bind_r (catch_r
               (bind_r (atr (ms_primary snapshot) ATR_PERIOD t) (\<lambda>volatility.
                bind_r (rolling_low (ms_primary snapshot) PULLBACK_LOOKBACK t) (\<lambda>recent_low.
                Inr (volatility, recent_low))))
               is_FeatureError (TrendStrategyError ''Trend-pullback level evaluation failed''))
             (\<lambda>(volatility, recent_low).
               if \<not> ft_available volatility \<or> \<not> ft_available recent_low
               then no_trade context DR_INSUFFICIENT_HISTORY
               else entry_from_levels context DR_TREND_PULLBACK_ENTRY close
                      (the (ft_value recent_low)) (the (ft_value volatility))))))"

section \<open>Range breakout\<close>

definition BREAKOUT_LOOKBACK :: int where "BREAKOUT_LOOKBACK = 20"
definition MAXIMUM_EXTENSION_ATR :: dec where "MAXIMUM_EXTENSION_ATR = Dec False 1 0"
definition MINIMUM_CLOSE_LOCATION :: dec where "MINIMUM_CLOSE_LOCATION = Dec False 75 (-2)"

text \<open>
  The candle must close in its upper quarter and not further above the boundary than one
  average true range; with no range the location is zero, and with no volatility the
  extension is infinite, which is above every maximum. \<^verbatim>\<open>high - low\<close> is computed at the
  default precision.
\<close>

definition breakout_shape :: "Candle \<Rightarrow> dec \<Rightarrow> dec \<Rightarrow> bool" where
  "breakout_shape latest boundary volatility =
     (let p = DECIMAL_PRECISION; close = close_of latest; low = low_of latest;
          candle_range = d_sub DEFAULT_PRECISION (high_of latest) low;
          close_location = (if d_lt d_zero candle_range then d_div p (d_sub p close low) candle_range else d_zero);
          too_far = (if d_lt d_zero volatility
                     then d_lt MAXIMUM_EXTENSION_ATR (d_div p (d_sub p close boundary) volatility) else True)
      in \<not> (d_lt close_location MINIMUM_CLOSE_LOCATION \<or> too_far))"

definition evaluate_breakout ::
    "StrategyContext \<Rightarrow> bool \<Rightarrow> LongSetup option \<Rightarrow> StrategyDecision result" where
  "evaluate_breakout context in_position active_setup =
     (let snapshot = sc_snapshot context; t = sc_decision_time_ms context;
          earlier = butlast (ms_primary snapshot) in
      bind_r (candidate_validated BreakoutStrategyError ''Breakout'' BREAKOUT_IDENTITY
                context in_position active_setup) (\<lambda>_.
      bind_r (catch_r
        (bind_r (classify_regime context) (\<lambda>regime.
         bind_r (rolling_high earlier BREAKOUT_LOOKBACK t) (\<lambda>boundary.
         bind_r (atr earlier ATR_PERIOD t) (\<lambda>volatility. Inr (regime, boundary, volatility)))))
        is_feature_or_regime_error
        (BreakoutStrategyError ''Breakout feature evaluation failed'')) (\<lambda>(regime, boundary, volatility).
      if rm_reason (rg_measure regime) = RG_INSUFFICIENT_HISTORY \<or> \<not> ft_available boundary
         \<or> \<not> ft_available volatility \<or> length (ms_context snapshot) < 2
      then no_trade context DR_INSUFFICIENT_HISTORY
      else
        let latest = latest_primary snapshot; close = close_of latest;
            boundary_value = the (ft_value boundary);
            up = (rm_regime (rg_measure regime) = TREND_UP)
        in if in_position
           then (if d_le close (py_Decimal (ls_invalidation_price (the active_setup))) \<or> \<not> up
                    \<or> d_le close boundary_value
                 then exit_long context else no_trade context DR_HOLD_POSITION)
           else if rm_regime (rg_measure regime) = UNKNOWN then no_trade context DR_REGIME_UNKNOWN
           else if \<not> up then no_trade context DR_REGIME_BLOCKED
           else if d_le close boundary_value then no_trade context DR_SETUP_ABSENT
           else if \<not> breakout_shape latest boundary_value (the (ft_value volatility))
           then no_trade context DR_SETUP_ABSENT
           else if \<not> confirmed (ms_context snapshot) then no_trade context DR_CONFIRMATION_FAILED
           else entry_from_levels context DR_BREAKOUT_ENTRY close (low_of latest)
                  (the (ft_value volatility)))))"

section \<open>The text of a level keeps its value\<close>

lemma rstrip_decompose: "\<exists>k. s = rstrip c s @ replicate k c \<and> (rstrip c s = [] \<or> last (rstrip c s) \<noteq> c)"
proof (induction s rule: rev_induct)
  case (snoc x s)
  show ?case
  proof (cases "x = c")
    case True
    then have "rstrip c (s @ [x]) = rstrip c s" by (simp add: rstrip_def)
    moreover obtain k where k: "s = rstrip c s @ replicate k c" "rstrip c s = [] \<or> last (rstrip c s) \<noteq> c"
      using snoc by blast
    moreover have "s @ [c] = rstrip c s @ replicate (Suc k) c"
      using arg_cong [OF k(1), of "\<lambda>u. u @ [c]"] by (simp add: replicate_append_same)
    ultimately show ?thesis using True by (intro exI [of _ "Suc k"] conjI) (simp_all only:)
  next
    case False
    then have "rstrip c (s @ [x]) = s @ [x]" by (simp add: rstrip_def)
    then show ?thesis using False by (intro exI [of _ 0]) simp
  qed
qed (simp add: rstrip_def)

lemma rstrip_append: "last t \<noteq> c \<Longrightarrow> t \<noteq> [] \<Longrightarrow> rstrip c (s @ t @ replicate k c) = s @ t"
proof -
  assume "last t \<noteq> c" "t \<noteq> []"
  then obtain u x where t: "t = u @ [x]" "x \<noteq> c" by (cases t rule: rev_cases) auto
  have "dropWhile (\<lambda>x. x = c) (replicate k c @ x # rev u @ rev s) = x # rev u @ rev s"
    by (induction k) (use t(2) in auto)
  then show ?thesis by (simp add: rstrip_def t)
qed

lemma val_parse_zeros:
  assumes "\<forall>c\<in>set i. is_digit c"
  shows "val (d_parse_unsigned sg (i @ CHR ''.'' # f @ replicate k (CHR ''0''))) = val (Dec sg (str_nat (i @ f)) (- int (length f)))"
proof -
  have n: "str_nat (i @ f @ replicate k (CHR ''0'')) = str_nat (i @ f) * 10 ^ k"
    using str_nat_append [of "i @ f" "replicate k (CHR ''0'')"] by simp
  have "(10::rat) powi (- int (length f)) = 10 ^ k * 10 powi (- int (length f) - int k)"
    using ten_powi_split [of "- int (length f) - int k" "- int (length f)"] by simp
  then show ?thesis
    by (simp add: parse_unsigned_dot [OF assms] n val_def d_int_def mult.assoc)
qed

lemma strip_zeros_dot:
  assumes "\<forall>c\<in>set i. is_digit c" "i \<noteq> []" "\<forall>c\<in>set f. is_digit c"
  shows "strip_zeros (s @ i @ CHR ''.'' # f) =
    s @ (let g = rstrip (CHR ''0'') f in if g = [] then i else i @ CHR ''.'' # g)"
proof -
  define g where "g = rstrip (CHR ''0'') f"
  obtain k where k: "f = g @ replicate k (CHR ''0'')" "g = [] \<or> last g \<noteq> CHR ''0''"
    unfolding g_def using rstrip_decompose [of f "CHR ''0''"] by blast
  have gd: "\<forall>c\<in>set g. is_digit c" using assms(3) k(1) by auto
  have "last (CHR ''.'' # g) \<noteq> CHR ''0''" using k(2) by auto
  from rstrip_append [OF this, of "s @ i" k]
  have z: "rstrip (CHR ''0'') (s @ i @ CHR ''.'' # f) = s @ i @ CHR ''.'' # g" by (simp add: k(1))
  show ?thesis
  proof (cases "g = []")
    case True
    have "last i \<noteq> CHR ''.''" using assms(1,2) by (metis last_in_set not_digit_dot)
    from rstrip_append [OF this assms(2), of s 1]
    have "rstrip (CHR ''.'') (s @ i @ ''.'') = s @ i" by simp
    then show ?thesis using z True by (simp add: strip_zeros_def g_def)
  next
    case False
    have "last g \<noteq> CHR ''.''" using gd False by (metis last_in_set not_digit_dot)
    from rstrip_append [OF this False, of "s @ i @ ''.''" 0]
    have "rstrip (CHR ''.'') (s @ i @ CHR ''.'' # g) = s @ i @ CHR ''.'' # g" by simp
    then show ?thesis using z False by (simp add: strip_zeros_def g_def)
  qed
qed

lemma strip_body:
  assumes "\<forall>c\<in>set i. is_digit c" "i \<noteq> []" "\<forall>c\<in>set f. is_digit c"
  obtains g where "\<And>s. strip_zeros (s @ i @ CHR ''.'' # f) = s @ (if g = [] then i else i @ CHR ''.'' # g)"
    "\<forall>c\<in>set g. is_digit c" "length g \<le> length f"
    "\<And>sg. val (d_parse_unsigned sg (if g = [] then i else i @ CHR ''.'' # g)) = val (d_parse_unsigned sg (i @ CHR ''.'' # f))"
proof -
  define g where "g = rstrip (CHR ''0'') f"
  obtain k where f: "f = g @ replicate k (CHR ''0'')"
    unfolding g_def using rstrip_decompose [of f "CHR ''0''"] by blast
  have gd: "\<forall>c\<in>set g. is_digit c" using assms(3) f by auto
  have "val (d_parse_unsigned sg (i @ CHR ''.'' # f)) = val (Dec sg (str_nat (i @ g)) (- int (length g)))" for sg
    unfolding f by (rule val_parse_zeros [OF assms(1)])
  then have "val (d_parse_unsigned sg (if g = [] then i else i @ CHR ''.'' # g))
      = val (d_parse_unsigned sg (i @ CHR ''.'' # f))" for sg
    by (simp add: parse_unsigned_nodot [OF assms(1)] parse_unsigned_dot [OF assms(1)])
  moreover have "length g \<le> length f" by (simp add: f)
  ultimately show thesis
    using gd strip_zeros_dot [OF assms] by (intro that [of g]) (simp_all add: g_def [symmetric] Let_def)
qed

text \<open>The integer and the fraction part of a formatted number.\<close>

lemma d_body_dot:
  assumes "d_exp d < 0"
  obtains i f where "d_body d = i @ CHR ''.'' # f" "\<forall>c\<in>set i. is_digit c" "i \<noteq> []"
    "\<forall>c\<in>set f. is_digit c" "length f = nat (- d_exp d)"
    "i = ''0'' \<or> hd i \<noteq> CHR ''0'' \<and> length i = ndigits (d_coeff d) - nat (- d_exp d)"
proof (cases "ndigits (d_coeff d) \<le> nat (- d_exp d)")
  case True
  then have "d_body d = ''0'' @ CHR ''.'' # (replicate (nat (- d_exp d) - ndigits (d_coeff d)) (CHR ''0'') @ nat_str (d_coeff d))"
    using assms by (simp add: d_body_def Let_def)
  then show thesis by (rule that) (use True in \<open>auto dest: nat_str_digits\<close>)
next
  case False
  let ?k = "ndigits (d_coeff d) - nat (- d_exp d)"
  have "d_body d = take ?k (nat_str (d_coeff d)) @ CHR ''.'' # drop ?k (nat_str (d_coeff d))"
    using assms False by (simp add: d_body_def Let_def)
  moreover have "d_coeff d \<noteq> 0"
  proof
    assume "d_coeff d = 0"
    then have "ndigits (d_coeff d) = 1" by (simp add: ndigits.simps)
    with False assms show False by simp
  qed
  then have "hd (take ?k (nat_str (d_coeff d))) \<noteq> CHR ''0''" using False nat_str_hd by simp
  ultimately show thesis
    by (intro that [of "take ?k (nat_str (d_coeff d))" "drop ?k (nat_str (d_coeff d))"])
      (use False in \<open>auto dest: digits_take_drop\<close>)
qed

lemma val_strip_zeros [simp]: "val (py_Decimal (strip_zeros (d_format d))) = val d"
proof (cases "d_exp d < 0")
  case True
  obtain i f where b: "d_body d = i @ CHR ''.'' # f" "\<forall>c\<in>set i. is_digit c" "i \<noteq> []" "\<forall>c\<in>set f. is_digit c"
    by (rule d_body_dot [OF True])
  let ?s = "if d_sign d then ''-'' else ''''"
  obtain g where g: "strip_zeros (?s @ i @ CHR ''.'' # f) = ?s @ (if g = [] then i else i @ CHR ''.'' # g)"
    "val (d_parse_unsigned (d_sign d) (if g = [] then i else i @ CHR ''.'' # g)) = val (d_parse_unsigned (d_sign d) (d_body d))"
    using strip_body [OF b(2-4)] unfolding b(1) by metis
  define t where "t = (if g = [] then i else i @ CHR ''.'' # g)"
  have "hd i \<noteq> CHR ''-''" using b(2,3) by (metis hd_in_set not_digit_minus)
  then have "hd t \<noteq> CHR ''-''" "t \<noteq> []" using b(3) by (auto simp: t_def)
  then have "py_Decimal (?s @ t) = d_parse_unsigned (d_sign d) t"
    by (cases t) (auto simp: py_Decimal_def)
  moreover have "strip_zeros (d_format d) = ?s @ t" using g(1) by (simp add: d_format_body b(1) t_def)
  moreover have "val (d_parse_unsigned (d_sign d) (d_body d)) = val d"
    using val_format [of d] unfolding py_Decimal_format_parse .
  ultimately show ?thesis using g(2) by (simp add: t_def)
next
  case False
  have "CHR ''.'' \<notin> set (nat_str n)" for n using nat_str_digits [of "CHR ''.''" n] by auto
  then have "CHR ''.'' \<notin> set (d_format d)"
    using False by (auto simp: d_format_body d_body_def)
  then show ?thesis by (simp add: strip_zeros_def)
qed

text \<open>A nonnegative number below \<open>10\<^sup>4\<^sup>0\<close> with at most 40 decimals is written as a plain string.\<close>

lemma ndigits_bound:
  assumes "mag d < 10 ^ 40"
  shows "int (ndigits (d_coeff d)) + d_exp d \<le> 40 \<or> d_coeff d = 0"
proof (rule ccontr)
  assume "\<not> ?thesis"
  then have n: "40 \<le> int (ndigits (d_coeff d) - 1) + d_exp d" "0 < d_coeff d"
    using ndigits_pos [of "d_coeff d"] by auto
  have "(10::rat) ^ 40 = 10 powi 40" by simp
  also have "\<dots> \<le> 10 powi (int (ndigits (d_coeff d) - 1) + d_exp d)" by (rule ten_powi_mono [OF n(1)])
  also have "\<dots> = of_nat (10 ^ (ndigits (d_coeff d) - 1)) * 10 powi d_exp d" by (simp add: ten_powi_add)
  also have "\<dots> \<le> mag d"
    unfolding mag_def using ndigits_lower [OF n(2)] by (intro mult_right_mono of_nat_mono) simp_all
  finally show False using assms by simp
qed

lemma plain_strip_zeros:
  assumes "\<not> d_sign d" "mag d < 10 ^ 40" "-40 \<le> d_exp d"
  shows "plain_unsigned (strip_zeros (d_format d))"
proof (cases "d_exp d < 0")
  case True
  obtain i f where b: "d_body d = i @ CHR ''.'' # f" "\<forall>c\<in>set i. is_digit c" "i \<noteq> []"
    "\<forall>c\<in>set f. is_digit c" "length f = nat (- d_exp d)"
    "i = ''0'' \<or> hd i \<noteq> CHR ''0'' \<and> length i = ndigits (d_coeff d) - nat (- d_exp d)"
    by (rule d_body_dot [OF True])
  obtain g where g: "strip_zeros ([] @ i @ CHR ''.'' # f) = [] @ (if g = [] then i else i @ CHR ''.'' # g)"
    "\<forall>c\<in>set g. is_digit c" "length g \<le> length f"
    using strip_body [OF b(2-4)] by metis
  have s: "strip_zeros (d_format d) = (if g = [] then i else i @ CHR ''.'' # g)"
    using g(1) assms(1) by (simp add: d_format_body b(1))
  have "length i \<le> 40"
    using b(3,6) ndigits_bound [OF assms(2)] True by (auto simp: ndigits.simps [of 0])
  then show ?thesis
    unfolding s plain_unsigned_def Let_def
    using b(2,3,5,6) g(2,3) assms(3) True
    by (auto simp: takeWhile_digits_dot takeWhile_digits_all list_all_iff Suc_le_eq)
next
  case False
  let ?t = "nat_str (d_coeff d) @ replicate (nat (d_exp d)) (CHR ''0'')"
  have n: "CHR ''.'' \<notin> set (nat_str n)" for n using nat_str_digits [of "CHR ''.''" n] by auto
  have s: "strip_zeros (d_format d) = (if d_coeff d = 0 then ''0'' else ?t)"
    using False n assms(1) by (auto simp: strip_zeros_def d_format_body d_body_def)
  have dg: "\<forall>c\<in>set ?t. is_digit c" by (auto dest: nat_str_digits)
  have "length ?t \<le> 40" if "d_coeff d \<noteq> 0" using ndigits_bound [OF assms(2)] that False by simp
  then show ?thesis
    unfolding s plain_unsigned_def Let_def using dg nat_str_hd [of "d_coeff d"]
    by (auto simp: takeWhile_digits_all [OF dg])
qed

text \<open>Rounding to a grid is monotone and exact on the grid.\<close>

lemma mag_rescale_le:
  assumes "on_grid z x" "mag d \<le> x"
  shows "mag (d_rescale z d) \<le> x"
proof (cases "z \<le> d_exp d")
  case True
  then have "mag (d_rescale z d) = mag d"
    using ten_powi_split [OF True] by (simp add: d_rescale_def mag_def)
  then show ?thesis using assms(2) by simp
next
  case False
  let ?k = "nat (z - d_exp d)" and ?c = "d_coeff d"
  have z: "d_exp d + int ?k = z" using False by simp
  obtain m where m: "x = of_int m * 10 powi z" using assms(1) by (auto simp: on_grid_def)
  have c: "mag d = of_nat (?c div 10 ^ ?k) * 10 powi z + of_nat (?c mod 10 ^ ?k) * 10 powi d_exp d"
    using mag_cell(1) [of ?c "d_exp d" ?k] unfolding mag_def z .
  have r: "mag (d_rescale z d) = of_nat (half_even ?c ?k) * 10 powi z"
    using False by (simp add: d_rescale_def mag_def)
  have "int (half_even ?c ?k) \<le> m"
  proof (cases rule: half_even_cases [of ?c ?k])
    case 1
    have "0 \<le> (of_nat (?c mod 10 ^ ?k) :: rat) * 10 powi d_exp d" by simp
    then have "(of_nat (?c div 10 ^ ?k) :: rat) * 10 powi z \<le> of_int m * 10 powi z" using c assms(2) m by linarith
    then have "(of_nat (?c div 10 ^ ?k) :: rat) \<le> of_int m" by (rule mult_right_le_imp_le) simp
    then have "(of_int (int (?c div 10 ^ ?k)) :: rat) \<le> of_int m" by (simp only: of_int_of_nat_eq)
    then show ?thesis unfolding of_int_le_iff 1 .
  next
    case 2
    have "0 < (of_nat (?c mod 10 ^ ?k) :: rat) * 10 powi d_exp d" using 2(2) by simp
    then have "(of_nat (?c div 10 ^ ?k) :: rat) * 10 powi z < of_int m * 10 powi z" using c assms(2) m by linarith
    then have "(of_nat (?c div 10 ^ ?k) :: rat) < of_int m" by (rule mult_right_less_imp_less) simp
    then have "(of_int (int (?c div 10 ^ ?k)) :: rat) < of_int m" by (simp only: of_int_of_nat_eq)
    then show ?thesis unfolding of_int_less_iff 2(1) by simp
  qed
  then have "(of_int (int (half_even ?c ?k)) :: rat) \<le> of_int m" by (rule of_int_le_iff [THEN iffD2])
  then show ?thesis unfolding r m of_int_of_nat_eq by (rule mult_right_mono) simp
qed

lemma mag_rescale_ge:
  assumes "on_grid z x" "x \<le> mag d"
  shows "x \<le> mag (d_rescale z d)"
proof (cases "z \<le> d_exp d")
  case True
  then have "mag (d_rescale z d) = mag d"
    using ten_powi_split [OF True] by (simp add: d_rescale_def mag_def)
  then show ?thesis using assms(2) by simp
next
  case False
  let ?k = "nat (z - d_exp d)" and ?c = "d_coeff d"
  have z: "d_exp d + int ?k = z" using False by simp
  obtain m where m: "x = of_int m * 10 powi z" using assms(1) by (auto simp: on_grid_def)
  have c: "mag d < of_nat (?c div 10 ^ ?k + 1) * 10 powi z"
    using mag_cell(2) [of ?c "d_exp d" ?k] unfolding mag_def z .
  have r: "mag (d_rescale z d) = of_nat (half_even ?c ?k) * 10 powi z"
    using False by (simp add: d_rescale_def mag_def)
  have "of_int m * 10 powi z < (of_nat (?c div 10 ^ ?k + 1) :: rat) * 10 powi z" using c assms(2) m by linarith
  then have "(of_int m :: rat) < of_nat (?c div 10 ^ ?k + 1)" by (rule mult_right_less_imp_less) simp
  then have "(of_int m :: rat) < of_int (int (?c div 10 ^ ?k + 1))" by (simp only: of_int_of_nat_eq)
  then have "m \<le> int (?c div 10 ^ ?k)" unfolding of_int_less_iff by simp
  then have "m \<le> int (half_even ?c ?k)" by (cases rule: half_even_cases [of ?c ?k]) simp_all
  then have "(of_int m :: rat) \<le> of_int (int (half_even ?c ?k))" by (rule of_int_le_iff [THEN iffD2])
  then show ?thesis unfolding r m of_int_of_nat_eq by (rule mult_right_mono) simp
qed

lemma val_rescale:
  assumes "on_grid z x"
  shows "val d \<le> x \<Longrightarrow> val (d_rescale z d) \<le> x" "x \<le> val d \<Longrightarrow> x \<le> val (d_rescale z d)"
proof -
  have s: "d_sign (d_rescale z d) = d_sign d" by (simp add: d_rescale_def)
  note L = mag_rescale_le [OF assms, of d] mag_rescale_ge [OF assms, of d]
    mag_rescale_le [OF on_grid_neg [OF assms], of d] mag_rescale_ge [OF on_grid_neg [OF assms], of d]
  show "val d \<le> x \<Longrightarrow> val (d_rescale z d) \<le> x" "x \<le> val d \<Longrightarrow> x \<le> val (d_rescale z d)"
    using L unfolding val_mag s by (auto split: if_splits)
qed

lemma on_grid_rescale: "on_grid z (val (d_rescale z d))"
  by (rule on_grid_val) (simp add: d_rescale_def)

lemma plain_level_Inr:
  assumes "plain_level p v = Inr s"
  shows "on_grid (-40) (val v) \<Longrightarrow> val (py_Decimal s) = val v" "on_grid (-40) (val (py_Decimal s))"
    "on_grid (-40) x \<Longrightarrow> val v \<le> x \<Longrightarrow> val (py_Decimal s) \<le> x"
proof -
  have s: "val (py_Decimal s) = (if d_exp v < -40 then val (d_rescale (-40) v) else val v)"
    using assms by (auto simp: plain_level_def bind_r_eq_Inr d_quantize_def split: if_splits)
  show "on_grid (-40) (val (py_Decimal s))" using s on_grid_rescale on_grid_val [of "-40" v] by simp
  show "on_grid (-40) x \<Longrightarrow> val v \<le> x \<Longrightarrow> val (py_Decimal s) \<le> x"
    using s val_rescale(1) [of "-40" x v] by simp
  show "on_grid (-40) (val v) \<Longrightarrow> val (py_Decimal s) = val v"
    using s val_rescale [of "-40" "val v" v] by (auto intro: antisym)
qed

section \<open>Levels\<close>

lemma coeff_bound:
  assumes "mag d < 10 ^ k" "-40 \<le> d_exp d"
  shows "d_coeff d < 10 ^ (k + 40)"
proof -
  have "of_nat (d_coeff d) * (10::rat) powi (-40) \<le> mag d"
    unfolding mag_def using assms(2) by (intro mult_left_mono ten_powi_mono) simp_all
  then have "of_nat (d_coeff d) * (10::rat) powi (-40) < 10 ^ k" using assms(1) by simp
  then have "(of_nat (d_coeff d) :: rat) < 10 ^ k * 10 ^ 40"
    by (simp add: power_int_minus field_simps)
  then have "(of_nat (d_coeff d) :: rat) < of_nat (10 ^ (k + 40))" by (simp add: power_add)
  then show ?thesis by (simp only: of_nat_less_iff)
qed

lemma fix_bounded:
  assumes "mag d < 10 ^ 41" "-40 \<le> d_exp d"
  shows "d_fix DECIMAL_PRECISION d = d"
proof (rule d_fix_exact)
  have "d_coeff d < 10 ^ (41 + 40)" by (rule coeff_bound [OF assms])
  also have "\<dots> \<le> 10 ^ DECIMAL_PRECISION" unfolding DECIMAL_PRECISION_def by (rule power_increasing) simp_all
  finally show "d_coeff d < 10 ^ DECIMAL_PRECISION" .
qed simp

lemma positive_mag: "0 < val d \<Longrightarrow> \<not> d_sign d \<and> mag d = val d"
  by (metis mag_nonneg neg_le_0_iff_le not_less val_mag)

lemma plain_level_ok:
  assumes "mag v \<le> 10 ^ 40"
  obtains s where "plain_level DECIMAL_PRECISION v = Inr s"
    "0 < val (py_Decimal s) \<and> val (py_Decimal s) < 10 ^ 40 \<longrightarrow> plain_unsigned s"
proof (cases "d_exp v < -40")
  case True
  let ?r = "d_rescale (-40) v"
  have m: "mag ?r \<le> 10 ^ 40"
    by (rule mag_rescale_le [OF _ assms]) (use on_grid_coarser [OF on_grid_int [of "10 ^ 40"], of "-40"] in simp)
  then have "d_coeff ?r < 10 ^ (41 + 40)" by (intro coeff_bound) (simp_all add: d_rescale_def)
  also have "\<dots> \<le> 10 ^ DECIMAL_PRECISION" unfolding DECIMAL_PRECISION_def by (rule power_increasing) simp_all
  finally have "ndigits (d_coeff ?r) \<le> DECIMAL_PRECISION" by (simp add: ndigits_le_iff)
  then have "plain_level DECIMAL_PRECISION v = Inr (strip_zeros (d_format ?r))"
    using True by (simp add: plain_level_def d_quantize_def)
  moreover have "-40 \<le> d_exp ?r" by (simp add: d_rescale_def)
  ultimately show thesis
    using positive_mag [of ?r] by (intro that) (auto intro!: plain_strip_zeros)
next
  case False
  then have "plain_level DECIMAL_PRECISION v = Inr (strip_zeros (d_format v))" by (simp add: plain_level_def)
  then show thesis
    using False positive_mag [of v] by (intro that) (auto intro!: plain_strip_zeros)
qed

lemma plain_level_default:
  assumes "-40 \<le> d_exp v" "0 < val v" "val v < 10 ^ 40"
  obtains s where "plain_level DEFAULT_PRECISION v = Inr s" "plain_unsigned s" "val (py_Decimal s) = val v"
proof
  show "plain_level DEFAULT_PRECISION v = Inr (strip_zeros (d_format v))" using assms(1) by (simp add: plain_level_def)
  show "plain_unsigned (strip_zeros (d_format v))"
    by (rule plain_strip_zeros) (use assms positive_mag [of v] in simp_all)
qed simp

text \<open>What an entry looks like: the reference is the close, the target pays twice the risk.\<close>

definition entry_levels :: "StrategyContext \<Rightarrow> DecisionReason \<Rightarrow> dec \<Rightarrow> dec \<Rightarrow> StrategyDecision \<Rightarrow> bool" where
  "entry_levels context reason close support d \<longleftrightarrow>
     sd_context d = context \<and> sd_reason d = reason \<and>
     (\<exists>s. sd_setup d = Some s \<and> valid_LongSetup s
        \<and> val (py_Decimal (ls_reference_price s)) = val close
        \<and> val (py_Decimal (ls_invalidation_price s)) \<le> val support
        \<and> val (py_Decimal (ls_target_price s)) - val close
            = 2 * (val close - val (py_Decimal (ls_invalidation_price s))))"

lemma exp_add_exact: "d_exp (d_add_exact a b) = min (d_exp a) (d_exp b)"
  by (simp add: d_add_exact_def Let_def)

lemma exact_levels:
  assumes "-40 \<le> d_exp a" "-40 \<le> d_exp b" "0 < val a" "val a < 10 ^ 39" "0 < val b" "val b < 10 ^ 40"
  defines "r \<equiv> d_sub DECIMAL_PRECISION a b"
  defines "t \<equiv> d_add DECIMAL_PRECISION a (d_mul DECIMAL_PRECISION r REWARD_RISK)"
  shows "val r = val a - val b" "val t = val a + 2 * (val a - val b)" "-40 \<le> d_exp t"
proof -
  let ?R = "d_add_exact a (copy_negate b)"
  have R: "-40 \<le> d_exp ?R" using assms(1,2) by (simp add: exp_add_exact copy_negate_def)
  have Rv: "val ?R = val a - val b" by (simp add: val_add_exact)
  have "mag ?R < 10 ^ 41" unfolding mag_abs_val Rv using assms(3-6) by (simp add: abs_less_iff)
  then have r: "r = ?R" unfolding r_def d_sub_def d_add_def by (rule fix_bounded [OF _ R])
  then show rv: "val r = val a - val b" using Rv by simp
  let ?M = "Dec (d_sign r \<noteq> d_sign REWARD_RISK) (d_coeff r * d_coeff REWARD_RISK) (d_exp r + d_exp REWARD_RISK)"
  have two: "val REWARD_RISK = 2" "d_exp REWARD_RISK = 0" by (simp_all add: REWARD_RISK_def val_def d_int_def)
  have M: "val ?M = (val a - val b) * 2" unfolding val_mul_exact rv two(1) ..
  have Me: "-40 \<le> d_exp ?M" using R r two(2) by simp
  have "mag ?M < 10 ^ 41" unfolding mag_abs_val M using assms(3-6) by (simp add: abs_less_iff)
  then have m: "d_mul DECIMAL_PRECISION r REWARD_RISK = ?M" unfolding d_mul_def by (rule fix_bounded [OF _ Me])
  let ?T = "d_add_exact a ?M"
  have T: "-40 \<le> d_exp ?T" "val ?T = val a + 2 * (val a - val b)"
    using assms(1) Me unfolding exp_add_exact val_add_exact M by simp_all
  have "mag ?T < 10 ^ 41" unfolding mag_abs_val T(2) using assms(3-6) by (simp add: abs_less_iff)
  then have t: "t = ?T" unfolding t_def m d_add_def by (rule fix_bounded [OF _ T(1)])
  show "val t = val a + 2 * (val a - val b)" "-40 \<le> d_exp t" using T by (simp_all only: t)
qed

lemma raw_stop_bounds:
  assumes "price_like (val support)" "0 < val support" "0 \<le> val vol" "val vol \<le> 10 ^ 40"
  defines "raw \<equiv> d_sub DECIMAL_PRECISION support (d_mul DECIMAL_PRECISION vol STOP_ATR_FRACTION)"
  shows "val raw \<le> val support" "mag raw \<le> 10 ^ 40"
proof -
  let ?P = DECIMAL_PRECISION and ?m = "d_mul DECIMAL_PRECISION vol STOP_ATR_FRACTION"
  have big: "representable ?P (10 ^ 40)"
    using on_grid_coarser [OF on_grid_int [of "10 ^ 40"], of "-40"] by (intro representable_256 [of "-40" _ 41]) simp_all
  have q: "val STOP_ATR_FRACTION = 1 / 4" by (simp add: STOP_ATR_FRACTION_def val_def d_int_def power_int_minus)
  have m: "0 \<le> val ?m" "val ?m \<le> 10 ^ 40"
    using assms(3,4) big by (auto intro!: val_mul_nonneg val_mul_le simp: q)
  show u: "val raw \<le> val support"
    unfolding raw_def d_sub_def using m price_like_representable [OF assms(1)] by (intro val_add_le) auto
  have "- (10 ^ 40) \<le> val raw"
    unfolding raw_def d_sub_def using m assms(2) big by (intro val_add_ge) auto
  moreover have "val support < 10 ^ 40" using assms(1,2) by (simp add: price_like_def)
  ultimately show "mag raw \<le> 10 ^ 40" using u by (simp add: mag_abs_val abs_le_iff)
qed

lemma no_trade_ok: "reason \<in> set NO_TRADE_REASONS \<Longrightarrow> no_trade context reason = Inr
    \<lparr> sd_context = context, sd_action = SA_NO_TRADE, sd_reason = reason, sd_setup = None \<rparr>"
  by (simp add: no_trade_def construct_eq_Inr StrategyDecision_post_init_def)

lemma exit_long_ok: "exit_long context = Inr
    \<lparr> sd_context = context, sd_action = SA_EXIT_LONG, sd_reason = DR_STRATEGY_EXIT, sd_setup = None \<rparr>"
  by (simp add: exit_long_def construct_eq_Inr StrategyDecision_post_init_def)

text \<open>Computing the levels never raises: it gives an entry or reports an absent setup.\<close>

lemma entry_from_levels_total:
  assumes "-40 \<le> d_exp close" "0 < val close" "val close < 10 ^ 39"
    and "price_like (val support)" "0 < val support" "0 \<le> val vol" "val vol \<le> 10 ^ 40"
    and "reason \<in> set ENTRY_REASONS"
  shows "\<exists>d. entry_from_levels context reason close support vol = Inr d
    \<and> sd_context d = context \<and> (sd_action d = SA_NO_TRADE \<and> sd_reason d = DR_SETUP_ABSENT \<and> sd_setup d = None
       \<or> sd_action d = SA_ENTER_LONG \<and> entry_levels context reason close support d)"
proof -
  let ?P = DECIMAL_PRECISION
  define raw where "raw = d_sub ?P support (d_mul ?P vol STOP_ATR_FRACTION)"
  have rb: "val raw \<le> val support" "mag raw \<le> 10 ^ 40" using raw_stop_bounds [OF assms(4-7)] by (simp_all add: raw_def)
  obtain stop_text where stop_text: "plain_level ?P raw = Inr stop_text"
    "0 < val (py_Decimal stop_text) \<and> val (py_Decimal stop_text) < 10 ^ 40 \<longrightarrow> plain_unsigned stop_text"
    by (rule plain_level_ok [OF rb(2)])
  define inv where "inv = py_Decimal stop_text"
  have sg: "on_grid (-40) (val support)" "val support < 10 ^ 40"
    using assms(4,5) by (simp_all add: price_like_def)
  have iv: "val inv \<le> val support" unfolding inv_def by (rule plain_level_Inr(3) [OF stop_text(1) sg(1) rb(1)])
  define risk where "risk = d_sub ?P close inv"
  define target where "target = d_add ?P close (d_mul ?P risk REWARD_RISK)"
  show ?thesis
  proof (cases "d_le inv d_zero \<or> d_le risk d_zero")
    case True
    then have "entry_from_levels context reason close support vol = no_trade context DR_SETUP_ABSENT"
      by (simp add: entry_from_levels_def Let_def raw_def [symmetric] stop_text(1) inv_def [symmetric] risk_def [symmetric])
    then show ?thesis by (simp add: no_trade_ok NO_TRADE_REASONS_def)
  next
    case False
    then have p: "0 < val inv" "0 < val risk" by (simp_all add: dec_val)
    have pu: "plain_unsigned stop_text" using stop_text(2) p(1) iv sg(2) by (simp add: inv_def)
    have ie: "-40 \<le> d_exp inv" using plain_unsigned_bounds(1) [OF pu] by (simp add: inv_def)
    have il: "val inv < 10 ^ 40" using iv sg(2) by simp
    note L = exact_levels [OF assms(1) ie assms(2,3) p(1) il, folded risk_def, folded target_def]
    have lt: "val inv < val close" using p(2) L(1) by simp
    obtain rp where rp: "plain_level DEFAULT_PRECISION close = Inr rp" "plain_unsigned rp" "val (py_Decimal rp) = val close"
      by (rule plain_level_default [OF assms(1,2)]) (use assms(3) in simp_all)
    obtain ip where ip: "plain_level DEFAULT_PRECISION inv = Inr ip" "plain_unsigned ip" "val (py_Decimal ip) = val inv"
      by (rule plain_level_default [OF ie p(1) il])
    have tb: "0 < val target" "val target < 10 ^ 40" using L(2) assms(2,3) lt p(1) by simp_all
    obtain tp where tp: "plain_level DEFAULT_PRECISION target = Inr tp" "plain_unsigned tp" "val (py_Decimal tp) = val target"
      by (rule plain_level_default [OF L(3) tb])
    let ?s = "\<lparr> ls_reference_price = rp, ls_invalidation_price = ip, ls_target_price = tp \<rparr>"
    have v: "valid_LongSetup ?s" unfolding valid_LongSetup_iff using rp ip tp p(1) lt L(2) by simp
    let ?d = "\<lparr> sd_context = context, sd_action = SA_ENTER_LONG, sd_reason = reason, sd_setup = Some ?s \<rparr>"
    have "entry_from_levels context reason close support vol = Inr ?d"
      using False v assms(8)
      by (simp add: entry_from_levels_def Let_def raw_def [symmetric] stop_text(1) inv_def [symmetric] risk_def [symmetric]
          target_def [symmetric] rp(1) ip(1) tp(1) construct_eq_Inr valid_LongSetup_def StrategyDecision_post_init_def
          construct_def)
    moreover have "entry_levels context reason close support ?d"
      unfolding entry_levels_def using v rp(3) ip(3) tp(3) iv L(2) by simp
    ultimately show ?thesis by auto
  qed
qed

section \<open>Evaluation never raises\<close>

lemma history_loop_prefix: "history_loop d smb i t p (xs @ ys) = Inr () \<Longrightarrow> history_loop d smb i t p xs = Inr ()"
  by (induction xs arbitrary: p) (auto split: if_splits)

lemma series_loop_history:
  "history_loop (interval_ms i) smb i t (map_option cd_open_time_ms p) cs = Inr () \<Longrightarrow>
     cd_symbol f = smb \<Longrightarrow> cd_interval f = i \<Longrightarrow> series_loop f p cs = Inr ()"
proof (induction cs arbitrary: p)
  case (Cons c cs)
  then show ?case using Cons.IH [of "Some c"] by (auto split: if_splits option.splits)
qed simp

lemma feature_visible_history:
  assumes "history_loop (interval_ms i) smb i t None cs = Inr ()" "0 < t" "length cs \<le> MAX_FEATURE_CANDLES"
  shows "feature_visible cs t = Inr cs"
proof -
  note H = history_loop_ok [OF assms(1)]
  have f: "filter (\<lambda>c. cd_close_time_ms c < t) cs = cs" using H by (simp add: filter_id_conv)
  show ?thesis
  proof (cases "cs = []")
    case False
    then have "series_loop (hd cs) None cs = Inr ()"
      using series_loop_history [of i smb t None cs "hd cs"] H [of "hd cs"] assms(1) by simp
    then show ?thesis using assms(2,3) by (simp add: feature_visible_def f)
  qed (use assms(2) in \<open>simp add: feature_visible_def\<close>)
qed

lemma feature_total:
  assumes "feature_visible cs t = Inr vs" "1 \<le> p" "p \<le> MAX_FEATURE_PERIOD" "0 < t" "0 \<le> extra" "name \<noteq> []"
  shows "\<exists>r. feature name extra f cs p t = Inr r \<and> (ft_available r \<longleftrightarrow> p + extra \<le> int (length vs))
    \<and> (p + extra \<le> int (length vs) \<longrightarrow> ft_value r = Some (f vs (nat p)))"
proof -
  have "\<exists>r. feature name extra f cs p t = Inr r"
    using assms by (simp add: feature_def feature_period_def feature_result_def FeatureResult_post_init_def construct_def)
  then obtain r where r: "feature name extra f cs p t = Inr r" by blast
  show ?thesis
    by (rule feature_Inr [OF r assms(5)]) (use assms(1) r in auto)
qed

text \<open>
  The market data a strategy sees in practice: a validated context whose candles passed
  their own constructor, of bounded length and with prices below \<open>10\<^sup>3\<^sup>9\<close>, so that a target
  of three times the price still has at most 40 integer digits.
\<close>

definition market_ok :: "StrategyContext \<Rightarrow> bool" where
  "market_ok c \<longleftrightarrow> valid_StrategyContext c
     \<and> list_all valid_Candle (ms_primary (sc_snapshot c)) \<and> list_all valid_Candle (ms_regime (sc_snapshot c))
     \<and> list_all (\<lambda>k. val (high_of k) < 10 ^ 39) (ms_primary (sc_snapshot c))
     \<and> length (ms_primary (sc_snapshot c)) \<le> MAX_FEATURE_CANDLES"

definition state_ok :: "bool \<Rightarrow> LongSetup option \<Rightarrow> bool" where
  "state_ok in_position active = (case active of None \<Rightarrow> \<not> in_position | Some s \<Rightarrow> in_position \<and> valid_LongSetup s)"

lemma replace_context_valid: "valid_StrategyContext c \<Longrightarrow> replace_context c = Inr ()"
  by (simp add: replace_context_def valid_StrategyContext_def valid_MarketSnapshot_def)

lemma opt_eq_refl [simp]: "opt_eq x x"
  by (cases x) (simp_all add: dec_val)

lemma classify_regime_valid:
  "valid_StrategyContext c \<Longrightarrow> classify_regime c = Inr
     \<lparr> rg_context = c, rg_measure = measure_candles (ms_regime (sc_snapshot c)), rg_version = REGIME_VERSION \<rparr>"
  by (simp add: classify_regime_def regime_measure_def replace_context_valid construct_eq_Inr
      RegimeResult_post_init_def)

lemma candidate_validated_ok:
  "valid_StrategyContext c \<Longrightarrow> sc_identity c = i \<Longrightarrow> state_ok p a \<Longrightarrow> candidate_validated err n i c p a = Inr ()"
  by (auto simp: candidate_validated_def replace_context_valid state_ok_def valid_LongSetup_def split: option.splits)

lemma primary_history:
  assumes "market_ok c"
  defines "cs \<equiv> ms_primary (sc_snapshot c)" and "t \<equiv> sc_decision_time_ms c"
  shows "feature_visible cs t = Inr cs" "feature_visible (butlast cs) t = Inr (butlast cs)" "0 < t" "cs \<noteq> []"
    "valid_Candle (last cs)" "val (high_of (last cs)) < 10 ^ 39"
proof -
  have s: "valid_MarketSnapshot (sc_snapshot c)" using assms(1) by (simp add: market_ok_def valid_StrategyContext_def)
  note S = snapshot_histories [OF s]
  show t: "0 < t" using S(4) by (simp add: t_def sc_decision_time_ms_def)
  have h: "history_loop (interval_ms PRIMARY_INTERVAL) (ms_symbol (sc_snapshot c)) PRIMARY_INTERVAL t None cs = Inr ()"
    and ne: "cs \<noteq> []"
    using S(1) by (auto simp: validate_history_def bind_r_eq_Inr Let_def cs_def t_def sc_decision_time_ms_def split: if_splits)
  have l: "length cs \<le> MAX_FEATURE_CANDLES" using assms(1) by (simp add: market_ok_def cs_def)
  show "cs \<noteq> []" by (rule ne)
  show "feature_visible cs t = Inr cs" by (rule feature_visible_history [OF h t l])
  have "history_loop (interval_ms PRIMARY_INTERVAL) (ms_symbol (sc_snapshot c)) PRIMARY_INTERVAL t None (butlast cs) = Inr ()"
    using h ne history_loop_prefix by (metis append_butlast_last_id)
  then show "feature_visible (butlast cs) t = Inr (butlast cs)"
    using l by (intro feature_visible_history [where i = PRIMARY_INTERVAL, OF _ t]) simp_all
  show "valid_Candle (last cs)" "val (high_of (last cs)) < 10 ^ 39"
    using assms(1) ne by (auto simp: market_ok_def cs_def list_all_iff)
qed

lemma atr_bounds:
  assumes "list_all valid_Candle vs" "15 \<le> length vs"
  defines "v \<equiv> wilder (nat ATR_PERIOD) (map true_range (zip vs (tl vs)))"
  shows "0 \<le> val v \<and> val v \<le> 10 ^ 40"
proof -
  let ?xs = "map true_range (zip vs (tl vs))"
  note T = true_ranges_ok [OF assms(1)]
  have n: "1 \<le> nat ATR_PERIOD" "nat ATR_PERIOD \<le> 10000" "nat ATR_PERIOD \<le> length ?xs"
    using assms(2) by (simp_all add: ATR_PERIOD_def)
  have "?xs \<noteq> []" using n(1,3) by (metis le_zero_eq list.size(3) not_one_le_zero)
  then have "val ` set ?xs \<noteq> {}" by simp
  then have "Max (val ` set ?xs) \<in> val ` set ?xs" by (intro Max_in) auto
  then have "Max (val ` set ?xs) \<le> 10 ^ 40" using T by (force simp: list_all_iff price_like_def)
  then show ?thesis using wilder_nonneg [OF T n] by (simp add: v_def)
qed

lemma close_numbers:
  assumes "valid_Candle c" "val (high_of c) < 10 ^ 39"
  shows "-40 \<le> d_exp (close_of c)" "0 < val (close_of c)" "val (close_of c) < 10 ^ 39"
  using assms candle_numbers [OF assms(1)] plain_unsigned_bounds(1) [OF valid_Candle_prices(4) [OF assms(1)]]
  by (simp_all add: close_of_def)

section \<open>Properties\<close>

text \<open>What a candidate's decision may be, given the regime and whether a position is open.\<close>

definition decision_ok ::
    "StrategyContext \<Rightarrow> bool \<Rightarrow> LongSetup option \<Rightarrow> DecisionReason \<Rightarrow> dec \<Rightarrow> StrategyDecision \<Rightarrow> bool" where
  "decision_ok c in_position active reason support d \<longleftrightarrow>
     sd_context d = c \<and>
     (case sd_action d of
        SA_ENTER_LONG \<Rightarrow> \<not> in_position
          \<and> rm_regime (measure_candles (ms_regime (sc_snapshot c))) = TREND_UP
          \<and> confirmed (ms_context (sc_snapshot c))
          \<and> entry_levels c reason (close_of (latest_primary (sc_snapshot c))) support d
      | SA_EXIT_LONG \<Rightarrow> in_position
      | SA_NO_TRADE \<Rightarrow> sd_reason d = DR_HOLD_POSITION \<longrightarrow>
          in_position \<and> rm_regime (measure_candles (ms_regime (sc_snapshot c))) = TREND_UP
          \<and> val (py_Decimal (ls_invalidation_price (the active))) < val (close_of (latest_primary (sc_snapshot c))))"

lemmas decision_evals = no_trade_ok NO_TRADE_REASONS_def exit_long_ok decision_ok_def

lemma trend_total:
  assumes "market_ok c" "sc_identity c = TREND_PULLBACK_IDENTITY" "state_ok p a"
  shows "\<exists>d. evaluate_trend_pullback c p a = Inr d
    \<and> decision_ok c p a DR_TREND_PULLBACK_ENTRY (d_min_list (map low_of (last_n 3 (ms_primary (sc_snapshot c))))) d"
proof -
  let ?cs = "ms_primary (sc_snapshot c)" and ?t = "sc_decision_time_ms c"
  let ?m = "measure_candles (ms_regime (sc_snapshot c))" and ?k = "latest_primary (sc_snapshot c)"
  note H = primary_history [OF assms(1)]
  have vc: "valid_StrategyContext c" "list_all valid_Candle ?cs" using assms(1) by (simp_all add: market_ok_def)
  have pos: "1 \<le> PRIMARY_SMA_PERIOD" "PRIMARY_SMA_PERIOD \<le> MAX_FEATURE_PERIOD" "1 \<le> ATR_PERIOD"
    "ATR_PERIOD \<le> MAX_FEATURE_PERIOD" "1 \<le> PULLBACK_LOOKBACK" "PULLBACK_LOOKBACK \<le> MAX_FEATURE_PERIOD"
    by (simp_all add: PRIMARY_SMA_PERIOD_def ATR_PERIOD_def PULLBACK_LOOKBACK_def MAX_FEATURE_PERIOD_def)
  obtain av where av: "sma ?cs PRIMARY_SMA_PERIOD ?t = Inr av"
    using feature_total [OF H(1) pos(1,2) H(3)] unfolding sma_def by blast
  obtain vo where vo: "atr ?cs ATR_PERIOD ?t = Inr vo" "ft_available vo \<longleftrightarrow> ATR_PERIOD + 1 \<le> int (length ?cs)"
    "ATR_PERIOD + 1 \<le> int (length ?cs) \<longrightarrow> ft_value vo = Some (wilder (nat ATR_PERIOD) (map true_range (zip ?cs (tl ?cs))))"
    using feature_total [OF H(1) pos(3,4) H(3), of 1 "''ATR''"] unfolding atr_def by fastforce
  obtain lo where lo: "rolling_low ?cs PULLBACK_LOOKBACK ?t = Inr lo" "ft_available lo \<longleftrightarrow> PULLBACK_LOOKBACK \<le> int (length ?cs)"
    "PULLBACK_LOOKBACK \<le> int (length ?cs) \<longrightarrow> ft_value lo = Some (d_min_list (map low_of (last_n (nat PULLBACK_LOOKBACK) ?cs)))"
    using feature_total [OF H(1) pos(5,6) H(3), of 0 "''ROLLING_LOW''"] unfolding rolling_low_def by fastforce
  have entry: "\<exists>d. entry_from_levels c DR_TREND_PULLBACK_ENTRY (close_of ?k) (the (ft_value lo)) (the (ft_value vo)) = Inr d
      \<and> sd_context d = c \<and> (sd_action d = SA_NO_TRADE \<and> sd_reason d = DR_SETUP_ABSENT \<and> sd_setup d = None
         \<or> sd_action d = SA_ENTER_LONG \<and> entry_levels c DR_TREND_PULLBACK_ENTRY (close_of ?k) (the (ft_value lo)) d)"
    and lv: "the (ft_value lo) = d_min_list (map low_of (last_n 3 ?cs))"
    if "ft_available vo" "ft_available lo"
  proof -
    have n: "15 \<le> length ?cs" "PULLBACK_LOOKBACK \<le> int (length ?cs)" "ATR_PERIOD + 1 \<le> int (length ?cs)"
      using that vo(2) lo(2) by (simp_all add: ATR_PERIOD_def)
    let ?ls = "map low_of (last_n 3 ?cs)"
    show l: "the (ft_value lo) = d_min_list ?ls" using lo(3) n(2) by (simp add: PULLBACK_LOOKBACK_def)
    have ne: "?ls \<noteq> []" using n(1) by (simp add: last_n_def)
    then have "Min (val ` set ?ls) \<in> val ` set ?ls" by (intro Min_in) auto
    then have "price_like (val (d_min_list ?ls)) \<and> 0 < val (d_min_list ?ls)"
      unfolding val_d_min_list [OF ne] using vc(2)
      by (auto simp: list_all_iff last_n_def candle_numbers dest!: in_set_dropD)
    then show "\<exists>d. entry_from_levels c DR_TREND_PULLBACK_ENTRY (close_of ?k) (the (ft_value lo)) (the (ft_value vo)) = Inr d
      \<and> sd_context d = c \<and> (sd_action d = SA_NO_TRADE \<and> sd_reason d = DR_SETUP_ABSENT \<and> sd_setup d = None
         \<or> sd_action d = SA_ENTER_LONG \<and> entry_levels c DR_TREND_PULLBACK_ENTRY (close_of ?k) (the (ft_value lo)) d)"
      unfolding l using close_numbers [OF H(5,6)] atr_bounds [OF vc(2) n(1)] vo(3) n(3)
      by (intro entry_from_levels_total) (simp_all add: latest_primary_def ENTRY_REASONS_def)
  qed
  have i: "d_le (close_of ?k) x \<longleftrightarrow> \<not> val x < val (close_of ?k)" for x by (simp add: d_le_val not_less)
  show ?thesis
    unfolding evaluate_trend_pullback_def Let_def
    using entry lv
    by (auto simp: candidate_validated_ok [OF vc(1) assms(2,3)] classify_regime_valid [OF vc(1)] av vo(1) lo(1)
        decision_evals i)
qed

lemma breakout_total:
  assumes "market_ok c" "sc_identity c = BREAKOUT_IDENTITY" "state_ok p a"
  shows "\<exists>d. evaluate_breakout c p a = Inr d
    \<and> decision_ok c p a DR_BREAKOUT_ENTRY (low_of (latest_primary (sc_snapshot c))) d"
proof -
  let ?cs = "butlast (ms_primary (sc_snapshot c))" and ?t = "sc_decision_time_ms c"
  let ?k = "latest_primary (sc_snapshot c)"
  note H = primary_history [OF assms(1)]
  have vc: "valid_StrategyContext c" "list_all valid_Candle ?cs"
    using assms(1) by (auto simp: market_ok_def list_all_iff dest: in_set_butlastD)
  have pos: "1 \<le> BREAKOUT_LOOKBACK" "BREAKOUT_LOOKBACK \<le> MAX_FEATURE_PERIOD" "1 \<le> ATR_PERIOD"
    "ATR_PERIOD \<le> MAX_FEATURE_PERIOD"
    by (simp_all add: BREAKOUT_LOOKBACK_def ATR_PERIOD_def MAX_FEATURE_PERIOD_def)
  obtain bo where bo: "rolling_high ?cs BREAKOUT_LOOKBACK ?t = Inr bo"
    using feature_total [OF H(2) pos(1,2) H(3)] unfolding rolling_high_def by blast
  obtain vo where vo: "atr ?cs ATR_PERIOD ?t = Inr vo" "ft_available vo \<longleftrightarrow> ATR_PERIOD + 1 \<le> int (length ?cs)"
    "ATR_PERIOD + 1 \<le> int (length ?cs) \<longrightarrow> ft_value vo = Some (wilder (nat ATR_PERIOD) (map true_range (zip ?cs (tl ?cs))))"
    using feature_total [OF H(2) pos(3,4) H(3), of 1 "''ATR''"] unfolding atr_def by fastforce
  have entry: "\<exists>d. entry_from_levels c DR_BREAKOUT_ENTRY (close_of ?k) (low_of ?k) (the (ft_value vo)) = Inr d
      \<and> sd_context d = c \<and> (sd_action d = SA_NO_TRADE \<and> sd_reason d = DR_SETUP_ABSENT \<and> sd_setup d = None
         \<or> sd_action d = SA_ENTER_LONG \<and> entry_levels c DR_BREAKOUT_ENTRY (close_of ?k) (low_of ?k) d)"
    if "ft_available vo"
  proof -
    have n: "15 \<le> length ?cs" "ATR_PERIOD + 1 \<le> int (length ?cs)" using that vo(2) by (simp_all add: ATR_PERIOD_def)
    show ?thesis
      using close_numbers [OF H(5,6)] candle_numbers [OF H(5)] atr_bounds [OF vc(2) n(1)] vo(3) n(2)
      by (intro entry_from_levels_total) (simp_all add: latest_primary_def ENTRY_REASONS_def)
  qed
  have i: "d_le (close_of ?k) x \<longleftrightarrow> \<not> val x < val (close_of ?k)" for x by (simp add: d_le_val not_less)
  show ?thesis
    unfolding evaluate_breakout_def Let_def
    using entry
    by (auto simp: candidate_validated_ok [OF vc(1) assms(2,3)] classify_regime_valid [OF vc(1)] bo vo(1)
        decision_evals i)
qed

text \<open>The averages behind an upward regime.\<close>

lemma positive_quotient:
  assumes "0 < val (d_div DECIMAL_PRECISION (d_sub DECIMAL_PRECISION a b) b)" "0 < val b"
  shows "val b < val a"
proof (rule ccontr)
  assume "\<not> val b < val a"
  then have "val (d_sub DECIMAL_PRECISION a b) \<le> 0" unfolding d_sub_def by (intro val_add_le) auto
  then have "val (d_div DECIMAL_PRECISION (d_sub DECIMAL_PRECISION a b) b) \<le> 0"
    using assms(2) by (intro val_div_le) (auto simp: divide_nonpos_pos)
  then show False using assms(1) by simp
qed

lemma mean_pos:
  assumes "list_all valid_Candle cs" "cs \<noteq> []" "length cs \<le> 100000"
  shows "0 < val (d_mean (map close_of cs) (int (length cs)))"
proof -
  let ?xs = "map close_of cs"
  have pl: "list_all (\<lambda>x. price_like (val x)) ?xs" using assms(1) by (auto simp: list_all_iff candle_numbers)
  have ne: "val ` set ?xs \<noteq> {}" using assms(2) by simp
  have mi: "Min (val ` set ?xs) \<in> val ` set ?xs" "Max (val ` set ?xs) \<in> val ` set ?xs"
    using ne by (auto intro: Min_in Max_in)
  then have "price_like (Min (val ` set ?xs))" "price_like (Max (val ` set ?xs))" "0 < Min (val ` set ?xs)"
    using assms(1) by (auto simp: list_all_iff candle_numbers)
  moreover from this have "Min (val ` set ?xs) \<le> val (d_mean ?xs (int (length ?xs)))"
    using d_mean_between [OF pl, of "Min (val ` set ?xs)" "Max (val ` set ?xs)"] assms(2,3)
    by (simp add: price_like_representable)
  ultimately show ?thesis using less_le_trans by (metis length_map)
qed

lemma regime_up:
  assumes "list_all valid_Candle cs" "rm_regime (measure_candles cs) = TREND_UP"
  shows "\<exists>fast slow. 51 \<le> length cs \<and> rm_fast_sma (measure_candles cs) = Some fast
    \<and> rm_slow_sma (measure_candles cs) = Some slow
    \<and> val slow < val fast \<and> val fast < val (close_of (last cs))"
proof -
  have n: "51 \<le> length cs" using assms(2) by (auto simp: measure_candles_def WARMUP_def split: if_splits)
  let ?c = "map close_of (last_n WARMUP cs)"
  define fast where "fast = d_mean (last_n FAST_PERIOD ?c) (int FAST_PERIOD)"
  define slow where "slow = d_mean (last_n SLOW_PERIOD ?c) (int SLOW_PERIOD)"
  have l: "last ?c = close_of (last cs)" using n by (simp add: last_n_def WARMUP_def last_map)
  have "last_n SLOW_PERIOD ?c = map close_of (last_n SLOW_PERIOD (last_n WARMUP cs))" by (simp add: last_n_def drop_map)
  moreover have "list_all valid_Candle (last_n SLOW_PERIOD (last_n WARMUP cs))"
    using assms(1) by (auto simp: last_n_def list_all_iff dest!: in_set_dropD)
  moreover have "length (last_n SLOW_PERIOD (last_n WARMUP cs)) = SLOW_PERIOD"
    using n by (simp add: last_n_def SLOW_PERIOD_def WARMUP_def)
  ultimately have sp: "0 < val slow"
    using mean_pos [of "last_n SLOW_PERIOD (last_n WARMUP cs)"] by (force simp: slow_def SLOW_PERIOD_def)
  have f: "rm_fast_sma (measure_candles cs) = Some fast" "rm_slow_sma (measure_candles cs) = Some slow"
    and up: "d_lt SPREAD_BOUNDARY (d_div DECIMAL_PRECISION (d_sub DECIMAL_PRECISION fast slow) slow)"
      "d_lt fast (close_of (last cs))"
    using n assms(2)
    by (auto simp: measure_candles_def Let_def WARMUP_def fast_def slow_def l [unfolded WARMUP_def] classify_def
        split: if_splits prod.splits)
  have "0 < val SPREAD_BOUNDARY" by (simp add: SPREAD_BOUNDARY_def val_def d_int_def)
  then have "val slow < val fast" using up(1) sp by (intro positive_quotient) (auto simp: d_lt_val)
  then show ?thesis using n f up(2) by (auto simp: d_lt_val)
qed

text \<open>C28. The trend candidate always decides and its entries are sound: on validated market data of
bounded size with a consistent position state, evaluation returns a decision and never raises; an entry
is proposed only without a position, in an upward regime and after a confirming quarter hour; its
reference is the last close, its stop is at most the lowest low of the last three hours, and its target
is exactly twice the risk away. With a position, holding means the regime is still upward and the close
is above the stop.\<close>

theorem trend_candidate_sound:
  assumes "market_ok c" and "sc_identity c = TREND_PULLBACK_IDENTITY" and "state_ok p a"
  shows "\<exists>d. evaluate_trend_pullback c p a = Inr d
    \<and> decision_ok c p a DR_TREND_PULLBACK_ENTRY (d_min_list (map low_of (last_n 3 (ms_primary (sc_snapshot c))))) d"
  by (rule trend_total [OF assms])

definition example_context :: "StrategyIdentity \<Rightarrow> StrategyContext" where
  "example_context i = default_context i example_snapshot"

lemma example_market_ok:
  assumes "i = TREND_PULLBACK_IDENTITY \<or> i = BREAKOUT_IDENTITY"
  shows "market_ok (example_context i)"
proof -
  have s: "valid_MarketSnapshot example_snapshot" using snapshot_at_Inr(1) [OF example_snapshot_at] .
  have k: "valid_Candle (example_bar ''4h'' 1704067200000)"
    by (simp add: valid_Candle_def Candle_post_init_def example_bar_def example_candle_def candle_decimal_def
        DATA_SOURCE_def SYMBOLS_def interval_ms_def py_eval)
  have h: "val (high_of (example_bar ''1h'' 1704067200000)) < 10 ^ 39"
    by (simp add: high_of_def example_bar_def example_candle_def py_eval val_def)
  show ?thesis
    using assms s k h example_bar_valid(1)
    by (auto simp: market_ok_def example_context_def valid_StrategyContext_def default_context_def
        StrategyContext_post_init_def StrategyIdentity_post_init_def TREND_PULLBACK_IDENTITY_def
        BREAKOUT_IDENTITY_def STRATEGY_ID_PATTERN_def VERSION_PATTERN_def is_upper_def is_digit_def
        MAX_FEATURE_CANDLES_def example_snapshot_def)
qed

theorem trend_candidate_sound_witness:
  "\<exists>d. evaluate_trend_pullback (example_context TREND_PULLBACK_IDENTITY) False None = Inr d"
  using trend_candidate_sound [OF example_market_ok, of TREND_PULLBACK_IDENTITY False None]
  by (auto simp: example_context_def default_context_def state_ok_def)

text \<open>C29. The breakout candidate always decides and its entries are sound, under the same conditions:
an entry needs a flat position, an upward regime and confirmation; its reference is the last close, its
stop is at most the low of the breakout candle and its target is exactly twice the risk away.\<close>

theorem breakout_candidate_sound:
  assumes "market_ok c" and "sc_identity c = BREAKOUT_IDENTITY" and "state_ok p a"
  shows "\<exists>d. evaluate_breakout c p a = Inr d
    \<and> decision_ok c p a DR_BREAKOUT_ENTRY (low_of (latest_primary (sc_snapshot c))) d"
  by (rule breakout_total [OF assms])

theorem breakout_candidate_sound_witness:
  "\<exists>d. evaluate_breakout (example_context BREAKOUT_IDENTITY) False None = Inr d"
  using breakout_candidate_sound [OF example_market_ok, of BREAKOUT_IDENTITY False None]
  by (auto simp: example_context_def default_context_def state_ok_def)

text \<open>An upward regime means what it says: it needs 51 closed four-hour candles, and then the last
close is above the 20-candle average, which is above the 50-candle average.\<close>

theorem upward_regime_ordered:
  assumes "list_all valid_Candle cs" and "rm_regime (measure_candles cs) = TREND_UP"
  shows "51 \<le> length cs \<and>
    (case (rm_fast_sma (measure_candles cs), rm_slow_sma (measure_candles cs)) of
       (Some fast, Some slow) \<Rightarrow> val slow < val fast \<and> val fast < val (py_Decimal (cd_close (last cs)))
     | _ \<Rightarrow> False)"
  using regime_up [OF assms] by (auto simp: close_of_def)

definition example_trend :: "Candle list" where
  "example_trend = replicate 50 example_candle @ [example_candle\<lparr> cd_close := ''120'' \<rparr>]"

lemma example_mean:
  assumes "list_all (\<lambda>x. price_like (val x)) xs" "length xs = n" "0 < n" "n \<le> 100"
    "sum_list (map val xs) / of_nat n = q" "representable DECIMAL_PRECISION q"
  shows "val (d_mean xs (int n)) = q"
  using val_d_sum_exact [OF assms(1)] assms(2-6) unfolding d_mean_def
  by (subst val_d_div) (simp_all add: val_dec_of_int)

lemma example_trend_closes:
  "close_of example_candle = Dec False 110 0" "close_of (example_candle\<lparr> cd_close := ''120'' \<rparr>) = Dec False 120 0"
  "val (Dec False 110 0) = 110" "val (Dec False 120 0) = 120" "price_like 110" "price_like 120"
  using on_grid_coarser [OF on_grid_int [of 110], of "-40"] on_grid_coarser [OF on_grid_int [of 120], of "-40"]
  by (simp_all add: close_of_def example_candle_def py_eval val_def price_like_def)

lemma tenths_representable: "representable DECIMAL_PRECISION (of_int k / 10000)" if "\<bar>k\<bar> < 10 ^ 20"
proof (rule representable_256 [of "-4" _ 20])
  show "on_grid (-4) (of_int k / 10000)" using on_grid_bps [OF on_grid_int [of k]] by simp
  have "\<bar>of_int k / 10000 :: rat\<bar> \<le> \<bar>of_int k\<bar>" by (simp add: abs_divide divide_le_eq)
  also have "\<dots> < 10 ^ 20" using that by (metis of_int_abs of_int_less_iff of_int_numeral of_int_power)
  finally show "\<bar>of_int k / 10000 :: rat\<bar> < 10 ^ 20" .
qed simp

lemma example_trend_up: "rm_regime (measure_candles example_trend) = TREND_UP"
proof -
  let ?P = DECIMAL_PRECISION
  let ?c = "replicate 50 (Dec False 110 0) @ [Dec False 120 0]"
  have c: "map close_of (last_n WARMUP example_trend) = ?c"
    by (simp add: last_n_def WARMUP_def example_trend_def example_trend_closes map_replicate)
  define fast where "fast = d_mean (last_n 20 ?c) 20"
  define slow where "slow = d_mean (last_n 50 ?c) 50"
  define prev where "prev = d_mean (butlast ?c) 50"
  have v: "val fast = 221 / 2" "val slow = 551 / 5" "val prev = 110"
    unfolding fast_def slow_def prev_def
    using example_mean [of "last_n 20 ?c" 20 "221 / 2"] example_mean [of "last_n 50 ?c" 50 "551 / 5"]
      example_mean [of "butlast ?c" 50 110] tenths_representable [of 1105000] tenths_representable [of 1102000]
      tenths_representable [of 1100000]
    by (simp_all add: last_n_def drop_append example_trend_closes sum_list_replicate list_all_iff)
  have d: "val (d_sub ?P fast slow) = 3 / 10" "val (d_sub ?P slow prev) = 1 / 5"
    using val_d_sub [of ?P fast slow] val_d_sub [of ?P slow prev] tenths_representable [of 3000]
      tenths_representable [of 2000] by (simp_all add: v)
  have s: "27 / 10000 \<le> val (d_div ?P (d_sub ?P fast slow) slow)" "1 / 10000 \<le> val (d_div ?P (d_sub ?P slow prev) prev)"
    using val_div_ge [of ?P slow "27 / 10000" "d_sub ?P fast slow"]
      val_div_ge [of ?P prev "1 / 10000" "d_sub ?P slow prev"] tenths_representable [of 27] tenths_representable [of 1]
    by (simp_all add: v d)
  have b: "val SPREAD_BOUNDARY = 2 / 1000" by (simp add: SPREAD_BOUNDARY_def val_def d_int_def power_int_minus)
  have "classify (Dec False 120 0) fast slow (d_div ?P (d_sub ?P fast slow) slow) (d_div ?P (d_sub ?P slow prev) prev)
      = (TREND_UP, RG_UP_ALIGNED)"
    unfolding classify_def using s by (simp add: d_lt_val b v example_trend_closes)
  then show ?thesis
    using c by (simp add: measure_candles_def Let_def fast_def slow_def prev_def FAST_PERIOD_def SLOW_PERIOD_def
        WARMUP_def example_trend_def)
qed

theorem upward_regime_ordered_witness:
  "51 \<le> length example_trend \<and> rm_regime (measure_candles example_trend) = TREND_UP"
proof -
  have "valid_Candle (example_candle\<lparr> cd_close := ''120'' \<rparr>)"
    by (simp add: valid_Candle_def Candle_post_init_def example_candle_def candle_decimal_def DATA_SOURCE_def
        SYMBOLS_def py_eval)
  then have "list_all valid_Candle example_trend"
    using example_candle_valid by (simp add: example_trend_def list_all_iff)
  from upward_regime_ordered [OF this example_trend_up] example_trend_up show ?thesis by blast
qed

end
