(* ===== verification/Strategy_Adapter.thy ===== *)
theory Strategy_Adapter
  imports Strategy_Candidates Backtest_Fills
begin

text \<open>
  \<^verbatim>\<open>yatl/strategy/adapter.py\<close>: the research bridge from strategy decisions to the
  paper fill engine. It keeps the setup of the open position beside the engine; the
  interpretation of \<open>atomic_object\<close> shows that the two never diverge and that a rejected
  call changes nothing.
\<close>

section \<open>Definitions\<close>

definition FIXED_RESEARCH_QUANTITY :: string where "FIXED_RESEARCH_QUANTITY = ''0.001''"

definition SUPPORTED_IDENTITIES :: "StrategyIdentity list" where
  "SUPPORTED_IDENTITIES = [TREND_PULLBACK_IDENTITY, BREAKOUT_IDENTITY]"

record AdapterStep =
  st_decision :: StrategyDecision
  st_intent :: PaperIntent
  st_fills :: "FillReference list"

definition AdapterStep_post_init :: "AdapterStep \<Rightarrow> unit result" where
  "AdapterStep_post_init s =
     (if length (st_fills s) > 2
         \<or> pi_decision_time_ms (st_intent s) \<noteq> sd_decision_time_ms (st_decision s)
      then Inl (SignalAdapterError ''Adapter step identity is invalid'')
      else
        let expected = (case sd_action (st_decision s) of
            SA_NO_TRADE \<Rightarrow> HOLD | SA_ENTER_LONG \<Rightarrow> ENTER_LONG | SA_EXIT_LONG \<Rightarrow> EXIT_LONG)
        in if pi_action (st_intent s) \<noteq> expected
           then Inl (SignalAdapterError ''Decision and paper intent actions differ'')
           else if list_ex (\<lambda>f. fr_symbol f \<noteq> sd_symbol (st_decision s)
                     \<or> fr_decision_time_ms f \<noteq> sd_decision_time_ms (st_decision s)) (st_fills s)
           then Inl (SignalAdapterError ''Adapter fill identity is invalid'')
           else Inr ())"

record ResearchSignalAdapter =
  ra_identity :: StrategyIdentity
  ra_symbol :: string
  ra_fill_engine :: PaperFillEngine
  ra_active_setup :: "LongSetup option"
  ra_last_sequence :: "int option"
  ra_last_decision_time_ms :: "int option"

definition ResearchSignalAdapter_init :: "StrategyIdentity \<Rightarrow> string \<Rightarrow> ResearchSignalAdapter result" where
  "ResearchSignalAdapter_init identity symbol =
     (if identity \<notin> set SUPPORTED_IDENTITIES
      then Inl (SignalAdapterError ''Adapter strategy identity is not supported'')
      else if symbol \<notin> set SYMBOLS then Inl (SignalAdapterError ''Adapter symbol is not approved'')
      else bind_r (PaperFillEngine_init symbol) (\<lambda>engine.
        Inr \<lparr> ra_identity = identity, ra_symbol = symbol, ra_fill_engine = engine,
              ra_active_setup = None, ra_last_sequence = None, ra_last_decision_time_ms = None \<rparr>))"

definition ra_has_position :: "ResearchSignalAdapter \<Rightarrow> bool" where
  "ra_has_position a \<longleftrightarrow> ra_active_setup a \<noteq> None"

text \<open>The order in which an adapter accepts events.\<close>

definition next_event_ok :: "int option \<Rightarrow> int option \<Rightarrow> DecisionEvent \<Rightarrow> bool" where
  "next_event_ok last_sequence last_time event \<longleftrightarrow>
     de_sequence event = (case last_sequence of None \<Rightarrow> 0 | Some n \<Rightarrow> n + 1)
     \<and> (case last_time of None \<Rightarrow> True | Some t \<Rightarrow> t < de_decision_time_ms event)"

definition replace_decision :: "StrategyDecision \<Rightarrow> unit result" where
  "replace_decision d =
     bind_r (replace_context (sd_context d)) (\<lambda>_. StrategyDecision_post_init d)"

definition signal_validate ::
    "ResearchSignalAdapter \<Rightarrow> DecisionEvent \<Rightarrow> StrategyDecision \<Rightarrow> unit result" where
  "signal_validate a event decision =
     (if sc_identity (sd_context decision) \<noteq> ra_identity a \<or> sd_symbol decision \<noteq> ra_symbol a
         \<or> ms_symbol (de_snapshot event) \<noteq> ra_symbol a
         \<or> sd_decision_time_ms decision \<noteq> de_decision_time_ms event
         \<or> sc_snapshot (sd_context decision) \<noteq> de_snapshot event
      then Inl (SignalAdapterError ''Event, decision or fill identity is inconsistent'')
      else bind_r (catch_r (replace_decision decision) is_contract_error
        (SignalAdapterError ''Strategy decision failed reconstruction'')) (\<lambda>_.
        require (next_event_ok (ra_last_sequence a) (ra_last_decision_time_ms a) event)
          (SignalAdapterError ''Duplicate or out-of-order decision'')))"

definition plain_intent :: "IntentAction \<Rightarrow> int \<Rightarrow> PaperIntent result" where
  "plain_intent action t =
     construct PaperIntent_post_init
       \<lparr> pi_action = action, pi_decision_time_ms = t, pi_quantity = None, pi_stop_price = None,
         pi_target_price = None \<rparr>"

definition entry_intent :: "int \<Rightarrow> string \<Rightarrow> LongSetup \<Rightarrow> PaperIntent result" where
  "entry_intent t quantity setup =
     construct PaperIntent_post_init
       \<lparr> pi_action = ENTER_LONG, pi_decision_time_ms = t, pi_quantity = Some quantity,
         pi_stop_price = Some (ls_invalidation_price setup),
         pi_target_price = Some (ls_target_price setup) \<rparr>"

text \<open>\<open>the\<close> is applied to the setup of an entry decision, which its constructor requires.\<close>

definition signal_intent :: "ResearchSignalAdapter \<Rightarrow> StrategyDecision \<Rightarrow> PaperIntent result" where
  "signal_intent a decision =
     (if ra_has_position a
      then (if sd_action decision = SA_EXIT_LONG then plain_intent EXIT_LONG (sd_decision_time_ms decision)
            else if sd_action decision = SA_NO_TRADE \<and> sd_reason decision = DR_HOLD_POSITION
            then plain_intent HOLD (sd_decision_time_ms decision)
            else Inl (SignalAdapterError ''Open strategy state requires HOLD or EXIT_LONG''))
      else if sd_action decision = SA_ENTER_LONG
      then entry_intent (sd_decision_time_ms decision) FIXED_RESEARCH_QUANTITY (the (sd_setup decision))
      else if sd_action decision = SA_NO_TRADE \<and> sd_reason decision \<noteq> DR_HOLD_POSITION
      then plain_intent HOLD (sd_decision_time_ms decision)
      else Inl (SignalAdapterError ''Flat strategy state cannot hold or exit a position''))"

definition signal_finish ::
    "DecisionEvent \<Rightarrow> StrategyDecision \<Rightarrow> PaperIntent \<Rightarrow> FillReference list \<Rightarrow>
       (ResearchSignalAdapter, AdapterStep) action" where
  "signal_finish event decision intent fills =
     act_bind (act_lift (construct AdapterStep_post_init
        \<lparr> st_decision = decision, st_intent = intent, st_fills = fills \<rparr>)) (\<lambda>step.
     act_bind (act_update (\<lambda>a.
        if pi_action intent = ENTER_LONG \<and> fe_has_position (ra_fill_engine a)
        then a\<lparr> ra_active_setup := sd_setup decision \<rparr>
        else if \<not> fe_has_position (ra_fill_engine a) then a\<lparr> ra_active_setup := None \<rparr> else a)) (\<lambda>_.
     \<lambda>a. if ra_has_position a \<noteq> fe_has_position (ra_fill_engine a)
          then act_raise (SignalAdapterError ''Strategy and fill-engine position states diverged'') a
          else act_bind (act_update (\<lambda>a. a\<lparr> ra_last_sequence := Some (de_sequence event),
                 ra_last_decision_time_ms := Some (de_decision_time_ms event) \<rparr>))
               (\<lambda>_. act_return step) a))"

definition signal_process ::
    "DecisionEvent \<Rightarrow> StrategyDecision \<Rightarrow> Candle \<Rightarrow> (ResearchSignalAdapter, AdapterStep) action" where
  "signal_process event decision fill_candle a =
     act_bind (act_lift (signal_validate a event decision)) (\<lambda>_.
     act_bind (act_lift (signal_intent a decision)) (\<lambda>intent.
     act_bind
       (\<lambda>a. case process event intent fill_candle (ra_fill_engine a) of
          (engine, Inl e) \<Rightarrow> (a\<lparr> ra_fill_engine := engine \<rparr>,
             Inl (if is_FillModelError e then SignalAdapterError ''P2 rejected the strategy paper intent'' else e))
        | (engine, Inr fills) \<Rightarrow> (a\<lparr> ra_fill_engine := engine \<rparr>, Inr fills))
       (\<lambda>fills. signal_finish event decision intent fills))) a"

section \<open>The engine seen from an adapter\<close>

lemma event_fill_times:
  "event_fill g ev f \<Longrightarrow> valid_DecisionEvent ev \<Longrightarrow>
     fr_symbol f = fe_symbol g \<and> fr_decision_time_ms f = de_decision_time_ms ev"
  using valid_FillReferenceD(3) [of f]
  by (auto simp: event_fill_def valid_DecisionEvent_def DecisionEvent_post_init_def split: if_splits)

lemma process_symbol: "process ev i c g = (g', Inr fs) \<Longrightarrow> fe_symbol g' = fe_symbol g"
proof -
  assume "process ev i c g = (g', Inr fs)"
  then have b: "process_body ev i c g = (g', Inr fs)" using process_Inr_body by blast
  consider "process_hold ev c g = (g', Inr fs)" | "process_exit ev c g = (g', Inr fs)"
    | "process_enter ev i c g = (g', Inr fs)"
    using b by (cases "pi_action i") (auto simp: process_body_def act_bind_eq_Inr split: if_splits)
  then show ?thesis
    by cases (auto dest: process_hold_Inr(4) process_exit_Inr(4) process_enter_Inr(4))
qed

text \<open>What one accepted call does to the position, by the intent's action.\<close>

definition bracket_of :: "PaperIntent \<Rightarrow> OpenPosition" where
  "bracket_of i = \<lparr> op_quantity = the (pi_quantity i), op_stop_price = the (pi_stop_price i),
     op_target_price = the (pi_target_price i) \<rparr>"

lemma process_position:
  assumes "process ev i c g = (g', Inr fs)"
  shows "pi_action i = HOLD \<Longrightarrow> fe_position g' = fe_position g \<or> fe_position g' = None"
    "pi_action i = EXIT_LONG \<Longrightarrow> fe_position g \<noteq> None \<and> fe_position g' = None"
    "pi_action i = ENTER_LONG \<Longrightarrow> fe_position g = None \<and> (fe_position g' = Some (bracket_of i) \<or> fe_position g' = None)
       \<and> fs \<noteq> [] \<and> fr_action (hd fs) = ENTER_LONG \<and> fr_quantity (hd fs) = the (pi_quantity i)"
proof -
  have b: "process_body ev i c g = (g', Inr fs)" using process_Inr_body [OF assms] by simp
  show "pi_action i = HOLD \<Longrightarrow> fe_position g' = fe_position g \<or> fe_position g' = None"
    using b process_hold_Inr(4) [of ev c g g' fs]
    by (auto simp: process_body_def act_bind_eq_Inr split: if_splits)
  show "pi_action i = EXIT_LONG \<Longrightarrow> fe_position g \<noteq> None \<and> fe_position g' = None"
    using b by (auto simp: process_body_def act_bind_eq_Inr process_exit_def split: if_splits option.splits)
  assume "pi_action i = ENTER_LONG"
  then have e: "process_enter ev i c g = (g', Inr fs)"
    using b by (auto simp: process_body_def act_bind_eq_Inr split: if_splits)
  have "fe_position g = None \<and> fs \<noteq> [] \<and> fr_action (hd fs) = ENTER_LONG \<and> fr_quantity (hd fs) = the (pi_quantity i)"
    using e by (auto simp: process_enter_def act_bind_eq_Inr split: if_splits dest: fill_reference_Inr)
  then show "fe_position g = None \<and> (fe_position g' = Some (bracket_of i) \<or> fe_position g' = None)
       \<and> fs \<noteq> [] \<and> fr_action (hd fs) = ENTER_LONG \<and> fr_quantity (hd fs) = the (pi_quantity i)"
    using process_enter_Inr(4) [OF e] by (auto simp: bracket_of_def)
qed

section \<open>The adapter never diverges\<close>

definition signal_inv :: "ResearchSignalAdapter \<Rightarrow> bool" where
  "signal_inv a \<longleftrightarrow> ra_symbol a \<in> set SYMBOLS \<and> fe_symbol (ra_fill_engine a) = ra_symbol a
     \<and> engine_ok (ra_fill_engine a)
     \<and> fe_position (ra_fill_engine a) = map_option (\<lambda>s. \<lparr> op_quantity = FIXED_RESEARCH_QUANTITY,
          op_stop_price = ls_invalidation_price s, op_target_price = ls_target_price s \<rparr>) (ra_active_setup a)"

definition signal_admissible :: "DecisionEvent \<times> StrategyDecision \<times> Candle \<Rightarrow> bool" where
  "signal_admissible x = (case x of (event, decision, candle) \<Rightarrow>
     valid_DecisionEvent event \<and> valid_StrategyDecision decision)"

definition signal_input ::
    "DecisionEvent \<times> StrategyDecision \<times> Candle \<Rightarrow> (ResearchSignalAdapter, AdapterStep) action" where
  "signal_input x = (case x of (event, decision, candle) \<Rightarrow> signal_process event decision candle)"

lemma plain_intent_Inr:
  "plain_intent act t = Inr i \<Longrightarrow> pi_action i = act \<and> pi_decision_time_ms i = t \<and> valid_PaperIntent i"
  by (auto simp: plain_intent_def construct_eq_Inr valid_PaperIntent_def)

lemma entry_intent_Inr:
  "entry_intent t q s = Inr i \<Longrightarrow> pi_action i = ENTER_LONG \<and> pi_decision_time_ms i = t \<and> valid_PaperIntent i
     \<and> bracket_of i = \<lparr> op_quantity = q, op_stop_price = ls_invalidation_price s, op_target_price = ls_target_price s \<rparr>"
  by (auto simp: entry_intent_def construct_eq_Inr valid_PaperIntent_def bracket_of_def)

definition intent_matches :: "StrategyDecision \<Rightarrow> PaperIntent \<Rightarrow> bool" where
  "intent_matches d i \<longleftrightarrow> pi_decision_time_ms i = sd_decision_time_ms d \<and> valid_PaperIntent i
     \<and> pi_action i = (case sd_action d of SA_NO_TRADE \<Rightarrow> HOLD | SA_ENTER_LONG \<Rightarrow> ENTER_LONG | SA_EXIT_LONG \<Rightarrow> EXIT_LONG)
     \<and> (sd_action d = SA_ENTER_LONG \<longrightarrow> bracket_of i = \<lparr> op_quantity = FIXED_RESEARCH_QUANTITY,
          op_stop_price = ls_invalidation_price (the (sd_setup d)), op_target_price = ls_target_price (the (sd_setup d)) \<rparr>)"

lemma signal_intent_Inr: "signal_intent a d = Inr i \<Longrightarrow> intent_matches d i"
  by (auto simp: signal_intent_def intent_matches_def split: if_splits StrategyAction.splits
      dest: plain_intent_Inr entry_intent_Inr)

lemma signal_finish_total:
  assumes "signal_inv a" "valid_DecisionEvent ev" "valid_StrategyDecision d" "signal_validate a ev d = Inr ()"
    and "intent_matches d i" "process ev i c (ra_fill_engine a) = (g, Inr fs)"
  shows "\<exists>b s. signal_finish ev d i fs (a\<lparr> ra_fill_engine := g \<rparr>) = (b, Inr s) \<and> signal_inv b"
proof -
  note P = process_outcome [OF assms(6)] and Q = process_position [OF assms(6)]
  have ids: "sd_symbol d = ra_symbol a" "sd_decision_time_ms d = de_decision_time_ms ev"
    using assms(4) by (auto simp: signal_validate_def split: if_splits)
  have sg: "fe_symbol (ra_fill_engine a) = ra_symbol a" "engine_ok (ra_fill_engine a)"
    using assms(1) by (auto simp: signal_inv_def)
  have "list_all (\<lambda>f. fr_symbol f = sd_symbol d \<and> fr_decision_time_ms f = sd_decision_time_ms d) fs"
    using P(3) event_fill_times assms(2) sg(1) ids by (auto simp: list_all_iff)
  then have st: "construct AdapterStep_post_init \<lparr> st_decision = d, st_intent = i, st_fills = fs \<rparr>
      = Inr \<lparr> st_decision = d, st_intent = i, st_fills = fs \<rparr>"
    using P(2) assms(5)
    by (auto simp: construct_eq_Inr AdapterStep_post_init_def intent_matches_def list_all_iff list_ex_iff
        split: StrategyAction.splits)
  have g: "fe_symbol g = ra_symbol a" "engine_ok g"
    using process_symbol [OF assms(6)] sg P(5) assms(5) by (simp_all add: intent_matches_def)
  have su: "\<exists>s. sd_setup d = Some s" if "sd_action d = SA_ENTER_LONG"
    using valid_decision_setup [OF assms(3) that] by blast
  show ?thesis
  proof (cases "sd_action d")
    case SA_ENTER_LONG
    then obtain s where s: "sd_setup d = Some s" using su by blast
    have i: "pi_action i = ENTER_LONG" "bracket_of i = \<lparr> op_quantity = FIXED_RESEARCH_QUANTITY,
        op_stop_price = ls_invalidation_price s, op_target_price = ls_target_price s \<rparr>"
      using assms(5) SA_ENTER_LONG s by (simp_all add: intent_matches_def)
    show ?thesis
      using assms(1) g Q(3) [OF i(1)] i s
      by (auto simp: signal_finish_def act_bind_def st fe_has_position_def ra_has_position_def signal_inv_def)
  next
    case SA_NO_TRADE
    then have i: "pi_action i = HOLD" using assms(5) by (simp add: intent_matches_def)
    show ?thesis
      using assms(1) g Q(1) [OF i] i
      by (auto simp: signal_finish_def act_bind_def st fe_has_position_def ra_has_position_def signal_inv_def)
  next
    case SA_EXIT_LONG
    then have i: "pi_action i = EXIT_LONG" using assms(5) by (simp add: intent_matches_def)
    show ?thesis
      using assms(1) g Q(2) [OF i] i
      by (auto simp: signal_finish_def act_bind_def st fe_has_position_def ra_has_position_def signal_inv_def)
  qed
qed

lemma signal_process_step:
  assumes "signal_inv a" "signal_admissible (ev, d, c)" "signal_process ev d c a = (b, r)"
  shows "case r of Inl _ \<Rightarrow> b = a | Inr _ \<Rightarrow> signal_inv b"
proof -
  have v: "valid_DecisionEvent ev" "valid_StrategyDecision d" using assms(2) by (simp_all add: signal_admissible_def)
  show ?thesis
  proof (cases "signal_validate a ev d")
    case (Inl e)
    then show ?thesis using assms(3) by (auto simp: signal_process_def act_bind_def)
  next
    case V: (Inr u)
    show ?thesis
    proof (cases "signal_intent a d")
      case (Inl e)
      then show ?thesis using assms(3) V by (auto simp: signal_process_def act_bind_def)
    next
      case (Inr i)
      obtain g q where p: "process ev i c (ra_fill_engine a) = (g, q)" by fastforce
      show ?thesis
      proof (cases q)
        case (Inl e)
        then have "g = ra_fill_engine a" using process_atomic p by blast
        then show ?thesis using assms(3) V Inr p Inl by (auto simp: signal_process_def act_bind_def)
      next
        case F: (Inr fs)
        obtain b' s where "signal_finish ev d i fs (a\<lparr> ra_fill_engine := g \<rparr>) = (b', Inr s)" "signal_inv b'"
          using signal_finish_total [OF assms(1) v _ signal_intent_Inr [OF Inr] p [unfolded F]] V by auto
        then show ?thesis using assms(3) V Inr p F by (auto simp: signal_process_def act_bind_def)
      qed
    qed
  qed
qed

interpretation signal: atomic_object signal_input signal_admissible signal_inv
proof unfold_locales
  fix i s t e x
  assume "signal_inv s" "signal_admissible i" "signal_input i s = (t, Inl e)"
  then show "t = s" by (cases i) (auto simp: signal_input_def dest: signal_process_step)
next
  fix i s t x
  assume "signal_inv s" "signal_admissible i" "signal_input i s = (t, Inr x)"
  then show "signal_inv t" by (cases i) (auto simp: signal_input_def dest: signal_process_step)
qed

section \<open>Properties\<close>

text \<open>C32. The research adapter and the fill engine never diverge: after any sequence of valid events and
decisions, accepted or rejected, the engine holds a position exactly when the adapter holds a setup, and
then with the setup's stop and target; and a rejected call leaves the adapter exactly as it was.\<close>

theorem research_adapter_coherent:
  assumes "ResearchSignalAdapter_init identity symbol = Inr a0"
    and "list_all signal_admissible xs" and "signal_admissible x"
  shows "let a = foldl (\<lambda>a x. fst (signal_input x a)) a0 xs
    in fe_position (ra_fill_engine a) = map_option (\<lambda>s. \<lparr> op_quantity = FIXED_RESEARCH_QUANTITY,
          op_stop_price = ls_invalidation_price s, op_target_price = ls_target_price s \<rparr>) (ra_active_setup a)
       \<and> (case signal_input x a of (b, Inl e) \<Rightarrow> b = a | (b, Inr step) \<Rightarrow> True)"
proof -
  have i: "signal_inv a0"
    using assms(1)
    by (auto simp: ResearchSignalAdapter_init_def PaperFillEngine_init_def bind_r_eq_Inr signal_inv_def engine_ok_def
        split: if_splits)
  define a where "a = foldl (\<lambda>a x. fst (signal_input x a)) a0 xs"
  have a: "signal_inv a" unfolding a_def using signal.drive_inv [OF i assms(2)] by (simp add: signal.drive_def)
  moreover have "case signal_input x a of (b, Inl e) \<Rightarrow> b = a | (b, Inr step) \<Rightarrow> True"
    using signal.failed_step [OF a assms(3)] by (auto split: prod.splits sum.splits)
  ultimately show ?thesis by (simp add: a_def [symmetric] signal_inv_def)
qed

definition example_event :: DecisionEvent where
  "example_event = \<lparr> de_sequence = 0, de_decision_time_ms = 1704067200000,
     de_eligible_fill_open_time_ms = 1704067200000, de_snapshot = example_snapshot \<rparr>"

definition example_wait :: StrategyDecision where
  "example_wait = \<lparr> sd_context = example_context TREND_PULLBACK_IDENTITY, sd_action = SA_NO_TRADE,
     sd_reason = DR_INSUFFICIENT_HISTORY, sd_setup = None \<rparr>"

lemma example_event_valid: "valid_DecisionEvent example_event"
proof -
  have "valid_MarketSnapshot example_snapshot" using snapshot_at_Inr(1) [OF example_snapshot_at] .
  then show ?thesis
    by (simp add: valid_DecisionEvent_def DecisionEvent_post_init_def example_event_def)
      (simp add: example_snapshot_def)
qed

lemma example_signal_admissible: "signal_admissible (example_event, example_wait, example_candle)"
  using example_event_valid example_market_ok [of TREND_PULLBACK_IDENTITY]
  by (simp add: signal_admissible_def valid_StrategyDecision_def StrategyDecision_post_init_def example_wait_def
      NO_TRADE_REASONS_def market_ok_def)

theorem research_adapter_coherent_witness:
  "case ResearchSignalAdapter_init TREND_PULLBACK_IDENTITY ''BTCUSDT'' of
     Inl _ \<Rightarrow> False
   | Inr a0 \<Rightarrow> fe_position (ra_fill_engine (fst (signal_input (example_event, example_wait, example_candle) a0))) =
       map_option (\<lambda>s. \<lparr> op_quantity = FIXED_RESEARCH_QUANTITY,
          op_stop_price = ls_invalidation_price s, op_target_price = ls_target_price s \<rparr>)
        (ra_active_setup (fst (signal_input (example_event, example_wait, example_candle) a0)))"
proof -
  obtain a0 where a0: "ResearchSignalAdapter_init TREND_PULLBACK_IDENTITY ''BTCUSDT'' = Inr a0"
    by (simp add: ResearchSignalAdapter_init_def SUPPORTED_IDENTITIES_def PaperFillEngine_init_def SYMBOLS_def)
  show ?thesis
    using research_adapter_coherent [OF a0, of "[(example_event, example_wait, example_candle)]",
        OF _ example_signal_admissible] example_signal_admissible
    by (simp add: a0 Let_def)
qed

end
