(* ===== verification/Risk_Adapter.thy ===== *)
theory Risk_Adapter
  imports Kill_Switch Risk_Protective Strategy_Adapter
begin

text \<open>
  \<^verbatim>\<open>yatl/risk/adapter.py\<close>: the decision that binds every piece of risk evidence to one
  request, the authorization record that re-checks it, and the stateful gateway that lets
  an authorized request into the paper fill engine.
\<close>

section \<open>The decision\<close>

definition reject :: "RiskRequest \<Rightarrow> RiskReason \<Rightarrow> RiskDecision result" where
  "reject request reason =
     construct RiskDecision_post_init
       \<lparr> rd_request = request, rd_disposition = REJECT, rd_reason = reason, rd_approved_quantity = None \<rparr>"

definition approve :: "RiskRequest \<Rightarrow> RiskReason \<Rightarrow> string \<Rightarrow> RiskDecision result" where
  "approve request reason quantity =
     construct RiskDecision_post_init
       \<lparr> rd_request = request, rd_disposition = APPROVE_PAPER, rd_reason = reason,
         rd_approved_quantity = Some quantity \<rparr>"

definition entry_decision ::
    "RiskRequest \<Rightarrow> ManagedPortfolioState \<Rightarrow> KillSwitchState \<Rightarrow> CircuitAssessment \<Rightarrow>
       ProtectiveAssessment option \<Rightarrow> RiskDecision result" where
  "entry_decision request managed_state kill_switch_state circuit_assessment protective_assessment =
     (if ks_last_circuit_sha256 kill_switch_state \<noteq> Some (circuit_sha256 circuit_assessment)
         \<or> ks_last_circuit_time_ms kill_switch_state \<noteq> Some (mp_decision_time_ms managed_state)
      then Inl (RiskAdapterError ''Entry requires the latest consumed circuit evidence'')
      else if ca_triggered_breakers circuit_assessment \<noteq> [] \<and> \<not> ks_active kill_switch_state
      then Inl (RiskAdapterError ''Active circuit breakers are not latched'')
      else if ks_active kill_switch_state then reject request KILL_SWITCH_ACTIVE
      else if rr_evidence_label request \<noteq> QUALIFIED_FOR_P4_RESEARCH
      then reject request EVIDENCE_NOT_QUALIFIED
      else (case protective_assessment of
              None \<Rightarrow> reject request PENDING_RISK_EVALUATION
            | Some p \<Rightarrow>
                if ca_triggered_breakers circuit_assessment \<noteq> [] \<or> pa_status p \<noteq> GATE_PASS
                then reject request PENDING_RISK_EVALUATION
                else approve request RISK_CHECKS_PASSED (pa_quantity p)))"

definition decision_for ::
    "RiskRequest \<Rightarrow> ManagedPortfolioState \<Rightarrow> KillSwitchState \<Rightarrow> CircuitAssessment \<Rightarrow>
       ProtectiveAssessment option \<Rightarrow> RiskDecision result" where
  "decision_for request managed_state kill_switch_state circuit_assessment protective_assessment =
     (if ca_request circuit_assessment \<noteq> request \<or> ca_managed_state circuit_assessment \<noteq> managed_state
      then Inl (RiskAdapterError ''Circuit evidence does not match the risk request'')
      else if pr_kill_switch_active (rr_portfolio request) \<noteq> ks_active kill_switch_state
      then Inl (RiskAdapterError ''Risk request and Kill Switch state disagree'')
      else if (case protective_assessment of None \<Rightarrow> False
               | Some p \<Rightarrow> pz_request (la_position_size (pa_limit_assessment p)) \<noteq> request)
      then Inl (RiskAdapterError ''Protective evidence does not match the request'')
      else case sd_action (rr_strategy_decision request) of
        SA_ENTER_LONG \<Rightarrow>
          entry_decision request managed_state kill_switch_state circuit_assessment protective_assessment
      | SA_EXIT_LONG \<Rightarrow>
          if protective_assessment \<noteq> None
          then Inl (RiskAdapterError ''Non-entry authorization cannot carry protective evidence'')
          else approve request EXIT_REDUCES_RISK (pr_position_quantity (rr_portfolio request))
      | SA_NO_TRADE \<Rightarrow>
          if protective_assessment \<noteq> None
          then Inl (RiskAdapterError ''Non-entry authorization cannot carry protective evidence'')
          else construct RiskDecision_post_init
            \<lparr> rd_request = request, rd_disposition = NO_ACTION, rd_reason = NO_STRATEGY_ACTION,
              rd_approved_quantity = None \<rparr>)"

section \<open>Authorizations\<close>

record RiskAuthorization =
  az_request :: RiskRequest
  az_managed_state :: ManagedPortfolioState
  az_kill_switch_state :: KillSwitchState
  az_circuit_assessment :: CircuitAssessment
  az_protective_assessment :: "ProtectiveAssessment option"
  az_decision :: RiskDecision

definition RiskAuthorization_post_init :: "RiskAuthorization \<Rightarrow> unit result" where
  "RiskAuthorization_post_init a =
     bind_r (decision_for (az_request a) (az_managed_state a) (az_kill_switch_state a)
               (az_circuit_assessment a) (az_protective_assessment a)) (\<lambda>expected.
     if az_decision a \<noteq> expected \<or> rd_request (az_decision a) \<noteq> az_request a
     then Inl (RiskAdapterError ''Risk authorization decision is inconsistent'')
     else Inr ())"

fun RiskDisposition_value :: "RiskDisposition \<Rightarrow> string" where
  "RiskDisposition_value NO_ACTION = ''NO_ACTION''"
| "RiskDisposition_value REJECT = ''REJECT''"
| "RiskDisposition_value APPROVE_PAPER = ''APPROVE_PAPER''"

fun RiskReason_value :: "RiskReason \<Rightarrow> string" where
  "RiskReason_value NO_STRATEGY_ACTION = ''NO_STRATEGY_ACTION''"
| "RiskReason_value PENDING_RISK_EVALUATION = ''PENDING_RISK_EVALUATION''"
| "RiskReason_value EVIDENCE_NOT_QUALIFIED = ''EVIDENCE_NOT_QUALIFIED''"
| "RiskReason_value RISK_CHECKS_PASSED = ''RISK_CHECKS_PASSED''"
| "RiskReason_value EXIT_REDUCES_RISK = ''EXIT_REDUCES_RISK''"
| "RiskReason_value KILL_SWITCH_ACTIVE = ''KILL_SWITCH_ACTIVE''"

definition authorization_sha256 :: "RiskAuthorization \<Rightarrow> string" where
  "authorization_sha256 a = py_digest (JObj
     [(''schema_version'', JInt 1), (''request_sha256'', JStr (request_sha256 (az_request a))),
      (''managed_state_sha256'', JStr (state_sha256 (az_managed_state a))),
      (''kill_switch_state_sha256'', JStr (ks_state_sha256 (az_kill_switch_state a))),
      (''circuit_sha256'', JStr (circuit_sha256 (az_circuit_assessment a))),
      (''protective_sha256'', j_opt (\<lambda>p. JStr (gate_sha256 p)) (az_protective_assessment a)),
      (''disposition'', JStr (RiskDisposition_value (rd_disposition (az_decision a)))),
      (''reason'', JStr (RiskReason_value (rd_reason (az_decision a)))),
      (''approved_quantity'', j_opt JStr (rd_approved_quantity (az_decision a)))])"

definition authorize_paper_request ::
    "RiskRequest \<Rightarrow> ManagedPortfolioState \<Rightarrow> KillSwitchState \<Rightarrow> CircuitAssessment \<Rightarrow>
       ProtectiveAssessment option \<Rightarrow> RiskAuthorization result" where
  "authorize_paper_request request managed_state kill_switch_state circuit_assessment protective_assessment =
     bind_r (decision_for request managed_state kill_switch_state circuit_assessment protective_assessment)
     (\<lambda>decision. construct RiskAuthorization_post_init
        \<lparr> az_request = request, az_managed_state = managed_state, az_kill_switch_state = kill_switch_state,
          az_circuit_assessment = circuit_assessment, az_protective_assessment = protective_assessment,
          az_decision = decision \<rparr>)"

definition valid_RiskAuthorization :: "RiskAuthorization \<Rightarrow> bool" where
  "valid_RiskAuthorization a \<longleftrightarrow> RiskAuthorization_post_init a = Inr ()
     \<and> valid_RiskRequest (az_request a) \<and> valid_ManagedPortfolioState (az_managed_state a)
     \<and> valid_KillSwitchState (az_kill_switch_state a) \<and> valid_CircuitAssessment (az_circuit_assessment a)
     \<and> (case az_protective_assessment a of None \<Rightarrow> True | Some p \<Rightarrow> valid_ProtectiveAssessment p)
     \<and> RiskDecision_post_init (az_decision a) = Inr ()"

section \<open>Adapter steps\<close>

datatype RiskAdapterOutcome = ENTRY_APPROVED | ENTRY_BLOCKED | OUTCOME_NO_ACTION | EXIT_APPROVED

record RiskAdapterStep =
  rs_authorization :: RiskAuthorization
  rs_outcome :: RiskAdapterOutcome
  rs_intent :: PaperIntent
  rs_fills :: "FillReference list"

fun expected_step :: "StrategyAction \<Rightarrow> RiskDisposition \<Rightarrow> (RiskAdapterOutcome \<times> IntentAction) option" where
  "expected_step SA_ENTER_LONG APPROVE_PAPER = Some (ENTRY_APPROVED, ENTER_LONG)"
| "expected_step SA_ENTER_LONG REJECT = Some (ENTRY_BLOCKED, HOLD)"
| "expected_step SA_NO_TRADE NO_ACTION = Some (OUTCOME_NO_ACTION, HOLD)"
| "expected_step SA_EXIT_LONG APPROVE_PAPER = Some (EXIT_APPROVED, EXIT_LONG)"
| "expected_step _ _ = None"

definition RiskAdapterStep_post_init :: "RiskAdapterStep \<Rightarrow> unit result" where
  "RiskAdapterStep_post_init s =
     (let decision = az_decision (rs_authorization s) in
      if length (rs_fills s) > 2 then Inl (RiskAdapterError ''Risk adapter step identity is invalid'')
      else if expected_step (sd_action (rr_strategy_decision (rd_request decision))) (rd_disposition decision)
              \<noteq> Some (rs_outcome s, pi_action (rs_intent s))
      then Inl (RiskAdapterError ''Authorization and Paper intent actions differ'')
      else if pi_decision_time_ms (rs_intent s) \<noteq> pr_decision_time_ms (rr_portfolio (rd_request decision))
      then Inl (RiskAdapterError ''Authorization and Paper intent times differ'')
      else if rs_outcome s = ENTRY_APPROVED
      then (if pi_quantity (rs_intent s) \<noteq> rd_approved_quantity decision
            then Inl (RiskAdapterError ''P2 entry quantity differs from P4 approval'')
            else if rs_fills s = [] \<or> fr_action (hd (rs_fills s)) \<noteq> ENTER_LONG
                    \<or> Some (fr_quantity (hd (rs_fills s))) \<noteq> rd_approved_quantity decision
            then Inl (RiskAdapterError ''P2 entry fill differs from P4 approval'')
            else Inr ())
      else if rs_outcome s = ENTRY_BLOCKED \<and> rs_fills s \<noteq> []
      then Inl (RiskAdapterError ''Rejected entry produced a Paper fill'')
      else Inr ())"

definition rs_authorization_sha256 :: "RiskAdapterStep \<Rightarrow> string" where
  "rs_authorization_sha256 s = authorization_sha256 (rs_authorization s)"

section \<open>The gateway\<close>

record RiskManagedPaperAdapter =
  rk_identity :: StrategyIdentity
  rk_symbol :: string
  rk_fill_engine :: PaperFillEngine
  rk_active_setup :: "LongSetup option"
  rk_active_quantity :: "string option"
  rk_last_sequence :: "int option"
  rk_last_decision_time_ms :: "int option"

definition RiskManagedPaperAdapter_init :: "StrategyIdentity \<Rightarrow> string \<Rightarrow> RiskManagedPaperAdapter result" where
  "RiskManagedPaperAdapter_init identity symbol =
     (if identity \<notin> set SUPPORTED_IDENTITIES
      then Inl (RiskAdapterError ''Risk adapter strategy identity is not supported'')
      else if symbol \<notin> set SYMBOLS then Inl (RiskAdapterError ''Risk adapter symbol is not approved'')
      else bind_r (PaperFillEngine_init symbol) (\<lambda>engine.
        Inr \<lparr> rk_identity = identity, rk_symbol = symbol, rk_fill_engine = engine, rk_active_setup = None,
              rk_active_quantity = None, rk_last_sequence = None, rk_last_decision_time_ms = None \<rparr>))"

definition rk_has_position :: "RiskManagedPaperAdapter \<Rightarrow> bool" where
  "rk_has_position a \<longleftrightarrow> fe_has_position (rk_fill_engine a)"

definition replace_authorization :: "RiskAuthorization \<Rightarrow> unit result" where
  "replace_authorization z =
     bind_r (replace_decision (rr_strategy_decision (az_request z))) (\<lambda>_.
     bind_r (RiskDecision_post_init (az_decision z)) (\<lambda>_.
     RiskAuthorization_post_init z))"

definition risk_validate ::
    "RiskManagedPaperAdapter \<Rightarrow> DecisionEvent \<Rightarrow> RiskAuthorization \<Rightarrow> unit result" where
  "risk_validate a event authorization =
     (let decision = rr_strategy_decision (az_request authorization) in
      if sc_identity (sd_context decision) \<noteq> rk_identity a \<or> sd_symbol decision \<noteq> rk_symbol a
         \<or> ms_symbol (de_snapshot event) \<noteq> rk_symbol a
         \<or> sd_decision_time_ms decision \<noteq> de_decision_time_ms event
         \<or> sc_snapshot (sd_context decision) \<noteq> de_snapshot event
      then Inl (RiskAdapterError ''Event and authorized strategy decision differ'')
      else bind_r (catch_r (replace_authorization authorization) is_contract_error
        (RiskAdapterError ''P4 authorization failed reconstruction'')) (\<lambda>_.
        require (next_event_ok (rk_last_sequence a) (rk_last_decision_time_ms a) event)
          (RiskAdapterError ''Duplicate or out-of-order authorized decision'')))"

text \<open>
  \<open>the\<close> is applied to the setup of an entry and to the quantity of an approval, which the
  constructors of the decisions require.
\<close>

definition risk_intent ::
    "RiskManagedPaperAdapter \<Rightarrow> RiskAuthorization \<Rightarrow> (RiskAdapterOutcome \<times> PaperIntent) result" where
  "risk_intent a authorization =
     (let risk_decision = az_decision authorization;
          strategy_decision = rr_strategy_decision (az_request authorization);
          action = sd_action strategy_decision; t = sd_decision_time_ms strategy_decision in
      if rk_has_position a
      then (if action = SA_EXIT_LONG
            then (if rd_disposition risk_decision \<noteq> APPROVE_PAPER
                  then Inl (RiskAdapterError ''Risk-reducing exit lacks P4 authorization'')
                  else if rd_approved_quantity risk_decision \<noteq> rk_active_quantity a
                  then Inl (RiskAdapterError ''Exit portfolio quantity differs from P2 state'')
                  else bind_r (plain_intent EXIT_LONG t) (\<lambda>i. Inr (EXIT_APPROVED, i)))
            else if action = SA_NO_TRADE \<and> sd_reason strategy_decision = DR_HOLD_POSITION
                    \<and> rd_disposition risk_decision = NO_ACTION
                    \<and> Some (pr_position_quantity (rr_portfolio (az_request authorization))) = rk_active_quantity a
            then bind_r (plain_intent HOLD t) (\<lambda>i. Inr (OUTCOME_NO_ACTION, i))
            else Inl (RiskAdapterError ''Open Paper state requires matching HOLD or EXIT''))
      else if action = SA_ENTER_LONG \<and> rd_disposition risk_decision = APPROVE_PAPER
      then bind_r (entry_intent t (the (rd_approved_quantity risk_decision)) (the (sd_setup strategy_decision)))
             (\<lambda>i. Inr (ENTRY_APPROVED, i))
      else if action = SA_ENTER_LONG \<and> rd_disposition risk_decision = REJECT
      then bind_r (plain_intent HOLD t) (\<lambda>i. Inr (ENTRY_BLOCKED, i))
      else if action = SA_NO_TRADE \<and> sd_reason strategy_decision \<noteq> DR_HOLD_POSITION
              \<and> rd_disposition risk_decision = NO_ACTION
      then bind_r (plain_intent HOLD t) (\<lambda>i. Inr (OUTCOME_NO_ACTION, i))
      else Inl (RiskAdapterError ''Flat Paper state cannot process this authorization''))"

definition risk_finish ::
    "DecisionEvent \<Rightarrow> RiskAuthorization \<Rightarrow> RiskAdapterOutcome \<Rightarrow> PaperIntent \<Rightarrow> FillReference list \<Rightarrow>
       (RiskManagedPaperAdapter, RiskAdapterStep) action" where
  "risk_finish event authorization outcome intent fills =
     act_bind (act_lift (construct RiskAdapterStep_post_init
        \<lparr> rs_authorization = authorization, rs_outcome = outcome, rs_intent = intent, rs_fills = fills \<rparr>)) (\<lambda>step.
     act_bind (act_update (\<lambda>a.
        if fe_has_position (rk_fill_engine a)
        then (if outcome = ENTRY_APPROVED
              then a\<lparr> rk_active_setup := sd_setup (rr_strategy_decision (az_request authorization)),
                      rk_active_quantity := rd_approved_quantity (az_decision authorization) \<rparr> else a)
        else a\<lparr> rk_active_setup := None, rk_active_quantity := None \<rparr>)) (\<lambda>_.
     \<lambda>a. if rk_has_position a \<noteq> (rk_active_quantity a \<noteq> None)
          then act_raise (RiskAdapterError ''P4 and P2 Paper position states diverged'') a
          else act_bind (act_update (\<lambda>a. a\<lparr> rk_last_sequence := Some (de_sequence event),
                 rk_last_decision_time_ms := Some (de_decision_time_ms event) \<rparr>))
               (\<lambda>_. act_return step) a))"

definition risk_process ::
    "DecisionEvent \<Rightarrow> RiskAuthorization \<Rightarrow> Candle \<Rightarrow> (RiskManagedPaperAdapter, RiskAdapterStep) action" where
  "risk_process event authorization fill_candle a =
     act_bind (act_lift (risk_validate a event authorization)) (\<lambda>_.
     act_bind (act_lift (risk_intent a authorization)) (\<lambda>(outcome, intent).
     act_bind
       (\<lambda>a. case process event intent fill_candle (rk_fill_engine a) of
          (engine, Inl e) \<Rightarrow> (a\<lparr> rk_fill_engine := engine \<rparr>,
             Inl (if is_FillModelError e then RiskAdapterError ''P2 rejected the P4-authorized Paper intent'' else e))
        | (engine, Inr fills) \<Rightarrow> (a\<lparr> rk_fill_engine := engine \<rparr>, Inr fills))
       (\<lambda>fills. risk_finish event authorization outcome intent fills))) a"

section \<open>What a decision implies\<close>

lemma authorize_iff:
  "authorize_paper_request r m k c p = Inr z \<longleftrightarrow>
     decision_for r m k c p = Inr (az_decision z) \<and> rd_request (az_decision z) = r \<and> az_request z = r
     \<and> az_managed_state z = m \<and> az_kill_switch_state z = k \<and> az_circuit_assessment z = c
     \<and> az_protective_assessment z = p"
  by (cases z) (auto simp: authorize_paper_request_def bind_r_eq_Inr construct_eq_Inr RiskAuthorization_post_init_def)

lemma approve_Inr: "approve r y q = Inr d \<Longrightarrow> rd_disposition d = APPROVE_PAPER \<and> rd_approved_quantity d = Some q \<and> rd_request d = r"
  by (auto simp: approve_def construct_eq_Inr)

lemma reject_Inr: "reject r y = Inr d \<Longrightarrow> rd_disposition d = REJECT \<and> rd_request d = r"
  by (auto simp: reject_def construct_eq_Inr)

lemma entry_decision_approved:
  assumes "entry_decision r m k c p = Inr d" "rd_disposition d = APPROVE_PAPER"
  obtains g where "p = Some g" "pa_status g = GATE_PASS" "ca_triggered_breakers c = []" "\<not> ks_active k"
    "rr_evidence_label r = QUALIFIED_FOR_P4_RESEARCH" "rd_approved_quantity d = Some (pa_quantity g)"
    "ks_last_circuit_sha256 k = Some (circuit_sha256 c)" "ks_last_circuit_time_ms k = Some (mp_decision_time_ms m)"
  using assms
  by (auto simp: entry_decision_def split: if_splits option.splits dest: approve_Inr reject_Inr)

text \<open>The exact meaning of an approved entry.\<close>

definition safe_entry :: "RiskRequest \<Rightarrow> ManagedPortfolioState \<Rightarrow> LongSetup \<Rightarrow> rat \<Rightarrow> bool" where
  "safe_entry r m s q \<longleftrightarrow>
     (let equity = val (py_Decimal (pr_equity_quote (rr_portfolio r)));
          cash = val (py_Decimal (pr_cash_quote (rr_portfolio r)));
          bought = val (py_Decimal (ls_reference_price s)) * (1 + 1 / 2000);
          stopped = val (py_Decimal (ls_invalidation_price s)) * (1 - 1 / 2000);
          sold = val (py_Decimal (ls_target_price s)) * (1 - 1 / 2000)
      in 0 < q
         \<and> q * (bought - stopped + (bought + stopped) / 1000) \<le> equity / 100
         \<and> q * bought \<le> equity / 4
         \<and> q * bought * (1 + 1 / 1000) \<le> cash
         \<and> 0 < q * (sold - bought - (bought + sold) / 1000)
         \<and> - val (py_Decimal (mp_session_realized_pnl_quote m)) < val (py_Decimal (mp_session_start_equity_quote m)) / 50
         \<and> val (py_Decimal (mp_peak_equity_quote m)) * (9 / 10) < val (py_Decimal (mp_equity_quote m))
         \<and> mp_consecutive_losses m < 3)"

lemma approved_entry:
  assumes "decision_for r m k c p = Inr d" "sd_action (rr_strategy_decision r) = SA_ENTER_LONG"
    and "rd_disposition d = APPROVE_PAPER" "valid_CircuitAssessment c"
    and "case p of None \<Rightarrow> True | Some g \<Rightarrow> valid_ProtectiveAssessment g"
  obtains s q where "sd_setup (rr_strategy_decision r) = Some s" "rd_approved_quantity d = Some q"
    "safe_entry r m s (val (py_Decimal q))" "\<not> ks_active k" "rr_evidence_label r = QUALIFIED_FOR_P4_RESEARCH"
    "ks_last_circuit_sha256 k = Some (circuit_sha256 c)" "plain_unsigned q" "valid_LongSetup s"
proof -
  have m: "ca_request c = r" "ca_managed_state c = m" and e: "entry_decision r m k c p = Inr d"
    and pr: "\<And>g. p = Some g \<Longrightarrow> pz_request (la_position_size (pa_limit_assessment g)) = r"
    using assms(1,2) by (auto simp: decision_for_def split: if_splits)
  obtain g where g: "p = Some g" "pa_status g = GATE_PASS" "ca_triggered_breakers c = []" "\<not> ks_active k"
    "rr_evidence_label r = QUALIFIED_FOR_P4_RESEARCH" "rd_approved_quantity d = Some (pa_quantity g)"
    "ks_last_circuit_sha256 k = Some (circuit_sha256 c)"
    by (rule entry_decision_approved [OF e assms(3)])
  have v: "valid_ProtectiveAssessment g" using assms(5) g(1) by simp
  let ?z = "la_position_size (pa_limit_assessment g)"
  have z: "pz_request ?z = r" using pr [OF g(1)] .
  obtain s where s: "sd_setup (rr_strategy_decision r) = Some s" "valid_LongSetup s"
    "valid_EntryLimitAssessment (pa_limit_assessment g)" "valid_PositionSize ?z" "plain_unsigned (pa_quantity g)"
    "val (py_Decimal (pa_quantity g)) = val (py_Decimal (pz_quantity ?z))"
    "(pa_status g, pa_reason g) =
       (if la_status (pa_limit_assessment g) \<noteq> LIMIT_PASS then (GATE_REJECT, PRIOR_LIMIT_REJECTED)
        else if exact_reward s (val (py_Decimal (pz_quantity ?z))) \<le> 0
        then (GATE_REJECT, NON_POSITIVE_POST_COST_REWARD) else (GATE_PASS, PROTECTIVE_GATE_PASSED))"
    using gate_exact [OF v] unfolding z by metis
  have lim: "la_status (pa_limit_assessment g) = LIMIT_PASS" and rew: "0 < exact_reward s (val (py_Decimal (pz_quantity ?z)))"
    using s(7) g(2) by (auto simp: not_le split: if_splits)
  have sz: "0 < val (py_Decimal (pz_quantity ?z))"
    "val (py_Decimal (pz_quantity ?z)) * exact_unit_loss s \<le> val (py_Decimal (pr_equity_quote (rr_portfolio r))) / 100"
    using position_size_exact [OF s(4)] s(1) unfolding z by (metis option.inject)+
  have lims: "val (py_Decimal (pz_quantity ?z)) * exact_entry s \<le> val (py_Decimal (pr_equity_quote (rr_portfolio r))) / 4
    \<and> val (py_Decimal (pz_quantity ?z)) * exact_entry s * (1 + 1 / 1000) \<le> val (py_Decimal (pr_cash_quote (rr_portfolio r)))"
    using limits_exact [OF s(3)] s(1) lim unfolding z by blast
  have br: "\<not> breaker_tripped m b" for b
    using valid_CircuitAssessmentD(1) [OF assms(4)] g(3) m(2) by (cases b) (auto split: if_splits)
  have "safe_entry r m s (val (py_Decimal (pa_quantity g)))"
    unfolding safe_entry_def Let_def s(6)
    using sz lims rew br [of CB_SESSION_LOSS_LIMIT] br [of CB_DRAWDOWN_LIMIT] br [of CB_CONSECUTIVE_LOSS_LIMIT]
    unfolding exact_unit_loss_def exact_entry_def exact_stop_def exact_reward_def exact_target_def
    by (simp add: breaker_tripped_def not_le)
  then show thesis using s(1,2,5) g(4-7) by (intro that) simp_all
qed

section \<open>The gateway never diverges\<close>

definition risk_inv :: "RiskManagedPaperAdapter \<Rightarrow> bool" where
  "risk_inv a \<longleftrightarrow> rk_symbol a \<in> set SYMBOLS \<and> fe_symbol (rk_fill_engine a) = rk_symbol a
     \<and> engine_ok (rk_fill_engine a) \<and> rk_active_quantity a = engine_holding (rk_fill_engine a)
     \<and> (rk_active_setup a = None \<longleftrightarrow> rk_active_quantity a = None)"

definition risk_admissible :: "DecisionEvent \<times> RiskAuthorization \<times> Candle \<Rightarrow> bool" where
  "risk_admissible x = (case x of (event, authorization, candle) \<Rightarrow>
     valid_DecisionEvent event \<and> valid_RiskAuthorization authorization)"

definition risk_input ::
    "DecisionEvent \<times> RiskAuthorization \<times> Candle \<Rightarrow> (RiskManagedPaperAdapter, RiskAdapterStep) action" where
  "risk_input x = (case x of (event, authorization, candle) \<Rightarrow> risk_process event authorization candle)"

lemma valid_RiskAuthorizationD:
  assumes "valid_RiskAuthorization z"
  shows "decision_for (az_request z) (az_managed_state z) (az_kill_switch_state z) (az_circuit_assessment z)
      (az_protective_assessment z) = Inr (az_decision z)"
    "rd_request (az_decision z) = az_request z" "valid_RiskRequest (az_request z)"
    "valid_CircuitAssessment (az_circuit_assessment z)"
    "case az_protective_assessment z of None \<Rightarrow> True | Some p \<Rightarrow> valid_ProtectiveAssessment p"
    "rd_disposition (az_decision z) = APPROVE_PAPER \<Longrightarrow> rd_approved_quantity (az_decision z) \<noteq> None"
proof -
  show "decision_for (az_request z) (az_managed_state z) (az_kill_switch_state z) (az_circuit_assessment z)
      (az_protective_assessment z) = Inr (az_decision z)"
    "rd_request (az_decision z) = az_request z" "valid_RiskRequest (az_request z)"
    "valid_CircuitAssessment (az_circuit_assessment z)"
    "case az_protective_assessment z of None \<Rightarrow> True | Some p \<Rightarrow> valid_ProtectiveAssessment p"
    using assms by (auto simp: valid_RiskAuthorization_def RiskAuthorization_post_init_def bind_r_eq_Inr split: if_splits)
  have "RiskDecision_post_init (az_decision z) = Inr ()" using assms by (simp add: valid_RiskAuthorization_def)
  then show "rd_disposition (az_decision z) = APPROVE_PAPER \<Longrightarrow> rd_approved_quantity (az_decision z) \<noteq> None"
    by (cases "rd_approved_quantity (az_decision z)")
      (auto simp: RiskDecision_post_init_def bind_r_eq_Inr Let_def split: if_splits)
qed

definition risk_matches :: "RiskManagedPaperAdapter \<Rightarrow> RiskAuthorization \<Rightarrow> RiskAdapterOutcome \<Rightarrow> PaperIntent \<Rightarrow> bool" where
  "risk_matches a z outcome i \<longleftrightarrow>
     pi_decision_time_ms i = sd_decision_time_ms (rr_strategy_decision (az_request z)) \<and> valid_PaperIntent i
     \<and> expected_step (sd_action (rr_strategy_decision (az_request z))) (rd_disposition (az_decision z))
         = Some (outcome, pi_action i)
     \<and> (outcome = ENTRY_APPROVED \<longrightarrow> pi_quantity i = rd_approved_quantity (az_decision z)
          \<and> fe_position (rk_fill_engine a) = None)
     \<and> (outcome = ENTRY_BLOCKED \<longrightarrow> fe_position (rk_fill_engine a) = None)"

lemma risk_intent_Inr:
  assumes "valid_RiskAuthorization z" "risk_intent a z = Inr (outcome, i)"
  shows "risk_matches a z outcome i"
proof -
  note Q = valid_RiskAuthorizationD(6) [OF assms(1)]
  have p: "plain_intent act t = Inr j \<Longrightarrow> pi_action j = act \<and> pi_decision_time_ms j = t \<and> valid_PaperIntent j" for act t j
    by (rule plain_intent_Inr)
  have e: "entry_intent t q s = Inr j \<Longrightarrow> pi_action j = ENTER_LONG \<and> pi_decision_time_ms j = t \<and> valid_PaperIntent j
      \<and> pi_quantity j = Some q" for t q s j
    by (auto simp: entry_intent_def construct_eq_Inr valid_PaperIntent_def)
  show ?thesis
    using assms(2) Q
    by (auto simp: risk_intent_def risk_matches_def Let_def bind_r_eq_Inr rk_has_position_def fe_has_position_def
        split: if_splits dest!: p e)
qed

lemma process_hold_flat:
  assumes "process ev i c g = (g', Inr fs)" "pi_action i = HOLD" "fe_position g = None"
  shows "fs = []"
proof -
  have "process_hold ev c g = (g', Inr fs)"
    using process_Inr_body [OF assms(1)] assms(2) by (auto simp: process_body_def act_bind_eq_Inr split: if_splits)
  then show ?thesis using assms(3) by (auto simp: process_hold_def act_bind_eq_Inr protective_exit_def)
qed

lemma risk_finish_total:
  assumes "risk_inv a" "valid_DecisionEvent ev" "valid_RiskAuthorization z"
    and "risk_matches a z outcome i" "process ev i c (rk_fill_engine a) = (g, Inr fs)"
  shows "\<exists>b s. risk_finish ev z outcome i fs (a\<lparr> rk_fill_engine := g \<rparr>) = (b, Inr s) \<and> risk_inv b
    \<and> rs_outcome s = outcome \<and> rs_fills s = fs \<and> rs_authorization s = z"
proof -
  note P = process_outcome [OF assms(5)] and Q = process_position [OF assms(5)] and A = valid_RiskAuthorizationD [OF assms(3)]
  have M: "pi_decision_time_ms i = pr_decision_time_ms (rr_portfolio (az_request z))" "valid_PaperIntent i"
    "expected_step (sd_action (rr_strategy_decision (az_request z))) (rd_disposition (az_decision z)) = Some (outcome, pi_action i)"
    using assms(4) valid_RiskRequestD(2) [OF A(3)] by (simp_all add: risk_matches_def)
  have ent: "outcome = ENTRY_APPROVED \<longleftrightarrow> pi_action i = ENTER_LONG"
    "outcome = ENTRY_BLOCKED \<Longrightarrow> pi_action i = HOLD"
    "pi_action i = ENTER_LONG \<Longrightarrow> sd_action (rr_strategy_decision (az_request z)) = SA_ENTER_LONG \<and> rd_disposition (az_decision z) = APPROVE_PAPER"
    using M(3) by (auto elim: expected_step.elims)
  have enter: "pi_quantity i = rd_approved_quantity (az_decision z)" "rd_approved_quantity (az_decision z) \<noteq> None"
    if "pi_action i = ENTER_LONG"
    using that assms(4) ent A(6) by (auto simp: risk_matches_def)
  have fills: "fs = []" if "outcome = ENTRY_BLOCKED"
    using that assms(4) ent(2) process_hold_flat [OF assms(5)] by (simp add: risk_matches_def)
  have st: "construct RiskAdapterStep_post_init \<lparr> rs_authorization = z, rs_outcome = outcome, rs_intent = i, rs_fills = fs \<rparr>
      = Inr \<lparr> rs_authorization = z, rs_outcome = outcome, rs_intent = i, rs_fills = fs \<rparr>"
    using P(2) M(1,3) A(2) enter Q(3) ent fills by (auto simp: construct_eq_Inr RiskAdapterStep_post_init_def Let_def)
  have g: "fe_symbol g = rk_symbol a" "engine_ok g" "rk_symbol a \<in> set SYMBOLS"
    using process_symbol [OF assms(5)] P(5) M(2) assms(1) by (auto simp: risk_inv_def)
  obtain s where su: "pi_action i = ENTER_LONG \<Longrightarrow> sd_setup (rr_strategy_decision (az_request z)) = Some s"
    using valid_decision_setup [OF valid_RiskRequestD(7) [OF A(3)]] ent(3) by blast
  have pos: "fe_position g \<noteq> None \<Longrightarrow> (if pi_action i = ENTER_LONG then fe_position g = Some (bracket_of i)
      else fe_position g = fe_position (rk_fill_engine a))"
    using Q by (cases "pi_action i") auto
  show ?thesis
  proof (cases "fe_position g")
    case None
    then show ?thesis
      using g by (auto simp: risk_finish_def act_bind_def st fe_has_position_def rk_has_position_def
          risk_inv_def engine_holding_def)
  next
    case (Some w)
    show ?thesis
    proof (cases "pi_action i = ENTER_LONG")
      case True
      then have o: "outcome = ENTRY_APPROVED" using ent(1) by simp
      show ?thesis
        using True g Some pos enter su
        by (auto simp: risk_finish_def act_bind_def o st [unfolded o] fe_has_position_def rk_has_position_def
            risk_inv_def engine_holding_def bracket_of_def)
    next
      case False
      then show ?thesis
        using g Some pos ent(1) assms(1)
        by (auto simp: risk_finish_def act_bind_def st fe_has_position_def rk_has_position_def
            risk_inv_def engine_holding_def)
    qed
  qed
qed

lemma risk_process_step:
  assumes "risk_inv a" "risk_admissible (ev, z, c)" "risk_process ev z c a = (b, r)"
  shows "case r of Inl _ \<Rightarrow> b = a
    | Inr s \<Rightarrow> risk_inv b \<and> rs_authorization s = z
        \<and> (\<exists>i g. risk_matches a z (rs_outcome s) i \<and> process ev i c (rk_fill_engine a) = (g, Inr (rs_fills s)))"
proof -
  have v: "valid_DecisionEvent ev" "valid_RiskAuthorization z" using assms(2) by (simp_all add: risk_admissible_def)
  show ?thesis
  proof (cases "risk_validate a ev z")
    case (Inl e)
    then show ?thesis using assms(3) by (auto simp: risk_process_def act_bind_def)
  next
    case V: (Inr u)
    show ?thesis
    proof (cases "risk_intent a z")
      case (Inl e)
      then show ?thesis using assms(3) V by (auto simp: risk_process_def act_bind_def)
    next
      case (Inr oi)
      obtain outcome i where oi: "oi = (outcome, i)" by fastforce
      obtain g q where p: "process ev i c (rk_fill_engine a) = (g, q)" by fastforce
      show ?thesis
      proof (cases q)
        case (Inl e)
        then have "g = rk_fill_engine a" using process_atomic p by blast
        then show ?thesis using assms(3) V Inr oi p Inl by (auto simp: risk_process_def act_bind_def)
      next
        case F: (Inr fs)
        note m = risk_intent_Inr [OF v(2) Inr [unfolded oi]]
        obtain b' s where f: "risk_finish ev z outcome i fs (a\<lparr> rk_fill_engine := g \<rparr>) = (b', Inr s)" "risk_inv b'"
          "rs_outcome s = outcome" "rs_fills s = fs" "rs_authorization s = z"
          using risk_finish_total [OF assms(1) v m p [unfolded F]] by blast
        moreover from this have "b = b'" "r = Inr s"
          using assms(3) V Inr oi p F by (auto simp: risk_process_def act_bind_def)
        moreover have "\<exists>i g. risk_matches a z outcome i \<and> process ev i c (rk_fill_engine a) = (g, Inr fs)"
          using m p F by blast
        ultimately show ?thesis by simp
      qed
    qed
  qed
qed

interpretation gateway: atomic_object risk_input risk_admissible risk_inv
proof unfold_locales
  fix i s t e x
  assume "risk_inv s" "risk_admissible i" "risk_input i s = (t, Inl e)"
  then show "t = s" by (cases i) (auto simp: risk_input_def dest: risk_process_step)
next
  fix i s t x
  assume "risk_inv s" "risk_admissible i" "risk_input i s = (t, Inr x)"
  then show "risk_inv t" by (cases i) (auto simp: risk_input_def dest: risk_process_step)
qed

lemma process_enter_only:
  assumes "process ev i c g = (g', Inr fs)" "f \<in> set fs" "fr_action f = ENTER_LONG"
  shows "pi_action i = ENTER_LONG"
proof (rule ccontr)
  assume n: "pi_action i \<noteq> ENTER_LONG"
  have "process_body ev i c g = (g', Inr fs)" using process_Inr_body [OF assms(1)] by simp
  then consider "process_hold ev c g = (g', Inr fs)" | "process_exit ev c g = (g', Inr fs)"
    using n by (cases "pi_action i") (auto simp: process_body_def act_bind_eq_Inr split: if_splits)
  then show False
  proof cases
    case 1
    then obtain x where "protective_exit ev c g = (g', Inr x)" "fs = (case x of None \<Rightarrow> [] | Some f \<Rightarrow> [f])"
      by (auto simp: process_hold_def act_bind_eq_Inr)
    then show False using protective_exit_Inr [of ev c g g' x] assms(2,3) by (cases x) auto
  next
    case 2
    then show False
      using assms(2,3)
      by (auto simp: process_exit_def act_bind_eq_Inr split: option.splits dest!: fill_reference_Inr(2))
  qed
qed

lemma gateway_init: "RiskManagedPaperAdapter_init identity smb = Inr a \<Longrightarrow> risk_inv a"
  by (auto simp: RiskManagedPaperAdapter_init_def PaperFillEngine_init_def bind_r_eq_Inr risk_inv_def engine_ok_def
      engine_holding_def split: if_splits)

section \<open>Properties\<close>

text \<open>C1. No entry without complete and current evidence: after any history of the gateway, a call that
produces an entry fill carries an approved authorization for exactly the filled quantity; the kill switch
is released and has consumed exactly this circuit evidence, the research label is the qualified one, and
on exact amounts the stopped-out loss is at most one percent of equity, the notional at most a quarter of
equity and covered by cash including the fee, the reward at the target is positive after all costs, and
no circuit breaker limit is reached.\<close>

theorem entry_fills_are_authorized:
  assumes "RiskManagedPaperAdapter_init identity smb = Inr a0" and "list_all risk_admissible xs"
    and "valid_DecisionEvent event" and "valid_RiskAuthorization z"
    and "risk_process event z candle (foldl (\<lambda>a x. fst (risk_input x a)) a0 xs) = (b, Inr s)"
    and "f \<in> set (rs_fills s)" and "fr_action f = ENTER_LONG"
  shows "\<exists>setup q. sd_setup (rr_strategy_decision (az_request z)) = Some setup
    \<and> rd_approved_quantity (az_decision z) = Some q \<and> fr_quantity (hd (rs_fills s)) = q
    \<and> safe_entry (az_request z) (az_managed_state z) setup (val (py_Decimal q))
    \<and> \<not> ks_active (az_kill_switch_state z)
    \<and> ks_last_circuit_sha256 (az_kill_switch_state z) = Some (circuit_sha256 (az_circuit_assessment z))
    \<and> rr_evidence_label (az_request z) = QUALIFIED_FOR_P4_RESEARCH"
proof -
  define a where "a = foldl (\<lambda>a x. fst (risk_input x a)) a0 xs"
  have a: "risk_inv a"
    unfolding a_def using gateway.drive_inv [OF gateway_init [OF assms(1)] assms(2)] by (simp add: gateway.drive_def)
  have "risk_admissible (event, z, candle)" using assms(3,4) by (simp add: risk_admissible_def)
  from risk_process_step [OF a this assms(5) [folded a_def]] obtain i g
    where m: "risk_matches a z (rs_outcome s) i" and p: "process event i candle (rk_fill_engine a) = (g, Inr (rs_fills s))"
    by auto
  note A = valid_RiskAuthorizationD [OF assms(4)]
  have i: "pi_action i = ENTER_LONG" by (rule process_enter_only [OF p assms(6,7)])
  have e: "sd_action (rr_strategy_decision (az_request z)) = SA_ENTER_LONG" "rd_disposition (az_decision z) = APPROVE_PAPER"
    "rs_outcome s = ENTRY_APPROVED"
    using m i by (auto simp: risk_matches_def elim: expected_step.elims)
  have q: "fr_quantity (hd (rs_fills s)) = the (pi_quantity i)" "pi_quantity i = rd_approved_quantity (az_decision z)"
    using process_position(3) [OF p i] m e(3) by (simp_all add: risk_matches_def)
  obtain su q where "sd_setup (rr_strategy_decision (az_request z)) = Some su"
    "rd_approved_quantity (az_decision z) = Some q"
    "safe_entry (az_request z) (az_managed_state z) su (val (py_Decimal q))" "\<not> ks_active (az_kill_switch_state z)"
    "rr_evidence_label (az_request z) = QUALIFIED_FOR_P4_RESEARCH"
    "ks_last_circuit_sha256 (az_kill_switch_state z) = Some (circuit_sha256 (az_circuit_assessment z))"
    by (rule approved_entry [OF A(1) e(1,2) A(4,5)])
  then show ?thesis using q by auto
qed

definition example_risk_decision :: RiskDecision where
  "example_risk_decision = \<lparr> rd_request = example_request, rd_disposition = APPROVE_PAPER,
     rd_reason = RISK_CHECKS_PASSED, rd_approved_quantity = Some ''20'' \<rparr>"

definition example_authorization :: RiskAuthorization where
  "example_authorization = \<lparr> az_request = example_request, az_managed_state = example_managed,
     az_kill_switch_state = example_released, az_circuit_assessment = example_circuit,
     az_protective_assessment = Some example_gate, az_decision = example_risk_decision \<rparr>"

lemma example_risk_decision_ok: "RiskDecision_post_init example_risk_decision = Inr ()"
  by (simp add: RiskDecision_post_init_def example_risk_decision_def example_request_def example_decision_def
      example_portfolio_def risk_decimal_def py_eval)

lemma example_decision_for:
  "decision_for example_request example_managed example_released example_circuit (Some example_gate)
     = Inr example_risk_decision"
proof -
  have f: "ca_request example_circuit = example_request" "ca_managed_state example_circuit = example_managed"
    "ca_triggered_breakers example_circuit = []"
    "pr_kill_switch_active (rr_portfolio example_request) = False" "ks_active example_released = False"
    "pz_request (la_position_size (pa_limit_assessment example_gate)) = example_request"
    "sd_action (rr_strategy_decision example_request) = SA_ENTER_LONG" "pa_status example_gate = GATE_PASS"
    "pa_quantity example_gate = ''20''" "rr_evidence_label example_request = QUALIFIED_FOR_P4_RESEARCH"
    "ks_last_circuit_sha256 example_released = Some (circuit_sha256 example_circuit)"
    "ks_last_circuit_time_ms example_released = Some (mp_decision_time_ms example_managed)"
    by (simp_all add: example_circuit_def example_request_def example_portfolio_def ks_active_def example_released_def
        example_gate_def example_limits_def example_size_def example_decision_def example_managed_def)
  have "approve example_request RISK_CHECKS_PASSED ''20'' = Inr example_risk_decision"
    using example_risk_decision_ok unfolding approve_def example_risk_decision_def by (simp add: construct_eq_Inr)
  then show ?thesis by (simp add: decision_for_def entry_decision_def f)
qed

lemma example_authorization_valid: "valid_RiskAuthorization example_authorization"
  using example_request_valid next_state_valid [OF example_second_state] kill_switch_next_valid [OF example_kill_switch_steps(2)]
    example_circuit_valid example_gate_valid example_risk_decision_ok example_decision_for
  by (simp add: valid_RiskAuthorization_def RiskAuthorization_post_init_def example_authorization_def
      example_risk_decision_def)

definition example_fill_candle :: Candle where
  "example_fill_candle = (example_bar ''1h'' 1704070800000)\<lparr> cd_high := ''110'', cd_low := ''96'',
     cd_base_volume := ''1000'' \<rparr>"

definition example_entry :: PaperIntent where
  "example_entry = \<lparr> pi_action = ENTER_LONG, pi_decision_time_ms = 1704067200000, pi_quantity = Some ''20'',
     pi_stop_price = Some ''95'', pi_target_price = Some ''115'' \<rparr>"

definition example_entry_fill :: FillReference where
  "example_entry_fill = \<lparr> fr_action = ENTER_LONG, fr_symbol = ''BTCUSDT'', fr_decision_time_ms = 1704067200000,
     fr_fill_time_ms = 1704067200000, fr_quantity = ''20'', fr_reference_price = ''100'',
     fr_reason = NEXT_PRIMARY_OPEN \<rparr>"

lemma example_engine_step:
  "process example_event example_entry example_fill_candle \<lparr> fe_symbol = ''BTCUSDT'', fe_position = None \<rparr>
     = (\<lparr> fe_symbol = ''BTCUSDT'', fe_position = Some (bracket_of example_entry) \<rparr>, Inr [example_entry_fill])"
  by (simp add: process_def with_rollback_def process_body_def process_enter_def act_bind_def example_event_def
      example_entry_def example_fill_candle_def example_snapshot_def example_bar_def example_candle_def
      PRIMARY_INTERVAL_def interval_ms_def fill_reference_def construct_def FillReference_post_init_def
      positive_decimal_def SYMBOLS_def protective_exit_def protective_price_def fills_exceed_volume_def d_sum_def
      example_entry_fill_def bracket_of_def DEFAULT_PRECISION_def py_eval)

lemma valid_authorization_replaces:
  assumes "valid_RiskAuthorization z"
  shows "replace_authorization z = Inr ()"
proof -
  have "valid_StrategyDecision (rr_strategy_decision (az_request z))"
    using valid_RiskRequestD(7) valid_RiskAuthorizationD(3) [OF assms] by blast
  then show ?thesis
    using assms
    by (simp add: replace_authorization_def replace_decision_def replace_context_def valid_RiskAuthorization_def
        valid_StrategyDecision_def valid_StrategyContext_def valid_MarketSnapshot_def)
qed

lemma example_gateway_run:
  assumes "RiskManagedPaperAdapter_init TREND_PULLBACK_IDENTITY ''BTCUSDT'' = Inr a0"
  obtains b s where "risk_process example_event example_authorization example_fill_candle a0 = (b, Inr s)"
    "rs_fills s = [example_entry_fill]"
proof -
  have a0: "a0 = \<lparr> rk_identity = TREND_PULLBACK_IDENTITY, rk_symbol = ''BTCUSDT'',
      rk_fill_engine = \<lparr> fe_symbol = ''BTCUSDT'', fe_position = None \<rparr>, rk_active_setup = None,
      rk_active_quantity = None, rk_last_sequence = None, rk_last_decision_time_ms = None \<rparr>"
    using assms by (auto simp: RiskManagedPaperAdapter_init_def SUPPORTED_IDENTITIES_def PaperFillEngine_init_def SYMBOLS_def)
  have f: "az_request example_authorization = example_request" "az_decision example_authorization = example_risk_decision"
    "rr_strategy_decision example_request = example_decision" "sc_identity (sd_context example_decision) = TREND_PULLBACK_IDENTITY"
    "sc_snapshot (sd_context example_decision) = example_snapshot" "sd_action example_decision = SA_ENTER_LONG"
    "sd_setup example_decision = Some example_setup" "rd_disposition example_risk_decision = APPROVE_PAPER"
    "rd_approved_quantity example_risk_decision = Some ''20''"
    by (simp_all add: example_authorization_def example_request_def example_decision_def default_context_def
        TREND_PULLBACK_IDENTITY_def example_risk_decision_def)
  have "risk_validate a0 example_event example_authorization = Inr ()"
    using valid_authorization_replaces [OF example_authorization_valid]
    by (simp add: risk_validate_def a0 f catch_r_def require_def example_event_def next_event_ok_def sd_symbol_def
        sd_decision_time_ms_def sc_decision_time_ms_def sc_symbol_def example_snapshot_def)
  moreover have "risk_intent a0 example_authorization = Inr (ENTRY_APPROVED, example_entry)"
    by (simp add: risk_intent_def a0 f rk_has_position_def fe_has_position_def entry_intent_def construct_def
        PRIMARY_INTERVAL_def
        example_entry_def example_setup_def sd_decision_time_ms_def sc_decision_time_ms_def sc_symbol_def example_snapshot_def PaperIntent_post_init_def
        positive_decimal_def interval_ms_def py_eval)
  moreover have "\<exists>b s. risk_finish example_event example_authorization ENTRY_APPROVED example_entry [example_entry_fill]
      (a0\<lparr> rk_fill_engine := \<lparr> fe_symbol = ''BTCUSDT'', fe_position = Some (bracket_of example_entry) \<rparr> \<rparr>) = (b, Inr s)
      \<and> rs_fills s = [example_entry_fill]"
  proof -
    have i: "risk_inv a0" by (rule gateway_init [OF assms])
    have "risk_matches a0 example_authorization ENTRY_APPROVED example_entry"
      by (rule risk_intent_Inr [OF example_authorization_valid calculation(2)])
    from risk_finish_total [OF i example_event_valid example_authorization_valid this, of example_fill_candle]
    show ?thesis using example_engine_step by (auto simp: a0)
  qed
  ultimately show thesis
    using that example_engine_step by (auto simp: risk_process_def act_bind_def a0)
qed

theorem entry_fills_are_authorized_witness:
  "\<exists>setup q. sd_setup (rr_strategy_decision (az_request example_authorization)) = Some setup
    \<and> rd_approved_quantity (az_decision example_authorization) = Some q
    \<and> safe_entry (az_request example_authorization) (az_managed_state example_authorization) setup (val (py_Decimal q))
    \<and> fr_quantity example_entry_fill = q"
proof -
  obtain a0 where a0: "RiskManagedPaperAdapter_init TREND_PULLBACK_IDENTITY ''BTCUSDT'' = Inr a0"
    by (simp add: RiskManagedPaperAdapter_init_def SUPPORTED_IDENTITIES_def PaperFillEngine_init_def SYMBOLS_def)
  obtain b s where s: "risk_process example_event example_authorization example_fill_candle a0 = (b, Inr s)"
    "rs_fills s = [example_entry_fill]"
    by (rule example_gateway_run [OF a0])
  show ?thesis
    using entry_fills_are_authorized [OF a0, of "[]" example_event example_authorization example_fill_candle b s example_entry_fill]
      s example_event_valid example_authorization_valid
    by (auto simp: example_entry_fill_def)
qed

text \<open>C15. The way out is never blocked: whatever the kill switch, the circuit breakers and the research
label say, a valid exit request whose evidence belongs to it is authorized for exactly the held quantity,
and a gateway holding that quantity turns the authorization into an exit intent.\<close>

theorem exit_always_authorized:
  assumes "valid_RiskRequest r" and "sd_action (rr_strategy_decision r) = SA_EXIT_LONG"
    and "ca_request c = r" and "ca_managed_state c = m"
    and "pr_kill_switch_active (rr_portfolio r) = ks_active k"
    and "rk_has_position a" and "rk_active_quantity a = Some (pr_position_quantity (rr_portfolio r))"
  shows "\<exists>z i. authorize_paper_request r m k c None = Inr z \<and> rd_disposition (az_decision z) = APPROVE_PAPER
    \<and> rd_approved_quantity (az_decision z) = Some (pr_position_quantity (rr_portfolio r))
    \<and> risk_intent a z = Inr (EXIT_APPROVED, i) \<and> pi_action i = EXIT_LONG"
proof -
  define d where "d = \<lparr> rd_request = r, rd_disposition = APPROVE_PAPER, rd_reason = EXIT_REDUCES_RISK,
    rd_approved_quantity = Some (pr_position_quantity (rr_portfolio r)) \<rparr>"
  define z where "z = \<lparr> az_request = r, az_managed_state = m, az_kill_switch_state = k, az_circuit_assessment = c,
    az_protective_assessment = None, az_decision = d \<rparr>"
  note R = valid_RiskRequestD [OF assms(1)]
  have "RiskDecision_post_init d = Inr ()"
    using valid_PortfolioRiskStateD(6,15) [OF R(5)] grid_plain [of "pr_position_quantity (rr_portfolio r)"]
      R(4) [OF assms(2)] assms(2)
    by (simp add: d_def RiskDecision_post_init_def risk_decimal_def dec_val)
  then have "decision_for r m k c None = Inr d"
    using assms(2-5) by (simp add: decision_for_def approve_def construct_eq_Inr d_def)
  then have "authorize_paper_request r m k c None = Inr z" by (simp add: authorize_iff z_def d_def)
  moreover obtain i where "plain_intent EXIT_LONG (sd_decision_time_ms (rr_strategy_decision r)) = Inr i" "pi_action i = EXIT_LONG"
    using R(7) by (auto simp: plain_intent_def construct_eq_Inr PaperIntent_post_init_def valid_StrategyDecision_def
        valid_StrategyContext_def valid_MarketSnapshot_def MarketSnapshot_post_init_def sd_decision_time_ms_def sc_decision_time_ms_def sc_symbol_def split: if_splits)
  then have "risk_intent a z = Inr (EXIT_APPROVED, i)"
    using assms(2,6,7) by (simp add: risk_intent_def z_def d_def)
  ultimately show ?thesis using \<open>pi_action i = EXIT_LONG\<close> by (auto simp: z_def d_def)
qed

definition example_exit_request :: RiskRequest where
  "example_exit_request = \<lparr>
     rr_strategy_decision = example_decision\<lparr> sd_action := SA_EXIT_LONG, sd_reason := DR_STRATEGY_EXIT, sd_setup := None \<rparr>,
     rr_evidence_label = REJECTED,
     rr_portfolio = example_portfolio\<lparr> pr_position_quantity := ''20'', pr_open_positions := 1, pr_kill_switch_active := True \<rparr>,
     rr_policy = default_policy \<rparr>"

lemma example_exit_request_valid: "valid_RiskRequest example_exit_request"
  using example_request_valid
  by (simp add: valid_RiskRequest_def RiskRequest_post_init_def example_request_def example_exit_request_def
      example_portfolio_def valid_PortfolioRiskState_def PortfolioRiskState_post_init_def risk_decimal_def
      valid_StrategyDecision_def StrategyDecision_post_init_def example_decision_def SYMBOLS_def interval_ms_def
      sd_symbol_def default_context_def example_snapshot_def sd_decision_time_ms_def sc_decision_time_ms_def sc_symbol_def py_eval)

definition example_holding :: RiskManagedPaperAdapter where
  "example_holding = \<lparr> rk_identity = TREND_PULLBACK_IDENTITY, rk_symbol = ''BTCUSDT'',
     rk_fill_engine = \<lparr> fe_symbol = ''BTCUSDT'', fe_position = Some (bracket_of example_entry) \<rparr>,
     rk_active_setup = Some example_setup, rk_active_quantity = Some ''20'', rk_last_sequence = None,
     rk_last_decision_time_ms = None \<rparr>"

theorem exit_always_authorized_witness:
  "\<exists>z i. authorize_paper_request example_exit_request example_managed example_locked
        (example_circuit\<lparr> ca_request := example_exit_request \<rparr>) None = Inr z
     \<and> rd_disposition (az_decision z) = APPROVE_PAPER \<and> risk_intent example_holding z = Inr (EXIT_APPROVED, i)"
  using exit_always_authorized [OF example_exit_request_valid, of "example_circuit\<lparr> ca_request := example_exit_request \<rparr>"
      example_managed example_locked example_holding]
  by (auto simp: example_exit_request_def example_circuit_def ks_active_def example_locked_def example_holding_def
      rk_has_position_def fe_has_position_def)

text \<open>C16. The gateway and the fill engine never diverge: after any sequence of events with valid
authorizations, accepted or rejected, the gateway's quantity is the one the engine holds and its setup is
present exactly with it; and a rejected call leaves the gateway exactly as it was.\<close>

theorem gateway_coherent:
  assumes "RiskManagedPaperAdapter_init identity smb = Inr a0"
    and "list_all risk_admissible xs" and "risk_admissible x"
  shows "let a = foldl (\<lambda>a x. fst (risk_input x a)) a0 xs
    in rk_active_quantity a = engine_holding (rk_fill_engine a)
       \<and> (rk_active_setup a = None \<longleftrightarrow> rk_active_quantity a = None)
       \<and> fe_symbol (rk_fill_engine a) = rk_symbol a
       \<and> (case risk_input x a of (b, Inl e) \<Rightarrow> b = a | (b, Inr step) \<Rightarrow> True)"
proof -
  define a where "a = foldl (\<lambda>a x. fst (risk_input x a)) a0 xs"
  have a: "risk_inv a"
    unfolding a_def using gateway.drive_inv [OF gateway_init [OF assms(1)] assms(2)] by (simp add: gateway.drive_def)
  moreover have "case risk_input x a of (b, Inl e) \<Rightarrow> b = a | (b, Inr step) \<Rightarrow> True"
    using gateway.failed_step [OF a assms(3)] by (auto split: prod.splits sum.splits)
  ultimately show ?thesis by (simp add: a_def [symmetric] risk_inv_def)
qed

theorem gateway_coherent_witness:
  "case RiskManagedPaperAdapter_init TREND_PULLBACK_IDENTITY ''BTCUSDT'' of
     Inl _ \<Rightarrow> False
   | Inr a0 \<Rightarrow> (let a = fst (risk_input (example_event, example_authorization, example_fill_candle) a0)
       in rk_active_quantity a = engine_holding (rk_fill_engine a)
          \<and> (case risk_input (example_event, example_authorization, example_fill_candle) a of
               (b, Inl e) \<Rightarrow> b = a | (b, Inr step) \<Rightarrow> True))"
proof -
  obtain a0 where a0: "RiskManagedPaperAdapter_init TREND_PULLBACK_IDENTITY ''BTCUSDT'' = Inr a0"
    by (simp add: RiskManagedPaperAdapter_init_def SUPPORTED_IDENTITIES_def PaperFillEngine_init_def SYMBOLS_def)
  have "risk_admissible (example_event, example_authorization, example_fill_candle)"
    using example_event_valid example_authorization_valid by (simp add: risk_admissible_def)
  then show ?thesis
    using gateway_coherent [OF a0, of "[(example_event, example_authorization, example_fill_candle)]"
        "(example_event, example_authorization, example_fill_candle)"]
    by (simp add: a0 Let_def)
qed

end
