(* ===== verification/Execution_Contracts.thy ===== *)
theory Execution_Contracts
  imports Risk_Adapter
begin

text \<open>
  \<^verbatim>\<open>yatl/execution/contracts.py\<close>: the frozen local paper policy, the readiness evidence of
  startup reconciliation, and the routing decision that turns a complete risk authorization
  into a local paper effect, a block or nothing.
\<close>

section \<open>Policy and readiness\<close>

definition EXECUTION_POLICY_ID :: string where "EXECUTION_POLICY_ID = ''P5_LOCAL_PAPER_V1''"

datatype RecoveryStatus = RECOVERY_REQUIRED | READY

fun RecoveryStatus_value :: "RecoveryStatus \<Rightarrow> string" where
  "RecoveryStatus_value RECOVERY_REQUIRED = ''RECOVERY_REQUIRED''"
| "RecoveryStatus_value READY = ''READY''"

datatype RecoveryReason = RY_FAIL_CLOSED_STARTUP | RECONCILIATION_FAILED | RECONCILIATION_PASSED

fun RecoveryReason_value :: "RecoveryReason \<Rightarrow> string" where
  "RecoveryReason_value RY_FAIL_CLOSED_STARTUP = ''FAIL_CLOSED_STARTUP''"
| "RecoveryReason_value RECONCILIATION_FAILED = ''RECONCILIATION_FAILED''"
| "RecoveryReason_value RECONCILIATION_PASSED = ''RECONCILIATION_PASSED''"

record LocalPaperExecutionPolicy =
  ep_policy_id :: string
  ep_execution_mode :: string
  ep_paper_only :: bool
  ep_live_master_lock :: string
  ep_spot_only :: bool
  ep_long_only :: bool
  ep_allow_external_transport :: bool
  ep_allow_credentials :: bool
  ep_allow_order_endpoint :: bool
  ep_allow_leverage :: bool
  ep_allow_withdrawal :: bool
  ep_allow_ai_direct_execution :: bool

definition default_execution_policy :: LocalPaperExecutionPolicy where
  "default_execution_policy = \<lparr> ep_policy_id = EXECUTION_POLICY_ID, ep_execution_mode = ''LOCAL_PAPER'',
     ep_paper_only = True, ep_live_master_lock = ''OFF'', ep_spot_only = True, ep_long_only = True,
     ep_allow_external_transport = False, ep_allow_credentials = False, ep_allow_order_endpoint = False,
     ep_allow_leverage = False, ep_allow_withdrawal = False, ep_allow_ai_direct_execution = False \<rparr>"

definition LocalPaperExecutionPolicy_post_init :: "LocalPaperExecutionPolicy \<Rightarrow> unit result" where
  "LocalPaperExecutionPolicy_post_init p =
     (let fixed = ep_policy_id p = EXECUTION_POLICY_ID \<and> ep_execution_mode p = ''LOCAL_PAPER''
            \<and> ep_paper_only p \<and> ep_live_master_lock p = ''OFF'' \<and> ep_spot_only p \<and> ep_long_only p
            \<and> \<not> ep_allow_external_transport p \<and> \<not> ep_allow_credentials p \<and> \<not> ep_allow_order_endpoint p
            \<and> \<not> ep_allow_leverage p \<and> \<not> ep_allow_withdrawal p \<and> \<not> ep_allow_ai_direct_execution p
      in if \<not> fixed
         then Inl (ExecutionContractError ''Execution policy differs from the frozen local Paper policy'')
         else Inr ())"

record RecoveryReadiness =
  ry_status :: RecoveryStatus
  ry_reason :: RecoveryReason
  ry_reconciliation_sha256 :: "string option"

definition default_readiness :: RecoveryReadiness where
  "default_readiness = \<lparr> ry_status = RECOVERY_REQUIRED, ry_reason = RY_FAIL_CLOSED_STARTUP,
     ry_reconciliation_sha256 = None \<rparr>"

definition RecoveryReadiness_post_init :: "RecoveryReadiness \<Rightarrow> unit result" where
  "RecoveryReadiness_post_init r =
     (let digest_valid = (case ry_reconciliation_sha256 r of None \<Rightarrow> False | Some d \<Rightarrow> valid_digest d);
          valid = (ry_status r = RECOVERY_REQUIRED \<and> ry_reason r = RY_FAIL_CLOSED_STARTUP
                   \<and> ry_reconciliation_sha256 r = None)
            \<or> (ry_status r = RECOVERY_REQUIRED \<and> ry_reason r = RECONCILIATION_FAILED \<and> digest_valid)
            \<or> (ry_status r = READY \<and> ry_reason r = RECONCILIATION_PASSED \<and> digest_valid)
      in if \<not> valid
         then Inl (ExecutionContractError ''Recovery status, reason and reconciliation evidence disagree'')
         else Inr ())"

definition readiness_sha256 :: "RecoveryReadiness \<Rightarrow> string" where
  "readiness_sha256 r = py_digest (JObj
     [(''schema_version'', JInt 1), (''status'', JStr (RecoveryStatus_value (ry_status r))),
      (''reason'', JStr (RecoveryReason_value (ry_reason r))),
      (''reconciliation_sha256'', j_opt JStr (ry_reconciliation_sha256 r))])"

section \<open>Routing\<close>

datatype ExecutionDisposition = ED_NO_ACTION | ED_BLOCKED | ACCEPT_LOCAL_PAPER

fun ExecutionDisposition_value :: "ExecutionDisposition \<Rightarrow> string" where
  "ExecutionDisposition_value ED_NO_ACTION = ''NO_ACTION''"
| "ExecutionDisposition_value ED_BLOCKED = ''BLOCKED''"
| "ExecutionDisposition_value ACCEPT_LOCAL_PAPER = ''ACCEPT_LOCAL_PAPER''"

datatype ExecutionReason =
  ER_NO_STRATEGY_ACTION | RISK_NOT_APPROVED | RECOVERY_NOT_READY | LOCAL_PAPER_AUTHORIZED

fun ExecutionReason_value :: "ExecutionReason \<Rightarrow> string" where
  "ExecutionReason_value ER_NO_STRATEGY_ACTION = ''NO_STRATEGY_ACTION''"
| "ExecutionReason_value RISK_NOT_APPROVED = ''RISK_NOT_APPROVED''"
| "ExecutionReason_value RECOVERY_NOT_READY = ''RECOVERY_NOT_READY''"
| "ExecutionReason_value LOCAL_PAPER_AUTHORIZED = ''LOCAL_PAPER_AUTHORIZED''"

text \<open>
  The reconstruction runs the constructor of the authorization again; the copy is then
  equal to the original, so the comparison of the copies and of their digests cannot fail.
\<close>

definition validate_authorization :: "RiskAuthorization \<Rightarrow> unit result" where
  "validate_authorization authorization =
     bind_r (catch_r (construct RiskAuthorization_post_init authorization) is_value_error
       (ExecutionContractError ''P4 authorization failed deterministic reconstruction'')) (\<lambda>reconstructed.
     require (reconstructed = authorization \<and> authorization_sha256 reconstructed = authorization_sha256 authorization)
       (ExecutionContractError ''P4 authorization identity changed''))"

definition expected_execution ::
    "RiskAuthorization \<Rightarrow> RecoveryReadiness \<Rightarrow>
       (ExecutionDisposition \<times> ExecutionReason \<times> IntentAction \<times> string option) result" where
  "expected_execution authorization readiness =
     (let decision = az_decision authorization;
          strategy_action = sd_action (rr_strategy_decision (rd_request decision)) in
      if rd_disposition decision = NO_ACTION then Inr (ED_NO_ACTION, ER_NO_STRATEGY_ACTION, HOLD, None)
      else if rd_disposition decision = REJECT then Inr (ED_BLOCKED, RISK_NOT_APPROVED, HOLD, None)
      else if ry_status readiness \<noteq> READY then Inr (ED_BLOCKED, RECOVERY_NOT_READY, HOLD, None)
      else
        let action = (case strategy_action of SA_ENTER_LONG \<Rightarrow> Some ENTER_LONG
                      | SA_EXIT_LONG \<Rightarrow> Some EXIT_LONG | SA_NO_TRADE \<Rightarrow> None) in
        case (action, rd_approved_quantity decision) of
          (Some a, Some q) \<Rightarrow> Inr (ACCEPT_LOCAL_PAPER, LOCAL_PAPER_AUTHORIZED, a, Some q)
        | _ \<Rightarrow> Inl (ExecutionContractError ''P4 approval has no valid local Paper action''))"

record LocalPaperExecutionDecision =
  xd_authorization :: RiskAuthorization
  xd_readiness :: RecoveryReadiness
  xd_disposition :: ExecutionDisposition
  xd_reason :: ExecutionReason
  xd_action :: IntentAction
  xd_approved_quantity :: "string option"
  xd_policy :: LocalPaperExecutionPolicy

definition LocalPaperExecutionDecision_post_init :: "LocalPaperExecutionDecision \<Rightarrow> unit result" where
  "LocalPaperExecutionDecision_post_init d =
     bind_r (validate_authorization (xd_authorization d)) (\<lambda>_.
     bind_r (catch_r
       (bind_r (construct RecoveryReadiness_post_init (xd_readiness d)) (\<lambda>readiness.
        bind_r (construct LocalPaperExecutionPolicy_post_init (xd_policy d)) (\<lambda>policy.
        Inr (readiness, policy)))) is_value_error
       (ExecutionContractError ''Recovery readiness or local Paper policy failed reconstruction''))
     (\<lambda>(readiness, policy).
     bind_r (require (readiness = xd_readiness d \<and> policy = xd_policy d)
       (ExecutionContractError ''Local Paper decision identity is invalid'')) (\<lambda>_.
     bind_r (expected_execution (xd_authorization d) (xd_readiness d)) (\<lambda>expected.
     require ((xd_disposition d, xd_reason d, xd_action d, xd_approved_quantity d) = expected)
       (ExecutionContractError ''Execution disposition, reason, action and quantity disagree'')))))"

definition xd_authorization_sha256 :: "LocalPaperExecutionDecision \<Rightarrow> string" where
  "xd_authorization_sha256 d = authorization_sha256 (xd_authorization d)"

definition execution_policy_payload :: "LocalPaperExecutionPolicy \<Rightarrow> json" where
  "execution_policy_payload p = JObj
     [(''policy_id'', JStr (ep_policy_id p)), (''execution_mode'', JStr (ep_execution_mode p)),
      (''paper_only'', JBool (ep_paper_only p)), (''live_master_lock'', JStr (ep_live_master_lock p)),
      (''spot_only'', JBool (ep_spot_only p)), (''long_only'', JBool (ep_long_only p)),
      (''allow_external_transport'', JBool (ep_allow_external_transport p)),
      (''allow_credentials'', JBool (ep_allow_credentials p)),
      (''allow_order_endpoint'', JBool (ep_allow_order_endpoint p)),
      (''allow_leverage'', JBool (ep_allow_leverage p)),
      (''allow_withdrawal'', JBool (ep_allow_withdrawal p)),
      (''allow_ai_direct_execution'', JBool (ep_allow_ai_direct_execution p))]"

definition decision_sha256 :: "LocalPaperExecutionDecision \<Rightarrow> string" where
  "decision_sha256 d = py_digest (JObj
     [(''schema_version'', JInt 1), (''authorization_sha256'', JStr (xd_authorization_sha256 d)),
      (''readiness_sha256'', JStr (readiness_sha256 (xd_readiness d))),
      (''policy'', execution_policy_payload (xd_policy d)),
      (''disposition'', JStr (ExecutionDisposition_value (xd_disposition d))),
      (''reason'', JStr (ExecutionReason_value (xd_reason d))),
      (''action'', JStr (IntentAction_value (xd_action d))),
      (''approved_quantity'', j_opt JStr (xd_approved_quantity d))])"

definition assess_local_paper_authorization ::
    "RiskAuthorization \<Rightarrow> RecoveryReadiness option \<Rightarrow> LocalPaperExecutionPolicy option \<Rightarrow>
       LocalPaperExecutionDecision result" where
  "assess_local_paper_authorization authorization readiness_opt policy_opt =
     bind_r (validate_authorization authorization) (\<lambda>_.
     bind_r (case readiness_opt of None \<Rightarrow> construct RecoveryReadiness_post_init default_readiness
             | Some r \<Rightarrow> Inr r) (\<lambda>readiness.
     bind_r (case policy_opt of
               None \<Rightarrow> construct LocalPaperExecutionPolicy_post_init default_execution_policy
             | Some p \<Rightarrow> Inr p) (\<lambda>policy.
     bind_r (expected_execution authorization readiness) (\<lambda>(disposition, reason, action, quantity).
     construct LocalPaperExecutionDecision_post_init
       \<lparr> xd_authorization = authorization, xd_readiness = readiness, xd_disposition = disposition,
         xd_reason = reason, xd_action = action, xd_approved_quantity = quantity, xd_policy = policy \<rparr>))))"

definition valid_RecoveryReadiness :: "RecoveryReadiness \<Rightarrow> bool" where
  "valid_RecoveryReadiness r \<longleftrightarrow> RecoveryReadiness_post_init r = Inr ()"

definition valid_LocalPaperExecutionDecision :: "LocalPaperExecutionDecision \<Rightarrow> bool" where
  "valid_LocalPaperExecutionDecision d \<longleftrightarrow>
     LocalPaperExecutionDecision_post_init d = Inr () \<and> valid_RiskAuthorization (xd_authorization d)"

section \<open>What a decision implies\<close>

lemma execution_policy_frozen:
  "LocalPaperExecutionPolicy_post_init p = Inr () \<longleftrightarrow> p = default_execution_policy"
  by (cases p) (simp add: LocalPaperExecutionPolicy_post_init_def default_execution_policy_def)

lemma validate_authorization_ok: "validate_authorization z = Inr () \<longleftrightarrow> RiskAuthorization_post_init z = Inr ()"
  by (auto simp: validate_authorization_def result_simps)

lemma execution_digests_valid [simp]:
  "valid_digest (readiness_sha256 r)" "valid_digest (decision_sha256 d)" "valid_digest (authorization_sha256 z)"
  by (simp_all add: readiness_sha256_def decision_sha256_def authorization_sha256_def)

lemma execution_decision_iff:
  "LocalPaperExecutionDecision_post_init d = Inr () \<longleftrightarrow>
     RiskAuthorization_post_init (xd_authorization d) = Inr () \<and> valid_RecoveryReadiness (xd_readiness d)
     \<and> xd_policy d = default_execution_policy
     \<and> expected_execution (xd_authorization d) (xd_readiness d)
         = Inr (xd_disposition d, xd_reason d, xd_action d, xd_approved_quantity d)"
  by (auto simp: LocalPaperExecutionDecision_post_init_def bind_r_eq_Inr validate_authorization_ok construct_eq_Inr
      valid_RecoveryReadiness_def execution_policy_frozen)

text \<open>An approved decision has an action of the strategy and a quantity, so routing never fails.\<close>

lemma approved_has_action:
  assumes "valid_RiskAuthorization z" "rd_disposition (az_decision z) = APPROVE_PAPER"
  obtains q where "rd_approved_quantity (az_decision z) = Some q"
    "sd_action (rr_strategy_decision (az_request z)) \<noteq> SA_NO_TRADE"
proof -
  have "RiskDecision_post_init (az_decision z) = Inr ()" using assms(1) by (simp add: valid_RiskAuthorization_def)
  then show thesis
    using that valid_RiskAuthorizationD(2,6) [OF assms(1)] assms(2)
    by (cases "rd_approved_quantity (az_decision z)")
      (auto simp: RiskDecision_post_init_def bind_r_eq_Inr Let_def split: if_splits)
qed

lemma expected_execution_cases:
  assumes "valid_RiskAuthorization z"
  shows "\<exists>d y a q. expected_execution z r = Inr (d, y, a, q)
    \<and> (d = ACCEPT_LOCAL_PAPER \<longleftrightarrow> rd_disposition (az_decision z) = APPROVE_PAPER \<and> ry_status r = READY)
    \<and> (if d = ACCEPT_LOCAL_PAPER
       then q = rd_approved_quantity (az_decision z) \<and> q \<noteq> None
         \<and> (a = ENTER_LONG \<longleftrightarrow> sd_action (rr_strategy_decision (az_request z)) = SA_ENTER_LONG)
         \<and> (a = EXIT_LONG \<longleftrightarrow> sd_action (rr_strategy_decision (az_request z)) = SA_EXIT_LONG) \<and> a \<noteq> HOLD
       else a = HOLD \<and> q = None)"
proof (cases "rd_disposition (az_decision z) = APPROVE_PAPER")
  case True
  obtain q where q: "rd_approved_quantity (az_decision z) = Some q"
    "sd_action (rr_strategy_decision (az_request z)) \<noteq> SA_NO_TRADE"
    by (rule approved_has_action [OF assms True])
  then show ?thesis
    using True valid_RiskAuthorizationD(2) [OF assms]
    by (cases "sd_action (rr_strategy_decision (az_request z))") (auto simp: expected_execution_def Let_def)
next
  case False
  then show ?thesis
    by (cases "rd_disposition (az_decision z)") (auto simp: expected_execution_def Let_def)
qed

lemma accepted_decisionD:
  assumes "valid_LocalPaperExecutionDecision d" "xd_disposition d = ACCEPT_LOCAL_PAPER"
  shows "rd_disposition (az_decision (xd_authorization d)) = APPROVE_PAPER" "ry_status (xd_readiness d) = READY"
    "xd_approved_quantity d = rd_approved_quantity (az_decision (xd_authorization d))"
    "xd_approved_quantity d \<noteq> None" "xd_action d \<noteq> HOLD" "xd_policy d = default_execution_policy"
    "xd_action d = ENTER_LONG \<longleftrightarrow> sd_action (rr_strategy_decision (az_request (xd_authorization d))) = SA_ENTER_LONG"
proof -
  have z: "valid_RiskAuthorization (xd_authorization d)"
    and p: "LocalPaperExecutionDecision_post_init d = Inr ()"
    using assms(1) by (simp_all add: valid_LocalPaperExecutionDecision_def)
  have e: "expected_execution (xd_authorization d) (xd_readiness d) =
      Inr (xd_disposition d, xd_reason d, xd_action d, xd_approved_quantity d)"
    and "xd_policy d = default_execution_policy"
    using p by (simp_all add: execution_decision_iff)
  then show "xd_policy d = default_execution_policy" by simp
  obtain dd y a q where x: "expected_execution (xd_authorization d) (xd_readiness d) = Inr (dd, y, a, q)"
    and c: "dd = ACCEPT_LOCAL_PAPER \<longleftrightarrow>
      rd_disposition (az_decision (xd_authorization d)) = APPROVE_PAPER \<and> ry_status (xd_readiness d) = READY"
    "if dd = ACCEPT_LOCAL_PAPER
       then q = rd_approved_quantity (az_decision (xd_authorization d)) \<and> q \<noteq> None
         \<and> (a = ENTER_LONG \<longleftrightarrow> sd_action (rr_strategy_decision (az_request (xd_authorization d))) = SA_ENTER_LONG)
         \<and> (a = EXIT_LONG \<longleftrightarrow> sd_action (rr_strategy_decision (az_request (xd_authorization d))) = SA_EXIT_LONG) \<and> a \<noteq> HOLD
       else a = HOLD \<and> q = None"
    using expected_execution_cases [OF z, of "xd_readiness d"] by blast
  have v: "dd = ACCEPT_LOCAL_PAPER" "a = xd_action d" "q = xd_approved_quantity d" using x e assms(2) by simp_all
  show "rd_disposition (az_decision (xd_authorization d)) = APPROVE_PAPER" "ry_status (xd_readiness d) = READY"
    "xd_approved_quantity d = rd_approved_quantity (az_decision (xd_authorization d))"
    "xd_approved_quantity d \<noteq> None" "xd_action d \<noteq> HOLD"
    "xd_action d = ENTER_LONG \<longleftrightarrow> sd_action (rr_strategy_decision (az_request (xd_authorization d))) = SA_ENTER_LONG"
    using c v by (metis (full_types))+
qed

section \<open>Properties\<close>

text \<open>C3. Routing is total and fail-closed: for every valid authorization the assessment returns a valid
decision under the frozen local paper policy; it accepts a local paper effect exactly when the risk layer
approved and startup reconciliation passed, then with the strategy's action and the approved quantity;
otherwise the action is HOLD with no quantity. Without readiness evidence nothing is ever accepted.\<close>

theorem execution_accepts_only_when_ready:
  assumes "valid_RiskAuthorization z" and "case r of None \<Rightarrow> True | Some y \<Rightarrow> valid_RecoveryReadiness y"
  shows "\<exists>d. assess_local_paper_authorization z r None = Inr d \<and> valid_LocalPaperExecutionDecision d
    \<and> xd_policy d = default_execution_policy
    \<and> (xd_disposition d = ACCEPT_LOCAL_PAPER \<longleftrightarrow>
         rd_disposition (az_decision z) = APPROVE_PAPER \<and> (\<exists>y. r = Some y \<and> ry_status y = READY))
    \<and> (if xd_disposition d = ACCEPT_LOCAL_PAPER
       then xd_approved_quantity d = rd_approved_quantity (az_decision z) \<and> xd_approved_quantity d \<noteq> None
         \<and> xd_action d = (if sd_action (rr_strategy_decision (az_request z)) = SA_ENTER_LONG then ENTER_LONG else EXIT_LONG)
       else xd_action d = HOLD \<and> xd_approved_quantity d = None)"
proof -
  define y where "y = (case r of None \<Rightarrow> default_readiness | Some y \<Rightarrow> y)"
  have y: "valid_RecoveryReadiness y"
    using assms(2) by (cases r) (simp_all add: y_def valid_RecoveryReadiness_def default_readiness_def RecoveryReadiness_post_init_def)
  have st: "ry_status y = READY \<longleftrightarrow> (\<exists>y. r = Some y \<and> ry_status y = READY)"
    by (cases r) (simp_all add: y_def default_readiness_def)
  obtain d n a q where e: "expected_execution z y = Inr (d, n, a, q)"
    and c: "d = ACCEPT_LOCAL_PAPER \<longleftrightarrow> rd_disposition (az_decision z) = APPROVE_PAPER \<and> ry_status y = READY"
    "if d = ACCEPT_LOCAL_PAPER
       then q = rd_approved_quantity (az_decision z) \<and> q \<noteq> None
         \<and> (a = ENTER_LONG \<longleftrightarrow> sd_action (rr_strategy_decision (az_request z)) = SA_ENTER_LONG)
         \<and> (a = EXIT_LONG \<longleftrightarrow> sd_action (rr_strategy_decision (az_request z)) = SA_EXIT_LONG) \<and> a \<noteq> HOLD
       else a = HOLD \<and> q = None"
    using expected_execution_cases [OF assms(1)] by blast
  define w where "w = \<lparr> xd_authorization = z, xd_readiness = y, xd_disposition = d, xd_reason = n, xd_action = a,
    xd_approved_quantity = q, xd_policy = default_execution_policy \<rparr>"
  have z: "RiskAuthorization_post_init z = Inr ()" using assms(1) by (simp add: valid_RiskAuthorization_def)
  have w: "LocalPaperExecutionDecision_post_init w = Inr ()"
    using z y e by (simp add: execution_decision_iff w_def)
  have rd: "(case r of None \<Rightarrow> construct RecoveryReadiness_post_init default_readiness | Some r \<Rightarrow> Inr r) = Inr y"
    using y by (cases r) (simp_all add: y_def construct_ok valid_RecoveryReadiness_def)
  have "assess_local_paper_authorization z r None = Inr w"
    using z e w validate_authorization_ok [of z] execution_policy_frozen [of default_execution_policy]
    by (simp add: assess_local_paper_authorization_def rd construct_ok w_def)
  moreover have "valid_LocalPaperExecutionDecision w"
    using w assms(1) by (simp add: valid_LocalPaperExecutionDecision_def w_def)
  ultimately show ?thesis
    using c st by (intro exI [of _ w]) (cases a; auto simp: w_def split: if_splits)
qed

definition example_ready :: RecoveryReadiness where
  "example_ready = \<lparr> ry_status = READY, ry_reason = RECONCILIATION_PASSED,
     ry_reconciliation_sha256 = Some (sha256_hexdigest ''evidence'') \<rparr>"

lemma example_ready_valid: "valid_RecoveryReadiness example_ready"
  by (simp add: valid_RecoveryReadiness_def RecoveryReadiness_post_init_def example_ready_def)

theorem execution_accepts_only_when_ready_witness:
  "(\<exists>d. assess_local_paper_authorization example_authorization (Some example_ready) None = Inr d
      \<and> xd_disposition d = ACCEPT_LOCAL_PAPER \<and> xd_action d = ENTER_LONG \<and> xd_approved_quantity d = Some ''20'')
   \<and> (\<exists>d. assess_local_paper_authorization example_authorization None None = Inr d
      \<and> xd_disposition d \<noteq> ACCEPT_LOCAL_PAPER \<and> xd_action d = HOLD)"
proof -
  have f: "rd_disposition (az_decision example_authorization) = APPROVE_PAPER" "ry_status example_ready = READY"
    "sd_action (rr_strategy_decision (az_request example_authorization)) = SA_ENTER_LONG"
    "rd_approved_quantity (az_decision example_authorization) = Some ''20''"
    by (simp_all add: example_authorization_def example_risk_decision_def example_ready_def example_request_def
        example_decision_def)
  show ?thesis
    using execution_accepts_only_when_ready [OF example_authorization_valid, of "Some example_ready"]
      execution_accepts_only_when_ready [OF example_authorization_valid, of None] example_ready_valid
    by (auto simp: f)
qed

end
