(* ===== verification/Execution_Database.thy ===== *)
theory Execution_Database
  imports Yatl_Prelude
begin

text \<open>
  The SQLite database that the execution stores share: the tables created by the
  \<^verbatim>\<open>_migrate\<close> methods of \<^verbatim>\<open>journal.py\<close>, \<^verbatim>\<open>state.py\<close> and \<^verbatim>\<open>portfolio.py\<close> under
  \<^verbatim>\<open>yatl/execution\<close>, with their PRIMARY KEY, UNIQUE and FOREIGN KEY constraints. A table
  is the list of its rows in the order of insertion; a statement that violates a constraint
  is \<open>None\<close>, the \<^verbatim>\<open>sqlite3.IntegrityError\<close> of the code. Rows hold column values, not
  validated objects, so a row need not be one the program wrote.
\<close>

section \<open>Tables with keys\<close>

definition insert_row :: "('r \<Rightarrow> 'r \<Rightarrow> bool) \<Rightarrow> 'r \<Rightarrow> 'r list \<Rightarrow> 'r list option" where
  "insert_row conflict r table = (if list_ex (conflict r) table then None else Some (table @ [r]))"

definition select_row :: "('r \<Rightarrow> 'k) \<Rightarrow> 'k \<Rightarrow> 'r list \<Rightarrow> 'r option" where
  "select_row key k table = find (\<lambda>r. key r = k) table"

text \<open>
  The contract of a table: rows with the same key conflict, so a lookup by key finds at
  most one row, an accepted insert is found again and leaves every other lookup alone.
\<close>

locale keyed_table =
  fixes conflict :: "'r \<Rightarrow> 'r \<Rightarrow> bool" and key :: "'r \<Rightarrow> 'k"
  assumes conflict_sym: "conflict r s \<Longrightarrow> conflict s r"
    and key_conflict: "key r = key s \<Longrightarrow> conflict r s"
begin

definition consistent :: "'r list \<Rightarrow> bool" where
  "consistent table \<longleftrightarrow> sorted_wrt (\<lambda>r s. \<not> conflict r s) table"

lemma consistent_Nil [simp]: "consistent []"
  by (simp add: consistent_def)

lemma insert_consistent: "consistent table \<Longrightarrow> insert_row conflict r table = Some t \<Longrightarrow> consistent t"
  by (auto simp: consistent_def insert_row_def sorted_wrt_append list_ex_iff split: if_splits)
    (blast dest: conflict_sym)

lemma insert_select:
  assumes "insert_row conflict r table = Some t"
  shows "select_row key k t = (if k = key r then Some r else select_row key k table)"
proof -
  have n: "\<not> (\<exists>s\<in>set table. conflict r s)" and t: "t = table @ [r]"
    using assms by (auto simp: insert_row_def list_ex_iff split: if_splits)
  have "find (\<lambda>s. key s = key r) table = None"
    using n key_conflict by (metis (mono_tags, lifting) find_None_iff)
  moreover have "find p (xs @ [y]) = (case find p xs of Some z \<Rightarrow> Some z | None \<Rightarrow> if p y then Some y else None)"
    for p :: "'r \<Rightarrow> bool" and xs y
    by (induction xs) auto
  ultimately show ?thesis by (auto simp: select_row_def t split: option.splits)
qed

lemma consistent_keys: "consistent table \<Longrightarrow> distinct (map key table)"
proof (induction table)
  case (Cons r table)
  have "key r \<noteq> key s" if "s \<in> set table" for s
    using that Cons.prems key_conflict by (auto simp: consistent_def)
  then show ?case using Cons by (auto simp: consistent_def)
qed simp

lemma select_iff:
  assumes "consistent table"
  shows "select_row key k table = Some r \<longleftrightarrow> r \<in> set table \<and> key r = k"
  using consistent_keys [OF assms]
  by (induction table) (auto simp: select_row_def image_iff)

lemma insert_absent: "insert_row conflict r table = Some t \<Longrightarrow> select_row key (key r) table = None"
  using key_conflict by (fastforce simp: insert_row_def list_ex_iff select_row_def find_None_iff split: if_splits)

end

lemma select_row_Some: "select_row key k table = Some r \<Longrightarrow> r \<in> set table \<and> key r = k"
  by (auto simp: select_row_def find_Some_iff)

lemma select_row_None: "select_row key k table = None \<longleftrightarrow> (\<forall>r\<in>set table. key r \<noteq> k)"
  by (auto simp: select_row_def find_None_iff)

section \<open>The rows\<close>

record LocalPaperIntentRecord =
  ir_authorization_sha256 :: string
  ir_effect_sha256 :: string
  ir_decision_sha256 :: string
  ir_readiness_sha256 :: string
  ir_action :: string
  ir_approved_quantity :: string
  ir_policy_id :: string
  ir_intent_sha256 :: string

record OrderEventRow =
  ev_authorization_sha256 :: string
  ev_intent_sha256 :: string
  ev_sequence :: int
  ev_event_time_ms :: int
  ev_event_type :: string
  ev_reason :: string
  ev_previous_event_sha256 :: "string option"
  ev_event_sha256 :: string

record OrderStateRow =
  st_authorization_sha256 :: string
  st_intent_sha256 :: string
  st_sequence :: int
  st_updated_time_ms :: int
  st_status :: string
  st_reason :: string
  st_previous_state_sha256 :: "string option"
  st_event_sha256 :: string
  st_state_sha256 :: string

record FillEventRow =
  fx_fill_event_sha256 :: string
  fx_symbol :: string
  fx_sequence :: int
  fx_authorization_sha256 :: string
  fx_intent_sha256 :: string
  fx_order_state_sha256 :: string
  fx_fill_step_sha256 :: string
  fx_fill_index :: int
  fx_payload_json :: string

record PortfolioRow =
  px_symbol :: string
  px_spec_sha256 :: string
  px_fill_count :: int
  px_last_fill_event_sha256 :: string
  px_mark_price :: string
  px_payload_json :: string
  px_projection_sha256 :: string

record ExecutionDatabase =
  db_intents :: "LocalPaperIntentRecord list"
  db_order_events :: "OrderEventRow list"
  db_order_states :: "OrderStateRow list"
  db_fill_events :: "FillEventRow list"
  db_portfolios :: "PortfolioRow list"

definition empty_database :: ExecutionDatabase where
  "empty_database = \<lparr> db_intents = [], db_order_events = [], db_order_states = [], db_fill_events = [],
     db_portfolios = [] \<rparr>"

section \<open>The constraints\<close>

definition intent_conflict :: "LocalPaperIntentRecord \<Rightarrow> LocalPaperIntentRecord \<Rightarrow> bool" where
  "intent_conflict r s \<longleftrightarrow> ir_authorization_sha256 r = ir_authorization_sha256 s
     \<or> ir_effect_sha256 r = ir_effect_sha256 s \<or> ir_intent_sha256 r = ir_intent_sha256 s"

definition order_event_key :: "OrderEventRow \<Rightarrow> string \<times> int" where
  "order_event_key r = (ev_authorization_sha256 r, ev_sequence r)"

definition order_event_conflict :: "OrderEventRow \<Rightarrow> OrderEventRow \<Rightarrow> bool" where
  "order_event_conflict r s \<longleftrightarrow> order_event_key r = order_event_key s \<or> ev_event_sha256 r = ev_event_sha256 s"

definition order_state_conflict :: "OrderStateRow \<Rightarrow> OrderStateRow \<Rightarrow> bool" where
  "order_state_conflict r s \<longleftrightarrow> st_authorization_sha256 r = st_authorization_sha256 s
     \<or> st_state_sha256 r = st_state_sha256 s"

definition fill_event_conflict :: "FillEventRow \<Rightarrow> FillEventRow \<Rightarrow> bool" where
  "fill_event_conflict r s \<longleftrightarrow> fx_fill_event_sha256 r = fx_fill_event_sha256 s
     \<or> (fx_symbol r, fx_sequence r) = (fx_symbol s, fx_sequence s)
     \<or> (fx_fill_step_sha256 r, fx_fill_index r) = (fx_fill_step_sha256 s, fx_fill_index s)"

definition portfolio_conflict :: "PortfolioRow \<Rightarrow> PortfolioRow \<Rightarrow> bool" where
  "portfolio_conflict r s \<longleftrightarrow> px_symbol r = px_symbol s \<or> px_projection_sha256 r = px_projection_sha256 s"

interpretation intents: keyed_table intent_conflict ir_authorization_sha256
  by unfold_locales (auto simp: intent_conflict_def)

interpretation order_events: keyed_table order_event_conflict order_event_key
  by unfold_locales (auto simp: order_event_conflict_def)

interpretation order_states: keyed_table order_state_conflict st_authorization_sha256
  by unfold_locales (auto simp: order_state_conflict_def)

interpretation fill_events: keyed_table fill_event_conflict fx_fill_event_sha256
  by unfold_locales (auto simp: fill_event_conflict_def)

interpretation portfolios: keyed_table portfolio_conflict px_symbol
  by unfold_locales (auto simp: portfolio_conflict_def)

section \<open>The statements\<close>

text \<open>What the driver can bind as an \<^verbatim>\<open>INTEGER\<close>: 64 bits, signed.\<close>

definition sqlite_integer :: "int \<Rightarrow> bool" where
  "sqlite_integer i \<longleftrightarrow> - (2 ^ 63) \<le> i \<and> i < 2 ^ 63"

definition insert_intent :: "LocalPaperIntentRecord \<Rightarrow> ExecutionDatabase \<Rightarrow> ExecutionDatabase option" where
  "insert_intent r db =
     map_option (\<lambda>t. db\<lparr> db_intents := t \<rparr>) (insert_row intent_conflict r (db_intents db))"

definition has_intent :: "string \<Rightarrow> ExecutionDatabase \<Rightarrow> bool" where
  "has_intent a db \<longleftrightarrow> list_ex (\<lambda>r. ir_authorization_sha256 r = a) (db_intents db)"

definition insert_order_event :: "OrderEventRow \<Rightarrow> ExecutionDatabase \<Rightarrow> ExecutionDatabase option" where
  "insert_order_event r db =
     (if \<not> has_intent (ev_authorization_sha256 r) db then None
      else map_option (\<lambda>t. db\<lparr> db_order_events := t \<rparr>) (insert_row order_event_conflict r (db_order_events db)))"

definition insert_order_state :: "OrderStateRow \<Rightarrow> ExecutionDatabase \<Rightarrow> ExecutionDatabase option" where
  "insert_order_state r db =
     (if \<not> has_intent (st_authorization_sha256 r) db then None
      else map_option (\<lambda>t. db\<lparr> db_order_states := t \<rparr>) (insert_row order_state_conflict r (db_order_states db)))"

text \<open>
  \<^verbatim>\<open>UPDATE local_paper_order_states ... WHERE authorization_sha256 = ? AND state_sha256 = ?\<close>:
  the number of changed rows and the new database. A fill event refers to the state digest
  of its order, so a row whose digest is referred to cannot get another one.
\<close>

definition update_order_state ::
    "string \<Rightarrow> OrderStateRow \<Rightarrow> ExecutionDatabase \<Rightarrow> (nat \<times> ExecutionDatabase) option" where
  "update_order_state old r db =
     (let hit = (\<lambda>s. st_authorization_sha256 s = st_authorization_sha256 r \<and> st_state_sha256 s = old) in
      if \<not> list_ex hit (db_order_states db) then Some (0, db)
      else if list_ex (\<lambda>s. \<not> hit s \<and> st_state_sha256 s = st_state_sha256 r) (db_order_states db) then None
      else if st_state_sha256 r \<noteq> old \<and> list_ex (\<lambda>f. fx_order_state_sha256 f = old) (db_fill_events db) then None
      else Some (length (filter hit (db_order_states db)),
                 db\<lparr> db_order_states := map (\<lambda>s. if hit s then r else s) (db_order_states db) \<rparr>))"

lemma update_consistent:
  assumes "order_states.consistent (db_order_states db)" "update_order_state old r db = Some (n, db')"
  shows "order_states.consistent (db_order_states db')"
proof -
  let ?hit = "\<lambda>s. st_authorization_sha256 s = st_authorization_sha256 r \<and> st_state_sha256 s = old"
  let ?t = "db_order_states db"
  have "sorted_wrt (\<lambda>a b. \<not> order_state_conflict a b) (map (\<lambda>s. if ?hit s then r else s) ?t)"
    if nc: "\<forall>s\<in>set ?t. ?hit s \<or> st_state_sha256 s \<noteq> st_state_sha256 r"
  proof -
    have c: "sorted_wrt (\<lambda>a b. \<not> order_state_conflict a b) ?t" using assms(1) by (simp add: order_states.consistent_def)
    then show ?thesis
      unfolding sorted_wrt_map
      by (rule sorted_wrt_mono_rel [rotated]) (use nc in \<open>auto simp: order_state_conflict_def\<close>)
  qed
  then show ?thesis
    using assms by (auto simp: update_order_state_def Let_def order_states.consistent_def list_ex_iff split: if_splits)
qed

text \<open>
  A fill event refers to a recorded intent and to the current digest of an order; a portfolio
  row refers to a fill event.
\<close>

definition insert_fill_event :: "FillEventRow \<Rightarrow> ExecutionDatabase \<Rightarrow> ExecutionDatabase option" where
  "insert_fill_event r db =
     (if \<not> has_intent (fx_authorization_sha256 r) db
         \<or> \<not> list_ex (\<lambda>s. st_state_sha256 s = fx_order_state_sha256 r) (db_order_states db) then None
      else map_option (\<lambda>t. db\<lparr> db_fill_events := t \<rparr>) (insert_row fill_event_conflict r (db_fill_events db)))"

definition has_fill_event :: "string \<Rightarrow> ExecutionDatabase \<Rightarrow> bool" where
  "has_fill_event a db \<longleftrightarrow> list_ex (\<lambda>f. fx_fill_event_sha256 f = a) (db_fill_events db)"

definition insert_portfolio :: "PortfolioRow \<Rightarrow> ExecutionDatabase \<Rightarrow> ExecutionDatabase option" where
  "insert_portfolio r db =
     (if \<not> has_fill_event (px_last_fill_event_sha256 r) db then None
      else map_option (\<lambda>t. db\<lparr> db_portfolios := t \<rparr>) (insert_row portfolio_conflict r (db_portfolios db)))"

text \<open>
  \<^verbatim>\<open>UPDATE local_paper_portfolios ... WHERE symbol = ? AND projection_sha256 = ?\<close>.
\<close>

definition update_portfolio ::
    "string \<Rightarrow> PortfolioRow \<Rightarrow> ExecutionDatabase \<Rightarrow> (nat \<times> ExecutionDatabase) option" where
  "update_portfolio old r db =
     (let hit = (\<lambda>s. px_symbol s = px_symbol r \<and> px_projection_sha256 s = old) in
      if \<not> list_ex hit (db_portfolios db) then Some (0, db)
      else if list_ex (\<lambda>s. \<not> hit s \<and> px_projection_sha256 s = px_projection_sha256 r) (db_portfolios db) then None
      else if \<not> has_fill_event (px_last_fill_event_sha256 r) db then None
      else Some (length (filter hit (db_portfolios db)),
                 db\<lparr> db_portfolios := map (\<lambda>s. if hit s then r else s) (db_portfolios db) \<rparr>))"

end
