(* ===== verification/Execution_Journal.thy ===== *)
theory Execution_Journal
  imports Execution_Contracts Execution_Database
begin

text \<open>
  \<^verbatim>\<open>yatl/execution/journal.py\<close>: the canonical record of an accepted local paper intent and
  the journal that stores at most one of them per authorization.
\<close>

section \<open>Intent records\<close>

definition intent_material :: "LocalPaperIntentRecord \<Rightarrow> (string \<times> json) list" where
  "intent_material r =
     [(''schema_version'', JInt 1), (''authorization_sha256'', JStr (ir_authorization_sha256 r)),
      (''effect_sha256'', JStr (ir_effect_sha256 r)), (''decision_sha256'', JStr (ir_decision_sha256 r)),
      (''readiness_sha256'', JStr (ir_readiness_sha256 r)), (''action'', JStr (ir_action r)),
      (''approved_quantity'', JStr (ir_approved_quantity r)), (''policy_id'', JStr (ir_policy_id r))]"

definition intent_expected_sha256 :: "LocalPaperIntentRecord \<Rightarrow> string" where
  "intent_expected_sha256 r = py_digest (JObj (intent_material r))"

definition intent_as_record :: "LocalPaperIntentRecord \<Rightarrow> json" where
  "intent_as_record r = JObj (intent_material r @ [(''intent_sha256'', JStr (ir_intent_sha256 r))])"

definition LocalPaperIntentRecord_post_init :: "LocalPaperIntentRecord \<Rightarrow> unit result" where
  "LocalPaperIntentRecord_post_init r =
     (if \<not> list_all valid_digest [ir_authorization_sha256 r, ir_effect_sha256 r, ir_decision_sha256 r,
            ir_readiness_sha256 r, ir_intent_sha256 r]
      then Inl (ExecutionJournalError ''Stored intent digest is invalid'')
      else if ir_effect_sha256 r \<noteq> ir_authorization_sha256 r
      then Inl (ExecutionJournalError ''Local Paper effect identity differs from its authorization'')
      else if ir_action r \<notin> {''ENTER_LONG'', ''EXIT_LONG''} \<or> ir_approved_quantity r = []
              \<or> ir_policy_id r \<noteq> EXECUTION_POLICY_ID
      then Inl (ExecutionJournalError ''Stored intent fields are invalid'')
      else if ir_intent_sha256 r \<noteq> intent_expected_sha256 r
      then Inl (ExecutionJournalError ''Stored intent failed digest verification'')
      else Inr ())"

text \<open>
  \<open>the\<close> is applied to the quantity of an accepted decision, which the guard requires to be present.
\<close>

definition intent_from_decision :: "LocalPaperExecutionDecision \<Rightarrow> LocalPaperIntentRecord result" where
  "intent_from_decision decision =
     bind_r (catch_r (construct LocalPaperExecutionDecision_post_init decision) is_value_error
       (ExecutionJournalError ''Local Paper decision failed deterministic reconstruction'')) (\<lambda>reconstructed.
     if reconstructed \<noteq> decision \<or> decision_sha256 reconstructed \<noteq> decision_sha256 decision
        \<or> xd_disposition decision \<noteq> ACCEPT_LOCAL_PAPER \<or> xd_approved_quantity decision = None
     then Inl (ExecutionJournalError ''Only an accepted local Paper decision can enter the journal'')
     else
       let r = \<lparr> ir_authorization_sha256 = xd_authorization_sha256 decision,
                 ir_effect_sha256 = xd_authorization_sha256 decision,
                 ir_decision_sha256 = decision_sha256 decision,
                 ir_readiness_sha256 = readiness_sha256 (xd_readiness decision),
                 ir_action = IntentAction_value (xd_action decision),
                 ir_approved_quantity = the (xd_approved_quantity decision),
                 ir_policy_id = ep_policy_id (xd_policy decision), ir_intent_sha256 = [] \<rparr>
       in construct LocalPaperIntentRecord_post_init (r\<lparr> ir_intent_sha256 := intent_expected_sha256 r \<rparr>))"

section \<open>The journal\<close>

definition is_journal_error :: "py_error \<Rightarrow> bool" where
  "is_journal_error e \<longleftrightarrow> is_ExecutionJournalError e \<or> is_IntentConflict e"

definition row_to_record :: "LocalPaperIntentRecord option \<Rightarrow> LocalPaperIntentRecord option result" where
  "row_to_record row =
     (case row of
        None \<Rightarrow> Inr None
      | Some r \<Rightarrow> map_sum id Some
          (catch_r (construct LocalPaperIntentRecord_post_init r) (\<lambda>e. is_journal_error e \<or> is_value_error e)
             (ExecutionJournalError ''Stored intent violates the canonical contract'')))"

text \<open>
  The body of the transaction of \<^verbatim>\<open>record\<close>. Every error of the body is one of the classes
  the handlers name, all of which roll back.
\<close>

definition record_transaction ::
    "LocalPaperIntentRecord \<Rightarrow> (ExecutionDatabase, LocalPaperIntentRecord) action" where
  "record_transaction record db =
     act_bind (act_lift (row_to_record
         (select_row ir_authorization_sha256 (ir_authorization_sha256 record) (db_intents db)))) (\<lambda>existing db.
       case existing of
         None \<Rightarrow> (case insert_intent record db of
             None \<Rightarrow> act_raise (IntentConflict ''Intent identity conflicts with durable journal state'') db
           | Some db' \<Rightarrow> act_return record db')
       | Some e \<Rightarrow> if e = record then act_return e db
           else act_raise (IntentConflict ''Authorization identity conflicts with stored intent'') db) db"

definition journal_record ::
    "LocalPaperExecutionDecision \<Rightarrow> (ExecutionDatabase, LocalPaperIntentRecord) action" where
  "journal_record decision =
     act_bind (act_lift (intent_from_decision decision)) (\<lambda>record.
     with_rollback is_journal_error (record_transaction record))"

definition journal_get :: "string \<Rightarrow> ExecutionDatabase \<Rightarrow> LocalPaperIntentRecord option result" where
  "journal_get a db =
     (if \<not> valid_digest a then Inl (ExecutionJournalError ''Authorization digest is invalid'')
      else row_to_record (select_row ir_authorization_sha256 a (db_intents db)))"

definition journal_count :: "ExecutionDatabase \<Rightarrow> nat" where
  "journal_count db = length (db_intents db)"

definition journal_canonical_json :: "ExecutionDatabase \<Rightarrow> string result" where
  "journal_canonical_json db =
     bind_r (map_r (\<lambda>r. bind_r (row_to_record (Some r)) (\<lambda>x. Inr (intent_as_record (the x))))
       (sort_key ir_authorization_sha256 (db_intents db))) (\<lambda>records.
     Inr (json_dumps (JObj [(''schema_version'', JInt 1), (''intents'', JList records)]) @ [CHR 0x0A]))"

section \<open>Records are canonical\<close>

definition valid_intent :: "LocalPaperIntentRecord \<Rightarrow> bool" where
  "valid_intent r \<longleftrightarrow> LocalPaperIntentRecord_post_init r = Inr ()"

lemma intent_expected_sha256_upd [simp]: "intent_expected_sha256 (r\<lparr> ir_intent_sha256 := x \<rparr>) = intent_expected_sha256 r"
  by (simp add: intent_expected_sha256_def intent_material_def)

lemma row_to_record_Some:
  "row_to_record (Some r) = Inr x \<longleftrightarrow> valid_intent r \<and> x = Some r"
  by (cases "LocalPaperIntentRecord_post_init r")
    (auto simp: row_to_record_def valid_intent_def construct_def catch_r_def)

lemma row_to_record_simps [simp]:
  "row_to_record None = Inr None" "valid_intent r \<Longrightarrow> row_to_record (Some r) = Inr (Some r)"
  by (simp_all add: row_to_record_def valid_intent_def construct_def)

lemma row_to_record_Inl: "row_to_record row = Inl e \<Longrightarrow> is_journal_error e"
  by (auto simp: row_to_record_def catch_r_def construct_def LocalPaperIntentRecord_post_init_def is_journal_error_def
      split: option.splits if_splits)

lemma intent_from_decision_Inr:
  assumes "intent_from_decision d = Inr r"
  shows "valid_intent r" "ir_authorization_sha256 r = xd_authorization_sha256 d"
    "ir_decision_sha256 r = decision_sha256 d" "ir_readiness_sha256 r = readiness_sha256 (xd_readiness d)"
    "xd_disposition d = ACCEPT_LOCAL_PAPER" "ir_action r = IntentAction_value (xd_action d)"
    "xd_approved_quantity d = Some (ir_approved_quantity r)" "LocalPaperExecutionDecision_post_init d = Inr ()"
  using assms
  by (auto simp: intent_from_decision_def bind_r_eq_Inr construct_eq_Inr Let_def valid_intent_def split: if_splits)

text \<open>Every accepted valid decision has a record.\<close>

lemma intent_from_decision_total:
  assumes "valid_LocalPaperExecutionDecision d" "xd_disposition d = ACCEPT_LOCAL_PAPER"
  obtains r where "intent_from_decision d = Inr r"
proof -
  have p: "LocalPaperExecutionDecision_post_init d = Inr ()"
    using assms(1) by (simp add: valid_LocalPaperExecutionDecision_def)
  note A = accepted_decisionD [OF assms]
  obtain q where q: "xd_approved_quantity d = Some q" using A(4) by blast
  have "RiskDecision_post_init (az_decision (xd_authorization d)) = Inr ()"
    using assms(1) by (simp add: valid_LocalPaperExecutionDecision_def valid_RiskAuthorization_def)
  moreover have "rd_approved_quantity (az_decision (xd_authorization d)) = Some q" using A(3) q by simp
  ultimately have "plain_unsigned q"
    by (auto simp: RiskDecision_post_init_def risk_decimal_def bind_r_eq_Inr Let_def split: if_splits)
  then have "q \<noteq> []" by (auto simp: plain_unsigned_def)
  then show thesis
    using that p q A(5,6) assms(2)
    by (cases "xd_action d")
      (auto simp: intent_from_decision_def construct_def Let_def LocalPaperIntentRecord_post_init_def
        xd_authorization_sha256_def default_execution_policy_def intent_expected_sha256_def intent_material_def EXECUTION_POLICY_ID_def)
qed


section \<open>The journal is write-once\<close>

text \<open>
  The invariant of the intents table: the declared keys are unique, every row is a
  canonical record, and every row is the record of a decision that was once submitted.
\<close>

definition journal_inv :: "LocalPaperExecutionDecision set \<Rightarrow> ExecutionDatabase \<Rightarrow> bool" where
  "journal_inv ds db \<longleftrightarrow> intents.consistent (db_intents db) \<and> list_all valid_intent (db_intents db)
     \<and> (\<forall>r\<in>set (db_intents db). \<exists>d\<in>ds. intent_from_decision d = Inr r)"

lemma journal_record_cases:
  assumes "journal_record d db = (db', res)" "list_all valid_intent (db_intents db)"
  obtains (failed) e where "res = Inl e" "db' = db"
  | (known) r where "intent_from_decision d = Inr r" "res = Inr r" "db' = db"
      "select_row ir_authorization_sha256 (ir_authorization_sha256 r) (db_intents db) = Some r"
  | (stored) r where "intent_from_decision d = Inr r" "res = Inr r" "insert_intent r db = Some db'"
proof (cases "intent_from_decision d")
  case (Inl e)
  then have "res = Inl e" "db' = db" using assms(1) by (auto simp: journal_record_def)
  then show thesis by (rule failed)
next
  case (Inr r)
  have run: "with_rollback is_journal_error (record_transaction r) db = (db', res)"
    using assms(1) Inr by (simp add: journal_record_def)
  show thesis
  proof (cases "select_row ir_authorization_sha256 (ir_authorization_sha256 r) (db_intents db)")
    case None
    then show thesis
      using run Inr failed stored
      by (auto simp: record_transaction_def with_rollback_def is_journal_error_def split: option.splits)
  next
    case (Some x)
    then have "valid_intent x" using assms(2) select_row_Some by (fastforce simp: list_all_iff)
    then show thesis
      using run Inr Some failed known
      by (auto simp: record_transaction_def with_rollback_def is_journal_error_def split: if_splits)
  qed
qed

lemma insert_intent_Some:
  "insert_intent r db = Some db' \<longleftrightarrow>
     (\<exists>t. insert_row intent_conflict r (db_intents db) = Some t \<and> db' = db\<lparr> db_intents := t \<rparr>)"
  by (auto simp: insert_intent_def)

lemma journal_record_inv:
  assumes "journal_inv ds db" "journal_record d db = (db', res)"
  shows "journal_inv (insert d ds) db'"
proof -
  have v: "list_all valid_intent (db_intents db)" using assms(1) by (simp add: journal_inv_def)
  show ?thesis
    using assms(2) v
  proof (cases rule: journal_record_cases)
    case (stored r)
    then obtain t where t: "insert_row intent_conflict r (db_intents db) = Some t" and db': "db' = db\<lparr> db_intents := t \<rparr>"
      by (auto simp: insert_intent_Some)
    have s: "set t = insert r (set (db_intents db))" using t by (auto simp: insert_row_def split: if_splits)
    show ?thesis
      using assms(1) intents.insert_consistent [OF _ t] intent_from_decision_Inr(1) [OF stored(1)] stored(1)
      by (auto simp: journal_inv_def db' s list_all_iff)
  qed (use assms(1) in \<open>auto simp: journal_inv_def\<close>)
qed

interpretation journal: atomic_object journal_record "\<lambda>_. True" "\<lambda>db. \<exists>ds. journal_inv ds db"
proof unfold_locales
  fix d s t e
  assume "\<exists>ds. journal_inv ds s" "journal_record d s = (t, Inl e)"
  moreover from this have "list_all valid_intent (db_intents s)" by (auto simp: journal_inv_def)
  ultimately show "t = s" by (auto elim: journal_record_cases)
next
  fix d s t x
  assume "\<exists>ds. journal_inv ds s" "journal_record d s = (t, Inr x)"
  then show "\<exists>ds. journal_inv ds t" using journal_record_inv by blast
qed

lemma journal_drive_inv: "journal_inv ds db \<Longrightarrow> journal_inv (ds \<union> set xs) (journal.drive xs db)"
  unfolding journal.drive_def
proof (induction xs arbitrary: ds db)
  case (Cons x xs)
  have "journal_inv (insert x ds) (fst (journal_record x db))"
    using journal_record_inv [OF Cons.prems] by (metis prod.collapse)
  from Cons.IH [OF this] show ?case by (simp add: Un_insert_left)
qed simp

lemma journal_empty: "journal_inv {} empty_database"
  by (simp add: journal_inv_def empty_database_def)

lemma journal_keeps:
  assumes "journal_inv ds db" "select_row ir_authorization_sha256 a (db_intents db) = Some r"
  shows "select_row ir_authorization_sha256 a (db_intents (fst (journal_record d db))) = Some r"
proof -
  obtain db' res where run: "journal_record d db = (db', res)" by fastforce
  have v: "list_all valid_intent (db_intents db)" using assms(1) by (simp add: journal_inv_def)
  from run v show ?thesis
  proof (cases rule: journal_record_cases)
    case (stored x)
    then obtain t where t: "insert_row intent_conflict x (db_intents db) = Some t" "db' = db\<lparr> db_intents := t \<rparr>"
      by (auto simp: insert_intent_Some)
    then show ?thesis
      using intents.insert_select [OF t(1), of a] intents.insert_absent [OF t(1)] assms(2) run by auto
  qed (use assms(2) run in auto)
qed

lemma journal_drive_keeps:
  "journal_inv ds db \<Longrightarrow> select_row ir_authorization_sha256 a (db_intents db) = Some r \<Longrightarrow>
     select_row ir_authorization_sha256 a (db_intents (journal.drive xs db)) = Some r"
  unfolding journal.drive_def
proof (induction xs arbitrary: ds db)
  case (Cons x xs)
  have "journal_inv (insert x ds) (fst (journal_record x db))"
    using journal_record_inv [OF Cons.prems(1)] by (metis prod.collapse)
  from Cons.IH [OF this journal_keeps [OF Cons.prems]] show ?case by simp
qed simp

lemma journal_record_select:
  assumes "journal_inv ds db" "journal_record d db = (db', Inr r)"
  shows "intent_from_decision d = Inr r"
    "select_row ir_authorization_sha256 (ir_authorization_sha256 r) (db_intents db') = Some r"
proof -
  have v: "list_all valid_intent (db_intents db)" using assms(1) by (simp add: journal_inv_def)
  from assms(2) v have "intent_from_decision d = Inr r
    \<and> select_row ir_authorization_sha256 (ir_authorization_sha256 r) (db_intents db') = Some r"
  proof (cases rule: journal_record_cases)
    case (stored x)
    then show ?thesis using intents.insert_select by (auto simp: insert_intent_Some)
  qed auto
  then show "intent_from_decision d = Inr r"
    "select_row ir_authorization_sha256 (ir_authorization_sha256 r) (db_intents db') = Some r"
    by simp_all
qed

lemma journal_record_again:
  assumes "intent_from_decision d = Inr r"
    and "select_row ir_authorization_sha256 (ir_authorization_sha256 r) (db_intents db) = Some r"
  shows "journal_record d db = (db, Inr r)"
  using assms intent_from_decision_Inr(1) [OF assms(1)]
  by (simp add: journal_record_def record_transaction_def with_rollback_def)

section \<open>Properties\<close>

text \<open>C12. The journal is idempotent and write-once: from the empty database, after any history of
submissions, when recording a decision returns a record, then after any further submissions the journal
still returns exactly this record for its authorization, recording the decision again returns it and
changes nothing, and a decision with the same authorization and another record is refused without a
change; and every stored row is a canonical record of an accepted decision that was submitted.\<close>

theorem journal_write_once:
  assumes "journal_record d (foldl (\<lambda>db x. fst (journal_record x db)) empty_database xs) = (db, Inr r)"
  shows "let db' = foldl (\<lambda>db x. fst (journal_record x db)) db ys in
    journal_get (xd_authorization_sha256 d) db' = Inr (Some r)
    \<and> journal_record d db' = (db', Inr r)
    \<and> (\<forall>d' r'. intent_from_decision d' = Inr r' \<and> ir_authorization_sha256 r' = ir_authorization_sha256 r \<and> r' \<noteq> r
         \<longrightarrow> journal_record d' db' = (db', Inl (IntentConflict ''Authorization identity conflicts with stored intent'')))
    \<and> distinct (map ir_authorization_sha256 (db_intents db'))
    \<and> (\<forall>x\<in>set (db_intents db'). \<exists>e\<in>set xs \<union> {d} \<union> set ys.
         intent_from_decision e = Inr x \<and> xd_disposition e = ACCEPT_LOCAL_PAPER)"
proof -
  define db0 where "db0 = foldl (\<lambda>db x. fst (journal_record x db)) empty_database xs"
  define db' where "db' = foldl (\<lambda>db x. fst (journal_record x db)) db ys"
  have i0: "journal_inv (set xs) db0"
    using journal_drive_inv [OF journal_empty, of xs] by (simp add: db0_def journal.drive_def)
  have i1: "journal_inv (insert d (set xs)) db"
    using journal_record_inv [OF i0] assms by (auto simp: db0_def)
  have i2: "journal_inv (insert d (set xs) \<union> set ys) db'"
    using journal_drive_inv [OF i1, of ys] by (simp add: db'_def journal.drive_def)
  note R = journal_record_select [OF i0 assms [folded db0_def]]
  have sel: "select_row ir_authorization_sha256 (ir_authorization_sha256 r) (db_intents db') = Some r"
    using journal_drive_keeps [OF i1 R(2), of ys] by (simp add: db'_def journal.drive_def)
  note F = intent_from_decision_Inr [OF R(1)]
  have "journal_record d' db' = (db', Inl (IntentConflict ''Authorization identity conflicts with stored intent''))"
    if "intent_from_decision d' = Inr r'" "ir_authorization_sha256 r' = ir_authorization_sha256 r" "r' \<noteq> r" for d' r'
    using that sel F(1)
    by (simp add: journal_record_def record_transaction_def with_rollback_def is_journal_error_def)
  moreover have "journal_get (xd_authorization_sha256 d) db' = Inr (Some r)"
    using F(1,2) sel by (simp add: journal_get_def xd_authorization_sha256_def)
  moreover have "\<exists>e\<in>set xs \<union> {d} \<union> set ys. intent_from_decision e = Inr x \<and> xd_disposition e = ACCEPT_LOCAL_PAPER"
    if "x \<in> set (db_intents db')" for x
    using that i2 intent_from_decision_Inr(5) by (fastforce simp: journal_inv_def)
  moreover have "distinct (map ir_authorization_sha256 (db_intents db'))"
    using intents.consistent_keys i2 by (simp add: journal_inv_def)
  ultimately show ?thesis
    unfolding Let_def db'_def [symmetric] using journal_record_again [OF R(1) sel] by blast
qed

definition example_execution :: LocalPaperExecutionDecision where
  "example_execution = \<lparr> xd_authorization = example_authorization, xd_readiness = example_ready,
     xd_disposition = ACCEPT_LOCAL_PAPER, xd_reason = LOCAL_PAPER_AUTHORIZED, xd_action = ENTER_LONG,
     xd_approved_quantity = Some ''20'', xd_policy = default_execution_policy \<rparr>"

lemma example_execution_valid: "valid_LocalPaperExecutionDecision example_execution"
proof -
  have "expected_execution example_authorization example_ready =
      Inr (ACCEPT_LOCAL_PAPER, LOCAL_PAPER_AUTHORIZED, ENTER_LONG, Some ''20'')"
    by (simp add: expected_execution_def example_authorization_def example_risk_decision_def example_ready_def
        example_request_def example_decision_def)
  then show ?thesis
    using example_authorization_valid example_ready_valid
    by (simp add: valid_LocalPaperExecutionDecision_def execution_decision_iff example_execution_def
        valid_RiskAuthorization_def)
qed

lemma example_recorded:
  obtains db r where "journal_record example_execution empty_database = (db, Inr r)"
    "insert_intent r empty_database = Some db" "intent_from_decision example_execution = Inr r"
proof -
  obtain r where r: "intent_from_decision example_execution = Inr r"
    by (rule intent_from_decision_total [OF example_execution_valid]) (simp add: example_execution_def)
  then show thesis
    using that
    by (auto simp: journal_record_def record_transaction_def with_rollback_def empty_database_def select_row_def
        insert_intent_def insert_row_def)
qed

theorem journal_write_once_witness:
  "\<exists>r. journal_get (xd_authorization_sha256 example_execution)
      (fst (journal_record example_execution (fst (journal_record example_execution empty_database)))) = Inr (Some r)"
proof -
  obtain db r where r: "journal_record example_execution empty_database = (db, Inr r)" by (rule example_recorded)
  show ?thesis
    using journal_write_once [of example_execution "[]" db r "[example_execution]"] r by (auto simp: Let_def)
qed

end
