(* ===== verification/Execution_Orders.thy ===== *)
theory Execution_Orders
  imports Execution_Journal
begin

text \<open>
  \<^verbatim>\<open>yatl/execution/state.py\<close>: the lifecycle of a local paper order as a hash-chained event
  log, its current projection, and the store that keeps both in one transaction.
\<close>

section \<open>Events and states\<close>

datatype LocalOrderEventType = CREATE | ACTIVATE | CANCEL

fun LocalOrderEventType_value :: "LocalOrderEventType \<Rightarrow> string" where
  "LocalOrderEventType_value CREATE = ''CREATE''"
| "LocalOrderEventType_value ACTIVATE = ''ACTIVATE''"
| "LocalOrderEventType_value CANCEL = ''CANCEL''"

datatype LocalOrderStatus = PENDING_LOCAL | ACTIVE_LOCAL | CANCELLED_LOCAL

fun LocalOrderStatus_value :: "LocalOrderStatus \<Rightarrow> string" where
  "LocalOrderStatus_value PENDING_LOCAL = ''PENDING_LOCAL''"
| "LocalOrderStatus_value ACTIVE_LOCAL = ''ACTIVE_LOCAL''"
| "LocalOrderStatus_value CANCELLED_LOCAL = ''CANCELLED_LOCAL''"

datatype LocalOrderReason =
  ACCEPTED_INTENT_RECORDED | LOCAL_ACTIVATION_CONFIRMED | LOCAL_CANCELLATION_CONFIRMED

fun LocalOrderReason_value :: "LocalOrderReason \<Rightarrow> string" where
  "LocalOrderReason_value ACCEPTED_INTENT_RECORDED = ''ACCEPTED_INTENT_RECORDED''"
| "LocalOrderReason_value LOCAL_ACTIVATION_CONFIRMED = ''LOCAL_ACTIVATION_CONFIRMED''"
| "LocalOrderReason_value LOCAL_CANCELLATION_CONFIRMED = ''LOCAL_CANCELLATION_CONFIRMED''"

fun EVENT_REASONS :: "LocalOrderEventType \<Rightarrow> LocalOrderReason" where
  "EVENT_REASONS CREATE = ACCEPTED_INTENT_RECORDED"
| "EVENT_REASONS ACTIVATE = LOCAL_ACTIVATION_CONFIRMED"
| "EVENT_REASONS CANCEL = LOCAL_CANCELLATION_CONFIRMED"

fun EVENT_STATUSES :: "LocalOrderEventType \<Rightarrow> LocalOrderStatus" where
  "EVENT_STATUSES CREATE = PENDING_LOCAL"
| "EVENT_STATUSES ACTIVATE = ACTIVE_LOCAL"
| "EVENT_STATUSES CANCEL = CANCELLED_LOCAL"

fun STATE_REASONS :: "LocalOrderStatus \<Rightarrow> LocalOrderReason" where
  "STATE_REASONS PENDING_LOCAL = ACCEPTED_INTENT_RECORDED"
| "STATE_REASONS ACTIVE_LOCAL = LOCAL_ACTIVATION_CONFIRMED"
| "STATE_REASONS CANCELLED_LOCAL = LOCAL_CANCELLATION_CONFIRMED"

text \<open>\<^verbatim>\<open>Enum(text)\<close>: the member with that value, or a \<^verbatim>\<open>ValueError\<close>.\<close>

definition LocalOrderEventType_of :: "string \<Rightarrow> LocalOrderEventType option" where
  "LocalOrderEventType_of s = find (\<lambda>t. LocalOrderEventType_value t = s) [CREATE, ACTIVATE, CANCEL]"

definition LocalOrderStatus_of :: "string \<Rightarrow> LocalOrderStatus option" where
  "LocalOrderStatus_of s =
     find (\<lambda>t. LocalOrderStatus_value t = s) [PENDING_LOCAL, ACTIVE_LOCAL, CANCELLED_LOCAL]"

definition LocalOrderReason_of :: "string \<Rightarrow> LocalOrderReason option" where
  "LocalOrderReason_of s = find (\<lambda>t. LocalOrderReason_value t = s)
     [ACCEPTED_INTENT_RECORDED, LOCAL_ACTIVATION_CONFIRMED, LOCAL_CANCELLATION_CONFIRMED]"

record LocalPaperOrderEvent =
  oe_authorization_sha256 :: string
  oe_intent_sha256 :: string
  oe_sequence :: int
  oe_event_time_ms :: int
  oe_event_type :: LocalOrderEventType
  oe_reason :: LocalOrderReason
  oe_previous_event_sha256 :: "string option"

definition LocalPaperOrderEvent_post_init :: "LocalPaperOrderEvent \<Rightarrow> unit result" where
  "LocalPaperOrderEvent_post_init e =
     (if \<not> valid_digest (oe_authorization_sha256 e) \<or> \<not> valid_digest (oe_intent_sha256 e)
      then Inl (LocalOrderError ''Local order identity digest is invalid'')
      else if \<not> (0 \<le> oe_sequence e \<and> oe_sequence e \<le> 1000000000)
      then Inl (LocalOrderError ''Local order event sequence is invalid'')
      else if oe_event_time_ms e < 0 then Inl (LocalOrderError ''Local order event time is invalid'')
      else if oe_reason e \<noteq> EVENT_REASONS (oe_event_type e)
      then Inl (LocalOrderError ''Local order event type and reason disagree'')
      else if oe_sequence e = 0
      then (if oe_previous_event_sha256 e \<noteq> None
            then Inl (LocalOrderError ''Initial local order event has a predecessor'') else Inr ())
      else (case oe_previous_event_sha256 e of
              None \<Rightarrow> Inl (LocalOrderError ''Local order event is missing predecessor evidence'')
            | Some d \<Rightarrow> if \<not> valid_digest d
                then Inl (LocalOrderError ''Local order event is missing predecessor evidence'') else Inr ()))"

definition order_event_material :: "LocalPaperOrderEvent \<Rightarrow> (string \<times> json) list" where
  "order_event_material e =
     [(''schema_version'', JInt 1), (''authorization_sha256'', JStr (oe_authorization_sha256 e)),
      (''intent_sha256'', JStr (oe_intent_sha256 e)), (''sequence'', JInt (oe_sequence e)),
      (''event_time_ms'', JInt (oe_event_time_ms e)),
      (''event_type'', JStr (LocalOrderEventType_value (oe_event_type e))),
      (''reason'', JStr (LocalOrderReason_value (oe_reason e))),
      (''previous_event_sha256'', j_opt JStr (oe_previous_event_sha256 e))]"

definition oe_event_sha256 :: "LocalPaperOrderEvent \<Rightarrow> string" where
  "oe_event_sha256 e = py_digest (JObj (order_event_material e))"

definition order_event_as_record :: "LocalPaperOrderEvent \<Rightarrow> json" where
  "order_event_as_record e = JObj (order_event_material e @ [(''event_sha256'', JStr (oe_event_sha256 e))])"

record LocalPaperOrderState =
  os_authorization_sha256 :: string
  os_intent_sha256 :: string
  os_sequence :: int
  os_updated_time_ms :: int
  os_status :: LocalOrderStatus
  os_reason :: LocalOrderReason
  os_previous_state_sha256 :: "string option"
  os_event_sha256 :: string

definition LocalPaperOrderState_post_init :: "LocalPaperOrderState \<Rightarrow> unit result" where
  "LocalPaperOrderState_post_init s =
     (if \<not> valid_digest (os_authorization_sha256 s) \<or> \<not> valid_digest (os_intent_sha256 s)
      then Inl (LocalOrderError ''Local order state identity digest is invalid'')
      else if \<not> (0 \<le> os_sequence s \<and> os_sequence s \<le> 1000000000)
      then Inl (LocalOrderError ''Local order state sequence is invalid'')
      else if os_updated_time_ms s < 0 then Inl (LocalOrderError ''Local order state time is invalid'')
      else if os_reason s \<noteq> STATE_REASONS (os_status s)
      then Inl (LocalOrderError ''Local order status and reason disagree'')
      else bind_r
        (if os_sequence s = 0
         then require (os_previous_state_sha256 s = None)
                (LocalOrderError ''Initial local order state has a predecessor'')
         else require (case os_previous_state_sha256 s of None \<Rightarrow> False | Some d \<Rightarrow> valid_digest d)
                (LocalOrderError ''Local order state is missing predecessor evidence''))
        (\<lambda>_. require (valid_digest (os_event_sha256 s))
                (LocalOrderError ''Local order state event digest is invalid'')))"

definition order_state_material :: "LocalPaperOrderState \<Rightarrow> (string \<times> json) list" where
  "order_state_material s =
     [(''schema_version'', JInt 1), (''authorization_sha256'', JStr (os_authorization_sha256 s)),
      (''intent_sha256'', JStr (os_intent_sha256 s)), (''sequence'', JInt (os_sequence s)),
      (''updated_time_ms'', JInt (os_updated_time_ms s)),
      (''status'', JStr (LocalOrderStatus_value (os_status s))),
      (''reason'', JStr (LocalOrderReason_value (os_reason s))),
      (''previous_state_sha256'', j_opt JStr (os_previous_state_sha256 s)),
      (''event_sha256'', JStr (os_event_sha256 s))]"

definition os_state_sha256 :: "LocalPaperOrderState \<Rightarrow> string" where
  "os_state_sha256 s = py_digest (JObj (order_state_material s))"

definition order_state_as_record :: "LocalPaperOrderState \<Rightarrow> json" where
  "order_state_as_record s = JObj (order_state_material s @ [(''state_sha256'', JStr (os_state_sha256 s))])"

section \<open>Transitions\<close>

definition is_order_error :: "py_error \<Rightarrow> bool" where
  "is_order_error e \<longleftrightarrow> is_LocalOrderError e \<or> is_LocalOrderTransitionError e"

definition validate_order_intent :: "LocalPaperIntentRecord \<Rightarrow> unit result" where
  "validate_order_intent intent =
     bind_r (catch_r (construct LocalPaperIntentRecord_post_init intent) (\<lambda>e. is_journal_error e \<or> is_value_error e)
       (LocalOrderError ''Local Paper intent failed reconstruction'')) (\<lambda>reconstructed.
     require (reconstructed = intent) (LocalOrderError ''Local Paper intent identity changed''))"

fun order_allowed :: "LocalOrderStatus \<Rightarrow> LocalOrderEventType \<Rightarrow> bool" where
  "order_allowed PENDING_LOCAL ACTIVATE = True"
| "order_allowed ACTIVE_LOCAL CANCEL = True"
| "order_allowed _ _ = False"

definition order_predecessor ::
    "LocalPaperIntentRecord \<Rightarrow> LocalPaperOrderState option \<Rightarrow> LocalPaperOrderEvent \<Rightarrow> string option result" where
  "order_predecessor intent previous_opt event =
     (case previous_opt of
        None \<Rightarrow>
          if oe_sequence event \<noteq> 0 \<or> oe_event_type event \<noteq> CREATE
          then Inl (LocalOrderTransitionError ''Local order lifecycle must begin with sequence-zero CREATE'')
          else Inr None
      | Some previous \<Rightarrow>
          bind_r (catch_r (construct LocalPaperOrderState_post_init previous) (\<lambda>e. is_order_error e \<or> is_value_error e)
            (LocalOrderTransitionError ''Previous local order state failed reconstruction'')) (\<lambda>reconstructed.
          if reconstructed \<noteq> previous then Inl (LocalOrderTransitionError ''Previous local order state changed'')
          else if os_authorization_sha256 previous \<noteq> ir_authorization_sha256 intent
                  \<or> os_intent_sha256 previous \<noteq> ir_intent_sha256 intent
          then Inl (LocalOrderTransitionError ''Local order state and intent disagree'')
          else if oe_sequence event \<noteq> os_sequence previous + 1
          then Inl (LocalOrderTransitionError ''Local order event sequence is duplicate, skipped or out of order'')
          else if oe_event_time_ms event \<le> os_updated_time_ms previous
          then Inl (LocalOrderTransitionError ''Local order event time is stale'')
          else if oe_previous_event_sha256 event \<noteq> Some (os_event_sha256 previous)
          then Inl (LocalOrderTransitionError ''Local order event chain is broken'')
          else if \<not> order_allowed (os_status previous) (oe_event_type event)
          then Inl (LocalOrderTransitionError ''Local order transition is impossible'')
          else Inr (Some (os_state_sha256 previous))))"

definition order_next ::
    "LocalPaperIntentRecord \<Rightarrow> LocalPaperOrderState option \<Rightarrow> LocalPaperOrderEvent \<Rightarrow> LocalPaperOrderState result" where
  "order_next intent previous event =
     bind_r (validate_order_intent intent) (\<lambda>_.
     if oe_authorization_sha256 event \<noteq> ir_authorization_sha256 intent
        \<or> oe_intent_sha256 event \<noteq> ir_intent_sha256 intent
     then Inl (LocalOrderTransitionError ''Local order event and intent disagree'')
     else bind_r (order_predecessor intent previous event) (\<lambda>previous_state_sha256.
       construct LocalPaperOrderState_post_init
         \<lparr> os_authorization_sha256 = oe_authorization_sha256 event, os_intent_sha256 = oe_intent_sha256 event,
           os_sequence = oe_sequence event, os_updated_time_ms = oe_event_time_ms event,
           os_status = EVENT_STATUSES (oe_event_type event), os_reason = oe_reason event,
           os_previous_state_sha256 = previous_state_sha256, os_event_sha256 = oe_event_sha256 event \<rparr>))"

record LocalPaperOrderTransition =
  ot_intent :: LocalPaperIntentRecord
  ot_previous :: "LocalPaperOrderState option"
  ot_event :: LocalPaperOrderEvent
  ot_current :: LocalPaperOrderState

definition LocalPaperOrderTransition_post_init :: "LocalPaperOrderTransition \<Rightarrow> unit result" where
  "LocalPaperOrderTransition_post_init t =
     bind_r (order_next (ot_intent t) (ot_previous t) (ot_event t)) (\<lambda>expected.
     require (ot_current t = expected)
       (LocalOrderTransitionError ''Current local order state does not match transition''))"

definition apply_local_order_event ::
    "LocalPaperIntentRecord \<Rightarrow> LocalPaperOrderState option \<Rightarrow> LocalPaperOrderEvent \<Rightarrow>
       LocalPaperOrderTransition result" where
  "apply_local_order_event intent previous event =
     bind_r (order_next intent previous event) (\<lambda>current.
     construct LocalPaperOrderTransition_post_init
       \<lparr> ot_intent = intent, ot_previous = previous, ot_event = event, ot_current = current \<rparr>)"

definition build_local_order_event ::
    "LocalPaperIntentRecord \<Rightarrow> int \<Rightarrow> int \<Rightarrow> LocalOrderEventType \<Rightarrow> LocalPaperOrderState option \<Rightarrow>
       LocalPaperOrderEvent result" where
  "build_local_order_event intent sequence event_time_ms event_type previous =
     bind_r (validate_order_intent intent) (\<lambda>_.
     construct LocalPaperOrderEvent_post_init
       \<lparr> oe_authorization_sha256 = ir_authorization_sha256 intent, oe_intent_sha256 = ir_intent_sha256 intent,
         oe_sequence = sequence, oe_event_time_ms = event_time_ms, oe_event_type = event_type,
         oe_reason = EVENT_REASONS event_type,
         oe_previous_event_sha256 = map_option os_event_sha256 previous \<rparr>)"

section \<open>The store\<close>

definition order_get_intent :: "string \<Rightarrow> ExecutionDatabase \<Rightarrow> LocalPaperIntentRecord result" where
  "order_get_intent a db =
     (case select_row ir_authorization_sha256 a (db_intents db) of
        None \<Rightarrow> Inl (LocalOrderTransitionError ''Local order event has no recorded accepted intent'')
      | Some r \<Rightarrow> catch_r (construct LocalPaperIntentRecord_post_init r) (\<lambda>e. is_journal_error e \<or> is_value_error e)
          (LocalOrderError ''Stored intent failed local order validation''))"

definition event_from_row :: "OrderEventRow \<Rightarrow> LocalPaperOrderEvent result" where
  "event_from_row row =
     bind_r (case (LocalOrderEventType_of (ev_event_type row), LocalOrderReason_of (ev_reason row)) of
         (Some t, Some y) \<Rightarrow> catch_r (construct LocalPaperOrderEvent_post_init
             \<lparr> oe_authorization_sha256 = ev_authorization_sha256 row, oe_intent_sha256 = ev_intent_sha256 row,
               oe_sequence = ev_sequence row, oe_event_time_ms = ev_event_time_ms row, oe_event_type = t,
               oe_reason = y, oe_previous_event_sha256 = ev_previous_event_sha256 row \<rparr>)
             (\<lambda>e. is_order_error e \<or> is_value_error e) (LocalOrderError ''Stored local order event is invalid'')
       | _ \<Rightarrow> Inl (LocalOrderError ''Stored local order event is invalid'')) (\<lambda>event.
     if oe_event_sha256 event \<noteq> ev_event_sha256 row
     then Inl (LocalOrderError ''Stored local order event digest changed'') else Inr event)"

definition state_from_row :: "OrderStateRow \<Rightarrow> LocalPaperOrderState result" where
  "state_from_row row =
     bind_r (case (LocalOrderStatus_of (st_status row), LocalOrderReason_of (st_reason row)) of
         (Some t, Some y) \<Rightarrow> catch_r (construct LocalPaperOrderState_post_init
             \<lparr> os_authorization_sha256 = st_authorization_sha256 row, os_intent_sha256 = st_intent_sha256 row,
               os_sequence = st_sequence row, os_updated_time_ms = st_updated_time_ms row, os_status = t,
               os_reason = y, os_previous_state_sha256 = st_previous_state_sha256 row,
               os_event_sha256 = st_event_sha256 row \<rparr>)
             (\<lambda>e. is_order_error e \<or> is_value_error e) (LocalOrderError ''Stored local order state is invalid'')
       | _ \<Rightarrow> Inl (LocalOrderError ''Stored local order state is invalid'')) (\<lambda>state.
     if os_state_sha256 state \<noteq> st_state_sha256 row
     then Inl (LocalOrderError ''Stored local order state digest changed'') else Inr state)"

definition optional_state :: "OrderStateRow option \<Rightarrow> LocalPaperOrderState option result" where
  "optional_state row = (case row of None \<Rightarrow> Inr None | Some r \<Rightarrow> bind_r (state_from_row r) (\<lambda>s. Inr (Some s)))"

definition event_row :: "LocalPaperOrderEvent \<Rightarrow> OrderEventRow" where
  "event_row e = \<lparr> ev_authorization_sha256 = oe_authorization_sha256 e, ev_intent_sha256 = oe_intent_sha256 e,
     ev_sequence = oe_sequence e, ev_event_time_ms = oe_event_time_ms e,
     ev_event_type = LocalOrderEventType_value (oe_event_type e), ev_reason = LocalOrderReason_value (oe_reason e),
     ev_previous_event_sha256 = oe_previous_event_sha256 e, ev_event_sha256 = oe_event_sha256 e \<rparr>"

definition state_row :: "LocalPaperOrderState \<Rightarrow> OrderStateRow" where
  "state_row s = \<lparr> st_authorization_sha256 = os_authorization_sha256 s, st_intent_sha256 = os_intent_sha256 s,
     st_sequence = os_sequence s, st_updated_time_ms = os_updated_time_ms s,
     st_status = LocalOrderStatus_value (os_status s), st_reason = LocalOrderReason_value (os_reason s),
     st_previous_state_sha256 = os_previous_state_sha256 s, st_event_sha256 = os_event_sha256 s,
     st_state_sha256 = os_state_sha256 s \<rparr>"

definition integrity_error :: py_error where
  "integrity_error = LocalOrderTransitionError ''Local order event is duplicate or conflicts with durable state''"

text \<open>
  A number that the driver cannot bind is an \<^verbatim>\<open>OverflowError\<close>, which no handler of \<^verbatim>\<open>apply\<close>
  names; nothing has been written then. The sequence of a constructed event is at most 10^9, so only its
  time can be too large. The transaction stays open on the connection, and the next call of
  \<^verbatim>\<open>apply\<close> is refused once, with a rollback; that refusal is not modelled.
\<close>

definition insert_event :: "LocalPaperOrderEvent \<Rightarrow> (ExecutionDatabase, unit) action" where
  "insert_event event db =
     (if \<not> sqlite_integer (oe_sequence event) \<or> \<not> sqlite_integer (oe_event_time_ms event)
      then act_raise (OverflowError ''Python int too large to convert to SQLite INTEGER'') db
      else case insert_order_event (event_row event) db of
        None \<Rightarrow> act_raise integrity_error db | Some db' \<Rightarrow> act_return () db')"

definition write_state ::
    "LocalPaperOrderState option \<Rightarrow> LocalPaperOrderState \<Rightarrow> (ExecutionDatabase, unit) action" where
  "write_state previous current db =
     (case previous of
        None \<Rightarrow> (case insert_order_state (state_row current) db of
            None \<Rightarrow> act_raise integrity_error db | Some db' \<Rightarrow> act_return () db')
      | Some p \<Rightarrow> (case update_order_state (os_state_sha256 p) (state_row current) db of
            None \<Rightarrow> act_raise integrity_error db
          | Some (n, db') \<Rightarrow>
              if n \<noteq> 1 then act_raise (LocalOrderTransitionError ''Local order state changed concurrently'') db'
              else act_return () db'))"

definition order_transaction ::
    "LocalPaperOrderEvent \<Rightarrow> (ExecutionDatabase, LocalPaperOrderTransition) action" where
  "order_transaction event db =
     act_bind (act_lift (order_get_intent (oe_authorization_sha256 event) db)) (\<lambda>intent.
     act_bind (act_lift (optional_state
       (select_row st_authorization_sha256 (oe_authorization_sha256 event) (db_order_states db)))) (\<lambda>previous.
     act_bind (act_lift (apply_local_order_event intent previous event)) (\<lambda>transition.
     act_bind (insert_event event) (\<lambda>_.
     act_bind (write_state previous (ot_current transition)) (\<lambda>_.
     act_return transition))))) db"

definition order_apply :: "LocalPaperOrderEvent \<Rightarrow> (ExecutionDatabase, LocalPaperOrderTransition) action" where
  "order_apply event = with_rollback is_order_error (order_transaction event)"

fun order_replay ::
    "LocalPaperIntentRecord \<Rightarrow> LocalPaperOrderState option \<Rightarrow> OrderEventRow list \<Rightarrow>
       (LocalPaperOrderEvent list \<times> LocalPaperOrderState option) result" where
  "order_replay intent previous [] = Inr ([], previous)"
| "order_replay intent previous (row # rows) =
     bind_r (event_from_row row) (\<lambda>event.
     bind_r (apply_local_order_event intent previous event) (\<lambda>transition.
     bind_r (order_replay intent (Some (ot_current transition)) rows) (\<lambda>(events, state).
     Inr (event # events, state))))"

definition load_order ::
    "string \<Rightarrow> ExecutionDatabase \<Rightarrow> (LocalPaperOrderEvent list \<times> LocalPaperOrderState option) result" where
  "load_order a db =
     bind_r (order_get_intent a db) (\<lambda>intent.
     bind_r (order_replay intent None
       (sort_key ev_sequence (filter (\<lambda>r. ev_authorization_sha256 r = a) (db_order_events db)))) (\<lambda>(events, previous).
     bind_r (optional_state (select_row st_authorization_sha256 a (db_order_states db))) (\<lambda>stored.
     if previous \<noteq> stored then Inl (LocalOrderError ''Stored local order projection differs from replay'')
     else Inr (events, stored))))"

definition order_get_state :: "string \<Rightarrow> ExecutionDatabase \<Rightarrow> LocalPaperOrderState option result" where
  "order_get_state a db =
     (if \<not> valid_digest a then Inl (LocalOrderError ''Authorization digest is invalid'')
      else bind_r (load_order a db) (\<lambda>x. Inr (snd x)))"

definition order_get_events :: "string \<Rightarrow> ExecutionDatabase \<Rightarrow> LocalPaperOrderEvent list result" where
  "order_get_events a db =
     (if \<not> valid_digest a then Inl (LocalOrderError ''Authorization digest is invalid'')
      else bind_r (load_order a db) (\<lambda>x. Inr (fst x)))"

definition order_count :: "ExecutionDatabase \<Rightarrow> nat" where
  "order_count db = length (db_order_states db)"

text \<open>\<open>the\<close> is applied to the state of an order that has a state row.\<close>

definition orders_canonical_json :: "ExecutionDatabase \<Rightarrow> string result" where
  "orders_canonical_json db =
     bind_r (map_r (\<lambda>row. bind_r (load_order (st_authorization_sha256 row) db) (\<lambda>(events, state).
         Inr (JObj [(''authorization_sha256'', JStr (st_authorization_sha256 row)),
                    (''events'', JList (map order_event_as_record events)),
                    (''state'', order_state_as_record (the state))])))
       (sort_key st_authorization_sha256 (db_order_states db))) (\<lambda>orders.
     Inr (json_dumps (JObj [(''schema_version'', JInt 1), (''orders'', JList orders)]) @ [CHR 0x0A]))"

section \<open>Rows and objects\<close>

definition valid_order_event :: "LocalPaperOrderEvent \<Rightarrow> bool" where
  "valid_order_event e \<longleftrightarrow> LocalPaperOrderEvent_post_init e = Inr ()"

definition valid_order_state :: "LocalPaperOrderState \<Rightarrow> bool" where
  "valid_order_state s \<longleftrightarrow> LocalPaperOrderState_post_init s = Inr ()"

lemma event_type_round_trip [simp]: "LocalOrderEventType_of (LocalOrderEventType_value t) = Some t"
  by (cases t) (simp_all add: LocalOrderEventType_of_def)

lemma status_round_trip [simp]: "LocalOrderStatus_of (LocalOrderStatus_value s) = Some s"
  by (cases s) (simp_all add: LocalOrderStatus_of_def)

lemma reason_round_trip [simp]: "LocalOrderReason_of (LocalOrderReason_value y) = Some y"
  by (cases y) (simp_all add: LocalOrderReason_of_def)

lemma event_from_row [simp]: "valid_order_event e \<Longrightarrow> event_from_row (event_row e) = Inr e"
  by (cases e) (simp add: event_from_row_def event_row_def construct_def valid_order_event_def)

lemma state_from_row [simp]: "valid_order_state s \<Longrightarrow> state_from_row (state_row s) = Inr s"
  by (cases s) (simp add: state_from_row_def state_row_def construct_def valid_order_state_def)

lemma event_row_sel [simp]:
  "ev_authorization_sha256 (event_row e) = oe_authorization_sha256 e" "ev_sequence (event_row e) = oe_sequence e"
  "ev_event_sha256 (event_row e) = oe_event_sha256 e"
  by (simp_all add: event_row_def)

lemma state_row_sel [simp]:
  "st_authorization_sha256 (state_row s) = os_authorization_sha256 s" "st_state_sha256 (state_row s) = os_state_sha256 s"
  by (simp_all add: state_row_def)

section \<open>The lifecycle\<close>

lemma order_next_Inr:
  assumes "order_next i p e = Inr s"
  shows "valid_intent i" "valid_order_state s" "oe_authorization_sha256 e = ir_authorization_sha256 i"
    "os_authorization_sha256 s = ir_authorization_sha256 i" "os_intent_sha256 s = ir_intent_sha256 i"
    "os_sequence s = oe_sequence e" "os_updated_time_ms s = oe_event_time_ms e"
    "os_status s = EVENT_STATUSES (oe_event_type e)" "os_event_sha256 s = oe_event_sha256 e"
    "p = None \<Longrightarrow> oe_sequence e = 0 \<and> oe_event_type e = CREATE \<and> os_previous_state_sha256 s = None"
    "p = Some q \<Longrightarrow> oe_sequence e = os_sequence q + 1 \<and> os_updated_time_ms q < oe_event_time_ms e
       \<and> order_allowed (os_status q) (oe_event_type e) \<and> os_previous_state_sha256 s = Some (os_state_sha256 q)
       \<and> oe_previous_event_sha256 e = Some (os_event_sha256 q)"
  using assms
  by (auto simp: order_next_def order_predecessor_def bind_r_eq_Inr construct_eq_Inr validate_order_intent_def
      valid_intent_def valid_order_state_def split: if_splits)

lemma apply_local_order_event_iff:
  "apply_local_order_event i p e = Inr t \<longleftrightarrow>
     order_next i p e = Inr (ot_current t) \<and> ot_intent t = i \<and> ot_previous t = p \<and> ot_event t = e"
  by (cases t) (auto simp: apply_local_order_event_def bind_r_eq_Inr construct_eq_Inr LocalPaperOrderTransition_post_init_def)

lemma apply_local_order_event_ok:
  "order_next i p e = Inr s \<Longrightarrow> apply_local_order_event i p e =
     Inr \<lparr> ot_intent = i, ot_previous = p, ot_event = e, ot_current = s \<rparr>"
  by (simp add: apply_local_order_event_iff)

interpretation order_chain: hash_chain "order_next i" os_sequence os_updated_time_ms
  os_previous_state_sha256 os_state_sha256 for i
  by unfold_locales (auto simp: order_next_Inr(6,7) dest: order_next_Inr(10,11))

lemma order_replay_chain:
  "chain_run (order_next i) p es = Inr ss \<Longrightarrow> list_all valid_order_event es \<Longrightarrow>
     order_replay i p (map event_row es) = Inr (es, if ss = [] then p else Some (last ss))"
proof (induction es arbitrary: p ss)
  case (Cons e es)
  then obtain s ts where s: "order_next i p e = Inr s" and t: "chain_run (order_next i) (Some s) es = Inr ts" and ss: "ss = s # ts"
    by (auto simp: bind_r_eq_Inr)
  show ?case using Cons.IH [OF t] Cons.prems(2) s by (auto simp: apply_local_order_event_ok ss)
qed simp

lemma order_chain_pointwise:
  "chain_run (order_next i) p es = Inr ss \<Longrightarrow>
     map os_sequence ss = map oe_sequence es \<and> map os_updated_time_ms ss = map oe_event_time_ms es
     \<and> list_all valid_order_state ss \<and> list_all (\<lambda>e. oe_authorization_sha256 e = ir_authorization_sha256 i) es"
proof (induction es arbitrary: p ss)
  case (Cons e es)
  then obtain s ts where s: "order_next i p e = Inr s" and t: "chain_run (order_next i) (Some s) es = Inr ts" and ss: "ss = s # ts"
    by (auto simp: bind_r_eq_Inr)
  show ?case using Cons.IH [OF t] order_next_Inr(2,3,6,7) [OF s] by (simp add: ss)
qed simp

lemma order_chain_sequences:
  assumes "chain_run (order_next i) None es = Inr ss"
  shows "map oe_sequence es = map int [0..<length es]"
proof -
  have l: "order_chain.linked None ss" "length ss = length es"
    using order_chain.chain_run_linked [OF assms] by simp_all
  have "map os_sequence ss = map int [0..<length es]"
    using order_chain.linked_nth [OF l(1)] l(2) by (intro nth_equalityI) simp_all
  then show ?thesis using order_chain_pointwise [OF assms] by simp
qed

text \<open>The abstract machine: an order is created, activated and cancelled, in this order and at most once each.\<close>

inductive lifecycle :: "LocalOrderStatus option \<Rightarrow> LocalOrderEventType \<Rightarrow> LocalOrderStatus \<Rightarrow> bool" where
  create: "lifecycle None CREATE PENDING_LOCAL"
| activate: "lifecycle (Some PENDING_LOCAL) ACTIVATE ACTIVE_LOCAL"
| cancel: "lifecycle (Some ACTIVE_LOCAL) CANCEL CANCELLED_LOCAL"

inductive_simps lifecycle_simps: "lifecycle p t s"

inductive lifecycle_run :: "LocalOrderEventType list \<Rightarrow> LocalOrderStatus option \<Rightarrow> bool" where
  fresh: "lifecycle_run [] None"
| advance: "lifecycle_run ts p \<Longrightarrow> lifecycle p t s \<Longrightarrow> lifecycle_run (ts @ [t]) (Some s)"

lemma lifecycle_run_prefix:
  "lifecycle_run ts p \<Longrightarrow> ts = take (length ts) [CREATE, ACTIVATE, CANCEL] \<and> length ts \<le> 3
     \<and> p = (case ts of [] \<Rightarrow> None | [_] \<Rightarrow> Some PENDING_LOCAL | [_, _] \<Rightarrow> Some ACTIVE_LOCAL | _ \<Rightarrow> Some CANCELLED_LOCAL)"
proof (induction rule: lifecycle_run.induct)
  case (advance ts p t s)
  then consider "length ts = 0" | "length ts = 1" | "length ts = 2" | "length ts = 3" by linarith
  then show ?case
    using advance
    by cases (auto simp: lifecycle_simps length_Suc_conv numeral_2_eq_2 numeral_3_eq_3 split: list.splits)
qed simp

lemma order_chain_lifecycle:
  "chain_run (order_next i) None es = Inr ss \<Longrightarrow>
     lifecycle_run (map oe_event_type es) (if ss = [] then None else Some (os_status (last ss)))
     \<and> length ss = length es"
proof (induction es arbitrary: ss rule: rev_induct)
  case Nil
  then show ?case by (simp add: lifecycle_run.fresh)
next
  case (snoc e es)
  then obtain ts s where ts: "chain_run (order_next i) None es = Inr ts" and ss: "ss = ts @ [s]"
    and s: "order_next i (if ts = [] then None else Some (last ts)) e = Inr s"
    by (auto simp: chain_run_snoc bind_r_eq_Inr)
  note N = order_next_Inr [OF s]
  have "lifecycle (if ts = [] then None else Some (os_status (last ts))) (oe_event_type e) (os_status s)"
  proof (cases "ts = []")
    case True
    then show ?thesis using N(8,10) by (simp add: lifecycle_simps)
  next
    case False
    then have "order_allowed (os_status (last ts)) (oe_event_type e)" using N(11) [of "last ts"] by simp
    then show ?thesis
      using False N(8) by (cases "os_status (last ts)"; cases "oe_event_type e") (simp_all add: lifecycle_simps)
  qed
  then show ?case using snoc.IH [OF ts] lifecycle_run.advance by (fastforce simp: ss)
qed

section \<open>The store keeps log and projection together\<close>

definition rows_of :: "string \<Rightarrow> ExecutionDatabase \<Rightarrow> OrderEventRow list" where
  "rows_of a db = filter (\<lambda>r. ev_authorization_sha256 r = a) (db_order_events db)"

definition order_ok :: "ExecutionDatabase \<Rightarrow> LocalPaperIntentRecord \<Rightarrow> bool" where
  "order_ok db r \<longleftrightarrow> (\<exists>es ss. rows_of (ir_authorization_sha256 r) db = map event_row es
     \<and> list_all valid_order_event es \<and> chain_run (order_next r) None es = Inr ss
     \<and> select_row st_authorization_sha256 (ir_authorization_sha256 r) (db_order_states db)
         = (if ss = [] then None else Some (state_row (last ss))))"

definition store_inv :: "ExecutionDatabase \<Rightarrow> bool" where
  "store_inv db \<longleftrightarrow> intents.consistent (db_intents db) \<and> list_all valid_intent (db_intents db)
     \<and> order_states.consistent (db_order_states db) \<and> list_all (order_ok db) (db_intents db)
     \<and> list_all (\<lambda>r. has_intent (ev_authorization_sha256 r) db) (db_order_events db)
     \<and> list_all (\<lambda>r. has_intent (st_authorization_sha256 r) db) (db_order_states db)"

lemma load_order_ok:
  assumes "store_inv db" "r \<in> set (db_intents db)"
    and "rows_of (ir_authorization_sha256 r) db = map event_row es" "list_all valid_order_event es"
    and "chain_run (order_next r) None es = Inr ss"
    and "select_row st_authorization_sha256 (ir_authorization_sha256 r) (db_order_states db)
         = (if ss = [] then None else Some (state_row (last ss)))"
  shows "load_order (ir_authorization_sha256 r) db = Inr (es, if ss = [] then None else Some (last ss))"
proof -
  have v: "valid_intent r" and sel: "select_row ir_authorization_sha256 (ir_authorization_sha256 r) (db_intents db) = Some r"
    using assms(1,2) intents.select_iff by (auto simp: store_inv_def list_all_iff)
  have "map ev_sequence (map event_row es) = map int [0..<length es]"
    using order_chain_sequences [OF assms(5)] by (simp add: comp_def)
  moreover have "sorted (map int [0..<n])" for n by (simp add: sorted_iff_nth_mono)
  ultimately have sorted: "sort_key ev_sequence (map event_row es) = map event_row es"
    by (intro sort_key_id_if_sorted) simp
  have st: "ss \<noteq> [] \<Longrightarrow> valid_order_state (last ss)"
    using order_chain_pointwise [OF assms(5)] by (simp add: list_all_iff)
  show ?thesis
    using v sel sorted order_replay_chain [OF assms(5,4)] st assms(6)
    by (simp add: load_order_def order_get_intent_def construct_def valid_intent_def rows_of_def [symmetric] assms(3)
        optional_state_def)
qed

lemma order_get_intent_Inr:
  "order_get_intent a db = Inr i \<longleftrightarrow>
     select_row ir_authorization_sha256 a (db_intents db) = Some i \<and> valid_intent i"
  by (auto simp: order_get_intent_def construct_eq_Inr valid_intent_def split: option.splits)

lemma order_transaction_Inr:
  assumes "order_transaction e db = (db', Inr t)"
  obtains i p where "select_row ir_authorization_sha256 (oe_authorization_sha256 e) (db_intents db) = Some i" "valid_intent i"
    "optional_state (select_row st_authorization_sha256 (oe_authorization_sha256 e) (db_order_states db)) = Inr p"
    "order_next i p e = Inr (ot_current t)" "ot_event t = e" "ot_intent t = i" "ot_previous t = p"
    "act_bind (insert_event e) (\<lambda>_. write_state p (ot_current t)) db = (db', Inr ())"
  using assms
  by (auto simp: order_transaction_def act_bind_eq_Inr order_get_intent_Inr apply_local_order_event_iff)

lemma is_order_error_simps [simp]: "is_order_error (LocalOrderError m)" "is_order_error (LocalOrderTransitionError m)"
  by (simp_all add: is_order_error_def)

lemma construct_state_Inl: "construct LocalPaperOrderState_post_init s = Inl x \<Longrightarrow> is_order_error x"
  by (auto simp: construct_def LocalPaperOrderState_post_init_def bind_r_eq_Inl require_eq_Inl split: if_splits)

lemma order_get_intent_Inl: "order_get_intent a db = Inl x \<Longrightarrow> is_order_error x"
  by (auto simp: order_get_intent_def catch_r_def construct_def LocalPaperIntentRecord_post_init_def is_journal_error_def
      split: option.splits if_splits)

lemma optional_state_Inl: "optional_state row = Inl x \<Longrightarrow> is_order_error x"
  by (auto simp: optional_state_def state_from_row_def catch_r_def bind_r_eq_Inl dest: construct_state_Inl
      split: option.splits if_splits sum.splits)

lemma order_next_Inl: "order_next i p e = Inl x \<Longrightarrow> is_order_error x"
  by (auto simp: order_next_def order_predecessor_def validate_order_intent_def catch_r_def bind_r_eq_Inl require_eq_Inl
      construct_def [of LocalPaperIntentRecord_post_init] LocalPaperIntentRecord_post_init_def is_journal_error_def
      dest: construct_state_Inl split: option.splits if_splits sum.splits)

lemma apply_local_order_event_Inl: "apply_local_order_event i p e = Inl x \<Longrightarrow> is_order_error x"
  by (auto simp: apply_local_order_event_def bind_r_eq_Inl construct_def LocalPaperOrderTransition_post_init_def
      require_eq_Inl dest: order_next_Inl)

lemma insert_event_Inl: "insert_event e db = (db', Inl x) \<Longrightarrow> db' = db"
  by (auto simp: insert_event_def split: option.splits if_splits)

lemma write_state_Inl: "write_state p s db = (db', Inl x) \<Longrightarrow> is_order_error x"
  by (auto simp: write_state_def integrity_error_def split: option.splits if_splits)

lemmas order_errors = order_get_intent_Inl optional_state_Inl apply_local_order_event_Inl write_state_Inl

lemma order_apply_Inl:
  assumes "order_apply e db = (db', Inl x)"
  shows "db' = db"
proof -
  obtain db1 where r: "order_transaction e db = (db1, Inl x)" "db' = (if is_order_error x then db else db1)"
    using assms by (auto simp: order_apply_def with_rollback_def split: prod.splits sum.splits if_splits)
  have "is_order_error x \<or> db1 = db"
    using r(1) by (auto simp: order_transaction_def act_bind_eq_Inl intro: order_errors dest: insert_event_Inl)
  then show ?thesis using r(2) by (auto split: if_splits)
qed

lemma insert_event_Inr:
  assumes "insert_event e db = (db', Inr u)"
  shows "db' = db\<lparr> db_order_events := db_order_events db @ [event_row e] \<rparr>" "has_intent (oe_authorization_sha256 e) db"
  using assms
  by (auto simp: insert_event_def insert_order_event_def insert_row_def split: option.splits if_splits)

lemma find_map_key: "(\<And>x. key (f x) = key x) \<Longrightarrow> select_row key k (map f xs) = map_option f (select_row key k xs)"
  by (induction xs) (simp_all add: select_row_def)

lemma write_state_Inr:
  assumes "order_states.consistent (db_order_states db)" "write_state p s db = (db', Inr u)"
  shows "order_states.consistent (db_order_states db')" "db_intents db' = db_intents db"
    "db_order_events db' = db_order_events db" "db_fill_events db' = db_fill_events db"
    "select_row st_authorization_sha256 k (db_order_states db') =
       (if k = os_authorization_sha256 s then Some (state_row s)
        else select_row st_authorization_sha256 k (db_order_states db))"
    "set (db_order_states db') \<subseteq> insert (state_row s) (set (db_order_states db))"
proof -
  have "order_states.consistent (db_order_states db') \<and> db_intents db' = db_intents db
    \<and> db_order_events db' = db_order_events db \<and> db_fill_events db' = db_fill_events db
    \<and> select_row st_authorization_sha256 k (db_order_states db') =
       (if k = os_authorization_sha256 s then Some (state_row s)
        else select_row st_authorization_sha256 k (db_order_states db))
    \<and> set (db_order_states db') \<subseteq> insert (state_row s) (set (db_order_states db))"
  proof (cases p)
    case None
    then obtain t where t: "insert_row order_state_conflict (state_row s) (db_order_states db) = Some t"
      and db': "db' = db\<lparr> db_order_states := t \<rparr>"
      using assms(2) by (auto simp: write_state_def insert_order_state_def split: option.splits if_splits)
    moreover have "set t = insert (state_row s) (set (db_order_states db))"
      using t by (auto simp: insert_row_def split: if_splits)
    ultimately show ?thesis
      using order_states.insert_consistent [OF assms(1) t] order_states.insert_select [OF t, of k] by simp
  next
    case (Some q)
    let ?hit = "\<lambda>r. st_authorization_sha256 r = os_authorization_sha256 s \<and> st_state_sha256 r = os_state_sha256 q"
    let ?f = "\<lambda>r. if ?hit r then state_row s else r"
    obtain n where u: "update_order_state (os_state_sha256 q) (state_row s) db = Some (n, db')" and n: "n = 1"
      using assms(2) Some by (auto simp: write_state_def split: option.splits if_splits)
    then have db': "db' = db\<lparr> db_order_states := map ?f (db_order_states db) \<rparr>"
      and ex: "\<exists>h\<in>set (db_order_states db). ?hit h"
      by (auto simp: update_order_state_def Let_def list_ex_iff split: if_splits)
    from ex obtain h where h: "h \<in> set (db_order_states db)" "?hit h" by blast
    then have sel: "select_row st_authorization_sha256 (os_authorization_sha256 s) (db_order_states db) = Some h"
      using order_states.select_iff [OF assms(1)] by simp
    have m: "select_row st_authorization_sha256 k (map ?f (db_order_states db)) =
        map_option ?f (select_row st_authorization_sha256 k (db_order_states db))"
      by (rule find_map_key) simp
    have "map_option ?f (select_row st_authorization_sha256 k (db_order_states db)) =
      (if k = os_authorization_sha256 s then Some (state_row s) else select_row st_authorization_sha256 k (db_order_states db))"
      using sel h(2) select_row_Some [of st_authorization_sha256 k "db_order_states db"]
      by (cases "select_row st_authorization_sha256 k (db_order_states db)") auto
    with m show ?thesis using update_consistent [OF assms(1) u] by (auto simp: db')
  qed
  then show "order_states.consistent (db_order_states db')" "db_intents db' = db_intents db"
    "db_order_events db' = db_order_events db" "db_fill_events db' = db_fill_events db"
    "select_row st_authorization_sha256 k (db_order_states db') =
       (if k = os_authorization_sha256 s then Some (state_row s)
        else select_row st_authorization_sha256 k (db_order_states db))"
    "set (db_order_states db') \<subseteq> insert (state_row s) (set (db_order_states db))"
    by blast+
qed

lemma order_apply_inv:
  assumes "store_inv db" "valid_order_event e" "order_apply e db = (db', Inr t)"
  shows "store_inv db'"
proof -
  have run: "order_transaction e db = (db', Inr t)" using assms(3) by (simp add: order_apply_def with_rollback_Inr)
  let ?a = "oe_authorization_sha256 e"
  from run obtain i p where i: "select_row ir_authorization_sha256 ?a (db_intents db) = Some i"
    and p: "optional_state (select_row st_authorization_sha256 ?a (db_order_states db)) = Inr p"
    and n: "order_next i p e = Inr (ot_current t)"
    and w: "act_bind (insert_event e) (\<lambda>_. write_state p (ot_current t)) db = (db', Inr ())"
    by (rule order_transaction_Inr)
  note N = order_next_Inr [OF n]
  have ci: "intents.consistent (db_intents db)" and cs: "order_states.consistent (db_order_states db)"
    using assms(1) by (simp_all add: store_inv_def)
  have im: "i \<in> set (db_intents db)" "ir_authorization_sha256 i = ?a" using i intents.select_iff [OF ci] by auto
  obtain es ss where o: "rows_of ?a db = map event_row es" "list_all valid_order_event es"
    "chain_run (order_next i) None es = Inr ss"
    "select_row st_authorization_sha256 ?a (db_order_states db) = (if ss = [] then None else Some (state_row (last ss)))"
    using assms(1) im by (auto simp: store_inv_def list_all_iff order_ok_def)
  have pv: "p = (if ss = [] then None else Some (last ss))"
    using p o(4) order_chain_pointwise [OF o(3)] by (auto simp: optional_state_def list_all_iff split: if_splits)
  have chain: "chain_run (order_next i) None (es @ [e]) = Inr (ss @ [ot_current t])"
    using o(3) n by (simp add: chain_run_snoc pv)
  obtain db1 where ie: "insert_event e db = (db1, Inr ())" and ws: "write_state p (ot_current t) db1 = (db', Inr ())"
    using w by (auto simp: act_bind_eq_Inr)
  note I = insert_event_Inr [OF ie]
  have cs1: "order_states.consistent (db_order_states db1)" using cs I(1) by simp
  note W = write_state_Inr [OF cs1 ws]
  have au: "os_authorization_sha256 (ot_current t) = ?a" using N(3,4) by simp
  have tabs: "db_intents db' = db_intents db" "db_order_events db' = db_order_events db @ [event_row e]"
    using W(2,3) I(1) by simp_all
  have hi: "has_intent x db' \<longleftrightarrow> has_intent x db" for x by (simp add: has_intent_def tabs)
  have "order_ok db' r" if r: "r \<in> set (db_intents db)" for r
  proof (cases "r = i")
    case True
    then show ?thesis
      using o(1,2) chain assms(2) im(2) W(5) [of ?a] au
      by (auto simp: order_ok_def rows_of_def tabs intro!: exI [of _ "es @ [e]"] exI [of _ "ss @ [ot_current t]"])
  next
    case False
    then have ne: "ir_authorization_sha256 r \<noteq> ?a"
      using r im intents.select_iff [OF ci, of ?a r] i by auto
    then have "rows_of (ir_authorization_sha256 r) db' = rows_of (ir_authorization_sha256 r) db"
      "select_row st_authorization_sha256 (ir_authorization_sha256 r) (db_order_states db') =
         select_row st_authorization_sha256 (ir_authorization_sha256 r) (db_order_states db)"
      using W(5) [of "ir_authorization_sha256 r"] au I(1) by (simp_all add: rows_of_def tabs)
    moreover have "order_ok db r" using assms(1) r by (simp add: store_inv_def list_all_iff)
    ultimately show ?thesis by (simp add: order_ok_def)
  qed
  then show ?thesis
    using assms(1) W(1,6) I au
    by (auto simp: store_inv_def tabs list_all_iff hi)
qed

lemma journal_record_store_inv:
  assumes "store_inv db" "journal_record d db = (db', Inr r)"
  shows "store_inv db'"
proof -
  have v: "list_all valid_intent (db_intents db)" using assms(1) by (simp add: store_inv_def)
  from assms(2) v show ?thesis
  proof (cases rule: journal_record_cases)
    case (stored x)
    then obtain t where t: "insert_row intent_conflict x (db_intents db) = Some t" and db': "db' = db\<lparr> db_intents := t \<rparr>"
      by (auto simp: insert_intent_Some)
    have tt: "t = db_intents db @ [x]" using t by (auto simp: insert_row_def split: if_splits)
    have "select_row ir_authorization_sha256 (ir_authorization_sha256 x) (db_intents db) = None"
      by (rule intents.insert_absent [OF t])
    then have no: "\<not> has_intent (ir_authorization_sha256 x) db" by (auto simp: has_intent_def list_ex_iff select_row_None)
    have hi: "has_intent k db \<Longrightarrow> has_intent k db'" for k by (simp add: has_intent_def db' tt)
    have "rows_of (ir_authorization_sha256 x) db' = []"
      using assms(1) no by (auto simp: rows_of_def db' store_inv_def list_all_iff filter_empty_conv)
    moreover have "select_row st_authorization_sha256 (ir_authorization_sha256 x) (db_order_states db') = None"
      using assms(1) no by (auto simp: select_row_None db' store_inv_def list_all_iff)
    ultimately have "order_ok db' x"
      by (auto simp: order_ok_def intro!: exI [of _ "[]"])
    moreover have "order_ok db r \<Longrightarrow> order_ok db' r" for r by (simp add: order_ok_def rows_of_def db')
    ultimately show ?thesis
      using assms(1) intents.insert_consistent [OF _ t] intent_from_decision_Inr(1) [OF stored(1)] hi
      by (auto simp: store_inv_def db' tt list_all_iff)
  qed (use assms(1) in auto)
qed

text \<open>The two writers of the database: submissions to the journal and order events.\<close>

datatype store_op = Submit LocalPaperExecutionDecision | Advance LocalPaperOrderEvent

fun store_step :: "store_op \<Rightarrow> (ExecutionDatabase, unit) action" where
  "store_step (Submit d) db = act_bind (journal_record d) (\<lambda>_. act_return ()) db"
| "store_step (Advance e) db = act_bind (order_apply e) (\<lambda>_. act_return ()) db"

fun store_admissible :: "store_op \<Rightarrow> bool" where
  "store_admissible (Submit d) = True"
| "store_admissible (Advance e) = valid_order_event e"

interpretation store: atomic_object store_step store_admissible store_inv
proof unfold_locales
  fix s t :: ExecutionDatabase and i e
  assume "store_inv s" "store_admissible i" "store_step i s = (t, Inl e)"
  moreover from this(1) have "list_all valid_intent (db_intents s)" by (simp add: store_inv_def)
  ultimately show "t = s"
    by (cases i) (auto simp: act_bind_eq_Inl elim: journal_record_cases dest: order_apply_Inl)
next
  fix s t :: ExecutionDatabase and i x
  assume "store_inv s" "store_admissible i" "store_step i s = (t, Inr x)"
  then show "store_inv t"
    by (cases i) (auto simp: act_bind_eq_Inr dest: journal_record_store_inv order_apply_inv)
qed

lemma store_empty: "store_inv empty_database"
  by (simp add: store_inv_def empty_database_def)

section \<open>Properties\<close>

text \<open>C5. The order store refines the abstract lifecycle: from the empty database, after any history of
submissions and order events, accepted or refused, every recorded intent can be loaded: its events replay
to exactly the stored projection, their types form a run of the abstract machine (create, activate,
cancel, each at most once and in this order) that ends in the stored status, they are numbered from zero
without a gap and their times strictly increase; and a refused operation leaves the database exactly as it was.\<close>

theorem order_store_refines_lifecycle:
  assumes "list_all store_admissible ops" and "store_admissible op"
  shows "let db = foldl (\<lambda>db i. fst (store_step i db)) empty_database ops in
    (\<forall>r\<in>set (db_intents db). \<exists>events state. load_order (ir_authorization_sha256 r) db = Inr (events, state)
       \<and> lifecycle_run (map oe_event_type events) (map_option os_status state)
       \<and> map oe_event_type events = take (length events) [CREATE, ACTIVATE, CANCEL]
       \<and> map oe_sequence events = map int [0..<length events]
       \<and> sorted_wrt (<) (map oe_event_time_ms events))
    \<and> (case store_step op db of (db', Inl e) \<Rightarrow> db' = db | (db', Inr u) \<Rightarrow> True)"
proof -
  define db where "db = foldl (\<lambda>db i. fst (store_step i db)) empty_database ops"
  have inv: "store_inv db"
    unfolding db_def using store.drive_inv [OF store_empty assms(1)] by (simp add: store.drive_def)
  have "\<exists>events state. load_order (ir_authorization_sha256 r) db = Inr (events, state)
       \<and> lifecycle_run (map oe_event_type events) (map_option os_status state)
       \<and> map oe_event_type events = take (length events) [CREATE, ACTIVATE, CANCEL]
       \<and> map oe_sequence events = map int [0..<length events]
       \<and> sorted_wrt (<) (map oe_event_time_ms events)" if r: "r \<in> set (db_intents db)" for r
  proof -
    have "order_ok db r" using inv r by (simp add: store_inv_def list_all_iff)
    then obtain es ss where o: "rows_of (ir_authorization_sha256 r) db = map event_row es"
      "list_all valid_order_event es" "chain_run (order_next r) None es = Inr ss"
      "select_row st_authorization_sha256 (ir_authorization_sha256 r) (db_order_states db)
         = (if ss = [] then None else Some (state_row (last ss)))"
      by (auto simp: order_ok_def)
    have l: "load_order (ir_authorization_sha256 r) db = Inr (es, if ss = [] then None else Some (last ss))"
      by (rule load_order_ok [OF inv r o])
    have run: "lifecycle_run (map oe_event_type es) (map_option os_status (if ss = [] then None else Some (last ss)))"
      using order_chain_lifecycle [OF o(3)] by (cases ss) auto
    have "sorted_wrt (<) (map os_updated_time_ms ss)"
      using order_chain.linked_times order_chain.chain_run_linked [OF o(3)] by blast
    then have "sorted_wrt (<) (map oe_event_time_ms es)" using order_chain_pointwise [OF o(3)] by simp
    then show ?thesis
      using l run lifecycle_run_prefix [OF run] order_chain_sequences [OF o(3)]
      by (intro exI [of _ es] exI [of _ "if ss = [] then None else Some (last ss)"]) simp
  qed
  moreover have "case store_step op db of (db', Inl e) \<Rightarrow> db' = db | (db', Inr u) \<Rightarrow> True"
    using store.failed_step [OF inv assms(2)] by (auto split: prod.splits sum.splits)
  ultimately show ?thesis unfolding Let_def db_def [symmetric] by blast
qed

definition example_intent :: LocalPaperIntentRecord where
  "example_intent = (let r = \<lparr> ir_authorization_sha256 = authorization_sha256 example_authorization,
       ir_effect_sha256 = authorization_sha256 example_authorization,
       ir_decision_sha256 = decision_sha256 example_execution, ir_readiness_sha256 = readiness_sha256 example_ready,
       ir_action = ''ENTER_LONG'', ir_approved_quantity = ''20'', ir_policy_id = EXECUTION_POLICY_ID,
       ir_intent_sha256 = [] \<rparr> in r\<lparr> ir_intent_sha256 := intent_expected_sha256 r \<rparr>)"

lemma example_intent_recorded: "intent_from_decision example_execution = Inr example_intent"
proof -
  obtain r where r: "intent_from_decision example_execution = Inr r"
    by (rule intent_from_decision_total [OF example_execution_valid]) (simp add: example_execution_def)
  have "xd_authorization_sha256 example_execution = authorization_sha256 example_authorization"
    "xd_readiness example_execution = example_ready" "xd_action example_execution = ENTER_LONG"
    "xd_approved_quantity example_execution = Some ''20''" "ep_policy_id (xd_policy example_execution) = EXECUTION_POLICY_ID"
    by (simp_all add: example_execution_def xd_authorization_sha256_def default_execution_policy_def)
  then have "r = example_intent"
    using r by (auto simp: intent_from_decision_def bind_r_eq_Inr construct_eq_Inr example_intent_def Let_def split: if_splits)
  then show ?thesis using r by simp
qed

definition example_create :: LocalPaperOrderEvent where
  "example_create = \<lparr> oe_authorization_sha256 = ir_authorization_sha256 example_intent,
     oe_intent_sha256 = ir_intent_sha256 example_intent, oe_sequence = 0, oe_event_time_ms = 1704067200000,
     oe_event_type = CREATE, oe_reason = ACCEPTED_INTENT_RECORDED, oe_previous_event_sha256 = None \<rparr>"

lemma example_intent_valid: "valid_intent example_intent"
  by (rule intent_from_decision_Inr(1) [OF example_intent_recorded])

lemma example_create_valid: "valid_order_event example_create"
  using example_intent_valid
  by (auto simp: valid_order_event_def LocalPaperOrderEvent_post_init_def example_create_def valid_intent_def
      LocalPaperIntentRecord_post_init_def split: if_splits)

lemma example_create_fits: "sqlite_integer (oe_sequence example_create)" "sqlite_integer (oe_event_time_ms example_create)"
  by (simp_all add: sqlite_integer_def example_create_def)

lemma example_submitted:
  "store_step (Submit example_execution) empty_database = (empty_database\<lparr> db_intents := [example_intent] \<rparr>, Inr ())"
  using example_intent_recorded
  by (simp add: act_bind_def journal_record_def record_transaction_def with_rollback_def empty_database_def select_row_def
      insert_intent_def insert_row_def)

lemma example_created:
  "store_step (Advance example_create) (empty_database\<lparr> db_intents := [example_intent] \<rparr>) = (db, u)
     \<Longrightarrow> db_intents db = [example_intent] \<and> u = Inr ()"
proof -
  have n: "order_next example_intent None example_create = Inr s \<longleftrightarrow> s =
      \<lparr> os_authorization_sha256 = ir_authorization_sha256 example_intent,
        os_intent_sha256 = ir_intent_sha256 example_intent, os_sequence = 0, os_updated_time_ms = 1704067200000,
        os_status = PENDING_LOCAL, os_reason = ACCEPTED_INTENT_RECORDED, os_previous_state_sha256 = None,
        os_event_sha256 = oe_event_sha256 example_create \<rparr>" for s
    using example_intent_valid example_create_valid
    by (auto simp: order_next_def validate_order_intent_def order_predecessor_def valid_intent_def construct_eq_Inr
        bind_r_eq_Inr LocalPaperOrderState_post_init_def valid_order_event_def LocalPaperOrderEvent_post_init_def
        oe_event_sha256_def example_create_def split: if_splits)
  have g: "order_get_intent (oe_authorization_sha256 example_create) (empty_database\<lparr> db_intents := [example_intent] \<rparr>)
      = Inr example_intent"
    using example_intent_valid by (simp add: order_get_intent_Inr select_row_def example_create_def)
  have c: "oe_authorization_sha256 example_create = ir_authorization_sha256 example_intent" by (simp add: example_create_def)
  obtain s where s: "order_next example_intent None example_create = Inr s" "os_authorization_sha256 s = ir_authorization_sha256 example_intent"
    using n by fastforce
  show "store_step (Advance example_create) (empty_database\<lparr> db_intents := [example_intent] \<rparr>) = (db, u)
     \<Longrightarrow> db_intents db = [example_intent] \<and> u = Inr ()"
    using apply_local_order_event_ok [OF s(1)] g s(2)
    by (auto simp: act_bind_def order_apply_def with_rollback_def order_transaction_def insert_event_def write_state_def
        example_create_fits insert_order_event_def insert_order_state_def insert_row_def has_intent_def optional_state_def select_row_def
        empty_database_def c)
qed

theorem order_store_refines_lifecycle_witness:
  "\<exists>events state. load_order (ir_authorization_sha256 example_intent)
       (fst (store_step (Advance example_create) (fst (store_step (Submit example_execution) empty_database))))
     = Inr (events, state) \<and> lifecycle_run (map oe_event_type events) (map_option os_status state)"
proof -
  obtain db u where c: "store_step (Advance example_create) (empty_database\<lparr> db_intents := [example_intent] \<rparr>) = (db, u)"
    by fastforce
  have "example_intent \<in> set (db_intents db)" using example_created [OF c] by simp
  then show ?thesis
    using order_store_refines_lifecycle [of "[Submit example_execution, Advance example_create]" "Submit example_execution"]
      example_create_valid c example_submitted
    by (auto simp: Let_def simp del: store_step.simps)
qed

text \<open>An order with fills is final: when a fill event refers to the current state of an order, the
foreign key refuses every further event of that order, in particular its cancellation, unless the new
state has the same digest as the old one.\<close>

theorem filled_order_is_final:
  assumes "select_row st_authorization_sha256 (oe_authorization_sha256 e) (db_order_states db) = Some row"
    and "f \<in> set (db_fill_events db)" and "fx_order_state_sha256 f = st_state_sha256 row"
    and "order_apply e db = (db', r)"
  shows "case r of Inl x \<Rightarrow> db' = db | Inr t \<Rightarrow> os_state_sha256 (ot_current t) = st_state_sha256 row"
proof (cases r)
  case (Inl x)
  then show ?thesis using order_apply_Inl assms(4) by simp
next
  case (Inr t)
  then have run: "order_transaction e db = (db', Inr t)" using assms(4) by (simp add: order_apply_def with_rollback_Inr)
  from run obtain i p where
    p: "optional_state (select_row st_authorization_sha256 (oe_authorization_sha256 e) (db_order_states db)) = Inr p"
    and w: "act_bind (insert_event e) (\<lambda>_. write_state p (ot_current t)) db = (db', Inr ())"
    by (rule order_transaction_Inr)
  obtain q where q: "p = Some q" "os_state_sha256 q = st_state_sha256 row"
    using p assms(1) by (auto simp: optional_state_def state_from_row_def bind_r_eq_Inr split: if_splits)
  obtain db1 where db1: "insert_event e db = (db1, Inr ())" "write_state p (ot_current t) db1 = (db', Inr ())"
    using w by (auto simp: act_bind_eq_Inr)
  have "f \<in> set (db_fill_events db1)" using insert_event_Inr(1) [OF db1(1)] assms(2) by simp
  then show ?thesis
    using db1(2) q assms(3) Inr
    by (auto simp: write_state_def update_order_state_def Let_def list_ex_iff split: option.splits if_splits)
qed

definition example_filled :: ExecutionDatabase where
  "example_filled = (let s = \<lparr> os_authorization_sha256 = ir_authorization_sha256 example_intent,
        os_intent_sha256 = ir_intent_sha256 example_intent, os_sequence = 1, os_updated_time_ms = 1704067200001,
        os_status = ACTIVE_LOCAL, os_reason = LOCAL_ACTIVATION_CONFIRMED,
        os_previous_state_sha256 = Some (sha256_hexdigest ''pending''), os_event_sha256 = sha256_hexdigest ''activate'' \<rparr>
     in \<lparr> db_intents = [example_intent], db_order_events = [], db_order_states = [state_row s],
          db_fill_events = [\<lparr> fx_fill_event_sha256 = sha256_hexdigest ''fill'', fx_symbol = ''BTCUSDT'', fx_sequence = 0,
            fx_authorization_sha256 = ir_authorization_sha256 example_intent,
            fx_intent_sha256 = ir_intent_sha256 example_intent, fx_order_state_sha256 = os_state_sha256 s,
            fx_fill_step_sha256 = sha256_hexdigest ''step'', fx_fill_index = 0, fx_payload_json = ''{}'' \<rparr>],
          db_portfolios = [] \<rparr>)"

definition example_cancel :: LocalPaperOrderEvent where
  "example_cancel = \<lparr> oe_authorization_sha256 = ir_authorization_sha256 example_intent,
     oe_intent_sha256 = ir_intent_sha256 example_intent, oe_sequence = 2, oe_event_time_ms = 1704067200002,
     oe_event_type = CANCEL, oe_reason = LOCAL_CANCELLATION_CONFIRMED,
     oe_previous_event_sha256 = Some (sha256_hexdigest ''activate'') \<rparr>"

theorem filled_order_is_final_witness:
  "case order_apply example_cancel example_filled of
     (db', Inl x) \<Rightarrow> db' = example_filled
   | (db', Inr t) \<Rightarrow> os_state_sha256 (ot_current t) = st_state_sha256 (hd (db_order_states example_filled))"
  using filled_order_is_final [of example_cancel example_filled "hd (db_order_states example_filled)"
      "hd (db_fill_events example_filled)"]
  by (cases "order_apply example_cancel example_filled")
    (simp add: example_filled_def example_cancel_def Let_def select_row_def split: sum.splits)

end
