(* ===== verification/Execution_Fills.thy ===== *)
theory Execution_Fills
  imports Execution_Orders Backtest_Costs
begin

text \<open>
  \<^verbatim>\<open>yatl/execution/fills.py\<close>: the adapter that takes an accepted decision, its recorded
  intent and its active order into the paper fill engine and the cost model.
\<close>

section \<open>Validation of the evidence\<close>

definition fill_validate_decision :: "LocalPaperExecutionDecision \<Rightarrow> unit result" where
  "fill_validate_decision decision =
     bind_r (catch_r (construct LocalPaperExecutionDecision_post_init decision) is_value_error
       (LocalPaperFillError ''Execution decision failed deterministic reconstruction'')) (\<lambda>reconstructed.
     require (reconstructed = decision \<and> decision_sha256 reconstructed = decision_sha256 decision
         \<and> xd_disposition decision = ACCEPT_LOCAL_PAPER \<and> xd_approved_quantity decision \<noteq> None)
       (LocalPaperFillError ''Execution decision is not accepted local Paper''))"

definition fill_validate_intent :: "LocalPaperExecutionDecision \<Rightarrow> LocalPaperIntentRecord \<Rightarrow> unit result" where
  "fill_validate_intent decision intent =
     bind_r (catch_r (intent_from_decision decision) is_journal_error
       (LocalPaperFillError ''Accepted local intent failed reconstruction'')) (\<lambda>expected.
     require (intent = expected) (LocalPaperFillError ''Accepted local intent and decision disagree''))"

definition fill_validate_order :: "LocalPaperIntentRecord \<Rightarrow> LocalPaperOrderState \<Rightarrow> unit result" where
  "fill_validate_order intent order =
     bind_r (catch_r (construct LocalPaperOrderState_post_init order) (\<lambda>e. is_order_error e \<or> is_value_error e)
       (LocalPaperFillError ''Local order state failed reconstruction'')) (\<lambda>reconstructed.
     require (reconstructed = order \<and> os_authorization_sha256 order = ir_authorization_sha256 intent
         \<and> os_intent_sha256 order = ir_intent_sha256 intent \<and> os_status order = ACTIVE_LOCAL
         \<and> os_sequence order = 1)
       (LocalPaperFillError ''Local order is not the active accepted intent''))"

section \<open>Fill steps\<close>

definition fill_record :: "CostedFill \<Rightarrow> json" where
  "fill_record f = (let r = cf_reference f in JObj
     [(''action'', JStr (IntentAction_value (fr_action r))), (''symbol'', JStr (fr_symbol r)),
      (''decision_time_ms'', JInt (fr_decision_time_ms r)), (''fill_time_ms'', JInt (fr_fill_time_ms r)),
      (''quantity'', JStr (fr_quantity r)), (''reference_price'', JStr (fr_reference_price r)),
      (''reason'', JStr (FillReason_value (fr_reason r))), (''fee_bps'', JStr (d_format (cf_fee_bps f))),
      (''slippage_bps'', JStr (d_format (cf_slippage_bps f))),
      (''execution_price'', JStr (d_format (cf_execution_price f))),
      (''gross_quote'', JStr (d_format (cf_gross_quote f))), (''fee_quote'', JStr (d_format (cf_fee_quote f))),
      (''slippage_quote'', JStr (d_format (cf_slippage_quote f))),
      (''cash_delta'', JStr (d_format (cf_cash_delta f))), (''asset_delta'', JStr (d_format (cf_asset_delta f)))])"

record LocalPaperFillStep =
  ls_authorization_sha256 :: string
  ls_intent_sha256 :: string
  ls_order_state_sha256 :: string
  ls_p2_intent :: PaperIntent
  ls_references :: "FillReference list"
  ls_fills :: "CostedFill list"

definition LocalPaperFillStep_post_init :: "LocalPaperFillStep \<Rightarrow> unit result" where
  "LocalPaperFillStep_post_init s =
     (if ls_references s = [] \<or> length (ls_references s) \<noteq> length (ls_fills s)
         \<or> map cf_reference (ls_fills s) \<noteq> ls_references s
      then Inl (LocalPaperFillError ''P2 fill step identity is invalid'')
      else if \<not> list_all valid_digest [ls_authorization_sha256 s, ls_intent_sha256 s, ls_order_state_sha256 s]
      then Inl (LocalPaperFillError ''P2 fill step evidence digest is invalid'')
      else if fr_action (hd (ls_references s)) \<noteq> pi_action (ls_p2_intent s)
      then Inl (LocalPaperFillError ''P2 fill step action or quantity changed'')
      else Inr ())"

definition fill_step_as_record :: "LocalPaperFillStep \<Rightarrow> json" where
  "fill_step_as_record s = JObj
     [(''schema_version'', JInt 1), (''authorization_sha256'', JStr (ls_authorization_sha256 s)),
      (''intent_sha256'', JStr (ls_intent_sha256 s)), (''order_state_sha256'', JStr (ls_order_state_sha256 s)),
      (''p2_intent'', JObj
         [(''action'', JStr (IntentAction_value (pi_action (ls_p2_intent s)))),
          (''decision_time_ms'', JInt (pi_decision_time_ms (ls_p2_intent s))),
          (''quantity'', j_opt JStr (pi_quantity (ls_p2_intent s))),
          (''stop_price'', j_opt JStr (pi_stop_price (ls_p2_intent s))),
          (''target_price'', j_opt JStr (pi_target_price (ls_p2_intent s)))]),
      (''fills'', JList (map fill_record (ls_fills s)))]"

definition fill_step_sha256 :: "LocalPaperFillStep \<Rightarrow> string" where
  "fill_step_sha256 s = py_digest (fill_step_as_record s)"

section \<open>The adapter\<close>

record LocalPaperFillCostAdapter =
  fa_symbol :: string
  fa_spec :: BacktestSpec
  fa_engine :: PaperFillEngine
  fa_active_quantity :: "string option"
  fa_last_sequence :: "int option"
  fa_last_decision_time_ms :: "int option"

definition LocalPaperFillCostAdapter_init :: "string \<Rightarrow> BacktestSpec \<Rightarrow> LocalPaperFillCostAdapter result" where
  "LocalPaperFillCostAdapter_init symbol accepted_spec =
     (if symbol \<notin> set SYMBOLS then Inl (LocalPaperFillError ''Accepted P2 identity is invalid'')
      else if sp_symbol accepted_spec \<noteq> symbol
      then Inl (LocalPaperFillError ''Accepted P2 symbol differs from the adapter'')
      else bind_r (PaperFillEngine_init symbol) (\<lambda>engine.
        Inr \<lparr> fa_symbol = symbol, fa_spec = accepted_spec, fa_engine = engine, fa_active_quantity = None,
              fa_last_sequence = None, fa_last_decision_time_ms = None \<rparr>))"

definition fa_has_position :: "LocalPaperFillCostAdapter \<Rightarrow> bool" where
  "fa_has_position a \<longleftrightarrow> fe_has_position (fa_engine a)"

definition fill_validate ::
    "LocalPaperFillCostAdapter \<Rightarrow> DecisionEvent \<Rightarrow> LocalPaperExecutionDecision \<Rightarrow> LocalPaperIntentRecord \<Rightarrow>
       LocalPaperOrderState \<Rightarrow> BacktestSpec \<Rightarrow> unit result" where
  "fill_validate a event decision intent order cost_spec =
     bind_r (fill_validate_decision decision) (\<lambda>_.
     bind_r (fill_validate_intent decision intent) (\<lambda>_.
     bind_r (fill_validate_order intent order) (\<lambda>_.
     bind_r (require (cost_spec = fa_spec a)
       (LocalPaperFillError ''P2 event, candle or cost policy is invalid'')) (\<lambda>_.
     let strategy = rr_strategy_decision (az_request (xd_authorization decision)) in
     bind_r (require (sd_symbol strategy = fa_symbol a \<and> ms_symbol (de_snapshot event) = fa_symbol a
         \<and> sd_decision_time_ms strategy = de_decision_time_ms event
         \<and> sc_snapshot (sd_context strategy) = de_snapshot event
         \<and> sp_start_time_ms (fa_spec a) \<le> de_decision_time_ms event
         \<and> de_decision_time_ms event < sp_end_time_ms (fa_spec a))
       (LocalPaperFillError ''Accepted intent and P2 event disagree'')) (\<lambda>_.
     require (next_event_ok (fa_last_sequence a) (fa_last_decision_time_ms a) event)
       (LocalPaperFillError ''P2 event is duplicate or out of order''))))))"

text \<open>\<open>the\<close> is applied to the quantity of an accepted decision, which the validation requires.\<close>

definition p2_intent :: "LocalPaperFillCostAdapter \<Rightarrow> LocalPaperExecutionDecision \<Rightarrow> PaperIntent result" where
  "p2_intent a decision =
     (let strategy = rr_strategy_decision (az_request (xd_authorization decision));
          t = sd_decision_time_ms strategy in
      case xd_action decision of
        ENTER_LONG \<Rightarrow>
          (case sd_setup strategy of
             None \<Rightarrow> Inl (LocalPaperFillError ''Local entry conflicts with Paper state'')
           | Some setup \<Rightarrow>
               if fa_has_position a then Inl (LocalPaperFillError ''Local entry conflicts with Paper state'')
               else entry_intent t (the (xd_approved_quantity decision)) setup)
      | EXIT_LONG \<Rightarrow>
          if \<not> fa_has_position a \<or> fa_active_quantity a \<noteq> xd_approved_quantity decision
          then Inl (LocalPaperFillError ''Local exit conflicts with Paper state'')
          else plain_intent EXIT_LONG t
      | HOLD \<Rightarrow> Inl (LocalPaperFillError ''Accepted local intent has no fill action''))"

text \<open>
  The engine is copied before it runs, so an error of any step leaves the adapter alone.
\<close>

definition costed_fills ::
    "DecisionEvent \<Rightarrow> PaperIntent \<Rightarrow> Candle \<Rightarrow> BacktestSpec \<Rightarrow> PaperFillEngine \<Rightarrow>
       (PaperFillEngine \<times> FillReference list \<times> CostedFill list) result" where
  "costed_fills event i fill_candle cost_spec engine =
     catch_r
       (case process event i fill_candle engine of
          (candidate, Inl e) \<Rightarrow> Inl e
        | (candidate, Inr references) \<Rightarrow>
            bind_r (map_r (\<lambda>r. apply_costs r cost_spec) references) (\<lambda>fills. Inr (candidate, references, fills)))
       (\<lambda>e. is_FillModelError e \<or> is_CostModelError e)
       (LocalPaperFillError ''Accepted P2 fill or cost contract rejected the local intent'')"

definition fill_process ::
    "DecisionEvent \<Rightarrow> LocalPaperExecutionDecision \<Rightarrow> LocalPaperIntentRecord \<Rightarrow> LocalPaperOrderState \<Rightarrow> Candle \<Rightarrow>
       BacktestSpec \<Rightarrow> (LocalPaperFillCostAdapter, LocalPaperFillStep) action" where
  "fill_process event decision intent order fill_candle cost_spec a =
     act_bind (act_lift (fill_validate a event decision intent order cost_spec)) (\<lambda>_.
     act_bind (act_lift (p2_intent a decision)) (\<lambda>i.
     act_bind (act_lift (costed_fills event i fill_candle cost_spec (fa_engine a))) (\<lambda>(candidate, references, fills).
     if references = [] then act_raise (LocalPaperFillError ''Accepted local intent produced no P2 fill'')
     else act_bind (act_lift (construct LocalPaperFillStep_post_init
         \<lparr> ls_authorization_sha256 = ir_authorization_sha256 intent, ls_intent_sha256 = ir_intent_sha256 intent,
           ls_order_state_sha256 = os_state_sha256 order, ls_p2_intent = i, ls_references = references,
           ls_fills = fills \<rparr>)) (\<lambda>step.
       act_bind (act_update (\<lambda>a. a\<lparr> fa_engine := candidate,
           fa_active_quantity := (if fe_has_position candidate then xd_approved_quantity decision else None),
           fa_last_sequence := Some (de_sequence event),
           fa_last_decision_time_ms := Some (de_decision_time_ms event) \<rparr>)) (\<lambda>_.
       act_return step))))) a"

section \<open>The adapter stays consistent\<close>

definition fill_inv :: "BacktestSpec \<Rightarrow> LocalPaperFillCostAdapter \<Rightarrow> bool" where
  "fill_inv sp a \<longleftrightarrow> fa_spec a = sp \<and> fe_symbol (fa_engine a) = fa_symbol a \<and> sp_symbol (fa_spec a) = fa_symbol a
     \<and> engine_ok (fa_engine a) \<and> fa_active_quantity a = engine_holding (fa_engine a)"

text \<open>The arguments of one call.\<close>

type_synonym fill_args =
  "DecisionEvent \<times> LocalPaperExecutionDecision \<times> LocalPaperIntentRecord \<times> LocalPaperOrderState \<times> Candle \<times> BacktestSpec"

definition fill_input :: "fill_args \<Rightarrow> (LocalPaperFillCostAdapter, LocalPaperFillStep) action" where
  "fill_input x = (case x of (ev, d, i, s, c, sp) \<Rightarrow> fill_process ev d i s c sp)"

lemma fill_process_Inl: "fill_process ev d i s c sp a = (b, Inl e) \<Longrightarrow> b = a"
  by (auto simp: fill_process_def act_bind_eq_Inl split: if_splits)

lemma costed_fills_Inr:
  "costed_fills ev j c sp g = Inr (g', refs, fills) \<longleftrightarrow>
     process ev j c g = (g', Inr refs) \<and> map_r (\<lambda>r. apply_costs r sp) refs = Inr fills"
  by (auto simp: costed_fills_def bind_r_eq_Inr split: prod.splits sum.splits)

lemma fill_process_Inr:
  assumes "fill_process ev d i s c sp a = (b, Inr t)"
  obtains j g refs fills where "fill_validate a ev d i s sp = Inr ()" "p2_intent a d = Inr j"
    "process ev j c (fa_engine a) = (g, Inr refs)" "map_r (\<lambda>r. apply_costs r sp) refs = Inr fills" "refs \<noteq> []"
    "t = \<lparr> ls_authorization_sha256 = ir_authorization_sha256 i, ls_intent_sha256 = ir_intent_sha256 i,
           ls_order_state_sha256 = os_state_sha256 s, ls_p2_intent = j, ls_references = refs, ls_fills = fills \<rparr>"
    "LocalPaperFillStep_post_init t = Inr ()"
    "b = a\<lparr> fa_engine := g, fa_active_quantity := (if fe_has_position g then xd_approved_quantity d else None),
           fa_last_sequence := Some (de_sequence ev), fa_last_decision_time_ms := Some (de_decision_time_ms ev) \<rparr>"
  using assms
  by (auto simp: fill_process_def act_bind_eq_Inr costed_fills_Inr construct_eq_Inr split: if_splits)

lemma fill_validate_Inr:
  assumes "fill_validate a ev d i s sp = Inr ()"
  shows "LocalPaperExecutionDecision_post_init d = Inr ()" "xd_disposition d = ACCEPT_LOCAL_PAPER"
    "intent_from_decision d = Inr i" "valid_order_state s" "os_intent_sha256 s = ir_intent_sha256 i"
    "os_authorization_sha256 s = ir_authorization_sha256 i" "os_status s = ACTIVE_LOCAL" "os_sequence s = 1"
    "sp = fa_spec a" "ms_symbol (de_snapshot ev) = fa_symbol a"
    "xd_approved_quantity d \<noteq> None"
  using assms
  by (auto simp: fill_validate_def bind_r_eq_Inr Let_def fill_validate_decision_def fill_validate_intent_def
      fill_validate_order_def construct_eq_Inr valid_order_state_def)

text \<open>What an accepted call of the adapter does to the engine.\<close>

lemma p2_intent_Inr:
  assumes "p2_intent a d = Inr j"
  shows "valid_PaperIntent j" "pi_action j = xd_action d" "pi_action j \<noteq> HOLD"
    "pi_action j = ENTER_LONG \<Longrightarrow> op_quantity (bracket_of j) = the (xd_approved_quantity d)"
    "pi_action j = EXIT_LONG \<Longrightarrow> fa_active_quantity a = xd_approved_quantity d"
  using assms
  by (auto simp: p2_intent_def Let_def split: IntentAction.splits option.splits if_splits
      dest: entry_intent_Inr plain_intent_Inr)

lemma process_exit_quantity:
  assumes "process ev i c g = (g', Inr fs)" "pi_action i = EXIT_LONG"
  shows "fs \<noteq> []" "fr_action (hd fs) = EXIT_LONG" "engine_holding g = Some (fr_quantity (hd fs))"
proof -
  have "process_exit ev c g = (g', Inr fs)"
    using process_Inr_body [OF assms(1)] assms(2) by (auto simp: process_body_def act_bind_eq_Inr split: if_splits)
  then show "fs \<noteq> []" "fr_action (hd fs) = EXIT_LONG" "engine_holding g = Some (fr_quantity (hd fs))"
    by (auto simp: process_exit_def act_bind_eq_Inr engine_holding_def split: option.splits dest: fill_reference_Inr(2,3))
qed

lemma fill_first_reference:
  assumes "fill_inv sp a" "p2_intent a d = Inr j" "process ev j c (fa_engine a) = (g, Inr refs)"
    and "xd_approved_quantity d = Some q"
  shows "fr_action (hd refs) = xd_action d" "fr_quantity (hd refs) = q"
    "fe_has_position g \<Longrightarrow> engine_holding g = Some q"
proof -
  note J = p2_intent_Inr [OF assms(2)]
  have inv: "fa_active_quantity a = engine_holding (fa_engine a)" using assms(1) by (simp add: fill_inv_def)
  have "fr_action (hd refs) = xd_action d \<and> fr_quantity (hd refs) = q \<and> (fe_has_position g \<longrightarrow> engine_holding g = Some q)"
  proof (cases "pi_action j")
    case ENTER_LONG
    show ?thesis
      using process_position(3) [OF assms(3) ENTER_LONG] J(2,4) ENTER_LONG assms(4)
      by (auto simp: bracket_of_def fe_has_position_def engine_holding_def)
  next
    case EXIT_LONG
    show ?thesis
      using process_exit_quantity [OF assms(3) EXIT_LONG] process_position(2) [OF assms(3) EXIT_LONG] J(2,5) EXIT_LONG
        inv assms(4) by (simp add: fe_has_position_def)
  qed (use J(3) in simp)
  then show "fr_action (hd refs) = xd_action d" "fr_quantity (hd refs) = q"
    "fe_has_position g \<Longrightarrow> engine_holding g = Some q" by simp_all
qed

lemma fill_process_inv:
  assumes "fill_inv sp a" "fill_process ev d i s c sp' a = (b, Inr t)"
  shows "fill_inv sp b"
proof -
  from assms(2) obtain j g refs where v: "fill_validate a ev d i s sp' = Inr ()" and j: "p2_intent a d = Inr j"
    and p: "process ev j c (fa_engine a) = (g, Inr refs)"
    and b: "b = a\<lparr> fa_engine := g, fa_active_quantity := (if fe_has_position g then xd_approved_quantity d else None),
           fa_last_sequence := Some (de_sequence ev), fa_last_decision_time_ms := Some (de_decision_time_ms ev) \<rparr>"
    by (rule fill_process_Inr)
  obtain q where q: "xd_approved_quantity d = Some q" using fill_validate_Inr(11) [OF v] by blast
  have "\<not> fe_has_position g \<Longrightarrow> engine_holding g = None" by (simp add: fe_has_position_def engine_holding_def)
  then show ?thesis
    using assms(1) process_symbol [OF p] process_outcome(5) [OF p] p2_intent_Inr(1) [OF j]
      fill_first_reference(3) [OF assms(1) j p q] q
    by (auto simp: fill_inv_def b)
qed

interpretation fill_adapter: atomic_object fill_input "\<lambda>_. True" "fill_inv sp" for sp
  by unfold_locales (auto simp: fill_input_def split: prod.splits dest: fill_process_Inl fill_process_inv)

lemma fill_adapter_init:
  "LocalPaperFillCostAdapter_init smb sp = Inr a \<Longrightarrow> fill_inv sp a"
  by (auto simp: LocalPaperFillCostAdapter_init_def PaperFillEngine_init_def bind_r_eq_Inr fill_inv_def engine_ok_def
      engine_holding_def split: if_splits)

text \<open>Every fill of an accepted call carries the exact costs.\<close>

lemma fill_costs_exact:
  assumes "fill_inv sp a" "valid_BacktestSpec sp" "process ev j c (fa_engine a) = (g, Inr refs)"
    and "map_r (\<lambda>r. apply_costs r sp) refs = Inr fills"
  shows "map cf_reference fills = refs"
    "list_all (\<lambda>f. cost_values_exact (cf_reference f) (val (fee_bps_decimal sp)) (val (slippage_bps_decimal sp)) (cf_values f)) fills"
proof -
  have m: "list_all2 (\<lambda>r f. apply_costs r sp = Inr f) refs fills" using assms(4) by (simp add: map_r_eq_Inr)
  have e: "cf_reference f = r \<and> cost_values_exact r (val (fee_bps_decimal sp)) (val (slippage_bps_decimal sp)) (cf_values f)"
    if "r \<in> set refs" "apply_costs r sp = Inr f" for r f
  proof -
    have "valid_FillReference r" "fr_symbol r = sp_symbol sp"
      using process_outcome(3) [OF assms(3)] that(1) assms(1) by (auto simp: event_fill_def fill_inv_def)
    from apply_costs_ok [OF this(1) assms(2) this(2)] show ?thesis using that(2) by (metis sum.inject(2))
  qed
  have "list_all2 (\<lambda>r f. cf_reference f = r
      \<and> cost_values_exact r (val (fee_bps_decimal sp)) (val (slippage_bps_decimal sp)) (cf_values f)) refs fills"
    by (rule list.rel_mono_strong [OF m]) (use e in blast)
  then show "map cf_reference fills = refs"
    "list_all (\<lambda>f. cost_values_exact (cf_reference f) (val (fee_bps_decimal sp)) (val (slippage_bps_decimal sp)) (cf_values f)) fills"
    by (induction rule: list_all2_induct) simp_all
qed

section \<open>Properties\<close>

text \<open>C4. A local paper fill is fully evidenced: after any history of the adapter, when a call with a
valid decision returns a fill step, then the risk layer approved the decision and startup reconciliation
passed, the intent is the canonical record of exactly this decision, its order is active, the first fill
has the decision's action and the approved quantity, an entry respects all exact risk limits, and every
fill carries the exact costs of the accepted specification.\<close>

theorem local_fills_are_evidenced:
  assumes "LocalPaperFillCostAdapter_init smb spec = Inr a0" and "valid_BacktestSpec spec"
    and "valid_LocalPaperExecutionDecision d"
    and "fill_process ev d i s c sp (foldl (\<lambda>a x. fst (fill_input x a)) a0 xs) = (b, Inr t)"
  shows "rd_disposition (az_decision (xd_authorization d)) = APPROVE_PAPER \<and> ry_status (xd_readiness d) = READY
    \<and> intent_from_decision d = Inr i \<and> os_intent_sha256 s = ir_intent_sha256 i \<and> os_status s = ACTIVE_LOCAL
    \<and> fr_action (hd (ls_references t)) = xd_action d
    \<and> rd_approved_quantity (az_decision (xd_authorization d)) = Some (fr_quantity (hd (ls_references t)))
    \<and> (xd_action d = ENTER_LONG \<longrightarrow> (\<exists>setup.
         sd_setup (rr_strategy_decision (az_request (xd_authorization d))) = Some setup
         \<and> safe_entry (az_request (xd_authorization d)) (az_managed_state (xd_authorization d)) setup
             (val (py_Decimal (fr_quantity (hd (ls_references t)))))))
    \<and> map cf_reference (ls_fills t) = ls_references t
    \<and> list_all (\<lambda>f. cost_values_exact (cf_reference f) (val (fee_bps_decimal spec)) (val (slippage_bps_decimal spec))
         (cf_values f)) (ls_fills t)"
proof -
  define a where "a = foldl (\<lambda>a x. fst (fill_input x a)) a0 xs"
  have inv: "fill_inv spec a"
    unfolding a_def using fill_adapter.drive_inv [OF fill_adapter_init [OF assms(1)], of xs]
    by (simp add: fill_adapter.drive_def list_all_iff)
  from assms(4) [folded a_def] obtain j g refs fills where v: "fill_validate a ev d i s sp = Inr ()"
    and j: "p2_intent a d = Inr j" and p: "process ev j c (fa_engine a) = (g, Inr refs)"
    and f: "map_r (\<lambda>r. apply_costs r sp) refs = Inr fills"
    and t: "t = \<lparr> ls_authorization_sha256 = ir_authorization_sha256 i, ls_intent_sha256 = ir_intent_sha256 i,
           ls_order_state_sha256 = os_state_sha256 s, ls_p2_intent = j, ls_references = refs, ls_fills = fills \<rparr>"
    by (rule fill_process_Inr)
  note V = fill_validate_Inr [OF v]
  note A = accepted_decisionD [OF assms(3) V(2)]
  obtain q where q: "xd_approved_quantity d = Some q" using V(11) by blast
  note F = fill_first_reference [OF inv j p q]
  have sp: "sp = spec" using V(9) inv by (simp add: fill_inv_def)
  note C = fill_costs_exact [OF inv assms(2) p f [unfolded sp]]
  have z: "valid_RiskAuthorization (xd_authorization d)" using assms(3) by (simp add: valid_LocalPaperExecutionDecision_def)
  note Z = valid_RiskAuthorizationD [OF z]
  have "\<exists>setup. sd_setup (rr_strategy_decision (az_request (xd_authorization d))) = Some setup
         \<and> safe_entry (az_request (xd_authorization d)) (az_managed_state (xd_authorization d)) setup (val (py_Decimal q))"
    if "xd_action d = ENTER_LONG"
  proof -
    have "sd_action (rr_strategy_decision (az_request (xd_authorization d))) = SA_ENTER_LONG" using that A(7) by simp
    then obtain su q' where "sd_setup (rr_strategy_decision (az_request (xd_authorization d))) = Some su"
      "rd_approved_quantity (az_decision (xd_authorization d)) = Some q'"
      "safe_entry (az_request (xd_authorization d)) (az_managed_state (xd_authorization d)) su (val (py_Decimal q'))"
      using approved_entry [OF Z(1) _ A(1) Z(4,5)] by metis
    then show ?thesis using A(3) q by auto
  qed
  then show ?thesis using A(1,2) V(3,5,7) F(1,2) C A(3) q by (simp add: t)
qed

definition example_active :: LocalPaperOrderState where
  "example_active = \<lparr> os_authorization_sha256 = ir_authorization_sha256 example_intent,
     os_intent_sha256 = ir_intent_sha256 example_intent, os_sequence = 1, os_updated_time_ms = 1704067100000,
     os_status = ACTIVE_LOCAL, os_reason = LOCAL_ACTIVATION_CONFIRMED,
     os_previous_state_sha256 = Some (sha256_hexdigest ''pending''), os_event_sha256 = sha256_hexdigest ''activate'' \<rparr>"

lemma example_active_valid: "valid_order_state example_active"
  using example_intent_valid
  by (auto simp: valid_order_state_def LocalPaperOrderState_post_init_def example_active_def valid_intent_def
      LocalPaperIntentRecord_post_init_def split: if_splits)

lemma example_strategy:
  "rr_strategy_decision (az_request (xd_authorization example_execution)) = example_decision"
  "sc_snapshot (sd_context example_decision) = example_snapshot" "sd_setup example_decision = Some example_setup"
  "sd_symbol example_decision = ''BTCUSDT''" "sd_decision_time_ms example_decision = 1704067200000"
  "xd_approved_quantity example_execution = Some ''20''" "xd_action example_execution = ENTER_LONG"
  by (simp_all add: example_execution_def example_authorization_def example_request_def example_decision_def
      default_context_def sd_symbol_def sc_symbol_def sd_decision_time_ms_def sc_decision_time_ms_def example_snapshot_def)

lemma example_fill_run:
  assumes "LocalPaperFillCostAdapter_init ''BTCUSDT'' example_spec = Inr a0"
  obtains b t where "fill_process example_event example_execution example_intent example_active example_fill_candle
      example_spec a0 = (b, Inr t)" "ls_references t = [example_entry_fill]"
proof -
  have a0: "a0 = \<lparr> fa_symbol = ''BTCUSDT'', fa_spec = example_spec, fa_engine = \<lparr> fe_symbol = ''BTCUSDT'', fe_position = None \<rparr>,
      fa_active_quantity = None, fa_last_sequence = None, fa_last_decision_time_ms = None \<rparr>"
    using assms by (auto simp: LocalPaperFillCostAdapter_init_def PaperFillEngine_init_def bind_r_eq_Inr split: if_splits)
  have p: "LocalPaperExecutionDecision_post_init example_execution = Inr ()"
    using example_execution_valid by (simp add: valid_LocalPaperExecutionDecision_def)
  have d: "xd_disposition example_execution = ACCEPT_LOCAL_PAPER" by (simp add: example_execution_def)
  have ac: "os_authorization_sha256 example_active = ir_authorization_sha256 example_intent"
    "os_intent_sha256 example_active = ir_intent_sha256 example_intent" "os_status example_active = ACTIVE_LOCAL"
    "os_sequence example_active = 1"
    by (simp_all add: example_active_def)
  have ev: "de_snapshot example_event = example_snapshot" "de_decision_time_ms example_event = 1704067200000"
    "de_sequence example_event = 0" "ms_symbol example_snapshot = ''BTCUSDT''"
    "sp_start_time_ms example_spec = 1704067200000" "sp_end_time_ms example_spec = 1704153600000"
    by (simp_all add: example_event_def example_snapshot_def example_spec_def default_spec_def)
  have v: "fill_validate a0 example_event example_execution example_intent example_active example_spec = Inr ()"
    using p d ac ev example_strategy example_intent_recorded example_active_valid
    by (simp add: fill_validate_def fill_validate_decision_def fill_validate_intent_def fill_validate_order_def
        construct_ok a0 valid_order_state_def next_event_ok_def)
  have j: "p2_intent a0 example_execution = Inr example_entry"
    using example_strategy
    by (simp add: p2_intent_def a0 fa_has_position_def fe_has_position_def entry_intent_def construct_def example_entry_def
        example_setup_def PaperIntent_post_init_def positive_decimal_def interval_ms_def PRIMARY_INTERVAL_def py_eval)
  have r: "process example_event example_entry example_fill_candle (fa_engine a0) =
      (\<lparr> fe_symbol = ''BTCUSDT'', fe_position = Some (bracket_of example_entry) \<rparr>, Inr [example_entry_fill])"
    using example_engine_step by (simp add: a0)
  have "valid_FillReference example_entry_fill" "fr_symbol example_entry_fill = sp_symbol example_spec"
    using process_outcome(3) [OF r] by (simp_all add: event_fill_def a0 example_spec_def default_spec_def)
  from apply_costs_ok [OF this(1) example_spec_valid this(2)] obtain f
    where f: "apply_costs example_entry_fill example_spec = Inr f" "cf_reference f = example_entry_fill" by metis
  have "costed_fills example_event example_entry example_fill_candle example_spec (fa_engine a0) =
      Inr (\<lparr> fe_symbol = ''BTCUSDT'', fe_position = Some (bracket_of example_entry) \<rparr>, [example_entry_fill], [f])"
    using r f by (simp add: costed_fills_Inr)
  moreover have "valid_digest (ir_authorization_sha256 example_intent)" "valid_digest (ir_intent_sha256 example_intent)"
    using example_intent_valid by (auto simp: valid_intent_def LocalPaperIntentRecord_post_init_def split: if_splits)
  ultimately show thesis
    using that v j f(2)
    by (auto simp: fill_process_def construct_def LocalPaperFillStep_post_init_def os_state_sha256_def example_entry_def
        example_entry_fill_def)
qed

theorem local_fills_are_evidenced_witness:
  "rd_disposition (az_decision (xd_authorization example_execution)) = APPROVE_PAPER
   \<and> rd_approved_quantity (az_decision (xd_authorization example_execution)) = Some (fr_quantity example_entry_fill)"
proof -
  obtain a0 where a0: "LocalPaperFillCostAdapter_init ''BTCUSDT'' example_spec = Inr a0"
    by (simp add: LocalPaperFillCostAdapter_init_def PaperFillEngine_init_def SYMBOLS_def example_spec_def default_spec_def)
  obtain b t where t: "fill_process example_event example_execution example_intent example_active example_fill_candle
      example_spec a0 = (b, Inr t)" "ls_references t = [example_entry_fill]"
    by (rule example_fill_run [OF a0])
  show ?thesis
    using local_fills_are_evidenced [OF a0 example_spec_valid example_execution_valid, of example_event example_intent
        example_active example_fill_candle example_spec "[]" b t] t by simp
qed

end
