(* ===== verification/Backtest_Portfolio.thy ===== *)
theory Backtest_Portfolio
  imports Backtest_Costs
begin

text \<open>
  \<^verbatim>\<open>yatl/backtest/portfolio.py\<close>: the long-only ledger and its valuation. The
  ledger object is a record; \<^verbatim>\<open>apply\<close> and \<^verbatim>\<open>apply_many\<close> are actions with the
  code's save/restore on \<^verbatim>\<open>PortfolioError\<close>. The invariant relates every field to
  exact rational sums over the fills applied so far.
\<close>

section \<open>Definitions\<close>

definition MAX_LEDGER_BATCH :: nat where "MAX_LEDGER_BATCH = 100000"

definition mark :: "string \<Rightarrow> dec result" where
  "mark v =
     (if \<not> plain_unsigned v
      then Inl (PortfolioError ''Mark price must be a plain positive decimal string'')
      else if d_le (py_Decimal v) d_zero then Inl (PortfolioError ''Mark price must be positive'')
      else Inr (py_Decimal v))"

record PortfolioSnapshot =
  ps_symbol :: string
  ps_cash :: dec
  ps_asset_quantity :: dec
  ps_cost_basis_quote :: dec
  ps_liquidation_value_quote :: dec
  ps_realized_pnl_quote :: dec
  ps_unrealized_pnl_quote :: dec
  ps_equity_quote :: dec
  ps_total_fee_quote :: dec
  ps_total_slippage_quote :: dec
  ps_closed_trades :: int

definition PortfolioSnapshot_post_init :: "PortfolioSnapshot \<Rightarrow> unit result" where
  "PortfolioSnapshot_post_init s =
     (let equity_is_valid = d_eq (ps_equity_quote s)
            (d_add DECIMAL_PRECISION (ps_cash s) (ps_liquidation_value_quote s));
          unrealized_is_valid = d_eq (ps_unrealized_pnl_quote s)
            (d_sub DECIMAL_PRECISION (ps_liquidation_value_quote s) (ps_cost_basis_quote s))
      in if ps_symbol s \<notin> set SYMBOLS
            \<or> d_lt (ps_cash s) d_zero \<or> d_lt (ps_asset_quantity s) d_zero
            \<or> d_lt (ps_cost_basis_quote s) d_zero \<or> d_lt (ps_liquidation_value_quote s) d_zero
            \<or> d_lt (ps_total_fee_quote s) d_zero \<or> d_lt (ps_total_slippage_quote s) d_zero
            \<or> ps_closed_trades s < 0
            \<or> \<not> equity_is_valid \<or> \<not> unrealized_is_valid
            \<or> (d_eq (ps_asset_quantity s) d_zero
               \<and> (\<not> d_eq (ps_cost_basis_quote s) d_zero \<or> \<not> d_eq (ps_liquidation_value_quote s) d_zero))
         then Inl (PortfolioError ''Portfolio snapshot arithmetic is inconsistent'')
         else Inr ())"

definition valid_PortfolioSnapshot :: "PortfolioSnapshot \<Rightarrow> bool" where
  "valid_PortfolioSnapshot s \<longleftrightarrow> PortfolioSnapshot_post_init s = Inr ()"

text \<open>\<open>pl_applied\<close> is the set \<^verbatim>\<open>_applied\<close>, kept as a list with the newest fill first.\<close>

record PortfolioLedger =
  pl_spec :: BacktestSpec
  pl_cash :: dec
  pl_asset_quantity :: dec
  pl_cost_basis_quote :: dec
  pl_realized_pnl_quote :: dec
  pl_total_fee_quote :: dec
  pl_total_slippage_quote :: dec
  pl_closed_trades :: int
  pl_last_fill_time_ms :: "int option"
  pl_applied :: "CostedFill list"

definition PortfolioLedger_init :: "BacktestSpec \<Rightarrow> PortfolioLedger" where
  "PortfolioLedger_init spec =
     \<lparr> pl_spec = spec, pl_cash = cash_decimal spec, pl_asset_quantity = d_zero,
       pl_cost_basis_quote = d_zero, pl_realized_pnl_quote = d_zero,
       pl_total_fee_quote = d_zero, pl_total_slippage_quote = d_zero,
       pl_closed_trades = 0, pl_last_fill_time_ms = None, pl_applied = [] \<rparr>"

definition pl_has_position :: "PortfolioLedger \<Rightarrow> bool" where
  "pl_has_position l \<longleftrightarrow> d_lt d_zero (pl_asset_quantity l)"

definition ledger_checks :: "PortfolioLedger \<Rightarrow> CostedFill \<Rightarrow> unit result" where
  "ledger_checks l fill =
     (if fr_symbol (cf_reference fill) \<noteq> sp_symbol (pl_spec l)
      then Inl (PortfolioError ''Costed fill does not belong to this portfolio'')
      else if \<not> d_eq (cf_fee_bps fill) (fee_bps_decimal (pl_spec l))
              \<or> \<not> d_eq (cf_slippage_bps fill) (slippage_bps_decimal (pl_spec l))
      then Inl (PortfolioError ''Costed fill uses a different cost policy'')
      else if \<exists>g\<in>set (pl_applied l). CostedFill_eq fill g
      then Inl (PortfolioError ''Costed fill was already applied'')
      else if (case pl_last_fill_time_ms l of None \<Rightarrow> False
               | Some t \<Rightarrow> fr_fill_time_ms (cf_reference fill) < t)
      then Inl (PortfolioError ''Costed fills are out of time order'')
      else Inr ())"

definition ledger_enter :: "CostedFill \<Rightarrow> (PortfolioLedger, unit) action" where
  "ledger_enter fill l =
     (if pl_has_position l
      then act_raise (PortfolioError ''Overlapping portfolio positions are forbidden'') l
      else let new_cash = d_add DECIMAL_PRECISION (pl_cash l) (cf_cash_delta fill)
           in if d_lt new_cash d_zero
              then act_raise (PortfolioError ''Portfolio has insufficient cash'') l
              else act_update (\<lambda>l. l\<lparr> pl_cash := new_cash, pl_asset_quantity := cf_asset_delta fill,
                     pl_cost_basis_quote := copy_negate (cf_cash_delta fill) \<rparr>) l)"

definition ledger_exit :: "CostedFill \<Rightarrow> (PortfolioLedger, unit) action" where
  "ledger_exit fill l =
     (if \<not> pl_has_position l \<or> \<not> d_eq (copy_negate (cf_asset_delta fill)) (pl_asset_quantity l)
      then act_raise (PortfolioError ''Exit must close the full long position'') l
      else let proceeds = cf_cash_delta fill
           in act_update (\<lambda>l. l\<lparr>
                pl_cash := d_add DECIMAL_PRECISION (pl_cash l) proceeds,
                pl_realized_pnl_quote := d_add DECIMAL_PRECISION (pl_realized_pnl_quote l)
                  (d_sub DECIMAL_PRECISION proceeds (pl_cost_basis_quote l)),
                pl_asset_quantity := d_zero, pl_cost_basis_quote := d_zero,
                pl_closed_trades := pl_closed_trades l + 1 \<rparr>) l)"

definition ledger_apply_raw :: "CostedFill \<Rightarrow> (PortfolioLedger, unit) action" where
  "ledger_apply_raw fill =
     act_bind (\<lambda>l. act_lift (ledger_checks l fill) l) (\<lambda>_.
     act_bind (if fr_action (cf_reference fill) = ENTER_LONG then ledger_enter fill
               else ledger_exit fill) (\<lambda>_.
     act_bind (act_update (\<lambda>l. l\<lparr>
         pl_total_fee_quote := d_add DECIMAL_PRECISION (pl_total_fee_quote l) (cf_fee_quote fill),
         pl_total_slippage_quote :=
           d_add DECIMAL_PRECISION (pl_total_slippage_quote l) (cf_slippage_quote fill) \<rparr>)) (\<lambda>_.
     act_bind (\<lambda>l. if d_lt (pl_cash l) d_zero \<or> d_lt (pl_asset_quantity l) d_zero
                   then act_raise (PortfolioError ''Portfolio balance became negative'') l
                   else act_return () l) (\<lambda>_.
     act_update (\<lambda>l. l\<lparr> pl_last_fill_time_ms := Some (fr_fill_time_ms (cf_reference fill)),
                        pl_applied := fill # pl_applied l \<rparr>)))))"

definition ledger_apply :: "CostedFill \<Rightarrow> (PortfolioLedger, unit) action" where
  "ledger_apply fill = with_rollback is_PortfolioError (ledger_apply_raw fill)"

definition ledger_apply_many :: "CostedFill list \<Rightarrow> (PortfolioLedger, unit) action" where
  "ledger_apply_many fills =
     (if \<not> (1 \<le> length fills \<and> length fills \<le> MAX_LEDGER_BATCH)
      then act_raise (PortfolioError ''Portfolio fill batch size is invalid'')
      else with_rollback is_PortfolioError (act_for fills ledger_apply_raw))"

definition ledger_snapshot :: "PortfolioLedger \<Rightarrow> string \<Rightarrow> PortfolioSnapshot result" where
  "ledger_snapshot l mark_price =
     bind_r (mark mark_price) (\<lambda>price.
     let p = DECIMAL_PRECISION;
         liquidation =
           (if pl_has_position l
            then let slipped = d_mul p price
                       (d_sub p d_one (d_div p (slippage_bps_decimal (pl_spec l)) BASIS_POINTS));
                     gross = d_mul p (pl_asset_quantity l) slipped
                 in d_mul p gross (d_sub p d_one (d_div p (fee_bps_decimal (pl_spec l)) BASIS_POINTS))
            else d_zero);
         unrealized = d_sub p liquidation (pl_cost_basis_quote l);
         equity = d_add p (pl_cash l) liquidation
     in construct PortfolioSnapshot_post_init
          \<lparr> ps_symbol = sp_symbol (pl_spec l), ps_cash = pl_cash l,
            ps_asset_quantity = pl_asset_quantity l,
            ps_cost_basis_quote = pl_cost_basis_quote l,
            ps_liquidation_value_quote = liquidation,
            ps_realized_pnl_quote = pl_realized_pnl_quote l,
            ps_unrealized_pnl_quote = unrealized, ps_equity_quote = equity,
            ps_total_fee_quote = pl_total_fee_quote l,
            ps_total_slippage_quote = pl_total_slippage_quote l,
            ps_closed_trades = pl_closed_trades l \<rparr>)"

section \<open>The exact ledger\<close>

text \<open>Exact sums over the applied fills, under the specification's cost policy.\<close>

definition cash_of :: "BacktestSpec \<Rightarrow> CostedFill \<Rightarrow> rat" where
  "cash_of s f = exact_cash (cf_reference f) (val (fee_bps_decimal s)) (val (slippage_bps_decimal s))"

definition fee_of :: "BacktestSpec \<Rightarrow> CostedFill \<Rightarrow> rat" where
  "fee_of s f = exact_fee (cf_reference f) (val (fee_bps_decimal s)) (val (slippage_bps_decimal s))"

definition slippage_of :: "BacktestSpec \<Rightarrow> CostedFill \<Rightarrow> rat" where
  "slippage_of s f = exact_slippage (cf_reference f) (val (slippage_bps_decimal s))"

definition is_exit :: "CostedFill \<Rightarrow> bool" where
  "is_exit f \<longleftrightarrow> fr_action (cf_reference f) = EXIT_LONG"

definition ledger_exact :: "PortfolioLedger \<Rightarrow> bool" where
  "ledger_exact l \<longleftrightarrow>
     (let s = pl_spec l; fs = pl_applied l in
      val (pl_cash l) = val (cash_decimal s) + (\<Sum>f\<leftarrow>fs. cash_of s f)
      \<and> val (pl_total_fee_quote l) = (\<Sum>f\<leftarrow>fs. fee_of s f)
      \<and> val (pl_total_slippage_quote l) = (\<Sum>f\<leftarrow>fs. slippage_of s f)
      \<and> val (pl_asset_quantity l) = (\<Sum>f\<leftarrow>fs. exact_asset (cf_reference f))
      \<and> val (pl_realized_pnl_quote l) = (\<Sum>f\<leftarrow>fs. cash_of s f) + val (pl_cost_basis_quote l)
      \<and> pl_closed_trades l = int (length (filter is_exit fs)))"

definition ledger_safe :: "PortfolioLedger \<Rightarrow> bool" where
  "ledger_safe l \<longleftrightarrow>
     valid_BacktestSpec (pl_spec l)
     \<and> (\<forall>f\<in>set (pl_applied l). valid_FillReference (cf_reference f))
     \<and> 0 \<le> val (pl_cash l)
     \<and> (if pl_has_position l
        then (\<exists>f\<in>set (pl_applied l). fr_action (cf_reference f) = ENTER_LONG
              \<and> val (pl_asset_quantity l) = qty (cf_reference f)
              \<and> val (pl_cost_basis_quote l) = - cash_of (pl_spec l) f)
        else val (pl_asset_quantity l) = 0 \<and> val (pl_cost_basis_quote l) = 0)
     \<and> pl_last_fill_time_ms l =
         (case pl_applied l of [] \<Rightarrow> None | f # _ \<Rightarrow> Some (fr_fill_time_ms (cf_reference f)))
     \<and> sorted_wrt (\<lambda>f g. fr_fill_time_ms (cf_reference g) \<le> fr_fill_time_ms (cf_reference f)) (pl_applied l)"

definition ledger_ok :: "PortfolioLedger \<Rightarrow> bool" where
  "ledger_ok l \<longleftrightarrow> ledger_exact l \<and> ledger_safe l"

section \<open>Magnitudes of the sums\<close>

lemma sum_list_abs_bound:
  fixes g :: "'a \<Rightarrow> rat"
  assumes "\<forall>x\<in>set xs. \<bar>g x\<bar> \<le> B"
  shows "\<bar>\<Sum>x\<leftarrow>xs. g x\<bar> \<le> of_nat (length xs) * B"
  using assms
proof (induction xs)
  case (Cons x xs)
  then have "\<bar>\<Sum>y\<leftarrow>xs. g y\<bar> \<le> of_nat (length xs) * B" "\<bar>g x\<bar> \<le> B" by simp_all
  then show ?case
    using abs_triangle_ineq [of "g x" "\<Sum>y\<leftarrow>xs. g y"] by (simp add: algebra_simps)
qed simp

lemma sum_list_on_grid: "\<forall>x\<in>set xs. on_grid z (g x) \<Longrightarrow> on_grid z (\<Sum>x\<leftarrow>xs. g x)"
  by (induction xs) (auto intro: on_grid_add)

lemma sum_list_nonneg_rat: "\<forall>x\<in>set xs. 0 \<le> (g x :: rat) \<Longrightarrow> 0 \<le> (\<Sum>x\<leftarrow>xs. g x)"
  by (induction xs) auto

lemma fill_of_bounds:
  assumes "valid_BacktestSpec s" "valid_FillReference (cf_reference f)"
  shows "on_grid (-168) (cash_of s f)" "\<bar>cash_of s f\<bar> < 10 ^ 82"
    "on_grid (-168) (fee_of s f)" "0 \<le> fee_of s f" "fee_of s f < 10 ^ 82"
    "on_grid (-168) (slippage_of s f)" "0 \<le> slippage_of s f" "slippage_of s f < 10 ^ 82"
proof -
  note R = spec_rates [OF assms(1)]
  note B = exact_bounds [OF assms(2) R] and C = exact_cash_bounds [OF assms(2) R]
  show "on_grid (-168) (cash_of s f)" "\<bar>cash_of s f\<bar> < 10 ^ 82" using C by (simp_all add: cash_of_def)
  show "on_grid (-168) (fee_of s f)" "0 \<le> fee_of s f" using B by (simp_all add: fee_of_def)
  show "fee_of s f < 10 ^ 82" unfolding fee_of_def using B(8,9,12) by simp
  show "on_grid (-168) (slippage_of s f)"
    unfolding slippage_of_def using on_grid_coarser [OF B(13)] by simp
  show "0 \<le> slippage_of s f" "slippage_of s f < 10 ^ 82"
    unfolding slippage_of_def using B(14,15) by simp_all
qed

text \<open>One more fill after fewer than 100000 of them: sums stay exact at 256 digits.\<close>

lemma representable_sum:
  fixes g :: "CostedFill \<Rightarrow> rat"
  assumes n: "length fs \<le> MAX_LEDGER_BATCH"
    and g: "\<forall>f\<in>set fs. on_grid (-168) (g f) \<and> \<bar>g f\<bar> < 10 ^ 82"
    and a: "on_grid (-168) a" "\<bar>a\<bar> \<le> 10 ^ 84"
  shows "representable DECIMAL_PRECISION (a + (\<Sum>f\<leftarrow>fs. g f))"
proof -
  have "\<bar>\<Sum>f\<leftarrow>fs. g f\<bar> \<le> of_nat (length fs) * 10 ^ 82"
    using g by (intro sum_list_abs_bound) auto
  also have "\<dots> \<le> 10 ^ 5 * 10 ^ 82" using n by (intro mult_right_mono) (auto simp: MAX_LEDGER_BATCH_def)
  finally have "\<bar>a + (\<Sum>f\<leftarrow>fs. g f)\<bar> \<le> 10 ^ 84 + 10 ^ 5 * 10 ^ 82" using a(2) by linarith
  also have "\<dots> < (10::rat) ^ 88" by simp
  finally have "\<bar>a + (\<Sum>f\<leftarrow>fs. g f)\<bar> < 10 ^ 88" .
  moreover have "on_grid (-168) (a + (\<Sum>f\<leftarrow>fs. g f))"
    using g a(1) by (intro on_grid_add sum_list_on_grid) auto
  ultimately show ?thesis by (intro representable_256 [of "-168" _ 88]) simp_all
qed

section \<open>A fill under the ledger's policy\<close>

lemma ledger_checks_ok:
  assumes "ledger_checks l f = Inr ()"
  shows "fr_symbol (cf_reference f) = sp_symbol (pl_spec l)"
    "val (cf_fee_bps f) = val (fee_bps_decimal (pl_spec l))"
    "val (cf_slippage_bps f) = val (slippage_bps_decimal (pl_spec l))"
    "\<not> (\<exists>g\<in>set (pl_applied l). CostedFill_eq f g)"
    "\<forall>t. pl_last_fill_time_ms l = Some t \<longrightarrow> t \<le> fr_fill_time_ms (cf_reference f)"
  using assms by (auto simp: ledger_checks_def dec_val split: if_splits option.splits)

lemma policy_fill_values:
  assumes "valid_BacktestSpec s" "valid_CostedFill f"
    "val (cf_fee_bps f) = val (fee_bps_decimal s)"
    "val (cf_slippage_bps f) = val (slippage_bps_decimal s)"
  shows "val (cf_cash_delta f) = cash_of s f" "val (cf_fee_quote f) = fee_of s f"
    "val (cf_slippage_quote f) = slippage_of s f"
    "val (cf_asset_delta f) = exact_asset (cf_reference f)"
proof -
  have "rate_ok (cf_fee_bps f)" "rate_ok (cf_slippage_bps f)"
    using spec_rates [OF assms(1)] assms(3,4) by (simp_all add: rate_ok_def)
  from valid_CostedFill_exact [OF assms(2) this] assms(3,4)
  show "val (cf_cash_delta f) = cash_of s f" "val (cf_fee_quote f) = fee_of s f"
    "val (cf_slippage_quote f) = slippage_of s f"
    "val (cf_asset_delta f) = exact_asset (cf_reference f)"
    by (simp_all add: cost_values_exact_def cf_values_def cash_of_def fee_of_def slippage_of_def)
qed

lemma valid_CostedFill_reference: "valid_CostedFill f \<Longrightarrow> valid_FillReference (cf_reference f)"
  by (simp add: valid_CostedFill_def)

text \<open>The state after a successful fill, on each of the two branches.\<close>

definition after_enter :: "CostedFill \<Rightarrow> PortfolioLedger \<Rightarrow> PortfolioLedger" where
  "after_enter f l = l\<lparr> pl_cash := d_add DECIMAL_PRECISION (pl_cash l) (cf_cash_delta f),
     pl_asset_quantity := cf_asset_delta f, pl_cost_basis_quote := copy_negate (cf_cash_delta f),
     pl_total_fee_quote := d_add DECIMAL_PRECISION (pl_total_fee_quote l) (cf_fee_quote f),
     pl_total_slippage_quote := d_add DECIMAL_PRECISION (pl_total_slippage_quote l) (cf_slippage_quote f),
     pl_last_fill_time_ms := Some (fr_fill_time_ms (cf_reference f)), pl_applied := f # pl_applied l \<rparr>"

definition after_exit :: "CostedFill \<Rightarrow> PortfolioLedger \<Rightarrow> PortfolioLedger" where
  "after_exit f l = l\<lparr> pl_cash := d_add DECIMAL_PRECISION (pl_cash l) (cf_cash_delta f),
     pl_realized_pnl_quote := d_add DECIMAL_PRECISION (pl_realized_pnl_quote l)
       (d_sub DECIMAL_PRECISION (cf_cash_delta f) (pl_cost_basis_quote l)),
     pl_asset_quantity := d_zero, pl_cost_basis_quote := d_zero,
     pl_closed_trades := pl_closed_trades l + 1,
     pl_total_fee_quote := d_add DECIMAL_PRECISION (pl_total_fee_quote l) (cf_fee_quote f),
     pl_total_slippage_quote := d_add DECIMAL_PRECISION (pl_total_slippage_quote l) (cf_slippage_quote f),
     pl_last_fill_time_ms := Some (fr_fill_time_ms (cf_reference f)), pl_applied := f # pl_applied l \<rparr>"

lemma ledger_apply_raw_cases:
  assumes "ledger_apply_raw f l = (l', Inr u)"
  obtains (enter) "ledger_checks l f = Inr ()" "fr_action (cf_reference f) = ENTER_LONG"
      "\<not> pl_has_position l" "l' = after_enter f l" "0 \<le> val (pl_cash l')"
  | (exit) "ledger_checks l f = Inr ()" "fr_action (cf_reference f) \<noteq> ENTER_LONG"
      "pl_has_position l" "val (pl_asset_quantity l) = - val (cf_asset_delta f)"
      "l' = after_exit f l" "0 \<le> val (pl_cash l')"
proof (cases "fr_action (cf_reference f) = ENTER_LONG")
  case True
  with assms show thesis
    by (intro enter) (auto simp: ledger_apply_raw_def act_bind_eq_Inr ledger_enter_def Let_def
        after_enter_def dec_val split: if_splits)
next
  case False
  with assms show thesis
    by (intro exit) (auto simp: ledger_apply_raw_def act_bind_eq_Inr ledger_exit_def Let_def
        after_exit_def dec_val split: if_splits)
qed

lemma ledger_apply_raw_Inl: "ledger_apply_raw f l = (l', Inl e) \<Longrightarrow> is_PortfolioError e"
  by (auto simp: ledger_apply_raw_def act_bind_eq_Inl ledger_enter_def ledger_exit_def Let_def
      ledger_checks_def split: if_splits)

section \<open>Exactness and safety are kept\<close>

lemma ledger_position:
  assumes "ledger_ok l" "pl_has_position l"
  obtains f where "valid_FillReference (cf_reference f)" "f \<in> set (pl_applied l)"
    "fr_action (cf_reference f) = ENTER_LONG" "val (pl_asset_quantity l) = qty (cf_reference f)"
    "val (pl_cost_basis_quote l) = - cash_of (pl_spec l) f"
proof -
  obtain f where "f \<in> set (pl_applied l)" "fr_action (cf_reference f) = ENTER_LONG"
    "val (pl_asset_quantity l) = qty (cf_reference f)"
    "val (pl_cost_basis_quote l) = - cash_of (pl_spec l) f"
    using assms by (simp add: ledger_ok_def ledger_safe_def) blast
  moreover have "valid_FillReference (cf_reference f)"
    using assms(1) \<open>f \<in> set (pl_applied l)\<close> by (simp add: ledger_ok_def ledger_safe_def)
  ultimately show thesis using that by blast
qed

lemma ledger_sums_representable:
  assumes "ledger_ok l" "length (pl_applied l) < MAX_LEDGER_BATCH"
    "valid_FillReference (cf_reference f)"
  shows "representable DECIMAL_PRECISION (val (cash_decimal (pl_spec l)) + (\<Sum>g\<leftarrow>f # pl_applied l. cash_of (pl_spec l) g))"
    "representable DECIMAL_PRECISION (\<Sum>g\<leftarrow>f # pl_applied l. cash_of (pl_spec l) g)"
    "representable DECIMAL_PRECISION (\<Sum>g\<leftarrow>f # pl_applied l. fee_of (pl_spec l) g)"
    "representable DECIMAL_PRECISION (\<Sum>g\<leftarrow>f # pl_applied l. slippage_of (pl_spec l) g)"
proof -
  let ?s = "pl_spec l" and ?fs = "f # pl_applied l"
  have s: "valid_BacktestSpec ?s" and v: "\<forall>g\<in>set ?fs. valid_FillReference (cf_reference g)"
    using assms by (auto simp: ledger_ok_def ledger_safe_def)
  have n: "length ?fs \<le> MAX_LEDGER_BATCH" using assms(2) by simp
  have "on_grid (-40) (val (cash_decimal ?s))"
    unfolding cash_decimal_def using valid_BacktestSpecD(7) [OF s] by (rule plain_unsigned_grid)
  then have c: "on_grid (-168) (val (cash_decimal ?s))" by (rule on_grid_coarser) simp
  have c': "\<bar>val (cash_decimal ?s)\<bar> \<le> 10 ^ 84" using valid_BacktestSpecD(8,9) [OF s] by simp
  have C: "\<forall>g\<in>set ?fs. on_grid (-168) (cash_of ?s g) \<and> \<bar>cash_of ?s g\<bar> < 10 ^ 82"
    using v fill_of_bounds(1,2) [OF s] by blast
  have F: "\<forall>g\<in>set ?fs. on_grid (-168) (fee_of ?s g) \<and> \<bar>fee_of ?s g\<bar> < 10 ^ 82"
    using v fill_of_bounds(3-5) [OF s] abs_of_nonneg by metis
  have S: "\<forall>g\<in>set ?fs. on_grid (-168) (slippage_of ?s g) \<and> \<bar>slippage_of ?s g\<bar> < 10 ^ 82"
    using v fill_of_bounds(6-8) [OF s] abs_of_nonneg by metis
  show "representable DECIMAL_PRECISION (val (cash_decimal ?s) + (\<Sum>g\<leftarrow>?fs. cash_of ?s g))"
    by (rule representable_sum [OF n C c c'])
  show "representable DECIMAL_PRECISION (\<Sum>g\<leftarrow>?fs. cash_of ?s g)"
    "representable DECIMAL_PRECISION (\<Sum>g\<leftarrow>?fs. fee_of ?s g)"
    "representable DECIMAL_PRECISION (\<Sum>g\<leftarrow>?fs. slippage_of ?s g)"
    using representable_sum [OF n C, of 0] representable_sum [OF n F, of 0]
      representable_sum [OF n S, of 0] by (simp_all only: on_grid_0 add_0 abs_zero) simp_all
qed

text \<open>The fields that both branches change the same way.\<close>

lemma ledger_common_values:
  assumes ok: "ledger_ok l" and n: "length (pl_applied l) < MAX_LEDGER_BATCH"
    and f: "valid_CostedFill f" and ch: "ledger_checks l f = Inr ()"
  shows "val (d_add DECIMAL_PRECISION (pl_cash l) (cf_cash_delta f))
      = val (cash_decimal (pl_spec l)) + (\<Sum>g\<leftarrow>f # pl_applied l. cash_of (pl_spec l) g)"
    "val (d_add DECIMAL_PRECISION (pl_total_fee_quote l) (cf_fee_quote f))
      = (\<Sum>g\<leftarrow>f # pl_applied l. fee_of (pl_spec l) g)"
    "val (d_add DECIMAL_PRECISION (pl_total_slippage_quote l) (cf_slippage_quote f))
      = (\<Sum>g\<leftarrow>f # pl_applied l. slippage_of (pl_spec l) g)"
    "val (cf_cash_delta f) = cash_of (pl_spec l) f"
    "val (cf_asset_delta f) = exact_asset (cf_reference f)"
proof -
  have s: "valid_BacktestSpec (pl_spec l)" using ok by (simp add: ledger_ok_def ledger_safe_def)
  note V = policy_fill_values [OF s f ledger_checks_ok(2,3) [OF ch]]
  note R = ledger_sums_representable [OF ok n valid_CostedFill_reference [OF f]]
  have E: "val (pl_cash l) = val (cash_decimal (pl_spec l)) + (\<Sum>g\<leftarrow>pl_applied l. cash_of (pl_spec l) g)"
    "val (pl_total_fee_quote l) = (\<Sum>g\<leftarrow>pl_applied l. fee_of (pl_spec l) g)"
    "val (pl_total_slippage_quote l) = (\<Sum>g\<leftarrow>pl_applied l. slippage_of (pl_spec l) g)"
    using ok by (simp_all add: ledger_ok_def ledger_exact_def Let_def)
  show "val (d_add DECIMAL_PRECISION (pl_cash l) (cf_cash_delta f))
      = val (cash_decimal (pl_spec l)) + (\<Sum>g\<leftarrow>f # pl_applied l. cash_of (pl_spec l) g)"
    using R(1) by (subst val_d_add) (simp_all add: V E algebra_simps)
  show "val (d_add DECIMAL_PRECISION (pl_total_fee_quote l) (cf_fee_quote f))
      = (\<Sum>g\<leftarrow>f # pl_applied l. fee_of (pl_spec l) g)"
    using R(3) by (subst val_d_add) (simp_all add: V E algebra_simps)
  show "val (d_add DECIMAL_PRECISION (pl_total_slippage_quote l) (cf_slippage_quote f))
      = (\<Sum>g\<leftarrow>f # pl_applied l. slippage_of (pl_spec l) g)"
    using R(4) by (subst val_d_add) (simp_all add: V E algebra_simps)
  show "val (cf_cash_delta f) = cash_of (pl_spec l) f"
    "val (cf_asset_delta f) = exact_asset (cf_reference f)" by (fact V)+
qed

text \<open>The realized profit of an exit.\<close>

lemma ledger_realized_value:
  assumes ok: "ledger_ok l" and n: "length (pl_applied l) < MAX_LEDGER_BATCH"
    and f: "valid_CostedFill f" and ch: "ledger_checks l f = Inr ()" and p: "pl_has_position l"
  shows "val (d_add DECIMAL_PRECISION (pl_realized_pnl_quote l)
      (d_sub DECIMAL_PRECISION (cf_cash_delta f) (pl_cost_basis_quote l)))
    = (\<Sum>g\<leftarrow>f # pl_applied l. cash_of (pl_spec l) g)"
proof -
  let ?s = "pl_spec l"
  have s: "valid_BacktestSpec ?s" using ok by (simp add: ledger_ok_def ledger_safe_def)
  note V = ledger_common_values [OF ok n f ch]
  obtain g where g: "g \<in> set (pl_applied l)" "val (pl_cost_basis_quote l) = - cash_of ?s g"
    "valid_FillReference (cf_reference g)"
    by (rule ledger_position [OF ok p])
  note B = fill_of_bounds [OF s g(3)] and C = fill_of_bounds [OF s valid_CostedFill_reference [OF f]]
  have "\<bar>cash_of ?s f + cash_of ?s g\<bar> < 10 ^ 83" using B(2) C(2) by (simp add: abs_less_iff)
  then have "representable DECIMAL_PRECISION (cash_of ?s f + cash_of ?s g)"
    by (rule representable_256 [OF on_grid_add [OF C(1) B(1)]]) simp
  then have d: "val (d_sub DECIMAL_PRECISION (cf_cash_delta f) (pl_cost_basis_quote l))
      = cash_of ?s f - val (pl_cost_basis_quote l)"
    by (subst val_d_sub) (simp_all add: V g(2))
  have r: "val (pl_realized_pnl_quote l) = (\<Sum>g\<leftarrow>pl_applied l. cash_of ?s g) + val (pl_cost_basis_quote l)"
    using ok by (simp add: ledger_ok_def ledger_exact_def Let_def)
  show ?thesis
    using ledger_sums_representable(2) [OF ok n valid_CostedFill_reference [OF f]]
    by (subst val_d_add) (simp_all add: d r algebra_simps)
qed

lemma after_enter_ok:
  assumes ok: "ledger_ok l" and n: "length (pl_applied l) < MAX_LEDGER_BATCH"
    and f: "valid_CostedFill f" and ch: "ledger_checks l f = Inr ()"
    and a: "fr_action (cf_reference f) = ENTER_LONG" "\<not> pl_has_position l"
    and c: "0 \<le> val (pl_cash (after_enter f l))"
  shows "ledger_ok (after_enter f l)"
proof -
  note V = ledger_common_values [OF ok n f ch]
  note S = ok [unfolded ledger_ok_def ledger_safe_def]
  have q: "0 < qty (cf_reference f)"
    using valid_FillReferenceD(9) [OF valid_CostedFill_reference [OF f]] by (simp add: qty_def)
  have z: "val (pl_asset_quantity l) = 0" "val (pl_cost_basis_quote l) = 0"
    using S a(2) by (simp_all split: if_splits)
  have "ledger_exact (after_enter f l)"
    using ok a z V
    by (simp add: ledger_ok_def ledger_exact_def Let_def after_enter_def is_exit_def exact_asset_def)
  moreover have "ledger_safe (after_enter f l)"
    using S ledger_checks_ok(5) [OF ch] valid_CostedFill_reference [OF f] c a V(4,5) q
    by (cases "pl_applied l")
      (auto simp: ledger_safe_def after_enter_def pl_has_position_def dec_val exact_asset_def)
  ultimately show ?thesis by (simp add: ledger_ok_def)
qed

lemma after_exit_ok:
  assumes ok: "ledger_ok l" and n: "length (pl_applied l) < MAX_LEDGER_BATCH"
    and f: "valid_CostedFill f" and ch: "ledger_checks l f = Inr ()"
    and a: "fr_action (cf_reference f) \<noteq> ENTER_LONG" "pl_has_position l"
    and e: "val (pl_asset_quantity l) = - val (cf_asset_delta f)"
    and c: "0 \<le> val (pl_cash (after_exit f l))"
  shows "ledger_ok (after_exit f l)"
proof -
  note V = ledger_common_values [OF ok n f ch] and W = ledger_realized_value [OF ok n f ch a(2)]
  note S = ok [unfolded ledger_ok_def ledger_safe_def]
  have x: "fr_action (cf_reference f) = EXIT_LONG"
    using a(1) valid_FillReferenceD(1) [OF valid_CostedFill_reference [OF f]] by simp
  have "ledger_exact (after_exit f l)"
    using ok x e V W
    by (simp add: ledger_ok_def ledger_exact_def Let_def after_exit_def is_exit_def exact_asset_def)
  moreover have "ledger_safe (after_exit f l)"
    using S ledger_checks_ok(5) [OF ch] valid_CostedFill_reference [OF f] c
    by (cases "pl_applied l")
      (auto simp: ledger_safe_def after_exit_def pl_has_position_def dec_val)
  ultimately show ?thesis by (simp add: ledger_ok_def)
qed

lemma ledger_apply_raw_frame:
  assumes "ledger_apply_raw f l = (l', Inr u)"
  shows "pl_applied l' = f # pl_applied l \<and> pl_spec l' = pl_spec l"
  using assms by (cases rule: ledger_apply_raw_cases) (simp_all add: after_enter_def after_exit_def)

lemma ledger_apply_raw_ok:
  assumes "ledger_ok l" "length (pl_applied l) < MAX_LEDGER_BATCH" "valid_CostedFill f"
    "ledger_apply_raw f l = (l', Inr u)"
  shows "ledger_ok l'"
  using assms(4)
  by (cases rule: ledger_apply_raw_cases) (use assms after_enter_ok after_exit_ok in simp_all)

section \<open>The object's contract\<close>

lemma ledger_apply_atomic: "ledger_apply f l = (l', Inl e) \<Longrightarrow> l' = l"
  by (auto simp: ledger_apply_def with_rollback_def split: prod.splits sum.splits if_splits
      dest: ledger_apply_raw_Inl)

lemma act_for_Inl:
  "act_for fs ledger_apply_raw l = (l', Inl e) \<Longrightarrow> is_PortfolioError e"
  by (induction fs arbitrary: l) (auto simp: act_bind_eq_Inl dest: ledger_apply_raw_Inl)

lemma ledger_apply_many_atomic: "ledger_apply_many fs l = (l', Inl e) \<Longrightarrow> l' = l"
  by (auto simp: ledger_apply_many_def with_rollback_def split: prod.splits sum.splits if_splits
      dest: act_for_Inl)

text \<open>
  The invariant of a ledger of any age: as long as it has seen at most
  \<open>MAX_LEDGER_BATCH\<close> fills its books are exact.
\<close>

definition ledger_inv :: "PortfolioLedger \<Rightarrow> bool" where
  "ledger_inv l \<longleftrightarrow> (length (pl_applied l) \<le> MAX_LEDGER_BATCH \<longrightarrow> ledger_ok l)"

lemma ledger_apply_raw_inv:
  assumes "ledger_inv l" "valid_CostedFill f" "ledger_apply_raw f l = (l', Inr u)"
  shows "ledger_inv l'"
  using assms ledger_apply_raw_frame [OF assms(3)] ledger_apply_raw_ok [OF _ _ assms(2,3)]
  by (auto simp: ledger_inv_def)

lemma act_for_frame:
  "act_for fs ledger_apply_raw l = (l', Inr u) \<Longrightarrow>
     pl_applied l' = rev fs @ pl_applied l \<and> pl_spec l' = pl_spec l"
  by (induction fs arbitrary: l) (auto simp: act_bind_eq_Inr dest!: ledger_apply_raw_frame)

lemma act_for_inv:
  "ledger_inv l \<Longrightarrow> list_all valid_CostedFill fs \<Longrightarrow> act_for fs ledger_apply_raw l = (l', Inr u) \<Longrightarrow>
     ledger_inv l' \<and> pl_applied l' = rev fs @ pl_applied l \<and> pl_spec l' = pl_spec l"
proof (induction fs arbitrary: l)
  case (Cons f fs)
  then obtain m where m: "ledger_apply_raw f l = (m, Inr ())"
    and r: "act_for fs ledger_apply_raw m = (l', Inr u)"
    by (auto simp: act_bind_eq_Inr)
  have "ledger_inv m" using ledger_apply_raw_inv [OF _ _ m] Cons.prems by simp
  from Cons.IH [OF this _ r] Cons.prems ledger_apply_raw_frame [OF m] show ?case by simp
qed simp

interpretation ledger: atomic_object ledger_apply valid_CostedFill ledger_inv
  by unfold_locales
    (auto simp: ledger_apply_def with_rollback_Inr dest: ledger_apply_raw_inv
      intro: ledger_apply_atomic [unfolded ledger_apply_def])

interpretation ledger_batch: atomic_object ledger_apply_many "list_all valid_CostedFill" ledger_inv
  by unfold_locales
    (auto simp: ledger_apply_many_def with_rollback_Inr split: if_splits dest: act_for_inv
      intro: ledger_apply_many_atomic [unfolded ledger_apply_many_def])

lemma PortfolioLedger_init_ok:
  assumes "valid_BacktestSpec s"
  shows "ledger_ok (PortfolioLedger_init s)"
  using assms valid_BacktestSpecD(8) [OF assms]
  by (simp add: ledger_ok_def ledger_exact_def ledger_safe_def PortfolioLedger_init_def Let_def
      pl_has_position_def dec_val)

text \<open>The conservation law: nothing enters or leaves the books except through fills.\<close>

lemma ledger_conservation:
  "ledger_ok l \<Longrightarrow> val (pl_cash l) =
     val (cash_decimal (pl_spec l)) + val (pl_realized_pnl_quote l) - val (pl_cost_basis_quote l)"
  by (simp add: ledger_ok_def ledger_exact_def Let_def)

section \<open>Valuation\<close>

text \<open>Selling the holding at a mark, after slippage and fee.\<close>

definition exact_liquidation :: "PortfolioLedger \<Rightarrow> rat \<Rightarrow> rat" where
  "exact_liquidation l price =
     val (pl_asset_quantity l) * (price * (1 - val (slippage_bps_decimal (pl_spec l)) / 10000))
       * (1 - val (fee_bps_decimal (pl_spec l)) / 10000)"

definition liquidation_dec :: "PortfolioLedger \<Rightarrow> dec \<Rightarrow> dec" where
  "liquidation_dec l price =
     (let p = DECIMAL_PRECISION
      in if pl_has_position l
         then d_mul p (d_mul p (pl_asset_quantity l) (d_mul p price
                (d_sub p d_one (d_div p (slippage_bps_decimal (pl_spec l)) BASIS_POINTS))))
                (d_sub p d_one (d_div p (fee_bps_decimal (pl_spec l)) BASIS_POINTS))
         else d_zero)"

lemma one_minus_rate:
  assumes "rate_ok d"
  shows "val (d_sub DECIMAL_PRECISION d_one (d_div DECIMAL_PRECISION d BASIS_POINTS)) = 1 - val d / 10000"
    "on_grid (-44) (1 - val d / 10000)" "0 < 1 - val d / 10000" "1 - val d / 10000 \<le> 1"
proof -
  note R = val_bps_rate [OF assms]
  have one: "on_grid (-44) 1" using on_grid_coarser [OF on_grid_int [of 1], of "-44"] by simp
  show g: "on_grid (-44) (1 - val d / 10000)" by (rule on_grid_diff [OF one R(2)])
  show b: "0 < 1 - val d / 10000" "1 - val d / 10000 \<le> 1" using R(3,4) by linarith+
  have "representable DECIMAL_PRECISION (1 - val d / 10000)"
    by (rule representable_256 [OF g, of 1]) (use b in auto)
  then show "val (d_sub DECIMAL_PRECISION d_one (d_div DECIMAL_PRECISION d BASIS_POINTS)) = 1 - val d / 10000"
    by (simp add: val_d_sub R(1))
qed

lemma mult_below:
  fixes a b c :: rat
  assumes "0 < a" "a < c" "0 < b" "b \<le> 1"
  shows "0 < a * b" "a * b < c"
proof -
  have "a * b \<le> a * 1" using assms by (intro mult_left_mono) auto
  then show "a * b < c" using assms(2) by simp
qed (use assms in simp)

lemma liquidation_exact:
  assumes ok: "ledger_ok l" and m: "plain_unsigned price" "0 < val (py_Decimal price)"
  shows "val (liquidation_dec l (py_Decimal price)) = exact_liquidation l (val (py_Decimal price))
    \<and> on_grid (-168) (exact_liquidation l (val (py_Decimal price)))
    \<and> 0 \<le> exact_liquidation l (val (py_Decimal price))
    \<and> exact_liquidation l (val (py_Decimal price)) < 10 ^ 81"
proof (cases "pl_has_position l")
  case False
  then have "val (pl_asset_quantity l) = 0" using ok by (simp add: ledger_ok_def ledger_safe_def)
  then show ?thesis
    using False by (simp add: exact_liquidation_def liquidation_dec_def Let_def)
next
  case True
  let ?p = "val (py_Decimal price)" and ?a = "val (pl_asset_quantity l)"
  have s: "valid_BacktestSpec (pl_spec l)" using ok by (simp add: ledger_ok_def ledger_safe_def)
  obtain f :: CostedFill where f: "valid_FillReference (cf_reference f)" "?a = qty (cf_reference f)"
    using ledger_position [OF ok True] by blast
  note F = one_minus_rate [OF spec_rates(1) [OF s]] and S = one_minus_rate [OF spec_rates(2) [OF s]]
  have a: "on_grid (-40) ?a" "0 < ?a" "?a < 10 ^ 40"
    using exact_bounds(1-3) [OF f(1) spec_rates [OF s]] f(2) by simp_all
  have p: "on_grid (-40) ?p" "?p < 10 ^ 40"
    using plain_unsigned_grid [OF m(1)] plain_unsigned_bounds(3) [OF m(1)] by blast+
  let ?x = "?p * (1 - val (slippage_bps_decimal (pl_spec l)) / 10000)"
  have x: "on_grid (-84) ?x" "0 < ?x" "?x < 10 ^ 40"
    using on_grid_mult [OF p(1) S(2)] mult_below [OF m(2) p(2) S(3,4)] by simp_all
  have y: "on_grid (-124) (?a * ?x)" "0 < ?a * ?x"
    using on_grid_mult [OF a(1) x(1)] a x by simp_all
  have y3: "?a * ?x < 10 ^ 40 * 10 ^ 40" by (rule mult_strict_mono [OF a(3) x(3)]) (use x in simp_all)
  let ?z = "exact_liquidation l ?p"
  have z: "on_grid (-168) ?z" "0 < ?z" "?z < 10 ^ 81"
    using on_grid_mult [OF y(1) F(2)] mult_below [OF y(2) y3 F(3,4)]
    by (simp_all add: exact_liquidation_def)
  have "representable DECIMAL_PRECISION ?x" "representable DECIMAL_PRECISION (?a * ?x)"
    "representable DECIMAL_PRECISION ?z"
    using representable_256 [OF x(1), of 40] representable_256 [OF y(1), of 80]
      representable_256 [OF z(1), of 81] x y y3 z by simp_all
  then have "val (liquidation_dec l (py_Decimal price)) = ?z"
    using True unfolding liquidation_dec_def exact_liquidation_def Let_def
    by (simp only: val_d_mul F(1) S(1) precision_pos if_True)
  then show ?thesis using z by simp
qed

lemma ledger_value_bounds:
  assumes ok: "ledger_ok l" and n: "length (pl_applied l) \<le> MAX_LEDGER_BATCH"
    and z: "on_grid (-168) z" "0 \<le> z" "z < 10 ^ 81"
  shows "representable DECIMAL_PRECISION (val (pl_cash l) + z)"
    "representable DECIMAL_PRECISION (z - val (pl_cost_basis_quote l))"
    "0 \<le> val (pl_cash l)" "0 \<le> val (pl_asset_quantity l)" "0 \<le> val (pl_cost_basis_quote l)"
    "0 \<le> val (pl_total_fee_quote l)" "0 \<le> val (pl_total_slippage_quote l)" "0 \<le> pl_closed_trades l"
proof -
  let ?s = "pl_spec l" and ?fs = "pl_applied l"
  note E = ok [unfolded ledger_ok_def ledger_exact_def Let_def, THEN conjunct1]
  have s: "valid_BacktestSpec ?s" and v: "\<forall>g\<in>set ?fs. valid_FillReference (cf_reference g)"
    and c: "0 \<le> val (pl_cash l)"
    using ok by (auto simp: ledger_ok_def ledger_safe_def)
  have "on_grid (-40) (val (cash_decimal ?s))"
    unfolding cash_decimal_def using valid_BacktestSpecD(7) [OF s] by (rule plain_unsigned_grid)
  then have g: "on_grid (-168) (val (cash_decimal ?s) + z)"
    using z(1) by (intro on_grid_add) (auto intro: on_grid_coarser)
  have b: "\<bar>val (cash_decimal ?s) + z\<bar> \<le> 10 ^ 84" using valid_BacktestSpecD(8,9) [OF s] z by simp
  have "\<forall>g\<in>set ?fs. on_grid (-168) (cash_of ?s g) \<and> \<bar>cash_of ?s g\<bar> < 10 ^ 82"
    using v fill_of_bounds(1,2) [OF s] by blast
  from representable_sum [OF n this g b]
  show "representable DECIMAL_PRECISION (val (pl_cash l) + z)" using E by (simp add: algebra_simps)
  have p: "on_grid (-168) (val (pl_cost_basis_quote l)) \<and> 0 \<le> val (pl_cost_basis_quote l)
    \<and> val (pl_cost_basis_quote l) < 10 ^ 82 \<and> 0 \<le> val (pl_asset_quantity l)"
  proof (cases "pl_has_position l")
    case True
    obtain f where w: "valid_FillReference (cf_reference f)"
      and f: "f \<in> set ?fs" "fr_action (cf_reference f) = ENTER_LONG"
      "val (pl_asset_quantity l) = qty (cf_reference f)" "val (pl_cost_basis_quote l) = - cash_of ?s f"
      by (rule ledger_position [OF ok True])
    show ?thesis
      using fill_of_bounds(1,2) [OF s w] exact_cash_bounds(3) [OF w spec_rates [OF s] f(2)]
        exact_bounds(2) [OF w spec_rates [OF s]] f(3,4)
      by (auto simp: cash_of_def intro: on_grid_neg)
  qed (use ok in \<open>simp add: ledger_ok_def ledger_safe_def\<close>)
  then have "\<bar>z - val (pl_cost_basis_quote l)\<bar> < 10 ^ 83" using z by (simp add: abs_less_iff)
  then show "representable DECIMAL_PRECISION (z - val (pl_cost_basis_quote l))"
    using p by (intro representable_256 [OF on_grid_diff [OF z(1)], of _ 83]) auto
  show "0 \<le> val (pl_total_fee_quote l)" "0 \<le> val (pl_total_slippage_quote l)" "0 \<le> pl_closed_trades l"
    using E v fill_of_bounds(4,7) [OF s] by (auto intro!: sum_list_nonneg_rat)
  show "0 \<le> val (pl_cash l)" "0 \<le> val (pl_asset_quantity l)" "0 \<le> val (pl_cost_basis_quote l)"
    using c p by auto
qed

lemma mark_Inr [result_simps]:
  "mark v = Inr n \<longleftrightarrow> plain_unsigned v \<and> 0 < val (py_Decimal v) \<and> n = py_Decimal v"
  by (auto simp: mark_def dec_val)

lemma ledger_snapshot_ok:
  assumes ok: "ledger_ok l" and n: "length (pl_applied l) \<le> MAX_LEDGER_BATCH"
    and m: "plain_unsigned price" "0 < val (py_Decimal price)"
  obtains s where "ledger_snapshot l price = Inr s" "valid_PortfolioSnapshot s"
    "ps_cash s = pl_cash l"
    "val (ps_liquidation_value_quote s) = exact_liquidation l (val (py_Decimal price))"
    "val (ps_equity_quote s) = val (pl_cash l) + exact_liquidation l (val (py_Decimal price))"
    "val (ps_equity_quote s) = val (cash_decimal (pl_spec l)) + val (ps_realized_pnl_quote s)
       + val (ps_unrealized_pnl_quote s)"
proof -
  let ?liq = "liquidation_dec l (py_Decimal price)" and ?P = DECIMAL_PRECISION
  let ?s = "\<lparr> ps_symbol = sp_symbol (pl_spec l), ps_cash = pl_cash l,
    ps_asset_quantity = pl_asset_quantity l, ps_cost_basis_quote = pl_cost_basis_quote l,
    ps_liquidation_value_quote = ?liq, ps_realized_pnl_quote = pl_realized_pnl_quote l,
    ps_unrealized_pnl_quote = d_sub ?P ?liq (pl_cost_basis_quote l),
    ps_equity_quote = d_add ?P (pl_cash l) ?liq, ps_total_fee_quote = pl_total_fee_quote l,
    ps_total_slippage_quote = pl_total_slippage_quote l, ps_closed_trades = pl_closed_trades l \<rparr>"
  have L: "val ?liq = exact_liquidation l (val (py_Decimal price))" "on_grid (-168) (val ?liq)"
    "0 \<le> val ?liq" "val ?liq < 10 ^ 81"
    using liquidation_exact [OF ok m] by simp_all
  note B = ledger_value_bounds [OF ok n L(2-4)]
  have eq: "val (d_add ?P (pl_cash l) ?liq) = val (pl_cash l) + val ?liq"
    "val (d_sub ?P ?liq (pl_cost_basis_quote l)) = val ?liq - val (pl_cost_basis_quote l)"
    using B by (simp_all add: val_d_add val_d_sub)
  have flat: "val (pl_asset_quantity l) = 0 \<Longrightarrow> val (pl_cost_basis_quote l) = 0 \<and> val ?liq = 0"
    using ok L(1) by (auto simp: ledger_ok_def ledger_safe_def pl_has_position_def dec_val exact_liquidation_def)
  have "sp_symbol (pl_spec l) \<in> set SYMBOLS"
    using ok valid_BacktestSpecD(1) by (auto simp: ledger_ok_def ledger_safe_def)
  then have v: "PortfolioSnapshot_post_init ?s = Inr ()"
    using B L(3) flat by (auto simp: PortfolioSnapshot_post_init_def dec_val Let_def not_less)
  have "ledger_snapshot l price = construct PortfolioSnapshot_post_init ?s"
    using m by (simp add: ledger_snapshot_def mark_def dec_val Let_def liquidation_dec_def)
  then have "ledger_snapshot l price = Inr ?s" using construct_ok [of PortfolioSnapshot_post_init, OF v] by (rule trans)
  then show thesis
    by (rule that) (use v eq L(1) ledger_conservation [OF ok] in \<open>simp_all add: valid_PortfolioSnapshot_def\<close>)
qed

section \<open>Runs of the ledger\<close>

lemma ledger_apply_frame:
  "length (pl_applied (fst (ledger_apply f l))) \<le> Suc (length (pl_applied l))
   \<and> pl_spec (fst (ledger_apply f l)) = pl_spec l"
proof (cases "ledger_apply f l")
  case (Pair t r)
  show ?thesis
  proof (cases r)
    case (Inl e)
    then show ?thesis using ledger_apply_atomic [of f l t e] Pair by simp
  next
    case (Inr u)
    then have "ledger_apply_raw f l = (t, Inr u)"
      using Pair by (simp add: ledger_apply_def with_rollback_Inr)
    then show ?thesis using ledger_apply_raw_frame Pair by fastforce
  qed
qed

lemma ledger_run_frame:
  "length (pl_applied (ledger.drive fs l)) \<le> length fs + length (pl_applied l)
   \<and> pl_spec (ledger.drive fs l) = pl_spec l"
proof (induction fs arbitrary: l)
  case (Cons f fs)
  from Cons [of "fst (ledger_apply f l)"] ledger_apply_frame [of f l] show ?case
    by (auto simp: ledger.drive_def)
qed (simp add: ledger.drive_def)

lemma ledger_run_ok:
  assumes "valid_BacktestSpec s" "list_all valid_CostedFill fs" "length fs \<le> MAX_LEDGER_BATCH"
  shows "ledger_ok (ledger.drive fs (PortfolioLedger_init s))"
proof -
  have "ledger_inv (ledger.drive fs (PortfolioLedger_init s))"
    by (rule ledger.drive_inv) (use PortfolioLedger_init_ok [OF assms(1)] assms(2) in \<open>simp_all add: ledger_inv_def\<close>)
  then show ?thesis
    using ledger_run_frame [of fs "PortfolioLedger_init s"] assms(3)
    by (simp add: ledger_inv_def PortfolioLedger_init_def)
qed

section \<open>Properties\<close>

definition example_entry :: FillReference where
  "example_entry = \<lparr> fr_action = ENTER_LONG, fr_symbol = ''BTCUSDT'', fr_decision_time_ms = 1704070800000,
     fr_fill_time_ms = 1704070800000, fr_quantity = ''0.01'', fr_reference_price = ''42000.5'',
     fr_reason = NEXT_PRIMARY_OPEN \<rparr>"

lemma example_entry_valid: "valid_FillReference example_entry"
  by (simp add: valid_FillReference_def FillReference_post_init_def example_entry_def
      positive_decimal_def SYMBOLS_def py_eval)

lemma example_symbol: "fr_symbol example_entry = sp_symbol example_spec"
  by (simp add: example_entry_def example_spec_def default_spec_def)

text \<open>C14. The cost model never rounds: for every legal fill reference and every legal
specification of the same symbol \<^verbatim>\<open>apply_costs\<close> returns, and execution price, gross
amount, fee, slippage and cash movement are exactly the rational values of the policy: an entry
pays the reference price raised by the slippage rate, an exit receives it lowered.\<close>

theorem apply_costs_is_exact:
  assumes "valid_FillReference r" "valid_BacktestSpec s" "fr_symbol r = sp_symbol s"
  shows "\<exists>f. apply_costs r s = Inr f \<and> valid_CostedFill f \<and>
    (let price = val (py_Decimal (fr_reference_price r)); q = val (py_Decimal (fr_quantity r));
         fee = val (py_Decimal (sp_fee_bps s)) / 10000; slip = val (py_Decimal (sp_slippage_bps s)) / 10000;
         entry = (fr_action r = ENTER_LONG);
         executed = price * (if entry then 1 + slip else 1 - slip); gross = q * executed
     in val (cf_execution_price f) = executed \<and> val (cf_gross_quote f) = gross
        \<and> val (cf_fee_quote f) = gross * fee \<and> val (cf_slippage_quote f) = q * (price * slip)
        \<and> val (cf_cash_delta f) = (if entry then - gross else gross) - gross * fee
        \<and> val (cf_asset_delta f) = (if entry then q else - q))"
proof -
  obtain f where f: "apply_costs r s = Inr f" "valid_CostedFill f"
    and x: "cost_values_exact r (val (fee_bps_decimal s)) (val (slippage_bps_decimal s)) (cf_values f)"
    using apply_costs_ok [OF assms] by blast
  show ?thesis
    using f x
    by (intro exI [of _ f])
      (simp only: cost_values_exact_def cf_values_def exact_price_def exact_gross_def exact_fee_def
        exact_slippage_def exact_cash_def exact_asset_def qty_def fee_bps_decimal_def
        slippage_bps_decimal_def Let_def prod.case)
qed

theorem apply_costs_is_exact_witness:
  "\<exists>f. apply_costs example_entry example_spec = Inr f \<and> valid_CostedFill f"
  using apply_costs_is_exact [OF example_entry_valid example_spec_valid example_symbol] by blast

text \<open>C13. The books are exact: whatever sequence of up to 100000 legal costed fills is offered to
a fresh ledger, with every rejected fill caught by the caller, the cash is exactly the initial cash
plus the exact cash movements of the accepted fills and is never negative, the fee and slippage
totals and the holding are exact sums, the trade count is the number of exits, and
cash equals initial cash plus realized profit minus cost basis.\<close>

theorem ledger_books_exact:
  assumes "valid_BacktestSpec s" "list_all valid_CostedFill fs" "length fs \<le> MAX_LEDGER_BATCH"
  shows "let l = foldl (\<lambda>l f. fst (ledger_apply f l)) (PortfolioLedger_init s) fs; done = pl_applied l
    in val (pl_cash l) = val (cash_decimal s) + (\<Sum>f\<leftarrow>done. cash_of s f)
     \<and> 0 \<le> val (pl_cash l)
     \<and> val (pl_total_fee_quote l) = (\<Sum>f\<leftarrow>done. fee_of s f)
     \<and> val (pl_total_slippage_quote l) = (\<Sum>f\<leftarrow>done. slippage_of s f)
     \<and> val (pl_asset_quantity l) = (\<Sum>f\<leftarrow>done. exact_asset (cf_reference f))
     \<and> 0 \<le> val (pl_asset_quantity l)
     \<and> pl_closed_trades l = int (length (filter is_exit done))
     \<and> val (pl_cash l) = val (cash_decimal s) + val (pl_realized_pnl_quote l) - val (pl_cost_basis_quote l)"
proof -
  let ?l = "ledger.drive fs (PortfolioLedger_init s)"
  have ok: "ledger_ok ?l" by (rule ledger_run_ok [OF assms])
  have s: "pl_spec ?l = s"
    using ledger_run_frame [of fs "PortfolioLedger_init s"] by (simp add: PortfolioLedger_init_def)
  have n: "length (pl_applied ?l) \<le> MAX_LEDGER_BATCH"
    using ledger_run_frame [of fs "PortfolioLedger_init s"] assms(3) by (simp add: PortfolioLedger_init_def)
  have "0 \<le> val (pl_asset_quantity ?l)" "0 \<le> val (pl_cash ?l)"
    using ledger_value_bounds(3,4) [OF ok n, of 0] by simp_all
  then show ?thesis
    using ok ledger_conservation [OF ok]
    unfolding ledger.drive_def [symmetric] Let_def
    by (simp add: ledger_ok_def ledger_exact_def Let_def s)
qed

theorem ledger_books_exact_witness:
  "\<exists>f. apply_costs example_entry example_spec = Inr f \<and>
     (let l = foldl (\<lambda>l f. fst (ledger_apply f l)) (PortfolioLedger_init example_spec) [f, f]
      in 0 \<le> val (pl_cash l) \<and> val (pl_cash l) =
          val (cash_decimal example_spec) + val (pl_realized_pnl_quote l) - val (pl_cost_basis_quote l))"
proof -
  obtain f where f: "apply_costs example_entry example_spec = Inr f" "valid_CostedFill f"
    using apply_costs_ok [OF example_entry_valid example_spec_valid example_symbol] by blast
  have "list_all valid_CostedFill [f, f]" "length [f, f] \<le> MAX_LEDGER_BATCH"
    using f(2) by (simp_all add: MAX_LEDGER_BATCH_def)
  from ledger_books_exact [OF example_spec_valid this] f(1) show ?thesis
    by (auto simp: Let_def simp del: foldl.simps)
qed

text \<open>C35. A batch is all or nothing: when \<^verbatim>\<open>apply_many\<close> raises, whichever fill of the batch
was refused, the error is a \<^verbatim>\<open>PortfolioError\<close> and the ledger is the one before the call; when it
returns, exactly the fills of the batch were added, in their order.\<close>

theorem ledger_batch_all_or_nothing:
  "case ledger_apply_many fills l of
     (l', Inl e) \<Rightarrow> l' = l \<and> is_PortfolioError e
   | (l', Inr _) \<Rightarrow> pl_applied l' = rev fills @ pl_applied l \<and> pl_spec l' = pl_spec l
       \<and> 1 \<le> length fills \<and> length fills \<le> MAX_LEDGER_BATCH"
proof (cases "ledger_apply_many fills l")
  case (Pair l' r)
  show ?thesis
  proof (cases r)
    case (Inl e)
    have "is_PortfolioError e"
      using Pair Inl act_for_Inl
      by (fastforce simp: ledger_apply_many_def with_rollback_def split: if_splits prod.splits sum.splits)
    then show ?thesis using Pair Inl ledger_apply_many_atomic [of fills l l' e] by simp
  next
    case (Inr u)
    then have "act_for fills ledger_apply_raw l = (l', Inr u)" "1 \<le> length fills \<and> length fills \<le> MAX_LEDGER_BATCH"
      using Pair by (auto simp: ledger_apply_many_def with_rollback_Inr split: if_splits)
    then show ?thesis using Pair Inr act_for_frame [of fills l l' u] by simp
  qed
qed

text \<open>Valuation is total and exact: a ledger with exact books and at most 100000 fills can be
valued at every positive plain mark price; the snapshot passes its own consistency check, the
liquidation value is the holding sold at the mark after slippage and fee, and equity equals the
initial cash plus realized plus unrealized profit.\<close>

theorem ledger_snapshot_total:
  assumes "ledger_ok l" "length (pl_applied l) \<le> MAX_LEDGER_BATCH"
    "plain_unsigned price" "0 < val (py_Decimal price)"
  shows "\<exists>s. ledger_snapshot l price = Inr s \<and> valid_PortfolioSnapshot s
    \<and> val (ps_liquidation_value_quote s) = val (pl_asset_quantity l)
        * (val (py_Decimal price) * (1 - val (slippage_bps_decimal (pl_spec l)) / 10000))
        * (1 - val (fee_bps_decimal (pl_spec l)) / 10000)
    \<and> val (ps_equity_quote s) = val (ps_cash s) + val (ps_liquidation_value_quote s)
    \<and> val (ps_equity_quote s) = val (cash_decimal (pl_spec l)) + val (ps_realized_pnl_quote s)
        + val (ps_unrealized_pnl_quote s)"
proof -
  obtain s where s: "ledger_snapshot l price = Inr s" "valid_PortfolioSnapshot s" "ps_cash s = pl_cash l"
    "val (ps_liquidation_value_quote s) = exact_liquidation l (val (py_Decimal price))"
    "val (ps_equity_quote s) = val (pl_cash l) + exact_liquidation l (val (py_Decimal price))"
    "val (ps_equity_quote s) = val (cash_decimal (pl_spec l)) + val (ps_realized_pnl_quote s)
       + val (ps_unrealized_pnl_quote s)"
    using ledger_snapshot_ok [OF assms] by blast
  then show ?thesis by (intro exI [of _ s]) (simp add: exact_liquidation_def)
qed

theorem ledger_snapshot_total_witness:
  "\<exists>s. ledger_snapshot (PortfolioLedger_init example_spec) ''42000.5'' = Inr s \<and> valid_PortfolioSnapshot s"
  using ledger_snapshot_total [OF PortfolioLedger_init_ok [OF example_spec_valid], of "''42000.5''"]
  by (auto simp: PortfolioLedger_init_def dec_val [symmetric] val_d_zero [symmetric, of False 0] py_eval
      simp del: val_d_zero)

end
