(* ===== verification/Execution_Portfolio.thy ===== *)
theory Execution_Portfolio
  imports Execution_Fills Backtest_Portfolio Py_Json_Read "HOL-Library.Sublist"
begin

text \<open>
  \<^verbatim>\<open>yatl/execution/portfolio.py\<close>: the durable fill log and the portfolio projection, kept
  in one transaction and verified by replay through the cost model and the ledger. The
  payload columns hold JSON text, so every load parses what an earlier call wrote; the
  theory shows that nothing is lost on the way.
\<close>

section \<open>Records\<close>

definition spec_record :: "BacktestSpec \<Rightarrow> json" where
  "spec_record spec = JObj
     [(''symbol'', JStr (sp_symbol spec)), (''start_time_ms'', JInt (sp_start_time_ms spec)),
      (''end_time_ms'', JInt (sp_end_time_ms spec)), (''initial_cash'', JStr (sp_initial_cash spec)),
      (''fee_bps'', JStr (sp_fee_bps spec)), (''slippage_bps'', JStr (sp_slippage_bps spec)),
      (''seed'', JInt (sp_seed spec)), (''paper_only'', JBool (sp_paper_only spec)),
      (''live_master_lock'', JStr (sp_live_master_lock spec)), (''spot_only'', JBool (sp_spot_only spec)),
      (''allow_short'', JBool (sp_allow_short spec)), (''allow_leverage'', JBool (sp_allow_leverage spec)),
      (''execution_price_policy'', JStr (sp_execution_price_policy spec))]"

definition spec_sha256 :: "BacktestSpec \<Rightarrow> string" where
  "spec_sha256 spec = py_digest (spec_record spec)"

definition snapshot_record :: "PortfolioSnapshot \<Rightarrow> json" where
  "snapshot_record s = JObj
     [(''symbol'', JStr (ps_symbol s)), (''cash'', JStr (d_format (ps_cash s))),
      (''asset_quantity'', JStr (d_format (ps_asset_quantity s))),
      (''cost_basis_quote'', JStr (d_format (ps_cost_basis_quote s))),
      (''liquidation_value_quote'', JStr (d_format (ps_liquidation_value_quote s))),
      (''realized_pnl_quote'', JStr (d_format (ps_realized_pnl_quote s))),
      (''unrealized_pnl_quote'', JStr (d_format (ps_unrealized_pnl_quote s))),
      (''equity_quote'', JStr (d_format (ps_equity_quote s))),
      (''total_fee_quote'', JStr (d_format (ps_total_fee_quote s))),
      (''total_slippage_quote'', JStr (d_format (ps_total_slippage_quote s))),
      (''closed_trades'', JInt (ps_closed_trades s))]"

text \<open>
  \<^verbatim>\<open>Decimal(record[key])\<close>: a missing key is a \<^verbatim>\<open>KeyError\<close>, a text that is not
  a number raises \<^verbatim>\<open>InvalidOperation\<close>, which is no \<^verbatim>\<open>ValueError\<close>. The texts
  are those that \<^verbatim>\<open>format(x, "f")\<close> writes, of any length.
\<close>

definition decimal_text :: "string \<Rightarrow> bool" where
  "decimal_text s =
     (let t = (if s \<noteq> [] \<and> hd s = CHR ''-'' then tl s else s);
          i = takeWhile is_digit t; rest = dropWhile is_digit t
      in i \<noteq> [] \<and> (rest = [] \<or> hd rest = CHR ''.'' \<and> tl rest \<noteq> [] \<and> list_all is_digit (tl rest)))"

abbreviation snapshot_error :: py_error where
  "snapshot_error \<equiv> LocalPaperPortfolioError ''Stored portfolio snapshot is invalid''"

definition decimal_field :: "string \<Rightarrow> json \<Rightarrow> dec result" where
  "decimal_field k record =
     (case json_get k record of
        Some (JStr s) \<Rightarrow> if decimal_text s then Inr (py_Decimal s) else Inl InvalidOperation
      | Some (JInt i) \<Rightarrow> Inr (dec_of_int i)
      | Some (JBool b) \<Rightarrow> Inr (dec_of_int (if b then 1 else 0))
      | _ \<Rightarrow> Inl snapshot_error)"

text \<open>A symbol or a count of another type fails the checks of the snapshot's constructor.\<close>

definition snapshot_from_record :: "json \<Rightarrow> PortfolioSnapshot result" where
  "snapshot_from_record record =
     (case json_get ''symbol'' record of
        None \<Rightarrow> Inl snapshot_error
      | Some symbol \<Rightarrow>
     bind_r (decimal_field ''cash'' record) (\<lambda>cash.
     bind_r (decimal_field ''asset_quantity'' record) (\<lambda>asset_quantity.
     bind_r (decimal_field ''cost_basis_quote'' record) (\<lambda>cost_basis_quote.
     bind_r (decimal_field ''liquidation_value_quote'' record) (\<lambda>liquidation_value_quote.
     bind_r (decimal_field ''realized_pnl_quote'' record) (\<lambda>realized_pnl_quote.
     bind_r (decimal_field ''unrealized_pnl_quote'' record) (\<lambda>unrealized_pnl_quote.
     bind_r (decimal_field ''equity_quote'' record) (\<lambda>equity_quote.
     bind_r (decimal_field ''total_fee_quote'' record) (\<lambda>total_fee_quote.
     bind_r (decimal_field ''total_slippage_quote'' record) (\<lambda>total_slippage_quote.
     case (symbol, json_get ''closed_trades'' record) of
       (JStr symbol, Some (JInt closed_trades)) \<Rightarrow>
         catch_r (construct PortfolioSnapshot_post_init
           \<lparr> ps_symbol = symbol, ps_cash = cash, ps_asset_quantity = asset_quantity,
             ps_cost_basis_quote = cost_basis_quote, ps_liquidation_value_quote = liquidation_value_quote,
             ps_realized_pnl_quote = realized_pnl_quote, ps_unrealized_pnl_quote = unrealized_pnl_quote,
             ps_equity_quote = equity_quote, ps_total_fee_quote = total_fee_quote,
             ps_total_slippage_quote = total_slippage_quote, ps_closed_trades = closed_trades \<rparr>)
           (\<lambda>e. is_PortfolioError e \<or> is_value_error e) snapshot_error
     | _ \<Rightarrow> Inl snapshot_error))))))))))"

text \<open>The generated \<^verbatim>\<open>__eq__\<close> of the snapshot compares the Decimals numerically.\<close>

definition snapshot_eq :: "PortfolioSnapshot \<Rightarrow> PortfolioSnapshot \<Rightarrow> bool" where
  "snapshot_eq s t \<longleftrightarrow> ps_symbol s = ps_symbol t \<and> d_eq (ps_cash s) (ps_cash t)
     \<and> d_eq (ps_asset_quantity s) (ps_asset_quantity t) \<and> d_eq (ps_cost_basis_quote s) (ps_cost_basis_quote t)
     \<and> d_eq (ps_liquidation_value_quote s) (ps_liquidation_value_quote t)
     \<and> d_eq (ps_realized_pnl_quote s) (ps_realized_pnl_quote t)
     \<and> d_eq (ps_unrealized_pnl_quote s) (ps_unrealized_pnl_quote t)
     \<and> d_eq (ps_equity_quote s) (ps_equity_quote t) \<and> d_eq (ps_total_fee_quote s) (ps_total_fee_quote t)
     \<and> d_eq (ps_total_slippage_quote s) (ps_total_slippage_quote t) \<and> ps_closed_trades s = ps_closed_trades t"

section \<open>Fill events and projections\<close>

record LocalPaperFillEvent =
  fv_sequence :: int
  fv_authorization_sha256 :: string
  fv_intent_sha256 :: string
  fv_order_state_sha256 :: string
  fv_fill_step_sha256 :: string
  fv_fill_index :: int
  fv_fill :: CostedFill

definition LocalPaperFillEvent_post_init :: "LocalPaperFillEvent \<Rightarrow> unit result" where
  "LocalPaperFillEvent_post_init e =
     (if fv_sequence e < 0 then Inl (LocalPaperPortfolioError ''Durable fill sequence is invalid'')
      else if fv_fill_index e < 0 then Inl (LocalPaperPortfolioError ''Durable fill index is invalid'')
      else if \<not> list_all valid_digest [fv_authorization_sha256 e, fv_intent_sha256 e,
           fv_order_state_sha256 e, fv_fill_step_sha256 e]
      then Inl (LocalPaperPortfolioError ''Durable fill identity digest is invalid'')
      else Inr ())"

definition fill_event_fields :: "LocalPaperFillEvent \<Rightarrow> (string \<times> json) list" where
  "fill_event_fields e =
     [(''schema_version'', JInt 1), (''sequence'', JInt (fv_sequence e)),
      (''authorization_sha256'', JStr (fv_authorization_sha256 e)),
      (''intent_sha256'', JStr (fv_intent_sha256 e)),
      (''order_state_sha256'', JStr (fv_order_state_sha256 e)),
      (''fill_step_sha256'', JStr (fv_fill_step_sha256 e)),
      (''fill_index'', JInt (fv_fill_index e)), (''fill'', fill_record (fv_fill e))]"

definition fill_event_sha256 :: "LocalPaperFillEvent \<Rightarrow> string" where
  "fill_event_sha256 e = py_digest (JObj (fill_event_fields e))"

definition fill_event_as_record :: "LocalPaperFillEvent \<Rightarrow> json" where
  "fill_event_as_record e = JObj (fill_event_fields e @ [(''fill_event_sha256'', JStr (fill_event_sha256 e))])"

record LocalPaperPortfolioProjection =
  pj_spec_sha256 :: string
  pj_fill_count :: int
  pj_last_fill_event_sha256 :: string
  pj_mark_price :: string
  pj_snapshot :: PortfolioSnapshot

definition LocalPaperPortfolioProjection_post_init :: "LocalPaperPortfolioProjection \<Rightarrow> unit result" where
  "LocalPaperPortfolioProjection_post_init p =
     require (valid_digest (pj_spec_sha256 p) \<and> valid_digest (pj_last_fill_event_sha256 p) \<and> 0 < pj_fill_count p)
       (LocalPaperPortfolioError ''Portfolio projection identity is invalid'')"

definition projection_fields :: "LocalPaperPortfolioProjection \<Rightarrow> (string \<times> json) list" where
  "projection_fields p =
     [(''schema_version'', JInt 1), (''spec_sha256'', JStr (pj_spec_sha256 p)),
      (''fill_count'', JInt (pj_fill_count p)),
      (''last_fill_event_sha256'', JStr (pj_last_fill_event_sha256 p)),
      (''mark_price'', JStr (pj_mark_price p)),
      (''position'', JStr (if d_lt d_zero (ps_asset_quantity (pj_snapshot p)) then ''LONG'' else ''FLAT'')),
      (''portfolio'', snapshot_record (pj_snapshot p))]"

definition projection_sha256 :: "LocalPaperPortfolioProjection \<Rightarrow> string" where
  "projection_sha256 p = py_digest (JObj (projection_fields p))"

definition projection_as_record :: "LocalPaperPortfolioProjection \<Rightarrow> json" where
  "projection_as_record p = JObj (projection_fields p @ [(''projection_sha256'', JStr (projection_sha256 p))])"

record LocalPaperPortfolioApplication =
  ap_events :: "LocalPaperFillEvent list"
  ap_projection :: LocalPaperPortfolioProjection

definition LocalPaperPortfolioApplication_post_init :: "LocalPaperPortfolioApplication \<Rightarrow> unit result" where
  "LocalPaperPortfolioApplication_post_init a =
     require (ap_events a \<noteq> []
        \<and> pj_last_fill_event_sha256 (ap_projection a) = fill_event_sha256 (last (ap_events a)))
       (LocalPaperPortfolioError ''Portfolio application evidence is invalid'')"

section \<open>The store\<close>

definition is_portfolio_store_error :: "py_error \<Rightarrow> bool" where
  "is_portfolio_store_error e \<longleftrightarrow> is_LocalPaperPortfolioError e \<or> is_DuplicateLocalPaperFill e"

abbreviation portfolio_error :: "string \<Rightarrow> py_error" where
  "portfolio_error \<equiv> LocalPaperPortfolioError"

definition portfolio_intent :: "string \<Rightarrow> ExecutionDatabase \<Rightarrow> LocalPaperIntentRecord result" where
  "portfolio_intent a db =
     (case select_row ir_authorization_sha256 a (db_intents db) of
        None \<Rightarrow> Inl (portfolio_error ''Fill has no durable accepted intent'')
      | Some r \<Rightarrow> catch_r (construct LocalPaperIntentRecord_post_init r)
          (\<lambda>e. is_ExecutionJournalError e \<or> is_IntentConflict e \<or> is_value_error e)
          (portfolio_error ''Stored fill intent is invalid''))"

text \<open>
  \<open>state_from_row\<close> with this module's errors: its only messages are that the row is
  invalid and that its digest changed.
\<close>

definition active_order :: "string \<Rightarrow> ExecutionDatabase \<Rightarrow> LocalPaperOrderState result" where
  "active_order a db =
     (case select_row st_authorization_sha256 a (db_order_states db) of
        None \<Rightarrow> Inl (portfolio_error ''Fill has no durable local order state'')
      | Some row \<Rightarrow>
          (case state_from_row row of
             Inr s \<Rightarrow> Inr s
           | Inl e \<Rightarrow> Inl (if e = LocalOrderError ''Stored local order state digest changed''
               then portfolio_error ''Stored local order state digest changed''
               else portfolio_error ''Stored local order state is invalid'')))"

fun IntentAction_of :: "string \<Rightarrow> IntentAction option" where
  "IntentAction_of s =
     (if s = ''HOLD'' then Some HOLD else if s = ''ENTER_LONG'' then Some ENTER_LONG
      else if s = ''EXIT_LONG'' then Some EXIT_LONG else None)"

fun FillReason_of :: "string \<Rightarrow> FillReason option" where
  "FillReason_of s =
     (if s = ''NEXT_PRIMARY_OPEN'' then Some NEXT_PRIMARY_OPEN else if s = ''SCRIPTED_EXIT'' then Some SCRIPTED_EXIT
      else if s = ''STOP'' then Some STOP else if s = ''TARGET'' then Some TARGET
      else if s = ''AMBIGUOUS_STOP_PRIORITY'' then Some AMBIGUOUS_STOP_PRIORITY else None)"

text \<open>
  The reference read from a payload. A missing key, a value of another type and an unknown
  enumeration member raise different exceptions, all of them caught by the same handler.
\<close>

definition reference_from_payload :: "json \<Rightarrow> FillReference option" where
  "reference_from_payload payload =
     (case (json_get_str ''action'' payload, json_get_str ''symbol'' payload,
            json_get_int ''decision_time_ms'' payload, json_get_int ''fill_time_ms'' payload,
            json_get_str ''quantity'' payload, json_get_str ''reference_price'' payload,
            json_get_str ''reason'' payload) of
        (Some action, Some symbol, Some decision_time_ms, Some fill_time_ms, Some quantity, Some price, Some reason) \<Rightarrow>
          (case (IntentAction_of action, FillReason_of reason) of
             (Some a, Some y) \<Rightarrow> Some
               \<lparr> fr_action = a, fr_symbol = symbol, fr_decision_time_ms = decision_time_ms,
                 fr_fill_time_ms = fill_time_ms, fr_quantity = quantity, fr_reference_price = price,
                 fr_reason = y \<rparr>
           | _ \<Rightarrow> None)
      | _ \<Rightarrow> None)"

text \<open>\<^verbatim>\<open>json.loads\<close>, the reference with its checks, the costs, and the comparison of the payloads.\<close>

definition stored_fill :: "BacktestSpec \<Rightarrow> string \<Rightarrow> py_error \<Rightarrow> py_error \<Rightarrow> CostedFill result" where
  "stored_fill spec payload_json invalid differs =
     (case json_loads payload_json of
        None \<Rightarrow> Inl invalid
      | Some payload \<Rightarrow>
          (case reference_from_payload payload of
             None \<Rightarrow> Inl invalid
           | Some r \<Rightarrow>
               bind_r (catch_r (bind_r (construct FillReference_post_init r) (\<lambda>reference. apply_costs reference spec))
                 (\<lambda>e. is_CostModelError e \<or> is_FillModelError e \<or> is_value_error e) invalid) (\<lambda>fill.
               if \<not> json_eq (fill_record fill) payload then Inl differs else Inr fill)))"

definition fill_event_from_row :: "BacktestSpec \<Rightarrow> FillEventRow \<Rightarrow> LocalPaperFillEvent result" where
  "fill_event_from_row spec row =
     bind_r (stored_fill spec (fx_payload_json row) (portfolio_error ''Stored durable fill event is invalid'')
        (portfolio_error ''Stored fill differs from accepted P2 costs'')) (\<lambda>fill.
     bind_r (construct LocalPaperFillEvent_post_init
        \<lparr> fv_sequence = fx_sequence row, fv_authorization_sha256 = fx_authorization_sha256 row,
          fv_intent_sha256 = fx_intent_sha256 row, fv_order_state_sha256 = fx_order_state_sha256 row,
          fv_fill_step_sha256 = fx_fill_step_sha256 row, fv_fill_index = fx_fill_index row, fv_fill = fill \<rparr>) (\<lambda>event.
     if fill_event_sha256 event \<noteq> fx_fill_event_sha256 row
     then Inl (portfolio_error ''Stored durable fill digest changed'') else Inr event))"

text \<open>A value of another type fails the checks of the projection's constructor.\<close>

definition projection_from_payload :: "json \<Rightarrow> LocalPaperPortfolioProjection result" where
  "projection_from_payload payload =
     (let invalid = portfolio_error ''Stored portfolio projection is invalid'' in
      case (json_get ''spec_sha256'' payload, json_get ''fill_count'' payload,
            json_get ''last_fill_event_sha256'' payload, json_get ''mark_price'' payload,
            json_get ''portfolio'' payload) of
        (Some spec_digest, Some fill_count, Some last_fill, Some mark_price, Some portfolio) \<Rightarrow>
          bind_r (snapshot_from_record portfolio) (\<lambda>snapshot.
          case (spec_digest, fill_count, last_fill, mark_price) of
            (JStr spec_digest, JInt fill_count, JStr last_fill, JStr mark_price) \<Rightarrow>
              construct LocalPaperPortfolioProjection_post_init
                \<lparr> pj_spec_sha256 = spec_digest, pj_fill_count = fill_count,
                  pj_last_fill_event_sha256 = last_fill, pj_mark_price = mark_price, pj_snapshot = snapshot \<rparr>
          | _ \<Rightarrow> Inl (portfolio_error ''Portfolio projection identity is invalid''))
      | _ \<Rightarrow> Inl invalid)"

definition projection_matches_row ::
    "LocalPaperPortfolioProjection \<Rightarrow> json \<Rightarrow> PortfolioRow \<Rightarrow> bool" where
  "projection_matches_row p payload row \<longleftrightarrow>
     projection_sha256 p = px_projection_sha256 row \<and> json_eq (projection_as_record p) payload
     \<and> pj_spec_sha256 p = px_spec_sha256 row \<and> pj_fill_count p = px_fill_count row
     \<and> pj_last_fill_event_sha256 p = px_last_fill_event_sha256 row \<and> pj_mark_price p = px_mark_price row"

definition projection_from_row :: "PortfolioRow option \<Rightarrow> LocalPaperPortfolioProjection option result" where
  "projection_from_row row_opt =
     (case row_opt of
        None \<Rightarrow> Inr None
      | Some row \<Rightarrow>
          (case json_loads (px_payload_json row) of
             None \<Rightarrow> Inl (portfolio_error ''Stored portfolio projection is invalid'')
           | Some payload \<Rightarrow>
               bind_r (projection_from_payload payload) (\<lambda>projection.
               if \<not> projection_matches_row projection payload row
               then Inl (portfolio_error ''Stored portfolio projection digest changed'')
               else Inr (Some projection))))"

text \<open>The replay of the fills through a fresh ledger; without fills the ledger is not touched.\<close>

definition replay_ledger :: "BacktestSpec \<Rightarrow> CostedFill list \<Rightarrow> PortfolioLedger result" where
  "replay_ledger spec fills =
     (if fills = [] then Inr (PortfolioLedger_init spec)
      else case ledger_apply_many fills (PortfolioLedger_init spec) of
        (l, Inr _) \<Rightarrow> Inr l
      | (l, Inl e) \<Rightarrow> Inl e)"

definition portfolio_load ::
    "BacktestSpec \<Rightarrow> ExecutionDatabase
     \<Rightarrow> (LocalPaperFillEvent list \<times> PortfolioLedger \<times> LocalPaperPortfolioProjection option) result" where
  "portfolio_load spec db =
     bind_r (map_r (fill_event_from_row spec)
       (sort_key fx_sequence (filter (\<lambda>r. fx_symbol r = sp_symbol spec) (db_fill_events db)))) (\<lambda>events.
     if map fv_sequence events \<noteq> map int [0..<length events]
     then Inl (portfolio_error ''Durable fill sequence is incomplete'')
     else
       bind_r (catch_r (replay_ledger spec (map fv_fill events)) is_PortfolioError
         (portfolio_error ''Durable fills fail accepted P2 replay'')) (\<lambda>ledger.
       bind_r (projection_from_row (select_row px_symbol (sp_symbol spec) (db_portfolios db))) (\<lambda>projection.
       if events = []
       then (if projection \<noteq> None then Inl (portfolio_error ''Portfolio projection has no fill history'')
             else Inr (events, ledger, projection))
       else
         let differs = portfolio_error ''Portfolio projection differs from P2 replay'' in
         case projection of
           None \<Rightarrow> Inl differs
         | Some p \<Rightarrow>
             if pj_spec_sha256 p \<noteq> spec_sha256 spec \<or> pj_fill_count p \<noteq> int (length events)
                \<or> pj_last_fill_event_sha256 p \<noteq> fill_event_sha256 (last events)
             then Inl differs
             else bind_r (ledger_snapshot ledger (pj_mark_price p)) (\<lambda>snapshot.
               if \<not> snapshot_eq (pj_snapshot p) snapshot then Inl differs
               else Inr (events, ledger, projection)))))"

definition fill_row :: "BacktestSpec \<Rightarrow> LocalPaperFillEvent \<Rightarrow> FillEventRow" where
  "fill_row spec e =
     \<lparr> fx_fill_event_sha256 = fill_event_sha256 e, fx_symbol = sp_symbol spec, fx_sequence = fv_sequence e,
       fx_authorization_sha256 = fv_authorization_sha256 e, fx_intent_sha256 = fv_intent_sha256 e,
       fx_order_state_sha256 = fv_order_state_sha256 e, fx_fill_step_sha256 = fv_fill_step_sha256 e,
       fx_fill_index = fv_fill_index e, fx_payload_json = json_dumps (fill_record (fv_fill e)) \<rparr>"

definition portfolio_row :: "BacktestSpec \<Rightarrow> LocalPaperPortfolioProjection \<Rightarrow> PortfolioRow" where
  "portfolio_row spec p =
     \<lparr> px_symbol = sp_symbol spec, px_spec_sha256 = pj_spec_sha256 p, px_fill_count = pj_fill_count p,
       px_last_fill_event_sha256 = pj_last_fill_event_sha256 p, px_mark_price = pj_mark_price p,
       px_payload_json = json_dumps (projection_as_record p), px_projection_sha256 = projection_sha256 p \<rparr>"

text \<open>The \<^verbatim>\<open>sqlite3.IntegrityError\<close> handler of \<^verbatim>\<open>apply\<close>.\<close>

abbreviation duplicate_error :: py_error where
  "duplicate_error \<equiv> DuplicateLocalPaperFill ''Durable fill identity conflicts with portfolio history''"

definition insert_fill :: "BacktestSpec \<Rightarrow> LocalPaperFillEvent \<Rightarrow> (ExecutionDatabase, unit) action" where
  "insert_fill spec e db =
     (case insert_fill_event (fill_row spec e) db of
        None \<Rightarrow> act_raise duplicate_error db | Some db' \<Rightarrow> act_return () db')"

definition write_projection ::
    "BacktestSpec \<Rightarrow> LocalPaperPortfolioProjection option \<Rightarrow> LocalPaperPortfolioProjection
     \<Rightarrow> (ExecutionDatabase, unit) action" where
  "write_projection spec previous current db =
     (case previous of
        None \<Rightarrow> (case insert_portfolio (portfolio_row spec current) db of
            None \<Rightarrow> act_raise duplicate_error db | Some db' \<Rightarrow> act_return () db')
      | Some p \<Rightarrow> (case update_portfolio (projection_sha256 p) (portfolio_row spec current) db of
            None \<Rightarrow> act_raise duplicate_error db
          | Some (n, db') \<Rightarrow>
              if n \<noteq> 1 then act_raise (portfolio_error ''Portfolio projection changed concurrently'') db'
              else act_return () db'))"

definition step_events ::
    "nat \<Rightarrow> LocalPaperFillStep \<Rightarrow> LocalPaperFillEvent list result" where
  "step_events stored step =
     map_r (\<lambda>(index, fill). construct LocalPaperFillEvent_post_init
        \<lparr> fv_sequence = int (stored + index), fv_authorization_sha256 = ls_authorization_sha256 step,
          fv_intent_sha256 = ls_intent_sha256 step, fv_order_state_sha256 = ls_order_state_sha256 step,
          fv_fill_step_sha256 = fill_step_sha256 step, fv_fill_index = int index, fv_fill = fill \<rparr>)
       (zip [0..<length (ls_fills step)] (ls_fills step))"

definition step_matches_order ::
    "LocalPaperFillStep \<Rightarrow> LocalPaperIntentRecord \<Rightarrow> LocalPaperOrderState \<Rightarrow> bool" where
  "step_matches_order step intent order \<longleftrightarrow>
     ir_intent_sha256 intent = ls_intent_sha256 step
     \<and> ir_action intent = IntentAction_value (pi_action (ls_p2_intent step))
     \<and> os_intent_sha256 order = ls_intent_sha256 step \<and> os_state_sha256 order = ls_order_state_sha256 step
     \<and> os_status order = ACTIVE_LOCAL
     \<and> list_all (\<lambda>f. os_updated_time_ms order < fr_fill_time_ms (cf_reference f)) (ls_fills step)"

text \<open>The ledger after the step and its valuation at the mark price.\<close>

definition valued_ledger :: "PortfolioLedger \<Rightarrow> CostedFill list \<Rightarrow> string \<Rightarrow> PortfolioSnapshot result" where
  "valued_ledger ledger fills mark_price =
     catch_r
       (case ledger_apply_many fills ledger of
          (l, Inl e) \<Rightarrow> Inl e
        | (l, Inr _) \<Rightarrow> ledger_snapshot l mark_price)
       is_PortfolioError (portfolio_error ''Accepted P2 portfolio rejected the fill step'')"

definition portfolio_transaction ::
    "BacktestSpec \<Rightarrow> LocalPaperFillStep \<Rightarrow> string \<Rightarrow> (ExecutionDatabase, LocalPaperPortfolioApplication) action" where
  "portfolio_transaction spec step mark_price db =
     act_bind (act_lift (portfolio_intent (ls_authorization_sha256 step) db)) (\<lambda>intent.
     act_bind (act_lift (active_order (ls_authorization_sha256 step) db)) (\<lambda>order.
     act_bind (act_lift (require (step_matches_order step intent order)
        (portfolio_error ''Fill step differs from durable intent or order''))) (\<lambda>_.
     act_bind (act_lift (portfolio_load spec db)) (\<lambda>(stored, ledger, previous).
     act_bind (act_lift (step_events (length stored) step)) (\<lambda>events.
     act_bind (act_lift (require
        (\<not> list_ex (\<lambda>f. fx_fill_step_sha256 f = fill_step_sha256 step) (db_fill_events db))
        (DuplicateLocalPaperFill ''P5-004 fill step was already applied''))) (\<lambda>_.
     act_bind (act_lift (valued_ledger ledger (ls_fills step) mark_price)) (\<lambda>snapshot.
     act_bind (act_lift (construct LocalPaperPortfolioProjection_post_init
        \<lparr> pj_spec_sha256 = spec_sha256 spec, pj_fill_count = int (length stored + length events),
          pj_last_fill_event_sha256 = fill_event_sha256 (last events), pj_mark_price = mark_price,
          pj_snapshot = snapshot \<rparr>)) (\<lambda>projection.
     act_bind (act_for events (insert_fill spec)) (\<lambda>_.
     act_bind (write_projection spec previous projection) (\<lambda>_.
     act_lift (construct LocalPaperPortfolioApplication_post_init
        \<lparr> ap_events = events, ap_projection = projection \<rparr>)))))))))))  db"

definition portfolio_apply ::
    "BacktestSpec \<Rightarrow> LocalPaperFillStep \<Rightarrow> string \<Rightarrow> (ExecutionDatabase, LocalPaperPortfolioApplication) action" where
  "portfolio_apply spec step mark_price =
     act_bind (act_lift (catch_r (construct LocalPaperFillStep_post_init step)
        (\<lambda>e. is_LocalPaperFillError e \<or> is_value_error e)
        (portfolio_error ''P5-004 fill step failed reconstruction''))) (\<lambda>_.
     with_rollback is_portfolio_store_error (portfolio_transaction spec step mark_price))"

definition portfolio_events :: "BacktestSpec \<Rightarrow> ExecutionDatabase \<Rightarrow> LocalPaperFillEvent list result" where
  "portfolio_events spec db = bind_r (portfolio_load spec db) (\<lambda>x. Inr (fst x))"

definition portfolio_get_projection ::
    "BacktestSpec \<Rightarrow> ExecutionDatabase \<Rightarrow> LocalPaperPortfolioProjection option result" where
  "portfolio_get_projection spec db = bind_r (portfolio_load spec db) (\<lambda>x. Inr (snd (snd x)))"

definition portfolio_payload ::
    "BacktestSpec \<Rightarrow> LocalPaperFillEvent list \<Rightarrow> LocalPaperPortfolioProjection option \<Rightarrow> json" where
  "portfolio_payload spec events projection = JObj
     [(''schema_version'', JInt 1), (''spec'', spec_record spec), (''spec_sha256'', JStr (spec_sha256 spec)),
      (''fills'', JList (map fill_event_as_record events)), (''projection'', j_opt projection_as_record projection)]"

definition portfolio_canonical_json :: "BacktestSpec \<Rightarrow> ExecutionDatabase \<Rightarrow> string result" where
  "portfolio_canonical_json spec db =
     bind_r (portfolio_load spec db) (\<lambda>(events, _, projection).
     Inr (json_dumps (portfolio_payload spec events projection) @ [CHR 0x0A]))"

section \<open>Nothing is lost in the payloads\<close>

subsection \<open>Texts of numbers\<close>

lemma nat_str_ten: "0 < n \<Longrightarrow> nat_str (10 * n) = nat_str n @ ''0''"
  by (subst nat_str.simps) (simp add: digit_char.simps)

lemma nat_str_shift: "0 < n \<Longrightarrow> nat_str (n * 10 ^ k) = nat_str n @ replicate k (CHR ''0'')"
proof (induction k)
  case (Suc k)
  have "nat_str (n * 10 ^ Suc k) = nat_str (10 * (n * 10 ^ k))" by (simp add: ac_simps)
  also have "\<dots> = nat_str (n * 10 ^ k) @ ''0''" using Suc.prems by (intro nat_str_ten) simp
  finally show ?case using Suc by (simp add: replicate_append_same)
qed simp

definition reread :: "dec \<Rightarrow> dec" where
  "reread d = py_Decimal (d_format d)"

lemma val_reread [simp]: "val (reread d) = val d"
  by (simp add: reread_def)

lemma format_reread [simp]: "d_format (reread d) = d_format d"
proof (cases "d_exp d \<le> 0")
  case True
  then show ?thesis by (simp add: reread_def decimal_format_roundtrip)
next
  case False
  then have "reread d = Dec (d_sign d) (d_coeff d * 10 ^ nat (d_exp d)) 0"
    by (simp add: reread_def py_Decimal_format_parse parse_body_pos)
  then show ?thesis
    using False by (cases "d_coeff d = 0") (simp_all add: d_format_def nat_str_shift nat_str.simps [of 0] digit_char.simps)
qed

lemma decimal_text_format [simp]: "decimal_text (d_format d)"
proof -
  have p: "decimal_text ((if s then ''-'' else '''') @ i @ CHR ''.'' # f)"
    if "i \<noteq> []" "\<forall>c\<in>set i. is_digit c" "\<forall>c\<in>set f. is_digit c" "f \<noteq> []" for s i f
    using that takeWhile_digits_dot [of i f]
    by (cases i) (auto simp: decimal_text_def Let_def list_all_iff)
  have n: "decimal_text ((if s then ''-'' else '''') @ i)" if "i \<noteq> []" "\<forall>c\<in>set i. is_digit c" for s i
    using that takeWhile_digits_all [of i] by (cases i) (auto simp: decimal_text_def Let_def)
  show ?thesis
  proof (cases "d_exp d < 0")
    case True
    obtain i f where b: "d_body d = i @ CHR ''.'' # f" "\<forall>c\<in>set i. is_digit c" "i \<noteq> []"
      "\<forall>c\<in>set f. is_digit c" "length f = nat (- d_exp d)"
      by (rule d_body_dot [OF True])
    have "f \<noteq> []" using b(5) True by auto
    then show ?thesis using p [OF b(3,2,4), of "d_sign d"] by (simp add: d_format_body b(1))
  next
    case False
    then have "d_body d = ''0'' \<or> d_body d = nat_str (d_coeff d) @ replicate (nat (d_exp d)) (CHR ''0'')"
      by (simp add: d_body_def)
    then have "d_body d \<noteq> []" "\<forall>c\<in>set (d_body d). is_digit c" by (auto intro: nat_str_digits)
    then show ?thesis using n [of "d_body d" "d_sign d"] by (simp add: d_format_body)
  qed
qed

subsection \<open>Snapshots and projections\<close>

definition reread_snapshot :: "PortfolioSnapshot \<Rightarrow> PortfolioSnapshot" where
  "reread_snapshot s =
     \<lparr> ps_symbol = ps_symbol s, ps_cash = reread (ps_cash s), ps_asset_quantity = reread (ps_asset_quantity s),
       ps_cost_basis_quote = reread (ps_cost_basis_quote s),
       ps_liquidation_value_quote = reread (ps_liquidation_value_quote s),
       ps_realized_pnl_quote = reread (ps_realized_pnl_quote s),
       ps_unrealized_pnl_quote = reread (ps_unrealized_pnl_quote s),
       ps_equity_quote = reread (ps_equity_quote s), ps_total_fee_quote = reread (ps_total_fee_quote s),
       ps_total_slippage_quote = reread (ps_total_slippage_quote s), ps_closed_trades = ps_closed_trades s \<rparr>"

lemma snapshot_reread [simp]:
  "snapshot_record (reread_snapshot s) = snapshot_record s" "snapshot_eq (reread_snapshot s) s"
  "ps_asset_quantity (reread_snapshot s) = reread (ps_asset_quantity s)"
  by (simp_all add: snapshot_record_def reread_snapshot_def snapshot_eq_def d_eq_val)

text \<open>A snapshot of a ledger with exact books passes its checks again after the round trip.\<close>

lemma snapshot_reread_valid:
  assumes ok: "ledger_ok l" and n: "length (pl_applied l) \<le> MAX_LEDGER_BATCH"
    and s: "ledger_snapshot l price = Inr s"
  shows "PortfolioSnapshot_post_init (reread_snapshot s) = Inr ()"
proof -
  let ?liq = "liquidation_dec l (py_Decimal price)"
  have m: "plain_unsigned price" "0 < val (py_Decimal price)"
    using s by (auto simp: ledger_snapshot_def bind_r_eq_Inr mark_Inr)
  have v: "PortfolioSnapshot_post_init s = Inr ()"
    and c: "ps_cash s = pl_cash l" "ps_liquidation_value_quote s = ?liq" "ps_cost_basis_quote s = pl_cost_basis_quote l"
    using s m by (auto simp: ledger_snapshot_def mark_def dec_val construct_eq_Inr Let_def liquidation_dec_def)
  have L: "on_grid (-168) (val ?liq)" "0 \<le> val ?liq" "val ?liq < 10 ^ 81"
    using liquidation_exact [OF ok m] by simp_all
  note B = ledger_value_bounds [OF ok n L]
  have "val (d_add DECIMAL_PRECISION (reread (ps_cash s)) (reread (ps_liquidation_value_quote s)))
      = val (d_add DECIMAL_PRECISION (ps_cash s) (ps_liquidation_value_quote s))"
    "val (d_sub DECIMAL_PRECISION (reread (ps_liquidation_value_quote s)) (reread (ps_cost_basis_quote s)))
      = val (d_sub DECIMAL_PRECISION (ps_liquidation_value_quote s) (ps_cost_basis_quote s))"
    using B(1,2) by (simp_all add: c val_d_add val_d_sub)
  then show ?thesis
    using v by (simp add: PortfolioSnapshot_post_init_def reread_snapshot_def dec_val Let_def)
qed

lemma json_ok_snapshot [simp]: "json_ok (snapshot_record s)"
  by (simp add: snapshot_record_def)

lemma json_ok_fill [simp]: "json_ok (fill_record f)"
  by (simp add: fill_record_def Let_def)

lemma json_ok_projection [simp]: "json_ok (projection_as_record p)"
  by (simp add: projection_as_record_def projection_fields_def)

lemma decimal_field_sorted:
  assumes "json_ok (JObj kvs)" "map_of kvs k = Some (JStr (d_format d))"
  shows "decimal_field k (json_sorted (JObj kvs)) = Inr (reread d)"
  using assms by (simp add: decimal_field_def json_get_sorted reread_def del: json_sorted.simps(2) json_ok.simps)

lemma snapshot_roundtrip:
  assumes "PortfolioSnapshot_post_init (reread_snapshot s) = Inr ()"
  shows "snapshot_from_record (json_sorted (snapshot_record s)) = Inr (reread_snapshot s)"
  using assms unfolding snapshot_record_def
  by (simp add: snapshot_from_record_def decimal_field_sorted json_get_sorted construct_def reread_snapshot_def
      del: json_sorted.simps(2))

definition reread_projection :: "LocalPaperPortfolioProjection \<Rightarrow> LocalPaperPortfolioProjection" where
  "reread_projection p = p\<lparr> pj_snapshot := reread_snapshot (pj_snapshot p) \<rparr>"

lemma projection_reread [simp]:
  "projection_as_record (reread_projection p) = projection_as_record p"
  "projection_sha256 (reread_projection p) = projection_sha256 p"
  "pj_spec_sha256 (reread_projection p) = pj_spec_sha256 p" "pj_fill_count (reread_projection p) = pj_fill_count p"
  "pj_last_fill_event_sha256 (reread_projection p) = pj_last_fill_event_sha256 p"
  "pj_mark_price (reread_projection p) = pj_mark_price p"
  "pj_snapshot (reread_projection p) = reread_snapshot (pj_snapshot p)"
proof -
  have f: "projection_fields (reread_projection p) = projection_fields p"
    by (simp add: projection_fields_def reread_projection_def d_lt_val)
  then show "projection_sha256 (reread_projection p) = projection_sha256 p" by (simp add: projection_sha256_def)
  with f show "projection_as_record (reread_projection p) = projection_as_record p" by (simp add: projection_as_record_def)
qed (simp_all add: reread_projection_def)

lemma projection_roundtrip:
  assumes "LocalPaperPortfolioProjection_post_init p = Inr ()"
    and "PortfolioSnapshot_post_init (reread_snapshot (pj_snapshot p)) = Inr ()"
  shows "projection_from_row (Some (portfolio_row spec p)) = Inr (Some (reread_projection p))"
proof -
  have l: "json_loads (json_dumps (projection_as_record p)) = Some (json_sorted (projection_as_record p))"
    by (rule json_loads_dumps) simp
  have f: "projection_from_payload (json_sorted (projection_as_record p)) = Inr (reread_projection p)"
    using assms unfolding projection_as_record_def projection_fields_def
    by (simp add: projection_from_payload_def json_get_sorted snapshot_roundtrip construct_def Let_def
        LocalPaperPortfolioProjection_post_init_def reread_projection_def del: json_sorted.simps(2))
  have "projection_matches_row (reread_projection p) (json_sorted (projection_as_record p)) (portfolio_row spec p)"
    by (simp add: projection_matches_row_def portfolio_row_def json_eq_def json_norm_sorted)
  then show ?thesis by (simp add: projection_from_row_def portfolio_row_def l f)
qed

subsection \<open>Fill events\<close>

lemma IntentAction_of_value [simp]: "IntentAction_of (IntentAction_value a) = Some a"
  by (cases a) simp_all

lemma FillReason_of_value [simp]: "FillReason_of (FillReason_value r) = Some r"
  by (cases r) simp_all

lemma reference_roundtrip: "reference_from_payload (json_sorted (fill_record f)) = Some (cf_reference f)"
  unfolding fill_record_def Let_def
  by (simp add: reference_from_payload_def json_get_str_def json_get_int_def json_get_sorted
      del: json_sorted.simps(2) IntentAction_of.simps FillReason_of.simps)

definition canonical_fill :: "BacktestSpec \<Rightarrow> CostedFill \<Rightarrow> bool" where
  "canonical_fill spec f \<longleftrightarrow> valid_FillReference (cf_reference f) \<and> apply_costs (cf_reference f) spec = Inr f"

lemma json_eq_refl [simp]: "json_eq j j"
  by (simp add: json_eq_def)

lemma stored_fill_roundtrip:
  "canonical_fill spec f \<Longrightarrow> stored_fill spec (json_dumps (fill_record f)) e e' = Inr f"
  by (simp add: stored_fill_def json_loads_dumps reference_roundtrip canonical_fill_def valid_FillReference_def
      construct_def)

lemma fill_event_roundtrip:
  assumes "canonical_fill spec (fv_fill e)" "LocalPaperFillEvent_post_init e = Inr ()"
  shows "fill_event_from_row spec (fill_row spec e) = Inr e"
  using assms by (cases e) (simp add: fill_event_from_row_def fill_row_def stored_fill_roundtrip construct_def)

lemma apply_costs_symbol: "apply_costs r spec = Inr f \<Longrightarrow> fr_symbol r = sp_symbol spec \<and> cf_reference f = r"
  by (auto simp: apply_costs_def Let_def bind_r_eq_Inr construct_eq_Inr split: if_splits)

lemma canonical_fill_valid: "canonical_fill spec f \<Longrightarrow> valid_CostedFill f"
  by (auto simp: canonical_fill_def valid_CostedFill_def apply_costs_def Let_def bind_r_eq_Inr construct_eq_Inr
      split: if_splits)

section \<open>The log and its projection\<close>

text \<open>
  The state of the two tables of a store with specification \<open>spec\<close>: the rows are those of
  the events \<open>es\<close>, numbered from zero; the fills run through a fresh ledger; the projection is
  the ledger's valuation.
\<close>

definition fills_run :: "BacktestSpec \<Rightarrow> CostedFill list \<Rightarrow> PortfolioLedger \<Rightarrow> bool" where
  "fills_run spec fills l \<longleftrightarrow> act_for fills ledger_apply_raw (PortfolioLedger_init spec) = (l, Inr ())"

definition booked :: "BacktestSpec \<Rightarrow> LocalPaperFillEvent list \<Rightarrow> PortfolioLedger \<Rightarrow>
    LocalPaperPortfolioProjection option \<Rightarrow> ExecutionDatabase \<Rightarrow> bool" where
  "booked spec es l p db \<longleftrightarrow>
     db_fill_events db = map (fill_row spec) es
     \<and> list_all (\<lambda>e. canonical_fill spec (fv_fill e) \<and> LocalPaperFillEvent_post_init e = Inr ()) es
     \<and> map fv_sequence es = map int [0..<length es]
     \<and> fills_run spec (map fv_fill es) l
     \<and> db_portfolios db = (case p of None \<Rightarrow> [] | Some p \<Rightarrow> [portfolio_row spec p])
     \<and> (case p of None \<Rightarrow> es = []
        | Some p \<Rightarrow> es \<noteq> [] \<and> LocalPaperPortfolioProjection_post_init p = Inr ()
            \<and> pj_spec_sha256 p = spec_sha256 spec \<and> pj_fill_count p = int (length es)
            \<and> pj_last_fill_event_sha256 p = fill_event_sha256 (last es)
            \<and> ledger_snapshot l (pj_mark_price p) = Inr (pj_snapshot p))"

lemma fills_run_ok:
  assumes "valid_BacktestSpec spec" "fills_run spec fills l" "list_all (canonical_fill spec) fills"
    and "length fills \<le> MAX_LEDGER_BATCH"
  shows "ledger_ok l" "length (pl_applied l) \<le> MAX_LEDGER_BATCH" "pl_applied l = rev fills"
proof -
  have "list_all valid_CostedFill fills" using assms(3) by (auto simp: list_all_iff intro: canonical_fill_valid)
  moreover have "ledger_inv (PortfolioLedger_init spec)"
    using PortfolioLedger_init_ok [OF assms(1)] by (simp add: ledger_inv_def)
  ultimately have "ledger_inv l \<and> pl_applied l = rev fills @ pl_applied (PortfolioLedger_init spec)"
    using act_for_inv assms(2) unfolding fills_run_def by blast
  then show "ledger_ok l" "length (pl_applied l) \<le> MAX_LEDGER_BATCH" "pl_applied l = rev fills"
    using assms(4) by (simp_all add: ledger_inv_def PortfolioLedger_init_def)
qed

lemma replay_fills_run:
  assumes "fills_run spec fills l"
  shows "replay_ledger spec fills = (if length fills \<le> MAX_LEDGER_BATCH then Inr l
      else Inl (PortfolioError ''Portfolio fill batch size is invalid''))"
  using assms
  by (cases fills) (auto simp: replay_ledger_def fills_run_def ledger_apply_many_def with_rollback_def
      MAX_LEDGER_BATCH_def)

lemma map_r_map: "(\<And>x. x \<in> set xs \<Longrightarrow> f (g x) = Inr x) \<Longrightarrow> map_r f (map g xs) = Inr xs"
  by (induction xs) simp_all

lemma booked_rows:
  assumes "booked spec es l p db"
  shows "map_r (fill_event_from_row spec)
      (sort_key fx_sequence (filter (\<lambda>r. fx_symbol r = sp_symbol spec) (db_fill_events db))) = Inr es"
    and "select_row px_symbol (sp_symbol spec) (db_portfolios db) = map_option (portfolio_row spec) p"
proof -
  have q: "map fx_sequence (map (fill_row spec) es) = map int [0..<length es]"
    using assms by (simp add: booked_def fill_row_def comp_def)
  have "sorted (map int [0..<n])" for n by (simp add: sorted_iff_nth_mono)
  then have "sort_key fx_sequence (map (fill_row spec) es) = map (fill_row spec) es"
    using q by (intro sort_key_id_if_sorted) simp
  moreover have "filter (\<lambda>r. fx_symbol r = sp_symbol spec) (map (fill_row spec) es) = map (fill_row spec) es"
    by (simp add: filter_map comp_def fill_row_def)
  moreover have "map_r (fill_event_from_row spec) (map (fill_row spec) es) = Inr es"
    using assms by (intro map_r_map) (auto simp: booked_def list_all_iff intro: fill_event_roundtrip)
  ultimately show "map_r (fill_event_from_row spec)
      (sort_key fx_sequence (filter (\<lambda>r. fx_symbol r = sp_symbol spec) (db_fill_events db))) = Inr es"
    using assms by (simp add: booked_def)
  show "select_row px_symbol (sp_symbol spec) (db_portfolios db) = map_option (portfolio_row spec) p"
    using assms by (cases p) (simp_all add: booked_def select_row_def portfolio_row_def)
qed

text \<open>
  What a load returns: the events, the ledger they replay to and the projection as it was read
  back; a log with more fills than a ledger batch cannot be loaded any more.
\<close>

lemma portfolio_load_booked:
  assumes spec: "valid_BacktestSpec spec" and b: "booked spec es l p db"
  shows "portfolio_load spec db = (if length es \<le> MAX_LEDGER_BATCH
      then Inr (es, l, map_option reread_projection p)
      else Inl (portfolio_error ''Durable fills fail accepted P2 replay''))"
proof -
  have r: "fills_run spec (map fv_fill es) l" and c: "list_all (canonical_fill spec) (map fv_fill es)"
    and q: "map fv_sequence es = map int [0..<length es]"
    using b by (auto simp: booked_def list_all_iff)
  note L = fills_run_ok [OF spec r c]
  show ?thesis
  proof (cases "length es \<le> MAX_LEDGER_BATCH")
    case False
    then show ?thesis
      using q replay_fills_run [OF r] by (simp add: portfolio_load_def booked_rows [OF b])
  next
    case True
    show ?thesis
    proof (cases p)
      case None
      then have "es = []" using b by (simp add: booked_def)
      then show ?thesis
        using b r None replay_fills_run [OF r]
        by (simp add: portfolio_load_def booked_rows [OF b] projection_from_row_def)
    next
      case (Some x)
      have x: "es \<noteq> []" "LocalPaperPortfolioProjection_post_init x = Inr ()" "pj_spec_sha256 x = spec_sha256 spec"
        "pj_fill_count x = int (length es)" "pj_last_fill_event_sha256 x = fill_event_sha256 (last es)"
        "ledger_snapshot l (pj_mark_price x) = Inr (pj_snapshot x)"
        using b by (simp_all add: booked_def Some)
      have "PortfolioSnapshot_post_init (reread_snapshot (pj_snapshot x)) = Inr ()"
        using snapshot_reread_valid [OF L(1,2) x(6)] True by simp
      from projection_roundtrip [OF x(2) this, of spec] show ?thesis
        using True x q replay_fills_run [OF r]
        by (simp add: portfolio_load_def booked_rows [OF b] Some Let_def)
    qed
  qed
qed

section \<open>Booking a step\<close>

lemma act_for_append:
  "act_for (xs @ ys) f s = act_bind (act_for xs f) (\<lambda>_. act_for ys f) s"
  by (induction xs arbitrary: s) (auto simp: act_bind_def split: prod.splits sum.splits)

lemma insert_fill_Inr:
  assumes "insert_fill spec e db = (db', Inr u)"
  shows "db' = db\<lparr> db_fill_events := db_fill_events db @ [fill_row spec e] \<rparr>"
    "has_intent (fv_authorization_sha256 e) db"
    "\<exists>s\<in>set (db_order_states db). st_state_sha256 s = fv_order_state_sha256 e"
  using assms
  by (auto simp: insert_fill_def insert_fill_event_def insert_row_def fill_row_def list_ex_iff
      split: option.splits if_splits)

lemma insert_fills_Inr:
  "act_for es (insert_fill spec) db = (db', Inr u) \<Longrightarrow>
     db' = db\<lparr> db_fill_events := db_fill_events db @ map (fill_row spec) es \<rparr>"
proof (induction es arbitrary: db)
  case (Cons e es)
  then obtain db1 where "insert_fill spec e db = (db1, Inr ())" "act_for es (insert_fill spec) db1 = (db', Inr u)"
    by (auto simp: act_bind_eq_Inr)
  then show ?case using Cons.IH [of db1] insert_fill_Inr(1) [of spec e db db1] by simp
qed simp

lemma insert_fills_Inl: "act_for es (insert_fill spec) db = (db', Inl x) \<Longrightarrow> is_portfolio_store_error x"
  by (induction es arbitrary: db)
    (auto simp: act_bind_eq_Inl insert_fill_def is_portfolio_store_error_def split: option.splits)

lemma write_projection_Inl: "write_projection spec p c db = (db', Inl x) \<Longrightarrow> is_portfolio_store_error x"
  by (auto simp: write_projection_def is_portfolio_store_error_def split: option.splits if_splits)

lemma write_projection_Inr:
  assumes "write_projection spec (map_option reread_projection p) c db = (db', Inr u)"
    and "db_portfolios db = (case p of None \<Rightarrow> [] | Some p \<Rightarrow> [portfolio_row spec p])"
  shows "db' = db\<lparr> db_portfolios := [portfolio_row spec c] \<rparr>"
proof (cases p)
  case None
  then show ?thesis
    using assms by (auto simp: write_projection_def insert_portfolio_def insert_row_def split: option.splits if_splits)
next
  case (Some q)
  have h: "px_symbol (portfolio_row spec q) = px_symbol (portfolio_row spec c)"
    "px_projection_sha256 (portfolio_row spec q) = projection_sha256 q"
    by (simp_all add: portfolio_row_def)
  show ?thesis
    using assms h by (auto simp: Some write_projection_def update_portfolio_def Let_def split: option.splits if_splits)
qed

lemma step_events_Inr:
  assumes "step_events n step = Inr es"
  shows "length es = length (ls_fills step)" "map fv_fill es = ls_fills step"
    "map fv_sequence es = map int [n..<n + length es]"
    "list_all (\<lambda>e. LocalPaperFillEvent_post_init e = Inr () \<and> fv_authorization_sha256 e = ls_authorization_sha256 step
       \<and> fv_intent_sha256 e = ls_intent_sha256 step \<and> fv_order_state_sha256 e = ls_order_state_sha256 step
       \<and> fv_fill_step_sha256 e = fill_step_sha256 step) es"
proof -
  have a: "list_all2 (\<lambda>(i, f) e. LocalPaperFillEvent_post_init e = Inr () \<and> e =
      \<lparr> fv_sequence = int (n + i), fv_authorization_sha256 = ls_authorization_sha256 step,
        fv_intent_sha256 = ls_intent_sha256 step, fv_order_state_sha256 = ls_order_state_sha256 step,
        fv_fill_step_sha256 = fill_step_sha256 step, fv_fill_index = int i, fv_fill = f \<rparr>)
      (zip [0..<length (ls_fills step)] (ls_fills step)) es"
    using assms unfolding step_events_def map_r_eq_Inr
    by (rule list.rel_mono_strong) (auto simp: construct_eq_Inr)
  show l: "length es = length (ls_fills step)" using list_all2_lengthD [OF a] by simp
  have e: "LocalPaperFillEvent_post_init (es ! i) = Inr () \<and> es ! i =
      \<lparr> fv_sequence = int (n + i), fv_authorization_sha256 = ls_authorization_sha256 step,
        fv_intent_sha256 = ls_intent_sha256 step, fv_order_state_sha256 = ls_order_state_sha256 step,
        fv_fill_step_sha256 = fill_step_sha256 step, fv_fill_index = int i, fv_fill = ls_fills step ! i \<rparr>"
    if "i < length es" for i
    using list_all2_nthD2 [OF a that] that l by auto
  show "map fv_fill es = ls_fills step" using e l by (intro nth_equalityI) (simp, fastforce)
  show "map fv_sequence es = map int [n..<n + length es]" using e by (intro nth_equalityI) (simp, fastforce)
  show "list_all (\<lambda>e. LocalPaperFillEvent_post_init e = Inr () \<and> fv_authorization_sha256 e = ls_authorization_sha256 step
       \<and> fv_intent_sha256 e = ls_intent_sha256 step \<and> fv_order_state_sha256 e = ls_order_state_sha256 step
       \<and> fv_fill_step_sha256 e = fill_step_sha256 step) es"
    unfolding list_all_length using e by (metis LocalPaperFillEvent.select_convs(2-5))
qed

lemma valued_ledger_Inr:
  assumes "valued_ledger l fills m = Inr s"
  obtains l' where "act_for fills ledger_apply_raw l = (l', Inr ())" "ledger_snapshot l' m = Inr s"
  using assms by (auto simp: valued_ledger_def ledger_apply_many_def with_rollback_Inr split: prod.splits sum.splits if_splits)

lemma portfolio_apply_Inl:
  assumes "portfolio_apply spec step m db = (db', Inl x)"
  shows "db' = db"
proof -
  have "t = db \<or> is_portfolio_store_error x" if "portfolio_transaction spec step m db = (t, Inl x)" for t
    using that
    by (auto simp: portfolio_transaction_def act_bind_eq_Inl dest: insert_fills_Inl write_projection_Inl
        simp: construct_def LocalPaperPortfolioApplication_post_init_def bind_r_eq_Inl require_eq_Inl
          is_portfolio_store_error_def)
  then show ?thesis
    using assms by (auto simp: portfolio_apply_def act_bind_eq_Inl with_rollback_def split: prod.splits sum.splits)
qed

text \<open>The steps of an accepted transaction, one conjunct for each.\<close>

lemma portfolio_transaction_Inr:
  assumes "portfolio_transaction spec step m db = (db', Inr a)"
  shows "\<exists>intent order stored ledger previous events snapshot db1.
    portfolio_intent (ls_authorization_sha256 step) db = Inr intent
    \<and> active_order (ls_authorization_sha256 step) db = Inr order \<and> step_matches_order step intent order
    \<and> portfolio_load spec db = Inr (stored, ledger, previous)
    \<and> step_events (length stored) step = Inr events
    \<and> \<not> list_ex (\<lambda>f. fx_fill_step_sha256 f = fill_step_sha256 step) (db_fill_events db)
    \<and> valued_ledger ledger (ls_fills step) m = Inr snapshot
    \<and> construct LocalPaperPortfolioProjection_post_init
        \<lparr> pj_spec_sha256 = spec_sha256 spec, pj_fill_count = int (length stored + length events),
          pj_last_fill_event_sha256 = fill_event_sha256 (last events), pj_mark_price = m,
          pj_snapshot = snapshot \<rparr> = Inr (ap_projection a)
    \<and> act_for events (insert_fill spec) db = (db1, Inr ())
    \<and> write_projection spec previous (ap_projection a) db1 = (db', Inr ())
    \<and> ap_events a = events"
  using assms unfolding portfolio_transaction_def act_bind_eq_Inr split_paired_Ex prod.case
  by (elim exE conjE) (simp add: construct_eq_Inr)

text \<open>Everything an accepted booking establishes.\<close>

lemma portfolio_apply_Inr:
  assumes spec: "valid_BacktestSpec spec" and b: "booked spec es l p db"
    and c: "list_all (canonical_fill spec) (ls_fills step)"
    and r: "portfolio_apply spec step m db = (db', Inr a)"
  obtains intent order l' where "LocalPaperFillStep_post_init step = Inr ()" "length es \<le> MAX_LEDGER_BATCH"
    "portfolio_intent (ls_authorization_sha256 step) db = Inr intent"
    "active_order (ls_authorization_sha256 step) db = Inr order" "step_matches_order step intent order"
    "step_events (length es) step = Inr (ap_events a)"
    "\<not> (\<exists>f\<in>set (db_fill_events db). fx_fill_step_sha256 f = fill_step_sha256 step)"
    "booked spec (es @ ap_events a) l' (Some (ap_projection a)) db'"
    "pj_mark_price (ap_projection a) = m" "ledger_snapshot l' m = Inr (pj_snapshot (ap_projection a))"
    "db' = db\<lparr> db_fill_events := db_fill_events db', db_portfolios := db_portfolios db' \<rparr>"
proof -
  have t: "LocalPaperFillStep_post_init step = Inr ()" and w: "portfolio_transaction spec step m db = (db', Inr a)"
    using r by (auto simp: portfolio_apply_def act_bind_eq_Inr with_rollback_Inr construct_eq_Inr catch_r_eq_Inr)
  obtain intent order stored ledger previous evs snap db1 where
    i: "portfolio_intent (ls_authorization_sha256 step) db = Inr intent"
    and od: "active_order (ls_authorization_sha256 step) db = Inr order"
    and mt: "step_matches_order step intent order"
    and ld: "portfolio_load spec db = Inr (stored, ledger, previous)"
    and ev: "step_events (length stored) step = Inr evs"
    and dup: "\<not> list_ex (\<lambda>f. fx_fill_step_sha256 f = fill_step_sha256 step) (db_fill_events db)"
    and vl: "valued_ledger ledger (ls_fills step) m = Inr snap"
    and co: "construct LocalPaperPortfolioProjection_post_init
        \<lparr> pj_spec_sha256 = spec_sha256 spec, pj_fill_count = int (length stored + length evs),
          pj_last_fill_event_sha256 = fill_event_sha256 (last evs), pj_mark_price = m,
          pj_snapshot = snap \<rparr> = Inr (ap_projection a)"
    and ins: "act_for evs (insert_fill spec) db = (db1, Inr ())"
    and wr: "write_projection spec previous (ap_projection a) db1 = (db', Inr ())"
    and ap: "ap_events a = evs"
    using portfolio_transaction_Inr [OF w] by blast
  have n: "length es \<le> MAX_LEDGER_BATCH" and st: "stored = es" "ledger = l" "previous = map_option reread_projection p"
    using ld unfolding portfolio_load_booked [OF spec b] by (simp_all split: if_splits)
  have pr: "ap_projection a = \<lparr> pj_spec_sha256 = spec_sha256 spec, pj_fill_count = int (length es + length evs),
          pj_last_fill_event_sha256 = fill_event_sha256 (last evs), pj_mark_price = m, pj_snapshot = snap \<rparr>"
    and pi: "LocalPaperPortfolioProjection_post_init (ap_projection a) = Inr ()"
    using co unfolding construct_eq_Inr st by auto
  note E = step_events_Inr [OF ev [unfolded st]]
  have ne: "evs \<noteq> []" using E(1) t by (auto simp: LocalPaperFillStep_post_init_def split: if_splits)
  obtain l' where l': "act_for (ls_fills step) ledger_apply_raw l = (l', Inr ())" "ledger_snapshot l' m = Inr snap"
    by (rule valued_ledger_Inr [OF vl [unfolded st]])
  have db1: "db1 = db\<lparr> db_fill_events := db_fill_events db @ map (fill_row spec) evs \<rparr>" by (rule insert_fills_Inr [OF ins])
  have pf: "db_portfolios db1 = (case p of None \<Rightarrow> [] | Some p \<Rightarrow> [portfolio_row spec p])"
    using b by (simp add: db1 booked_def)
  have db': "db' = db1\<lparr> db_portfolios := [portfolio_row spec (ap_projection a)] \<rparr>"
    by (rule write_projection_Inr [OF wr [unfolded st] pf])
  have run: "fills_run spec (map fv_fill (es @ evs)) l'"
    using b l'(1) E(2) by (simp add: booked_def fills_run_def act_for_append)
  have "list_all (\<lambda>e. canonical_fill spec (fv_fill e) \<and> LocalPaperFillEvent_post_init e = Inr ()) evs"
    using E(4) c unfolding E(2) [symmetric] by (simp add: list_all_iff)
  moreover have "map fv_sequence (es @ evs) = map int [0..<length (es @ evs)]"
    using b E(3) upt_add_eq_append [of 0 "length es" "length evs"] by (simp add: booked_def)
  ultimately have "booked spec (es @ evs) l' (Some (ap_projection a)) db'"
    using b run ne pi l'(2) by (simp add: booked_def db' db1 pr)
  then show thesis
    using that [OF t n i od mt] ev [unfolded st] dup l'(2) ap by (simp add: list_ex_iff pr db' db1)
qed

lemma booked_unchanged:
  assumes "booked spec es l p db" "db_fill_events db' = db_fill_events db" "db_portfolios db' = db_portfolios db"
  shows "booked spec es l p db'"
  using assms by (simp add: booked_def)

section \<open>Histories of the database\<close>

text \<open>Booking touches neither intents nor orders; submissions and order events touch neither fills nor the projection.\<close>

lemma insert_portfolio_tables:
  "insert_portfolio r db = Some db' \<Longrightarrow> db' = db\<lparr> db_portfolios := db_portfolios db' \<rparr>"
  "update_portfolio d r db = Some (n, db') \<Longrightarrow> db' = db\<lparr> db_portfolios := db_portfolios db' \<rparr>"
  by (auto simp: insert_portfolio_def update_portfolio_def insert_row_def Let_def split: option.splits if_splits)

lemma write_state_portfolios: "write_state p s db = (db', Inr u) \<Longrightarrow> db_portfolios db' = db_portfolios db"
  by (auto simp: write_state_def insert_order_state_def update_order_state_def Let_def split: option.splits if_splits)

text \<open>A fill refers to the recorded intent and to the present state of its order.\<close>

definition bound :: "LocalPaperFillEvent \<Rightarrow> ExecutionDatabase \<Rightarrow> bool" where
  "bound e db \<longleftrightarrow>
     map_option ir_intent_sha256
       (select_row ir_authorization_sha256 (fv_authorization_sha256 e) (db_intents db)) = Some (fv_intent_sha256 e)
     \<and> map_option st_state_sha256
       (select_row st_authorization_sha256 (fv_authorization_sha256 e) (db_order_states db)) = Some (fv_order_state_sha256 e)"

lemma write_state_bound:
  assumes "order_states.consistent (db_order_states db)" "write_state p s db = (db', Inr u)"
    and "bound e db" "\<exists>f\<in>set (db_fill_events db). fx_order_state_sha256 f = fv_order_state_sha256 e"
  shows "bound e db'"
proof (cases "fv_authorization_sha256 e = os_authorization_sha256 s")
  case False
  then show ?thesis using assms(3) write_state_Inr(2,5) [OF assms(1,2)] by (simp add: bound_def)
next
  case True
  from assms(3) obtain row where row: "select_row st_authorization_sha256 (os_authorization_sha256 s) (db_order_states db) = Some row"
    "st_state_sha256 row = fv_order_state_sha256 e"
    by (auto simp: bound_def True)
  have "os_state_sha256 s = fv_order_state_sha256 e"
  proof (cases p)
    case None
    then obtain t where "insert_row order_state_conflict (state_row s) (db_order_states db) = Some t"
      using assms(2) by (auto simp: write_state_def insert_order_state_def split: option.splits if_splits)
    then show ?thesis using order_states.insert_absent [of "state_row s" "db_order_states db" t] row(1) by simp
  next
    case (Some q)
    obtain n where u: "update_order_state (os_state_sha256 q) (state_row s) db = Some (n, db')" and n: "n = 1"
      using assms(2) Some by (auto simp: write_state_def split: option.splits if_splits)
    then obtain h where "h \<in> set (db_order_states db)" "st_authorization_sha256 h = os_authorization_sha256 s"
      "st_state_sha256 h = os_state_sha256 q"
      by (auto simp: update_order_state_def Let_def list_ex_iff split: if_splits)
    then have "Some row = Some h" using row(1) order_states.select_iff [OF assms(1)] by metis
    then have "row = h" by simp
    then show ?thesis
      using u n row(2) assms(4) \<open>st_state_sha256 h = os_state_sha256 q\<close>
      by (auto simp: update_order_state_def Let_def list_ex_iff split: if_splits)
  qed
  then show ?thesis using write_state_Inr(2,5) [OF assms(1,2)] True assms(3) by (simp add: bound_def)
qed

lemma order_apply_keeps:
  assumes "store_inv db" "order_apply e db = (db', Inr t)"
  shows "db_fill_events db' = db_fill_events db" "db_portfolios db' = db_portfolios db"
    "bound x db \<Longrightarrow> \<exists>f\<in>set (db_fill_events db). fx_order_state_sha256 f = fv_order_state_sha256 x \<Longrightarrow> bound x db'"
proof -
  have "order_transaction e db = (db', Inr t)" using assms(2) by (simp add: order_apply_def with_rollback_Inr)
  then obtain i p where "act_bind (insert_event e) (\<lambda>_. write_state p (ot_current t)) db = (db', Inr ())"
    by (rule order_transaction_Inr)
  then obtain db1 where 1: "insert_event e db = (db1, Inr ())" "write_state p (ot_current t) db1 = (db', Inr ())"
    by (auto simp: act_bind_eq_Inr)
  note I = insert_event_Inr(1) [OF 1(1)]
  have c: "order_states.consistent (db_order_states db1)" using assms(1) by (simp add: I store_inv_def)
  show "db_fill_events db' = db_fill_events db" using write_state_Inr(4) [OF c 1(2)] by (simp add: I)
  show "db_portfolios db' = db_portfolios db" using write_state_portfolios [OF 1(2)] by (simp add: I)
  show "bound x db \<Longrightarrow> \<exists>f\<in>set (db_fill_events db). fx_order_state_sha256 f = fv_order_state_sha256 x \<Longrightarrow> bound x db'"
    using write_state_bound [OF c 1(2), of x] by (simp add: I bound_def)
qed

text \<open>The three writers: submissions, order events, and bookings of fill steps at a mark price.\<close>

datatype durable_op = Store store_op | Book LocalPaperFillStep string

fun durable_step :: "BacktestSpec \<Rightarrow> durable_op \<Rightarrow> (ExecutionDatabase, unit) action" where
  "durable_step spec (Store op) db = store_step op db"
| "durable_step spec (Book step mark_price) db = act_bind (portfolio_apply spec step mark_price) (\<lambda>_. act_return ()) db"

text \<open>The fills of a step carry the costs of the store's specification, as the fill adapter makes them.\<close>

fun durable_admissible :: "BacktestSpec \<Rightarrow> durable_op \<Rightarrow> bool" where
  "durable_admissible spec (Store op) = store_admissible op"
| "durable_admissible spec (Book step mark_price) = list_all (canonical_fill spec) (ls_fills step)"

definition durable_inv :: "BacktestSpec \<Rightarrow> ExecutionDatabase \<Rightarrow> bool" where
  "durable_inv spec db \<longleftrightarrow> valid_BacktestSpec spec \<and> store_inv db
     \<and> (\<exists>es l p. booked spec es l p db \<and> list_all (\<lambda>e. bound e db) es)"

lemma bound_Book:
  assumes "portfolio_intent (ls_authorization_sha256 step) db = Inr intent"
    and "active_order (ls_authorization_sha256 step) db = Inr order" "step_matches_order step intent order"
    and "step_events n step = Inr es" "db_order_states db' = db_order_states db"
    and "db_intents db' = db_intents db"
  shows "list_all (\<lambda>e. bound e db') es"
proof -
  obtain row where "select_row st_authorization_sha256 (ls_authorization_sha256 step) (db_order_states db) = Some row"
    "state_from_row row = Inr order"
    using assms(2) by (auto simp: active_order_def split: option.splits sum.splits)
  moreover from this(2) have "os_state_sha256 order = st_state_sha256 row"
    by (auto simp: state_from_row_def bind_r_eq_Inr split: if_splits)
  ultimately have "map_option st_state_sha256 (select_row st_authorization_sha256 (ls_authorization_sha256 step) (db_order_states db'))
      = Some (ls_order_state_sha256 step)"
    using assms(3,5) by (simp add: step_matches_order_def)
  moreover have "map_option ir_intent_sha256 (select_row ir_authorization_sha256 (ls_authorization_sha256 step) (db_intents db'))
      = Some (ls_intent_sha256 step)"
    using assms(1,3,6) by (auto simp: portfolio_intent_def step_matches_order_def construct_eq_Inr split: option.splits)
  ultimately show ?thesis using step_events_Inr(4) [OF assms(4)] by (simp add: list_all_iff bound_def)
qed

lemma durable_step_inv:
  assumes "durable_inv spec db" "durable_admissible spec op" "durable_step spec op db = (db', Inr u)"
  shows "durable_inv spec db'"
proof -
  from assms(1) obtain es l p where spec: "valid_BacktestSpec spec" and si: "store_inv db"
    and b: "booked spec es l p db" and bd: "list_all (\<lambda>e. bound e db) es"
    by (auto simp: durable_inv_def)
  have v: "list_all valid_intent (db_intents db)" using si by (simp add: store_inv_def)
  show ?thesis
  proof (cases op)
    case (Store so)
    then have run: "store_step so db = (db', Inr u)" and ad: "store_admissible so" using assms(2,3) by simp_all
    have si': "store_inv db'" by (rule store.ok_step [OF si ad run])
    have fx: "\<exists>f\<in>set (db_fill_events db). fx_order_state_sha256 f = fv_order_state_sha256 e" if "e \<in> set es" for e
      using b that by (force simp: booked_def fill_row_def)
    have "db_fill_events db' = db_fill_events db \<and> db_portfolios db' = db_portfolios db
        \<and> list_all (\<lambda>e. bound e db') es"
    proof (cases so)
      case (Submit d)
      then obtain r where "journal_record d db = (db', Inr r)" using run by (auto simp: act_bind_eq_Inr)
      then show ?thesis
        using v
      proof (cases rule: journal_record_cases)
        case (stored x)
        then obtain t where t: "insert_row intent_conflict x (db_intents db) = Some t" "db' = db\<lparr> db_intents := t \<rparr>"
          by (auto simp: insert_intent_Some)
        then show ?thesis
          using bd intents.insert_select [OF t(1)] intents.insert_absent [OF t(1)] by (auto simp: bound_def list_all_iff)
      qed (use bd in simp_all)
    next
      case (Advance e)
      then obtain t where t: "order_apply e db = (db', Inr t)" using run by (auto simp: act_bind_eq_Inr)
      show ?thesis
        using order_apply_keeps [OF si t] fx bd by (simp add: list_all_iff)
    qed
    then show ?thesis using spec si' booked_unchanged [OF b] unfolding durable_inv_def by blast
  next
    case (Book step m)
    then obtain a where r: "portfolio_apply spec step m db = (db', Inr a)" and c: "list_all (canonical_fill spec) (ls_fills step)"
      using assms(2,3) by (auto simp: act_bind_eq_Inr)
    obtain intent order l' where o: "active_order (ls_authorization_sha256 step) db = Inr order"
      "step_matches_order step intent order" "step_events (length es) step = Inr (ap_events a)"
      "booked spec (es @ ap_events a) l' (Some (ap_projection a)) db'"
      "db' = db\<lparr> db_fill_events := db_fill_events db', db_portfolios := db_portfolios db' \<rparr>"
      "portfolio_intent (ls_authorization_sha256 step) db = Inr intent"
      by (rule portfolio_apply_Inr [OF spec b c r])
    have tabs: "db_order_states db' = db_order_states db" "db_intents db' = db_intents db"
      "db_order_events db' = db_order_events db"
      by (subst o(5); simp)+
    have "has_intent x db' = has_intent x db" "order_ok db' r = order_ok db r" for x r
      by (simp_all add: has_intent_def order_ok_def rows_of_def tabs)
    then have "store_inv db'" using si by (simp add: store_inv_def tabs list_all_iff)
    moreover have "list_all (\<lambda>e. bound e db') (es @ ap_events a)"
      using bd bound_Book [OF o(6,1,2,3) tabs(1,2)] by (simp add: bound_def tabs)
    ultimately show ?thesis using spec o(4) unfolding durable_inv_def by blast
  qed
qed

lemma durable_step_failed:
  assumes "durable_inv spec db" "durable_admissible spec op" "durable_step spec op db = (db', Inl e)"
  shows "db' = db"
proof (cases op)
  case (Store so)
  then show ?thesis using assms store.failed_step [of db so db' e] by (simp add: durable_inv_def)
next
  case (Book step m)
  then show ?thesis using assms(3) by (auto simp: act_bind_eq_Inl dest: portfolio_apply_Inl)
qed

interpretation durable: atomic_object "durable_step spec" "durable_admissible spec" "durable_inv spec" for spec
  by unfold_locales (blast intro: durable_step_failed durable_step_inv)+

lemma durable_empty:
  assumes "valid_BacktestSpec spec"
  shows "durable_inv spec empty_database"
proof -
  have "booked spec [] (PortfolioLedger_init spec) None empty_database"
    by (simp add: booked_def empty_database_def fills_run_def)
  then show ?thesis using assms store_empty unfolding durable_inv_def by fastforce
qed

text \<open>The fills of an accepted step of the fill adapter can be booked.\<close>

lemma fill_steps_admissible:
  assumes "fill_inv spec a" "valid_BacktestSpec spec" "fill_process ev d i s c sp a = (b, Inr t)"
  shows "durable_admissible spec (Book t m)"
proof -
  from assms(3) obtain j g refs fills where v: "fill_validate a ev d i s sp = Inr ()"
    and p: "process ev j c (fa_engine a) = (g, Inr refs)" and f: "map_r (\<lambda>r. apply_costs r sp) refs = Inr fills"
    and t: "ls_fills t = fills"
    by (rule fill_process_Inr) auto
  have sp: "sp = spec" using fill_validate_Inr(9) [OF v] assms(1) by (simp add: fill_inv_def)
  have "list_all2 (\<lambda>r f. apply_costs r spec = Inr f) refs fills" using f by (simp add: map_r_eq_Inr sp)
  moreover have "valid_FillReference r" if "r \<in> set refs" for r
    using process_outcome(3) [OF p] that by (auto simp: event_fill_def)
  ultimately have "list_all (canonical_fill spec) fills"
    by (induction rule: list_all2_induct) (auto simp: canonical_fill_def dest: apply_costs_symbol)
  then show ?thesis by (simp add: t)
qed

subsection \<open>An entry, booked\<close>

text \<open>The first entry is accepted by a fresh ledger that can pay for it.\<close>

lemma first_entry_accepted:
  assumes spec: "valid_BacktestSpec spec" and r: "valid_FillReference r" "fr_action r = ENTER_LONG"
    and f: "apply_costs r spec = Inr f"
    and cash: "0 \<le> val (cash_decimal spec) + exact_cash r (val (fee_bps_decimal spec)) (val (slippage_bps_decimal spec))"
  obtains l where "ledger_apply_raw f (PortfolioLedger_init spec) = (l, Inr ())"
proof -
  from apply_costs_ok [OF r(1) spec apply_costs_symbol [OF f, THEN conjunct1]] f
  have F: "valid_CostedFill f" "cf_reference f = r" "cf_fee_bps f = fee_bps_decimal spec"
    "cf_slippage_bps f = slippage_bps_decimal spec"
    "cost_values_exact r (val (fee_bps_decimal spec)) (val (slippage_bps_decimal spec)) (cf_values f)"
    by (metis sum.inject(2))+
  let ?l = "PortfolioLedger_init spec"
  have c: "ledger_checks ?l f = Inr ()"
    using apply_costs_symbol [OF f] by (simp add: ledger_checks_def PortfolioLedger_init_def F dec_val)
  have q: "0 < exact_asset r"
    using exact_bounds(2) [OF r(1) spec_rates [OF spec]] r(2) by (simp add: exact_asset_def)
  have v: "val (cf_asset_delta f) = exact_asset r" "val (cf_cash_delta f) = exact_cash r (val (fee_bps_decimal spec)) (val (slippage_bps_decimal spec))"
    using F(5) by (simp_all add: cost_values_exact_def cf_values_def)
  have k: "val (d_add DECIMAL_PRECISION (cash_decimal spec) (cf_cash_delta f)) = val (cash_decimal spec) + val (cf_cash_delta f)"
    using ledger_sums_representable(1) [OF PortfolioLedger_init_ok [OF spec], of f] r(1) v(2)
    by (simp add: PortfolioLedger_init_def MAX_LEDGER_BATCH_def F(2) cash_of_def val_d_add)
  have "ledger_apply_raw f ?l = (after_enter f ?l, Inr ())"
    using c r(2) cash q v k
    by (simp add: ledger_apply_raw_def act_bind_def ledger_enter_def Let_def PortfolioLedger_init_def F dec_val
      pl_has_position_def after_enter_def)
  then show thesis by (rule that)
qed

definition example_activate :: LocalPaperOrderEvent where
  "example_activate = \<lparr> oe_authorization_sha256 = ir_authorization_sha256 example_intent,
     oe_intent_sha256 = ir_intent_sha256 example_intent, oe_sequence = 1, oe_event_time_ms = 1704067200001,
     oe_event_type = ACTIVATE, oe_reason = LOCAL_ACTIVATION_CONFIRMED,
     oe_previous_event_sha256 = Some (oe_event_sha256 example_create) \<rparr>"

definition example_pending :: LocalPaperOrderState where
  "example_pending = \<lparr> os_authorization_sha256 = ir_authorization_sha256 example_intent,
     os_intent_sha256 = ir_intent_sha256 example_intent, os_sequence = 0, os_updated_time_ms = 1704067200000,
     os_status = PENDING_LOCAL, os_reason = ACCEPTED_INTENT_RECORDED, os_previous_state_sha256 = None,
     os_event_sha256 = oe_event_sha256 example_create \<rparr>"

definition example_working :: LocalPaperOrderState where
  "example_working = \<lparr> os_authorization_sha256 = ir_authorization_sha256 example_intent,
     os_intent_sha256 = ir_intent_sha256 example_intent, os_sequence = 1, os_updated_time_ms = 1704067200001,
     os_status = ACTIVE_LOCAL, os_reason = LOCAL_ACTIVATION_CONFIRMED,
     os_previous_state_sha256 = Some (os_state_sha256 example_pending),
     os_event_sha256 = oe_event_sha256 example_activate \<rparr>"

lemma example_digests: "valid_digest (ir_authorization_sha256 example_intent)" "valid_digest (ir_intent_sha256 example_intent)"
  using example_intent_valid by (auto simp: valid_intent_def LocalPaperIntentRecord_post_init_def split: if_splits)

lemma example_activate_valid: "valid_order_event example_activate"
  using example_digests
  by (simp add: valid_order_event_def LocalPaperOrderEvent_post_init_def example_activate_def oe_event_sha256_def)

lemma example_order_run:
  "order_next example_intent None example_create = Inr example_pending"
  "order_next example_intent (Some example_pending) example_activate = Inr example_working"
  "valid_order_state example_pending" "valid_order_state example_working"
proof -
  show 1: "order_next example_intent None example_create = Inr example_pending"
    using example_intent_valid example_digests
    by (simp add: order_next_def validate_order_intent_def order_predecessor_def valid_intent_def construct_def
        LocalPaperOrderState_post_init_def example_create_def example_pending_def oe_event_sha256_def)
  show 2: "order_next example_intent (Some example_pending) example_activate = Inr example_working"
    using example_intent_valid example_digests
    by (simp add: order_next_def validate_order_intent_def order_predecessor_def valid_intent_def construct_def
        LocalPaperOrderState_post_init_def example_activate_def example_pending_def example_working_def oe_event_sha256_def
        os_state_sha256_def)
  show "valid_order_state example_pending" "valid_order_state example_working" using order_next_Inr(2) 1 2 by blast+
qed

text \<open>A database with one intent and its active order.\<close>

definition example_orders :: ExecutionDatabase where
  "example_orders = \<lparr> db_intents = [example_intent], db_order_events = [event_row example_create, event_row example_activate],
     db_order_states = [state_row example_working], db_fill_events = [], db_portfolios = [] \<rparr>"

lemma example_orders_inv: "durable_inv example_spec example_orders"
proof -
  have a: "oe_authorization_sha256 example_create = ir_authorization_sha256 example_intent"
    "oe_authorization_sha256 example_activate = ir_authorization_sha256 example_intent"
    "os_authorization_sha256 example_working = ir_authorization_sha256 example_intent"
    by (simp_all add: example_create_def example_activate_def example_working_def)
  have "order_ok example_orders example_intent"
    unfolding order_ok_def
    by (rule exI [of _ "[example_create, example_activate]"], rule exI [of _ "[example_pending, example_working]"])
      (simp add: example_order_run a rows_of_def example_orders_def select_row_def example_create_valid example_activate_valid)
  then have "store_inv example_orders"
    by (simp add: store_inv_def example_orders_def intents.consistent_def order_states.consistent_def example_intent_valid
        has_intent_def a)
  moreover have "booked example_spec [] (PortfolioLedger_init example_spec) None example_orders"
    by (simp add: booked_def example_orders_def fills_run_def)
  ultimately show ?thesis using example_spec_valid unfolding durable_inv_def by fastforce
qed

text \<open>The entry of twenty units after the activation, with its costs.\<close>

definition example_booked_fill :: FillReference where
  "example_booked_fill = example_entry_fill\<lparr> fr_decision_time_ms := 1704070800000, fr_fill_time_ms := 1704070800000 \<rparr>"

lemma example_booked_fill_valid: "valid_FillReference example_booked_fill" "fr_symbol example_booked_fill = sp_symbol example_spec"
  by (simp_all add: valid_FillReference_def FillReference_post_init_def example_booked_fill_def example_entry_fill_def
      positive_decimal_def SYMBOLS_def example_spec_def default_spec_def py_eval)

definition example_costed :: CostedFill where
  "example_costed = (case apply_costs example_booked_fill example_spec of Inr f \<Rightarrow> f)"

lemma example_costed: "apply_costs example_booked_fill example_spec = Inr example_costed"
  "canonical_fill example_spec example_costed" "cf_reference example_costed = example_booked_fill"
proof -
  show 1: "apply_costs example_booked_fill example_spec = Inr example_costed"
    by (rule apply_costs_ok [OF example_booked_fill_valid(1) example_spec_valid example_booked_fill_valid(2)])
      (simp add: example_costed_def)
  then show "cf_reference example_costed = example_booked_fill" using apply_costs_symbol by blast
  with 1 show "canonical_fill example_spec example_costed" by (simp add: canonical_fill_def example_booked_fill_valid)
qed

definition example_step :: LocalPaperFillStep where
  "example_step = \<lparr> ls_authorization_sha256 = ir_authorization_sha256 example_intent,
     ls_intent_sha256 = ir_intent_sha256 example_intent, ls_order_state_sha256 = os_state_sha256 example_working,
     ls_p2_intent = Risk_Adapter.example_entry, ls_references = [example_booked_fill], ls_fills = [example_costed] \<rparr>"

lemma example_ledger:
  obtains l s where "ledger_apply_raw example_costed (PortfolioLedger_init example_spec) = (l, Inr ())"
    "ledger_snapshot l ''100'' = Inr s"
proof -
  have r: "val (fee_bps_decimal example_spec) = 10" "val (slippage_bps_decimal example_spec) = 5"
    "val (cash_decimal example_spec) = 10000"
    by (simp_all add: fee_bps_decimal_def slippage_bps_decimal_def cash_decimal_def example_spec_def default_spec_def py_eval val_def)
  have q: "qty example_booked_fill = 20" "val (py_Decimal (fr_reference_price example_booked_fill)) = 100"
    "fr_action example_booked_fill = ENTER_LONG"
    by (simp_all add: qty_def example_booked_fill_def example_entry_fill_def py_eval val_def)
  have "0 \<le> val (cash_decimal example_spec)
      + exact_cash example_booked_fill (val (fee_bps_decimal example_spec)) (val (slippage_bps_decimal example_spec))"
    by (simp add: r q exact_cash_def exact_gross_def exact_price_def exact_fee_def)
  from first_entry_accepted [OF example_spec_valid example_booked_fill_valid(1) q(3) example_costed(1) this]
  obtain l where l: "ledger_apply_raw example_costed (PortfolioLedger_init example_spec) = (l, Inr ())" .
  have "fills_run example_spec [example_costed] l" by (simp add: fills_run_def l)
  from fills_run_ok [OF example_spec_valid this] have "ledger_ok l" "length (pl_applied l) \<le> MAX_LEDGER_BATCH"
    using example_costed(2) by (simp_all add: MAX_LEDGER_BATCH_def)
  moreover have "plain_unsigned ''100''" "0 < val (py_Decimal ''100'')" by (simp_all add: py_eval val_def)
  ultimately obtain s where "ledger_snapshot l ''100'' = Inr s" using ledger_snapshot_ok by metis
  with l show thesis by (rule that)
qed

lemma example_step_booked:
  obtains db' where "durable_step example_spec (Book example_step ''100'') example_orders = (db', Inr ())"
proof -
  obtain l s where l: "ledger_apply_raw example_costed (PortfolioLedger_init example_spec) = (l, Inr ())"
    "ledger_snapshot l ''100'' = Inr s"
    by (rule example_ledger)
  let ?db = example_orders and ?a = "ls_authorization_sha256 example_step"
  have a: "?a = ir_authorization_sha256 example_intent" "ls_fills example_step = [example_costed]"
    by (simp_all add: example_step_def)
  have p: "LocalPaperFillStep_post_init example_step = Inr ()"
    using example_digests
    by (simp add: LocalPaperFillStep_post_init_def example_step_def example_costed(3) os_state_sha256_def
        example_booked_fill_def example_entry_fill_def Risk_Adapter.example_entry_def)
  have i: "portfolio_intent ?a ?db = Inr example_intent"
    using example_intent_valid by (simp add: portfolio_intent_def a example_orders_def select_row_def construct_ok valid_intent_def)
  have o: "active_order ?a ?db = Inr example_working"
    using example_order_run(4) by (simp add: active_order_def a example_orders_def select_row_def example_working_def)
  have m: "step_matches_order example_step example_intent example_working"
    by (simp add: step_matches_order_def example_step_def example_working_def example_intent_def Let_def
        Risk_Adapter.example_entry_def example_costed(3) example_booked_fill_def)
  have ld: "portfolio_load example_spec ?db = Inr ([], PortfolioLedger_init example_spec, None)"
  proof -
    have "booked example_spec [] (PortfolioLedger_init example_spec) None ?db"
      by (simp add: booked_def example_orders_def fills_run_def)
    from portfolio_load_booked [OF example_spec_valid this] show ?thesis by simp
  qed
  obtain ev where ev: "ev = \<lparr> fv_sequence = 0, fv_authorization_sha256 = ?a, fv_intent_sha256 = ls_intent_sha256 example_step,
        fv_order_state_sha256 = ls_order_state_sha256 example_step, fv_fill_step_sha256 = fill_step_sha256 example_step,
        fv_fill_index = 0, fv_fill = example_costed \<rparr>" by simp
  have e: "step_events 0 example_step = Inr [ev]"
    using example_digests
    by (simp add: ev step_events_def a construct_def LocalPaperFillEvent_post_init_def fill_step_sha256_def example_step_def
        os_state_sha256_def)
  have v: "valued_ledger (PortfolioLedger_init example_spec) [example_costed] ''100'' = Inr s"
    by (simp add: valued_ledger_def ledger_apply_many_def MAX_LEDGER_BATCH_def with_rollback_def l)
  let ?db1 = "?db\<lparr> db_fill_events := [fill_row example_spec ev] \<rparr>"
  let ?c = "\<lparr> pj_spec_sha256 = spec_sha256 example_spec, pj_fill_count = 1,
      pj_last_fill_event_sha256 = fill_event_sha256 ev, pj_mark_price = ''100'', pj_snapshot = s \<rparr>"
  have "insert_fill example_spec ev ?db = (?db1, Inr ())"
    by (simp add: ev insert_fill_def insert_fill_event_def insert_row_def example_orders_def has_intent_def fill_row_def
        example_step_def)
  moreover obtain db' where "write_projection example_spec None ?c ?db1 = (db', Inr ())"
    by (simp add: write_projection_def insert_portfolio_def insert_row_def has_fill_event_def portfolio_row_def
        fill_row_def example_orders_def)
  moreover have "db_fill_events ?db = []" by (simp add: example_orders_def)
  moreover have "valid_digest (spec_sha256 example_spec)" "valid_digest (fill_event_sha256 ev)"
    by (simp_all add: spec_sha256_def fill_event_sha256_def)
  ultimately have "\<exists>r. portfolio_transaction example_spec example_step ''100'' ?db = (db', Inr r)"
    by (simp add: portfolio_transaction_def act_bind_def i o m ld e v a(2) construct_def
        LocalPaperPortfolioProjection_post_init_def LocalPaperPortfolioApplication_post_init_def)
  then show thesis using that p by (auto simp: portfolio_apply_def construct_ok with_rollback_def)
qed

section \<open>Properties\<close>

text \<open>C6. The durable portfolio is exactly the replay of its fill log: after any history of submissions,
order events and bookings, accepted or refused, on an empty database, loading returns the stored fill
events, numbered without a gap, with the ledger that a fresh ledger reaches through all their fills and a
projection equal to that ledger's valuation (unless there are more than 100000 fills, which the code
cannot load); every event refers to its recorded intent and to the present state of its order; and a refused operation leaves the
database as it was.\<close>

theorem portfolio_store_replays:
  assumes "valid_BacktestSpec spec" and "list_all (durable_admissible spec) ops" and "durable_admissible spec op"
  shows "let db = foldl (\<lambda>db i. fst (durable_step spec i db)) empty_database ops in
    (\<exists>events ledger projection.
       portfolio_load spec db = (if length events \<le> MAX_LEDGER_BATCH then Inr (events, ledger, projection)
         else Inl (portfolio_error ''Durable fills fail accepted P2 replay''))
       \<and> db_fill_events db = map (fill_row spec) events
       \<and> map fv_sequence events = map int [0..<length events]
       \<and> act_for (map fv_fill events) ledger_apply_raw (PortfolioLedger_init spec) = (ledger, Inr ())
       \<and> (case projection of
            None \<Rightarrow> events = []
          | Some p \<Rightarrow> pj_fill_count p = int (length events)
              \<and> pj_last_fill_event_sha256 p = fill_event_sha256 (last events)
              \<and> (\<exists>s. ledger_snapshot ledger (pj_mark_price p) = Inr s \<and> snapshot_eq (pj_snapshot p) s))
       \<and> list_all (\<lambda>e. map_option ir_intent_sha256
             (select_row ir_authorization_sha256 (fv_authorization_sha256 e) (db_intents db)) = Some (fv_intent_sha256 e)
           \<and> map_option st_state_sha256
             (select_row st_authorization_sha256 (fv_authorization_sha256 e) (db_order_states db))
               = Some (fv_order_state_sha256 e)) events)
    \<and> (case durable_step spec op db of (db', Inl e) \<Rightarrow> db' = db | (db', Inr u) \<Rightarrow> True)"
proof -
  define db where "db = foldl (\<lambda>db i. fst (durable_step spec i db)) empty_database ops"
  have inv: "durable_inv spec db"
    unfolding db_def using durable.drive_inv [OF durable_empty [OF assms(1)] assms(2)] by (simp add: durable.drive_def)
  then obtain es l p where b: "booked spec es l p db" and bd: "list_all (\<lambda>e. bound e db) es"
    by (auto simp: durable_inv_def)
  have pr: "case map_option reread_projection p of
            None \<Rightarrow> es = []
          | Some p \<Rightarrow> pj_fill_count p = int (length es)
              \<and> pj_last_fill_event_sha256 p = fill_event_sha256 (last es)
              \<and> (\<exists>s. ledger_snapshot l (pj_mark_price p) = Inr s \<and> snapshot_eq (pj_snapshot p) s)"
    using b by (cases p) (auto simp: booked_def)
  have "case durable_step spec op db of (db', Inl e) \<Rightarrow> db' = db | (db', Inr u) \<Rightarrow> True"
    using durable.failed_step [OF inv assms(3)] by (auto split: prod.splits sum.splits)
  moreover have "db_fill_events db = map (fill_row spec) es" "map fv_sequence es = map int [0..<length es]"
    "act_for (map fv_fill es) ledger_apply_raw (PortfolioLedger_init spec) = (l, Inr ())"
    using b by (auto simp: booked_def fills_run_def)
  ultimately show ?thesis
    using portfolio_load_booked [OF assms(1) b] pr bd unfolding Let_def db_def [symmetric] bound_def by blast
qed

theorem portfolio_store_replays_witness:
  "\<exists>events ledger projection.
     portfolio_load example_spec (foldl (\<lambda>db i. fst (durable_step example_spec i db)) empty_database
         [Store (Submit example_execution), Store (Advance example_create), Book example_step ''100''])
       = (if length events \<le> MAX_LEDGER_BATCH then Inr (events, ledger, projection)
          else Inl (portfolio_error ''Durable fills fail accepted P2 replay''))
     \<and> act_for (map fv_fill events) ledger_apply_raw (PortfolioLedger_init example_spec) = (ledger, Inr ())"
  using portfolio_store_replays [OF example_spec_valid,
      of "[Store (Submit example_execution), Store (Advance example_create), Book example_step ''100'']"
        "Book example_step ''100''"] example_create_valid example_costed(2)
  unfolding Let_def by (fastforce simp: example_step_def simp del: foldl.simps durable_step.simps)

text \<open>The logs of the database only grow, and orders are never removed.\<close>

definition grows :: "ExecutionDatabase \<Rightarrow> ExecutionDatabase \<Rightarrow> bool" where
  "grows db db' \<longleftrightarrow> prefix (db_intents db) (db_intents db') \<and> prefix (db_order_events db) (db_order_events db')
     \<and> prefix (db_fill_events db) (db_fill_events db') \<and> length (db_order_states db) \<le> length (db_order_states db')"

lemma grows_refl [simp]: "grows db db"
  by (simp add: grows_def)

lemma grows_trans: "grows a b \<Longrightarrow> grows b c \<Longrightarrow> grows a c"
  by (auto simp: grows_def intro: prefix_order.trans)

lemma write_state_length: "write_state p s db = (db', Inr u) \<Longrightarrow> length (db_order_states db) \<le> length (db_order_states db')"
  by (auto simp: write_state_def insert_order_state_def insert_row_def update_order_state_def Let_def
      split: option.splits if_splits)

lemma order_apply_grows:
  assumes "store_inv db" "order_apply e db = (db', Inr t)"
  shows "grows db db'"
proof -
  have "order_transaction e db = (db', Inr t)" using assms(2) by (simp add: order_apply_def with_rollback_Inr)
  then obtain i p where "act_bind (insert_event e) (\<lambda>_. write_state p (ot_current t)) db = (db', Inr ())"
    by (rule order_transaction_Inr)
  then obtain db1 where 1: "insert_event e db = (db1, Inr ())" "write_state p (ot_current t) db1 = (db', Inr ())"
    by (auto simp: act_bind_eq_Inr)
  note I = insert_event_Inr(1) [OF 1(1)]
  have c: "order_states.consistent (db_order_states db1)" using assms(1) by (simp add: I store_inv_def)
  show ?thesis using write_state_Inr(2-4) [OF c 1(2)] write_state_length [OF 1(2)] by (simp add: grows_def I)
qed

lemma durable_grows:
  assumes "durable_inv spec db" "durable_admissible spec op"
  shows "grows db (fst (durable_step spec op db))"
proof (cases "durable_step spec op db")
  case (Pair db' r)
  from assms(1) obtain es l p where spec: "valid_BacktestSpec spec" and si: "store_inv db" and b: "booked spec es l p db"
    by (auto simp: durable_inv_def)
  show ?thesis
  proof (cases r)
    case (Inl e)
    then show ?thesis using durable_step_failed [OF assms] Pair by auto
  next
    case (Inr u)
    show ?thesis
    proof (cases op)
      case (Store so)
      have v: "list_all valid_intent (db_intents db)" using si by (simp add: store_inv_def)
      show ?thesis
      proof (cases so)
        case (Submit d)
        then obtain r where "journal_record d db = (db', Inr r)" using Pair Inr Store by (auto simp: act_bind_eq_Inr)
        then show ?thesis
          using v Pair
          by (cases rule: journal_record_cases) (auto simp: insert_intent_Some insert_row_def grows_def split: if_splits)
      next
        case (Advance e)
        then show ?thesis using Pair Inr Store order_apply_grows [OF si] by (auto simp: act_bind_eq_Inr)
      qed
    next
      case (Book step m)
      then obtain a where r: "portfolio_apply spec step m db = (db', Inr a)" and c: "list_all (canonical_fill spec) (ls_fills step)"
        using assms(2) Pair Inr by (auto simp: act_bind_eq_Inr)
      obtain l' where b': "booked spec (es @ ap_events a) l' (Some (ap_projection a)) db'"
        "db' = db\<lparr> db_fill_events := db_fill_events db', db_portfolios := db_portfolios db' \<rparr>"
        by (rule portfolio_apply_Inr [OF spec b c r])
      have tabs: "db_order_states db' = db_order_states db" "db_intents db' = db_intents db"
        "db_order_events db' = db_order_events db"
        by (subst b'(2); simp)+
      show ?thesis using b b'(1) Pair tabs by (simp add: grows_def booked_def)
    qed
  qed
qed

lemma durable_drive_grows:
  "durable_inv spec db \<Longrightarrow> list_all (durable_admissible spec) ops \<Longrightarrow> grows db (durable.drive spec ops db)"
  unfolding durable.drive_def
proof (induction ops arbitrary: db)
  case (Cons op ops)
  have "durable_inv spec (fst (durable_step spec op db))" using durable.step_inv Cons.prems by simp
  then show ?case using Cons durable_grows [OF Cons.prems(1), of op] by (auto intro: grows_trans)
qed simp

lemma durable_fills_kept:
  assumes "durable_inv spec db" "durable_admissible spec op"
  shows "set (db_fill_events db) \<subseteq> set (db_fill_events (fst (durable_step spec op db)))"
  using durable_grows [OF assms] by (simp add: grows_def set_mono_prefix)

text \<open>C7. No fill is booked twice: once a fill step has been booked, whatever submissions, order events and
bookings follow, booking the same step again is refused at every mark price and leaves the database as it is.\<close>

theorem fill_step_booked_once:
  assumes "durable_inv spec db0" and "durable_admissible spec (Book step mark_price)"
    and "durable_step spec (Book step mark_price) db0 = (booked_db, Inr ())"
    and "list_all (durable_admissible spec) after"
  shows "let db = foldl (\<lambda>db i. fst (durable_step spec i db)) booked_db after in
    \<exists>e. durable_step spec (Book step any_price) db = (db, Inl e)"
proof -
  define db where "db = foldl (\<lambda>db i. fst (durable_step spec i db)) booked_db after"
  have spec: "valid_BacktestSpec spec" using assms(1) by (simp add: durable_inv_def)
  have inv1: "durable_inv spec booked_db" by (rule durable_step_inv [OF assms(1-3)])
  have inv: "durable_inv spec db" unfolding db_def using durable.drive_inv [OF inv1 assms(4)] by (simp add: durable.drive_def)
  have keep: "set (db_fill_events d) \<subseteq> set (db_fill_events (foldl (\<lambda>db i. fst (durable_step spec i db)) d is))"
    if "durable_inv spec d" "list_all (durable_admissible spec) is" for d "is"
    using that
  proof (induction "is" arbitrary: d)
    case (Cons i "is")
    then show ?case
      using durable_fills_kept [of spec d i] durable.step_inv [of spec d i] Cons.IH [of "fst (durable_step spec i d)"]
      by auto
  qed simp
  from assms(1) obtain es l p where b: "booked spec es l p db0" by (auto simp: durable_inv_def)
  obtain a where r: "portfolio_apply spec step mark_price db0 = (booked_db, Inr a)"
    and c: "list_all (canonical_fill spec) (ls_fills step)"
    using assms(2,3) by (auto simp: act_bind_eq_Inr)
  obtain l' where o: "LocalPaperFillStep_post_init step = Inr ()" "step_events (length es) step = Inr (ap_events a)"
    "booked spec (es @ ap_events a) l' (Some (ap_projection a)) booked_db"
    by (rule portfolio_apply_Inr [OF spec b c r])
  note E = step_events_Inr [OF o(2)]
  have "ap_events a \<noteq> []" using E(1) o(1) by (auto simp: LocalPaperFillStep_post_init_def split: if_splits)
  then obtain e where e: "e \<in> set (ap_events a)" by (cases "ap_events a") auto
  then have f: "fill_row spec e \<in> set (db_fill_events db)"
    using o(3) keep [OF inv1 assms(4)] by (auto simp: booked_def db_def)
  have k: "fx_fill_step_sha256 (fill_row spec e) = fill_step_sha256 step"
    using E(4) e by (simp add: list_all_iff fill_row_def)
  show ?thesis
  proof (cases "durable_step spec (Book step any_price) db")
    case (Pair db' u)
    show ?thesis
    proof (cases u)
      case (Inl x)
      then show ?thesis
        using durable_step_failed [OF inv, of "Book step any_price"] assms(2) Pair by (simp add: Let_def db_def)
    next
      case (Inr v)
      then obtain a2 where r2: "portfolio_apply spec step any_price db = (db', Inr a2)"
        using Pair by (auto simp: act_bind_eq_Inr)
      from inv obtain es2 l2 p2 where b2: "booked spec es2 l2 p2 db" by (auto simp: durable_inv_def)
      have "\<not> (\<exists>f\<in>set (db_fill_events db). fx_fill_step_sha256 f = fill_step_sha256 step)"
        by (rule portfolio_apply_Inr [OF spec b2 c r2])
      then show ?thesis using f k by blast
    qed
  qed
qed

theorem fill_step_booked_once_witness:
  "\<exists>db. durable_step example_spec (Book example_step ''100'') example_orders = (db, Inr ())
     \<and> (\<exists>e. durable_step example_spec (Book example_step ''101'') db = (db, Inl e))"
proof -
  obtain db where db: "durable_step example_spec (Book example_step ''100'') example_orders = (db, Inr ())"
    by (rule example_step_booked)
  have "durable_admissible example_spec (Book example_step ''100'')" by (simp add: example_step_def example_costed(2))
  from fill_step_booked_once [OF example_orders_inv this db, of "[]" "''101''"] db show ?thesis by simp
qed

end
