(* ===== verification/Execution_Reconcile.thy ===== *)
theory Execution_Reconcile
  imports Execution_Portfolio "HOL-Library.Product_Lexorder"
begin

text \<open>
  \<^verbatim>\<open>yatl/execution/reconcile.py\<close>: the startup check that rebuilds journal, orders, fills and
  portfolio from the database and reports READY only when everything agrees. It reads the
  tables with its own queries; the theory relates it to the stores that write them.
\<close>

section \<open>The report\<close>

datatype ReconciliationCode =
    MATCH | DATABASE_UNAVAILABLE | MISSING_SCHEMA | UNSUPPORTED_SCHEMA | INTENT_INVALID
  | ORDER_COVERAGE_MISMATCH | ORDER_EVENT_INVALID | ORDER_STATE_INVALID | ORDER_REPLAY_MISMATCH
  | FILL_INVALID | FILL_ORDER_MISMATCH | PORTFOLIO_INVALID | PORTFOLIO_REPLAY_MISMATCH | STORAGE_ERROR

fun ReconciliationCode_value :: "ReconciliationCode \<Rightarrow> string" where
  "ReconciliationCode_value MATCH = ''MATCH''"
| "ReconciliationCode_value DATABASE_UNAVAILABLE = ''DATABASE_UNAVAILABLE''"
| "ReconciliationCode_value MISSING_SCHEMA = ''MISSING_SCHEMA''"
| "ReconciliationCode_value UNSUPPORTED_SCHEMA = ''UNSUPPORTED_SCHEMA''"
| "ReconciliationCode_value INTENT_INVALID = ''INTENT_INVALID''"
| "ReconciliationCode_value ORDER_COVERAGE_MISMATCH = ''ORDER_COVERAGE_MISMATCH''"
| "ReconciliationCode_value ORDER_EVENT_INVALID = ''ORDER_EVENT_INVALID''"
| "ReconciliationCode_value ORDER_STATE_INVALID = ''ORDER_STATE_INVALID''"
| "ReconciliationCode_value ORDER_REPLAY_MISMATCH = ''ORDER_REPLAY_MISMATCH''"
| "ReconciliationCode_value FILL_INVALID = ''FILL_INVALID''"
| "ReconciliationCode_value FILL_ORDER_MISMATCH = ''FILL_ORDER_MISMATCH''"
| "ReconciliationCode_value PORTFOLIO_INVALID = ''PORTFOLIO_INVALID''"
| "ReconciliationCode_value PORTFOLIO_REPLAY_MISMATCH = ''PORTFOLIO_REPLAY_MISMATCH''"
| "ReconciliationCode_value STORAGE_ERROR = ''STORAGE_ERROR''"

text \<open>
  A \<^verbatim>\<open>StartupReconciliationError\<close> carries a code; the message of the exception is its value.
\<close>

definition recon_error :: "ReconciliationCode \<Rightarrow> py_error" where
  "recon_error c = StartupReconciliationError (ReconciliationCode_value c)"

definition recon_code :: "string \<Rightarrow> ReconciliationCode option" where
  "recon_code s = find (\<lambda>c. ReconciliationCode_value c = s)
     [MATCH, DATABASE_UNAVAILABLE, MISSING_SCHEMA, UNSUPPORTED_SCHEMA, INTENT_INVALID, ORDER_COVERAGE_MISMATCH,
      ORDER_EVENT_INVALID, ORDER_STATE_INVALID, ORDER_REPLAY_MISMATCH, FILL_INVALID, FILL_ORDER_MISMATCH,
      PORTFOLIO_INVALID, PORTFOLIO_REPLAY_MISMATCH, STORAGE_ERROR]"

record StartupReconciliationReport =
  rp_ready :: bool
  rp_code :: ReconciliationCode
  rp_spec_sha256 :: "string option"
  rp_intent_count :: int
  rp_order_count :: int
  rp_fill_count :: int
  rp_journal_sha256 :: "string option"
  rp_orders_sha256 :: "string option"
  rp_portfolio_sha256 :: "string option"

definition StartupReconciliationReport_post_init :: "StartupReconciliationReport \<Rightarrow> unit result" where
  "StartupReconciliationReport_post_init r =
     (let digests = [rp_spec_sha256 r, rp_journal_sha256 r, rp_orders_sha256 r, rp_portfolio_sha256 r] in
      if list_ex (\<lambda>n. n < 0) [rp_intent_count r, rp_order_count r, rp_fill_count r]
      then Inl (ValueError ''Reconciliation report counts are invalid'')
      else if list_ex (\<lambda>d. case d of None \<Rightarrow> False | Some s \<Rightarrow> \<not> valid_digest s) digests
      then Inl (ValueError ''Reconciliation report digest is invalid'')
      else if rp_ready r
      then (if rp_code r \<noteq> MATCH \<or> list_ex (\<lambda>d. d = None) digests
            then Inl (ValueError ''Ready reconciliation evidence is incomplete'') else Inr ())
      else if rp_code r = MATCH then Inl (ValueError ''Failed reconciliation cannot use MATCH'')
      else Inr ())"

definition report_material :: "StartupReconciliationReport \<Rightarrow> (string \<times> json) list" where
  "report_material r =
     [(''schema_version'', JInt 1),
      (''status'', JStr (if rp_ready r then ''READY'' else ''RECOVERY_REQUIRED'')),
      (''code'', JStr (ReconciliationCode_value (rp_code r))), (''spec_sha256'', j_opt JStr (rp_spec_sha256 r)),
      (''intent_count'', JInt (rp_intent_count r)), (''order_count'', JInt (rp_order_count r)),
      (''fill_count'', JInt (rp_fill_count r)), (''journal_sha256'', j_opt JStr (rp_journal_sha256 r)),
      (''orders_sha256'', j_opt JStr (rp_orders_sha256 r)), (''portfolio_sha256'', j_opt JStr (rp_portfolio_sha256 r))]"

definition reconciliation_sha256 :: "StartupReconciliationReport \<Rightarrow> string" where
  "reconciliation_sha256 r = py_digest (JObj (report_material r))"

definition report_readiness :: "StartupReconciliationReport \<Rightarrow> RecoveryReadiness result" where
  "report_readiness r =
     (if rp_ready r
      then construct RecoveryReadiness_post_init
        \<lparr> ry_status = READY, ry_reason = RECONCILIATION_PASSED,
          ry_reconciliation_sha256 = Some (reconciliation_sha256 r) \<rparr>
      else construct RecoveryReadiness_post_init
        \<lparr> ry_status = RECOVERY_REQUIRED, ry_reason = RECONCILIATION_FAILED,
          ry_reconciliation_sha256 = Some (reconciliation_sha256 r) \<rparr>)"

definition report_as_record :: "StartupReconciliationReport \<Rightarrow> json result" where
  "report_as_record r =
     bind_r (report_readiness r) (\<lambda>readiness.
     Inr (JObj (report_material r @
       [(''reconciliation_sha256'', JStr (reconciliation_sha256 r)),
        (''readiness_sha256'', JStr (readiness_sha256 readiness))])))"

definition recon_failure :: "ReconciliationCode \<Rightarrow> string option \<Rightarrow> StartupReconciliationReport result" where
  "recon_failure code spec_digest = construct StartupReconciliationReport_post_init
     \<lparr> rp_ready = False, rp_code = code, rp_spec_sha256 = spec_digest, rp_intent_count = 0, rp_order_count = 0,
       rp_fill_count = 0, rp_journal_sha256 = None, rp_orders_sha256 = None, rp_portfolio_sha256 = None \<rparr>"

text \<open>The digest of a payload's canonical text with its final newline.\<close>

definition canonical_digest :: "json \<Rightarrow> string" where
  "canonical_digest payload = sha256_hexdigest (json_dumps payload @ [CHR 0x0A])"

section \<open>The database file\<close>

text \<open>
  The file as the check sees it: the names of its tables, the versions in each migration
  table, and the rows.
\<close>

record ExecutionFile =
  ef_tables :: "string list"
  ef_versions :: "string \<Rightarrow> int list"
  ef_database :: ExecutionDatabase

text \<open>\<^verbatim>\<open>SELECT COALESCE(MAX(version), 0)\<close>\<close>

definition max_version :: "int list \<Rightarrow> int" where
  "max_version vs = (case vs of [] \<Rightarrow> 0 | v # vs \<Rightarrow> foldl max v vs)"

definition required_tables :: "string list" where
  "required_tables =
     [''execution_schema_migrations'', ''local_paper_intents'', ''order_schema_migrations'',
      ''local_paper_order_events'', ''local_paper_order_states'', ''portfolio_schema_migrations'',
      ''local_paper_fill_events'', ''local_paper_portfolios'']"

definition require_schema :: "ExecutionFile \<Rightarrow> unit result" where
  "require_schema f =
     (if \<not> list_all (\<lambda>t. t \<in> set (ef_tables f)) required_tables then Inl (recon_error MISSING_SCHEMA)
      else if \<not> list_all (\<lambda>(table, version). max_version (ef_versions f table) = version)
          [(''execution_schema_migrations'', 1), (''order_schema_migrations'', 1), (''portfolio_schema_migrations'', 1)]
      then Inl (recon_error UNSUPPORTED_SCHEMA)
      else Inr ())"

section \<open>Intents and orders\<close>

text \<open>
  The records in the order of the query stand for the dictionary; the comparison of the
  lengths makes their authorizations distinct.
\<close>

definition load_intents :: "ExecutionDatabase \<Rightarrow> (LocalPaperIntentRecord list \<times> json) result" where
  "load_intents db =
     bind_r (catch_r (map_r (construct LocalPaperIntentRecord_post_init) (sort_key ir_authorization_sha256 (db_intents db)))
       (\<lambda>e. is_journal_error e \<or> is_value_error e) (recon_error INTENT_INVALID)) (\<lambda>records.
     if length (remdups (map ir_authorization_sha256 records)) \<noteq> length records
     then Inl (recon_error INTENT_INVALID)
     else Inr (records, JObj [(''schema_version'', JInt 1), (''intents'', JList (map intent_as_record records))]))"

text \<open>Every way in which a row fails to give an object of its class has the same code.\<close>

definition recon_order_event :: "OrderEventRow \<Rightarrow> LocalPaperOrderEvent result" where
  "recon_order_event row =
     catch_r (event_from_row row) (\<lambda>e. is_order_error e \<or> is_value_error e) (recon_error ORDER_EVENT_INVALID)"

definition recon_order_state :: "OrderStateRow \<Rightarrow> LocalPaperOrderState result" where
  "recon_order_state row =
     catch_r (state_from_row row) (\<lambda>e. is_order_error e \<or> is_value_error e) (recon_error ORDER_STATE_INVALID)"

fun recon_replay ::
    "LocalPaperIntentRecord \<Rightarrow> LocalPaperOrderState option \<Rightarrow> OrderEventRow list \<Rightarrow>
       (LocalPaperOrderEvent list \<times> LocalPaperOrderState option) result" where
  "recon_replay intent previous [] = Inr ([], previous)"
| "recon_replay intent previous (row # rows) =
     bind_r (recon_order_event row) (\<lambda>event.
     bind_r (catch_r (apply_local_order_event intent previous event)
       (\<lambda>e. is_order_error e \<or> is_value_error e) (recon_error ORDER_EVENT_INVALID)) (\<lambda>transition.
     bind_r (recon_replay intent (Some (ot_current transition)) rows) (\<lambda>(events, state).
     Inr (event # events, state))))"

definition recon_order ::
    "LocalPaperIntentRecord list \<Rightarrow> OrderEventRow list \<Rightarrow> OrderStateRow \<Rightarrow> (LocalPaperOrderState \<times> json) result" where
  "recon_order intents event_rows row =
     (case select_row ir_authorization_sha256 (st_authorization_sha256 row) intents of
        None \<Rightarrow> Inl (recon_error ORDER_COVERAGE_MISMATCH)
      | Some intent \<Rightarrow>
          bind_r (recon_replay intent None
            (filter (\<lambda>r. ev_authorization_sha256 r = st_authorization_sha256 row) event_rows)) (\<lambda>(events, previous).
          bind_r (recon_order_state row) (\<lambda>stored.
          if previous \<noteq> Some stored then Inl (recon_error ORDER_REPLAY_MISMATCH)
          else Inr (stored, JObj
            [(''authorization_sha256'', JStr (st_authorization_sha256 row)),
             (''events'', JList (map order_event_as_record events)), (''state'', order_state_as_record stored)]))))"

definition load_orders ::
    "ExecutionDatabase \<Rightarrow> LocalPaperIntentRecord list \<Rightarrow> (LocalPaperOrderState list \<times> json) result" where
  "load_orders db intents =
     (let state_rows = sort_key st_authorization_sha256 (db_order_states db);
          event_rows = sort_key (\<lambda>r. (ev_authorization_sha256 r, ev_sequence r)) (db_order_events db);
          intent_auths = set (map ir_authorization_sha256 intents)
      in if set (map st_authorization_sha256 state_rows) \<noteq> intent_auths
            \<or> set (map ev_authorization_sha256 event_rows) \<noteq> intent_auths
         then Inl (recon_error ORDER_COVERAGE_MISMATCH)
         else bind_r (map_r (recon_order intents event_rows) state_rows) (\<lambda>orders.
           Inr (map fst orders, JObj [(''schema_version'', JInt 1), (''orders'', JList (map snd orders))])))"

section \<open>Fills and portfolio\<close>

definition recon_fill_event :: "BacktestSpec \<Rightarrow> FillEventRow \<Rightarrow> LocalPaperFillEvent result" where
  "recon_fill_event spec row =
     catch_r (fill_event_from_row spec row) is_portfolio_store_error (recon_error FILL_INVALID)"

definition fill_matches_order ::
    "LocalPaperIntentRecord list \<Rightarrow> LocalPaperOrderState list \<Rightarrow> LocalPaperFillEvent \<Rightarrow> bool" where
  "fill_matches_order intents states e =
     (case (select_row ir_authorization_sha256 (fv_authorization_sha256 e) intents,
            select_row os_authorization_sha256 (fv_authorization_sha256 e) states) of
        (Some intent, Some state) \<Rightarrow>
          fv_intent_sha256 e = ir_intent_sha256 intent \<and> fv_order_state_sha256 e = os_state_sha256 state
          \<and> os_status state = ACTIVE_LOCAL \<and> os_updated_time_ms state < fr_fill_time_ms (cf_reference (fv_fill e))
      | _ \<Rightarrow> False)"

definition recon_projection ::
    "BacktestSpec \<Rightarrow> LocalPaperFillEvent list \<Rightarrow> PortfolioLedger \<Rightarrow> PortfolioRow list
     \<Rightarrow> LocalPaperPortfolioProjection option result" where
  "recon_projection spec events ledger portfolio_rows =
     (if events = []
      then (if portfolio_rows \<noteq> [] then Inl (recon_error PORTFOLIO_INVALID) else Inr None)
      else case portfolio_rows of
        [row] \<Rightarrow>
          if px_symbol row \<noteq> sp_symbol spec then Inl (recon_error PORTFOLIO_INVALID)
          else (case json_loads (px_payload_json row) of
             None \<Rightarrow> Inl (recon_error PORTFOLIO_INVALID)
           | Some payload \<Rightarrow>
               bind_r (catch_r (projection_from_payload payload) (\<lambda>e. is_LocalPaperPortfolioError e \<or> is_value_error e)
                 (recon_error PORTFOLIO_INVALID)) (\<lambda>p.
               if \<not> projection_matches_row p payload row \<or> pj_spec_sha256 p \<noteq> spec_sha256 spec
                  \<or> pj_fill_count p \<noteq> int (length events)
                  \<or> pj_last_fill_event_sha256 p \<noteq> fill_event_sha256 (last events)
               then Inl (recon_error PORTFOLIO_INVALID)
               else bind_r (catch_r (ledger_snapshot ledger (pj_mark_price p)) is_PortfolioError
                 (recon_error PORTFOLIO_INVALID)) (\<lambda>expected.
               if \<not> snapshot_eq (pj_snapshot p) expected then Inl (recon_error PORTFOLIO_REPLAY_MISMATCH)
               else Inr (Some p))))
      | _ \<Rightarrow> Inl (recon_error PORTFOLIO_INVALID))"

definition recon_portfolio ::
    "ExecutionDatabase \<Rightarrow> BacktestSpec \<Rightarrow> LocalPaperIntentRecord list \<Rightarrow> LocalPaperOrderState list
     \<Rightarrow> (LocalPaperFillEvent list \<times> json) result" where
  "recon_portfolio db spec intents states =
     (let rows = sort_key fx_sequence (db_fill_events db) in
      if list_ex (\<lambda>r. fx_symbol r \<noteq> sp_symbol spec) rows then Inl (recon_error FILL_INVALID)
      else bind_r (map_r (recon_fill_event spec) rows) (\<lambda>events.
      if map fv_sequence events \<noteq> map int [0..<length events] then Inl (recon_error FILL_INVALID)
      else if \<not> list_all (fill_matches_order intents states) events then Inl (recon_error FILL_ORDER_MISMATCH)
      else bind_r (catch_r (replay_ledger spec (map fv_fill events)) is_PortfolioError (recon_error FILL_INVALID)) (\<lambda>ledger.
      bind_r (recon_projection spec events ledger (sort_key px_symbol (db_portfolios db))) (\<lambda>projection.
      Inr (events, portfolio_payload spec events projection)))))"

section \<open>The check\<close>

definition reconcile_body :: "ExecutionFile \<Rightarrow> BacktestSpec \<Rightarrow> StartupReconciliationReport result" where
  "reconcile_body f spec =
     bind_r (require_schema f) (\<lambda>_.
     bind_r (load_intents (ef_database f)) (\<lambda>(intents, journal_payload).
     bind_r (load_orders (ef_database f) intents) (\<lambda>(states, orders_payload).
     bind_r (recon_portfolio (ef_database f) spec intents states) (\<lambda>(events, fills_payload).
     construct StartupReconciliationReport_post_init
       \<lparr> rp_ready = True, rp_code = MATCH, rp_spec_sha256 = Some (spec_sha256 spec),
         rp_intent_count = int (length intents), rp_order_count = int (length states),
         rp_fill_count = int (length events), rp_journal_sha256 = Some (canonical_digest journal_payload),
         rp_orders_sha256 = Some (canonical_digest orders_payload),
         rp_portfolio_sha256 = Some (canonical_digest fills_payload) \<rparr>))))"

text \<open>\<open>None\<close> is a path that is no file. \<open>recon_code\<close> finds the code of every \<open>recon_error\<close>.\<close>

definition reconcile_startup :: "ExecutionFile option \<Rightarrow> BacktestSpec \<Rightarrow> StartupReconciliationReport result" where
  "reconcile_startup file_opt spec =
     (case file_opt of
        None \<Rightarrow> recon_failure DATABASE_UNAVAILABLE (Some (spec_sha256 spec))
      | Some f \<Rightarrow>
          (case reconcile_body f spec of
             Inl (StartupReconciliationError m) \<Rightarrow> recon_failure (the (recon_code m)) (Some (spec_sha256 spec))
           | r \<Rightarrow> r))"

section \<open>The queries and the stores\<close>

lemma select_row_distinct:
  "distinct (map key xs) \<Longrightarrow> select_row key k xs = Some r \<longleftrightarrow> r \<in> set xs \<and> key r = k"
  by (induction xs) (auto simp: select_row_def)

lemma select_row_same:
  assumes "distinct (map key xs)" "distinct (map key ys)" "set xs = set ys"
  shows "select_row key k xs = select_row key k ys"
proof (cases "select_row key k xs")
  case None
  then have "select_row key k ys = None" using assms(3) by (simp add: select_row_None)
  then show ?thesis using None by simp
next
  case (Some r)
  then have "select_row key k ys = Some r"
    using select_row_distinct [OF assms(1)] select_row_distinct [OF assms(2)] assms(3) by metis
  then show ?thesis using Some by simp
qed

lemma sort_key_cong_order:
  assumes "\<And>x y. x \<in> set xs \<Longrightarrow> y \<in> set xs \<Longrightarrow> f x \<le> f y \<longleftrightarrow> g x \<le> g y"
  shows "sort_key f xs = sort_key g xs"
  using assms
proof (induction xs)
  case (Cons x xs)
  have "insort_key f x ys = insort_key g x ys" if "set ys \<subseteq> set xs" for ys
    using that Cons.prems by (induction ys) auto
  then show ?case using Cons by simp
qed simp

text \<open>The events of one order, selected from the sorted table or sorted after the selection.\<close>

lemma order_rows:
  "filter (\<lambda>r. ev_authorization_sha256 r = a) (sort_key (\<lambda>r. (ev_authorization_sha256 r, ev_sequence r)) rows)
     = sort_key ev_sequence (filter (\<lambda>r. ev_authorization_sha256 r = a) rows)"
  unfolding filter_sort by (rule sort_key_cong_order) auto

lemma recon_replay_Inr: "recon_replay i p rows = Inr x \<Longrightarrow> order_replay i p rows = Inr x"
proof (induction rows arbitrary: p x)
  case (Cons row rows)
  then obtain e t es s where "recon_order_event row = Inr e" "apply_local_order_event i p e = Inr t"
    "recon_replay i (Some (ot_current t)) rows = Inr (es, s)" "x = (e # es, s)"
    by (auto simp: bind_r_eq_Inr)
  then show ?case using Cons.IH by (simp add: recon_order_event_def)
qed simp

lemma map_r_construct: "map_r (construct P) xs = Inr ys \<longleftrightarrow> ys = xs \<and> list_all (\<lambda>x. P x = Inr ()) xs"
  by (induction xs arbitrary: ys) (auto simp: bind_r_eq_Inr construct_eq_Inr)

lemma load_intents_Inr:
  assumes "load_intents db = Inr (intents, payload)"
  shows "intents = sort_key ir_authorization_sha256 (db_intents db)" "list_all valid_intent (db_intents db)"
    "distinct (map ir_authorization_sha256 (db_intents db))" "distinct (map ir_authorization_sha256 intents)"
    "journal_canonical_json db = Inr (json_dumps payload @ [CHR 0x0A])"
proof -
  let ?s = "sort_key ir_authorization_sha256 (db_intents db)"
  have i: "intents = ?s" and v: "list_all valid_intent ?s" and d: "distinct (map ir_authorization_sha256 ?s)"
    and p: "payload = JObj [(''schema_version'', JInt 1), (''intents'', JList (map intent_as_record ?s))]"
    using assms length_remdups_eq [of "map ir_authorization_sha256 ?s"]
    by (auto simp: load_intents_def bind_r_eq_Inr map_r_construct valid_intent_def list_all_iff split: if_splits)
  show "intents = ?s" by (rule i)
  show "list_all valid_intent (db_intents db)" using v by (simp add: list_all_iff)
  show "distinct (map ir_authorization_sha256 intents)" using d i by simp
  show "distinct (map ir_authorization_sha256 (db_intents db))"
    using d by (simp add: distinct_map)
  have "map_r (\<lambda>r. bind_r (row_to_record (Some r)) (\<lambda>x. Inr (intent_as_record (the x)))) xs
      = Inr (map intent_as_record xs)" if "list_all valid_intent xs" for xs
    using that by (induction xs) simp_all
  from this [OF v] show "journal_canonical_json db = Inr (json_dumps payload @ [CHR 0x0A])"
    by (simp add: journal_canonical_json_def p)
qed

lemma load_orders_Inr:
  assumes "load_orders db intents = Inr (states, payload)"
    and i: "intents = sort_key ir_authorization_sha256 (db_intents db)" "distinct (map ir_authorization_sha256 (db_intents db))"
      "list_all valid_intent (db_intents db)"
    and d: "distinct (map st_authorization_sha256 (db_order_states db))"
  shows "list_all (\<lambda>s. \<exists>events. load_order (os_authorization_sha256 s) db = Inr (events, Some s)) states"
    "map os_authorization_sha256 states = map st_authorization_sha256 (sort_key st_authorization_sha256 (db_order_states db))"
    "orders_canonical_json db = Inr (json_dumps payload @ [CHR 0x0A])"
    "set (map st_authorization_sha256 (db_order_states db)) = set (map ir_authorization_sha256 (db_intents db))"
proof -
  let ?rows = "sort_key st_authorization_sha256 (db_order_states db)"
  let ?evs = "sort_key (\<lambda>r. (ev_authorization_sha256 r, ev_sequence r)) (db_order_events db)"
  let ?json = "\<lambda>row events state. JObj [(''authorization_sha256'', JStr (st_authorization_sha256 row)),
             (''events'', JList (map order_event_as_record events)), (''state'', order_state_as_record state)]"
  let ?good = "\<lambda>row x. os_authorization_sha256 (fst x) = st_authorization_sha256 row
      \<and> (\<exists>events. load_order (st_authorization_sha256 row) db = Inr (events, Some (fst x))
         \<and> snd x = ?json row events (fst x))"
  from assms(1) obtain orders where o: "map_r (recon_order intents ?evs) ?rows = Inr orders"
    and s: "states = map fst orders" and p: "payload = JObj [(''schema_version'', JInt 1), (''orders'', JList (map snd orders))]"
    and c: "set (map st_authorization_sha256 (db_order_states db)) = set (map ir_authorization_sha256 (db_intents db))"
    by (auto simp: load_orders_def Let_def bind_r_eq_Inr i(1) split: if_splits)
  have one: "?good row x" if row: "row \<in> set (db_order_states db)" and x: "recon_order intents ?evs row = Inr x" for row x
  proof -
    let ?a = "st_authorization_sha256 row"
    have sel: "select_row ir_authorization_sha256 k intents = select_row ir_authorization_sha256 k (db_intents db)" for k
      by (rule select_row_same) (use i in \<open>simp_all add: distinct_map\<close>)
    obtain intent events stored where 1: "select_row ir_authorization_sha256 ?a (db_intents db) = Some intent"
      "recon_replay intent None (filter (\<lambda>r. ev_authorization_sha256 r = ?a) ?evs) = Inr (events, Some stored)"
      "recon_order_state row = Inr stored" "x = (stored, ?json row events stored)"
      using x by (auto simp: recon_order_def sel bind_r_eq_Inr split: option.splits if_splits)
    have "valid_intent intent" using select_row_Some [OF 1(1)] i(3) by (auto simp: list_all_iff)
    then have "order_get_intent ?a db = Inr intent" using 1(1) by (simp add: order_get_intent_Inr)
    moreover have "order_replay intent None (sort_key ev_sequence (filter (\<lambda>r. ev_authorization_sha256 r = ?a) (db_order_events db)))
        = Inr (events, Some stored)"
      using recon_replay_Inr [OF 1(2)] by (simp add: order_rows)
    moreover have "select_row st_authorization_sha256 ?a (db_order_states db) = Some row"
      using row select_row_distinct [OF d] by blast
    moreover have st: "state_from_row row = Inr stored" using 1(3) by (simp add: recon_order_state_def)
    moreover have "os_authorization_sha256 stored = ?a"
      using st by (auto simp: state_from_row_def bind_r_eq_Inr construct_eq_Inr split: if_splits option.splits)
    ultimately show ?thesis by (simp add: load_order_def optional_state_def 1(4))
  qed
  have "list_all2 ?good ?rows orders"
    using o unfolding map_r_eq_Inr by (rule list.rel_mono_strong) (use one in simp)
  then have "list_all (\<lambda>x. \<exists>events. load_order (os_authorization_sha256 (fst x)) db = Inr (events, Some (fst x))) orders
    \<and> map (os_authorization_sha256 \<circ> fst) orders = map st_authorization_sha256 ?rows
    \<and> map_r (\<lambda>row. bind_r (load_order (st_authorization_sha256 row) db) (\<lambda>(events, state).
         Inr (?json row events (the state)))) ?rows = Inr (map snd orders)"
    by (induction rule: list_all2_induct) auto
  then show "list_all (\<lambda>s. \<exists>events. load_order (os_authorization_sha256 s) db = Inr (events, Some s)) states"
    "map os_authorization_sha256 states = map st_authorization_sha256 ?rows"
    "orders_canonical_json db = Inr (json_dumps payload @ [CHR 0x0A])"
    by (simp_all add: s p list.pred_map comp_def orders_canonical_json_def)
  show "set (map st_authorization_sha256 (db_order_states db)) = set (map ir_authorization_sha256 (db_intents db))" by (rule c)
qed

lemma sort_key_single: "sort_key f xs = [r] \<Longrightarrow> xs = [r]"
proof -
  assume s: "sort_key f xs = [r]"
  have "length xs = 1" using length_sort [of f xs] s by simp
  then obtain x where "xs = [x]" by (auto simp: length_Suc_conv)
  then show ?thesis using s by simp
qed

lemma sort_key_Nil: "sort_key f xs = [] \<longleftrightarrow> xs = []"
  using length_sort [of f xs] by (cases xs) auto

text \<open>What the check accepts as the projection is what the portfolio store reads.\<close>

lemma recon_projection_Inr:
  assumes "recon_projection spec events ledger (sort_key px_symbol rows) = Inr projection"
  shows "projection_from_row (select_row px_symbol (sp_symbol spec) rows) = Inr projection"
    "events = [] \<longleftrightarrow> projection = None"
    "projection = Some p \<Longrightarrow> pj_spec_sha256 p = spec_sha256 spec \<and> pj_fill_count p = int (length events)
       \<and> pj_last_fill_event_sha256 p = fill_event_sha256 (last events)
       \<and> (\<exists>s. ledger_snapshot ledger (pj_mark_price p) = Inr s \<and> snapshot_eq (pj_snapshot p) s)"
proof -
  have "projection_from_row (select_row px_symbol (sp_symbol spec) rows) = Inr projection
    \<and> (events = [] \<longleftrightarrow> projection = None)
    \<and> (projection = Some p \<longrightarrow> pj_spec_sha256 p = spec_sha256 spec \<and> pj_fill_count p = int (length events)
       \<and> pj_last_fill_event_sha256 p = fill_event_sha256 (last events)
       \<and> (\<exists>s. ledger_snapshot ledger (pj_mark_price p) = Inr s \<and> snapshot_eq (pj_snapshot p) s))"
  proof (cases "events = []")
    case True
    then show ?thesis
      using assms by (auto simp: recon_projection_def sort_key_Nil select_row_def projection_from_row_def split: if_splits)
  next
    case False
    then obtain row where row: "sort_key px_symbol rows = [row]"
      using assms by (auto simp: recon_projection_def split: list.splits)
    then have "rows = [row]" by (rule sort_key_single)
    then show ?thesis
      using assms False row
      by (auto simp: recon_projection_def select_row_def projection_from_row_def bind_r_eq_Inr split: if_splits option.splits)
  qed
  then show "projection_from_row (select_row px_symbol (sp_symbol spec) rows) = Inr projection"
    "events = [] \<longleftrightarrow> projection = None"
    "projection = Some p \<Longrightarrow> pj_spec_sha256 p = spec_sha256 spec \<and> pj_fill_count p = int (length events)
       \<and> pj_last_fill_event_sha256 p = fill_event_sha256 (last events)
       \<and> (\<exists>s. ledger_snapshot ledger (pj_mark_price p) = Inr s \<and> snapshot_eq (pj_snapshot p) s)"
    by blast+
qed

lemma recon_portfolio_Inr:
  assumes "recon_portfolio db spec intents states = Inr (events, payload)"
  shows "\<exists>ledger projection. portfolio_load spec db = Inr (events, ledger, projection)"
    "portfolio_canonical_json spec db = Inr (json_dumps payload @ [CHR 0x0A])"
    "list_all (fill_matches_order intents states) events" "length events = length (db_fill_events db)"
proof -
  let ?rows = "sort_key fx_sequence (db_fill_events db)"
  from assms obtain ledger projection where
    sy: "\<not> list_ex (\<lambda>r. fx_symbol r \<noteq> sp_symbol spec) ?rows"
    and ev: "map_r (recon_fill_event spec) ?rows = Inr events"
    and sq: "map fv_sequence events = map int [0..<length events]"
    and om: "list_all (fill_matches_order intents states) events"
    and le: "replay_ledger spec (map fv_fill events) = Inr ledger"
    and pr: "recon_projection spec events ledger (sort_key px_symbol (db_portfolios db)) = Inr projection"
    and pl: "payload = portfolio_payload spec events projection"
    by (auto simp: recon_portfolio_def Let_def bind_r_eq_Inr split: if_splits)
  note P = recon_projection_Inr [OF pr]
  have "list_all2 (\<lambda>r e. fill_event_from_row spec r = Inr e) ?rows events"
    using ev unfolding map_r_eq_Inr by (rule list.rel_mono_strong) (simp add: recon_fill_event_def)
  then have ev': "map_r (fill_event_from_row spec) ?rows = Inr events" and len: "length ?rows = length events"
    by (auto simp: map_r_eq_Inr dest: list_all2_lengthD)
  have f: "filter (\<lambda>r. fx_symbol r = sp_symbol spec) (db_fill_events db) = db_fill_events db"
    using sy by (intro filter_True) (auto simp: list_ex_iff)
  have ld: "portfolio_load spec db = Inr (events, ledger, projection)"
  proof (cases projection)
    case None
    then show ?thesis using P ev' sq le by (simp add: portfolio_load_def f)
  next
    case (Some p)
    have "events \<noteq> []" using P(2) Some by simp
    then show ?thesis using P(1) P(3) [OF Some] ev' sq le Some by (auto simp: portfolio_load_def f Let_def)
  qed
  then show "\<exists>ledger projection. portfolio_load spec db = Inr (events, ledger, projection)" by blast
  show "portfolio_canonical_json spec db = Inr (json_dumps payload @ [CHR 0x0A])"
    by (simp add: portfolio_canonical_json_def ld pl)
  show "list_all (fill_matches_order intents states) events" by (rule om)
  show "length events = length (db_fill_events db)" using len by simp
qed

text \<open>A report that says READY comes out of the last step of the check.\<close>

lemma recon_failure_Inr: "recon_failure c d = Inr r \<Longrightarrow> \<not> rp_ready r \<and> rp_code r = c"
  by (auto simp: recon_failure_def construct_eq_Inr)

lemma reconcile_ready:
  assumes "reconcile_startup (Some f) spec = Inr r" "rp_ready r"
  obtains intents jp states op events pp where "require_schema f = Inr ()"
    "load_intents (ef_database f) = Inr (intents, jp)" "load_orders (ef_database f) intents = Inr (states, op)"
    "recon_portfolio (ef_database f) spec intents states = Inr (events, pp)"
    "r = \<lparr> rp_ready = True, rp_code = MATCH, rp_spec_sha256 = Some (spec_sha256 spec),
         rp_intent_count = int (length intents), rp_order_count = int (length states),
         rp_fill_count = int (length events), rp_journal_sha256 = Some (canonical_digest jp),
         rp_orders_sha256 = Some (canonical_digest op), rp_portfolio_sha256 = Some (canonical_digest pp) \<rparr>"
proof -
  have "reconcile_body f spec = Inr r"
    using assms by (auto simp: reconcile_startup_def dest: recon_failure_Inr split: sum.splits py_error.splits)
  then show thesis using that by (auto simp: reconcile_body_def bind_r_eq_Inr construct_eq_Inr)
qed

section \<open>A database written by the stores\<close>

lemma recon_replay_ok: "order_replay i p rows = Inr x \<Longrightarrow> recon_replay i p rows = Inr x"
proof (induction rows arbitrary: p x)
  case (Cons row rows)
  then obtain e t es s where "event_from_row row = Inr e" "apply_local_order_event i p e = Inr t"
    "order_replay i (Some (ot_current t)) rows = Inr (es, s)" "x = (e # es, s)"
    by (auto simp: bind_r_eq_Inr)
  then show ?case using Cons.IH by (simp add: recon_order_event_def)
qed simp

lemma load_intents_ok:
  assumes "store_inv db"
  shows "\<exists>payload. load_intents db = Inr (sort_key ir_authorization_sha256 (db_intents db), payload)"
proof -
  have "distinct (map ir_authorization_sha256 (sort_key ir_authorization_sha256 (db_intents db)))"
    using assms intents.consistent_keys [of "db_intents db"] by (simp add: store_inv_def distinct_map)
  moreover have "map_r (construct LocalPaperIntentRecord_post_init) (sort_key ir_authorization_sha256 (db_intents db))
      = Inr (sort_key ir_authorization_sha256 (db_intents db))"
    using assms by (simp add: map_r_construct store_inv_def list_all_iff valid_intent_def)
  ultimately show ?thesis by (simp add: load_intents_def distinct_remdups_id)
qed

text \<open>The order behind a state row.\<close>

lemma order_row:
  assumes inv: "store_inv db" and row: "row \<in> set (db_order_states db)"
  obtains r es ss where "r \<in> set (db_intents db)" "ir_authorization_sha256 r = st_authorization_sha256 row"
    "rows_of (st_authorization_sha256 row) db = map event_row es" "list_all valid_order_event es"
    "chain_run (order_next r) None es = Inr ss" "ss \<noteq> []" "row = state_row (last ss)"
    "select_row st_authorization_sha256 (st_authorization_sha256 row) (db_order_states db) = Some row"
proof -
  obtain r where r: "r \<in> set (db_intents db)" "ir_authorization_sha256 r = st_authorization_sha256 row"
    using inv row by (auto simp: store_inv_def list_all_iff has_intent_def list_ex_iff)
  have "order_states.consistent (db_order_states db)" using inv by (simp add: store_inv_def)
  then have sel: "select_row st_authorization_sha256 (st_authorization_sha256 row) (db_order_states db) = Some row"
    using order_states.select_iff row by blast
  have "order_ok db r" using inv r(1) by (simp add: store_inv_def list_all_iff)
  then show thesis using that r sel by (auto simp: order_ok_def split: if_splits)
qed

lemma recon_order_ok:
  assumes inv: "store_inv db" and row: "row \<in> set (db_order_states db)"
  defines "intents \<equiv> sort_key ir_authorization_sha256 (db_intents db)"
    and "events \<equiv> sort_key (\<lambda>r. (ev_authorization_sha256 r, ev_sequence r)) (db_order_events db)"
  shows "\<exists>s payload. recon_order intents events row = Inr (s, payload) \<and> state_row s = row"
proof -
  let ?a = "st_authorization_sha256 row"
  obtain r es ss where r: "r \<in> set (db_intents db)" "ir_authorization_sha256 r = ?a"
    and o: "rows_of ?a db = map event_row es" "list_all valid_order_event es"
      "chain_run (order_next r) None es = Inr ss" "ss \<noteq> []" "row = state_row (last ss)"
    and sel: "select_row st_authorization_sha256 ?a (db_order_states db) = Some row"
    using order_row [OF inv row] by blast
  have con: "intents.consistent (db_intents db)" using inv by (simp add: store_inv_def)
  have "load_order ?a db = Inr (es, Some (last ss))"
    using load_order_ok [OF inv r(1), of es ss] o r(2) sel by simp
  moreover have i: "select_row ir_authorization_sha256 ?a (db_intents db) = Some r"
    using intents.select_iff [OF con] r by blast
  ultimately have "order_replay r None (sort_key ev_sequence (filter (\<lambda>r. ev_authorization_sha256 r = ?a) (db_order_events db)))
      = Inr (es, Some (last ss))"
    using order_get_intent_Inr [of ?a db r] inv r(1)
    by (auto simp: load_order_def bind_r_eq_Inr store_inv_def list_all_iff split: if_splits)
  then have replay: "recon_replay r None (filter (\<lambda>r. ev_authorization_sha256 r = ?a) events) = Inr (es, Some (last ss))"
    unfolding events_def order_rows by (rule recon_replay_ok)
  have "valid_order_state (last ss)"
    using order_chain_pointwise [OF o(3)] o(4) by (simp add: list_all_iff)
  then have "recon_order_state row = Inr (last ss)" by (simp add: recon_order_state_def o(5))
  moreover have "select_row ir_authorization_sha256 ?a intents = Some r"
    using i select_row_same [of ir_authorization_sha256 intents "db_intents db"] intents.consistent_keys [OF con]
    by (simp add: intents_def distinct_map)
  ultimately show ?thesis using replay o(5) by (simp add: recon_order_def)
qed

text \<open>Orders are covered exactly when every intent has a state row.\<close>

definition all_ordered :: "ExecutionDatabase \<Rightarrow> bool" where
  "all_ordered db \<longleftrightarrow> list_all (\<lambda>r. list_ex (\<lambda>s. st_authorization_sha256 s = ir_authorization_sha256 r) (db_order_states db))
     (db_intents db)"

lemma load_orders_cases:
  assumes inv: "store_inv db"
  defines "intents \<equiv> sort_key ir_authorization_sha256 (db_intents db)"
  shows "\<not> all_ordered db \<Longrightarrow> load_orders db intents = Inl (recon_error ORDER_COVERAGE_MISMATCH)"
    "all_ordered db \<Longrightarrow> \<exists>states payload. load_orders db intents = Inr (states, payload)
       \<and> map state_row states = sort_key st_authorization_sha256 (db_order_states db)"
proof -
  let ?rows = "sort_key st_authorization_sha256 (db_order_states db)"
  let ?evs = "sort_key (\<lambda>r. (ev_authorization_sha256 r, ev_sequence r)) (db_order_events db)"
  have sub: "st_authorization_sha256 ` set (db_order_states db) \<subseteq> ir_authorization_sha256 ` set (db_intents db)"
    "ev_authorization_sha256 ` set (db_order_events db) \<subseteq> ir_authorization_sha256 ` set (db_intents db)"
    using inv unfolding store_inv_def list_all_iff has_intent_def list_ex_iff by (metis image_subsetI image_eqI)+
  show "load_orders db intents = Inl (recon_error ORDER_COVERAGE_MISMATCH)" if "\<not> all_ordered db"
  proof -
    have "st_authorization_sha256 ` set (db_order_states db) \<noteq> ir_authorization_sha256 ` set (db_intents db)"
      using that unfolding all_ordered_def list_all_iff list_ex_iff by (metis image_iff)
    then show ?thesis by (simp add: load_orders_def intents_def)
  qed
  assume al: "all_ordered db"
  then have st: "st_authorization_sha256 ` set (db_order_states db) = ir_authorization_sha256 ` set (db_intents db)"
    using sub(1) unfolding all_ordered_def list_all_iff list_ex_iff by (metis image_subsetI image_eqI subset_antisym)
  have "ir_authorization_sha256 r \<in> ev_authorization_sha256 ` set (db_order_events db)" if r: "r \<in> set (db_intents db)" for r
  proof -
    have "order_ok db r" using inv r by (simp add: store_inv_def list_all_iff)
    then obtain es ss where o: "rows_of (ir_authorization_sha256 r) db = map event_row es"
      "chain_run (order_next r) None es = Inr ss" "select_row st_authorization_sha256 (ir_authorization_sha256 r) (db_order_states db)
         = (if ss = [] then None else Some (state_row (last ss)))"
      by (auto simp: order_ok_def)
    have "ss \<noteq> []" using al r o(3) by (auto simp: all_ordered_def list_all_iff list_ex_iff select_row_None)
    then have "es \<noteq> []" using o(2) by auto
    then obtain x where "x \<in> set (rows_of (ir_authorization_sha256 r) db)" using o(1) by (cases es) auto
    then show ?thesis by (force simp: rows_of_def)
  qed
  then have ev: "ev_authorization_sha256 ` set (db_order_events db) = ir_authorization_sha256 ` set (db_intents db)"
    using sub(2) by blast
  have "\<exists>orders. map_r (recon_order intents ?evs) ?rows = Inr orders \<and> list_all2 (\<lambda>row x. state_row (fst x) = row) ?rows orders"
    using recon_order_ok [OF inv] unfolding intents_def by (intro map_r_exists) fastforce
  then obtain orders where o: "map_r (recon_order intents ?evs) ?rows = Inr orders"
    "list_all2 (\<lambda>row x. state_row (fst x) = row) ?rows orders" by blast
  from o(2) have "map state_row (map fst orders) = ?rows" by (induction rule: list_all2_induct) auto
  then show "\<exists>states payload. load_orders db intents = Inr (states, payload) \<and> map state_row states = ?rows"
    using o(1) st ev by (simp add: load_orders_def intents_def)
qed

lemma recon_projection_ok:
  assumes spec: "valid_BacktestSpec spec" and b: "booked spec es l p db" and n: "length es \<le> MAX_LEDGER_BATCH"
  shows "recon_projection spec es l (sort_key px_symbol (db_portfolios db)) = Inr (map_option reread_projection p)"
proof (cases p)
  case None
  then show ?thesis using b by (simp add: booked_def recon_projection_def)
next
  case (Some x)
  have x: "es \<noteq> []" "LocalPaperPortfolioProjection_post_init x = Inr ()" "pj_spec_sha256 x = spec_sha256 spec"
    "pj_fill_count x = int (length es)" "pj_last_fill_event_sha256 x = fill_event_sha256 (last es)"
    "ledger_snapshot l (pj_mark_price x) = Inr (pj_snapshot x)" "db_portfolios db = [portfolio_row spec x]"
    using b by (simp_all add: booked_def Some)
  have r: "fills_run spec (map fv_fill es) l" and c: "list_all (canonical_fill spec) (map fv_fill es)"
    using b by (auto simp: booked_def list_all_iff)
  have "PortfolioSnapshot_post_init (reread_snapshot (pj_snapshot x)) = Inr ()"
    using snapshot_reread_valid [OF fills_run_ok(1,2) [OF spec r c] x(6)] n by simp
  from projection_roundtrip [OF x(2) this, of spec] obtain payload where
    "json_loads (px_payload_json (portfolio_row spec x)) = Some payload"
    "projection_from_payload payload = Inr (reread_projection x)"
    "projection_matches_row (reread_projection x) payload (portfolio_row spec x)"
    by (auto simp: projection_from_row_def bind_r_eq_Inr split: option.splits if_splits)
  moreover have "px_symbol (portfolio_row spec x) = sp_symbol spec" by (simp add: portfolio_row_def)
  ultimately show ?thesis using x by (simp add: recon_projection_def Some)
qed

lemma recon_portfolio_booked:
  assumes spec: "valid_BacktestSpec spec" and b: "booked spec es l p db"
  shows "recon_portfolio db spec intents states =
    (if \<not> list_all (fill_matches_order intents states) es then Inl (recon_error FILL_ORDER_MISMATCH)
     else if length es \<le> MAX_LEDGER_BATCH then Inr (es, portfolio_payload spec es (map_option reread_projection p))
     else Inl (recon_error FILL_INVALID))"
proof -
  let ?rows = "sort_key fx_sequence (db_fill_events db)"
  have sy: "\<not> list_ex (\<lambda>r. fx_symbol r \<noteq> sp_symbol spec) ?rows"
    using b by (auto simp: booked_def list_ex_iff fill_row_def)
  then have f: "filter (\<lambda>r. fx_symbol r = sp_symbol spec) (db_fill_events db) = db_fill_events db"
    by (intro filter_True) (auto simp: list_ex_iff)
  have "map_r (fill_event_from_row spec) ?rows = Inr es" using booked_rows(1) [OF b] by (simp add: f)
  then have "list_all2 (\<lambda>r e. recon_fill_event spec r = Inr e) ?rows es"
    unfolding map_r_eq_Inr by (rule list.rel_mono_strong) (simp add: recon_fill_event_def)
  then have ev: "map_r (recon_fill_event spec) ?rows = Inr es" by (simp add: map_r_eq_Inr)
  have sq: "map fv_sequence es = map int [0..<length es]" and r: "fills_run spec (map fv_fill es) l"
    using b by (auto simp: booked_def)
  show ?thesis
    using sy ev sq replay_fills_run [OF r] recon_projection_ok [OF spec b]
    by (simp add: recon_portfolio_def Let_def)
qed

text \<open>The order of a fill, on its row.\<close>

definition fill_order_active :: "ExecutionDatabase \<Rightarrow> LocalPaperFillEvent \<Rightarrow> bool" where
  "fill_order_active db e =
     (case select_row st_authorization_sha256 (fv_authorization_sha256 e) (db_order_states db) of
        None \<Rightarrow> False
      | Some row \<Rightarrow> st_status row = LocalOrderStatus_value ACTIVE_LOCAL
          \<and> st_updated_time_ms row < fr_fill_time_ms (cf_reference (fv_fill e)))"

lemma LocalOrderStatus_active: "LocalOrderStatus_value s = ''ACTIVE_LOCAL'' \<longleftrightarrow> s = ACTIVE_LOCAL"
  by (cases s) simp_all

lemma fill_matches_order_row:
  assumes inv: "store_inv db" and m: "map state_row states = sort_key st_authorization_sha256 (db_order_states db)"
    and e: "bound e db"
  shows "fill_matches_order (sort_key ir_authorization_sha256 (db_intents db)) states e \<longleftrightarrow> fill_order_active db e"
proof -
  have con: "order_states.consistent (db_order_states db)" "intents.consistent (db_intents db)"
    using inv by (simp_all add: store_inv_def)
  have di: "distinct (map ir_authorization_sha256 (db_intents db))" "distinct (map st_authorization_sha256 (db_order_states db))"
    using order_states.consistent_keys [OF con(1)] intents.consistent_keys [OF con(2)] by simp_all
  have "select_row ir_authorization_sha256 k (sort_key ir_authorization_sha256 (db_intents db))
      = select_row ir_authorization_sha256 k (db_intents db)" for k
    by (rule select_row_same) (use di in \<open>simp_all add: distinct_map\<close>)
  moreover have "map_option state_row (select_row os_authorization_sha256 k states)
      = select_row st_authorization_sha256 k (db_order_states db)" for k
  proof -
    have "map_option state_row (select_row os_authorization_sha256 k states) = select_row st_authorization_sha256 k (map state_row states)"
      by (induction states) (simp_all add: select_row_def)
    also have "\<dots> = select_row st_authorization_sha256 k (db_order_states db)"
      unfolding m by (rule select_row_same) (use di in \<open>simp_all add: distinct_map\<close>)
    finally show ?thesis .
  qed
  from this [of "fv_authorization_sha256 e"] e calculation show ?thesis
    by (auto simp: fill_matches_order_def fill_order_active_def bound_def state_row_def LocalOrderStatus_active
        split: option.splits)
qed

lemma recon_code_value [simp]: "recon_code (ReconciliationCode_value c) = Some c"
  by (cases c) (simp_all add: recon_code_def)

lemma spec_sha256_valid [simp]: "valid_digest (spec_sha256 spec)"
  by (simp add: spec_sha256_def)

lemma reconcile_failed:
  assumes "reconcile_body f spec = Inl (recon_error c)" "c \<noteq> MATCH"
  shows "\<exists>r. reconcile_startup (Some f) spec = Inr r \<and> rp_code r = c \<and> \<not> rp_ready r"
  using assms
  by (simp add: reconcile_startup_def recon_error_def recon_failure_def construct_def
      StartupReconciliationReport_post_init_def)

text \<open>What the check says of a database that only the stores have written.\<close>

lemma reconcile_durable:
  assumes inv: "durable_inv spec (ef_database f)" and sch: "require_schema f = Inr ()"
  shows "\<exists>events r. db_fill_events (ef_database f) = map (fill_row spec) events
    \<and> reconcile_startup (Some f) spec = Inr r
    \<and> rp_code r = (if \<not> all_ordered (ef_database f) then ORDER_COVERAGE_MISMATCH
        else if \<not> list_all (fill_order_active (ef_database f)) events then FILL_ORDER_MISMATCH
        else if MAX_LEDGER_BATCH < length events then FILL_INVALID else MATCH)
    \<and> (rp_ready r \<longleftrightarrow> rp_code r = MATCH)"
proof -
  let ?db = "ef_database f"
  let ?is = "sort_key ir_authorization_sha256 (db_intents ?db)"
  from inv obtain es l p where spec: "valid_BacktestSpec spec" and si: "store_inv ?db"
    and b: "booked spec es l p ?db" and bd: "list_all (\<lambda>e. bound e ?db) es"
    by (auto simp: durable_inv_def)
  have rows: "db_fill_events ?db = map (fill_row spec) es" using b by (simp add: booked_def)
  obtain jp where li: "load_intents ?db = Inr (?is, jp)" using load_intents_ok [OF si] by blast
  let ?code = "if \<not> all_ordered ?db then ORDER_COVERAGE_MISMATCH
        else if \<not> list_all (fill_order_active ?db) es then FILL_ORDER_MISMATCH
        else if MAX_LEDGER_BATCH < length es then FILL_INVALID else MATCH"
  have "\<exists>r. reconcile_startup (Some f) spec = Inr r \<and> rp_code r = ?code \<and> (rp_ready r \<longleftrightarrow> rp_code r = MATCH)"
  proof (cases "all_ordered ?db")
    case False
    have "reconcile_body f spec = Inl (recon_error ORDER_COVERAGE_MISMATCH)"
      using load_orders_cases(1) [OF si False] by (simp add: reconcile_body_def sch li)
    from reconcile_failed [OF this] False show ?thesis by auto
  next
    case True
    obtain states op where lo: "load_orders ?db ?is = Inr (states, op)"
      and m: "map state_row states = sort_key st_authorization_sha256 (db_order_states ?db)"
      using load_orders_cases(2) [OF si True] by blast
    have fm: "list_all (fill_matches_order ?is states) es = list_all (fill_order_active ?db) es"
      using fill_matches_order_row [OF si m] bd by (auto simp: list_all_iff)
    note P = recon_portfolio_booked [OF spec b, of ?is states, unfolded fm]
    show ?thesis
    proof (cases "?code = MATCH")
      case False
      then have "reconcile_body f spec = Inl (recon_error ?code)"
        using True P by (auto simp: reconcile_body_def sch li lo split: if_splits)
      from reconcile_failed [OF this False] False show ?thesis by auto
    next
      case ok: True
      then have "recon_portfolio ?db spec ?is states = Inr (es, portfolio_payload spec es (map_option reread_projection p))"
        using True P by (auto split: if_splits)
      then show ?thesis
        by (subst ok) (simp add: reconcile_startup_def reconcile_body_def sch li lo construct_def
            StartupReconciliationReport_post_init_def canonical_digest_def)
    qed
  qed
  then show ?thesis using rows by blast
qed

definition example_file :: "ExecutionDatabase \<Rightarrow> ExecutionFile" where
  "example_file db = \<lparr> ef_tables = required_tables, ef_versions = (\<lambda>_. [1]), ef_database = db \<rparr>"

lemma example_schema: "require_schema (example_file db) = Inr ()"
  by (simp add: require_schema_def example_file_def required_tables_def max_version_def)

section \<open>Properties\<close>

text \<open>C8. READY is never reported wrongly: for every database file, also a damaged one, in which
an authorization has at most one order state, a READY report means that the schema is complete, that the
exports of the journal, the order store and the portfolio store all succeed and have exactly the reported
digests, that every intent has an order which replays to its stored state, and that every fill belongs to
an order that is still active and was activated before the fill.\<close>

theorem reconcile_ready_sound:
  assumes "reconcile_startup (Some f) spec = Inr r" and "rp_ready r"
    and "distinct (map st_authorization_sha256 (db_order_states (ef_database f)))"
  shows "let db = ef_database f in require_schema f = Inr ()
    \<and> (\<exists>journal orders portfolio events.
        journal_canonical_json db = Inr journal \<and> rp_journal_sha256 r = Some (sha256_hexdigest journal)
      \<and> orders_canonical_json db = Inr orders \<and> rp_orders_sha256 r = Some (sha256_hexdigest orders)
      \<and> portfolio_canonical_json spec db = Inr portfolio \<and> rp_portfolio_sha256 r = Some (sha256_hexdigest portfolio)
      \<and> rp_intent_count r = int (length (db_intents db)) \<and> rp_order_count r = int (length (db_order_states db))
      \<and> rp_fill_count r = int (length (db_fill_events db))
      \<and> (\<forall>i\<in>set (db_intents db). \<exists>es s. load_order (ir_authorization_sha256 i) db = Inr (es, Some s))
      \<and> portfolio_events spec db = Inr events
      \<and> (\<forall>e\<in>set events. \<exists>es s. load_order (fv_authorization_sha256 e) db = Inr (es, Some s)
           \<and> os_state_sha256 s = fv_order_state_sha256 e \<and> os_status s = ACTIVE_LOCAL
           \<and> os_updated_time_ms s < fr_fill_time_ms (cf_reference (fv_fill e))))"
proof -
  let ?db = "ef_database f"
  from assms(1,2) obtain intents jp states op events pp where sch: "require_schema f = Inr ()"
    and li: "load_intents ?db = Inr (intents, jp)" and lo: "load_orders ?db intents = Inr (states, op)"
    and rp: "recon_portfolio ?db spec intents states = Inr (events, pp)"
    and r: "r = \<lparr> rp_ready = True, rp_code = MATCH, rp_spec_sha256 = Some (spec_sha256 spec),
         rp_intent_count = int (length intents), rp_order_count = int (length states),
         rp_fill_count = int (length events), rp_journal_sha256 = Some (canonical_digest jp),
         rp_orders_sha256 = Some (canonical_digest op), rp_portfolio_sha256 = Some (canonical_digest pp) \<rparr>"
    by (rule reconcile_ready)
  note I = load_intents_Inr [OF li] and P = recon_portfolio_Inr [OF rp]
  note O = load_orders_Inr [OF lo I(1,3,2) assms(3)]
  have state: "\<exists>es. load_order a ?db = Inr (es, Some s)" if "select_row os_authorization_sha256 a states = Some s" for a s
    using select_row_Some [OF that] O(1) by (auto simp: list_all_iff)
  have orders: "\<exists>es s. load_order (ir_authorization_sha256 i) ?db = Inr (es, Some s)" if i: "i \<in> set (db_intents ?db)" for i
  proof -
    have "ir_authorization_sha256 i \<in> set (map st_authorization_sha256 (db_order_states ?db))" using O(4) i by simp
    then have "ir_authorization_sha256 i \<in> set (map os_authorization_sha256 states)" by (simp add: O(2))
    then have "select_row os_authorization_sha256 (ir_authorization_sha256 i) states \<noteq> None" by (auto simp: select_row_None)
    then show ?thesis using state by blast
  qed
  have fills: "\<exists>es s. load_order (fv_authorization_sha256 e) ?db = Inr (es, Some s)
      \<and> os_state_sha256 s = fv_order_state_sha256 e \<and> os_status s = ACTIVE_LOCAL
      \<and> os_updated_time_ms s < fr_fill_time_ms (cf_reference (fv_fill e))" if "e \<in> set events" for e
    using that P(3) state unfolding list_all_iff fill_matches_order_def
    by (fastforce split: option.splits)
  have len: "length intents = length (db_intents ?db)" "length states = length (db_order_states ?db)"
    using I(1) arg_cong [OF O(2), of length] by simp_all
  have "portfolio_events spec ?db = Inr events" using P(1) by (auto simp: portfolio_events_def)
  then show ?thesis
    using sch I(5) O(3) P(2,4) len orders fills
    by (simp add: r canonical_digest_def Let_def)
qed

theorem reconcile_ready_sound_witness:
  "\<exists>r journal. reconcile_startup (Some (example_file example_orders)) example_spec = Inr r \<and> rp_ready r
     \<and> journal_canonical_json example_orders = Inr journal \<and> rp_journal_sha256 r = Some (sha256_hexdigest journal)"
proof -
  have d: "ef_database (example_file example_orders) = example_orders" by (simp add: example_file_def)
  have a: "all_ordered example_orders"
    by (simp add: all_ordered_def example_orders_def example_working_def)
  have fx: "db_fill_events example_orders = []" by (simp add: example_orders_def)
  obtain r where r: "reconcile_startup (Some (example_file example_orders)) example_spec = Inr r" "rp_ready r"
    using reconcile_durable [of example_spec "example_file example_orders"] example_orders_inv example_schema a fx
    by (auto simp: d)
  have "distinct (map st_authorization_sha256 (db_order_states example_orders))" by (simp add: example_orders_def)
  then show ?thesis using reconcile_ready_sound [OF r] r by (auto simp: d Let_def)
qed

text \<open>C33. The check accepts what the stores have written: after any history of submissions, order events
and bookings on an empty database, the check returns a report, and it is READY exactly when every intent
has an order, every filled order is still active, and there are at most 100000 fills; otherwise the code
names the first of these that fails.\<close>

theorem reconcile_after_history:
  assumes "valid_BacktestSpec spec" and "list_all (durable_admissible spec) ops" and "require_schema f = Inr ()"
    and "ef_database f = foldl (\<lambda>db i. fst (durable_step spec i db)) empty_database ops"
  shows "\<exists>events r. db_fill_events (ef_database f) = map (fill_row spec) events
    \<and> reconcile_startup (Some f) spec = Inr r
    \<and> rp_code r = (if \<not> all_ordered (ef_database f) then ORDER_COVERAGE_MISMATCH
        else if \<not> list_all (fill_order_active (ef_database f)) events then FILL_ORDER_MISMATCH
        else if MAX_LEDGER_BATCH < length events then FILL_INVALID else MATCH)
    \<and> (rp_ready r \<longleftrightarrow> rp_code r = MATCH)"
proof (rule reconcile_durable)
  show "durable_inv spec (ef_database f)"
    using durable.drive_inv [OF durable_empty [OF assms(1)] assms(2)] by (simp add: durable.drive_def assms(4))
qed (rule assms(3))

theorem reconcile_after_history_witness:
  "\<exists>r. reconcile_startup (Some (example_file (empty_database\<lparr> db_intents := [example_intent] \<rparr>))) example_spec = Inr r
     \<and> rp_code r = ORDER_COVERAGE_MISMATCH"
proof -
  let ?f = "example_file (empty_database\<lparr> db_intents := [example_intent] \<rparr>)"
  have "ef_database ?f = foldl (\<lambda>db i. fst (durable_step example_spec i db)) empty_database [Store (Submit example_execution)]"
    using example_submitted by (simp add: example_file_def del: store_step.simps)
  moreover have "\<not> all_ordered (ef_database ?f)" by (simp add: all_ordered_def example_file_def empty_database_def)
  ultimately show ?thesis
    using reconcile_after_history [OF example_spec_valid _ example_schema, of "[Store (Submit example_execution)]"
        "empty_database\<lparr> db_intents := [example_intent] \<rparr>"] by auto
qed

end
