(* ===== verification/Execution_Recovery.thy ===== *)
theory Execution_Recovery
  imports Execution_Reconcile
begin

text \<open>
  \<^verbatim>\<open>yatl/execution/recovery.py\<close>: the snapshot of a reconciled database with its file format, the
  two-step commit of that file, the recovery at startup and the manual confirmation that
  discards an interrupted commit. The snapshot accelerates nothing that is trusted: the
  database is always reconciled again.
\<close>

section \<open>Codes and digests\<close>

definition RECOVERY_SNAPSHOT_SCHEMA_VERSION :: int where "RECOVERY_SNAPSHOT_SCHEMA_VERSION = 1"
definition MAX_SNAPSHOT_BYTES :: nat where "MAX_SNAPSHOT_BYTES = 8 * 1024 * 1024"

definition INTENT_RECORD_KEYS :: "string list" where
  "INTENT_RECORD_KEYS =
     [''authorization_sha256'', ''effect_sha256'', ''decision_sha256'', ''readiness_sha256'', ''action'',
      ''approved_quantity'', ''policy_id'', ''intent_sha256'', ''schema_version'']"

datatype RecoveryCode =
    RC_MATCH | TAIL_REPLAYED | JOURNAL_REBUILD_READY | SNAPSHOT_CORRUPT | POLICY_DRIFT | SPEC_DRIFT
  | SNAPSHOT_PREFIX_MISMATCH | JOURNAL_RECONCILIATION_FAILED | AMBIGUOUS_COMMIT | RC_STORAGE_ERROR

fun RecoveryCode_value :: "RecoveryCode \<Rightarrow> string" where
  "RecoveryCode_value RC_MATCH = ''MATCH''"
| "RecoveryCode_value TAIL_REPLAYED = ''TAIL_REPLAYED''"
| "RecoveryCode_value JOURNAL_REBUILD_READY = ''JOURNAL_REBUILD_READY''"
| "RecoveryCode_value SNAPSHOT_CORRUPT = ''SNAPSHOT_CORRUPT''"
| "RecoveryCode_value POLICY_DRIFT = ''POLICY_DRIFT''"
| "RecoveryCode_value SPEC_DRIFT = ''SPEC_DRIFT''"
| "RecoveryCode_value SNAPSHOT_PREFIX_MISMATCH = ''SNAPSHOT_PREFIX_MISMATCH''"
| "RecoveryCode_value JOURNAL_RECONCILIATION_FAILED = ''JOURNAL_RECONCILIATION_FAILED''"
| "RecoveryCode_value AMBIGUOUS_COMMIT = ''AMBIGUOUS_COMMIT''"
| "RecoveryCode_value RC_STORAGE_ERROR = ''STORAGE_ERROR''"

definition policy_record :: "LocalPaperExecutionPolicy \<Rightarrow> json" where
  "policy_record p = JObj
     [(''policy_id'', JStr (ep_policy_id p)), (''execution_mode'', JStr (ep_execution_mode p)),
      (''paper_only'', JBool (ep_paper_only p)), (''live_master_lock'', JStr (ep_live_master_lock p)),
      (''spot_only'', JBool (ep_spot_only p)), (''long_only'', JBool (ep_long_only p)),
      (''allow_external_transport'', JBool (ep_allow_external_transport p)),
      (''allow_credentials'', JBool (ep_allow_credentials p)),
      (''allow_order_endpoint'', JBool (ep_allow_order_endpoint p)),
      (''allow_leverage'', JBool (ep_allow_leverage p)), (''allow_withdrawal'', JBool (ep_allow_withdrawal p)),
      (''allow_ai_direct_execution'', JBool (ep_allow_ai_direct_execution p))]"

definition policy_sha256 :: "LocalPaperExecutionPolicy \<Rightarrow> string" where
  "policy_sha256 p = py_digest (JObj [(''schema_version'', JInt 1), (''policy'', policy_record p)])"

section \<open>The snapshot\<close>

text \<open>The anchors are Python dictionaries, so they stay JSON values.\<close>

record RecoverySnapshot =
  rs_policy_sha256 :: string
  rs_spec_sha256 :: string
  rs_reconciliation_sha256 :: string
  rs_journal_sha256 :: string
  rs_orders_sha256 :: string
  rs_portfolio_sha256 :: string
  rs_intent_records :: "json list"
  rs_order_anchors :: "json list"
  rs_fill_anchors :: "json list"
  rs_order_event_count :: int

definition has_keys :: "string list \<Rightarrow> json \<Rightarrow> bool" where
  "has_keys ks j = (case j of JObj kvs \<Rightarrow> set (map fst kvs) = set ks | _ \<Rightarrow> False)"

text \<open>
  The fields of a record, when they have the types that the constructor of the class accepts;
  with any other value it raises.
\<close>

definition intent_fields :: "json \<Rightarrow> LocalPaperIntentRecord option" where
  "intent_fields j =
     (case map (\<lambda>k. json_get_str k j) [''authorization_sha256'', ''effect_sha256'', ''decision_sha256'',
         ''readiness_sha256'', ''action'', ''approved_quantity'', ''policy_id'', ''intent_sha256''] of
        [Some a, Some e, Some d, Some r, Some t, Some q, Some p, Some i] \<Rightarrow>
          Some \<lparr> ir_authorization_sha256 = a, ir_effect_sha256 = e, ir_decision_sha256 = d, ir_readiness_sha256 = r,
                 ir_action = t, ir_approved_quantity = q, ir_policy_id = p, ir_intent_sha256 = i \<rparr>
      | _ \<Rightarrow> None)"

definition intent_anchor :: "json \<Rightarrow> string result" where
  "intent_anchor record =
     (if \<not> has_keys INTENT_RECORD_KEYS record then Inl (RecoverySnapshotError ''Snapshot intent anchor is invalid'')
      else let failed = RecoverySnapshotError ''Snapshot intent anchor failed reconstruction'' in
        case intent_fields record of
          None \<Rightarrow> Inl failed
        | Some values \<Rightarrow>
            bind_r (catch_r (construct LocalPaperIntentRecord_post_init values) (\<lambda>_. True) failed) (\<lambda>rebuilt.
            if \<not> json_eq (intent_as_record rebuilt) record
            then Inl (RecoverySnapshotError ''Snapshot intent anchor changed'')
            else Inr (ir_authorization_sha256 rebuilt)))"

definition json_get_opt :: "string \<Rightarrow> json \<Rightarrow> string option option" where
  "json_get_opt k j = (case json_get k j of Some JNull \<Rightarrow> Some None | Some (JStr s) \<Rightarrow> Some (Some s) | _ \<Rightarrow> None)"

definition state_fields :: "json \<Rightarrow> LocalPaperOrderState option" where
  "state_fields j =
     (case (map (\<lambda>k. json_get_str k j) [''authorization_sha256'', ''intent_sha256'', ''status'', ''reason'', ''event_sha256''],
            json_get_int ''sequence'' j, json_get_int ''updated_time_ms'' j, json_get_opt ''previous_state_sha256'' j) of
        ([Some a, Some i, Some t, Some y, Some e], Some n, Some u, Some p) \<Rightarrow>
          (case (LocalOrderStatus_of t, LocalOrderReason_of y) of
             (Some status, Some reason) \<Rightarrow>
               Some \<lparr> os_authorization_sha256 = a, os_intent_sha256 = i, os_sequence = n, os_updated_time_ms = u,
                      os_status = status, os_reason = reason, os_previous_state_sha256 = p, os_event_sha256 = e \<rparr>
           | _ \<Rightarrow> None)
      | _ \<Rightarrow> None)"

definition is_dict :: "json \<Rightarrow> bool" where
  "is_dict j = (case j of JObj _ \<Rightarrow> True | _ \<Rightarrow> False)"

definition order_anchor_fields :: "string list \<Rightarrow> json \<Rightarrow> (string \<times> int \<times> string \<times> string \<times> json) option" where
  "order_anchor_fields authorizations anchor =
     (case (json_get_str ''authorization_sha256'' anchor, json_get_int ''sequence'' anchor,
            json_get_str ''event_sha256'' anchor, json_get_str ''state_sha256'' anchor, json_get ''state'' anchor) of
        (Some a, Some n, Some e, Some d, Some s) \<Rightarrow>
          if a \<notin> set authorizations \<or> n < 0 \<or> \<not> valid_digest e \<or> \<not> valid_digest d \<or> \<not> is_dict s then None
          else Some (a, n, e, d, s)
      | _ \<Rightarrow> None)"

definition order_anchor :: "string list \<Rightarrow> json \<Rightarrow> (string \<times> int) result" where
  "order_anchor authorizations anchor =
     (if \<not> has_keys [''authorization_sha256'', ''sequence'', ''event_sha256'', ''state_sha256'', ''state''] anchor
      then Inl (RecoverySnapshotError ''Snapshot order anchor is invalid'')
      else case order_anchor_fields authorizations anchor of
        None \<Rightarrow> Inl (RecoverySnapshotError ''Snapshot order anchor fields are invalid'')
      | Some (a, n, e, d, state_record) \<Rightarrow>
          let failed = RecoverySnapshotError ''Snapshot order state failed reconstruction'' in
          (case state_fields state_record of
             None \<Rightarrow> Inl failed
           | Some values \<Rightarrow>
               bind_r (catch_r (construct LocalPaperOrderState_post_init values) (\<lambda>_. True) failed) (\<lambda>state.
               if \<not> json_eq (order_state_as_record state) state_record \<or> os_authorization_sha256 state \<noteq> a
                  \<or> os_sequence state \<noteq> n \<or> os_event_sha256 state \<noteq> e \<or> os_state_sha256 state \<noteq> d
               then Inl (RecoverySnapshotError ''Snapshot order state changed'')
               else Inr (a, n))))"

definition fill_anchor :: "json \<Rightarrow> int result" where
  "fill_anchor anchor =
     (let invalid = Inl (RecoverySnapshotError ''Snapshot fill anchor is invalid'') in
      if \<not> has_keys [''sequence'', ''fill_event_sha256''] anchor then invalid
      else case (json_get_int ''sequence'' anchor, json_get_str ''fill_event_sha256'' anchor) of
        (Some n, Some d) \<Rightarrow> if valid_digest d then Inr n else invalid
      | _ \<Rightarrow> invalid)"

definition RecoverySnapshot_post_init :: "RecoverySnapshot \<Rightarrow> unit result" where
  "RecoverySnapshot_post_init s =
     (if \<not> list_all valid_digest [rs_policy_sha256 s, rs_spec_sha256 s, rs_reconciliation_sha256 s, rs_journal_sha256 s,
            rs_orders_sha256 s, rs_portfolio_sha256 s]
      then Inl (RecoverySnapshotError ''Snapshot digest is invalid'')
      else if rs_order_event_count s < 0 then Inl (RecoverySnapshotError ''Snapshot event count is invalid'')
      else bind_r (map_r intent_anchor (rs_intent_records s)) (\<lambda>authorizations.
        if authorizations \<noteq> sort authorizations \<or> \<not> distinct authorizations
        then Inl (RecoverySnapshotError ''Snapshot intent anchors are not canonical'')
        else bind_r (map_r (order_anchor authorizations) (rs_order_anchors s)) (\<lambda>anchors.
          if map fst anchors \<noteq> sort (map fst anchors) \<or> map fst anchors \<noteq> authorizations
          then Inl (RecoverySnapshotError ''Snapshot order coverage is invalid'')
          else bind_r (map_r fill_anchor (rs_fill_anchors s)) (\<lambda>sequences.
            if sequences \<noteq> map int [0..<length (rs_fill_anchors s)]
            then Inl (RecoverySnapshotError ''Snapshot fill anchors are not contiguous'')
            else if rs_order_event_count s \<noteq> (\<Sum>(a, n)\<leftarrow>anchors. n + 1)
            then Inl (RecoverySnapshotError ''Snapshot order event count disagrees with anchors'')
            else Inr ()))))"

definition rs_intent_count :: "RecoverySnapshot \<Rightarrow> int" where
  "rs_intent_count s = int (length (rs_intent_records s))"

definition rs_order_count :: "RecoverySnapshot \<Rightarrow> int" where
  "rs_order_count s = int (length (rs_order_anchors s))"

definition rs_fill_count :: "RecoverySnapshot \<Rightarrow> int" where
  "rs_fill_count s = int (length (rs_fill_anchors s))"

definition snapshot_material :: "RecoverySnapshot \<Rightarrow> (string \<times> json) list" where
  "snapshot_material s =
     [(''schema_version'', JInt RECOVERY_SNAPSHOT_SCHEMA_VERSION), (''policy_sha256'', JStr (rs_policy_sha256 s)),
      (''spec_sha256'', JStr (rs_spec_sha256 s)), (''reconciliation_sha256'', JStr (rs_reconciliation_sha256 s)),
      (''journal_sha256'', JStr (rs_journal_sha256 s)), (''orders_sha256'', JStr (rs_orders_sha256 s)),
      (''portfolio_sha256'', JStr (rs_portfolio_sha256 s)), (''intent_records'', JList (rs_intent_records s)),
      (''order_anchors'', JList (rs_order_anchors s)), (''fill_anchors'', JList (rs_fill_anchors s)),
      (''order_event_count'', JInt (rs_order_event_count s))]"

definition snapshot_sha256 :: "RecoverySnapshot \<Rightarrow> string" where
  "snapshot_sha256 s = py_digest (JObj (snapshot_material s))"

definition snapshot_as_record :: "RecoverySnapshot \<Rightarrow> json" where
  "snapshot_as_record s = JObj (snapshot_material s @ [(''snapshot_sha256'', JStr (snapshot_sha256 s))])"

section \<open>The report\<close>

record RecoveryReport =
  rr_ready :: bool
  rr_code :: RecoveryCode
  rr_reconciliation_sha256 :: "string option"
  rr_snapshot_sha256 :: "string option"
  rr_tail_intents :: int
  rr_tail_order_events :: int
  rr_tail_fills :: int
  rr_manual_confirmation_sha256 :: "string option"

definition RecoveryReport_post_init :: "RecoveryReport \<Rightarrow> unit result" where
  "RecoveryReport_post_init r =
     (if list_ex (\<lambda>n. n < 0) [rr_tail_intents r, rr_tail_order_events r, rr_tail_fills r]
      then Inl (RecoverySnapshotError ''Recovery tail counts are invalid'')
      else if list_ex (\<lambda>d. case d of None \<Rightarrow> False | Some s \<Rightarrow> \<not> valid_digest s)
          [rr_reconciliation_sha256 r, rr_snapshot_sha256 r, rr_manual_confirmation_sha256 r]
      then Inl (RecoverySnapshotError ''Recovery report digest is invalid'')
      else if rr_ready r \<and> rr_reconciliation_sha256 r = None
      then Inl (RecoverySnapshotError ''Ready recovery report lacks reconciliation evidence'')
      else if rr_code r = AMBIGUOUS_COMMIT
      then (if rr_manual_confirmation_sha256 r = None \<or> rr_ready r
            then Inl (RecoverySnapshotError ''Ambiguous recovery requires manual confirmation'') else Inr ())
      else if rr_manual_confirmation_sha256 r \<noteq> None
      then Inl (RecoverySnapshotError ''Unexpected manual confirmation evidence'')
      else Inr ())"

definition recovery_material :: "RecoveryReport \<Rightarrow> (string \<times> json) list" where
  "recovery_material r =
     [(''schema_version'', JInt 1), (''status'', JStr (if rr_ready r then ''READY'' else ''RECOVERY_REQUIRED'')),
      (''code'', JStr (RecoveryCode_value (rr_code r))),
      (''reconciliation_sha256'', j_opt JStr (rr_reconciliation_sha256 r)),
      (''snapshot_sha256'', j_opt JStr (rr_snapshot_sha256 r)), (''tail_intents'', JInt (rr_tail_intents r)),
      (''tail_order_events'', JInt (rr_tail_order_events r)), (''tail_fills'', JInt (rr_tail_fills r)),
      (''manual_confirmation_sha256'', j_opt JStr (rr_manual_confirmation_sha256 r))]"

definition recovery_sha256 :: "RecoveryReport \<Rightarrow> string" where
  "recovery_sha256 r = py_digest (JObj (recovery_material r))"

definition recovery_readiness :: "RecoveryReport \<Rightarrow> RecoveryReadiness result" where
  "recovery_readiness r =
     (if rr_ready r
      then construct RecoveryReadiness_post_init
        \<lparr> ry_status = READY, ry_reason = RECONCILIATION_PASSED,
          ry_reconciliation_sha256 = rr_reconciliation_sha256 r \<rparr>
      else construct RecoveryReadiness_post_init
        \<lparr> ry_status = RECOVERY_REQUIRED, ry_reason = RECONCILIATION_FAILED,
          ry_reconciliation_sha256 = Some (recovery_sha256 r) \<rparr>)"

definition recovery_as_record :: "RecoveryReport \<Rightarrow> json" where
  "recovery_as_record r = JObj (recovery_material r @ [(''recovery_sha256'', JStr (recovery_sha256 r))])"

section \<open>The files\<close>

text \<open>
  The three paths of a recovery: the database, the snapshot, and the pending file next to the
  snapshot; \<open>None\<close> is a path where nothing is, and \<open>rf_creatable\<close> says whether the operating
  system lets the program create a file at the path of the database. A text file is the text
  before the newlines are translated, one character per byte.
\<close>

record RecoveryFiles =
  rf_database :: "ExecutionFile option"
  rf_snapshot :: "string option"
  rf_pending :: "string option"
  rf_creatable :: bool

text \<open>The newline translation of \<^verbatim>\<open>read_text\<close>: CR LF and a lone CR are read as LF.\<close>

fun universal_newlines :: "string \<Rightarrow> string" where
  "universal_newlines [] = []"
| "universal_newlines [c] = (if c = CHR 0x0D then [CHR 0x0A] else [c])"
| "universal_newlines (c # d # cs) =
     (if c = CHR 0x0D
      then CHR 0x0A # (if d = CHR 0x0A then universal_newlines cs else universal_newlines (d # cs))
      else c # universal_newlines (d # cs))"

definition read_limited :: "string option \<Rightarrow> string result" where
  "read_limited target =
     (case target of
        None \<Rightarrow> Inl (RecoverySnapshotError ''Snapshot cannot be read safely'')
      | Some text \<Rightarrow>
          if text = [] \<or> MAX_SNAPSHOT_BYTES < length text
          then Inl (RecoverySnapshotError ''Snapshot size is invalid'') else Inr (universal_newlines text))"

definition snapshot_of_record :: "json \<Rightarrow> RecoverySnapshot result" where
  "snapshot_of_record record =
     bind_r (py_tuple (the (json_get ''intent_records'' record))) (\<lambda>intent_records.
     bind_r (py_tuple (the (json_get ''order_anchors'' record))) (\<lambda>order_anchors.
     bind_r (py_tuple (the (json_get ''fill_anchors'' record))) (\<lambda>fill_anchors.
     let digest = (\<lambda>k. json_get_str k record) in
     if \<not> list_all (\<lambda>d. case d of None \<Rightarrow> False | Some s \<Rightarrow> valid_digest s)
          (map digest [''policy_sha256'', ''spec_sha256'', ''reconciliation_sha256'', ''journal_sha256'', ''orders_sha256'',
             ''portfolio_sha256''])
     then Inl (RecoverySnapshotError ''Snapshot digest is invalid'')
     else case json_get_int ''order_event_count'' record of
       None \<Rightarrow> Inl (RecoverySnapshotError ''Snapshot fill or event anchors are invalid'')
     | Some n \<Rightarrow> construct RecoverySnapshot_post_init
         \<lparr> rs_policy_sha256 = the (digest ''policy_sha256''), rs_spec_sha256 = the (digest ''spec_sha256''),
           rs_reconciliation_sha256 = the (digest ''reconciliation_sha256''),
           rs_journal_sha256 = the (digest ''journal_sha256''), rs_orders_sha256 = the (digest ''orders_sha256''),
           rs_portfolio_sha256 = the (digest ''portfolio_sha256''), rs_intent_records = intent_records,
           rs_order_anchors = order_anchors, rs_fill_anchors = fill_anchors, rs_order_event_count = n \<rparr>)))"

definition snapshot_keys :: "string list" where
  "snapshot_keys =
     [''schema_version'', ''policy_sha256'', ''spec_sha256'', ''reconciliation_sha256'', ''journal_sha256'', ''orders_sha256'',
      ''portfolio_sha256'', ''intent_records'', ''order_anchors'', ''fill_anchors'', ''order_event_count'', ''snapshot_sha256'']"

definition without_key :: "string \<Rightarrow> json \<Rightarrow> json" where
  "without_key k j = (case j of JObj kvs \<Rightarrow> JObj (filter (\<lambda>(l, v). l \<noteq> k) kvs) | _ \<Rightarrow> j)"

definition snapshot_text :: "RecoverySnapshot \<Rightarrow> string" where
  "snapshot_text s = json_dumps (snapshot_as_record s) @ [CHR 0x0A]"

definition snapshot_from_text :: "string \<Rightarrow> RecoverySnapshot result" where
  "snapshot_from_text text =
     (case json_loads text of
        None \<Rightarrow> Inl (RecoverySnapshotError ''Snapshot JSON is invalid'')
      | Some loaded \<Rightarrow>
          if \<not> has_keys snapshot_keys loaded then Inl (RecoverySnapshotError ''Snapshot schema is invalid'')
          else if \<not> json_eq (the (json_get ''schema_version'' loaded)) (JInt RECOVERY_SNAPSHOT_SCHEMA_VERSION)
          then Inl (RecoverySnapshotError ''Snapshot version is unsupported'')
          else
            let record = without_key ''snapshot_sha256'' loaded; supplied = json_get_str ''snapshot_sha256'' loaded in
            if supplied \<noteq> Some (py_digest record)
            then Inl (RecoverySnapshotError ''Snapshot digest verification failed'')
            else bind_r (snapshot_of_record record) (\<lambda>snapshot.
              if text \<noteq> snapshot_text snapshot \<or> Some (snapshot_sha256 snapshot) \<noteq> supplied
              then Inl (RecoverySnapshotError ''Snapshot is not canonical'')
              else Inr snapshot))"

definition load_recovery_snapshot :: "string option \<Rightarrow> RecoverySnapshot result" where
  "load_recovery_snapshot target = bind_r (read_limited target) snapshot_from_text"

section \<open>Building a snapshot\<close>

definition anchored_state :: "OrderStateRow \<Rightarrow> LocalPaperOrderState result" where
  "anchored_state row =
     (case (LocalOrderStatus_of (st_status row), LocalOrderReason_of (st_reason row)) of
        (Some status, Some reason) \<Rightarrow> construct LocalPaperOrderState_post_init
          \<lparr> os_authorization_sha256 = st_authorization_sha256 row, os_intent_sha256 = st_intent_sha256 row,
            os_sequence = st_sequence row, os_updated_time_ms = st_updated_time_ms row, os_status = status,
            os_reason = reason, os_previous_state_sha256 = st_previous_state_sha256 row,
            os_event_sha256 = st_event_sha256 row \<rparr>
      | _ \<Rightarrow> Inl (RecoverySnapshotError ''Cannot build snapshot anchors''))"

definition order_anchor_record :: "LocalPaperOrderState \<Rightarrow> json" where
  "order_anchor_record s = JObj
     [(''authorization_sha256'', JStr (os_authorization_sha256 s)), (''sequence'', JInt (os_sequence s)),
      (''event_sha256'', JStr (os_event_sha256 s)), (''state_sha256'', JStr (os_state_sha256 s)),
      (''state'', order_state_as_record s)]"

definition fill_anchor_record :: "FillEventRow \<Rightarrow> json" where
  "fill_anchor_record r = JObj
     [(''sequence'', JInt (fx_sequence r)), (''fill_event_sha256'', JStr (fx_fill_event_sha256 r))]"

text \<open>
  A ready report has all its digests and was made of a database, so \<open>the\<close> is applied to values.
\<close>

definition build_snapshot ::
    "ExecutionFile option \<Rightarrow> BacktestSpec \<Rightarrow> LocalPaperExecutionPolicy \<Rightarrow> RecoverySnapshot result" where
  "build_snapshot path spec policy =
     bind_r (reconcile_startup path spec) (\<lambda>report.
     if \<not> rp_ready report \<or> rp_code report \<noteq> MATCH
     then Inl (RecoverySnapshotError ''Authoritative execution state is not reconciled'')
     else let db = ef_database (the path) in
       bind_r (map_r (\<lambda>r. bind_r (construct LocalPaperIntentRecord_post_init r) (\<lambda>r. Inr (intent_as_record r)))
         (sort_key ir_authorization_sha256 (db_intents db))) (\<lambda>intent_records.
       bind_r (map_r (\<lambda>row. bind_r (anchored_state row) (\<lambda>s. Inr (order_anchor_record s)))
         (sort_key st_authorization_sha256 (db_order_states db))) (\<lambda>order_anchors.
       construct RecoverySnapshot_post_init
         \<lparr> rs_policy_sha256 = policy_sha256 policy, rs_spec_sha256 = spec_sha256 spec,
           rs_reconciliation_sha256 = reconciliation_sha256 report,
           rs_journal_sha256 = the (rp_journal_sha256 report), rs_orders_sha256 = the (rp_orders_sha256 report),
           rs_portfolio_sha256 = the (rp_portfolio_sha256 report), rs_intent_records = intent_records,
           rs_order_anchors = order_anchors,
           rs_fill_anchors = map fill_anchor_record (sort_key fx_sequence (db_fill_events db)),
           rs_order_event_count = int (length (db_order_events db)) \<rparr>)))"

text \<open>Equality of snapshots: the anchors are compared as Python dictionaries.\<close>

definition snapshot_equal :: "RecoverySnapshot \<Rightarrow> RecoverySnapshot \<Rightarrow> bool" where
  "snapshot_equal a b \<longleftrightarrow> rs_policy_sha256 a = rs_policy_sha256 b \<and> rs_spec_sha256 a = rs_spec_sha256 b
     \<and> rs_reconciliation_sha256 a = rs_reconciliation_sha256 b \<and> rs_journal_sha256 a = rs_journal_sha256 b
     \<and> rs_orders_sha256 a = rs_orders_sha256 b \<and> rs_portfolio_sha256 a = rs_portfolio_sha256 b
     \<and> list_all2 json_eq (rs_intent_records a) (rs_intent_records b)
     \<and> list_all2 json_eq (rs_order_anchors a) (rs_order_anchors b)
     \<and> list_all2 json_eq (rs_fill_anchors a) (rs_fill_anchors b)
     \<and> rs_order_event_count a = rs_order_event_count b"

text \<open>
  The commit writes the pending file and renames it. The operating system decides how it ends:
  both calls succeed, the write fails and leaves what it had written (or no file at all), or
  the rename fails.
\<close>

datatype commit = Committed | Write_Failed "string option" | Replace_Failed

definition create_recovery_snapshot ::
    "commit \<Rightarrow> BacktestSpec \<Rightarrow> LocalPaperExecutionPolicy \<Rightarrow> (RecoveryFiles, RecoverySnapshot) action" where
  "create_recovery_snapshot outcome spec policy files =
     act_bind (act_lift (build_snapshot (rf_database files) spec policy)) (\<lambda>snapshot files.
       if rf_pending files \<noteq> None
       then act_raise (RecoverySnapshotError ''Pending snapshot commit requires explicit confirmation'') files
       else if rf_snapshot files \<noteq> None
       then act_bind (act_lift (load_recovery_snapshot (rf_snapshot files))) (\<lambda>existing.
              if snapshot_equal existing snapshot then act_return existing
              else act_raise (RecoverySnapshotError ''Existing snapshot differs from current reconciled state'')) files
       else let payload = snapshot_text snapshot in
         (case outcome of
            Committed \<Rightarrow> act_return snapshot (files\<lparr> rf_snapshot := Some payload \<rparr>)
          | Write_Failed left \<Rightarrow>
              act_raise (RecoverySnapshotError ''Snapshot commit outcome is ambiguous'') (files\<lparr> rf_pending := left \<rparr>)
          | Replace_Failed \<Rightarrow>
              act_raise (RecoverySnapshotError ''Snapshot commit outcome is ambiguous'') (files\<lparr> rf_pending := Some payload \<rparr>)))
       files"

definition pending_confirmation :: "RecoveryFiles \<Rightarrow> string result" where
  "pending_confirmation files =
     (case rf_pending files of
        None \<Rightarrow> Inl (RecoverySnapshotError ''Pending snapshot evidence cannot be read'')
      | Some pending \<Rightarrow>
          if MAX_SNAPSHOT_BYTES < length pending
          then Inl (RecoverySnapshotError ''Pending snapshot evidence is invalid'')
          else if (case rf_snapshot files of None \<Rightarrow> False | Some final \<Rightarrow> MAX_SNAPSHOT_BYTES < length final)
          then Inl (RecoverySnapshotError ''Final snapshot evidence is invalid'')
          else Inr (py_digest (JObj
            [(''schema_version'', JInt 1), (''action'', JStr ''DISCARD_PENDING_ONLY''),
             (''pending_sha256'', JStr (sha256_hexdigest pending)),
             (''final_sha256'', j_opt (\<lambda>t. JStr (sha256_hexdigest t)) (rf_snapshot files))])))"

definition confirm_pending_snapshot :: "string \<Rightarrow> (RecoveryFiles, string) action" where
  "confirm_pending_snapshot confirmation files =
     (if \<not> valid_digest confirmation
      then act_raise (RecoverySnapshotError ''Manual confirmation digest is invalid'') files
      else act_bind (act_lift (pending_confirmation files)) (\<lambda>expected files.
        if confirmation \<noteq> expected
        then act_raise (RecoverySnapshotError ''Manual confirmation evidence changed'') files
        else act_return expected (files\<lparr> rf_pending := None \<rparr>)) files)"

section \<open>The prefix check\<close>

text \<open>
  The handler of the check names SQLite and lookup errors; the error of an invalid intent
  row is none of these and goes through.
\<close>

fun prefix_intents :: "LocalPaperIntentRecord list \<Rightarrow> json list \<Rightarrow> bool result" where
  "prefix_intents rows [] = Inr True"
| "prefix_intents rows (record # records) =
     (case select_row ir_authorization_sha256 (the (json_get_str ''authorization_sha256'' record)) rows of
        None \<Rightarrow> Inr False
      | Some row \<Rightarrow>
          bind_r (construct LocalPaperIntentRecord_post_init row) (\<lambda>current.
          if \<not> json_eq (intent_as_record current) record then Inr False
          else prefix_intents rows records))"

definition prefix_order_anchor :: "ExecutionDatabase \<Rightarrow> json \<Rightarrow> bool" where
  "prefix_order_anchor db anchor =
     (let a = the (json_get_str ''authorization_sha256'' anchor); n = the (json_get_int ''sequence'' anchor) in
      case (select_row order_event_key (a, n) (db_order_events db),
            select_row st_authorization_sha256 a (db_order_states db)) of
        (Some event, Some state) \<Rightarrow>
          \<not> (Some (ev_event_sha256 event) \<noteq> json_get_str ''event_sha256'' anchor \<or> st_sequence state < n
             \<or> (st_sequence state = n \<and> Some (st_state_sha256 state) \<noteq> json_get_str ''state_sha256'' anchor))
      | _ \<Rightarrow> False)"

definition prefix_fill_anchor :: "ExecutionDatabase \<Rightarrow> json \<Rightarrow> bool" where
  "prefix_fill_anchor db anchor =
     (case select_row fx_sequence (the (json_get_int ''sequence'' anchor)) (db_fill_events db) of
        None \<Rightarrow> False
      | Some row \<Rightarrow> Some (fx_fill_event_sha256 row) = json_get_str ''fill_event_sha256'' anchor)"

record TableCounts =
  tc_intents :: int
  tc_orders :: int
  tc_order_events :: int
  tc_fills :: int

text \<open>
  Every table is counted in the end, so a missing one is a \<^verbatim>\<open>sqlite3.Error\<close> at the latest there;
  a missing file has no tables.
\<close>

definition prefix_counts :: "ExecutionFile option \<Rightarrow> RecoverySnapshot \<Rightarrow> TableCounts option result" where
  "prefix_counts path snapshot =
     (case path of
        None \<Rightarrow> Inr None
      | Some f \<Rightarrow>
          let db = ef_database f in
          if ''local_paper_intents'' \<notin> set (ef_tables f) then Inr None
          else bind_r (prefix_intents (db_intents db) (rs_intent_records snapshot)) (\<lambda>intents_match.
            if \<not> intents_match
               \<or> \<not> list_all (\<lambda>t. t \<in> set (ef_tables f))
                    [''local_paper_order_events'', ''local_paper_order_states'', ''local_paper_fill_events'']
               \<or> \<not> list_all (prefix_order_anchor db) (rs_order_anchors snapshot)
               \<or> \<not> list_all (prefix_fill_anchor db) (rs_fill_anchors snapshot)
            then Inr None
            else Inr (Some \<lparr> tc_intents = int (length (db_intents db)), tc_orders = int (length (db_order_states db)),
              tc_order_events = int (length (db_order_events db)), tc_fills = int (length (db_fill_events db)) \<rparr>)))"

text \<open>
  \<^verbatim>\<open>sqlite3.connect\<close> creates a missing file, when it may: an empty database without a table.
\<close>

definition new_database_file :: ExecutionFile where
  "new_database_file = \<lparr> ef_tables = [], ef_versions = (\<lambda>_. []), ef_database = empty_database \<rparr>"

definition connect_database :: "RecoveryFiles \<Rightarrow> RecoveryFiles" where
  "connect_database files =
     (if rf_database files = None \<and> rf_creatable files
      then files\<lparr> rf_database := Some new_database_file \<rparr> else files)"

definition validate_snapshot_prefix :: "RecoverySnapshot \<Rightarrow> (RecoveryFiles, TableCounts option) action" where
  "validate_snapshot_prefix snapshot =
     act_bind (act_update connect_database) (\<lambda>_ files. (files, prefix_counts (rf_database files) snapshot))"

section \<open>Recovery at startup\<close>

definition recovery_report ::
    "bool \<Rightarrow> RecoveryCode \<Rightarrow> string option \<Rightarrow> string option \<Rightarrow> int \<times> int \<times> int \<Rightarrow> string option \<Rightarrow> RecoveryReport result" where
  "recovery_report ready code reconciliation snapshot tail confirmation =
     construct RecoveryReport_post_init
       \<lparr> rr_ready = ready, rr_code = code, rr_reconciliation_sha256 = reconciliation, rr_snapshot_sha256 = snapshot,
         rr_tail_intents = fst tail, rr_tail_order_events = fst (snd tail), rr_tail_fills = snd (snd tail),
         rr_manual_confirmation_sha256 = confirmation \<rparr>"

text \<open>What is reported once the prefix check has counted the rows.\<close>

definition recover_counts ::
    "BacktestSpec \<Rightarrow> RecoverySnapshot \<Rightarrow> ExecutionFile option \<Rightarrow> TableCounts option \<Rightarrow> RecoveryReport result" where
  "recover_counts spec snapshot path counts_opt =
     (let digest = Some (snapshot_sha256 snapshot) in
      case counts_opt of
        None \<Rightarrow> recovery_report False SNAPSHOT_PREFIX_MISMATCH None digest (0, 0, 0) None
      | Some counts \<Rightarrow>
          if tc_intents counts < rs_intent_count snapshot \<or> tc_orders counts < rs_order_count snapshot
             \<or> tc_order_events counts < rs_order_event_count snapshot \<or> tc_fills counts < rs_fill_count snapshot
          then recovery_report False SNAPSHOT_PREFIX_MISMATCH None digest (0, 0, 0) None
          else bind_r (reconcile_startup path spec) (\<lambda>source.
            if \<not> rp_ready source
            then recovery_report False JOURNAL_RECONCILIATION_FAILED (Some (reconciliation_sha256 source)) digest (0, 0, 0) None
            else
              let tail_intents = tc_intents counts - rs_intent_count snapshot;
                  tail_order_events = tc_order_events counts - rs_order_event_count snapshot;
                  tail_fills = tc_fills counts - rs_fill_count snapshot;
                  code = (if tail_intents \<noteq> 0 \<or> tail_order_events \<noteq> 0 \<or> tail_fills \<noteq> 0 then TAIL_REPLAYED else RC_MATCH)
              in recovery_report True code (Some (reconciliation_sha256 source)) digest
                   (tail_intents, tail_order_events, tail_fills) None))"

definition recover_with ::
    "BacktestSpec \<Rightarrow> LocalPaperExecutionPolicy \<Rightarrow> RecoverySnapshot \<Rightarrow> (RecoveryFiles, RecoveryReport) action" where
  "recover_with spec policy snapshot =
     (let digest = Some (snapshot_sha256 snapshot) in
      if rs_policy_sha256 snapshot \<noteq> policy_sha256 policy
      then act_lift (recovery_report False POLICY_DRIFT None digest (0, 0, 0) None)
      else if rs_spec_sha256 snapshot \<noteq> spec_sha256 spec
      then act_lift (recovery_report False SPEC_DRIFT None digest (0, 0, 0) None)
      else act_bind (validate_snapshot_prefix snapshot) (\<lambda>counts files.
        (files, recover_counts spec snapshot (rf_database files) counts)))"

text \<open>The recoveries that end before the snapshot is compared with the database only read.\<close>

definition recover_startup ::
    "BacktestSpec \<Rightarrow> LocalPaperExecutionPolicy \<Rightarrow> (RecoveryFiles, RecoveryReport) action" where
  "recover_startup spec policy files =
     (if rf_pending files \<noteq> None then
        act_lift (case pending_confirmation files of
           Inl e \<Rightarrow> if is_RecoverySnapshotError e then recovery_report False RC_STORAGE_ERROR None None (0, 0, 0) None else Inl e
         | Inr confirmation \<Rightarrow> recovery_report False AMBIGUOUS_COMMIT None None (0, 0, 0) (Some confirmation)) files
      else if rf_snapshot files = None then
        act_lift (bind_r (reconcile_startup (rf_database files) spec) (\<lambda>source.
        if rp_ready source
        then recovery_report True JOURNAL_REBUILD_READY (Some (reconciliation_sha256 source)) None (0, 0, 0) None
        else recovery_report False JOURNAL_RECONCILIATION_FAILED (Some (reconciliation_sha256 source)) None (0, 0, 0) None)) files
      else
        (case load_recovery_snapshot (rf_snapshot files) of
           Inl e \<Rightarrow> act_lift (if is_RecoverySnapshotError e
             then recovery_report False SNAPSHOT_CORRUPT None None (0, 0, 0) None else Inl e) files
         | Inr snapshot \<Rightarrow> recover_with spec policy snapshot files))"

subsection \<open>The outcome as a function of the files\<close>

text \<open>
  The only effect of a recovery is the file that \<^verbatim>\<open>sqlite3.connect\<close> creates, and what it
  reports depends only on the files before: a missing database and the empty one that replaces
  it fail the prefix check alike.
\<close>

definition recovery_connects :: "BacktestSpec \<Rightarrow> LocalPaperExecutionPolicy \<Rightarrow> RecoveryFiles \<Rightarrow> bool" where
  "recovery_connects spec policy files \<longleftrightarrow> rf_pending files = None \<and> rf_snapshot files \<noteq> None
     \<and> (case load_recovery_snapshot (rf_snapshot files) of Inl _ \<Rightarrow> False
        | Inr s \<Rightarrow> rs_policy_sha256 s = policy_sha256 policy \<and> rs_spec_sha256 s = spec_sha256 spec)"

definition recovered_files :: "BacktestSpec \<Rightarrow> LocalPaperExecutionPolicy \<Rightarrow> RecoveryFiles \<Rightarrow> RecoveryFiles" where
  "recovered_files spec policy files = (if recovery_connects spec policy files then connect_database files else files)"

definition recover_with_result ::
    "ExecutionFile option \<Rightarrow> BacktestSpec \<Rightarrow> LocalPaperExecutionPolicy \<Rightarrow> RecoverySnapshot \<Rightarrow> RecoveryReport result" where
  "recover_with_result path spec policy snapshot =
     (let digest = Some (snapshot_sha256 snapshot) in
      if rs_policy_sha256 snapshot \<noteq> policy_sha256 policy then recovery_report False POLICY_DRIFT None digest (0, 0, 0) None
      else if rs_spec_sha256 snapshot \<noteq> spec_sha256 spec then recovery_report False SPEC_DRIFT None digest (0, 0, 0) None
      else bind_r (prefix_counts path snapshot) (recover_counts spec snapshot path))"

definition recovery_outcome ::
    "RecoveryFiles \<Rightarrow> BacktestSpec \<Rightarrow> LocalPaperExecutionPolicy \<Rightarrow> RecoveryReport result" where
  "recovery_outcome files spec policy = snd (recover_startup spec policy files)"

lemma prefix_counts_new [simp]:
  "prefix_counts None snapshot = Inr None" "prefix_counts (Some new_database_file) snapshot = Inr None"
  by (simp_all add: prefix_counts_def new_database_file_def)

lemma recover_with_outcome:
  "recover_with spec policy s files =
     (if rs_policy_sha256 s = policy_sha256 policy \<and> rs_spec_sha256 s = spec_sha256 spec then connect_database files else files,
      recover_with_result (rf_database files) spec policy s)"
proof -
  have "(case prefix_counts (rf_database (connect_database files)) s of Inl e \<Rightarrow> Inl e
      | Inr c \<Rightarrow> recover_counts spec s (rf_database (connect_database files)) c)
    = bind_r (prefix_counts (rf_database files) s) (recover_counts spec s (rf_database files))"
    by (auto simp: connect_database_def bind_r_def recover_counts_def split: sum.split)
  then show ?thesis
    by (auto simp: recover_with_def recover_with_result_def Let_def validate_snapshot_prefix_def act_bind_def act_lift_def
        act_update_def split: sum.splits)
qed

lemma recovery_outcome_eq:
  "recovery_outcome files spec policy =
     (if rf_pending files \<noteq> None then
        (case pending_confirmation files of
           Inl e \<Rightarrow> if is_RecoverySnapshotError e then recovery_report False RC_STORAGE_ERROR None None (0, 0, 0) None else Inl e
         | Inr confirmation \<Rightarrow> recovery_report False AMBIGUOUS_COMMIT None None (0, 0, 0) (Some confirmation))
      else if rf_snapshot files = None then
        bind_r (reconcile_startup (rf_database files) spec) (\<lambda>source.
        if rp_ready source
        then recovery_report True JOURNAL_REBUILD_READY (Some (reconciliation_sha256 source)) None (0, 0, 0) None
        else recovery_report False JOURNAL_RECONCILIATION_FAILED (Some (reconciliation_sha256 source)) None (0, 0, 0) None)
      else
        (case load_recovery_snapshot (rf_snapshot files) of
           Inl e \<Rightarrow> if is_RecoverySnapshotError e then recovery_report False SNAPSHOT_CORRUPT None None (0, 0, 0) None else Inl e
         | Inr snapshot \<Rightarrow> recover_with_result (rf_database files) spec policy snapshot))"
  by (simp add: recovery_outcome_def recover_startup_def recover_with_outcome act_lift_def split: sum.split)

lemma recover_startup_eq:
  "recover_startup spec policy files = (recovered_files spec policy files, recovery_outcome files spec policy)"
proof -
  have "fst (recover_startup spec policy files) = recovered_files spec policy files"
    by (simp add: recover_startup_def recover_with_outcome recovered_files_def recovery_connects_def act_lift_def
        split: sum.split)
  then show ?thesis by (simp add: recovery_outcome_def prod_eq_iff)
qed

text \<open>An existing database, and every other file, stays as it is.\<close>

lemma recovered_files_existing:
  "rf_database files \<noteq> None \<Longrightarrow> recovered_files spec policy files = files"
  by (auto simp: recovered_files_def connect_database_def)

lemma recovered_files_fields [simp]:
  "rf_snapshot (recovered_files spec policy files) = rf_snapshot files"
  "rf_pending (recovered_files spec policy files) = rf_pending files"
  "rf_creatable (recovered_files spec policy files) = rf_creatable files"
  by (simp_all add: recovered_files_def connect_database_def)

section \<open>Reading a snapshot back\<close>

text \<open>The anchors as they are read from the file: with sorted keys.\<close>

definition stored_snapshot :: "RecoverySnapshot \<Rightarrow> RecoverySnapshot" where
  "stored_snapshot s = s\<lparr> rs_intent_records := map json_sorted (rs_intent_records s),
     rs_order_anchors := map json_sorted (rs_order_anchors s), rs_fill_anchors := map json_sorted (rs_fill_anchors s) \<rparr>"

definition snapshot_ok :: "RecoverySnapshot \<Rightarrow> bool" where
  "snapshot_ok s \<longleftrightarrow> list_all json_ok (rs_intent_records s) \<and> list_all json_ok (rs_order_anchors s)
     \<and> list_all json_ok (rs_fill_anchors s)"

lemma get_sorted:
  assumes "json_ok j"
  shows "json_get k (json_sorted j) = map_option json_sorted (json_get k j)"
proof (cases j)
  case (JObj kvs)
  then show ?thesis using json_get_sorted [of kvs k] assms by (simp add: json_get_def)
qed (simp_all add: json_get_def)

lemma json_sorted_simps [simp]:
  "json_sorted j = JStr s \<longleftrightarrow> j = JStr s" "json_sorted j = JInt i \<longleftrightarrow> j = JInt i" "json_sorted j = JNull \<longleftrightarrow> j = JNull"
  by (cases j; simp)+

lemma get_typed_sorted:
  assumes "json_ok j"
  shows "json_get_str k (json_sorted j) = json_get_str k j" "json_get_int k (json_sorted j) = json_get_int k j"
    "json_get_opt k (json_sorted j) = json_get_opt k j"
  using get_sorted [OF assms, of k]
  by (auto simp: json_get_str_def json_get_int_def json_get_opt_def split: option.splits json.splits)

lemma has_keys_sorted: "has_keys ks (json_sorted j) = has_keys ks j"
  by (cases j) (simp_all add: has_keys_def comp_def case_prod_unfold image_image)

lemma get_ok: "json_ok j \<Longrightarrow> json_get k j = Some v \<Longrightarrow> json_ok v"
  by (cases j) (auto simp: json_get_def list_all_iff dest!: map_of_SomeD)

lemma intent_fields_sorted: "json_ok j \<Longrightarrow> intent_fields (json_sorted j) = intent_fields j"
  by (simp add: intent_fields_def get_typed_sorted)

lemma state_fields_sorted: "json_ok j \<Longrightarrow> state_fields (json_sorted j) = state_fields j"
  by (simp add: state_fields_def get_typed_sorted)

lemma intent_anchor_sorted: "json_ok j \<Longrightarrow> intent_anchor (json_sorted j) = intent_anchor j"
  by (simp add: intent_anchor_def Let_def intent_fields_sorted has_keys_sorted split: option.split)

lemma fill_anchor_sorted: "json_ok j \<Longrightarrow> fill_anchor (json_sorted j) = fill_anchor j"
  by (simp add: fill_anchor_def Let_def get_typed_sorted has_keys_sorted)

lemma is_dict_sorted [simp]: "is_dict (json_sorted j) = is_dict j"
  by (cases j) (simp_all add: is_dict_def)

lemma order_anchor_fields_sorted:
  assumes "json_ok j"
  shows "order_anchor_fields as (json_sorted j)
    = map_option (\<lambda>(a, n, e, d, s). (a, n, e, d, json_sorted s)) (order_anchor_fields as j)"
  using get_typed_sorted [OF assms] get_sorted [OF assms]
  by (auto simp: order_anchor_fields_def split: option.splits)

lemma order_anchor_sorted:
  assumes "json_ok j"
  shows "order_anchor as (json_sorted j) = order_anchor as j"
proof (cases "order_anchor_fields as j")
  case None
  then show ?thesis by (simp add: order_anchor_def has_keys_sorted order_anchor_fields_sorted [OF assms])
next
  case (Some x)
  obtain a n e d s where x: "x = (a, n, e, d, s)" by (cases x)
  have "json_get ''state'' j = Some s"
    using Some x by (auto simp: order_anchor_fields_def split: option.splits if_splits)
  then have "json_ok s" by (rule get_ok [OF assms])
  then show ?thesis
    using Some by (simp add: x order_anchor_def Let_def has_keys_sorted order_anchor_fields_sorted [OF assms] state_fields_sorted
        split: option.split)
qed

lemma map_r_cong_map:
  "(\<And>x. x \<in> set xs \<Longrightarrow> f (g x) = f x) \<Longrightarrow> map_r f (map g xs) = map_r f xs"
  by (induction xs) simp_all

lemma stored_snapshot_fields:
  "rs_policy_sha256 (stored_snapshot s) = rs_policy_sha256 s" "rs_spec_sha256 (stored_snapshot s) = rs_spec_sha256 s"
  "rs_reconciliation_sha256 (stored_snapshot s) = rs_reconciliation_sha256 s"
  "rs_journal_sha256 (stored_snapshot s) = rs_journal_sha256 s" "rs_orders_sha256 (stored_snapshot s) = rs_orders_sha256 s"
  "rs_portfolio_sha256 (stored_snapshot s) = rs_portfolio_sha256 s"
  "rs_intent_records (stored_snapshot s) = map json_sorted (rs_intent_records s)"
  "rs_order_anchors (stored_snapshot s) = map json_sorted (rs_order_anchors s)"
  "rs_fill_anchors (stored_snapshot s) = map json_sorted (rs_fill_anchors s)"
  "rs_order_event_count (stored_snapshot s) = rs_order_event_count s"
  by (simp_all add: stored_snapshot_def)

lemma stored_snapshot_post_init:
  assumes "snapshot_ok s"
  shows "RecoverySnapshot_post_init (stored_snapshot s) = RecoverySnapshot_post_init s"
proof -
  have m: "map_r intent_anchor (map json_sorted (rs_intent_records s)) = map_r intent_anchor (rs_intent_records s)"
    "map_r (order_anchor as) (map json_sorted (rs_order_anchors s)) = map_r (order_anchor as) (rs_order_anchors s)"
    "map_r fill_anchor (map json_sorted (rs_fill_anchors s)) = map_r fill_anchor (rs_fill_anchors s)" for as
    using assms
    by (auto intro!: map_r_cong_map simp: snapshot_ok_def list_all_iff intent_anchor_sorted order_anchor_sorted fill_anchor_sorted)
  show ?thesis unfolding RecoverySnapshot_post_init_def stored_snapshot_fields m length_map ..
qed

lemma snapshot_material_ok: "snapshot_ok s \<Longrightarrow> json_ok (JObj (snapshot_material s))" "snapshot_ok s \<Longrightarrow> json_ok (snapshot_as_record s)"
  by (simp_all add: snapshot_as_record_def snapshot_material_def snapshot_ok_def)

lemma stored_snapshot_texts [simp]:
  "snapshot_sha256 (stored_snapshot s) = snapshot_sha256 s" "snapshot_text (stored_snapshot s) = snapshot_text s"
proof -
  have l: "json_dumps (JList (map json_sorted xs)) = json_dumps (JList xs)" for xs
    using json_dumps_sorted [of "JList xs"] by simp
  show d: "snapshot_sha256 (stored_snapshot s) = snapshot_sha256 s"
    unfolding snapshot_sha256_def py_digest_def json_dumps.simps(6) snapshot_material_def stored_snapshot_fields
    by (simp add: l del: json_dumps.simps)
  show "snapshot_text (stored_snapshot s) = snapshot_text s"
    unfolding snapshot_text_def snapshot_as_record_def d json_dumps.simps(6) snapshot_material_def stored_snapshot_fields
    by (simp add: l del: json_dumps.simps)
qed

lemma without_key_sorted: "without_key k (json_sorted j) = json_sorted (without_key k j)"
  by (cases j) (simp_all add: without_key_def filter_sort filter_map comp_def case_prod_unfold)

lemma without_snapshot_sha256: "without_key ''snapshot_sha256'' (snapshot_as_record s) = JObj (snapshot_material s)"
  by (simp add: without_key_def snapshot_as_record_def snapshot_material_def)

lemma snapshot_of_record_stored:
  assumes "snapshot_ok s" "RecoverySnapshot_post_init s = Inr ()"
  shows "snapshot_of_record (json_sorted (JObj (snapshot_material s))) = Inr (stored_snapshot s)"
proof -
  let ?j = "JObj (snapshot_material s)"
  note ok = snapshot_material_ok(1) [OF assms(1)]
  have g: "json_get ''intent_records'' ?j = Some (JList (rs_intent_records s))"
    "json_get ''order_anchors'' ?j = Some (JList (rs_order_anchors s))"
    "json_get ''fill_anchors'' ?j = Some (JList (rs_fill_anchors s))"
    by (simp_all add: json_get_def snapshot_material_def)
  have t: "json_get_str ''policy_sha256'' ?j = Some (rs_policy_sha256 s)" "json_get_str ''spec_sha256'' ?j = Some (rs_spec_sha256 s)"
    "json_get_str ''reconciliation_sha256'' ?j = Some (rs_reconciliation_sha256 s)"
    "json_get_str ''journal_sha256'' ?j = Some (rs_journal_sha256 s)" "json_get_str ''orders_sha256'' ?j = Some (rs_orders_sha256 s)"
    "json_get_str ''portfolio_sha256'' ?j = Some (rs_portfolio_sha256 s)"
    "json_get_int ''order_event_count'' ?j = Some (rs_order_event_count s)"
    by (simp_all add: json_get_str_def json_get_int_def json_get_def snapshot_material_def)
  have v: "list_all valid_digest [rs_policy_sha256 s, rs_spec_sha256 s, rs_reconciliation_sha256 s, rs_journal_sha256 s,
      rs_orders_sha256 s, rs_portfolio_sha256 s]"
    using assms(2) by (simp add: RecoverySnapshot_post_init_def split: if_splits)
  have st: "stored_snapshot s =
      \<lparr> rs_policy_sha256 = rs_policy_sha256 s, rs_spec_sha256 = rs_spec_sha256 s,
        rs_reconciliation_sha256 = rs_reconciliation_sha256 s, rs_journal_sha256 = rs_journal_sha256 s,
        rs_orders_sha256 = rs_orders_sha256 s, rs_portfolio_sha256 = rs_portfolio_sha256 s,
        rs_intent_records = map json_sorted (rs_intent_records s), rs_order_anchors = map json_sorted (rs_order_anchors s),
        rs_fill_anchors = map json_sorted (rs_fill_anchors s), rs_order_event_count = rs_order_event_count s \<rparr>"
    by (cases s) (simp add: stored_snapshot_def)
  have "construct RecoverySnapshot_post_init (stored_snapshot s) = Inr (stored_snapshot s)"
    using stored_snapshot_post_init [OF assms(1)] assms(2) by (simp add: construct_def)
  then show ?thesis
    using t v
    by (simp add: snapshot_of_record_def Let_def get_sorted [OF ok] get_typed_sorted [OF ok] g py_tuple_def st
        del: json_sorted.simps(2))
qed

lemma snapshot_roundtrip_text:
  assumes "snapshot_ok s" "RecoverySnapshot_post_init s = Inr ()"
  shows "snapshot_from_text (snapshot_text s) = Inr (stored_snapshot s)"
proof -
  let ?r = "snapshot_as_record s"
  note ok = snapshot_material_ok(2) [OF assms(1)]
  have l: "json_loads (snapshot_text s) = Some (json_sorted ?r)"
    using json_loads_line [OF ok] by (simp add: snapshot_text_def)
  have k: "has_keys snapshot_keys ?r"
    by (simp add: has_keys_def snapshot_keys_def snapshot_as_record_def snapshot_material_def insert_commute)
  have g: "json_get ''schema_version'' ?r = Some (JInt 1)" "json_get_str ''snapshot_sha256'' ?r = Some (snapshot_sha256 s)"
    by (simp_all add: json_get_str_def json_get_def snapshot_as_record_def snapshot_material_def
        RECOVERY_SNAPSHOT_SCHEMA_VERSION_def)
  have d: "py_digest (json_sorted (JObj (snapshot_material s))) = snapshot_sha256 s"
    by (simp only: py_digest_def json_dumps_sorted snapshot_sha256_def)
  show ?thesis
    using snapshot_of_record_stored [OF assms]
    by (simp add: snapshot_from_text_def l has_keys_sorted k get_sorted [OF ok] get_typed_sorted [OF ok] g d
        without_key_sorted without_snapshot_sha256 RECOVERY_SNAPSHOT_SCHEMA_VERSION_def json_eq_def Let_def
        del: json_sorted.simps(2))
qed

section \<open>Anchors of a database written by the stores\<close>

lemma order_chain_last:
  assumes "chain_run (order_next r) None es = Inr ss" "ss \<noteq> []"
  shows "es \<noteq> []" "os_sequence (last ss) = int (length es) - 1" "os_event_sha256 (last ss) = oe_event_sha256 (last es)"
    "valid_order_state (last ss)" "os_authorization_sha256 (last ss) = ir_authorization_sha256 r"
    "oe_sequence (last es) = os_sequence (last ss)"
proof -
  show ne: "es \<noteq> []" using assms by auto
  then obtain es' e where es: "es = es' @ [e]" by (cases es rule: rev_cases) auto
  obtain ts s where s: "order_next r (if ts = [] then None else Some (last ts)) e = Inr s" and ss: "ss = ts @ [s]"
    using assms(1) by (auto simp: es chain_run_snoc bind_r_eq_Inr)
  have "last (map oe_sequence es) = int (length es) - 1"
    using order_chain_sequences [OF assms(1)] ne by (simp add: last_map of_nat_diff Suc_leI)
  then show "os_sequence (last ss) = int (length es) - 1" using order_next_Inr(6) [OF s] by (simp add: ss es)
  show "os_event_sha256 (last ss) = oe_event_sha256 (last es)" "valid_order_state (last ss)"
    "os_authorization_sha256 (last ss) = ir_authorization_sha256 r" "oe_sequence (last es) = os_sequence (last ss)"
    using order_next_Inr [OF s] by (simp_all add: ss es)
qed

lemma event_row_inj:
  assumes "map event_row es = map event_row fs" "list_all valid_order_event es" "list_all valid_order_event fs"
  shows "es = fs"
proof -
  have m: "map event_from_row (map event_row xs) = map Inr xs" if "list_all valid_order_event xs" for xs
    using that by (auto simp: list_all_iff)
  have "map Inr es = (map Inr fs :: LocalPaperOrderEvent result list)"
    using m [OF assms(2)] m [OF assms(3)] assms(1) by simp
  then show ?thesis by (simp add: inj_map_eq_map inj_def)
qed

text \<open>The event of a known order at a position of its log is found by its key.\<close>

lemma select_order_event:
  assumes "rows_of a db = map event_row es" "chain_run (order_next r) None es = Inr ss" "n < length es"
    "a = ir_authorization_sha256 r"
  shows "select_row order_event_key (a, int n) (db_order_events db) = Some (event_row (es ! n))"
proof -
  have q: "oe_sequence (es ! i) = int i" if "i < length es" for i
    using order_chain_sequences [OF assms(2)] that by (metis (no_types, lifting) length_map nth_map nth_upt plus_nat.add_0 length_upt diff_zero)
  have "event_row (es ! n) \<in> set (rows_of a db)" using assms(3) by (simp add: assms(1))
  then have m: "event_row (es ! n) \<in> set (db_order_events db)" "order_event_key (event_row (es ! n)) = (a, int n)"
    using q [OF assms(3)] by (auto simp: rows_of_def order_event_key_def)
  then obtain x where x: "select_row order_event_key (a, int n) (db_order_events db) = Some x"
    by (cases "select_row order_event_key (a, int n) (db_order_events db)") (auto simp: select_row_None)
  then have "x \<in> set (rows_of a db)" "ev_sequence x = int n"
    using select_row_Some [OF x] by (auto simp: rows_of_def order_event_key_def)
  then obtain i where "i < length es" "x = event_row (es ! i)" "oe_sequence (es ! i) = int n"
    by (auto simp: assms(1) in_set_conv_nth)
  then show ?thesis using x q by simp
qed

lemma order_anchor_record_get [simp]:
  "json_get_str ''authorization_sha256'' (order_anchor_record s) = Some (os_authorization_sha256 s)"
  "json_get_int ''sequence'' (order_anchor_record s) = Some (os_sequence s)"
  "json_get_str ''event_sha256'' (order_anchor_record s) = Some (os_event_sha256 s)"
  "json_get_str ''state_sha256'' (order_anchor_record s) = Some (os_state_sha256 s)"
  "json_get ''state'' (order_anchor_record s) = Some (order_state_as_record s)"
  by (simp_all add: order_anchor_record_def json_get_str_def json_get_int_def json_get_def)

lemma prefix_order_grown:
  assumes inv: "store_inv db" "store_inv db'" and g: "grows db db'"
    and row: "state_row s \<in> set (db_order_states db)" "valid_order_state s"
  shows "prefix_order_anchor db' (order_anchor_record s)"
proof -
  let ?a = "os_authorization_sha256 s"
  obtain r es ss where r: "r \<in> set (db_intents db)" "ir_authorization_sha256 r = ?a"
    and o: "rows_of ?a db = map event_row es" "list_all valid_order_event es" "chain_run (order_next r) None es = Inr ss"
      "ss \<noteq> []" "state_row s = state_row (last ss)"
    using order_row [OF inv(1) row(1)] unfolding state_row_sel by blast
  note L = order_chain_last [OF o(3,4)]
  have s: "s = last ss" using o(5) row(2) L(4) by (metis Inr_inject state_from_row)
  have "r \<in> set (db_intents db')" using r(1) g by (auto simp: grows_def dest: set_mono_prefix)
  then obtain es' ss' where o': "rows_of ?a db' = map event_row es'" "list_all valid_order_event es'"
    "chain_run (order_next r) None es' = Inr ss'"
    "select_row st_authorization_sha256 ?a (db_order_states db') = (if ss' = [] then None else Some (state_row (last ss')))"
    using inv(2) r(2) by (auto simp: store_inv_def list_all_iff order_ok_def)
  have "prefix (rows_of ?a db) (rows_of ?a db')" using g by (auto simp: grows_def rows_of_def prefix_def)
  then obtain zs where zs: "map event_row es' = map event_row es @ zs" by (auto simp: o(1) o'(1) prefix_def)
  then have len: "length es \<le> length es'" by (metis length_append length_map le_add1)
  have "map event_row (take (length es) es') = map event_row es"
    using zs by (metis take_map append_eq_conv_conj length_map)
  then have tk: "take (length es) es' = es"
    using o(2) o'(2) by (intro event_row_inj) (auto simp: list_all_iff dest: in_set_takeD)
  have ne: "es \<noteq> []" by (rule L(1))
  have lss: "length ss' = length es'" using order_chain.chain_run_linked [OF o'(3)] by simp
  then have ss': "ss' \<noteq> []" using ne len by (cases ss') auto
  note L' = order_chain_last [OF o'(3) ss']
  have ev: "select_row order_event_key (?a, os_sequence s) (db_order_events db') = Some (event_row (last es))"
  proof -
    have "length es - 1 < length es'" "es' ! (length es - 1) = last es"
      using ne len tk by (metis diff_less length_greater_0_conv order_less_le_trans zero_less_one)
        (metis ne tk last_conv_nth diff_less length_greater_0_conv nth_take zero_less_one)
    then show ?thesis
      using select_order_event [OF o'(1,3), of "length es - 1"] r(2) L(2) ne
      by (simp add: s of_nat_diff Suc_leI)
  qed
  have same: "ss' = ss" if "length es' = length es"
    using that tk o(3) o'(3) by simp
  show ?thesis
    using ev o'(4) ss' L L'(2) len same
    by (auto simp: prefix_order_anchor_def s state_row_def [of "last ss'"])
qed

lemma prefix_fill_grown:
  assumes "booked spec es l p db'" "prefix (db_fill_events db) (db_fill_events db')" "row \<in> set (db_fill_events db)"
  shows "prefix_fill_anchor db' (fill_anchor_record row)"
proof -
  have q: "map fx_sequence (db_fill_events db') = map int [0..<length es]"
    using assms(1) by (simp add: booked_def fill_row_def comp_def)
  have "distinct (map fx_sequence (db_fill_events db'))" unfolding q by (simp add: distinct_map)
  moreover have "row \<in> set (db_fill_events db')" using assms(2,3) by (auto dest: set_mono_prefix)
  ultimately have "select_row fx_sequence (fx_sequence row) (db_fill_events db') = Some row"
    by (simp add: select_row_distinct)
  then show ?thesis
    by (simp add: prefix_fill_anchor_def fill_anchor_record_def json_get_int_def json_get_str_def json_get_def)
qed

lemma intent_record_get [simp]:
  "json_get_str ''authorization_sha256'' (intent_as_record r) = Some (ir_authorization_sha256 r)"
  by (simp add: intent_as_record_def intent_material_def json_get_str_def json_get_def)

lemma prefix_intents_grown:
  assumes "intents.consistent rows" "list_all valid_intent rows" "set rs \<subseteq> set rows"
  shows "prefix_intents rows (map intent_as_record rs) = Inr True"
  using assms(3)
proof (induction rs)
  case (Cons r rs)
  then have "select_row ir_authorization_sha256 (ir_authorization_sha256 r) rows = Some r" "valid_intent r"
    using intents.select_iff [OF assms(1)] assms(2) by (auto simp: list_all_iff)
  then show ?case using Cons by (simp add: construct_def valid_intent_def)
qed simp

text \<open>The checks see no difference between the anchors and their stored form.\<close>

lemma prefix_sorted:
  "list_all json_ok js \<Longrightarrow> prefix_intents rows (map json_sorted js) = prefix_intents rows js"
  "json_ok j \<Longrightarrow> prefix_order_anchor db (json_sorted j) = prefix_order_anchor db j"
  "json_ok j \<Longrightarrow> prefix_fill_anchor db (json_sorted j) = prefix_fill_anchor db j"
proof -
  show "list_all json_ok js \<Longrightarrow> prefix_intents rows (map json_sorted js) = prefix_intents rows js"
    by (induction js) (simp_all add: get_typed_sorted bind_r_def split: option.split sum.split)
qed (simp_all add: prefix_order_anchor_def prefix_fill_anchor_def Let_def get_typed_sorted split: option.split)

lemma intent_fields_record [simp]: "intent_fields (intent_as_record r) = Some r"
  by (simp add: intent_fields_def intent_as_record_def intent_material_def json_get_str_def json_get_def)

lemma intent_anchor_record: "valid_intent r \<Longrightarrow> intent_anchor (intent_as_record r) = Inr (ir_authorization_sha256 r)"
proof -
  have "has_keys INTENT_RECORD_KEYS (intent_as_record r)"
    by (simp add: has_keys_def INTENT_RECORD_KEYS_def intent_as_record_def intent_material_def insert_commute)
  then show "valid_intent r \<Longrightarrow> ?thesis" by (simp add: intent_anchor_def construct_def valid_intent_def)
qed

lemma json_opt_text [simp]: "json_get k j = Some (j_opt JStr p) \<Longrightarrow> json_get_opt k j = Some p"
  by (cases p) (simp_all add: json_get_opt_def j_opt_def)

lemma state_fields_record [simp]: "state_fields (order_state_as_record s) = Some s"
proof -
  have "json_get_opt ''previous_state_sha256'' (order_state_as_record s) = Some (os_previous_state_sha256 s)"
    by (rule json_opt_text) (simp add: order_state_as_record_def order_state_material_def json_get_def)
  then show ?thesis
    by (simp add: state_fields_def order_state_as_record_def order_state_material_def json_get_str_def json_get_int_def
        json_get_def)
qed

lemma order_anchor_valid:
  assumes "valid_order_state s" "os_authorization_sha256 s \<in> set authorizations"
  shows "order_anchor authorizations (order_anchor_record s) = Inr (os_authorization_sha256 s, os_sequence s)"
proof -
  have k: "has_keys [''authorization_sha256'', ''sequence'', ''event_sha256'', ''state_sha256'', ''state''] (order_anchor_record s)"
    by (simp add: has_keys_def order_anchor_record_def)
  have d: "is_dict (order_state_as_record s)" by (simp add: is_dict_def order_state_as_record_def)
  have v: "0 \<le> os_sequence s" "valid_digest (os_event_sha256 s)" "valid_digest (os_state_sha256 s)"
    using assms(1)
    by (auto simp: valid_order_state_def LocalPaperOrderState_post_init_def os_state_sha256_def bind_r_eq_Inr require_eq_Inr
        split: if_splits)
  then have "order_anchor_fields authorizations (order_anchor_record s)
      = Some (os_authorization_sha256 s, os_sequence s, os_event_sha256 s, os_state_sha256 s, order_state_as_record s)"
    using assms(2) d by (simp add: order_anchor_fields_def)
  then show ?thesis using k assms(1) by (simp add: order_anchor_def Let_def construct_def valid_order_state_def)
qed

lemma fill_anchor_valid: "valid_digest (fx_fill_event_sha256 r) \<Longrightarrow> fill_anchor (fill_anchor_record r) = Inr (fx_sequence r)"
  by (simp add: fill_anchor_def Let_def fill_anchor_record_def has_keys_def json_get_int_def json_get_str_def json_get_def)

lemma length_by_key:
  assumes "distinct ks" "f ` set xs \<subseteq> set ks"
  shows "length xs = (\<Sum>k\<leftarrow>ks. length (filter (\<lambda>x. f x = k) xs))"
  using assms(2)
proof (induction xs)
  case (Cons x xs)
  have "(\<Sum>k\<leftarrow>ks. length (filter (\<lambda>y. f y = k) (x # xs)))
      = (\<Sum>k\<leftarrow>ks. (if f x = k then 1 else 0) + length (filter (\<lambda>y. f y = k) xs))"
    by (intro arg_cong [of _ _ sum_list] map_cong) auto
  also have "\<dots> = (\<Sum>k\<leftarrow>ks. if f x = k then 1 else 0) + (\<Sum>k\<leftarrow>ks. length (filter (\<lambda>y. f y = k) xs))"
    by (simp add: sum_list_addf)
  also have "(\<Sum>k\<leftarrow>ks. if f x = k then 1 else 0 :: nat) = 1"
    using assms(1) Cons.prems by (simp add: sum_list_distinct_conv_sum_set)
  finally show ?case using Cons by simp
qed simp

lemma list_all2_choice: "\<forall>x\<in>set xs. \<exists>y. P x y \<Longrightarrow> \<exists>ys. list_all2 P xs ys"
  by (induction xs) (auto intro: exI [of _ "_ # _"])

text \<open>
  The states of a database in which every intent has an order: their rows, the authorizations
  they cover, and the number of their events.
\<close>

lemma anchored_states:
  assumes inv: "store_inv db" and all: "all_ordered db"
  obtains states where "map state_row states = sort_key st_authorization_sha256 (db_order_states db)"
    "list_all valid_order_state states"
    "map os_authorization_sha256 states = map ir_authorization_sha256 (sort_key ir_authorization_sha256 (db_intents db))"
    "int (length (db_order_events db)) = (\<Sum>s\<leftarrow>states. os_sequence s + 1)"
proof -
  let ?rows = "sort_key st_authorization_sha256 (db_order_states db)"
  let ?P = "\<lambda>row s. state_row s = row \<and> valid_order_state s
      \<and> int (length (rows_of (os_authorization_sha256 s) db)) = os_sequence s + 1"
  have "\<exists>s. ?P row s" if row: "row \<in> set (db_order_states db)" for row
  proof -
    obtain r es ss where o: "rows_of (st_authorization_sha256 row) db = map event_row es"
      "chain_run (order_next r) None es = Inr ss" "ss \<noteq> []" "row = state_row (last ss)"
      using order_row [OF inv row] by blast
    then show ?thesis using order_chain_last [OF o(2,3)] by (intro exI [of _ "last ss"]) simp
  qed
  then obtain states where st: "list_all2 ?P ?rows states"
    using list_all2_choice [of ?rows ?P] by auto
  have m: "map state_row states = ?rows" and v: "list_all valid_order_state states"
    and n: "list_all (\<lambda>s. int (length (rows_of (os_authorization_sha256 s) db)) = os_sequence s + 1) states"
    using st by (induction rule: list_all2_induct) auto
  have con: "order_states.consistent (db_order_states db)" "intents.consistent (db_intents db)"
    using inv by (simp_all add: store_inv_def)
  have os: "map os_authorization_sha256 states = map st_authorization_sha256 ?rows" by (simp add: m [symmetric])
  have sets: "set (map st_authorization_sha256 ?rows) = set (map ir_authorization_sha256 (db_intents db))"
    using inv all unfolding store_inv_def all_ordered_def list_all_iff list_ex_iff has_intent_def
    by (simp, metis (mono_tags, lifting) image_subsetI image_eqI subset_antisym)
  have au: "map os_authorization_sha256 states = map ir_authorization_sha256 (sort_key ir_authorization_sha256 (db_intents db))"
    unfolding os
  proof (rule sorted_distinct_set_unique)
    show "distinct (map st_authorization_sha256 ?rows)"
      "distinct (map ir_authorization_sha256 (sort_key ir_authorization_sha256 (db_intents db)))"
      using order_states.consistent_keys [OF con(1)] intents.consistent_keys [OF con(2)] by (simp_all add: distinct_map)
  qed (use sets in simp_all)
  have "ev_authorization_sha256 ` set (db_order_events db) \<subseteq> set (map os_authorization_sha256 states)"
    using inv unfolding os sets store_inv_def list_all_iff list_ex_iff has_intent_def by (simp, metis image_subsetI image_eqI)
  moreover have "distinct (map os_authorization_sha256 states)"
    using order_states.consistent_keys [OF con(1)] unfolding os by (simp add: distinct_map)
  ultimately have "length (db_order_events db) = (\<Sum>k\<leftarrow>map os_authorization_sha256 states. length (rows_of k db))"
    using length_by_key [of "map os_authorization_sha256 states" ev_authorization_sha256 "db_order_events db"]
    by (simp add: rows_of_def)
  also have "int \<dots> = (\<Sum>s\<leftarrow>states. int (length (rows_of (os_authorization_sha256 s) db)))"
    by (induction states) simp_all
  also have "\<dots> = (\<Sum>s\<leftarrow>states. os_sequence s + 1)"
    using n by (intro arg_cong [of _ _ sum_list] map_cong) (auto simp: list_all_iff)
  finally show thesis using that m v au by blast
qed

section \<open>Snapshots of a database written by the stores\<close>

definition snapshot_for ::
    "BacktestSpec \<Rightarrow> LocalPaperExecutionPolicy \<Rightarrow> StartupReconciliationReport \<Rightarrow> ExecutionDatabase \<Rightarrow>
       LocalPaperOrderState list \<Rightarrow> RecoverySnapshot" where
  "snapshot_for spec policy report db states =
     \<lparr> rs_policy_sha256 = policy_sha256 policy, rs_spec_sha256 = spec_sha256 spec,
       rs_reconciliation_sha256 = reconciliation_sha256 report, rs_journal_sha256 = the (rp_journal_sha256 report),
       rs_orders_sha256 = the (rp_orders_sha256 report), rs_portfolio_sha256 = the (rp_portfolio_sha256 report),
       rs_intent_records = map intent_as_record (sort_key ir_authorization_sha256 (db_intents db)),
       rs_order_anchors = map order_anchor_record states,
       rs_fill_anchors = map fill_anchor_record (db_fill_events db),
       rs_order_event_count = int (length (db_order_events db)) \<rparr>"

lemma snapshot_for_ok: "snapshot_ok (snapshot_for spec policy report db states)"
proof -
  have "json_ok (j_opt JStr p)" for p by (cases p) (simp_all add: j_opt_def)
  then show ?thesis
    by (simp add: snapshot_ok_def snapshot_for_def list_all_iff intent_as_record_def intent_material_def
        order_anchor_record_def order_state_as_record_def order_state_material_def fill_anchor_record_def)
qed

lemma anchored_state_row: "valid_order_state s \<Longrightarrow> anchored_state (state_row s) = Inr s"
  by (cases s) (simp add: anchored_state_def state_row_def construct_def valid_order_state_def)

lemma booked_fills:
  assumes "booked spec es l p db"
  shows "map fx_sequence (db_fill_events db) = map int [0..<length (db_fill_events db)]"
    "sort_key fx_sequence (db_fill_events db) = db_fill_events db"
    "list_all (\<lambda>r. valid_digest (fx_fill_event_sha256 r)) (db_fill_events db)"
proof -
  show q: "map fx_sequence (db_fill_events db) = map int [0..<length (db_fill_events db)]"
    using assms by (simp add: booked_def fill_row_def comp_def)
  have "sorted (map int [0..<n])" for n by (simp add: sorted_iff_nth_mono)
  then show "sort_key fx_sequence (db_fill_events db) = db_fill_events db"
    by (intro sort_key_id_if_sorted) (simp only: q)
  show "list_all (\<lambda>r. valid_digest (fx_fill_event_sha256 r)) (db_fill_events db)"
    using assms by (auto simp: booked_def fill_row_def fill_event_sha256_def list_all_iff)
qed

lemma snapshot_for_post_init:
  assumes inv: "store_inv db" and b: "booked spec es l p db"
    and st: "list_all valid_order_state states"
      "map os_authorization_sha256 states = map ir_authorization_sha256 (sort_key ir_authorization_sha256 (db_intents db))"
      "int (length (db_order_events db)) = (\<Sum>s\<leftarrow>states. os_sequence s + 1)"
    and d: "\<forall>x\<in>{rp_journal_sha256 report, rp_orders_sha256 report, rp_portfolio_sha256 report}. \<exists>t. x = Some t \<and> valid_digest t"
  shows "RecoverySnapshot_post_init (snapshot_for spec policy report db states) = Inr ()"
proof -
  let ?is = "sort_key ir_authorization_sha256 (db_intents db)"
  let ?as = "map ir_authorization_sha256 ?is"
  have i: "map_r intent_anchor (map intent_as_record ?is) = Inr ?as"
    using inv by (intro map_r_pointwise) (auto simp: intent_anchor_record store_inv_def list_all_iff)
  have "intents.consistent (db_intents db)" using inv by (simp add: store_inv_def)
  then have a: "distinct ?as" "sort ?as = ?as"
    using intents.consistent_keys by (auto simp: distinct_map sort_key_id_if_sorted)
  have "os_authorization_sha256 s \<in> set ?as" if "s \<in> set states" for s
    using that arg_cong [OF st(2), of set] by auto
  then have o: "map_r (order_anchor ?as) (map order_anchor_record states) = Inr (map (\<lambda>s. (os_authorization_sha256 s, os_sequence s)) states)"
    using st(1) by (intro map_r_pointwise order_anchor_valid) (auto simp: list_all_iff)
  have fst: "map fst (map (\<lambda>s. (os_authorization_sha256 s, os_sequence s)) states) = ?as"
    using st(2) by (simp add: comp_def)
  have f: "map_r fill_anchor (map fill_anchor_record (db_fill_events db)) = Inr (map int [0..<length (db_fill_events db)])"
    unfolding booked_fills(1) [OF b, symmetric] using booked_fills(3) [OF b]
    by (intro map_r_pointwise) (auto simp: fill_anchor_valid list_all_iff)
  have n: "(\<Sum>(a, n)\<leftarrow>map (\<lambda>s. (os_authorization_sha256 s, os_sequence s)) states. n + 1) = (\<Sum>s\<leftarrow>states. os_sequence s + 1)"
    by (simp add: comp_def)
  have v: "list_all valid_digest [policy_sha256 policy, spec_sha256 spec, reconciliation_sha256 report,
      the (rp_journal_sha256 report), the (rp_orders_sha256 report), the (rp_portfolio_sha256 report)]"
    using d by (auto simp: policy_sha256_def reconciliation_sha256_def)
  have "\<not> (\<Sum>s\<leftarrow>states. os_sequence s + 1) < 0" using st(3) by (metis of_nat_0_le_iff linorder_not_less)
  then show ?thesis
    unfolding RecoverySnapshot_post_init_def snapshot_for_def using v
    by (simp add: i o f a fst n st(3) del: map_map)
qed

lemma build_snapshot_ready:
  assumes inv: "durable_inv spec (ef_database f)" and r: "reconcile_startup (Some f) spec = Inr report" "rp_ready report"
  shows "\<exists>states. build_snapshot (Some f) spec policy = Inr (snapshot_for spec policy report (ef_database f) states)
    \<and> snapshot_ok (snapshot_for spec policy report (ef_database f) states)
    \<and> RecoverySnapshot_post_init (snapshot_for spec policy report (ef_database f) states) = Inr ()
    \<and> length states = length (db_order_states (ef_database f))
    \<and> list_all (\<lambda>s. valid_order_state s \<and> state_row s \<in> set (db_order_states (ef_database f))) states"
proof -
  let ?db = "ef_database f"
  from inv obtain es l p where si: "store_inv ?db" and b: "booked spec es l p ?db" by (auto simp: durable_inv_def)
  from r obtain intents jp states0 op events pp where "require_schema f = Inr ()"
    and li: "load_intents ?db = Inr (intents, jp)" and lo: "load_orders ?db intents = Inr (states0, op)"
    and "recon_portfolio ?db spec intents states0 = Inr (events, pp)"
    and rep: "report = \<lparr> rp_ready = True, rp_code = MATCH, rp_spec_sha256 = Some (spec_sha256 spec),
         rp_intent_count = int (length intents), rp_order_count = int (length states0),
         rp_fill_count = int (length events), rp_journal_sha256 = Some (canonical_digest jp),
         rp_orders_sha256 = Some (canonical_digest op), rp_portfolio_sha256 = Some (canonical_digest pp) \<rparr>"
    by (rule reconcile_ready)
  have "intents = sort_key ir_authorization_sha256 (db_intents ?db)" by (rule load_intents_Inr(1) [OF li])
  then have all: "all_ordered ?db" using load_orders_cases(1) [OF si] lo by auto
  obtain states where st: "map state_row states = sort_key st_authorization_sha256 (db_order_states ?db)"
    "list_all valid_order_state states"
    "map os_authorization_sha256 states = map ir_authorization_sha256 (sort_key ir_authorization_sha256 (db_intents ?db))"
    "int (length (db_order_events ?db)) = (\<Sum>s\<leftarrow>states. os_sequence s + 1)"
    by (rule anchored_states [OF si all])
  have pi: "RecoverySnapshot_post_init (snapshot_for spec policy report ?db states) = Inr ()"
    by (rule snapshot_for_post_init [OF si b st(2-4)]) (simp add: rep canonical_digest_def)
  have i: "map_r (\<lambda>r. bind_r (construct LocalPaperIntentRecord_post_init r) (\<lambda>r. Inr (intent_as_record r)))
      (sort_key ir_authorization_sha256 (db_intents ?db)) = Inr (map intent_as_record (sort_key ir_authorization_sha256 (db_intents ?db)))"
    using si by (intro map_r_eq) (simp add: construct_def store_inv_def list_all_iff valid_intent_def)
  have o: "map_r (\<lambda>row. bind_r (anchored_state row) (\<lambda>s. Inr (order_anchor_record s)))
      (sort_key st_authorization_sha256 (db_order_states ?db)) = Inr (map order_anchor_record states)"
    unfolding st(1) [symmetric] using st(2) by (intro map_r_pointwise) (auto simp: anchored_state_row list_all_iff)
  have "build_snapshot (Some f) spec policy = Inr (snapshot_for spec policy report ?db states)"
  proof -
    have "construct RecoverySnapshot_post_init (snapshot_for spec policy report ?db states) = Inr (snapshot_for spec policy report ?db states)"
      using pi by (simp add: construct_def)
    moreover have "rp_code report = MATCH" by (simp add: rep)
    ultimately show ?thesis using r(2)
      by (simp add: build_snapshot_def r(1) i o booked_fills(2) [OF b] Let_def snapshot_for_def)
  qed
  moreover have "length states = length (db_order_states ?db)" using arg_cong [OF st(1), of length] by simp
  moreover have "state_row s \<in> set (db_order_states ?db)" if "s \<in> set states" for s
    using arg_cong [OF st(1), of set] that by auto
  ultimately show ?thesis using pi st(2) snapshot_for_ok by (auto simp: list_all_iff)
qed

text \<open>The prefix check accepts the snapshot on every later database.\<close>

lemma validate_later:
  assumes inv: "durable_inv spec db" "durable_inv spec (ef_database f)" and g: "grows db (ef_database f)"
    and sch: "require_schema f = Inr ()"
    and st: "list_all (\<lambda>s. valid_order_state s \<and> state_row s \<in> set (db_order_states db)) states"
  shows "prefix_counts (Some f) (stored_snapshot (snapshot_for spec policy report db states)) =
    Inr (Some \<lparr> tc_intents = int (length (db_intents (ef_database f))), tc_orders = int (length (db_order_states (ef_database f))),
      tc_order_events = int (length (db_order_events (ef_database f))), tc_fills = int (length (db_fill_events (ef_database f))) \<rparr>)"
proof -
  let ?db = "ef_database f" and ?s = "snapshot_for spec policy report db states"
  have si: "store_inv db" "store_inv ?db" using inv by (simp_all add: durable_inv_def)
  obtain es l p where b: "booked spec es l p ?db" using inv(2) by (auto simp: durable_inv_def)
  have ok: "list_all json_ok (rs_intent_records ?s)" "list_all json_ok (rs_order_anchors ?s)" "list_all json_ok (rs_fill_anchors ?s)"
    using snapshot_for_ok [of spec policy report db states] by (simp_all add: snapshot_ok_def)
  have "prefix_intents (db_intents ?db) (rs_intent_records ?s) = Inr True"
    using si(2) g prefix_intents_grown [of "db_intents ?db" "sort_key ir_authorization_sha256 (db_intents db)"]
    by (auto simp: snapshot_for_def store_inv_def grows_def dest: set_mono_prefix)
  then have i: "prefix_intents (db_intents ?db) (rs_intent_records (stored_snapshot ?s)) = Inr True"
    using prefix_sorted(1) [OF ok(1)] by (simp add: stored_snapshot_fields)
  have "list_all (prefix_order_anchor ?db) (rs_order_anchors ?s)"
    using st prefix_order_grown [OF si g] by (auto simp: snapshot_for_def list_all_iff)
  then have o: "list_all (prefix_order_anchor ?db) (rs_order_anchors (stored_snapshot ?s))"
    using ok(2) prefix_sorted(2) by (auto simp: stored_snapshot_fields list_all_iff)
  have "list_all (prefix_fill_anchor ?db) (rs_fill_anchors ?s)"
    using prefix_fill_grown [OF b] g by (auto simp: snapshot_for_def list_all_iff grows_def)
  then have fl: "list_all (prefix_fill_anchor ?db) (rs_fill_anchors (stored_snapshot ?s))"
    using ok(3) prefix_sorted(3) by (auto simp: stored_snapshot_fields list_all_iff)
  have t: "list_all (\<lambda>t. t \<in> set (ef_tables f)) required_tables"
    using sch by (simp add: require_schema_def split: if_splits)
  show ?thesis
    using t i o fl by (simp add: prefix_counts_def Let_def required_tables_def)
qed

section \<open>Recovery\<close>

lemma recovery_report_Inr:
  assumes "recovery_report ready code reconciliation snapshot tail confirmation = Inr r"
  shows "rr_ready r = ready" "rr_code r = code" "rr_reconciliation_sha256 r = reconciliation" "rr_snapshot_sha256 r = snapshot"
    "(rr_tail_intents r, rr_tail_order_events r, rr_tail_fills r) = tail" "rr_manual_confirmation_sha256 r = confirmation"
  using assms by (auto simp: recovery_report_def construct_eq_Inr)

lemma read_limited_Inr:
  "read_limited target = Inr text \<longleftrightarrow>
     (\<exists>raw. target = Some raw \<and> text = universal_newlines raw \<and> raw \<noteq> [] \<and> length raw \<le> MAX_SNAPSHOT_BYTES)"
  by (auto simp: read_limited_def split: option.splits)

text \<open>A canonical text has no carriage return, so the translation does not change it.\<close>

lemma universal_newlines_id: "CHR 0x0D \<notin> set s \<Longrightarrow> universal_newlines s = s"
  by (induction s rule: universal_newlines.induct) auto

lemma no_return_json_char: "CHR 0x0D \<notin> set (json_char c)"
proof -
  have h: "hex_char n \<noteq> CHR 0x0D" for n
  proof -
    have "hex_char n \<in> set ''0123456789abcdef''" unfolding hex_char_def by (rule nth_mem) simp
    then show ?thesis by auto
  qed
  then show ?thesis by (auto simp: json_char_def h [symmetric])
qed

lemma no_return_json_string: "CHR 0x0D \<notin> set (json_string s)"
  using no_return_json_char by (auto simp: json_string_def)

lemma no_return_int_str: "CHR 0x0D \<notin> set (int_str i)"
proof -
  have "CHR 0x0D \<notin> set (nat_str n)" for n
  proof
    assume "CHR 0x0D \<in> set (nat_str n)"
    then have "is_digit (CHR 0x0D)" by (rule nat_str_digits)
    then show False by (simp add: is_digit_def)
  qed
  then show ?thesis by (simp add: int_str_def)
qed

lemma set_join_comma: "set (join_comma xs) \<subseteq> insert (CHR '','') (\<Union>x\<in>set xs. set x)"
  by (induction xs rule: join_comma.induct) auto

lemma no_return_json_dumps: "CHR 0x0D \<notin> set (json_dumps j)"
proof (induction j)
  case (JList xs)
  then show ?case using set_join_comma [of "map json_dumps xs"] by auto
next
  case (JObj kvs)
  then show ?case
    using set_join_comma [of "map snd (sort_key fst (map (\<lambda>(k, v). (k, json_string k @ '':'' @ json_dumps v)) kvs))"]
      no_return_json_string
    by fastforce
qed (use no_return_json_string no_return_int_str in auto)

lemma snapshot_text_newlines: "universal_newlines (snapshot_text s) = snapshot_text s"
  by (rule universal_newlines_id) (simp add: snapshot_text_def no_return_json_dumps)

lemma snapshot_of_record_valid: "snapshot_of_record j = Inr s \<Longrightarrow> RecoverySnapshot_post_init s = Inr ()"
  by (auto simp: snapshot_of_record_def Let_def bind_r_eq_Inr construct_eq_Inr split: option.splits if_splits)

lemma load_recovery_snapshot_Inr:
  assumes "load_recovery_snapshot target = Inr s"
  obtains content where "target = Some content" "universal_newlines content = snapshot_text s" "content \<noteq> []"
    "length content \<le> MAX_SNAPSHOT_BYTES" "RecoverySnapshot_post_init s = Inr ()"
proof -
  obtain x where t: "target = Some x" "x \<noteq> []" "length x \<le> MAX_SNAPSHOT_BYTES" "snapshot_from_text (universal_newlines x) = Inr s"
    using assms by (auto simp: load_recovery_snapshot_def bind_r_eq_Inr read_limited_Inr)
  obtain j where "snapshot_of_record j = Inr s" "universal_newlines x = snapshot_text s"
    using t(4) by (auto simp: snapshot_from_text_def Let_def bind_r_eq_Inr split: option.splits if_splits)
  then show thesis using that t snapshot_of_record_valid by auto
qed

lemma prefix_intents_True:
  "prefix_intents rows js = Inr True \<Longrightarrow> \<forall>j\<in>set js. \<exists>row\<in>set rows. json_eq (intent_as_record row) j"
proof (induction js)
  case (Cons j js)
  then obtain row where "select_row ir_authorization_sha256 (the (json_get_str ''authorization_sha256'' j)) rows = Some row"
    "json_eq (intent_as_record row) j" "prefix_intents rows js = Inr True"
    by (auto simp: bind_r_eq_Inr construct_eq_Inr split: option.splits if_splits)
  then show ?case using Cons.IH select_row_Some by fastforce
qed simp

text \<open>What the check of a snapshot against a database establishes.\<close>

definition anchored_in :: "RecoverySnapshot \<Rightarrow> ExecutionDatabase \<Rightarrow> bool" where
  "anchored_in s db \<longleftrightarrow> (\<forall>record\<in>set (rs_intent_records s). \<exists>row\<in>set (db_intents db). json_eq (intent_as_record row) record)
     \<and> list_all (prefix_order_anchor db) (rs_order_anchors s) \<and> list_all (prefix_fill_anchor db) (rs_fill_anchors s)"

lemma prefix_counts_Some:
  assumes "prefix_counts path s = Inr (Some counts)"
  obtains f where "path = Some f" "anchored_in s (ef_database f)"
    "counts = \<lparr> tc_intents = int (length (db_intents (ef_database f))), tc_orders = int (length (db_order_states (ef_database f))),
       tc_order_events = int (length (db_order_events (ef_database f))), tc_fills = int (length (db_fill_events (ef_database f))) \<rparr>"
proof -
  obtain f b where f: "path = Some f" "prefix_intents (db_intents (ef_database f)) (rs_intent_records s) = Inr b" "b"
    "list_all (prefix_order_anchor (ef_database f)) (rs_order_anchors s)" "list_all (prefix_fill_anchor (ef_database f)) (rs_fill_anchors s)"
    "counts = \<lparr> tc_intents = int (length (db_intents (ef_database f))), tc_orders = int (length (db_order_states (ef_database f))),
       tc_order_events = int (length (db_order_events (ef_database f))), tc_fills = int (length (db_fill_events (ef_database f))) \<rparr>"
    using assms by (auto simp: prefix_counts_def Let_def bind_r_eq_Inr split: option.splits if_splits)
  then show thesis using that prefix_intents_True by (simp add: anchored_in_def)
qed

lemma recover_with_ready:
  assumes "recover_with_result path spec policy s = Inr r" "rr_ready r"
  obtains f source where "path = Some f" "anchored_in s (ef_database f)" "reconcile_startup path spec = Inr source" "rp_ready source"
    "rr_reconciliation_sha256 r = Some (reconciliation_sha256 source)"
    "rs_policy_sha256 s = policy_sha256 policy" "rs_spec_sha256 s = spec_sha256 spec"
    "rr_tail_intents r = int (length (db_intents (ef_database f))) - rs_intent_count s"
    "rr_tail_order_events r = int (length (db_order_events (ef_database f))) - rs_order_event_count s"
    "rr_tail_fills r = int (length (db_fill_events (ef_database f))) - rs_fill_count s"
    "rr_code r = (if rr_tail_intents r = 0 \<and> rr_tail_order_events r = 0 \<and> rr_tail_fills r = 0 then RC_MATCH else TAIL_REPLAYED)"
    "0 \<le> rr_tail_intents r" "0 \<le> rr_tail_order_events r" "0 \<le> rr_tail_fills r"
proof -
  have ps: "rs_policy_sha256 s = policy_sha256 policy" "rs_spec_sha256 s = spec_sha256 spec"
    using assms by (auto simp: recover_with_result_def recover_counts_def Let_def dest: recovery_report_Inr split: if_splits)
  obtain c where c: "prefix_counts path s = Inr (Some c)"
    using assms ps by (auto simp: recover_with_result_def recover_counts_def Let_def bind_r_eq_Inr dest: recovery_report_Inr split: option.splits)
  obtain f where f: "path = Some f" "anchored_in s (ef_database f)"
    "c = \<lparr> tc_intents = int (length (db_intents (ef_database f))), tc_orders = int (length (db_order_states (ef_database f))),
       tc_order_events = int (length (db_order_events (ef_database f))), tc_fills = int (length (db_fill_events (ef_database f))) \<rparr>"
    by (rule prefix_counts_Some [OF c])
  have n: "\<not> (tc_intents c < rs_intent_count s \<or> tc_orders c < rs_order_count s
      \<or> tc_order_events c < rs_order_event_count s \<or> tc_fills c < rs_fill_count s)"
    using assms ps c by (auto simp: recover_with_result_def recover_counts_def Let_def dest: recovery_report_Inr split: if_splits)
  obtain source where src: "reconcile_startup path spec = Inr source" "rp_ready source"
    using assms ps c n by (auto simp: recover_with_result_def recover_counts_def Let_def bind_r_eq_Inr dest: recovery_report_Inr split: if_splits)
  let ?ti = "tc_intents c - rs_intent_count s" and ?te = "tc_order_events c - rs_order_event_count s"
    and ?tf = "tc_fills c - rs_fill_count s"
  have "recovery_report True (if ?ti \<noteq> 0 \<or> ?te \<noteq> 0 \<or> ?tf \<noteq> 0 then TAIL_REPLAYED else RC_MATCH)
      (Some (reconciliation_sha256 source)) (Some (snapshot_sha256 s)) (?ti, ?te, ?tf) None = Inr r"
    using assms(1) ps c n src by (simp add: recover_with_result_def recover_counts_def Let_def)
  note R = recovery_report_Inr [OF this]
  show thesis using R n by (intro that [OF f(1,2) src R(3) ps]) (auto simp: f(3))
qed

lemma load_stored:
  assumes "snapshot_ok s" "RecoverySnapshot_post_init s = Inr ()"
  shows "load_recovery_snapshot (Some (snapshot_text s)) =
    (if MAX_SNAPSHOT_BYTES < length (snapshot_text s) then Inl (RecoverySnapshotError ''Snapshot size is invalid'')
     else Inr (stored_snapshot s))"
  using snapshot_roundtrip_text [OF assms] by (simp add: load_recovery_snapshot_def read_limited_def snapshot_text_newlines) (simp add: snapshot_text_def)

lemma recover_later:
  assumes inv: "durable_inv spec db" "durable_inv spec (ef_database f)" and g: "grows db (ef_database f)"
    and sch: "require_schema f = Inr ()"
    and st: "list_all (\<lambda>s. valid_order_state s \<and> state_row s \<in> set (db_order_states db)) states"
      "length states = length (db_order_states db)"
    and src: "reconcile_startup (Some f) spec = Inr source"
    and s: "s = snapshot_for spec policy report db states"
  shows "\<exists>r. recover_with_result (Some f) spec policy (stored_snapshot s) = Inr r \<and> rr_ready r = rp_ready source
    \<and> rr_code r = (if \<not> rp_ready source then JOURNAL_RECONCILIATION_FAILED
        else if length (db_intents (ef_database f)) = length (db_intents db)
          \<and> length (db_order_events (ef_database f)) = length (db_order_events db)
          \<and> length (db_fill_events (ef_database f)) = length (db_fill_events db) then RC_MATCH else TAIL_REPLAYED)
    \<and> (rr_ready r \<longrightarrow> rr_tail_intents r = int (length (db_intents (ef_database f))) - int (length (db_intents db))
        \<and> rr_tail_order_events r = int (length (db_order_events (ef_database f))) - int (length (db_order_events db))
        \<and> rr_tail_fills r = int (length (db_fill_events (ef_database f))) - int (length (db_fill_events db)))"
proof -
  let ?db = "ef_database f"
  have n: "rs_intent_count (stored_snapshot s) = int (length (db_intents db))"
    "rs_order_count (stored_snapshot s) = int (length (db_order_states db))"
    "rs_order_event_count (stored_snapshot s) = int (length (db_order_events db))"
    "rs_fill_count (stored_snapshot s) = int (length (db_fill_events db))"
    "rs_policy_sha256 (stored_snapshot s) = policy_sha256 policy" "rs_spec_sha256 (stored_snapshot s) = spec_sha256 spec"
    by (simp_all add: rs_intent_count_def rs_order_count_def rs_fill_count_def stored_snapshot_fields s snapshot_for_def st(2))
  have le: "length (db_intents db) \<le> length (db_intents ?db)" "length (db_order_states db) \<le> length (db_order_states ?db)"
    "length (db_order_events db) \<le> length (db_order_events ?db)" "length (db_fill_events db) \<le> length (db_fill_events ?db)"
    using g by (auto simp: grows_def dest: prefix_length_le)
  have d: "valid_digest (snapshot_sha256 s)" "valid_digest (reconciliation_sha256 source)"
    by (simp_all add: snapshot_sha256_def reconciliation_sha256_def)
  show ?thesis
    using le d validate_later [OF inv g sch st(1), of policy report] src
    unfolding recover_with_result_def recover_counts_def s [symmetric] Let_def n
    by (auto simp: recovery_report_def construct_def RecoveryReport_post_init_def)
qed

text \<open>
  An invalid row of an anchored intent is no report: the check of the snapshot lets the error of
  the journal through.
\<close>

lemma recovery_raises_on_invalid_intent:
  assumes "rf_pending files = None" "load_recovery_snapshot (rf_snapshot files) = Inr s"
    and "rs_policy_sha256 s = policy_sha256 policy" "rs_spec_sha256 s = spec_sha256 spec"
    and "rf_database files = Some f" "''local_paper_intents'' \<in> set (ef_tables f)" "rs_intent_records s = record # records"
    and "select_row ir_authorization_sha256 (the (json_get_str ''authorization_sha256'' record)) (db_intents (ef_database f)) = Some row"
    and "LocalPaperIntentRecord_post_init row = Inl e"
  shows "recovery_outcome files spec policy = Inl e"
  using assms by (auto simp: recovery_outcome_eq recover_with_result_def prefix_counts_def construct_def
      elim!: load_recovery_snapshot_Inr)

lemma recovery_outcome_ready:
  assumes "recovery_outcome files spec policy = Inr r" "rr_ready r"
  shows "rf_pending files = None"
    "\<exists>source. reconcile_startup (rf_database files) spec = Inr source \<and> rp_ready source
       \<and> rr_reconciliation_sha256 r = Some (reconciliation_sha256 source)"
    "rf_snapshot files = None \<or> (\<exists>s. load_recovery_snapshot (rf_snapshot files) = Inr s
       \<and> recover_with_result (rf_database files) spec policy s = Inr r)"
proof -
  show p: "rf_pending files = None"
    using assms by (auto simp: recovery_outcome_eq dest: recovery_report_Inr split: if_splits sum.splits)
  show o: "rf_snapshot files = None \<or> (\<exists>s. load_recovery_snapshot (rf_snapshot files) = Inr s
       \<and> recover_with_result (rf_database files) spec policy s = Inr r)"
    using assms p by (auto simp: recovery_outcome_eq dest: recovery_report_Inr split: if_splits sum.splits)
  show "\<exists>source. reconcile_startup (rf_database files) spec = Inr source \<and> rp_ready source
       \<and> rr_reconciliation_sha256 r = Some (reconciliation_sha256 source)"
    using o
  proof
    assume "rf_snapshot files = None"
    then show ?thesis
      using assms p by (auto simp: recovery_outcome_eq bind_r_eq_Inr dest: recovery_report_Inr split: if_splits)
  next
    assume "\<exists>s. load_recovery_snapshot (rf_snapshot files) = Inr s \<and> recover_with_result (rf_database files) spec policy s = Inr r"
    then show ?thesis by (meson recover_with_ready assms(2))
  qed
qed

section \<open>Two ways around the written files\<close>

text \<open>A snapshot whose final newline became CR LF is read as the canonical one.\<close>

lemma universal_newlines_crlf:
  "CHR 0x0D \<notin> set s \<Longrightarrow> universal_newlines (s @ [CHR 0x0D, CHR 0x0A]) = s @ [CHR 0x0A]"
  by (induction s rule: universal_newlines.induct) auto

lemma crlf_snapshot_accepted:
  assumes "snapshot_ok s" "RecoverySnapshot_post_init s = Inr ()" "length (snapshot_text s) < MAX_SNAPSHOT_BYTES"
  shows "load_recovery_snapshot (Some (json_dumps (snapshot_as_record s) @ [CHR 0x0D, CHR 0x0A])) = Inr (stored_snapshot s)"
proof -
  have "universal_newlines (json_dumps (snapshot_as_record s) @ [CHR 0x0D, CHR 0x0A]) = snapshot_text s"
    by (simp add: universal_newlines_crlf no_return_json_dumps snapshot_text_def)
  then show ?thesis
    using snapshot_roundtrip_text [OF assms(1,2)] assms(3)
    by (simp add: load_recovery_snapshot_def read_limited_def) (simp add: snapshot_text_def)
qed

text \<open>A recovery without a database leaves an empty one, when the snapshot belongs to the policy and specification.\<close>

lemma missing_database_created:
  assumes "rf_database files = None" "rf_creatable files" "recovery_connects spec policy files"
  shows "fst (recover_startup spec policy files) = files\<lparr> rf_database := Some new_database_file \<rparr>
    \<and> (\<exists>r. snd (recover_startup spec policy files) = Inr r \<and> rr_code r = SNAPSHOT_PREFIX_MISMATCH)"
proof -
  obtain s where s: "load_recovery_snapshot (rf_snapshot files) = Inr s" "rs_policy_sha256 s = policy_sha256 policy"
    "rs_spec_sha256 s = spec_sha256 spec" "rf_pending files = None" "\<not> rf_snapshot files = None"
    using assms(3) by (auto simp: recovery_connects_def split: sum.splits)
  have "valid_digest (snapshot_sha256 s)" by (simp add: snapshot_sha256_def)
  then have "\<exists>r. recovery_outcome files spec policy = Inr r \<and> rr_code r = SNAPSHOT_PREFIX_MISMATCH"
    unfolding recovery_outcome_eq s(1) sum.case if_not_P [OF s(5)]
    using s(2-4) by (simp add: recover_with_result_def recover_counts_def assms(1) recovery_report_def
        construct_def RecoveryReport_post_init_def)
  then show ?thesis using assms by (simp add: recover_startup_eq recovered_files_def connect_database_def)
qed

text \<open>A recovery that reports READY has read an existing database and changed nothing.\<close>

lemma recover_startup_ready:
  assumes "recover_startup spec policy files = (files', Inr r)" "rr_ready r"
  shows "files' = files" "rf_pending files = None"
    "\<exists>source. reconcile_startup (rf_database files) spec = Inr source \<and> rp_ready source
       \<and> rr_reconciliation_sha256 r = Some (reconciliation_sha256 source)"
proof -
  have out: "recovery_outcome files spec policy = Inr r" and f': "files' = recovered_files spec policy files"
    using assms(1) by (simp_all add: recover_startup_eq)
  note R = recovery_outcome_ready [OF out assms(2)]
  have "rf_snapshot files = None \<or> rf_database files \<noteq> None"
    using R(3) recover_with_ready [OF _ assms(2)] by blast
  then show "files' = files"
    unfolding f' by (auto simp: recovered_files_def recovery_connects_def connect_database_def)
  show "rf_pending files = None" by (rule R(1))
  show "\<exists>source. reconcile_startup (rf_database files) spec = Inr source \<and> rp_ready source
       \<and> rr_reconciliation_sha256 r = Some (reconciliation_sha256 source)"
    by (rule R(2))
qed

section \<open>Properties\<close>

text \<open>C9. Recovery is never wrongly READY: whatever the database, the snapshot and the pending file contain, a
READY report means that no commit is pending and that the database itself has been reconciled, and no file was
changed or created; and when there is a snapshot, its text after the newline translation of the read is the
canonical text of a valid snapshot of the same policy and specification, each of its intents, orders and
fills is still in the database, and the tail counts are exact.\<close>

theorem recovery_ready_sound:
  assumes "recover_startup spec policy files = (files', Inr r)" and "rr_ready r"
  shows "files' = files \<and> rf_pending files = None
    \<and> (\<exists>source. reconcile_startup (rf_database files) spec = Inr source \<and> rp_ready source
        \<and> rr_reconciliation_sha256 r = Some (reconciliation_sha256 source))
    \<and> (case rf_snapshot files of
         None \<Rightarrow> rr_code r = JOURNAL_REBUILD_READY
       | Some content \<Rightarrow> \<exists>s f. universal_newlines content = snapshot_text s \<and> length content \<le> MAX_SNAPSHOT_BYTES
           \<and> RecoverySnapshot_post_init s = Inr ()
           \<and> rs_policy_sha256 s = policy_sha256 policy \<and> rs_spec_sha256 s = spec_sha256 spec
           \<and> rf_database files = Some f \<and> anchored_in s (ef_database f)
           \<and> 0 \<le> rr_tail_intents r \<and> rr_tail_intents r = int (length (db_intents (ef_database f))) - rs_intent_count s
           \<and> 0 \<le> rr_tail_order_events r
           \<and> rr_tail_order_events r = int (length (db_order_events (ef_database f))) - rs_order_event_count s
           \<and> 0 \<le> rr_tail_fills r \<and> rr_tail_fills r = int (length (db_fill_events (ef_database f))) - rs_fill_count s
           \<and> rr_code r = (if rr_tail_intents r = 0 \<and> rr_tail_order_events r = 0 \<and> rr_tail_fills r = 0
               then RC_MATCH else TAIL_REPLAYED))"
proof -
  have out: "recovery_outcome files spec policy = Inr r" using assms(1) by (simp add: recover_startup_eq)
  note S = recover_startup_ready [OF assms]
  show ?thesis
  proof (cases "rf_snapshot files")
    case None
    then show ?thesis
      using out S by (auto simp: recovery_outcome_eq bind_r_eq_Inr dest: recovery_report_Inr split: if_splits)
  next
    case (Some content)
    obtain s where l: "load_recovery_snapshot (rf_snapshot files) = Inr s"
      and w: "recover_with_result (rf_database files) spec policy s = Inr r"
      using recovery_outcome_ready(3) [OF out assms(2)] Some by auto
    obtain x where x: "rf_snapshot files = Some x" "universal_newlines x = snapshot_text s"
      "length x \<le> MAX_SNAPSHOT_BYTES" "RecoverySnapshot_post_init s = Inr ()"
      by (rule load_recovery_snapshot_Inr [OF l])
    show ?thesis
      using x S Some by (rule_tac recover_with_ready [OF w assms(2)]) auto
  qed
qed

text \<open>C11. A committed snapshot recovers: after any history of the stores that reconciles, the commit of a
snapshot succeeds and touches only the snapshot file; after any further history, the recovery with that
snapshot always returns a report, which is READY exactly when the database reconciles, with MATCH when
nothing was written in between and with the exact number of new rows otherwise. A snapshot of more than
eight megabytes, which the commit does not refuse, is reported as corrupt.\<close>

theorem recovery_after_history:
  assumes "valid_BacktestSpec spec" and "list_all (durable_admissible spec) before" and "list_all (durable_admissible spec) after"
    and "ef_database f = foldl (\<lambda>db i. fst (durable_step spec i db)) empty_database before"
    and "f' = f\<lparr> ef_database := foldl (\<lambda>db i. fst (durable_step spec i db)) (ef_database f) after \<rparr>"
    and "files = \<lparr> rf_database = Some f, rf_snapshot = None, rf_pending = None, rf_creatable = c \<rparr>"
    and "reconcile_startup (Some f) spec = Inr report" and "rp_ready report"
  shows "\<exists>s source r. create_recovery_snapshot Committed spec policy files = (files\<lparr> rf_snapshot := Some (snapshot_text s) \<rparr>, Inr s)
    \<and> rs_intent_count s = int (length (db_intents (ef_database f))) \<and> rs_order_count s = int (length (db_order_states (ef_database f)))
    \<and> reconcile_startup (Some f') spec = Inr source
    \<and> recover_startup spec policy \<lparr> rf_database = Some f', rf_snapshot = Some (snapshot_text s), rf_pending = None, rf_creatable = c \<rparr>
      = (\<lparr> rf_database = Some f', rf_snapshot = Some (snapshot_text s), rf_pending = None, rf_creatable = c \<rparr>, Inr r)
    \<and> rr_code r = (if MAX_SNAPSHOT_BYTES < length (snapshot_text s) then SNAPSHOT_CORRUPT
        else if \<not> rp_ready source then JOURNAL_RECONCILIATION_FAILED
        else if length (db_intents (ef_database f')) = length (db_intents (ef_database f))
          \<and> length (db_order_events (ef_database f')) = length (db_order_events (ef_database f))
          \<and> length (db_fill_events (ef_database f')) = length (db_fill_events (ef_database f)) then RC_MATCH else TAIL_REPLAYED)
    \<and> rr_ready r = (rp_ready source \<and> length (snapshot_text s) \<le> MAX_SNAPSHOT_BYTES)
    \<and> (rr_ready r \<longrightarrow> rr_tail_intents r = int (length (db_intents (ef_database f'))) - int (length (db_intents (ef_database f)))
        \<and> rr_tail_order_events r = int (length (db_order_events (ef_database f'))) - int (length (db_order_events (ef_database f)))
        \<and> rr_tail_fills r = int (length (db_fill_events (ef_database f'))) - int (length (db_fill_events (ef_database f))))"
proof -
  let ?db = "ef_database f"
  have inv: "durable_inv spec ?db"
    using durable.drive_inv [OF durable_empty [OF assms(1)] assms(2)] by (simp add: durable.drive_def assms(4))
  have db': "ef_database f' = durable.drive spec after ?db" by (simp add: assms(5) durable.drive_def)
  have inv': "durable_inv spec (ef_database f')" unfolding db' by (rule durable.drive_inv [OF inv assms(3)])
  have g: "grows ?db (ef_database f')" unfolding db' by (rule durable_drive_grows [OF inv assms(3)])
  have "require_schema f = Inr ()" using assms(7,8) by (rule reconcile_ready)
  moreover have "require_schema f' = require_schema f" by (simp add: assms(5) require_schema_def)
  ultimately have sch: "require_schema f' = Inr ()" by simp
  obtain states where b: "build_snapshot (Some f) spec policy = Inr (snapshot_for spec policy report ?db states)"
    "snapshot_ok (snapshot_for spec policy report ?db states)"
    "RecoverySnapshot_post_init (snapshot_for spec policy report ?db states) = Inr ()"
    "length states = length (db_order_states ?db)"
    "list_all (\<lambda>s. valid_order_state s \<and> state_row s \<in> set (db_order_states ?db)) states"
    using build_snapshot_ready [OF inv assms(7,8)] by blast
  define s where "s = snapshot_for spec policy report ?db states"
  have c: "create_recovery_snapshot Committed spec policy files = (files\<lparr> rf_snapshot := Some (snapshot_text s) \<rparr>, Inr s)"
    using b(1) by (simp add: create_recovery_snapshot_def assms(6) s_def act_bind_def act_lift_def act_return_def)
  let ?stored = "\<lparr> rf_database = Some f', rf_snapshot = Some (snapshot_text s), rf_pending = None, rf_creatable = c \<rparr>"
  have same: "recover_startup spec policy ?stored = (?stored, recovery_outcome ?stored spec policy)"
    by (simp add: recover_startup_eq recovered_files_existing)
  have n: "rs_intent_count s = int (length (db_intents ?db))" "rs_order_count s = int (length (db_order_states ?db))"
    by (simp_all add: rs_intent_count_def rs_order_count_def s_def snapshot_for_def b(4))
  obtain source where src: "reconcile_startup (Some f') spec = Inr source"
    using reconcile_durable [OF inv' sch] by blast
  obtain r where r: "recover_with_result (Some f') spec policy (stored_snapshot s) = Inr r" "rr_ready r = rp_ready source"
    "rr_code r = (if \<not> rp_ready source then JOURNAL_RECONCILIATION_FAILED
        else if length (db_intents (ef_database f')) = length (db_intents ?db)
          \<and> length (db_order_events (ef_database f')) = length (db_order_events ?db)
          \<and> length (db_fill_events (ef_database f')) = length (db_fill_events ?db) then RC_MATCH else TAIL_REPLAYED)"
    "rr_ready r \<longrightarrow> rr_tail_intents r = int (length (db_intents (ef_database f'))) - int (length (db_intents ?db))
        \<and> rr_tail_order_events r = int (length (db_order_events (ef_database f'))) - int (length (db_order_events ?db))
        \<and> rr_tail_fills r = int (length (db_fill_events (ef_database f'))) - int (length (db_fill_events ?db))"
    using recover_later [OF inv inv' g sch b(5,4) src s_def] by blast
  show ?thesis
  proof (cases "MAX_SNAPSHOT_BYTES < length (snapshot_text s)")
    case True
    then obtain r' where "recovery_outcome ?stored spec policy = Inr r'"
      "rr_code r' = SNAPSHOT_CORRUPT" "\<not> rr_ready r'"
      using load_stored [OF b(2,3)]
      by (simp add: recovery_outcome_eq s_def recovery_report_def construct_def RecoveryReport_post_init_def)
    then show ?thesis using same c n src True by (intro exI [of _ s] exI [of _ source] exI [of _ r']) simp
  next
    case False
    then have "recovery_outcome ?stored spec policy = Inr r"
      using load_stored [OF b(2,3)] r(1) by (simp add: recovery_outcome_eq s_def)
    then show ?thesis using same c n src False r(2-4) by (intro exI [of _ s] exI [of _ source] exI [of _ r]) simp
  qed
qed

text \<open>C34. An interrupted commit is recoverable and blocks everything until it is confirmed: when the commit fails
and leaves a pending file of legal size, the recovery reports AMBIGUOUS_COMMIT with a confirmation digest
and is not READY, another commit is refused, a confirmation with any other digest is refused and
changes nothing, and the confirmation with this digest restores exactly the files from before the commit.\<close>

theorem interrupted_commit_discarded:
  assumes "create_recovery_snapshot outcome spec policy files = (files', Inl e)"
    and "rf_pending files = None" and "rf_pending files' = Some left" and "length left \<le> MAX_SNAPSHOT_BYTES"
  shows "\<exists>r d. recover_startup spec policy files' = (files', Inr r) \<and> \<not> rr_ready r \<and> rr_code r = AMBIGUOUS_COMMIT
    \<and> rr_manual_confirmation_sha256 r = Some d \<and> confirm_pending_snapshot d files' = (files, Inr d)
    \<and> (\<forall>d'. d' = d \<or> (\<exists>x. confirm_pending_snapshot d' files' = (files', Inl x)))
    \<and> (\<forall>again. \<exists>x. create_recovery_snapshot again spec policy files' = (files', Inl x))"
proof -
  obtain s where b: "build_snapshot (rf_database files) spec policy = Inr s" "rf_snapshot files = None"
    and f': "files' = files\<lparr> rf_pending := Some left \<rparr>"
    using assms(1-3)
    by (auto simp: create_recovery_snapshot_def act_bind_def act_lift_def act_return_def act_raise_def Let_def
        split: sum.splits if_splits commit.splits)
  have files: "files'\<lparr> rf_pending := None \<rparr> = files" using assms(2) by (simp add: f')
  define d where "d = py_digest (JObj
            [(''schema_version'', JInt 1), (''action'', JStr ''DISCARD_PENDING_ONLY''),
             (''pending_sha256'', JStr (sha256_hexdigest left)),
             (''final_sha256'', j_opt (\<lambda>t. JStr (sha256_hexdigest t)) (rf_snapshot files'))])"
  have pc: "pending_confirmation files' = Inr d"
    using assms(4) b(2) by (simp add: pending_confirmation_def f' d_def)
  have v: "valid_digest d" by (simp add: d_def)
  have "confirm_pending_snapshot d' files' = (if d' = d then (files, Inr d) else (files', snd (confirm_pending_snapshot d' files')))
      \<and> (d' \<noteq> d \<longrightarrow> (\<exists>x. snd (confirm_pending_snapshot d' files') = Inl x))" for d'
    using v files by (simp add: confirm_pending_snapshot_def pc act_bind_def act_lift_def act_return_def act_raise_def)
  then have cf: "confirm_pending_snapshot d files' = (files, Inr d)"
    "d' = d \<or> (\<exists>x. confirm_pending_snapshot d' files' = (files', Inl x))" for d'
    by (metis (no_types, lifting))+
  have "\<exists>x. create_recovery_snapshot again spec policy files' = (files', Inl x)" for again
    using b(1) by (simp add: create_recovery_snapshot_def f' act_bind_def act_lift_def act_raise_def)
  moreover obtain r where "recover_startup spec policy files' = (files', Inr r)" "\<not> rr_ready r" "rr_code r = AMBIGUOUS_COMMIT"
    "rr_manual_confirmation_sha256 r = Some d"
    using pc v by (simp add: recover_startup_def act_lift_def assms(3) recovery_report_def construct_def RecoveryReport_post_init_def)
  ultimately show ?thesis using cf by blast
qed

section \<open>Witnesses\<close>

lemma length_digest: "valid_digest d \<Longrightarrow> length (json_string d) \<le> 400"
  using length_json_string [of d] by (simp add: valid_digest_def)

text \<open>The empty database with its snapshot, and the database after an accepted intent got its order.\<close>

definition example_files :: RecoveryFiles where
  "example_files = \<lparr> rf_database = Some (example_file empty_database), rf_snapshot = None, rf_pending = None, rf_creatable = True \<rparr>"

lemma example_empty_ready:
  "\<exists>r. reconcile_startup (Some (example_file empty_database)) example_spec = Inr r \<and> rp_ready r"
proof -
  have "durable_inv example_spec (ef_database (example_file empty_database))"
    using durable_empty [OF example_spec_valid] by (simp add: example_file_def)
  from reconcile_durable [OF this example_schema] show ?thesis
    by (auto simp: example_file_def all_ordered_def empty_database_def)
qed

lemma example_ordered:
  "store_step (Advance example_create) (empty_database\<lparr> db_intents := [example_intent] \<rparr>) =
     (empty_database\<lparr> db_intents := [example_intent], db_order_events := [event_row example_create],
        db_order_states := [state_row example_pending] \<rparr>, Inr ())"
proof -
  have g: "order_get_intent (oe_authorization_sha256 example_create) (empty_database\<lparr> db_intents := [example_intent] \<rparr>)
      = Inr example_intent"
    using example_intent_valid by (simp add: order_get_intent_Inr select_row_def example_create_def)
  have c: "oe_authorization_sha256 example_create = ir_authorization_sha256 example_intent"
    "os_authorization_sha256 example_pending = ir_authorization_sha256 example_intent"
    by (simp_all add: example_create_def example_pending_def)
  show ?thesis
    using apply_local_order_event_ok [OF example_order_run(1)] g
    by (simp add: act_bind_def order_apply_def with_rollback_def order_transaction_def insert_event_def write_state_def
        example_create_fits insert_order_event_def insert_order_state_def insert_row_def has_intent_def optional_state_def select_row_def
        empty_database_def c)
qed

lemma example_history:
  "foldl (\<lambda>db i. fst (durable_step example_spec i db)) empty_database
     [Store (Submit example_execution), Store (Advance example_create)]
   = empty_database\<lparr> db_intents := [example_intent], db_order_events := [event_row example_create],
        db_order_states := [state_row example_pending] \<rparr>"
  using example_submitted example_ordered by (simp del: store_step.simps)

lemma empty_snapshot_small:
  assumes "rs_intent_records s = []" "rs_order_anchors s = []" "rs_fill_anchors s = []" "rs_order_event_count s = 0"
    and "RecoverySnapshot_post_init s = Inr ()"
  shows "length (snapshot_text s) \<le> MAX_SNAPSHOT_BYTES"
proof -
  have "list_all valid_digest [rs_policy_sha256 s, rs_spec_sha256 s, rs_reconciliation_sha256 s, rs_journal_sha256 s,
      rs_orders_sha256 s, rs_portfolio_sha256 s, snapshot_sha256 s]"
    using assms(5) by (simp add: RecoverySnapshot_post_init_def snapshot_sha256_def split: if_splits)
  then have d: "length (json_string (rs_policy_sha256 s)) \<le> 400" "length (json_string (rs_spec_sha256 s)) \<le> 400"
    "length (json_string (rs_reconciliation_sha256 s)) \<le> 400" "length (json_string (rs_journal_sha256 s)) \<le> 400"
    "length (json_string (rs_orders_sha256 s)) \<le> 400" "length (json_string (rs_portfolio_sha256 s)) \<le> 400"
    "length (json_string (snapshot_sha256 s)) \<le> 400"
    using length_digest by simp_all
  have i: "length (int_str 0) \<le> 400" "length (int_str 1) \<le> 400" by code_simp+
  have "length (json_dumps (snapshot_as_record s)) \<le> 20000"
    using d i length_object_bound [of "snapshot_material s @ [(''snapshot_sha256'', JStr (snapshot_sha256 s))]"]
    unfolding snapshot_as_record_def
    by (simp add: snapshot_material_def assms(1-4) RECOVERY_SNAPSHOT_SCHEMA_VERSION_def del: json_dumps.simps(6))
  then show ?thesis by (simp add: snapshot_text_def MAX_SNAPSHOT_BYTES_def)
qed

lemma create_snapshot_built:
  "create_recovery_snapshot Committed spec policy files = (files\<lparr> rf_snapshot := Some (snapshot_text s) \<rparr>, Inr s)
     \<Longrightarrow> rf_snapshot files = None \<Longrightarrow> build_snapshot (rf_database files) spec policy = Inr s"
  by (auto simp: create_recovery_snapshot_def act_bind_def act_lift_def act_return_def act_raise_def Let_def
      split: sum.splits if_splits)

lemma example_snapshot_small:
  assumes "build_snapshot (Some (example_file empty_database)) example_spec policy = Inr s"
  shows "length (snapshot_text s) \<le> MAX_SNAPSHOT_BYTES"
proof -
  have inv: "durable_inv example_spec (ef_database (example_file empty_database))"
    using durable_empty [OF example_spec_valid] by (simp add: example_file_def)
  obtain report where r: "reconcile_startup (Some (example_file empty_database)) example_spec = Inr report" "rp_ready report"
    using example_empty_ready by blast
  obtain states where "s = snapshot_for example_spec policy report empty_database states" "states = []"
    "RecoverySnapshot_post_init s = Inr ()"
    using build_snapshot_ready [OF inv r, of policy] assms by (auto simp: example_file_def empty_database_def)
  then show ?thesis by (intro empty_snapshot_small) (simp_all add: snapshot_for_def empty_database_def)
qed

theorem recovery_after_history_witness:
  "\<exists>s r. snd (create_recovery_snapshot Committed example_spec default_execution_policy example_files) = Inr s
     \<and> snd (recover_startup example_spec default_execution_policy
          \<lparr> rf_database = Some (example_file (empty_database\<lparr> db_intents := [example_intent],
            db_order_events := [event_row example_create], db_order_states := [state_row example_pending] \<rparr>)),
          rf_snapshot = Some (snapshot_text s), rf_pending = None, rf_creatable = True \<rparr>) = Inr r
     \<and> rr_ready r \<and> rr_code r = TAIL_REPLAYED \<and> rr_tail_intents r = 1 \<and> rr_tail_order_events r = 1 \<and> rr_tail_fills r = 0"
proof -
  let ?db = "empty_database\<lparr> db_intents := [example_intent], db_order_events := [event_row example_create],
     db_order_states := [state_row example_pending] \<rparr>"
  let ?ops = "[Store (Submit example_execution), Store (Advance example_create)]"
  have f: "ef_database (example_file db) = db" "(example_file db)\<lparr> ef_database := db' \<rparr> = example_file db'" for db db'
    by (simp_all add: example_file_def)
  have ad: "list_all (durable_admissible example_spec) ?ops" using example_create_valid by simp
  obtain report where r: "reconcile_startup (Some (example_file empty_database)) example_spec = Inr report" "rp_ready report"
    using example_empty_ready by blast
  have inv: "durable_inv example_spec (ef_database (example_file ?db))"
    using durable.drive_inv [OF durable_empty [OF example_spec_valid] ad] unfolding durable.drive_def example_history f .
  have "os_authorization_sha256 example_pending = ir_authorization_sha256 example_intent" by (simp add: example_pending_def)
  then have all: "all_ordered ?db" by (simp add: all_ordered_def)
  obtain source where src: "reconcile_startup (Some (example_file ?db)) example_spec = Inr source" "rp_ready source"
    using reconcile_durable [OF inv example_schema] all by (auto simp: f empty_database_def)
  have e: "list_all (durable_admissible example_spec) []"
    "ef_database (example_file empty_database) = foldl (\<lambda>db i. fst (durable_step example_spec i db)) empty_database []"
    by (simp_all add: f)
  obtain s source' r where t: "create_recovery_snapshot Committed example_spec default_execution_policy example_files
      = (example_files\<lparr> rf_snapshot := Some (snapshot_text s) \<rparr>, Inr s)"
    "reconcile_startup (Some (example_file ?db)) example_spec = Inr source'"
    "snd (recover_startup example_spec default_execution_policy
       \<lparr> rf_database = Some (example_file ?db), rf_snapshot = Some (snapshot_text s), rf_pending = None, rf_creatable = True \<rparr>) = Inr r"
    "rr_code r = (if MAX_SNAPSHOT_BYTES < length (snapshot_text s) then SNAPSHOT_CORRUPT
        else if \<not> rp_ready source' then JOURNAL_RECONCILIATION_FAILED
        else if length (db_intents ?db) = length (db_intents empty_database)
          \<and> length (db_order_events ?db) = length (db_order_events empty_database)
          \<and> length (db_fill_events ?db) = length (db_fill_events empty_database) then RC_MATCH else TAIL_REPLAYED)"
    "rr_ready r = (rp_ready source' \<and> length (snapshot_text s) \<le> MAX_SNAPSHOT_BYTES)"
    "rr_ready r \<longrightarrow> rr_tail_intents r = int (length (db_intents ?db)) - int (length (db_intents empty_database))
        \<and> rr_tail_order_events r = int (length (db_order_events ?db)) - int (length (db_order_events empty_database))
        \<and> rr_tail_fills r = int (length (db_fill_events ?db)) - int (length (db_fill_events empty_database))"
    using recovery_after_history [OF example_spec_valid e(1) ad e(2) refl example_files_def r, of default_execution_policy]
    unfolding f example_history by fastforce
  have "length (snapshot_text s) \<le> MAX_SNAPSHOT_BYTES"
    using create_snapshot_built [OF t(1)] by (intro example_snapshot_small) (simp_all add: example_files_def)
  then show ?thesis using t src by (intro exI [of _ s] exI [of _ r]) (auto simp: empty_database_def)
qed

theorem recovery_ready_sound_witness:
  "\<exists>r source. recover_startup example_spec default_execution_policy example_files = (example_files, Inr r) \<and> rr_code r = JOURNAL_REBUILD_READY
     \<and> reconcile_startup (rf_database example_files) example_spec = Inr source \<and> rp_ready source"
proof -
  obtain source where s: "reconcile_startup (Some (example_file empty_database)) example_spec = Inr source" "rp_ready source"
    using example_empty_ready by blast
  then obtain r where r: "recover_startup example_spec default_execution_policy example_files = (example_files, Inr r)" "rr_ready r"
    by (simp add: recover_startup_def act_lift_def example_files_def recovery_report_def construct_def RecoveryReport_post_init_def
        reconciliation_sha256_def)
  show ?thesis using recovery_ready_sound [OF r] r(1) by (auto simp: example_files_def)
qed

theorem interrupted_commit_discarded_witness:
  "\<exists>files' e r d. create_recovery_snapshot (Write_Failed (Some ''partial'')) example_spec default_execution_policy example_files
       = (files', Inl e)
     \<and> recover_startup example_spec default_execution_policy files' = (files', Inr r) \<and> rr_code r = AMBIGUOUS_COMMIT
     \<and> confirm_pending_snapshot d files' = (example_files, Inr d)"
proof -
  have inv: "durable_inv example_spec (ef_database (example_file empty_database))"
    using durable_empty [OF example_spec_valid] by (simp add: example_file_def)
  obtain source where s: "reconcile_startup (Some (example_file empty_database)) example_spec = Inr source" "rp_ready source"
    using example_empty_ready by blast
  obtain x where "build_snapshot (Some (example_file empty_database)) example_spec default_execution_policy = Inr x"
    using build_snapshot_ready [OF inv s] by blast
  then obtain e where c: "create_recovery_snapshot (Write_Failed (Some ''partial'')) example_spec default_execution_policy example_files
       = (example_files\<lparr> rf_pending := Some ''partial'' \<rparr>, Inl e)"
    by (simp add: create_recovery_snapshot_def example_files_def act_bind_def act_lift_def act_raise_def)
  have p: "rf_pending example_files = None" by (simp add: example_files_def)
  show ?thesis
    using interrupted_commit_discarded [OF c p, of "''partial''"] c by (auto simp: MAX_SNAPSHOT_BYTES_def)
qed

end
