(* ===== verification/Execution_Runner.thy ===== *)
theory Execution_Runner
  imports Execution_Recovery
begin

text \<open>
  \<^verbatim>\<open>yatl/execution/runner.py\<close>: the local operator commands \<^verbatim>\<open>status\<close>, \<^verbatim>\<open>reconcile\<close> and
  \<^verbatim>\<open>recover\<close> over the three files, their report, its two output formats and the exit code. A
  command is the value that the argument parser returns; parsing the arguments is not modelled.
\<close>

section \<open>Reports\<close>

definition OPERATOR_SCHEMA_VERSION :: int where "OPERATOR_SCHEMA_VERSION = 1"
definition MAX_SPEC_BYTES :: nat where "MAX_SPEC_BYTES = 16 * 1024"
definition MAX_OUTPUT_BYTES :: nat where "MAX_OUTPUT_BYTES = 4 * 1024"
definition EXIT_READY :: int where "EXIT_READY = 0"
definition EXIT_NOT_READY :: int where "EXIT_NOT_READY = 20"
definition EXIT_INVALID :: int where "EXIT_INVALID = 21"
definition EXIT_STORAGE :: int where "EXIT_STORAGE = 22"

definition SPEC_KEYS :: "string list" where
  "SPEC_KEYS =
     [''symbol'', ''start_time_ms'', ''end_time_ms'', ''initial_cash'', ''fee_bps'', ''slippage_bps'', ''seed'', ''paper_only'',
      ''live_master_lock'', ''spot_only'', ''allow_short'', ''allow_leverage'', ''execution_price_policy'']"

datatype OperatorCode =
    OC_READY | OC_NOT_READY | SNAPSHOT_CREATED | SNAPSHOT_PRESENT | PENDING_CONFIRMED | ACTION_REFUSED | INVALID_SPEC
  | INVALID_REQUEST | OC_STORAGE_ERROR

fun OperatorCode_value :: "OperatorCode \<Rightarrow> string" where
  "OperatorCode_value OC_READY = ''READY''"
| "OperatorCode_value OC_NOT_READY = ''NOT_READY''"
| "OperatorCode_value SNAPSHOT_CREATED = ''SNAPSHOT_CREATED''"
| "OperatorCode_value SNAPSHOT_PRESENT = ''SNAPSHOT_PRESENT''"
| "OperatorCode_value PENDING_CONFIRMED = ''PENDING_CONFIRMED''"
| "OperatorCode_value ACTION_REFUSED = ''ACTION_REFUSED''"
| "OperatorCode_value INVALID_SPEC = ''INVALID_SPEC''"
| "OperatorCode_value INVALID_REQUEST = ''INVALID_REQUEST''"
| "OperatorCode_value OC_STORAGE_ERROR = ''STORAGE_ERROR''"

text \<open>An \<^verbatim>\<open>OperatorError\<close> carries a code; the message of the exception is its value.\<close>

definition operator_error :: "OperatorCode \<Rightarrow> py_error" where
  "operator_error c = OperatorError (OperatorCode_value c)"

definition operator_code :: "string \<Rightarrow> OperatorCode option" where
  "operator_code s = find (\<lambda>c. OperatorCode_value c = s)
     [OC_READY, OC_NOT_READY, SNAPSHOT_CREATED, SNAPSHOT_PRESENT, PENDING_CONFIRMED, ACTION_REFUSED, INVALID_SPEC,
      INVALID_REQUEST, OC_STORAGE_ERROR]"

record OperatorReport =
  op_command :: string
  op_ok :: bool
  op_ready :: bool
  op_code :: OperatorCode
  op_source_code :: "string option"
  op_spec_sha256 :: "string option"
  op_reconciliation_sha256 :: "string option"
  op_snapshot_sha256 :: "string option"
  op_confirmation_sha256 :: "string option"
  op_intents :: int
  op_orders :: int
  op_fills :: int
  op_tail_intents :: int
  op_tail_order_events :: int
  op_tail_fills :: int

definition OperatorReport_post_init :: "OperatorReport \<Rightarrow> unit result" where
  "OperatorReport_post_init r =
     (if op_command r \<notin> {''status'', ''reconcile'', ''recover'', ''invalid''} then Inl (operator_error INVALID_REQUEST)
      else if list_ex (\<lambda>d. case d of None \<Rightarrow> False | Some s \<Rightarrow> \<not> valid_digest s)
          [op_spec_sha256 r, op_reconciliation_sha256 r, op_snapshot_sha256 r, op_confirmation_sha256 r]
      then Inl (operator_error INVALID_REQUEST)
      else if list_ex (\<lambda>n. n < 0) [op_intents r, op_orders r, op_fills r, op_tail_intents r, op_tail_order_events r, op_tail_fills r]
      then Inl (operator_error INVALID_REQUEST)
      else Inr ())"

text \<open>A report with the defaults of the optional fields.\<close>

definition operator_report :: "string \<Rightarrow> bool \<Rightarrow> bool \<Rightarrow> OperatorCode \<Rightarrow> OperatorReport" where
  "operator_report command ok ready code =
     \<lparr> op_command = command, op_ok = ok, op_ready = ready, op_code = code, op_source_code = None, op_spec_sha256 = None,
       op_reconciliation_sha256 = None, op_snapshot_sha256 = None, op_confirmation_sha256 = None, op_intents = 0,
       op_orders = 0, op_fills = 0, op_tail_intents = 0, op_tail_order_events = 0, op_tail_fills = 0 \<rparr>"

definition operator_fields :: "OperatorReport \<Rightarrow> (string \<times> json) list" where
  "operator_fields r =
     [(''schema_version'', JInt OPERATOR_SCHEMA_VERSION), (''command'', JStr (op_command r)), (''ok'', JBool (op_ok r)),
      (''ready'', JBool (op_ready r)), (''code'', JStr (OperatorCode_value (op_code r))),
      (''source_code'', j_opt JStr (op_source_code r)), (''spec_sha256'', j_opt JStr (op_spec_sha256 r)),
      (''reconciliation_sha256'', j_opt JStr (op_reconciliation_sha256 r)),
      (''snapshot_sha256'', j_opt JStr (op_snapshot_sha256 r)),
      (''confirmation_sha256'', j_opt JStr (op_confirmation_sha256 r)),
      (''counts'', JObj [(''intents'', JInt (op_intents r)), (''orders'', JInt (op_orders r)), (''fills'', JInt (op_fills r))]),
      (''tail'', JObj [(''intents'', JInt (op_tail_intents r)), (''order_events'', JInt (op_tail_order_events r)),
         (''fills'', JInt (op_tail_fills r))])]"

definition operator_sha256 :: "OperatorReport \<Rightarrow> string" where
  "operator_sha256 r = py_digest (JObj (operator_fields r))"

definition bounded_output :: "string \<Rightarrow> string result" where
  "bounded_output payload =
     (if MAX_OUTPUT_BYTES < length payload then Inl (operator_error OC_STORAGE_ERROR) else Inr payload)"

definition operator_to_json :: "OperatorReport \<Rightarrow> string result" where
  "operator_to_json r = bounded_output (json_dumps (JObj (operator_fields r @ [(''report_sha256'', JStr (operator_sha256 r))])))"

definition text_bool :: "bool \<Rightarrow> string" where
  "text_bool b = (if b then ''true'' else ''false'')"

definition text_or_dash :: "string option \<Rightarrow> string" where
  "text_or_dash s = (case s of None \<Rightarrow> ''-'' | Some t \<Rightarrow> if t = [] then ''-'' else t)"

definition operator_lines :: "OperatorReport \<Rightarrow> (string \<times> string) list" where
  "operator_lines r =
     [(''command'', op_command r), (''ok'', text_bool (op_ok r)), (''ready'', text_bool (op_ready r)),
      (''code'', OperatorCode_value (op_code r)), (''source_code'', text_or_dash (op_source_code r)),
      (''spec_sha256'', text_or_dash (op_spec_sha256 r)),
      (''reconciliation_sha256'', text_or_dash (op_reconciliation_sha256 r)),
      (''snapshot_sha256'', text_or_dash (op_snapshot_sha256 r)),
      (''confirmation_sha256'', text_or_dash (op_confirmation_sha256 r)), (''intents'', int_str (op_intents r)),
      (''orders'', int_str (op_orders r)), (''fills'', int_str (op_fills r)),
      (''tail_intents'', int_str (op_tail_intents r)), (''tail_order_events'', int_str (op_tail_order_events r)),
      (''tail_fills'', int_str (op_tail_fills r)), (''report_sha256'', operator_sha256 r)]"

definition operator_to_text :: "OperatorReport \<Rightarrow> string result" where
  "operator_to_text r = bounded_output (join_lines (map (\<lambda>(key, value). key @ ''='' @ value) (operator_lines r)))"

section \<open>The specification file\<close>

definition json_get_bool :: "string \<Rightarrow> json \<Rightarrow> bool option" where
  "json_get_bool k j = (case json_get k j of Some (JBool b) \<Rightarrow> Some b | _ \<Rightarrow> None)"

text \<open>The payload as a specification, when its fields have the types that the constructor accepts.\<close>

definition spec_fields :: "json \<Rightarrow> BacktestSpec option" where
  "spec_fields j =
     (let str = (\<lambda>k. json_get_str k j); num = (\<lambda>k. json_get_int k j); flag = (\<lambda>k. json_get_bool k j) in
      if None \<in> set (map str [''symbol'', ''initial_cash'', ''fee_bps'', ''slippage_bps'', ''live_master_lock'', ''execution_price_policy''])
         \<or> None \<in> set (map num [''start_time_ms'', ''end_time_ms'', ''seed''])
         \<or> None \<in> set (map flag [''paper_only'', ''spot_only'', ''allow_short'', ''allow_leverage'']) then None
      else Some \<lparr> sp_symbol = the (str ''symbol''), sp_start_time_ms = the (num ''start_time_ms''),
        sp_end_time_ms = the (num ''end_time_ms''), sp_initial_cash = the (str ''initial_cash''),
        sp_fee_bps = the (str ''fee_bps''), sp_slippage_bps = the (str ''slippage_bps''), sp_seed = the (num ''seed''),
        sp_paper_only = the (flag ''paper_only''), sp_live_master_lock = the (str ''live_master_lock''),
        sp_spot_only = the (flag ''spot_only''), sp_allow_short = the (flag ''allow_short''),
        sp_allow_leverage = the (flag ''allow_leverage''),
        sp_execution_price_policy = the (str ''execution_price_policy'') \<rparr>)"

text \<open>The codec \<^verbatim>\<open>utf-8-sig\<close> drops a byte order mark.\<close>

definition without_bom :: "string \<Rightarrow> string" where
  "without_bom raw = (if take 3 raw = [CHR 0xEF, CHR 0xBB, CHR 0xBF] then drop 3 raw else raw)"

text \<open>\<open>None\<close> is a file that cannot be opened.\<close>

definition load_operator_spec :: "string option \<Rightarrow> BacktestSpec result" where
  "load_operator_spec path =
     (let invalid = operator_error INVALID_SPEC in
      case path of
        None \<Rightarrow> Inl invalid
      | Some raw \<Rightarrow>
          if MAX_SPEC_BYTES < length raw then Inl invalid
          else (case json_loads (without_bom raw) of
             None \<Rightarrow> Inl invalid
           | Some payload \<Rightarrow>
               if \<not> has_keys SPEC_KEYS payload then Inl invalid
               else (case spec_fields payload of
                  None \<Rightarrow> Inl invalid
                | Some spec \<Rightarrow> catch_r (construct BacktestSpec_post_init spec) is_value_error invalid)))"

section \<open>The commands\<close>

definition operator_status :: "BacktestSpec \<Rightarrow> (RecoveryFiles, OperatorReport) action" where
  "operator_status spec =
     act_bind (recover_startup spec default_execution_policy) (\<lambda>report.
     act_lift (construct OperatorReport_post_init
       ((operator_report ''status'' True (rr_ready report) (if rr_ready report then OC_READY else OC_NOT_READY))
        \<lparr> op_source_code := Some (RecoveryCode_value (rr_code report)),
          op_reconciliation_sha256 := rr_reconciliation_sha256 report, op_snapshot_sha256 := rr_snapshot_sha256 report,
          op_confirmation_sha256 := rr_manual_confirmation_sha256 report, op_tail_intents := rr_tail_intents report,
          op_tail_order_events := rr_tail_order_events report, op_tail_fills := rr_tail_fills report \<rparr>)))"

definition operator_reconcile :: "ExecutionFile option \<Rightarrow> BacktestSpec \<Rightarrow> OperatorReport result" where
  "operator_reconcile database spec =
     bind_r (reconcile_startup database spec) (\<lambda>report.
     construct OperatorReport_post_init
       ((operator_report ''reconcile'' True (rp_ready report) (if rp_ready report then OC_READY else OC_NOT_READY))
        \<lparr> op_source_code := Some (ReconciliationCode_value (rp_code report)), op_spec_sha256 := rp_spec_sha256 report,
          op_reconciliation_sha256 := Some (reconciliation_sha256 report), op_intents := rp_intent_count report,
          op_orders := rp_order_count report, op_fills := rp_fill_count report \<rparr>))"

definition recover_create :: "commit \<Rightarrow> BacktestSpec \<Rightarrow> RecoveryReport \<Rightarrow> (RecoveryFiles, OperatorReport) action" where
  "recover_create outcome spec before files =
     (if rr_code before = RC_MATCH
      then act_lift (construct OperatorReport_post_init
        ((operator_report ''recover'' True True SNAPSHOT_PRESENT)
         \<lparr> op_source_code := Some (RecoveryCode_value (rr_code before)),
           op_reconciliation_sha256 := rr_reconciliation_sha256 before, op_snapshot_sha256 := rr_snapshot_sha256 before \<rparr>)) files
      else if rr_code before \<noteq> JOURNAL_REBUILD_READY
      then act_lift (construct OperatorReport_post_init
        ((operator_report ''recover'' False (rr_ready before) ACTION_REFUSED)
         \<lparr> op_source_code := Some (RecoveryCode_value (rr_code before)),
           op_reconciliation_sha256 := rr_reconciliation_sha256 before, op_snapshot_sha256 := rr_snapshot_sha256 before,
           op_confirmation_sha256 := rr_manual_confirmation_sha256 before, op_tail_intents := rr_tail_intents before,
           op_tail_order_events := rr_tail_order_events before, op_tail_fills := rr_tail_fills before \<rparr>)) files
      else case create_recovery_snapshot outcome spec default_execution_policy files of
        (files', Inl e) \<Rightarrow> (files', Inl (if is_RecoverySnapshotError e then operator_error OC_STORAGE_ERROR else e))
      | (files', Inr created) \<Rightarrow>
          act_bind (recover_startup spec default_execution_policy) (\<lambda>after. act_lift (
            if \<not> rr_ready after \<or> rr_code after \<noteq> RC_MATCH then Inl (operator_error OC_STORAGE_ERROR)
            else construct OperatorReport_post_init
              ((operator_report ''recover'' True True SNAPSHOT_CREATED)
               \<lparr> op_source_code := Some (RecoveryCode_value (rr_code after)),
                 op_reconciliation_sha256 := rr_reconciliation_sha256 after,
                 op_snapshot_sha256 := Some (snapshot_sha256 created) \<rparr>))) files')"

definition recover_confirm :: "BacktestSpec \<Rightarrow> RecoveryReport \<Rightarrow> string \<Rightarrow> (RecoveryFiles, OperatorReport) action" where
  "recover_confirm spec before confirmation files =
     (if rr_code before \<noteq> AMBIGUOUS_COMMIT \<or> rr_manual_confirmation_sha256 before \<noteq> Some confirmation
      then act_lift (construct OperatorReport_post_init
        ((operator_report ''recover'' False (rr_ready before) ACTION_REFUSED)
         \<lparr> op_source_code := Some (RecoveryCode_value (rr_code before)),
           op_reconciliation_sha256 := rr_reconciliation_sha256 before, op_snapshot_sha256 := rr_snapshot_sha256 before,
           op_confirmation_sha256 := rr_manual_confirmation_sha256 before \<rparr>)) files
      else case confirm_pending_snapshot confirmation files of
        (files', Inl e) \<Rightarrow> (files', Inl (if is_RecoverySnapshotError e then operator_error OC_STORAGE_ERROR else e))
      | (files', Inr _) \<Rightarrow>
          act_bind (recover_startup spec default_execution_policy) (\<lambda>after. act_lift (
            construct OperatorReport_post_init
              ((operator_report ''recover'' True (rr_ready after) PENDING_CONFIRMED)
               \<lparr> op_source_code := Some (RecoveryCode_value (rr_code after)),
                 op_reconciliation_sha256 := rr_reconciliation_sha256 after, op_snapshot_sha256 := rr_snapshot_sha256 after,
                 op_confirmation_sha256 := Some confirmation, op_tail_intents := rr_tail_intents after,
                 op_tail_order_events := rr_tail_order_events after, op_tail_fills := rr_tail_fills after \<rparr>))) files')"

definition operator_recover ::
    "commit \<Rightarrow> BacktestSpec \<Rightarrow> bool \<Rightarrow> string option \<Rightarrow> (RecoveryFiles, OperatorReport) action" where
  "operator_recover outcome spec create_snapshot confirmation_opt files =
     (if (create_snapshot \<and> confirmation_opt \<noteq> None) \<or> (\<not> create_snapshot \<and> confirmation_opt = None)
      then act_raise (operator_error INVALID_REQUEST) files
      else act_bind (recover_startup spec default_execution_policy) (\<lambda>before.
        case confirmation_opt of
          None \<Rightarrow> recover_create outcome spec before
        | Some confirmation \<Rightarrow> recover_confirm spec before confirmation) files)"

definition operator_exit_code :: "OperatorReport \<Rightarrow> int" where
  "operator_exit_code r =
     (if op_ok r \<and> op_ready r then EXIT_READY
      else if op_code r = INVALID_REQUEST \<or> op_code r = INVALID_SPEC then EXIT_INVALID
      else if op_code r = OC_STORAGE_ERROR then EXIT_STORAGE
      else EXIT_NOT_READY)"

datatype operator_args = Status | Reconcile | Recover bool "string option"

fun command_name :: "operator_args \<Rightarrow> string" where
  "command_name Status = ''status''"
| "command_name Reconcile = ''reconcile''"
| "command_name (Recover _ _) = ''recover''"

fun operator_command :: "commit \<Rightarrow> operator_args \<Rightarrow> BacktestSpec \<Rightarrow> (RecoveryFiles, OperatorReport) action" where
  "operator_command outcome Status spec files = operator_status spec files"
| "operator_command outcome Reconcile spec files = act_lift (operator_reconcile (rf_database files) spec) files"
| "operator_command outcome (Recover create confirmation) spec files = operator_recover outcome spec create confirmation files"

text \<open>
  \<^verbatim>\<open>main\<close> with the parsed arguments: the printed text and the exit code. An
  \<^verbatim>\<open>OperatorError\<close> becomes a report with its code (\<open>operator_code\<close> finds the code of every
  \<open>operator_error\<close>); every other exception leaves \<^verbatim>\<open>main\<close>.
\<close>

definition caught_report :: "operator_args \<Rightarrow> OperatorReport result \<Rightarrow> OperatorReport result" where
  "caught_report args res =
     (case res of
        Inl (OperatorError m) \<Rightarrow>
          construct OperatorReport_post_init (operator_report (command_name args) False False (the (operator_code m)))
      | r \<Rightarrow> r)"

definition operator_run ::
    "commit \<Rightarrow> bool \<Rightarrow> operator_args \<Rightarrow> string option \<Rightarrow> (RecoveryFiles, string \<times> int) action" where
  "operator_run outcome json_format args spec_file files =
     (let (files', res) = act_bind (act_lift (load_operator_spec spec_file)) (operator_command outcome args) files
      in (files', bind_r (caught_report args res) (\<lambda>r.
           bind_r (if json_format then operator_to_json r else operator_to_text r) (\<lambda>printed.
           Inr (printed, operator_exit_code r)))))"

text \<open>\<open>None\<close> stands for arguments that the parser rejects.\<close>

definition operator_main ::
    "commit \<Rightarrow> bool \<Rightarrow> operator_args option \<Rightarrow> string option \<Rightarrow> (RecoveryFiles, string \<times> int) action" where
  "operator_main outcome json_format parsed spec_file files =
     (case parsed of
        None \<Rightarrow>
          act_lift (bind_r (construct OperatorReport_post_init (operator_report ''invalid'' False False INVALID_REQUEST)) (\<lambda>r.
            bind_r (operator_to_json r) (\<lambda>printed. Inr (printed, operator_exit_code r)))) files
      | Some args \<Rightarrow> operator_run outcome json_format args spec_file files)"

section \<open>What the commands touch\<close>

text \<open>
  The database is kept: an existing one stays as it is, a missing one at most becomes the empty
  file that \<^verbatim>\<open>sqlite3.connect\<close> creates.
\<close>

definition database_kept :: "RecoveryFiles \<Rightarrow> RecoveryFiles \<Rightarrow> bool" where
  "database_kept files files' \<longleftrightarrow> rf_creatable files' = rf_creatable files
     \<and> (rf_database files' = rf_database files
        \<or> rf_database files = None \<and> rf_creatable files \<and> rf_database files' = Some new_database_file)"

lemma database_kept_refl [simp]: "database_kept files files"
  by (simp add: database_kept_def)

lemma database_kept_trans: "database_kept a b \<Longrightarrow> database_kept b c \<Longrightarrow> database_kept a c"
  by (auto simp: database_kept_def)

lemma create_keeps_database:
  "create_recovery_snapshot outcome spec policy files = (files', res) \<Longrightarrow> database_kept files files'"
  by (auto simp: create_recovery_snapshot_def act_bind_def act_lift_def act_return_def act_raise_def Let_def database_kept_def
      split: sum.splits if_splits commit.splits)

lemma confirm_keeps_database:
  "confirm_pending_snapshot d files = (files', res) \<Longrightarrow> database_kept files files'"
  by (auto simp: confirm_pending_snapshot_def act_bind_def act_lift_def act_return_def act_raise_def database_kept_def
      split: sum.splits if_splits)

lemma recovery_keeps_database:
  assumes "recover_startup spec policy files = (files', res)"
  shows "database_kept files files'" "files' = files\<lparr> rf_database := rf_database files' \<rparr>"
  using assms by (auto simp: recover_startup_eq recovered_files_def connect_database_def database_kept_def split: if_splits)

text \<open>A database that was just created does not reconcile.\<close>

lemma kept_ready:
  assumes "database_kept files files'" "reconcile_startup (rf_database files') spec = Inr source" "rp_ready source"
  shows "rf_database files' = rf_database files"
proof (rule ccontr)
  assume "rf_database files' \<noteq> rf_database files"
  then have "rf_database files' = Some new_database_file" using assms(1) by (simp add: database_kept_def)
  then have "require_schema new_database_file = Inr ()"
    using assms(2,3) by (auto elim: reconcile_ready)
  then show False by (simp add: require_schema_def new_database_file_def required_tables_def)
qed

lemma exit_ready_iff: "operator_exit_code r = EXIT_READY \<longleftrightarrow> op_ok r \<and> op_ready r"
  by (simp add: operator_exit_code_def EXIT_READY_def EXIT_INVALID_def EXIT_STORAGE_def EXIT_NOT_READY_def)

lemma operator_report_sel [simp]:
  "op_ok (operator_report c ok ready code) = ok" "op_ready (operator_report c ok ready code) = ready"
  by (simp_all add: operator_report_def)

lemma recovery_report_ready: "recovery_report a b c d e f = Inr r \<Longrightarrow> rr_ready r = a \<and> rr_code r = b"
  using recovery_report_Inr(1,2) by blast

lemma recover_counts_code:
  assumes "recover_counts spec s path counts = Inr r"
  shows "rr_ready r \<or> rr_code r \<notin> {RC_MATCH, JOURNAL_REBUILD_READY}"
  using assms unfolding recover_counts_def Let_def
  by (auto simp: bind_r_eq_Inr dest!: recovery_report_ready split: if_splits option.splits)

lemma recover_with_code:
  assumes "recover_with_result path spec policy s = Inr r"
  shows "rr_ready r \<or> rr_code r \<notin> {RC_MATCH, JOURNAL_REBUILD_READY}"
  using assms unfolding recover_with_result_def Let_def
  by (auto simp: bind_r_eq_Inr dest!: recovery_report_ready dest: recover_counts_code split: if_splits)

lemma recover_startup_code:
  assumes "recover_startup spec policy files = (files', Inr r)"
  shows "rr_ready r \<or> rr_code r \<notin> {RC_MATCH, JOURNAL_REBUILD_READY}"
proof -
  have "recovery_outcome files spec policy = Inr r" using assms by (simp add: recover_startup_eq)
  then show ?thesis
    using recover_with_code unfolding recovery_outcome_eq
    by (auto simp: bind_r_eq_Inr dest!: recovery_report_ready split: if_splits sum.splits)
qed

text \<open>
  The two recovering commands after their first recovery: the database is kept, and a report
  that is in order and ready rests on a ready reconciliation.
\<close>

definition reconciles :: "BacktestSpec \<Rightarrow> RecoveryFiles \<Rightarrow> bool" where
  "reconciles spec files \<longleftrightarrow> (\<exists>source. reconcile_startup (rf_database files) spec = Inr source \<and> rp_ready source)"

definition sound_run :: "BacktestSpec \<Rightarrow> RecoveryFiles \<Rightarrow> RecoveryFiles \<Rightarrow> OperatorReport result \<Rightarrow> bool" where
  "sound_run spec files files' res \<longleftrightarrow> database_kept files files'
     \<and> (\<forall>r. res = Inr r \<longrightarrow> op_ok r \<longrightarrow> op_ready r \<longrightarrow> reconciles spec files' \<and> rf_pending files' = None)"

lemma ready_reconciles:
  assumes "recover_startup spec policy files = (files', Inr r)" "rr_ready r"
  shows "files' = files \<and> reconciles spec files' \<and> rf_pending files' = None"
  using recover_startup_ready [OF assms] by (auto simp: reconciles_def)

lemma status_sound:
  assumes "operator_status spec files = (files', res)"
  shows "sound_run spec files files' res \<and> files' = files\<lparr> rf_database := rf_database files' \<rparr>"
proof -
  obtain f before where b: "recover_startup spec default_execution_policy files = (f, before)" by fastforce
  note K = recovery_keeps_database [OF b]
  show ?thesis
  proof (cases before)
    case (Inl e)
    then show ?thesis using assms b K by (auto simp: operator_status_def act_bind_def sound_run_def)
  next
    case (Inr report)
    then show ?thesis
      using assms b K ready_reconciles [of spec default_execution_policy files f report]
      by (auto simp: operator_status_def act_bind_def act_lift_def sound_run_def construct_eq_Inr)
  qed
qed

lemma recover_create_sound:
  assumes c: "recover_create outcome spec before files = (files', res)"
    and b: "rr_code before \<in> {RC_MATCH, JOURNAL_REBUILD_READY} \<Longrightarrow> reconciles spec files \<and> rf_pending files = None"
  shows "sound_run spec files files' res"
proof (cases "rr_code before = JOURNAL_REBUILD_READY")
  case False
  then show ?thesis
    using c b by (auto simp: recover_create_def act_lift_def sound_run_def construct_eq_Inr split: if_splits)
next
  case True
  obtain f created where s: "create_recovery_snapshot outcome spec default_execution_policy files = (f, created)" by fastforce
  note K = create_keeps_database [OF s]
  show ?thesis
  proof (cases created)
    case (Inl e)
    then show ?thesis using c s K True by (auto simp: recover_create_def sound_run_def)
  next
    case (Inr snapshot)
    obtain g after where a: "recover_startup spec default_execution_policy f = (g, after)" by fastforce
    note L = database_kept_trans [OF K recovery_keeps_database(1) [OF a]]
    show ?thesis
      using c s True Inr a L ready_reconciles [of spec default_execution_policy f g]
      by (cases after) (auto simp: recover_create_def act_bind_def act_lift_def sound_run_def construct_eq_Inr split: if_splits)
  qed
qed

lemma recover_confirm_sound:
  assumes c: "recover_confirm spec before confirmation files = (files', res)"
  shows "sound_run spec files files' res"
proof -
  obtain f confirmed where s: "confirm_pending_snapshot confirmation files = (f, confirmed)" by fastforce
  note K = confirm_keeps_database [OF s]
  obtain g after where a: "recover_startup spec default_execution_policy f = (g, after)" by fastforce
  note L = database_kept_trans [OF K recovery_keeps_database(1) [OF a]]
  show ?thesis
    using c s a K L ready_reconciles [of spec default_execution_policy f g]
    by (cases confirmed; cases after)
      (auto simp: recover_confirm_def act_bind_def act_lift_def sound_run_def construct_eq_Inr split: if_splits)
qed

lemma recover_sound:
  assumes run: "operator_recover outcome spec create confirmation files = (files', res)"
  shows "sound_run spec files files' res"
proof -
  obtain f before where b: "recover_startup spec default_execution_policy files = (f, before)" by fastforce
  note K = recovery_keeps_database(1) [OF b]
  have lift: "sound_run spec files files' res" if "sound_run spec f files' res"
    using that database_kept_trans [OF K] by (simp add: sound_run_def)
  show ?thesis
  proof (cases before)
    case (Inl e)
    then show ?thesis
      using run b K by (auto simp: operator_recover_def act_bind_def act_raise_def sound_run_def split: if_splits)
  next
    case (Inr report)
    have R: "reconciles spec f \<and> rf_pending f = None" if "rr_code report \<in> {RC_MATCH, JOURNAL_REBUILD_READY}"
      using that b Inr recover_startup_code ready_reconciles by blast
    show ?thesis
      using run b Inr lift recover_create_sound [of outcome spec report f files' res, OF _ R]
        recover_confirm_sound [of spec report _ f files' res]
      by (auto simp: operator_recover_def act_bind_def act_raise_def sound_run_def split: if_splits option.splits)
  qed
qed

text \<open>A report of a command that is in order and ready rests on a ready reconciliation of the same database.\<close>

lemma operator_command_ready:
  assumes "operator_command outcome args spec files = (files', res)"
  shows "database_kept files files'" "args = Reconcile \<Longrightarrow> files' = files"
    "args = Status \<Longrightarrow> files' = files\<lparr> rf_database := rf_database files' \<rparr>"
    and "res = Inr r \<Longrightarrow> op_ok r \<Longrightarrow> op_ready r \<Longrightarrow>
      reconciles spec files' \<and> (args = Reconcile \<or> rf_pending files' = None)"
proof -
  have "sound_run spec files files' res \<or> args = Reconcile \<and> files' = files
      \<and> (\<forall>r. res = Inr r \<longrightarrow> op_ok r \<longrightarrow> op_ready r \<longrightarrow> reconciles spec files)"
    using assms status_sound recover_sound
    by (cases args) (auto simp: operator_reconcile_def act_lift_def bind_r_eq_Inr construct_eq_Inr reconciles_def)
  then show "database_kept files files'"
    "res = Inr r \<Longrightarrow> op_ok r \<Longrightarrow> op_ready r \<Longrightarrow> reconciles spec files' \<and> (args = Reconcile \<or> rf_pending files' = None)"
    by (auto simp: sound_run_def)
  show "args = Reconcile \<Longrightarrow> files' = files" using assms by (auto simp: act_lift_def)
  show "args = Status \<Longrightarrow> files' = files\<lparr> rf_database := rf_database files' \<rparr>" using assms status_sound by auto
qed

lemma load_operator_spec_Inr: "load_operator_spec path = Inr spec \<Longrightarrow> valid_BacktestSpec spec"
  by (auto simp: load_operator_spec_def Let_def construct_eq_Inr valid_BacktestSpec_def split: option.splits if_splits)

lemma caught_report_ok: "caught_report args res = Inr r \<Longrightarrow> op_ok r \<Longrightarrow> res = Inr r"
proof (cases res)
  case (Inl e)
  assume "caught_report args res = Inr r" "op_ok r"
  then show ?thesis
    unfolding Inl by (cases e) (auto simp: caught_report_def construct_eq_Inr)
qed (simp add: caught_report_def)

text \<open>The result of a command is an exit code of zero only for a report that is in order and ready.\<close>

lemma operator_run_zero:
  assumes "operator_run outcome json_format args spec_file files = (files', res)"
  obtains out where "act_bind (act_lift (load_operator_spec spec_file)) (operator_command outcome args) files = (files', out)"
    and "\<And>printed. res = Inr (printed, 0) \<Longrightarrow> \<exists>r. out = Inr r \<and> op_ok r \<and> op_ready r"
proof -
  obtain f out where run: "act_bind (act_lift (load_operator_spec spec_file)) (operator_command outcome args) files = (f, out)"
    by fastforce
  have m: "files' = f" "res = bind_r (caught_report args out) (\<lambda>r.
      bind_r (if json_format then operator_to_json r else operator_to_text r) (\<lambda>printed. Inr (printed, operator_exit_code r)))"
    using assms unfolding operator_run_def run by simp_all
  have "\<exists>r. out = Inr r \<and> op_ok r \<and> op_ready r" if z: "res = Inr (printed, 0)" for printed
  proof -
    obtain r where r: "caught_report args out = Inr r" "operator_exit_code r = 0"
      using z unfolding m(2) by (auto simp: bind_r_eq_Inr)
    then have "op_ok r" "op_ready r" using exit_ready_iff [of r] by (simp_all add: EXIT_READY_def)
    then show ?thesis using caught_report_ok [OF r(1)] by simp
  qed
  then show thesis using that run m(1) by blast
qed

section \<open>Properties\<close>

lemma operator_run_sound:
  assumes "operator_run outcome json_format args spec_file files = (files', res)"
  shows "database_kept files files'" "args = Reconcile \<Longrightarrow> files' = files"
    "args = Status \<Longrightarrow> files' = files\<lparr> rf_database := rf_database files' \<rparr>"
    and "res = Inr (printed, 0) \<Longrightarrow> \<exists>spec source. load_operator_spec spec_file = Inr spec \<and> valid_BacktestSpec spec
          \<and> reconcile_startup (rf_database files) spec = Inr source \<and> rp_ready source
          \<and> rf_database files' = rf_database files \<and> (args = Reconcile \<or> rf_pending files' = None)"
proof -
  obtain out where run: "act_bind (act_lift (load_operator_spec spec_file)) (operator_command outcome args) files = (files', out)"
    and zero: "\<And>printed. res = Inr (printed, 0) \<Longrightarrow> \<exists>r. out = Inr r \<and> op_ok r \<and> op_ready r"
    using operator_run_zero [OF assms] by blast
  have "database_kept files files' \<and> (args = Reconcile \<longrightarrow> files' = files)
    \<and> (args = Status \<longrightarrow> files' = files\<lparr> rf_database := rf_database files' \<rparr>)
    \<and> (res = Inr (printed, 0) \<longrightarrow> (\<exists>spec source. load_operator_spec spec_file = Inr spec \<and> valid_BacktestSpec spec
          \<and> reconcile_startup (rf_database files) spec = Inr source \<and> rp_ready source
          \<and> rf_database files' = rf_database files \<and> (args = Reconcile \<or> rf_pending files' = None)))"
  proof (cases "load_operator_spec spec_file")
    case (Inl e)
    then show ?thesis using run zero by (auto simp: act_bind_def act_lift_def)
  next
    case (Inr spec)
    then have "operator_command outcome args spec files = (files', out)"
      using run by (simp add: act_bind_def act_lift_def)
    note C = operator_command_ready [OF this]
    have "\<exists>source. reconcile_startup (rf_database files) spec = Inr source \<and> rp_ready source
        \<and> rf_database files' = rf_database files \<and> (args = Reconcile \<or> rf_pending files' = None)" if z: "res = Inr (printed, 0)"
    proof -
      obtain r where "out = Inr r" "op_ok r" "op_ready r" using zero [OF z] by blast
      from C(4) [OF this] obtain source where "reconcile_startup (rf_database files') spec = Inr source" "rp_ready source"
        "args = Reconcile \<or> rf_pending files' = None"
        by (auto simp: reconciles_def)
      with kept_ready [OF C(1)] show ?thesis by metis
    qed
    then show ?thesis using C(1-3) Inr load_operator_spec_Inr [OF Inr] by simp
  qed
  then show "database_kept files files'" "args = Reconcile \<Longrightarrow> files' = files"
    "args = Status \<Longrightarrow> files' = files\<lparr> rf_database := rf_database files' \<rparr>"
    "res = Inr (printed, 0) \<Longrightarrow> \<exists>spec source. load_operator_spec spec_file = Inr spec \<and> valid_BacktestSpec spec
          \<and> reconcile_startup (rf_database files) spec = Inr source \<and> rp_ready source
          \<and> rf_database files' = rf_database files \<and> (args = Reconcile \<or> rf_pending files' = None)"
    by simp_all
qed

text \<open>C10. The operator commands are safe: whatever the files contain, no command changes an existing database; a
missing one is at most left as a new file without any table, which the program creates when it may, and which
only status and recover do; rejected arguments and reconcile change no file at all, and status changes neither
the snapshot nor the pending file. The exit code is zero only when the arguments were accepted, the
specification file is valid and the database, which then is unchanged, reconciles as READY with it; for the
commands that look at the snapshot also only when no interrupted commit is left.\<close>

theorem operator_exit_sound:
  assumes "operator_main outcome json_format parsed spec_file files = (files', res)"
  shows "(rf_database files' = rf_database files
      \<or> rf_database files = None \<and> rf_creatable files \<and> rf_database files' = Some new_database_file)
    \<and> (parsed \<in> {None, Some Reconcile} \<longrightarrow> files' = files)
    \<and> (parsed = Some Status \<longrightarrow> rf_snapshot files' = rf_snapshot files \<and> rf_pending files' = rf_pending files)
    \<and> (\<forall>printed. res = Inr (printed, 0) \<longrightarrow> parsed \<noteq> None \<and>
        (\<exists>spec source. load_operator_spec spec_file = Inr spec \<and> valid_BacktestSpec spec
          \<and> reconcile_startup (rf_database files) spec = Inr source \<and> rp_ready source
          \<and> rf_database files' = rf_database files \<and> (parsed = Some Reconcile \<or> rf_pending files' = None)))"
proof (cases parsed)
  case None
  have "r = Inr (operator_report ''invalid'' False False INVALID_REQUEST)"
    if "r = construct OperatorReport_post_init (operator_report ''invalid'' False False INVALID_REQUEST)" for r
    using that by (simp add: construct_def OperatorReport_post_init_def operator_report_def)
  then have "files' = files" "\<nexists>printed. res = Inr (printed, 0)"
    using assms None exit_ready_iff [of "operator_report ''invalid'' False False INVALID_REQUEST"]
    by (auto simp: operator_main_def act_lift_def bind_r_eq_Inr EXIT_READY_def)
  then show ?thesis using None by simp
next
  case (Some args)
  then have "operator_run outcome json_format args spec_file files = (files', res)"
    using assms by (simp add: operator_main_def)
  note R = operator_run_sound [OF this]
  have "rf_snapshot files' = rf_snapshot files \<and> rf_pending files' = rf_pending files" if "args = Status"
  proof -
    have "rf_snapshot (files\<lparr> rf_database := x \<rparr>) = rf_snapshot files"
      "rf_pending (files\<lparr> rf_database := x \<rparr>) = rf_pending files" for x by simp_all
    then show ?thesis using R(3) [OF that] by metis
  qed
  then show ?thesis using R(1,2,4) Some unfolding database_kept_def by auto
qed

section \<open>A witness\<close>

definition spec_payload :: "BacktestSpec \<Rightarrow> json" where
  "spec_payload s = JObj
     [(''symbol'', JStr (sp_symbol s)), (''start_time_ms'', JInt (sp_start_time_ms s)), (''end_time_ms'', JInt (sp_end_time_ms s)),
      (''initial_cash'', JStr (sp_initial_cash s)), (''fee_bps'', JStr (sp_fee_bps s)),
      (''slippage_bps'', JStr (sp_slippage_bps s)), (''seed'', JInt (sp_seed s)), (''paper_only'', JBool (sp_paper_only s)),
      (''live_master_lock'', JStr (sp_live_master_lock s)), (''spot_only'', JBool (sp_spot_only s)),
      (''allow_short'', JBool (sp_allow_short s)), (''allow_leverage'', JBool (sp_allow_leverage s)),
      (''execution_price_policy'', JStr (sp_execution_price_policy s))]"

text \<open>A specification file that the program wrote is read back.\<close>

lemma get_bool_sorted:
  assumes "json_ok j"
  shows "json_get_bool key (json_sorted j) = json_get_bool key j"
proof -
  have s: "(case json_sorted x of JBool v \<Rightarrow> Some v | _ \<Rightarrow> None) = (case x of JBool v \<Rightarrow> Some v | _ \<Rightarrow> None)" for x
    by (cases x) simp_all
  show ?thesis
    unfolding json_get_bool_def get_sorted [OF assms] by (cases "json_get key j") (simp_all add: s)
qed

lemma spec_fields_payload: "spec_fields (spec_payload s) = Some s"
proof -
  have "json_get_str ''symbol'' (spec_payload s) = Some (sp_symbol s)"
    "json_get_int ''start_time_ms'' (spec_payload s) = Some (sp_start_time_ms s)"
    "json_get_int ''end_time_ms'' (spec_payload s) = Some (sp_end_time_ms s)"
    "json_get_str ''initial_cash'' (spec_payload s) = Some (sp_initial_cash s)"
    "json_get_str ''fee_bps'' (spec_payload s) = Some (sp_fee_bps s)"
    "json_get_str ''slippage_bps'' (spec_payload s) = Some (sp_slippage_bps s)"
    "json_get_int ''seed'' (spec_payload s) = Some (sp_seed s)"
    "json_get_bool ''paper_only'' (spec_payload s) = Some (sp_paper_only s)"
    "json_get_str ''live_master_lock'' (spec_payload s) = Some (sp_live_master_lock s)"
    "json_get_bool ''spot_only'' (spec_payload s) = Some (sp_spot_only s)"
    "json_get_bool ''allow_short'' (spec_payload s) = Some (sp_allow_short s)"
    "json_get_bool ''allow_leverage'' (spec_payload s) = Some (sp_allow_leverage s)"
    "json_get_str ''execution_price_policy'' (spec_payload s) = Some (sp_execution_price_policy s)"
    by (simp_all add: json_get_str_def json_get_int_def json_get_bool_def json_get_def spec_payload_def)
  then show ?thesis by (simp add: spec_fields_def)
qed

lemma load_operator_spec_written:
  assumes "valid_BacktestSpec spec" "length (json_dumps (spec_payload spec)) \<le> MAX_SPEC_BYTES"
  shows "load_operator_spec (Some (json_dumps (spec_payload spec))) = Inr spec"
proof -
  have ok: "json_ok (spec_payload spec)" by (simp add: spec_payload_def)
  have k: "has_keys SPEC_KEYS (json_sorted (spec_payload spec))"
    unfolding has_keys_sorted by (simp add: has_keys_def SPEC_KEYS_def spec_payload_def)
  have "spec_fields (json_sorted (spec_payload spec)) = spec_fields (spec_payload spec)"
    unfolding spec_fields_def get_typed_sorted [OF ok] get_bool_sorted [OF ok] ..
  then have f: "spec_fields (json_sorted (spec_payload spec)) = Some spec"
    by (simp only: spec_fields_payload)
  have v: "construct BacktestSpec_post_init spec = Inr spec"
    using assms(1) by (simp add: construct_def valid_BacktestSpec_def)
  have "hd (json_dumps (spec_payload spec)) = CHR ''{''" by (simp add: spec_payload_def)
  then have w: "without_bom (json_dumps (spec_payload spec)) = json_dumps (spec_payload spec)"
    by (cases "json_dumps (spec_payload spec)") (auto simp: without_bom_def)
  show ?thesis
    unfolding load_operator_spec_def Let_def option.case w json_loads_dumps [OF ok] f v
    using assms(2) k by simp
qed

lemma example_spec_file: "load_operator_spec (Some (json_dumps (spec_payload example_spec))) = Inr example_spec"
proof -
  have i: "length (int_str 1704067200000) \<le> 400" "length (int_str 1704153600000) \<le> 400" "length (int_str 0) \<le> 400"
    by (simp_all add: int_str_def ndigits.simps)
  have bound: "length (json_dumps (JObj kvs)) \<le> MAX_SPEC_BYTES"
    if "2 + (\<Sum>(k, v)\<leftarrow>kvs. 6 * length k + 4 + length (json_dumps v)) \<le> MAX_SPEC_BYTES" for kvs
    using that length_object_bound [of kvs] by (rule order_trans [rotated])
  have "length (json_dumps (spec_payload example_spec)) \<le> MAX_SPEC_BYTES"
    unfolding spec_payload_def
    apply (rule bound)
    using i length_json_string [of "sp_symbol example_spec"]
      length_json_string [of "sp_initial_cash example_spec"] length_json_string [of "sp_fee_bps example_spec"]
      length_json_string [of "sp_slippage_bps example_spec"] length_json_string [of "sp_live_master_lock example_spec"]
      length_json_string [of "sp_execution_price_policy example_spec"]
    by (simp add: example_spec_def default_spec_def EXECUTION_PRICE_POLICY_def MAX_SPEC_BYTES_def)
  then show ?thesis by (rule load_operator_spec_written [OF example_spec_valid])
qed

lemma example_operator_reconcile:
  "\<exists>r. operator_reconcile (Some (example_file empty_database)) example_spec = Inr r \<and> op_ok r \<and> op_ready r
     \<and> (\<exists>t. operator_to_json r = Inr t)"
proof -
  obtain report where s: "reconcile_startup (Some (example_file empty_database)) example_spec = Inr report" "rp_ready report"
    using example_empty_ready by blast
  have db: "ef_database (example_file empty_database) = empty_database" by (simp add: example_file_def)
  from s obtain intents jp states op events pp where "require_schema (example_file empty_database) = Inr ()"
    and li: "load_intents empty_database = Inr (intents, jp)" and lo: "load_orders empty_database intents = Inr (states, op)"
    and rp: "recon_portfolio empty_database example_spec intents states = Inr (events, pp)"
    and report: "report = \<lparr> rp_ready = True, rp_code = MATCH, rp_spec_sha256 = Some (spec_sha256 example_spec),
         rp_intent_count = int (length intents), rp_order_count = int (length states),
         rp_fill_count = int (length events), rp_journal_sha256 = Some (canonical_digest jp),
         rp_orders_sha256 = Some (canonical_digest op), rp_portfolio_sha256 = Some (canonical_digest pp) \<rparr>"
    by (rule reconcile_ready [of "example_file empty_database", unfolded db])
  have "intents = []" using load_intents_Inr(1) [OF li] by (simp add: empty_database_def)
  moreover have "states = []" using lo by (auto simp: load_orders_def empty_database_def split: if_splits)
  moreover have "events = []" using recon_portfolio_Inr(4) [OF rp] by (simp add: empty_database_def)
  ultimately have n: "rp_intent_count report = 0" "rp_order_count report = 0" "rp_fill_count report = 0"
    "rp_spec_sha256 report = Some (spec_sha256 example_spec)" "rp_code report = MATCH"
    by (simp_all add: report)
  let ?r = "(operator_report ''reconcile'' True True OC_READY)
        \<lparr> op_source_code := Some ''MATCH'', op_spec_sha256 := Some (spec_sha256 example_spec),
          op_reconciliation_sha256 := Some (reconciliation_sha256 report), op_intents := 0, op_orders := 0, op_fills := 0 \<rparr>"
  have d: "valid_digest (reconciliation_sha256 report)" "valid_digest (operator_sha256 ?r)"
    by (simp_all add: reconciliation_sha256_def operator_sha256_def)
  have "operator_reconcile (Some (example_file empty_database)) example_spec = Inr ?r"
    using s d(1) by (simp add: operator_reconcile_def n construct_def OperatorReport_post_init_def operator_report_def)
  moreover have "\<exists>t. operator_to_json ?r = Inr t"
  proof -
    have i: "length (int_str 0) \<le> 2" "length (int_str 1) \<le> 2" "length (json_string ''MATCH'') = 7"
      "length (json_string ''reconcile'') = 11" "length (json_string ''READY'') = 7"
      by code_simp+
    have c: "length (json_dumps (JObj [(''intents'', JInt 0), (''orders'', JInt 0), (''fills'', JInt 0)])) \<le> 150"
      "length (json_dumps (JObj [(''intents'', JInt 0), (''order_events'', JInt 0), (''fills'', JInt 0)])) \<le> 150"
      by code_simp+
    have g: "length (json_string (spec_sha256 example_spec)) \<le> 400" "length (json_string (reconciliation_sha256 report)) \<le> 400"
      "length (json_string (operator_sha256 ?r)) \<le> 400"
      using length_digest d by simp_all
    have "length (json_dumps (JObj (operator_fields ?r @ [(''report_sha256'', JStr (operator_sha256 ?r))]))) \<le> 4000"
      using length_object_bound [of "operator_fields ?r @ [(''report_sha256'', JStr (operator_sha256 ?r))]"] i c g
      by (simp add: operator_fields_def operator_report_def OPERATOR_SCHEMA_VERSION_def j_opt_def del: json_dumps.simps(6))
    then show ?thesis by (simp add: operator_to_json_def bounded_output_def MAX_OUTPUT_BYTES_def)
  qed
  ultimately show ?thesis by (intro exI [of _ ?r]) simp
qed

theorem operator_exit_sound_witness:
  "\<exists>printed source. operator_main Committed True (Some Reconcile) (Some (json_dumps (spec_payload example_spec))) example_files
       = (example_files, Inr (printed, 0))
     \<and> reconcile_startup (rf_database example_files) example_spec = Inr source \<and> rp_ready source"
proof -
  obtain r t where r: "operator_reconcile (Some (example_file empty_database)) example_spec = Inr r" "op_ok r" "op_ready r"
    "operator_to_json r = Inr t"
    using example_operator_reconcile by blast
  have "rf_database example_files = Some (example_file empty_database)" by (simp add: example_files_def)
  then have m: "operator_main Committed True (Some Reconcile) (Some (json_dumps (spec_payload example_spec))) example_files
       = (example_files, Inr (t, 0))"
    using r by (simp add: operator_main_def operator_run_def caught_report_def example_spec_file act_bind_def act_lift_def operator_exit_code_def EXIT_READY_def)
  show ?thesis using operator_exit_sound [OF m] m example_spec_file by auto
qed

end
