(* ===== verification/Strategy_Registry.thy ===== *)
theory Strategy_Registry
  imports Strategy_Candidates "HOL-Library.Product_Lexorder"
begin

text \<open>
  \<^verbatim>\<open>yatl/strategy/registry.py\<close>: parameter rules, strategy definitions, configurations
  and the registry, with the module-level definitions and configurations of
  \<^verbatim>\<open>trend.py\<close> and \<^verbatim>\<open>breakout.py\<close>. The constructors normalise their fields
  (\<^verbatim>\<open>object.__setattr__\<close> in \<^verbatim>\<open>__post_init__\<close>), so each is a function from the given
  fields to the record that results.
\<close>

section \<open>Parameter values\<close>

text \<open>
  A parameter value is a Python \<^verbatim>\<open>int\<close> or a \<^verbatim>\<open>str\<close>. \<open>parameter_number\<close> is the
  number it stands for; integers are read as Decimals of exponent zero, since both
  sides of every comparison have the same declared kind.
\<close>

datatype pvalue = PInt int | PStr string

definition is_lower :: "char \<Rightarrow> bool" where
  "is_lower c \<longleftrightarrow> c \<in> set ''abcdefghijklmnopqrstuvwxyz''"

definition NAME_PATTERN :: "string \<Rightarrow> bool" where
  "NAME_PATTERN s \<longleftrightarrow>
     (case s of [] \<Rightarrow> False
      | c # t \<Rightarrow> is_lower c \<and> length t \<le> 39
          \<and> list_all (\<lambda>x. is_lower x \<or> is_digit x \<or> x = CHR ''_'') t)"

definition RESERVED :: "string list" where
  "RESERVED = [''quantity'', ''position_size'', ''broker'', ''api_key'', ''api_secret'', ''credential'',
     ''account'', ''order'', ''leverage'', ''paper_only'', ''live_master_lock'',
     ''spot_only'', ''allow_short'', ''allow_leverage'']"

definition parameter_number :: "pvalue \<Rightarrow> string \<Rightarrow> dec result" where
  "parameter_number value kind =
     (case value of
        PInt i \<Rightarrow> if kind = ''integer'' then Inr (dec_of_int i)
          else Inl (RegistryError ''Parameter must match its exact declared numeric type'')
      | PStr s \<Rightarrow> if kind = ''decimal'' \<and> plain_unsigned s then Inr (py_Decimal s)
          else Inl (RegistryError ''Parameter must match its exact declared numeric type''))"

definition canonical_value :: "pvalue \<Rightarrow> string \<Rightarrow> pvalue result" where
  "canonical_value value kind =
     bind_r (parameter_number value kind) (\<lambda>_.
     Inr (case value of PInt i \<Rightarrow> PInt i | PStr s \<Rightarrow> PStr (strip_zeros s)))"

section \<open>Rules\<close>

record ParameterRule =
  pr_name :: string
  pr_kind :: string
  pr_minimum :: pvalue
  pr_maximum :: pvalue

definition ParameterRule_init :: "ParameterRule \<Rightarrow> ParameterRule result" where
  "ParameterRule_init r =
     (if \<not> NAME_PATTERN (pr_name r) \<or> pr_name r \<in> set RESERVED
         \<or> pr_kind r \<notin> {''integer'', ''decimal''}
      then Inl (RegistryError ''Parameter rule identity is invalid'')
      else bind_r (parameter_number (pr_minimum r) (pr_kind r)) (\<lambda>low.
           bind_r (parameter_number (pr_maximum r) (pr_kind r)) (\<lambda>high.
           if \<not> (d_le d_zero low \<and> d_le low high \<and> d_le high (dec_of_int 10000))
           then Inl (RegistryError ''Parameter rule bounds are invalid'')
           else bind_r (canonical_value (pr_minimum r) (pr_kind r)) (\<lambda>lo.
                bind_r (canonical_value (pr_maximum r) (pr_kind r)) (\<lambda>hi.
                Inr (r\<lparr> pr_minimum := lo, pr_maximum := hi \<rparr>))))))"

definition rule_validate :: "ParameterRule \<Rightarrow> pvalue \<Rightarrow> pvalue result" where
  "rule_validate r value =
     bind_r (parameter_number value (pr_kind r)) (\<lambda>number.
     bind_r (parameter_number (pr_minimum r) (pr_kind r)) (\<lambda>low.
     bind_r (parameter_number (pr_maximum r) (pr_kind r)) (\<lambda>high.
     if \<not> (d_le low number \<and> d_le number high)
     then Inl (RegistryError ''Parameter is outside its declared range'')
     else canonical_value value (pr_kind r))))"

section \<open>Definitions\<close>

record StrategyDefinition =
  df_identity :: StrategyIdentity
  df_parameters :: "ParameterRule list"

text \<open>\<^verbatim>\<open>for rule in self.parameters: replace(rule)\<close>: the rebuilt rules are discarded.\<close>

definition StrategyDefinition_init :: "StrategyDefinition \<Rightarrow> StrategyDefinition result" where
  "StrategyDefinition_init d =
     bind_r (catch_r (StrategyIdentity_post_init (df_identity d))
        (\<lambda>e. is_StrategyContractError e \<or> is_value_error e)
        (RegistryError ''Definition identity is invalid'')) (\<lambda>_.
     if 32 < length (df_parameters d)
     then Inl (RegistryError ''Definition rules must be an immutable bounded tuple'')
     else bind_r (map_r ParameterRule_init (df_parameters d)) (\<lambda>_.
       if \<not> distinct (map pr_name (df_parameters d))
       then Inl (RegistryError ''Duplicate parameter name'')
       else Inr (d\<lparr> df_parameters := sort_key pr_name (df_parameters d) \<rparr>)))"

section \<open>Configurations\<close>

record StrategyConfiguration =
  cn_definition :: StrategyDefinition
  cn_values :: "(string \<times> pvalue) list"

definition rule_named :: "StrategyDefinition \<Rightarrow> string \<rightharpoonup> ParameterRule" where
  "rule_named d = map_of (map (\<lambda>r. (pr_name r, r)) (df_parameters d))"

definition validate_pair :: "StrategyDefinition \<Rightarrow> string \<times> pvalue \<Rightarrow> (string \<times> pvalue) result" where
  "validate_pair d p =
     (case rule_named d (fst p) of
        None \<Rightarrow> Inl (RegistryError ''Unknown, duplicate or missing parameter'')
      | Some r \<Rightarrow> bind_r (rule_validate r (snd p)) (\<lambda>v. Inr (fst p, v)))"

definition StrategyConfiguration_init :: "StrategyConfiguration \<Rightarrow> StrategyConfiguration result" where
  "StrategyConfiguration_init c =
     bind_r (StrategyDefinition_init (cn_definition c)) (\<lambda>_.
     if \<not> distinct (map fst (cn_values c))
        \<or> set (map fst (cn_values c)) \<noteq> set (map pr_name (df_parameters (cn_definition c)))
     then Inl (RegistryError ''Unknown, duplicate or missing parameter'')
     else bind_r (map_r (validate_pair (cn_definition c)) (cn_values c)) (\<lambda>vs.
       Inr (c\<lparr> cn_values := sort_key fst vs \<rparr>)))"

fun pvalue_json :: "pvalue \<Rightarrow> json" where
  "pvalue_json (PInt i) = JInt i"
| "pvalue_json (PStr s) = JStr s"

definition configuration_payload :: "StrategyConfiguration \<Rightarrow> json" where
  "configuration_payload c = JObj
     [(''schema_version'', JInt 1),
      (''strategy_id'', JStr (si_strategy_id (df_identity (cn_definition c)))),
      (''strategy_version'', JStr (si_version (df_identity (cn_definition c)))),
      (''rules'', JList (map (\<lambda>r. JObj
         [(''name'', JStr (pr_name r)), (''kind'', JStr (pr_kind r)),
          (''minimum'', pvalue_json (pr_minimum r)), (''maximum'', pvalue_json (pr_maximum r))])
         (df_parameters (cn_definition c)))),
      (''parameters'', JObj (map (\<lambda>(n, v). (n, pvalue_json v)) (cn_values c))),
      (''policy'', JObj [(''paper_only'', JBool True), (''live_master_lock'', JStr ''OFF''),
         (''spot_only'', JBool True), (''allow_short'', JBool False), (''allow_leverage'', JBool False)])]"

definition configuration_to_json :: "StrategyConfiguration \<Rightarrow> string result" where
  "configuration_to_json c =
     bind_r (StrategyConfiguration_init c) (\<lambda>_. Inr (json_dumps (configuration_payload c) @ [CHR 0x0A]))"

definition configuration_sha256 :: "StrategyConfiguration \<Rightarrow> string result" where
  "configuration_sha256 c = bind_r (configuration_to_json c) (\<lambda>t. Inr (sha256_hexdigest t))"

section \<open>The registry\<close>

definition definition_key :: "StrategyDefinition \<Rightarrow> string \<times> string" where
  "definition_key d = (si_strategy_id (df_identity d), si_version (df_identity d))"

fun registry_loop :: "(string \<times> string) list \<Rightarrow> StrategyDefinition list \<Rightarrow> unit result" where
  "registry_loop seen [] = Inr ()"
| "registry_loop seen (d # ds) =
     bind_r (StrategyDefinition_init d) (\<lambda>_.
     if definition_key d \<in> set seen then Inl (RegistryError ''Duplicate strategy ID/version'')
     else registry_loop (definition_key d # seen) ds)"

definition StrategyRegistry_init :: "StrategyDefinition list \<Rightarrow> StrategyDefinition list result" where
  "StrategyRegistry_init ds =
     (if 128 < length ds
      then Inl (RegistryError ''Registry requires an immutable bounded definition tuple'')
      else bind_r (registry_loop [] ds) (\<lambda>_. Inr (sort_key definition_key ds)))"

definition registry_configure ::
    "StrategyDefinition list \<Rightarrow> StrategyIdentity \<Rightarrow> (string \<times> pvalue) list \<Rightarrow> StrategyConfiguration result" where
  "registry_configure ds identity parameters =
     bind_r (StrategyRegistry_init ds) (\<lambda>_.
     case find (\<lambda>d. df_identity d = identity) ds of
       Some d \<Rightarrow> StrategyConfiguration_init \<lparr> cn_definition = d, cn_values = parameters \<rparr>
     | None \<Rightarrow> Inl (RegistryError ''Strategy ID/version is not registered''))"

section \<open>The frozen configurations\<close>

definition configured ::
    "StrategyIdentity \<Rightarrow> (string \<times> string \<times> pvalue \<times> pvalue) list \<Rightarrow> (string \<times> pvalue) list
     \<Rightarrow> StrategyConfiguration result" where
  "configured identity rules parameters =
     bind_r (map_r (\<lambda>(n, k, lo, hi). ParameterRule_init
        \<lparr> pr_name = n, pr_kind = k, pr_minimum = lo, pr_maximum = hi \<rparr>) rules) (\<lambda>rs.
     bind_r (StrategyDefinition_init \<lparr> df_identity = identity, df_parameters = rs \<rparr>) (\<lambda>d.
     bind_r (StrategyRegistry_init [d]) (\<lambda>ds.
     registry_configure ds identity parameters)))"

definition TREND_CONFIGURATION :: "StrategyConfiguration result" where
  "TREND_CONFIGURATION = configured TREND_PULLBACK_IDENTITY
     [(''atr_period'', ''integer'', PInt 2, PInt 100),
      (''primary_sma_period'', ''integer'', PInt 2, PInt 200),
      (''pullback_lookback'', ''integer'', PInt 1, PInt 10),
      (''reward_risk'', ''decimal'', PStr ''1'', PStr ''10''),
      (''stop_atr_fraction'', ''decimal'', PStr ''0'', PStr ''2'')]
     [(''atr_period'', PInt 14), (''primary_sma_period'', PInt 20), (''pullback_lookback'', PInt 3),
      (''reward_risk'', PStr ''2''), (''stop_atr_fraction'', PStr ''0.25'')]"

definition BREAKOUT_CONFIGURATION :: "StrategyConfiguration result" where
  "BREAKOUT_CONFIGURATION = configured BREAKOUT_IDENTITY
     [(''atr_period'', ''integer'', PInt 2, PInt 100),
      (''breakout_lookback'', ''integer'', PInt 2, PInt 200),
      (''maximum_extension_atr'', ''decimal'', PStr ''0'', PStr ''10''),
      (''minimum_close_location'', ''decimal'', PStr ''0'', PStr ''1''),
      (''reward_risk'', ''decimal'', PStr ''1'', PStr ''10''),
      (''stop_atr_fraction'', ''decimal'', PStr ''0'', PStr ''2'')]
     [(''atr_period'', PInt 14), (''breakout_lookback'', PInt 20), (''maximum_extension_atr'', PStr ''1''),
      (''minimum_close_location'', PStr ''0.75''), (''reward_risk'', PStr ''2''),
      (''stop_atr_fraction'', PStr ''0.25'')]"

section \<open>The canonical text of a plain number\<close>

lemma digit_val_inj: "is_digit c \<Longrightarrow> is_digit d \<Longrightarrow> digit_val c = digit_val d \<Longrightarrow> c = d"
  by (auto simp: is_digit_def digit_val.simps)

lemma digit_char_val: "is_digit c \<Longrightarrow> digit_char (digit_val c) = c"
  by (auto simp: is_digit_def digit_val.simps digit_char.simps)

lemma digit_val_zero: "is_digit c \<Longrightarrow> digit_val c = 0 \<Longrightarrow> c = CHR ''0''"
  by (auto simp: is_digit_def digit_val.simps)

lemma str_nat_inj:
  "length s = length t \<Longrightarrow> \<forall>c\<in>set s. is_digit c \<Longrightarrow> \<forall>c\<in>set t. is_digit c
     \<Longrightarrow> str_nat s = str_nat t \<Longrightarrow> s = t"
proof (induction s arbitrary: t rule: rev_induct)
  case (snoc c s)
  obtain u d where t: "t = u @ [d]" using snoc.prems(1) by (cases t rule: rev_cases) auto
  have e: "10 * str_nat s + digit_val c = 10 * str_nat u + digit_val d" using snoc.prems(4) t by simp
  have "digit_val c = digit_val d" using arg_cong [OF e, of "\<lambda>x. x mod 10"] by (simp add: digit_val_less)
  then show ?case using snoc t e by (auto intro!: digit_val_inj)
qed simp

lemma nat_str_str_nat:
  "\<forall>c\<in>set i. is_digit c \<Longrightarrow> i = ''0'' \<or> i \<noteq> [] \<and> hd i \<noteq> CHR ''0'' \<Longrightarrow> nat_str (str_nat i) = i"
proof (induction i rule: rev_induct)
  case (snoc c s)
  show ?case
  proof (cases "s = []")
    case True
    have "str_nat [c] = digit_val c" using str_nat_snoc [of "[]" c] by simp
    then show ?thesis using True snoc.prems(1) digit_val_less [of c] by (simp add: nat_str.simps digit_char_val)
  next
    case False
    then have h: "hd s \<noteq> CHR ''0''" using snoc.prems(2) by (cases s) auto
    then have ih: "nat_str (str_nat s) = s" using snoc False by simp
    then have "str_nat s \<noteq> 0" using h nat_str_hd [of "str_nat s"] by auto
    then have "nat_str (10 * str_nat s + digit_val c) = nat_str (str_nat s) @ [digit_char (digit_val c)]"
      using digit_val_less [of c] by (subst nat_str.simps) simp
    then show ?thesis using ih snoc.prems(1) by (simp add: digit_char_val)
  qed
qed simp

text \<open>The integer part and the fraction of a plain number, and their text.\<close>

definition plain_text :: "string \<Rightarrow> string \<Rightarrow> string" where
  "plain_text i f = (if f = [] then i else i @ CHR ''.'' # f)"

definition plain_parts :: "string \<Rightarrow> string \<Rightarrow> bool" where
  "plain_parts i f \<longleftrightarrow> (\<forall>c\<in>set i. is_digit c) \<and> (\<forall>c\<in>set f. is_digit c)
     \<and> (i = ''0'' \<or> i \<noteq> [] \<and> hd i \<noteq> CHR ''0'') \<and> length i \<le> 40 \<and> length f \<le> 40"

lemma plain_text_takeWhile:
  assumes "plain_parts i f"
  shows "takeWhile is_digit (plain_text i f) = i"
    "dropWhile is_digit (plain_text i f) = (if f = [] then [] else CHR ''.'' # f)"
  using assms takeWhile_digits_dot [of i f] takeWhile_digits_all [of i]
  by (auto simp: plain_parts_def plain_text_def)

lemma plain_unsigned_text: "plain_parts i f \<Longrightarrow> plain_unsigned (plain_text i f)"
  unfolding plain_unsigned_def Let_def
  by (simp add: plain_text_takeWhile) (auto simp: plain_parts_def list_all_iff Suc_le_eq)

lemma plain_unsigned_parts:
  assumes "plain_unsigned s"
  obtains i f where "s = plain_text i f" "plain_parts i f"
proof -
  define i r where "i = takeWhile is_digit s" and "r = dropWhile is_digit s"
  have s: "s = i @ r" and d: "\<forall>c\<in>set i. is_digit c" by (auto simp: i_def r_def dest: set_takeWhileD)
  have p: "i = ''0'' \<or> i \<noteq> [] \<and> hd i \<noteq> CHR ''0'' \<and> length i \<le> 40"
    and q: "r = [] \<or> hd r = CHR ''.'' \<and> 1 \<le> length (tl r) \<and> length (tl r) \<le> 40 \<and> list_all is_digit (tl r)"
    using assms by (simp_all add: plain_unsigned_def Let_def i_def r_def)
  have "s = plain_text i (tl r)" using q s by (cases r) (auto simp: plain_text_def)
  moreover have "plain_parts i (tl r)"
    using p q d by (cases "r = []") (auto simp: plain_parts_def list_all_iff)
  ultimately show thesis by (rule that)
qed

lemma val_plain_text:
  assumes "plain_parts i f"
  shows "val (py_Decimal (plain_text i f)) = of_nat (str_nat i) + of_nat (str_nat f) / 10 ^ length f"
proof -
  have "py_Decimal (plain_text i f) = Dec False (str_nat (i @ f)) (- int (length f))"
    unfolding plain_unsigned_parse [OF plain_unsigned_text [OF assms]]
    using assms by (auto simp: plain_parts_def plain_text_def parse_unsigned_dot parse_unsigned_nodot)
  then show ?thesis
    by (simp add: val_def d_int_def str_nat_append power_int_minus field_simps)
qed

lemma floor_plain_text:
  assumes "plain_parts i f"
  shows "\<lfloor>val (py_Decimal (plain_text i f))\<rfloor> = int (str_nat i)"
proof -
  have "(of_nat (str_nat f) :: rat) < 10 ^ length f"
    using str_nat_less [of f] by (metis of_nat_less_iff of_nat_numeral of_nat_power)
  then have "(of_nat (str_nat f) :: rat) / 10 ^ length f < 1" by simp
  then show ?thesis unfolding val_plain_text [OF assms] by (simp add: floor_eq_iff)
qed

lemma fraction_length:
  assumes "\<forall>c\<in>set g. is_digit c" "g = [] \<or> last g \<noteq> CHR ''0''"
    and "str_nat f * 10 ^ length g = str_nat g * 10 ^ length f"
  shows "length g \<le> length f"
proof (rule ccontr)
  assume "\<not> length g \<le> length f"
  then obtain k where k: "length g = length f + Suc k" by (auto simp: not_le dest: less_imp_Suc_add)
  then have "str_nat g = str_nat f * 10 ^ Suc k" using assms(3) by (simp add: power_add)
  moreover obtain h c where g: "g = h @ [c]" using k by (cases g rule: rev_cases) auto
  ultimately have "(10 * str_nat h + digit_val c) mod 10 = 0" by simp
  then have "digit_val c = 0" by (simp add: digit_val_less)
  then show False using assms(1,2) g digit_val_zero by auto
qed

definition canonical_text :: "string \<Rightarrow> bool" where
  "canonical_text s \<longleftrightarrow> (\<exists>i f. s = plain_text i f \<and> plain_parts i f \<and> (f = [] \<or> last f \<noteq> CHR ''0''))"

lemma canonical_text_unique:
  assumes "canonical_text s" "canonical_text t" "val (py_Decimal s) = val (py_Decimal t)"
  shows "s = t"
proof -
  obtain i f where s: "s = plain_text i f" "plain_parts i f" "f = [] \<or> last f \<noteq> CHR ''0''"
    using assms(1) by (auto simp: canonical_text_def)
  obtain j g where t: "t = plain_text j g" "plain_parts j g" "g = [] \<or> last g \<noteq> CHR ''0''"
    using assms(2) by (auto simp: canonical_text_def)
  have "str_nat i = str_nat j" using floor_plain_text [OF s(2)] floor_plain_text [OF t(2)] assms(3) s(1) t(1) by simp
  moreover have "nat_str (str_nat i) = i" "nat_str (str_nat j) = j"
    using nat_str_str_nat [of i] nat_str_str_nat [of j] s(2) t(2) unfolding plain_parts_def by blast+
  ultimately have ij: "i = j" by metis
  then have "(of_nat (str_nat f) :: rat) / 10 ^ length f = of_nat (str_nat g) / 10 ^ length g"
    using assms(3) s(1) t(1) val_plain_text [OF s(2)] val_plain_text [OF t(2)] by simp
  then have "(of_nat (str_nat f * 10 ^ length g) :: rat) = of_nat (str_nat g * 10 ^ length f)"
    by (simp add: field_simps)
  then have e: "str_nat f * 10 ^ length g = str_nat g * 10 ^ length f" unfolding of_nat_eq_iff .
  have "length f = length g"
    using fraction_length [of g f] fraction_length [of f g] e s t by (auto simp: plain_parts_def intro!: antisym)
  then have "f = g" using e s(2) t(2) by (auto simp: plain_parts_def intro!: str_nat_inj)
  then show ?thesis by (simp add: s t ij)
qed

lemma canonical_strip_zeros:
  assumes "plain_unsigned s"
  shows "canonical_text (strip_zeros s)" "val (py_Decimal (strip_zeros s)) = val (py_Decimal s)"
proof -
  obtain i f where s: "s = plain_text i f" "plain_parts i f" by (rule plain_unsigned_parts [OF assms])
  define g where "g = rstrip (CHR ''0'') f"
  obtain k where k: "f = g @ replicate k (CHR ''0'')" "g = [] \<or> last g \<noteq> CHR ''0''"
    unfolding g_def using rstrip_decompose by blast
  have p: "plain_parts i g" using s(2) k(1) by (auto simp: plain_parts_def)
  have e: "strip_zeros s = plain_text i g"
  proof (cases "f = []")
    case True
    then have "CHR ''.'' \<notin> set s" using s by (auto simp: plain_text_def plain_parts_def)
    then show ?thesis using True s by (simp add: strip_zeros_def plain_text_def g_def rstrip_def)
  next
    case False
    then show ?thesis using strip_zeros_dot [of i f "[]"] s
      by (auto simp: plain_text_def plain_parts_def g_def Let_def)
  qed
  show "canonical_text (strip_zeros s)" using p k(2) e by (auto simp: canonical_text_def)
  have "(of_nat (str_nat f) :: rat) / 10 ^ length f = of_nat (str_nat g) / 10 ^ length g"
    by (simp add: k(1) str_nat_append power_add)
  then show "val (py_Decimal (strip_zeros s)) = val (py_Decimal s)"
    unfolding e val_plain_text [OF p] unfolding s(1) val_plain_text [OF s(2)] by simp
qed

lemma canonical_text_plain: "canonical_text s \<Longrightarrow> plain_unsigned s"
  by (auto simp: canonical_text_def plain_unsigned_text)

section \<open>What configurations are\<close>

fun pvalue_val :: "pvalue \<Rightarrow> rat" where
  "pvalue_val (PInt i) = of_int i"
| "pvalue_val (PStr s) = val (py_Decimal s)"

definition canon :: "pvalue \<Rightarrow> pvalue" where
  "canon value = (case value of PInt i \<Rightarrow> PInt i | PStr s \<Rightarrow> PStr (strip_zeros s))"

lemma parameter_number_val: "parameter_number v k = Inr n \<Longrightarrow> val n = pvalue_val v"
  by (cases v) (auto simp: parameter_number_def val_dec_of_int split: if_splits)

lemma pvalue_val_canon: "parameter_number v k = Inr n \<Longrightarrow> pvalue_val (canon v) = pvalue_val v"
  by (cases v) (auto simp: parameter_number_def canon_def canonical_strip_zeros split: if_splits)

lemma parameter_number_canon:
  "parameter_number v k = Inr n \<Longrightarrow> \<exists>m. parameter_number (canon v) k = Inr m"
  by (cases v) (auto simp: parameter_number_def canon_def
      intro!: canonical_text_plain canonical_strip_zeros split: if_splits)

lemma canon_eq:
  assumes "parameter_number v k = Inr n" "parameter_number w k = Inr m"
  shows "canon v = canon w \<longleftrightarrow> pvalue_val v = pvalue_val w"
proof
  assume "canon v = canon w"
  then show "pvalue_val v = pvalue_val w" using pvalue_val_canon [OF assms(1)] pvalue_val_canon [OF assms(2)] by simp
next
  assume e: "pvalue_val v = pvalue_val w"
  show "canon v = canon w"
    using assms e by (cases v; cases w)
      (auto simp: parameter_number_def canon_def canonical_strip_zeros
        intro!: canonical_text_unique split: if_splits)
qed

lemma canon_idem: "parameter_number v k = Inr n \<Longrightarrow> canon (canon v) = canon v"
  using canon_eq [of "canon v" k _ v n] parameter_number_canon [of v k n] pvalue_val_canon [of v k n] by auto

lemma rule_validate_eq:
  "rule_validate r v = Inr w \<longleftrightarrow> returns (parameter_number v (pr_kind r))
     \<and> returns (parameter_number (pr_minimum r) (pr_kind r)) \<and> returns (parameter_number (pr_maximum r) (pr_kind r))
     \<and> pvalue_val (pr_minimum r) \<le> pvalue_val v \<and> pvalue_val v \<le> pvalue_val (pr_maximum r) \<and> w = canon v"
  by (cases "parameter_number v (pr_kind r)"; cases "parameter_number (pr_minimum r) (pr_kind r)";
      cases "parameter_number (pr_maximum r) (pr_kind r)")
    (auto simp: rule_validate_def canonical_value_def canon_def d_le_val parameter_number_val)

lemma rule_validate_canon:
  assumes "rule_validate r v = Inr w"
  shows "rule_validate r w = Inr w" and "pvalue_val w = pvalue_val v"
proof -
  obtain n where n: "parameter_number v (pr_kind r) = Inr n" and w: "w = canon v"
    using assms by (auto simp: rule_validate_eq returns_iff)
  show "pvalue_val w = pvalue_val v" using pvalue_val_canon [OF n] w by simp
  then show "rule_validate r w = Inr w"
    using assms parameter_number_canon [OF n] canon_idem [OF n] w by (auto simp: rule_validate_eq returns_iff)
qed

lemma rule_named_Some:
  assumes "distinct (map pr_name (df_parameters d))"
  shows "rule_named d n = Some r \<longleftrightarrow> r \<in> set (df_parameters d) \<and> pr_name r = n"
proof -
  have "distinct (map fst (map (\<lambda>r. (pr_name r, r)) (df_parameters d)))" using assms by (simp add: comp_def)
  from map_of_eq_Some_iff [OF this] show ?thesis by (auto simp: rule_named_def)
qed

lemma configuration_eq:
  "StrategyConfiguration_init c = Inr c' \<longleftrightarrow>
     returns (StrategyDefinition_init (cn_definition c)) \<and> distinct (map fst (cn_values c))
     \<and> set (map fst (cn_values c)) = set (map pr_name (df_parameters (cn_definition c)))
     \<and> (\<exists>vs. list_all2 (\<lambda>p q. validate_pair (cn_definition c) p = Inr q) (cn_values c) vs
          \<and> c' = c\<lparr> cn_values := sort_key fst vs \<rparr>)"
  by (auto simp: StrategyConfiguration_init_def bind_r_eq_Inr returns_iff map_r_eq_Inr)

lemma definition_distinct: "StrategyDefinition_init d = Inr e \<Longrightarrow> distinct (map pr_name (df_parameters d))"
  by (auto simp: StrategyDefinition_init_def bind_r_eq_Inr split: if_splits)

lemma validate_pair_eq:
  "validate_pair d p = Inr q \<longleftrightarrow> (\<exists>r. rule_named d (fst p) = Some r \<and> rule_validate r (snd p) = Inr (snd q) \<and> fst q = fst p)"
  by (cases q) (auto simp: validate_pair_def bind_r_eq_Inr split: option.splits)

text \<open>Two sorted association lists without duplicate keys are equal when they are equal as maps.\<close>

lemma sorted_alist_ext:
  fixes xs ys :: "('k::linorder \<times> 'v) list"
  assumes "sorted (map fst xs)" "sorted (map fst ys)" "distinct (map fst xs)" "distinct (map fst ys)"
    and "map_of xs = map_of ys"
  shows "xs = ys"
proof -
  have "set (map fst xs) = set (map fst ys)"
    using assms(5) dom_map_of_conv_image_fst [of xs] dom_map_of_conv_image_fst [of ys] by simp
  then have k: "map fst xs = map fst ys" by (rule sorted_distinct_set_unique [OF assms(1,3,2,4)])
  then have n: "length xs = length ys" by (metis length_map)
  have "xs ! i = ys ! i" if i: "i < length xs" for i
  proof -
    have "fst (xs ! i) = fst (ys ! i)" using arg_cong [OF k, of "\<lambda>l. l ! i"] i n by simp
    moreover have "map_of xs (fst (xs ! i)) = Some (snd (xs ! i))" "map_of ys (fst (ys ! i)) = Some (snd (ys ! i))"
      using assms(3,4) i n by (simp_all add: map_of_is_SomeI)
    ultimately show ?thesis using assms(5) by (simp add: prod_eq_iff)
  qed
  with n show ?thesis by (intro nth_equalityI) simp_all
qed

text \<open>The lookup of an accepted configuration.\<close>

lemma configuration_lookup:
  assumes "StrategyConfiguration_init \<lparr> cn_definition = d, cn_values = vs \<rparr> = Inr c"
  shows "cn_definition c = d" and "sorted (map fst (cn_values c))" and "distinct (map fst (cn_values c))"
    and "distinct (map pr_name (df_parameters d))"
    and "set (map fst (cn_values c)) = set (map pr_name (df_parameters d))"
    and "r \<in> set (df_parameters d) \<Longrightarrow>
      \<exists>v w. map_of vs (pr_name r) = Some v \<and> map_of (cn_values c) (pr_name r) = Some w \<and> rule_validate r v = Inr w"
    and "StrategyConfiguration_init c = Inr c"
proof -
  obtain ws where D: "returns (StrategyDefinition_init d)" and dv: "distinct (map fst vs)"
    and sv: "set (map fst vs) = set (map pr_name (df_parameters d))"
    and ws: "list_all2 (\<lambda>p q. validate_pair d p = Inr q) vs ws"
    and c: "c = \<lparr> cn_definition = d, cn_values = sort_key fst ws \<rparr>"
    using assms by (auto simp: configuration_eq)
  have k: "map fst ws = map fst vs"
    using ws by (induction rule: list_all2_induct) (auto simp: validate_pair_eq)
  show dp: "distinct (map pr_name (df_parameters d))" using D definition_distinct by (auto simp: returns_iff)
  show "cn_definition c = d" by (simp add: c)
  show s: "sorted (map fst (cn_values c))" by (simp add: c)
  have "distinct (map fst ws)" using k dv by simp
  then show dc: "distinct (map fst (cn_values c))" by (simp add: c distinct_map)
  show sc: "set (map fst (cn_values c)) = set (map pr_name (df_parameters d))" using k sv by (metis (no_types) c set_map set_sort select_convs(2) StrategyConfiguration.select_convs(2))
  have valid: "\<exists>v r. (n, v) \<in> set vs \<and> rule_named d n = Some r \<and> rule_validate r v = Inr w" if "(n, w) \<in> set ws" for n w
    using ws that by (induction rule: list_all2_induct) (auto simp: validate_pair_eq)
  show "\<exists>v w. map_of vs (pr_name r) = Some v \<and> map_of (cn_values c) (pr_name r) = Some w \<and> rule_validate r v = Inr w"
    if r: "r \<in> set (df_parameters d)"
  proof -
    have "pr_name r \<in> set (map fst (cn_values c))" using sc r by simp
    then obtain w where w: "(pr_name r, w) \<in> set (cn_values c)" by auto
    then obtain v r' where v: "(pr_name r, v) \<in> set vs" "rule_named d (pr_name r) = Some r'" "rule_validate r' v = Inr w"
      using valid [of "pr_name r" w] by (auto simp: c)
    have "rule_named d (pr_name r) = Some r" using rule_named_Some [OF dp] r by simp
    then have "rule_validate r v = Inr w" using v by simp
    then show ?thesis using w v(1) dc dv by (auto intro!: map_of_is_SomeI)
  qed
  have same: "validate_pair d p = Inr p" if "p \<in> set ws" for p
    using valid [of "fst p" "snd p"] that rule_validate_canon(1) by (cases p) (fastforce simp: validate_pair_eq)
  have "list_all2 (\<lambda>p q. validate_pair d p = Inr q) (cn_values c) (cn_values c)"
    by (auto simp: list_all2_same c same)
  then show "StrategyConfiguration_init c = Inr c"
    using D dc sc s by (auto simp: configuration_eq c sort_key_id_if_sorted
        intro!: exI [of _ "sort_key fst ws"] simp: sorted_sort_id)
qed

text \<open>C36. Configurations are canonical: rebuilding an accepted configuration changes nothing, every
declared parameter has exactly one value, numerically the requested one and inside its declared range, and
two accepted requests give the same configuration, hence the same digest, exactly when they agree
numerically on every parameter, whatever the order of the parameters and the trailing zeros of the texts.\<close>

theorem configuration_canonical:
  assumes "StrategyConfiguration_init \<lparr> cn_definition = d, cn_values = vs \<rparr> = Inr c"
    and "StrategyConfiguration_init \<lparr> cn_definition = d, cn_values = ws \<rparr> = Inr c'"
  shows "StrategyConfiguration_init c = Inr c \<and> returns (configuration_sha256 c)
    \<and> (\<forall>r\<in>set (df_parameters d). \<exists>v w. map_of vs (pr_name r) = Some v
         \<and> map_of (cn_values c) (pr_name r) = Some w \<and> pvalue_val w = pvalue_val v
         \<and> pvalue_val (pr_minimum r) \<le> pvalue_val w \<and> pvalue_val w \<le> pvalue_val (pr_maximum r))
    \<and> (c = c' \<longleftrightarrow> (\<forall>r\<in>set (df_parameters d).
         map_option pvalue_val (map_of vs (pr_name r)) = map_option pvalue_val (map_of ws (pr_name r))))"
proof -
  note C = configuration_lookup [OF assms(1)] and C' = configuration_lookup [OF assms(2)]
  have range: "\<exists>v w. map_of vs (pr_name r) = Some v
         \<and> map_of (cn_values c) (pr_name r) = Some w \<and> pvalue_val w = pvalue_val v
         \<and> pvalue_val (pr_minimum r) \<le> pvalue_val w \<and> pvalue_val w \<le> pvalue_val (pr_maximum r)"
    if "r \<in> set (df_parameters d)" for r
    using C(6) [OF that] rule_validate_canon rule_validate_eq by metis
  have step: "map_of (cn_values c) (pr_name r) = map_of (cn_values c') (pr_name r)
      \<longleftrightarrow> map_option pvalue_val (map_of vs (pr_name r)) = map_option pvalue_val (map_of ws (pr_name r))"
    if r: "r \<in> set (df_parameters d)" for r
  proof -
    obtain v w v' w' where v: "map_of vs (pr_name r) = Some v" "map_of (cn_values c) (pr_name r) = Some w" "rule_validate r v = Inr w"
      and v': "map_of ws (pr_name r) = Some v'" "map_of (cn_values c') (pr_name r) = Some w'" "rule_validate r v' = Inr w'"
      using C(6) [OF r] C'(6) [OF r] by blast
    have "w = w' \<longleftrightarrow> pvalue_val v = pvalue_val v'"
      using v(3) v'(3) canon_eq by (auto simp: rule_validate_eq returns_iff)
    then show ?thesis by (simp add: v v')
  qed
  have "c = c' \<longleftrightarrow> map_of (cn_values c) = map_of (cn_values c')"
    using sorted_alist_ext [OF C(2) C'(2) C(3) C'(3)] C(1) C'(1) by (cases c; cases c') auto
  also have "\<dots> \<longleftrightarrow> (\<forall>r\<in>set (df_parameters d). map_of (cn_values c) (pr_name r) = map_of (cn_values c') (pr_name r))"
  proof
    assume all: "\<forall>r\<in>set (df_parameters d). map_of (cn_values c) (pr_name r) = map_of (cn_values c') (pr_name r)"
    show "map_of (cn_values c) = map_of (cn_values c')"
    proof
      fix n
      show "map_of (cn_values c) n = map_of (cn_values c') n"
      proof (cases "n \<in> pr_name ` set (df_parameters d)")
        case False
        then have "map_of (cn_values c) n = None" "map_of (cn_values c') n = None"
          using C(5) C'(5) by (auto simp: map_of_eq_None_iff)
        then show ?thesis by simp
      qed (use all in auto)
    qed
  qed simp
  finally show ?thesis
    using C(7) range step by (simp add: configuration_sha256_def configuration_to_json_def)
qed

section \<open>The frozen configurations are accepted\<close>

definition rule_of :: "string \<times> string \<times> pvalue \<times> pvalue \<Rightarrow> ParameterRule" where
  "rule_of = (\<lambda>(n, k, lo, hi). \<lparr> pr_name = n, pr_kind = k, pr_minimum = lo, pr_maximum = hi \<rparr>)"

definition trend_definition :: StrategyDefinition where
  "trend_definition = \<lparr> df_identity = TREND_PULLBACK_IDENTITY, df_parameters = map rule_of
     [(''atr_period'', ''integer'', PInt 2, PInt 100), (''primary_sma_period'', ''integer'', PInt 2, PInt 200),
      (''pullback_lookback'', ''integer'', PInt 1, PInt 10), (''reward_risk'', ''decimal'', PStr ''1'', PStr ''10''),
      (''stop_atr_fraction'', ''decimal'', PStr ''0'', PStr ''2'')] \<rparr>"

definition breakout_definition :: StrategyDefinition where
  "breakout_definition = \<lparr> df_identity = BREAKOUT_IDENTITY, df_parameters = map rule_of
     [(''atr_period'', ''integer'', PInt 2, PInt 100), (''breakout_lookback'', ''integer'', PInt 2, PInt 200),
      (''maximum_extension_atr'', ''decimal'', PStr ''0'', PStr ''10''),
      (''minimum_close_location'', ''decimal'', PStr ''0'', PStr ''1''),
      (''reward_risk'', ''decimal'', PStr ''1'', PStr ''10''),
      (''stop_atr_fraction'', ''decimal'', PStr ''0'', PStr ''2'')] \<rparr>"

text \<open>A rule and a definition whose texts are canonical and whose names are sorted are kept as they are.\<close>

lemma definition_kept:
  assumes "StrategyIdentity_post_init (df_identity d) = Inr ()" "length (df_parameters d) \<le> 32"
    and "map_r ParameterRule_init (df_parameters d) = Inr (df_parameters d)"
    and "sorted (map pr_name (df_parameters d))" "distinct (map pr_name (df_parameters d))"
  shows "StrategyDefinition_init d = Inr d"
  using assms by (simp add: StrategyDefinition_init_def sorted_sort_id sort_key_id_if_sorted)

lemma trend_definition_kept: "StrategyDefinition_init trend_definition = Inr trend_definition"
  by (rule definition_kept; code_simp)

lemma breakout_definition_kept: "StrategyDefinition_init breakout_definition = Inr breakout_definition"
  by (rule definition_kept; code_simp)

lemma configured_single:
  assumes "StrategyDefinition_init \<lparr> df_identity = i, df_parameters = map rule_of rules \<rparr>
      = Inr \<lparr> df_identity = i, df_parameters = map rule_of rules \<rparr>"
    and "map_r ParameterRule_init (map rule_of rules) = Inr (map rule_of rules)"
  shows "configured i rules ps = StrategyConfiguration_init
     \<lparr> cn_definition = \<lparr> df_identity = i, df_parameters = map rule_of rules \<rparr>, cn_values = ps \<rparr>"
proof -
  have "map_r (\<lambda>(n, k, lo, hi). ParameterRule_init
        \<lparr> pr_name = n, pr_kind = k, pr_minimum = lo, pr_maximum = hi \<rparr>) rs
      = map_r ParameterRule_init (map rule_of rs)" for rs
    by (induction rs) (auto simp: rule_of_def)
  then show ?thesis
    using assms by (simp add: configured_def StrategyRegistry_init_def registry_configure_def)
qed

lemma configuration_kept:
  assumes "StrategyDefinition_init d = Inr d" "distinct (map fst vs)" "sorted (map fst vs)"
    and "set (map fst vs) = set (map pr_name (df_parameters d))" "map_r (validate_pair d) vs = Inr vs"
  shows "StrategyConfiguration_init \<lparr> cn_definition = d, cn_values = vs \<rparr> = Inr \<lparr> cn_definition = d, cn_values = vs \<rparr>"
  using assms by (simp add: StrategyConfiguration_init_def sort_key_id_if_sorted)

definition trend_values :: "(string \<times> pvalue) list" where
  "trend_values = [(''atr_period'', PInt 14), (''primary_sma_period'', PInt 20), (''pullback_lookback'', PInt 3),
     (''reward_risk'', PStr ''2''), (''stop_atr_fraction'', PStr ''0.25'')]"

definition breakout_values :: "(string \<times> pvalue) list" where
  "breakout_values = [(''atr_period'', PInt 14), (''breakout_lookback'', PInt 20), (''maximum_extension_atr'', PStr ''1''),
      (''minimum_close_location'', PStr ''0.75''), (''reward_risk'', PStr ''2''),
      (''stop_atr_fraction'', PStr ''0.25'')]"

lemma trend_configuration_kept:
  "StrategyConfiguration_init \<lparr> cn_definition = trend_definition, cn_values = trend_values \<rparr>
     = Inr \<lparr> cn_definition = trend_definition, cn_values = trend_values \<rparr>"
  by (rule configuration_kept [OF trend_definition_kept]; code_simp)

lemma breakout_configuration_kept:
  "StrategyConfiguration_init \<lparr> cn_definition = breakout_definition, cn_values = breakout_values \<rparr>
     = Inr \<lparr> cn_definition = breakout_definition, cn_values = breakout_values \<rparr>"
  by (rule configuration_kept [OF breakout_definition_kept]; code_simp)

lemma TREND_CONFIGURATION_eq:
  "TREND_CONFIGURATION = Inr \<lparr> cn_definition = trend_definition, cn_values = trend_values \<rparr>"
proof -
  have "map_r ParameterRule_init (df_parameters trend_definition) = Inr (df_parameters trend_definition)" by code_simp
  then show ?thesis
    unfolding TREND_CONFIGURATION_def
    using configured_single trend_definition_kept trend_configuration_kept
    by (simp add: trend_definition_def trend_values_def)
qed

lemma BREAKOUT_CONFIGURATION_eq:
  "BREAKOUT_CONFIGURATION = Inr \<lparr> cn_definition = breakout_definition, cn_values = breakout_values \<rparr>"
proof -
  have "map_r ParameterRule_init (df_parameters breakout_definition) = Inr (df_parameters breakout_definition)" by code_simp
  then show ?thesis
    unfolding BREAKOUT_CONFIGURATION_def
    using configured_single breakout_definition_kept breakout_configuration_kept
    by (simp add: breakout_definition_def breakout_values_def)
qed

lemma configuration_accepted:
  assumes "StrategyDefinition_init d = Inr d" "distinct (map fst vs)"
    and "set (map fst vs) = set (map pr_name (df_parameters d))" "returns (map_r (validate_pair d) vs)"
  shows "\<exists>c. StrategyConfiguration_init \<lparr> cn_definition = d, cn_values = vs \<rparr> = Inr c"
proof -
  obtain ws where "map_r (validate_pair d) vs = Inr ws" using assms(4) by (auto simp: returns_iff)
  then show ?thesis using assms(1-3) by (simp add: StrategyConfiguration_init_def)
qed

lemma trend_permuted:
  "\<exists>c. StrategyConfiguration_init \<lparr> cn_definition = trend_definition,
     cn_values = [(''stop_atr_fraction'', PStr ''0.2500''), (''reward_risk'', PStr ''2.0''),
       (''pullback_lookback'', PInt 3), (''primary_sma_period'', PInt 20), (''atr_period'', PInt 14)] \<rparr> = Inr c"
  by (rule configuration_accepted [OF trend_definition_kept]; code_simp)

theorem configuration_canonical_witness:
  "\<exists>c. StrategyConfiguration_init \<lparr> cn_definition = trend_definition,
     cn_values = [(''stop_atr_fraction'', PStr ''0.2500''), (''reward_risk'', PStr ''2.0''),
       (''pullback_lookback'', PInt 3), (''primary_sma_period'', PInt 20), (''atr_period'', PInt 14)] \<rparr> = Inr c
    \<and> c = \<lparr> cn_definition = trend_definition, cn_values = trend_values \<rparr>"
proof -
  obtain c where c: "StrategyConfiguration_init \<lparr> cn_definition = trend_definition,
     cn_values = [(''stop_atr_fraction'', PStr ''0.2500''), (''reward_risk'', PStr ''2.0''),
       (''pullback_lookback'', PInt 3), (''primary_sma_period'', PInt 20), (''atr_period'', PInt 14)] \<rparr> = Inr c"
    using trend_permuted by blast
  have "c = \<lparr> cn_definition = trend_definition, cn_values = trend_values \<rparr>"
    using configuration_canonical [OF c trend_configuration_kept]
    by (simp add: trend_definition_def trend_values_def rule_of_def py_eval val_def)
  then show ?thesis using c by blast
qed

lemma parameter_literals:
  "py_Decimal ''2'' = Dec False 2 0" "py_Decimal ''1'' = Dec False 1 0"
  "py_Decimal ''0.25'' = Dec False 25 (-2)" "py_Decimal ''0.75'' = Dec False 75 (-2)"
  by code_simp+

text \<open>The two candidates run with the registered parameters: both module-level configurations are
accepted, and the constants the candidate models use are their values.\<close>

theorem frozen_parameters:
  "\<exists>t b. TREND_CONFIGURATION = Inr t \<and> BREAKOUT_CONFIGURATION = Inr b
    \<and> df_identity (cn_definition t) = TREND_PULLBACK_IDENTITY \<and> df_identity (cn_definition b) = BREAKOUT_IDENTITY
    \<and> map_of (cn_values t) ''atr_period'' = Some (PInt ATR_PERIOD)
    \<and> map_of (cn_values t) ''primary_sma_period'' = Some (PInt PRIMARY_SMA_PERIOD)
    \<and> map_of (cn_values t) ''pullback_lookback'' = Some (PInt PULLBACK_LOOKBACK)
    \<and> map_option pvalue_val (map_of (cn_values t) ''reward_risk'') = Some (val REWARD_RISK)
    \<and> map_option pvalue_val (map_of (cn_values t) ''stop_atr_fraction'') = Some (val STOP_ATR_FRACTION)
    \<and> map_of (cn_values b) ''atr_period'' = Some (PInt ATR_PERIOD)
    \<and> map_of (cn_values b) ''breakout_lookback'' = Some (PInt BREAKOUT_LOOKBACK)
    \<and> map_option pvalue_val (map_of (cn_values b) ''maximum_extension_atr'') = Some (val MAXIMUM_EXTENSION_ATR)
    \<and> map_option pvalue_val (map_of (cn_values b) ''minimum_close_location'') = Some (val MINIMUM_CLOSE_LOCATION)
    \<and> map_option pvalue_val (map_of (cn_values b) ''reward_risk'') = Some (val REWARD_RISK)
    \<and> map_option pvalue_val (map_of (cn_values b) ''stop_atr_fraction'') = Some (val STOP_ATR_FRACTION)"
  by (simp add: TREND_CONFIGURATION_eq BREAKOUT_CONFIGURATION_eq trend_definition_def breakout_definition_def
      trend_values_def breakout_values_def parameter_literals ATR_PERIOD_def PRIMARY_SMA_PERIOD_def
      PULLBACK_LOOKBACK_def REWARD_RISK_def STOP_ATR_FRACTION_def BREAKOUT_LOOKBACK_def
      MAXIMUM_EXTENSION_ATR_def MINIMUM_CLOSE_LOCATION_def)

end
