(* ===== verification/Strategy_Evaluation.thy ===== *)
theory Strategy_Evaluation
  imports Strategy_Registry
begin

text \<open>
  \<^verbatim>\<open>yatl/strategy/evaluate.py\<close>: the pre-registered protocol that labels the evidence of a
  strategy over all symbols. The evidence constructor writes its numbers in a canonical
  form, so it is a function to the record that results; the report recomputes the whole
  assessment.
\<close>

section \<open>The protocol\<close>

definition PROTOCOL_VERSION :: string where "PROTOCOL_VERSION = ''P3_EVAL_V1''"
definition DAY_MS :: int where "DAY_MS = 86400000"
definition MIN_EVALUATION_DAYS :: int where "MIN_EVALUATION_DAYS = 180"
definition MIN_TRADES_PER_SYMBOL :: int where "MIN_TRADES_PER_SYMBOL = 30"
definition MIN_TOTAL_TRADES :: int where "MIN_TOTAL_TRADES = 60"
definition SEGMENT_COUNT :: int where "SEGMENT_COUNT = 3"
definition MAX_DRAWDOWN :: dec where "MAX_DRAWDOWN = py_Decimal ''0.25''"
definition MAX_SEGMENT_LOSS :: dec where "MAX_SEGMENT_LOSS = py_Decimal ''0.10''"

text \<open>The digests of the two module-level configurations by their identities.\<close>

definition LOCKED_CONFIGURATIONS :: "(StrategyIdentity \<times> string) list result" where
  "LOCKED_CONFIGURATIONS =
     bind_r TREND_CONFIGURATION (\<lambda>t. bind_r (configuration_sha256 t) (\<lambda>td.
     bind_r BREAKOUT_CONFIGURATION (\<lambda>b. bind_r (configuration_sha256 b) (\<lambda>bd.
     Inr [(df_identity (cn_definition t), td), (df_identity (cn_definition b), bd)]))))"

datatype EvidenceReason =
    EVALUATION_WINDOW_TOO_SHORT | MINIMUM_TRADES_NOT_MET | SOFTWARE_EVIDENCE_FAILED | NO_TRADE_BASELINE_NOT_BEATEN
  | BUY_HOLD_NOT_BEATEN | DRAWDOWN_GATE_FAILED | SEGMENT_STABILITY_FAILED | ALL_GATES_PASSED

fun EvidenceReason_value :: "EvidenceReason \<Rightarrow> string" where
  "EvidenceReason_value EVALUATION_WINDOW_TOO_SHORT = ''EVALUATION_WINDOW_TOO_SHORT''"
| "EvidenceReason_value MINIMUM_TRADES_NOT_MET = ''MINIMUM_TRADES_NOT_MET''"
| "EvidenceReason_value SOFTWARE_EVIDENCE_FAILED = ''SOFTWARE_EVIDENCE_FAILED''"
| "EvidenceReason_value NO_TRADE_BASELINE_NOT_BEATEN = ''NO_TRADE_BASELINE_NOT_BEATEN''"
| "EvidenceReason_value BUY_HOLD_NOT_BEATEN = ''BUY_HOLD_NOT_BEATEN''"
| "EvidenceReason_value DRAWDOWN_GATE_FAILED = ''DRAWDOWN_GATE_FAILED''"
| "EvidenceReason_value SEGMENT_STABILITY_FAILED = ''SEGMENT_STABILITY_FAILED''"
| "EvidenceReason_value ALL_GATES_PASSED = ''ALL_GATES_PASSED''"

definition ev_sha256 :: "string \<Rightarrow> string \<Rightarrow> string result" where
  "ev_sha256 value field =
     (if \<not> valid_digest value then Inl (EvaluationError (field @ '' must be a lowercase SHA-256'')) else Inr value)"

definition ev_number :: "string \<Rightarrow> string \<Rightarrow> bool \<Rightarrow> bool \<Rightarrow> dec result" where
  "ev_number value field nonnegative unit_range =
     (if \<not> plain_signed value then Inl (EvaluationError (field @ '' must be a plain decimal string''))
      else let number = py_Decimal value in
        if (nonnegative \<and> d_lt number d_zero) \<or> (unit_range \<and> \<not> (d_le d_zero number \<and> d_le number d_one))
        then Inl (EvaluationError (field @ '' is outside the allowed range''))
        else Inr number)"

definition ev_plain :: "dec \<Rightarrow> string" where
  "ev_plain v = (if d_eq v d_zero then ''0'' else strip_zeros (d_format v))"

section \<open>The input digest\<close>

definition candle_as_record :: "Candle \<Rightarrow> json" where
  "candle_as_record c = JObj
     [(''source'', JStr (cd_source c)), (''symbol'', JStr (cd_symbol c)), (''interval'', JStr (cd_interval c)),
      (''open_time_ms'', JInt (cd_open_time_ms c)), (''close_time_ms'', JInt (cd_close_time_ms c)),
      (''open'', JStr (cd_open c)), (''high'', JStr (cd_high c)), (''low'', JStr (cd_low c)),
      (''close'', JStr (cd_close c)), (''base_volume'', JStr (cd_base_volume c)),
      (''quote_volume'', JStr (cd_quote_volume c)), (''trade_count'', JInt (cd_trade_count c)),
      (''is_closed'', JBool (cd_is_closed c))]"

definition candle_slot :: "Candle \<Rightarrow> string \<times> int" where
  "candle_slot c = (cd_interval c, cd_open_time_ms c)"

definition evaluation_input_sha256 :: "Candle list \<Rightarrow> string \<Rightarrow> int \<Rightarrow> string result" where
  "evaluation_input_sha256 candles symbol evaluation_end_ms =
     (if candles = [] \<or> 1000000 < length candles \<or> symbol \<notin> set SYMBOLS \<or> evaluation_end_ms \<le> 0
         \<or> list_ex (\<lambda>c. cd_source c \<noteq> DATA_SOURCE \<or> cd_symbol c \<noteq> symbol) candles
      then Inl (EvaluationError ''Evaluation input identity is invalid'')
      else let visible = filter (\<lambda>c. cd_close_time_ms c < evaluation_end_ms) candles in
        if visible = [] \<or> list_ex (\<lambda>c. \<not> cd_is_closed c) visible \<or> \<not> distinct (map candle_slot visible)
        then Inl (EvaluationError ''Visible evaluation input is incomplete or duplicated'')
        else Inr (py_digest (JList (map candle_as_record (sort_key candle_slot visible)))))"

section \<open>Plan and evidence\<close>

record EvaluationPlan =
  pn_identity :: StrategyIdentity
  pn_configuration_sha256 :: string
  pn_training_start_ms :: int
  pn_training_end_ms :: int
  pn_evaluation_start_ms :: int
  pn_evaluation_end_ms :: int
  pn_symbols :: "string list"
  pn_segment_count :: int
  pn_protocol_version :: string

definition EvaluationPlan_post_init :: "EvaluationPlan \<Rightarrow> unit result" where
  "EvaluationPlan_post_init p =
     (let invalid = EvaluationError ''Evaluation plan is not a valid frozen protocol'';
          times = [pn_training_start_ms p, pn_training_end_ms p, pn_evaluation_start_ms p, pn_evaluation_end_ms p]
      in bind_r (catch_r (StrategyIdentity_post_init (pn_identity p)) (\<lambda>e. is_StrategyContractError e \<or> is_value_error e)
           (EvaluationError ''Evaluation strategy identity is invalid'')) (\<lambda>_.
         bind_r LOCKED_CONFIGURATIONS (\<lambda>locked.
         case map_of locked (pn_identity p) of
           None \<Rightarrow> Inl invalid
         | Some expected \<Rightarrow>
             bind_r (ev_sha256 (pn_configuration_sha256 p) ''configuration_sha256'') (\<lambda>digest.
             if digest \<noteq> expected \<or> list_ex (\<lambda>t. t \<le> 0) times \<or> list_ex (\<lambda>t. t mod DAY_MS \<noteq> 0) times
                \<or> \<not> pn_training_start_ms p < pn_training_end_ms p
                \<or> pn_training_end_ms p > pn_evaluation_start_ms p
                \<or> pn_evaluation_start_ms p \<ge> pn_evaluation_end_ms p
                \<or> pn_symbols p \<noteq> SYMBOLS \<or> pn_segment_count p \<noteq> SEGMENT_COUNT
                \<or> pn_protocol_version p \<noteq> PROTOCOL_VERSION
             then Inl invalid else Inr ()))))"

definition plan_record :: "EvaluationPlan \<Rightarrow> json" where
  "plan_record p = JObj
     [(''protocol_version'', JStr (pn_protocol_version p)),
      (''strategy_id'', JStr (si_strategy_id (pn_identity p))), (''strategy_version'', JStr (si_version (pn_identity p))),
      (''configuration_sha256'', JStr (pn_configuration_sha256 p)),
      (''training_start_ms'', JInt (pn_training_start_ms p)), (''training_end_ms'', JInt (pn_training_end_ms p)),
      (''evaluation_start_ms'', JInt (pn_evaluation_start_ms p)), (''evaluation_end_ms'', JInt (pn_evaluation_end_ms p)),
      (''symbols'', JList (map JStr (pn_symbols p))), (''segment_count'', JInt (pn_segment_count p)),
      (''paper_only'', JBool True), (''live_master_lock'', JStr ''OFF'')]"

definition plan_to_record :: "EvaluationPlan \<Rightarrow> json result" where
  "plan_to_record p = bind_r (EvaluationPlan_post_init p) (\<lambda>_. Inr (plan_record p))"

definition plan_sha256 :: "EvaluationPlan \<Rightarrow> string result" where
  "plan_sha256 p = bind_r (plan_to_record p) (\<lambda>j. Inr (py_digest j))"

definition evaluation_days :: "EvaluationPlan \<Rightarrow> int" where
  "evaluation_days p = (pn_evaluation_end_ms p - pn_evaluation_start_ms p) div DAY_MS"

record SymbolEvidence =
  se_symbol :: string
  se_plan_sha256 :: string
  se_configuration_sha256 :: string
  se_evaluation_start_ms :: int
  se_evaluation_end_ms :: int
  se_dataset_sha256 :: string
  se_trade_count :: int
  se_total_return :: string
  se_maximum_drawdown :: string
  se_total_cost_quote :: string
  se_buy_hold_return :: string
  se_buy_hold_maximum_drawdown :: string
  se_segment_returns :: "string list"
  se_replay_equal :: bool
  se_point_in_time_verified :: bool
  se_future_isolation_verified :: bool

text \<open>The numbers of a run, each parsed with the range of its field.\<close>

record EvidenceNumbers =
  en_total_return :: dec
  en_maximum_drawdown :: dec
  en_total_cost_quote :: dec
  en_buy_hold_return :: dec
  en_buy_hold_maximum_drawdown :: dec
  en_segment_returns :: "dec list"

definition evidence_numbers :: "SymbolEvidence \<Rightarrow> EvidenceNumbers result" where
  "evidence_numbers r =
     bind_r (ev_number (se_total_return r) ''total_return'' False False) (\<lambda>total.
     bind_r (ev_number (se_maximum_drawdown r) ''maximum_drawdown'' False True) (\<lambda>drawdown.
     bind_r (ev_number (se_total_cost_quote r) ''total_cost_quote'' True False) (\<lambda>cost.
     bind_r (ev_number (se_buy_hold_return r) ''buy_hold_return'' False False) (\<lambda>hold.
     bind_r (ev_number (se_buy_hold_maximum_drawdown r) ''buy_hold_maximum_drawdown'' False True) (\<lambda>hold_drawdown.
     bind_r (map_r (\<lambda>v. ev_number v ''segment_return'' False False) (se_segment_returns r)) (\<lambda>segments.
     Inr \<lparr> en_total_return = total, en_maximum_drawdown = drawdown, en_total_cost_quote = cost,
           en_buy_hold_return = hold, en_buy_hold_maximum_drawdown = hold_drawdown,
           en_segment_returns = segments \<rparr>))))))"

definition SymbolEvidence_init :: "SymbolEvidence \<Rightarrow> SymbolEvidence result" where
  "SymbolEvidence_init r =
     (if se_symbol r \<notin> set SYMBOLS \<or> se_evaluation_start_ms r \<ge> se_evaluation_end_ms r
         \<or> \<not> (0 \<le> se_trade_count r \<and> se_trade_count r \<le> 1000000)
         \<or> int (length (se_segment_returns r)) \<noteq> SEGMENT_COUNT
      then Inl (EvaluationError ''Symbol evidence identity is invalid'')
      else bind_r (ev_sha256 (se_plan_sha256 r) ''plan_sha256'') (\<lambda>_.
           bind_r (ev_sha256 (se_configuration_sha256 r) ''configuration_sha256'') (\<lambda>_.
           bind_r (ev_sha256 (se_dataset_sha256 r) ''dataset_sha256'') (\<lambda>_.
           bind_r (evidence_numbers r) (\<lambda>n.
           Inr (r\<lparr> se_total_return := ev_plain (en_total_return n),
                  se_maximum_drawdown := ev_plain (en_maximum_drawdown n),
                  se_total_cost_quote := ev_plain (en_total_cost_quote n),
                  se_buy_hold_return := ev_plain (en_buy_hold_return n),
                  se_buy_hold_maximum_drawdown := ev_plain (en_buy_hold_maximum_drawdown n),
                  se_segment_returns := map ev_plain (en_segment_returns n) \<rparr>))))))"

definition evidence_record :: "SymbolEvidence \<Rightarrow> json" where
  "evidence_record r = JObj
     [(''symbol'', JStr (se_symbol r)), (''plan_sha256'', JStr (se_plan_sha256 r)),
      (''configuration_sha256'', JStr (se_configuration_sha256 r)),
      (''evaluation_start_ms'', JInt (se_evaluation_start_ms r)), (''evaluation_end_ms'', JInt (se_evaluation_end_ms r)),
      (''dataset_sha256'', JStr (se_dataset_sha256 r)), (''trade_count'', JInt (se_trade_count r)),
      (''total_return'', JStr (se_total_return r)), (''maximum_drawdown'', JStr (se_maximum_drawdown r)),
      (''total_cost_quote'', JStr (se_total_cost_quote r)), (''buy_hold_return'', JStr (se_buy_hold_return r)),
      (''buy_hold_maximum_drawdown'', JStr (se_buy_hold_maximum_drawdown r)),
      (''segment_returns'', JList (map JStr (se_segment_returns r))), (''replay_equal'', JBool (se_replay_equal r)),
      (''point_in_time_verified'', JBool (se_point_in_time_verified r)),
      (''future_isolation_verified'', JBool (se_future_isolation_verified r))]"

definition evidence_sha256 :: "SymbolEvidence \<Rightarrow> string result" where
  "evidence_sha256 r = bind_r (SymbolEvidence_init r) (\<lambda>_. Inr (py_digest (evidence_record r)))"

section \<open>The assessment\<close>

text \<open>
  The numbers of the runs are read again at each of their uses; a constructed run always
  parses, so the model reads them once. Sums and means are computed at 256 digits.
\<close>

record Assessment =
  as_runs :: "SymbolEvidence list"
  as_label :: EvidenceLabel
  as_reasons :: "EvidenceReason list"
  as_total_trades :: int
  as_mean_total_return :: dec
  as_mean_buy_hold_return :: dec
  as_total_cost_quote :: dec

definition insufficient_reasons :: "EvaluationPlan \<Rightarrow> SymbolEvidence list \<Rightarrow> EvidenceReason list" where
  "insufficient_reasons plan runs =
     (if evaluation_days plan < MIN_EVALUATION_DAYS then [EVALUATION_WINDOW_TOO_SHORT] else [])
     @ (if sum_list (map se_trade_count runs) < MIN_TOTAL_TRADES
           \<or> list_ex (\<lambda>r. se_trade_count r < MIN_TRADES_PER_SYMBOL) runs
        then [MINIMUM_TRADES_NOT_MET] else [])"

definition software_failed :: "SymbolEvidence \<Rightarrow> bool" where
  "software_failed r \<longleftrightarrow> \<not> (se_replay_equal r \<and> se_point_in_time_verified r \<and> se_future_isolation_verified r)"

definition unstable :: "EvidenceNumbers \<Rightarrow> bool" where
  "unstable n \<longleftrightarrow> length (filter (\<lambda>v. d_lt d_zero v) (en_segment_returns n)) < 2
     \<or> d_lt (d_min_list (en_segment_returns n)) (d_neg DEFAULT_PRECISION MAX_SEGMENT_LOSS)"

definition rejected_reasons :: "SymbolEvidence list \<Rightarrow> EvidenceNumbers list \<Rightarrow> EvidenceReason list" where
  "rejected_reasons runs numbers =
     (if list_ex software_failed runs then [SOFTWARE_EVIDENCE_FAILED] else [])
     @ (if list_ex (\<lambda>n. d_le (en_total_return n) d_zero) numbers then [NO_TRADE_BASELINE_NOT_BEATEN] else [])
     @ (if list_ex (\<lambda>n. d_le (en_total_return n) (en_buy_hold_return n)) numbers then [BUY_HOLD_NOT_BEATEN] else [])
     @ (if list_ex (\<lambda>n. d_lt (d_min MAX_DRAWDOWN (en_buy_hold_maximum_drawdown n)) (en_maximum_drawdown n)) numbers
        then [DRAWDOWN_GATE_FAILED] else [])
     @ (if list_ex unstable numbers then [SEGMENT_STABILITY_FAILED] else [])"

definition matches_plan :: "EvaluationPlan \<Rightarrow> string \<Rightarrow> SymbolEvidence \<Rightarrow> bool" where
  "matches_plan plan digest r \<longleftrightarrow> se_plan_sha256 r = digest \<and> se_configuration_sha256 r = pn_configuration_sha256 plan
     \<and> se_evaluation_start_ms r = pn_evaluation_start_ms plan \<and> se_evaluation_end_ms r = pn_evaluation_end_ms plan"

definition assessment :: "EvaluationPlan \<Rightarrow> SymbolEvidence list \<Rightarrow> Assessment result" where
  "assessment plan runs =
     (if length runs \<noteq> length SYMBOLS
      then Inl (EvaluationError ''Evaluation requires one immutable run per symbol'')
      else bind_r (EvaluationPlan_post_init plan) (\<lambda>_.
           bind_r (map_r SymbolEvidence_init runs) (\<lambda>replaced.
           let ordered = sort_key se_symbol replaced in
           if map se_symbol ordered \<noteq> sort SYMBOLS
           then Inl (EvaluationError ''Evaluation symbol evidence is incomplete or duplicated'')
           else bind_r (plan_sha256 plan) (\<lambda>digest.
             if \<not> list_all (matches_plan plan digest) ordered
             then Inl (EvaluationError ''Evidence does not match the frozen evaluation plan'')
             else bind_r (map_r evidence_numbers ordered) (\<lambda>numbers.
               let p = DECIMAL_PRECISION;
                   mean = (\<lambda>f. d_div p (d_sum p (map f numbers)) (dec_of_int (int (length ordered))));
                   insufficient = insufficient_reasons plan ordered;
                   rejected = rejected_reasons ordered numbers;
                   (label, reasons) =
                     (if insufficient \<noteq> [] then (INSUFFICIENT_EVIDENCE, insufficient)
                      else if rejected \<noteq> [] then (REJECTED, rejected)
                      else (QUALIFIED_FOR_P4_RESEARCH, [ALL_GATES_PASSED]))
               in Inr \<lparr> as_runs = ordered, as_label = label, as_reasons = reasons,
                    as_total_trades = sum_list (map se_trade_count ordered),
                    as_mean_total_return = mean en_total_return,
                    as_mean_buy_hold_return = mean en_buy_hold_return,
                    as_total_cost_quote = d_sum p (map en_total_cost_quote numbers) \<rparr>)))))"

text \<open>Equality of the tuples: Decimals are compared as numbers.\<close>

definition assessment_eq :: "Assessment \<Rightarrow> Assessment \<Rightarrow> bool" where
  "assessment_eq a b \<longleftrightarrow> as_runs a = as_runs b \<and> as_label a = as_label b \<and> as_reasons a = as_reasons b
     \<and> as_total_trades a = as_total_trades b \<and> d_eq (as_mean_total_return a) (as_mean_total_return b)
     \<and> d_eq (as_mean_buy_hold_return a) (as_mean_buy_hold_return b)
     \<and> d_eq (as_total_cost_quote a) (as_total_cost_quote b)"

record EvaluationReport =
  er_plan :: EvaluationPlan
  er_assessment :: Assessment

definition EvaluationReport_post_init :: "EvaluationReport \<Rightarrow> unit result" where
  "EvaluationReport_post_init r =
     bind_r (assessment (er_plan r) (as_runs (er_assessment r))) (\<lambda>expected.
     require (assessment_eq (er_assessment r) expected) (EvaluationError ''Evaluation report is inconsistent''))"

definition report_to_record :: "EvaluationReport \<Rightarrow> json result" where
  "report_to_record r =
     bind_r (EvaluationReport_post_init r) (\<lambda>_.
     bind_r (plan_to_record (er_plan r)) (\<lambda>plan. bind_r (plan_sha256 (er_plan r)) (\<lambda>digest.
     bind_r (map_r (\<lambda>run. bind_r (SymbolEvidence_init run) (\<lambda>_. Inr (evidence_record run))) (as_runs (er_assessment r))) (\<lambda>runs.
     let a = er_assessment r in
     Inr (JObj [(''schema_version'', JInt 1), (''plan'', plan), (''plan_sha256'', JStr digest), (''runs'', JList runs),
       (''label'', JStr (EvidenceLabel_value (as_label a))),
       (''reasons'', JList (map (\<lambda>x. JStr (EvidenceReason_value x)) (as_reasons a))),
       (''pooled'', JObj
          [(''total_trades'', JInt (as_total_trades a)), (''mean_total_return'', JStr (ev_plain (as_mean_total_return a))),
           (''mean_buy_hold_return'', JStr (ev_plain (as_mean_buy_hold_return a))),
           (''total_cost_quote'', JStr (ev_plain (as_total_cost_quote a))), (''no_trade_return'', JStr ''0'')]),
       (''qualification_is_not_trading_approval'', JBool True)])))))"

definition report_sha256 :: "EvaluationReport \<Rightarrow> string result" where
  "report_sha256 r = bind_r (report_to_record r) (\<lambda>j. Inr (py_digest j))"

definition assess_evidence :: "EvaluationPlan \<Rightarrow> SymbolEvidence list \<Rightarrow> EvaluationReport result" where
  "assess_evidence plan runs =
     bind_r (assessment plan runs) (\<lambda>values.
     construct EvaluationReport_post_init \<lparr> er_plan = plan, er_assessment = values \<rparr>)"

section \<open>Numbers in their canonical form\<close>

lemma plain_format:
  assumes "\<not> d_sign d" "mag d < 10 ^ 40" "-40 \<le> d_exp d" "d_exp d \<le> 0"
  shows "plain_unsigned (d_format d)"
proof (cases "d_exp d < 0")
  case True
  obtain i f where b: "d_body d = i @ CHR ''.'' # f" "\<forall>c\<in>set i. is_digit c" "i \<noteq> []"
    "\<forall>c\<in>set f. is_digit c" "length f = nat (- d_exp d)"
    "i = ''0'' \<or> hd i \<noteq> CHR ''0'' \<and> length i = ndigits (d_coeff d) - nat (- d_exp d)"
    by (rule d_body_dot [OF True])
  have "length i \<le> 40"
    using b(3,6) ndigits_bound [OF assms(2)] True by (auto simp: ndigits.simps [of 0])
  then have "plain_parts i f" using b assms(3) by (auto simp: plain_parts_def)
  moreover have "f \<noteq> []" using b(5) True by auto
  ultimately show ?thesis
    using plain_unsigned_text [of i f] assms(1) by (simp add: d_format_body b(1) plain_text_def)
next
  case False
  then have "strip_zeros (d_format d) = d_format d"
    using assms(1,4) nat_str_digits [of "CHR ''.''" "d_coeff d"] by (auto simp: strip_zeros_def d_format_body d_body_def)
  then show ?thesis using plain_strip_zeros [OF assms(1-3)] by simp
qed

text \<open>The magnitude of a plain number as a canonical text, and the sign in front of it.\<close>

lemma ev_plain_parts:
  assumes "mag d < 10 ^ 40" "-40 \<le> d_exp d" "d_exp d \<le> 0" "val d \<noteq> 0"
  obtains u where "ev_plain d = (if d_sign d then CHR ''-'' # u else u)" "canonical_text u"
    "val (py_Decimal u) = mag d"
proof -
  let ?e = "Dec False (d_coeff d) (d_exp d)"
  have m: "mag ?e = mag d" by (simp add: mag_def)
  have f: "d_format ?e = d_body d" by (simp add: d_format_body d_body_def)
  have p: "plain_unsigned (d_body d)" using plain_format [of ?e] assms(1-3) m f by simp
  note C = canonical_strip_zeros [OF p]
  have v: "val (py_Decimal (strip_zeros (d_body d))) = mag d"
    using val_strip_zeros [of ?e] m by (simp add: f val_mag)
  have "strip_zeros (CHR ''-'' # t) = CHR ''-'' # strip_zeros t" if "plain_unsigned t" for t
  proof -
    have r: "rstrip c (CHR ''-'' # t) = CHR ''-'' # rstrip c t" if "c \<noteq> CHR ''-''" for c and t :: string
      using that by (simp add: rstrip_def dropWhile_append)
    show ?thesis by (simp add: strip_zeros_def r)
  qed
  then have "ev_plain d = (if d_sign d then CHR ''-'' # strip_zeros (d_body d) else strip_zeros (d_body d))"
    using assms(4) p by (simp add: ev_plain_def dec_val d_format_body)
  then show thesis using C(1) v by (rule that)
qed

lemma py_Decimal_minus:
  assumes "plain_unsigned u"
  shows "mag (py_Decimal (CHR ''-'' # u)) = mag (py_Decimal u)" "d_sign (py_Decimal (CHR ''-'' # u))" "\<not> d_sign (py_Decimal u)"
  using plain_unsigned_parse [OF assms] by (simp_all add: py_Decimal_def d_parse_unsigned_def Let_def mag_def)

lemma ev_plain_ok:
  assumes "plain_signed s"
  defines "t \<equiv> ev_plain (py_Decimal s)"
  shows "plain_signed t" "val (py_Decimal t) = val (py_Decimal s)" "ev_plain (py_Decimal t) = t"
proof -
  let ?d = "py_Decimal s"
  have b: "mag ?d < 10 ^ 40" "-40 \<le> d_exp ?d" "d_exp ?d \<le> 0"
    using plain_signed_bounds [OF assms(1)] by (auto simp: mag_abs_val)
  have "plain_signed t \<and> val (py_Decimal t) = val ?d \<and> ev_plain (py_Decimal t) = t"
  proof (cases "val ?d = 0")
    case True
    then have "t = ''0''" by (simp add: t_def ev_plain_def dec_val)
    then show ?thesis using True by (simp add: ev_plain_def dec_val py_eval)
  next
    case False
    obtain u where u: "t = (if d_sign ?d then CHR ''-'' # u else u)" "canonical_text u" "val (py_Decimal u) = mag ?d"
      unfolding t_def by (rule ev_plain_parts [OF b False])
    have p: "plain_unsigned u" by (rule canonical_text_plain [OF u(2)])
    note M = py_Decimal_minus [OF p]
    have ps: "plain_signed t"
      using p plain_unsigned_imp_signed [OF p] by (simp add: u(1) plain_signed_def)
    have mu: "mag (py_Decimal u) = mag ?d" using u(3) M(3) by (simp add: val_mag)
    have sg: "d_sign (py_Decimal t) = d_sign ?d" and mt: "mag (py_Decimal t) = mag ?d"
      using M mu by (simp_all add: u(1))
    then have v: "val (py_Decimal t) = val ?d" by (simp add: val_mag)
    have b': "mag (py_Decimal t) < 10 ^ 40" "-40 \<le> d_exp (py_Decimal t)" "d_exp (py_Decimal t) \<le> 0"
      using plain_signed_bounds [OF ps] by (auto simp: mag_abs_val)
    obtain w where w: "ev_plain (py_Decimal t) = (if d_sign (py_Decimal t) then CHR ''-'' # w else w)" "canonical_text w"
      "val (py_Decimal w) = mag (py_Decimal t)"
      using ev_plain_parts [OF b'] v False by metis
    have "w = u" using canonical_text_unique [OF w(2) u(2)] w(3) u(3) mt by simp
    then show ?thesis using ps v w(1) sg u(1) by simp
  qed
  then show "plain_signed t" "val (py_Decimal t) = val (py_Decimal s)" "ev_plain (py_Decimal t) = t" by blast+
qed

lemma ev_number_Inr:
  "ev_number v f nonneg unit_range = Inr n \<longleftrightarrow> plain_signed v \<and> n = py_Decimal v \<and> (nonneg \<longrightarrow> 0 \<le> val n)
     \<and> (unit_range \<longrightarrow> 0 \<le> val n \<and> val n \<le> 1)"
  by (auto simp: ev_number_def Let_def dec_val)

lemma ev_number_plain:
  assumes "ev_number v f nonneg unit_range = Inr n"
  shows "\<exists>m. ev_number (ev_plain n) f nonneg unit_range = Inr m \<and> ev_plain m = ev_plain n \<and> val m = val n"
  using assms ev_plain_ok [of v] by (auto simp: ev_number_Inr)

section \<open>Rebuilding the evidence changes nothing\<close>

definition numbers_ok :: "SymbolEvidence \<Rightarrow> bool" where
  "numbers_ok r \<longleftrightarrow> plain_signed (se_total_return r) \<and> plain_signed (se_buy_hold_return r)
     \<and> plain_signed (se_maximum_drawdown r) \<and> 0 \<le> val (py_Decimal (se_maximum_drawdown r))
     \<and> val (py_Decimal (se_maximum_drawdown r)) \<le> 1
     \<and> plain_signed (se_total_cost_quote r) \<and> 0 \<le> val (py_Decimal (se_total_cost_quote r))
     \<and> plain_signed (se_buy_hold_maximum_drawdown r) \<and> 0 \<le> val (py_Decimal (se_buy_hold_maximum_drawdown r))
     \<and> val (py_Decimal (se_buy_hold_maximum_drawdown r)) \<le> 1
     \<and> list_all plain_signed (se_segment_returns r)"

definition numbers_of :: "SymbolEvidence \<Rightarrow> EvidenceNumbers" where
  "numbers_of r = \<lparr> en_total_return = py_Decimal (se_total_return r),
     en_maximum_drawdown = py_Decimal (se_maximum_drawdown r), en_total_cost_quote = py_Decimal (se_total_cost_quote r),
     en_buy_hold_return = py_Decimal (se_buy_hold_return r),
     en_buy_hold_maximum_drawdown = py_Decimal (se_buy_hold_maximum_drawdown r),
     en_segment_returns = map py_Decimal (se_segment_returns r) \<rparr>"

lemma segments_Inr:
  "map_r (\<lambda>v. ev_number v f False False) vs = Inr ns \<longleftrightarrow> list_all plain_signed vs \<and> ns = map py_Decimal vs"
  by (induction vs arbitrary: ns) (auto simp: bind_r_eq_Inr ev_number_Inr)

lemma evidence_numbers_Inr: "evidence_numbers r = Inr n \<longleftrightarrow> numbers_ok r \<and> n = numbers_of r"
  by (auto simp: evidence_numbers_def bind_r_eq_Inr ev_number_Inr segments_Inr numbers_ok_def numbers_of_def)

definition evidence_frame :: "SymbolEvidence \<Rightarrow> bool" where
  "evidence_frame r \<longleftrightarrow> se_symbol r \<in> set SYMBOLS \<and> se_evaluation_start_ms r < se_evaluation_end_ms r
     \<and> 0 \<le> se_trade_count r \<and> se_trade_count r \<le> 1000000 \<and> length (se_segment_returns r) = 3
     \<and> valid_digest (se_plan_sha256 r) \<and> valid_digest (se_configuration_sha256 r) \<and> valid_digest (se_dataset_sha256 r)"

definition normalised :: "SymbolEvidence \<Rightarrow> SymbolEvidence" where
  "normalised r = r\<lparr> se_total_return := ev_plain (py_Decimal (se_total_return r)),
     se_maximum_drawdown := ev_plain (py_Decimal (se_maximum_drawdown r)),
     se_total_cost_quote := ev_plain (py_Decimal (se_total_cost_quote r)),
     se_buy_hold_return := ev_plain (py_Decimal (se_buy_hold_return r)),
     se_buy_hold_maximum_drawdown := ev_plain (py_Decimal (se_buy_hold_maximum_drawdown r)),
     se_segment_returns := map (\<lambda>v. ev_plain (py_Decimal v)) (se_segment_returns r) \<rparr>"

lemma SymbolEvidence_init_Inr:
  "SymbolEvidence_init r = Inr q \<longleftrightarrow> evidence_frame r \<and> numbers_ok r \<and> q = normalised r"
  by (auto simp: SymbolEvidence_init_def bind_r_eq_Inr ev_sha256_def evidence_numbers_Inr evidence_frame_def
      normalised_def numbers_of_def SEGMENT_COUNT_def comp_def split: if_splits)

lemma normalised_ok:
  assumes "numbers_ok r"
  shows "numbers_ok (normalised r)" "normalised (normalised r) = normalised r"
    "evidence_frame (normalised r) = evidence_frame r"
    "val (py_Decimal (se_total_return (normalised r))) = val (py_Decimal (se_total_return r))"
  using assms ev_plain_ok
  by (auto simp: numbers_ok_def normalised_def list_all_iff evidence_frame_def)

lemma normalised_fields [simp]:
  "se_symbol (normalised r) = se_symbol r" "se_trade_count (normalised r) = se_trade_count r"
  "se_replay_equal (normalised r) = se_replay_equal r"
  "se_point_in_time_verified (normalised r) = se_point_in_time_verified r"
  "se_future_isolation_verified (normalised r) = se_future_isolation_verified r"
  "matches_plan plan d (normalised r) = matches_plan plan d r"
  by (simp_all add: normalised_def matches_plan_def)

lemma runs_rebuilt:
  assumes "map_r SymbolEvidence_init runs = Inr qs"
  shows "list_all numbers_ok qs" "map_r SymbolEvidence_init qs = Inr qs"
proof -
  from assms have "list_all2 (\<lambda>r q. SymbolEvidence_init q = Inr q \<and> numbers_ok q) runs qs"
    unfolding map_r_eq_Inr
    by (rule list.rel_mono_strong) (auto simp: SymbolEvidence_init_Inr normalised_ok)
  then show "list_all numbers_ok qs" "map_r SymbolEvidence_init qs = Inr qs"
    by (induction rule: list_all2_induct) simp_all
qed

lemma map_r_numbers: "map_r evidence_numbers qs = Inr ns \<longleftrightarrow> list_all numbers_ok qs \<and> ns = map numbers_of qs"
  by (induction qs arbitrary: ns) (auto simp: bind_r_eq_Inr evidence_numbers_Inr)

lemma map_r_sort:
  assumes "map_r f xs = Inr xs"
  shows "map_r f (sort_key k xs) = Inr (sort_key k xs)"
proof -
  have "f x = Inr x" if "x \<in> set xs" for x
    using assms that by (induction xs) (auto simp: bind_r_eq_Inr)
  then have "map_r f ys = Inr ys" if "set ys \<subseteq> set xs" for ys
    using that by (induction ys) simp_all
  then show ?thesis by simp
qed

text \<open>The assessment that a legal plan and legal runs have.\<close>

definition expected_assessment :: "EvaluationPlan \<Rightarrow> SymbolEvidence list \<Rightarrow> Assessment" where
  "expected_assessment plan ordered =
     (let p = DECIMAL_PRECISION; numbers = map numbers_of ordered;
          mean = (\<lambda>f. d_div p (d_sum p (map f numbers)) (dec_of_int (int (length ordered))));
          insufficient = insufficient_reasons plan ordered; rejected = rejected_reasons ordered numbers
      in \<lparr> as_runs = ordered,
           as_label = (if insufficient \<noteq> [] then INSUFFICIENT_EVIDENCE else if rejected \<noteq> [] then REJECTED
             else QUALIFIED_FOR_P4_RESEARCH),
           as_reasons = (if insufficient \<noteq> [] then insufficient else if rejected \<noteq> [] then rejected
             else [ALL_GATES_PASSED]),
           as_total_trades = sum_list (map se_trade_count ordered),
           as_mean_total_return = mean en_total_return, as_mean_buy_hold_return = mean en_buy_hold_return,
           as_total_cost_quote = d_sum p (map en_total_cost_quote numbers) \<rparr>)"

definition legal_evidence :: "EvaluationPlan \<Rightarrow> SymbolEvidence list \<Rightarrow> SymbolEvidence list \<Rightarrow> bool" where
  "legal_evidence plan runs ordered \<longleftrightarrow>
     (\<exists>replaced digest. map_r SymbolEvidence_init runs = Inr replaced \<and> ordered = sort_key se_symbol replaced
        \<and> length runs = length SYMBOLS \<and> map se_symbol ordered = sort SYMBOLS \<and> plan_sha256 plan = Inr digest
        \<and> list_all (matches_plan plan digest) ordered)"

lemma assessment_legal:
  assumes "legal_evidence plan runs ordered"
  shows "assessment plan runs = Inr (expected_assessment plan ordered)"
proof -
  from assms obtain qs digest where q: "map_r SymbolEvidence_init runs = Inr qs" "ordered = sort_key se_symbol qs"
    "length runs = length SYMBOLS" "map se_symbol ordered = sort SYMBOLS" "plan_sha256 plan = Inr digest"
    "list_all (matches_plan plan digest) ordered"
    by (auto simp: legal_evidence_def)
  have v: "EvaluationPlan_post_init plan = Inr ()"
    using q(5) by (auto simp: plan_sha256_def plan_to_record_def bind_r_eq_Inr)
  have n: "map_r evidence_numbers ordered = Inr (map numbers_of ordered)"
    using runs_rebuilt(1) [OF q(1)] by (simp add: map_r_numbers q(2) list_all_iff)
  have "assessment plan runs = (let p = DECIMAL_PRECISION; numbers = map numbers_of ordered;
                   mean = (\<lambda>f. d_div p (d_sum p (map f numbers)) (dec_of_int (int (length ordered))));
                   insufficient = insufficient_reasons plan ordered;
                   rejected = rejected_reasons ordered numbers;
                   (label, reasons) =
                     (if insufficient \<noteq> [] then (INSUFFICIENT_EVIDENCE, insufficient)
                      else if rejected \<noteq> [] then (REJECTED, rejected)
                      else (QUALIFIED_FOR_P4_RESEARCH, [ALL_GATES_PASSED]))
               in Inr \<lparr> as_runs = ordered, as_label = label, as_reasons = reasons,
                    as_total_trades = sum_list (map se_trade_count ordered),
                    as_mean_total_return = mean en_total_return,
                    as_mean_buy_hold_return = mean en_buy_hold_return,
                    as_total_cost_quote = d_sum p (map en_total_cost_quote numbers) \<rparr>)"
    unfolding assessment_def q(1) v bind_r_simps Let_def q(2) [symmetric] using q(3-6) n by simp
  also have "\<dots> = Inr (expected_assessment plan ordered)"
    unfolding expected_assessment_def Let_def by (simp split: if_split)
  finally show ?thesis .
qed

lemma assessment_Inr:
  "assessment plan runs = Inr a \<longleftrightarrow> (\<exists>ordered. legal_evidence plan runs ordered \<and> a = expected_assessment plan ordered)"
proof
  assume a: "assessment plan runs = Inr a"
  then obtain qs digest where "map_r SymbolEvidence_init runs = Inr qs" "length runs = length SYMBOLS"
    "map se_symbol (sort_key se_symbol qs) = sort SYMBOLS" "plan_sha256 plan = Inr digest"
    "list_all (matches_plan plan digest) (sort_key se_symbol qs)"
    unfolding assessment_def Let_def bind_r_eq_Inr if_Inl_eq_Inr by blast
  then have l: "legal_evidence plan runs (sort_key se_symbol qs)" by (auto simp: legal_evidence_def)
  then show "\<exists>ordered. legal_evidence plan runs ordered \<and> a = expected_assessment plan ordered"
    using assessment_legal [OF l] a by auto
qed (auto simp: assessment_legal)

lemma legal_again:
  assumes "legal_evidence plan runs ordered"
  shows "legal_evidence plan ordered ordered"
proof -
  from assms obtain qs digest where q: "map_r SymbolEvidence_init runs = Inr qs" "ordered = sort_key se_symbol qs"
    "length runs = length SYMBOLS" "map se_symbol ordered = sort SYMBOLS" "plan_sha256 plan = Inr digest"
    "list_all (matches_plan plan digest) ordered"
    by (auto simp: legal_evidence_def)
  have "map_r SymbolEvidence_init ordered = Inr ordered"
    unfolding q(2) by (rule map_r_sort [OF runs_rebuilt(2) [OF q(1)]])
  moreover have "sort_key se_symbol ordered = ordered" by (simp add: q(2) sort_key_id_if_sorted)
  moreover have "length ordered = length SYMBOLS" using map_r_length [OF q(1)] q(2,3) by simp
  ultimately show ?thesis using q(4-6) by (auto simp: legal_evidence_def)
qed

lemma assess_evidence_Inr:
  "assess_evidence plan runs = Inr r \<longleftrightarrow>
     (\<exists>ordered. legal_evidence plan runs ordered \<and> r = \<lparr> er_plan = plan, er_assessment = expected_assessment plan ordered \<rparr>)"
proof -
  have "EvaluationReport_post_init \<lparr> er_plan = plan, er_assessment = expected_assessment plan ordered \<rparr> = Inr ()"
    if "legal_evidence plan runs ordered" for ordered
  proof -
    have "assessment plan ordered = Inr (expected_assessment plan ordered)"
      using assessment_Inr legal_again [OF that] by blast
    then show ?thesis
      by (simp add: EvaluationReport_post_init_def expected_assessment_def Let_def assessment_eq_def dec_val)
  qed
  then show ?thesis by (auto simp: assess_evidence_def bind_r_eq_Inr construct_eq_Inr assessment_Inr)
qed

section \<open>The label\<close>

lemma price_like_signed: "plain_signed s \<Longrightarrow> price_like (val (py_Decimal s))"
  using plain_signed_bounds [of s] by (auto simp: price_like_def intro!: on_grid_val)

lemma gate_literals: "val MAX_DRAWDOWN = 1 / 4" "val (d_neg DEFAULT_PRECISION MAX_SEGMENT_LOSS) = - 1 / 10"
proof -
  have v: "val MAX_SEGMENT_LOSS = 1 / 10" by (simp add: MAX_SEGMENT_LOSS_def py_eval val_def power_int_minus)
  have r: "representable DEFAULT_PRECISION (1 / 10)"
    using on_grid_int [of 1] on_grid_shift [of 0 "-1" 1]
    by (intro representable_grid [of "-1"]) (simp_all add: DEFAULT_PRECISION_def power_int_minus field_simps)
  have "val (d_neg DEFAULT_PRECISION MAX_SEGMENT_LOSS) = - val MAX_SEGMENT_LOSS"
    using r unfolding v [symmetric] by (rule val_d_neg [rotated]) (simp add: DEFAULT_PRECISION_def)
  then show "val (d_neg DEFAULT_PRECISION MAX_SEGMENT_LOSS) = - 1 / 10" unfolding v by simp
  show "val MAX_DRAWDOWN = 1 / 4" by (simp add: MAX_DRAWDOWN_def py_eval val_def power_int_minus)
qed

text \<open>The gates of one run, on exact numbers.\<close>

definition run_passes :: "SymbolEvidence \<Rightarrow> bool" where
  "run_passes r \<longleftrightarrow> se_replay_equal r \<and> se_point_in_time_verified r \<and> se_future_isolation_verified r
     \<and> 0 < val (py_Decimal (se_total_return r))
     \<and> val (py_Decimal (se_buy_hold_return r)) < val (py_Decimal (se_total_return r))
     \<and> val (py_Decimal (se_maximum_drawdown r)) \<le> 1 / 4
     \<and> val (py_Decimal (se_maximum_drawdown r)) \<le> val (py_Decimal (se_buy_hold_maximum_drawdown r))
     \<and> 2 \<le> length (filter (\<lambda>v. 0 < val (py_Decimal v)) (se_segment_returns r))
     \<and> list_all (\<lambda>v. - 1 / 10 \<le> val (py_Decimal v)) (se_segment_returns r)"

lemma unstable_exact:
  assumes "se_segment_returns r \<noteq> []"
  shows "unstable (numbers_of r) \<longleftrightarrow> length (filter (\<lambda>v. 0 < val (py_Decimal v)) (se_segment_returns r)) < 2
    \<or> \<not> list_all (\<lambda>v. - 1 / 10 \<le> val (py_Decimal v)) (se_segment_returns r)"
proof -
  have "val (d_min_list (map py_Decimal (se_segment_returns r))) = Min ((val \<circ> py_Decimal) ` set (se_segment_returns r))"
    using assms by (subst val_d_min_list) (simp_all add: image_comp)
  moreover have "Min ((val \<circ> py_Decimal) ` set (se_segment_returns r)) < x
      \<longleftrightarrow> (\<exists>v\<in>set (se_segment_returns r). val (py_Decimal v) < x)" for x
    using assms by (subst Min_less_iff) auto
  ultimately show ?thesis
    by (auto simp: unstable_def numbers_of_def dec_val gate_literals filter_map comp_def list_all_iff not_le)
qed

lemma rejected_iff:
  assumes "list_all (\<lambda>r. length (se_segment_returns r) = 3) runs"
  shows "rejected_reasons runs (map numbers_of runs) = [] \<longleftrightarrow> list_all run_passes runs"
proof -
  have "unstable (numbers_of r) \<longleftrightarrow> length (filter (\<lambda>v. 0 < val (py_Decimal v)) (se_segment_returns r)) < 2
    \<or> \<not> list_all (\<lambda>v. - 1 / 10 \<le> val (py_Decimal v)) (se_segment_returns r)" if "r \<in> set runs" for r
    using assms that by (intro unstable_exact) (auto simp: list_all_iff)
  then have "\<not> software_failed r \<and> \<not> d_le (en_total_return (numbers_of r)) d_zero
      \<and> \<not> d_le (en_total_return (numbers_of r)) (en_buy_hold_return (numbers_of r))
      \<and> \<not> d_lt (d_min MAX_DRAWDOWN (en_buy_hold_maximum_drawdown (numbers_of r))) (en_maximum_drawdown (numbers_of r))
      \<and> \<not> unstable (numbers_of r) \<longleftrightarrow> run_passes r" if "r \<in> set runs" for r
    using that by (simp add: software_failed_def run_passes_def dec_val d_min_val gate_literals numbers_of_def not_less not_le)
      blast
  moreover have "rejected_reasons runs (map numbers_of runs) = [] \<longleftrightarrow>
      (\<forall>r\<in>set runs. \<not> software_failed r \<and> \<not> d_le (en_total_return (numbers_of r)) d_zero
      \<and> \<not> d_le (en_total_return (numbers_of r)) (en_buy_hold_return (numbers_of r))
      \<and> \<not> d_lt (d_min MAX_DRAWDOWN (en_buy_hold_maximum_drawdown (numbers_of r))) (en_maximum_drawdown (numbers_of r))
      \<and> \<not> unstable (numbers_of r))"
    by (auto simp: rejected_reasons_def list_ex_iff)
  ultimately show ?thesis by (simp add: list_all_iff)
qed

lemma insufficient_iff:
  "insufficient_reasons plan runs = [] \<longleftrightarrow> 180 \<le> evaluation_days plan \<and> 60 \<le> sum_list (map se_trade_count runs)
     \<and> list_all (\<lambda>r. 30 \<le> se_trade_count r) runs"
  by (auto simp: insufficient_reasons_def MIN_EVALUATION_DAYS_def MIN_TOTAL_TRADES_def MIN_TRADES_PER_SYMBOL_def
      list_ex_iff list_all_iff not_less not_le)

lemma exact_pair_mean:
  assumes "list_all (\<lambda>x. price_like (val x)) xs" "length xs = 2"
  shows "val (d_div DECIMAL_PRECISION (d_sum DECIMAL_PRECISION xs) (dec_of_int 2)) = sum_list (map val xs) / 2"
proof -
  let ?s = "sum_list (map val xs)"
  have s: "val (d_sum DECIMAL_PRECISION xs) = ?s" "on_grid (-40) ?s" "\<bar>?s\<bar> \<le> 2 * 10 ^ 40"
    using val_d_sum_exact [OF assms(1)] assms(2) by simp_all
  have "on_grid (-44) (?s / 2)"
    using on_grid_bps [of "-40" "?s * of_int 5000"] on_grid_mult [OF s(2) on_grid_int [of 5000]] by simp
  then have "representable DECIMAL_PRECISION (?s / 2)"
    using s(3) by (intro representable_256 [of "-44" _ 41]) simp_all
  then show ?thesis using val_d_div [of DECIMAL_PRECISION "dec_of_int 2"] s(1) by (simp add: val_dec_of_int)
qed

lemma legal_runs:
  assumes "legal_evidence plan runs ordered"
  shows "list_all numbers_ok ordered" "length ordered = 2" "list_all (\<lambda>r. length (se_segment_returns r) = 3) ordered"
proof -
  have l: "legal_evidence plan ordered ordered" by (rule legal_again [OF assms])
  then obtain qs where q: "map_r SymbolEvidence_init ordered = Inr qs" "ordered = sort_key se_symbol qs"
    "length ordered = length SYMBOLS"
    by (auto simp: legal_evidence_def)
  show "list_all numbers_ok ordered" using runs_rebuilt(1) [OF q(1)] q(2) by (simp add: list_all_iff)
  show "length ordered = 2" using q(3) by (simp add: SYMBOLS_def)
  have "list_all2 (\<lambda>r q. evidence_frame r) ordered qs"
    using q(1) unfolding map_r_eq_Inr by (rule list.rel_mono_strong) (simp add: SymbolEvidence_init_Inr)
  then have "list_all evidence_frame ordered" by (induction rule: list_all2_induct) simp_all
  then show "list_all (\<lambda>r. length (se_segment_returns r) = 3) ordered" by (simp add: list_all_iff evidence_frame_def)
qed

section \<open>Properties\<close>

text \<open>C20. The evidence label is exact: a legal plan with one legal run per symbol always gets a report;
the evidence is insufficient exactly when the window is shorter than 180 days or a trade count is below
its minimum, and otherwise qualified exactly when every run passes all its gates on exact numbers; the
pooled means and the total cost are exact.\<close>

theorem evidence_label_exact:
  assumes "legal_evidence plan runs ordered"
  shows "\<exists>r. assess_evidence plan runs = Inr r \<and> as_runs (er_assessment r) = ordered
    \<and> (as_label (er_assessment r) = INSUFFICIENT_EVIDENCE \<longleftrightarrow>
         evaluation_days plan < 180 \<or> sum_list (map se_trade_count ordered) < 60
         \<or> \<not> list_all (\<lambda>run. 30 \<le> se_trade_count run) ordered)
    \<and> (as_label (er_assessment r) = QUALIFIED_FOR_P4_RESEARCH \<longleftrightarrow>
         as_label (er_assessment r) \<noteq> INSUFFICIENT_EVIDENCE \<and> list_all run_passes ordered)
    \<and> val (as_mean_total_return (er_assessment r)) = (\<Sum>run\<leftarrow>ordered. val (py_Decimal (se_total_return run))) / 2
    \<and> val (as_mean_buy_hold_return (er_assessment r)) = (\<Sum>run\<leftarrow>ordered. val (py_Decimal (se_buy_hold_return run))) / 2
    \<and> val (as_total_cost_quote (er_assessment r)) = (\<Sum>run\<leftarrow>ordered. val (py_Decimal (se_total_cost_quote run)))"
proof -
  let ?a = "expected_assessment plan ordered" and ?n = "map numbers_of ordered"
  note L = legal_runs [OF assms]
  have pl: "list_all (\<lambda>x. price_like (val x)) (map en_total_return ?n)"
    "list_all (\<lambda>x. price_like (val x)) (map en_buy_hold_return ?n)"
    "list_all (\<lambda>x. price_like (val x)) (map en_total_cost_quote ?n)"
    using L(1) by (auto simp: list_all_iff numbers_of_def numbers_ok_def intro: price_like_signed)
  have "val (as_mean_total_return ?a) = (\<Sum>run\<leftarrow>ordered. val (py_Decimal (se_total_return run))) / 2"
    "val (as_mean_buy_hold_return ?a) = (\<Sum>run\<leftarrow>ordered. val (py_Decimal (se_buy_hold_return run))) / 2"
    using exact_pair_mean [OF pl(1)] exact_pair_mean [OF pl(2)] L(2)
    by (simp_all add: expected_assessment_def Let_def comp_def numbers_of_def)
  moreover have "val (as_total_cost_quote ?a) = (\<Sum>run\<leftarrow>ordered. val (py_Decimal (se_total_cost_quote run)))"
    using val_d_sum_exact [OF pl(3)] L(2) by (simp add: expected_assessment_def Let_def comp_def numbers_of_def)
  moreover have "as_runs ?a = ordered" by (simp add: expected_assessment_def Let_def)
  moreover have "as_label ?a = INSUFFICIENT_EVIDENCE \<longleftrightarrow> insufficient_reasons plan ordered \<noteq> []"
    "as_label ?a = QUALIFIED_FOR_P4_RESEARCH \<longleftrightarrow> insufficient_reasons plan ordered = [] \<and> rejected_reasons ordered ?n = []"
    by (simp_all add: expected_assessment_def Let_def)
  moreover have "assess_evidence plan runs = Inr \<lparr> er_plan = plan, er_assessment = ?a \<rparr>"
    using assess_evidence_Inr assms by blast
  ultimately show ?thesis
    using insufficient_iff [of plan ordered] rejected_iff [OF L(3)] by auto
qed

definition example_plan :: EvaluationPlan where
  "example_plan = \<lparr> pn_identity = TREND_PULLBACK_IDENTITY,
     pn_configuration_sha256 = (case configuration_sha256 \<lparr> cn_definition = trend_definition, cn_values = trend_values \<rparr> of
        Inr d \<Rightarrow> d),
     pn_training_start_ms = 1672531200000, pn_training_end_ms = 1704067200000,
     pn_evaluation_start_ms = 1704067200000, pn_evaluation_end_ms = 1719619200000, pn_symbols = SYMBOLS,
     pn_segment_count = 3, pn_protocol_version = PROTOCOL_VERSION \<rparr>"

definition example_evidence :: "string \<Rightarrow> SymbolEvidence" where
  "example_evidence symbol = \<lparr> se_symbol = symbol, se_plan_sha256 = py_digest (plan_record example_plan),
     se_configuration_sha256 = pn_configuration_sha256 example_plan,
     se_evaluation_start_ms = 1704067200000, se_evaluation_end_ms = 1719619200000,
     se_dataset_sha256 = sha256_hexdigest ''dataset'', se_trade_count = 31, se_total_return = ''0.3'',
     se_maximum_drawdown = ''0.1'', se_total_cost_quote = ''12.5'', se_buy_hold_return = ''-0.1'',
     se_buy_hold_maximum_drawdown = ''0.2'', se_segment_returns = [''0.1'', ''0.2'', ''-0.1''],
     se_replay_equal = True, se_point_in_time_verified = True, se_future_isolation_verified = True \<rparr>"

lemma example_digest: "valid_digest (pn_configuration_sha256 example_plan)"
  "configuration_sha256 \<lparr> cn_definition = trend_definition, cn_values = trend_values \<rparr> = Inr (pn_configuration_sha256 example_plan)"
  using trend_configuration_kept by (simp_all add: example_plan_def configuration_sha256_def configuration_to_json_def)

lemma example_plan_fields:
  "pn_identity example_plan = TREND_PULLBACK_IDENTITY" "pn_training_start_ms example_plan = 1672531200000"
  "pn_training_end_ms example_plan = 1704067200000" "pn_evaluation_start_ms example_plan = 1704067200000"
  "pn_evaluation_end_ms example_plan = 1719619200000" "pn_symbols example_plan = SYMBOLS"
  "pn_segment_count example_plan = 3" "pn_protocol_version example_plan = PROTOCOL_VERSION"
  by (simp_all add: example_plan_def)

lemma example_plan_valid: "EvaluationPlan_post_init example_plan = Inr ()"
proof -
  obtain bd where b: "configuration_sha256 \<lparr> cn_definition = breakout_definition, cn_values = breakout_values \<rparr> = Inr bd"
    using breakout_configuration_kept by (simp add: configuration_sha256_def configuration_to_json_def)
  have i: "StrategyIdentity_post_init TREND_PULLBACK_IDENTITY = Inr ()"
    by (simp add: StrategyIdentity_post_init_def STRATEGY_ID_PATTERN_def VERSION_PATTERN_def is_upper_def is_digit_def
        TREND_PULLBACK_IDENTITY_def)
  have l: "LOCKED_CONFIGURATIONS = Inr [(TREND_PULLBACK_IDENTITY, pn_configuration_sha256 example_plan), (BREAKOUT_IDENTITY, bd)]"
    using example_digest(2) b
    by (simp add: LOCKED_CONFIGURATIONS_def TREND_CONFIGURATION_eq BREAKOUT_CONFIGURATION_eq trend_definition_def
        breakout_definition_def)
  show ?thesis
    using example_digest(1) unfolding EvaluationPlan_post_init_def l
    by (simp add: i Let_def ev_sha256_def example_plan_fields DAY_MS_def SEGMENT_COUNT_def)
qed

lemma example_evidence_kept:
  assumes "symbol \<in> set SYMBOLS"
  shows "SymbolEvidence_init (example_evidence symbol) = Inr (example_evidence symbol)"
proof -
  have t: "ev_plain (py_Decimal ''0.3'') = ''0.3''" "ev_plain (py_Decimal ''0.1'') = ''0.1''" "ev_plain (py_Decimal ''0.2'') = ''0.2''"
    "ev_plain (py_Decimal ''12.5'') = ''12.5''" "ev_plain (py_Decimal ''-0.1'') = ''-0.1''"
    by code_simp+
  have p: "plain_signed ''0.3''" "plain_signed ''0.1''" "plain_signed ''0.2''" "plain_signed ''12.5''" "plain_signed ''-0.1''"
    by code_simp+
  have "evidence_frame (example_evidence symbol)"
    using assms example_digest(1) by (simp add: evidence_frame_def example_evidence_def)
  moreover have "numbers_ok (example_evidence symbol)"
    using p by (simp add: numbers_ok_def example_evidence_def py_eval val_def power_int_minus)
  moreover have "normalised (example_evidence symbol) = example_evidence symbol"
    using t by (simp add: normalised_def example_evidence_def)
  ultimately show ?thesis by (simp add: SymbolEvidence_init_Inr)
qed

theorem evidence_label_exact_witness:
  "\<exists>r. assess_evidence example_plan [example_evidence ''ETHUSDT'', example_evidence ''BTCUSDT''] = Inr r
     \<and> as_label (er_assessment r) = QUALIFIED_FOR_P4_RESEARCH \<and> val (as_mean_total_return (er_assessment r)) = 3 / 10"
proof -
  let ?runs = "[example_evidence ''ETHUSDT'', example_evidence ''BTCUSDT'']"
  let ?ordered = "[example_evidence ''BTCUSDT'', example_evidence ''ETHUSDT'']"
  have s: "se_symbol (example_evidence x) = x" for x by (simp add: example_evidence_def)
  have c: "''BTCUSDT'' \<le> ''ETHUSDT''" "\<not> ''ETHUSDT'' \<le> ''BTCUSDT''" "sort SYMBOLS = [''BTCUSDT'', ''ETHUSDT'']" by code_simp+
  have k: "SymbolEvidence_init (example_evidence ''BTCUSDT'') = Inr (example_evidence ''BTCUSDT'')"
    "SymbolEvidence_init (example_evidence ''ETHUSDT'') = Inr (example_evidence ''ETHUSDT'')"
    by (rule example_evidence_kept; simp add: SYMBOLS_def)+
  have "matches_plan example_plan (py_digest (plan_record example_plan)) (example_evidence x)" for x
    by (simp add: matches_plan_def example_evidence_def) (simp add: example_plan_def)
  then have l: "legal_evidence example_plan ?runs ?ordered"
    unfolding legal_evidence_def
    by (intro exI [of _ ?runs] exI [of _ "py_digest (plan_record example_plan)"])
      (simp add: k s c plan_sha256_def plan_to_record_def example_plan_valid, simp add: SYMBOLS_def)
  have d: "evaluation_days example_plan = 180" by (simp add: evaluation_days_def example_plan_fields DAY_MS_def)
  have p: "run_passes (example_evidence x)" "se_trade_count (example_evidence x) = 31"
    "val (py_Decimal (se_total_return (example_evidence x))) = 3 / 10" for x
    by (simp_all add: run_passes_def example_evidence_def py_eval val_def power_int_minus)
  obtain r where r: "assess_evidence example_plan ?runs = Inr r"
    "as_label (er_assessment r) = INSUFFICIENT_EVIDENCE \<longleftrightarrow> False"
    "as_label (er_assessment r) = QUALIFIED_FOR_P4_RESEARCH \<longleftrightarrow> as_label (er_assessment r) \<noteq> INSUFFICIENT_EVIDENCE"
    "val (as_mean_total_return (er_assessment r)) = (3 / 10 + 3 / 10) / 2"
    using evidence_label_exact [OF l] by (auto simp: d p)
  then show ?thesis by (intro exI [of _ r]) simp
qed

end
