(* ===== verification/Decimal_Root.thy ===== *)
theory Decimal_Root
  imports Decimal_Value
begin

text \<open>
  Two more operations of Python's \<^verbatim>\<open>Decimal\<close>, which the performance metrics use:
  \<^verbatim>\<open>x.sqrt()\<close> and \<^verbatim>\<open>x ** 2\<close>. The root is computed as the decimal module does it, one digit
  more than the precision with an integer root and a sticky digit, and shown to be
  faithful: no representable number separates it from the exact root. The power with
  an integer exponent is computed with three more digits and then rounded again.
\<close>

section \<open>Integer square root\<close>

text \<open>Newton's iteration from above; \<open>n = 0\<close> never occurs and only makes the function total.\<close>

function isqrt_loop :: "nat \<Rightarrow> nat \<Rightarrow> nat" where
  "isqrt_loop c n = (if n = 0 \<or> n \<le> c div n then n else isqrt_loop c ((n + c div n) div 2))"
  by pat_completeness auto
termination
  by (relation "measure snd") auto

declare isqrt_loop.simps [simp del]

lemma newton_above:
  fixes c n :: nat
  assumes "0 < n"
  shows "c < ((n + c div n) div 2 + 1) ^ 2"
proof -
  let ?a = "int n" and ?b = "int (c div n + 1)" and ?m = "int ((n + c div n) div 2 + 1)"
  have "c < n * (c div n + 1)"
    using assms dividend_less_times_div [of n c] by simp
  then have c: "int c < ?a * ?b" by (metis of_nat_less_iff of_nat_mult)
  have "n + (q + 1) \<le> 2 * ((n + q) div 2 + 1)" for q by arith
  then have s: "?a + ?b \<le> 2 * ?m" by (metis of_nat_add of_nat_le_iff of_nat_mult of_nat_numeral)
  have "4 * (?a * ?b) \<le> (?a + ?b) ^ 2"
    using zero_le_power2 [of "?a - ?b"] by (simp add: power2_eq_square algebra_simps)
  also have "\<dots> \<le> (2 * ?m) ^ 2" using s by (intro power_mono) auto
  also have "(2 * ?m) ^ 2 = 4 * ?m ^ 2" by (simp only: power_mult_distrib) simp
  finally have "int c < ?m ^ 2" using c by linarith
  then show ?thesis by (metis of_nat_less_iff of_nat_power)
qed

lemma isqrt_loop_root:
  "0 < c \<Longrightarrow> 0 < n \<Longrightarrow> c < (n + 1) ^ 2 \<Longrightarrow> isqrt_loop c n ^ 2 \<le> c \<and> c < (isqrt_loop c n + 1) ^ 2"
proof (induction c n rule: isqrt_loop.induct)
  case (1 c n)
  show ?case
  proof (cases "n \<le> c div n")
    case True
    then have "n * n \<le> c" using "1.prems"(2) by (simp add: less_eq_div_iff_mult_less_eq)
    then show ?thesis using True "1.prems"(3) by (simp add: isqrt_loop.simps [of c n] power2_eq_square)
  next
    case False
    let ?m = "(n + c div n) div 2"
    have above: "c < (?m + 1) ^ 2" by (rule newton_above [OF "1.prems"(2)])
    have "0 < ?m"
    proof (rule ccontr)
      assume "\<not> 0 < ?m"
      then have "c < 1" using above by simp
      then show False using "1.prems"(1) by simp
    qed
    then have "isqrt_loop c ?m ^ 2 \<le> c \<and> c < (isqrt_loop c ?m + 1) ^ 2"
      using "1.IH" "1.prems"(1,2) above False by simp
    then show ?thesis using False "1.prems"(2) by (simp add: isqrt_loop.simps [of c n])
  qed
qed

section \<open>Roots and squares\<close>

text \<open>The coefficient at an even exponent and half the number of its digits.\<close>

definition root_coeff :: "dec \<Rightarrow> nat" where
  "root_coeff d = (if odd (d_exp d) then d_coeff d * 10 else d_coeff d)"

definition root_digits :: "dec \<Rightarrow> nat" where
  "root_digits d = (if odd (d_exp d) then ndigits (d_coeff d) div 2 + 1 else (ndigits (d_coeff d) + 1) div 2)"

definition root_scaled :: "nat \<Rightarrow> int \<Rightarrow> nat" where
  "root_scaled c shift = (if 0 \<le> shift then c * 100 ^ nat shift else c div 100 ^ nat (- shift))"

definition root_exact :: "nat \<Rightarrow> int \<Rightarrow> bool" where
  "root_exact c shift \<longleftrightarrow> 0 \<le> shift \<or> c mod 100 ^ nat (- shift) = 0"

text \<open>\<^verbatim>\<open>d.sqrt()\<close> for a number that is not negative.\<close>

definition d_sqrt :: "nat \<Rightarrow> dec \<Rightarrow> dec" where
  "d_sqrt p d =
     (let e = d_exp d div 2 in
      if d_coeff d = 0 then d_fix p (Dec (d_sign d) 0 e)
      else
        let shift = int (p + 1) - int (root_digits d);
            c = root_scaled (root_coeff d) shift;
            n = isqrt_loop c (10 ^ (p + 1))
        in d_fix p (if root_exact (root_coeff d) shift \<and> n * n = c
             then Dec False (if 0 \<le> shift then n div 10 ^ nat shift else n * 10 ^ nat (- shift)) e
             else Dec False (if n mod 5 = 0 then n + 1 else n) (e - shift)))"

text \<open>\<^verbatim>\<open>d ** 2\<close>\<close>

definition d_square :: "nat \<Rightarrow> dec \<Rightarrow> dec" where
  "d_square p d = (if d_coeff d = 0 then d_zero else d_fix p (d_mul (p + 3) d d))"

lemma d_square_nonneg: "0 < p \<Longrightarrow> 0 \<le> val (d_square p d)"
  unfolding d_square_def
  using val_mul_nonneg [of "p + 3"] zero_le_square [of "val d"] val_mul_ge [of "p + 3" 0 d d]
  by (auto intro!: val_fix_nonneg)


lemma double_powi: "(10::rat) powi (2 * z) = 10 powi z * 10 powi z"
  using ten_powi_add [of z z] by simp

lemma hundred_power: "(100::nat) ^ k = 10 ^ (2 * k)"
  by (simp add: power_mult)

lemma root_scaled_size:
  assumes "10 ^ (2 * l) \<le> c" "c < 10 ^ (2 * l + 2)" "shift = int p - int l"
  shows "10 ^ (2 * p) \<le> root_scaled c shift" "root_scaled c shift < 10 ^ (2 * p + 2)"
proof -
  have "10 ^ (2 * p) \<le> root_scaled c shift \<and> root_scaled c shift < 10 ^ (2 * p + 2)"
  proof (cases "0 \<le> shift")
    case True
    then have p: "p = l + nat shift" using assms(3) by simp
    have "root_scaled c shift = c * 10 ^ (2 * nat shift)" using True by (simp add: root_scaled_def hundred_power)
    moreover have "10 ^ (2 * p) = (10::nat) ^ (2 * l) * 10 ^ (2 * nat shift)"
      "10 ^ (2 * p + 2) = (10::nat) ^ (2 * l + 2) * 10 ^ (2 * nat shift)"
      by (simp_all add: p power_add)
    ultimately show ?thesis using assms(1,2) by (simp only: mult_le_mono1 mult_less_mono1 zero_less_power zero_less_numeral)
  next
    case False
    then have l: "l = p + nat (- shift)" using assms(3) by simp
    let ?d = "(10::nat) ^ (2 * nat (- shift))"
    have "10 ^ (2 * p) * ?d \<le> c" using assms(1) by (simp add: l power_add)
    moreover have "c < 10 ^ (2 * p + 2) * ?d" using assms(2) by (simp add: l power_add mult.commute mult.left_commute)
    ultimately show ?thesis
      using False by (simp add: root_scaled_def hundred_power less_eq_div_iff_mult_less_eq div_less_iff_less_mult)
  qed
  then show "10 ^ (2 * p) \<le> root_scaled c shift" "root_scaled c shift < 10 ^ (2 * p + 2)" by simp_all
qed

lemma root_scaled_value:
  fixes c :: nat and shift :: int
  defines "C \<equiv> of_nat c * (10::rat) powi (2 * shift)"
  shows "of_nat (root_scaled c shift) \<le> C" "C < of_nat (root_scaled c shift + 1)"
    and "root_exact c shift \<Longrightarrow> C = of_nat (root_scaled c shift)"
    and "\<not> root_exact c shift \<Longrightarrow> of_nat (root_scaled c shift) < C"
proof -
  have "(of_nat (root_scaled c shift) \<le> C \<and> C < of_nat (root_scaled c shift + 1))
    \<and> (root_exact c shift \<longrightarrow> C = of_nat (root_scaled c shift))
    \<and> (\<not> root_exact c shift \<longrightarrow> of_nat (root_scaled c shift) < C)"
  proof (cases "0 \<le> shift")
    case True
    then have "(10::rat) powi (2 * shift) = of_nat (100 ^ nat shift)"
      by (simp add: ten_powi_nat nat_mult_distrib power_mult)
    then have "C = of_nat (root_scaled c shift)" using True unfolding C_def by (simp add: root_scaled_def)
    then show ?thesis using True by (simp add: root_exact_def)
  next
    case False
    let ?d = "(100::nat) ^ nat (- shift)"
    have "(10::rat) powi (2 * shift) = inverse (10 powi (2 * (- shift)))" by (simp add: power_int_minus)
    also have "(10::rat) powi (2 * (- shift)) = of_nat ?d"
    proof -
      have "nat (2 * (- shift)) = 2 * nat (- shift)" by simp
      then show ?thesis using False ten_powi_nat [of "2 * (- shift)"] by (simp only: hundred_power) simp
    qed
    finally have "C = of_nat c / of_nat ?d" unfolding C_def by (simp add: divide_inverse)
    moreover have "root_scaled c shift = c div ?d" using False by (simp add: root_scaled_def)
    ultimately show ?thesis
      using False div_quotient_cell [of ?d c] by (simp add: root_exact_def)
  qed
  then show "of_nat (root_scaled c shift) \<le> C" "C < of_nat (root_scaled c shift + 1)"
    "root_exact c shift \<Longrightarrow> C = of_nat (root_scaled c shift)"
    "\<not> root_exact c shift \<Longrightarrow> of_nat (root_scaled c shift) < C"
    by simp_all
qed


text \<open>A representable number and the root of \<open>C\<close>, when \<open>n\<close> is the integer root of the scaled coefficient.\<close>

lemma root_cell:
  fixes x C :: rat
  assumes "representable p x" "0 \<le> x" "0 < p" "10 ^ (p - 1) \<le> n" "n ^ 2 \<le> c'" "c' < (n + 1) ^ 2"
    and "of_nat c' \<le> C" "C < of_nat (c' + 1)"
  shows "x ^ 2 \<le> C * 10 powi (2 * z) \<Longrightarrow> x \<le> of_nat n * 10 powi z"
    and "of_nat n ^ 2 < C \<Longrightarrow> C * 10 powi (2 * z) \<le> x ^ 2 \<Longrightarrow> of_nat (n + 1) * 10 powi z \<le> x"
proof -
  let ?u = "(10::rat) powi z"
  have sq: "(of_nat m * ?u) ^ 2 = of_nat (m ^ 2) * 10 powi (2 * z)" for m
    unfolding double_powi by (simp add: power2_eq_square)
  have u: "(0::rat) < 10 powi (2 * z)" by simp
  have gap: "x \<le> of_nat n * ?u \<or> of_nat (n + 1) * ?u \<le> x"
    using representable_gap [OF assms(1,3,4)] .
  have "C < of_nat ((n + 1) ^ 2)"
  proof (rule order_less_le_trans [OF assms(8)])
    have "c' + 1 \<le> (n + 1) ^ 2" using assms(6) by simp
    then show "(of_nat (c' + 1) :: rat) \<le> of_nat ((n + 1) ^ 2)" by (simp only: of_nat_le_iff)
  qed
  then have up: "C * 10 powi (2 * z) < (of_nat (n + 1) * ?u) ^ 2" unfolding sq using u by simp
  show "x \<le> of_nat n * ?u" if "x ^ 2 \<le> C * 10 powi (2 * z)"
  proof -
    have "x ^ 2 < (of_nat (n + 1) * ?u) ^ 2" using that up by linarith
    then have "x < of_nat (n + 1) * ?u" by (rule power_less_imp_less_base) simp
    then show ?thesis using gap by linarith
  qed
  show "of_nat (n + 1) * ?u \<le> x" if "of_nat n ^ 2 < C" "C * 10 powi (2 * z) \<le> x ^ 2"
  proof -
    have "of_nat (n ^ 2) * 10 powi (2 * z) < C * 10 powi (2 * z)"
      using that(1) u by (intro mult_strict_right_mono) simp_all
    then have "(of_nat n * ?u) ^ 2 < x ^ 2" using that(2) unfolding sq by linarith
    then have "of_nat n * ?u < x" using assms(2) by (rule power_less_imp_less_base)
    then show ?thesis using gap by linarith
  qed
qed


lemma root_coeff_size:
  assumes "d_coeff d \<noteq> 0"
  shows "10 ^ (2 * (root_digits d - 1)) \<le> root_coeff d" "root_coeff d < 10 ^ (2 * (root_digits d - 1) + 2)" "0 < root_digits d"
proof -
  let ?k = "ndigits (d_coeff d)" and ?l = "root_digits d - 1"
  have lo: "10 ^ (?k - 1) \<le> d_coeff d" and hi: "d_coeff d < 10 ^ ?k" and k: "0 < ?k"
    using assms ndigits_lower [of "d_coeff d"] ndigits_upper [of "d_coeff d"] by simp_all
  have "10 ^ (2 * ?l) \<le> root_coeff d \<and> root_coeff d < 10 ^ (2 * ?l + 2)"
  proof (cases "odd (d_exp d)")
    case True
    then have l: "?l = ?k div 2" by (simp add: root_digits_def)
    have "(10::nat) ^ (2 * ?l) \<le> 10 ^ (?k - 1 + 1)" unfolding l using k by (intro power_increasing) auto
    also have "\<dots> \<le> d_coeff d * 10" unfolding power_add using lo by simp
    finally have 1: "10 ^ (2 * ?l) \<le> root_coeff d" using True by (simp add: root_coeff_def)
    have "d_coeff d * 10 < 10 ^ (?k + 1)" using hi by simp
    also have "\<dots> \<le> 10 ^ (2 * ?l + 2)" unfolding l by (intro power_increasing) auto
    finally show ?thesis using 1 True by (simp add: root_coeff_def)
  next
    case False
    then have l: "?l = (?k + 1) div 2 - 1" by (simp add: root_digits_def)
    have "(10::nat) ^ (2 * ?l) \<le> 10 ^ (?k - 1)" unfolding l using k by (intro power_increasing) auto
    also note lo
    finally have 1: "10 ^ (2 * ?l) \<le> root_coeff d" using False by (simp add: root_coeff_def)
    note hi
    also have "10 ^ ?k \<le> (10::nat) ^ (2 * ?l + 2)" unfolding l by (intro power_increasing) auto
    finally show ?thesis using 1 False by (simp add: root_coeff_def)
  qed
  then show "10 ^ (2 * ?l) \<le> root_coeff d" "root_coeff d < 10 ^ (2 * ?l + 2)" by simp_all
  show "0 < root_digits d" using k by (auto simp: root_digits_def)
qed

lemma isqrt_of_scaled:
  assumes "10 ^ (2 * p) \<le> c" "c < 10 ^ (2 * p + 2)"
  shows "isqrt_loop c (10 ^ (p + 1)) ^ 2 \<le> c" "c < (isqrt_loop c (10 ^ (p + 1)) + 1) ^ 2"
    and "10 ^ p \<le> isqrt_loop c (10 ^ (p + 1))"
proof -
  let ?n = "isqrt_loop c (10 ^ (p + 1))"
  have "(10::nat) ^ (2 * p + 2) = (10 ^ (p + 1)) ^ 2" by (simp add: power_mult [symmetric] mult.commute)
  then have "c < (10 ^ (p + 1) + 1) ^ 2"
    using assms(2) by (simp only:) (rule less_le_trans, assumption, rule power_mono, simp_all)
  moreover have "0 < c" using assms(1) by (rule less_le_trans [rotated]) simp
  ultimately show r: "?n ^ 2 \<le> c" "c < (?n + 1) ^ 2"
    using isqrt_loop_root [of c "10 ^ (p + 1)"] by simp_all
  have "(10 ^ p) ^ 2 < (?n + 1) ^ 2"
    using assms(1) r(2) by (simp add: power_mult [symmetric] mult.commute)
  then have "10 ^ p < ?n + 1" by (rule power_less_imp_less_base) simp
  then show "10 ^ p \<le> ?n" by simp
qed

lemma exact_root_value:
  assumes "root_exact c shift" "n * n = root_scaled c shift"
  shows "of_nat (if 0 \<le> shift then n div 10 ^ nat shift else n * 10 ^ nat (- shift)) * (10::rat) powi e
    = of_nat n * 10 powi (e - shift)"
proof (cases "0 \<le> shift")
  case True
  let ?u = "(10::nat) ^ nat shift"
  have "n ^ 2 = c * ?u ^ 2"
    using assms(2) True by (simp add: root_scaled_def power2_eq_square power_mult_distrib [symmetric])
  then have "?u ^ 2 dvd n ^ 2" by simp
  then have "?u dvd n" by simp
  then have "of_nat n = of_nat (n div ?u) * (10::rat) ^ nat shift"
    by (metis dvd_div_mult_self of_nat_mult of_nat_numeral of_nat_power)
  then show ?thesis using True by (simp add: power_int_diff ten_powi_nat)
next
  case False
  then show ?thesis by (simp add: power_int_diff ten_powi_nat [symmetric] power_int_minus field_simps)
qed

text \<open>The number before rounding brackets the exact root.\<close>

lemma d_sqrt_unrounded:
  assumes p: "0 < p" and d: "d_coeff d \<noteq> 0" "\<not> d_sign d"
  obtains y where "d_sqrt p d = d_fix p y"
    "\<And>x. representable p x \<Longrightarrow> 0 \<le> x \<Longrightarrow> val d \<le> x ^ 2 \<Longrightarrow> val y \<le> x"
    "\<And>x. representable p x \<Longrightarrow> 0 \<le> x \<Longrightarrow> x ^ 2 \<le> val d \<Longrightarrow> x \<le> val y"
proof -
  define e where "e = d_exp d div 2"
  define c where "c = root_coeff d"
  define l where "l = root_digits d"
  define shift where "shift = int (p + 1) - int l"
  define c' where "c' = root_scaled c shift"
  define n where "n = isqrt_loop c' (10 ^ (p + 1))"
  define exact where "exact \<longleftrightarrow> root_exact c shift \<and> n * n = c'"
  define y where "y = (if exact then Dec False (if 0 \<le> shift then n div 10 ^ nat shift else n * 10 ^ nat (- shift)) e
      else Dec False (if n mod 5 = 0 then n + 1 else n) (e - shift))"
  note defs = e_def c_def l_def shift_def c'_def n_def exact_def y_def
  let ?C = "of_nat c * (10::rat) powi (2 * shift)" and ?z = "e - shift"
  have r: "d_sqrt p d = d_fix p y"
    using d(1) unfolding d_sqrt_def Let_def defs by simp
  have "val d = of_nat c * 10 powi (2 * e)"
  proof (cases "odd (d_exp d)")
    case True
    then have "d_exp d = 2 * e + 1" by (simp add: e_def)
    then show ?thesis using True d(2) by (simp add: c_def root_coeff_def val_mag mag_def ten_powi_add)
  next
    case False
    then have "d_exp d = 2 * e" by (simp add: e_def)
    then show ?thesis using False d(2) by (simp add: c_def root_coeff_def val_mag mag_def)
  qed
  then have v: "val d = ?C * 10 powi (2 * ?z)"
    by (simp add: mult.assoc ten_powi_add [symmetric])
  have l: "10 ^ (2 * (l - 1)) \<le> c" "c < 10 ^ (2 * (l - 1) + 2)" "0 < l"
    using root_coeff_size [OF d(1)] by (simp_all add: c_def l_def)
  have s: "shift = int p - int (l - 1)" using l(3) by (simp add: shift_def)
  have size: "10 ^ (2 * p) \<le> c'" "c' < 10 ^ (2 * p + 2)"
    unfolding c'_def using root_scaled_size [OF l(1,2) s] by simp_all
  have root: "n ^ 2 \<le> c'" "c' < (n + 1) ^ 2"
    and long: "10 ^ p \<le> n"
    unfolding n_def using isqrt_of_scaled [OF size] by simp_all
  have n1: "10 ^ (p - 1) \<le> n" by (rule order_trans [OF power_increasing long]) auto
  note S = root_scaled_value [of c shift, folded c'_def]
  show thesis
  proof (cases exact)
    case True
    then have "val y = of_nat n * 10 powi ?z"
      using exact_root_value [of c shift n e] by (simp add: y_def exact_def c'_def val_mag mag_def)
    moreover have "?C = of_nat n ^ 2" using S(3) True by (auto simp: exact_def power2_eq_square)
    ultimately have "val y ^ 2 = val d" "0 \<le> val y"
      unfolding v double_powi by (simp_all add: power2_eq_square)
    then show thesis using that [OF r] by (metis power2_le_imp_le)
  next
    case False
    have y: "of_nat n * 10 powi ?z \<le> val y" "val y \<le> of_nat (n + 1) * 10 powi ?z"
      using False by (auto simp: y_def val_mag mag_def)
    have "of_nat (n ^ 2) < ?C"
    proof (cases "root_exact c shift")
      case True
      then have "n ^ 2 < c'" using False root(1) by (simp add: exact_def power2_eq_square)
      then have "(of_nat (n ^ 2) :: rat) < of_nat c'" by (simp only: of_nat_less_iff)
      then show ?thesis using S(1) by linarith
    next
      case False
      have "(of_nat (n ^ 2) :: rat) \<le> of_nat c'" using root(1) by (simp only: of_nat_le_iff)
      then show ?thesis using S(4) [OF False] by linarith
    qed
    then have "of_nat n ^ 2 < ?C" by simp
    then show thesis
      using that [OF r] y root_cell [OF _ _ p n1 root S(1,2)] unfolding v by (meson order_trans)
  qed
qed

lemma coeff_pos_not_negative:
  assumes "0 \<le> val d" "d_coeff d \<noteq> 0"
  shows "\<not> d_sign d"
proof
  assume "d_sign d"
  then have "val d \<le> 0" by (simp add: val_mag)
  then show False using assms by (simp add: val_zero_iff [symmetric])
qed

text \<open>The computed root is faithful: it never crosses a representable number.\<close>

lemma val_sqrt_le:
  assumes "0 < p" "0 \<le> val d" "representable p x" "0 \<le> x" "val d \<le> x ^ 2"
  shows "val (d_sqrt p d) \<le> x"
proof (cases "d_coeff d = 0")
  case True
  then show ?thesis using assms by (simp add: d_sqrt_def val_fix_le)
next
  case False
  then have "\<not> d_sign d" using assms(2) coeff_pos_not_negative by blast
  with assms False show ?thesis using d_sqrt_unrounded [of p d] val_fix_le by metis
qed

lemma val_sqrt_ge:
  assumes "0 < p" "0 \<le> val d" "representable p x" "0 \<le> x" "x ^ 2 \<le> val d"
  shows "x \<le> val (d_sqrt p d)"
proof (cases "d_coeff d = 0")
  case True
  then have "x = 0" using assms(5) by (simp add: val_zero_iff [symmetric])
  then show ?thesis using assms True by (simp add: d_sqrt_def val_fix_ge)
next
  case False
  then have "\<not> d_sign d" using assms(2) coeff_pos_not_negative by blast
  with assms False show ?thesis using d_sqrt_unrounded [of p d] val_fix_ge by metis
qed

lemma val_sqrt_nonneg: "0 < p \<Longrightarrow> 0 \<le> val d \<Longrightarrow> 0 \<le> val (d_sqrt p d)"
  by (rule val_sqrt_ge) simp_all

end
