(* ===== verification/Backtest_Metrics.thy ===== *)
theory Backtest_Metrics
  imports Backtest_Portfolio Decimal_Root
begin

text \<open>
  \<^verbatim>\<open>yatl/backtest/metrics.py\<close>: the performance report of a finished run, computed from the
  equity curve. The theorems show that every legal curve gets a report whose figures are
  consistent, and that the drawdown is the exact greatest loss from a peak, rounded once.
\<close>

section \<open>Points and reports\<close>

record EquityPoint =
  ep_time_ms :: int
  ep_portfolio :: PortfolioSnapshot

definition EquityPoint_post_init :: "EquityPoint \<Rightarrow> unit result" where
  "EquityPoint_post_init q =
     (if ep_time_ms q < 0 then Inl (MetricsError ''Equity point time is invalid'') else Inr ())"

record MetricValues =
  mv_initial_equity_quote :: dec
  mv_final_equity_quote :: dec
  mv_total_return :: dec
  mv_trade_count :: int
  mv_winning_trades :: int
  mv_losing_trades :: int
  mv_breakeven_trades :: int
  mv_win_rate :: "dec option"
  mv_gross_pnl_quote :: dec
  mv_net_pnl_quote :: dec
  mv_total_fee_quote :: dec
  mv_total_slippage_quote :: dec
  mv_total_cost_quote :: dec
  mv_maximum_drawdown_quote :: dec
  mv_maximum_drawdown :: dec
  mv_mean_period_return :: "dec option"
  mv_sample_period_volatility :: "dec option"
  mv_downside_deviation :: "dec option"
  mv_mean_over_volatility :: "dec option"
  mv_mean_over_downside :: "dec option"

text \<open>The report repeats the fields of the values after the points.\<close>

record PerformanceReport =
  pf_points :: "EquityPoint list"
  pf_values :: MetricValues

section \<open>The curve\<close>

definition point_equity :: "EquityPoint \<Rightarrow> dec" where
  "point_equity q = ps_equity_quote (ep_portfolio q)"

definition curve_start_ok :: "PortfolioSnapshot \<Rightarrow> bool" where
  "curve_start_ok first \<longleftrightarrow>
     \<not> (\<not> d_eq (ps_asset_quantity first) d_zero \<or> d_le (ps_equity_quote first) d_zero
        \<or> ps_closed_trades first \<noteq> 0 \<or> \<not> d_eq (ps_realized_pnl_quote first) d_zero
        \<or> \<not> d_eq (ps_total_fee_quote first) d_zero \<or> \<not> d_eq (ps_total_slippage_quote first) d_zero)"

definition curve_step_ok :: "string \<Rightarrow> EquityPoint \<Rightarrow> EquityPoint \<Rightarrow> bool" where
  "curve_step_ok symbol previous point \<longleftrightarrow>
     (let current = ep_portfolio point; prior = ep_portfolio previous;
          trade_delta = ps_closed_trades current - ps_closed_trades prior in
      \<not> (ep_time_ms point \<le> ep_time_ms previous \<or> ps_symbol current \<noteq> symbol
         \<or> d_le (ps_equity_quote current) d_zero
         \<or> d_lt (ps_total_fee_quote current) (ps_total_fee_quote prior)
         \<or> d_lt (ps_total_slippage_quote current) (ps_total_slippage_quote prior)
         \<or> trade_delta \<notin> {0, 1}
         \<or> (trade_delta = 0 \<and> \<not> d_eq (ps_realized_pnl_quote current) (ps_realized_pnl_quote prior))))"

fun curve_steps_ok :: "string \<Rightarrow> EquityPoint \<Rightarrow> EquityPoint list \<Rightarrow> bool" where
  "curve_steps_ok symbol previous [] \<longleftrightarrow> True"
| "curve_steps_ok symbol previous (point # points) \<longleftrightarrow>
     curve_step_ok symbol previous point \<and> curve_steps_ok symbol point points"

definition validate_curve :: "EquityPoint list \<Rightarrow> unit result" where
  "validate_curve points =
     (case points of
        [] \<Rightarrow> Inl (MetricsError ''Equity curve must be a non-empty tuple'')
      | start # rest \<Rightarrow>
          if \<not> curve_start_ok (ep_portfolio start)
          then Inl (MetricsError ''Equity curve must begin at a clean flat portfolio'')
          else if \<not> curve_steps_ok (ps_symbol (ep_portfolio start)) start rest
          then Inl (MetricsError ''Equity curve lifecycle is inconsistent'')
          else if \<not> d_eq (ps_asset_quantity (ep_portfolio (last points))) d_zero
          then Inl (MetricsError ''Final performance metrics require a flat portfolio'')
          else Inr ())"

section \<open>The figures\<close>

record CurveState =
  cs_peak :: dec
  cs_max_drawdown_quote :: dec
  cs_max_drawdown :: dec
  cs_period_returns :: "dec list"
  cs_trade_pnls :: "dec list"

definition curve_step :: "EquityPoint \<Rightarrow> EquityPoint \<Rightarrow> CurveState \<Rightarrow> CurveState" where
  "curve_step previous point s =
     (let p = DECIMAL_PRECISION;
          equity = point_equity point;
          period_returns = cs_period_returns s @ [d_sub p (d_div p equity (point_equity previous)) d_one];
          peak = (if d_lt (cs_peak s) equity then equity else cs_peak s);
          drawdown_quote = d_sub p peak equity;
          drawdown = d_div p drawdown_quote peak;
          deeper = d_lt (cs_max_drawdown s) drawdown;
          closed = ps_closed_trades (ep_portfolio previous) < ps_closed_trades (ep_portfolio point)
      in \<lparr> cs_peak = peak,
           cs_max_drawdown_quote = (if deeper then drawdown_quote else cs_max_drawdown_quote s),
           cs_max_drawdown = (if deeper then drawdown else cs_max_drawdown s),
           cs_period_returns = period_returns,
           cs_trade_pnls = (if closed
             then cs_trade_pnls s @ [d_sub p (ps_realized_pnl_quote (ep_portfolio point)) (ps_realized_pnl_quote (ep_portfolio previous))]
             else cs_trade_pnls s) \<rparr>)"

fun curve_loop :: "EquityPoint \<Rightarrow> EquityPoint list \<Rightarrow> CurveState \<Rightarrow> CurveState" where
  "curve_loop previous [] s = s"
| "curve_loop previous (point # points) s = curve_loop point points (curve_step previous point s)"

definition curve_start :: "EquityPoint \<Rightarrow> CurveState" where
  "curve_start start =
     \<lparr> cs_peak = point_equity start, cs_max_drawdown_quote = d_zero, cs_max_drawdown = d_zero,
       cs_period_returns = [], cs_trade_pnls = [] \<rparr>"

definition count_if :: "('a \<Rightarrow> bool) \<Rightarrow> 'a list \<Rightarrow> int" where
  "count_if q xs = int (length (filter q xs))"

definition mean_return :: "dec list \<Rightarrow> dec" where
  "mean_return period_returns = d_div DECIMAL_PRECISION (d_sum DECIMAL_PRECISION period_returns) (dec_of_int (int (length period_returns)))"

definition downside_deviation :: "dec list \<Rightarrow> dec option" where
  "downside_deviation period_returns =
     (let p = DECIMAL_PRECISION; negative_squares = map (\<lambda>v. d_mul p v v) (filter (\<lambda>v. d_lt v d_zero) period_returns) in
      if negative_squares = [] then None
      else Some (d_sqrt p (d_div p (d_sum p negative_squares) (dec_of_int (int (length period_returns))))))"

definition sample_volatility :: "dec list \<Rightarrow> dec option" where
  "sample_volatility period_returns =
     (let p = DECIMAL_PRECISION; mean = mean_return period_returns in
      if length period_returns < 2 then None
      else Some (d_sqrt p (d_div p (d_sum p (map (\<lambda>v. d_square p (d_sub p v mean)) period_returns))
                   (dec_of_int (int (length period_returns) - 1)))))"

text \<open>A quotient of the mean that is left out when there is nothing to divide by.\<close>

definition mean_over :: "dec list \<Rightarrow> dec option \<Rightarrow> dec option" where
  "mean_over period_returns deviation =
     (case deviation of
        None \<Rightarrow> None
      | Some d \<Rightarrow> if d_eq d d_zero then None else Some (d_div DECIMAL_PRECISION (mean_return period_returns) d))"

definition calculate :: "EquityPoint list \<Rightarrow> MetricValues result" where
  "calculate points =
     bind_r (validate_curve points) (\<lambda>_.
     let p = DECIMAL_PRECISION;
         start = hd points;
         initial = ep_portfolio start;
         final = ep_portfolio (last points);
         net_pnl = d_sub p (ps_equity_quote final) (ps_equity_quote initial);
         total_fee = ps_total_fee_quote final;
         total_slippage = ps_total_slippage_quote final;
         total_cost = d_add p total_fee total_slippage;
         s = curve_loop start (tl points) (curve_start start);
         period_returns = cs_period_returns s;
         wins = count_if (\<lambda>pnl. d_lt d_zero pnl) (cs_trade_pnls s);
         trade_count = ps_closed_trades final;
         downside = downside_deviation period_returns;
         volatility = sample_volatility period_returns
     in Inr \<lparr> mv_initial_equity_quote = ps_equity_quote initial, mv_final_equity_quote = ps_equity_quote final,
          mv_total_return = d_div p net_pnl (ps_equity_quote initial), mv_trade_count = trade_count,
          mv_winning_trades = wins, mv_losing_trades = count_if (\<lambda>pnl. d_lt pnl d_zero) (cs_trade_pnls s),
          mv_breakeven_trades = count_if (\<lambda>pnl. d_eq pnl d_zero) (cs_trade_pnls s),
          mv_win_rate = (if trade_count \<noteq> 0 then Some (d_div p (dec_of_int wins) (dec_of_int trade_count)) else None),
          mv_gross_pnl_quote = d_add p net_pnl total_cost, mv_net_pnl_quote = net_pnl,
          mv_total_fee_quote = total_fee, mv_total_slippage_quote = total_slippage, mv_total_cost_quote = total_cost,
          mv_maximum_drawdown_quote = cs_max_drawdown_quote s, mv_maximum_drawdown = cs_max_drawdown s,
          mv_mean_period_return = (if period_returns = [] then None else Some (mean_return period_returns)),
          mv_sample_period_volatility = volatility, mv_downside_deviation = downside,
          mv_mean_over_volatility = mean_over period_returns volatility,
          mv_mean_over_downside = mean_over period_returns downside \<rparr>)"

text \<open>The comparison of two tuples of values: Decimals compare numerically.\<close>

definition opt_eq :: "dec option \<Rightarrow> dec option \<Rightarrow> bool" where
  "opt_eq a b \<longleftrightarrow> (case (a, b) of (None, None) \<Rightarrow> True | (Some x, Some y) \<Rightarrow> d_eq x y | _ \<Rightarrow> False)"

definition values_eq :: "MetricValues \<Rightarrow> MetricValues \<Rightarrow> bool" where
  "values_eq a b \<longleftrightarrow>
     list_all (\<lambda>g. d_eq (g a) (g b))
       [mv_initial_equity_quote, mv_final_equity_quote, mv_total_return, mv_gross_pnl_quote, mv_net_pnl_quote,
        mv_total_fee_quote, mv_total_slippage_quote, mv_total_cost_quote, mv_maximum_drawdown_quote, mv_maximum_drawdown]
     \<and> list_all (\<lambda>g. g a = g b) [mv_trade_count, mv_winning_trades, mv_losing_trades, mv_breakeven_trades]
     \<and> list_all (\<lambda>g. opt_eq (g a) (g b))
       [mv_win_rate, mv_mean_period_return, mv_sample_period_volatility, mv_downside_deviation,
        mv_mean_over_volatility, mv_mean_over_downside]"

definition PerformanceReport_post_init :: "PerformanceReport \<Rightarrow> unit result" where
  "PerformanceReport_post_init r =
     bind_r (calculate (pf_points r)) (\<lambda>expected.
     require (values_eq (pf_values r) expected) (MetricsError ''Performance report arithmetic is inconsistent''))"

definition calculate_metrics :: "EquityPoint list \<Rightarrow> PerformanceReport result" where
  "calculate_metrics points =
     bind_r (calculate points) (\<lambda>values.
     construct PerformanceReport_post_init \<lparr> pf_points = points, pf_values = values \<rparr>)"

section \<open>Trades\<close>

lemma curve_steps_positive:
  "curve_steps_ok symbol previous points \<Longrightarrow> point \<in> set points \<Longrightarrow> 0 < val (point_equity point)"
  by (induction points arbitrary: previous) (auto simp: curve_step_ok_def Let_def dec_val point_equity_def)

lemma curve_loop_trades:
  "curve_steps_ok symbol previous points \<Longrightarrow>
     int (length (cs_trade_pnls (curve_loop previous points s)))
       = int (length (cs_trade_pnls s)) + ps_closed_trades (ep_portfolio (last (previous # points)))
         - ps_closed_trades (ep_portfolio previous)"
proof (induction points arbitrary: previous s)
  case (Cons point points)
  have "int (length (cs_trade_pnls (curve_step previous point s))) = int (length (cs_trade_pnls s))
      + (ps_closed_trades (ep_portfolio point) - ps_closed_trades (ep_portfolio previous))"
    using Cons.prems by (auto simp: curve_step_def curve_step_ok_def Let_def)
  then show ?case using Cons by simp
qed simp

lemma curve_loop_returns: "length (cs_period_returns (curve_loop previous points s)) = length (cs_period_returns s) + length points"
  by (induction points arbitrary: previous s) (simp_all add: curve_step_def Let_def)

lemma count_trichotomy:
  "count_if (\<lambda>x. d_lt d_zero x) xs + count_if (\<lambda>x. d_lt x d_zero) xs + count_if (\<lambda>x. d_eq x d_zero) xs = int (length xs)"
  by (induction xs) (auto simp: count_if_def dec_val)

lemma count_if_bounds: "0 \<le> count_if q xs" "count_if q xs \<le> int (length xs)"
  by (simp_all add: count_if_def)

section \<open>Drawdown\<close>

text \<open>The greatest relative loss from an earlier value, over all pairs of a list.\<close>

definition exact_drawdown :: "rat list \<Rightarrow> rat" where
  "exact_drawdown es = Max ((\<lambda>(i, j). (es ! i - es ! j) / es ! i) ` {(i, j). i \<le> j \<and> j < length es})"

text \<open>The same, in one pass that keeps the peak.\<close>

fun worst :: "rat \<Rightarrow> rat list \<Rightarrow> rat" where
  "worst peak [] = 0"
| "worst peak (e # es) = max ((max peak e - e) / max peak e) (worst (max peak e) es)"

lemma drop_mono:
  fixes a b e :: rat
  assumes "0 < a" "a \<le> b" "0 \<le> e"
  shows "(a - e) / a \<le> (b - e) / b"
proof -
  have "e / b \<le> e / a" using assms by (simp add: frac_le)
  then show ?thesis using assms by (simp add: diff_divide_distrib)
qed

lemma drop_max:
  fixes a b e x :: rat
  assumes "0 < a" "0 < b" "0 \<le> e"
  shows "(max a b - e) / max a b \<le> x \<longleftrightarrow> (a - e) / a \<le> x \<and> (b - e) / b \<le> x"
  using drop_mono [of a b e] drop_mono [of b a e] assms by (auto simp: max_def)

lemma worst_le_iff:
  assumes "0 < peak" "\<forall>e\<in>set es. 0 < e" "0 \<le> x"
  shows "worst peak es \<le> x \<longleftrightarrow> (\<forall>j<length es. \<forall>q\<in>insert peak (set (take (Suc j) es)). (q - es ! j) / q \<le> x)"
  using assms
proof (induction es arbitrary: peak)
  case (Cons e es)
  have pos: "0 < peak" "0 < e" "\<forall>e\<in>set es. 0 < e" "0 < max peak e" using Cons.prems by auto
  have "(\<forall>q\<in>insert (max peak e) A. (q - f) / q \<le> x) \<longleftrightarrow> (\<forall>q\<in>insert peak (insert e A). (q - f) / q \<le> x)" if "0 < f" for A f
    using drop_max [of peak e f x] pos that by auto
  then have "worst (max peak e) es \<le> x
    \<longleftrightarrow> (\<forall>j<length es. \<forall>q\<in>insert peak (insert e (set (take (Suc j) es))). (q - es ! j) / q \<le> x)"
    using Cons.IH [of "max peak e"] pos Cons.prems(3) by simp
  moreover have "(max peak e - e) / max peak e \<le> x \<longleftrightarrow> (\<forall>q\<in>{peak, e}. (q - e) / q \<le> x)"
    using drop_max [of peak e e x] pos by simp
  ultimately show ?case by (simp add: All_less_Suc2)
qed (use assms in simp)

lemma worst_nonneg: "0 \<le> worst peak es"
  by (induction es arbitrary: peak) (simp_all add: le_max_iff_disj)

lemma exact_drawdown_worst:
  assumes pos: "0 < y" "\<forall>e\<in>set es. 0 < e"
  shows "exact_drawdown (y # es) = worst y es"
proof -
  let ?ys = "y # es" and ?I = "{(i, j). i \<le> j \<and> j < length (y # es)}"
  define D where "D = (\<lambda>(i, j). (?ys ! i - ?ys ! j) / ?ys ! i) ` ?I"
  have sub: "?I \<subseteq> {..<length ?ys} \<times> {..<length ?ys}" by auto
  have fin: "finite D" unfolding D_def by (rule finite_imageI, rule finite_subset [OF sub]) simp
  have zero: "0 \<in> D" unfolding D_def by (rule image_eqI [of _ _ "(0, 0)"]) auto
  have prefix: "(\<forall>i<Suc (Suc j). Q (?ys ! i)) \<longleftrightarrow> (\<forall>q\<in>insert y (set (take (Suc j) es)). Q q)" if "j < length es" for j Q
    using that unfolding All_less_Suc2 [of "Suc j"] by (auto simp: all_set_conv_all_nth)
  have iff: "(\<forall>d\<in>D. d \<le> x) \<longleftrightarrow> worst y es \<le> x" if "0 \<le> x" for x
  proof -
    have "(\<forall>d\<in>D. d \<le> x) \<longleftrightarrow> (\<forall>j<Suc (length es). \<forall>i<Suc j. (?ys ! i - ?ys ! j) / ?ys ! i \<le> x)"
      by (auto simp: D_def less_Suc_eq_le)
    also have "\<dots> \<longleftrightarrow> (\<forall>j<length es. \<forall>i<Suc (Suc j). (?ys ! i - es ! j) / ?ys ! i \<le> x)"
      unfolding All_less_Suc2 [of "length es"] using that by simp
    also have "\<dots> \<longleftrightarrow> worst y es \<le> x"
      unfolding worst_le_iff [OF pos that] using prefix [of _ "\<lambda>q. (q - es ! _) / q \<le> x"] by auto
    finally show ?thesis .
  qed
  have "Max D \<le> worst y es" using iff [OF worst_nonneg [of y es]] fin zero by (subst Max_le_iff) auto
  moreover have "worst y es \<le> Max D" using iff [of "Max D"] Max_ge [OF fin] zero by auto
  ultimately show ?thesis unfolding exact_drawdown_def D_def by simp
qed

text \<open>A computed number is faithful when no representable number separates it from the exact one.\<close>

definition faithful :: "rat \<Rightarrow> rat \<Rightarrow> bool" where
  "faithful exact v \<longleftrightarrow> (\<forall>x. representable DECIMAL_PRECISION x \<longrightarrow> (exact \<le> x \<longrightarrow> v \<le> x) \<and> (x \<le> exact \<longrightarrow> x \<le> v))"

lemma faithful_max: "faithful a u \<Longrightarrow> faithful b v \<Longrightarrow> faithful (max a b) (max u v)"
  unfolding faithful_def by (auto simp: le_max_iff_disj)

lemma faithful_div: "val b \<noteq> 0 \<Longrightarrow> faithful (val a / val b) (val (d_div DECIMAL_PRECISION a b))"
  by (simp add: faithful_def val_div_le val_div_ge)

lemma faithful_zero: "faithful 0 0"
  by (simp add: faithful_def)

text \<open>Amounts as a ledger produces them; differences of two of them are exact.\<close>

definition money :: "dec \<Rightarrow> bool" where
  "money d \<longleftrightarrow> on_grid (-168) (val d) \<and> \<bar>val d\<bar> \<le> 2 * 10 ^ 87"

lemma money_diff: "money a \<Longrightarrow> money b \<Longrightarrow> val (d_sub DECIMAL_PRECISION a b) = val a - val b"
proof -
  assume m: "money a" "money b"
  then have "\<bar>val a - val b\<bar> \<le> 4 * 10 ^ 87" by (simp add: money_def abs_le_iff)
  then have "\<bar>val a - val b\<bar> < 10 ^ 88" by (rule le_less_trans) simp
  then have "representable DECIMAL_PRECISION (val a - val b)"
    using m by (intro representable_256 [OF on_grid_diff [of "-168"], of _ _ 88]) (auto simp: money_def)
  then show ?thesis by (simp add: val_d_sub)
qed

lemma curve_step_peak: "val (cs_peak (curve_step previous point s)) = max (val (cs_peak s)) (val (point_equity point))"
  by (simp add: curve_step_def Let_def dec_val max_def)

lemma curve_step_drawdown:
  "val (cs_max_drawdown (curve_step previous point s)) = max (val (cs_max_drawdown s))
     (val (d_div DECIMAL_PRECISION (d_sub DECIMAL_PRECISION (cs_peak (curve_step previous point s)) (point_equity point))
       (cs_peak (curve_step previous point s))))"
  by (simp add: curve_step_def Let_def dec_val max_def)

lemma curve_loop_drawdown:
  assumes "curve_steps_ok symbol previous points" "\<forall>q\<in>set points. money (point_equity q)"
    and "0 < val (cs_peak s)" "money (cs_peak s)" "faithful d (val (cs_max_drawdown s))"
    and "0 \<le> val (cs_max_drawdown s)"
  shows "faithful (max d (worst (val (cs_peak s)) (map (\<lambda>q. val (point_equity q)) points)))
    (val (cs_max_drawdown (curve_loop previous points s)))"
  using assms
proof (induction points arbitrary: previous s d)
  case Nil
  then show ?case using faithful_max [OF _ faithful_zero, of d "val (cs_max_drawdown s)"] by (simp add: max_absorb1)
next
  case (Cons point points)
  let ?s = "curve_step previous point s" and ?e = "point_equity point"
  let ?P = "cs_peak ?s"
  let ?r = "(max (val (cs_peak s)) (val ?e) - val ?e) / max (val (cs_peak s)) (val ?e)"
  have e: "0 < val ?e" "money ?e" using Cons.prems(2) curve_steps_positive [OF Cons.prems(1), of point] by simp_all
  have P: "val ?P = max (val (cs_peak s)) (val ?e)" by (rule curve_step_peak)
  have p: "0 < val ?P" "money ?P" using Cons.prems(3,4) e by (auto simp: curve_step_def Let_def P)
  have "faithful ?r (val (d_div DECIMAL_PRECISION (d_sub DECIMAL_PRECISION ?P ?e) ?P))"
    using faithful_div [of ?P "d_sub DECIMAL_PRECISION ?P ?e"] money_diff [OF p(2) e(2)] p(1) by (simp add: P)
  then have "faithful (max d ?r) (val (cs_max_drawdown ?s))"
    unfolding curve_step_drawdown using Cons.prems(5) by (rule faithful_max [rotated])
  moreover have "0 \<le> val (cs_max_drawdown ?s)" unfolding curve_step_drawdown using Cons.prems(6) by simp
  ultimately show ?case
    using Cons.IH [of point ?s "max d ?r"] Cons.prems p by (simp add: P max.assoc)
qed

section \<open>Ranges\<close>

lemma valid_snapshot_equity:
  "valid_PortfolioSnapshot s \<Longrightarrow> representable DECIMAL_PRECISION (val (ps_equity_quote s))"
  using representable_fix [of DECIMAL_PRECISION]
  by (auto simp: valid_PortfolioSnapshot_def PortfolioSnapshot_post_init_def dec_val Let_def d_add_def split: if_splits)

lemma representable_1 [simp]: "representable DECIMAL_PRECISION 1"
  by (rule representable_256 [OF on_grid_int [of 1, simplified], of 1]) simp_all

lemma drawdown_range:
  assumes "0 < val e" "val e \<le> val peak" "representable DECIMAL_PRECISION (val peak)"
  shows "0 \<le> val (d_div DECIMAL_PRECISION (d_sub DECIMAL_PRECISION peak e) peak)"
    "val (d_div DECIMAL_PRECISION (d_sub DECIMAL_PRECISION peak e) peak) \<le> 1"
proof -
  let ?q = "d_sub DECIMAL_PRECISION peak e"
  have q: "0 \<le> val ?q" "val ?q \<le> val peak"
    unfolding d_sub_def using assms by (auto intro: val_add_ge val_add_le)
  have p: "0 < val peak" using assms by linarith
  show "0 \<le> val (d_div DECIMAL_PRECISION ?q peak)" by (rule val_div_ge) (use q p in simp_all)
  show "val (d_div DECIMAL_PRECISION ?q peak) \<le> 1" by (rule val_div_le) (use q p in simp_all)
qed

lemma curve_loop_range:
  assumes "curve_steps_ok symbol previous points" "\<forall>q\<in>set points. representable DECIMAL_PRECISION (val (point_equity q))"
    and "representable DECIMAL_PRECISION (val (cs_peak s))" "0 \<le> val (cs_max_drawdown s)" "val (cs_max_drawdown s) \<le> 1"
  shows "0 \<le> val (cs_max_drawdown (curve_loop previous points s)) \<and> val (cs_max_drawdown (curve_loop previous points s)) \<le> 1"
  using assms
proof (induction points arbitrary: previous s)
  case (Cons point points)
  let ?s = "curve_step previous point s"
  have e: "0 < val (point_equity point)" using curve_steps_positive [OF Cons.prems(1), of point] by simp
  have P: "val (point_equity point) \<le> val (cs_peak ?s)" "representable DECIMAL_PRECISION (val (cs_peak ?s))"
    using Cons.prems(2,3) unfolding curve_step_peak by (auto simp: max_def)
  show ?case
    using Cons.IH [of point ?s] Cons.prems drawdown_range [OF e P] P(2)
    by (simp add: curve_step_drawdown [of previous point s] le_max_iff_disj)
qed simp

lemma d_sum_nonneg: "\<forall>x\<in>set xs. 0 \<le> val x \<Longrightarrow> 0 \<le> val (d_sum DECIMAL_PRECISION xs)"
proof -
  have "0 \<le> val a \<Longrightarrow> \<forall>x\<in>set xs. 0 \<le> val x \<Longrightarrow> 0 \<le> val (foldl (d_add DECIMAL_PRECISION) a xs)" for a
    by (induction xs arbitrary: a) (simp_all add: val_add_ge)
  then show "\<forall>x\<in>set xs. 0 \<le> val x \<Longrightarrow> ?thesis" by (simp add: d_sum_def)
qed

lemma deviation_nonneg:
  assumes "\<forall>x\<in>set xs. 0 \<le> val x" "0 < n"
  shows "0 \<le> val (d_sqrt DECIMAL_PRECISION (d_div DECIMAL_PRECISION (d_sum DECIMAL_PRECISION xs) (dec_of_int n)))"
proof (rule val_sqrt_nonneg)
  show "0 \<le> val (d_div DECIMAL_PRECISION (d_sum DECIMAL_PRECISION xs) (dec_of_int n))"
    using assms d_sum_nonneg [OF assms(1)] by (intro val_div_ge) (simp_all add: val_dec_of_int)
qed simp

lemma volatility_facts:
  "sample_volatility rs = None \<longleftrightarrow> length rs < 2" "sample_volatility rs = Some d \<Longrightarrow> 0 \<le> val d"
  using deviation_nonneg [of "map (\<lambda>v. d_square DECIMAL_PRECISION (d_sub DECIMAL_PRECISION v (mean_return rs))) rs" "int (length rs) - 1"]
  by (auto simp: sample_volatility_def Let_def d_square_nonneg split: if_splits)

lemma downside_facts:
  "downside_deviation rs = None \<longleftrightarrow> (\<forall>v\<in>set rs. 0 \<le> val v)" "downside_deviation rs = Some d \<Longrightarrow> 0 \<le> val d"
proof -
  show "downside_deviation rs = None \<longleftrightarrow> (\<forall>v\<in>set rs. 0 \<le> val v)"
    by (auto simp: downside_deviation_def Let_def dec_val filter_empty_conv not_less)
  let ?xs = "map (\<lambda>v. d_mul DECIMAL_PRECISION v v) (filter (\<lambda>v. d_lt v d_zero) rs)"
  assume d: "downside_deviation rs = Some d"
  have "\<forall>x\<in>set ?xs. 0 \<le> val x" by (auto intro: val_mul_ge)
  moreover have "rs \<noteq> []" using d by (auto simp: downside_deviation_def)
  ultimately show "0 \<le> val d"
    using d deviation_nonneg [of ?xs "int (length rs)"] unfolding downside_deviation_def Let_def by (simp split: if_splits)
qed

text \<open>
  Two different equities of 256 digits differ by more than rounding can hide: the quotient of the
  smaller by the larger is at most the greatest number of 256 digits below one.
\<close>

lemma integer_gap:
  fixes k m n :: int
  assumes "k < m" "k < n \<or> m < n" "0 < n" "0 \<le> k"
  shows "k * n \<le> m * (n - 1)"
proof (cases "m \<le> n")
  case True
  have "k * n \<le> (m - 1) * n" using assms by (intro mult_right_mono) auto
  then show ?thesis using True by (simp add: algebra_simps)
next
  case False
  then have "k \<le> n - 1" using assms by linarith
  then have "k * n \<le> (n - 1) * m" using False assms by (intro mult_mono) auto
  then show ?thesis by (simp only: mult.commute)
qed

lemma representable_less:
  assumes a: "representable p a" and b: "representable p b" and less: "0 \<le> a" "a < b"
  shows "a \<le> b * (1 - 1 / 10 ^ p)"
proof -
  obtain k e where k: "\<bar>k\<bar> < 10 ^ p" "a = of_int k * 10 powi e" using a by (auto simp: representable_def)
  obtain m f where m: "\<bar>m\<bar> < 10 ^ p" "b = of_int m * 10 powi f" using b by (auto simp: representable_def)
  let ?g = "min e f"
  define k' where "k' = k * 10 ^ nat (e - ?g)"
  define m' where "m' = m * 10 ^ nat (f - ?g)"
  have k': "a = of_int k' * 10 powi ?g" "e = ?g \<longrightarrow> k' = k"
    unfolding k(2) k'_def using ten_powi_split [of ?g e] by simp_all
  have m': "b = of_int m' * 10 powi ?g" "f = ?g \<longrightarrow> m' = m"
    unfolding m(2) m'_def using ten_powi_split [of ?g f] by simp_all
  have t: "0 < (10::rat) powi ?g" by simp
  have "k' < m'" "0 \<le> k'" using less t unfolding k'(1) m'(1) by (simp_all add: zero_le_mult_iff)
  moreover have "k' < 10 ^ p \<or> m' < 10 ^ p" using k(1) m(1) k'(2) m'(2) by (cases "e \<le> f") auto
  ultimately have "k' * 10 ^ p \<le> m' * (10 ^ p - 1)" by (intro integer_gap) simp_all
  then have "(of_int (k' * 10 ^ p) :: rat) \<le> of_int (m' * (10 ^ p - 1))" by (simp only: of_int_le_iff)
  then have "(of_int k' :: rat) \<le> of_int m' * (1 - 1 / 10 ^ p)" by (simp add: field_simps)
  then have "(of_int k' :: rat) * 10 powi ?g \<le> of_int m' * (1 - 1 / 10 ^ p) * 10 powi ?g"
    using t by (intro mult_right_mono) auto
  then show ?thesis unfolding k'(1) m'(1) by (simp only: mult_ac)
qed

lemma period_loss:
  assumes "0 < val a" "0 < val b" "representable DECIMAL_PRECISION (val a)" "representable DECIMAL_PRECISION (val b)"
  shows "val (d_sub DECIMAL_PRECISION (d_div DECIMAL_PRECISION a b) d_one) < 0 \<longleftrightarrow> val a < val b"
proof -
  let ?x = "1 - 1 / 10 ^ DECIMAL_PRECISION :: rat"
  have "val (d_div DECIMAL_PRECISION a b) < 1" if "val a < val b"
  proof -
    have "representable DECIMAL_PRECISION (of_int (10 ^ DECIMAL_PRECISION - 1) * 10 powi (- int DECIMAL_PRECISION))"
      unfolding representable_def by (rule exI [of _ "10 ^ DECIMAL_PRECISION - 1"]) auto
    moreover have "of_int (10 ^ DECIMAL_PRECISION - 1) * 10 powi (- int DECIMAL_PRECISION) = ?x"
      by (simp add: power_int_minus field_simps)
    ultimately have r: "representable DECIMAL_PRECISION ?x" by simp
    have "val a \<le> ?x * val b"
      using representable_less [OF assms(3,4)] assms(1) that by (simp only: mult.commute less_imp_le)
    then have "val a / val b \<le> ?x" using assms(2) by (simp only: pos_divide_le_eq)
    then have "val (d_div DECIMAL_PRECISION a b) \<le> ?x" using assms r by (intro val_div_le) simp_all
    also have "?x < 1" by simp
    finally show ?thesis .
  qed
  moreover have "1 \<le> val (d_div DECIMAL_PRECISION a b)" if "val b \<le> val a"
    by (rule val_div_ge) (use assms that in simp_all)
  ultimately show ?thesis by (auto simp: sub_sign not_less [symmetric])
qed

section \<open>Properties\<close>

lemma validate_curve_Inr:
  assumes "validate_curve points = Inr ()"
  obtains start rest where "points = start # rest" "curve_start_ok (ep_portfolio start)"
    "curve_steps_ok (ps_symbol (ep_portfolio start)) start rest" "val (ps_asset_quantity (ep_portfolio (last points))) = 0"
  using assms by (auto simp: validate_curve_def dec_val split: list.splits if_splits)

lemma values_eq_refl: "values_eq v v"
  by (simp add: values_eq_def opt_eq_def dec_val split: option.split)

lemma calculate_metrics_Inr:
  "calculate points = Inr v \<Longrightarrow> calculate_metrics points = Inr \<lparr> pf_points = points, pf_values = v \<rparr>"
  by (simp add: calculate_metrics_def construct_def PerformanceReport_post_init_def require_def values_eq_refl)

text \<open>The points at which a trade was closed.\<close>

definition closing :: "EquityPoint list \<Rightarrow> (EquityPoint \<times> EquityPoint) list" where
  "closing points = filter (\<lambda>(q, r). ps_closed_trades (ep_portfolio q) < ps_closed_trades (ep_portfolio r)) (zip points (tl points))"

definition period_return :: "EquityPoint \<times> EquityPoint \<Rightarrow> dec" where
  "period_return = (\<lambda>(q, r). d_sub DECIMAL_PRECISION (d_div DECIMAL_PRECISION (point_equity r) (point_equity q)) d_one)"

definition trade_pnl :: "EquityPoint \<times> EquityPoint \<Rightarrow> dec" where
  "trade_pnl = (\<lambda>(q, r). d_sub DECIMAL_PRECISION (ps_realized_pnl_quote (ep_portfolio r)) (ps_realized_pnl_quote (ep_portfolio q)))"

lemma curve_loop_lists:
  "cs_period_returns (curve_loop previous points s)
     = cs_period_returns s @ map period_return (zip (previous # points) points)"
  "cs_trade_pnls (curve_loop previous points s) = cs_trade_pnls s @ map trade_pnl (closing (previous # points))"
  by (induction points arbitrary: previous s)
    (simp_all add: curve_step_def Let_def period_return_def trade_pnl_def closing_def)

lemma count_trades:
  "count_if (\<lambda>x. d_lt d_zero x) (map trade_pnl ps)
     = int (length (filter (\<lambda>(q, r). val (ps_realized_pnl_quote (ep_portfolio q)) < val (ps_realized_pnl_quote (ep_portfolio r))) ps))"
  "count_if (\<lambda>x. d_lt x d_zero) (map trade_pnl ps)
     = int (length (filter (\<lambda>(q, r). val (ps_realized_pnl_quote (ep_portfolio r)) < val (ps_realized_pnl_quote (ep_portfolio q))) ps))"
  by (induction ps) (auto simp: count_if_def trade_pnl_def dec_val sub_sign)

lemma closed_trades_count:
  "curve_steps_ok symbol q points \<Longrightarrow>
     ps_closed_trades (ep_portfolio (last (q # points))) = ps_closed_trades (ep_portfolio q) + int (length (closing (q # points)))"
proof (induction points arbitrary: q)
  case (Cons r points)
  have "length (closing (q # r # points)) = (if ps_closed_trades (ep_portfolio q) < ps_closed_trades (ep_portfolio r) then 1 else 0)
      + length (closing (r # points))"
    by (simp add: closing_def)
  then show ?case using Cons by (auto simp: curve_step_ok_def Let_def)
qed (simp add: closing_def)

lemma fraction_range:
  assumes "0 \<le> k" "k \<le> n" "0 < n"
  shows "0 \<le> val (d_div DECIMAL_PRECISION (dec_of_int k) (dec_of_int n))"
    "val (d_div DECIMAL_PRECISION (dec_of_int k) (dec_of_int n)) \<le> 1"
  using assms by (auto intro!: val_div_ge val_div_le simp: val_dec_of_int)

lemma calculate_values:
  assumes "validate_curve (start # rest) = Inr ()"
  obtains v s where "calculate (start # rest) = Inr v" "s = curve_loop start rest (curve_start start)"
    "mv_initial_equity_quote v = point_equity start" "mv_final_equity_quote v = point_equity (last (start # rest))"
    "mv_net_pnl_quote v = d_sub DECIMAL_PRECISION (mv_final_equity_quote v) (mv_initial_equity_quote v)"
    "mv_total_return v = d_div DECIMAL_PRECISION (mv_net_pnl_quote v) (mv_initial_equity_quote v)"
    "mv_total_fee_quote v = ps_total_fee_quote (ep_portfolio (last (start # rest)))"
    "mv_total_slippage_quote v = ps_total_slippage_quote (ep_portfolio (last (start # rest)))"
    "mv_total_cost_quote v = d_add DECIMAL_PRECISION (mv_total_fee_quote v) (mv_total_slippage_quote v)"
    "mv_gross_pnl_quote v = d_add DECIMAL_PRECISION (mv_net_pnl_quote v) (mv_total_cost_quote v)"
    "mv_trade_count v = ps_closed_trades (ep_portfolio (last (start # rest)))"
    "mv_winning_trades v = count_if (\<lambda>x. d_lt d_zero x) (cs_trade_pnls s)"
    "mv_losing_trades v = count_if (\<lambda>x. d_lt x d_zero) (cs_trade_pnls s)"
    "mv_breakeven_trades v = count_if (\<lambda>x. d_eq x d_zero) (cs_trade_pnls s)"
    "mv_win_rate v = (if mv_trade_count v \<noteq> 0
       then Some (d_div DECIMAL_PRECISION (dec_of_int (mv_winning_trades v)) (dec_of_int (mv_trade_count v))) else None)"
    "mv_maximum_drawdown v = cs_max_drawdown s" "mv_sample_period_volatility v = sample_volatility (cs_period_returns s)"
    "mv_downside_deviation v = downside_deviation (cs_period_returns s)"
    "mv_mean_over_volatility v = mean_over (cs_period_returns s) (mv_sample_period_volatility v)"
    "mv_mean_over_downside v = mean_over (cs_period_returns s) (mv_downside_deviation v)"
proof -
  obtain v where v: "calculate (start # rest) = Inr v" by (simp add: calculate_def assms Let_def)
  show thesis
    by (rule that [OF v refl]) (use v in \<open>auto simp: calculate_def assms Let_def point_equity_def\<close>)
qed

lemma mean_over_present:
  "(\<And>x. d = Some x \<Longrightarrow> 0 \<le> val x) \<Longrightarrow> mean_over rs d \<noteq> None \<longleftrightarrow> (\<exists>x. d = Some x \<and> 0 < val x)"
  by (auto simp: mean_over_def dec_val less_le split: option.splits)

text \<open>C21. Every legal equity curve gets a performance report, and an illegal one the error of its check: the
numbers of won, lost and break-even trades add up to the trade count, which is the number of points that close a
trade; a trade counts as won exactly when the realized profit rose at its closing point and as lost exactly when it
fell; the win rate is present exactly when there is a trade and lies between 0 and 1, as does the maximum
drawdown; the volatility is present exactly from three points on, the downside deviation exactly when the equity
fell from some point to the next, however little; both are not negative, and the two ratios are present exactly
when their divisor is present and not zero.\<close>

theorem performance_report_sound:
  assumes "\<forall>q\<in>set points. valid_PortfolioSnapshot (ep_portfolio q)"
  shows "case validate_curve points of
      Inl e \<Rightarrow> calculate_metrics points = Inl e
    | Inr _ \<Rightarrow> \<exists>r. calculate_metrics points = Inr r \<and> pf_points r = points \<and> (let v = pf_values r in
        mv_winning_trades v + mv_losing_trades v + mv_breakeven_trades v = mv_trade_count v
        \<and> mv_trade_count v = int (length (closing points))
        \<and> mv_winning_trades v = int (length (filter (\<lambda>(q, r).
            val (ps_realized_pnl_quote (ep_portfolio q)) < val (ps_realized_pnl_quote (ep_portfolio r))) (closing points)))
        \<and> mv_losing_trades v = int (length (filter (\<lambda>(q, r).
            val (ps_realized_pnl_quote (ep_portfolio r)) < val (ps_realized_pnl_quote (ep_portfolio q))) (closing points)))
        \<and> (case mv_win_rate v of None \<Rightarrow> mv_trade_count v = 0 | Some w \<Rightarrow> 0 < mv_trade_count v \<and> 0 \<le> val w \<and> val w \<le> 1)
        \<and> 0 \<le> val (mv_maximum_drawdown v) \<and> val (mv_maximum_drawdown v) \<le> 1
        \<and> (case mv_sample_period_volatility v of None \<Rightarrow> length points < 3 | Some d \<Rightarrow> 3 \<le> length points \<and> 0 \<le> val d)
        \<and> (mv_downside_deviation v \<noteq> None
             \<longleftrightarrow> (\<exists>(q, r) \<in> set (zip points (tl points)). val (point_equity r) < val (point_equity q)))
        \<and> (\<forall>d. mv_downside_deviation v = Some d \<longrightarrow> 0 \<le> val d)
        \<and> (mv_mean_over_volatility v \<noteq> None \<longleftrightarrow> (\<exists>d. mv_sample_period_volatility v = Some d \<and> 0 < val d))
        \<and> (mv_mean_over_downside v \<noteq> None \<longleftrightarrow> (\<exists>d. mv_downside_deviation v = Some d \<and> 0 < val d)))"
proof (cases "validate_curve points")
  case (Inl e)
  then show ?thesis by (simp add: calculate_metrics_def calculate_def)
next
  case (Inr u)
  then have ok: "validate_curve points = Inr ()" by simp
  then obtain start rest where points: "points = start # rest" and first: "curve_start_ok (ep_portfolio start)"
    and steps: "curve_steps_ok (ps_symbol (ep_portfolio start)) start rest"
    using validate_curve_Inr by blast
  have ok': "validate_curve (start # rest) = Inr ()" using ok points by simp
  obtain v s where v: "calculate (start # rest) = Inr v" and s: "s = curve_loop start rest (curve_start start)"
    and trades: "mv_trade_count v = ps_closed_trades (ep_portfolio (last (start # rest)))"
    "mv_winning_trades v = count_if (\<lambda>x. d_lt d_zero x) (cs_trade_pnls s)"
    "mv_losing_trades v = count_if (\<lambda>x. d_lt x d_zero) (cs_trade_pnls s)"
    "mv_breakeven_trades v = count_if (\<lambda>x. d_eq x d_zero) (cs_trade_pnls s)"
    and rate: "mv_win_rate v = (if mv_trade_count v \<noteq> 0
       then Some (d_div DECIMAL_PRECISION (dec_of_int (mv_winning_trades v)) (dec_of_int (mv_trade_count v))) else None)"
    and dd: "mv_maximum_drawdown v = cs_max_drawdown s"
    and vol: "mv_sample_period_volatility v = sample_volatility (cs_period_returns s)"
    and down: "mv_downside_deviation v = downside_deviation (cs_period_returns s)"
    and ratios: "mv_mean_over_volatility v = mean_over (cs_period_returns s) (mv_sample_period_volatility v)"
    "mv_mean_over_downside v = mean_over (cs_period_returns s) (mv_downside_deviation v)"
    by (rule calculate_values [OF ok'])
  have zero: "ps_closed_trades (ep_portfolio start) = 0" using first by (simp add: curve_start_ok_def)
  have n: "int (length (cs_trade_pnls s)) = mv_trade_count v"
    using curve_loop_trades [OF steps, of "curve_start start"] zero by (simp add: trades(1) s curve_start_def)
  have closed: "mv_trade_count v = int (length (closing points))"
    using closed_trades_count [OF steps] zero by (simp add: trades(1) points)
  have total: "mv_winning_trades v + mv_losing_trades v + mv_breakeven_trades v = mv_trade_count v"
    unfolding trades(2-4) count_trichotomy n ..
  have "0 \<le> mv_winning_trades v" "mv_winning_trades v \<le> mv_trade_count v"
    using count_if_bounds [of _ "cs_trade_pnls s"] by (simp_all add: trades(2) n [symmetric])
  then have win: "case mv_win_rate v of None \<Rightarrow> mv_trade_count v = 0 | Some w \<Rightarrow> 0 < mv_trade_count v \<and> 0 \<le> val w \<and> val w \<le> 1"
    unfolding rate using fraction_range [of "mv_winning_trades v" "mv_trade_count v"] by simp
  have len: "length (cs_period_returns s) = length rest"
    using curve_loop_returns [of start rest "curve_start start"] by (simp add: s curve_start_def)
  have range: "0 \<le> val (mv_maximum_drawdown v) \<and> val (mv_maximum_drawdown v) \<le> 1"
    unfolding dd s
    by (rule curve_loop_range [OF steps]) (use assms valid_snapshot_equity in \<open>auto simp: points point_equity_def curve_start_def\<close>)
  have volatility: "case mv_sample_period_volatility v of None \<Rightarrow> length points < 3 | Some d \<Rightarrow> 3 \<le> length points \<and> 0 \<le> val d"
    unfolding vol using volatility_facts [of "cs_period_returns s"] len by (auto simp: points split: option.split)
  have ratio: "mv_mean_over_volatility v \<noteq> None \<longleftrightarrow> (\<exists>d. mv_sample_period_volatility v = Some d \<and> 0 < val d)"
    "mv_mean_over_downside v \<noteq> None \<longleftrightarrow> (\<exists>d. mv_downside_deviation v = Some d \<and> 0 < val d)"
    unfolding ratios vol down by (rule mean_over_present; erule volatility_facts(2) downside_facts(2))+
  have downside: "\<forall>d. mv_downside_deviation v = Some d \<longrightarrow> 0 \<le> val d"
    unfolding down using downside_facts(2) by blast
  have pnls: "cs_trade_pnls s = map trade_pnl (closing points)"
    and rets: "cs_period_returns s = map period_return (zip points (tl points))"
    using curve_loop_lists [of start rest "curve_start start"] by (simp_all add: s points curve_start_def)
  have eq: "0 < val (point_equity q)" "representable DECIMAL_PRECISION (val (point_equity q))" if "q \<in> set points" for q
    using that assms valid_snapshot_equity [of "ep_portfolio q"] curve_steps_positive [OF steps, of q] first
    by (auto simp: points point_equity_def curve_start_ok_def dec_val)
  have lost: "val (period_return (q, r)) < 0 \<longleftrightarrow> val (point_equity r) < val (point_equity q)"
    if "(q, r) \<in> set (zip points (tl points))" for q r
  proof -
    have "q \<in> set points" "r \<in> set points" using that by (auto simp: points dest: set_zip_leftD set_zip_rightD)
    then show ?thesis
      unfolding period_return_def prod.case by (intro period_loss) (simp_all add: eq)
  qed
  have present: "mv_downside_deviation v \<noteq> None
      \<longleftrightarrow> (\<exists>(q, r) \<in> set (zip points (tl points)). val (point_equity r) < val (point_equity q))"
    unfolding down downside_facts(1) rets using lost by (auto simp: not_le)
  have counts: "mv_winning_trades v = int (length (filter (\<lambda>(q, r).
        val (ps_realized_pnl_quote (ep_portfolio q)) < val (ps_realized_pnl_quote (ep_portfolio r))) (closing points)))"
    "mv_losing_trades v = int (length (filter (\<lambda>(q, r).
        val (ps_realized_pnl_quote (ep_portfolio r)) < val (ps_realized_pnl_quote (ep_portfolio q))) (closing points)))"
    unfolding trades(2,3) pnls count_trades by (rule refl)+
  obtain r where r: "calculate_metrics points = Inr r" "pf_points r = points" "pf_values r = v"
    using calculate_metrics_Inr [OF v] points by fastforce
  show ?thesis
    unfolding ok sum.case Let_def
    by (rule exI [of _ r], unfold r, intro conjI)
      (use closed total win range volatility ratio downside present counts in simp_all)
qed

text \<open>A curve with one losing trade.\<close>

definition example_flat :: "dec \<Rightarrow> dec \<Rightarrow> dec \<Rightarrow> int \<Rightarrow> PortfolioSnapshot" where
  "example_flat cash realized cost trades =
     \<lparr> ps_symbol = ''BTCUSDT'', ps_cash = cash, ps_asset_quantity = d_zero, ps_cost_basis_quote = d_zero,
       ps_liquidation_value_quote = d_zero, ps_realized_pnl_quote = realized, ps_unrealized_pnl_quote = d_zero,
       ps_equity_quote = cash, ps_total_fee_quote = cost, ps_total_slippage_quote = cost, ps_closed_trades = trades \<rparr>"

definition example_curve :: "EquityPoint list" where
  "example_curve =
     [\<lparr> ep_time_ms = 0, ep_portfolio = example_flat (Dec False 10000 0) d_zero d_zero 0 \<rparr>,
      \<lparr> ep_time_ms = 3600000, ep_portfolio = example_flat (Dec False 9000 0) (Dec True 1000 0) d_one 1 \<rparr>]"

theorem performance_report_sound_witness:
  "\<exists>r. calculate_metrics example_curve = Inr r \<and> mv_trade_count (pf_values r) = 1
     \<and> mv_winning_trades (pf_values r) = 0 \<and> mv_losing_trades (pf_values r) = 1
     \<and> mv_downside_deviation (pf_values r) \<noteq> None"
proof -
  have v: "\<forall>q\<in>set example_curve. valid_PortfolioSnapshot (ep_portfolio q)"
    by (simp add: example_curve_def example_flat_def valid_PortfolioSnapshot_def PortfolioSnapshot_post_init_def
        SYMBOLS_def DECIMAL_PRECISION_def py_eval)
  have c: "validate_curve example_curve = Inr ()"
    by (simp add: example_curve_def example_flat_def validate_curve_def curve_start_ok_def curve_step_ok_def py_eval)
  let ?q = "example_curve ! 0" and ?r = "example_curve ! 1"
  have n: "closing example_curve = [(?q, ?r)]" "zip example_curve (tl example_curve) = [(?q, ?r)]"
    by (simp_all add: closing_def example_curve_def example_flat_def)
  have less: "val (ps_realized_pnl_quote (ep_portfolio ?r)) < val (ps_realized_pnl_quote (ep_portfolio ?q))"
    "val (point_equity ?r) < val (point_equity ?q)"
    by (simp_all add: dec_val [symmetric]) (simp_all add: example_curve_def example_flat_def point_equity_def py_eval)
  obtain r where "calculate_metrics example_curve = Inr r" "mv_trade_count (pf_values r) = 1"
    "mv_winning_trades (pf_values r) = 0" "mv_losing_trades (pf_values r) = 1" "mv_downside_deviation (pf_values r) \<noteq> None"
    using performance_report_sound [OF v] less unfolding c sum.case Let_def n by (auto simp: less_le)
  then show ?thesis by blast
qed

section \<open>Curves of a ledger\<close>

lemma money_sum:
  fixes g :: "CostedFill \<Rightarrow> rat"
  assumes "length fs \<le> MAX_LEDGER_BATCH" "\<forall>f\<in>set fs. on_grid (-168) (g f) \<and> \<bar>g f\<bar> < 10 ^ 82"
    and "on_grid (-168) a" "\<bar>a\<bar> \<le> 10 ^ 84" "val d = a + (\<Sum>f\<leftarrow>fs. g f)"
  shows "money d"
proof -
  have "\<bar>\<Sum>f\<leftarrow>fs. g f\<bar> \<le> of_nat (length fs) * 10 ^ 82"
    using assms(2) by (intro sum_list_abs_bound) auto
  also have "\<dots> \<le> 10 ^ 5 * 10 ^ 82" using assms(1) by (intro mult_right_mono) (auto simp: MAX_LEDGER_BATCH_def)
  finally have "\<bar>val d\<bar> \<le> 10 ^ 84 + 10 ^ 5 * 10 ^ 82" using assms(4,5) by linarith
  also have "\<dots> \<le> (2 * 10 ^ 87 :: rat)" by simp
  finally have "\<bar>val d\<bar> \<le> 2 * 10 ^ 87" .
  moreover have "on_grid (-168) (val d)" unfolding assms(5) using assms(2,3) by (intro on_grid_add sum_list_on_grid) auto
  ultimately show ?thesis unfolding money_def by blast
qed

text \<open>A point that values a ledger with exact books.\<close>

definition ledger_point :: "EquityPoint \<Rightarrow> bool" where
  "ledger_point q \<longleftrightarrow> (\<exists>l price. ledger_ok l \<and> length (pl_applied l) \<le> MAX_LEDGER_BATCH
     \<and> ledger_snapshot l price = Inr (ep_portfolio q))"

lemma ledger_point_money:
  assumes "ledger_point q"
  shows "money (point_equity q)" "money (ps_total_fee_quote (ep_portfolio q))" "money (ps_total_slippage_quote (ep_portfolio q))"
    and "valid_PortfolioSnapshot (ep_portfolio q)"
proof -
  obtain l price where ok: "ledger_ok l" and n: "length (pl_applied l) \<le> MAX_LEDGER_BATCH"
    and snap: "ledger_snapshot l price = Inr (ep_portfolio q)"
    using assms by (auto simp: ledger_point_def)
  let ?s = "pl_spec l" and ?fs = "pl_applied l"
  have m: "plain_unsigned price" "0 < val (py_Decimal price)"
    using snap by (auto simp: ledger_snapshot_def bind_r_eq_Inr mark_Inr)
  let ?z = "exact_liquidation l (val (py_Decimal price))"
  have z: "on_grid (-168) ?z" "0 \<le> ?z" "?z < 10 ^ 81" using liquidation_exact [OF ok m] by simp_all
  have s: "valid_BacktestSpec ?s" and v: "\<forall>g\<in>set ?fs. valid_FillReference (cf_reference g)"
    using ok by (auto simp: ledger_ok_def ledger_safe_def)
  note E = ok [unfolded ledger_ok_def ledger_exact_def Let_def, THEN conjunct1]
  have f: "ps_total_fee_quote (ep_portfolio q) = pl_total_fee_quote l"
    "ps_total_slippage_quote (ep_portfolio q) = pl_total_slippage_quote l"
    using snap by (auto simp: ledger_snapshot_def bind_r_eq_Inr construct_eq_Inr Let_def)
  show "valid_PortfolioSnapshot (ep_portfolio q)"
    using ledger_snapshot_ok [OF ok n m] snap by (metis sum.inject(2))
  have e: "val (point_equity q) = val (pl_cash l) + ?z"
    using ledger_snapshot_ok [OF ok n m] snap unfolding point_equity_def by (metis sum.inject(2))
  have "on_grid (-40) (val (cash_decimal ?s))"
    unfolding cash_decimal_def using valid_BacktestSpecD(7) [OF s] by (rule plain_unsigned_grid)
  then have g: "on_grid (-168) (val (cash_decimal ?s) + ?z)"
    using z(1) by (intro on_grid_add) (auto intro: on_grid_coarser)
  have b: "\<bar>val (cash_decimal ?s) + ?z\<bar> \<le> 10 ^ 84" using valid_BacktestSpecD(8,9) [OF s] z by simp
  have C: "\<forall>g\<in>set ?fs. on_grid (-168) (cash_of ?s g) \<and> \<bar>cash_of ?s g\<bar> < 10 ^ 82"
    using v fill_of_bounds(1,2) [OF s] by blast
  have F: "\<forall>g\<in>set ?fs. on_grid (-168) (fee_of ?s g) \<and> \<bar>fee_of ?s g\<bar> < 10 ^ 82"
    using v fill_of_bounds(3-5) [OF s] abs_of_nonneg by metis
  have S: "\<forall>g\<in>set ?fs. on_grid (-168) (slippage_of ?s g) \<and> \<bar>slippage_of ?s g\<bar> < 10 ^ 82"
    using v fill_of_bounds(6-8) [OF s] abs_of_nonneg by metis
  show "money (point_equity q)" by (rule money_sum [OF n C g b]) (use E e in simp)
  show "money (ps_total_fee_quote (ep_portfolio q))" "money (ps_total_slippage_quote (ep_portfolio q))"
    by (rule money_sum [OF n F, of 0] money_sum [OF n S, of 0]; use E f in simp)+
qed

lemma money_add:
  assumes "on_grid (-168) x" "on_grid (-168) y" "\<bar>x\<bar> \<le> 4 * 10 ^ 87" "\<bar>y\<bar> \<le> 4 * 10 ^ 87" "val a = x" "val b = y"
  shows "val (d_add DECIMAL_PRECISION a b) = x + y"
proof -
  have "\<bar>x + y\<bar> \<le> 8 * 10 ^ 87" using assms(3,4) by linarith
  then have "\<bar>x + y\<bar> < 10 ^ 88" by (rule le_less_trans) simp
  then have "representable DECIMAL_PRECISION (x + y)"
    using assms(1,2) by (intro representable_256 [OF on_grid_add, of "-168" _ _ 88]) auto
  then show ?thesis using assms(5,6) by (simp add: val_d_add)
qed

text \<open>Profit and costs of a curve whose first and last point are amounts of a ledger.\<close>

lemma calculate_pnl_exact:
  assumes ok: "validate_curve (start # rest) = Inr ()" and v: "calculate (start # rest) = Inr v"
    and m: "money (point_equity start)" "money (point_equity (last (start # rest)))"
    "money (ps_total_fee_quote (ep_portfolio (last (start # rest))))"
    "money (ps_total_slippage_quote (ep_portfolio (last (start # rest))))"
  shows "val (mv_net_pnl_quote v) = val (point_equity (last (start # rest))) - val (point_equity start)"
    "val (mv_total_cost_quote v) = val (mv_total_fee_quote v) + val (mv_total_slippage_quote v)"
    "val (mv_gross_pnl_quote v) = val (mv_net_pnl_quote v) + val (mv_total_cost_quote v)"
    "mv_total_fee_quote v = ps_total_fee_quote (ep_portfolio (last (start # rest)))"
    "mv_total_slippage_quote v = ps_total_slippage_quote (ep_portfolio (last (start # rest)))"
    "mv_trade_count v = ps_closed_trades (ep_portfolio (last (start # rest)))"
proof -
  obtain w where w: "calculate (start # rest) = Inr w"
    and pnl: "mv_initial_equity_quote w = point_equity start" "mv_final_equity_quote w = point_equity (last (start # rest))"
    "mv_net_pnl_quote w = d_sub DECIMAL_PRECISION (mv_final_equity_quote w) (mv_initial_equity_quote w)"
    and cost: "mv_total_fee_quote w = ps_total_fee_quote (ep_portfolio (last (start # rest)))"
    "mv_total_slippage_quote w = ps_total_slippage_quote (ep_portfolio (last (start # rest)))"
    "mv_total_cost_quote w = d_add DECIMAL_PRECISION (mv_total_fee_quote w) (mv_total_slippage_quote w)"
    "mv_gross_pnl_quote w = d_add DECIMAL_PRECISION (mv_net_pnl_quote w) (mv_total_cost_quote w)"
    and count: "mv_trade_count w = ps_closed_trades (ep_portfolio (last (start # rest)))"
    by (rule calculate_values [OF ok])
  have same: "w = v" using v w by simp
  have l: "money (mv_total_fee_quote w)" "money (mv_total_slippage_quote w)" using m(3,4) by (simp_all add: cost)
  show net: "val (mv_net_pnl_quote v) = val (point_equity (last (start # rest))) - val (point_equity start)"
    unfolding same [symmetric] pnl by (rule money_diff [OF m(2,1)])
  show c: "val (mv_total_cost_quote v) = val (mv_total_fee_quote v) + val (mv_total_slippage_quote v)"
    unfolding same [symmetric] cost(3) by (rule money_add) (use l in \<open>auto simp: money_def\<close>)
  have b: "\<bar>val (mv_net_pnl_quote w)\<bar> \<le> 4 * 10 ^ 87" "\<bar>val (mv_total_cost_quote w)\<bar> \<le> 4 * 10 ^ 87"
    "on_grid (-168) (val (mv_net_pnl_quote w))" "on_grid (-168) (val (mv_total_cost_quote w))"
    using l m(1,2) unfolding net [folded same] c [folded same] by (auto simp: money_def intro!: on_grid_diff on_grid_add)
  show "val (mv_gross_pnl_quote v) = val (mv_net_pnl_quote v) + val (mv_total_cost_quote v)"
    unfolding same [symmetric] cost(4) by (rule money_add [OF b(3,4,1,2)]) simp_all
  show "mv_total_fee_quote v = ps_total_fee_quote (ep_portfolio (last (start # rest)))"
    "mv_total_slippage_quote v = ps_total_slippage_quote (ep_portfolio (last (start # rest)))"
    "mv_trade_count v = ps_closed_trades (ep_portfolio (last (start # rest)))"
    using cost count same by simp_all
qed

text \<open>C22. The figures of a run are exact: on a curve of ledger valuations net profit, costs and gross profit are
the exact differences and sums, the total return is the exact quotient rounded once, and the maximum drawdown is
the exact greatest relative loss over all pairs of an earlier and a later point, rounded once.\<close>

theorem performance_figures_exact:
  assumes "\<forall>q\<in>set points. ledger_point q" and "calculate_metrics points = Inr r"
  shows "let v = pf_values r; e = map (\<lambda>q. val (point_equity q)) points in
    val (mv_net_pnl_quote v) = last e - hd e
    \<and> val (mv_total_cost_quote v) = val (mv_total_fee_quote v) + val (mv_total_slippage_quote v)
    \<and> val (mv_gross_pnl_quote v) = val (mv_net_pnl_quote v) + val (mv_total_cost_quote v)
    \<and> faithful ((last e - hd e) / hd e) (val (mv_total_return v))
    \<and> faithful (exact_drawdown e) (val (mv_maximum_drawdown v))"
proof -
  have ok: "validate_curve points = Inr ()"
    using assms(2) by (auto simp: calculate_metrics_def calculate_def bind_r_eq_Inr)
  then obtain start rest where points: "points = start # rest" and first: "curve_start_ok (ep_portfolio start)"
    and steps: "curve_steps_ok (ps_symbol (ep_portfolio start)) start rest"
    using validate_curve_Inr by blast
  have ok': "validate_curve (start # rest) = Inr ()" using ok points by simp
  obtain v s where v: "calculate (start # rest) = Inr v" and s: "s = curve_loop start rest (curve_start start)"
    and pnl: "mv_initial_equity_quote v = point_equity start"
    "mv_total_return v = d_div DECIMAL_PRECISION (mv_net_pnl_quote v) (mv_initial_equity_quote v)"
    and dd: "mv_maximum_drawdown v = cs_max_drawdown s"
    by (rule calculate_values [OF ok'])
  have r: "pf_values r = v" using calculate_metrics_Inr [OF v] assms(2) points by auto
  let ?l = "last (start # rest)"
  have "?l \<in> set points" unfolding points by (rule last_in_set) simp
  then have l: "money (point_equity ?l)" "money (ps_total_fee_quote (ep_portfolio ?l))"
    "money (ps_total_slippage_quote (ep_portfolio ?l))"
    using assms(1) ledger_point_money by blast+
  have m: "\<forall>q\<in>set points. money (point_equity q)" using assms(1) ledger_point_money(1) by blast
  then have st: "money (point_equity start)" "0 < val (point_equity start)"
    using first by (simp_all add: points curve_start_ok_def dec_val point_equity_def)
  note exact = calculate_pnl_exact [OF ok' v st(1) l]
  have ret: "faithful (val (mv_net_pnl_quote v) / val (point_equity start)) (val (mv_total_return v))"
    unfolding pnl(2) pnl(1) by (rule faithful_div) (use st in simp)
  have "faithful (max 0 (worst (val (point_equity start)) (map (\<lambda>q. val (point_equity q)) rest))) (val (cs_max_drawdown s))"
    using curve_loop_drawdown [OF steps, of "curve_start start" 0] m st faithful_zero
    by (simp add: s points curve_start_def)
  moreover have "\<forall>e\<in>set (map (\<lambda>q. val (point_equity q)) rest). 0 < e" using curve_steps_positive [OF steps] by auto
  ultimately have draw: "faithful (exact_drawdown (map (\<lambda>q. val (point_equity q)) points)) (val (mv_maximum_drawdown v))"
    using exact_drawdown_worst [OF st(2)] worst_nonneg by (simp add: points dd max_absorb2)
  have e: "last (map (\<lambda>q. val (point_equity q)) points) = val (point_equity ?l)"
    "hd (map (\<lambda>q. val (point_equity q)) points) = val (point_equity start)"
    unfolding points by (simp_all add: last_map)
  show ?thesis
    unfolding Let_def r e using exact(1-3) ret draw by simp
qed

theorem performance_figures_exact_witness:
  "\<exists>q r. ledger_snapshot (PortfolioLedger_init example_spec) ''42000.5'' = Inr q
     \<and> calculate_metrics [\<lparr> ep_time_ms = 0, ep_portfolio = q \<rparr>, \<lparr> ep_time_ms = 1, ep_portfolio = q \<rparr>] = Inr r
     \<and> val (mv_net_pnl_quote (pf_values r)) = 0
     \<and> faithful (exact_drawdown [10000, 10000]) (val (mv_maximum_drawdown (pf_values r)))"
proof -
  let ?l = "PortfolioLedger_init example_spec"
  have ok: "ledger_ok ?l" by (rule PortfolioLedger_init_ok [OF example_spec_valid])
  obtain q where q: "ledger_snapshot ?l ''42000.5'' = Inr q" "val (ps_equity_quote q) = 10000"
    "curve_start_ok q" "ps_closed_trades q = 0" "val (ps_asset_quantity q) = 0"
  proof -
    have m: "plain_unsigned ''42000.5''" "0 < val (py_Decimal ''42000.5'')"
      by (simp_all add: dec_val [symmetric] val_d_zero [symmetric, of False 0] py_eval del: val_d_zero)
    have n: "length (pl_applied ?l) \<le> MAX_LEDGER_BATCH" by (simp add: PortfolioLedger_init_def)
    have cash: "val (pl_cash ?l) = 10000"
      by (simp add: PortfolioLedger_init_def cash_decimal_def example_spec_def default_spec_def py_eval val_def)
    have flat: "exact_liquidation ?l price = 0" for price by (simp add: exact_liquidation_def PortfolioLedger_init_def)
    obtain q where q: "ledger_snapshot ?l ''42000.5'' = Inr q"
      "val (ps_equity_quote q) = val (pl_cash ?l) + exact_liquidation ?l (val (py_Decimal ''42000.5''))"
      using ledger_snapshot_ok [OF ok n m] by blast
    have "ps_asset_quantity q = d_zero" "ps_closed_trades q = 0" "ps_realized_pnl_quote q = d_zero"
      "ps_total_fee_quote q = d_zero" "ps_total_slippage_quote q = d_zero"
      using q(1) by (auto simp: ledger_snapshot_def bind_r_eq_Inr construct_eq_Inr Let_def PortfolioLedger_init_def)
    then show thesis using that [OF q(1)] q(2) cash flat by (simp add: curve_start_ok_def dec_val)
  qed
  define points where "points = [\<lparr> ep_time_ms = 0, ep_portfolio = q \<rparr>, \<lparr> ep_time_ms = 1, ep_portfolio = q \<rparr>]"
  have p: "\<forall>p\<in>set points. ledger_point p"
    using ok q(1) by (auto simp: points_def ledger_point_def PortfolioLedger_init_def intro!: exI [of _ ?l] exI [of _ "''42000.5''"])
  have "validate_curve points = Inr ()"
    using q by (simp add: validate_curve_def points_def curve_step_ok_def Let_def dec_val)
  then obtain v where "calculate points = Inr v" by (simp add: calculate_def Let_def)
  then obtain r where r: "calculate_metrics points = Inr r" using calculate_metrics_Inr by blast
  show ?thesis
    using performance_figures_exact [OF p r] q(1,2) r unfolding Let_def points_def by (auto simp: point_equity_def)
qed

end
