(* ===== verification/Backtest_Artifacts.thy ===== *)
theory Backtest_Artifacts
  imports Backtest_Metrics Strategy_Contracts
begin

text \<open>
  \<^verbatim>\<open>yatl/backtest/artifacts.py\<close>: the manifest of a finished run. The fills are paired into trades
  and their sums are compared with the performance report; configuration, data and figures
  go into one canonical document with its digests. The theorem shows that the comparison
  succeeds for every run of the ledger. The texts of a manifest are plain ASCII, where the
  encoding with \<^verbatim>\<open>ensure_ascii=False\<close> is that of \<open>json_dumps\<close>.
\<close>

section \<open>Trades\<close>

definition ARTIFACT_KIND :: string where "ARTIFACT_KIND = ''YATL_SPOT_PAPER_BACKTEST''"
definition ENGINE_VERSION :: string where "ENGINE_VERSION = ''P2.2''"
definition MAX_ARTIFACT_BYTES :: nat where "MAX_ARTIFACT_BYTES = 2 * 1024 * 1024"

record TradeRow =
  tr_entry_time_ms :: int
  tr_exit_time_ms :: int
  tr_quantity :: string
  tr_entry_reference_price :: string
  tr_entry_execution_price :: string
  tr_exit_reference_price :: string
  tr_exit_execution_price :: string
  tr_exit_reason :: string
  tr_gross_pnl_quote :: string
  tr_net_pnl_quote :: string
  tr_fee_quote :: string
  tr_slippage_quote :: string

definition trade_row :: "CostedFill \<Rightarrow> CostedFill \<Rightarrow> TradeRow" where
  "trade_row entry exit =
     (let p = DECIMAL_PRECISION; e = cf_reference entry; x = cf_reference exit in
      \<lparr> tr_entry_time_ms = fr_fill_time_ms e, tr_exit_time_ms = fr_fill_time_ms x, tr_quantity = fr_quantity e,
        tr_entry_reference_price = fr_reference_price e,
        tr_entry_execution_price = d_format (cf_execution_price entry),
        tr_exit_reference_price = fr_reference_price x,
        tr_exit_execution_price = d_format (cf_execution_price exit), tr_exit_reason = FillReason_value (fr_reason x),
        tr_gross_pnl_quote = d_format (d_mul p
          (d_sub p (py_Decimal (fr_reference_price x)) (py_Decimal (fr_reference_price e))) (py_Decimal (fr_quantity e))),
        tr_net_pnl_quote = d_format (d_add p (cf_cash_delta entry) (cf_cash_delta exit)),
        tr_fee_quote = d_format (d_add p (cf_fee_quote entry) (cf_fee_quote exit)),
        tr_slippage_quote = d_format (d_add p (cf_slippage_quote entry) (cf_slippage_quote exit)) \<rparr>)"

text \<open>The loop over the fills, with the open entry; it returns the trades and the entry that is left open.\<close>

fun pair_fills :: "string \<Rightarrow> CostedFill option \<Rightarrow> CostedFill list \<Rightarrow> (TradeRow list \<times> CostedFill option) result" where
  "pair_fills symbol entry [] = Inr ([], entry)"
| "pair_fills symbol entry (fill # fills) =
     (let r = cf_reference fill in
      if fr_symbol r \<noteq> symbol then Inl (ArtifactError ''Artifact fill symbol is inconsistent'')
      else if fr_action r = ENTER_LONG then
        (if entry \<noteq> None then Inl (ArtifactError ''Artifact contains overlapping entries'')
         else pair_fills symbol (Some fill) fills)
      else case entry of
        None \<Rightarrow> Inl (ArtifactError ''Artifact trade lifecycle is inconsistent'')
      | Some e \<Rightarrow>
          if fr_quantity (cf_reference e) \<noteq> fr_quantity r \<or> fr_fill_time_ms r < fr_fill_time_ms (cf_reference e)
          then Inl (ArtifactError ''Artifact trade lifecycle is inconsistent'')
          else bind_r (pair_fills symbol None fills) (\<lambda>(trades, left).
            Inr (trade_row e fill # trades, left)))"

definition trade_total :: "(TradeRow \<Rightarrow> string) \<Rightarrow> TradeRow list \<Rightarrow> dec" where
  "trade_total field trades = d_sum DECIMAL_PRECISION (map (\<lambda>t. py_Decimal (field t)) trades)"

definition artifact_trades :: "CostedFill list \<Rightarrow> PerformanceReport \<Rightarrow> TradeRow list result" where
  "artifact_trades fills report =
     bind_r (pair_fills (ps_symbol (ep_portfolio (hd (pf_points report)))) None fills) (\<lambda>(trades, entry).
     let v = pf_values report in
     if entry \<noteq> None \<or> int (length trades) \<noteq> mv_trade_count v
     then Inl (ArtifactError ''Artifact must contain only completed reported trades'')
     else if \<not> d_eq (trade_total tr_gross_pnl_quote trades) (mv_gross_pnl_quote v)
             \<or> \<not> d_eq (trade_total tr_net_pnl_quote trades) (mv_net_pnl_quote v)
             \<or> \<not> d_eq (trade_total tr_fee_quote trades) (mv_total_fee_quote v)
             \<or> \<not> d_eq (trade_total tr_slippage_quote trades) (mv_total_slippage_quote v)
     then Inl (ArtifactError ''Artifact trades do not reconcile with performance metrics'')
     else Inr trades)"

section \<open>The manifest\<close>

definition artifact_spec :: "BacktestSpec \<Rightarrow> json" where
  "artifact_spec s = JObj
     [(''symbol'', JStr (sp_symbol s)), (''start_time_ms'', JInt (sp_start_time_ms s)),
      (''end_time_ms'', JInt (sp_end_time_ms s)), (''initial_cash'', JStr (sp_initial_cash s)),
      (''fee_bps'', JStr (sp_fee_bps s)), (''slippage_bps'', JStr (sp_slippage_bps s)), (''seed'', JInt (sp_seed s)),
      (''paper_only'', JBool (sp_paper_only s)), (''live_master_lock'', JStr (sp_live_master_lock s)),
      (''spot_only'', JBool (sp_spot_only s)), (''allow_short'', JBool (sp_allow_short s)),
      (''allow_leverage'', JBool (sp_allow_leverage s)),
      (''execution_price_policy'', JStr (sp_execution_price_policy s))]"

definition artifact_interval :: "string \<Rightarrow> string \<Rightarrow> Candle list \<Rightarrow> (string \<times> json) result" where
  "artifact_interval symbol name candles =
     (let times = map cd_open_time_ms candles in
      if candles = []
         \<or> list_ex (\<lambda>c. cd_symbol c \<noteq> symbol \<or> cd_interval c \<noteq> name \<or> \<not> cd_is_closed c) candles
         \<or> times \<noteq> sort times \<or> \<not> distinct times
      then Inl (ArtifactError ''Accepted dataset identity is inconsistent'')
      else Inr (name, JObj
        [(''rows'', JInt (int (length candles))), (''first_open_time_ms'', JInt (cd_open_time_ms (hd candles))),
         (''last_open_time_ms'', JInt (cd_open_time_ms (last candles))),
         (''sha256'', JStr (py_digest (JList (map as_record candles))))]))"

definition artifact_data :: "AcceptedBacktestDataset \<Rightarrow> json result" where
  "artifact_data d =
     (let symbol = sp_symbol (ds_spec d) in
      if ds_manifest_generated_at_ms d \<le> 0 then Inl (ArtifactError ''Accepted dataset timestamp is invalid'')
      else bind_r (artifact_interval symbol ''1h'' (ds_primary d)) (\<lambda>primary.
        bind_r (artifact_interval symbol ''15m'' (ds_context d)) (\<lambda>context_interval.
        bind_r (artifact_interval symbol ''4h'' (ds_regime d)) (\<lambda>regime.
        Inr (JObj
          [(''source'', JStr ''BINANCE_SPOT_PUBLIC_CLOSED_OHLCV''), (''symbol'', JStr symbol),
           (''manifest_generated_at_ms'', JInt (ds_manifest_generated_at_ms d)),
           (''intervals'', JObj [primary, context_interval, regime])])))))"

definition fill_input :: "CostedFill \<Rightarrow> json" where
  "fill_input f = (let r = cf_reference f in JObj
     [(''action'', JStr (IntentAction_value (fr_action r))), (''decision_time_ms'', JInt (fr_decision_time_ms r)),
      (''fill_time_ms'', JInt (fr_fill_time_ms r)), (''quantity'', JStr (fr_quantity r)),
      (''reference_price'', JStr (fr_reference_price r)), (''reason'', JStr (FillReason_value (fr_reason r)))])"

definition trade_json :: "TradeRow \<Rightarrow> json" where
  "trade_json t = JObj
     [(''entry_time_ms'', JInt (tr_entry_time_ms t)), (''exit_time_ms'', JInt (tr_exit_time_ms t)),
      (''quantity'', JStr (tr_quantity t)), (''entry_reference_price'', JStr (tr_entry_reference_price t)),
      (''entry_execution_price'', JStr (tr_entry_execution_price t)),
      (''exit_reference_price'', JStr (tr_exit_reference_price t)),
      (''exit_execution_price'', JStr (tr_exit_execution_price t)), (''exit_reason'', JStr (tr_exit_reason t)),
      (''gross_pnl_quote'', JStr (tr_gross_pnl_quote t)), (''net_pnl_quote'', JStr (tr_net_pnl_quote t)),
      (''fee_quote'', JStr (tr_fee_quote t)), (''slippage_quote'', JStr (tr_slippage_quote t))]"

definition decimal_json :: "dec \<Rightarrow> json" where
  "decimal_json d = JStr (d_format d)"

definition artifact_metrics :: "PerformanceReport \<Rightarrow> json" where
  "artifact_metrics r = (let v = pf_values r in JObj
     [(''initial_equity_quote'', decimal_json (mv_initial_equity_quote v)),
      (''final_equity_quote'', decimal_json (mv_final_equity_quote v)), (''total_return'', decimal_json (mv_total_return v)),
      (''trade_count'', JInt (mv_trade_count v)), (''winning_trades'', JInt (mv_winning_trades v)),
      (''losing_trades'', JInt (mv_losing_trades v)), (''breakeven_trades'', JInt (mv_breakeven_trades v)),
      (''win_rate'', j_opt decimal_json (mv_win_rate v)), (''gross_pnl_quote'', decimal_json (mv_gross_pnl_quote v)),
      (''net_pnl_quote'', decimal_json (mv_net_pnl_quote v)), (''total_fee_quote'', decimal_json (mv_total_fee_quote v)),
      (''total_slippage_quote'', decimal_json (mv_total_slippage_quote v)),
      (''total_cost_quote'', decimal_json (mv_total_cost_quote v)),
      (''maximum_drawdown_quote'', decimal_json (mv_maximum_drawdown_quote v)),
      (''maximum_drawdown'', decimal_json (mv_maximum_drawdown v)),
      (''mean_period_return'', j_opt decimal_json (mv_mean_period_return v)),
      (''sample_period_volatility'', j_opt decimal_json (mv_sample_period_volatility v)),
      (''downside_deviation'', j_opt decimal_json (mv_downside_deviation v)),
      (''mean_over_volatility'', j_opt decimal_json (mv_mean_over_volatility v)),
      (''mean_over_downside'', j_opt decimal_json (mv_mean_over_downside v))])"

definition artifact_range_ok :: "BacktestSpec \<Rightarrow> CostedFill list \<Rightarrow> EquityPoint list \<Rightarrow> bool" where
  "artifact_range_ok spec fills points \<longleftrightarrow>
     \<not> (ep_time_ms (hd points) < sp_start_time_ms spec \<or> sp_end_time_ms spec \<le> ep_time_ms (last points)
        \<or> list_ex (\<lambda>f. \<not> (sp_start_time_ms spec \<le> fr_fill_time_ms (cf_reference f)
            \<and> fr_fill_time_ms (cf_reference f) < sp_end_time_ms spec)) fills)"

definition build_run_manifest :: "AcceptedBacktestDataset \<Rightarrow> CostedFill list \<Rightarrow> PerformanceReport \<Rightarrow> json result" where
  "build_run_manifest dataset fills report =
     (let spec = ds_spec dataset; points = pf_points report; v = pf_values report in
      if sp_symbol spec \<noteq> ps_symbol (ep_portfolio (hd points)) then Inl (ArtifactError ''Artifact inputs are inconsistent'')
      else if \<not> artifact_range_ok spec fills points
      then Inl (ArtifactError ''Artifact lifecycle is outside the configured range'')
      else bind_r (artifact_data dataset) (\<lambda>dataset_json.
        bind_r (artifact_trades fills report) (\<lambda>trades.
        let config = artifact_spec spec;
            input_material = JObj
              [(''configuration'', config), (''data'', dataset_json), (''fill_inputs'', JList (map fill_input fills))];
            equities = map point_equity points;
            manifest =
              [(''schema_version'', JInt 2), (''artifact_kind'', JStr ARTIFACT_KIND), (''engine_version'', JStr ENGINE_VERSION),
               (''input_sha256'', JStr (py_digest input_material)), (''configuration'', config), (''data'', dataset_json),
               (''trades'', JList (map trade_json trades)),
               (''equity_curve'', JObj
                 [(''points'', JInt (int (length points))), (''start_time_ms'', JInt (ep_time_ms (hd points))),
                  (''end_time_ms'', JInt (ep_time_ms (last points))),
                  (''initial_equity_quote'', decimal_json (mv_initial_equity_quote v)),
                  (''final_equity_quote'', decimal_json (mv_final_equity_quote v)),
                  (''minimum_equity_quote'', decimal_json (foldl d_min (hd equities) (tl equities))),
                  (''maximum_equity_quote'', decimal_json (foldl d_max (hd equities) (tl equities)))]),
               (''metrics'', artifact_metrics report)]
        in Inr (JObj (manifest @ [(''result_sha256'', JStr (py_digest (JObj manifest)))])))))"

section \<open>The document\<close>

fun contains_text :: "string \<Rightarrow> string \<Rightarrow> bool" where
  "contains_text needle [] \<longleftrightarrow> needle = []"
| "contains_text needle (c # s) \<longleftrightarrow> take (length needle) (c # s) = needle \<or> contains_text needle s"

definition forbidden_texts :: "string list" where
  "forbidden_texts =
     map (\<lambda>k. [CHR 0x22] @ k @ [CHR 0x22])
       [''api_key'', ''api_secret'', ''password'', ''credential'', ''database_path'', ''manifest_path'']
     @ [replicate 2 (CHR 0x5C) @ ''users'' @ replicate 2 (CHR 0x5C), ''/users/'']"

definition manifest_keys :: "string list" where
  "manifest_keys =
     [''schema_version'', ''artifact_kind'', ''engine_version'', ''input_sha256'', ''result_sha256'', ''configuration'',
      ''data'', ''trades'', ''equity_curve'', ''metrics'']"

definition artifact_json :: "json \<Rightarrow> string result" where
  "artifact_json manifest =
     (case manifest of
        JObj kvs \<Rightarrow>
          if set (map fst kvs) \<noteq> set manifest_keys \<or> map_of kvs ''schema_version'' \<noteq> Some (JInt 2)
             \<or> map_of kvs ''artifact_kind'' \<noteq> Some (JStr ARTIFACT_KIND)
             \<or> map_of kvs ''engine_version'' \<noteq> Some (JStr ENGINE_VERSION)
          then Inl (ArtifactError ''Run manifest identity is invalid'')
          else let encoded = json_dumps manifest @ [CHR 0x0A]; lowered = map lower_char encoded in
            if list_ex (\<lambda>item. contains_text item lowered) forbidden_texts
            then Inl (ArtifactError ''Run manifest contains forbidden sensitive material'')
            else if MAX_ARTIFACT_BYTES < length encoded then Inl (ArtifactError ''Run manifest is too large'')
            else Inr encoded
      | _ \<Rightarrow> Inl (ArtifactError ''Run manifest identity is invalid''))"

text \<open>
  Writing: the target file, and whether writing the temporary file and renaming it succeed. The
  temporary file is removed when they do not.
\<close>

definition write_run_manifest :: "bool \<Rightarrow> json \<Rightarrow> (string option, unit) action" where
  "write_run_manifest written manifest target =
     (case artifact_json manifest of
        Inl e \<Rightarrow> act_raise (ArtifactError ''Cannot write the run manifest'') target
      | Inr encoded \<Rightarrow>
          if written then act_return () (Some encoded)
          else act_raise (ArtifactError ''Cannot write the run manifest'') target)"

section \<open>Amounts of a trade\<close>

text \<open>A fill under the cost policy of a specification.\<close>

definition policy_fill :: "BacktestSpec \<Rightarrow> CostedFill \<Rightarrow> bool" where
  "policy_fill s f \<longleftrightarrow> valid_CostedFill f \<and> val (cf_fee_bps f) = val (fee_bps_decimal s)
     \<and> val (cf_slippage_bps f) = val (slippage_bps_decimal s)"

text \<open>A text whose value is an amount of at most two fills.\<close>

definition trade_amount :: "string \<Rightarrow> bool" where
  "trade_amount t \<longleftrightarrow> on_grid (-168) (val (py_Decimal t)) \<and> \<bar>val (py_Decimal t)\<bar> \<le> 2 * 10 ^ 82"

lemma amount_sum:
  assumes "on_grid (-168) x" "on_grid (-168) y" "\<bar>x\<bar> < 10 ^ 82" "\<bar>y\<bar> < 10 ^ 82" "val a = x" "val b = y"
  shows "val (py_Decimal (d_format (d_add DECIMAL_PRECISION a b))) = x + y"
    "trade_amount (d_format (d_add DECIMAL_PRECISION a b))"
proof -
  have b: "\<bar>x + y\<bar> \<le> 2 * 10 ^ 82" using assms(3,4) by linarith
  have g: "on_grid (-168) (x + y)" by (rule on_grid_add [OF assms(1,2)])
  have "\<bar>x + y\<bar> < 10 ^ 83" using b by (rule le_less_trans) simp
  then have "representable DECIMAL_PRECISION (x + y)" by (rule representable_256 [OF g]) simp
  then have "val (d_add DECIMAL_PRECISION a b) = x + y" using assms(5,6) by (simp add: val_d_add)
  then show "val (py_Decimal (d_format (d_add DECIMAL_PRECISION a b))) = x + y"
    "trade_amount (d_format (d_add DECIMAL_PRECISION a b))"
    using b g by (simp_all add: trade_amount_def)
qed

lemma gross_amount:
  assumes "plain_unsigned x" "plain_unsigned y" "plain_unsigned q"
  shows "val (py_Decimal (d_format (d_mul DECIMAL_PRECISION (d_sub DECIMAL_PRECISION (py_Decimal x) (py_Decimal y)) (py_Decimal q))))
      = (val (py_Decimal x) - val (py_Decimal y)) * val (py_Decimal q)"
    "trade_amount (d_format (d_mul DECIMAL_PRECISION (d_sub DECIMAL_PRECISION (py_Decimal x) (py_Decimal y)) (py_Decimal q)))"
proof -
  let ?x = "val (py_Decimal x)" and ?y = "val (py_Decimal y)" and ?q = "val (py_Decimal q)"
  note B = plain_unsigned_bounds
  have b: "0 \<le> ?x" "?x < 10 ^ 40" "0 \<le> ?y" "?y < 10 ^ 40" "0 \<le> ?q" "?q < 10 ^ 40"
    using B(2,3) [OF assms(1)] B(2,3) [OF assms(2)] B(2,3) [OF assms(3)] by simp_all
  have g: "on_grid (-40) (?x - ?y)" by (intro on_grid_diff plain_unsigned_grid assms)
  have d: "\<bar>?x - ?y\<bar> < 10 ^ 40" using b by linarith
  have "representable DECIMAL_PRECISION (?x - ?y)" by (rule representable_256 [OF g d]) simp
  then have s: "val (d_sub DECIMAL_PRECISION (py_Decimal x) (py_Decimal y)) = ?x - ?y" by (simp add: val_d_sub)
  have g2: "on_grid (-80) ((?x - ?y) * ?q)" using on_grid_mult [OF g plain_unsigned_grid [OF assms(3)]] by simp
  have "\<bar>?x - ?y\<bar> * \<bar>?q\<bar> \<le> 10 ^ 40 * 10 ^ 40" using d b by (intro mult_mono) auto
  then have m: "\<bar>(?x - ?y) * ?q\<bar> \<le> 10 ^ 80" by (simp add: abs_mult)
  then have "\<bar>(?x - ?y) * ?q\<bar> < 10 ^ 81" by (rule le_less_trans) simp
  then have "representable DECIMAL_PRECISION ((?x - ?y) * ?q)" by (rule representable_256 [OF g2]) simp
  then have v: "val (d_mul DECIMAL_PRECISION (d_sub DECIMAL_PRECISION (py_Decimal x) (py_Decimal y)) (py_Decimal q)) = (?x - ?y) * ?q"
    by (simp add: val_d_mul s)
  moreover have "\<bar>(?x - ?y) * ?q\<bar> \<le> 2 * 10 ^ 82" by (rule order_trans [OF m]) simp
  moreover have "on_grid (-168) ((?x - ?y) * ?q)" by (rule on_grid_coarser [OF g2]) simp
  ultimately show "val (py_Decimal (d_format (d_mul DECIMAL_PRECISION (d_sub DECIMAL_PRECISION (py_Decimal x) (py_Decimal y)) (py_Decimal q))))
      = (?x - ?y) * ?q"
    "trade_amount (d_format (d_mul DECIMAL_PRECISION (d_sub DECIMAL_PRECISION (py_Decimal x) (py_Decimal y)) (py_Decimal q)))"
    by (simp_all add: trade_amount_def)
qed

lemma trade_identity:
  assumes "fr_action (cf_reference e) = ENTER_LONG" "fr_action (cf_reference x) \<noteq> ENTER_LONG"
    and "qty (cf_reference e) = qty (cf_reference x)"
  shows "(val (py_Decimal (fr_reference_price (cf_reference x))) - val (py_Decimal (fr_reference_price (cf_reference e))))
      * qty (cf_reference e)
    = (cash_of s e + fee_of s e + slippage_of s e) + (cash_of s x + fee_of s x + slippage_of s x)"
  using assms
  by (simp add: cash_of_def fee_of_def slippage_of_def exact_cash_def exact_fee_def exact_slippage_def exact_gross_def
      exact_price_def algebra_simps)

definition row_ok :: "TradeRow \<Rightarrow> bool" where
  "row_ok t \<longleftrightarrow> trade_amount (tr_gross_pnl_quote t) \<and> trade_amount (tr_net_pnl_quote t)
     \<and> trade_amount (tr_fee_quote t) \<and> trade_amount (tr_slippage_quote t)"

lemma valid_reference_texts:
  "valid_FillReference r \<Longrightarrow> plain_unsigned (fr_quantity r) \<and> plain_unsigned (fr_reference_price r)"
  using valid_FillReferenceD(7-) [of r] by simp

lemma trade_row_values:
  assumes s: "valid_BacktestSpec s" and f: "policy_fill s e" "policy_fill s x"
    and a: "fr_action (cf_reference e) = ENTER_LONG" "fr_action (cf_reference x) \<noteq> ENTER_LONG"
    and q: "fr_quantity (cf_reference e) = fr_quantity (cf_reference x)"
  shows "row_ok (trade_row e x)"
    "val (py_Decimal (tr_net_pnl_quote (trade_row e x))) = cash_of s e + cash_of s x"
    "val (py_Decimal (tr_fee_quote (trade_row e x))) = fee_of s e + fee_of s x"
    "val (py_Decimal (tr_slippage_quote (trade_row e x))) = slippage_of s e + slippage_of s x"
    "val (py_Decimal (tr_gross_pnl_quote (trade_row e x)))
      = (cash_of s e + fee_of s e + slippage_of s e) + (cash_of s x + fee_of s x + slippage_of s x)"
proof -
  have v: "valid_FillReference (cf_reference e)" "valid_FillReference (cf_reference x)"
    using f valid_CostedFill_reference by (auto simp: policy_fill_def)
  note E = fill_of_bounds [OF s v(1)] and X = fill_of_bounds [OF s v(2)]
  have ve: "val (cf_cash_delta e) = cash_of s e" "val (cf_fee_quote e) = fee_of s e" "val (cf_slippage_quote e) = slippage_of s e"
    and vx: "val (cf_cash_delta x) = cash_of s x" "val (cf_fee_quote x) = fee_of s x" "val (cf_slippage_quote x) = slippage_of s x"
    using policy_fill_values [OF s] f by (simp_all add: policy_fill_def)
  have abs: "\<bar>fee_of s e\<bar> < 10 ^ 82" "\<bar>fee_of s x\<bar> < 10 ^ 82" "\<bar>slippage_of s e\<bar> < 10 ^ 82" "\<bar>slippage_of s x\<bar> < 10 ^ 82"
    using E(4,5,7,8) X(4,5,7,8) by simp_all
  note N = amount_sum [OF E(1) X(1) E(2) X(2) ve(1) vx(1)]
    and F = amount_sum [OF E(3) X(3) abs(1,2) ve(2) vx(2)] and S = amount_sum [OF E(6) X(6) abs(3,4) ve(3) vx(3)]
  have t: "plain_unsigned (fr_reference_price (cf_reference x))" "plain_unsigned (fr_reference_price (cf_reference e))"
    "plain_unsigned (fr_quantity (cf_reference e))"
    using valid_reference_texts [OF v(1)] valid_reference_texts [OF v(2)] by simp_all
  note G = gross_amount [OF t]
  have "qty (cf_reference e) = qty (cf_reference x)" using q by (simp add: qty_def)
  note I = trade_identity [OF a this, of s, unfolded qty_def [of "cf_reference e"]]
  show "row_ok (trade_row e x)" using N(2) F(2) S(2) G(2) by (simp add: row_ok_def trade_row_def Let_def)
  show "val (py_Decimal (tr_net_pnl_quote (trade_row e x))) = cash_of s e + cash_of s x"
    "val (py_Decimal (tr_fee_quote (trade_row e x))) = fee_of s e + fee_of s x"
    "val (py_Decimal (tr_slippage_quote (trade_row e x))) = slippage_of s e + slippage_of s x"
    using N(1) F(1) S(1) by (simp_all add: trade_row_def Let_def del: val_format)
  show "val (py_Decimal (tr_gross_pnl_quote (trade_row e x)))
      = (cash_of s e + fee_of s e + slippage_of s e) + (cash_of s x + fee_of s x + slippage_of s x)"
    using G(1) unfolding I by (simp add: trade_row_def Let_def del: val_format)
qed

text \<open>The sums over the texts are exact.\<close>

lemma trade_total_exact:
  assumes "\<forall>t\<in>set trades. trade_amount (field t)" "length trades \<le> MAX_LEDGER_BATCH"
  shows "val (trade_total field trades) = (\<Sum>t\<leftarrow>trades. val (py_Decimal (field t)))
    \<and> on_grid (-168) (\<Sum>t\<leftarrow>trades. val (py_Decimal (field t)))
    \<and> \<bar>\<Sum>t\<leftarrow>trades. val (py_Decimal (field t))\<bar> \<le> of_nat (length trades) * (2 * 10 ^ 82)"
  using assms
proof (induction trades rule: rev_induct)
  case (snoc t trades)
  let ?s = "\<Sum>t\<leftarrow>trades. val (py_Decimal (field t))" and ?x = "val (py_Decimal (field t))"
  have IH: "val (trade_total field trades) = ?s" "on_grid (-168) ?s" "\<bar>?s\<bar> \<le> of_nat (length trades) * (2 * 10 ^ 82)"
    using snoc by simp_all
  have x: "on_grid (-168) ?x" "\<bar>?x\<bar> \<le> 2 * 10 ^ 82" using snoc.prems(1) by (simp_all add: trade_amount_def)
  have g: "on_grid (-168) (?s + ?x)" by (rule on_grid_add [OF IH(2) x(1)])
  have b: "\<bar>?s + ?x\<bar> \<le> of_nat (length (trades @ [t])) * (2 * 10 ^ 82)"
    using IH(3) x(2) by (simp add: distrib_right abs_le_iff)
  have "(of_nat (length (trades @ [t])) :: rat) \<le> of_nat 100000"
    using snoc.prems(2) unfolding MAX_LEDGER_BATCH_def by (rule of_nat_mono)
  then have "of_nat (length (trades @ [t])) * (2 * 10 ^ 82) \<le> (100000 :: rat) * (2 * 10 ^ 82)" by simp
  with b have "\<bar>?s + ?x\<bar> \<le> 100000 * (2 * 10 ^ 82)" by (rule order_trans)
  then have "\<bar>?s + ?x\<bar> < 10 ^ 88" by (rule le_less_trans) simp
  then have "representable DECIMAL_PRECISION (?s + ?x)" by (rule representable_256 [OF g]) simp
  then show ?case using g b IH(1) by (simp add: trade_total_def d_sum_def val_d_add)
qed (simp add: trade_total_def d_sum_def)

section \<open>Pairing the fills of a ledger\<close>

text \<open>Entry and exit of a trade write their quantity with the same text.\<close>

fun paired_texts :: "CostedFill option \<Rightarrow> CostedFill list \<Rightarrow> bool" where
  "paired_texts entry [] \<longleftrightarrow> True"
| "paired_texts entry (f # fs) \<longleftrightarrow>
     (if fr_action (cf_reference f) = ENTER_LONG then paired_texts (Some f) fs
      else (case entry of None \<Rightarrow> True | Some e \<Rightarrow> fr_quantity (cf_reference e) = fr_quantity (cf_reference f))
        \<and> paired_texts None fs)"

definition open_entry :: "PortfolioLedger \<Rightarrow> CostedFill option \<Rightarrow> bool" where
  "open_entry l entry \<longleftrightarrow>
     (case entry of
        None \<Rightarrow> \<not> pl_has_position l
      | Some e \<Rightarrow> pl_has_position l \<and> policy_fill (pl_spec l) e \<and> fr_action (cf_reference e) = ENTER_LONG
          \<and> pl_last_fill_time_ms l = Some (fr_fill_time_ms (cf_reference e)))"

text \<open>The trades of the fills that follow an open entry.\<close>

definition trades_of :: "BacktestSpec \<Rightarrow> CostedFill list \<Rightarrow> TradeRow list \<Rightarrow> bool" where
  "trades_of s fs trades \<longleftrightarrow> (\<forall>t\<in>set trades. row_ok t)
     \<and> (\<Sum>t\<leftarrow>trades. val (py_Decimal (tr_net_pnl_quote t))) = (\<Sum>f\<leftarrow>fs. cash_of s f)
     \<and> (\<Sum>t\<leftarrow>trades. val (py_Decimal (tr_fee_quote t))) = (\<Sum>f\<leftarrow>fs. fee_of s f)
     \<and> (\<Sum>t\<leftarrow>trades. val (py_Decimal (tr_slippage_quote t))) = (\<Sum>f\<leftarrow>fs. slippage_of s f)
     \<and> (\<Sum>t\<leftarrow>trades. val (py_Decimal (tr_gross_pnl_quote t))) = (\<Sum>f\<leftarrow>fs. cash_of s f + fee_of s f + slippage_of s f)"

lemma trades_of_Cons:
  assumes "valid_BacktestSpec s" "policy_fill s e" "policy_fill s x" "fr_action (cf_reference e) = ENTER_LONG"
    "fr_action (cf_reference x) \<noteq> ENTER_LONG" "fr_quantity (cf_reference e) = fr_quantity (cf_reference x)"
    and "trades_of s fs trades"
  shows "trades_of s (e # x # fs) (trade_row e x # trades)"
  using trade_row_values [OF assms(1-6)] assms(7) by (simp add: trades_of_def)

lemma step_enter:
  assumes "ledger_ok l" "valid_CostedFill f" "ledger_apply_raw f l = (m, Inr u)"
  shows "policy_fill (pl_spec l) f" "fr_symbol (cf_reference f) = sp_symbol (pl_spec l)"
    and "fr_action (cf_reference f) = ENTER_LONG \<Longrightarrow> \<not> pl_has_position l \<and> open_entry m (Some f) \<and> pl_closed_trades m = pl_closed_trades l"
    and "fr_action (cf_reference f) \<noteq> ENTER_LONG \<Longrightarrow> pl_has_position l \<and> open_entry m None \<and> pl_closed_trades m = pl_closed_trades l + 1
      \<and> (\<forall>t. pl_last_fill_time_ms l = Some t \<longrightarrow> t \<le> fr_fill_time_ms (cf_reference f))"
proof -
  have s: "valid_BacktestSpec (pl_spec l)" using assms(1) by (simp add: ledger_ok_def ledger_safe_def)
  have ch: "ledger_checks l f = Inr ()" using assms(3) by (cases rule: ledger_apply_raw_cases) simp_all
  note C = ledger_checks_ok [OF ch]
  show p: "policy_fill (pl_spec l) f" "fr_symbol (cf_reference f) = sp_symbol (pl_spec l)"
    using C assms(2) by (simp_all add: policy_fill_def)
  have v: "valid_FillReference (cf_reference f)" by (rule valid_CostedFill_reference [OF assms(2)])
  have a: "val (cf_asset_delta f) = exact_asset (cf_reference f)" "0 < qty (cf_reference f)"
    using policy_fill_values(4) [OF s assms(2) C(2,3)] exact_bounds(2) [OF v spec_rates [OF s]] by simp_all
  show "\<not> pl_has_position l \<and> open_entry m (Some f) \<and> pl_closed_trades m = pl_closed_trades l"
    if "fr_action (cf_reference f) = ENTER_LONG"
    using assms(3) that
    by (cases rule: ledger_apply_raw_cases)
      (use p(1) a in \<open>auto simp: open_entry_def after_enter_def pl_has_position_def dec_val exact_asset_def\<close>)
  show "pl_has_position l \<and> open_entry m None \<and> pl_closed_trades m = pl_closed_trades l + 1
      \<and> (\<forall>t. pl_last_fill_time_ms l = Some t \<longrightarrow> t \<le> fr_fill_time_ms (cf_reference f))"
    if "fr_action (cf_reference f) \<noteq> ENTER_LONG"
    using assms(3) that
    by (cases rule: ledger_apply_raw_cases)
      (use C(5) in \<open>auto simp: open_entry_def after_exit_def pl_has_position_def dec_val\<close>)
qed

lemma pair_fills_run:
  assumes "act_for fills ledger_apply_raw l = (l', Inr ())" "ledger_ok l"
    and "length (pl_applied l) + length fills \<le> MAX_LEDGER_BATCH" "list_all valid_CostedFill fills"
    and "open_entry l entry" "\<not> pl_has_position l'"
  shows "if paired_texts entry fills
    then \<exists>trades. pair_fills (sp_symbol (pl_spec l)) entry fills = Inr (trades, None)
      \<and> trades_of (pl_spec l) ((case entry of None \<Rightarrow> [] | Some e \<Rightarrow> [e]) @ fills) trades
      \<and> int (length trades) = pl_closed_trades l' - pl_closed_trades l
    else pair_fills (sp_symbol (pl_spec l)) entry fills = Inl (ArtifactError ''Artifact trade lifecycle is inconsistent'')"
  using assms
proof (induction fills arbitrary: l entry)
  case Nil
  then show ?case by (auto simp: open_entry_def trades_of_def split: option.splits)
next
  case (Cons f fs)
  obtain m where m: "ledger_apply_raw f l = (m, Inr ())" and run: "act_for fs ledger_apply_raw m = (l', Inr ())"
    using Cons.prems(1) by (auto simp: act_bind_eq_Inr)
  have f: "valid_CostedFill f" "length (pl_applied l) < MAX_LEDGER_BATCH" using Cons.prems(3,4) by simp_all
  have s: "valid_BacktestSpec (pl_spec l)" using Cons.prems(2) by (simp add: ledger_ok_def ledger_safe_def)
  have fr: "pl_applied m = f # pl_applied l" "pl_spec m = pl_spec l" using ledger_apply_raw_frame [OF m] by simp_all
  note S = step_enter [OF Cons.prems(2) f(1) m]
  have n: "length (pl_applied m) + length fs \<le> MAX_LEDGER_BATCH" "list_all valid_CostedFill fs"
    using Cons.prems(3,4) by (simp_all add: fr(1))
  have IH: "if paired_texts entry fs
    then \<exists>trades. pair_fills (sp_symbol (pl_spec l)) entry fs = Inr (trades, None)
      \<and> trades_of (pl_spec l) ((case entry of None \<Rightarrow> [] | Some e \<Rightarrow> [e]) @ fs) trades
      \<and> int (length trades) = pl_closed_trades l' - pl_closed_trades m
    else pair_fills (sp_symbol (pl_spec l)) entry fs = Inl (ArtifactError ''Artifact trade lifecycle is inconsistent'')"
    if "open_entry m entry" for entry
    using Cons.IH [OF run ledger_apply_raw_ok [OF Cons.prems(2) f(2,1) m] n that Cons.prems(6)] unfolding fr(2) .
  show ?case
  proof (cases "fr_action (cf_reference f) = ENTER_LONG")
    case True
    have "entry = None" using S(3) [OF True] Cons.prems(5) by (cases entry) (simp_all add: open_entry_def)
    then show ?thesis using IH [of "Some f"] S(2) S(3) [OF True] True by (simp add: Let_def split: if_splits)
  next
    case False
    then obtain e where e: "entry = Some e" using S(4) [OF False] Cons.prems(5) by (cases entry) (simp_all add: open_entry_def)
    have E: "policy_fill (pl_spec l) e" "fr_action (cf_reference e) = ENTER_LONG"
      "fr_fill_time_ms (cf_reference e) \<le> fr_fill_time_ms (cf_reference f)"
      using Cons.prems(5) S(4) [OF False] by (simp_all add: open_entry_def e)
    show ?thesis
      using IH [of None] S(2) S(4) [OF False] False E trades_of_Cons [OF s E(1) S(1) E(2) False]
      by (auto simp: e Let_def split: if_splits)
  qed
qed

section \<open>Property\<close>

lemma ledger_flat_value:
  assumes "ledger_ok l" "length (pl_applied l) \<le> MAX_LEDGER_BATCH" "\<not> pl_has_position l" "ledger_snapshot l price = Inr q"
  shows "val (ps_equity_quote q) = val (pl_cash l)" "ps_total_fee_quote q = pl_total_fee_quote l"
    "ps_total_slippage_quote q = pl_total_slippage_quote l" "ps_closed_trades q = pl_closed_trades l"
    "ps_symbol q = sp_symbol (pl_spec l)"
proof -
  have m: "plain_unsigned price" "0 < val (py_Decimal price)"
    using assms(4) by (auto simp: ledger_snapshot_def bind_r_eq_Inr mark_Inr)
  have "val (pl_asset_quantity l) = 0" using assms(1,3) by (simp add: ledger_ok_def ledger_safe_def)
  then have z: "exact_liquidation l x = 0" for x by (simp add: exact_liquidation_def)
  obtain s where "ledger_snapshot l price = Inr s" "val (ps_equity_quote s) = val (pl_cash l) + exact_liquidation l (val (py_Decimal price))"
    using ledger_snapshot_ok [OF assms(1,2) m] by blast
  then show "val (ps_equity_quote q) = val (pl_cash l)" using assms(4) z by simp
  show "ps_total_fee_quote q = pl_total_fee_quote l" "ps_total_slippage_quote q = pl_total_slippage_quote l"
    "ps_closed_trades q = pl_closed_trades l" "ps_symbol q = sp_symbol (pl_spec l)"
    using assms(4) by (auto simp: ledger_snapshot_def bind_r_eq_Inr construct_eq_Inr Let_def)
qed

text \<open>C23. The manifest of an honest run reconciles: when the fills were accepted by a fresh ledger and the report was
computed from a curve that begins with the valuation of the fresh ledger and ends with that of the final one, the
pairing of the fills succeeds, finds as many trades as the report counts, and its four sums equal the figures of
the report exactly; the only exception is a trade whose entry and exit write the same quantity with different
texts, which the ledger accepts and the manifest refuses.\<close>

theorem run_manifest_reconciles:
  assumes "valid_BacktestSpec spec" "list_all valid_CostedFill fills" "length fills \<le> MAX_LEDGER_BATCH"
    and "ledger_apply_many fills (PortfolioLedger_init spec) = (l, Inr ())"
    and "calculate_metrics points = Inr report"
    and "ledger_snapshot (PortfolioLedger_init spec) first_mark = Inr (ep_portfolio (hd points))"
    and "ledger_snapshot l last_mark = Inr (ep_portfolio (last points))"
  shows "if paired_texts None fills
    then \<exists>trades. artifact_trades fills report = Inr trades \<and> int (length trades) = pl_closed_trades l
      \<and> (\<Sum>t\<leftarrow>trades. val (py_Decimal (tr_net_pnl_quote t))) = (\<Sum>f\<leftarrow>fills. cash_of spec f)
      \<and> (\<Sum>t\<leftarrow>trades. val (py_Decimal (tr_gross_pnl_quote t)))
          = (\<Sum>f\<leftarrow>fills. cash_of spec f + fee_of spec f + slippage_of spec f)
    else artifact_trades fills report = Inl (ArtifactError ''Artifact trade lifecycle is inconsistent'')"
proof -
  let ?i = "PortfolioLedger_init spec"
  have ok0: "ledger_ok ?i" by (rule PortfolioLedger_init_ok [OF assms(1)])
  have i: "pl_spec ?i = spec" "pl_applied ?i = []" "\<not> pl_has_position ?i" "pl_closed_trades ?i = 0" "pl_cash ?i = cash_decimal spec"
    by (simp_all add: PortfolioLedger_init_def pl_has_position_def dec_val)
  have run: "act_for fills ledger_apply_raw ?i = (l, Inr ())"
    using assms(4) by (auto simp: ledger_apply_many_def with_rollback_Inr split: if_splits)
  have inv: "ledger_inv l \<and> pl_applied l = rev fills \<and> pl_spec l = spec"
    using act_for_inv [OF _ assms(2) run] ok0 i by (simp add: ledger_inv_def)
  then have l: "ledger_ok l" "pl_applied l = rev fills" "pl_spec l = spec" "length (pl_applied l) \<le> MAX_LEDGER_BATCH"
    using assms(3) by (simp_all add: ledger_inv_def)
  have ok: "validate_curve points = Inr ()"
    using assms(5) by (auto simp: calculate_metrics_def calculate_def bind_r_eq_Inr)
  then obtain start rest where points: "points = start # rest" and flat: "val (ps_asset_quantity (ep_portfolio (last points))) = 0"
    using validate_curve_Inr by blast
  have ok': "validate_curve (start # rest) = Inr ()" using ok points by simp
  have "ps_asset_quantity (ep_portfolio (last points)) = pl_asset_quantity l"
    using assms(7) by (auto simp: ledger_snapshot_def bind_r_eq_Inr construct_eq_Inr Let_def)
  then have final: "\<not> pl_has_position l" using flat by (simp add: pl_has_position_def dec_val)
  have s0: "ledger_snapshot ?i first_mark = Inr (ep_portfolio start)" using assms(6) points by simp
  have n0: "length (pl_applied ?i) \<le> MAX_LEDGER_BATCH" by (simp add: i)
  note A = ledger_flat_value [OF ok0 n0 i(3) s0] and Z = ledger_flat_value [OF l(1,4) final assms(7), unfolded points]
  have "ledger_point start" "ledger_point (last (start # rest))"
    unfolding ledger_point_def using ok0 n0 s0 l(1,4) assms(7) points by blast+
  note M = ledger_point_money [OF this(1)] ledger_point_money [OF this(2)]
  obtain v where v: "calculate (start # rest) = Inr v" and r: "pf_points report = points" "pf_values report = v"
    using assms(5) points calculate_metrics_Inr by (auto simp: calculate_metrics_def bind_r_eq_Inr construct_eq_Inr)
  note P = calculate_pnl_exact [OF ok' v M(1,5,6,7)]
  note X = l(1) [unfolded ledger_ok_def ledger_exact_def Let_def l(2,3), THEN conjunct1]
  have rv: "(\<Sum>f\<leftarrow>rev fills. g f) = (\<Sum>f\<leftarrow>fills. g f)" for g :: "CostedFill \<Rightarrow> rat"
    by (simp add: rev_map [symmetric])
  have net: "val (mv_net_pnl_quote v) = (\<Sum>f\<leftarrow>fills. cash_of spec f)"
    using P(1) A(1) Z(1) X by (simp add: point_equity_def i rv)
  have cost: "val (mv_total_fee_quote v) = (\<Sum>f\<leftarrow>fills. fee_of spec f)"
    "val (mv_total_slippage_quote v) = (\<Sum>f\<leftarrow>fills. slippage_of spec f)"
    using P(4,5) Z(2,3) X by (simp_all add: rv)
  have gross: "val (mv_gross_pnl_quote v) = (\<Sum>f\<leftarrow>fills. cash_of spec f + fee_of spec f + slippage_of spec f)"
    using P(2,3) net cost by (simp add: sum_list_addf)
  have count: "mv_trade_count v = pl_closed_trades l" using P(6) Z(4) by simp
  have closed: "pl_closed_trades l \<le> int (length fills)"
    using X length_filter_le [of is_exit "rev fills"] by simp
  have symbol: "ps_symbol (ep_portfolio (hd points)) = sp_symbol spec" using A(5) by (simp add: points i)
  have pairing: "if paired_texts None fills
    then \<exists>trades. pair_fills (sp_symbol spec) None fills = Inr (trades, None) \<and> trades_of spec fills trades
      \<and> int (length trades) = pl_closed_trades l
    else pair_fills (sp_symbol spec) None fills = Inl (ArtifactError ''Artifact trade lifecycle is inconsistent'')"
    using pair_fills_run [OF run ok0 _ assms(2) _ final, of None] assms(3) i by (simp add: open_entry_def split: if_splits)
  show ?thesis
  proof (cases "paired_texts None fills")
    case True
    then obtain trades where t: "pair_fills (sp_symbol spec) None fills = Inr (trades, None)" "trades_of spec fills trades"
      "int (length trades) = pl_closed_trades l"
      using pairing by auto
    have "length trades \<le> MAX_LEDGER_BATCH" using t(3) closed assms(3) by linarith
    then have T: "(\<And>t. t \<in> set trades \<Longrightarrow> trade_amount (field t)) \<Longrightarrow>
        val (trade_total field trades) = (\<Sum>t\<leftarrow>trades. val (py_Decimal (field t)))" for field
      using trade_total_exact by blast
    have row: "row_ok t" if "t \<in> set trades" for t using t(2) that by (simp add: trades_of_def)
    have "artifact_trades fills report = Inr trades"
      using t T [of tr_gross_pnl_quote] T [of tr_net_pnl_quote] T [of tr_fee_quote] T [of tr_slippage_quote] row
        net cost gross count
      by (simp add: artifact_trades_def symbol Let_def r dec_val trades_of_def row_ok_def)
    then show ?thesis using True t(2,3) by (simp add: trades_of_def)
  next
    case False
    then show ?thesis using pairing by (simp add: artifact_trades_def symbol r)
  qed
qed

section \<open>A witness\<close>

lemma enter_accepted:
  assumes "ledger_checks l f = Inr ()" "fr_action (cf_reference f) = ENTER_LONG" "\<not> pl_has_position l"
    and "0 \<le> val (d_add DECIMAL_PRECISION (pl_cash l) (cf_cash_delta f))" "0 \<le> val (cf_asset_delta f)"
  shows "ledger_apply_raw f l = (after_enter f l, Inr ())"
  using assms
  by (simp add: ledger_apply_raw_def act_bind_def ledger_enter_def act_update_def Let_def after_enter_def dec_val act_lift_def)

lemma exit_accepted:
  assumes "ledger_checks l f = Inr ()" "fr_action (cf_reference f) \<noteq> ENTER_LONG" "pl_has_position l"
    and "val (pl_asset_quantity l) = - val (cf_asset_delta f)" "0 \<le> val (d_add DECIMAL_PRECISION (pl_cash l) (cf_cash_delta f))"
  shows "ledger_apply_raw f l = (after_exit f l, Inr ())"
  using assms
  by (simp add: ledger_apply_raw_def act_bind_def ledger_exit_def act_update_def Let_def after_exit_def dec_val act_lift_def)

definition example_exit :: FillReference where
  "example_exit = \<lparr> fr_action = EXIT_LONG, fr_symbol = ''BTCUSDT'', fr_decision_time_ms = 1704074400000,
     fr_fill_time_ms = 1704074400000, fr_quantity = ''0.01'', fr_reference_price = ''43000'', fr_reason = TARGET \<rparr>"

lemma example_exit_valid: "valid_FillReference example_exit"
  by (simp add: valid_FillReference_def FillReference_post_init_def example_exit_def
      positive_decimal_def SYMBOLS_def py_eval)

lemma example_rates: "val (fee_bps_decimal example_spec) = 10" "val (slippage_bps_decimal example_spec) = 5"
  "val (cash_decimal example_spec) = 10000"
  by (simp_all add: fee_bps_decimal_def slippage_bps_decimal_def cash_decimal_def example_spec_def default_spec_def py_eval val_def)

lemma example_run:
  obtains f x l where "policy_fill example_spec f" "policy_fill example_spec x" "cf_reference f = example_entry" "cf_reference x = example_exit"
    "act_for [f, x] ledger_apply_raw (PortfolioLedger_init example_spec) = (l, Inr ())" "\<not> pl_has_position l" "pl_closed_trades l = 1"
    "0 < val (pl_cash l)"
proof -
  let ?i = "PortfolioLedger_init example_spec" and ?s = example_spec
  have sym: "fr_symbol example_exit = sp_symbol ?s" by (simp add: example_exit_def example_spec_def default_spec_def)
  obtain f where f: "apply_costs example_entry ?s = Inr f" "valid_CostedFill f"
    using apply_costs_ok [OF example_entry_valid example_spec_valid example_symbol] by blast
  obtain x where x: "apply_costs example_exit ?s = Inr x" "valid_CostedFill x"
    using apply_costs_ok [OF example_exit_valid example_spec_valid sym] by blast
  have F: "cf_reference f = example_entry" "cf_fee_bps f = fee_bps_decimal ?s" "cf_slippage_bps f = slippage_bps_decimal ?s"
    using f(1) by (auto simp: apply_costs_def Let_def bind_r_eq_Inr construct_eq_Inr split: if_splits)
  have X: "cf_reference x = example_exit" "cf_fee_bps x = fee_bps_decimal ?s" "cf_slippage_bps x = slippage_bps_decimal ?s"
    using x(1) by (auto simp: apply_costs_def Let_def bind_r_eq_Inr construct_eq_Inr split: if_splits)
  have pf: "policy_fill ?s f" "policy_fill ?s x" using f(2) x(2) F X by (simp_all add: policy_fill_def)
  note VF = policy_fill_values [OF example_spec_valid f(2)] and VX = policy_fill_values [OF example_spec_valid x(2)]
  have q: "qty example_entry = 1 / 100" "qty example_exit = 1 / 100"
    by (simp_all add: qty_def example_entry_def example_exit_def py_eval val_def)
  have price: "val (py_Decimal (fr_reference_price example_entry)) = 84001 / 2" "val (py_Decimal (fr_reference_price example_exit)) = 43000"
    "fr_action example_entry = ENTER_LONG" "fr_action example_exit = EXIT_LONG"
    by (simp_all add: example_entry_def example_exit_def py_eval val_def)
  have c: "- 1000 < cash_of ?s f" "0 < cash_of ?s x"
    by (simp_all add: cash_of_def F X example_rates exact_cash_def exact_gross_def exact_price_def exact_fee_def q price)
  have i: "pl_cash ?i = cash_decimal ?s" "\<not> pl_has_position ?i" "pl_spec ?i = ?s" "pl_closed_trades ?i = 0" "pl_applied ?i = []"
    by (simp_all add: PortfolioLedger_init_def pl_has_position_def dec_val)
  have asset: "val (cf_asset_delta f) = 1 / 100" "val (cf_asset_delta x) = - (1 / 100)"
    using VF(4) VX(4) F X q price by (simp_all add: exact_asset_def)
  have cash: "val (cf_cash_delta f) = cash_of ?s f" "val (cf_cash_delta x) = cash_of ?s x"
    using VF(1) VX(1) F X by simp_all
  have ok: "ledger_ok ?i" by (rule PortfolioLedger_init_ok [OF example_spec_valid])
  have ch: "ledger_checks ?i f = Inr ()"
    by (simp add: ledger_checks_def PortfolioLedger_init_def F dec_val example_symbol)
  have sum1: "val (d_add DECIMAL_PRECISION (pl_cash ?i) (cf_cash_delta f)) = 10000 + cash_of ?s f"
    using ledger_common_values(1) [OF ok _ f(2) ch] by (simp add: i example_rates cash MAX_LEDGER_BATCH_def)
  have step1: "ledger_apply_raw f ?i = (after_enter f ?i, Inr ())"
    by (rule enter_accepted [OF ch]) (use sum1 c asset F price i in simp_all)
  let ?m = "after_enter f ?i"
  have okm: "ledger_ok ?m" "length (pl_applied ?m) < MAX_LEDGER_BATCH"
    using ledger_apply_raw_ok [OF ok _ f(2) step1] ledger_apply_raw_frame [OF step1] by (simp_all add: i MAX_LEDGER_BATCH_def)
  have ch2: "ledger_checks ?m x = Inr ()"
    by (simp add: ledger_checks_def after_enter_def PortfolioLedger_init_def X F dec_val sym CostedFill_eq_def)
      (simp add: example_entry_def example_exit_def)
  have m: "pl_has_position ?m" "val (pl_asset_quantity ?m) = 1 / 100" "pl_spec ?m = ?s" "pl_closed_trades ?m = 0"
    using asset(1) by (simp_all add: after_enter_def PortfolioLedger_init_def pl_has_position_def dec_val)
  have sum2: "val (d_add DECIMAL_PRECISION (pl_cash ?m) (cf_cash_delta x)) = 10000 + cash_of ?s f + cash_of ?s x"
    using ledger_common_values(1) [OF okm x(2) ch2] ledger_apply_raw_frame [OF step1] by (simp add: i example_rates)
  have step2: "ledger_apply_raw x ?m = (after_exit x ?m, Inr ())"
    by (rule exit_accepted [OF ch2]) (use sum2 c m asset X price in simp_all)
  have run: "act_for [f, x] ledger_apply_raw ?i = (after_exit x ?m, Inr ())" using step1 step2 by (simp add: act_bind_def)
  show thesis
    by (rule that [OF pf F(1) X(1) run])
      (use sum2 c m in \<open>simp_all add: after_exit_def pl_has_position_def dec_val\<close>)
qed

theorem run_manifest_reconciles_witness:
  "\<exists>fills l points report trades. map cf_reference fills = [example_entry, example_exit]
     \<and> ledger_apply_many fills (PortfolioLedger_init example_spec) = (l, Inr ())
     \<and> calculate_metrics points = Inr report \<and> artifact_trades fills report = Inr trades \<and> length trades = 1"
proof -
  let ?i = "PortfolioLedger_init example_spec"
  obtain f x l where e: "policy_fill example_spec f" "policy_fill example_spec x" "cf_reference f = example_entry" "cf_reference x = example_exit"
    and run: "act_for [f, x] ledger_apply_raw ?i = (l, Inr ())" and l: "\<not> pl_has_position l" "pl_closed_trades l = 1" "0 < val (pl_cash l)"
    using example_run by blast
  have v: "list_all valid_CostedFill [f, x]" "length [f, x] \<le> MAX_LEDGER_BATCH"
    using e by (simp_all add: policy_fill_def MAX_LEDGER_BATCH_def)
  have many: "ledger_apply_many [f, x] ?i = (l, Inr ())"
    using run by (simp add: ledger_apply_many_def with_rollback_def MAX_LEDGER_BATCH_def)
  have ok: "ledger_ok ?i" by (rule PortfolioLedger_init_ok [OF example_spec_valid])
  have i: "\<not> pl_has_position ?i" "length (pl_applied ?i) \<le> MAX_LEDGER_BATCH" "pl_spec ?i = example_spec"
    "pl_total_fee_quote ?i = d_zero" "pl_total_slippage_quote ?i = d_zero" "pl_closed_trades ?i = 0" "val (pl_cash ?i) = 10000"
    by (simp_all add: PortfolioLedger_init_def pl_has_position_def dec_val example_rates)
  have okl: "ledger_ok l" "length (pl_applied l) \<le> MAX_LEDGER_BATCH" "pl_spec l = example_spec"
    using act_for_inv [OF _ v(1) run] ok i by (simp_all add: ledger_inv_def PortfolioLedger_init_def MAX_LEDGER_BATCH_def)
  have mk: "plain_unsigned ''100''" "0 < val (py_Decimal ''100'')" by (simp_all add: py_eval val_def)
  obtain a where a: "ledger_snapshot ?i ''100'' = Inr a" using ledger_snapshot_ok [OF ok i(2) mk] by blast
  obtain z where z: "ledger_snapshot l ''100'' = Inr z" using ledger_snapshot_ok [OF okl(1,2) mk] by blast
  note A = ledger_flat_value [OF ok i(2,1) a] and Z = ledger_flat_value [OF okl(1,2) l(1) z]
  have qa: "ps_asset_quantity a = d_zero" "ps_realized_pnl_quote a = d_zero" "ps_asset_quantity z = pl_asset_quantity l"
    using a z by (auto simp: ledger_snapshot_def bind_r_eq_Inr construct_eq_Inr Let_def PortfolioLedger_init_def)
  have ql: "val (pl_asset_quantity l) = 0" using okl(1) l(1) by (simp add: ledger_ok_def ledger_safe_def)
  have pos: "0 \<le> val (pl_total_fee_quote l)" "0 \<le> val (pl_total_slippage_quote l)"
    using ledger_value_bounds(6,7) [OF okl(1,2), of 0] by simp_all
  define points where "points = [\<lparr> ep_time_ms = 0, ep_portfolio = a \<rparr>, \<lparr> ep_time_ms = 1, ep_portfolio = z \<rparr>]"
  have "validate_curve points = Inr ()"
    using A Z i l qa ql pos okl(3)
    by (simp add: validate_curve_def points_def curve_start_ok_def curve_step_ok_def Let_def dec_val)
  then obtain v where "calculate points = Inr v" by (simp add: calculate_def Let_def)
  then obtain report where r: "calculate_metrics points = Inr report" using calculate_metrics_Inr by blast
  have p: "paired_texts None [f, x]" by (simp add: e example_entry_def example_exit_def)
  have h: "ledger_snapshot ?i ''100'' = Inr (ep_portfolio (hd points))" "ledger_snapshot l ''100'' = Inr (ep_portfolio (last points))"
    using a z by (simp_all add: points_def)
  obtain trades where "artifact_trades [f, x] report = Inr trades" "length trades = 1"
    using run_manifest_reconciles [OF example_spec_valid v many r h] l(2) unfolding if_P [OF p] by auto
  then show ?thesis using many r e(3,4) by (intro exI [of _ "[f, x]"] exI [of _ l] exI [of _ points] exI [of _ report]) auto
qed

end
