(* ===== verification/Data_Health.thy ===== *)
theory Data_Health
  imports Market_Data Py_Json_Read
begin

text \<open>
  \<^verbatim>\<open>yatl/data/normalize.py\<close> and \<^verbatim>\<open>health.py\<close>: exchange rows and stream events become candles, and a
  range of candles gets a health report. The report says ready exactly when every closed bar
  of the range is there once and closed. An exchange payload is a JSON value; numbers with a
  fraction, which no legal field has, are not modelled.
\<close>

section \<open>Normalisation\<close>

text \<open>
  The constructor call. A field of another type is rejected by the checks of the candle, so
  it ends in the same error.
\<close>

definition build_candle ::
    "string \<Rightarrow> string \<Rightarrow> json \<Rightarrow> json \<Rightarrow> json list \<Rightarrow> json \<Rightarrow> bool \<Rightarrow> Candle result" where
  "build_candle symbol interval open_time close_time numbers trade_count is_closed =
     (let invalid = NormalizationError ''Kline payload violates the canonical candle contract'' in
      case (open_time, close_time, numbers, trade_count) of
        (JInt t, JInt u, [JStr opened, JStr high, JStr low, JStr last_price, JStr base_volume, JStr quote_volume], JInt n) \<Rightarrow>
          catch_r (construct Candle_post_init
            \<lparr> cd_source = DATA_SOURCE, cd_symbol = symbol, cd_interval = interval, cd_open_time_ms = t, cd_close_time_ms = u,
              cd_open = opened, cd_high = high, cd_low = low, cd_close = last_price, cd_base_volume = base_volume,
              cd_quote_volume = quote_volume, cd_trade_count = n, cd_is_closed = is_closed \<rparr>)
            is_CandleValidationError invalid
      | _ \<Rightarrow> Inl invalid)"

definition normalize_rest_kline :: "string \<Rightarrow> string \<Rightarrow> json \<Rightarrow> int \<Rightarrow> Candle result" where
  "normalize_rest_kline symbol interval row server_time_ms =
     (if symbol \<notin> set SYMBOLS \<or> INTERVAL_MILLISECONDS interval = None
      then Inl (NormalizationError ''Unsupported REST kline market or interval'')
      else if server_time_ms \<le> 0 then Inl (NormalizationError ''A positive Binance server timestamp is required'')
      else case row of
        JList cells \<Rightarrow>
          if length cells \<noteq> 12 then Inl (NormalizationError ''REST kline row must contain exactly 12 fields'')
          else if cells ! 11 \<notin> {JInt 0, JBool False, JStr ''0''}
          then Inl (NormalizationError ''REST kline reserved field is unexpected'')
          else (case cells ! 6 of
             JInt close_time \<Rightarrow>
               build_candle symbol interval (cells ! 0) (cells ! 6) (map (\<lambda>i. cells ! i) [1, 2, 3, 4, 5, 7]) (cells ! 8)
                 (close_time < server_time_ms)
           | _ \<Rightarrow> Inl (NormalizationError ''REST kline close timestamp is invalid''))
      | _ \<Rightarrow> Inl (NormalizationError ''REST kline row must contain exactly 12 fields''))"

definition required_kline :: "string list" where
  "required_kline = [''t'', ''T'', ''s'', ''i'', ''o'', ''h'', ''l'', ''c'', ''v'', ''n'', ''x'', ''q'']"

text \<open>The stream name and the event of a combined payload, or the payload itself.\<close>

definition kline_event :: "json \<Rightarrow> (string option \<times> json) result" where
  "kline_event payload =
     (case payload of
        JObj _ \<Rightarrow>
          (case (json_get ''stream'' payload, json_get ''data'' payload) of
             (Some stream, Some event) \<Rightarrow>
               (case (stream, event) of
                  (JStr s, JObj _) \<Rightarrow> Inr (Some s, event)
                | _ \<Rightarrow> Inl (NormalizationError ''Combined WebSocket wrapper is invalid''))
           | _ \<Rightarrow> Inr (None, payload))
      | _ \<Rightarrow> Inl (NormalizationError ''WebSocket kline payload must be an object''))"

text \<open>
  An interval that is a list or an object cannot be looked up in the table of intervals: Python
  raises \<^verbatim>\<open>TypeError\<close> there.
\<close>

definition kline_interval :: "json \<Rightarrow> string result" where
  "kline_interval j =
     (case j of
        JStr interval \<Rightarrow>
          if INTERVAL_MILLISECONDS interval = None then Inl (NormalizationError ''WebSocket kline identity is inconsistent'')
          else Inr interval
      | JList _ \<Rightarrow> Inl (TypeError ''unhashable type'')
      | JObj _ \<Rightarrow> Inl (TypeError ''unhashable type'')
      | _ \<Rightarrow> Inl (NormalizationError ''WebSocket kline identity is inconsistent''))"

definition normalize_websocket_kline :: "json \<Rightarrow> Candle result" where
  "normalize_websocket_kline payload =
     bind_r (kline_event payload) (\<lambda>(stream, event).
     if json_get ''e'' event \<noteq> Some (JStr ''kline'') \<or> json_get_int ''E'' event = None
     then Inl (NormalizationError ''WebSocket event is not a timestamped kline'')
     else case (json_get_str ''s'' event, json_get ''k'' event) of
       (Some symbol, Some (JObj kvs)) \<Rightarrow>
         let kline = JObj kvs; field = (\<lambda>k. the (json_get k kline)) in
         if symbol \<notin> set SYMBOLS then Inl (NormalizationError ''WebSocket kline market is unsupported'')
         else if \<not> list_all (\<lambda>k. json_get k kline \<noteq> None) required_kline
         then Inl (NormalizationError ''WebSocket kline fields are incomplete'')
         else if field ''s'' \<noteq> JStr symbol then Inl (NormalizationError ''WebSocket kline identity is inconsistent'')
         else bind_r (kline_interval (field ''i'')) (\<lambda>interval.
           if stream \<noteq> None \<and> stream \<noteq> Some (map lower_char symbol @ ''@kline_'' @ interval)
           then Inl (NormalizationError ''Combined WebSocket stream name is inconsistent'')
           else (case field ''x'' of
              JBool final_bar \<Rightarrow>
                build_candle symbol interval (field ''t'') (field ''T'')
                  (map field [''o'', ''h'', ''l'', ''c'', ''v'', ''q'']) (field ''n'') final_bar
            | _ \<Rightarrow> Inl (NormalizationError ''WebSocket closed state must be boolean'')))
     | _ \<Rightarrow> Inl (NormalizationError ''WebSocket kline market is unsupported''))"

section \<open>Normalised candles\<close>

lemma build_candle_Inr:
  "build_candle symbol interval t u numbers n is_closed = Inr c \<Longrightarrow>
     valid_Candle c \<and> cd_symbol c = symbol \<and> cd_interval c = interval \<and> cd_is_closed c = is_closed
     \<and> u = JInt (cd_close_time_ms c)"
  by (auto simp: build_candle_def Let_def construct_eq_Inr valid_Candle_def split: json.splits list.splits)

text \<open>A row of the exchange is closed exactly when the server time has passed its close.\<close>

lemma normalize_rest_kline_valid:
  assumes "normalize_rest_kline symbol interval row server_time_ms = Inr c"
  shows "valid_Candle c \<and> cd_symbol c = symbol \<and> cd_interval c = interval
    \<and> (cd_is_closed c \<longleftrightarrow> cd_close_time_ms c < server_time_ms)"
  using assms by (auto simp: normalize_rest_kline_def dest: build_candle_Inr split: if_splits json.splits)

lemma case_JBool_Inr:
  "(case j of JBool b \<Rightarrow> f b | _ \<Rightarrow> Inl e) = Inr c \<longleftrightarrow> (\<exists>b. j = JBool b \<and> f b = Inr c)"
  by (cases j) auto

lemma normalize_websocket_kline_valid:
  assumes "normalize_websocket_kline payload = Inr c"
  shows "valid_Candle c"
proof -
  from assms obtain symbol interval t u numbers n final_bar where
    "build_candle symbol interval t u numbers n final_bar = Inr c"
    by (auto simp: normalize_websocket_kline_def bind_r_eq_Inr Let_def case_JBool_Inr
        split: if_split_asm json.split_asm option.split_asm prod.split_asm)
  then show ?thesis using build_candle_Inr by blast
qed

section \<open>Health reports\<close>

record DataHealthReport =
  hr_source :: string
  hr_symbol :: string
  hr_interval :: string
  hr_requested_start_time_ms :: int
  hr_requested_end_time_ms :: int
  hr_stored_first_open_time_ms :: "int option"
  hr_stored_last_open_time_ms :: "int option"
  hr_total_rows :: int
  hr_unique_rows :: int
  hr_closed_rows :: int
  hr_open_rows :: int
  hr_duplicate_open_times :: "int list"
  hr_historical_gap_open_times :: "int list"
  hr_repair_ranges :: "(int \<times> int) list"
  hr_expected_current_open_time_ms :: "int option"
  hr_expected_current_open_missing :: bool
  hr_unexpected_open_times :: "int list"
  hr_malformed_rows :: int
  hr_conflicting_rows :: int
  hr_freshness_ms :: "int option"
  hr_fresh :: bool
  hr_backtest_ready :: bool
  hr_failure_reasons :: "string list"

definition health_to_json :: "DataHealthReport \<Rightarrow> string" where
  "health_to_json r = (let ints = (\<lambda>xs. JList (map JInt xs)) in json_dumps (JObj
     [(''source'', JStr (hr_source r)), (''symbol'', JStr (hr_symbol r)), (''interval'', JStr (hr_interval r)),
      (''requested_start_time_ms'', JInt (hr_requested_start_time_ms r)),
      (''requested_end_time_ms'', JInt (hr_requested_end_time_ms r)),
      (''stored_first_open_time_ms'', j_opt JInt (hr_stored_first_open_time_ms r)),
      (''stored_last_open_time_ms'', j_opt JInt (hr_stored_last_open_time_ms r)),
      (''total_rows'', JInt (hr_total_rows r)), (''unique_rows'', JInt (hr_unique_rows r)),
      (''closed_rows'', JInt (hr_closed_rows r)), (''open_rows'', JInt (hr_open_rows r)),
      (''duplicate_open_times'', ints (hr_duplicate_open_times r)),
      (''historical_gap_open_times'', ints (hr_historical_gap_open_times r)),
      (''repair_ranges'', JList (map (\<lambda>(a, b). ints [a, b]) (hr_repair_ranges r))),
      (''expected_current_open_time_ms'', j_opt JInt (hr_expected_current_open_time_ms r)),
      (''expected_current_open_missing'', JBool (hr_expected_current_open_missing r)),
      (''unexpected_open_times'', ints (hr_unexpected_open_times r)),
      (''malformed_rows'', JInt (hr_malformed_rows r)), (''conflicting_rows'', JInt (hr_conflicting_rows r)),
      (''freshness_ms'', j_opt JInt (hr_freshness_ms r)), (''fresh'', JBool (hr_fresh r)),
      (''backtest_ready'', JBool (hr_backtest_ready r)),
      (''failure_reasons'', JList (map JStr (hr_failure_reasons r)))]))"

definition time_text :: "int option \<Rightarrow> string" where
  "time_text t = (case t of None \<Rightarrow> ''none'' | Some i \<Rightarrow> int_str i)"

definition health_to_text :: "DataHealthReport \<Rightarrow> string" where
  "health_to_text r =
     (let state = (if hr_backtest_ready r then ''PASS'' else ''FAIL''); flag = (\<lambda>b. if b then ''true'' else ''false'');
          reasons = (if hr_failure_reasons r = [] then ''none'' else join_comma (hr_failure_reasons r)) in
      join_lines
        [state @ '': '' @ hr_source r @ '' '' @ hr_symbol r @ '' '' @ hr_interval r,
         ''requested=['' @ int_str (hr_requested_start_time_ms r) @ '','' @ int_str (hr_requested_end_time_ms r) @ '') stored=[''
           @ time_text (hr_stored_first_open_time_ms r) @ '','' @ time_text (hr_stored_last_open_time_ms r) @ ''] rows=''
           @ int_str (hr_total_rows r) @ '' unique='' @ int_str (hr_unique_rows r),
         ''closed='' @ int_str (hr_closed_rows r) @ '' open='' @ int_str (hr_open_rows r) @ '' duplicates=''
           @ int_str (int (length (hr_duplicate_open_times r))) @ '' gaps='' @ int_str (int (length (hr_historical_gap_open_times r))),
         ''malformed='' @ int_str (hr_malformed_rows r) @ '' conflicts='' @ int_str (hr_conflicting_rows r) @ '' fresh=''
           @ flag (hr_fresh r) @ '' backtest_ready='' @ flag (hr_backtest_ready r),
         ''reasons='' @ reasons])"

text \<open>The dictionary of the first candle of every open time, in the order of the times.\<close>

fun first_by_time :: "int list \<Rightarrow> Candle list \<Rightarrow> Candle list" where
  "first_by_time seen [] = []"
| "first_by_time seen (c # cs) =
     (if cd_open_time_ms c \<in> set seen then first_by_time seen cs
      else c # first_by_time (cd_open_time_ms c # seen) cs)"

text \<open>\<^verbatim>\<open>max\<close> with a key keeps the first of equal candidates.\<close>

definition latest_candle :: "Candle list \<Rightarrow> Candle option" where
  "latest_candle cs =
     (case cs of [] \<Rightarrow> None
      | c # rest \<Rightarrow> Some (foldl (\<lambda>best d. if cd_open_time_ms best < cd_open_time_ms d then d else best) c rest))"

definition health_report ::
    "RangeQualityReport \<Rightarrow> Candle list \<Rightarrow> int \<Rightarrow> int \<Rightarrow> int \<Rightarrow> DataHealthReport" where
  "health_report quality candles server_time_ms malformed_rows conflicting_rows =
     (let ordered = sort_key cd_open_time_ms candles;
          unique = first_by_time [] ordered;
          closed_bars = filter cd_is_closed unique;
          closed_times = map cd_open_time_ms closed_bars;
          open_times = map cd_open_time_ms (filter (\<lambda>c. \<not> cd_is_closed c) unique);
          unexpected_open = filter (\<lambda>t. Some t \<noteq> rq_expected_current_open_time_ms quality) open_times;
          start = rq_start_time_ms quality;
          duration = the (INTERVAL_MILLISECONDS (rq_interval quality));
          current_open = (server_time_ms div duration) * duration;
          closed_boundary = min (rq_end_time_ms quality) current_open;
          fresh = (start < closed_boundary \<longrightarrow> closed_boundary - duration \<in> set closed_times);
          freshness = map_option (\<lambda>c. max 0 (server_time_ms - (cd_close_time_ms c + 1))) (latest_candle closed_bars);
          reasons =
            (if rq_duplicate_open_times quality \<noteq> [] then [''duplicates''] else [])
            @ (if rq_historical_gap_open_times quality \<noteq> [] then [''historical_gaps''] else [])
            @ (if unexpected_open \<noteq> [] then [''unexpected_open_candles''] else [])
            @ (if malformed_rows \<noteq> 0 then [''malformed_rows''] else [])
            @ (if conflicting_rows \<noteq> 0 then [''conflicting_rows''] else [])
            @ (if \<not> fresh then [''stale_closed_data''] else [])
      in \<lparr> hr_source = rq_source quality, hr_symbol = rq_symbol quality, hr_interval = rq_interval quality,
           hr_requested_start_time_ms = start, hr_requested_end_time_ms = rq_end_time_ms quality,
           hr_stored_first_open_time_ms = (if ordered = [] then None else Some (cd_open_time_ms (hd ordered))),
           hr_stored_last_open_time_ms = (if ordered = [] then None else Some (cd_open_time_ms (last ordered))),
           hr_total_rows = int (length candles), hr_unique_rows = int (length unique),
           hr_closed_rows = int (length closed_bars), hr_open_rows = int (length open_times),
           hr_duplicate_open_times = rq_duplicate_open_times quality,
           hr_historical_gap_open_times = rq_historical_gap_open_times quality,
           hr_repair_ranges = rq_repair_ranges quality,
           hr_expected_current_open_time_ms = rq_expected_current_open_time_ms quality,
           hr_expected_current_open_missing = rq_expected_current_open_missing quality,
           hr_unexpected_open_times = unexpected_open, hr_malformed_rows = malformed_rows,
           hr_conflicting_rows = conflicting_rows, hr_freshness_ms = freshness, hr_fresh = fresh,
           hr_backtest_ready = (reasons = []), hr_failure_reasons = reasons \<rparr>)"

definition build_health_report ::
    "string \<Rightarrow> string \<Rightarrow> string \<Rightarrow> int \<Rightarrow> int \<Rightarrow> Candle list \<Rightarrow> int \<Rightarrow> int \<Rightarrow> int \<Rightarrow> DataHealthReport result" where
  "build_health_report source symbol interval start_time_ms end_time_ms candles server_time_ms malformed_rows conflicting_rows =
     (if source \<noteq> DATA_SOURCE \<or> symbol \<notin> set SYMBOLS \<or> INTERVAL_MILLISECONDS interval = None
      then Inl (HealthError ''Unsupported health-report identity'')
      else if MAX_RANGE_CANDLES < length candles \<or> malformed_rows < 0 \<or> conflicting_rows < 0
      then Inl (HealthError ''Health-report rows or diagnostics are invalid'')
      else if list_ex (\<lambda>c. cd_source c \<noteq> source \<or> cd_symbol c \<noteq> symbol \<or> cd_interval c \<noteq> interval) candles
      then Inl (HealthError ''Candle identity does not match the health report'')
      else bind_r (catch_r
          (bind_r (analyze_open_times source symbol interval start_time_ms end_time_ms (map cd_open_time_ms candles) server_time_ms)
             (\<lambda>quality. bind_r (duplicate_candle_keys candles) (\<lambda>_. Inr quality)))
          is_QualityError (HealthError ''Health range failed quality validation'')) (\<lambda>quality.
        Inr (health_report quality candles server_time_ms malformed_rows conflicting_rows)))"

section \<open>A ready range\<close>

lemma first_by_time_id:
  "distinct (map cd_open_time_ms cs) \<Longrightarrow> set seen \<inter> cd_open_time_ms ` set cs = {} \<Longrightarrow> first_by_time seen cs = cs"
  by (induction cs arbitrary: seen) auto

lemma distinct_sorted_times:
  "distinct (map cd_open_time_ms (sort_key cd_open_time_ms cs)) = distinct (map cd_open_time_ms cs)"
  by (simp add: distinct_map)

lemma unique_candles:
  assumes "distinct (map cd_open_time_ms cs)"
  shows "set (first_by_time [] (sort_key cd_open_time_ms cs)) = set cs"
  using first_by_time_id [of "sort_key cd_open_time_ms cs" "[]"] assms by (simp add: distinct_sorted_times)

text \<open>What a returned report knows about its range and its quality report.\<close>

lemma build_health_report_Inr:
  assumes "build_health_report source symbol interval a b candles now malformed conflicting = Inr r"
    and "d = the (INTERVAL_MILLISECONDS interval)"
  obtains q where "r = health_report q candles now malformed conflicting" "0 < d" "a mod d = 0" "b mod d = 0"
    "rq_start_time_ms q = a" "rq_end_time_ms q = b" "rq_interval q = interval" "a < b"
    "\<forall>t\<in>cd_open_time_ms ` set candles. a \<le> t \<and> t < b \<and> t mod d = 0"
    "rq_duplicate_open_times q = repeated_once [] [] (map cd_open_time_ms candles)"
    "rq_expected_current_open_time_ms q =
       (if a \<le> now div d * d \<and> now div d * d < b then Some (now div d * d) else None)"
    "set (rq_historical_gap_open_times q) = {t. a \<le> t \<and> t < b \<and> t mod d = 0
       \<and> t \<notin> cd_open_time_ms ` set candles \<and> t \<noteq> now div d * d}"
proof -
  from assms(1) obtain q where q: "r = health_report q candles now malformed conflicting"
    "analyze_open_times source symbol interval a b (map cd_open_time_ms candles) now = Inr q"
    and i: "INTERVAL_MILLISECONDS interval \<noteq> None"
    by (auto simp: build_health_report_def bind_r_eq_Inr split: if_splits)
  have d: "0 < d" using i assms(2) interval_positive [of interval] by auto
  note A = q(2) [unfolded analyze_open_times_def, folded assms(2)]
  have range: "a mod d = 0" "b mod d = 0" "a < b"
    "\<forall>t\<in>cd_open_time_ms ` set candles. a \<le> t \<and> t < b \<and> t mod d = 0"
    using A by (auto simp: Let_def list_ex_iff not_less split: if_splits)
  have fields: "rq_start_time_ms q = a" "rq_end_time_ms q = b" "rq_interval q = interval"
    "rq_duplicate_open_times q = repeated_once [] [] (map cd_open_time_ms candles)"
    "rq_expected_current_open_time_ms q =
       (if a \<le> now div d * d \<and> now div d * d < b then Some (now div d * d) else None)"
    "rq_historical_gap_open_times q = filter (\<lambda>t. Some t \<noteq> rq_expected_current_open_time_ms q)
       (filter (\<lambda>t. t \<notin> set (map cd_open_time_ms candles)) (py_range a b d))"
    using A by (auto simp: Let_def bind_r_eq_Inr split: if_splits)
  have g: "(t - a) mod d = 0 \<longleftrightarrow> t mod d = 0" for t
    using range(1) by (simp add: mod_diff_eq [of t d a, symmetric] mod_eq_0_iff_dvd)
  have "set (rq_historical_gap_open_times q) = {t. a \<le> t \<and> t < b \<and> t mod d = 0
       \<and> t \<notin> cd_open_time_ms ` set candles \<and> t \<noteq> now div d * d}"
    unfolding fields(6,5) set_filter set_py_range [OF d] g by auto
  then show ?thesis by (rule that [OF q(1) d range(1,2) fields(1-3) range(3,4) fields(4,5)])
qed

lemma health_report_ready:
  "hr_backtest_ready (health_report q candles now malformed conflicting) \<longleftrightarrow>
     rq_duplicate_open_times q = [] \<and> rq_historical_gap_open_times q = []
     \<and> (\<forall>c\<in>set (first_by_time [] (sort_key cd_open_time_ms candles)).
          \<not> cd_is_closed c \<longrightarrow> Some (cd_open_time_ms c) = rq_expected_current_open_time_ms q)
     \<and> malformed = 0 \<and> conflicting = 0
     \<and> hr_fresh (health_report q candles now malformed conflicting)"
  by (auto simp: health_report_def Let_def filter_empty_conv)

lemma health_report_fresh:
  assumes "d = the (INTERVAL_MILLISECONDS (rq_interval q))"
  shows "hr_fresh (health_report q candles now malformed conflicting) \<longleftrightarrow>
     (rq_start_time_ms q < min (rq_end_time_ms q) (now div d * d) \<longrightarrow>
       (\<exists>c\<in>set (first_by_time [] (sort_key cd_open_time_ms candles)).
          cd_is_closed c \<and> cd_open_time_ms c = min (rq_end_time_ms q) (now div d * d) - d))"
  unfolding assms by (auto simp: health_report_def Let_def image_iff)

text \<open>The last bar that must be closed lies on the grid before the current bar.\<close>

lemma last_closed_bar:
  fixes a b cur d :: int
  assumes "0 < d" "a mod d = 0" "b mod d = 0" "cur mod d = 0" "a < min b cur"
  shows "a \<le> min b cur - d" "min b cur - d < b" "(min b cur - d) mod d = 0" "min b cur - d \<noteq> cur"
proof -
  have m: "min b cur mod d = 0" using assms(3,4) by (simp add: min_def)
  then have "d dvd min b cur - a" using assms(2) by (simp add: mod_eq_0_iff_dvd)
  then have "d \<le> min b cur - a" using assms(5) by (intro zdvd_imp_le) auto
  then show "a \<le> min b cur - d" by simp
  show "min b cur - d < b" "min b cur - d \<noteq> cur" using assms(1) by auto
  show "(min b cur - d) mod d = 0" using m by (simp add: mod_eq_0_iff_dvd)
qed

text \<open>Present and closed are the same for the bars before the current one, when only the current may be open.\<close>

lemma present_bars_closed:
  assumes "\<forall>c\<in>set candles. cd_is_closed c \<or> cd_open_time_ms c = cur"
  shows "(\<forall>t. P t \<and> t \<noteq> cur \<longrightarrow> (\<exists>c\<in>set candles. cd_open_time_ms c = t)) \<longleftrightarrow>
    (\<forall>t. P t \<and> t \<noteq> cur \<longrightarrow> (\<exists>c\<in>set candles. cd_open_time_ms c = t \<and> cd_is_closed c))"
  using assms by (intro iff_allI) metis

text \<open>C25. A range is reported ready for a backtest exactly when it is: whenever \<^verbatim>\<open>build_health_report\<close>
returns, \<^verbatim>\<open>backtest_ready\<close> is true if and only if no open time occurs twice, the diagnostics count no
malformed and no conflicting row, every bar of the requested grid other than the one of the current
interval is stored and closed, and an open candle can only be the current one. Freshness adds no
condition of its own.\<close>

theorem health_ready_exact:
  assumes "build_health_report source symbol interval start_ms end_ms candles now malformed conflicting = Inr r"
    and "INTERVAL_MILLISECONDS interval = Some d"
  shows "hr_backtest_ready r \<longleftrightarrow>
    distinct (map cd_open_time_ms candles) \<and> malformed = 0 \<and> conflicting = 0
    \<and> (\<forall>t. start_ms \<le> t \<and> t < end_ms \<and> t mod d = 0 \<and> t \<noteq> now div d * d \<longrightarrow>
         (\<exists>c\<in>set candles. cd_open_time_ms c = t \<and> cd_is_closed c))
    \<and> (\<forall>c\<in>set candles. cd_is_closed c \<or> cd_open_time_ms c = now div d * d)"
proof -
  have d: "d = the (INTERVAL_MILLISECONDS interval)" using assms(2) by simp
  from build_health_report_Inr [OF assms(1) d] obtain q where
    r: "r = health_report q candles now malformed conflicting" and g: "0 < d" "start_ms mod d = 0" "end_ms mod d = 0"
    and q: "rq_start_time_ms q = start_ms" "rq_end_time_ms q = end_ms" "rq_interval q = interval"
    and grid: "\<forall>t\<in>cd_open_time_ms ` set candles. start_ms \<le> t \<and> t < end_ms \<and> t mod d = 0"
    and dup: "rq_duplicate_open_times q = repeated_once [] [] (map cd_open_time_ms candles)"
    and cur: "rq_expected_current_open_time_ms q =
       (if start_ms \<le> now div d * d \<and> now div d * d < end_ms then Some (now div d * d) else None)"
    and gap: "set (rq_historical_gap_open_times q) = {t. start_ms \<le> t \<and> t < end_ms \<and> t mod d = 0
       \<and> t \<notin> cd_open_time_ms ` set candles \<and> t \<noteq> now div d * d}" .
  have open_now: "Some (cd_open_time_ms c) = rq_expected_current_open_time_ms q \<longleftrightarrow> cd_open_time_ms c = now div d * d"
    if "c \<in> set candles" for c using that grid by (auto simp: cur)
  note U = unique_candles [of candles]
  note F = health_report_fresh [of d q candles now malformed conflicting, unfolded q, OF d]
  have gaps: "rq_historical_gap_open_times q = [] \<longleftrightarrow> (\<forall>t. start_ms \<le> t \<and> t < end_ms \<and> t mod d = 0
      \<and> t \<noteq> now div d * d \<longrightarrow> (\<exists>c\<in>set candles. cd_open_time_ms c = t))"
    unfolding set_empty [symmetric] gap Collect_empty_eq image_iff by (intro iff_allI) (simp only: eq_commute, blast)
  have last: "hr_fresh r" if D: "distinct (map cd_open_time_ms candles)"
    and C: "\<forall>t. start_ms \<le> t \<and> t < end_ms \<and> t mod d = 0 \<and> t \<noteq> now div d * d \<longrightarrow>
      (\<exists>c\<in>set candles. cd_open_time_ms c = t \<and> cd_is_closed c)"
    unfolding r F U [OF D]
  proof
    assume "start_ms < min end_ms (now div d * d)"
    from last_closed_bar [OF g _ this] C
    show "\<exists>c\<in>set candles. cd_is_closed c \<and> cd_open_time_ms c = min end_ms (now div d * d) - d" by auto
  qed
  have ready: "hr_backtest_ready r \<longleftrightarrow> distinct (map cd_open_time_ms candles) \<and> rq_historical_gap_open_times q = []
      \<and> (\<forall>c\<in>set candles. cd_is_closed c \<or> cd_open_time_ms c = now div d * d)
      \<and> malformed = 0 \<and> conflicting = 0 \<and> hr_fresh r"
    unfolding r health_report_ready dup repeated_once_Nil_iff using U open_now by metis
  show ?thesis
  proof (cases "\<forall>c\<in>set candles. cd_is_closed c \<or> cd_open_time_ms c = now div d * d")
    case True
    show ?thesis unfolding ready gaps
      present_bars_closed [OF True, of "\<lambda>t. start_ms \<le> t \<and> t < end_ms \<and> t mod d = 0", unfolded conj_assoc]
      by (intro iffI conjI; elim conjE; (assumption | rule last; assumption))
  next
    case False
    then show ?thesis unfolding ready by blast
  qed
qed

text \<open>Two hours of a range: the first is closed, the second is the current one and still open.\<close>

definition hour_bar :: "int \<Rightarrow> bool \<Rightarrow> Candle" where
  "hour_bar t final_bar = \<lparr> cd_source = DATA_SOURCE, cd_symbol = ''BTCUSDT'', cd_interval = ''1h'', cd_open_time_ms = t,
     cd_close_time_ms = t + 3599999, cd_open = ''100'', cd_high = ''110'', cd_low = ''90'', cd_close = ''105'',
     cd_base_volume = ''1'', cd_quote_volume = ''100'', cd_trade_count = 1, cd_is_closed = final_bar \<rparr>"

definition stored_bars :: "Candle list" where
  "stored_bars = [hour_bar 1704067200000 True, hour_bar 1704070800000 False]"

definition stored_health :: "DataHealthReport result" where
  "stored_health = build_health_report DATA_SOURCE ''BTCUSDT'' ''1h'' 1704067200000 1704074400000 stored_bars 1704072600000 0 0"

lemma stored_health_returns: "\<exists>r. stored_health = Inr r"
proof -
  have "py_range 1704067200000 1704074400000 3600000 = [1704067200000, 1704070800000]"
    by (simp add: py_range_def upt_rec numeral_2_eq_2)
  then show ?thesis
    by (simp add: stored_health_def build_health_report_def stored_bars_def hour_bar_def SYMBOLS_def MAX_RANGE_CANDLES_def
        analyze_open_times_def duplicate_candle_keys_def repair_ranges_def Let_def)
qed

theorem health_ready_exact_witness: "\<exists>r. stored_health = Inr r \<and> hr_backtest_ready r"
proof -
  obtain r where r: "stored_health = Inr r" using stored_health_returns by blast
  have "t = 1704067200000" if "1704067200000 \<le> t" "t < 1704074400000" "t mod 3600000 = 0" "t \<noteq> 1704070800000" for t :: int
  proof -
    obtain k where "t = 3600000 * k" using \<open>t mod 3600000 = 0\<close> by (auto simp only: mod_eq_0_iff_dvd elim!: dvdE)
    moreover from this have "k = 473352 \<or> k = 473353" using that(1,2) by linarith
    ultimately show ?thesis using that(4) by auto
  qed
  then have "hr_backtest_ready r"
    using health_ready_exact [OF r [unfolded stored_health_def] interval_1h]
    by (simp add: stored_bars_def hour_bar_def)
  with r show ?thesis by blast
qed

end
