(* ===== verification/Backtest_Loader.thy ===== *)
theory Backtest_Loader
  imports Backtest_Market Py_Json_Read
begin

text \<open>
  \<^verbatim>\<open>yatl/data/audit.py\<close> and \<^verbatim>\<open>yatl/backtest/loader.py\<close>: the acceptance audit of the dataset manifest, the
  choice of the latest backtest range and the read-only loading of the candles. The manifest is
  read three times (before, during and after the audit); a content is \<open>None\<close> when the file
  cannot be read, and numbers with a fraction are not modelled. The messages of errors raised by
  the interpreter itself are shortened. The theorem shows that a loaded dataset serves every
  decision of its range.
\<close>

section \<open>The acceptance audit\<close>

definition MAX_MANIFEST_BYTES :: nat where "MAX_MANIFEST_BYTES = 256 * 1024"
definition DATASET_KIND :: string where "DATASET_KIND = ''BINANCE_SPOT_PUBLIC_CLOSED_OHLCV''"
definition EXPECTED_DAYS :: int where "EXPECTED_DAYS = 30"

record P1AuditResult =
  pa_datasets :: int
  pa_closed_rows :: int
  pa_range_days :: int

text \<open>The codec \<^verbatim>\<open>utf-8-sig\<close> drops a byte order mark.\<close>

definition decode_sig :: "string \<Rightarrow> string" where
  "decode_sig raw = (if take 3 raw = [CHR 0xEF, CHR 0xBB, CHR 0xBF] then drop 3 raw else raw)"

definition read_manifest :: "string option \<Rightarrow> json result" where
  "read_manifest path =
     (case path of
        None \<Rightarrow> Inl (AuditError ''P1 manifest cannot be read'')
      | Some raw \<Rightarrow>
          if raw = [] \<or> MAX_MANIFEST_BYTES < length raw then Inl (AuditError ''P1 manifest size is invalid'')
          else (case json_loads (decode_sig raw) of
             None \<Rightarrow> Inl (AuditError ''P1 manifest JSON is invalid'')
           | Some (JObj kvs) \<Rightarrow> Inr (JObj kvs)
           | Some _ \<Rightarrow> Inl (AuditError ''P1 manifest schema is invalid'')))"

text \<open>\<^verbatim>\<open>value == n\<close>: in Python \<^verbatim>\<open>True\<close> equals one and \<^verbatim>\<open>False\<close> equals zero.\<close>

definition json_is :: "int \<Rightarrow> json option \<Rightarrow> bool" where
  "json_is n j \<longleftrightarrow> j = Some (JInt n) \<or> (n = 1 \<and> j = Some (JBool True)) \<or> (n = 0 \<and> j = Some (JBool False))"

text \<open>A list or an object cannot be part of a key.\<close>

definition unhashable :: "json option \<Rightarrow> bool" where
  "unhashable j \<longleftrightarrow> (case j of Some (JList _) \<Rightarrow> True | Some (JObj _) \<Rightarrow> True | _ \<Rightarrow> False)"

definition expected_pairs :: "(string \<times> string) list" where
  "expected_pairs = List.product SYMBOLS [''15m'', ''1h'', ''4h'']"

definition health_gate :: "int \<Rightarrow> json \<Rightarrow> bool" where
  "health_gate duration report \<longleftrightarrow>
     (let expected_rows = EXPECTED_DAYS * 86400000 div duration; num = (\<lambda>k. json_get_int k report) in
      json_get ''backtest_ready'' report = Some (JBool True) \<and> json_get ''fresh'' report = Some (JBool True)
      \<and> list_all (\<lambda>k. json_is 0 (json_get k report)) [''open_rows'', ''malformed_rows'', ''conflicting_rows'']
      \<and> list_all (\<lambda>k. json_get k report = Some (JList []))
          [''duplicate_open_times'', ''historical_gap_open_times'', ''unexpected_open_times'', ''repair_ranges'', ''failure_reasons'']
      \<and> list_all (\<lambda>k. json_is expected_rows (json_get k report)) [''total_rows'', ''unique_rows'', ''closed_rows'']
      \<and> (case (num ''requested_start_time_ms'', num ''requested_end_time_ms'', num ''stored_first_open_time_ms'',
               num ''stored_last_open_time_ms'', num ''freshness_ms'') of
           (Some start, Some end_ms, Some fst_open, Some lst_open, Some freshness) \<Rightarrow>
             \<not> (start \<le> 0 \<or> end_ms \<le> start \<or> freshness < 0 \<or> fst_open \<noteq> start \<or> lst_open \<noteq> end_ms - duration)
         | _ \<Rightarrow> False))"

fun audit_reports :: "(string \<times> string) list \<Rightarrow> int \<Rightarrow> json list \<Rightarrow> ((string \<times> string) list \<times> int) result" where
  "audit_reports seen row_total [] = Inr (seen, row_total)"
| "audit_reports seen row_total (report # reports) =
     (case report of
        JObj _ \<Rightarrow>
          if unhashable (json_get ''symbol'' report) \<or> unhashable (json_get ''interval'' report)
          then Inl (TypeError ''unhashable type'')
          else (case (json_get_str ''symbol'' report, json_get_str ''interval'' report) of
             (Some symbol, Some interval) \<Rightarrow>
               if (symbol, interval) \<notin> set expected_pairs \<or> (symbol, interval) \<in> set seen
                  \<or> json_get ''source'' report \<noteq> Some (JStr DATA_SOURCE)
               then Inl (AuditError ''P1 dataset identity is invalid'')
               else if \<not> health_gate (interval_ms interval) report then Inl (AuditError ''P1 dataset health gate failed'')
               else audit_reports ((symbol, interval) # seen) (row_total + EXPECTED_DAYS * 86400000 div interval_ms interval) reports
           | _ \<Rightarrow> Inl (AuditError ''P1 dataset identity is invalid''))
      | _ \<Rightarrow> Inl (AuditError ''P1 health report is invalid''))"

definition manifest_datasets :: "json \<Rightarrow> json list option" where
  "manifest_datasets manifest = (case json_get ''datasets'' manifest of Some (JList xs) \<Rightarrow> Some xs | _ \<Rightarrow> None)"

definition audit_p1_manifest :: "string option \<Rightarrow> P1AuditResult result" where
  "audit_p1_manifest path =
     bind_r (read_manifest path) (\<lambda>manifest.
     let generated = json_get_int ''generated_at_ms'' manifest in
     if \<not> json_is 1 (json_get ''schema_version'' manifest) \<or> \<not> json_is 1 (json_get ''database_schema_version'' manifest)
        \<or> json_get ''dataset_kind'' manifest \<noteq> Some (JStr DATASET_KIND)
        \<or> \<not> json_is EXPECTED_DAYS (json_get ''range_days'' manifest) \<or> generated = None \<or> the generated \<le> 0
     then Inl (AuditError ''P1 manifest identity or range is invalid'')
     else (case manifest_datasets manifest of
        None \<Rightarrow> Inl (AuditError ''P1 manifest dataset coverage is invalid'')
      | Some datasets \<Rightarrow>
          if length datasets \<noteq> length expected_pairs then Inl (AuditError ''P1 manifest dataset coverage is invalid'')
          else bind_r (audit_reports [] 0 datasets) (\<lambda>(seen, row_total).
            if set seen \<noteq> set expected_pairs \<or> row_total \<noteq> 7560 then Inl (AuditError ''P1 dataset acceptance total is invalid'')
            else Inr \<lparr> pa_datasets = int (length seen), pa_closed_rows = row_total, pa_range_days = EXPECTED_DAYS \<rparr>)))"

section \<open>The loader\<close>

definition INTERVALS :: "string list" where
  "INTERVALS = [PRIMARY_INTERVAL, CONTEXT_INTERVAL, REGIME_INTERVAL]"

definition MAX_LOADED_ROWS :: nat where "MAX_LOADED_ROWS = 100000"

definition manifest_snapshot :: "string option \<Rightarrow> string option \<Rightarrow> string option \<Rightarrow> json result" where
  "manifest_snapshot before audited after =
     (let failed = BacktestLoadError ''Manifest acceptance gate failed'' in
      case before of
        None \<Rightarrow> Inl failed
      | Some raw \<Rightarrow>
          if raw = [] \<or> MAX_MANIFEST_BYTES < length raw then Inl (BacktestLoadError ''Manifest size is invalid'')
          else bind_r (catch_r (audit_p1_manifest audited) is_AuditError failed) (\<lambda>_.
            if after = None then Inl failed
            else if after \<noteq> before then Inl (BacktestLoadError ''Manifest changed during validation'')
            else (case json_loads (decode_sig raw) of None \<Rightarrow> Inl failed | Some manifest \<Rightarrow> Inr manifest)))"

text \<open>
  The manifest that is loaded is the content before and after the audit. A file that was another one
  during the audit alone can therefore hold anything: a missing key is a \<^verbatim>\<open>KeyError\<close>, an item that is
  no object an \<^verbatim>\<open>AttributeError\<close>, a value of the wrong type a \<^verbatim>\<open>TypeError\<close>.
\<close>

definition manifest_items :: "json \<Rightarrow> json list result" where
  "manifest_items manifest =
     (case manifest of
        JObj _ \<Rightarrow>
          (case json_get ''datasets'' manifest of
             None \<Rightarrow> Inl (KeyError ''datasets'')
           | Some v \<Rightarrow> py_tuple v)
      | _ \<Rightarrow> Inl (TypeError ''object is not subscriptable''))"

text \<open>The reports of a symbol, the last one first; a later report replaces an earlier one.\<close>

fun collect_reports :: "string \<Rightarrow> (json option \<times> json) list \<Rightarrow> json list \<Rightarrow> (json option \<times> json) list result" where
  "collect_reports symbol pairs [] = Inr pairs"
| "collect_reports symbol pairs (item # items) =
     (case item of
        JObj _ \<Rightarrow>
          if json_get ''symbol'' item \<noteq> Some (JStr symbol) then collect_reports symbol pairs items
          else if unhashable (json_get ''interval'' item) then Inl (TypeError ''unhashable type'')
          else collect_reports symbol ((json_get ''interval'' item, item) # pairs) items
      | _ \<Rightarrow> Inl (AttributeError ''get''))"

definition reports_for :: "json \<Rightarrow> string \<Rightarrow> (string \<Rightarrow> json option) result" where
  "reports_for manifest symbol =
     bind_r (manifest_items manifest) (\<lambda>items.
     bind_r (collect_reports symbol [] items) (\<lambda>pairs.
     if set (map fst pairs) \<noteq> (Some \<circ> JStr) ` set INTERVALS
     then Inl (BacktestLoadError ''Accepted dataset coverage is incomplete'')
     else Inr (\<lambda>i. map_of pairs (Some (JStr i)))))"

text \<open>
  A number of a report. Python compares and adds \<^verbatim>\<open>True\<close> and \<^verbatim>\<open>False\<close> as one and zero; any other value
  fails in the first comparison or sum with a number.
\<close>

definition report_int :: "string \<Rightarrow> json \<Rightarrow> int result" where
  "report_int k report =
     (case json_get k report of
        None \<Rightarrow> Inl (KeyError k)
      | Some (JInt n) \<Rightarrow> Inr n
      | Some (JBool b) \<Rightarrow> Inr (if b then 1 else 0)
      | Some _ \<Rightarrow> Inl (TypeError ''unsupported operand type''))"

definition latest_spec_from_manifest ::
    "string option \<Rightarrow> string option \<Rightarrow> string option \<Rightarrow> string \<Rightarrow> int \<Rightarrow> BacktestSpec result" where
  "latest_spec_from_manifest before audited after symbol hours =
     (if \<not> (1 \<le> hours \<and> hours \<le> 24 * 365) then Inl (BacktestLoadError ''Requested backtest hours are invalid'')
      else bind_r (manifest_snapshot before audited after) (\<lambda>manifest.
        bind_r (reports_for manifest symbol) (\<lambda>reports.
        let primary = interval_ms PRIMARY_INTERVAL; items = map (\<lambda>i. the (reports i)) INTERVALS in
        bind_r (map_r (report_int ''requested_start_time_ms'') items) (\<lambda>starts.
        bind_r (map_r (report_int ''requested_end_time_ms'') items) (\<lambda>ends.
        let earliest = Max (set starts);
            latest = Min (set ends);
            end_ms = (latest div primary) * primary;
            start = end_ms - hours * primary
        in if start < earliest + interval_ms REGIME_INTERVAL
           then Inl (BacktestLoadError ''Accepted dataset lacks the requested warmup range'')
           else catch_r (construct BacktestSpec_post_init (default_spec symbol start end_ms)) is_value_error
             (BacktestLoadError ''Accepted manifest cannot form a backtest range''))))))"

text \<open>
  A row of the candle table: the columns of a candle, with \<^verbatim>\<open>is_closed\<close> as a number beside them (the field
  in the candle is replaced). \<open>None\<close> stands for a table that cannot be read.
\<close>

record CandleRow =
  cr_candle :: Candle
  cr_is_closed :: int

record CandleDatabase =
  cb_version :: "int option"
  cb_candles :: "CandleRow list option"

definition row_candle :: "CandleRow \<Rightarrow> Candle result" where
  "row_candle r =
     (if cr_is_closed r \<notin> {0, 1} then Inl (BacktestLoadError ''Database candle state is invalid'')
      else bind_r (catch_r (construct Candle_post_init ((cr_candle r)\<lparr> cd_is_closed := (cr_is_closed r = 1) \<rparr>)) is_value_error
          (BacktestLoadError ''Database row violates the canonical candle contract'')) (\<lambda>candle.
        if \<not> cd_is_closed candle then Inl (BacktestLoadError ''Accepted backtest data contains an open candle'')
        else Inr candle))"

definition read_rows :: "CandleDatabase \<Rightarrow> json \<Rightarrow> Candle list result" where
  "read_rows db report =
     (let symbol = the (json_get_str ''symbol'' report); interval = the (json_get_str ''interval'' report) in
      bind_r (report_int ''requested_start_time_ms'' report) (\<lambda>start.
      bind_r (report_int ''requested_end_time_ms'' report) (\<lambda>end_ms.
      case cb_candles db of
        None \<Rightarrow> Inl (BacktestLoadError ''Cannot read the accepted candle range'')
      | Some table \<Rightarrow>
          let rows = sort_key (\<lambda>r. cd_open_time_ms (cr_candle r)) (filter (\<lambda>r. let c = cr_candle r in
                cd_source c = DATA_SOURCE \<and> cd_symbol c = symbol \<and> cd_interval c = interval
                \<and> start \<le> cd_open_time_ms c \<and> cd_open_time_ms c < end_ms) table) in
          if json_get ''total_rows'' report = None then Inl (KeyError ''total_rows'')
          else if \<not> json_is (int (length rows)) (json_get ''total_rows'' report) \<or> MAX_LOADED_ROWS < length rows
          then Inl (BacktestLoadError ''Database and accepted manifest row counts differ'')
          else bind_r (map_r row_candle rows) (\<lambda>candles.
            if map cd_open_time_ms candles \<noteq> py_range start end_ms (interval_ms interval)
            then Inl (BacktestLoadError ''Database candle coverage differs from the accepted manifest'')
            else Inr candles))))"

definition range_accepted :: "BacktestSpec \<Rightarrow> json \<Rightarrow> unit result" where
  "range_accepted spec report =
     (let outside = BacktestLoadError ''Backtest range is outside the accepted dataset'' in
      bind_r (report_int ''requested_start_time_ms'' report) (\<lambda>start.
      if sp_start_time_ms spec < start then Inl outside
      else bind_r (report_int ''requested_end_time_ms'' report) (\<lambda>end_ms.
        if end_ms < sp_end_time_ms spec then Inl outside else Inr ())))"

text \<open>
  The reports are visited by interval; the program visits them in the order of the manifest, which only
  decides which of two errors comes first. The stamp of the manifest is kept as it is; one that is no
  number, which only an unaudited manifest can hold, is an error here.
\<close>

definition load_accepted_dataset ::
    "CandleDatabase option \<Rightarrow> string option \<Rightarrow> string option \<Rightarrow> string option \<Rightarrow> BacktestSpec \<Rightarrow> AcceptedBacktestDataset result" where
  "load_accepted_dataset database before audited after spec =
     bind_r (manifest_snapshot before audited after) (\<lambda>manifest.
     bind_r (reports_for manifest (sp_symbol spec)) (\<lambda>reports.
     bind_r (map_r (range_accepted spec) (map (\<lambda>i. the (reports i)) INTERVALS)) (\<lambda>_.
     case database of
       None \<Rightarrow> Inl (BacktestLoadError ''Accepted database cannot be read'')
     | Some db \<Rightarrow>
         (case cb_version db of
            None \<Rightarrow> Inl (BacktestLoadError ''Accepted database schema cannot be verified'')
          | Some version \<Rightarrow>
              if json_get ''database_schema_version'' manifest = None then Inl (KeyError ''database_schema_version'')
              else if \<not> json_is version (json_get ''database_schema_version'' manifest)
              then Inl (BacktestLoadError ''Database schema and accepted manifest differ'')
              else bind_r (read_rows db (the (reports PRIMARY_INTERVAL))) (\<lambda>primary.
                bind_r (read_rows db (the (reports CONTEXT_INTERVAL))) (\<lambda>context_rows.
                bind_r (read_rows db (the (reports REGIME_INTERVAL))) (\<lambda>regime.
                bind_r (report_int ''generated_at_ms'' manifest) (\<lambda>generated.
                Inr \<lparr> ds_spec = spec, ds_manifest_generated_at_ms = generated,
                  ds_primary = primary, ds_context = context_rows, ds_regime = regime \<rparr>))))))))"

section \<open>A grid of closed bars is a legal history\<close>

lemma filter_prefix:
  assumes "\<And>j. j < length xs \<Longrightarrow> P (xs ! j) \<longleftrightarrow> j < m"
  shows "filter P xs = take m xs"
proof -
  have "filter P (take m xs) = take m xs"
    using assms by (intro filter_True) (auto simp: in_set_conv_nth)
  moreover have "filter P (drop m xs) = []"
    using assms by (auto simp: filter_empty_conv in_set_conv_nth)
  ultimately show ?thesis
    using filter_append [of P "take m xs" "drop m xs"] by simp
qed

definition closed_bar :: "string \<Rightarrow> string \<Rightarrow> Candle \<Rightarrow> bool" where
  "closed_bar symbol interval c \<longleftrightarrow> cd_source c = DATA_SOURCE \<and> cd_symbol c = symbol \<and> cd_interval c = interval
     \<and> cd_is_closed c \<and> cd_close_time_ms c = cd_open_time_ms c + interval_ms interval - 1"

lemma history_loop_grid_from:
  assumes "list_all (\<lambda>c. closed_bar smb i c \<and> cd_close_time_ms c < t) cs"
    and "\<And>j. j < length cs \<Longrightarrow> cd_open_time_ms (cs ! j) = p + int (Suc j) * d"
  shows "history_loop d smb i t (Some p) cs = Inr ()"
  using assms
proof (induction cs arbitrary: p)
  case (Cons c cs)
  have c: "cd_open_time_ms c = p + d" using Cons.prems(2) [of 0] by simp
  have "history_loop d smb i t (Some (cd_open_time_ms c)) cs = Inr ()"
  proof (rule Cons.IH)
    show "cd_open_time_ms (cs ! j) = cd_open_time_ms c + int (Suc j) * d" if "j < length cs" for j
      using Cons.prems(2) [of "Suc j"] that c by (simp add: algebra_simps)
  qed (use Cons.prems(1) in simp)
  then show ?case using Cons.prems(1) c by (simp add: closed_bar_def)
qed simp

lemma history_loop_grid:
  assumes "list_all (\<lambda>c. closed_bar smb i c \<and> cd_close_time_ms c < t) cs"
    and "\<And>j. j < length cs \<Longrightarrow> cd_open_time_ms (cs ! j) = a + int j * d"
  shows "history_loop d smb i t None cs = Inr ()"
proof (cases cs)
  case (Cons c rest)
  have "history_loop d smb i t (Some (cd_open_time_ms c)) rest = Inr ()"
  proof (rule history_loop_grid_from)
    show "cd_open_time_ms (rest ! j) = cd_open_time_ms c + int (Suc j) * d" if "j < length rest" for j
      using assms(2) [of 0] assms(2) [of "Suc j"] that by (simp add: Cons algebra_simps)
  qed (use assms(1) Cons in simp)
  then show ?thesis using assms(1) Cons by (simp add: closed_bar_def)
qed simp

text \<open>
  A grid of bars that starts a bar before \<open>t\<close> and reaches it: the bars closed at \<open>t\<close> are its first \<open>m\<close>,
  for the number \<open>m\<close> of whole intervals between.
\<close>

lemma visible_grid_prefix:
  assumes d: "d = interval_ms i" "0 < d" and a: "a mod d = 0" "a + d \<le> t" and e: "t \<le> e"
    and cs: "list_all (closed_bar smb i) cs" "map cd_open_time_ms cs = py_range a e d"
    and m_def: "m = nat ((t - a) div d)"
  shows "visible_before t cs = take m cs" "1 \<le> m" "m \<le> length cs" "t div d * d = a + int m * d"
    "\<And>j. j < length cs \<Longrightarrow> cd_open_time_ms (cs ! j) = a + int j * d"
proof -
  show o: "cd_open_time_ms (cs ! j) = a + int j * d" if "j < length cs" for j
  proof -
    have "length cs = length (py_range a e d)" using cs(2) by (metis length_map)
    with that have "py_range a e d ! j = a + int j * d" by (simp add: py_range_def)
    with that cs(2) show ?thesis by (metis nth_map)
  qed
  have "1 \<le> (t - a) div d" using a(2) d(2) by (simp add: le_zdiv_iff)
  then have m: "int m = (t - a) div d" "1 \<le> m" by (simp_all add: m_def)
  from m(2) show "1 \<le> m" .
  have "(t - a) div d \<le> (e - a + d - 1) div d" using e d(2) by (intro zdiv_mono1) auto
  then show "m \<le> length cs"
    using cs(2) [THEN arg_cong, of length] by (simp add: length_py_range m_def nat_mono)
  have "a = a div d * d" using a(1) by (metis add.right_neutral div_mult_mod_eq)
  moreover have "t div d = a div d + int m"
    unfolding m(1) using d(2) calculation by (metis add.commute diff_add_cancel div_mult_self1 less_numeral_extra(3))
  ultimately show "t div d * d = a + int m * d" by (metis distrib_right)
  have close: "cd_close_time_ms (cs ! j) = a + int j * d + d - 1" if "j < length cs" for j
    using cs(1) that o [OF that] by (simp add: list_all_length closed_bar_def d(1))
  show "visible_before t cs = take m cs"
    unfolding visible_before_def
  proof (rule filter_prefix)
    fix j assume j: "j < length cs"
    have "cd_close_time_ms (cs ! j) < t \<longleftrightarrow> (int j + 1) * d \<le> t - a"
      unfolding close [OF j] by (simp add: algebra_simps) linarith
    also have "\<dots> \<longleftrightarrow> int j + 1 \<le> int m" unfolding m(1) by (simp only: le_zdiv_iff [OF d(2)])
    finally show "cd_close_time_ms (cs ! j) < t \<longleftrightarrow> j < m" by linarith
  qed
qed

text \<open>They form the history that a snapshot demands.\<close>

lemma visible_grid_legal:
  assumes d: "d = interval_ms i" "0 < d" and a: "a mod d = 0" "a + d \<le> t" and e: "t \<le> e"
    and cs: "list_all (closed_bar smb i) cs" "map cd_open_time_ms cs = py_range a e d"
  shows "validate_history (visible_before t cs) smb i t = Inr ()"
proof -
  define m where "m = nat ((t - a) div d)"
  note G = visible_grid_prefix [OF assms m_def]
  have ne: "take m cs \<noteq> []" using G(2,3) by auto
  have "history_loop d smb i t None (take m cs) = Inr ()"
  proof (rule history_loop_grid)
    show "cd_open_time_ms (take m cs ! j) = a + int j * d" if "j < length (take m cs)" for j
      using that G(5) [of j] by simp
    have "list_all (closed_bar smb i) (take m cs)" using cs(1) by (auto simp: list_all_iff dest: in_set_takeD)
    moreover have "\<forall>c\<in>set (take m cs). cd_close_time_ms c < t"
      unfolding G(1) [symmetric] visible_before_def by simp
    ultimately show "list_all (\<lambda>c. closed_bar smb i c \<and> cd_close_time_ms c < t) (take m cs)"
      by (simp add: list_all_iff)
  qed
  moreover have "cd_open_time_ms (last (take m cs)) = t div d * d - d"
    using ne G(5) [of "m - 1"] G(2,3,4) by (simp add: last_conv_nth of_nat_diff algebra_simps)
  ultimately show ?thesis
    using ne by (simp add: validate_history_def G(1) Let_def d(1) [symmetric])
qed

section \<open>What the gates of the loader ensure\<close>

lemma audit_reports_gate:
  assumes "audit_reports seen n reports = Inr res" "report \<in> set reports"
  shows "\<exists>symbol interval. json_get_str ''symbol'' report = Some symbol \<and> json_get_str ''interval'' report = Some interval
    \<and> health_gate (interval_ms interval) report"
  using assms
proof (induction seen n reports rule: audit_reports.induct)
  case (2 seen n r reports)
  then show ?case by (auto split: json.splits option.splits if_splits)
qed simp

text \<open>The number under a key of an audited report.\<close>

definition report_time :: "string \<Rightarrow> json \<Rightarrow> int" where
  "report_time k report = the (json_get_int k report)"

lemma report_int_time: "json_get_int k report = Some n \<Longrightarrow> report_int k report = Inr (report_time k report)"
  by (auto simp: json_get_int_def report_int_def report_time_def split: option.splits json.splits)

lemma health_gate_ints:
  assumes "health_gate d report" "k \<in> {''requested_start_time_ms'', ''requested_end_time_ms''}"
  shows "report_int k report = Inr (report_time k report)"
  using assms report_int_time [of k report] by (auto simp: health_gate_def Let_def split: option.splits)

lemma health_gate_times:
  "health_gate d report \<Longrightarrow> 0 < report_time ''requested_start_time_ms'' report
     \<and> report_time ''requested_start_time_ms'' report < report_time ''requested_end_time_ms'' report"
  by (auto simp: health_gate_def report_time_def Let_def split: option.splits)

lemma manifest_snapshot_gate:
  assumes "manifest_snapshot c c c = Inr manifest"
  shows "\<exists>datasets. manifest_items manifest = Inr datasets \<and> (\<forall>report\<in>set datasets. \<exists>symbol interval.
    json_get_str ''symbol'' report = Some symbol \<and> json_get_str ''interval'' report = Some interval
    \<and> health_gate (interval_ms interval) report)"
proof -
  from assms obtain raw result where c: "c = Some raw" "json_loads (decode_sig raw) = Some manifest"
    and audit: "audit_p1_manifest c = Inr result"
    by (auto simp: manifest_snapshot_def bind_r_eq_Inr Let_def split: option.splits if_splits)
  have "read_manifest c = Inr manifest"
    using audit c by (auto simp: audit_p1_manifest_def bind_r_eq_Inr read_manifest_def split: if_splits json.splits)
  with audit obtain datasets res where "manifest_datasets manifest = Some datasets" "audit_reports [] 0 datasets = Inr res"
    by (auto simp: audit_p1_manifest_def bind_r_eq_Inr Let_def split: if_splits option.splits)
  moreover from this have "manifest_items manifest = Inr datasets"
    by (auto simp: manifest_items_def manifest_datasets_def json_get_def py_tuple_def split: json.splits option.splits)
  ultimately show ?thesis using audit_reports_gate by auto
qed

lemma collect_reports_Inr:
  "collect_reports symbol acc items = Inr pairs \<Longrightarrow> (k, item) \<in> set pairs \<Longrightarrow>
     (k, item) \<in> set acc \<or> item \<in> set items \<and> json_get ''symbol'' item = Some (JStr symbol) \<and> json_get ''interval'' item = k"
proof (induction symbol acc items rule: collect_reports.induct)
  case (2 symbol acc x xs)
  then show ?case by (auto split: json.splits if_splits)
qed simp

lemma reports_for_item:
  assumes "manifest_snapshot c c c = Inr manifest" "reports_for manifest symbol = Inr reports" "i \<in> set INTERVALS"
  shows "\<exists>report. reports i = Some report \<and> json_get_str ''symbol'' report = Some symbol
    \<and> json_get_str ''interval'' report = Some i \<and> health_gate (interval_ms i) report"
proof -
  obtain datasets where ds: "manifest_items manifest = Inr datasets" "\<forall>report\<in>set datasets. \<exists>symbol interval.
    json_get_str ''symbol'' report = Some symbol \<and> json_get_str ''interval'' report = Some interval
    \<and> health_gate (interval_ms interval) report" using manifest_snapshot_gate [OF assms(1)] by blast
  obtain pairs where r: "collect_reports symbol [] datasets = Inr pairs" "set (map fst pairs) = (Some \<circ> JStr) ` set INTERVALS"
    "reports = (\<lambda>i. map_of pairs (Some (JStr i)))"
    using assms(2) ds(1) by (auto simp: reports_for_def bind_r_eq_Inr split: if_splits)
  have "Some (JStr i) \<in> set (map fst pairs)" unfolding r(2) using assms(3) by simp
  then obtain report where i: "map_of pairs (Some (JStr i)) = Some report"
    by (metis map_of_eq_None_iff not_None_eq set_map)
  have "report \<in> set datasets \<and> json_get ''symbol'' report = Some (JStr symbol) \<and> json_get ''interval'' report = Some (JStr i)"
    using collect_reports_Inr [OF r(1) map_of_SomeD [OF i]] by simp
  with ds(2) i show ?thesis by (fastforce simp: r(3) json_get_str_def)
qed

lemma report_times:
  assumes "manifest_snapshot c c c = Inr manifest" "reports_for manifest symbol = Inr reports"
    and "k \<in> {''requested_start_time_ms'', ''requested_end_time_ms''}" "i \<in> set INTERVALS"
  shows "report_int k (the (reports i)) = Inr (report_time k (the (reports i)))"
  using reports_for_item [OF assms(1,2,4)] health_gate_ints [OF _ assms(3)] by auto

lemma row_candle_Inr:
  assumes "row_candle r = Inr c"
  shows "valid_Candle c" "cd_is_closed c" "cd_source c = cd_source (cr_candle r)" "cd_symbol c = cd_symbol (cr_candle r)"
    "cd_interval c = cd_interval (cr_candle r)"
  using assms by (auto simp: row_candle_def bind_r_eq_Inr construct_eq_Inr valid_Candle_def split: if_splits)

lemma read_rows_Inr:
  assumes "read_rows db report = Inr cs" "json_get_str ''symbol'' report = Some smb"
    "json_get_str ''interval'' report = Some i" "INTERVAL_MILLISECONDS i = Some d"
    and "health_gate d report"
    and start: "a = report_time ''requested_start_time_ms'' report" and stop: "e = report_time ''requested_end_time_ms'' report"
  shows "list_all (closed_bar smb i) cs" "map cd_open_time_ms cs = py_range a e d" "a mod d = 0" "0 < a"
proof -
  have d: "interval_ms i = d" "0 < d" using assms(4) interval_positive by (auto simp: interval_ms_def)
  obtain table where rows: "map_r row_candle (sort_key (\<lambda>r. cd_open_time_ms (cr_candle r)) (filter (\<lambda>r. let c = cr_candle r in
       cd_source c = DATA_SOURCE \<and> cd_symbol c = smb \<and> cd_interval c = i \<and> a \<le> cd_open_time_ms c \<and> cd_open_time_ms c < e) table)) = Inr cs"
    and times: "map cd_open_time_ms cs = py_range a e d"
    using assms(1-3) d health_gate_ints [OF assms(5)] unfolding start stop
    by (auto simp: read_rows_def bind_r_eq_Inr Let_def split: option.splits if_splits)
  have bars: "\<forall>c\<in>set cs. closed_bar smb i c \<and> valid_Candle c \<and> cd_interval c = i"
  proof
    fix c assume "c \<in> set cs"
    from map_r_source [OF rows this] obtain r where r: "row_candle r = Inr c" "cd_source (cr_candle r) = DATA_SOURCE"
      "cd_symbol (cr_candle r) = smb" "cd_interval (cr_candle r) = i" by (auto simp: Let_def)
    note R = row_candle_Inr [OF r(1)]
    then show "closed_bar smb i c \<and> valid_Candle c \<and> cd_interval c = i"
      using r valid_Candle_times(3) [of c d] assms(4) by (simp add: closed_bar_def d)
  qed
  then show "list_all (closed_bar smb i) cs" by (simp add: list_all_iff)
  show "map cd_open_time_ms cs = py_range a e d" by (rule times)
  have se: "0 < a" "a < e" using health_gate_times [OF assms(5)] start stop by auto
  then have "a \<in> set (py_range a e d)" by (simp add: set_py_range [OF d(2)])
  then obtain c where "c \<in> set cs" "cd_open_time_ms c = a" unfolding times [symmetric] by auto
  then show "a mod d = 0" using bars valid_Candle_times(2) [of c d] assms(4) by auto
  show "0 < a" by (rule se)
qed

lemma latest_spec_Inr:
  assumes "latest_spec_from_manifest c c c symbol hours = Inr spec"
  obtains manifest reports where "manifest_snapshot c c c = Inr manifest" "reports_for manifest symbol = Inr reports"
    "sp_symbol spec = symbol" "valid_BacktestSpec spec" "sp_end_time_ms spec = sp_start_time_ms spec + hours * hour_ms"
    "\<And>i. i \<in> set INTERVALS \<Longrightarrow> report_time ''requested_start_time_ms'' (the (reports i)) + 4 * hour_ms \<le> sp_start_time_ms spec
       \<and> sp_end_time_ms spec \<le> report_time ''requested_end_time_ms'' (the (reports i))"
proof -
  from assms obtain manifest reports where m: "manifest_snapshot c c c = Inr manifest" "reports_for manifest symbol = Inr reports"
    by (auto simp: latest_spec_from_manifest_def bind_r_eq_Inr Let_def split: if_splits)
  have t: "map_r (report_int k) (map (\<lambda>i. the (reports i)) INTERVALS) = Inr (map (report_time k) (map (\<lambda>i. the (reports i)) INTERVALS))"
    if "k \<in> {''requested_start_time_ms'', ''requested_end_time_ms''}" for k
    using report_times [OF m that] by (intro map_r_eq) auto
  let ?items = "map (\<lambda>i. the (reports i)) INTERVALS"
  define earliest where "earliest = Max (set (map (report_time ''requested_start_time_ms'') ?items))"
  define latest where "latest = Min (set (map (report_time ''requested_end_time_ms'') ?items))"
  have r: "sp_end_time_ms spec = latest div hour_ms * hour_ms" "sp_start_time_ms spec = sp_end_time_ms spec - hours * hour_ms"
    "earliest + 14400000 \<le> sp_start_time_ms spec" "BacktestSpec_post_init spec = Inr ()" "sp_symbol spec = symbol"
    using assms m t unfolding earliest_def latest_def
    by (auto simp: latest_spec_from_manifest_def bind_r_eq_Inr construct_eq_Inr Let_def default_spec_def not_less image_image
        simp del: list.map split: if_splits)
  have "report_time ''requested_start_time_ms'' (the (reports i)) + 4 * hour_ms \<le> sp_start_time_ms spec
       \<and> sp_end_time_ms spec \<le> report_time ''requested_end_time_ms'' (the (reports i))" if "i \<in> set INTERVALS" for i
  proof -
    have "report_time ''requested_start_time_ms'' (the (reports i)) \<le> earliest"
      unfolding earliest_def using that by (intro Max_ge) auto
    moreover have "latest \<le> report_time ''requested_end_time_ms'' (the (reports i))"
      unfolding latest_def using that by (intro Min_le) auto
    moreover have "latest div hour_ms * hour_ms \<le> latest"
      using div_mult_mod_eq [of latest hour_ms] pos_mod_sign [of hour_ms latest] by linarith
    ultimately show ?thesis using r(1,3) by linarith
  qed
  then show ?thesis using that m r by (simp add: valid_BacktestSpec_def)
qed

text \<open>The three histories of a loaded dataset are closed grids of its symbol.\<close>

definition loaded_history :: "string \<Rightarrow> string \<Rightarrow> int \<Rightarrow> int \<Rightarrow> Candle list \<Rightarrow> bool" where
  "loaded_history symbol interval a e cs \<longleftrightarrow> list_all (closed_bar symbol interval) cs
     \<and> map cd_open_time_ms cs = py_range a e (interval_ms interval) \<and> a mod interval_ms interval = 0 \<and> 0 < a"

lemma load_accepted_Inr:
  assumes "load_accepted_dataset database c c c spec = Inr d" "manifest_snapshot c c c = Inr manifest"
    "reports_for manifest (sp_symbol spec) = Inr reports"
  shows "ds_spec d = spec"
    "\<forall>(i, cs) \<in> {(PRIMARY_INTERVAL, ds_primary d), (CONTEXT_INTERVAL, ds_context d), (REGIME_INTERVAL, ds_regime d)}.
       loaded_history (sp_symbol spec) i (report_time ''requested_start_time_ms'' (the (reports i)))
         (report_time ''requested_end_time_ms'' (the (reports i))) cs"
proof -
  from assms obtain db where rows: "read_rows db (the (reports PRIMARY_INTERVAL)) = Inr (ds_primary d)"
    "read_rows db (the (reports CONTEXT_INTERVAL)) = Inr (ds_context d)"
    "read_rows db (the (reports REGIME_INTERVAL)) = Inr (ds_regime d)" and s: "ds_spec d = spec"
    by (auto simp: load_accepted_dataset_def bind_r_eq_Inr split: if_splits option.splits)
  have "loaded_history (sp_symbol spec) i (report_time ''requested_start_time_ms'' (the (reports i)))
      (report_time ''requested_end_time_ms'' (the (reports i))) cs"
    if I: "i \<in> set INTERVALS" and C: "read_rows db (the (reports i)) = Inr cs" for i cs
  proof -
    obtain report where r: "reports i = Some report" "json_get_str ''symbol'' report = Some (sp_symbol spec)"
      "json_get_str ''interval'' report = Some i" "health_gate (interval_ms i) report"
      using reports_for_item [OF assms(2,3) I] by blast
    have i: "INTERVAL_MILLISECONDS i = Some (interval_ms i)"
      using I by (auto simp: INTERVALS_def interval_ms_def PRIMARY_INTERVAL_def CONTEXT_INTERVAL_def REGIME_INTERVAL_def)
    show ?thesis
      using read_rows_Inr [OF _ r(2,3) i r(4) refl refl, of db cs] C r(1) by (simp add: loaded_history_def)
  qed
  from this [OF _ rows(1)] this [OF _ rows(2)] this [OF _ rows(3)]
  show "\<forall>(i, cs) \<in> {(PRIMARY_INTERVAL, ds_primary d), (CONTEXT_INTERVAL, ds_context d), (REGIME_INTERVAL, ds_regime d)}.
       loaded_history (sp_symbol spec) i (report_time ''requested_start_time_ms'' (the (reports i)))
         (report_time ''requested_end_time_ms'' (the (reports i))) cs"
    by (simp add: INTERVALS_def)
  show "ds_spec d = spec" by (rule s)
qed

text \<open>Every decision of the range has a snapshot, hence an event.\<close>

lemma served_event:
  assumes "\<forall>(i, cs) \<in> {(PRIMARY_INTERVAL, ds_primary d), (CONTEXT_INTERVAL, ds_context d), (REGIME_INTERVAL, ds_regime d)}.
      \<exists>a e. loaded_history (sp_symbol (ds_spec d)) i a e cs \<and> a + 4 * hour_ms \<le> sp_start_time_ms (ds_spec d)
        \<and> sp_end_time_ms (ds_spec d) \<le> e"
    and t: "sp_start_time_ms (ds_spec d) \<le> t" "t < sp_end_time_ms (ds_spec d)" "t mod hour_ms = 0"
  shows "\<exists>e. clock_event d (n, t) = Inr e"
proof -
  have h: "validate_history (visible_before t cs) (sp_symbol (ds_spec d)) i t = Inr () \<and> 0 < t"
    if ics: "(i, cs) \<in> {(PRIMARY_INTERVAL, ds_primary d), (CONTEXT_INTERVAL, ds_context d), (REGIME_INTERVAL, ds_regime d)}" for i cs
  proof -
    obtain a e where ae: "loaded_history (sp_symbol (ds_spec d)) i a e cs" "a + 4 * hour_ms \<le> sp_start_time_ms (ds_spec d)"
      "sp_end_time_ms (ds_spec d) \<le> e" using assms(1) ics by blast
    have "0 < interval_ms i" "interval_ms i \<le> 4 * hour_ms" using ics by auto
    then have "validate_history (visible_before t cs) (sp_symbol (ds_spec d)) i t = Inr ()"
      using ae t by (intro visible_grid_legal [of "interval_ms i" i a t e]) (auto simp: loaded_history_def)
    then show ?thesis using ae t by (auto simp: loaded_history_def)
  qed
  have "\<exists>s. snapshot_at d t = Inr s \<and> ms_decision_time_ms s = t" "0 < t"
    using t h [of PRIMARY_INTERVAL "ds_primary d"] h [of CONTEXT_INTERVAL "ds_context d"] h [of REGIME_INTERVAL "ds_regime d"]
    by (auto simp: snapshot_at_def construct_def MarketSnapshot_post_init_def)
  then show ?thesis using t by (auto simp: clock_event_def construct_def DecisionEvent_post_init_def)
qed

text \<open>C24. A dataset that was accepted and loaded can be replayed to its end: when the latest range of a
manifest is chosen and the database is loaded for it, with the manifest unchanged, the clock returns
an event for every hour of the range, and there are as many as were asked for. No decision of the
range lacks a history, whatever the candles hold.\<close>

theorem loaded_dataset_serves:
  assumes "latest_spec_from_manifest c c c symbol hours = Inr spec" "load_accepted_dataset database c c c spec = Inr d"
  shows "\<exists>events. clock_events d = Inr events \<and> int (length events) = hours
    \<and> map de_decision_time_ms events = py_range (sp_start_time_ms spec) (sp_end_time_ms spec) hour_ms"
proof -
  from latest_spec_Inr [OF assms(1)] obtain manifest reports where m: "manifest_snapshot c c c = Inr manifest"
    "reports_for manifest symbol = Inr reports" "sp_symbol spec = symbol" "valid_BacktestSpec spec"
    "sp_end_time_ms spec = sp_start_time_ms spec + hours * hour_ms"
    and w: "\<And>i. i \<in> set INTERVALS \<Longrightarrow> report_time ''requested_start_time_ms'' (the (reports i)) + 4 * hour_ms \<le> sp_start_time_ms spec
       \<and> sp_end_time_ms spec \<le> report_time ''requested_end_time_ms'' (the (reports i))" by blast
  have l: "ds_spec d = spec"
    "\<forall>(i, cs) \<in> {(PRIMARY_INTERVAL, ds_primary d), (CONTEXT_INTERVAL, ds_context d), (REGIME_INTERVAL, ds_regime d)}.
       loaded_history symbol i (report_time ''requested_start_time_ms'' (the (reports i)))
         (report_time ''requested_end_time_ms'' (the (reports i))) cs"
    using load_accepted_Inr [OF assms(2) m(1)] m(2,3) by auto
  have served: "\<forall>(i, cs) \<in> {(PRIMARY_INTERVAL, ds_primary d), (CONTEXT_INTERVAL, ds_context d), (REGIME_INTERVAL, ds_regime d)}.
      \<exists>a e. loaded_history (sp_symbol (ds_spec d)) i a e cs \<and> a + 4 * hour_ms \<le> sp_start_time_ms (ds_spec d)
        \<and> sp_end_time_ms (ds_spec d) \<le> e"
    using l(2) w [of PRIMARY_INTERVAL] w [of CONTEXT_INTERVAL] w [of REGIME_INTERVAL]
    unfolding l(1) m(3) by (simp add: INTERVALS_def) blast
  let ?ts = "py_range (sp_start_time_ms spec) (sp_end_time_ms spec) hour_ms"
  have served_at: "\<exists>e. clock_event d x = Inr e \<and> de_decision_time_ms e = snd x" if x: "x \<in> set (List.enumerate 0 ?ts)" for x
  proof -
    have "snd x = ?ts ! fst x" "fst x < length ?ts" using x by (simp_all add: in_set_enumerate_eq)
    then have "snd x \<in> set ?ts" by simp
    then have t: "sp_start_time_ms spec \<le> snd x" "snd x < sp_end_time_ms spec" "(snd x - sp_start_time_ms spec) mod hour_ms = 0"
      by (simp_all add: set_py_range del: dvd_imp_mod_0)
    moreover have "sp_start_time_ms spec mod hour_ms = 0" using valid_BacktestSpecD(4) [OF m(4)] .
    ultimately have "((snd x - sp_start_time_ms spec) + sp_start_time_ms spec) mod hour_ms = 0"
      by (simp only: mod_eq_0_iff_dvd dvd_add)
    then have "snd x mod hour_ms = 0" by simp
    then obtain e where "clock_event d (fst x, snd x) = Inr e" using served_event [OF served] t l(1) by metis
    then show ?thesis using clock_event_Inr(3) [of d "fst x" "snd x" e] by auto
  qed
  from map_r_exists [of "List.enumerate 0 ?ts" "clock_event d" "\<lambda>x e. de_decision_time_ms e = snd x", OF served_at] obtain events where ev: "clock_events d = Inr events"
    "list_all2 (\<lambda>x e. de_decision_time_ms e = snd x) (List.enumerate 0 ?ts) events"
    by (auto simp: clock_events_def l(1))
  then have times: "map de_decision_time_ms events = ?ts"
    by (auto simp: list_all2_conv_all_nth list_eq_iff_nth_eq nth_enumerate_eq)
  moreover have "int (length events) = hours"
  proof -
    have "0 < hours" using valid_BacktestSpecD(3) [OF m(4)] m(5) by simp
    then have "length ?ts = nat hours"
      using py_range_run [of hour_ms "sp_start_time_ms spec" "nat hours"] m(5) by simp
    then show ?thesis using \<open>0 < hours\<close> times [THEN arg_cong, of length] by simp
  qed
  ultimately show ?thesis using ev(1) by blast
qed

text \<open>
  The example: the manifest of thirty days from the first of January 2024, and a database with all
  the bars of one symbol.
\<close>

abbreviation first_ms :: int where "first_ms \<equiv> 1704067200000"
abbreviation stop_ms :: int where "stop_ms \<equiv> 1706659200000"

definition accepted_report :: "string \<times> string \<Rightarrow> (string \<times> json) list" where
  "accepted_report p =
     (let d = interval_ms (snd p); rows = JInt (2592000000 div d) in
      [(''source'', JStr DATA_SOURCE), (''symbol'', JStr (fst p)), (''interval'', JStr (snd p)),
       (''requested_start_time_ms'', JInt first_ms), (''requested_end_time_ms'', JInt stop_ms),
       (''stored_first_open_time_ms'', JInt first_ms), (''stored_last_open_time_ms'', JInt (stop_ms - d)),
       (''total_rows'', rows), (''unique_rows'', rows), (''closed_rows'', rows), (''open_rows'', JInt 0),
       (''duplicate_open_times'', JList []), (''historical_gap_open_times'', JList []), (''repair_ranges'', JList []),
       (''unexpected_open_times'', JList []), (''malformed_rows'', JInt 0), (''conflicting_rows'', JInt 0),
       (''freshness_ms'', JInt 0), (''fresh'', JBool True), (''backtest_ready'', JBool True), (''failure_reasons'', JList [])])"

definition accepted_manifest :: "(string \<times> json) list" where
  "accepted_manifest = [(''schema_version'', JInt 1), (''database_schema_version'', JInt 1), (''dataset_kind'', JStr DATASET_KIND),
     (''range_days'', JInt 30), (''generated_at_ms'', JInt 1), (''datasets'', JList (map (JObj \<circ> accepted_report) expected_pairs))]"

definition accepted_content :: string where
  "accepted_content = json_dumps (JObj accepted_manifest)"

definition sorted_report :: "string \<times> string \<Rightarrow> json" where
  "sorted_report p = json_sorted (JObj (accepted_report p))"

lemma accepted_report_ok: "json_ok (JObj (accepted_report p))"
  by (simp add: accepted_report_def Let_def)

lemma accepted_manifest_ok: "json_ok (JObj accepted_manifest)"
  using accepted_report_ok by (simp add: accepted_manifest_def list_all_iff)

lemma report_get: "json_get k (sorted_report p) = map_option json_sorted (map_of (accepted_report p) k)"
  unfolding sorted_report_def by (rule json_get_sorted [OF accepted_report_ok])

lemma manifest_get: "json_get k (json_sorted (JObj accepted_manifest)) = map_option json_sorted (map_of accepted_manifest k)"
  by (rule json_get_sorted [OF accepted_manifest_ok])

lemma sorted_report_object: "\<exists>kvs. sorted_report p = JObj kvs"
  by (simp add: sorted_report_def)

lemma report_fields:
  "json_get ''symbol'' (sorted_report p) = Some (JStr (fst p))" "json_get ''interval'' (sorted_report p) = Some (JStr (snd p))"
  "json_get ''source'' (sorted_report p) = Some (JStr DATA_SOURCE)"
  "json_get ''total_rows'' (sorted_report p) = Some (JInt (2592000000 div interval_ms (snd p)))"
  "report_time ''requested_start_time_ms'' (sorted_report p) = first_ms"
  "report_time ''requested_end_time_ms'' (sorted_report p) = stop_ms"
  by (simp_all add: report_get report_time_def json_get_int_def accepted_report_def Let_def)

lemma accepted_ints:
  "report_int ''requested_start_time_ms'' (sorted_report p) = Inr first_ms"
  "report_int ''requested_end_time_ms'' (sorted_report p) = Inr stop_ms"
  by (simp_all add: report_get report_int_def accepted_report_def Let_def)

lemma sorted_report_gate: "health_gate (interval_ms (snd p)) (sorted_report p)"
  by (simp add: health_gate_def report_get json_get_int_def accepted_report_def json_is_def EXPECTED_DAYS_def Let_def)

lemma accepted_datasets:
  "manifest_datasets (json_sorted (JObj accepted_manifest)) = Some (map sorted_report expected_pairs)"
  by (simp add: manifest_datasets_def json_get_def accepted_manifest_def sorted_report_def [abs_def] comp_def)

lemma audit_sorted_report:
  assumes "p \<in> set expected_pairs" "p \<notin> set seen"
  shows "audit_reports seen n (sorted_report p # reports)
    = audit_reports (p # seen) (n + 2592000000 div interval_ms (snd p)) reports"
proof -
  obtain kvs where k: "sorted_report p = JObj kvs" using sorted_report_object by blast
  note F = report_fields(1-3) [of p, unfolded k]
  have "json_get_str ''symbol'' (JObj kvs) = Some (fst p)" "json_get_str ''interval'' (JObj kvs) = Some (snd p)"
    using F by (simp_all add: json_get_str_def)
  then show ?thesis
    using assms F sorted_report_gate [of p, unfolded k] by (simp add: k unhashable_def EXPECTED_DAYS_def)
qed

lemma expected_pairs_eq: "expected_pairs = [(''BTCUSDT'', ''15m''), (''BTCUSDT'', ''1h''), (''BTCUSDT'', ''4h''),
    (''ETHUSDT'', ''15m''), (''ETHUSDT'', ''1h''), (''ETHUSDT'', ''4h'')]"
  by (simp add: expected_pairs_def SYMBOLS_def)

lemma audit_accepted:
  "audit_reports [] 0 (map sorted_report expected_pairs) = Inr (rev expected_pairs, 7560)"
  by (simp add: expected_pairs_eq audit_sorted_report interval_ms_def del: audit_reports.simps(2))

lemma length_int_bound: "0 \<le> i \<Longrightarrow> i < 10 ^ 15 \<Longrightarrow> length (int_str i) \<le> 15"
  by (simp add: int_str_def ndigits_le_iff nat_less_iff)

lemma length_report:
  assumes "p \<in> set expected_pairs"
  shows "length (json_dumps (JObj (accepted_report p))) \<le> 20000"
proof -
  have t: "fst p = ''BTCUSDT'' \<or> fst p = ''ETHUSDT''" "snd p = ''15m'' \<or> snd p = ''1h'' \<or> snd p = ''4h''"
    using assms by (auto simp: expected_pairs_eq)
  then have "length (json_string (fst p)) \<le> 100" "length (json_string (snd p)) \<le> 100" "length (json_string DATA_SOURCE) \<le> 200"
    using length_json_string [of "fst p"] length_json_string [of "snd p"] length_json_string [of DATA_SOURCE]
    by (auto simp: DATA_SOURCE_def)
  moreover have "length (int_str (2592000000 div interval_ms (snd p))) \<le> 15" "length (int_str (stop_ms - interval_ms (snd p))) \<le> 15"
    "length (int_str first_ms) \<le> 15" "length (int_str stop_ms) \<le> 15" "length (int_str 0) \<le> 15"
    by (rule length_int_bound; use t(2) in \<open>auto simp: interval_ms_def\<close>)+
  ultimately show ?thesis
    using length_object_bound [of "accepted_report p"]
    by (simp add: accepted_report_def Let_def del: json_dumps.simps(6))
qed

lemma accepted_content_size: "length accepted_content \<le> MAX_MANIFEST_BYTES"
proof -
  have "length expected_pairs = 6" by (simp add: expected_pairs_eq)
  moreover have "length (json_dumps x) \<le> 20000" if "x \<in> set (map (JObj \<circ> accepted_report) expected_pairs)" for x
    using that length_report by (auto simp del: json_dumps.simps)
  ultimately have l: "length (json_dumps (JList (map (JObj \<circ> accepted_report) expected_pairs))) \<le> 2 + 6 * 20001"
    using length_list_bound [of "map (JObj \<circ> accepted_report) expected_pairs" 20000] by (simp del: json_dumps.simps)
  have i: "length (int_str 1) \<le> 400" "length (int_str 30) \<le> 400" by code_simp+
  show ?thesis
    using length_object_bound [of accepted_manifest] l i length_json_string [of DATASET_KIND]
    unfolding accepted_content_def
    by (simp add: accepted_manifest_def DATASET_KIND_def MAX_MANIFEST_BYTES_def del: json_dumps.simps(5,6))
qed

lemma accepted_content_read:
  "json_loads (decode_sig accepted_content) = Some (json_sorted (JObj accepted_manifest))" "accepted_content \<noteq> []"
proof -
  obtain rest where r: "accepted_content = CHR ''{'' # rest" by (simp add: accepted_content_def)
  then have "decode_sig accepted_content = accepted_content" unfolding r by (simp add: decode_sig_def)
  then show "json_loads (decode_sig accepted_content) = Some (json_sorted (JObj accepted_manifest))"
    unfolding accepted_content_def using json_loads_dumps [OF accepted_manifest_ok] by simp
  show "accepted_content \<noteq> []" unfolding r by simp
qed

lemma accepted_snapshot:
  "manifest_snapshot (Some accepted_content) (Some accepted_content) (Some accepted_content)
     = Inr (json_sorted (JObj accepted_manifest))"
proof -
  let ?m = "json_sorted (JObj accepted_manifest)"
  have "read_manifest (Some accepted_content) = Inr ?m"
    using accepted_content_size accepted_content_read by (simp add: read_manifest_def)
  moreover have "json_get_int ''generated_at_ms'' ?m = Some 1" "json_is 1 (json_get ''schema_version'' ?m)"
    "json_is 1 (json_get ''database_schema_version'' ?m)" "json_get ''dataset_kind'' ?m = Some (JStr DATASET_KIND)"
    "json_is EXPECTED_DAYS (json_get ''range_days'' ?m)"
    unfolding json_get_int_def manifest_get by (simp_all add: accepted_manifest_def json_is_def EXPECTED_DAYS_def)
  ultimately have "audit_p1_manifest (Some accepted_content) = Inr \<lparr> pa_datasets = 6, pa_closed_rows = 7560, pa_range_days = EXPECTED_DAYS \<rparr>"
    using accepted_datasets audit_accepted expected_pairs_eq [THEN arg_cong, of length]
    by (simp add: audit_p1_manifest_def Let_def del: json_sorted.simps audit_reports.simps)
  then show ?thesis
    using accepted_content_size accepted_content_read by (simp add: manifest_snapshot_def Let_def)
qed

definition accepted_reports :: "string \<Rightarrow> json option" where
  "accepted_reports = [''15m'' \<mapsto> sorted_report (''BTCUSDT'', ''15m''), ''1h'' \<mapsto> sorted_report (''BTCUSDT'', ''1h''),
     ''4h'' \<mapsto> sorted_report (''BTCUSDT'', ''4h'')]"

lemma accepted_reports_for: "reports_for (json_sorted (JObj accepted_manifest)) ''BTCUSDT'' = Inr accepted_reports"
proof -
  let ?m = "json_sorted (JObj accepted_manifest)"
  have u: "\<not> unhashable (Some (JStr s))" for s by (simp add: unhashable_def)
  have c: "collect_reports ''BTCUSDT'' pairs (sorted_report p # items) =
      (if fst p = ''BTCUSDT'' then collect_reports ''BTCUSDT'' ((Some (JStr (snd p)), sorted_report p) # pairs) items
       else collect_reports ''BTCUSDT'' pairs items)" for p pairs items
  proof -
    obtain kvs where k: "sorted_report p = JObj kvs" using sorted_report_object by blast
    show ?thesis using report_fields(1,2) [of p] unfolding k by (simp add: u)
  qed
  have "manifest_items ?m = Inr (map sorted_report expected_pairs)"
    using accepted_datasets by (auto simp: manifest_items_def manifest_datasets_def json_get_def py_tuple_def split: json.splits option.splits)
  moreover have "collect_reports ''BTCUSDT'' [] (map sorted_report expected_pairs) =
      Inr (rev (map (\<lambda>i. (Some (JStr i), sorted_report (''BTCUSDT'', i))) [''15m'', ''1h'', ''4h'']))"
    by (simp add: expected_pairs_eq c del: collect_reports.simps(2))
  moreover have "(\<lambda>i. map_of (rev (map (\<lambda>i. (Some (JStr i), sorted_report (''BTCUSDT'', i))) [''15m'', ''1h'', ''4h''])) (Some (JStr i)))
      = accepted_reports"
    by (auto simp: accepted_reports_def fun_eq_iff)
  moreover have "set (map fst (rev (map (\<lambda>i. (Some (JStr i), sorted_report (''BTCUSDT'', i))) [''15m'', ''1h'', ''4h''])))
      = (Some \<circ> JStr) ` set INTERVALS"
    by (auto simp: INTERVALS_def PRIMARY_INTERVAL_def CONTEXT_INTERVAL_def REGIME_INTERVAL_def)
  ultimately show ?thesis unfolding reports_for_def by simp
qed

lemma accepted_reports_at:
  "i \<in> set INTERVALS \<Longrightarrow> accepted_reports i = Some (sorted_report (''BTCUSDT'', i))"
  by (auto simp: accepted_reports_def INTERVALS_def PRIMARY_INTERVAL_def CONTEXT_INTERVAL_def REGIME_INTERVAL_def)

definition accepted_spec :: BacktestSpec where
  "accepted_spec = default_spec ''BTCUSDT'' (stop_ms - hour_ms) stop_ms"

lemma accepted_latest:
  "latest_spec_from_manifest (Some accepted_content) (Some accepted_content) (Some accepted_content) ''BTCUSDT'' 1
     = Inr accepted_spec"
proof -
  have t: "map_r (report_int ''requested_start_time_ms'') (map (\<lambda>i. the (accepted_reports i)) INTERVALS) = Inr [first_ms, first_ms, first_ms]"
    "map_r (report_int ''requested_end_time_ms'') (map (\<lambda>i. the (accepted_reports i)) INTERVALS) = Inr [stop_ms, stop_ms, stop_ms]"
    using accepted_reports_at by (simp_all add: INTERVALS_def accepted_ints)
  have "BacktestSpec_post_init accepted_spec = Inr ()"
    by (simp add: BacktestSpec_post_init_def accepted_spec_def default_spec_def bounded_decimal_def SYMBOLS_def
        MAX_PRIMARY_CANDLES_def MAX_INITIAL_CASH_def MAX_COST_BPS_def py_eval)
  then show ?thesis
    unfolding latest_spec_from_manifest_def accepted_snapshot bind_r_simps accepted_reports_for Let_def t
    by (simp add: construct_def accepted_spec_def)
qed

definition stored_row :: "string \<Rightarrow> int \<Rightarrow> CandleRow" where
  "stored_row i t = \<lparr> cr_candle = example_candle\<lparr> cd_interval := i, cd_open_time_ms := t, cd_close_time_ms := t + interval_ms i - 1 \<rparr>,
     cr_is_closed = 1 \<rparr>"

definition accepted_database :: CandleDatabase where
  "accepted_database = \<lparr> cb_version = Some 1,
     cb_candles = Some (concat (map (\<lambda>i. map (stored_row i) (py_range first_ms stop_ms (interval_ms i))) INTERVALS)) \<rparr>"

lemma stored_row_candle:
  assumes "INTERVAL_MILLISECONDS i = Some d" "0 \<le> t" "t mod d = 0"
  shows "row_candle (stored_row i t) = Inr (cr_candle (stored_row i t))"
proof -
  have "valid_Candle (cr_candle (stored_row i t))"
    using assms example_candle_valid
    by (simp add: valid_Candle_def Candle_post_init_def stored_row_def interval_ms_def example_candle_def split: if_splits)
  then show ?thesis
    by (simp add: row_candle_def stored_row_def construct_def valid_Candle_def example_candle_def)
qed

lemma sorted_py_range: "0 < s \<Longrightarrow> sorted (py_range a b s)"
  by (simp add: py_range_def sorted_iff_nth_mono mult_right_mono)

lemma stored_rows_selected:
  assumes "i \<in> set INTERVALS"
  shows "filter (\<lambda>r. let c = cr_candle r in cd_source c = DATA_SOURCE \<and> cd_symbol c = ''BTCUSDT'' \<and> cd_interval c = i
      \<and> first_ms \<le> cd_open_time_ms c \<and> cd_open_time_ms c < stop_ms)
      (concat (map (\<lambda>i. map (stored_row i) (py_range first_ms stop_ms (interval_ms i))) INTERVALS))
    = map (stored_row i) (py_range first_ms stop_ms (interval_ms i))"
proof -
  have "filter (\<lambda>r. let c = cr_candle r in cd_source c = DATA_SOURCE \<and> cd_symbol c = ''BTCUSDT'' \<and> cd_interval c = i
      \<and> first_ms \<le> cd_open_time_ms c \<and> cd_open_time_ms c < stop_ms) (map (stored_row k) (py_range first_ms stop_ms (interval_ms k)))
    = (if k = i then map (stored_row k) (py_range first_ms stop_ms (interval_ms k)) else [])" if "k \<in> set INTERVALS" for k
  proof -
    have "0 < interval_ms k" using that by (auto simp: INTERVALS_def)
    then show ?thesis
      by (auto simp: filter_empty_conv filter_id_conv stored_row_def example_candle_def DATA_SOURCE_def set_py_range Let_def)
  qed
  then show ?thesis
    using assms by (auto simp: INTERVALS_def filter_concat PRIMARY_INTERVAL_def CONTEXT_INTERVAL_def REGIME_INTERVAL_def)
qed

lemma accepted_rows:
  assumes "i \<in> set INTERVALS"
  shows "\<exists>cs. read_rows accepted_database (sorted_report (''BTCUSDT'', i)) = Inr cs"
proof -
  let ?ts = "py_range first_ms stop_ms (interval_ms i)" and ?r = "sorted_report (''BTCUSDT'', i)"
  have i: "interval_ms i \<in> {900000, 3600000, 14400000}" "INTERVAL_MILLISECONDS i = Some (interval_ms i)"
    using assms by (auto simp: INTERVALS_def interval_ms_def PRIMARY_INTERVAL_def CONTEXT_INTERVAL_def REGIME_INTERVAL_def)
  have o: "cd_open_time_ms (cr_candle (stored_row i t)) = t" for t by (simp add: stored_row_def)
  have rows: "sort_key (\<lambda>r. cd_open_time_ms (cr_candle r)) (map (stored_row i) ?ts) = map (stored_row i) ?ts"
    using i by (intro sort_key_id_if_sorted) (auto simp: comp_def o sorted_py_range)
  have "length ?ts = nat (2592000000 div interval_ms i)" "length ?ts \<le> 2880"
    using i(1) by (auto simp: length_py_range)
  then have n: "json_is (int (length ?ts)) (json_get ''total_rows'' ?r)" "\<not> MAX_LOADED_ROWS < length ?ts"
    using i(1) by (auto simp: report_fields json_is_def MAX_LOADED_ROWS_def)
  have grid: "t mod interval_ms i = 0 \<and> 0 \<le> t" if "t \<in> set ?ts" for t
  proof -
    have "0 < interval_ms i" "first_ms mod interval_ms i = 0" using i(1) by auto
    moreover from this that have "(t - first_ms) mod interval_ms i = 0" "first_ms \<le> t" by (auto simp only: set_py_range mem_Collect_eq)
    ultimately have "((t - first_ms) + first_ms) mod interval_ms i = 0" by (simp only: mod_eq_0_iff_dvd dvd_add)
    then show ?thesis using \<open>first_ms \<le> t\<close> by simp
  qed
  have c: "map_r row_candle (map (stored_row i) ?ts) = Inr (map (\<lambda>t. cr_candle (stored_row i t)) ?ts)"
    using grid by (intro map_r_pointwise) (blast intro: stored_row_candle [OF i(2)])
  have s: "json_get_str ''symbol'' ?r = Some ''BTCUSDT''" "json_get_str ''interval'' ?r = Some i"
    by (simp_all add: json_get_str_def report_fields)
  show ?thesis
    using n c o
    by (simp add: read_rows_def accepted_database_def s report_fields accepted_ints stored_rows_selected [OF assms, unfolded Let_def] rows comp_def Let_def)
qed

lemma accepted_loads:
  "\<exists>d. load_accepted_dataset (Some accepted_database) (Some accepted_content) (Some accepted_content) (Some accepted_content)
     accepted_spec = Inr d"
proof -
  have r: "the (accepted_reports i) = sorted_report (''BTCUSDT'', i)" if "i \<in> set INTERVALS" for i
    using accepted_reports_at [OF that] by simp
  have v: "json_is 1 (json_get ''database_schema_version'' (json_sorted (JObj accepted_manifest)))"
    unfolding manifest_get by (simp add: accepted_manifest_def json_is_def)
  have s: "sp_symbol accepted_spec = ''BTCUSDT''" "sp_start_time_ms accepted_spec = stop_ms - hour_ms" "sp_end_time_ms accepted_spec = stop_ms"
    "cb_version accepted_database = Some 1"
    by (simp_all add: accepted_spec_def default_spec_def accepted_database_def)
  have i: "PRIMARY_INTERVAL \<in> set INTERVALS" "CONTEXT_INTERVAL \<in> set INTERVALS" "REGIME_INTERVAL \<in> set INTERVALS"
    by (simp_all add: INTERVALS_def)
  have range: "map_r (range_accepted accepted_spec) (map (\<lambda>i. the (accepted_reports i)) INTERVALS) = Inr [(), (), ()]"
    using r by (simp add: INTERVALS_def range_accepted_def s accepted_ints)
  have g: "report_int ''generated_at_ms'' (json_sorted (JObj accepted_manifest)) = Inr 1"
    unfolding report_int_def manifest_get by (simp add: accepted_manifest_def)
  show ?thesis
    using accepted_rows [OF i(1)] accepted_rows [OF i(2)] accepted_rows [OF i(3)] v
    unfolding load_accepted_dataset_def accepted_snapshot bind_r_simps s(1) accepted_reports_for range
    by (auto simp: s(4) r [OF i(1)] r [OF i(2)] r [OF i(3)] g json_is_def simp del: json_sorted.simps)
qed

theorem loaded_dataset_serves_witness:
  "\<exists>d events. load_accepted_dataset (Some accepted_database) (Some accepted_content) (Some accepted_content) (Some accepted_content)
     accepted_spec = Inr d \<and> clock_events d = Inr events \<and> length events = 1"
proof -
  obtain d where d: "load_accepted_dataset (Some accepted_database) (Some accepted_content) (Some accepted_content)
    (Some accepted_content) accepted_spec = Inr d" using accepted_loads by blast
  from loaded_dataset_serves [OF accepted_latest this] obtain events where "clock_events d = Inr events" "int (length events) = 1"
    by blast
  then show ?thesis using d by auto
qed

end
