(* ===== verification/Spec2Isabelle.thy ===== *)
theory Spec2Isabelle
  imports Execution_Runner Strategy_Evaluation Backtest_Artifacts Data_Health Backtest_Loader
begin

text \<open>
  \<^bold>\<open>The program.\<close> YATL (\<^verbatim>\<open>src/yatl\<close>) is a trading laboratory that never leaves paper.
  Closed one-hour, quarter-hour and four-hour candles are validated and turned into
  point-in-time snapshots; two frozen long-only candidate strategies read a snapshot and
  propose to enter, to hold or to leave; the risk layer turns a proposal into an
  authorization with complete numeric evidence, or refuses it; the execution layer records
  the accepted intent in a journal, moves a local order through its lifecycle, and books
  the fill with its costs into a portfolio. Every record carries a SHA-256 digest of its
  canonical JSON text, every money amount is a Python Decimal, every stateful object
  restores itself when an operation raises.

  \<^bold>\<open>Conventions.\<close> A frozen dataclass is a \<^verbatim>\<open>record\<close> with a field prefix; its
  \<^verbatim>\<open>__post_init__\<close> is \<open>X_post_init\<close>, with the checks and messages of the source in their
  order, and \<open>construct X_post_init r\<close> is the constructor call; \<open>valid_X\<close> says that the
  record and the records in it could be constructed. A constructor that normalises its
  fields is \<open>X_init\<close> and returns the record. A \<^verbatim>\<open>raise\<close> is a value \<open>Inl e\<close> of
  \<open>py_error\<close>, one constructor per exception class. A mutating method is an \<open>action\<close>: from
  the object to the object at the moment of return or raise, with the result;
  \<open>with_rollback\<close> is the \<^verbatim>\<open>try: ... except: restore; raise\<close> pattern. The checks
  \<^verbatim>\<open>type(x) is T\<close> and \<^verbatim>\<open>isinstance\<close> are the types of the definitions, so the branches
  that reject a value of another type do not appear. Texts are ASCII strings.

  \<^bold>\<open>The standard library.\<close> \<open>Py_Decimal\<close> defines Python Decimal arithmetic: sign, coefficient
  and exponent, rounding half to even at a precision which is 256 inside the local contexts of
  the source and 28 outside, division with its ideal exponent, parsing and
  \<^verbatim>\<open>format(x, "f")\<close>. \<open>Decimal_Value\<close> gives the rational value \<open>val\<close> and proves when an
  operation is exact and how rounding respects bounds; \<open>Decimal_Text\<close> is the text round trip;
  \<open>Decimal_Root\<close> is the correctly rounded square root.
  \<open>Py_Json\<close> defines \<^verbatim>\<open>json.dumps\<close> with sorted keys and SHA-256 over 32-bit words, \<open>Py_Json_Read\<close>
  \<^verbatim>\<open>json.loads\<close> (without fractions, exponents and characters above 255) with the round trip, so
  a digest in the model is the digest of the program; no theorem assumes it to be collision
  free, a collision is a case of the statement where one matters. \<open>Execution_Database\<close> holds the
  SQLite tables as lists of rows with their primary, unique and foreign keys; statements either
  succeed or violate a constraint, other storage failures are not modelled. An order event whose time does
  not fit the 64-bit column is the \<^verbatim>\<open>OverflowError\<close> of the driver.

  \<^bold>\<open>The components\<close>, in the order of the data flow:
  \<^item> \<open>Market_Data\<close>: candles, duplicates and gaps (\<^verbatim>\<open>data/models.py\<close>, \<^verbatim>\<open>quality.py\<close>,
    \<^verbatim>\<open>history.py\<close>). \<open>Data_Health\<close>: candles from exchange payloads and the health report of a range
    (\<^verbatim>\<open>normalize.py\<close>, \<^verbatim>\<open>health.py\<close>), which says ready exactly when every closed bar is there.
  \<^item> \<open>Backtest_Market\<close>: specification, snapshots, clock (\<^verbatim>\<open>backtest/config.py\<close>, \<^verbatim>\<open>models.py\<close>,
    \<^verbatim>\<open>loader.py\<close>, \<^verbatim>\<open>clock.py\<close>). Snapshots never look ahead; the clock is complete. \<open>Backtest_Loader\<close>:
    the acceptance audit of the dataset manifest (\<^verbatim>\<open>data/audit.py\<close>), the latest range and the loading of
    the candles; a loaded dataset has a snapshot for every decision of its range.
  \<^item> \<open>Backtest_Fills\<close>, \<open>Backtest_Costs\<close>, \<open>Backtest_Portfolio\<close>: the paper fill engine, the cost
    model and the ledger. The engine refines an abstract holding and fills no more than
    the volume of the candle, up to the rounding of its check; the costs and the books are exact, failures change
    nothing. \<open>Backtest_Metrics\<close>: the performance report over an equity
    curve (\<^verbatim>\<open>metrics.py\<close>), whose money figures and counts are exact and whose drawdown is the exact one rounded once.
    \<open>Backtest_Artifacts\<close>: the run manifest (\<^verbatim>\<open>artifacts.py\<close>), whose trades reconcile with ledger and report.
  \<^item> \<open>Strategy_Contracts\<close>, \<open>Strategy_Features\<close>, \<open>Strategy_Candidates\<close>, \<open>Strategy_Registry\<close>,
    \<open>Strategy_Adapter\<close>: identities, decisions, indicators, regime, the two candidates, their
    registered configurations and the stateful bridge to the fill engine. \<open>Strategy_Evaluation\<close> is
    the evidence protocol of \<^verbatim>\<open>evaluate.py\<close>; its label is shown to be exact.
  \<^item> \<open>Risk_Contracts\<close>, \<open>Risk_Sizing\<close>, \<open>Risk_State\<close>, \<open>Risk_Circuit\<close>, \<open>Kill_Switch\<close>,
    \<open>Risk_Protective\<close>, \<open>Risk_Adapter\<close>: one theory per file of \<^verbatim>\<open>risk/\<close> (sizing with limits),
    from the request to the gateway which alone may fill. The sized quantity is the largest multiple of the step
    within the loss budget, the managed state gives away every edit of its history unless SHA-256 collides, and
    the kill switch is released by a confirmed manual reset only.
  \<^item> \<open>Execution_Contracts\<close>, \<open>Execution_Database\<close>, \<open>Execution_Journal\<close>, \<open>Execution_Orders\<close>,
    \<open>Execution_Fills\<close>, \<open>Execution_Portfolio\<close>: routing, tables, intent journal, order store, local
    fills and the durable portfolio, which is shown to be the replay of its fill log.
    \<open>Execution_Reconcile\<close> is the startup check over all tables: sound on every database file, and
    complete on those that the stores have written. \<open>Execution_Recovery\<close> holds the snapshot of a
    reconciled database, its two-step commit and the recovery at startup (\<^verbatim>\<open>recovery.py\<close>): READY
    is sound for all contents of the files, a committed snapshot recovers after every further history, an
    interrupted commit is found and can be discarded. \<open>recover_startup\<close> is an action on the files, since the
    prefix check opens the database with \<^verbatim>\<open>sqlite3.connect\<close>, which creates a missing one
    (\<open>connect_database\<close>); \<open>read_limited\<close> translates CR LF and CR as \<^verbatim>\<open>read_text\<close> does.
    \<open>Execution_Runner\<close> holds the operator commands (\<^verbatim>\<open>runner.py\<close>): they never change an existing
    database, and their exit code is zero only on a reconciled one.

  \<^bold>\<open>Interfaces.\<close> \<open>atomic_object\<close> (a failed step changes nothing, a good one keeps the invariant) is
  interpreted by the ledger, the research adapter, the risk gateway, the journal, the order
  store, the local fill adapter and the whole database with its three writers; \<open>hash_chain\<close> by the managed state, the kill
  switch and the order states; \<open>keyed_table\<close> by the database tables. The
  properties about whole histories rest on the facts of these interpretations.

  \<^bold>\<open>Bounds.\<close> Loops are structural recursions; only the JSON reader takes fuel, twice the length of
  its text and one more, and the round trip shows that this is enough for every written text. The exactness theorems hold because
  inputs have at most 40 integer and 40 fractional digits and the precision is 256;
  a ledger holds at most 100000 fills, as the source enforces for a batch;
  a durable log that has grown beyond that is refused by every load, which the theorems say. The
  portfolio store is the only one of its database, for one symbol. Amounts in its payloads are
  read in the syntax that \<^verbatim>\<open>format(x, "f")\<close> writes; a list in the place of a number is not.
  The three files of the recovery (database, snapshot, pending snapshot) are the fields of
  \<open>RecoveryFiles\<close>, with \<open>rf_creatable\<close> saying whether a missing database file can be created; the outcome of writing and renaming is the parameter \<open>commit\<close> (done, failed while
  writing with any remainder, failed while renaming), so the theorems hold for each of them.
  The dataset manifest is given by the contents that its three reads find, so a manifest that changes during
  the audit is covered, with the \<^verbatim>\<open>KeyError\<close>, \<^verbatim>\<open>TypeError\<close> or \<^verbatim>\<open>AttributeError\<close> it can
  cause; the candle database by the
  rows of its table; the target of a run manifest is its content, with the outcome of writing as a
  parameter.
  \<open>the\<close> is applied only where a preceding check of the source has established the value.

  \<^bold>\<open>Not modelled\<close>: network and file input and output (\<^verbatim>\<open>data/rest.py\<close>, \<^verbatim>\<open>stream.py\<close>,
  \<^verbatim>\<open>storage.py\<close>, the opening and migration of databases, failing reads), the parsing of command lines, the scenario and audit
  drivers, analytics, dashboard, notifications, the language-model analyst, live validation, and the
  research scripts. The manifest lists each with its reason.
\<close>

end
